(* ===== verification/Runtime_Prelude.thy ===== *)
theory Runtime_Prelude
  imports Main "HOL-Library.Word"
begin

section \<open>Prelude: results, machine integers, byte strings, ordered maps\<close>

text \<open>
  The vocabulary shared by the component theories.
  \<^item> Rust's \<open>Result<T, E>\<close> is \<open>'e + 'a\<close> (\<open>Inl\<close> the error); \<open>rbind\<close> is the
    \<open>?\<close> operator, \<open>ensure\<close> an early return, \<open>map_err\<close> and \<open>ok_or\<close> the
    methods of the same names.
  \<^item> Fixed-width integers are words; \<open>usize\<close> is \<open>nat\<close> with the 64-bit ceiling written
    out in \<open>checked_add_usize\<close> (the repository targets x64).
  \<^item> \<open>to_le\<close>, \<open>le_nat\<close> and \<open>be_nat\<close> are the byte orders of the standard library's
    \<open>to_le_bytes\<close>, \<open>from_le_bytes\<close> and \<open>from_be_bytes\<close>.
  \<^item> \<open>utf8_valid\<close> is the acceptance condition of \<open>std::str::from_utf8\<close>.
  \<^item> a \<open>BTreeMap\<close> is an association list sorted by key, behind the locale
    \<open>ordered_map\<close>.
  \<^item> the locales \<open>guarded_machine\<close> and \<open>transactional_machine\<close> state once what a
    component with state owes its clients: an invariant kept by every operation, and
    failing operations that leave the state alone.
\<close>

named_theorems result_simps \<open>rewriting of results and their combinators\<close>

type_synonym u8 = "8 word"
type_synonym u16 = "16 word"
type_synonym u32 = "32 word"
type_synonym u64 = "64 word"
type_synonym usize = nat
type_synonym bytes = "u8 list"

subsection \<open>Results\<close>

definition rbind :: "'e + 'a \<Rightarrow> ('a \<Rightarrow> 'e + 'b) \<Rightarrow> 'e + 'b" where
  "rbind m f = (case m of Inl e \<Rightarrow> Inl e | Inr x \<Rightarrow> f x)"

definition ensure :: "bool \<Rightarrow> 'e \<Rightarrow> 'e + unit" where
  "ensure b e = (if b then Inr () else Inl e)"

definition map_err :: "('e \<Rightarrow> 'f) \<Rightarrow> 'e + 'a \<Rightarrow> 'f + 'a" where
  "map_err f m = (case m of Inl e \<Rightarrow> Inl (f e) | Inr x \<Rightarrow> Inr x)"

definition ok_or :: "'e \<Rightarrow> 'a option \<Rightarrow> 'e + 'a" where
  "ok_or e m = (case m of None \<Rightarrow> Inl e | Some x \<Rightarrow> Inr x)"

definition is_ok :: "'e + 'a \<Rightarrow> bool" where
  "is_ok m = (case m of Inl _ \<Rightarrow> False | Inr _ \<Rightarrow> True)"

lemma rbind_simps [simp, result_simps]:
  "rbind (Inl e) f = Inl e"
  "rbind (Inr x) f = f x"
  by (simp_all add: rbind_def)

lemma ensure_simps [simp, result_simps]:
  "ensure True e = Inr ()"
  "ensure False e = Inl e"
  by (simp_all add: ensure_def)

lemma map_err_simps [simp, result_simps]:
  "map_err g (Inl e) = Inl (g e)"
  "map_err g (Inr x) = Inr x"
  by (simp_all add: map_err_def)

lemma ok_or_simps [simp, result_simps]:
  "ok_or e None = Inl e"
  "ok_or e (Some x) = Inr x"
  by (simp_all add: ok_or_def)

lemma is_ok_simps [simp, result_simps]:
  "\<not> is_ok (Inl e)"
  "is_ok (Inr x)"
  by (simp_all add: is_ok_def)

lemma rbind_Inr_iff [result_simps]: "rbind m f = Inr y \<longleftrightarrow> (\<exists>x. m = Inr x \<and> f x = Inr y)"
  by (cases m) auto

lemma rbind_Inl_iff: "rbind m f = Inl e \<longleftrightarrow> m = Inl e \<or> (\<exists>x. m = Inr x \<and> f x = Inl e)"
  by (cases m) auto

lemma rbind_cong [fundef_cong]:
  "m = m' \<Longrightarrow> (\<And>x. m' = Inr x \<Longrightarrow> f x = g x) \<Longrightarrow> rbind m f = rbind m' g"
  by (cases m') auto

lemma ensure_Inr_iff [simp, result_simps]: "ensure b e = Inr u \<longleftrightarrow> b"
  by (simp add: ensure_def)

lemma ensure_Inl_iff [simp]: "ensure b e = Inl e' \<longleftrightarrow> \<not> b \<and> e' = e"
  by (auto simp: ensure_def)

lemma map_err_Inr_iff [simp, result_simps]: "map_err g m = Inr x \<longleftrightarrow> m = Inr x"
  by (cases m) auto

lemma ok_or_Inr_iff [simp, result_simps]: "ok_or e m = Inr x \<longleftrightarrow> m = Some x"
  by (cases m) auto

lemma is_ok_iff: "is_ok m \<longleftrightarrow> (\<exists>x. m = Inr x)"
  by (cases m) auto

subsection \<open>Checked arithmetic\<close>

definition checked_add :: "'a::len word \<Rightarrow> 'a word \<Rightarrow> 'a word option" where
  "checked_add a b = (if unat a + unat b < 2 ^ LENGTH('a) then Some (a + b) else None)"

definition checked_mul :: "'a::len word \<Rightarrow> 'a word \<Rightarrow> 'a word option" where
  "checked_mul a b = (if unat a * unat b < 2 ^ LENGTH('a) then Some (a * b) else None)"

definition checked_add_usize :: "usize \<Rightarrow> usize \<Rightarrow> usize option" where
  "checked_add_usize a b = (if a + b < 2 ^ 64 then Some (a + b) else None)"

definition checked_sub :: "'a::len word \<Rightarrow> 'a word \<Rightarrow> 'a word option" where
  "checked_sub a b = (if b \<le> a then Some (a - b) else None)"

definition checked_mul_usize :: "usize \<Rightarrow> usize \<Rightarrow> usize option" where
  "checked_mul_usize a b = (if a * b < 2 ^ 64 then Some (a * b) else None)"

definition checked_sub_usize :: "usize \<Rightarrow> usize \<Rightarrow> usize option" where
  "checked_sub_usize a b = (if b \<le> a then Some (a - b) else None)"

lemma checked_add_Some_iff:
  "checked_add a b = Some c \<longleftrightarrow> unat a + unat b < 2 ^ LENGTH('a) \<and> c = a + b"
  for a b c :: "'a::len word"
  by (auto simp: checked_add_def)

lemma checked_add_unat: "checked_add a b = Some c \<Longrightarrow> unat c = unat a + unat b"
  by (auto simp: checked_add_def unat_word_ariths split: if_splits)

lemma checked_add_None_iff:
  "checked_add a b = None \<longleftrightarrow> 2 ^ LENGTH('a) \<le> unat a + unat b" for a b :: "'a::len word"
  by (auto simp: checked_add_def not_less)

lemma checked_mul_unat: "checked_mul a b = Some c \<Longrightarrow> unat c = unat a * unat b"
  by (auto simp: checked_mul_def unat_word_ariths split: if_splits)

lemma if_Inl_Inr: "(if b then Inl e else x) = Inr y \<longleftrightarrow> \<not> b \<and> x = Inr y"
  by simp

lemma checked_succ_le:
  "(\<exists>x. checked_add w 1 = Some x \<and> \<not> m < x \<and> P x) \<longleftrightarrow> Suc (unat w) \<le> unat m \<and> P (w + 1)"
  for w m :: "'a::len word"
proof -
  have m: "unat m < 2 ^ LENGTH('a)"
    by (rule unsigned_less)
  show ?thesis
  proof (cases "checked_add w 1")
    case None
    then have "2 ^ LENGTH('a) \<le> Suc (unat w)"
      by (simp add: checked_add_None_iff)
    with m have "\<not> Suc (unat w) \<le> unat m"
      by linarith
    with None show ?thesis by simp
  next
    case (Some x)
    then have "x = w + 1" and "unat x = Suc (unat w)"
      using checked_add_unat [OF Some] by (simp_all add: checked_add_Some_iff)
    with Some show ?thesis
      by (auto simp: word_less_nat_alt)
  qed
qed

lemma unat_pred: "r \<noteq> 0 \<Longrightarrow> Suc (unat (r - 1)) = unat (r :: 'a::len word)"
  by (simp add: unat_minus_one unat_eq_zero neq0_conv [symmetric])

lemma unat_of_nat_le:
  assumes "k \<le> unat (m :: 'a::len word)" shows "unat (of_nat k :: 'a word) = k"
proof -
  have "unat m < 2 ^ LENGTH('a)"
    by (rule unsigned_less)
  with assms have "k < 2 ^ LENGTH('a)"
    by linarith
  then show ?thesis by (simp add: unat_of_nat)
qed

lemma unat_max: "unat (max a b) = max (unat a) (unat b)"
  by (simp add: max_def word_le_nat_alt)

lemma unat_succ_le:
  assumes "Suc (unat n) \<le> unat (m :: 'a::len word)" shows "unat (n + 1 :: 'a word) = Suc (unat n)"
  using unat_of_nat_le [OF assms] by (simp add: add.commute)

lemma checked_add_usize_Some_iff [simp]:
  "checked_add_usize a b = Some c \<longleftrightarrow> a + b < 2 ^ 64 \<and> c = a + b"
  by (auto simp: checked_add_usize_def)

lemma unat_ucast_up:
  "LENGTH('a) \<le> LENGTH('b) \<Longrightarrow> unat (ucast (w :: 'a::len word) :: 'b::len word) = unat w"
  by (simp add: unsigned_ucast_eq take_bit_nat_eq_self order_less_le_trans [OF unsigned_less]
      power_increasing)

subsection \<open>Byte orders\<close>

fun to_le :: "nat \<Rightarrow> nat \<Rightarrow> bytes" where
  "to_le 0 k = []"
| "to_le (Suc n) k = of_nat k # to_le n (k div 256)"

fun le_nat :: "bytes \<Rightarrow> nat" where
  "le_nat [] = 0"
| "le_nat (b # bs) = unat b + 256 * le_nat bs"

definition to_be :: "nat \<Rightarrow> nat \<Rightarrow> bytes" where
  "to_be n k = rev (to_le n k)"

definition be_nat :: "bytes \<Rightarrow> nat" where
  "be_nat bs = le_nat (rev bs)"

lemma unat_u8_less: "unat (b :: u8) < 256"
  using unsigned_less [of b] by simp

lemma length_to_le [simp]: "length (to_le n k) = n"
  by (induction n arbitrary: k) auto

lemma length_to_be [simp]: "length (to_be n k) = n"
  by (simp add: to_be_def)

lemma le_nat_to_le: "le_nat (to_le n k) = k mod 256 ^ n"
proof (induction n arbitrary: k)
  case 0
  then show ?case by simp
next
  case (Suc n)
  have "unat (of_nat k :: u8) = k mod 256"
    by (simp add: unat_of_nat)
  moreover have "k mod (256 * 256 ^ n) = k mod 256 + 256 * (k div 256 mod 256 ^ n)"
    by (simp add: mod_mult2_eq add.commute)
  ultimately show ?case by (simp add: Suc)
qed

lemma to_le_le_nat: "to_le (length bs) (le_nat bs) = bs"
proof (induction bs)
  case Nil
  then show ?case by simp
next
  case (Cons b bs)
  have lt: "unat b < 256"
    by (rule unat_u8_less)
  have "(of_nat (unat b + 256 * le_nat bs) :: u8) = b"
  proof (rule unsigned_word_eqI)
    show "unat (of_nat (unat b + 256 * le_nat bs) :: u8) = unat b"
      unfolding unat_of_nat using lt by simp
  qed
  with lt Cons show ?case by simp
qed

lemma le_nat_less: "le_nat bs < 256 ^ length bs"
proof (induction bs)
  case Nil
  then show ?case by simp
next
  case (Cons b bs)
  have "unat b < 256"
    by (rule unat_u8_less)
  with Cons show ?case by simp
qed

lemma be_nat_to_be: "be_nat (to_be n k) = k mod 256 ^ n"
  by (simp add: be_nat_def to_be_def le_nat_to_le)

lemma to_be_be_nat: "to_be (length bs) (be_nat bs) = bs"
  using to_le_le_nat [of "rev bs"] by (simp add: be_nat_def to_be_def)

lemma be_nat_less: "be_nat bs < 256 ^ length bs"
  using le_nat_less [of "rev bs"] by (simp add: be_nat_def)

lemma to_le_word_inverse:
  "256 ^ n = (2::nat) ^ LENGTH('a) \<Longrightarrow> of_nat (le_nat (to_le n (unat w))) = (w :: 'a::len word)"
  by (simp add: le_nat_to_le word_of_nat_eq_iff take_bit_eq_mod)

lemma le_nat_to_le_unat:
  "256 ^ n = (2::nat) ^ LENGTH('a) \<Longrightarrow> le_nat (to_le n (unat w)) = unat (w :: 'a::len word)"
  by (simp add: le_nat_to_le)

lemma to_le_eqD:
  "to_le n a = to_le n b \<Longrightarrow> a < 256 ^ n \<Longrightarrow> b < 256 ^ n \<Longrightarrow> a = b"
  by (metis le_nat_to_le mod_less)

subsection \<open>UTF-8\<close>

definition str_bytes :: "string \<Rightarrow> bytes" where
  "str_bytes s = map (\<lambda>c. of_nat (of_char c)) s"

lemma length_str_bytes [simp]: "length (str_bytes s) = length s"
  by (simp add: str_bytes_def)

definition utf8_cont :: "u8 \<Rightarrow> bool" where
  "utf8_cont b \<longleftrightarrow> 0x80 \<le> b \<and> b \<le> 0xBF"

fun utf8_valid :: "bytes \<Rightarrow> bool" where
  "utf8_valid [] = True"
| "utf8_valid (a # bs) =
     (if a < 0x80 then utf8_valid bs
      else if 0xC2 \<le> a \<and> a \<le> 0xDF then
        (case bs of b # bs' \<Rightarrow> utf8_cont b \<and> utf8_valid bs' | _ \<Rightarrow> False)
      else if 0xE0 \<le> a \<and> a \<le> 0xEF then
        (case bs of b # c # bs' \<Rightarrow>
           (if a = 0xE0 then 0xA0 \<le> b \<and> b \<le> 0xBF
            else if a = 0xED then 0x80 \<le> b \<and> b \<le> 0x9F
            else utf8_cont b) \<and> utf8_cont c \<and> utf8_valid bs'
         | _ \<Rightarrow> False)
      else if 0xF0 \<le> a \<and> a \<le> 0xF4 then
        (case bs of b # c # d # bs' \<Rightarrow>
           (if a = 0xF0 then 0x90 \<le> b \<and> b \<le> 0xBF
            else if a = 0xF4 then 0x80 \<le> b \<and> b \<le> 0x8F
            else utf8_cont b) \<and> utf8_cont c \<and> utf8_cont d \<and> utf8_valid bs'
         | _ \<Rightarrow> False)
      else False)"

lemma utf8_valid_ascii: "list_all (\<lambda>b. b < 0x80) bs \<Longrightarrow> utf8_valid bs"
  by (induction bs) auto

subsection \<open>Ordered maps\<close>

text \<open>
  What the components use of \<open>std::collections::BTreeMap\<close>: lookup, insertion, removal
  and iteration in ascending key order.
\<close>

locale ordered_map =
  fixes empty :: "'m"
    and insert :: "'k::linorder \<Rightarrow> 'v \<Rightarrow> 'm \<Rightarrow> 'm"
    and remove :: "'k \<Rightarrow> 'm \<Rightarrow> 'm"
    and get :: "'m \<Rightarrow> 'k \<Rightarrow> 'v option"
    and keys :: "'m \<Rightarrow> 'k list"
    and wf :: "'m \<Rightarrow> bool"
  assumes wf_empty: "wf empty"
    and wf_insert: "wf m \<Longrightarrow> wf (insert k v m)"
    and wf_remove: "wf m \<Longrightarrow> wf (remove k m)"
    and get_empty: "get empty = (\<lambda>_. None)"
    and get_insert: "wf m \<Longrightarrow> get (insert k v m) = (get m)(k \<mapsto> v)"
    and get_remove: "wf m \<Longrightarrow> get (remove k m) = (get m)(k := None)"
    and keys_dom: "wf m \<Longrightarrow> set (keys m) = dom (get m)"
    and keys_sorted: "wf m \<Longrightarrow> sorted_wrt (<) (keys m)"
begin

lemma keys_distinct: "wf m \<Longrightarrow> distinct (keys m)"
  using keys_sorted strict_sorted_iff by blast

lemma size_card: "wf m \<Longrightarrow> length (keys m) = card (dom (get m))"
  using keys_distinct keys_dom distinct_card by metis

lemma finite_dom: "wf m \<Longrightarrow> finite (dom (get m))"
  using keys_dom List.finite_set by metis

lemma size_insert_fresh:
  assumes "wf m" and "get m k = None"
  shows "length (keys (insert k v m)) = Suc (length (keys m))"
proof -
  have "k \<notin> dom (get m)"
    using assms(2) by auto
  then show ?thesis
    using assms finite_dom [OF assms(1)] by (simp add: size_card wf_insert get_insert)
qed

lemma size_insert_present:
  assumes "wf m" and "get m k = Some w"
  shows "length (keys (insert k v m)) = length (keys m)"
proof -
  have "dom ((get m)(k \<mapsto> v)) = dom (get m)"
    using assms(2) by auto
  then have "dom (get (insert k v m)) = dom (get m)"
    by (simp only: get_insert [OF assms(1)])
  then show ?thesis
    by (simp only: size_card [OF assms(1)] size_card [OF wf_insert [OF assms(1)]])
qed

lemma size_remove_present:
  assumes "wf m" and "get m k = Some v"
  shows "Suc (length (keys (remove k m))) = length (keys m)"
proof -
  have "k \<in> dom (get m)"
    using assms(2) by auto
  then show ?thesis
    using assms card_Suc_Diff1 [OF finite_dom [OF assms(1)]]
    by (simp add: size_card wf_remove get_remove)
qed

end

fun bt_insert :: "'k::linorder \<Rightarrow> 'v \<Rightarrow> ('k \<times> 'v) list \<Rightarrow> ('k \<times> 'v) list" where
  "bt_insert k v [] = [(k, v)]"
| "bt_insert k v ((a, b) # m) =
     (if k < a then (k, v) # (a, b) # m
      else if k = a then (k, v) # m
      else (a, b) # bt_insert k v m)"

definition bt_remove :: "'k \<Rightarrow> ('k \<times> 'v) list \<Rightarrow> ('k \<times> 'v) list" where
  "bt_remove k m = filter (\<lambda>p. fst p \<noteq> k) m"

definition bt_get :: "('k \<times> 'v) list \<Rightarrow> 'k \<Rightarrow> 'v option" where
  "bt_get m k = map_of m k"

definition bt_keys :: "('k \<times> 'v) list \<Rightarrow> 'k list" where
  "bt_keys m = map fst m"

definition bt_wf :: "('k::linorder \<times> 'v) list \<Rightarrow> bool" where
  "bt_wf m \<longleftrightarrow> sorted_wrt (<) (map fst m)"

lemma set_bt_insert_keys: "fst ` set (bt_insert k v m) = insert k (fst ` set m)"
  by (induction k v m rule: bt_insert.induct) auto

lemma bt_wf_insert: "bt_wf m \<Longrightarrow> bt_wf (bt_insert k v m)"
proof (induction k v m rule: bt_insert.induct)
  case (1 k v)
  then show ?case by (simp add: bt_wf_def)
next
  case (2 k v a b m)
  then have m: "bt_wf m" and lt: "\<And>x. x \<in> fst ` set m \<Longrightarrow> a < x"
    by (auto simp: bt_wf_def)
  consider "k < a" | "k = a" | "a < k"
    by (rule linorder_cases)
  then show ?case
  proof cases
    case 1
    with "2.prems" lt show ?thesis
      by (force simp: bt_wf_def)
  next
    case 2
    with "2.prems" show ?thesis by (simp add: bt_wf_def)
  next
    case 3
    then have eq: "bt_insert k v ((a, b) # m) = (a, b) # bt_insert k v m"
      by auto
    have "bt_wf (bt_insert k v m)"
      using 3 "2.IH" m by auto
    moreover have "\<forall>x \<in> fst ` set (bt_insert k v m). a < x"
      using 3 lt by (simp add: set_bt_insert_keys)
    ultimately show ?thesis
      unfolding eq by (simp add: bt_wf_def)
  qed
qed

lemma bt_wf_remove: "bt_wf m \<Longrightarrow> bt_wf (bt_remove k m)"
  by (induction m) (auto simp: bt_wf_def bt_remove_def)

lemma bt_get_insert: "bt_wf m \<Longrightarrow> bt_get (bt_insert k v m) = (bt_get m)(k \<mapsto> v)"
proof (induction k v m rule: bt_insert.induct)
  case (1 k v)
  then show ?case by (auto simp: bt_get_def)
next
  case (2 k v a b m)
  then have "bt_wf m" by (simp add: bt_wf_def)
  with 2 show ?case by (auto simp: bt_get_def fun_eq_iff)
qed

lemma bt_get_remove: "bt_get (bt_remove k m) = (bt_get m)(k := None)"
  by (induction m) (auto simp: bt_get_def bt_remove_def fun_eq_iff)

interpretation bt: ordered_map "[]" bt_insert bt_remove bt_get bt_keys bt_wf
proof unfold_locales
  fix m :: "('a \<times> 'b) list"
  assume "bt_wf m"
  then show "set (bt_keys m) = dom (bt_get m)" and "sorted_wrt (<) (bt_keys m)"
    by (simp_all add: bt_keys_def bt_get_def [abs_def] bt_wf_def dom_map_of_conv_image_fst)
qed (auto simp: bt_wf_insert bt_wf_remove bt_get_insert bt_get_remove, auto simp: bt_wf_def bt_get_def)

lemma bt_size: "length (bt_keys m) = length m"
  by (simp add: bt_keys_def)

lemmas bt_laws = bt.wf_empty bt.wf_insert bt.wf_remove bt.get_empty bt.get_insert bt.get_remove

lemmas bt_sizes =
  bt.size_insert_fresh [unfolded bt_size] bt.size_insert_present [unfolded bt_size]
  bt.size_remove_present [unfolded bt_size]

text \<open>Sorted maps as lists.\<close>

lemma bt_wf_Cons: "bt_wf ((k, v) # m) \<longleftrightarrow> (\<forall>x \<in> fst ` set m. k < x) \<and> bt_wf m"
  by (simp add: bt_wf_def)

lemma bt_wf_snoc: "bt_wf (m @ [(k, v)]) \<longleftrightarrow> bt_wf m \<and> (\<forall>x \<in> fst ` set m. x < k)"
  by (auto simp: bt_wf_def sorted_wrt_append)

lemma bt_insert_last: "\<forall>x \<in> fst ` set m. x < k \<Longrightarrow> bt_insert k v m = m @ [(k, v)]"
  by (induction k v m rule: bt_insert.induct) auto

lemma bt_wf_append_less: "bt_wf (m @ (k, v) # m') \<Longrightarrow> \<forall>x \<in> fst ` set m. x < k"
  by (auto simp: bt_wf_def sorted_wrt_append)

lemma bt_get_mem: "bt_wf m \<Longrightarrow> bt_get m k = Some v \<longleftrightarrow> (k, v) \<in> set m"
  by (simp add: bt_get_def map_of_eq_Some_iff bt_wf_def strict_sorted_iff)

lemma bt_get_None: "bt_get m k = None \<longleftrightarrow> k \<notin> fst ` set m"
  by (simp add: bt_get_def map_of_eq_None_iff)

lemma bt_wf_distinct: "bt_wf m \<Longrightarrow> distinct (map fst m)"
  by (simp add: bt_wf_def strict_sorted_iff)

lemma bt_as_map: "bt_wf m \<Longrightarrow> map (\<lambda>k. (k, the (bt_get m k))) (map fst m) = m"
  by (auto simp: comp_def bt_get_mem [symmetric] intro!: map_idI)

lemma bt_eqI:
  assumes "bt_wf m" and "bt_wf m'" and "bt_get m = bt_get m'"
  shows "m = m'"
proof -
  have "set m = set m'"
    using bt_get_mem [OF assms(1)] bt_get_mem [OF assms(2)] assms(3) by auto
  then have "map fst m = map fst m'"
    using assms(1,2) by (intro strict_sorted_equal) (auto simp: bt_wf_def)
  with bt_as_map [OF assms(1)] bt_as_map [OF assms(2)] assms(3) show ?thesis
    by metis
qed

text \<open>A \<open>BTreeSet\<close> is the map with unit values; \<open>insert\<close> reports whether the key is new.\<close>

definition bs_contains :: "('k \<times> unit) list \<Rightarrow> 'k \<Rightarrow> bool" where
  "bs_contains m k \<longleftrightarrow> k \<in> fst ` set m"

lemma bs_contains_simps [simp]:
  "\<not> bs_contains [] k"
  "bs_contains (bt_insert a u m) k \<longleftrightarrow> k = a \<or> bs_contains m k"
  by (simp_all add: bs_contains_def set_bt_insert_keys)

subsection \<open>Components with state\<close>

text \<open>
  A method \<open>fn m(&mut self, args) -> Result<T, E>\<close> is a step function that returns the
  result and the new state. \<open>run_ops\<close> runs a sequence of calls, \<open>accepted_ops\<close> are the
  calls of the sequence that succeeded.
\<close>

fun run_ops :: "('s \<Rightarrow> 'op \<Rightarrow> 'r \<times> 's) \<Rightarrow> 's \<Rightarrow> 'op list \<Rightarrow> 's" where
  "run_ops step s [] = s"
| "run_ops step s (x # xs) = run_ops step (snd (step s x)) xs"

fun accepted_ops :: "('s \<Rightarrow> 'op \<Rightarrow> ('e + 'a) \<times> 's) \<Rightarrow> 's \<Rightarrow> 'op list \<Rightarrow> 'op list" where
  "accepted_ops step s [] = []"
| "accepted_ops step s (x # xs) =
     (if is_ok (fst (step s x)) then x # accepted_ops step (snd (step s x)) xs
      else accepted_ops step (snd (step s x)) xs)"

locale guarded_machine =
  fixes step :: "'s \<Rightarrow> 'op \<Rightarrow> ('e + 'a) \<times> 's"
    and inv :: "'s \<Rightarrow> bool"
  assumes step_inv: "inv s \<Longrightarrow> inv (snd (step s x))"
begin

lemma run_inv: "inv s \<Longrightarrow> inv (run_ops step s xs)"
  by (induction xs arbitrary: s) (auto intro: step_inv)

end

locale transactional_machine = guarded_machine +
  assumes step_err: "fst (step s x) = Inl e \<Longrightarrow> snd (step s x) = s"
begin

lemma run_accepted: "run_ops step s (accepted_ops step s xs) = run_ops step s xs"
proof (induction xs arbitrary: s)
  case Nil
  then show ?case by simp
next
  case (Cons x xs)
  show ?case
  proof (cases "fst (step s x)")
    case (Inl e)
    with Cons show ?thesis by (simp add: step_err)
  next
    case (Inr y)
    with Cons show ?thesis by simp
  qed
qed

lemma accepted_idem: "accepted_ops step s (accepted_ops step s xs) = accepted_ops step s xs"
proof (induction xs arbitrary: s)
  case Nil
  then show ?case by simp
next
  case (Cons x xs)
  show ?case
    by (cases "fst (step s x)") (simp_all add: Cons step_err)
qed

end

text \<open>
  A refinement: the code's steps and the specification's steps give the same answers from
  related states, so whole runs do.
\<close>

fun run_answers :: "('s \<Rightarrow> 'op \<Rightarrow> 'r \<times> 's) \<Rightarrow> 's \<Rightarrow> 'op list \<Rightarrow> 'r list" where
  "run_answers step s [] = []"
| "run_answers step s (x # xs) = fst (step s x) # run_answers step (snd (step s x)) xs"

locale simulation =
  fixes cstep :: "'s \<Rightarrow> 'op \<Rightarrow> 'r \<times> 's"
    and astep :: "'a \<Rightarrow> 'op \<Rightarrow> 'r \<times> 'a"
    and rel :: "'s \<Rightarrow> 'a \<Rightarrow> bool"
    and call_ok :: "'op \<Rightarrow> bool"
  assumes sim_answer: "rel s a \<Longrightarrow> call_ok x \<Longrightarrow> fst (cstep s x) = fst (astep a x)"
    and sim_rel: "rel s a \<Longrightarrow> call_ok x \<Longrightarrow> rel (snd (cstep s x)) (snd (astep a x))"
begin

lemma run_rel: "rel s a \<Longrightarrow> list_all call_ok xs \<Longrightarrow> rel (run_ops cstep s xs) (run_ops astep a xs)"
  by (induction xs arbitrary: s a) (simp_all add: sim_rel)

lemma run_answers_eq: "rel s a \<Longrightarrow> list_all call_ok xs \<Longrightarrow> run_answers cstep s xs = run_answers astep a xs"
  by (induction xs arbitrary: s a) (simp_all add: sim_answer sim_rel)

end

end
