(* ===== verification/Protocol_Frame.thy ===== *)
theory Protocol_Frame
  imports Runtime_Prelude
begin

section \<open>Protocol frames and limits\<close>

text \<open>
  The wire layer of \<open>weregopher-domain/src/protocol.rs\<close>: the numeric message tags, the
  28-byte little-endian frame header with its codec, and the nine allocation and
  concurrency limits of a connection. The codec is exact in both directions: \<open>decode\<close>
  accepts precisely the bytes \<open>encode\<close> produces. Limit negotiation is shown to be the
  greatest lower bound of the request and the host's hard cap.
\<close>

subsection \<open>Message kinds\<close>

datatype MessageKind =
    Hello
  | Welcome
  | Reject
  | LoadApplication
  | ApplicationReady
  | ApplicationExit
  | Call
  | CallResult
  | CallError
  | Cancel
  | Event
  | Subscribe
  | Unsubscribe
  | IpcSend
  | IpcInvoke
  | IpcReply
  | IpcError
  | StreamOpen
  | StreamWindow
  | StreamData
  | StreamEnd
  | StreamError
  | RetainHandle
  | ReleaseHandle
  | SharedBufferOffer
  | SharedBufferAccept
  | SharedBufferRelease
  | Heartbeat
  | Diagnostics
  | Shutdown

datatype FrameHeaderError =
    InvalidLength usize
  | ReservedBitsSet
  | UnknownFlags u8
  | UnknownMessageKind u8

fun message_kind_tag :: "MessageKind \<Rightarrow> u8" where
  "message_kind_tag Hello = 1"
| "message_kind_tag Welcome = 2"
| "message_kind_tag Reject = 3"
| "message_kind_tag LoadApplication = 4"
| "message_kind_tag ApplicationReady = 5"
| "message_kind_tag ApplicationExit = 6"
| "message_kind_tag Call = 7"
| "message_kind_tag CallResult = 8"
| "message_kind_tag CallError = 9"
| "message_kind_tag Cancel = 10"
| "message_kind_tag Event = 11"
| "message_kind_tag Subscribe = 12"
| "message_kind_tag Unsubscribe = 13"
| "message_kind_tag IpcSend = 14"
| "message_kind_tag IpcInvoke = 15"
| "message_kind_tag IpcReply = 16"
| "message_kind_tag IpcError = 17"
| "message_kind_tag StreamOpen = 18"
| "message_kind_tag StreamWindow = 19"
| "message_kind_tag StreamData = 20"
| "message_kind_tag StreamEnd = 21"
| "message_kind_tag StreamError = 22"
| "message_kind_tag RetainHandle = 23"
| "message_kind_tag ReleaseHandle = 24"
| "message_kind_tag SharedBufferOffer = 25"
| "message_kind_tag SharedBufferAccept = 26"
| "message_kind_tag SharedBufferRelease = 27"
| "message_kind_tag Heartbeat = 28"
| "message_kind_tag Diagnostics = 29"
| "message_kind_tag Shutdown = 30"

definition message_kind_try_from :: "u8 \<Rightarrow> FrameHeaderError + MessageKind" where
  "message_kind_try_from v =
     (if v = 1 then Inr Hello
      else if v = 2 then Inr Welcome
      else if v = 3 then Inr Reject
      else if v = 4 then Inr LoadApplication
      else if v = 5 then Inr ApplicationReady
      else if v = 6 then Inr ApplicationExit
      else if v = 7 then Inr Call
      else if v = 8 then Inr CallResult
      else if v = 9 then Inr CallError
      else if v = 10 then Inr Cancel
      else if v = 11 then Inr Event
      else if v = 12 then Inr Subscribe
      else if v = 13 then Inr Unsubscribe
      else if v = 14 then Inr IpcSend
      else if v = 15 then Inr IpcInvoke
      else if v = 16 then Inr IpcReply
      else if v = 17 then Inr IpcError
      else if v = 18 then Inr StreamOpen
      else if v = 19 then Inr StreamWindow
      else if v = 20 then Inr StreamData
      else if v = 21 then Inr StreamEnd
      else if v = 22 then Inr StreamError
      else if v = 23 then Inr RetainHandle
      else if v = 24 then Inr ReleaseHandle
      else if v = 25 then Inr SharedBufferOffer
      else if v = 26 then Inr SharedBufferAccept
      else if v = 27 then Inr SharedBufferRelease
      else if v = 28 then Inr Heartbeat
      else if v = 29 then Inr Diagnostics
      else if v = 30 then Inr Shutdown
      else Inl (UnknownMessageKind v))"

lemma message_kind_try_from_tag [simp]: "message_kind_try_from (message_kind_tag k) = Inr k"
  by (cases k) (simp_all add: message_kind_try_from_def)

lemma message_kind_try_from_Inr: "message_kind_try_from v = Inr k \<Longrightarrow> message_kind_tag k = v"
  by (auto simp: message_kind_try_from_def split: if_splits)

subsection \<open>Frame headers\<close>

definition FRAME_HEADER_LEN :: usize where
  "FRAME_HEADER_LEN = 28"

record FrameHeader =
  frame_length :: u32
  protocol_major :: u16
  protocol_minor :: u16
  message_kind :: MessageKind
  frame_flags :: u8
  frame_request_id :: u64
  frame_sequence :: u64

definition frame_header_new ::
    "u32 \<Rightarrow> u16 \<Rightarrow> u16 \<Rightarrow> MessageKind \<Rightarrow> u64 \<Rightarrow> u64 \<Rightarrow> FrameHeader" where
  "frame_header_new len major minor kind rid sq =
     \<lparr>frame_length = len, protocol_major = major, protocol_minor = minor,
      message_kind = kind, frame_flags = 0, frame_request_id = rid, frame_sequence = sq\<rparr>"

definition frame_header_encode :: "FrameHeader \<Rightarrow> bytes" where
  "frame_header_encode h =
     to_le 4 (unat (frame_length h)) @
     to_le 2 (unat (protocol_major h)) @
     to_le 2 (unat (protocol_minor h)) @
     [message_kind_tag (message_kind h)] @
     [frame_flags h] @
     to_le 2 0 @
     to_le 8 (unat (frame_request_id h)) @
     to_le 8 (unat (frame_sequence h))"

text \<open>\<open>slice i j bs\<close> is the Rust range \<open>bytes[i..j]\<close>.\<close>

definition slice :: "nat \<Rightarrow> nat \<Rightarrow> 'a list \<Rightarrow> 'a list" where
  "slice i j bs = take (j - i) (drop i bs)"

definition frame_header_decode :: "bytes \<Rightarrow> FrameHeaderError + FrameHeader" where
  "frame_header_decode bs =
     (if length bs \<noteq> FRAME_HEADER_LEN then Inl (InvalidLength (length bs))
      else if bs ! 10 \<noteq> 0 \<or> bs ! 11 \<noteq> 0 then Inl ReservedBitsSet
      else if bs ! 9 \<noteq> 0 then Inl (UnknownFlags (bs ! 9))
      else rbind (message_kind_try_from (bs ! 8)) (\<lambda>kind.
        Inr \<lparr>frame_length = of_nat (le_nat (slice 0 4 bs)),
             protocol_major = of_nat (le_nat (slice 4 6 bs)),
             protocol_minor = of_nat (le_nat (slice 6 8 bs)),
             message_kind = kind,
             frame_flags = bs ! 9,
             frame_request_id = of_nat (le_nat (slice 12 20 bs)),
             frame_sequence = of_nat (le_nat (slice 20 28 bs))\<rparr>))"

subsection \<open>Connection limits\<close>

datatype ProtocolLimitError = ZeroLimit string

record ProtocolLimits =
  max_frame_bytes :: u32
  max_graph_nodes :: u32
  max_object_depth :: u16
  max_string_bytes :: u32
  max_inline_buffer_bytes :: u32
  max_pending_requests :: u32
  max_remote_handles :: u32
  max_open_streams :: u16
  max_listener_count :: u32

definition secure_default :: ProtocolLimits where
  "secure_default =
     \<lparr>max_frame_bytes = 4 * 1024 * 1024,
      max_graph_nodes = 50000,
      max_object_depth = 64,
      max_string_bytes = 2 * 1024 * 1024,
      max_inline_buffer_bytes = 256 * 1024,
      max_pending_requests = 1024,
      max_remote_handles = 10000,
      max_open_streams = 256,
      max_listener_count = 2048\<rparr>"

definition validate_nonzero :: "string \<Rightarrow> u64 \<Rightarrow> ProtocolLimitError + unit" where
  "validate_nonzero field v = (if v = 0 then Inl (ZeroLimit field) else Inr ())"

definition limits_validate :: "ProtocolLimits \<Rightarrow> ProtocolLimitError + unit" where
  "limits_validate l =
     rbind (validate_nonzero ''max_frame_bytes'' (ucast (max_frame_bytes l))) (\<lambda>_.
     rbind (validate_nonzero ''max_graph_nodes'' (ucast (max_graph_nodes l))) (\<lambda>_.
     rbind (validate_nonzero ''max_object_depth'' (ucast (max_object_depth l))) (\<lambda>_.
     rbind (validate_nonzero ''max_string_bytes'' (ucast (max_string_bytes l))) (\<lambda>_.
     rbind (validate_nonzero ''max_inline_buffer_bytes'' (ucast (max_inline_buffer_bytes l))) (\<lambda>_.
     rbind (validate_nonzero ''max_pending_requests'' (ucast (max_pending_requests l))) (\<lambda>_.
     rbind (validate_nonzero ''max_remote_handles'' (ucast (max_remote_handles l))) (\<lambda>_.
     rbind (validate_nonzero ''max_open_streams'' (ucast (max_open_streams l))) (\<lambda>_.
     validate_nonzero ''max_listener_count'' (ucast (max_listener_count l))))))))))"

definition limits_negotiate :: "ProtocolLimits \<Rightarrow> ProtocolLimits \<Rightarrow> ProtocolLimitError + ProtocolLimits" where
  "limits_negotiate l hard_cap =
     rbind (limits_validate l) (\<lambda>_.
     rbind (limits_validate hard_cap) (\<lambda>_.
     Inr \<lparr>max_frame_bytes = min (max_frame_bytes l) (max_frame_bytes hard_cap),
       max_graph_nodes = min (max_graph_nodes l) (max_graph_nodes hard_cap),
       max_object_depth = min (max_object_depth l) (max_object_depth hard_cap),
       max_string_bytes = min (max_string_bytes l) (max_string_bytes hard_cap),
       max_inline_buffer_bytes = min (max_inline_buffer_bytes l) (max_inline_buffer_bytes hard_cap),
       max_pending_requests = min (max_pending_requests l) (max_pending_requests hard_cap),
       max_remote_handles = min (max_remote_handles l) (max_remote_handles hard_cap),
       max_open_streams = min (max_open_streams l) (max_open_streams hard_cap),
       max_listener_count = min (max_listener_count l) (max_listener_count hard_cap)\<rparr>))"

text \<open>The order on limits the negotiation is about, and the limits it accepts.\<close>

definition limits_positive :: "ProtocolLimits \<Rightarrow> bool" where
  "limits_positive l \<longleftrightarrow>
     max_frame_bytes l \<noteq> 0 \<and>
     max_graph_nodes l \<noteq> 0 \<and>
     max_object_depth l \<noteq> 0 \<and>
     max_string_bytes l \<noteq> 0 \<and>
     max_inline_buffer_bytes l \<noteq> 0 \<and>
     max_pending_requests l \<noteq> 0 \<and>
     max_remote_handles l \<noteq> 0 \<and>
     max_open_streams l \<noteq> 0 \<and>
     max_listener_count l \<noteq> 0"

definition limits_le :: "ProtocolLimits \<Rightarrow> ProtocolLimits \<Rightarrow> bool" where
  "limits_le a b \<longleftrightarrow>
     max_frame_bytes a \<le> max_frame_bytes b \<and>
     max_graph_nodes a \<le> max_graph_nodes b \<and>
     max_object_depth a \<le> max_object_depth b \<and>
     max_string_bytes a \<le> max_string_bytes b \<and>
     max_inline_buffer_bytes a \<le> max_inline_buffer_bytes b \<and>
     max_pending_requests a \<le> max_pending_requests b \<and>
     max_remote_handles a \<le> max_remote_handles b \<and>
     max_open_streams a \<le> max_open_streams b \<and>
     max_listener_count a \<le> max_listener_count b"

subsection \<open>The header codec is exact\<close>

lemma to_le_of_le_nat:
  assumes "length s = n" and "256 ^ n = (2::nat) ^ LENGTH('a::len)"
  shows "to_le n (unat (of_nat (le_nat s) :: 'a word)) = s"
proof -
  have "le_nat s < 2 ^ LENGTH('a)"
    using le_nat_less [of s] assms by simp
  then have "unat (of_nat (le_nat s) :: 'a word) = le_nat s"
    by (simp add: unat_of_nat)
  then show ?thesis
    using to_le_le_nat [of s] assms(1) by simp
qed

lemma slice_drop: "i \<le> j \<Longrightarrow> slice i j bs @ drop j bs = drop i bs"
  by (metis append_take_drop_id drop_drop le_add_diff_inverse2 slice_def)

lemma length_slice: "i \<le> j \<Longrightarrow> j \<le> length bs \<Longrightarrow> length (slice i j bs) = j - i"
  by (simp add: slice_def)

lemma to_le_2_0: "to_le 2 0 = [0, 0]"
  by (simp add: numeral_2_eq_2)

lemma header_bytes_split:
  assumes "length bs = FRAME_HEADER_LEN"
  shows "slice 0 4 bs @ slice 4 6 bs @ slice 6 8 bs @ [bs ! 8] @ [bs ! 9] @ [bs ! 10, bs ! 11] @
    slice 12 20 bs @ slice 20 28 bs = bs"
proof -
  have one: "bs ! i # drop (Suc i) bs = drop i bs" if "i < 28" for i
    using that assms by (simp add: Cons_nth_drop_Suc FRAME_HEADER_LEN_def)
  have "slice 12 20 bs @ slice 20 28 bs = drop 12 bs"
    using slice_drop [of 20 28 bs] slice_drop [of 12 20 bs] assms
    by (simp add: FRAME_HEADER_LEN_def)
  then have "[bs ! 8] @ [bs ! 9] @ [bs ! 10, bs ! 11] @ slice 12 20 bs @ slice 20 28 bs = drop 8 bs"
    using one [of 8] one [of 9] one [of 10] one [of 11] by simp
  then show ?thesis
    using slice_drop [of 6 8 bs] slice_drop [of 4 6 bs] slice_drop [of 0 4 bs] by simp
qed

lemma decode_encode:
  assumes "frame_flags h = 0"
  shows "frame_header_decode (frame_header_encode h) = Inr h"
proof -
  have "length (frame_header_encode h) = FRAME_HEADER_LEN"
    by (simp add: frame_header_encode_def FRAME_HEADER_LEN_def)
  moreover have "le_nat (to_le 4 (unat (frame_length h))) = unat (frame_length h)"
    "le_nat (to_le 2 (unat (protocol_major h))) = unat (protocol_major h)"
    "le_nat (to_le 2 (unat (protocol_minor h))) = unat (protocol_minor h)"
    "le_nat (to_le 8 (unat (frame_request_id h))) = unat (frame_request_id h)"
    "le_nat (to_le 8 (unat (frame_sequence h))) = unat (frame_sequence h)"
    by (simp_all add: le_nat_to_le_unat)
  ultimately show ?thesis
    using assms
    by (simp add: frame_header_decode_def frame_header_encode_def slice_def to_le_2_0 nth_append)
qed

lemma encode_decode:
  assumes "frame_header_decode bs = Inr h"
  shows "frame_header_encode h = bs" and "frame_flags h = 0"
proof -
  from assms have len: "length bs = FRAME_HEADER_LEN"
    and zero: "bs ! 9 = 0" "bs ! 10 = 0" "bs ! 11 = 0"
    by (auto simp: frame_header_decode_def split: if_splits)
  with assms obtain kind where kind: "message_kind_try_from (bs ! 8) = Inr kind"
    and h: "h = \<lparr>frame_length = of_nat (le_nat (slice 0 4 bs)),
             protocol_major = of_nat (le_nat (slice 4 6 bs)),
             protocol_minor = of_nat (le_nat (slice 6 8 bs)),
             message_kind = kind, frame_flags = bs ! 9,
             frame_request_id = of_nat (le_nat (slice 12 20 bs)),
             frame_sequence = of_nat (le_nat (slice 20 28 bs))\<rparr>"
    by (auto simp: frame_header_decode_def rbind_Inr_iff)
  from zero show "frame_flags h = 0"
    by (simp add: h)
  have "frame_header_encode h = slice 0 4 bs @ slice 4 6 bs @ slice 6 8 bs @ [bs ! 8] @ [bs ! 9] @
      [bs ! 10, bs ! 11] @ slice 12 20 bs @ slice 20 28 bs"
    using len zero message_kind_try_from_Inr [OF kind]
    by (simp add: frame_header_encode_def h to_le_of_le_nat length_slice FRAME_HEADER_LEN_def to_le_2_0)
  then show "frame_header_encode h = bs"
    using header_bytes_split [OF len] by simp
qed

subsection \<open>Negotiation is the greatest lower bound\<close>

lemma validate_nonzero_Inr_iff [simp]: "validate_nonzero f v = Inr u \<longleftrightarrow> v \<noteq> 0"
  by (simp add: validate_nonzero_def)

lemma ucast_eq_0_up:
  "LENGTH('a) \<le> LENGTH('b) \<Longrightarrow> (ucast (w :: 'a::len word) :: 'b::len word) = 0 \<longleftrightarrow> w = 0"
  by (metis is_up ucast_0 ucast_up_ucast_id)

lemma limits_validate_iff [simp]: "limits_validate l = Inr u \<longleftrightarrow> limits_positive l"
  by (auto simp: limits_validate_def limits_positive_def rbind_Inr_iff ucast_eq_0_up)

lemma secure_default_positive [simp]: "limits_positive secure_default"
  by (simp add: limits_positive_def secure_default_def)

lemma min_eq_0_word: "min a b = 0 \<longleftrightarrow> a = 0 \<or> b = (0 :: 'a::len word)"
  by (auto simp: min_def)

lemma limits_negotiate_lower:
  assumes "limits_negotiate l c = Inr n"
  shows "limits_positive n" and "limits_le n l" and "limits_le n c"
  using assms
  by (auto simp: limits_negotiate_def rbind_Inr_iff limits_positive_def limits_le_def min_eq_0_word)

lemma limits_negotiate_greatest:
  assumes "limits_negotiate l c = Inr n" and "limits_le m l" and "limits_le m c"
  shows "limits_le m n"
  using assms by (auto simp: limits_negotiate_def rbind_Inr_iff limits_le_def)

lemma limits_negotiate_total:
  "limits_positive l \<Longrightarrow> limits_positive c \<Longrightarrow> \<exists>n. limits_negotiate l c = Inr n"
  by (simp add: limits_negotiate_def rbind_Inr_iff)

lemma limits_le_antisym: "limits_le a b \<Longrightarrow> limits_le b a \<Longrightarrow> a = (b :: ProtocolLimits)"
  by (cases a; cases b) (auto simp: limits_le_def)

lemma limits_negotiate_narrowed:
  "limits_positive n \<Longrightarrow> limits_positive l \<Longrightarrow> limits_le n l \<Longrightarrow> limits_negotiate n l = Inr n"
  by (cases n) (auto simp: limits_negotiate_def limits_le_def min_def rbind_Inr_iff)

subsection \<open>Properties\<close>

text \<open>
  C22: The frame-header codec is exact: decoding a byte string succeeds with a header
  precisely when the string is the canonical 28-byte encoding of that header and the header
  carries no flags. So encoding followed by decoding is the identity, and no two byte
  strings decode to the same header.
\<close>

theorem frame_header_codec_exact:
  "frame_header_decode bs = Inr h \<longleftrightarrow> bs = frame_header_encode h \<and> frame_flags h = 0"
  using decode_encode encode_decode by auto

text \<open>
  Limit negotiation computes the greatest limits within both the request and the hard
  cap: the result is positive in every dimension, below both inputs, above every common
  lower bound, and it exists exactly when both inputs are positive in every dimension.
\<close>

theorem limits_negotiate_glb:
  "limits_negotiate l c = Inr n \<longleftrightarrow>
     limits_positive l \<and> limits_positive c \<and>
     limits_le n l \<and> limits_le n c \<and> {m. limits_le m l \<and> limits_le m c} \<subseteq> {m. limits_le m n}"
proof
  assume n: "limits_negotiate l c = Inr n"
  then have "limits_positive l" "limits_positive c"
    by (auto simp: limits_negotiate_def rbind_Inr_iff)
  with limits_negotiate_lower [OF n] limits_negotiate_greatest [OF n]
  show "limits_positive l \<and> limits_positive c \<and>
     limits_le n l \<and> limits_le n c \<and> {m. limits_le m l \<and> limits_le m c} \<subseteq> {m. limits_le m n}"
    by auto
next
  assume r: "limits_positive l \<and> limits_positive c \<and>
     limits_le n l \<and> limits_le n c \<and> {m. limits_le m l \<and> limits_le m c} \<subseteq> {m. limits_le m n}"
  then obtain k where k: "limits_negotiate l c = Inr k"
    using limits_negotiate_total by blast
  have "limits_le k n"
    using r limits_negotiate_lower [OF k] by auto
  moreover have "limits_le n k"
    using r limits_negotiate_greatest [OF k] by auto
  ultimately show "limits_negotiate l c = Inr n"
    using k limits_le_antisym by blast
qed

end
