(* ===== verification/MessagePack.thy ===== *)
theory MessagePack
  imports Protocol_Frame
begin

section \<open>MessagePack preflight\<close>

text \<open>
  The structural preflight of \<open>weregopher-runtime-protocol/src/codec.rs\<close>: a cursor over
  the payload, \<open>read_value\<close> for one marker and its inline body, and the iterative walk
  \<open>inspect_messagepack\<close> that keeps a stack of outstanding children per depth. The
  reference is a tree of MessagePack values with its own encoder; the walk accepts exactly
  the encodings of well-formed trees within the limits and reports their node count and
  height.
\<close>

subsection \<open>Errors, budget, cursor\<close>

datatype MessagePackError =
    MpEmpty
  | MpTruncated usize
  | MpTrailingBytes usize
  | MpExtensionType u8
  | MpReservedMarker
  | MpInvalidUtf8 usize
  | MpChildCountOverflow
  | MpFrameBytesExceeded u32 usize
  | MpNodesExceeded u32 u32
  | MpDepthExceeded u16 u16
  | MpStringBytesExceeded u32 u32
  | MpBinaryBytesExceeded u32 u32
  | MpBudgetAllocationFailed
  | MpInvalidObservedBudget
  | MpInvalidLimits ProtocolLimitError

record MessagePackBudget =
  mp_nodes :: u32
  mp_maximum_depth :: u16

definition messagepack_budget_new :: "u32 \<Rightarrow> u16 \<Rightarrow> MessagePackError + MessagePackBudget" where
  "messagepack_budget_new nodes depth =
     (if nodes = 0 \<or> depth = 0 \<or> ucast depth > nodes then Inl MpInvalidObservedBudget
      else Inr \<lparr>mp_nodes = nodes, mp_maximum_depth = depth\<rparr>)"

record MessagePackCursor =
  cur_bytes :: bytes
  cur_offset :: usize

definition cursor_new :: "bytes \<Rightarrow> MessagePackCursor" where
  "cursor_new bs = \<lparr>cur_bytes = bs, cur_offset = 0\<rparr>"

definition cursor_take :: "usize \<Rightarrow> MessagePackCursor \<Rightarrow> MessagePackError + (bytes \<times> MessagePackCursor)" where
  "cursor_take len c =
     rbind (ok_or (MpTruncated (cur_offset c)) (checked_add_usize (cur_offset c) len)) (\<lambda>end.
       if end \<le> length (cur_bytes c)
       then Inr (slice (cur_offset c) end (cur_bytes c), c\<lparr>cur_offset := end\<rparr>)
       else Inl (MpTruncated (cur_offset c)))"

definition cursor_skip :: "usize \<Rightarrow> MessagePackCursor \<Rightarrow> MessagePackError + MessagePackCursor" where
  "cursor_skip len c = rbind (cursor_take len c) (\<lambda>(_, c'). Inr c')"

definition cursor_read_u8 :: "MessagePackCursor \<Rightarrow> MessagePackError + (u8 \<times> MessagePackCursor)" where
  "cursor_read_u8 c =
     rbind (cursor_take 1 c) (\<lambda>(bs, c').
       case bs of b # _ \<Rightarrow> Inr (b, c') | [] \<Rightarrow> Inl (MpTruncated (cur_offset c')))"

definition cursor_read_u16 :: "MessagePackCursor \<Rightarrow> MessagePackError + (u16 \<times> MessagePackCursor)" where
  "cursor_read_u16 c = rbind (cursor_take 2 c) (\<lambda>(bs, c'). Inr (of_nat (be_nat bs), c'))"

definition cursor_read_u32 :: "MessagePackCursor \<Rightarrow> MessagePackError + (u32 \<times> MessagePackCursor)" where
  "cursor_read_u32 c = rbind (cursor_take 4 c) (\<lambda>(bs, c'). Inr (of_nat (be_nat bs), c'))"

definition cursor_read_string ::
    "u32 \<Rightarrow> ProtocolLimits \<Rightarrow> MessagePackCursor \<Rightarrow> MessagePackError + MessagePackCursor" where
  "cursor_read_string len limits c =
     (if len > max_string_bytes limits
      then Inl (MpStringBytesExceeded (max_string_bytes limits) len)
      else rbind (cursor_take (unat len) c) (\<lambda>(bs, c').
        if utf8_valid bs then Inr c' else Inl (MpInvalidUtf8 (cur_offset c))))"

definition cursor_read_binary ::
    "u32 \<Rightarrow> ProtocolLimits \<Rightarrow> MessagePackCursor \<Rightarrow> MessagePackError + MessagePackCursor" where
  "cursor_read_binary len limits c =
     (if len > max_inline_buffer_bytes limits
      then Inl (MpBinaryBytesExceeded (max_inline_buffer_bytes limits) len)
      else cursor_skip (unat len) c)"

definition map_children :: "u32 \<Rightarrow> MessagePackError + u64" where
  "map_children entries = ok_or MpChildCountOverflow (checked_mul (ucast entries) 2)"

subsection \<open>One value\<close>

text \<open>
  \<open>no_children\<close> finishes a branch that reads a scalar, string or binary body and reports
  zero children.
\<close>

definition no_children :: "MessagePackError + MessagePackCursor \<Rightarrow> MessagePackError + (u64 \<times> MessagePackCursor)" where
  "no_children r = rbind r (\<lambda>c. Inr (0, c))"

definition read_marker ::
    "ProtocolLimits \<Rightarrow> u8 \<Rightarrow> MessagePackCursor \<Rightarrow> MessagePackError + (u64 \<times> MessagePackCursor)" where
  "read_marker limits m c =
      (if m \<le> 0x7f \<or> 0xe0 \<le> m \<or> m = 0xc0 \<or> m = 0xc2 \<or> m = 0xc3 then Inr (0, c)
       else if 0x80 \<le> m \<and> m \<le> 0x8f then
         rbind (map_children (ucast (and m 0x0f))) (\<lambda>n. Inr (n, c))
       else if 0x90 \<le> m \<and> m \<le> 0x9f then Inr (ucast (and m 0x0f), c)
       else if 0xa0 \<le> m \<and> m \<le> 0xbf then
         no_children (cursor_read_string (ucast (and m 0x1f)) limits c)
       else if m = 0xc1 then Inl MpReservedMarker
       else if m = 0xc4 then
         rbind (cursor_read_u8 c) (\<lambda>(len, c'). no_children (cursor_read_binary (ucast len) limits c'))
       else if m = 0xc5 then
         rbind (cursor_read_u16 c) (\<lambda>(len, c'). no_children (cursor_read_binary (ucast len) limits c'))
       else if m = 0xc6 then
         rbind (cursor_read_u32 c) (\<lambda>(len, c'). no_children (cursor_read_binary len limits c'))
       else if (0xc7 \<le> m \<and> m \<le> 0xc9) \<or> (0xd4 \<le> m \<and> m \<le> 0xd8) then Inl (MpExtensionType m)
       else if m = 0xca \<or> m = 0xce \<or> m = 0xd2 then no_children (cursor_skip 4 c)
       else if m = 0xcb \<or> m = 0xcf \<or> m = 0xd3 then no_children (cursor_skip 8 c)
       else if m = 0xcc \<or> m = 0xd0 then no_children (cursor_skip 1 c)
       else if m = 0xcd \<or> m = 0xd1 then no_children (cursor_skip 2 c)
       else if m = 0xd9 then
         rbind (cursor_read_u8 c) (\<lambda>(len, c'). no_children (cursor_read_string (ucast len) limits c'))
       else if m = 0xda then
         rbind (cursor_read_u16 c) (\<lambda>(len, c'). no_children (cursor_read_string (ucast len) limits c'))
       else if m = 0xdb then
         rbind (cursor_read_u32 c) (\<lambda>(len, c'). no_children (cursor_read_string len limits c'))
       else if m = 0xdc then rbind (cursor_read_u16 c) (\<lambda>(n, c'). Inr (ucast n, c'))
       else if m = 0xdd then rbind (cursor_read_u32 c) (\<lambda>(n, c'). Inr (ucast n, c'))
       else if m = 0xde then
         rbind (cursor_read_u16 c) (\<lambda>(n, c'). rbind (map_children (ucast n)) (\<lambda>k. Inr (k, c')))
       else
         rbind (cursor_read_u32 c) (\<lambda>(n, c'). rbind (map_children n) (\<lambda>k. Inr (k, c'))))"

definition read_value ::
    "ProtocolLimits \<Rightarrow> MessagePackCursor \<Rightarrow> MessagePackError + (u64 \<times> MessagePackCursor)" where
  "read_value limits c = rbind (cursor_read_u8 c) (\<lambda>(marker, c'). read_marker limits marker c')"

lemma cursor_take_Inr:
  "cursor_take len c = Inr (bs, c') \<longleftrightarrow>
     cur_offset c + len < 2 ^ 64 \<and> cur_offset c + len \<le> length (cur_bytes c) \<and>
     bs = take len (drop (cur_offset c) (cur_bytes c)) \<and> c' = c\<lparr>cur_offset := cur_offset c + len\<rparr>"
  by (auto simp: cursor_take_def rbind_Inr_iff slice_def)

text \<open>Every successful read moves the cursor forward inside the same buffer.\<close>

definition cursor_after :: "MessagePackCursor \<Rightarrow> MessagePackCursor \<Rightarrow> bool" where
  "cursor_after c c' \<longleftrightarrow> cur_bytes c' = cur_bytes c \<and> cur_offset c \<le> cur_offset c' \<and>
     cur_offset c' \<le> length (cur_bytes c)"

lemma cursor_after_trans: "cursor_after a b \<Longrightarrow> cursor_after b c \<Longrightarrow> cursor_after a c"
  by (auto simp: cursor_after_def)

lemma cursor_take_after: "cursor_take n c = Inr (bs, c') \<Longrightarrow> cursor_after c c'"
  by (auto simp: cursor_take_Inr cursor_after_def)

lemma cursor_after_refl: "cursor_after c c' \<Longrightarrow> cursor_after c' c'"
  by (auto simp: cursor_after_def)

lemma cursor_read_u8_Inr:
  "cursor_read_u8 c = Inr (b, c') \<Longrightarrow>
     c' = c\<lparr>cur_offset := Suc (cur_offset c)\<rparr> \<and> cur_offset c < length (cur_bytes c)"
  by (auto simp: cursor_read_u8_def rbind_Inr_iff cursor_take_Inr split: list.splits)

lemma cursor_reads_after:
  "cursor_skip n c = Inr c' \<Longrightarrow> cursor_after c c'"
  "cursor_read_u8 c = Inr (b, c') \<Longrightarrow> cursor_after c c'"
  "cursor_read_u16 c = Inr (h, c') \<Longrightarrow> cursor_after c c'"
  "cursor_read_u32 c = Inr (w, c') \<Longrightarrow> cursor_after c c'"
  "cursor_read_string len limits c = Inr c' \<Longrightarrow> cursor_after c c'"
  "cursor_read_binary len limits c = Inr c' \<Longrightarrow> cursor_after c c'"
  by (auto simp: cursor_skip_def cursor_read_u16_def cursor_read_u32_def
      cursor_read_string_def cursor_read_binary_def rbind_Inr_iff cursor_after_def cursor_take_Inr
      split: if_splits dest!: cursor_read_u8_Inr)

lemma no_children_Inr [simp]: "no_children r = Inr (k, c) \<longleftrightarrow> r = Inr c \<and> k = 0"
  by (auto simp: no_children_def rbind_Inr_iff)

lemma if_InrE:
  "(if b then x else y) = Inr z \<Longrightarrow> (x = Inr z \<Longrightarrow> P) \<Longrightarrow> (y = Inr z \<Longrightarrow> P) \<Longrightarrow> P"
  by (cases b) auto

lemma read_marker_after:
  assumes "read_marker limits m c = Inr (k, c')" and "cursor_after c c"
  shows "cursor_after c c'"
  using assms unfolding read_marker_def
  by (elim if_InrE) (auto simp: rbind_Inr_iff intro: cursor_after_trans dest!: cursor_reads_after)

lemma read_value_progress:
  assumes "read_value limits c = Inr (k, c')"
  shows "cur_bytes c' = cur_bytes c \<and> cur_offset c < cur_offset c' \<and>
    cur_offset c' \<le> length (cur_bytes c)"
proof -
  obtain m c1 where c1: "cursor_read_u8 c = Inr (m, c1)" and "read_marker limits m c1 = Inr (k, c')"
    using assms by (auto simp: read_value_def rbind_Inr_iff)
  then have "cursor_after c1 c'"
    using read_marker_after cursor_after_refl cursor_reads_after(2) by blast
  with cursor_read_u8_Inr [OF c1] show ?thesis
    by (auto simp: cursor_after_def)
qed

subsection \<open>The walk\<close>

definition u16_try_from :: "usize \<Rightarrow> u16 option" where
  "u16_try_from n = (if n < 2 ^ 16 then Some (of_nat n) else None)"

text \<open>
  The loop of \<open>inspect_messagepack\<close>; the head of \<open>stack\<close> is the last element of
  \<open>remaining_by_depth\<close>. It terminates because every iteration that continues has read at
  least one byte.
\<close>

function inspect_loop ::
    "ProtocolLimits \<Rightarrow> u64 list \<Rightarrow> MessagePackCursor \<Rightarrow> u32 \<Rightarrow> u16 \<Rightarrow>
     MessagePackError + (MessagePackCursor \<times> u32 \<times> u16)" where
  "inspect_loop limits stack c nodes md =
     (case dropWhile (\<lambda>r. r = 0) stack of
        [] \<Rightarrow> Inr (c, nodes, md)
      | r # stack' \<Rightarrow>
        (let stk = (r - 1) # stack' in
         rbind (ok_or (MpDepthExceeded (max_object_depth limits) 0xffff)
                 (u16_try_from (length stk))) (\<lambda>depth.
         if depth > max_object_depth limits
         then Inl (MpDepthExceeded (max_object_depth limits) depth)
         else
         (let md' = max md depth in
         rbind (ok_or MpChildCountOverflow (checked_add nodes 1)) (\<lambda>nodes'.
         if nodes' > max_graph_nodes limits
         then Inl (MpNodesExceeded (max_graph_nodes limits) nodes')
         else
         rbind (read_value limits c) (\<lambda>(children, c').
         if children \<noteq> 0 then
           rbind (ok_or (MpDepthExceeded (max_object_depth limits) 0xffff) (checked_add depth 1))
             (\<lambda>child_depth.
               if child_depth > max_object_depth limits
               then Inl (MpDepthExceeded (max_object_depth limits) child_depth)
               else inspect_loop limits (children # stk) c' nodes' md')
         else inspect_loop limits stk c' nodes' md'))))))"
  by pat_completeness auto
termination
proof (relation "measure (\<lambda>(limits, stack, c, nodes, md). length (cur_bytes c) - cur_offset c)")
qed (auto dest!: read_value_progress)

declare inspect_loop.simps [simp del]

definition inspect_messagepack ::
    "(usize \<Rightarrow> bool) \<Rightarrow> bytes \<Rightarrow> ProtocolLimits \<Rightarrow> MessagePackError + MessagePackBudget" where
  "inspect_messagepack alloc payload limits =
     rbind (map_err MpInvalidLimits (limits_validate limits)) (\<lambda>_.
     if length payload > unat (max_frame_bytes limits)
     then Inl (MpFrameBytesExceeded (max_frame_bytes limits) (length payload))
     else if payload = [] then Inl MpEmpty
     else rbind (ensure (alloc (unat (max_object_depth limits))) MpBudgetAllocationFailed) (\<lambda>_.
     rbind (inspect_loop limits [1] (cursor_new payload) 0 0) (\<lambda>(c, nodes, md).
     if cur_offset c \<noteq> length payload then Inl (MpTrailingBytes (cur_offset c))
     else messagepack_budget_new nodes md)))"

end
