(* ===== verification/MessagePack_Spec.thy ===== *)
theory MessagePack_Spec
  imports MessagePack
begin

section \<open>MessagePack values and the exactness of the preflight\<close>

text \<open>
  The MessagePack format as a tree of values with its own encoder, written from the format
  and not from the code: a head (a scalar, a string, a binary body, or an array or map
  header with its element count) and the child values. The
  lemmas of this theory relate one step of the cursor to one head, in both directions.
\<close>

subsection \<open>The format\<close>

datatype mp_width = W8 | W16 | W32

datatype mp_head =
    HScalar u8 bytes
  | HFixStr bytes
  | HStr mp_width bytes
  | HBin mp_width bytes
  | HFixArr nat
  | HArr mp_width nat
  | HFixMap nat
  | HMap mp_width nat

fun width_bytes :: "mp_width \<Rightarrow> nat" where
  "width_bytes W8 = 1"
| "width_bytes W16 = 2"
| "width_bytes W32 = 4"

fun width_index :: "mp_width \<Rightarrow> nat" where
  "width_index W8 = 0"
| "width_index W16 = 1"
| "width_index W32 = 2"

fun head_encode :: "mp_head \<Rightarrow> bytes" where
  "head_encode (HScalar m body) = m # body"
| "head_encode (HFixStr s) = of_nat (0xa0 + length s) # s"
| "head_encode (HStr w s) = of_nat (0xd9 + width_index w) # to_be (width_bytes w) (length s) @ s"
| "head_encode (HBin w s) = of_nat (0xc4 + width_index w) # to_be (width_bytes w) (length s) @ s"
| "head_encode (HFixArr n) = [of_nat (0x90 + n)]"
| "head_encode (HArr w n) = of_nat (0xdb + width_index w) # to_be (width_bytes w) n"
| "head_encode (HFixMap n) = [of_nat (0x80 + n)]"
| "head_encode (HMap w n) = of_nat (0xdd + width_index w) # to_be (width_bytes w) n"

text \<open>Body length of a scalar marker: fixints, nil and booleans, floats and integers.\<close>

definition scalar_body :: "u8 \<Rightarrow> nat option" where
  "scalar_body m =
     (if m \<le> 0x7f \<or> 0xe0 \<le> m \<or> m \<in> {0xc0, 0xc2, 0xc3} then Some 0
      else if m \<in> {0xcc, 0xd0} then Some 1
      else if m \<in> {0xcd, 0xd1} then Some 2
      else if m \<in> {0xca, 0xce, 0xd2} then Some 4
      else if m \<in> {0xcb, 0xcf, 0xd3} then Some 8
      else None)"

fun head_ok :: "ProtocolLimits \<Rightarrow> mp_head \<Rightarrow> bool" where
  "head_ok l (HScalar m body) \<longleftrightarrow> scalar_body m = Some (length body)"
| "head_ok l (HFixStr s) \<longleftrightarrow>
     length s \<le> 31 \<and> length s \<le> unat (max_string_bytes l) \<and> utf8_valid s"
| "head_ok l (HStr w s) \<longleftrightarrow>
     length s < 256 ^ width_bytes w \<and> length s \<le> unat (max_string_bytes l) \<and> utf8_valid s"
| "head_ok l (HBin w s) \<longleftrightarrow>
     length s < 256 ^ width_bytes w \<and> length s \<le> unat (max_inline_buffer_bytes l)"
| "head_ok l (HFixArr n) \<longleftrightarrow> n \<le> 15"
| "head_ok l (HArr w n) \<longleftrightarrow> w \<noteq> W8 \<and> n < 256 ^ width_bytes w"
| "head_ok l (HFixMap n) \<longleftrightarrow> n \<le> 15"
| "head_ok l (HMap w n) \<longleftrightarrow> w \<noteq> W8 \<and> n < 256 ^ width_bytes w"

fun head_children :: "mp_head \<Rightarrow> nat" where
  "head_children (HFixArr n) = n"
| "head_children (HArr w n) = n"
| "head_children (HFixMap n) = 2 * n"
| "head_children (HMap w n) = 2 * n"
| "head_children _ = 0"

datatype mp_value = MpValue mp_head "mp_value list"

fun mp_encode :: "mp_value \<Rightarrow> bytes" where
  "mp_encode (MpValue h vs) = head_encode h @ concat (map mp_encode vs)"

fun mp_ok :: "ProtocolLimits \<Rightarrow> mp_value \<Rightarrow> bool" where
  "mp_ok l (MpValue h vs) \<longleftrightarrow> head_ok l h \<and> length vs = head_children h \<and> list_all (mp_ok l) vs"

fun mp_count :: "mp_value \<Rightarrow> nat" where
  "mp_count (MpValue h vs) = Suc (sum_list (map mp_count vs))"

fun mp_height :: "mp_value \<Rightarrow> nat" where
  "mp_height (MpValue h vs) = Suc (foldr max (map mp_height vs) 0)"

subsection \<open>One head\<close>

text \<open>\<open>rest c\<close> is what the cursor has not read yet, \<open>adv n c\<close> the cursor \<open>n\<close> bytes on.\<close>

definition rest :: "MessagePackCursor \<Rightarrow> bytes" where
  "rest c = drop (cur_offset c) (cur_bytes c)"

definition adv :: "nat \<Rightarrow> MessagePackCursor \<Rightarrow> MessagePackCursor" where
  "adv n c = c\<lparr>cur_offset := cur_offset c + n\<rparr>"

definition good :: "MessagePackCursor \<Rightarrow> bool" where
  "good c \<longleftrightarrow> cur_offset c \<le> length (cur_bytes c) \<and> length (cur_bytes c) < 2 ^ 64"

lemma rest_adv [simp]: "rest (adv n c) = drop n (rest c)"
  by (simp add: rest_def adv_def add.commute)

lemma adv_adv [simp]: "adv m (adv n c) = adv (n + m) c"
  by (simp add: adv_def add.assoc)

lemma good_adv [simp]: "good c \<Longrightarrow> good (adv n c) \<longleftrightarrow> n \<le> length (rest c)"
  by (auto simp: good_def adv_def rest_def)

lemma take_good:
  "good c \<Longrightarrow> cursor_take n c =
     (if n \<le> length (rest c) then Inr (take n (rest c), adv n c) else Inl (MpTruncated (cur_offset c)))"
  by (auto simp: cursor_take_def good_def rest_def adv_def slice_def checked_add_usize_def)

lemma skip_Inr:
  "good c \<Longrightarrow> cursor_skip n c = Inr c' \<longleftrightarrow> n \<le> length (rest c) \<and> c' = adv n c"
  by (auto simp: cursor_skip_def take_good)

lemma u8_Inr:
  "good c \<Longrightarrow> cursor_read_u8 c = Inr (b, c') \<longleftrightarrow> (\<exists>r. rest c = b # r) \<and> c' = adv 1 c"
  by (cases "rest c") (auto simp: cursor_read_u8_def take_good)

lemma u16_Inr:
  "good c \<Longrightarrow> cursor_read_u16 c = Inr (h, c') \<longleftrightarrow>
     2 \<le> length (rest c) \<and> h = of_nat (be_nat (take 2 (rest c))) \<and> c' = adv 2 c"
  by (auto simp: cursor_read_u16_def take_good)

lemma u32_Inr:
  "good c \<Longrightarrow> cursor_read_u32 c = Inr (h, c') \<longleftrightarrow>
     4 \<le> length (rest c) \<and> h = of_nat (be_nat (take 4 (rest c))) \<and> c' = adv 4 c"
  by (auto simp: cursor_read_u32_def take_good)

lemma string_Inr:
  "good c \<Longrightarrow> cursor_read_string len l c = Inr c' \<longleftrightarrow>
     unat len \<le> unat (max_string_bytes l) \<and> unat len \<le> length (rest c) \<and>
     utf8_valid (take (unat len) (rest c)) \<and> c' = adv (unat len) c"
  by (auto simp: cursor_read_string_def take_good word_less_nat_alt)

lemma binary_Inr:
  "good c \<Longrightarrow> cursor_read_binary len l c = Inr c' \<longleftrightarrow>
     unat len \<le> unat (max_inline_buffer_bytes l) \<and> unat len \<le> length (rest c) \<and>
     c' = adv (unat len) c"
  by (auto simp: cursor_read_binary_def skip_Inr word_less_nat_alt)

lemma map_children_eq: "map_children n = Inr (of_nat (2 * unat n))"
proof -
  have "unat n * 2 < 2 ^ 64"
    using unsigned_less [of n, where ?'a = nat] by simp
  then show ?thesis
    by (simp add: map_children_def checked_mul_def unat_ucast_up mult.commute)
qed

lemmas cursor_Inr = skip_Inr u8_Inr u16_Inr u32_Inr string_Inr binary_Inr

definition head_read ::
    "ProtocolLimits \<Rightarrow> MessagePackCursor \<Rightarrow> mp_head \<Rightarrow> u64 \<Rightarrow> MessagePackCursor \<Rightarrow> bool" where
  "head_read l c h k c' \<longleftrightarrow> head_ok l h \<and> rest c = head_encode h @ rest c' \<and>
     c' = adv (length (head_encode h)) c \<and> k = of_nat (head_children h)"

lemma head_readI:
  assumes "head_ok l h" and "rest c = head_encode h @ r"
    and "c' = adv (length (head_encode h)) c" and "k = of_nat (head_children h)"
  shows "head_read l c h k c'"
  using assms by (simp add: head_read_def)

text \<open>The markers fall into nine classes; a byte has only 256 values.\<close>

definition marker_class :: "u8 \<Rightarrow> bool" where
  "marker_class m \<longleftrightarrow> scalar_body m \<noteq> None \<or> (0x80 \<le> m \<and> m \<le> 0x8f) \<or> (0x90 \<le> m \<and> m \<le> 0x9f) \<or>
     (0xa0 \<le> m \<and> m \<le> 0xbf) \<or> m \<in> {0xc4, 0xc5, 0xc6} \<or> m \<in> {0xd9, 0xda, 0xdb} \<or>
     m \<in> {0xdc, 0xdd} \<or> m \<in> {0xde, 0xdf} \<or>
     m \<in> {0xc1, 0xc7, 0xc8, 0xc9, 0xd4, 0xd5, 0xd6, 0xd7, 0xd8}"

lemma all_u8: "list_all (\<lambda>n. P (of_nat n)) [0..<256] \<Longrightarrow> P (m :: u8)"
proof -
  assume all: "list_all (\<lambda>n. P (of_nat n)) [0..<256]"
  have "unat m \<in> set [0..<256]"
    using unat_u8_less [of m] by simp
  then have "P (of_nat (unat m))"
    using all unfolding list_all_iff by blast
  then show ?thesis by simp
qed

lemma marker_class_total: "marker_class m"
  by (rule all_u8) code_simp

lemma low_bits:
  "unat (and m 0x0f) = unat m mod 16" "unat (and m 0x1f) = unat m mod 32" for m :: u8
  by (rule all_u8, code_simp)+

lemma fix_marker:
  assumes "lo \<le> unat m" shows "of_nat (lo + (unat m - lo)) = (m :: u8)"
  using assms by simp

lemma be_prefix:
  assumes "length p = n" and "be_nat p = k" shows "to_be n k = p"
  using to_be_be_nat [of p] assms by simp

lemma unat_be_nat:
  assumes "256 ^ length p = (2::nat) ^ LENGTH('a::len)"
  shows "unat (of_nat (be_nat p) :: 'a word) = be_nat p"
  using be_nat_less [of p] assms by (simp add: unat_of_nat)

lemma be_nat_single [simp]: "be_nat [b] = unat b"
  by (simp add: be_nat_def)

lemma scalar_body_cases:
  assumes "scalar_body m = Some n"
  obtains (empty) "m \<le> 0x7f \<or> 0xe0 \<le> m \<or> m = 0xc0 \<or> m = 0xc2 \<or> m = 0xc3" and "n = 0"
    | (one) "m = 0xcc \<or> m = 0xd0" and "n = 1"
    | (two) "m = 0xcd \<or> m = 0xd1" and "n = 2"
    | (four) "m = 0xca \<or> m = 0xce \<or> m = 0xd2" and "n = 4"
    | (eight) "m = 0xcb \<or> m = 0xcf \<or> m = 0xd3" and "n = 8"
  using assms unfolding scalar_body_def
  by (simp only: insert_iff empty_iff split: if_split_asm) auto

lemma read_scalar_eq:
  assumes "scalar_body m = Some n" and "0 < n"
  shows "read_marker l m c = no_children (cursor_skip n c)"
  using assms(1)
proof (cases rule: scalar_body_cases)
  case empty
  with assms(2) show ?thesis by simp
next
  case one
  then show ?thesis by (elim disjE) (simp_all add: read_marker_def)
next
  case two
  then show ?thesis by (elim disjE) (simp_all add: read_marker_def)
next
  case four
  then show ?thesis by (elim disjE) (simp_all add: read_marker_def)
next
  case eight
  then show ?thesis by (elim disjE) (simp_all add: read_marker_def)
qed

lemma read_scalar_zero:
  assumes "scalar_body m = Some 0" shows "read_marker l m c = Inr (0, c)"
proof -
  from assms have "m \<le> 0x7f \<or> 0xe0 \<le> m \<or> m = 0xc0 \<or> m = 0xc2 \<or> m = 0xc3"
    by (cases rule: scalar_body_cases) auto
  then show ?thesis
    unfolding read_marker_def by (simp only: if_True)
qed

lemma read_scalar:
  assumes "good c" and "scalar_body m = Some n"
  shows "read_marker l m c = Inr (k, c') \<longleftrightarrow> n \<le> length (rest c) \<and> c' = adv n c \<and> k = 0"
proof (cases "n = 0")
  case True
  with assms have "read_marker l m c = Inr (0, c)"
    by (simp add: read_scalar_zero)
  with True show ?thesis
    by (auto simp: adv_def)
next
  case False
  with assms have "read_marker l m c = no_children (cursor_skip n c)"
    by (simp add: read_scalar_eq)
  with assms(1) show ?thesis
    by (auto simp: skip_Inr)
qed

lemma read_len_prefixed:
  assumes "good c"
  shows "read_marker l 0xd9 c = Inr (k, c') \<longleftrightarrow> k = 0 \<and> (\<exists>b r. rest c = b # r \<and>
      cursor_read_string (ucast b) l (adv 1 c) = Inr c')"
    and "read_marker l 0xc4 c = Inr (k, c') \<longleftrightarrow> k = 0 \<and> (\<exists>b r. rest c = b # r \<and>
      cursor_read_binary (ucast b) l (adv 1 c) = Inr c')"
    and "read_marker l 0xda c = Inr (k, c') \<longleftrightarrow> k = 0 \<and> 2 \<le> length (rest c) \<and>
      cursor_read_string (ucast (of_nat (be_nat (take 2 (rest c))) :: u16)) l (adv 2 c) = Inr c'"
    and "read_marker l 0xc5 c = Inr (k, c') \<longleftrightarrow> k = 0 \<and> 2 \<le> length (rest c) \<and>
      cursor_read_binary (ucast (of_nat (be_nat (take 2 (rest c))) :: u16)) l (adv 2 c) = Inr c'"
    and "read_marker l 0xdb c = Inr (k, c') \<longleftrightarrow> k = 0 \<and> 4 \<le> length (rest c) \<and>
      cursor_read_string (of_nat (be_nat (take 4 (rest c)))) l (adv 4 c) = Inr c'"
    and "read_marker l 0xc6 c = Inr (k, c') \<longleftrightarrow> k = 0 \<and> 4 \<le> length (rest c) \<and>
      cursor_read_binary (of_nat (be_nat (take 4 (rest c)))) l (adv 4 c) = Inr c'"
  using assms
  by (auto simp: read_marker_def rbind_Inr_iff u8_Inr u16_Inr u32_Inr)

lemma read_fix:
  assumes "good c"
  shows "0x80 \<le> m \<Longrightarrow> m \<le> 0x8f \<Longrightarrow>
      read_marker l m c = Inr (of_nat (2 * (unat m - 0x80)), c)"
    and "0x90 \<le> m \<Longrightarrow> m \<le> 0x9f \<Longrightarrow> read_marker l m c = Inr (of_nat (unat m - 0x90), c)"
    and "0xa0 \<le> m \<Longrightarrow> m \<le> 0xbf \<Longrightarrow>
      read_marker l m c = no_children (cursor_read_string (of_nat (unat m - 0xa0)) l c)"
proof -
  note nat = word_le_nat_alt low_bits unat_ucast_up
  {
    assume m: "0x80 \<le> m" "m \<le> 0x8f"
    then have "unat m mod 16 = unat m - 0x80" and "\<not> m \<le> 0x7f" "\<not> 0xe0 \<le> m"
      and "m \<noteq> 0xc0" "m \<noteq> 0xc2" "m \<noteq> 0xc3"
      by (auto simp: nat mod_if)
    with m show "read_marker l m c = Inr (of_nat (2 * (unat m - 0x80)), c)"
      unfolding read_marker_def by (simp add: map_children_eq low_bits unat_ucast_up)
  next
    assume m: "0x90 \<le> m" "m \<le> 0x9f"
    then have "unat m mod 16 = unat m - 0x90" and "\<not> m \<le> 0x7f" "\<not> 0xe0 \<le> m"
      and "m \<noteq> 0xc0" "m \<noteq> 0xc2" "m \<noteq> 0xc3" "\<not> m \<le> 0x8f"
      by (auto simp: nat mod_if)
    moreover from this have "ucast (and m 0x0f) = (of_nat (unat m - 0x90) :: u64)"
      by (metis low_bits(1) of_nat_unat)
    ultimately show "read_marker l m c = Inr (of_nat (unat m - 0x90), c)"
      using m unfolding read_marker_def by simp
  next
    assume m: "0xa0 \<le> m" "m \<le> 0xbf"
    then have "unat m mod 32 = unat m - 0xa0" and "\<not> m \<le> 0x7f" "\<not> 0xe0 \<le> m"
      and "m \<noteq> 0xc0" "m \<noteq> 0xc2" "m \<noteq> 0xc3" "\<not> m \<le> 0x8f" "\<not> m \<le> 0x9f"
      by (auto simp: nat mod_if)
    moreover from this have "ucast (and m 0x1f) = (of_nat (unat m - 0xa0) :: u32)"
      by (metis low_bits(2) of_nat_unat)
    ultimately show "read_marker l m c = no_children (cursor_read_string (of_nat (unat m - 0xa0)) l c)"
      using m unfolding read_marker_def by simp
  }
qed

lemma ucast_via_unat: "unat w = n \<Longrightarrow> ucast w = of_nat n"
  by auto

lemma read_containers:
  assumes "good c"
  shows "read_marker l 0xdc c = Inr (k, c') \<longleftrightarrow> 2 \<le> length (rest c) \<and> c' = adv 2 c \<and>
      k = of_nat (be_nat (take 2 (rest c)))"
    and "read_marker l 0xdd c = Inr (k, c') \<longleftrightarrow> 4 \<le> length (rest c) \<and> c' = adv 4 c \<and>
      k = of_nat (be_nat (take 4 (rest c)))"
    and "read_marker l 0xde c = Inr (k, c') \<longleftrightarrow> 2 \<le> length (rest c) \<and> c' = adv 2 c \<and>
      k = of_nat (2 * be_nat (take 2 (rest c)))"
    and "read_marker l 0xdf c = Inr (k, c') \<longleftrightarrow> 4 \<le> length (rest c) \<and> c' = adv 4 c \<and>
      k = of_nat (2 * be_nat (take 4 (rest c)))"
proof -
  have u16: "unat (of_nat (be_nat (take 2 (rest c))) :: u16) = be_nat (take 2 (rest c))"
    if "2 \<le> length (rest c)"
    using that by (intro unat_be_nat) simp
  have u32: "unat (of_nat (be_nat (take 4 (rest c))) :: u32) = be_nat (take 4 (rest c))"
    if "4 \<le> length (rest c)"
    using that by (intro unat_be_nat) simp
  have uc16: "(ucast (of_nat (be_nat (take 2 (rest c))) :: u16) :: u64) = of_nat (be_nat (take 2 (rest c)))"
    if "2 \<le> length (rest c)"
    using ucast_via_unat u16 [OF that] by blast
  have uc32: "(ucast (of_nat (be_nat (take 4 (rest c))) :: u32) :: u64) = of_nat (be_nat (take 4 (rest c)))"
    if "4 \<le> length (rest c)"
    using ucast_via_unat u32 [OF that] by blast
  show "read_marker l 0xdc c = Inr (k, c') \<longleftrightarrow> 2 \<le> length (rest c) \<and> c' = adv 2 c \<and>
      k = of_nat (be_nat (take 2 (rest c)))"
    using assms uc16 by (auto simp: read_marker_def rbind_Inr_iff u16_Inr)
  show "read_marker l 0xdd c = Inr (k, c') \<longleftrightarrow> 4 \<le> length (rest c) \<and> c' = adv 4 c \<and>
      k = of_nat (be_nat (take 4 (rest c)))"
    using assms uc32 by (auto simp: read_marker_def rbind_Inr_iff u32_Inr)
  show "read_marker l 0xde c = Inr (k, c') \<longleftrightarrow> 2 \<le> length (rest c) \<and> c' = adv 2 c \<and>
      k = of_nat (2 * be_nat (take 2 (rest c)))"
    using assms u16 uc16
    by (auto simp: read_marker_def rbind_Inr_iff u16_Inr map_children_eq unat_ucast_up)
  show "read_marker l 0xdf c = Inr (k, c') \<longleftrightarrow> 4 \<le> length (rest c) \<and> c' = adv 4 c \<and>
      k = of_nat (2 * be_nat (take 4 (rest c)))"
    using assms u32 uc32
    by (auto simp: read_marker_def rbind_Inr_iff u32_Inr map_children_eq)
qed

end
