(* ===== verification/MessagePack_Exact.thy ===== *)
theory MessagePack_Exact
  imports MessagePack_Spec
begin

section \<open>The preflight decides the format\<close>

text \<open>
  \<open>read_value_iff\<close>: one call of \<open>read_value\<close> reads exactly one head. The walk is then
  shown sound (what it accepts is a forest of well-formed values laid out in the buffer)
  and complete (it accepts every such forest within the limits), which together give
  \<open>inspect_messagepack_exact\<close>.
\<close>

subsection \<open>One value\<close>

lemma good_rest_adv: "good c \<Longrightarrow> rest c = m # r \<Longrightarrow> good (adv n c) \<longleftrightarrow> n \<le> Suc (length r)"
  by simp

lemma head_str:
  assumes "good c" and "rest c = m # r"
    and "m = of_nat (0xd9 + width_index w)" and "width_bytes w \<le> length r"
    and "unat len = be_nat (take (width_bytes w) r)"
    and "cursor_read_string len l (adv (Suc (width_bytes w)) c) = Inr c'"
  shows "\<exists>h. head_read l c h 0 c'"
proof -
  let ?n = "unat len" and ?p = "take (width_bytes w) r" and ?s = "take (unat len) (drop (width_bytes w) r)"
  have g: "good (adv (Suc (width_bytes w)) c)"
    using assms(4) by (simp add: good_rest_adv [OF assms(1,2)])
  from assms(6) have s: "?n \<le> unat (max_string_bytes l)" "?n \<le> length r - width_bytes w"
    "utf8_valid ?s" "c' = adv (Suc (width_bytes w) + ?n) c"
    by (auto simp: string_Inr [OF g] assms(2))
  have len: "length ?s = ?n"
    using s(2) by simp
  have "be_nat ?p < 256 ^ width_bytes w"
    using be_nat_less [of ?p] assms(4) by simp
  then have "head_read l c (HStr w ?s) 0 c'"
    using s len assms(2-5) be_prefix [of ?p "width_bytes w" ?n]
    by (intro head_readI [where r = "drop (width_bytes w + ?n) r"])
      (auto simp flip: append_assoc take_add)
  then show ?thesis ..
qed

lemma head_bin:
  assumes "good c" and "rest c = m # r"
    and "m = of_nat (0xc4 + width_index w)" and "width_bytes w \<le> length r"
    and "unat len = be_nat (take (width_bytes w) r)"
    and "cursor_read_binary len l (adv (Suc (width_bytes w)) c) = Inr c'"
  shows "\<exists>h. head_read l c h 0 c'"
proof -
  let ?n = "unat len" and ?p = "take (width_bytes w) r" and ?s = "take (unat len) (drop (width_bytes w) r)"
  have g: "good (adv (Suc (width_bytes w)) c)"
    using assms(4) by (simp add: good_rest_adv [OF assms(1,2)])
  from assms(6) have s: "?n \<le> unat (max_inline_buffer_bytes l)" "?n \<le> length r - width_bytes w"
    "c' = adv (Suc (width_bytes w) + ?n) c"
    by (auto simp: binary_Inr [OF g] assms(2))
  have len: "length ?s = ?n"
    using s(2) by simp
  have "be_nat ?p < 256 ^ width_bytes w"
    using be_nat_less [of ?p] assms(4) by simp
  then have "head_read l c (HBin w ?s) 0 c'"
    using s len assms(2-5) be_prefix [of ?p "width_bytes w" ?n]
    by (intro head_readI [where r = "drop (width_bytes w + ?n) r"])
      (auto simp flip: append_assoc take_add)
  then show ?thesis ..
qed

lemma head_container:
  assumes "rest c = m # r" and "width_bytes w \<le> length r" and "w \<noteq> W8"
    and "c' = adv (Suc (width_bytes w)) c"
  shows "m = of_nat (0xdb + width_index w) \<Longrightarrow> k = of_nat (be_nat (take (width_bytes w) r)) \<Longrightarrow>
      \<exists>h. head_read l c h k c'"
    and "m = of_nat (0xdd + width_index w) \<Longrightarrow> k = of_nat (2 * be_nat (take (width_bytes w) r)) \<Longrightarrow>
      \<exists>h. head_read l c h k c'"
proof -
  let ?n = "be_nat (take (width_bytes w) r)"
  have lt: "?n < 256 ^ width_bytes w" and p: "to_be (width_bytes w) ?n = take (width_bytes w) r"
    using be_nat_less [of "take (width_bytes w) r"] be_prefix assms(2) by simp_all
  {
    assume "m = of_nat (0xdb + width_index w)" "k = of_nat ?n"
    then have "head_read l c (HArr w ?n) k c'"
      using assms lt p by (intro head_readI [where r = "drop (width_bytes w) r"]) auto
    then show "\<exists>h. head_read l c h k c'" ..
  next
    assume "m = of_nat (0xdd + width_index w)" "k = of_nat (2 * ?n)"
    then have "head_read l c (HMap w ?n) k c'"
      using assms lt p by (intro head_readI [where r = "drop (width_bytes w) r"]) auto
    then show "\<exists>h. head_read l c h k c'" ..
  }
qed

lemma head_fix:
  assumes g: "good c" and r: "rest c = m # r" and v: "read_marker l m (adv 1 c) = Inr (k, c')"
  shows "0x80 \<le> m \<Longrightarrow> m \<le> 0x8f \<Longrightarrow> \<exists>h. head_read l c h k c'"
    and "0x90 \<le> m \<Longrightarrow> m \<le> 0x9f \<Longrightarrow> \<exists>h. head_read l c h k c'"
    and "0xa0 \<le> m \<Longrightarrow> m \<le> 0xbf \<Longrightarrow> \<exists>h. head_read l c h k c'"
proof -
  have g1: "good (adv 1 c)"
    using g r by simp
  {
    assume m: "0x80 \<le> m" "m \<le> 0x8f"
    then have b: "0x80 \<le> unat m" "unat m \<le> 0x8f"
      by (simp_all add: word_le_nat_alt)
    from v read_fix(1) [OF g1 m] have "head_read l c (HFixMap (unat m - 0x80)) k c'"
      using b fix_marker [of "0x80" m] r by (intro head_readI [where r = r]) auto
    then show "\<exists>h. head_read l c h k c'" ..
  next
    assume m: "0x90 \<le> m" "m \<le> 0x9f"
    then have b: "0x90 \<le> unat m" "unat m \<le> 0x9f"
      by (simp_all add: word_le_nat_alt)
    from v read_fix(2) [OF g1 m] have "head_read l c (HFixArr (unat m - 0x90)) k c'"
      using b fix_marker [of "0x90" m] r by (intro head_readI [where r = r]) auto
    then show "\<exists>h. head_read l c h k c'" ..
  next
    assume m: "0xa0 \<le> m" "m \<le> 0xbf"
    let ?n = "unat m - 0xa0"
    from m have b: "0xa0 \<le> unat m" "unat m \<le> 0xbf"
      by (simp_all add: word_le_nat_alt)
    then have u: "unat (of_nat ?n :: u32) = ?n"
      unfolding unat_of_nat by simp
    from v have "cursor_read_string (of_nat ?n) l (adv 1 c) = Inr c'" and "k = 0"
      unfolding read_fix(3) [OF g1 m] by (simp_all only: no_children_Inr)
    then have s: "?n \<le> unat (max_string_bytes l)" "?n \<le> length r" "utf8_valid (take ?n r)"
      "c' = adv (Suc ?n) c"
      by (auto simp only: string_Inr [OF g1] u rest_adv r adv_adv) auto
    then have "head_read l c (HFixStr (take ?n r)) k c'"
      using b fix_marker [of "0xa0" m] r \<open>k = 0\<close> by (intro head_readI [where r = "drop ?n r"]) auto
    then show "\<exists>h. head_read l c h k c'" ..
  }
qed

lemma head_scalar:
  assumes "good c" and "rest c = m # r" and "read_marker l m (adv 1 c) = Inr (k, c')"
    and "scalar_body m = Some n"
  shows "\<exists>h. head_read l c h k c'"
proof -
  have g1: "good (adv 1 c)"
    using assms(1,2) by simp
  from assms(3) have "n \<le> length r" "c' = adv (Suc n) c" "k = 0"
    unfolding read_scalar [OF g1 assms(4)] by (auto simp: assms(2))
  then have "head_read l c (HScalar m (take n r)) k c'"
    using assms by (intro head_readI [where r = "drop n r"]) auto
  then show ?thesis ..
qed

lemma read_bin_sound:
  assumes g: "good c" and r: "rest c = m # r" and v: "read_marker l m (adv 1 c) = Inr (k, c')"
    and m: "m \<in> {0xc4, 0xc5, 0xc6}"
  shows "\<exists>h. head_read l c h k c'"
proof -
  have g1: "good (adv 1 c)" and r1: "rest (adv 1 c) = r"
    using g r by simp_all
  consider "m = 0xc4" | "m = 0xc5" | "m = 0xc6"
    using m by blast
  then show ?thesis
  proof cases
    case 1
    with v have k: "k = 0" and "\<exists>b r'. r = b # r' \<and> cursor_read_binary (ucast b) l (adv 2 c) = Inr c'"
      using read_len_prefixed(2) [OF g1] r1 by (auto simp: numeral_2_eq_2)
    then obtain b r' where "r = b # r'" "cursor_read_binary (ucast b) l (adv 2 c) = Inr c'"
      by blast
    with k 1 show ?thesis
      using head_bin [OF g r, where w = W8 and len = "ucast b"]
      by (simp add: unat_ucast_up numeral_2_eq_2)
  next
    case 2
    from v have "k = 0" and len: "2 \<le> length r"
      and "cursor_read_binary (ucast (of_nat (be_nat (take 2 r)) :: u16)) l (adv 3 c) = Inr c'"
      unfolding 2 read_len_prefixed(4) [OF g1] r1 by (simp_all add: numeral_3_eq_3)
    moreover have "unat (ucast (of_nat (be_nat (take 2 r)) :: u16) :: u32) = be_nat (take 2 r)"
      using unat_be_nat [of "take 2 r", where ?'a = 16] len by (simp add: unat_ucast_up)
    ultimately show ?thesis
      using 2 len head_bin [OF g r, where w = W16 and len = "ucast (of_nat (be_nat (take 2 r)) :: u16)"] by (simp add: numeral_3_eq_3)
  next
    case 3
    from v have "k = 0" and len: "4 \<le> length r"
      and "cursor_read_binary (of_nat (be_nat (take 4 r))) l (adv 5 c) = Inr c'"
      unfolding 3 read_len_prefixed(6) [OF g1] r1 by simp_all
    moreover have "unat (of_nat (be_nat (take 4 r)) :: u32) = be_nat (take 4 r)"
      using unat_be_nat [of "take 4 r", where ?'a = 32] len by (simp add: unat_ucast_up)
    ultimately show ?thesis
      using 3 len head_bin [OF g r, where w = W32 and len = "of_nat (be_nat (take 4 r))"] by simp
  qed
qed

lemma read_str_sound:
  assumes g: "good c" and r: "rest c = m # r" and v: "read_marker l m (adv 1 c) = Inr (k, c')"
    and m: "m \<in> {0xd9, 0xda, 0xdb}"
  shows "\<exists>h. head_read l c h k c'"
proof -
  have g1: "good (adv 1 c)" and r1: "rest (adv 1 c) = r"
    using g r by simp_all
  consider "m = 0xd9" | "m = 0xda" | "m = 0xdb"
    using m by blast
  then show ?thesis
  proof cases
    case 1
    with v have k: "k = 0" and "\<exists>b r'. r = b # r' \<and> cursor_read_string (ucast b) l (adv 2 c) = Inr c'"
      using read_len_prefixed(1) [OF g1] r1 by (auto simp: numeral_2_eq_2)
    then obtain b r' where "r = b # r'" "cursor_read_string (ucast b) l (adv 2 c) = Inr c'"
      by blast
    with k 1 show ?thesis
      using head_str [OF g r, where w = W8 and len = "ucast b"]
      by (simp add: unat_ucast_up numeral_2_eq_2)
  next
    case 2
    from v have "k = 0" and len: "2 \<le> length r"
      and "cursor_read_string (ucast (of_nat (be_nat (take 2 r)) :: u16)) l (adv 3 c) = Inr c'"
      unfolding 2 read_len_prefixed(3) [OF g1] r1 by (simp_all add: numeral_3_eq_3)
    moreover have "unat (ucast (of_nat (be_nat (take 2 r)) :: u16) :: u32) = be_nat (take 2 r)"
      using unat_be_nat [of "take 2 r", where ?'a = 16] len by (simp add: unat_ucast_up)
    ultimately show ?thesis
      using 2 len head_str [OF g r, where w = W16 and len = "ucast (of_nat (be_nat (take 2 r)) :: u16)"] by (simp add: numeral_3_eq_3)
  next
    case 3
    from v have "k = 0" and len: "4 \<le> length r"
      and "cursor_read_string (of_nat (be_nat (take 4 r))) l (adv 5 c) = Inr c'"
      unfolding 3 read_len_prefixed(5) [OF g1] r1 by simp_all
    moreover have "unat (of_nat (be_nat (take 4 r)) :: u32) = be_nat (take 4 r)"
      using unat_be_nat [of "take 4 r", where ?'a = 32] len by (simp add: unat_ucast_up)
    ultimately show ?thesis
      using 3 len head_str [OF g r, where w = W32 and len = "of_nat (be_nat (take 4 r))"] by simp
  qed
qed

lemma read_arr_sound:
  assumes g: "good c" and r: "rest c = m # r" and v: "read_marker l m (adv 1 c) = Inr (k, c')"
    and m: "m \<in> {0xdc, 0xdd}"
  shows "\<exists>h. head_read l c h k c'"
proof -
  have g1: "good (adv 1 c)" and r1: "rest (adv 1 c) = r"
    using g r by simp_all
  consider "m = 0xdc" | "m = 0xdd"
    using m by blast
  then show ?thesis
  proof cases
    case 1
    from v have "2 \<le> length r" and "c' = adv 3 c" and "k = of_nat (be_nat (take 2 r))"
      unfolding 1 read_containers(1) [OF g1] r1 by (simp_all add: numeral_3_eq_3)
    with 1 show ?thesis
      using head_container(1) [OF r, where w = W16] by (simp add: numeral_3_eq_3)
  next
    case 2
    from v have "4 \<le> length r" and "c' = adv 5 c" and "k = of_nat (be_nat (take 4 r))"
      unfolding 2 read_containers(2) [OF g1] r1 by simp_all
    with 2 show ?thesis
      using head_container(1) [OF r, where w = W32] by simp
  qed
qed

lemma read_map_sound:
  assumes g: "good c" and r: "rest c = m # r" and v: "read_marker l m (adv 1 c) = Inr (k, c')"
    and m: "m \<in> {0xde, 0xdf}"
  shows "\<exists>h. head_read l c h k c'"
proof -
  have g1: "good (adv 1 c)" and r1: "rest (adv 1 c) = r"
    using g r by simp_all
  consider "m = 0xde" | "m = 0xdf"
    using m by blast
  then show ?thesis
  proof cases
    case 1
    from v have "2 \<le> length r" and "c' = adv 3 c" and "k = of_nat (2 * be_nat (take 2 r))"
      unfolding 1 read_containers(3) [OF g1] r1 by (simp_all add: numeral_3_eq_3)
    with 1 show ?thesis
      using head_container(2) [OF r, where w = W16] by (simp add: numeral_3_eq_3)
  next
    case 2
    from v have "4 \<le> length r" and "c' = adv 5 c" and "k = of_nat (2 * be_nat (take 4 r))"
      unfolding 2 read_containers(4) [OF g1] r1 by simp_all
    with 2 show ?thesis
      using head_container(2) [OF r, where w = W32] by simp
  qed
qed

lemma read_marker_sound:
  assumes g: "good c" and r: "rest c = m # r" and v: "read_marker l m (adv 1 c) = Inr (k, c')"
  shows "\<exists>h. head_read l c h k c'"
proof -
  consider (scalar) n where "scalar_body m = Some n"
    | (fix_map) "0x80 \<le> m" "m \<le> 0x8f" | (fix_arr) "0x90 \<le> m" "m \<le> 0x9f"
    | (fix_str) "0xa0 \<le> m" "m \<le> 0xbf"
    | (bin) "m \<in> {0xc4, 0xc5, 0xc6}" | (str) "m \<in> {0xd9, 0xda, 0xdb}"
    | (arr) "m \<in> {0xdc, 0xdd}" | (map) "m \<in> {0xde, 0xdf}"
    | (none) "m \<in> {0xc1, 0xc7, 0xc8, 0xc9, 0xd4, 0xd5, 0xd6, 0xd7, 0xd8}"
    using marker_class_total [of m] unfolding marker_class_def by blast
  then show ?thesis
  proof cases
    case none
    with v show ?thesis
      by (auto simp: read_marker_def)
  qed (rule head_scalar [OF g r v] head_fix [OF g r v] read_bin_sound [OF g r v]
      read_str_sound [OF g r v] read_arr_sound [OF g r v] read_map_sound [OF g r v]; assumption)+
qed

lemma read_value_sound:
  assumes "good c" and "read_value l c = Inr (k, c')"
  shows "\<exists>h. head_read l c h k c'"
proof -
  from assms obtain m r where "rest c = m # r" and "read_marker l m (adv 1 c) = Inr (k, c')"
    by (auto simp: read_value_def rbind_Inr_iff u8_Inr)
  then show ?thesis
    using read_marker_sound assms(1) by blast
qed

lemma read_value_marker:
  assumes "good c" and "rest c = m # r"
  shows "read_value l c = read_marker l m (adv 1 c)"
proof -
  have "cursor_read_u8 c = Inr (m, adv 1 c)"
    using assms by (simp add: u8_Inr)
  then show ?thesis
    by (simp add: read_value_def)
qed

lemma fix_bounds:
  assumes "n \<le> k" and "lo + k < 256"
  shows "unat (of_nat (lo + n) :: u8) = lo + n"
  using assms unfolding unat_of_nat by simp

lemma complete_fix:
  assumes g: "good c" and h: "head_ok l h" and r: "rest c = head_encode h @ r"
    and f: "h = HFixMap n \<or> h = HFixArr n \<or> h = HFixStr s"
  shows "read_value l c = Inr (of_nat (head_children h), adv (length (head_encode h)) c)"
  using f
proof (elim disjE)
  assume hh: "h = HFixMap n"
  let ?m = "of_nat (0x80 + n) :: u8"
  have u: "unat ?m = 0x80 + n" and "n \<le> 15"
    using h hh fix_bounds [of n 15 "0x80"] by auto
  then have m: "0x80 \<le> ?m" "?m \<le> 0x8f"
    by (simp_all only: word_le_nat_alt u) simp_all
  have rc: "rest c = ?m # r" and g1: "good (adv 1 c)"
    using r hh g by simp_all
  show ?thesis
    unfolding read_value_marker [OF g rc] read_fix(1) [OF g1 m] u using hh by simp
next
  assume hh: "h = HFixArr n"
  let ?m = "of_nat (0x90 + n) :: u8"
  have u: "unat ?m = 0x90 + n" and "n \<le> 15"
    using h hh fix_bounds [of n 15 "0x90"] by auto
  then have m: "0x90 \<le> ?m" "?m \<le> 0x9f"
    by (simp_all only: word_le_nat_alt u) simp_all
  have rc: "rest c = ?m # r" and g1: "good (adv 1 c)"
    using r hh g by simp_all
  show ?thesis
    unfolding read_value_marker [OF g rc] read_fix(2) [OF g1 m] u using hh by simp
next
  assume hh: "h = HFixStr s"
  let ?m = "of_nat (0xa0 + length s) :: u8"
  have u: "unat ?m = 0xa0 + length s" and le: "length s \<le> 31"
    using h hh fix_bounds [of "length s" 31 "0xa0"] by auto
  then have m: "0xa0 \<le> ?m" "?m \<le> 0xbf"
    by (simp_all only: word_le_nat_alt u) simp_all
  have rc: "rest c = ?m # s @ r" and g1: "good (adv 1 c)"
    using r hh g by simp_all
  have l: "unat (of_nat (length s) :: u32) = length s"
    using le unfolding unat_of_nat by simp
  have "cursor_read_string (of_nat (length s)) l (adv 1 c) = Inr (adv (length s) (adv 1 c))"
    unfolding string_Inr [OF g1] l using h hh rc by simp
  then show ?thesis
    unfolding read_value_marker [OF g rc] read_fix(3) [OF g1 m] u using hh by (simp add: no_children_def)
qed

lemma be_prefix_take:
  "k < 256 ^ n \<Longrightarrow> be_nat (take n (to_be n k @ r)) = k"
  by (simp add: be_nat_to_be)

lemma complete_str:
  assumes g: "good c" and h: "head_ok l (HStr w s)" and r: "rest c = head_encode (HStr w s) @ r"
  shows "read_value l c = Inr (0, adv (length (head_encode (HStr w s))) c)"
proof -
  let ?n = "length s" and ?b = "width_bytes w"
  let ?c = "adv (Suc ?b) c" and ?m = "of_nat (0xd9 + width_index w) :: u8"
  from r have rc: "rest c = ?m # to_be ?b ?n @ s @ r" and g1: "good (adv 1 c)"
    using g by simp_all
  have lt: "?n < 256 ^ ?b" and r1: "rest (adv 1 c) = to_be ?b ?n @ s @ r"
    using h rc by simp_all
  have g2: "good ?c" and r2: "rest ?c = s @ r"
    using g rc by simp_all
  have str: "cursor_read_string len l ?c = Inr (adv (Suc ?b + ?n) c)" if "unat len = ?n" for len
    unfolding string_Inr [OF g2] that using h r2 by simp
  have be: "be_nat (take ?b (rest (adv 1 c))) = ?n"
    unfolding r1 by (rule be_prefix_take [OF lt])
  show ?thesis
    unfolding read_value_marker [OF g rc]
  proof (cases w)
    case W8
    then have l: "unat (ucast (of_nat ?n :: u8) :: u32) = ?n"
      using lt by (simp add: unat_ucast_up unat_of_nat)
    have "to_be 1 ?n = [of_nat ?n]"
      by (simp add: to_be_def)
    then show "read_marker l ?m (adv 1 c) = Inr (0, adv (length (head_encode (HStr w s))) c)"
      using W8 r1 str [OF l] read_len_prefixed(1) [OF g1, of l 0] by simp
  next
    case W16
    then have "unat (ucast (of_nat (be_nat (take 2 (rest (adv 1 c)))) :: u16) :: u32) = ?n"
      using be lt by (simp add: unat_ucast_up unat_of_nat)
    then show "read_marker l ?m (adv 1 c) = Inr (0, adv (length (head_encode (HStr w s))) c)"
      using W16 r1 str read_len_prefixed(3) [OF g1, of l 0] by (simp add: numeral_3_eq_3)
  next
    case W32
    then have "unat (of_nat (be_nat (take 4 (rest (adv 1 c)))) :: u32) = ?n"
      using be lt by (simp add: unat_of_nat)
    then show "read_marker l ?m (adv 1 c) = Inr (0, adv (length (head_encode (HStr w s))) c)"
      using W32 r1 str read_len_prefixed(5) [OF g1, of l 0] by simp
  qed
qed

lemma complete_bin:
  assumes g: "good c" and h: "head_ok l (HBin w s)" and r: "rest c = head_encode (HBin w s) @ r"
  shows "read_value l c = Inr (0, adv (length (head_encode (HBin w s))) c)"
proof -
  let ?n = "length s" and ?b = "width_bytes w"
  let ?c = "adv (Suc ?b) c" and ?m = "of_nat (0xc4 + width_index w) :: u8"
  from r have rc: "rest c = ?m # to_be ?b ?n @ s @ r" and g1: "good (adv 1 c)"
    using g by simp_all
  have lt: "?n < 256 ^ ?b" and r1: "rest (adv 1 c) = to_be ?b ?n @ s @ r"
    using h rc by simp_all
  have g2: "good ?c" and r2: "rest ?c = s @ r"
    using g rc by simp_all
  have bin: "cursor_read_binary len l ?c = Inr (adv (Suc ?b + ?n) c)" if "unat len = ?n" for len
    unfolding binary_Inr [OF g2] that using h r2 by simp
  have be: "be_nat (take ?b (rest (adv 1 c))) = ?n"
    unfolding r1 by (rule be_prefix_take [OF lt])
  show ?thesis
    unfolding read_value_marker [OF g rc]
  proof (cases w)
    case W8
    then have l: "unat (ucast (of_nat ?n :: u8) :: u32) = ?n"
      using lt by (simp add: unat_ucast_up unat_of_nat)
    have "to_be 1 ?n = [of_nat ?n]"
      by (simp add: to_be_def)
    then show "read_marker l ?m (adv 1 c) = Inr (0, adv (length (head_encode (HBin w s))) c)"
      using W8 r1 bin [OF l] read_len_prefixed(2) [OF g1, of l 0] by simp
  next
    case W16
    then have "unat (ucast (of_nat (be_nat (take 2 (rest (adv 1 c)))) :: u16) :: u32) = ?n"
      using be lt by (simp add: unat_ucast_up unat_of_nat)
    then show "read_marker l ?m (adv 1 c) = Inr (0, adv (length (head_encode (HBin w s))) c)"
      using W16 r1 bin read_len_prefixed(4) [OF g1, of l 0] by (simp add: numeral_3_eq_3)
  next
    case W32
    then have "unat (of_nat (be_nat (take 4 (rest (adv 1 c)))) :: u32) = ?n"
      using be lt by (simp add: unat_of_nat)
    then show "read_marker l ?m (adv 1 c) = Inr (0, adv (length (head_encode (HBin w s))) c)"
      using W32 r1 bin read_len_prefixed(6) [OF g1, of l 0] by simp
  qed
qed

lemma complete_container:
  assumes g: "good c" and h: "head_ok l h" and r: "rest c = head_encode h @ r"
    and f: "h = HArr w n \<or> h = HMap w n"
  shows "read_value l c = Inr (of_nat (head_children h), adv (length (head_encode h)) c)"
proof -
  let ?b = "width_bytes w" and ?m = "hd (head_encode h)"
  from r f have rc: "rest c = ?m # to_be ?b n @ r" and g1: "good (adv 1 c)"
    using g by auto
  have lt: "n < 256 ^ ?b" and w: "w \<noteq> W8" and r1: "rest (adv 1 c) = to_be ?b n @ r"
    using h f rc by auto
  have be: "be_nat (take ?b (rest (adv 1 c))) = n"
    unfolding r1 by (rule be_prefix_take [OF lt])
  show ?thesis
    unfolding read_value_marker [OF g rc]
  proof (cases w)
    case W8
    with w show "read_marker l ?m (adv 1 c) = Inr (of_nat (head_children h), adv (length (head_encode h)) c)"
      by simp
  next
    case W16
    then show "read_marker l ?m (adv 1 c) = Inr (of_nat (head_children h), adv (length (head_encode h)) c)"
      using f be r1 read_containers(1) [OF g1, of l] read_containers(3) [OF g1, of l]
      by (auto simp: numeral_3_eq_3)
  next
    case W32
    then show "read_marker l ?m (adv 1 c) = Inr (of_nat (head_children h), adv (length (head_encode h)) c)"
      using f be r1 read_containers(2) [OF g1, of l] read_containers(4) [OF g1, of l] by auto
  qed
qed

lemma read_value_complete:
  assumes g: "good c" and h: "head_ok l h" and r: "rest c = head_encode h @ r"
  shows "read_value l c = Inr (of_nat (head_children h), adv (length (head_encode h)) c)"
proof (cases h)
  case (HScalar m body)
  then have rc: "rest c = m # body @ r" and g1: "good (adv 1 c)"
    using r g by simp_all
  have "scalar_body m = Some (length body)"
    using h HScalar by simp
  from read_scalar [OF g1 this] show ?thesis
    unfolding read_value_marker [OF g rc] using HScalar rc by simp
next
  case (HStr w s)
  with complete_str [of c l w s r] assms show ?thesis by simp
next
  case (HBin w s)
  with complete_bin [of c l w s r] assms show ?thesis by simp
next
  case (HFixStr s)
  then show ?thesis by (intro complete_fix [OF g h r]) simp
next
  case (HFixArr n)
  then show ?thesis by (intro complete_fix [OF g h r]) simp
next
  case (HFixMap n)
  then show ?thesis by (intro complete_fix [OF g h r]) simp
next
  case (HArr w n)
  then show ?thesis by (intro complete_container [OF g h r]) simp
next
  case (HMap w n)
  then show ?thesis by (intro complete_container [OF g h r]) simp
qed

lemma head_children_bound: "head_ok l h \<Longrightarrow> head_children h < 2 ^ 33"
proof (cases h)
  case (HArr w n)
  moreover assume "head_ok l h"
  ultimately show ?thesis by (cases w) auto
next
  case (HMap w n)
  moreover assume "head_ok l h"
  ultimately show ?thesis by (cases w) auto
qed auto

subsection \<open>The walk\<close>

text \<open>
  A forest has one list of values per stack entry, the deepest level first. \<open>forest_depth\<close>
  is the deepest level any of its values reaches.
\<close>

definition enc_list :: "mp_value list \<Rightarrow> bytes" where
  "enc_list vs = concat (map mp_encode vs)"

definition hmax :: "mp_value list \<Rightarrow> nat" where
  "hmax vs = foldr max (map mp_height vs) 0"

definition count_list :: "mp_value list \<Rightarrow> nat" where
  "count_list vs = sum_list (map mp_count vs)"

definition forest_enc :: "mp_value list list \<Rightarrow> bytes" where
  "forest_enc vss = concat (map enc_list vss)"

definition forest_count :: "mp_value list list \<Rightarrow> nat" where
  "forest_count vss = sum_list (map count_list vss)"

fun forest_depth :: "mp_value list list \<Rightarrow> nat" where
  "forest_depth [] = 0"
| "forest_depth (vs # vss) = max (if vs = [] then 0 else length vss + hmax vs) (forest_depth vss)"

definition forest_ok :: "ProtocolLimits \<Rightarrow> u64 list \<Rightarrow> mp_value list list \<Rightarrow> bool" where
  "forest_ok l stk vss \<longleftrightarrow> list_all2 (\<lambda>r vs. length vs = unat r \<and> list_all (mp_ok l) vs) stk vss"

lemma list_measures [simp]:
  "enc_list [] = []" "enc_list (v # vs) = mp_encode v @ enc_list vs"
  "hmax [] = 0" "hmax (v # vs) = max (mp_height v) (hmax vs)"
  "count_list [] = 0" "count_list (v # vs) = mp_count v + count_list vs"
  "forest_enc [] = []" "forest_enc (vs # vss) = enc_list vs @ forest_enc vss"
  "forest_count [] = 0" "forest_count (vs # vss) = count_list vs + forest_count vss"
  by (simp_all add: enc_list_def hmax_def count_list_def forest_enc_def forest_count_def)

lemma value_measures [simp]:
  "mp_encode (MpValue h vs) = head_encode h @ enc_list vs"
  "mp_height (MpValue h vs) = Suc (hmax vs)"
  "mp_count (MpValue h vs) = Suc (count_list vs)"
  by (simp_all add: enc_list_def hmax_def count_list_def)

declare mp_encode.simps [simp del] mp_height.simps [simp del] mp_count.simps [simp del]

lemma forest_ok_simps [simp]:
  "forest_ok l [] vss \<longleftrightarrow> vss = []"
  "forest_ok l (r # stk) vss \<longleftrightarrow> (\<exists>vs vss'. vss = vs # vss' \<and> length vs = unat r \<and>
     list_all (mp_ok l) vs \<and> forest_ok l stk vss')"
  by (auto simp: forest_ok_def list_all2_Cons1)

lemma forest_ok_length: "forest_ok l stk vss \<Longrightarrow> length vss = length stk"
  by (auto simp: forest_ok_def dest: list_all2_lengthD)

lemma loop_nil: "inspect_loop l [] c n md = Inr (c, n, md)"
  by (subst inspect_loop.simps) simp

lemma loop_zero: "inspect_loop l (0 # stk) c n md = inspect_loop l stk c n md"
  by (subst (1 2) inspect_loop.simps) simp

lemma try_from_le:
  "(\<exists>x. u16_try_from d = Some x \<and> \<not> m < x \<and> P x) \<longleftrightarrow> d \<le> unat m \<and> P (of_nat d)"
proof -
  have "unat m < 2 ^ 16"
    using unsigned_less [of m, where ?'a = nat] by simp
  then show ?thesis
    by (auto simp: u16_try_from_def word_less_nat_alt unat_of_nat)
qed

text \<open>One iteration that reads a value, as its successful outcomes.\<close>

lemma loop_read:
  assumes "r \<noteq> 0"
  shows "inspect_loop l (r # stk) c n md = Inr res \<longleftrightarrow>
    Suc (length stk) \<le> unat (max_object_depth l) \<and> Suc (unat n) \<le> unat (max_graph_nodes l) \<and>
    (\<exists>k c'. read_value l c = Inr (k, c') \<and>
       (if k \<noteq> 0 then Suc (Suc (length stk)) \<le> unat (max_object_depth l) \<and>
          inspect_loop l (k # (r - 1) # stk) c' (n + 1) (max md (of_nat (Suc (length stk)))) = Inr res
        else inspect_loop l ((r - 1) # stk) c' (n + 1) (max md (of_nat (Suc (length stk)))) = Inr res))"
proof -
  let ?d = "of_nat (Suc (length stk)) :: u16"
  have u: "unat ?d = Suc (length stk)" if "Suc (length stk) \<le> unat (max_object_depth l)"
    using that unsigned_less [of "max_object_depth l", where ?'a = nat] by (simp only: unat_of_nat) simp
  have "inspect_loop l (r # stk) c n md = Inr res \<longleftrightarrow>
    (\<exists>x. u16_try_from (Suc (length stk)) = Some x \<and> \<not> max_object_depth l < x \<and>
    (\<exists>y. checked_add n 1 = Some y \<and> \<not> max_graph_nodes l < y \<and>
    (\<exists>k c'. read_value l c = Inr (k, c') \<and>
       (if k \<noteq> 0 then \<exists>z. checked_add x 1 = Some z \<and> \<not> max_object_depth l < z \<and>
          inspect_loop l (k # (r - 1) # stk) c' y (max md x) = Inr res
        else inspect_loop l ((r - 1) # stk) c' y (max md x) = Inr res))))"
    using assms
    by (subst inspect_loop.simps) (auto simp add: rbind_Inr_iff if_Inl_Inr Let_def)
  then show ?thesis
    using u by (auto simp: checked_succ_le try_from_le cong: conj_cong)
qed

lemma head_children_unat: "head_ok l h \<Longrightarrow> unat (of_nat (head_children h) :: u64) = head_children h"
  using head_children_bound [of l h] by (simp add: unat_of_nat)

text \<open>
  What the walk guarantees for a stack and a cursor: the bytes it consumed are the encoding
  of a well-formed forest for that stack, the counters grew by the forest's measures, and
  both stayed within the limits.
\<close>

definition walk_result ::
    "ProtocolLimits \<Rightarrow> MessagePackCursor \<Rightarrow> u32 \<Rightarrow> u16 \<Rightarrow> mp_value list list \<Rightarrow>
     MessagePackCursor \<times> u32 \<times> u16 \<Rightarrow> bool" where
  "walk_result l c n md vss res \<longleftrightarrow>
     (case res of (c', n', md') \<Rightarrow>
        rest c = forest_enc vss @ rest c' \<and> c' = adv (length (forest_enc vss)) c \<and>
        unat n' = unat n + forest_count vss \<and> unat md' = max (unat md) (forest_depth vss) \<and>
        (forest_count vss = 0 \<or> unat n' \<le> unat (max_graph_nodes l)) \<and>
        forest_depth vss \<le> unat (max_object_depth l))"

lemma walk_result_step:
  assumes h: "head_read l c h k c1"
    and d: "Suc (length vss) \<le> unat (max_object_depth l)"
    and n: "Suc (unat n) \<le> unat (max_graph_nodes l)"
    and w: "walk_result l c1 (n + 1) (max md (of_nat (Suc (length vss)))) (ks @ vs # vss) res"
    and k: "ks = (if kids = [] then [] else [kids])"
  shows "walk_result l c n md ((MpValue h kids # vs) # vss) res"
proof -
  obtain c' n' md' where res: "res = (c', n', md')"
    by (cases res) auto
  have du: "unat (of_nat (Suc (length vss)) :: u16) = Suc (length vss)"
    using d by (rule unat_of_nat_le)
  have c1: "rest c = head_encode h @ rest c1" "c1 = adv (length (head_encode h)) c"
    using h unfolding head_read_def by blast+
  from w have f: "rest c1 = forest_enc (ks @ vs # vss) @ rest c'"
    "c' = adv (length (forest_enc (ks @ vs # vss))) c1"
    "unat n' = Suc (unat n) + forest_count (ks @ vs # vss)"
    unfolding walk_result_def res by (simp_all only: prod.case unat_succ_le [OF n])
  have ks: "forest_enc (ks @ vs # vss) = enc_list kids @ forest_enc (vs # vss)"
    "forest_count (ks @ vs # vss) = count_list kids + forest_count (vs # vss)"
    using k by auto
  have dep: "unat md' = max (unat md) (max (length vss + Suc (hmax kids)) (forest_depth (vs # vss)))"
    "length vss + Suc (hmax kids) \<le> unat (max_object_depth l)"
    "forest_depth (vs # vss) \<le> unat (max_object_depth l)"
    using w k du d unfolding walk_result_def res by (auto simp: unat_max split: if_splits)
  show ?thesis
    unfolding walk_result_def res prod.case
  proof (intro conjI)
    show "rest c = forest_enc ((MpValue h kids # vs) # vss) @ rest c'"
      unfolding c1(1) f(1) ks by simp
    show "c' = adv (length (forest_enc ((MpValue h kids # vs) # vss))) c"
      unfolding f(2) c1(2) ks by (simp add: add.assoc)
    show "unat n' = unat n + forest_count ((MpValue h kids # vs) # vss)"
      unfolding f(3) ks by simp
    show "unat md' = max (unat md) (forest_depth ((MpValue h kids # vs) # vss))"
      and "forest_depth ((MpValue h kids # vs) # vss) \<le> unat (max_object_depth l)"
      using dep by (auto split: if_splits)
    have "forest_count (ks @ vs # vss) = 0 \<or> unat n' \<le> unat (max_graph_nodes l)"
      using w unfolding walk_result_def res prod.case by blast
    then show "forest_count ((MpValue h kids # vs) # vss) = 0 \<or> unat n' \<le> unat (max_graph_nodes l)"
      using f(3) n by auto
  qed
qed

lemma head_read_rest:
  assumes "good c" and "head_read l c h k c1"
  shows "good c1" and "length (rest c1) < length (rest c)"
proof -
  have e: "head_encode h \<noteq> []"
    by (cases h) auto
  have "rest c = head_encode h @ rest c1" and c1: "c1 = adv (length (head_encode h)) c"
    using assms(2) unfolding head_read_def by blast+
  then have len: "length (rest c) = length (head_encode h) + length (rest c1)"
    by (metis length_append)
  moreover have "0 < length (head_encode h)"
    using e by simp
  ultimately show "length (rest c1) < length (rest c)"
    by linarith
  have "length (head_encode h) \<le> length (rest c)"
    using len by linarith
  then show "good c1"
    unfolding c1 using assms(1) by simp
qed

lemma walk_sound_read:
  assumes g: "good c" and r: "r \<noteq> 0" and loop: "inspect_loop l (r # stk) c n md = Inr res"
    and IH: "\<And>stk' c' n' md'. good c' \<Longrightarrow> length (rest c') < length (rest c) \<Longrightarrow>
      length stk' \<le> Suc (Suc (length stk)) \<Longrightarrow> inspect_loop l stk' c' n' md' = Inr res \<Longrightarrow>
      \<exists>vss. forest_ok l stk' vss \<and> walk_result l c' n' md' vss res"
  shows "\<exists>vss. forest_ok l (r # stk) vss \<and> walk_result l c n md vss res"
proof -
  let ?md = "max md (of_nat (Suc (length stk)))"
  from loop [unfolded loop_read [OF r]] obtain k c1 where
    d: "Suc (length stk) \<le> unat (max_object_depth l)" "Suc (unat n) \<le> unat (max_graph_nodes l)"
    and v: "read_value l c = Inr (k, c1)"
    and l: "if k \<noteq> 0 then inspect_loop l (k # (r - 1) # stk) c1 (n + 1) ?md = Inr res
      else inspect_loop l ((r - 1) # stk) c1 (n + 1) ?md = Inr res"
    by (auto split: if_splits)
  from read_value_sound [OF g v] obtain h where h: "head_read l c h k c1" ..
  note c1 = head_read_rest [OF g h]
  have k: "head_ok l h" "unat k = head_children h"
    using h head_children_unat by (auto simp: head_read_def)
  have "\<exists>kids vs vss. list_all (mp_ok l) kids \<and> length kids = unat k \<and> length vs = unat (r - 1) \<and>
    list_all (mp_ok l) vs \<and> forest_ok l stk vss \<and>
    walk_result l c1 (n + 1) ?md ((if kids = [] then [] else [kids]) @ vs # vss) res"
  proof (cases "k = 0")
    case True
    then have "inspect_loop l ((r - 1) # stk) c1 (n + 1) ?md = Inr res"
      using l by simp
    then have "\<exists>vss. forest_ok l ((r - 1) # stk) vss \<and> walk_result l c1 (n + 1) ?md vss res"
      by (rule IH [OF c1, rotated]) simp
    then obtain vs vss where "length vs = unat (r - 1)" "list_all (mp_ok l) vs" "forest_ok l stk vss"
      "walk_result l c1 (n + 1) ?md (vs # vss) res"
      by auto
    with True show ?thesis
      by (intro exI [of _ "[]"] exI [of _ vs] exI [of _ vss]) auto
  next
    case False
    then have "inspect_loop l (k # (r - 1) # stk) c1 (n + 1) ?md = Inr res"
      using l by simp
    then have "\<exists>vss. forest_ok l (k # (r - 1) # stk) vss \<and> walk_result l c1 (n + 1) ?md vss res"
      by (rule IH [OF c1, rotated]) simp
    then obtain kids vs vss where "list_all (mp_ok l) kids" "length kids = unat k"
      "length vs = unat (r - 1)" "list_all (mp_ok l) vs" "forest_ok l stk vss"
      "walk_result l c1 (n + 1) ?md (kids # vs # vss) res"
      by auto
    with False show ?thesis
      by (intro exI [of _ kids] exI [of _ vs] exI [of _ vss]) (auto simp: unat_eq_zero)
  qed
  then obtain kids vs vss where f: "list_all (mp_ok l) kids" "length kids = unat k"
    "length vs = unat (r - 1)" "list_all (mp_ok l) vs" "forest_ok l stk vss"
    and w: "walk_result l c1 (n + 1) ?md ((if kids = [] then [] else [kids]) @ vs # vss) res"
    by blast
  have "forest_ok l (r # stk) ((MpValue h kids # vs) # vss)"
    using f k unat_pred [OF r] by simp
  moreover have "walk_result l c n md ((MpValue h kids # vs) # vss) res"
    using walk_result_step [OF h _ d(2) _ refl] w d(1) forest_ok_length [OF f(5)] by simp
  ultimately show ?thesis by blast
qed

lemma walk_sound:
  assumes "good c" and "inspect_loop l stk c n md = Inr res"
  shows "\<exists>vss. forest_ok l stk vss \<and> walk_result l c n md vss res"
  using assms
proof (induction "2 * length (rest c) + length stk" arbitrary: stk c n md rule: less_induct)
  case less
  show ?case
  proof (cases stk)
    case Nil
    with less.prems show ?thesis
      by (auto simp: loop_nil walk_result_def adv_def)
  next
    case (Cons r stk')
    show ?thesis
    proof (cases "r = 0")
      case True
      then have "\<exists>vss. forest_ok l stk' vss \<and> walk_result l c n md vss res"
        using less.hyps [of c stk' n md] less.prems Cons by (simp add: loop_zero)
      then obtain vss where "forest_ok l stk' vss" "walk_result l c n md vss res"
        by blast
      then have "forest_ok l stk ([] # vss) \<and> walk_result l c n md ([] # vss) res"
        using Cons True by (simp add: walk_result_def)
      then show ?thesis ..
    next
      case False
      show ?thesis
        unfolding Cons
      proof (rule walk_sound_read [OF less.prems(1) False])
        show "inspect_loop l (r # stk') c n md = Inr res"
          using less.prems(2) Cons by simp
      qed (rule less.hyps, use Cons in auto)
    qed
  qed
qed

lemma mp_height_pos: "0 < mp_height v"
  by (cases v) simp

lemma hmax_pos: "vs \<noteq> [] \<Longrightarrow> 0 < hmax vs"
  using mp_height_pos by (cases vs) (auto simp: less_max_iff_disj)

lemma hmax_le_count: "(\<And>v. v \<in> set vs \<Longrightarrow> mp_height v \<le> mp_count v) \<Longrightarrow> hmax vs \<le> count_list vs"
  by (induction vs) (fastforce simp: max_def)+

lemma mp_height_le_count: "mp_height v \<le> mp_count v"
  by (induction v) (simp add: hmax_le_count)

lemma forest_ok_ConsE:
  assumes "forest_ok l (r # stk) vss" and "r \<noteq> 0"
  obtains h kids vs vss' where "vss = (MpValue h kids # vs) # vss'"
    and "length vs = unat (r - 1)" and "head_ok l h" and "length kids = head_children h"
    and "list_all (mp_ok l) kids" and "list_all (mp_ok l) vs" and "forest_ok l stk vss'"
proof -
  from assms(1) obtain ws vss' where ws: "vss = ws # vss'" "length ws = unat r"
    "list_all (mp_ok l) ws" "forest_ok l stk vss'"
    by auto
  then obtain v vs where v: "ws = v # vs" "length vs = unat (r - 1)"
    using unat_pred [OF assms(2)] by (cases ws) auto
  obtain h kids where "v = MpValue h kids"
    by (cases v)
  with that ws v show thesis
    by simp
qed

lemma walk_complete_read:
  assumes g: "good c" and r: "r \<noteq> 0" and f: "forest_ok l (r # stk) vss"
    and e: "rest c = forest_enc vss @ tail"
    and n: "unat n + forest_count vss \<le> unat (max_graph_nodes l)"
    and d: "forest_depth vss \<le> unat (max_object_depth l)"
    and IH: "\<And>stk' c' n' md' vss'. good c' \<Longrightarrow> forest_ok l stk' vss' \<Longrightarrow> rest c' = forest_enc vss' @ tail \<Longrightarrow>
      unat n' + forest_count vss' \<le> unat (max_graph_nodes l) \<Longrightarrow>
      forest_depth vss' \<le> unat (max_object_depth l) \<Longrightarrow> forest_count vss' < forest_count vss \<Longrightarrow>
      length vss' \<le> Suc (length vss) \<Longrightarrow>
      \<exists>res. inspect_loop l stk' c' n' md' = Inr res \<and> walk_result l c' n' md' vss' res"
  shows "\<exists>res. inspect_loop l (r # stk) c n md = Inr res \<and> walk_result l c n md vss res"
proof -
  let ?md = "max md (of_nat (Suc (length stk)))"
  from f r obtain h kids vs vss' where vss: "vss = (MpValue h kids # vs) # vss'"
    and fo: "length vs = unat (r - 1)" "head_ok l h" "length kids = head_children h"
    "list_all (mp_ok l) kids" "list_all (mp_ok l) vs" "forest_ok l stk vss'"
    by (rule forest_ok_ConsE)
  let ?k = "of_nat (head_children h) :: u64"
  let ?ks = "if kids = [] then [] else [kids]"
  let ?stk = "(if kids = [] then [] else [?k]) @ (r - 1) # stk"
  have len: "length vss' = length stk"
    using fo(6) by (rule forest_ok_length)
  obtain c1 where c1: "read_value l c = Inr (?k, c1)" "head_read l c h ?k c1"
    using read_value_complete [OF g fo(2), of "enc_list kids @ forest_enc (vs # vss') @ tail"]
      e vss fo(2) by (auto simp: head_read_def)
  have rest1: "rest c1 = forest_enc (?ks @ vs # vss') @ tail"
    using c1(2) e vss unfolding head_read_def by auto
  have dep: "Suc (length stk) \<le> unat (max_object_depth l)"
    "kids \<noteq> [] \<Longrightarrow> Suc (Suc (length stk)) \<le> unat (max_object_depth l)"
    using d vss len hmax_pos [of kids] by auto
  have sn: "Suc (unat n) \<le> unat (max_graph_nodes l)"
    using n vss by simp
  have k0: "?k = 0 \<longleftrightarrow> kids = []"
    using fo(2,3) head_children_unat [OF fo(2)] by (auto simp flip: unat_eq_zero)
  have "\<exists>res. inspect_loop l ?stk c1 (n + 1) ?md = Inr res \<and>
    walk_result l c1 (n + 1) ?md (?ks @ vs # vss') res"
  proof (rule IH)
    show "good c1"
      using head_read_rest(1) [OF g c1(2)] .
    show "forest_ok l ?stk (?ks @ vs # vss')"
      using fo head_children_unat [OF fo(2)] by auto
    show "rest c1 = forest_enc (?ks @ vs # vss') @ tail"
      by (rule rest1)
    show "unat (n + 1) + forest_count (?ks @ vs # vss') \<le> unat (max_graph_nodes l)"
      unfolding unat_succ_le [OF sn] using n vss by auto
    show "forest_depth (?ks @ vs # vss') \<le> unat (max_object_depth l)"
      using d vss by (auto split: if_splits)
    show "forest_count (?ks @ vs # vss') < forest_count vss"
      using vss by auto
    show "length (?ks @ vs # vss') \<le> Suc (length vss)"
      using vss by simp
  qed
  then obtain res where res: "inspect_loop l ?stk c1 (n + 1) ?md = Inr res"
    "walk_result l c1 (n + 1) ?md (?ks @ vs # vss') res"
    by blast
  have "inspect_loop l (r # stk) c n md = Inr res"
    unfolding loop_read [OF r] using res(1) c1(1) dep sn k0 by (auto split: if_splits)
  moreover have "walk_result l c n md vss res"
    unfolding vss using walk_result_step [OF c1(2) _ sn _ refl] res(2) dep(1) len by simp
  ultimately show ?thesis by blast
qed

lemma walk_complete:
  assumes "good c" and "forest_ok l stk vss" and "rest c = forest_enc vss @ tail"
    and "unat n + forest_count vss \<le> unat (max_graph_nodes l)"
    and "forest_depth vss \<le> unat (max_object_depth l)"
  shows "\<exists>res. inspect_loop l stk c n md = Inr res \<and> walk_result l c n md vss res"
  using assms
proof (induction "2 * forest_count vss + length vss" arbitrary: stk c n md vss rule: less_induct)
  case less
  show ?case
  proof (cases stk)
    case Nil
    with less.prems show ?thesis
      by (simp add: loop_nil walk_result_def adv_def)
  next
    case (Cons r stk')
    show ?thesis
    proof (cases "r = 0")
      case True
      with Cons less.prems(2) obtain vss' where vss: "vss = [] # vss'" "forest_ok l stk' vss'"
        by auto
      then have "\<exists>res. inspect_loop l stk' c n md = Inr res \<and> walk_result l c n md vss' res"
        using less.prems by (intro less.hyps) auto
      then show ?thesis
        using Cons True vss by (auto simp: loop_zero walk_result_def)
    next
      case False
      show ?thesis
        unfolding Cons
      proof (rule walk_complete_read [OF less.prems(1) False _ less.prems(3-5)])
        show "forest_ok l (r # stk') vss"
          using less.prems(2) Cons by simp
      qed (rule less.hyps, auto)
    qed
  qed
qed

subsection \<open>The preflight\<close>

definition within_budget :: "ProtocolLimits \<Rightarrow> mp_value \<Rightarrow> bool" where
  "within_budget l v \<longleftrightarrow> mp_count v \<le> unat (max_graph_nodes l) \<and>
     mp_height v \<le> unat (max_object_depth l)"

lemma walk_resultD:
  assumes "walk_result l c n md vss (c', n', md')"
  shows "rest c = forest_enc vss @ rest c'" "c' = adv (length (forest_enc vss)) c"
    "unat n' = unat n + forest_count vss" "unat md' = max (unat md) (forest_depth vss)"
    "forest_count vss = 0 \<or> unat n' \<le> unat (max_graph_nodes l)"
    "forest_depth vss \<le> unat (max_object_depth l)"
  using assms unfolding walk_result_def prod.case by blast+

lemma walk_root:
  assumes "length payload < 2 ^ 64"
  shows "inspect_loop l [1] (cursor_new payload) 0 0 = Inr (c, n, md) \<and>
      cur_offset c = length payload \<longleftrightarrow>
    (\<exists>v. mp_ok l v \<and> payload = mp_encode v \<and> within_budget l v \<and>
      c = adv (length payload) (cursor_new payload) \<and> unat n = mp_count v \<and> unat md = mp_height v)"
    (is "?L \<longleftrightarrow> ?R")
proof -
  let ?c = "cursor_new payload"
  have g: "good ?c" and r: "rest ?c = payload"
    using assms by (simp_all add: good_def cursor_new_def rest_def)
  have pos: "0 < mp_count v" for v
    by (cases v) simp
  have fm: "forest_enc [[v]] = mp_encode v" "forest_count [[v]] = mp_count v"
    "forest_depth [[v]] = mp_height v" for v
    by simp_all
  show ?thesis
  proof
    assume L: ?L
    from walk_sound [OF g conjunct1 [OF L]] obtain v where v: "mp_ok l v"
      and w: "walk_result l ?c 0 0 [[v]] (c, n, md)"
      by (auto simp: length_Suc_conv)
    note w = walk_resultD [OF w, unfolded fm r]
    have "length (mp_encode v) = length payload"
      using L unfolding w(2) by (simp add: adv_def cursor_new_def)
    with w(1) have "payload = mp_encode v"
      by (metis append_eq_conv_conj take_all order_refl)
    moreover have "unat n = mp_count v" "unat md = mp_height v" "within_budget l v"
      using w(3-6) pos [of v] unfolding within_budget_def by simp_all
    ultimately show ?R
      using v w(2) by blast
  next
    assume ?R
    then obtain v where v: "mp_ok l v" "payload = mp_encode v" "within_budget l v"
      "c = adv (length payload) ?c" "unat n = mp_count v" "unat md = mp_height v"
      by blast
    have "\<exists>res. inspect_loop l [1] ?c 0 0 = Inr res \<and> walk_result l ?c 0 0 [[v]] res"
      by (rule walk_complete [OF g, where tail = "[]"])
        (use v(1,3) r v(2) in \<open>simp_all add: within_budget_def\<close>)
    then obtain c' n' md' where res: "inspect_loop l [1] ?c 0 0 = Inr (c', n', md')"
      and w: "walk_result l ?c 0 0 [[v]] (c', n', md')"
      by (metis prod_cases3)
    note w = walk_resultD [OF w, unfolded fm]
    have "c' = c"
      using w(2) v(2,4) by simp
    moreover have "n' = n" "md' = md"
      using w(3,4) v(5,6) by (simp_all add: word_unat_eq_iff)
    ultimately show ?L
      using res v(4) by (simp add: adv_def cursor_new_def)
  qed
qed

lemma budget_new_Inr:
  assumes "unat n = mp_count v" and "unat md = mp_height v"
  shows "messagepack_budget_new n md = Inr \<lparr>mp_nodes = n, mp_maximum_depth = md\<rparr>"
proof -
  have "n \<noteq> 0" "md \<noteq> 0"
    using assms mp_height_pos [of v] mp_height_le_count [of v] by auto
  moreover have "\<not> n < ucast md"
    using assms mp_height_le_count [of v] by (simp add: word_less_nat_alt unat_ucast_up)
  ultimately show ?thesis
    by (simp add: messagepack_budget_new_def)
qed

lemma mp_encode_ne: "mp_encode v \<noteq> []"
proof (cases v)
  case (MpValue h vs)
  then show ?thesis by (cases h) auto
qed

lemma inspect_messagepack_iff:
  "inspect_messagepack alloc payload l = Inr b \<longleftrightarrow>
     limits_positive l \<and> length payload \<le> unat (max_frame_bytes l) \<and>
     alloc (unat (max_object_depth l)) \<and>
     (\<exists>v. mp_ok l v \<and> payload = mp_encode v \<and> within_budget l v \<and>
        unat (mp_nodes b) = mp_count v \<and> unat (mp_maximum_depth b) = mp_height v)"
proof (cases "limits_positive l \<and> length payload \<le> unat (max_frame_bytes l) \<and>
    alloc (unat (max_object_depth l))")
  case True
  have "unat (max_frame_bytes l) < 2 ^ 32"
    using unsigned_less [of "max_frame_bytes l", where ?'a = nat] by simp
  with True have len: "length payload < 2 ^ 64"
    by simp
  have lv: "limits_validate l = Inr ()"
    using True by (simp add: limits_validate_iff)
  have "inspect_messagepack alloc payload l = Inr b \<longleftrightarrow> payload \<noteq> [] \<and>
    (\<exists>c n md. (inspect_loop l [1] (cursor_new payload) 0 0 = Inr (c, n, md) \<and>
       cur_offset c = length payload) \<and> messagepack_budget_new n md = Inr b)"
    using True by (auto simp: inspect_messagepack_def lv rbind_Inr_iff)
  also have "\<dots> \<longleftrightarrow> (\<exists>n md v. mp_ok l v \<and> payload = mp_encode v \<and> within_budget l v \<and>
       unat n = mp_count v \<and> unat md = mp_height v \<and> messagepack_budget_new n md = Inr b)"
    unfolding walk_root [OF len] using mp_encode_ne by metis
  also have "\<dots> \<longleftrightarrow> (\<exists>v. mp_ok l v \<and> payload = mp_encode v \<and> within_budget l v \<and>
       unat (mp_nodes b) = mp_count v \<and> unat (mp_maximum_depth b) = mp_height v)"
  proof -
    have "messagepack_budget_new n md = Inr b \<longleftrightarrow> n = mp_nodes b \<and> md = mp_maximum_depth b"
      if "unat n = mp_count v" "unat md = mp_height v" for n md v
      using budget_new_Inr [OF that] by (cases b) auto
    then show ?thesis by metis
  qed
  finally show ?thesis
    using True by simp
next
  case False
  then show ?thesis
    by (auto simp: inspect_messagepack_def rbind_Inr_iff limits_validate_iff)
qed

text \<open>
  C19: the MessagePack preflight decides the format. It accepts a payload exactly when the
  limits are usable, the payload fits the frame limit, the walk's stack could be allocated,
  and the payload is the encoding of one well-formed value (and nothing after it) whose
  strings and binaries, node count and nesting depth are within the limits; the budget it
  then reports is that value's node count and depth.
\<close>

theorem inspect_messagepack_exact:
  "inspect_messagepack alloc payload l = Inr b \<longleftrightarrow>
     limits_positive l \<and> length payload \<le> unat (max_frame_bytes l) \<and>
     alloc (unat (max_object_depth l)) \<and>
     (\<exists>v. mp_ok l v \<and> payload = mp_encode v \<and> within_budget l v \<and>
        unat (mp_nodes b) = mp_count v \<and> unat (mp_maximum_depth b) = mp_height v)"
  by (rule inspect_messagepack_iff)

end
