(* ===== verification/Wire_Values.thy ===== *)
theory Wire_Values
  imports Protocol_Frame "HOL-Library.Sublist"
begin

section \<open>Wire values, handles and call contexts\<close>

text \<open>
  The data of \<open>weregopher-domain/src/protocol.rs\<close>: identities, generation-protected
  handles, buffer storage and the closed value model \<open>WireValue\<close> that calls, results,
  errors and events carry. A Rust \<open>String\<close> is a \<open>string\<close> (its UTF-8 bytes), a UUID
  a 128-bit word, an \<open>f64\<close> its 64-bit pattern, and the \<open>BTreeMap\<close> of an error's data
  its entries in key order.

  The second half is the specification the iterative validator is measured against: the
  children of a value, the values below it in traversal order, its height, its remote
  handles, and what a single node has to satisfy.
\<close>

unbundle bit_operations_syntax

type_synonym uuid = "128 word"
type_synonym AppInstanceId = uuid
type_synonym RendererId = u64
type_synonym RuntimeId = uuid
type_synonym ProtocolSessionId = uuid
type_synonym CapabilityGrantId = uuid
type_synonym UserActivationId = uuid
type_synonym TraceId = uuid
type_synonym Sha256Digest = bytes
type_synonym f64 = u64
type_synonym i64 = u64

record CallAuthority =
  ca_capability :: "CapabilityGrantId option"
  ca_user_activation :: "UserActivationId option"

record OriginIdentity =
  oi_serialized :: string
  oi_opaque :: bool

record FrameIdentity =
  fi_renderer :: RendererId
  fi_frame_id :: u64
  fi_generation :: u32
  fi_parent_frame_id :: "u64 option"
  fi_origin :: OriginIdentity
  fi_is_main_frame :: bool

datatype ScriptWorldKind = WorldMain | PreloadIsolated | AdapterIsolated | BackendSpecific string

record WorldIdentity =
  wi_frame :: FrameIdentity
  wi_world_id :: u64
  wi_generation :: u32
  wi_kind :: ScriptWorldKind

record CallContext =
  cc_app :: AppInstanceId
  cc_renderer :: "RendererId option"
  cc_frame :: "FrameIdentity option"
  cc_world :: "WorldIdentity option"
  cc_authority :: CallAuthority
  cc_deadline_ms :: "u32 option"
  cc_trace_parent :: "TraceId option"

datatype ObjectKind =
    OkApp | OkBrowserWindow | OkWebContents | OkSession | OkWebRequest | OkMenu | OkMenuItem
  | OkTray | OkNativeImage | OkNotification | OkDownloadItem | OkMessagePort
  | OkUtilityProcess | OkAdapterDefined u16

record ObjectHandle =
  oh_app :: AppInstanceId
  oh_id :: u64
  oh_generation :: u32
  oh_kind :: ObjectKind

record OpaqueHandle =
  op_app :: AppInstanceId
  op_id :: u64
  op_generation :: u32

definition opaque_handle_new :: "AppInstanceId \<Rightarrow> u64 \<Rightarrow> u32 \<Rightarrow> OpaqueHandle" where
  "opaque_handle_new app i generation = \<lparr>op_app = app, op_id = i, op_generation = generation\<rparr>"

record ContentBlobId =
  cb_sha256 :: Sha256Digest
  cb_byte_len :: u64

datatype BufferStorage =
    StInline bytes
  | StShared OpaqueHandle
  | StStream OpaqueHandle
  | StBlob ContentBlobId

datatype TypedArrayKind =
    TaInt8 | TaUint8 | TaUint8Clamped | TaInt16 | TaUint16 | TaInt32 | TaUint32
  | TaFloat32 | TaFloat64 | TaBigInt64 | TaBigUint64

datatype WireValue =
    WvUndefined
  | WvNull
  | WvBool bool
  | WvInteger i64
  | WvFloat f64
  | WvNegativeZero
  | WvNaN
  | WvPositiveInfinity
  | WvNegativeInfinity
  | WvBigInt bool bytes
  | WvString string
  | WvBytes bytes
  | WvArray "WireValue list"
  | WvObject "(string \<times> WireValue) list"
  | WvReference u32
  | WvDateMillis i64
  | WvRegExp string string
  | WvError WireError
  | WvHandle ObjectHandle
  | WvFunction OpaqueHandle
  | WvPromise OpaqueHandle
  | WvMessagePort OpaqueHandle
  | WvTypedArray TypedArrayKind u64 u64 BufferStorage
and WireError =
    WireError (we_name: string) (we_message: string) (we_stack: "string option")
      (we_code: "string option") (we_kind: "string option")
      (we_cause: "WireValue option") (we_data: "(string \<times> WireValue) list")

subsection \<open>IEEE-754 patterns\<close>

text \<open>
  What the validator asks of an \<open>f64\<close>: \<open>is_finite\<close> and \<open>fract() != 0.0\<close>, read off the
  exponent and mantissa fields. For a finite value with biased exponent \<open>e\<close> the fraction
  vanishes when \<open>e \<ge> 1075\<close>, and for \<open>e < 1023\<close> only at zero; in between, the
  \<open>1075 - e\<close> low mantissa bits are the fraction.
\<close>

definition f64_exponent :: "f64 \<Rightarrow> nat" where
  "f64_exponent w = unat (drop_bit 52 w) mod 2 ^ 11"

definition f64_mantissa :: "f64 \<Rightarrow> nat" where
  "f64_mantissa w = unat w mod 2 ^ 52"

definition f64_is_finite :: "f64 \<Rightarrow> bool" where
  "f64_is_finite w \<longleftrightarrow> f64_exponent w \<noteq> 2047"

definition f64_fract_nonzero :: "f64 \<Rightarrow> bool" where
  "f64_fract_nonzero w \<longleftrightarrow>
     (let e = f64_exponent w; m = f64_mantissa w in
      if e \<ge> 1075 then False
      else if e < 1023 then e \<noteq> 0 \<or> m \<noteq> 0
      else m mod 2 ^ (1075 - e) \<noteq> 0)"

subsection \<open>The value tree\<close>

fun wv_children :: "WireValue \<Rightarrow> WireValue list" where
  "wv_children (WvArray vs) = vs"
| "wv_children (WvObject es) = map snd es"
| "wv_children (WvError e) = (case we_cause e of None \<Rightarrow> [] | Some v \<Rightarrow> [v]) @ map snd (we_data e)"
| "wv_children _ = []"

lemma size_snd_list: "v \<in> snd ` set es \<Longrightarrow> size v < Suc (size_list (size_prod f size) es)"
  for v :: "'v::size" and es :: "('k \<times> 'v) list"
proof (induction es)
  case Nil
  then show ?case by simp
next
  case (Cons p es)
  then show ?case by (cases p) force
qed

lemma wv_children_size [termination_simp]: "c \<in> set (wv_children v) \<Longrightarrow> size c < size v"
proof (cases v rule: wv_children.cases)
  case (3 e)
  assume "c \<in> set (wv_children v)"
  then have "we_cause e = Some c \<or> c \<in> snd ` set (we_data e)"
    using 3 by (auto split: option.splits)
  then show ?thesis
  proof
    assume "we_cause e = Some c"
    with 3 show ?thesis by (cases e) simp
  next
    assume "c \<in> snd ` set (we_data e)"
    then have "size c < Suc (size_list (size_prod (\<lambda>x. 0) size) (we_data e))"
      by (rule size_snd_list)
    with 3 show ?thesis by (cases e) simp
  qed
next
  case (2 es)
  assume "c \<in> set (wv_children v)"
  with 2 show ?thesis
    by (simp add: size_snd_list)
qed (auto simp: less_Suc_eq_le intro: size_list_estimation')

fun wv_subs :: "WireValue \<Rightarrow> WireValue list" where
  "wv_subs v = v # concat (map wv_subs (wv_children v))"

fun wv_height :: "WireValue \<Rightarrow> nat" where
  "wv_height v = Suc (foldr max (map wv_height (wv_children v)) 0)"

declare wv_subs.simps [simp del] wv_height.simps [simp del]

text \<open>The application that owns the remote handle a node carries, if it carries one.\<close>

fun wv_handle :: "WireValue \<Rightarrow> AppInstanceId option" where
  "wv_handle (WvHandle h) = Some (oh_app h)"
| "wv_handle (WvFunction h) = Some (op_app h)"
| "wv_handle (WvPromise h) = Some (op_app h)"
| "wv_handle (WvMessagePort h) = Some (op_app h)"
| "wv_handle (WvTypedArray k off n (StShared h)) = Some (op_app h)"
| "wv_handle (WvTypedArray k off n (StStream h)) = Some (op_app h)"
| "wv_handle _ = None"

fun element_bytes :: "TypedArrayKind \<Rightarrow> nat" where
  "element_bytes TaInt8 = 1"
| "element_bytes TaUint8 = 1"
| "element_bytes TaUint8Clamped = 1"
| "element_bytes TaInt16 = 2"
| "element_bytes TaUint16 = 2"
| "element_bytes TaInt32 = 4"
| "element_bytes TaUint32 = 4"
| "element_bytes TaFloat32 = 4"
| "element_bytes TaFloat64 = 8"
| "element_bytes TaBigInt64 = 8"
| "element_bytes TaBigUint64 = 8"

fun storage_ok :: "ProtocolLimits \<Rightarrow> nat \<Rightarrow> BufferStorage \<Rightarrow> bool" where
  "storage_ok l needed (StInline bs) \<longleftrightarrow>
     length bs \<le> unat (max_inline_buffer_bytes l) \<and> needed \<le> length bs"
| "storage_ok l needed _ \<longleftrightarrow> True"

definition text_ok :: "ProtocolLimits \<Rightarrow> string \<Rightarrow> bool" where
  "text_ok l s \<longleftrightarrow> length s \<le> unat (max_string_bytes l)"

definition error_ok :: "ProtocolLimits \<Rightarrow> WireError \<Rightarrow> bool" where
  "error_ok l e \<longleftrightarrow> text_ok l (we_name e) \<and> text_ok l (we_message e) \<and>
     pred_option (text_ok l) (we_stack e) \<and> pred_option (text_ok l) (we_code e) \<and>
     pred_option (text_ok l) (we_kind e) \<and> list_all (\<lambda>p. text_ok l (fst p)) (we_data e)"

text \<open>Canonical flags: a subsequence of \<open>dgimsuvy\<close> without both unicode modes.\<close>

definition regexp_flags_ok :: "string \<Rightarrow> bool" where
  "regexp_flags_ok fs \<longleftrightarrow> subseq fs ''dgimsuvy'' \<and> \<not> (CHR ''u'' \<in> set fs \<and> CHR ''v'' \<in> set fs)"

fun wv_body_ok :: "ProtocolLimits \<Rightarrow> WireValue \<Rightarrow> bool" where
  "wv_body_ok l (WvFloat w) \<longleftrightarrow> f64_is_finite w \<and> f64_fract_nonzero w"
| "wv_body_ok l (WvBigInt neg m) \<longleftrightarrow>
     m \<noteq> [] \<and> hd m \<noteq> 0 \<and> length m \<le> unat (max_inline_buffer_bytes l)"
| "wv_body_ok l (WvString s) \<longleftrightarrow> text_ok l s"
| "wv_body_ok l (WvBytes bs) \<longleftrightarrow> length bs \<le> unat (max_inline_buffer_bytes l)"
| "wv_body_ok l (WvObject es) \<longleftrightarrow>
     list_all (\<lambda>p. text_ok l (fst p)) es \<and> distinct (map fst es)"
| "wv_body_ok l (WvRegExp src fs) \<longleftrightarrow> text_ok l src \<and> text_ok l fs \<and> regexp_flags_ok fs"
| "wv_body_ok l (WvError e) \<longleftrightarrow> error_ok l e"
| "wv_body_ok l (WvTypedArray k off n st) \<longleftrightarrow>
     unat off + unat n * element_bytes k < 2 ^ 64 \<and>
     storage_ok l (unat off + unat n * element_bytes k) st"
| "wv_body_ok l _ \<longleftrightarrow> True"

definition wv_node_ok :: "ProtocolLimits \<Rightarrow> AppInstanceId option \<Rightarrow> WireValue \<Rightarrow> bool" where
  "wv_node_ok l app v \<longleftrightarrow> wv_body_ok l v \<and>
     (case (wv_handle v, app) of (Some owner, Some expected) \<Rightarrow> owner = expected | _ \<Rightarrow> True)"

text \<open>Measures of a list of values.\<close>

definition wv_nodes :: "WireValue list \<Rightarrow> nat" where
  "wv_nodes vs = length (concat (map wv_subs vs))"

definition wv_handles :: "WireValue list \<Rightarrow> nat" where
  "wv_handles vs = length (filter (\<lambda>v. wv_handle v \<noteq> None) (concat (map wv_subs vs)))"

definition wv_depth :: "WireValue list \<Rightarrow> nat" where
  "wv_depth vs = foldr max (map wv_height vs) 0"

definition wv_all_ok :: "ProtocolLimits \<Rightarrow> AppInstanceId option \<Rightarrow> WireValue list \<Rightarrow> bool" where
  "wv_all_ok l app vs \<longleftrightarrow> list_all (wv_node_ok l app) (concat (map wv_subs vs))"

lemma wv_measures [simp]:
  "wv_nodes [] = 0" "wv_handles [] = 0" "wv_depth [] = 0" "wv_all_ok l app []"
  "wv_nodes (vs @ ws) = wv_nodes vs + wv_nodes ws"
  "wv_handles (vs @ ws) = wv_handles vs + wv_handles ws"
  "wv_depth (vs @ ws) = max (wv_depth vs) (wv_depth ws)"
  "wv_all_ok l app (vs @ ws) \<longleftrightarrow> wv_all_ok l app vs \<and> wv_all_ok l app ws"
proof -
  show "wv_depth (vs @ ws) = max (wv_depth vs) (wv_depth ws)"
    by (induction vs) (auto simp: wv_depth_def max.assoc)
qed (simp_all add: wv_nodes_def wv_handles_def wv_depth_def wv_all_ok_def)

lemma wv_measures_Cons [simp]:
  "wv_nodes (v # vs) = Suc (wv_nodes (wv_children v) + wv_nodes vs)"
  "wv_handles (v # vs) =
     (if wv_handle v = None then 0 else 1) + wv_handles (wv_children v) + wv_handles vs"
  "wv_depth (v # vs) = max (Suc (wv_depth (wv_children v))) (wv_depth vs)"
  "wv_all_ok l app (v # vs) \<longleftrightarrow>
     wv_node_ok l app v \<and> wv_all_ok l app (wv_children v) \<and> wv_all_ok l app vs"
  by (auto simp: wv_nodes_def wv_handles_def wv_depth_def wv_all_ok_def wv_subs.simps [of v]
      wv_height.simps [of v])

lemma wv_nodes_ge_length: "length vs \<le> wv_nodes vs"
  by (induction vs) auto

lemma wv_handles_le_nodes: "wv_handles vs \<le> wv_nodes vs"
  by (simp add: wv_handles_def wv_nodes_def)

lemma wv_depth_pos_iff: "0 < wv_depth vs \<longleftrightarrow> vs \<noteq> []"
  by (cases vs) (auto simp: less_max_iff_disj)

end
