(* ===== verification/Wire_Graph.thy ===== *)
theory Wire_Graph
  imports Wire_Values
begin

section \<open>The wire-graph validator\<close>

text \<open>
  \<open>validate_wire_value_graph\<close> of \<open>weregopher-domain/src/runtime_protocol.rs\<close> walks a
  decoded graph with an explicit work list, under a budget of nodes, depth, strings, inline
  bytes and remote handles. The head of \<open>pending\<close> is the top of the code's vector, and
  \<open>alloc len additional\<close> says whether \<open>try_reserve\<close> succeeds; everything else is the
  code's. The theorem of the theory is that the walk accepts exactly the graphs that satisfy
  the recursive specification of \<open>Wire_Values\<close>.
\<close>

datatype RuntimeProtocolContractError =
    RpZeroProtocolMajor
  | RpVersionRangeMajorMismatch
  | RpInvertedVersionRange
  | RpEmptyText string
  | RpTextExceeded string usize usize
  | RpZeroNonceProof
  | RpLimits ProtocolLimitError
  | RpZeroHeartbeatDuration
  | RpInvertedHeartbeatPolicy
  | RpHeartbeatTimeoutExceeded
  | RpZeroRequestId
  | RpZeroCallDeadline
  | RpCallDeadlineExceeded
  | RpFrameWithoutRenderer
  | RpFrameRendererMismatch
  | RpWorldWithoutFrame
  | RpWorldFrameMismatch
  | RpGraphNodesExceeded u32 u32
  | RpGraphNodeCountOverflow
  | RpGraphDepthExceeded u16 u16
  | RpGraphDepthOverflow
  | RpBudgetAllocationFailed
  | RpInlineBytesExceeded usize usize
  | RpDuplicateObjectKey string
  | RpNonCanonicalFloat
  | RpNonCanonicalBigInt
  | RpInvalidRegularExpressionFlags
  | RpCrossApplicationHandle
  | RpRemoteHandleCountOverflow
  | RpRemoteHandlesExceeded u32 u32
  | RpTypedArrayRangeOverflow
  | RpTypedArrayRangeExceeded
  | RpZeroStreamCredit
  | RpZeroStreamSequence
  | RpEmptyStreamData

type_synonym 'a rp_result = "RuntimeProtocolContractError + 'a"
type_synonym pending = "(WireValue \<times> u16) list"
type_synonym allocator = "usize \<Rightarrow> usize \<Rightarrow> bool"

definition validate_bounded_text :: "string \<Rightarrow> string \<Rightarrow> usize \<Rightarrow> unit rp_result" where
  "validate_bounded_text field v maximum =
     (if length v > maximum then Inl (RpTextExceeded field maximum (length v)) else Inr ())"

definition validate_text :: "string \<Rightarrow> string \<Rightarrow> usize \<Rightarrow> unit rp_result" where
  "validate_text field v maximum =
     (if v = [] then Inl (RpEmptyText field) else validate_bounded_text field v maximum)"

definition validate_inline_bytes :: "bytes \<Rightarrow> usize \<Rightarrow> unit rp_result" where
  "validate_inline_bytes bs maximum =
     (if length bs > maximum then Inl (RpInlineBytesExceeded maximum (length bs)) else Inr ())"

definition child_depth :: "u16 \<Rightarrow> ProtocolLimits \<Rightarrow> bool \<Rightarrow> u16 rp_result" where
  "child_depth depth limits has_no_children =
     (if has_no_children then Inr depth
      else rbind (ok_or RpGraphDepthOverflow (checked_add depth 1)) (\<lambda>child.
        if child > max_object_depth limits
        then Inl (RpGraphDepthExceeded (max_object_depth limits) child)
        else Inr child))"

definition reserve_pending ::
    "allocator \<Rightarrow> usize \<Rightarrow> usize \<Rightarrow> u32 \<Rightarrow> u32 \<Rightarrow> unit rp_result" where
  "reserve_pending alloc pending_len additional remaining_nodes maximum_nodes =
     rbind (ok_or RpGraphNodeCountOverflow (checked_add_usize pending_len additional)) (\<lambda>required.
     if required > unat remaining_nodes
     then rbind (ok_or RpGraphNodeCountOverflow (checked_add maximum_nodes 1)) (\<lambda>actual.
       Inl (RpGraphNodesExceeded maximum_nodes actual))
     else ensure (alloc pending_len additional) RpBudgetAllocationFailed)"

fun validate_object_entries ::
    "string set \<Rightarrow> (string \<times> WireValue) list \<Rightarrow> usize \<Rightarrow> unit rp_result" where
  "validate_object_entries keys [] maximum_string = Inr ()"
| "validate_object_entries keys ((key, v) # entries) maximum_string =
     rbind (validate_bounded_text ''wire object key'' key maximum_string) (\<lambda>_.
     if key \<in> keys then Inl (RpDuplicateObjectKey key)
     else validate_object_entries (insert key keys) entries maximum_string)"

definition validate_remote_handle ::
    "AppInstanceId \<Rightarrow> AppInstanceId option \<Rightarrow> u32 \<Rightarrow> ProtocolLimits \<Rightarrow> u32 rp_result" where
  "validate_remote_handle actual_app expected_app remote_handles limits =
     (if (case expected_app of Some expected \<Rightarrow> actual_app \<noteq> expected | None \<Rightarrow> False)
      then Inl RpCrossApplicationHandle
      else rbind (ok_or RpRemoteHandleCountOverflow (checked_add remote_handles 1)) (\<lambda>n.
        if n > max_remote_handles limits
        then Inl (RpRemoteHandlesExceeded (max_remote_handles limits) n)
        else Inr n))"

text \<open>
  The pushes of \<open>validate_wire_error\<close>: the data entries from the last to the first, each
  key checked before its value is pushed, then the cause.
\<close>

fun push_error_data ::
    "(string \<times> WireValue) list \<Rightarrow> usize \<Rightarrow> u16 \<Rightarrow> pending \<Rightarrow> pending rp_result" where
  "push_error_data [] maximum_string d pending = Inr pending"
| "push_error_data ((key, v) # rest) maximum_string d pending =
     rbind (validate_bounded_text ''wire error data key'' key maximum_string) (\<lambda>_.
     push_error_data rest maximum_string d ((v, d) # pending))"

fun validate_optional_texts :: "(string \<times> string option) list \<Rightarrow> usize \<Rightarrow> unit rp_result" where
  "validate_optional_texts [] maximum_string = Inr ()"
| "validate_optional_texts ((field, None) # rest) maximum_string =
     validate_optional_texts rest maximum_string"
| "validate_optional_texts ((field, Some v) # rest) maximum_string =
     rbind (validate_bounded_text field v maximum_string) (\<lambda>_.
     validate_optional_texts rest maximum_string)"

definition validate_wire_error ::
    "allocator \<Rightarrow> WireError \<Rightarrow> usize \<Rightarrow> pending \<Rightarrow> u16 \<Rightarrow> ProtocolLimits \<Rightarrow> u32 \<Rightarrow>
     pending rp_result" where
  "validate_wire_error alloc e maximum_string pending depth limits remaining_nodes =
     rbind (validate_bounded_text ''wire error name'' (we_name e) maximum_string) (\<lambda>_.
     rbind (validate_bounded_text ''wire error message'' (we_message e) maximum_string) (\<lambda>_.
     rbind (validate_optional_texts
       [(''wire error stack'', we_stack e), (''wire error code'', we_code e),
        (''wire error kind'', we_kind e)] maximum_string) (\<lambda>_.
     rbind (ok_or RpGraphNodeCountOverflow
       (checked_add_usize (length (we_data e)) (if we_cause e = None then 0 else 1))) (\<lambda>children.
     rbind (reserve_pending alloc (length pending) children remaining_nodes
       (max_graph_nodes limits)) (\<lambda>_.
     rbind (child_depth depth limits (children = 0)) (\<lambda>d.
     rbind (push_error_data (rev (we_data e)) maximum_string d pending) (\<lambda>pending'.
     Inr (case we_cause e of None \<Rightarrow> pending' | Some cause \<Rightarrow> (cause, d) # pending'))))))))"

fun list_position :: "'a list \<Rightarrow> 'a \<Rightarrow> nat option" where
  "list_position [] x = None"
| "list_position (y # ys) x = (if y = x then Some 0 else map_option Suc (list_position ys x))"

fun regexp_flags_loop :: "nat option \<Rightarrow> bool \<Rightarrow> bool \<Rightarrow> string \<Rightarrow> unit rp_result" where
  "regexp_flags_loop previous unicode unicode_sets [] =
     (if unicode \<and> unicode_sets then Inl RpInvalidRegularExpressionFlags else Inr ())"
| "regexp_flags_loop previous unicode unicode_sets (flag # flags) =
     (case list_position ''dgimsuvy'' flag of
        None \<Rightarrow> Inl RpInvalidRegularExpressionFlags
      | Some position \<Rightarrow>
        if (case previous of Some p \<Rightarrow> position \<le> p | None \<Rightarrow> False)
        then Inl RpInvalidRegularExpressionFlags
        else regexp_flags_loop (Some position) (unicode \<or> flag = CHR ''u'')
          (unicode_sets \<or> flag = CHR ''v'') flags)"

definition validate_wire_value ::
    "allocator \<Rightarrow> WireValue \<Rightarrow> u16 \<Rightarrow> ProtocolLimits \<Rightarrow> pending \<Rightarrow> u32 \<Rightarrow> u32 \<Rightarrow>
     AppInstanceId option \<Rightarrow> (pending \<times> u32) rp_result" where
  "validate_wire_value alloc v depth limits pending remote_handles remaining_nodes expected_app =
     (let maximum_string = unat (max_string_bytes limits);
          maximum_inline = unat (max_inline_buffer_bytes limits);
          push_children = (\<lambda>vs. rbind (reserve_pending alloc (length pending) (length vs)
            remaining_nodes (max_graph_nodes limits)) (\<lambda>_.
            rbind (child_depth depth limits (vs = [])) (\<lambda>d.
            Inr (map (\<lambda>c. (c, d)) vs @ pending, remote_handles))));
          remote = (\<lambda>app. rbind (validate_remote_handle app expected_app remote_handles limits)
            (\<lambda>n. Inr (pending, n)));
          stay = Inr (pending, remote_handles)
      in case v of
        WvFloat w \<Rightarrow>
          if f64_is_finite w \<and> f64_fract_nonzero w then stay else Inl RpNonCanonicalFloat
      | WvBigInt negative m \<Rightarrow>
          if m = [] \<or> (m \<noteq> [] \<and> hd m = 0) \<or> (negative \<and> list_all (\<lambda>b. b = 0) m)
          then Inl RpNonCanonicalBigInt
          else rbind (validate_inline_bytes m maximum_inline) (\<lambda>_. stay)
      | WvString s \<Rightarrow> rbind (validate_bounded_text ''wire string'' s maximum_string) (\<lambda>_. stay)
      | WvBytes bs \<Rightarrow> rbind (validate_inline_bytes bs maximum_inline) (\<lambda>_. stay)
      | WvArray vs \<Rightarrow> push_children vs
      | WvObject es \<Rightarrow> rbind (validate_object_entries {} es maximum_string) (\<lambda>_.
          push_children (map snd es))
      | WvRegExp src flags \<Rightarrow>
          rbind (validate_bounded_text ''regular expression source'' src maximum_string) (\<lambda>_.
          if length flags > maximum_string
          then Inl (RpTextExceeded ''regular expression flags'' maximum_string (length flags))
          else rbind (regexp_flags_loop None False False flags) (\<lambda>_. stay))
      | WvError e \<Rightarrow>
          rbind (validate_wire_error alloc e maximum_string pending depth limits remaining_nodes)
            (\<lambda>pending'. Inr (pending', remote_handles))
      | WvHandle h \<Rightarrow> remote (oh_app h)
      | WvFunction h \<Rightarrow> remote (op_app h)
      | WvPromise h \<Rightarrow> remote (op_app h)
      | WvMessagePort h \<Rightarrow> remote (op_app h)
      | WvTypedArray kind byte_offset element_count storage \<Rightarrow>
          rbind (ok_or RpTypedArrayRangeOverflow
            (Option.bind (checked_mul element_count (of_nat (element_bytes kind)))
              (checked_add byte_offset))) (\<lambda>byte_len.
          case storage of
            StInline bs \<Rightarrow> rbind (validate_inline_bytes bs maximum_inline) (\<lambda>_.
              if unat byte_len > length bs then Inl RpTypedArrayRangeExceeded else stay)
          | StShared h \<Rightarrow> remote (op_app h)
          | StStream h \<Rightarrow> remote (op_app h)
          | StBlob i \<Rightarrow> stay)
      | _ \<Rightarrow> stay)"

subsection \<open>Outcomes of the helpers\<close>

lemma text_Inr [simp]:
  "validate_bounded_text f v m = Inr u \<longleftrightarrow> length v \<le> m"
  "validate_text f v m = Inr u \<longleftrightarrow> v \<noteq> [] \<and> length v \<le> m"
  "validate_inline_bytes bs m = Inr u \<longleftrightarrow> length bs \<le> m"
  by (auto simp: validate_bounded_text_def validate_text_def validate_inline_bytes_def)

lemma child_depth_Inr:
  "child_depth d l e = Inr d' \<longleftrightarrow>
     (if e then d' = d else Suc (unat d) \<le> unat (max_object_depth l) \<and> d' = d + 1)"
  using checked_succ_le [of d "max_object_depth l" "\<lambda>x. x = d'"]
  by (auto simp: child_depth_def rbind_Inr_iff)

lemma reserve_pending_Inr [simp]:
  "reserve_pending alloc k n r m = Inr u \<longleftrightarrow> k + n \<le> unat r \<and> alloc k n"
proof -
  have "unat r < 2 ^ 32"
    using unsigned_less [of r, where ?'a = nat] by simp
  then show ?thesis
    by (auto simp: reserve_pending_def rbind_Inr_iff)
qed

lemma validate_remote_handle_Inr:
  "validate_remote_handle a app n l = Inr n' \<longleftrightarrow>
     (app = None \<or> app = Some a) \<and> Suc (unat n) \<le> unat (max_remote_handles l) \<and> n' = n + 1"
  using checked_succ_le [of n "max_remote_handles l" "\<lambda>x. x = n'"]
  by (auto simp: validate_remote_handle_def rbind_Inr_iff split: option.splits)

lemma validate_object_entries_Inr [simp]:
  "validate_object_entries ks es m = Inr u \<longleftrightarrow>
     list_all (\<lambda>p. length (fst p) \<le> m) es \<and> distinct (map fst es) \<and> ks \<inter> fst ` set es = {}"
  by (induction ks es m rule: validate_object_entries.induct) (auto simp: rbind_Inr_iff)

lemma validate_optional_texts_Inr [simp]:
  "validate_optional_texts fs m = Inr u \<longleftrightarrow> list_all (\<lambda>p. pred_option (\<lambda>s. length s \<le> m) (snd p)) fs"
  by (induction fs m rule: validate_optional_texts.induct) (auto simp: rbind_Inr_iff)

lemma push_error_data_Inr [simp]:
  "push_error_data es m d p = Inr p' \<longleftrightarrow>
     list_all (\<lambda>e. length (fst e) \<le> m) es \<and> p' = map (\<lambda>c. (c, d)) (map snd (rev es)) @ p"
  by (induction es m d p rule: push_error_data.induct) (auto simp: rbind_Inr_iff)

lemma list_position_Some:
  "list_position xs x = Some i \<Longrightarrow> i < length xs \<and> xs ! i = x"
  by (induction xs arbitrary: i) (auto split: if_splits)

lemma list_position_None: "list_position xs x = None \<longleftrightarrow> x \<notin> set xs"
  by (induction xs) auto

lemma subseq_notin: "x \<notin> set ys \<Longrightarrow> \<not> subseq (x # xs) ys"
  using list_emb_set [of "(=)" "x # xs" ys x] by auto

lemma subseq_drop_Cons:
  assumes "distinct xs" and "list_position xs x = Some i"
  shows "subseq (x # ys) (drop k xs) \<longleftrightarrow> k \<le> i \<and> subseq ys (drop (Suc i) xs)"
  using assms
proof (induction xs arbitrary: i k)
  case Nil
  then show ?case by simp
next
  case (Cons a xs)
  show ?case
  proof (cases k)
    case 0
    show ?thesis
    proof (cases "a = x")
      case True
      with Cons.prems 0 show ?thesis by auto
    next
      case False
      then obtain j where j: "i = Suc j" "list_position xs x = Some j"
        using Cons.prems by auto
      then show ?thesis
        using Cons.IH [of j 0] Cons.prems 0 False by (simp add: subseq_Cons2_neq)
    qed
  next
    case (Suc k')
    show ?thesis
    proof (cases "a = x")
      case True
      then have "x \<notin> set (drop k' xs)"
        using Cons.prems set_drop_subset [of k' xs] by auto
      then have "\<not> subseq (x # ys) (drop k' xs)"
        by (rule subseq_notin)
      with Cons.prems Suc True show ?thesis by auto
    next
      case False
      then obtain j where j: "i = Suc j" "list_position xs x = Some j"
        using Cons.prems by auto
      then show ?thesis
        using Cons.IH [of j k'] Cons.prems Suc by simp
    qed
  qed
qed

lemma regexp_flags_loop_Inr:
  "regexp_flags_loop p u v fs = Inr r \<longleftrightarrow>
     subseq fs (drop (case p of None \<Rightarrow> 0 | Some i \<Rightarrow> Suc i) ''dgimsuvy'') \<and>
     \<not> ((u \<or> CHR ''u'' \<in> set fs) \<and> (v \<or> CHR ''v'' \<in> set fs))"
proof (induction fs arbitrary: p u v)
  case Nil
  then show ?case by auto
next
  case (Cons f fs)
  let ?k = "case p of None \<Rightarrow> 0 | Some i \<Rightarrow> Suc i" and ?s = "''dgimsuvy''"
  show ?case
  proof (cases "list_position ?s f")
    case None
    then have "f \<notin> set (drop ?k ?s)"
      using list_position_None [of ?s f] set_drop_subset [of ?k ?s] by blast
    then have "\<not> subseq (f # fs) (drop ?k ?s)"
      by (rule subseq_notin)
    with None show ?thesis by simp
  next
    case (Some i)
    have "distinct ?s" by simp
    note d = subseq_drop_Cons [OF this Some, of fs ?k]
    have "regexp_flags_loop p u v (f # fs) = Inr r \<longleftrightarrow> ?k \<le> i \<and>
        regexp_flags_loop (Some i) (u \<or> f = CHR ''u'') (v \<or> f = CHR ''v'') fs = Inr r"
      using Some by (auto split: option.splits)
    then show ?thesis
      unfolding d Cons.IH by auto
  qed
qed

subsection \<open>One node\<close>

fun wv_container :: "WireValue \<Rightarrow> bool" where
  "wv_container (WvArray vs) \<longleftrightarrow> True"
| "wv_container (WvObject es) \<longleftrightarrow> True"
| "wv_container (WvError e) \<longleftrightarrow> True"
| "wv_container _ \<longleftrightarrow> False"

lemma validate_wire_error_Inr:
  "validate_wire_error alloc e m p d l rem = Inr p' \<longleftrightarrow>
     length (we_name e) \<le> m \<and> length (we_message e) \<le> m \<and>
     pred_option (\<lambda>s. length s \<le> m) (we_stack e) \<and> pred_option (\<lambda>s. length s \<le> m) (we_code e) \<and>
     pred_option (\<lambda>s. length s \<le> m) (we_kind e) \<and> list_all (\<lambda>q. length (fst q) \<le> m) (we_data e) \<and>
     length p + length (wv_children (WvError e)) \<le> unat rem \<and>
     alloc (length p) (length (wv_children (WvError e))) \<and>
     (\<exists>d'. child_depth d l (wv_children (WvError e) = []) = Inr d' \<and>
       p' = map (\<lambda>c. (c, d')) (wv_children (WvError e)) @ p)"
    (is "_ \<longleftrightarrow> ?R")
proof -
  let ?n = "length (we_data e) + (if we_cause e = None then 0 else 1)"
  have n: "length (wv_children (WvError e)) = ?n" "wv_children (WvError e) = [] \<longleftrightarrow> ?n = 0"
    by (auto split: option.splits)
  have rem: "unat rem < 2 ^ 32"
    using unsigned_less [of rem, where ?'a = nat] by simp
  show ?thesis
    unfolding n validate_wire_error_def
    by (cases "we_cause e") (use rem in \<open>auto simp: rbind_Inr_iff rev_map\<close>)
qed

lemma pair_Inr: "rbind m (\<lambda>n. Inr (p, n)) = Inr (p', n') \<longleftrightarrow> m = Inr n' \<and> p' = p"
  by (auto simp: rbind_Inr_iff)

lemma typed_array_range:
  "Option.bind (checked_mul n (of_nat (element_bytes k))) (checked_add off) = Some len \<longleftrightarrow>
     unat off + unat n * element_bytes k < 2 ^ 64 \<and> len = off + n * of_nat (element_bytes k)"
  for n off :: u64
proof -
  have e: "unat (of_nat (element_bytes k) :: u64) = element_bytes k"
    by (cases k) simp_all
  have mul: "unat (n * of_nat (element_bytes k) :: u64) = unat n * element_bytes k"
    if "unat n * element_bytes k < 2 ^ 64"
    using that by (simp add: unat_word_ariths e)
  show ?thesis
    by (auto simp: bind_eq_Some_conv checked_mul_def checked_add_def e mul split: if_splits)
qed

lemma typed_array_len:
  assumes "unat off + unat n * element_bytes k < 2 ^ 64"
  shows "unat (off + n * of_nat (element_bytes k) :: u64) = unat off + unat n * element_bytes k"
proof -
  have e: "unat (of_nat (element_bytes k) :: u64) = element_bytes k"
    by (cases k) simp_all
  show ?thesis
    using assms by (simp add: unat_word_ariths e)
qed

text \<open>Everything a successful visit of one node implies, and all it takes.\<close>

definition visit_ok ::
    "allocator \<Rightarrow> ProtocolLimits \<Rightarrow> AppInstanceId option \<Rightarrow> WireValue \<Rightarrow> u16 \<Rightarrow> usize \<Rightarrow> u32 \<Rightarrow> u32 \<Rightarrow> bool"
  where
  "visit_ok alloc l app v d k rh rem \<longleftrightarrow> wv_node_ok l app v \<and>
     (wv_container v \<longrightarrow> k + length (wv_children v) \<le> unat rem \<and> alloc k (length (wv_children v))) \<and>
     (wv_children v \<noteq> [] \<longrightarrow> Suc (unat d) \<le> unat (max_object_depth l)) \<and>
     (wv_handle v \<noteq> None \<longrightarrow> Suc (unat rh) \<le> unat (max_remote_handles l))"

lemma validate_wire_value_Inr:
  "validate_wire_value alloc v d l p rh rem app = Inr (p', rh') \<longleftrightarrow>
     visit_ok alloc l app v d (length p) rh rem \<and>
     p' = map (\<lambda>c. (c, d + 1)) (wv_children v) @ p \<and>
     rh' = (if wv_handle v = None then rh else rh + 1)"
proof (cases v)
  case (WvTypedArray k off n st)
  then show ?thesis
    by (cases st; cases app)
      (auto simp: validate_wire_value_def visit_ok_def wv_node_ok_def rbind_Inr_iff
        typed_array_range typed_array_len validate_remote_handle_Inr)
next
  case (WvError e)
  then show ?thesis
    by (auto simp: validate_wire_value_def visit_ok_def wv_node_ok_def rbind_Inr_iff
        validate_wire_error_Inr child_depth_Inr error_ok_def text_ok_def [abs_def]
        simp del: wv_children.simps split: if_splits)
next
  case (WvRegExp src fs)
  then show ?thesis
    by (auto simp: validate_wire_value_def visit_ok_def wv_node_ok_def rbind_Inr_iff
        regexp_flags_loop_Inr regexp_flags_ok_def text_ok_def Let_def)
qed (cases app; auto simp: validate_wire_value_def visit_ok_def wv_node_ok_def rbind_Inr_iff
    validate_remote_handle_Inr child_depth_Inr text_ok_def list_all_iff split: if_splits)+

subsection \<open>The walk\<close>

record WireValueBudget =
  wb_nodes :: u32
  wb_maximum_depth :: u16
  wb_remote_handles :: u32

lemma validate_wire_value_nodes:
  "validate_wire_value alloc v d l p rh rem app = Inr (p', rh') \<Longrightarrow>
     Suc (wv_nodes (map fst p')) = wv_nodes (v # map fst p)"
  by (simp add: validate_wire_value_Inr comp_def)

function validate_graph_loop ::
    "allocator \<Rightarrow> ProtocolLimits \<Rightarrow> AppInstanceId option \<Rightarrow> pending \<Rightarrow> u32 \<Rightarrow> u16 \<Rightarrow> u32 \<Rightarrow>
     (u32 \<times> u16 \<times> u32) rp_result" where
  "validate_graph_loop alloc limits expected_app [] nodes maximum_depth remote_handles =
     Inr (nodes, maximum_depth, remote_handles)"
| "validate_graph_loop alloc limits expected_app ((v, depth) # pending) nodes maximum_depth
     remote_handles =
     rbind (ok_or RpGraphNodeCountOverflow (checked_add nodes 1)) (\<lambda>nodes'.
     if nodes' > max_graph_nodes limits
     then Inl (RpGraphNodesExceeded (max_graph_nodes limits) nodes')
     else if depth > max_object_depth limits
     then Inl (RpGraphDepthExceeded (max_object_depth limits) depth)
     else rbind (validate_wire_value alloc v depth limits pending remote_handles
         (max_graph_nodes limits - nodes') expected_app) (\<lambda>(pending', remote_handles').
       validate_graph_loop alloc limits expected_app pending' nodes' (max maximum_depth depth)
         remote_handles'))"
  by pat_completeness auto
termination
  by (relation "measure (\<lambda>(alloc, limits, app, pending, n, md, rh). wv_nodes (map fst pending))")
    (auto dest!: validate_wire_value_nodes)

definition validate_wire_value_graph_with_app ::
    "allocator \<Rightarrow> WireValue list \<Rightarrow> ProtocolLimits \<Rightarrow> AppInstanceId option \<Rightarrow>
     WireValueBudget rp_result" where
  "validate_wire_value_graph_with_app alloc roots limits expected_app =
     rbind (map_err RpLimits (limits_validate limits)) (\<lambda>_.
     rbind (if length roots < 2 ^ 32 then Inr (of_nat (length roots) :: u32)
            else Inl RpGraphNodeCountOverflow) (\<lambda>root_count.
     if root_count > max_graph_nodes limits
     then Inl (RpGraphNodesExceeded (max_graph_nodes limits) root_count)
     else rbind (ensure (alloc 0 (length roots)) RpBudgetAllocationFailed) (\<lambda>_.
     rbind (validate_graph_loop alloc limits expected_app (map (\<lambda>v. (v, 1)) roots) 0 0 0)
       (\<lambda>(nodes, md, handles).
         Inr \<lparr>wb_nodes = nodes, wb_maximum_depth = md, wb_remote_handles = handles\<rparr>))))"

definition validate_wire_value_graph ::
    "allocator \<Rightarrow> WireValue list \<Rightarrow> ProtocolLimits \<Rightarrow> WireValueBudget rp_result" where
  "validate_wire_value_graph alloc roots limits =
     validate_wire_value_graph_with_app alloc roots limits None"

definition validate_wire_value_graph_for_app ::
    "allocator \<Rightarrow> WireValue list \<Rightarrow> ProtocolLimits \<Rightarrow> AppInstanceId \<Rightarrow> WireValueBudget rp_result" where
  "validate_wire_value_graph_for_app alloc roots limits app =
     validate_wire_value_graph_with_app alloc roots limits (Some app)"

text \<open>The specification of a work list: every value carries the depth it sits at.\<close>

fun pending_depth :: "pending \<Rightarrow> nat" where
  "pending_depth [] = 0"
| "pending_depth ((v, d) # p) = max (unat d + wv_depth (wv_children v)) (pending_depth p)"

definition walk_spec ::
    "ProtocolLimits \<Rightarrow> AppInstanceId option \<Rightarrow> pending \<Rightarrow> u32 \<Rightarrow> u16 \<Rightarrow> u32 \<Rightarrow> u32 \<times> u16 \<times> u32 \<Rightarrow> bool"
  where
  "walk_spec l app p n md rh res \<longleftrightarrow>
     (case res of (n', md', rh') \<Rightarrow>
        wv_all_ok l app (map fst p) \<and>
        unat n' = unat n + wv_nodes (map fst p) \<and> unat md' = max (unat md) (pending_depth p) \<and>
        unat rh' = unat rh + wv_handles (map fst p) \<and>
        (p = [] \<or> unat n' \<le> unat (max_graph_nodes l)) \<and>
        pending_depth p \<le> unat (max_object_depth l) \<and>
        (wv_handles (map fst p) = 0 \<or> unat rh' \<le> unat (max_remote_handles l)))"

lemma pending_depth_append:
  "pending_depth (p @ q) = max (pending_depth p) (pending_depth q)"
  by (induction p rule: pending_depth.induct) (auto simp: max.assoc)

lemma pending_depth_same:
  "pending_depth (map (\<lambda>v. (v, d)) vs) = (if vs = [] then 0 else unat d + wv_depth vs - 1)"
proof (induction vs)
  case Nil
  then show ?case by simp
next
  case (Cons v vs)
  then show ?case
    using wv_depth_pos_iff [of vs] by (cases "vs = []") (auto simp: max_def)
qed

lemma walk_spec_step:
  assumes all: "\<And>a b. alloc a b"
  shows "walk_spec l app ((v, d) # p) n md rh res \<longleftrightarrow>
    Suc (unat n) \<le> unat (max_graph_nodes l) \<and> unat d \<le> unat (max_object_depth l) \<and>
    visit_ok alloc l app v d (length p) rh (max_graph_nodes l - (n + 1)) \<and>
    walk_spec l app (map (\<lambda>c. (c, d + 1)) (wv_children v) @ p) (n + 1) (max md d)
      (if wv_handle v = None then rh else rh + 1) res"
    (is "?L \<longleftrightarrow> ?N \<and> ?D \<and> ?V \<and> ?W")
proof -
  obtain n' md' rh' where res: "res = (n', md', rh')"
    by (cases res) auto
  let ?cs = "wv_children v"
  have len: "length ?cs \<le> wv_nodes ?cs" "length p \<le> wv_nodes (map fst p)"
    using wv_nodes_ge_length [of ?cs] wv_nodes_ge_length [of "map fst p"] by simp_all
  have fst_p: "map fst (map (\<lambda>c. (c, d + 1)) ?cs @ p) = ?cs @ map fst p"
    by (simp add: comp_def)
  show ?thesis
  proof (cases "?N \<and> ?D \<and> (?cs \<noteq> [] \<longrightarrow> Suc (unat d) \<le> unat (max_object_depth l)) \<and>
      (wv_handle v \<noteq> None \<longrightarrow> Suc (unat rh) \<le> unat (max_remote_handles l))")
    case True
    then have N: ?N and D: ?D and C: "?cs \<noteq> [] \<Longrightarrow> Suc (unat d) \<le> unat (max_object_depth l)"
      and H: "wv_handle v \<noteq> None \<Longrightarrow> Suc (unat rh) \<le> unat (max_remote_handles l)"
      by blast+
    note un = unat_succ_le [OF N]
    have rem: "unat (max_graph_nodes l - (n + 1)) = unat (max_graph_nodes l) - Suc (unat n)"
      using N un by (subst unat_sub) (simp_all add: word_le_nat_alt)
    have pd: "pending_depth (map (\<lambda>c. (c, d + 1)) ?cs) = (if ?cs = [] then 0 else unat d + wv_depth ?cs)"
      unfolding pending_depth_same using unat_succ_le [OF C] by simp
    have rh: "unat (if wv_handle v = None then rh else rh + 1) =
        unat rh + (if wv_handle v = None then 0 else 1)"
      using unat_succ_le [OF H] by simp
    let ?k = "if wv_handle v = None then 0 else 1 :: nat"
    let ?nodes = "wv_nodes ?cs + wv_nodes (map fst p)"
      and ?hs = "wv_handles ?cs + wv_handles (map fst p)"
      and ?dep = "max (unat d + wv_depth ?cs) (pending_depth p)"
    have L: "?L \<longleftrightarrow> (wv_node_ok l app v \<and> wv_all_ok l app ?cs \<and> wv_all_ok l app (map fst p)) \<and>
        unat n' = Suc (unat n + ?nodes) \<and> unat md' = max (unat md) ?dep \<and>
        unat rh' = unat rh + ?k + ?hs \<and> unat n' \<le> unat (max_graph_nodes l) \<and>
        ?dep \<le> unat (max_object_depth l) \<and> (?k + ?hs = 0 \<or> unat rh' \<le> unat (max_remote_handles l))"
      by (simp add: walk_spec_def res add.assoc conj_ac)
    have dep: "max (unat d) (max (if ?cs = [] then 0 else unat d + wv_depth ?cs) (pending_depth p)) = ?dep"
      by auto
    have W: "?W \<longleftrightarrow> (wv_all_ok l app ?cs \<and> wv_all_ok l app (map fst p)) \<and>
        unat n' = Suc (unat n + ?nodes) \<and> unat md' = max (unat md) ?dep \<and>
        unat rh' = unat rh + ?k + ?hs \<and> unat n' \<le> unat (max_graph_nodes l) \<and>
        ?dep \<le> unat (max_object_depth l) \<and> (?hs = 0 \<or> unat rh' \<le> unat (max_remote_handles l))"
    proof -
      have "(?cs @ map fst p = [] \<or> unat n' \<le> unat (max_graph_nodes l)) \<longleftrightarrow>
          unat n' \<le> unat (max_graph_nodes l)" if "unat n' = Suc (unat n + ?nodes)"
        using that N by auto
      moreover have "max (if ?cs = [] then 0 else unat d + wv_depth ?cs) (pending_depth p) \<le>
          unat (max_object_depth l) \<longleftrightarrow> ?dep \<le> unat (max_object_depth l)"
        using D by auto
      ultimately show ?thesis
        unfolding walk_spec_def res prod.case fst_p pending_depth_append pd un rh unat_max
          max.assoc [of "unat md"] dep
        by (simp add: conj_ac cong: conj_cong)
    qed
    have V: "?V \<longleftrightarrow> wv_node_ok l app v \<and>
        (wv_container v \<longrightarrow> length p + length ?cs \<le> unat (max_graph_nodes l) - Suc (unat n))"
      unfolding visit_ok_def rem using all C H by blast
    have "length p + length ?cs \<le> unat (max_graph_nodes l) - Suc (unat n)"
      if "unat n' = Suc (unat n + ?nodes)" "unat n' \<le> unat (max_graph_nodes l)"
      using that len by linarith
    moreover have "(?k + ?hs = 0 \<or> unat rh' \<le> unat (max_remote_handles l)) \<longleftrightarrow>
        (?hs = 0 \<or> unat rh' \<le> unat (max_remote_handles l))" if "unat rh' = unat rh + ?k + ?hs"
      using that H by auto
    ultimately show ?thesis
      unfolding L V W using N D by blast
  next
    case False
    have "?N \<and> ?D \<and> (?cs \<noteq> [] \<longrightarrow> Suc (unat d) \<le> unat (max_object_depth l)) \<and>
      (wv_handle v \<noteq> None \<longrightarrow> Suc (unat rh) \<le> unat (max_remote_handles l))" if ?L
    proof -
      from that have "unat n' = unat n + wv_nodes (v # map fst p)" "unat n' \<le> unat (max_graph_nodes l)"
        and dep: "unat d + wv_depth ?cs \<le> unat (max_object_depth l)"
        and "unat rh' = unat rh + wv_handles (v # map fst p)"
        and "wv_handles (v # map fst p) = 0 \<or> unat rh' \<le> unat (max_remote_handles l)"
        unfolding walk_spec_def res prod.case list.map fst_conv pending_depth.simps max.bounded_iff
        by blast+
      then show ?thesis
        using wv_depth_pos_iff [of ?cs] by (cases "wv_handle v") auto
    qed
    moreover have "?N \<and> ?D \<and> (?cs \<noteq> [] \<longrightarrow> Suc (unat d) \<le> unat (max_object_depth l)) \<and>
      (wv_handle v \<noteq> None \<longrightarrow> Suc (unat rh) \<le> unat (max_remote_handles l))" if "?N \<and> ?D \<and> ?V"
      using that unfolding visit_ok_def by blast
    ultimately show ?thesis
      using False by blast
  qed
qed

lemma graph_loop_step:
  "validate_graph_loop alloc l app ((v, d) # p) n md rh = Inr res \<longleftrightarrow>
     Suc (unat n) \<le> unat (max_graph_nodes l) \<and> unat d \<le> unat (max_object_depth l) \<and>
     visit_ok alloc l app v d (length p) rh (max_graph_nodes l - (n + 1)) \<and>
     validate_graph_loop alloc l app (map (\<lambda>c. (c, d + 1)) (wv_children v) @ p) (n + 1) (max md d)
       (if wv_handle v = None then rh else rh + 1) = Inr res"
proof -
  have "validate_graph_loop alloc l app ((v, d) # p) n md rh = Inr res \<longleftrightarrow>
    (\<exists>x. checked_add n 1 = Some x \<and> \<not> max_graph_nodes l < x \<and> \<not> max_object_depth l < d \<and>
     (\<exists>p' rh'. validate_wire_value alloc v d l p rh (max_graph_nodes l - x) app = Inr (p', rh') \<and>
       validate_graph_loop alloc l app p' x (max md d) rh' = Inr res))"
    by (auto simp: rbind_Inr_iff)
  also have "\<dots> \<longleftrightarrow> Suc (unat n) \<le> unat (max_graph_nodes l) \<and> \<not> max_object_depth l < d \<and>
     (\<exists>p' rh'. validate_wire_value alloc v d l p rh (max_graph_nodes l - (n + 1)) app = Inr (p', rh') \<and>
       validate_graph_loop alloc l app p' (n + 1) (max md d) rh' = Inr res)"
    by (rule checked_succ_le)
  finally show ?thesis
    unfolding validate_wire_value_Inr by (auto simp: word_less_nat_alt not_less)
qed

lemma visit_ok_mono: "visit_ok alloc l app v d k rh rem \<Longrightarrow> (\<And>a b. alloc' a b) \<Longrightarrow> visit_ok alloc' l app v d k rh rem"
  by (auto simp: visit_ok_def)

lemma walk_spec_nil: "walk_spec l app [] n md rh res \<longleftrightarrow> res = (n, md, rh)"
  by (cases res) (auto simp: walk_spec_def word_unat_eq_iff)

lemma graph_loop_sound:
  "validate_graph_loop alloc l app p n md rh = Inr res \<Longrightarrow> walk_spec l app p n md rh res"
proof (induction "wv_nodes (map fst p)" arbitrary: p n md rh rule: less_induct)
  case less
  show ?case
  proof (cases p)
    case Nil
    with less.prems show ?thesis by (simp add: walk_spec_nil)
  next
    case (Cons x q)
    obtain v d where x: "x = (v, d)" by (cases x)
    show ?thesis
      using less.prems less.hyps [of "map (\<lambda>c. (c, d + 1)) (wv_children v) @ q"]
      unfolding Cons x graph_loop_step walk_spec_step [of "\<lambda>_ _. True", OF TrueI]
      by (auto simp: comp_def intro: visit_ok_mono)
  qed
qed

lemma graph_loop_complete:
  assumes "\<And>a b. alloc a b"
  shows "walk_spec l app p n md rh res \<Longrightarrow> validate_graph_loop alloc l app p n md rh = Inr res"
proof (induction "wv_nodes (map fst p)" arbitrary: p n md rh rule: less_induct)
  case less
  show ?case
  proof (cases p)
    case Nil
    with less.prems show ?thesis by (simp add: walk_spec_nil)
  next
    case (Cons x q)
    obtain v d where x: "x = (v, d)" by (cases x)
    show ?thesis
      using less.prems less.hyps [of "map (\<lambda>c. (c, d + 1)) (wv_children v) @ q"]
      unfolding Cons x graph_loop_step walk_spec_step [of alloc, OF assms]
      by (auto simp: comp_def)
  qed
qed

subsection \<open>Exactness\<close>

definition graph_spec ::
    "ProtocolLimits \<Rightarrow> AppInstanceId option \<Rightarrow> WireValue list \<Rightarrow> WireValueBudget \<Rightarrow> bool" where
  "graph_spec l app roots b \<longleftrightarrow> limits_positive l \<and> wv_all_ok l app roots \<and>
     wv_nodes roots \<le> unat (max_graph_nodes l) \<and> wv_depth roots \<le> unat (max_object_depth l) \<and>
     wv_handles roots \<le> unat (max_remote_handles l) \<and>
     unat (wb_nodes b) = wv_nodes roots \<and> unat (wb_maximum_depth b) = wv_depth roots \<and>
     unat (wb_remote_handles b) = wv_handles roots"

lemma walk_spec_roots:
  "walk_spec l app (map (\<lambda>v. (v, 1)) roots) 0 0 0 (n, md, rh) \<longleftrightarrow>
     wv_all_ok l app roots \<and> wv_nodes roots \<le> unat (max_graph_nodes l) \<and>
     wv_depth roots \<le> unat (max_object_depth l) \<and> wv_handles roots \<le> unat (max_remote_handles l) \<and>
     unat n = wv_nodes roots \<and> unat md = wv_depth roots \<and> unat rh = wv_handles roots"
proof -
  have "pending_depth (map (\<lambda>v. (v, 1)) roots) = wv_depth roots"
    by (simp add: pending_depth_same)
  moreover have "map fst (map (\<lambda>v. (v, 1 :: u16)) roots) = roots"
    by (simp add: comp_def)
  ultimately show ?thesis
    unfolding walk_spec_def by (cases "roots = []") auto
qed

lemma validate_graph_Inr:
  "validate_wire_value_graph_with_app alloc roots l app = Inr b \<longleftrightarrow>
     limits_positive l \<and> length roots \<le> unat (max_graph_nodes l) \<and> alloc 0 (length roots) \<and>
     validate_graph_loop alloc l app (map (\<lambda>v. (v, 1)) roots) 0 0 0 =
       Inr (wb_nodes b, wb_maximum_depth b, wb_remote_handles b)"
proof -
  have m: "unat (max_graph_nodes l) < 2 ^ 32"
    using unsigned_less [of "max_graph_nodes l", where ?'a = nat] by simp
  have "(length roots < 2 ^ 32 \<and> \<not> max_graph_nodes l < of_nat (length roots)) \<longleftrightarrow>
      length roots \<le> unat (max_graph_nodes l)"
    using m by (auto simp: word_less_nat_alt unat_of_nat)
  then show ?thesis
    by (cases b) (auto simp: validate_wire_value_graph_with_app_def rbind_Inr_iff split: if_splits)
qed

lemma graph_walk_sound:
  "validate_wire_value_graph_with_app alloc roots l app = Inr b \<Longrightarrow> graph_spec l app roots b"
  using graph_loop_sound [of alloc l app "map (\<lambda>v. (v, 1)) roots"]
  unfolding validate_graph_Inr graph_spec_def by (fastforce simp: walk_spec_roots)

lemma graph_walk_complete:
  assumes "\<And>a n. alloc a n" and "graph_spec l app roots b"
  shows "validate_wire_value_graph_with_app alloc roots l app = Inr b"
  using graph_loop_complete [of alloc l app "map (\<lambda>v. (v, 1)) roots"] wv_nodes_ge_length [of roots] assms
  unfolding validate_graph_Inr graph_spec_def by (simp add: walk_spec_roots)

text \<open>
  C20: the wire-graph validator decides its recursive specification. Whatever it accepts has
  only canonical, bounded nodes, no handle of a foreign application, and node count, depth
  and handle count within the limits, which are exactly the numbers it reports; and as long
  as memory can be reserved it accepts every such graph.
\<close>

theorem validate_wire_value_graph_exact:
  "(validate_wire_value_graph_with_app alloc roots l app = Inr b \<longrightarrow> graph_spec l app roots b) \<and>
   ((\<forall>a n. alloc a n) \<longrightarrow> graph_spec l app roots b \<longrightarrow>
      validate_wire_value_graph_with_app alloc roots l app = Inr b)"
  using graph_walk_sound graph_walk_complete by blast

theorem validate_wire_value_graph_exact_witness:
  "let roots = [WvObject [(''id'', WvInteger 7), (''args'', WvArray [WvNull, WvRegExp ''a'' ''gi'',
         WvPromise (opaque_handle_new 5 1 0)])], WvString ''x''];
       b = \<lparr>wb_nodes = 7, wb_maximum_depth = 3, wb_remote_handles = 1\<rparr>
   in validate_wire_value_graph_with_app (\<lambda>_ _. True) roots secure_default (Some 5) = Inr b"
proof -
  let ?roots = "[WvObject [(''id'', WvInteger 7), (''args'', WvArray [WvNull, WvRegExp ''a'' ''gi'',
         WvPromise (opaque_handle_new 5 1 0)])], WvString ''x'']"
  let ?b = "\<lparr>wb_nodes = 7, wb_maximum_depth = 3, wb_remote_handles = 1\<rparr> :: WireValueBudget"
  have "graph_spec secure_default (Some 5) ?roots ?b"
    by (simp add: graph_spec_def wv_node_ok_def text_ok_def regexp_flags_ok_def secure_default_def
        opaque_handle_new_def limits_positive_def)
  then show ?thesis
    using validate_wire_value_graph_exact [of "\<lambda>_ _. True" ?roots secure_default "Some 5" ?b]
    by (simp add: Let_def)
qed

end
