(* ===== verification/Identifiers.thy ===== *)
theory Identifiers
  imports Runtime_Prelude "HOL-Library.Sublist"
begin

section \<open>Stable string identifiers\<close>

text \<open>
  \<open>validate_stable_name\<close> of \<open>weregopher-domain/src/ids.rs\<close>, the constructor check behind
  every \<open>stable_string_id!\<close> type (runtime backends, adapters, vendors, \<dots>), and its
  agreement with the pattern that the generated JSON schema publishes for the same types.
\<close>

datatype IdentifierReason =
    NameEmpty
  | NameTooLong
  | NameBoundary
  | NameCharacter
  | NameEmptySegment

record IdentifierError =
  ie_kind :: string
  ie_value :: string
  ie_reason :: IdentifierReason

definition is_ascii_lowercase :: "char \<Rightarrow> bool" where
  "is_ascii_lowercase c \<longleftrightarrow> of_char c \<ge> (97 :: nat) \<and> of_char c \<le> (122 :: nat)"

definition is_ascii_digit :: "char \<Rightarrow> bool" where
  "is_ascii_digit c \<longleftrightarrow> of_char c \<ge> (48 :: nat) \<and> of_char c \<le> (57 :: nat)"

fun str_contains :: "string \<Rightarrow> string \<Rightarrow> bool" where
  "str_contains [] pat = (pat = [])"
| "str_contains (c # s) pat = (take (length pat) (c # s) = pat \<or> str_contains s pat)"

definition starts_with_any :: "string \<Rightarrow> char list \<Rightarrow> bool" where
  "starts_with_any s cs \<longleftrightarrow> s \<noteq> [] \<and> hd s \<in> set cs"

definition ends_with_any :: "string \<Rightarrow> char list \<Rightarrow> bool" where
  "ends_with_any s cs \<longleftrightarrow> s \<noteq> [] \<and> last s \<in> set cs"

definition validate_stable_name :: "string \<Rightarrow> string \<Rightarrow> IdentifierError + string" where
  "validate_stable_name kind v =
     (let err = (\<lambda>r. Inl \<lparr>ie_kind = kind, ie_value = v, ie_reason = r\<rparr>) in
      if v = [] then err NameEmpty
      else if length v > 255 then err NameTooLong
      else if starts_with_any v ''.-_'' \<or> ends_with_any v ''.-_'' then err NameBoundary
      else if \<not> list_all (\<lambda>b. is_ascii_lowercase b \<or> is_ascii_digit b \<or> b \<in> set ''.-_'') v
      then err NameCharacter
      else if str_contains v ''..'' then err NameEmptySegment
      else Inr v)"

subsection \<open>The published pattern\<close>

text \<open>
  The schema's pattern is
  \<^verbatim>\<open>^(?!.*\.\.)[a-z0-9](?:[a-z0-9._-]{0,253}[a-z0-9])?$\<close>: one alphanumeric character, or
  two of them around at most 253 characters of the wider class, and no two adjacent dots.
\<close>

definition name_edge :: "char \<Rightarrow> bool" where
  "name_edge c \<longleftrightarrow> is_ascii_lowercase c \<or> is_ascii_digit c"

definition name_inner :: "char \<Rightarrow> bool" where
  "name_inner c \<longleftrightarrow> name_edge c \<or> c \<in> {CHR ''.'', CHR ''_'', CHR ''-''}"

definition schema_pattern :: "string \<Rightarrow> bool" where
  "schema_pattern v \<longleftrightarrow>
     (\<nexists>pre post. v = pre @ ''..'' @ post) \<and>
     ((\<exists>c. v = [c] \<and> name_edge c) \<or>
      (\<exists>c mid d. v = c # mid @ [d] \<and> name_edge c \<and> name_edge d \<and> length mid \<le> 253 \<and>
         list_all name_inner mid))"

lemma str_contains_iff: "str_contains s pat \<longleftrightarrow> (\<exists>pre post. s = pre @ pat @ post)"
proof (induction s)
  case Nil
  then show ?case by simp
next
  case (Cons c s)
  have "take (length pat) (c # s) = pat \<longleftrightarrow> (\<exists>post. c # s = pat @ post)"
    by (metis append_eq_conv_conj)
  moreover have "(\<exists>pre post. c # s = pre @ pat @ post) \<longleftrightarrow>
      (\<exists>post. c # s = pat @ post) \<or> (\<exists>pre post. s = pre @ pat @ post)"
  proof
    assume "\<exists>pre post. c # s = pre @ pat @ post"
    then obtain pre post where *: "c # s = pre @ pat @ post" by blast
    show "(\<exists>post. c # s = pat @ post) \<or> (\<exists>pre post. s = pre @ pat @ post)"
    proof (cases pre)
      case Nil
      with * show ?thesis by auto
    next
      case (Cons a pre')
      with * have "s = pre' @ pat @ post" by simp
      then show ?thesis by blast
    qed
  next
    assume "(\<exists>post. c # s = pat @ post) \<or> (\<exists>pre post. s = pre @ pat @ post)"
    then show "\<exists>pre post. c # s = pre @ pat @ post"
    proof
      assume "\<exists>post. c # s = pat @ post"
      then show ?thesis by (metis append_Nil)
    next
      assume "\<exists>pre post. s = pre @ pat @ post"
      then show ?thesis by (metis append_Cons)
    qed
  qed
  ultimately show ?case
    using Cons.IH by simp
qed

lemma name_edge_inner: "name_edge c \<longleftrightarrow> name_inner c \<and> c \<notin> set ''.-_''"
  by (auto simp: name_edge_def name_inner_def is_ascii_lowercase_def is_ascii_digit_def)

lemma shape_iff:
  "v \<noteq> [] \<and> length v \<le> 255 \<and> hd v \<notin> set ''.-_'' \<and> last v \<notin> set ''.-_'' \<and> list_all name_inner v \<longleftrightarrow>
     (\<exists>c. v = [c] \<and> name_edge c) \<or>
     (\<exists>c mid d. v = c # mid @ [d] \<and> name_edge c \<and> name_edge d \<and> length mid \<le> 253 \<and>
        list_all name_inner mid)"
    (is "?L v \<longleftrightarrow> ?R v")
proof (cases v)
  case Nil
  then show ?thesis by simp
next
  case (Cons c w)
  show ?thesis
  proof (cases w rule: rev_cases)
    case Nil
    with Cons show ?thesis by (auto simp: name_edge_inner)
  next
    case (snoc mid d)
    with Cons show ?thesis by (auto simp: name_edge_inner)
  qed
qed

lemma stable_name_iff:
  "validate_stable_name kind v = Inr w \<longleftrightarrow> w = v \<and> schema_pattern v"
proof -
  have inner: "list_all (\<lambda>b. is_ascii_lowercase b \<or> is_ascii_digit b \<or> b \<in> set ''.-_'') v \<longleftrightarrow>
      list_all name_inner v"
    by (rule arg_cong2 [where f = list_all])
      (auto simp: name_inner_def name_edge_def)
  have "validate_stable_name kind v = Inr w \<longleftrightarrow> w = v \<and> \<not> str_contains v ''..'' \<and>
    (v \<noteq> [] \<and> length v \<le> 255 \<and> hd v \<notin> set ''.-_'' \<and> last v \<notin> set ''.-_'' \<and> list_all name_inner v)"
    unfolding validate_stable_name_def inner Let_def starts_with_any_def ends_with_any_def
    by auto
  then show ?thesis
    unfolding schema_pattern_def shape_iff str_contains_iff by blast
qed

text \<open>
  An identifier constructor accepts a text exactly when it matches the pattern of the
  published JSON schema, and it keeps the text unchanged.
\<close>

theorem validate_stable_name_schema:
  "validate_stable_name kind v = Inr w \<longleftrightarrow> w = v \<and> schema_pattern v"
  by (rule stable_name_iff)

end
