(* ===== verification/Runtime_Messages.thy ===== *)
theory Runtime_Messages
  imports Wire_Graph Identifiers
begin

section \<open>Messages of the runtime protocol\<close>

text \<open>
  The message types of \<open>weregopher-domain/src/runtime_protocol.rs\<close>: each private-field
  struct is a record, each constructor the function of the same role, and each
  \<open>Deserialize\<close> impl a \<open>_deserialize\<close> function. The decoder that serde derives for a
  \<open>Raw...\<close> struct is the parameter \<open>raw\<close>; it returns the fields as the wire has them, and
  the constructors of the nested types are applied to them before the outer one (serde
  applies them while it reads the fields; which of two errors it reports first depends on
  the order of the fields on the wire). \<open>custom\<close> is \<open>D::Error::custom\<close>.
\<close>

definition G1_PROTOCOL_MAJOR :: u16 where "G1_PROTOCOL_MAJOR = 1"
definition G1_PROTOCOL_MINOR :: u16 where "G1_PROTOCOL_MINOR = 0"
definition MAX_PROTOCOL_BACKEND_VERSION_BYTES :: usize where
  "MAX_PROTOCOL_BACKEND_VERSION_BYTES = 128"
definition MAX_PROTOCOL_REJECT_DETAIL_BYTES :: usize where
  "MAX_PROTOCOL_REJECT_DETAIL_BYTES = 512"
definition MAX_PROTOCOL_HEARTBEAT_MILLIS :: u32 where "MAX_PROTOCOL_HEARTBEAT_MILLIS = 60000"
definition MAX_PROTOCOL_CALL_DEADLINE_MILLIS :: u32 where
  "MAX_PROTOCOL_CALL_DEADLINE_MILLIS = 10 * 60 * 1000"
definition MAX_PROTOCOL_SERVICE_NAME_BYTES :: usize where "MAX_PROTOCOL_SERVICE_NAME_BYTES = 255"

subsection \<open>Versions\<close>

record ProtocolVersion =
  pv_major :: u16
  pv_minor :: u16

definition protocol_version_new :: "u16 \<Rightarrow> u16 \<Rightarrow> ProtocolVersion rp_result" where
  "protocol_version_new major minor =
     (if major = 0 then Inl RpZeroProtocolMajor else Inr \<lparr>pv_major = major, pv_minor = minor\<rparr>)"

definition protocol_version_deserialize ::
    "('d \<Rightarrow> 'de + u16 \<times> u16) \<Rightarrow> (RuntimeProtocolContractError \<Rightarrow> 'de) \<Rightarrow> 'd \<Rightarrow> 'de + ProtocolVersion" where
  "protocol_version_deserialize raw custom d =
     rbind (raw d) (\<lambda>(major, minor). map_err custom (protocol_version_new major minor))"

record ProtocolVersionRange =
  vr_minimum :: ProtocolVersion
  vr_maximum :: ProtocolVersion

definition version_range_new ::
    "ProtocolVersion \<Rightarrow> ProtocolVersion \<Rightarrow> ProtocolVersionRange rp_result" where
  "version_range_new minimum maximum =
     (if pv_major minimum \<noteq> pv_major maximum then Inl RpVersionRangeMajorMismatch
      else if pv_minor minimum > pv_minor maximum then Inl RpInvertedVersionRange
      else Inr \<lparr>vr_minimum = minimum, vr_maximum = maximum\<rparr>)"

definition version_range_negotiate ::
    "ProtocolVersionRange \<Rightarrow> ProtocolVersionRange \<Rightarrow> ProtocolVersion option" where
  "version_range_negotiate self other =
     (if pv_major (vr_minimum self) \<noteq> pv_major (vr_minimum other) then None
      else
        let minimum_minor =
              (if pv_minor (vr_minimum self) > pv_minor (vr_minimum other)
               then pv_minor (vr_minimum self) else pv_minor (vr_minimum other));
            maximum_minor =
              (if pv_minor (vr_maximum self) < pv_minor (vr_maximum other)
               then pv_minor (vr_maximum self) else pv_minor (vr_maximum other))
        in if minimum_minor > maximum_minor then None
           else Some \<lparr>pv_major = pv_major (vr_minimum self), pv_minor = maximum_minor\<rparr>)"

definition version_range_g1 :: "ProtocolVersionRange rp_result" where
  "version_range_g1 =
     rbind (protocol_version_new G1_PROTOCOL_MAJOR G1_PROTOCOL_MINOR) (\<lambda>version.
       version_range_new version version)"

definition version_range_deserialize ::
    "('d \<Rightarrow> 'de + (u16 \<times> u16) \<times> u16 \<times> u16) \<Rightarrow> (RuntimeProtocolContractError \<Rightarrow> 'de) \<Rightarrow> 'd \<Rightarrow>
     'de + ProtocolVersionRange" where
  "version_range_deserialize raw custom d =
     rbind (raw d) (\<lambda>(lo, hi).
     rbind (protocol_version_deserialize Inr custom lo) (\<lambda>minimum.
     rbind (protocol_version_deserialize Inr custom hi) (\<lambda>maximum.
     map_err custom (version_range_new minimum maximum))))"

definition version_wf :: "ProtocolVersion \<Rightarrow> bool" where
  "version_wf v \<longleftrightarrow> pv_major v \<noteq> 0"

definition range_wf :: "ProtocolVersionRange \<Rightarrow> bool" where
  "range_wf r \<longleftrightarrow> version_wf (vr_minimum r) \<and> version_wf (vr_maximum r) \<and>
     pv_major (vr_minimum r) = pv_major (vr_maximum r) \<and>
     pv_minor (vr_minimum r) \<le> pv_minor (vr_maximum r)"

definition in_range :: "ProtocolVersion \<Rightarrow> ProtocolVersionRange \<Rightarrow> bool" where
  "in_range v r \<longleftrightarrow> pv_major v = pv_major (vr_minimum r) \<and>
     pv_minor (vr_minimum r) \<le> pv_minor v \<and> pv_minor v \<le> pv_minor (vr_maximum r)"

lemma protocol_version_new_Inr [simp]:
  "protocol_version_new a b = Inr v \<longleftrightarrow> v = \<lparr>pv_major = a, pv_minor = b\<rparr> \<and> version_wf v"
  by (auto simp: protocol_version_new_def version_wf_def)

lemma version_range_new_wf:
  "version_wf lo \<Longrightarrow> version_wf hi \<Longrightarrow>
     version_range_new lo hi = Inr r \<longleftrightarrow> r = \<lparr>vr_minimum = lo, vr_maximum = hi\<rparr> \<and> range_wf r"
  by (auto simp: version_range_new_def range_wf_def)

lemma version_range_g1_wf: "\<exists>r. version_range_g1 = Inr r \<and> range_wf r"
  by (simp add: version_range_g1_def protocol_version_new_def version_range_new_def range_wf_def
      version_wf_def G1_PROTOCOL_MAJOR_def)

lemma version_range_negotiate_Some:
  "version_range_negotiate r s = Some v \<longleftrightarrow>
     pv_major (vr_minimum r) = pv_major (vr_minimum s) \<and>
     max (pv_minor (vr_minimum r)) (pv_minor (vr_minimum s)) \<le> pv_minor v \<and>
     v = \<lparr>pv_major = pv_major (vr_minimum r),
         pv_minor = min (pv_minor (vr_maximum r)) (pv_minor (vr_maximum s))\<rparr>"
  by (cases v) (auto simp: version_range_negotiate_def Let_def max_def min_def)

lemma version_range_negotiate_in_range:
  "range_wf r \<Longrightarrow> range_wf s \<Longrightarrow> version_range_negotiate r s = Some v \<Longrightarrow>
     in_range v r \<and> in_range v s \<and> version_wf v"
  by (auto simp: version_range_negotiate_Some in_range_def range_wf_def version_wf_def)

text \<open>
  Version negotiation between two well-formed ranges succeeds exactly when some version
  lies in both, and it then picks the highest such version.
\<close>

theorem version_range_negotiate_greatest:
  assumes "range_wf r" and "range_wf s"
  shows "version_range_negotiate r s = Some v \<longleftrightarrow>
    in_range v r \<and> in_range v s \<and>
    (\<forall>w. in_range w r \<longrightarrow> in_range w s \<longrightarrow> pv_minor w \<le> pv_minor v)"
    (is "?N \<longleftrightarrow> ?G")
proof
  assume ?N
  then show ?G
    using version_range_negotiate_in_range [OF assms]
    by (auto simp: version_range_negotiate_Some in_range_def)
next
  assume G: ?G
  let ?w = "\<lparr>pv_major = pv_major (vr_minimum r),
    pv_minor = min (pv_minor (vr_maximum r)) (pv_minor (vr_maximum s))\<rparr> :: ProtocolVersion"
  have "pv_minor v \<le> pv_minor ?w"
    using G by (simp add: in_range_def)
  with G have "in_range ?w r" "in_range ?w s"
    by (auto simp: in_range_def min_def)
  with G have "pv_minor ?w \<le> pv_minor v"
    by blast
  with \<open>pv_minor v \<le> pv_minor ?w\<close> have "pv_minor v = pv_minor ?w"
    by (rule order_antisym)
  then have "v = ?w"
    using G by (cases v) (simp add: in_range_def)
  with G show ?N
    by (auto simp: version_range_negotiate_Some in_range_def)
qed

theorem version_range_negotiate_greatest_witness:
  "let v = (\<lambda>m. \<lparr>pv_major = 1, pv_minor = m\<rparr>);
       r = \<lparr>vr_minimum = v 0, vr_maximum = v 4\<rparr>; s = \<lparr>vr_minimum = v 2, vr_maximum = v 7\<rparr>
   in version_range_negotiate r s = Some (v 4) \<and> in_range (v 4) r \<and> in_range (v 4) s"
proof -
  let ?v = "\<lambda>m. \<lparr>pv_major = 1, pv_minor = m\<rparr> :: ProtocolVersion"
  let ?r = "\<lparr>vr_minimum = ?v 0, vr_maximum = ?v 4\<rparr>" and ?s = "\<lparr>vr_minimum = ?v 2, vr_maximum = ?v 7\<rparr>"
  have "range_wf ?r" "range_wf ?s"
    by (simp_all add: range_wf_def version_wf_def)
  then show ?thesis
    using version_range_negotiate_greatest [of ?r ?s "?v 4"]
    by (simp add: version_range_negotiate_def Let_def)
qed

subsection \<open>Backend identity and features\<close>

record RuntimeBackendIdentity =
  rb_id :: string
  rb_version :: string

definition backend_identity_new :: "string \<Rightarrow> string \<Rightarrow> RuntimeBackendIdentity rp_result" where
  "backend_identity_new i version =
     rbind (validate_text ''runtime backend version'' version MAX_PROTOCOL_BACKEND_VERSION_BYTES)
       (\<lambda>_. Inr \<lparr>rb_id = i, rb_version = version\<rparr>)"

definition backend_identity_deserialize ::
    "('d \<Rightarrow> 'de + string \<times> string) \<Rightarrow> (IdentifierError \<Rightarrow> 'de) \<Rightarrow>
     (RuntimeProtocolContractError \<Rightarrow> 'de) \<Rightarrow> 'd \<Rightarrow> 'de + RuntimeBackendIdentity" where
  "backend_identity_deserialize raw custom_id custom d =
     rbind (raw d) (\<lambda>(i, version).
     rbind (map_err custom_id (validate_stable_name ''runtime backend'' i)) (\<lambda>i'.
     map_err custom (backend_identity_new i' version)))"

definition backend_wf :: "RuntimeBackendIdentity \<Rightarrow> bool" where
  "backend_wf b \<longleftrightarrow> rb_version b \<noteq> [] \<and> length (rb_version b) \<le> MAX_PROTOCOL_BACKEND_VERSION_BYTES"

record ProtocolFeatures =
  pf_calls :: bool
  pf_cancellation :: bool
  pf_events :: bool
  pf_credit_streams :: bool
  pf_sync_lane :: bool
  pf_shared_buffers :: bool

definition features_g1_control :: ProtocolFeatures where
  "features_g1_control = \<lparr>pf_calls = True, pf_cancellation = True, pf_events = True,
     pf_credit_streams = True, pf_sync_lane = False, pf_shared_buffers = False\<rparr>"

definition features_negotiate :: "ProtocolFeatures \<Rightarrow> ProtocolFeatures \<Rightarrow> ProtocolFeatures" where
  "features_negotiate self supported =
     \<lparr>pf_calls = pf_calls self \<and> pf_calls supported,
      pf_cancellation = pf_cancellation self \<and> pf_cancellation supported,
      pf_events = pf_events self \<and> pf_events supported,
      pf_credit_streams = pf_credit_streams self \<and> pf_credit_streams supported,
      pf_sync_lane = pf_sync_lane self \<and> pf_sync_lane supported,
      pf_shared_buffers = pf_shared_buffers self \<and> pf_shared_buffers supported\<rparr>"

subsection \<open>Connection setup\<close>

type_synonym CompatibilityAnalysisDigest = Sha256Digest

record RuntimeHello =
  rh_runtime :: RuntimeId
  rh_app :: AppInstanceId
  rh_backend :: RuntimeBackendIdentity
  rh_protocol_range :: ProtocolVersionRange
  rh_nonce_proof :: bytes
  rh_capabilities :: ProtocolFeatures
  rh_requested_limits :: ProtocolLimits

definition runtime_hello_new ::
    "RuntimeId \<Rightarrow> AppInstanceId \<Rightarrow> RuntimeBackendIdentity \<Rightarrow> ProtocolVersionRange \<Rightarrow> bytes \<Rightarrow>
     ProtocolFeatures \<Rightarrow> ProtocolLimits \<Rightarrow> RuntimeHello rp_result" where
  "runtime_hello_new runtime app backend protocol_range nonce_proof capabilities requested_limits =
     (if nonce_proof = replicate 32 0 then Inl RpZeroNonceProof
      else rbind (map_err RpLimits (limits_validate requested_limits)) (\<lambda>_.
        Inr \<lparr>rh_runtime = runtime, rh_app = app, rh_backend = backend,
             rh_protocol_range = protocol_range, rh_nonce_proof = nonce_proof,
             rh_capabilities = capabilities, rh_requested_limits = requested_limits\<rparr>))"

record HeartbeatPolicy =
  hb_interval_millis :: u32
  hb_timeout_millis :: u32

definition heartbeat_new :: "u32 \<Rightarrow> u32 \<Rightarrow> HeartbeatPolicy rp_result" where
  "heartbeat_new interval_millis timeout_millis =
     (if interval_millis = 0 \<or> timeout_millis = 0 then Inl RpZeroHeartbeatDuration
      else if interval_millis > timeout_millis then Inl RpInvertedHeartbeatPolicy
      else if timeout_millis > MAX_PROTOCOL_HEARTBEAT_MILLIS then Inl RpHeartbeatTimeoutExceeded
      else Inr \<lparr>hb_interval_millis = interval_millis, hb_timeout_millis = timeout_millis\<rparr>)"

definition heartbeat_deserialize ::
    "('d \<Rightarrow> 'de + u32 \<times> u32) \<Rightarrow> (RuntimeProtocolContractError \<Rightarrow> 'de) \<Rightarrow> 'd \<Rightarrow> 'de + HeartbeatPolicy" where
  "heartbeat_deserialize raw custom d =
     rbind (raw d) (\<lambda>(interval, timeout). map_err custom (heartbeat_new interval timeout))"

record RuntimeWelcome =
  rw_session :: ProtocolSessionId
  rw_version :: ProtocolVersion
  rw_limits :: ProtocolLimits
  rw_compatibility :: CompatibilityAnalysisDigest
  rw_heartbeat :: HeartbeatPolicy
  rw_features :: ProtocolFeatures

definition runtime_welcome_new ::
    "ProtocolSessionId \<Rightarrow> ProtocolVersion \<Rightarrow> ProtocolLimits \<Rightarrow> CompatibilityAnalysisDigest \<Rightarrow>
     HeartbeatPolicy \<Rightarrow> ProtocolFeatures \<Rightarrow> RuntimeWelcome rp_result" where
  "runtime_welcome_new session version limits compatibility heartbeat features =
     rbind (map_err RpLimits (limits_validate limits)) (\<lambda>_.
       Inr \<lparr>rw_session = session, rw_version = version, rw_limits = limits,
            rw_compatibility = compatibility, rw_heartbeat = heartbeat, rw_features = features\<rparr>)"

datatype ProtocolRejectCode =
    VersionMismatch | IdentityMismatch | PeerRejected | NonceRejected | LimitsRejected
  | FeaturesRejected | MalformedHandshake

record ProtocolReject =
  pr_code :: ProtocolRejectCode
  pr_detail :: string

definition protocol_reject_new :: "ProtocolRejectCode \<Rightarrow> string \<Rightarrow> ProtocolReject rp_result" where
  "protocol_reject_new code detail =
     rbind (validate_text ''protocol rejection detail'' detail MAX_PROTOCOL_REJECT_DETAIL_BYTES)
       (\<lambda>_. Inr \<lparr>pr_code = code, pr_detail = detail\<rparr>)"

subsection \<open>Calls\<close>

datatype CallTarget =
    CtService string
  | CtObject ObjectHandle
  | CtRuntime RuntimeId

definition call_target_service :: "string \<Rightarrow> CallTarget rp_result" where
  "call_target_service name =
     rbind (validate_text ''call service'' name MAX_PROTOCOL_SERVICE_NAME_BYTES)
       (\<lambda>_. Inr (CtService name))"

fun call_target_validate :: "CallTarget \<Rightarrow> ProtocolLimits \<Rightarrow> AppInstanceId \<Rightarrow> unit rp_result" where
  "call_target_validate (CtService name) limits expected_app =
     validate_text ''call service'' name
       (min (unat (max_string_bytes limits)) MAX_PROTOCOL_SERVICE_NAME_BYTES)"
| "call_target_validate (CtObject handle) limits expected_app =
     (if oh_app handle \<noteq> expected_app then Inl RpCrossApplicationHandle else Inr ())"
| "call_target_validate (CtRuntime runtime) limits expected_app = Inr ()"

fun call_target_deserialize ::
    "(RuntimeProtocolContractError \<Rightarrow> 'de) \<Rightarrow> CallTarget \<Rightarrow> 'de + CallTarget" where
  "call_target_deserialize custom (CtService name) = map_err custom (call_target_service name)"
| "call_target_deserialize custom (CtObject handle) = Inr (CtObject handle)"
| "call_target_deserialize custom (CtRuntime runtime) = Inr (CtRuntime runtime)"

definition validate_call_context :: "CallContext \<Rightarrow> ProtocolLimits \<Rightarrow> unit rp_result" where
  "validate_call_context context limits =
     rbind (case cc_deadline_ms context of
         None \<Rightarrow> Inr ()
       | Some deadline \<Rightarrow>
           if deadline = 0 then Inl RpZeroCallDeadline
           else if deadline > MAX_PROTOCOL_CALL_DEADLINE_MILLIS then Inl RpCallDeadlineExceeded
           else Inr ()) (\<lambda>_.
     rbind (case (cc_renderer context, cc_frame context) of
         (None, Some _) \<Rightarrow> Inl RpFrameWithoutRenderer
       | (Some renderer, Some frame) \<Rightarrow>
           if renderer \<noteq> fi_renderer frame then Inl RpFrameRendererMismatch else Inr ()
       | _ \<Rightarrow> Inr ()) (\<lambda>_.
     rbind (case cc_frame context of
         None \<Rightarrow> Inr ()
       | Some frame \<Rightarrow> validate_text ''frame origin'' (oi_serialized (fi_origin frame))
           (unat (max_string_bytes limits))) (\<lambda>_.
     case cc_world context of
         None \<Rightarrow> Inr ()
       | Some world \<Rightarrow>
           rbind (ok_or RpWorldWithoutFrame (cc_frame context)) (\<lambda>frame.
           if wi_frame world \<noteq> frame then Inl RpWorldFrameMismatch
           else case wi_kind world of
               BackendSpecific kind \<Rightarrow> validate_text ''backend-specific world kind'' kind
                 (unat (max_string_bytes limits))
             | _ \<Rightarrow> Inr ()))))"

record RuntimeCall =
  rc_target :: CallTarget
  rc_method :: string
  rc_args :: "WireValue list"
  rc_context :: CallContext

definition runtime_call_validate ::
    "allocator \<Rightarrow> RuntimeCall \<Rightarrow> ProtocolLimits \<Rightarrow> unit rp_result" where
  "runtime_call_validate alloc call limits =
     rbind (map_err RpLimits (limits_validate limits)) (\<lambda>_.
     rbind (call_target_validate (rc_target call) limits (cc_app (rc_context call))) (\<lambda>_.
     rbind (validate_text ''call method'' (rc_method call) (unat (max_string_bytes limits))) (\<lambda>_.
     rbind (validate_call_context (rc_context call) limits) (\<lambda>_.
     rbind (validate_wire_value_graph_for_app alloc (rc_args call) limits (cc_app (rc_context call)))
       (\<lambda>_. Inr ())))))"

definition runtime_call_new ::
    "allocator \<Rightarrow> CallTarget \<Rightarrow> string \<Rightarrow> WireValue list \<Rightarrow> CallContext \<Rightarrow> ProtocolLimits \<Rightarrow>
     RuntimeCall rp_result" where
  "runtime_call_new alloc target method args context limits =
     (let call = \<lparr>rc_target = target, rc_method = method, rc_args = args, rc_context = context\<rparr> in
      rbind (runtime_call_validate alloc call limits) (\<lambda>_. Inr call))"

record RuntimeCallResult =
  rr_value :: WireValue

definition call_result_new ::
    "allocator \<Rightarrow> WireValue \<Rightarrow> ProtocolLimits \<Rightarrow> RuntimeCallResult rp_result" where
  "call_result_new alloc v limits =
     rbind (validate_wire_value_graph alloc [v] limits) (\<lambda>_. Inr \<lparr>rr_value = v\<rparr>)"

definition call_result_validate ::
    "allocator \<Rightarrow> RuntimeCallResult \<Rightarrow> ProtocolLimits \<Rightarrow> unit rp_result" where
  "call_result_validate alloc r limits =
     rbind (validate_wire_value_graph alloc [rr_value r] limits) (\<lambda>_. Inr ())"

record RuntimeCallError =
  re_error :: WireError

definition call_error_new ::
    "allocator \<Rightarrow> WireError \<Rightarrow> ProtocolLimits \<Rightarrow> RuntimeCallError rp_result" where
  "call_error_new alloc e limits =
     rbind (validate_wire_value_graph alloc [WvError e] limits) (\<lambda>_. Inr \<lparr>re_error = e\<rparr>)"

definition call_error_validate ::
    "allocator \<Rightarrow> RuntimeCallError \<Rightarrow> ProtocolLimits \<Rightarrow> unit rp_result" where
  "call_error_validate alloc e limits =
     rbind (validate_wire_value_graph alloc [WvError (re_error e)] limits) (\<lambda>_. Inr ())"

record RuntimeCancel =
  rx_request_id :: u64

definition runtime_cancel_new :: "u64 \<Rightarrow> RuntimeCancel rp_result" where
  "runtime_cancel_new request_id =
     (if request_id = 0 then Inl RpZeroRequestId else Inr \<lparr>rx_request_id = request_id\<rparr>)"

subsection \<open>Events and streams\<close>

record RuntimeEvent =
  ev_name :: string
  ev_args :: "WireValue list"

definition runtime_event_validate ::
    "allocator \<Rightarrow> RuntimeEvent \<Rightarrow> ProtocolLimits \<Rightarrow> unit rp_result" where
  "runtime_event_validate alloc ev limits =
     rbind (validate_text ''event name'' (ev_name ev) (unat (max_string_bytes limits))) (\<lambda>_.
     rbind (validate_wire_value_graph alloc (ev_args ev) limits) (\<lambda>_. Inr ()))"

definition runtime_event_new ::
    "allocator \<Rightarrow> string \<Rightarrow> WireValue list \<Rightarrow> ProtocolLimits \<Rightarrow> RuntimeEvent rp_result" where
  "runtime_event_new alloc name args limits =
     (let ev = \<lparr>ev_name = name, ev_args = args\<rparr> in
      rbind (runtime_event_validate alloc ev limits) (\<lambda>_. Inr ev))"

record RuntimeStreamOpen =
  so_stream :: OpaqueHandle
  so_initial_credit :: u64

definition stream_open_new :: "OpaqueHandle \<Rightarrow> u64 \<Rightarrow> RuntimeStreamOpen rp_result" where
  "stream_open_new stream initial_credit =
     (if initial_credit = 0 then Inl RpZeroStreamCredit
      else Inr \<lparr>so_stream = stream, so_initial_credit = initial_credit\<rparr>)"

record RuntimeStreamWindow =
  sw_stream :: OpaqueHandle
  sw_additional_credit :: u64

definition stream_window_new :: "OpaqueHandle \<Rightarrow> u64 \<Rightarrow> RuntimeStreamWindow rp_result" where
  "stream_window_new stream additional_credit =
     (if additional_credit = 0 then Inl RpZeroStreamCredit
      else Inr \<lparr>sw_stream = stream, sw_additional_credit = additional_credit\<rparr>)"

record RuntimeStreamData =
  sd_stream :: OpaqueHandle
  sd_sequence :: u64
  sd_bytes :: bytes

definition validate_stream_data :: "u64 \<Rightarrow> bytes \<Rightarrow> ProtocolLimits \<Rightarrow> unit rp_result" where
  "validate_stream_data sequence bs limits =
     rbind (map_err RpLimits (limits_validate limits)) (\<lambda>_.
     if sequence = 0 then Inl RpZeroStreamSequence
     else if bs = [] then Inl RpEmptyStreamData
     else validate_inline_bytes bs (unat (max_inline_buffer_bytes limits)))"

definition stream_data_new ::
    "OpaqueHandle \<Rightarrow> u64 \<Rightarrow> bytes \<Rightarrow> ProtocolLimits \<Rightarrow> RuntimeStreamData rp_result" where
  "stream_data_new stream sequence bs limits =
     rbind (validate_stream_data sequence bs limits) (\<lambda>_.
       Inr \<lparr>sd_stream = stream, sd_sequence = sequence, sd_bytes = bs\<rparr>)"

definition stream_data_validate :: "RuntimeStreamData \<Rightarrow> ProtocolLimits \<Rightarrow> unit rp_result" where
  "stream_data_validate d limits = validate_stream_data (sd_sequence d) (sd_bytes d) limits"

datatype RuntimeShutdownReason = ApplicationExitReason | HostShutdown | WorkerShutdown | PolicyRevoked

record RuntimeShutdown =
  sh_reason :: RuntimeShutdownReason

subsection \<open>Deserialization\<close>

definition runtime_hello_deserialize ::
    "('d \<Rightarrow> 'de + RuntimeId \<times> AppInstanceId \<times> (string \<times> string) \<times> ((u16 \<times> u16) \<times> u16 \<times> u16) \<times>
       bytes \<times> ProtocolFeatures \<times> ProtocolLimits) \<Rightarrow> (IdentifierError \<Rightarrow> 'de) \<Rightarrow>
     (RuntimeProtocolContractError \<Rightarrow> 'de) \<Rightarrow> 'd \<Rightarrow> 'de + RuntimeHello" where
  "runtime_hello_deserialize raw custom_id custom d =
     rbind (raw d) (\<lambda>(runtime, app, raw_backend, raw_range, nonce_proof, capabilities, limits).
     rbind (backend_identity_deserialize Inr custom_id custom raw_backend) (\<lambda>backend.
     rbind (version_range_deserialize Inr custom raw_range) (\<lambda>range.
     map_err custom (runtime_hello_new runtime app backend range nonce_proof capabilities limits))))"

definition runtime_welcome_deserialize ::
    "('d \<Rightarrow> 'de + ProtocolSessionId \<times> (u16 \<times> u16) \<times> ProtocolLimits \<times> CompatibilityAnalysisDigest \<times>
       (u32 \<times> u32) \<times> ProtocolFeatures) \<Rightarrow>
     (RuntimeProtocolContractError \<Rightarrow> 'de) \<Rightarrow> 'd \<Rightarrow> 'de + RuntimeWelcome" where
  "runtime_welcome_deserialize raw custom d =
     rbind (raw d) (\<lambda>(session, raw_version, limits, compatibility, raw_heartbeat, features).
     rbind (protocol_version_deserialize Inr custom raw_version) (\<lambda>version.
     rbind (heartbeat_deserialize Inr custom raw_heartbeat) (\<lambda>heartbeat.
     map_err custom (runtime_welcome_new session version limits compatibility heartbeat features))))"

definition protocol_reject_deserialize ::
    "('d \<Rightarrow> 'de + ProtocolRejectCode \<times> string) \<Rightarrow> (RuntimeProtocolContractError \<Rightarrow> 'de) \<Rightarrow> 'd \<Rightarrow>
     'de + ProtocolReject" where
  "protocol_reject_deserialize raw custom d =
     rbind (raw d) (\<lambda>(code, detail). map_err custom (protocol_reject_new code detail))"

definition runtime_call_deserialize ::
    "allocator \<Rightarrow> ('d \<Rightarrow> 'de + CallTarget \<times> string \<times> WireValue list \<times> CallContext) \<Rightarrow>
     (RuntimeProtocolContractError \<Rightarrow> 'de) \<Rightarrow> 'd \<Rightarrow> 'de + RuntimeCall" where
  "runtime_call_deserialize alloc raw custom d =
     rbind (raw d) (\<lambda>(raw_target, method, args, context).
     rbind (call_target_deserialize custom raw_target) (\<lambda>target.
     map_err custom (runtime_call_new alloc target method args context secure_default)))"

definition call_result_deserialize ::
    "allocator \<Rightarrow> ('d \<Rightarrow> 'de + WireValue) \<Rightarrow> (RuntimeProtocolContractError \<Rightarrow> 'de) \<Rightarrow> 'd \<Rightarrow>
     'de + RuntimeCallResult" where
  "call_result_deserialize alloc raw custom d =
     rbind (raw d) (\<lambda>v. map_err custom (call_result_new alloc v secure_default))"

definition call_error_deserialize ::
    "allocator \<Rightarrow> ('d \<Rightarrow> 'de + WireError) \<Rightarrow> (RuntimeProtocolContractError \<Rightarrow> 'de) \<Rightarrow> 'd \<Rightarrow>
     'de + RuntimeCallError" where
  "call_error_deserialize alloc raw custom d =
     rbind (raw d) (\<lambda>e. map_err custom (call_error_new alloc e secure_default))"

definition runtime_cancel_deserialize ::
    "('d \<Rightarrow> 'de + u64) \<Rightarrow> (RuntimeProtocolContractError \<Rightarrow> 'de) \<Rightarrow> 'd \<Rightarrow> 'de + RuntimeCancel" where
  "runtime_cancel_deserialize raw custom d =
     rbind (raw d) (\<lambda>request_id. map_err custom (runtime_cancel_new request_id))"

definition runtime_event_deserialize ::
    "allocator \<Rightarrow> ('d \<Rightarrow> 'de + string \<times> WireValue list) \<Rightarrow> (RuntimeProtocolContractError \<Rightarrow> 'de) \<Rightarrow> 'd \<Rightarrow>
     'de + RuntimeEvent" where
  "runtime_event_deserialize alloc raw custom d =
     rbind (raw d) (\<lambda>(name, args). map_err custom (runtime_event_new alloc name args secure_default))"

definition stream_open_deserialize ::
    "('d \<Rightarrow> 'de + OpaqueHandle \<times> u64) \<Rightarrow> (RuntimeProtocolContractError \<Rightarrow> 'de) \<Rightarrow> 'd \<Rightarrow>
     'de + RuntimeStreamOpen" where
  "stream_open_deserialize raw custom d =
     rbind (raw d) (\<lambda>(stream, credit). map_err custom (stream_open_new stream credit))"

definition stream_window_deserialize ::
    "('d \<Rightarrow> 'de + OpaqueHandle \<times> u64) \<Rightarrow> (RuntimeProtocolContractError \<Rightarrow> 'de) \<Rightarrow> 'd \<Rightarrow>
     'de + RuntimeStreamWindow" where
  "stream_window_deserialize raw custom d =
     rbind (raw d) (\<lambda>(stream, credit). map_err custom (stream_window_new stream credit))"

definition stream_data_deserialize ::
    "('d \<Rightarrow> 'de + OpaqueHandle \<times> u64 \<times> bytes) \<Rightarrow> (RuntimeProtocolContractError \<Rightarrow> 'de) \<Rightarrow> 'd \<Rightarrow>
     'de + RuntimeStreamData" where
  "stream_data_deserialize raw custom d =
     rbind (raw d) (\<lambda>(stream, sequence, bs).
       map_err custom (stream_data_new stream sequence bs secure_default))"

subsection \<open>What a validated message guarantees\<close>

definition heartbeat_wf :: "HeartbeatPolicy \<Rightarrow> bool" where
  "heartbeat_wf h \<longleftrightarrow> 0 < hb_interval_millis h \<and> hb_interval_millis h \<le> hb_timeout_millis h \<and>
     hb_timeout_millis h \<le> MAX_PROTOCOL_HEARTBEAT_MILLIS"

definition hello_wf :: "RuntimeHello \<Rightarrow> bool" where
  "hello_wf h \<longleftrightarrow> backend_wf (rh_backend h) \<and> range_wf (rh_protocol_range h) \<and>
     rh_nonce_proof h \<noteq> replicate 32 0 \<and> limits_positive (rh_requested_limits h)"

definition welcome_wf :: "RuntimeWelcome \<Rightarrow> bool" where
  "welcome_wf w \<longleftrightarrow> version_wf (rw_version w) \<and> heartbeat_wf (rw_heartbeat w) \<and>
     limits_positive (rw_limits w)"

definition context_ok :: "ProtocolLimits \<Rightarrow> CallContext \<Rightarrow> bool" where
  "context_ok l ctx \<longleftrightarrow>
     pred_option (\<lambda>d. 0 < d \<and> d \<le> MAX_PROTOCOL_CALL_DEADLINE_MILLIS) (cc_deadline_ms ctx) \<and>
     pred_option (\<lambda>f. cc_renderer ctx = Some (fi_renderer f) \<and>
       oi_serialized (fi_origin f) \<noteq> [] \<and> text_ok l (oi_serialized (fi_origin f))) (cc_frame ctx) \<and>
     pred_option (\<lambda>w. cc_frame ctx = Some (wi_frame w) \<and>
       (case wi_kind w of BackendSpecific k \<Rightarrow> k \<noteq> [] \<and> text_ok l k | _ \<Rightarrow> True)) (cc_world ctx)"

fun target_ok :: "ProtocolLimits \<Rightarrow> AppInstanceId \<Rightarrow> CallTarget \<Rightarrow> bool" where
  "target_ok l app (CtService name) \<longleftrightarrow>
     name \<noteq> [] \<and> text_ok l name \<and> length name \<le> MAX_PROTOCOL_SERVICE_NAME_BYTES"
| "target_ok l app (CtObject h) \<longleftrightarrow> oh_app h = app"
| "target_ok l app (CtRuntime r) \<longleftrightarrow> True"

definition graph_ok :: "ProtocolLimits \<Rightarrow> AppInstanceId option \<Rightarrow> WireValue list \<Rightarrow> bool" where
  "graph_ok l app roots \<longleftrightarrow> limits_positive l \<and> wv_all_ok l app roots \<and>
     wv_nodes roots \<le> unat (max_graph_nodes l) \<and> wv_depth roots \<le> unat (max_object_depth l) \<and>
     wv_handles roots \<le> unat (max_remote_handles l)"

definition call_ok :: "ProtocolLimits \<Rightarrow> RuntimeCall \<Rightarrow> bool" where
  "call_ok l call \<longleftrightarrow> target_ok l (cc_app (rc_context call)) (rc_target call) \<and>
     rc_method call \<noteq> [] \<and> text_ok l (rc_method call) \<and> context_ok l (rc_context call) \<and>
     graph_ok l (Some (cc_app (rc_context call))) (rc_args call)"

lemma graph_spec_ok: "graph_spec l app roots b \<Longrightarrow> graph_ok l app roots"
  by (simp add: graph_spec_def graph_ok_def)

lemma graph_ok_spec: "graph_ok l app roots \<Longrightarrow> \<exists>b. graph_spec l app roots b"
proof -
  assume g: "graph_ok l app roots"
  let ?b = "\<lparr>wb_nodes = of_nat (wv_nodes roots), wb_maximum_depth = of_nat (wv_depth roots),
    wb_remote_handles = of_nat (wv_handles roots)\<rparr> :: WireValueBudget"
  have "graph_spec l app roots ?b"
    using g unfolding graph_ok_def graph_spec_def
    by (simp add: unat_of_nat_le [of _ "max_graph_nodes l"] unat_of_nat_le [of _ "max_object_depth l"]
        unat_of_nat_le [of _ "max_remote_handles l"])
  then show ?thesis ..
qed

lemma graph_validated:
  "validate_wire_value_graph_with_app alloc roots l app = Inr b \<Longrightarrow> graph_ok l app roots"
  using graph_walk_sound graph_spec_ok by blast

lemma graph_accepts:
  "(\<And>a n. alloc a n) \<Longrightarrow> graph_ok l app roots \<Longrightarrow>
     \<exists>b. validate_wire_value_graph_with_app alloc roots l app = Inr b"
  using graph_walk_complete [of alloc l app roots] graph_ok_spec [of l app roots] by fast

lemma call_target_validate_Inr:
  "call_target_validate t l app = Inr u \<longleftrightarrow> target_ok l app t"
  by (cases t) (auto simp: text_ok_def)

lemma validate_call_context_Inr: "validate_call_context ctx l = Inr u \<longleftrightarrow> context_ok l ctx"
proof -
  have d: "(case cc_deadline_ms ctx of None \<Rightarrow> Inr () | Some d \<Rightarrow>
        if d = 0 then Inl RpZeroCallDeadline
        else if d > MAX_PROTOCOL_CALL_DEADLINE_MILLIS then Inl RpCallDeadlineExceeded
        else Inr ()) = Inr () \<longleftrightarrow>
      pred_option (\<lambda>d. 0 < d \<and> d \<le> MAX_PROTOCOL_CALL_DEADLINE_MILLIS) (cc_deadline_ms ctx)"
    by (cases "cc_deadline_ms ctx") (auto simp: word_neq_0_conv not_less)
  show ?thesis
    unfolding validate_call_context_def context_ok_def text_ok_def
    by (cases "cc_frame ctx"; cases "cc_renderer ctx"; cases "cc_world ctx")
      (auto simp: rbind_Inr_iff d split: ScriptWorldKind.splits if_splits)
qed

lemma runtime_call_validate_sound: "runtime_call_validate alloc call l = Inr u \<Longrightarrow> call_ok l call"
  by (auto simp: runtime_call_validate_def rbind_Inr_iff call_ok_def call_target_validate_Inr
      validate_call_context_Inr text_ok_def validate_wire_value_graph_for_app_def
      dest: graph_validated)

lemma runtime_call_validate_complete:
  assumes "\<And>a n. alloc a n" and "call_ok l call"
  shows "runtime_call_validate alloc call l = Inr ()"
proof -
  let ?app = "cc_app (rc_context call)"
  have g: "graph_ok l (Some ?app) (rc_args call)"
    using assms(2) by (simp add: call_ok_def)
  obtain b where b: "validate_wire_value_graph_with_app alloc (rc_args call) l (Some ?app) = Inr b"
    using graph_accepts [of alloc, OF assms(1) g] by blast
  have "limits_validate l = Inr ()"
    using g by (simp add: graph_ok_def)
  moreover have "call_target_validate (rc_target call) l ?app = Inr ()"
    "validate_text ''call method'' (rc_method call) (unat (max_string_bytes l)) = Inr ()"
    "validate_call_context (rc_context call) l = Inr ()"
    using assms(2) by (simp_all add: call_ok_def call_target_validate_Inr validate_call_context_Inr text_ok_def)
  ultimately show ?thesis
    by (simp add: runtime_call_validate_def validate_wire_value_graph_for_app_def b rbind_Inr_iff)
qed

text \<open>
  A call is constructed exactly when it satisfies its contract: usable limits, a target
  and a method within the text ceilings, an object target and all handles of the caller's
  own application, a coherent renderer/frame/world context with a bounded deadline, and an
  argument graph within budget. The constructor never changes what it was given, and memory
  exhaustion can only turn acceptance into an error.
\<close>

theorem runtime_call_new_exact:
  "(runtime_call_new alloc t m args ctx l = Inr call \<longrightarrow>
      call = \<lparr>rc_target = t, rc_method = m, rc_args = args, rc_context = ctx\<rparr> \<and> call_ok l call) \<and>
   ((\<forall>a n. alloc a n) \<longrightarrow> call_ok l \<lparr>rc_target = t, rc_method = m, rc_args = args, rc_context = ctx\<rparr> \<longrightarrow>
      runtime_call_new alloc t m args ctx l =
        Inr \<lparr>rc_target = t, rc_method = m, rc_args = args, rc_context = ctx\<rparr>)"
  using runtime_call_validate_complete [of alloc l]
  by (auto simp: runtime_call_new_def rbind_Inr_iff Let_def dest: runtime_call_validate_sound)

theorem runtime_call_new_exact_witness:
  "let ctx = \<lparr>cc_app = 5, cc_renderer = None, cc_frame = None, cc_world = None,
         cc_authority = \<lparr>ca_capability = None, ca_user_activation = None\<rparr>,
         cc_deadline_ms = Some 1000, cc_trace_parent = None\<rparr>;
       call = \<lparr>rc_target = CtService ''fs'', rc_method = ''open'', rc_args = [WvString ''a.txt''],
         rc_context = ctx\<rparr>
   in runtime_call_new (\<lambda>_ _. True) (CtService ''fs'') ''open'' [WvString ''a.txt''] ctx secure_default =
     Inr call"
proof -
  let ?ctx = "\<lparr>cc_app = 5, cc_renderer = None, cc_frame = None, cc_world = None,
         cc_authority = \<lparr>ca_capability = None, ca_user_activation = None\<rparr>,
         cc_deadline_ms = Some 1000, cc_trace_parent = None\<rparr> :: CallContext"
  have "call_ok secure_default \<lparr>rc_target = CtService ''fs'', rc_method = ''open'',
      rc_args = [WvString ''a.txt''], rc_context = ?ctx\<rparr>"
    by (simp add: call_ok_def text_ok_def context_ok_def graph_ok_def secure_default_def wv_node_ok_def
        limits_positive_def MAX_PROTOCOL_SERVICE_NAME_BYTES_def MAX_PROTOCOL_CALL_DEADLINE_MILLIS_def)
  then have "runtime_call_new (\<lambda>_ _. True) (CtService ''fs'') ''open'' [WvString ''a.txt''] ?ctx
      secure_default = Inr \<lparr>rc_target = CtService ''fs'', rc_method = ''open'',
        rc_args = [WvString ''a.txt''], rc_context = ?ctx\<rparr>"
    using runtime_call_new_exact [of "\<lambda>_ _. True" "CtService ''fs''" "''open''" "[WvString ''a.txt'']" ?ctx
        secure_default] by blast
  then show ?thesis
    by (simp only: Let_def)
qed

end
