(* ===== verification/Protocol_Messages.thy ===== *)
theory Protocol_Messages
  imports Runtime_Messages
begin

section \<open>The protocol's messages as one type\<close>

text \<open>
  The twelve implementors of the trait \<open>ProtocolMessage\<close> of
  \<open>weregopher-runtime-protocol/src/codec.rs\<close> are the constructors of the datatype of that
  name, \<open>KIND\<close> and \<open>validate_message\<close> its functions. \<open>message_construct\<close> gathers the
  \<open>Deserialize\<close> implementations: it turns the fields that arrived (\<open>RawMessage\<close>) into a
  message, running the constructors.
\<close>

subsection \<open>Messages and their kinds\<close>

datatype ProtocolMessage =
    MHello RuntimeHello
  | MWelcome RuntimeWelcome
  | MReject ProtocolReject
  | MCall RuntimeCall
  | MCallResult RuntimeCallResult
  | MCallError RuntimeCallError
  | MCancel RuntimeCancel
  | MEvent RuntimeEvent
  | MStreamOpen RuntimeStreamOpen
  | MStreamWindow RuntimeStreamWindow
  | MStreamData RuntimeStreamData
  | MShutdown RuntimeShutdown

fun message_KIND :: "ProtocolMessage \<Rightarrow> MessageKind" where
  "message_KIND (MHello _) = Hello"
| "message_KIND (MWelcome _) = Welcome"
| "message_KIND (MReject _) = Reject"
| "message_KIND (MCall _) = Call"
| "message_KIND (MCallResult _) = CallResult"
| "message_KIND (MCallError _) = CallError"
| "message_KIND (MCancel _) = Cancel"
| "message_KIND (MEvent _) = Event"
| "message_KIND (MStreamOpen _) = StreamOpen"
| "message_KIND (MStreamWindow _) = StreamWindow"
| "message_KIND (MStreamData _) = StreamData"
| "message_KIND (MShutdown _) = Shutdown"

fun validate_message :: "allocator \<Rightarrow> ProtocolMessage \<Rightarrow> ProtocolLimits \<Rightarrow> unit rp_result" where
  "validate_message alloc (MHello m) limits =
     map_err RpLimits (limits_validate (rh_requested_limits m))"
| "validate_message alloc (MWelcome m) limits = map_err RpLimits (limits_validate (rw_limits m))"
| "validate_message alloc (MReject m) limits = Inr ()"
| "validate_message alloc (MCall m) limits = runtime_call_validate alloc m limits"
| "validate_message alloc (MCallResult m) limits = call_result_validate alloc m limits"
| "validate_message alloc (MCallError m) limits = call_error_validate alloc m limits"
| "validate_message alloc (MCancel m) limits = Inr ()"
| "validate_message alloc (MEvent m) limits = runtime_event_validate alloc m limits"
| "validate_message alloc (MStreamOpen m) limits = Inr ()"
| "validate_message alloc (MStreamWindow m) limits = Inr ()"
| "validate_message alloc (MStreamData m) limits = stream_data_validate m limits"
| "validate_message alloc (MShutdown m) limits = Inr ()"

text \<open>The fields of each message as they are on the wire, before any constructor ran.\<close>

datatype RawMessage =
    RawHello "RuntimeId \<times> AppInstanceId \<times> (string \<times> string) \<times> ((u16 \<times> u16) \<times> u16 \<times> u16) \<times>
      bytes \<times> ProtocolFeatures \<times> ProtocolLimits"
  | RawWelcome "ProtocolSessionId \<times> (u16 \<times> u16) \<times> ProtocolLimits \<times> CompatibilityAnalysisDigest \<times>
      (u32 \<times> u32) \<times> ProtocolFeatures"
  | RawReject "ProtocolRejectCode \<times> string"
  | RawCall "CallTarget \<times> string \<times> WireValue list \<times> CallContext"
  | RawCallResult WireValue
  | RawCallError WireError
  | RawCancel u64
  | RawEvent "string \<times> WireValue list"
  | RawStreamOpen "OpaqueHandle \<times> u64"
  | RawStreamWindow "OpaqueHandle \<times> u64"
  | RawStreamData "OpaqueHandle \<times> u64 \<times> bytes"
  | RawShutdown RuntimeShutdownReason

definition map_ok :: "('a \<Rightarrow> 'b) \<Rightarrow> 'e + 'a \<Rightarrow> 'e + 'b" where
  "map_ok f m = rbind m (\<lambda>x. Inr (f x))"

fun message_construct ::
    "allocator \<Rightarrow> (IdentifierError \<Rightarrow> 'de) \<Rightarrow> (RuntimeProtocolContractError \<Rightarrow> 'de) \<Rightarrow> RawMessage \<Rightarrow>
     'de + ProtocolMessage" where
  "message_construct alloc cid custom (RawHello r) =
     map_ok MHello (runtime_hello_deserialize Inr cid custom r)"
| "message_construct alloc cid custom (RawWelcome r) =
     map_ok MWelcome (runtime_welcome_deserialize Inr custom r)"
| "message_construct alloc cid custom (RawReject r) =
     map_ok MReject (protocol_reject_deserialize Inr custom r)"
| "message_construct alloc cid custom (RawCall r) =
     map_ok MCall (runtime_call_deserialize alloc Inr custom r)"
| "message_construct alloc cid custom (RawCallResult r) =
     map_ok MCallResult (call_result_deserialize alloc Inr custom r)"
| "message_construct alloc cid custom (RawCallError r) =
     map_ok MCallError (call_error_deserialize alloc Inr custom r)"
| "message_construct alloc cid custom (RawCancel r) =
     map_ok MCancel (runtime_cancel_deserialize Inr custom r)"
| "message_construct alloc cid custom (RawEvent r) =
     map_ok MEvent (runtime_event_deserialize alloc Inr custom r)"
| "message_construct alloc cid custom (RawStreamOpen r) =
     map_ok MStreamOpen (stream_open_deserialize Inr custom r)"
| "message_construct alloc cid custom (RawStreamWindow r) =
     map_ok MStreamWindow (stream_window_deserialize Inr custom r)"
| "message_construct alloc cid custom (RawStreamData r) =
     map_ok MStreamData (stream_data_deserialize Inr custom r)"
| "message_construct alloc cid custom (RawShutdown r) = Inr (MShutdown \<lparr>sh_reason = r\<rparr>)"

text \<open>The inverse direction: the wire fields of a message.\<close>

definition version_raw :: "ProtocolVersion \<Rightarrow> u16 \<times> u16" where
  "version_raw v = (pv_major v, pv_minor v)"

fun message_raw :: "ProtocolMessage \<Rightarrow> RawMessage" where
  "message_raw (MHello m) = RawHello (rh_runtime m, rh_app m,
     (rb_id (rh_backend m), rb_version (rh_backend m)),
     (version_raw (vr_minimum (rh_protocol_range m)), version_raw (vr_maximum (rh_protocol_range m))),
     rh_nonce_proof m, rh_capabilities m, rh_requested_limits m)"
| "message_raw (MWelcome m) = RawWelcome (rw_session m, version_raw (rw_version m), rw_limits m,
     rw_compatibility m, (hb_interval_millis (rw_heartbeat m), hb_timeout_millis (rw_heartbeat m)),
     rw_features m)"
| "message_raw (MReject m) = RawReject (pr_code m, pr_detail m)"
| "message_raw (MCall m) = RawCall (rc_target m, rc_method m, rc_args m, rc_context m)"
| "message_raw (MCallResult m) = RawCallResult (rr_value m)"
| "message_raw (MCallError m) = RawCallError (re_error m)"
| "message_raw (MCancel m) = RawCancel (rx_request_id m)"
| "message_raw (MEvent m) = RawEvent (ev_name m, ev_args m)"
| "message_raw (MStreamOpen m) = RawStreamOpen (so_stream m, so_initial_credit m)"
| "message_raw (MStreamWindow m) = RawStreamWindow (sw_stream m, sw_additional_credit m)"
| "message_raw (MStreamData m) = RawStreamData (sd_stream m, sd_sequence m, sd_bytes m)"
| "message_raw (MShutdown m) = RawShutdown (sh_reason m)"

subsection \<open>Which messages a constructor can produce\<close>

definition stream_data_ok :: "ProtocolLimits \<Rightarrow> u64 \<Rightarrow> bytes \<Rightarrow> bool" where
  "stream_data_ok l q bs \<longleftrightarrow> limits_positive l \<and> q \<noteq> 0 \<and> bs \<noteq> [] \<and>
     length bs \<le> unat (max_inline_buffer_bytes l)"

fun message_ok :: "ProtocolLimits \<Rightarrow> ProtocolMessage \<Rightarrow> bool" where
  "message_ok l (MHello m) \<longleftrightarrow> hello_wf m \<and> schema_pattern (rb_id (rh_backend m))"
| "message_ok l (MWelcome m) \<longleftrightarrow> welcome_wf m"
| "message_ok l (MReject m) \<longleftrightarrow>
     pr_detail m \<noteq> [] \<and> length (pr_detail m) \<le> MAX_PROTOCOL_REJECT_DETAIL_BYTES"
| "message_ok l (MCall m) \<longleftrightarrow> call_ok l m"
| "message_ok l (MCallResult m) \<longleftrightarrow> graph_ok l None [rr_value m]"
| "message_ok l (MCallError m) \<longleftrightarrow> graph_ok l None [WvError (re_error m)]"
| "message_ok l (MCancel m) \<longleftrightarrow> rx_request_id m \<noteq> 0"
| "message_ok l (MEvent m) \<longleftrightarrow> ev_name m \<noteq> [] \<and> text_ok l (ev_name m) \<and> graph_ok l None (ev_args m)"
| "message_ok l (MStreamOpen m) \<longleftrightarrow> so_initial_credit m \<noteq> 0"
| "message_ok l (MStreamWindow m) \<longleftrightarrow> sw_additional_credit m \<noteq> 0"
| "message_ok l (MStreamData m) \<longleftrightarrow> stream_data_ok l (sd_sequence m) (sd_bytes m)"
| "message_ok l (MShutdown m) \<longleftrightarrow> True"

lemma map_ok_Inr [simp]: "map_ok f m = Inr y \<longleftrightarrow> (\<exists>x. m = Inr x \<and> y = f x)"
  by (auto simp: map_ok_def rbind_Inr_iff)

lemma limits_err [simp]: "map_err g (limits_validate l) = Inr u \<longleftrightarrow> limits_positive l"
  by simp

lemma version_deserialize_Inr [simp]:
  "protocol_version_deserialize Inr custom r = Inr v \<longleftrightarrow> version_wf v \<and> version_raw v = r"
  by (cases v; cases r) (auto simp: protocol_version_deserialize_def version_raw_def)

lemma range_deserialize_Inr [simp]:
  "version_range_deserialize Inr custom r = Inr x \<longleftrightarrow>
     range_wf x \<and> (version_raw (vr_minimum x), version_raw (vr_maximum x)) = r"
    (is "?L \<longleftrightarrow> ?R")
proof
  assume ?L
  then show ?R
    by (cases r) (auto simp: version_range_deserialize_def rbind_Inr_iff version_range_new_wf)
next
  assume ?R
  then have "protocol_version_deserialize Inr custom (fst r) = Inr (vr_minimum x)"
    "protocol_version_deserialize Inr custom (snd r) = Inr (vr_maximum x)"
    "version_range_new (vr_minimum x) (vr_maximum x) = Inr x"
    by (auto simp: range_wf_def version_range_new_def)
  then show ?L
    by (cases r) (simp add: version_range_deserialize_def del: version_deserialize_Inr)
qed

lemma backend_deserialize_Inr [simp]:
  "backend_identity_deserialize Inr cid custom r = Inr b \<longleftrightarrow>
     backend_wf b \<and> schema_pattern (rb_id b) \<and> (rb_id b, rb_version b) = r"
  by (cases b; cases r)
    (auto simp: backend_identity_deserialize_def rbind_Inr_iff stable_name_iff
      backend_identity_new_def backend_wf_def)

lemma heartbeat_deserialize_Inr [simp]:
  "heartbeat_deserialize Inr custom r = Inr h \<longleftrightarrow>
     heartbeat_wf h \<and> (hb_interval_millis h, hb_timeout_millis h) = r"
proof (cases h; cases r)
  fix a b x y
  assume "h = \<lparr>hb_interval_millis = a, hb_timeout_millis = b\<rparr>" "r = (x, y)"
  moreover have "0 < a \<Longrightarrow> a \<le> b \<Longrightarrow> b \<noteq> 0"
    by (metis not_less word_gt_0 word_not_simps(1))
  ultimately show ?thesis
    by (auto simp: heartbeat_deserialize_def heartbeat_new_def heartbeat_wf_def word_gt_0)
qed

lemma hello_deserialize_Inr [simp]:
  "runtime_hello_deserialize Inr cid custom r = Inr h \<longleftrightarrow>
     hello_wf h \<and> schema_pattern (rb_id (rh_backend h)) \<and> message_raw (MHello h) = RawHello r"
  by (cases h; cases r)
    (auto simp: runtime_hello_deserialize_def rbind_Inr_iff runtime_hello_new_def hello_wf_def
      split: if_splits)

lemma welcome_deserialize_Inr [simp]:
  "runtime_welcome_deserialize Inr custom r = Inr w \<longleftrightarrow>
     welcome_wf w \<and> message_raw (MWelcome w) = RawWelcome r"
  by (cases w; cases r)
    (auto simp: runtime_welcome_deserialize_def rbind_Inr_iff runtime_welcome_new_def welcome_wf_def)

lemma reject_deserialize_Inr [simp]:
  "protocol_reject_deserialize Inr custom a = Inr r \<longleftrightarrow> pr_detail r \<noteq> [] \<and>
     length (pr_detail r) \<le> MAX_PROTOCOL_REJECT_DETAIL_BYTES \<and> (pr_code r, pr_detail r) = a"
  by (cases r; cases a) (auto simp: protocol_reject_deserialize_def protocol_reject_new_def rbind_Inr_iff)

lemma cancel_deserialize_Inr [simp]:
  "runtime_cancel_deserialize Inr custom i = Inr c \<longleftrightarrow> rx_request_id c \<noteq> 0 \<and> rx_request_id c = i"
  by (cases c) (auto simp: runtime_cancel_deserialize_def runtime_cancel_new_def)

lemma stream_open_deserialize_Inr [simp]:
  "stream_open_deserialize Inr custom p = Inr x \<longleftrightarrow>
     so_initial_credit x \<noteq> 0 \<and> (so_stream x, so_initial_credit x) = p"
  by (cases x; cases p) (auto simp: stream_open_deserialize_def stream_open_new_def)

lemma stream_window_deserialize_Inr [simp]:
  "stream_window_deserialize Inr custom p = Inr x \<longleftrightarrow>
     sw_additional_credit x \<noteq> 0 \<and> (sw_stream x, sw_additional_credit x) = p"
  by (cases x; cases p) (auto simp: stream_window_deserialize_def stream_window_new_def)

lemma stream_data_validate_Inr [simp]:
  "validate_stream_data q bs l = Inr u \<longleftrightarrow> stream_data_ok l q bs"
  by (auto simp: validate_stream_data_def stream_data_ok_def rbind_Inr_iff)

lemma stream_data_deserialize_Inr [simp]:
  "stream_data_deserialize Inr custom p = Inr x \<longleftrightarrow>
     stream_data_ok secure_default (sd_sequence x) (sd_bytes x) \<and> (sd_stream x, sd_sequence x, sd_bytes x) = p"
  by (cases x; cases p) (auto simp: stream_data_deserialize_def stream_data_new_def rbind_Inr_iff)

text \<open>
  The four kinds that carry a value graph can also fail for lack of memory, so each has a
  direction for soundness and one for acceptance.
\<close>

lemma graph_messages_sound:
  "call_result_validate alloc m l = Inr u \<Longrightarrow> message_ok l (MCallResult m)"
  "call_error_validate alloc e l = Inr u \<Longrightarrow> message_ok l (MCallError e)"
  "runtime_event_validate alloc ev l = Inr u \<Longrightarrow> message_ok l (MEvent ev)"
  by (auto simp: call_result_validate_def call_error_validate_def runtime_event_validate_def
      validate_wire_value_graph_def rbind_Inr_iff text_ok_def dest: graph_validated)

lemma graph_messages_complete:
  assumes "\<And>a n. alloc a n"
  shows "message_ok l (MCallResult m) \<Longrightarrow> call_result_validate alloc m l = Inr ()"
    and "message_ok l (MCallError e) \<Longrightarrow> call_error_validate alloc e l = Inr ()"
    and "message_ok l (MEvent ev) \<Longrightarrow> runtime_event_validate alloc ev l = Inr ()"
  using graph_accepts [of alloc l None, OF assms]
  by (auto simp: call_result_validate_def call_error_validate_def runtime_event_validate_def
      validate_wire_value_graph_def rbind_Inr_iff text_ok_def)

lemma validate_message_sound:
  "validate_message alloc m l = Inr u \<Longrightarrow> message_ok l m \<or> (\<exists>h. m = MHello h) \<or> (\<exists>w. m = MWelcome w) \<or>
     message_KIND m \<in> {Reject, Cancel, StreamOpen, StreamWindow}"
  using graph_messages_sound runtime_call_validate_sound
  by (cases m) (auto simp: stream_data_validate_def simp del: message_ok.simps(5,6,8))

lemma validate_message_complete:
  assumes "\<And>a n. alloc a n" and "message_ok l m"
  shows "validate_message alloc m l = Inr ()"
  using assms(2) graph_messages_complete [of alloc l, OF assms(1)]
    runtime_call_validate_complete [of alloc l, OF assms(1)]
  by (cases m) (auto simp: stream_data_validate_def hello_wf_def welcome_wf_def)

lemma target_deserialize_Inr:
  "call_target_deserialize custom t = Inr t' \<longleftrightarrow>
     t' = t \<and> (case t of CtService name \<Rightarrow> name \<noteq> [] \<and> length name \<le> MAX_PROTOCOL_SERVICE_NAME_BYTES
       | _ \<Rightarrow> True)"
  by (cases t) (auto simp: call_target_service_def rbind_Inr_iff)

lemma call_deserialize_sound:
  "runtime_call_deserialize alloc Inr custom r = Inr c \<Longrightarrow>
     call_ok secure_default c \<and> message_raw (MCall c) = RawCall r"
  by (cases r) (auto simp: runtime_call_deserialize_def rbind_Inr_iff target_deserialize_Inr
      runtime_call_new_def Let_def dest: runtime_call_validate_sound)

lemma call_deserialize_complete:
  assumes "\<And>a n. alloc a n" and "call_ok secure_default c"
  shows "runtime_call_deserialize alloc Inr custom (rc_target c, rc_method c, rc_args c, rc_context c) = Inr c"
proof -
  have "call_target_deserialize custom (rc_target c) = Inr (rc_target c)"
    using assms(2) unfolding target_deserialize_Inr call_ok_def by (cases "rc_target c") auto
  moreover have "runtime_call_validate alloc c secure_default = Inr ()"
    using runtime_call_validate_complete [of alloc, OF assms] .
  ultimately show ?thesis
    by (cases c) (simp add: runtime_call_deserialize_def runtime_call_new_def Let_def)
qed

lemma graph_deserialize_sound:
  "call_result_deserialize alloc Inr custom v = Inr r \<Longrightarrow>
     message_ok secure_default (MCallResult r) \<and> rr_value r = v"
  "call_error_deserialize alloc Inr custom e = Inr x \<Longrightarrow>
     message_ok secure_default (MCallError x) \<and> re_error x = e"
  "runtime_event_deserialize alloc Inr custom p = Inr ev \<Longrightarrow>
     message_ok secure_default (MEvent ev) \<and> (ev_name ev, ev_args ev) = p"
proof -
  show "call_result_deserialize alloc Inr custom v = Inr r \<Longrightarrow>
     message_ok secure_default (MCallResult r) \<and> rr_value r = v"
    "call_error_deserialize alloc Inr custom e = Inr x \<Longrightarrow>
     message_ok secure_default (MCallError x) \<and> re_error x = e"
    by (auto simp: call_result_deserialize_def call_result_new_def call_error_deserialize_def
        call_error_new_def validate_wire_value_graph_def rbind_Inr_iff dest: graph_validated)
  show "runtime_event_deserialize alloc Inr custom p = Inr ev \<Longrightarrow>
     message_ok secure_default (MEvent ev) \<and> (ev_name ev, ev_args ev) = p"
    using graph_messages_sound(3)
    by (cases p) (auto simp: runtime_event_deserialize_def runtime_event_new_def rbind_Inr_iff Let_def
        simp del: message_ok.simps)
qed

lemma graph_deserialize_complete:
  assumes all: "\<And>a n. alloc a n"
  shows "message_ok secure_default (MCallResult r) \<Longrightarrow>
      call_result_deserialize alloc Inr custom (rr_value r) = Inr r"
    and "message_ok secure_default (MCallError x) \<Longrightarrow>
      call_error_deserialize alloc Inr custom (re_error x) = Inr x"
    and "message_ok secure_default (MEvent ev) \<Longrightarrow>
      runtime_event_deserialize alloc Inr custom (ev_name ev, ev_args ev) = Inr ev"
proof -
  note g = graph_accepts [of alloc secure_default None, OF all]
  show "message_ok secure_default (MCallResult r) \<Longrightarrow>
      call_result_deserialize alloc Inr custom (rr_value r) = Inr r"
    using g [of "[rr_value r]"]
    by (auto simp: call_result_deserialize_def call_result_new_def validate_wire_value_graph_def rbind_Inr_iff)
  show "message_ok secure_default (MCallError x) \<Longrightarrow>
      call_error_deserialize alloc Inr custom (re_error x) = Inr x"
    using g [of "[WvError (re_error x)]"]
    by (auto simp: call_error_deserialize_def call_error_new_def validate_wire_value_graph_def rbind_Inr_iff)
  show "message_ok secure_default (MEvent ev) \<Longrightarrow>
      runtime_event_deserialize alloc Inr custom (ev_name ev, ev_args ev) = Inr ev"
    using graph_messages_complete(3) [of alloc secure_default ev, OF all]
    by (cases ev) (simp add: runtime_event_deserialize_def runtime_event_new_def Let_def)
qed

lemma message_construct_sound:
  "message_construct alloc cid custom r = Inr m \<Longrightarrow> message_ok secure_default m \<and> message_raw m = r"
  by (cases r) (auto simp del: message_ok.simps(5,6,8) dest: graph_deserialize_sound call_deserialize_sound)

lemma message_construct_complete:
  assumes "\<And>a n. alloc a n" and "message_ok secure_default m"
  shows "message_construct alloc cid custom (message_raw m) = Inr m"
  using assms(2) graph_deserialize_complete [of alloc, OF assms(1)]
    call_deserialize_complete [of alloc, OF assms(1)]
  by (cases m) (auto simp del: message_ok.simps(5,6,8))

text \<open>
  C35: deserialization is closed. Whatever fields arrive on the wire, a message that its
  \<open>Deserialize\<close> implementation lets through satisfies every relationship of its contract
  under the secure default limits (identifier grammar, version range, nonzero nonce proof,
  heartbeat bounds, call context, value graph, nonzero credits and sequences) and has exactly
  the fields that arrived; and, memory permitting, every such message is let through.
\<close>

theorem message_construct_exact:
  "(message_construct alloc cid custom r = Inr m \<longrightarrow> message_ok secure_default m \<and> message_raw m = r) \<and>
   ((\<forall>a n. alloc a n) \<longrightarrow> message_ok secure_default m \<longrightarrow>
      message_construct alloc cid custom (message_raw m) = Inr m)"
  using message_construct_sound message_construct_complete by blast

theorem message_construct_exact_witness:
  "message_construct (\<lambda>_ _. True) (\<lambda>_. 0 :: nat) (\<lambda>_. 1) (RawStreamData (opaque_handle_new 5 1 0, 3, [1, 2])) =
     Inr (MStreamData \<lparr>sd_stream = opaque_handle_new 5 1 0, sd_sequence = 3, sd_bytes = [1, 2]\<rparr>)"
proof -
  let ?m = "MStreamData \<lparr>sd_stream = opaque_handle_new 5 1 0, sd_sequence = 3, sd_bytes = [1, 2]\<rparr>"
  have "message_ok secure_default ?m"
    by (simp add: stream_data_ok_def) (simp add: secure_default_def)
  then have "message_construct (\<lambda>_ _. True) (\<lambda>_. 0 :: nat) (\<lambda>_. 1) (message_raw ?m) = Inr ?m"
    using message_construct_exact [of "\<lambda>_ _. True" "\<lambda>_. 0" "\<lambda>_. 1" "message_raw ?m" ?m] by blast
  then show ?thesis by simp
qed

end
