(* ===== verification/Framing.thy ===== *)
theory Framing
  imports MessagePack_Exact Protocol_Messages
begin

section \<open>Framed transport\<close>

text \<open>
  \<open>FramedWriter\<close> and \<open>FramedReader\<close> of \<open>weregopher-runtime-protocol/src/codec.rs\<close>.

  Parameters: \<open>encode\<close> is \<open>rmp_serde::encode::write_named\<close>, given by the chunks it writes
  and the error it may end with; \<open>raw\<close> is the derived MessagePack decoder of the
  \<open>Raw...\<close> struct of a message kind; \<open>write_all\<close> and \<open>read_exact\<close> are the transport's; \<open>alloc\<close>
  says which \<open>try_reserve\<close> calls succeed. \<open>send\<close> and \<open>receive\<close> are split where the code
  touches the transport: \<open>framed_writer_prepare\<close> is what \<open>send\<close> computes before its two
  writes, \<open>framed_reader_header\<close> and \<open>framed_reader_decode\<close> what \<open>receive\<close> computes
  after each of its two reads.
\<close>

subsection \<open>The bounded payload\<close>

record BoundedPayload =
  bp_bytes :: bytes
  bp_maximum :: usize
  bp_limit_exceeded :: bool

definition bounded_payload_new :: "u32 \<Rightarrow> BoundedPayload" where
  "bounded_payload_new maximum =
     \<lparr>bp_bytes = [], bp_maximum = unat maximum, bp_limit_exceeded = False\<rparr>"

datatype PayloadIoError = LengthOverflowed | ExceedsFrameLimit | PayloadReserveFailed

definition bounded_payload_write ::
    "allocator \<Rightarrow> BoundedPayload \<Rightarrow> bytes \<Rightarrow> (PayloadIoError + usize) \<times> BoundedPayload" where
  "bounded_payload_write alloc p buffer =
     (case checked_add_usize (length (bp_bytes p)) (length buffer) of
        None \<Rightarrow> (Inl LengthOverflowed, p\<lparr>bp_limit_exceeded := True\<rparr>)
      | Some new_length \<Rightarrow>
          if new_length > bp_maximum p then (Inl ExceedsFrameLimit, p\<lparr>bp_limit_exceeded := True\<rparr>)
          else if \<not> alloc (length (bp_bytes p)) (length buffer) then (Inl PayloadReserveFailed, p)
          else (Inr (length buffer), p\<lparr>bp_bytes := bp_bytes p @ buffer\<rparr>))"

text \<open>
  \<open>rmp_serde::encode::write_named\<close> on the payload: it writes its chunks one after the other
  and stops at the first failed write; \<open>write_all\<close> makes no call for an empty chunk.
\<close>

datatype 'ee EncodeError = EncodeIo PayloadIoError | EncodeOther 'ee

fun write_named ::
    "allocator \<Rightarrow> bytes list \<times> 'ee option \<Rightarrow> BoundedPayload \<Rightarrow> ('ee EncodeError + unit) \<times> BoundedPayload" where
  "write_named alloc ([], None) p = (Inr (), p)"
| "write_named alloc ([], Some e) p = (Inl (EncodeOther e), p)"
| "write_named alloc (chunk # chunks, err) p =
     (if chunk = [] then write_named alloc (chunks, err) p
      else case bounded_payload_write alloc p chunk of
        (Inl e, p') \<Rightarrow> (Inl (EncodeIo e), p')
      | (Inr _, p') \<Rightarrow> write_named alloc (chunks, err) p')"

subsection \<open>Writer\<close>

datatype ('io, 'ee) FrameWriteError =
    FwInvalidLimits ProtocolLimitError
  | FwInvalidMessage RuntimeProtocolContractError
  | FwEncode "'ee EncodeError"
  | FwFrameTooLarge u32
  | FwSequenceExhausted
  | FwIo 'io

record 'w FramedWriter =
  fw_output :: 'w
  fw_version :: ProtocolVersion
  fw_limits :: ProtocolLimits
  fw_next_sequence :: u64

definition framed_writer_new ::
    "'w \<Rightarrow> ProtocolVersion \<Rightarrow> ProtocolLimits \<Rightarrow> ('io, 'ee) FrameWriteError + 'w FramedWriter" where
  "framed_writer_new output version limits =
     rbind (map_err FwInvalidLimits (limits_validate limits)) (\<lambda>_.
       Inr \<lparr>fw_output = output, fw_version = version, fw_limits = limits, fw_next_sequence = 1\<rparr>)"

definition framed_writer_prepare ::
    "allocator \<Rightarrow> (ProtocolMessage \<Rightarrow> bytes list \<times> 'ee option) \<Rightarrow> 'w FramedWriter \<Rightarrow> u64 \<Rightarrow>
     ProtocolMessage \<Rightarrow> ('io, 'ee) FrameWriteError + (FrameHeader \<times> bytes \<times> u64)" where
  "framed_writer_prepare alloc encode w request_id m =
     rbind (map_err FwInvalidMessage (validate_message alloc m (fw_limits w))) (\<lambda>_.
     case write_named alloc (encode m) (bounded_payload_new (max_frame_bytes (fw_limits w))) of
       (Inl e, p) \<Rightarrow>
         if bp_limit_exceeded p then Inl (FwFrameTooLarge (max_frame_bytes (fw_limits w)))
         else Inl (FwEncode e)
     | (Inr _, p) \<Rightarrow>
         rbind (if length (bp_bytes p) < 2 ^ 32 then Inr (of_nat (length (bp_bytes p)))
                else Inl (FwFrameTooLarge (max_frame_bytes (fw_limits w)))) (\<lambda>frame_length.
         rbind (ok_or FwSequenceExhausted (checked_add (fw_next_sequence w) 1)) (\<lambda>next_sequence.
         Inr (frame_header_new frame_length (pv_major (fw_version w)) (pv_minor (fw_version w))
                (message_KIND m) request_id (fw_next_sequence w),
              bp_bytes p, next_sequence))))"

definition framed_writer_send ::
    "allocator \<Rightarrow> ('w \<Rightarrow> bytes \<Rightarrow> ('io + unit) \<times> 'w) \<Rightarrow>
     (ProtocolMessage \<Rightarrow> bytes list \<times> 'ee option) \<Rightarrow> 'w FramedWriter \<Rightarrow> u64 \<Rightarrow> ProtocolMessage \<Rightarrow>
     (('io, 'ee) FrameWriteError + FrameHeader) \<times> 'w FramedWriter" where
  "framed_writer_send alloc write_all encode w request_id m =
     (case framed_writer_prepare alloc encode w request_id m of
        Inl e \<Rightarrow> (Inl e, w)
      | Inr (header, payload, next_sequence) \<Rightarrow>
          (case write_all (fw_output w) (frame_header_encode header) of
             (Inl e, out) \<Rightarrow> (Inl (FwIo e), w\<lparr>fw_output := out\<rparr>)
           | (Inr _, out) \<Rightarrow>
               (case write_all out payload of
                  (Inl e, out') \<Rightarrow> (Inl (FwIo e), w\<lparr>fw_output := out'\<rparr>)
                | (Inr _, out') \<Rightarrow>
                    (Inr header, w\<lparr>fw_output := out', fw_next_sequence := next_sequence\<rparr>))))"

subsection \<open>Reader\<close>

datatype ('io, 'de) FrameReadError =
    FrInvalidLimits ProtocolLimitError
  | FrInvalidHeader FrameHeaderError
  | FrFrameTooLarge u32 u32
  | FrUnexpectedVersion u16 u16 u16 u16
  | FrUnexpectedSequence u64 u64
  | FrUnexpectedMessageKind MessageKind MessageKind
  | FrPayloadAllocationFailed
  | FrInvalidMessagePack MessagePackError
  | FrDecode 'de
  | FrInvalidMessage RuntimeProtocolContractError
  | FrSequenceExhausted
  | FrIo 'io

record 'r FramedReader =
  fr_input :: 'r
  fr_version :: ProtocolVersion
  fr_limits :: ProtocolLimits
  fr_next_sequence :: u64

record ReceivedMessage =
  rm_header :: FrameHeader
  rm_payload :: ProtocolMessage

definition framed_reader_new ::
    "'r \<Rightarrow> ProtocolVersion \<Rightarrow> ProtocolLimits \<Rightarrow> ('io, 'de) FrameReadError + 'r FramedReader" where
  "framed_reader_new input version limits =
     rbind (map_err FrInvalidLimits (limits_validate limits)) (\<lambda>_.
       Inr \<lparr>fr_input = input, fr_version = version, fr_limits = limits, fr_next_sequence = 1\<rparr>)"

text \<open>The checks between the two reads: everything the header alone decides.\<close>

definition framed_reader_header ::
    "'r FramedReader \<Rightarrow> MessageKind \<Rightarrow> bytes \<Rightarrow> ('io, 'de) FrameReadError + FrameHeader" where
  "framed_reader_header r kind header_bytes =
     rbind (map_err FrInvalidHeader (frame_header_decode header_bytes)) (\<lambda>header.
     if frame_length header > max_frame_bytes (fr_limits r)
     then Inl (FrFrameTooLarge (max_frame_bytes (fr_limits r)) (frame_length header))
     else if protocol_major header \<noteq> pv_major (fr_version r) \<or>
        protocol_minor header \<noteq> pv_minor (fr_version r)
     then Inl (FrUnexpectedVersion (pv_major (fr_version r)) (pv_minor (fr_version r))
       (protocol_major header) (protocol_minor header))
     else if frame_sequence header \<noteq> fr_next_sequence r
     then Inl (FrUnexpectedSequence (fr_next_sequence r) (frame_sequence header))
     else if message_kind header \<noteq> kind
     then Inl (FrUnexpectedMessageKind kind (message_kind header))
     else Inr header)"

definition framed_reader_decode ::
    "allocator \<Rightarrow> (MessageKind \<Rightarrow> bytes \<Rightarrow> 'de + RawMessage) \<Rightarrow> (IdentifierError \<Rightarrow> 'de) \<Rightarrow>
     (RuntimeProtocolContractError \<Rightarrow> 'de) \<Rightarrow> 'r FramedReader \<Rightarrow> MessageKind \<Rightarrow> bytes \<Rightarrow>
     ('io, 'de) FrameReadError + ProtocolMessage" where
  "framed_reader_decode alloc raw cid custom r kind payload_bytes =
     rbind (map_err FrInvalidMessagePack (inspect_messagepack (alloc 0) payload_bytes (fr_limits r))) (\<lambda>_.
     rbind (map_err FrDecode (rbind (raw kind payload_bytes) (message_construct alloc cid custom))) (\<lambda>m.
     rbind (map_err FrInvalidMessage (validate_message alloc m (fr_limits r))) (\<lambda>_. Inr m)))"

definition framed_reader_receive ::
    "allocator \<Rightarrow> ('r \<Rightarrow> usize \<Rightarrow> ('io + bytes) \<times> 'r) \<Rightarrow>
     (MessageKind \<Rightarrow> bytes \<Rightarrow> 'de + RawMessage) \<Rightarrow> (IdentifierError \<Rightarrow> 'de) \<Rightarrow>
     (RuntimeProtocolContractError \<Rightarrow> 'de) \<Rightarrow> 'r FramedReader \<Rightarrow> MessageKind \<Rightarrow>
     (('io, 'de) FrameReadError + ReceivedMessage) \<times> 'r FramedReader" where
  "framed_reader_receive alloc read_exact raw cid custom r kind =
     (case read_exact (fr_input r) FRAME_HEADER_LEN of
        (Inl e, inp) \<Rightarrow> (Inl (FrIo e), r\<lparr>fr_input := inp\<rparr>)
      | (Inr header_bytes, inp) \<Rightarrow>
          (case framed_reader_header r kind header_bytes of
             Inl e \<Rightarrow> (Inl e, r\<lparr>fr_input := inp\<rparr>)
           | Inr header \<Rightarrow>
               if \<not> alloc 0 (unat (frame_length header))
               then (Inl FrPayloadAllocationFailed, r\<lparr>fr_input := inp\<rparr>)
               else
               (case read_exact inp (unat (frame_length header)) of
                  (Inl e, inp') \<Rightarrow> (Inl (FrIo e), r\<lparr>fr_input := inp'\<rparr>)
                | (Inr payload_bytes, inp') \<Rightarrow>
                    (case framed_reader_decode alloc raw cid custom r kind payload_bytes of
                       Inl e \<Rightarrow> (Inl e, r\<lparr>fr_input := inp'\<rparr>)
                     | Inr m \<Rightarrow>
                         (case checked_add (fr_next_sequence r) 1 of
                            None \<Rightarrow> (Inl FrSequenceExhausted, r\<lparr>fr_input := inp'\<rparr>)
                          | Some next_sequence \<Rightarrow>
                              (Inr \<lparr>rm_header = header, rm_payload = m\<rparr>,
                               r\<lparr>fr_input := inp', fr_next_sequence := next_sequence\<rparr>))))))"

subsection \<open>The payload stays bounded\<close>

lemma bounded_payload_write_Inr:
  "bounded_payload_write alloc p buf = (Inr k, p') \<Longrightarrow>
     p' = p\<lparr>bp_bytes := bp_bytes p @ buf\<rparr> \<and> length (bp_bytes p') \<le> bp_maximum p \<and> k = length buf"
  by (auto simp: bounded_payload_write_def split: option.splits if_splits)

lemma bounded_payload_write_Inl:
  "bounded_payload_write alloc p buf = (Inl e, p') \<Longrightarrow>
     bp_bytes p' = bp_bytes p \<and> bp_maximum p' = bp_maximum p"
  by (auto simp: bounded_payload_write_def split: option.splits if_splits)

lemma write_named_Inr:
  "write_named alloc enc p = (Inr u, p') \<Longrightarrow>
     snd enc = None \<and> bp_bytes p' = bp_bytes p @ concat (fst enc) \<and> bp_maximum p' = bp_maximum p"
proof (induction alloc enc p rule: write_named.induct)
  case (3 alloc chunk chunks err p)
  show ?case
  proof (cases "chunk = []")
    case True
    with 3 show ?thesis by simp
  next
    case False
    with "3.prems" obtain k p1 where w: "bounded_payload_write alloc p chunk = (Inr k, p1)"
      and "write_named alloc (chunks, err) p1 = (Inr u, p')"
      by (auto split: prod.splits sum.splits)
    with 3 False bounded_payload_write_Inr [OF w] show ?thesis
      by auto
  qed
qed auto

lemma write_named_bounded:
  "length (bp_bytes p) \<le> bp_maximum p \<Longrightarrow>
     length (bp_bytes (snd (write_named alloc enc p))) \<le> bp_maximum p"
proof (induction alloc enc p rule: write_named.induct)
  case (3 alloc chunk chunks err p)
  show ?case
  proof (cases "chunk = []")
    case True
    with 3 show ?thesis by simp
  next
    case False
    obtain res p1 where w: "bounded_payload_write alloc p chunk = (res, p1)"
      by (cases "bounded_payload_write alloc p chunk")
    show ?thesis
    proof (cases res)
      case (Inl e)
      with w False 3(3) bounded_payload_write_Inl [of alloc p chunk e p1] show ?thesis by simp
    next
      case (Inr k)
      note p1 = bounded_payload_write_Inr [OF w [unfolded Inr]]
      then have "length (bp_bytes p1) \<le> bp_maximum p1" "bp_maximum p1 = bp_maximum p"
        by auto
      with "3.IH"(2) [OF False w [symmetric] Inr] w False Inr show ?thesis by simp
    qed
  qed
qed auto

definition payload_of :: "(ProtocolMessage \<Rightarrow> bytes list \<times> 'ee option) \<Rightarrow> ProtocolMessage \<Rightarrow> bytes" where
  "payload_of encode m = concat (fst (encode m))"

lemma prepare_Inr:
  assumes "framed_writer_prepare alloc encode w rid m = Inr (h, payload, n)"
  shows "payload = payload_of encode m \<and> length payload \<le> unat (max_frame_bytes (fw_limits w)) \<and>
    validate_message alloc m (fw_limits w) = Inr () \<and> checked_add (fw_next_sequence w) 1 = Some n \<and>
    h = frame_header_new (of_nat (length payload)) (pv_major (fw_version w)) (pv_minor (fw_version w))
      (message_KIND m) rid (fw_next_sequence w)"
proof -
  let ?p = "bounded_payload_new (max_frame_bytes (fw_limits w))"
  from assms obtain p where p: "write_named alloc (encode m) ?p = (Inr (), p)" "payload = bp_bytes p"
    and "validate_message alloc m (fw_limits w) = Inr ()" "checked_add (fw_next_sequence w) 1 = Some n"
    "h = frame_header_new (of_nat (length payload)) (pv_major (fw_version w)) (pv_minor (fw_version w))
      (message_KIND m) rid (fw_next_sequence w)"
    unfolding framed_writer_prepare_def
    by (auto simp: rbind_Inr_iff split: prod.splits sum.splits if_splits)
  moreover have "bp_bytes p = payload_of encode m"
    using write_named_Inr [OF p(1)] by (simp add: payload_of_def bounded_payload_new_def)
  moreover have "length (bp_bytes p) \<le> unat (max_frame_bytes (fw_limits w))"
    using write_named_bounded [of ?p alloc "encode m"] p(1) by (simp add: bounded_payload_new_def)
  ultimately show ?thesis by simp
qed

subsection \<open>Sequences of messages\<close>

fun send_all ::
    "allocator \<Rightarrow> ('w \<Rightarrow> bytes \<Rightarrow> ('io + unit) \<times> 'w) \<Rightarrow> (ProtocolMessage \<Rightarrow> bytes list \<times> 'ee option) \<Rightarrow>
     'w FramedWriter \<Rightarrow> (u64 \<times> ProtocolMessage) list \<Rightarrow>
     (('io, 'ee) FrameWriteError + FrameHeader list) \<times> 'w FramedWriter" where
  "send_all alloc write_all encode w [] = (Inr [], w)"
| "send_all alloc write_all encode w ((rid, m) # ms) =
     (case framed_writer_send alloc write_all encode w rid m of
        (Inl e, w') \<Rightarrow> (Inl e, w')
      | (Inr h, w') \<Rightarrow>
          (case send_all alloc write_all encode w' ms of
             (Inl e, w'') \<Rightarrow> (Inl e, w'')
           | (Inr hs, w'') \<Rightarrow> (Inr (h # hs), w'')))"

fun receive_all ::
    "allocator \<Rightarrow> ('r \<Rightarrow> usize \<Rightarrow> ('io + bytes) \<times> 'r) \<Rightarrow> (MessageKind \<Rightarrow> bytes \<Rightarrow> 'de + RawMessage) \<Rightarrow>
     (IdentifierError \<Rightarrow> 'de) \<Rightarrow> (RuntimeProtocolContractError \<Rightarrow> 'de) \<Rightarrow> 'r FramedReader \<Rightarrow>
     MessageKind list \<Rightarrow> (('io, 'de) FrameReadError + ReceivedMessage list) \<times> 'r FramedReader" where
  "receive_all alloc read_exact raw cid custom r [] = (Inr [], r)"
| "receive_all alloc read_exact raw cid custom r (k # ks) =
     (case framed_reader_receive alloc read_exact raw cid custom r k of
        (Inl e, r') \<Rightarrow> (Inl e, r')
      | (Inr x, r') \<Rightarrow>
          (case receive_all alloc read_exact raw cid custom r' ks of
             (Inl e, r'') \<Rightarrow> (Inl e, r'')
           | (Inr xs, r'') \<Rightarrow> (Inr (x # xs), r'')))"

subsection \<open>Transports\<close>

text \<open>
  What the framing needs of a transport, as two locales; \<open>Vec<u8>\<close> as a writer and a byte
  slice as a reader are the standard library's instances that the repository's own tests use.
\<close>

locale byte_sink =
  fixes write_all :: "'w \<Rightarrow> bytes \<Rightarrow> ('io + unit) \<times> 'w"
    and contents :: "'w \<Rightarrow> bytes"
  assumes write_ok: "write_all s bs = (Inr u, s') \<Longrightarrow> contents s' = contents s @ bs"
begin

lemma send_appends:
  fixes encode :: "ProtocolMessage \<Rightarrow> bytes list \<times> 'ee option"
  assumes "framed_writer_send alloc write_all encode w rid m = (Inr h, w')"
  shows "(framed_writer_prepare alloc encode w rid m :: ('io, 'ee) FrameWriteError + _) =
      Inr (h, payload_of encode m, fw_next_sequence w')"
    and "contents (fw_output w') = contents (fw_output w) @ frame_header_encode h @ payload_of encode m"
    and "fw_version w' = fw_version w" and "fw_limits w' = fw_limits w"
proof -
  from assms obtain payload n out out' where
    p: "(framed_writer_prepare alloc encode w rid m :: ('io, 'ee) FrameWriteError + _) = Inr (h, payload, n)"
    and o: "write_all (fw_output w) (frame_header_encode h) = (Inr (), out)"
    "write_all out payload = (Inr (), out')"
    and w': "w' = w\<lparr>fw_output := out', fw_next_sequence := n\<rparr>"
    unfolding framed_writer_send_def by (auto split: sum.splits prod.splits)
  have "payload = payload_of encode m"
    using prepare_Inr [OF p] by blast
  with p o w' show "(framed_writer_prepare alloc encode w rid m :: ('io, 'ee) FrameWriteError + _) =
      Inr (h, payload_of encode m, fw_next_sequence w')"
    "contents (fw_output w') = contents (fw_output w) @ frame_header_encode h @ payload_of encode m"
    "fw_version w' = fw_version w" "fw_limits w' = fw_limits w"
    using write_ok [OF o(1)] write_ok [OF o(2)] by simp_all
qed

lemma send_all_extends:
  "send_all alloc write_all encode w ms = (Inr hs, w') \<Longrightarrow>
     \<exists>sent. contents (fw_output w') = contents (fw_output w) @ sent"
proof (induction ms arbitrary: w hs)
  case Nil
  then show ?case by simp
next
  case (Cons x ms)
  obtain rid m where x: "x = (rid, m)" by (cases x)
  from Cons.prems x obtain h w1 hs' where
    s1: "framed_writer_send alloc write_all encode w rid m = (Inr h, w1)"
    and s2: "send_all alloc write_all encode w1 ms = (Inr hs', w')"
    by (auto split: prod.splits sum.splits)
  show ?case
    using send_appends(2) [OF s1] Cons.IH [OF s2] by (metis append.assoc)
qed

end

locale byte_source =
  fixes read_exact :: "'r \<Rightarrow> usize \<Rightarrow> ('io + bytes) \<times> 'r"
    and remaining :: "'r \<Rightarrow> bytes"
  assumes read_avail: "n \<le> length (remaining s) \<Longrightarrow>
      \<exists>s'. read_exact s n = (Inr (take n (remaining s)), s') \<and> remaining s' = drop n (remaining s)"
begin

lemma receive_frame:
  fixes raw :: "MessageKind \<Rightarrow> bytes \<Rightarrow> 'de + RawMessage"
  assumes rem: "remaining (fr_input r) = frame_header_encode h @ payload @ tail"
    and flags: "frame_flags h = 0"
    and len: "unat (frame_length h) = length payload" "length payload \<le> unat (max_frame_bytes (fr_limits r))"
    and ver: "protocol_major h = pv_major (fr_version r)" "protocol_minor h = pv_minor (fr_version r)"
    and sq: "frame_sequence h = fr_next_sequence r" "checked_add (fr_next_sequence r) 1 = Some n"
    and kind: "message_kind h = k"
    and all: "\<And>a b. alloc a b"
  shows "\<exists>inp. framed_reader_receive alloc read_exact raw cid custom r k =
      (case framed_reader_decode alloc raw cid custom r k payload of
         Inl e \<Rightarrow> (Inl e, r\<lparr>fr_input := inp\<rparr>)
       | Inr m \<Rightarrow> (Inr \<lparr>rm_header = h, rm_payload = m\<rparr>, r\<lparr>fr_input := inp, fr_next_sequence := n\<rparr>)) \<and>
    remaining inp = tail"
proof -
  have h28: "length (frame_header_encode h) = FRAME_HEADER_LEN"
    by (simp add: frame_header_encode_def FRAME_HEADER_LEN_def)
  then obtain s1 where s1: "read_exact (fr_input r) FRAME_HEADER_LEN = (Inr (frame_header_encode h), s1)"
    "remaining s1 = payload @ tail"
    using read_avail [of FRAME_HEADER_LEN "fr_input r"] rem by auto
  then obtain s2 where s2: "read_exact s1 (unat (frame_length h)) = (Inr payload, s2)" "remaining s2 = tail"
    using read_avail [of "length payload" s1] len(1) by auto
  have d: "frame_header_decode (frame_header_encode h) = Inr h"
    using flags by (simp add: decode_encode)
  have hd: "(framed_reader_header r k (frame_header_encode h) :: ('io, 'de) FrameReadError + FrameHeader) = Inr h"
    using len ver sq kind by (simp add: framed_reader_header_def d word_less_nat_alt)
  show ?thesis
    using s1(1) hd all s2 sq(2) by (auto simp: framed_reader_receive_def split: sum.splits)
qed

end

definition vec_write_all :: "bytes \<Rightarrow> bytes \<Rightarrow> (unit + unit) \<times> bytes" where
  "vec_write_all out bs = (Inr (), out @ bs)"

definition slice_read_exact :: "bytes \<Rightarrow> usize \<Rightarrow> (unit + bytes) \<times> bytes" where
  "slice_read_exact input n =
     (if n > length input then (Inl (), []) else (Inr (take n input), drop n input))"

interpretation vec: byte_sink vec_write_all "\<lambda>out. out"
  by unfold_locales (simp add: vec_write_all_def)

interpretation slice: byte_source slice_read_exact "\<lambda>input. input"
  by unfold_locales (simp add: slice_read_exact_def)

subsection \<open>Round trip\<close>

text \<open>
  What the framing relies on of \<open>rmp_serde\<close>: the derived decoder reads the fields of a message
  back from its encoding. Nothing is assumed of what the reader's own checks say about that
  encoding; when they pass is the specification \<open>deliverable\<close>: the payload is one MessagePack value
  within the reader's limits, whose depth counts the maps and arrays of the encoding, and the
  message satisfies its contract under the default limits, which is what \<open>Deserialize\<close> checks.
\<close>

definition reads_back ::
    "(ProtocolMessage \<Rightarrow> bytes list \<times> 'ee option) \<Rightarrow> (MessageKind \<Rightarrow> bytes \<Rightarrow> 'de + RawMessage) \<Rightarrow> ProtocolMessage \<Rightarrow> bool" where
  "reads_back encode raw m \<longleftrightarrow> raw (message_KIND m) (payload_of encode m) = Inr (message_raw m)"

definition preflight_ok :: "ProtocolLimits \<Rightarrow> bytes \<Rightarrow> bool" where
  "preflight_ok l payload \<longleftrightarrow> (\<exists>v. payload = mp_encode v \<and> mp_ok l v \<and> within_budget l v)"

definition deliverable :: "ProtocolLimits \<Rightarrow> (ProtocolMessage \<Rightarrow> bytes list \<times> 'ee option) \<Rightarrow> ProtocolMessage \<Rightarrow> bool" where
  "deliverable l encode m \<longleftrightarrow> preflight_ok l (payload_of encode m) \<and> message_ok secure_default m"

lemma inspect_messagepack_preflight:
  assumes "limits_positive l" and "\<And>n. alloc n" and "length payload \<le> unat (max_frame_bytes l)"
  shows "is_ok (inspect_messagepack alloc payload l) \<longleftrightarrow> preflight_ok l payload"
proof
  assume "preflight_ok l payload"
  then obtain x where x: "payload = mp_encode x" "mp_ok l x" "within_budget l x"
    by (auto simp: preflight_ok_def)
  have "inspect_messagepack alloc payload l =
      Inr \<lparr>mp_nodes = of_nat (mp_count x), mp_maximum_depth = of_nat (mp_height x)\<rparr>"
    unfolding inspect_messagepack_iff
    using assms x unat_of_nat_le [of "mp_count x" "max_graph_nodes l"] unat_of_nat_le [of "mp_height x" "max_object_depth l"]
    by (auto simp: within_budget_def)
  then show "is_ok (inspect_messagepack alloc payload l)"
    by (simp add: is_ok_iff)
qed (auto simp: is_ok_iff inspect_messagepack_iff preflight_ok_def)

lemma message_raw_inj: "message_raw m = message_raw m' \<Longrightarrow> m = m'"
  by (cases m; cases m') (auto simp: version_raw_def intro!: RuntimeHello.equality)

lemma decode_refused:
  assumes "\<not> message_ok secure_default m"
  shows "\<exists>x. message_construct alloc cid custom (message_raw m) = Inl x"
  using assms message_construct_sound [of alloc cid custom "message_raw m"] message_raw_inj
  by (cases "message_construct alloc cid custom (message_raw m)") blast+

text \<open>What the reader answers on the payload of a message that the writer accepted.\<close>

lemma framed_reader_decode_sent:
  assumes all: "\<And>a n. alloc a n" and pos: "limits_positive (fr_limits r)"
    and c: "reads_back encode raw m" and v: "validate_message alloc m (fr_limits r) = Inr ()"
    and len: "length (payload_of encode m) \<le> unat (max_frame_bytes (fr_limits r))"
  shows "framed_reader_decode alloc raw cid custom r (message_KIND m) (payload_of encode m) =
    (case inspect_messagepack (alloc 0) (payload_of encode m) (fr_limits r) of
       Inl x \<Rightarrow> Inl (FrInvalidMessagePack x)
     | Inr _ \<Rightarrow> if message_ok secure_default m then Inr m
         else map_err FrDecode (message_construct alloc cid custom (message_raw m)))"
proof (cases "message_ok secure_default m")
  case True
  then show ?thesis
    using c v message_construct_complete [of alloc m cid custom, OF all True]
    by (auto simp: framed_reader_decode_def reads_back_def split: sum.splits)
next
  case False
  then show ?thesis
    using c decode_refused [OF False, of alloc cid custom]
    by (auto simp: framed_reader_decode_def reads_back_def split: sum.splits)
qed

text \<open>The reader's next answer is a refusal that names the failed check.\<close>

definition refuses ::
    "allocator \<Rightarrow> ('r \<Rightarrow> usize \<Rightarrow> ('io + bytes) \<times> 'r) \<Rightarrow> (ProtocolMessage \<Rightarrow> bytes list \<times> 'ee option) \<Rightarrow>
     (MessageKind \<Rightarrow> bytes \<Rightarrow> 'de + RawMessage) \<Rightarrow> (IdentifierError \<Rightarrow> 'de) \<Rightarrow>
     (RuntimeProtocolContractError \<Rightarrow> 'de) \<Rightarrow> 'r FramedReader \<Rightarrow> ProtocolMessage \<Rightarrow> bool" where
  "refuses alloc read_exact encode raw cid custom r m \<longleftrightarrow>
     (\<exists>e. fst (framed_reader_receive alloc read_exact raw cid custom r (message_KIND m)) = Inl e \<and>
       (if \<not> preflight_ok (fr_limits r) (payload_of encode m)
        then \<exists>x. inspect_messagepack (alloc 0) (payload_of encode m) (fr_limits r) = Inl x \<and> e = FrInvalidMessagePack x
        else \<exists>x. message_construct alloc cid custom (message_raw m) = Inl x \<and> e = FrDecode x))"

locale framed_link = byte_sink write_all contents + byte_source read_exact remaining
  for write_all :: "'w \<Rightarrow> bytes \<Rightarrow> ('wio + unit) \<times> 'w" and contents :: "'w \<Rightarrow> bytes"
    and read_exact :: "'r \<Rightarrow> usize \<Rightarrow> ('rio + bytes) \<times> 'r" and remaining :: "'r \<Rightarrow> bytes"
begin

lemma receive_sent:
  fixes encode :: "ProtocolMessage \<Rightarrow> bytes list \<times> 'ee option"
    and raw :: "MessageKind \<Rightarrow> bytes \<Rightarrow> 'de + RawMessage"
  assumes all: "\<And>a n. alloc a n" and pos: "limits_positive (fr_limits r)" and c: "reads_back encode raw m"
    and send: "framed_writer_send alloc write_all encode w rid m = (Inr h, w')"
    and link: "fr_version r = fw_version w" "fr_limits r = fw_limits w" "fr_next_sequence r = fw_next_sequence w"
    and io: "contents (fw_output w') = contents (fw_output w) @ sent" "remaining (fr_input r) = sent @ tail"
  shows "frame_request_id h = rid"
    and "deliverable (fr_limits r) encode m \<Longrightarrow>
      \<exists>inp. framed_reader_receive alloc read_exact raw cid custom r (message_KIND m) =
        (Inr \<lparr>rm_header = h, rm_payload = m\<rparr>, r\<lparr>fr_input := inp, fr_next_sequence := fw_next_sequence w'\<rparr>) \<and>
      remaining inp = tail"
    and "\<not> deliverable (fr_limits r) encode m \<Longrightarrow> refuses alloc read_exact encode raw cid custom r m"
proof -
  let ?payload = "payload_of encode m" and ?l = "fr_limits r"
  note a = send_appends [OF send]
  have h: "h = frame_header_new (of_nat (length ?payload)) (pv_major (fw_version w))
      (pv_minor (fw_version w)) (message_KIND m) rid (fw_next_sequence w)"
    and len: "length ?payload \<le> unat (max_frame_bytes ?l)"
    and nx: "checked_add (fr_next_sequence r) 1 = Some (fw_next_sequence w')"
    and v: "validate_message alloc m ?l = Inr ()"
    using prepare_Inr [OF a(1)] link by simp_all
  show "frame_request_id h = rid"
    by (simp add: h frame_header_new_def)
  have "sent = frame_header_encode h @ ?payload"
    using a(2) io(1) by simp
  then obtain inp where inp: "framed_reader_receive alloc read_exact raw cid custom r (message_KIND m) =
      (case framed_reader_decode alloc raw cid custom r (message_KIND m) ?payload of
         Inl e \<Rightarrow> (Inl e, r\<lparr>fr_input := inp\<rparr>)
       | Inr m \<Rightarrow> (Inr \<lparr>rm_header = h, rm_payload = m\<rparr>, r\<lparr>fr_input := inp, fr_next_sequence := fw_next_sequence w'\<rparr>))"
    "remaining inp = tail"
    using receive_frame [of r h ?payload tail _ _ alloc raw cid custom] io(2) link h len nx unat_of_nat_le [OF len] all
    by (auto simp: frame_header_new_def)
  note dec = framed_reader_decode_sent [of alloc r encode raw m cid custom, OF all pos c v len]
  note pre = inspect_messagepack_preflight [of ?l "alloc 0", OF pos all len]
  show "\<exists>inp. framed_reader_receive alloc read_exact raw cid custom r (message_KIND m) =
        (Inr \<lparr>rm_header = h, rm_payload = m\<rparr>, r\<lparr>fr_input := inp, fr_next_sequence := fw_next_sequence w'\<rparr>) \<and>
      remaining inp = tail" if "deliverable ?l encode m"
    using that inp pre by (auto simp: deliverable_def dec is_ok_iff)
  show "refuses alloc read_exact encode raw cid custom r m" if no: "\<not> deliverable ?l encode m"
  proof (cases "preflight_ok ?l ?payload")
    case True
    with no have bad: "\<not> message_ok secure_default m"
      by (simp add: deliverable_def)
    show ?thesis
      using True pre inp(1) bad decode_refused [OF bad, of alloc cid custom]
      by (auto simp: refuses_def dec is_ok_iff)
  next
    case False
    then obtain x where "inspect_messagepack (alloc 0) ?payload ?l = Inl x"
      using pre by (cases "inspect_messagepack (alloc 0) ?payload ?l") (auto simp: is_ok_iff)
    then show ?thesis
      using False inp(1) by (simp add: refuses_def dec)
  qed
qed

lemma send_all_receive_all:
  fixes encode :: "ProtocolMessage \<Rightarrow> bytes list \<times> 'ee option"
    and raw :: "MessageKind \<Rightarrow> bytes \<Rightarrow> 'de + RawMessage"
  assumes all: "\<And>a n. alloc a n" and pos: "limits_positive (fr_limits r)"
    and msgs: "\<And>rid m. (rid, m) \<in> set ms \<Longrightarrow> reads_back encode raw m"
    and send: "send_all alloc write_all encode w ms = (Inr hs, w')"
    and link: "fr_version r = fw_version w" "fr_limits r = fw_limits w" "fr_next_sequence r = fw_next_sequence w"
    and io: "contents (fw_output w') = contents (fw_output w) @ sent" "remaining (fr_input r) = sent @ tail"
    and n: "n = length (takeWhile (\<lambda>x. deliverable (fr_limits r) encode (snd x)) ms)"
  shows "map frame_request_id hs = map fst ms \<and>
    (\<exists>r'. receive_all alloc read_exact raw cid custom r (map (\<lambda>x. message_KIND (snd x)) (take n ms)) =
       (Inr (take n (map2 (\<lambda>h (rid, m). \<lparr>rm_header = h, rm_payload = m\<rparr>) hs ms)), r') \<and> fr_limits r' = fr_limits r \<and>
     (if n = length ms then remaining (fr_input r') = tail
      else refuses alloc read_exact encode raw cid custom r' (snd (ms ! n))))"
  using send link io pos msgs n
proof (induction ms arbitrary: w r hs sent n)
  case Nil
  then show ?case by simp
next
  case (Cons x ms)
  obtain rid m where x: "x = (rid, m)" by (cases x)
  from Cons.prems(1) x obtain h w1 hs' where
    s1: "framed_writer_send alloc write_all encode w rid m = (Inr h, w1)"
    and s2: "send_all alloc write_all encode w1 ms = (Inr hs', w')" and hs: "hs = h # hs'"
    by (auto split: prod.splits sum.splits)
  obtain sent' where sent': "contents (fw_output w') = contents (fw_output w1) @ sent'"
    using send_all_extends [OF s2] by blast
  note a = send_appends [OF s1]
  have sent: "contents (fw_output w1) = contents (fw_output w) @ frame_header_encode h @ payload_of encode m"
    "remaining (fr_input r) = (frame_header_encode h @ payload_of encode m) @ sent' @ tail"
    using Cons.prems(5,6) a(2) sent' by simp_all
  have rb: "reads_back encode raw m"
    using Cons.prems(8) [of rid m] x by simp
  note got = receive_sent [OF all Cons.prems(7) rb s1 Cons.prems(2-4) sent]
  let ?n = "length (takeWhile (\<lambda>x. deliverable (fr_limits r) encode (snd x)) ms)"
  have IH: "map frame_request_id hs' = map fst ms \<and>
    (\<exists>r'. receive_all alloc read_exact raw cid custom (r\<lparr>fr_input := inp, fr_next_sequence := fw_next_sequence w1\<rparr>)
        (map (\<lambda>x. message_KIND (snd x)) (take ?n ms)) =
       (Inr (take ?n (map2 (\<lambda>h (rid, m). \<lparr>rm_header = h, rm_payload = m\<rparr>) hs' ms)), r') \<and> fr_limits r' = fr_limits r \<and>
     (if ?n = length ms then remaining (fr_input r') = tail
      else refuses alloc read_exact encode raw cid custom r' (snd (ms ! ?n))))"
    if "remaining inp = sent' @ tail" for inp
  proof -
    let ?r = "r\<lparr>fr_input := inp, fr_next_sequence := fw_next_sequence w1\<rparr>"
    have "fr_version ?r = fw_version w1" "fr_limits ?r = fw_limits w1" "fr_next_sequence ?r = fw_next_sequence w1"
      "remaining (fr_input ?r) = sent' @ tail" "limits_positive (fr_limits ?r)"
      using Cons.prems(2,3,7) a(3,4) that by simp_all
    moreover have "reads_back encode raw m'" if "(rid', m') \<in> set ms" for rid' m'
      using Cons.prems(8) [of rid' m'] that by simp
    moreover have "fr_limits ?r = fr_limits r"
      by simp
    ultimately show ?thesis
      using Cons.IH [OF s2 _ _ _ sent' _ _ _ refl, of ?r] by metis
  qed
  obtain dummy where dummy: "remaining dummy = sent' @ tail"
    using read_avail [of "length (frame_header_encode h @ payload_of encode m)" "fr_input r"] sent(2) by auto
  show ?case
  proof (cases "deliverable (fr_limits r) encode m")
    case True
    then obtain inp where inp: "framed_reader_receive alloc read_exact raw cid custom r (message_KIND m) =
        (Inr \<lparr>rm_header = h, rm_payload = m\<rparr>, r\<lparr>fr_input := inp, fr_next_sequence := fw_next_sequence w1\<rparr>)"
      "remaining inp = sent' @ tail"
      using got(2) by blast
    then show ?thesis
      using IH [OF inp(2)] got(1) True Cons.prems(9) hs x by auto
  next
    case False
    then show ?thesis
      using IH [OF dummy] got(1,3) Cons.prems(9) hs x by auto
  qed
qed

end

interpretation memory_link: framed_link vec_write_all "\<lambda>out. out" slice_read_exact "\<lambda>input. input" ..

subsection \<open>Values nested too deep for the reader\<close>

text \<open>
  Both sides bound depth by \<open>max_object_depth\<close>, but the writer counts wire values and the reader the
  containers of the encoding. \<open>WireValue\<close> is an internally tagged enum, which the codec documents to
  write as a map with the tag among the fields, so an array nests a map and an array per level.
  \<open>nested_mp n\<close> is that encoding of \<open>n\<close> arrays around a null, and \<open>nested_result_mp n\<close> that of a call
  result with this value.
\<close>

fun nested_value :: "nat \<Rightarrow> WireValue" where
  "nested_value 0 = WvNull"
| "nested_value (Suc n) = WvArray [nested_value n]"

definition nested_result :: "nat \<Rightarrow> ProtocolMessage" where
  "nested_result n = MCallResult \<lparr>rr_value = nested_value n\<rparr>"

definition mp_text :: "string \<Rightarrow> mp_value" where
  "mp_text s = MpValue (HFixStr (str_bytes s)) []"

fun nested_mp :: "nat \<Rightarrow> mp_value" where
  "nested_mp 0 = MpValue (HFixMap 1) [mp_text ''kind'', mp_text ''null'']"
| "nested_mp (Suc n) = MpValue (HFixMap 2)
     [mp_text ''kind'', mp_text ''array'', mp_text ''values'', MpValue (HFixArr 1) [nested_mp n]]"

definition nested_result_mp :: "nat \<Rightarrow> mp_value" where
  "nested_result_mp n = MpValue (HFixMap 1) [mp_text ''value'', nested_mp n]"

lemma mp_text_ok: "list_all (\<lambda>c. of_char c < (128 :: nat)) s \<Longrightarrow> length s \<le> 31 \<Longrightarrow> mp_ok secure_default (mp_text s)"
  by (auto simp: mp_text_def secure_default_def str_bytes_def list_all_iff word_less_nat_alt unat_of_nat
      intro!: utf8_valid_ascii)

lemma mp_text_measures [simp]:
  "mp_height (mp_text s) = 1" "mp_count (mp_text s) = 1" "length (mp_encode (mp_text s)) = Suc (length s)"
  by (simp_all add: mp_text_def)

lemma nested_mp_ok: "mp_ok secure_default (nested_mp n)"
  by (induction n) (simp_all add: mp_text_ok)

lemma nested_mp_measures:
  "mp_height (nested_mp n) = 2 * n + 2" "mp_count (nested_mp n) = 5 * n + 3"
  "length (mp_encode (nested_mp n)) = 20 * n + 11"
  by (induction n) simp_all

lemma nested_result_mp_measures:
  "mp_ok secure_default (nested_result_mp n)" "mp_height (nested_result_mp n) = 2 * n + 3"
  "mp_count (nested_result_mp n) = 5 * n + 5" "length (mp_encode (nested_result_mp n)) = 20 * n + 18"
  by (simp_all add: nested_result_mp_def nested_mp_ok nested_mp_measures mp_text_ok)

lemma head_ok_depth: "head_ok (l\<lparr>max_object_depth := d\<rparr>) h = head_ok l h"
  by (cases h) simp_all

lemma mp_ok_depth: "mp_ok (l\<lparr>max_object_depth := d\<rparr>) v = mp_ok l v"
  by (induction v) (simp add: head_ok_depth list_all_iff)

text \<open>The depth that the preflight measures is that of the encoded value, whichever value it reads.\<close>

lemma preflight_height:
  assumes "limits_positive l" "mp_ok l v" "length (mp_encode v) \<le> unat (max_frame_bytes l)"
    and "mp_count v \<le> unat (max_graph_nodes l)" "mp_height v < 2 ^ 16"
  shows "preflight_ok l (mp_encode v) \<longleftrightarrow> mp_height v \<le> unat (max_object_depth l)"
proof
  assume "preflight_ok l (mp_encode v)"
  then obtain u where u: "mp_encode v = mp_encode u" "mp_ok l u" "within_budget l u"
    by (auto simp: preflight_ok_def)
  let ?l = "l\<lparr>max_object_depth := 65535\<rparr>"
  have pos: "limits_positive ?l"
    using assms(1) by (simp add: limits_positive_def)
  have inspect: "\<exists>b. inspect_messagepack (\<lambda>_. True) (mp_encode v) ?l = Inr b \<and> unat (mp_maximum_depth b) = mp_height x"
    if "mp_encode v = mp_encode x" "mp_ok l x" "mp_count x \<le> unat (max_graph_nodes l)" "mp_height x < 2 ^ 16" for x
    by (rule exI [of _ "\<lparr>mp_nodes = of_nat (mp_count x), mp_maximum_depth = of_nat (mp_height x)\<rparr>"])
      (use that assms(3) pos unat_of_nat_le [of "mp_count x" "max_graph_nodes l"]
        unat_of_nat_le [of "mp_height x" "65535 :: u16"] in
        \<open>auto simp: inspect_messagepack_iff mp_ok_depth within_budget_def intro!: exI [of _ x]\<close>)
  have "mp_height u \<le> unat (max_object_depth l)" "mp_height u < 2 ^ 16"
    using u(3) unsigned_less [of "max_object_depth l", where ?'a = nat] by (auto simp: within_budget_def)
  then show "mp_height v \<le> unat (max_object_depth l)"
    using inspect [of v] inspect [of u] u assms(2,4,5) by (auto simp: within_budget_def)
qed (use assms in \<open>auto simp: preflight_ok_def within_budget_def\<close>)

lemma nested_value_measures:
  "wv_all_ok l app [nested_value n] = wv_all_ok l app [WvNull]" "wv_nodes [nested_value n] = Suc n"
  "wv_depth [nested_value n] = Suc n" "wv_handles [nested_value n] = 0"
  by (induction n) (simp_all add: wv_node_ok_def)

text \<open>
  Under the default limits a call result of 31 to 63 nested arrays is valid for the writer and for
  \<open>Deserialize\<close>, but not deliverable when it is encoded this way: the reader refuses it.
\<close>

theorem nested_result_undeliverable:
  assumes "31 \<le> n" "n \<le> 63" "payload_of encode (nested_result n) = mp_encode (nested_result_mp n)" "\<And>a k. alloc a k"
  shows "validate_message alloc (nested_result n) secure_default = Inr () \<and> message_ok secure_default (nested_result n) \<and>
    \<not> deliverable secure_default encode (nested_result n)"
proof -
  have pos: "limits_positive secure_default"
    by simp
  have "graph_ok secure_default None [nested_value n]"
    unfolding graph_ok_def nested_value_measures using assms(2) pos
    by (simp add: wv_node_ok_def) (simp add: secure_default_def)
  then have ok: "message_ok secure_default (nested_result n)"
    by (simp add: nested_result_def)
  moreover have "validate_message alloc (nested_result n) secure_default = Inr ()"
    using graph_messages_complete(1) [of alloc, OF assms(4)] ok by (simp add: nested_result_def)
  moreover have "\<not> preflight_ok secure_default (mp_encode (nested_result_mp n))"
    using preflight_height [OF pos nested_result_mp_measures(1)] assms(1,2)
    by (simp add: nested_result_mp_measures(2-4)) (simp add: secure_default_def)
  ultimately show ?thesis
    by (simp add: deliverable_def assms(3))
qed

subsection \<open>Delivery\<close>

text \<open>
  C6: what a framed connection delivers. A writer sends a sequence of messages into a buffer, and a
  reader with the same version and limits is given this buffer and asked for the same kinds; the
  derived decoder is assumed to read the codec's own encodings back, and allocations to succeed.
  Then the reader returns, in order, the longest prefix of messages that are deliverable, each with
  the header the writer returned and its request identifier. When all are, what followed them is
  left unread. Otherwise the next call is refused, although the message was sent: with the
  preflight's error when the encoding is not one value within the limits, as for a value that the
  encoding's maps nest too deep, and else with the error of the decoder, which checks the contract
  under the default limits.
\<close>

theorem framed_round_trip:
  fixes encode :: "ProtocolMessage \<Rightarrow> bytes list \<times> 'ee option"
    and raw :: "MessageKind \<Rightarrow> bytes \<Rightarrow> 'de + RawMessage"
  assumes "\<forall>a n. alloc a n"
    and "\<forall>(rid, m) \<in> set ms. reads_back encode raw m"
    and "(framed_writer_new [] v l :: (unit, 'ee) FrameWriteError + bytes FramedWriter) = Inr w"
    and "send_all alloc vec_write_all encode w ms = (Inr hs, w')"
    and "(framed_reader_new (fw_output w' @ tail) v l :: (unit, 'de) FrameReadError + bytes FramedReader) = Inr r"
    and "n = length (takeWhile (\<lambda>x. deliverable l encode (snd x)) ms)"
  shows "map frame_request_id hs = map fst ms \<and>
    (\<exists>r'. receive_all alloc slice_read_exact raw cid custom r (map (\<lambda>x. message_KIND (snd x)) (take n ms)) =
       (Inr (take n (map2 (\<lambda>h (rid, m). \<lparr>rm_header = h, rm_payload = m\<rparr>) hs ms)), r') \<and> fr_limits r' = l \<and>
     (if n = length ms then fr_input r' = tail
      else refuses alloc slice_read_exact encode raw cid custom r' (snd (ms ! n))))"
proof -
  have l: "limits_positive l" and w: "w = \<lparr>fw_output = [], fw_version = v, fw_limits = l, fw_next_sequence = 1\<rparr>"
    and r: "r = \<lparr>fr_input = fw_output w' @ tail, fr_version = v, fr_limits = l, fr_next_sequence = 1\<rparr>"
    using assms(3,5) by (auto simp: framed_writer_new_def framed_reader_new_def rbind_Inr_iff)
  have msgs: "reads_back encode raw m" if "(rid, m) \<in> set ms" for rid m
    using assms(2) that by blast
  show ?thesis
    using memory_link.send_all_receive_all [of alloc r ms encode raw w hs w' "fw_output w'" tail n cid custom, OF _ _ msgs]
      assms(1,4,6) l w r by simp
qed

text \<open>A cancellation as \<open>rmp_serde\<close> writes it: a one-entry map from the field name.\<close>

definition cancel_chunks :: "bytes list" where
  "cancel_chunks = [[0x81], [0xaa], [0x72, 0x65, 0x71, 0x75, 0x65, 0x73, 0x74, 0x5f, 0x69, 0x64], [0x07]]"

text \<open>A codec for this message and for a call result of forty nested arrays.\<close>

definition example_encode :: "ProtocolMessage \<Rightarrow> bytes list \<times> unit option" where
  "example_encode m = (case m of MCancel _ \<Rightarrow> cancel_chunks | _ \<Rightarrow> [mp_encode (nested_result_mp 40)], None)"

definition example_raw :: "MessageKind \<Rightarrow> bytes \<Rightarrow> unit + RawMessage" where
  "example_raw k bs = Inr (if k = Cancel then RawCancel 7 else message_raw (nested_result 40))"

definition example_writer :: "bytes FramedWriter" where
  "example_writer = \<lparr>fw_output = [], fw_version = \<lparr>pv_major = 1, pv_minor = 0\<rparr>, fw_limits = secure_default,
     fw_next_sequence = 1\<rparr>"

lemma cancel_deliverable: "deliverable secure_default example_encode (MCancel \<lparr>rx_request_id = 7\<rparr>)"
proof -
  let ?v = "MpValue (HFixMap 1)
    [MpValue (HFixStr [0x72, 0x65, 0x71, 0x75, 0x65, 0x73, 0x74, 0x5f, 0x69, 0x64]) [],
     MpValue (HScalar 7 []) []]"
  have "concat cancel_chunks = mp_encode ?v" "mp_ok secure_default ?v" "within_budget secure_default ?v"
    by (simp_all add: cancel_chunks_def scalar_body_def secure_default_def within_budget_def)
  then have "preflight_ok secure_default (concat cancel_chunks)"
    unfolding preflight_ok_def by blast
  then show ?thesis
    by (simp add: deliverable_def payload_of_def example_encode_def)
qed

lemma example_undeliverable:
  "validate_message (\<lambda>_ _. True) (nested_result 40) secure_default = Inr ()"
  "\<not> deliverable secure_default example_encode (nested_result 40)"
proof -
  have "payload_of example_encode (nested_result 40) = mp_encode (nested_result_mp 40)"
    by (simp add: payload_of_def example_encode_def nested_result_def)
  from nested_result_undeliverable [OF _ _ this, of "\<lambda>_ _. True"]
  show "validate_message (\<lambda>_ _. True) (nested_result 40) secure_default = Inr ()"
    "\<not> deliverable secure_default example_encode (nested_result 40)"
    by simp_all
qed

lemma example_sends:
  obtains hs w' where "send_all (\<lambda>_ _. True) vec_write_all example_encode example_writer
    [(9, MCancel \<lparr>rx_request_id = 7\<rparr>), (10, nested_result 40)] = (Inr hs :: (unit, unit) FrameWriteError + _, w')"
    "length hs = 2"
proof -
  let ?m = "MCancel \<lparr>rx_request_id = 7\<rparr>"
  have written: "\<exists>p. write_named (\<lambda>_ _. True) (example_encode m) (bounded_payload_new (max_frame_bytes secure_default)) =
      (Inr (), p) \<and> length (bp_bytes p) < 2 ^ 32" if "m \<in> {?m, nested_result 40}" for m
    using that by (auto simp: example_encode_def nested_result_def cancel_chunks_def bounded_payload_write_def
      bounded_payload_new_def checked_add_usize_def secure_default_def nested_result_mp_measures
      simp flip: length_greater_0_conv)
  have prepared: "\<exists>h bs. (framed_writer_prepare (\<lambda>_ _. True) example_encode w rid m :: (unit, unit) FrameWriteError + _) =
      Inr (h, bs, fw_next_sequence w + 1)"
    if "m \<in> {?m, nested_result 40}" "fw_limits w = secure_default" "fw_next_sequence w \<in> {1, 2}" for m w rid
    using written [OF that(1)] that example_undeliverable(1)
    by (auto simp: framed_writer_prepare_def checked_add_def)
  have sent: "\<exists>h out. framed_writer_send (\<lambda>_ _. True) vec_write_all example_encode w rid m =
      (Inr h :: (unit, unit) FrameWriteError + _, w\<lparr>fw_output := out, fw_next_sequence := fw_next_sequence w + 1\<rparr>)"
    if "m \<in> {?m, nested_result 40}" "fw_limits w = secure_default" "fw_next_sequence w \<in> {1, 2}" for m w rid
    using prepared [OF that, of rid] by (auto simp: framed_writer_send_def vec_write_all_def)
  obtain h1 out1 where s1: "framed_writer_send (\<lambda>_ _. True) vec_write_all example_encode example_writer 9 ?m =
      (Inr h1 :: (unit, unit) FrameWriteError + _, example_writer\<lparr>fw_output := out1, fw_next_sequence := 2\<rparr>)"
    using sent [of ?m example_writer 9] by (auto simp: example_writer_def)
  obtain h2 w2 where "framed_writer_send (\<lambda>_ _. True) vec_write_all example_encode
      (example_writer\<lparr>fw_output := out1, fw_next_sequence := 2\<rparr>) 10 (nested_result 40) =
      (Inr h2 :: (unit, unit) FrameWriteError + _, w2)"
    using sent [of "nested_result 40" "example_writer\<lparr>fw_output := out1, fw_next_sequence := 2\<rparr>" 10]
    by (auto simp: example_writer_def)
  with s1 show thesis
    by (intro that [of "[h1, h2]" w2]) simp_all
qed

text \<open>Both messages are sent; the cancellation arrives and the nested result is refused.\<close>

theorem framed_round_trip_witness:
  "\<exists>h1 h2 w' r' x. send_all (\<lambda>_ _. True) vec_write_all example_encode example_writer
       [(9, MCancel \<lparr>rx_request_id = 7\<rparr>), (10, nested_result 40)] =
     (Inr [h1, h2] :: (unit, unit) FrameWriteError + _, w') \<and> frame_request_id h1 = 9 \<and>
   receive_all (\<lambda>_ _. True) slice_read_exact example_raw (\<lambda>_. ()) (\<lambda>_. ())
       \<lparr>fr_input = fw_output w', fr_version = \<lparr>pv_major = 1, pv_minor = 0\<rparr>, fr_limits = secure_default, fr_next_sequence = 1\<rparr>
       [Cancel] = (Inr [\<lparr>rm_header = h1, rm_payload = MCancel \<lparr>rx_request_id = 7\<rparr>\<rparr>], r') \<and>
   fst (framed_reader_receive (\<lambda>_ _. True) slice_read_exact example_raw (\<lambda>_. ()) (\<lambda>_. ()) r' CallResult) =
     Inl (FrInvalidMessagePack x)"
proof -
  let ?ms = "[(9 :: u64, MCancel \<lparr>rx_request_id = 7\<rparr>), (10, nested_result 40)]"
    and ?v = "\<lparr>pv_major = 1, pv_minor = 0\<rparr> :: ProtocolVersion"
  obtain hs w' where send: "send_all (\<lambda>_ _. True) vec_write_all example_encode example_writer ?ms =
      (Inr hs :: (unit, unit) FrameWriteError + _, w')" and "length hs = 2"
    by (rule example_sends)
  then obtain h1 h2 where hs: "hs = [h1, h2]"
    by (auto simp: numeral_2_eq_2 length_Suc_conv)
  let ?r = "\<lparr>fr_input = fw_output w' @ [], fr_version = ?v, fr_limits = secure_default, fr_next_sequence = 1\<rparr>"
  have rb: "\<forall>(rid, m) \<in> set ?ms. reads_back example_encode example_raw m"
    by (simp add: reads_back_def example_raw_def nested_result_def)
  have writer: "(framed_writer_new [] ?v secure_default :: (unit, unit) FrameWriteError + _) = Inr example_writer"
    and reader: "(framed_reader_new (fw_output w' @ []) ?v secure_default :: (unit, unit) FrameReadError + _) = Inr ?r"
    by (simp_all add: framed_writer_new_def framed_reader_new_def example_writer_def rbind_Inr_iff)
  have n: "1 = length (takeWhile (\<lambda>x. deliverable secure_default example_encode (snd x)) ?ms)"
    by (simp add: cancel_deliverable example_undeliverable(2))
  from framed_round_trip [where cid = "\<lambda>_. ()" and custom = "\<lambda>_. ()", OF _ rb writer send reader n]
  obtain r' where r': "map frame_request_id hs = [9, 10]" "fr_limits r' = secure_default"
      "receive_all (\<lambda>_ _. True) slice_read_exact example_raw (\<lambda>_. ()) (\<lambda>_. ()) ?r [Cancel] =
        (Inr [\<lparr>rm_header = h1, rm_payload = MCancel \<lparr>rx_request_id = 7\<rparr>\<rparr>], r')"
      "refuses (\<lambda>_ _. True) slice_read_exact example_encode example_raw (\<lambda>_. ()) (\<lambda>_. ()) r' (nested_result 40)"
    by (auto simp: hs simp del: receive_all.simps)
  have "\<not> preflight_ok secure_default (payload_of example_encode (nested_result 40))"
    using example_undeliverable nested_result_undeliverable [of 40 example_encode "\<lambda>_ _. True"]
    by (auto simp: deliverable_def payload_of_def example_encode_def nested_result_def)
  with r' send hs show ?thesis
    by (auto simp: refuses_def nested_result_def simp del: receive_all.simps send_all.simps)
qed

subsection \<open>What a reader can be made to accept\<close>

text \<open>
  A run of a reader against an arbitrary transport: every call asks for some kind, failed
  calls are allowed and the run goes on after them.
\<close>

fun receive_run ::
    "allocator \<Rightarrow> ('r \<Rightarrow> usize \<Rightarrow> ('io + bytes) \<times> 'r) \<Rightarrow> (MessageKind \<Rightarrow> bytes \<Rightarrow> 'de + RawMessage) \<Rightarrow>
     (IdentifierError \<Rightarrow> 'de) \<Rightarrow> (RuntimeProtocolContractError \<Rightarrow> 'de) \<Rightarrow> 'r FramedReader \<Rightarrow>
     MessageKind list \<Rightarrow> ReceivedMessage list" where
  "receive_run alloc read_exact raw cid custom r [] = []"
| "receive_run alloc read_exact raw cid custom r (k # ks) =
     (case framed_reader_receive alloc read_exact raw cid custom r k of
        (Inl e, r') \<Rightarrow> receive_run alloc read_exact raw cid custom r' ks
      | (Inr x, r') \<Rightarrow> x # receive_run alloc read_exact raw cid custom r' ks)"

definition accepted_frame :: "ProtocolVersion \<Rightarrow> ProtocolLimits \<Rightarrow> ReceivedMessage \<Rightarrow> bool" where
  "accepted_frame v l x \<longleftrightarrow>
     protocol_major (rm_header x) = pv_major v \<and> protocol_minor (rm_header x) = pv_minor v \<and>
     frame_length (rm_header x) \<le> max_frame_bytes l \<and> frame_flags (rm_header x) = 0 \<and>
     message_ok secure_default (rm_payload x) \<and> message_ok l (rm_payload x)"

lemma message_ok_limits:
  assumes "message_ok l' m" and "validate_message alloc m l = Inr u"
  shows "message_ok l m"
  using assms validate_message_sound [OF assms(2)] by (cases m) auto

lemma framed_reader_decode_Inr:
  "framed_reader_decode alloc raw cid custom r k bs = Inr m \<Longrightarrow>
     message_ok secure_default m \<and> message_ok (fr_limits r) m"
  by (auto simp: framed_reader_decode_def rbind_Inr_iff dest: message_construct_sound message_ok_limits)

lemma framed_reader_header_Inr:
  "framed_reader_header r k bs = Inr h \<Longrightarrow>
     frame_header_decode bs = Inr h \<and> protocol_major h = pv_major (fr_version r) \<and>
     protocol_minor h = pv_minor (fr_version r) \<and> frame_length h \<le> max_frame_bytes (fr_limits r) \<and>
     frame_sequence h = fr_next_sequence r \<and> message_kind h = k"
  by (auto simp: framed_reader_header_def rbind_Inr_iff split: if_splits)

lemma receive_step:
  fixes read_exact :: "'r \<Rightarrow> usize \<Rightarrow> ('io + bytes) \<times> 'r"
    and raw :: "MessageKind \<Rightarrow> bytes \<Rightarrow> 'de + RawMessage"
  assumes "framed_reader_receive alloc read_exact raw cid custom r k = (res, r')"
  shows "fr_version r' = fr_version r \<and> fr_limits r' = fr_limits r \<and>
    (case res of
       Inl e \<Rightarrow> fr_next_sequence r' = fr_next_sequence r
     | Inr x \<Rightarrow> checked_add (fr_next_sequence r) 1 = Some (fr_next_sequence r') \<and>
         accepted_frame (fr_version r) (fr_limits r) x \<and> message_kind (rm_header x) = k \<and>
         frame_sequence (rm_header x) = fr_next_sequence r)"
proof (cases res)
  case (Inl e)
  with assms show ?thesis
    unfolding framed_reader_receive_def
    by (auto split: prod.splits sum.splits if_splits option.splits)
next
  case (Inr x)
  with assms obtain hb h bs m n inp where
    hd: "(framed_reader_header r k hb :: ('io, 'de) FrameReadError + FrameHeader) = Inr h"
    and dec: "(framed_reader_decode alloc raw cid custom r k bs :: ('io, 'de) FrameReadError + ProtocolMessage) = Inr m"
    and n: "checked_add (fr_next_sequence r) 1 = Some n"
    and x: "x = \<lparr>rm_header = h, rm_payload = m\<rparr>" "r' = r\<lparr>fr_input := inp, fr_next_sequence := n\<rparr>"
    unfolding framed_reader_receive_def
    by (auto split: prod.splits sum.splits if_splits option.splits)
  from framed_reader_header_Inr [OF hd] have "frame_flags h = 0"
    using encode_decode(2) by blast
  with framed_reader_header_Inr [OF hd] framed_reader_decode_Inr [OF dec] Inr n x show ?thesis
    by (simp add: accepted_frame_def)
qed

text \<open>
  Whatever the peer sends and whatever kinds are asked for, the frames a reader accepts
  over a run carry consecutive sequence numbers from the reader's current one (no replay, no
  gap, no reordering, and failed calls consume none), the negotiated version, a declared
  length within the limit, no flags, and a payload that satisfies its contract under both
  the negotiated and the default limits.
\<close>

theorem receive_run_ordered:
  "let xs = receive_run alloc read_exact raw cid custom r ks;
       n = unat (fr_next_sequence r)
   in map (\<lambda>x. unat (frame_sequence (rm_header x))) xs = [n ..< n + length xs] \<and>
      list_all (accepted_frame (fr_version r) (fr_limits r)) xs"
proof (induction ks arbitrary: r)
  case Nil
  then show ?case by simp
next
  case (Cons k ks)
  obtain res r' where s: "framed_reader_receive alloc read_exact raw cid custom r k = (res, r')"
    by (cases "framed_reader_receive alloc read_exact raw cid custom r k")
  show ?case
  proof (cases res)
    case (Inl e)
    with s receive_step [OF s] Cons.IH [of r'] show ?thesis
      by (simp add: Let_def)
  next
    case (Inr x)
    with receive_step [OF s] have "unat (fr_next_sequence r') = Suc (unat (fr_next_sequence r))"
      using checked_add_unat by fastforce
    with Inr s receive_step [OF s] Cons.IH [of r'] show ?thesis
      by (simp add: Let_def upt_rec)
  qed
qed

text \<open>
  Limits above the defaults do not survive a connection. Stream data that is within the
  negotiated inline ceiling but above the default one is constructed (and so sent) under the
  negotiated limits, while its own deserialization rejects it, because every
  \<open>Deserialize\<close> implementation validates against \<open>secure_default\<close>.
\<close>

theorem stream_data_above_default:
  assumes "limits_positive l" and "sequence \<noteq> 0"
    and "unat (max_inline_buffer_bytes secure_default) < length bs"
    and "length bs \<le> unat (max_inline_buffer_bytes l)"
  shows "is_ok (stream_data_new s sequence bs l) \<and>
    stream_data_deserialize Inr custom (s, sequence, bs) =
      Inl (custom (RpInlineBytesExceeded (unat (max_inline_buffer_bytes secure_default)) (length bs)))"
proof -
  have "limits_validate l = Inr ()" "limits_validate secure_default = Inr ()"
    using assms(1) by simp_all
  moreover have "bs \<noteq> []"
    using assms(3) by auto
  ultimately show ?thesis
    using assms(2-4) unfolding stream_data_new_def stream_data_deserialize_def validate_stream_data_def
      validate_inline_bytes_def
    by (simp only: rbind_simps map_err_simps prod.case if_False not_less [symmetric]) simp
qed

theorem stream_data_above_default_witness:
  "stream_data_deserialize Inr (\<lambda>e. e) (opaque_handle_new 5 1 0, 1, replicate 300000 0) =
     Inl (RpInlineBytesExceeded 262144 300000)"
  using stream_data_above_default [of "secure_default\<lparr>max_inline_buffer_bytes := 300000\<rparr>" 1
      "replicate 300000 0" "opaque_handle_new 5 1 0" "\<lambda>e. e"]
  by (simp add: limits_positive_def secure_default_def)

end
