(* ===== verification/Handshake.thy ===== *)
theory Handshake
  imports Runtime_Messages
begin

section \<open>The authenticated handshake\<close>

text \<open>
  The first half of \<open>weregopher-runtime-protocol/src/session.rs\<close>: the nonce challenge, the
  domain-separated possession proof, the host's one-use verifier and the worker's check of
  the answer. SHA-256 is the parameter \<open>sha256\<close>; what is hashed is explicit
  (\<open>nonce_preimage\<close>). Consuming \<open>self\<close> makes both verifiers one-use in the code; here they
  are ordinary values.
\<close>

datatype NonceChallengeError = NonceAllZero

type_synonym NonceChallenge = bytes

definition nonce_challenge_from_bytes :: "bytes \<Rightarrow> NonceChallengeError + NonceChallenge" where
  "nonce_challenge_from_bytes bs = (if bs = replicate 32 0 then Inl NonceAllZero else Inr bs)"

definition NONCE_PROOF_DOMAIN :: bytes where
  "NONCE_PROOF_DOMAIN = str_bytes ''weregopher.runtime-protocol.nonce-proof.v1'' @ [0]"

definition uuid_bytes :: "uuid \<Rightarrow> bytes" where
  "uuid_bytes u = to_be 16 (unat u)"

definition update_length_prefixed :: "bytes \<Rightarrow> bytes" where
  "update_length_prefixed v = to_le 8 (min (length v) (2 ^ 64 - 1)) @ v"

definition nonce_preimage ::
    "NonceChallenge \<Rightarrow> RuntimeId \<Rightarrow> AppInstanceId \<Rightarrow> RuntimeBackendIdentity \<Rightarrow> u32 \<Rightarrow> bytes" where
  "nonce_preimage nonce runtime app backend peer_pid =
     NONCE_PROOF_DOMAIN @ nonce @ uuid_bytes runtime @ uuid_bytes app @
     update_length_prefixed (str_bytes (rb_id backend)) @
     update_length_prefixed (str_bytes (rb_version backend)) @
     to_le 4 (unat peer_pid)"

definition nonce_possession_proof ::
    "(bytes \<Rightarrow> bytes) \<Rightarrow> NonceChallenge \<Rightarrow> RuntimeId \<Rightarrow> AppInstanceId \<Rightarrow> RuntimeBackendIdentity \<Rightarrow> u32 \<Rightarrow>
     bytes" where
  "nonce_possession_proof sha256 nonce runtime app backend peer_pid =
     sha256 (nonce_preimage nonce runtime app backend peer_pid)"

datatype HandshakeError =
    HsZeroPeerPid
  | HsObservedPeerPidMismatch u32 u32
  | HsRuntimeIdentityMismatch
  | HsNoCompatibleVersion
  | HsNonceProofMismatch
  | HsInvalidLimits ProtocolLimitError
  | HsInvalidWelcome RuntimeProtocolContractError

record HostHandshake =
  hh_nonce :: NonceChallenge
  hh_expected_peer_pid :: u32
  hh_runtime :: RuntimeId
  hh_app :: AppInstanceId
  hh_backend :: RuntimeBackendIdentity
  hh_versions :: ProtocolVersionRange
  hh_features :: ProtocolFeatures
  hh_hard_limits :: ProtocolLimits
  hh_session :: ProtocolSessionId
  hh_compatibility :: CompatibilityAnalysisDigest
  hh_heartbeat :: HeartbeatPolicy

definition host_handshake_new ::
    "NonceChallenge \<Rightarrow> u32 \<Rightarrow> RuntimeId \<Rightarrow> AppInstanceId \<Rightarrow> RuntimeBackendIdentity \<Rightarrow>
     ProtocolVersionRange \<Rightarrow> ProtocolFeatures \<Rightarrow> ProtocolLimits \<Rightarrow> ProtocolSessionId \<Rightarrow>
     CompatibilityAnalysisDigest \<Rightarrow> HeartbeatPolicy \<Rightarrow> HandshakeError + HostHandshake" where
  "host_handshake_new nonce expected_peer_pid runtime app backend versions features hard_limits
     session compatibility heartbeat =
     (if expected_peer_pid = 0 then Inl HsZeroPeerPid
      else rbind (map_err HsInvalidLimits (limits_validate hard_limits)) (\<lambda>_.
        Inr \<lparr>hh_nonce = nonce, hh_expected_peer_pid = expected_peer_pid, hh_runtime = runtime,
             hh_app = app, hh_backend = backend, hh_versions = versions, hh_features = features,
             hh_hard_limits = hard_limits, hh_session = session,
             hh_compatibility = compatibility, hh_heartbeat = heartbeat\<rparr>))"

definition host_negotiate ::
    "(bytes \<Rightarrow> bytes) \<Rightarrow> HostHandshake \<Rightarrow> RuntimeHello \<Rightarrow> u32 \<Rightarrow> HandshakeError + RuntimeWelcome" where
  "host_negotiate sha256 self hello observed_peer_pid =
     (if observed_peer_pid \<noteq> hh_expected_peer_pid self
      then Inl (HsObservedPeerPidMismatch (hh_expected_peer_pid self) observed_peer_pid)
      else if rh_runtime hello \<noteq> hh_runtime self \<or> rh_app hello \<noteq> hh_app self \<or>
        rh_backend hello \<noteq> hh_backend self
      then Inl HsRuntimeIdentityMismatch
      else
        let expected_proof = nonce_possession_proof sha256 (hh_nonce self) (hh_runtime self)
              (hh_app self) (hh_backend self) observed_peer_pid
        in if rh_nonce_proof hello \<noteq> expected_proof then Inl HsNonceProofMismatch
        else
          rbind (ok_or HsNoCompatibleVersion
            (version_range_negotiate (hh_versions self) (rh_protocol_range hello))) (\<lambda>version.
          rbind (map_err HsInvalidLimits
            (limits_negotiate (rh_requested_limits hello) (hh_hard_limits self))) (\<lambda>limits.
          map_err HsInvalidWelcome
            (runtime_welcome_new (hh_session self) version limits (hh_compatibility self)
              (hh_heartbeat self) (features_negotiate (rh_capabilities hello) (hh_features self))))))"

datatype WorkerHandshakeError =
    WkUnsupportedVersion
  | WkFeaturesExpanded
  | WkLimitsExpanded
  | WkInvalidLimits ProtocolLimitError

record WorkerHandshake =
  wk_versions :: ProtocolVersionRange
  wk_offered_features :: ProtocolFeatures
  wk_requested_limits :: ProtocolLimits

definition worker_from_hello :: "RuntimeHello \<Rightarrow> WorkerHandshake" where
  "worker_from_hello hello =
     \<lparr>wk_versions = rh_protocol_range hello, wk_offered_features = rh_capabilities hello,
      wk_requested_limits = rh_requested_limits hello\<rparr>"

definition features_are_subset :: "ProtocolFeatures \<Rightarrow> ProtocolFeatures \<Rightarrow> bool" where
  "features_are_subset selected offered \<longleftrightarrow>
     (\<not> pf_calls selected \<or> pf_calls offered) \<and>
     (\<not> pf_cancellation selected \<or> pf_cancellation offered) \<and>
     (\<not> pf_events selected \<or> pf_events offered) \<and>
     (\<not> pf_credit_streams selected \<or> pf_credit_streams offered) \<and>
     (\<not> pf_sync_lane selected \<or> pf_sync_lane offered) \<and>
     (\<not> pf_shared_buffers selected \<or> pf_shared_buffers offered)"

definition worker_accept :: "WorkerHandshake \<Rightarrow> RuntimeWelcome \<Rightarrow> WorkerHandshakeError + unit" where
  "worker_accept self welcome =
     (let selected = rw_version welcome in
      if pv_major selected \<noteq> pv_major (vr_minimum (wk_versions self)) \<or>
         pv_minor selected < pv_minor (vr_minimum (wk_versions self)) \<or>
         pv_minor selected > pv_minor (vr_maximum (wk_versions self))
      then Inl WkUnsupportedVersion
      else if \<not> features_are_subset (rw_features welcome) (wk_offered_features self)
      then Inl WkFeaturesExpanded
      else rbind (map_err WkInvalidLimits
          (limits_negotiate (rw_limits welcome) (wk_requested_limits self))) (\<lambda>bounded.
        if bounded \<noteq> rw_limits welcome then Inl WkLimitsExpanded else Inr ()))"

subsection \<open>The proof binds every input\<close>

lemma char_byte_inj: "(of_nat (of_char c) :: u8) = of_nat (of_char d) \<longleftrightarrow> c = d"
proof
  assume "(of_nat (of_char c) :: u8) = of_nat (of_char d)"
  then have "unat (of_nat (of_char c) :: u8) = unat (of_nat (of_char d) :: u8)"
    by (rule arg_cong)
  then show "c = d"
    by (simp add: unat_of_nat)
qed simp

lemma str_bytes_inj: "str_bytes s = str_bytes t \<longleftrightarrow> s = t"
  unfolding str_bytes_def by (simp add: inj_map_eq_map inj_def char_byte_inj)

lemma uuid_bytes_inj: "uuid_bytes u = uuid_bytes v \<longleftrightarrow> u = v"
proof
  assume "uuid_bytes u = uuid_bytes v"
  then have "be_nat (to_be 16 (unat u)) = be_nat (to_be 16 (unat v))"
    by (simp add: uuid_bytes_def)
  moreover have "unat u < 256 ^ 16" "unat v < 256 ^ 16"
    using unsigned_less [of u, where ?'a = nat] unsigned_less [of v, where ?'a = nat] by simp_all
  ultimately show "u = v"
    by (simp add: be_nat_to_be word_unat_eq_iff)
qed simp

lemma length_uuid_bytes [simp]: "length (uuid_bytes u) = 16"
  by (simp add: uuid_bytes_def)

lemma length_prefixed_inj:
  assumes "update_length_prefixed a @ x = update_length_prefixed b @ y"
    and "length a < 2 ^ 64" "length b < 2 ^ 64"
  shows "a = b \<and> x = y"
proof -
  from assms(1) have p: "to_le 8 (min (length a) (2 ^ 64 - 1)) = to_le 8 (min (length b) (2 ^ 64 - 1))"
    and r: "a @ x = b @ y"
    by (simp_all add: update_length_prefixed_def)
  from p have "min (length a) (2 ^ 64 - 1) = min (length b) (2 ^ 64 - 1)"
    by (rule to_le_eqD) (simp_all add: min_def)
  with assms(2,3) have "length a = length b"
    by (simp add: min_def split: if_splits)
  with r show ?thesis by simp
qed

lemma u32_le_inj: "to_le 4 (unat (p :: u32)) = to_le 4 (unat q) \<longleftrightarrow> p = q"
proof
  assume "to_le 4 (unat p) = to_le 4 (unat q)"
  moreover have "unat p < 256 ^ 4" "unat q < 256 ^ 4"
    using unsigned_less [of p, where ?'a = nat] unsigned_less [of q, where ?'a = nat] by simp_all
  ultimately show "p = q"
    using to_le_eqD word_unat_eq_iff by blast
qed simp

text \<open>
  The possession proof binds its inputs. The hashed bytes determine the nonce, the
  runtime, the application, the backend's identifier and version and the peer's process id:
  no two different handshakes have the same preimage.
\<close>

theorem nonce_preimage_injective:
  assumes "length n = 32" and "length n' = 32"
    and "length (rb_id b) < 2 ^ 64" and "length (rb_version b) < 2 ^ 64"
    and "length (rb_id b') < 2 ^ 64" and "length (rb_version b') < 2 ^ 64"
    and "nonce_preimage n r a b p = nonce_preimage n' r' a' b' p'"
  shows "n = n' \<and> r = r' \<and> a = a' \<and> b = b' \<and> p = p'"
proof -
  from assms(7) have "n = n' \<and> uuid_bytes r @ uuid_bytes a @
      update_length_prefixed (str_bytes (rb_id b)) @ update_length_prefixed (str_bytes (rb_version b)) @
      to_le 4 (unat p) =
    uuid_bytes r' @ uuid_bytes a' @
      update_length_prefixed (str_bytes (rb_id b')) @ update_length_prefixed (str_bytes (rb_version b')) @
      to_le 4 (unat p')"
    using assms(1,2) by (simp add: nonce_preimage_def)
  then have n: "n = n'" and r: "r = r'" and a: "a = a'"
    and u: "update_length_prefixed (str_bytes (rb_id b)) @
        update_length_prefixed (str_bytes (rb_version b)) @ to_le 4 (unat p) =
      update_length_prefixed (str_bytes (rb_id b')) @
        update_length_prefixed (str_bytes (rb_version b')) @ to_le 4 (unat p')"
    by (simp_all add: uuid_bytes_inj)
  from length_prefixed_inj [OF u] assms(3,5) have "rb_id b = rb_id b'"
    and u': "update_length_prefixed (str_bytes (rb_version b)) @ to_le 4 (unat p) =
      update_length_prefixed (str_bytes (rb_version b')) @ to_le 4 (unat p')"
    by (simp_all add: str_bytes_inj)
  moreover from length_prefixed_inj [OF u'] assms(4,6) have "rb_version b = rb_version b'" "p = p'"
    by (simp_all add: str_bytes_inj u32_le_inj)
  ultimately show ?thesis
    using n r a by (cases b; cases b') simp
qed

theorem nonce_preimage_injective_witness:
  "nonce_preimage (replicate 32 1) 2 3 \<lparr>rb_id = ''node'', rb_version = ''1''\<rparr> 4 \<noteq>
   nonce_preimage (replicate 32 1) 2 3 \<lparr>rb_id = ''nod'', rb_version = ''e1''\<rparr> 4"
  using nonce_preimage_injective [of "replicate 32 1" "replicate 32 1" "\<lparr>rb_id = ''node'', rb_version = ''1''\<rparr>"
      "\<lparr>rb_id = ''nod'', rb_version = ''e1''\<rparr>" 2 3 4 2 3 4]
  by auto

subsection \<open>Host and worker agree\<close>

lemma features_negotiate_subset:
  "features_are_subset (features_negotiate f g) f" "features_are_subset (features_negotiate f g) g"
  by (simp_all add: features_are_subset_def features_negotiate_def)

lemma host_negotiate_Inr:
  assumes "limits_positive (hh_hard_limits self)"
  shows "host_negotiate sha256 self hello pid = Inr w \<longleftrightarrow>
    pid = hh_expected_peer_pid self \<and> rh_runtime hello = hh_runtime self \<and>
    rh_app hello = hh_app self \<and> rh_backend hello = hh_backend self \<and>
    rh_nonce_proof hello = nonce_possession_proof sha256 (hh_nonce self) (hh_runtime self)
      (hh_app self) (hh_backend self) pid \<and>
    version_range_negotiate (hh_versions self) (rh_protocol_range hello) = Some (rw_version w) \<and>
    limits_negotiate (rh_requested_limits hello) (hh_hard_limits self) = Inr (rw_limits w) \<and>
    w = \<lparr>rw_session = hh_session self, rw_version = rw_version w, rw_limits = rw_limits w,
      rw_compatibility = hh_compatibility self, rw_heartbeat = hh_heartbeat self,
      rw_features = features_negotiate (rh_capabilities hello) (hh_features self)\<rparr>"
  unfolding host_negotiate_def runtime_welcome_new_def
  by (cases w) (auto simp: rbind_Inr_iff Let_def limits_negotiate_lower(1))

lemma worker_accept_Inr:
  "worker_accept self w = Inr u \<longleftrightarrow>
     in_range (rw_version w) (wk_versions self) \<and>
     features_are_subset (rw_features w) (wk_offered_features self) \<and>
     limits_negotiate (rw_limits w) (wk_requested_limits self) = Inr (rw_limits w)"
  by (auto simp: worker_accept_def in_range_def rbind_Inr_iff Let_def)

lemma worker_accepts_narrowed:
  "limits_positive n \<Longrightarrow> limits_positive l \<Longrightarrow>
     limits_negotiate n l = Inr n \<longleftrightarrow> limits_le n l"
  using limits_negotiate_narrowed [of n l] limits_negotiate_lower(3) [of n l n] by auto

text \<open>
  C10: the two ends of the handshake agree. Whenever the host's verifier lets a validated
  hello through, the hello came from the expected process with the expected runtime,
  application and backend and proved possession of the nonce, and the welcome it returns is
  accepted by the worker that sent the hello: its version lies in both ranges, its limits
  are at most the worker's request and the host's caps, and no feature is enabled that
  either side did not offer.
\<close>

theorem handshake_agreement:
  assumes "host_handshake_new nonce pid runtime app backend versions features hard session compatibility hb = Inr host"
    and "range_wf versions" and "hello_wf hello"
    and "host_negotiate sha256 host hello observed = Inr w"
  shows "worker_accept (worker_from_hello hello) w = Inr () \<and>
    observed = pid \<and> rh_runtime hello = runtime \<and> rh_app hello = app \<and> rh_backend hello = backend \<and>
    rh_nonce_proof hello = nonce_possession_proof sha256 nonce runtime app backend pid \<and>
    in_range (rw_version w) versions \<and> in_range (rw_version w) (rh_protocol_range hello) \<and>
    limits_le (rw_limits w) (rh_requested_limits hello) \<and> limits_le (rw_limits w) hard \<and>
    features_are_subset (rw_features w) features \<and> rw_session w = session"
proof -
  have host: "host = \<lparr>hh_nonce = nonce, hh_expected_peer_pid = pid, hh_runtime = runtime,
      hh_app = app, hh_backend = backend, hh_versions = versions, hh_features = features,
      hh_hard_limits = hard, hh_session = session, hh_compatibility = compatibility, hh_heartbeat = hb\<rparr>"
    and hard: "limits_positive hard"
    using assms(1) by (auto simp: host_handshake_new_def rbind_Inr_iff split: if_splits)
  have "limits_positive (hh_hard_limits host)"
    using hard host by simp
  note n = assms(4) [unfolded host_negotiate_Inr [OF this]]
  from n have v: "version_range_negotiate versions (rh_protocol_range hello) = Some (rw_version w)"
    and l: "limits_negotiate (rh_requested_limits hello) hard = Inr (rw_limits w)"
    and w: "rw_features w = features_negotiate (rh_capabilities hello) features" "rw_session w = session"
    and i: "observed = pid" "rh_runtime hello = runtime" "rh_app hello = app" "rh_backend hello = backend"
      "rh_nonce_proof hello = nonce_possession_proof sha256 nonce runtime app backend pid"
    unfolding host by (simp_all, metis RuntimeWelcome.select_convs)+
  have req: "limits_positive (rh_requested_limits hello)" "range_wf (rh_protocol_range hello)"
    using assms(3) by (simp_all add: hello_wf_def)
  note vr = version_range_negotiate_in_range [OF assms(2) req(2) v]
  note le = limits_negotiate_lower [OF l]
  have "worker_accept (worker_from_hello hello) w = Inr ()"
    unfolding worker_accept_Inr
    using vr le w features_negotiate_subset worker_accepts_narrowed [OF le(1) req(1)]
    by (simp add: worker_from_hello_def)
  with vr le w i features_negotiate_subset show ?thesis
    by simp
qed

theorem handshake_agreement_witness:
  "let v = (\<lambda>m. \<lparr>pv_major = 1, pv_minor = m\<rparr>);
       backend = \<lparr>rb_id = ''node'', rb_version = ''22.1''\<rparr>;
       hello = \<lparr>rh_runtime = 1, rh_app = 2, rh_backend = backend,
         rh_protocol_range = \<lparr>vr_minimum = v 0, vr_maximum = v 3\<rparr>, rh_nonce_proof = replicate 32 7,
         rh_capabilities = features_g1_control, rh_requested_limits = secure_default\<rparr>;
       w = \<lparr>rw_session = 9, rw_version = v 1, rw_limits = secure_default, rw_compatibility = [],
         rw_heartbeat = \<lparr>hb_interval_millis = 10, hb_timeout_millis = 20\<rparr>, rw_features = features_g1_control\<rparr>
   in worker_accept (worker_from_hello hello) w = Inr ()"
proof -
  let ?v = "\<lambda>m. \<lparr>pv_major = 1, pv_minor = m\<rparr> :: ProtocolVersion"
    and ?backend = "\<lparr>rb_id = ''node'', rb_version = ''22.1''\<rparr>"
    and ?hb = "\<lparr>hb_interval_millis = 10, hb_timeout_millis = 20\<rparr> :: HeartbeatPolicy"
  let ?versions = "\<lparr>vr_minimum = ?v 1, vr_maximum = ?v 1\<rparr>"
  let ?hello = "\<lparr>rh_runtime = 1, rh_app = 2, rh_backend = ?backend,
         rh_protocol_range = \<lparr>vr_minimum = ?v 0, vr_maximum = ?v 3\<rparr>, rh_nonce_proof = replicate 32 7,
         rh_capabilities = features_g1_control, rh_requested_limits = secure_default\<rparr>"
    and ?w = "\<lparr>rw_session = 9, rw_version = ?v 1, rw_limits = secure_default, rw_compatibility = [],
         rw_heartbeat = ?hb, rw_features = features_g1_control\<rparr>"
    and ?host = "\<lparr>hh_nonce = replicate 32 5, hh_expected_peer_pid = 4, hh_runtime = 1,
      hh_app = 2, hh_backend = ?backend, hh_versions = ?versions, hh_features = features_g1_control,
      hh_hard_limits = secure_default, hh_session = 9, hh_compatibility = [], hh_heartbeat = ?hb\<rparr>"
  have lim: "limits_negotiate secure_default secure_default = Inr secure_default"
    using limits_negotiate_narrowed [of secure_default secure_default] by (simp add: limits_le_def)
  have new: "host_handshake_new (replicate 32 5) 4 1 2 ?backend ?versions features_g1_control
      secure_default 9 [] ?hb = Inr ?host"
    by (simp add: host_handshake_new_def rbind_Inr_iff)
  have neg: "host_negotiate (\<lambda>_. replicate 32 7) ?host ?hello 4 = Inr ?w"
    by (subst host_negotiate_Inr)
      (simp_all add: lim nonce_possession_proof_def version_range_negotiate_def Let_def
        features_negotiate_def features_g1_control_def)
  have "range_wf ?versions" "hello_wf ?hello"
    by (simp_all add: range_wf_def version_wf_def hello_wf_def backend_wf_def
        MAX_PROTOCOL_BACKEND_VERSION_BYTES_def replicate_eq_replicate)
  with handshake_agreement [OF new _ _ neg] show ?thesis
    by (simp add: Let_def)
qed

end
