(* ===== verification/Session_State.thy ===== *)
theory Session_State
  imports Runtime_Prelude
begin

section \<open>Per-session state: pending requests and stream credit\<close>

text \<open>
  The two state machines of \<open>weregopher-runtime-protocol/src/session.rs\<close>. An \<open>Instant\<close> and
  a \<open>Duration\<close> are numbers of ticks; \<open>horizon\<close>, a parameter, is the last instant the
  platform can represent. The \<open>BTreeMap\<close> of requests is a sorted association list. Each
  machine is a step function over its calls, with an interpretation of the prelude's
  \<open>transactional_machine\<close>: its invariant holds over every run, and a failed call changes nothing.
\<close>

subsection \<open>Pending requests\<close>

type_synonym Instant = nat
type_synonym Duration = nat

record PendingRequest =
  pq_deadline :: Instant
  pq_cancelled :: bool

datatype RequestCancellation = NewlyCancelled | AlreadyCancelled

datatype CallCompletion = Delivered | DiscardedAfterCancellation

datatype PendingRequestError =
    PqZeroMaximum
  | PqZeroTimeout
  | PqDeadlineOverflow
  | PqCapacityExceeded u32
  | PqRequestIdExhausted
  | PqUnknownRequest u64

record PendingRequests =
  pq_maximum :: u32
  pq_next_request_id :: u64
  pq_requests :: "(u64 \<times> PendingRequest) list"

definition pending_requests_new :: "u32 \<Rightarrow> PendingRequestError + PendingRequests" where
  "pending_requests_new maximum =
     (if maximum = 0 then Inl PqZeroMaximum
      else Inr \<lparr>pq_maximum = maximum, pq_next_request_id = 1, pq_requests = []\<rparr>)"

definition instant_checked_add :: "Instant \<Rightarrow> Instant \<Rightarrow> Duration \<Rightarrow> Instant option" where
  "instant_checked_add horizon now timeout =
     (if now + timeout \<le> horizon then Some (now + timeout) else None)"

definition pending_begin ::
    "Instant \<Rightarrow> PendingRequests \<Rightarrow> Instant \<Rightarrow> Duration \<Rightarrow> (PendingRequestError + u64) \<times> PendingRequests" where
  "pending_begin horizon s now timeout =
     (if timeout = 0 then (Inl PqZeroTimeout, s)
      else if length (pq_requests s) \<ge> unat (pq_maximum s)
      then (Inl (PqCapacityExceeded (pq_maximum s)), s)
      else case instant_checked_add horizon now timeout of
        None \<Rightarrow> (Inl PqDeadlineOverflow, s)
      | Some deadline \<Rightarrow>
          (case checked_add (pq_next_request_id s) 1 of
             None \<Rightarrow> (Inl PqRequestIdExhausted, s)
           | Some next_request_id \<Rightarrow>
               (Inr (pq_next_request_id s),
                s\<lparr>pq_requests := bt_insert (pq_next_request_id s)
                    \<lparr>pq_deadline = deadline, pq_cancelled = False\<rparr> (pq_requests s),
                  pq_next_request_id := next_request_id\<rparr>)))"

definition pending_cancel ::
    "PendingRequests \<Rightarrow> u64 \<Rightarrow> (PendingRequestError + RequestCancellation) \<times> PendingRequests" where
  "pending_cancel s request_id =
     (case bt_get (pq_requests s) request_id of
        None \<Rightarrow> (Inl (PqUnknownRequest request_id), s)
      | Some request \<Rightarrow>
          if pq_cancelled request then (Inr AlreadyCancelled, s)
          else (Inr NewlyCancelled,
            s\<lparr>pq_requests := bt_insert request_id (request\<lparr>pq_cancelled := True\<rparr>) (pq_requests s)\<rparr>))"

definition pending_complete ::
    "PendingRequests \<Rightarrow> u64 \<Rightarrow> (PendingRequestError + CallCompletion) \<times> PendingRequests" where
  "pending_complete s request_id =
     (case bt_get (pq_requests s) request_id of
        None \<Rightarrow> (Inl (PqUnknownRequest request_id), s)
      | Some request \<Rightarrow>
          (Inr (if pq_cancelled request then DiscardedAfterCancellation else Delivered),
           s\<lparr>pq_requests := bt_remove request_id (pq_requests s)\<rparr>))"

definition pending_expire :: "PendingRequests \<Rightarrow> Instant \<Rightarrow> u64 list \<times> PendingRequests" where
  "pending_expire s now =
     (let expired = map fst (filter (\<lambda>(request_id, request). pq_deadline request \<le> now) (pq_requests s))
      in (expired, s\<lparr>pq_requests := fold bt_remove expired (pq_requests s)\<rparr>))"

definition pending_is_empty :: "PendingRequests \<Rightarrow> bool" where
  "pending_is_empty s \<longleftrightarrow> pq_requests s = []"

definition pending_len :: "PendingRequests \<Rightarrow> usize" where
  "pending_len s = length (pq_requests s)"

text \<open>The calls as one step function.\<close>

datatype pending_op =
    PBegin Instant Duration
  | PCancel u64
  | PComplete u64
  | PExpire Instant

datatype pending_event =
    EIssued u64
  | ECancelled u64 RequestCancellation
  | ECompleted u64 CallCompletion
  | EExpired "u64 list"

fun pending_step ::
    "Instant \<Rightarrow> PendingRequests \<Rightarrow> pending_op \<Rightarrow> (PendingRequestError + pending_event) \<times> PendingRequests" where
  "pending_step horizon s (PBegin now timeout) =
     (case pending_begin horizon s now timeout of (r, s') \<Rightarrow> (rbind r (\<lambda>i. Inr (EIssued i)), s'))"
| "pending_step horizon s (PCancel i) =
     (case pending_cancel s i of (r, s') \<Rightarrow> (rbind r (\<lambda>c. Inr (ECancelled i c)), s'))"
| "pending_step horizon s (PComplete i) =
     (case pending_complete s i of (r, s') \<Rightarrow> (rbind r (\<lambda>c. Inr (ECompleted i c)), s'))"
| "pending_step horizon s (PExpire now) =
     (case pending_expire s now of (expired, s') \<Rightarrow> (Inr (EExpired expired), s'))"

definition pending_inv :: "PendingRequests \<Rightarrow> bool" where
  "pending_inv s \<longleftrightarrow> bt_wf (pq_requests s) \<and> length (pq_requests s) \<le> unat (pq_maximum s) \<and>
     0 < pq_next_request_id s \<and> (\<forall>i \<in> dom (bt_get (pq_requests s)). 0 < i \<and> i < pq_next_request_id s)"

lemma fold_bt_remove:
  "bt_wf m \<Longrightarrow> bt_wf (fold bt_remove ks m) \<and>
     bt_get (fold bt_remove ks m) = (\<lambda>k. if k \<in> set ks then None else bt_get m k) \<and>
     length (fold bt_remove ks m) \<le> length m"
proof (induction ks arbitrary: m)
  case Nil
  then show ?case by simp
next
  case (Cons k ks)
  have "length (bt_remove k m) \<le> length m"
    by (simp add: bt_remove_def)
  with Cons.IH [of "bt_remove k m"] Cons.prems show ?case
    by (auto simp: bt_laws fun_eq_iff intro: order_trans)
qed

lemma fresh_id:
  assumes "pending_inv s"
  shows "bt_get (pq_requests s) (pq_next_request_id s) = None"
proof (rule ccontr)
  assume "bt_get (pq_requests s) (pq_next_request_id s) \<noteq> None"
  then have "pq_next_request_id s \<in> dom (bt_get (pq_requests s))"
    by (simp add: domIff)
  with assms show False
    unfolding pending_inv_def by blast
qed

lemma pending_begin_Inr:
  assumes "pending_inv s" and "pending_begin horizon s now timeout = (Inr i, s')"
  shows "i = pq_next_request_id s \<and> unat (pq_next_request_id s') = Suc (unat i) \<and>
    timeout \<noteq> 0 \<and> now + timeout \<le> horizon \<and> length (pq_requests s) < unat (pq_maximum s) \<and>
    pq_maximum s' = pq_maximum s \<and>
    pq_requests s' = bt_insert i \<lparr>pq_deadline = now + timeout, pq_cancelled = False\<rparr> (pq_requests s)"
  using assms unfolding pending_begin_def
  by (auto simp: instant_checked_add_def not_le dest: checked_add_unat split: if_splits option.splits)

lemma pending_expire_ids:
  assumes "bt_wf (pq_requests s)" and "pending_expire s now = (ids, s')"
  shows "set ids = {i. \<exists>q. bt_get (pq_requests s) i = Some q \<and> pq_deadline q \<le> now}"
    and "sorted_wrt (<) ids"
    and "pq_requests s' = fold bt_remove ids (pq_requests s)" "pq_maximum s' = pq_maximum s"
    "pq_next_request_id s' = pq_next_request_id s"
proof -
  have ids: "ids = map fst (filter (\<lambda>(i, q). pq_deadline q \<le> now) (pq_requests s))"
    using assms(2) by (simp add: pending_expire_def Let_def)
  have sorted: "sorted_wrt (<) (map fst (pq_requests s))"
    using assms(1) by (simp add: bt_wf_def)
  then have d: "distinct (map fst (pq_requests s))"
    using strict_sorted_iff by blast
  show "set ids = {i. \<exists>q. bt_get (pq_requests s) i = Some q \<and> pq_deadline q \<le> now}"
    using map_of_eq_Some_iff [OF d] unfolding ids bt_get_def by force
  show "sorted_wrt (<) ids"
    unfolding ids using sorted
    by (simp add: sorted_wrt_map sorted_wrt_filter)
qed (use assms(2) in \<open>auto simp: pending_expire_def Let_def\<close>)

lemma pending_step_inv: "pending_inv s \<Longrightarrow> pending_inv (snd (pending_step horizon s x))"
proof (cases x)
  case (PBegin now timeout)
  assume inv: "pending_inv s"
  show ?thesis
  proof (cases "fst (pending_begin horizon s now timeout)")
    case (Inl e)
    then have "snd (pending_begin horizon s now timeout) = s"
      by (auto simp: pending_begin_def split: if_splits option.splits)
    with inv PBegin show ?thesis by (auto split: prod.splits)
  next
    case (Inr i)
    then obtain s' where b: "pending_begin horizon s now timeout = (Inr i, s')"
      by (cases "pending_begin horizon s now timeout") simp
    note e = pending_begin_Inr [OF inv b]
    have "i < pq_next_request_id s'"
      using e by (simp add: word_less_nat_alt)
    moreover have "length (pq_requests s') \<le> unat (pq_maximum s')"
      using e inv bt_sizes(1) [of "pq_requests s" i, OF _ fresh_id [OF inv, folded conjunct1 [OF e]]]
      by (simp add: pending_inv_def)
    ultimately have "pending_inv s'"
      using e inv unfolding pending_inv_def
      by (auto simp: bt_laws word_gt_0 intro: less_trans)
    with PBegin b show ?thesis by simp
  qed
next
  case (PCancel i)
  assume inv: "pending_inv s"
  then have "length (bt_insert i v (pq_requests s)) = length (pq_requests s)"
    if "bt_get (pq_requests s) i = Some w" for v w
    using bt_sizes(2) [OF _ that] by (simp add: pending_inv_def)
  with inv PCancel show ?thesis
    by (auto simp: pending_cancel_def pending_inv_def bt_laws split: option.splits)
next
  case (PComplete i)
  assume inv: "pending_inv s"
  have "length (bt_remove i (pq_requests s)) \<le> length (pq_requests s)"
    by (simp add: bt_remove_def)
  with inv PComplete show ?thesis
    by (auto simp: pending_complete_def pending_inv_def bt_laws split: option.splits)
next
  case (PExpire now)
  assume inv: "pending_inv s"
  obtain ids s' where e: "pending_expire s now = (ids, s')"
    by (cases "pending_expire s now")
  have wf: "bt_wf (pq_requests s)"
    using inv by (simp add: pending_inv_def)
  have "pending_inv s'"
    using inv fold_bt_remove [OF wf, of ids] pending_expire_ids(3-5) [OF wf e]
    unfolding pending_inv_def by (auto split: if_splits)
  with PExpire e show ?thesis by simp
qed

lemma pending_step_err: "fst (pending_step horizon s x) = Inl e \<Longrightarrow> snd (pending_step horizon s x) = s"
  by (cases x)
    (auto simp: pending_begin_def pending_cancel_def pending_complete_def pending_expire_def
      split: option.splits if_splits prod.splits)

interpretation pending: transactional_machine "pending_step horizon" pending_inv for horizon
  by unfold_locales (auto intro: pending_step_inv pending_step_err)

lemma pending_step_maximum: "pq_maximum (snd (pending_step horizon s x)) = pq_maximum s"
  by (cases x)
    (auto simp: pending_begin_def pending_cancel_def pending_complete_def pending_expire_def Let_def
      split: option.splits if_splits prod.splits)

lemma run_maximum: "pq_maximum (run_ops (pending_step horizon) s xs) = pq_maximum s"
  by (induction xs arbitrary: s) (auto simp: pending_step_maximum)

subsection \<open>A request's life\<close>

fun pending_trace :: "Instant \<Rightarrow> PendingRequests \<Rightarrow> pending_op list \<Rightarrow> pending_event list" where
  "pending_trace horizon s [] = []"
| "pending_trace horizon s (x # xs) =
     (case pending_step horizon s x of
        (Inl e, s') \<Rightarrow> pending_trace horizon s' xs
      | (Inr ev, s') \<Rightarrow> ev # pending_trace horizon s' xs)"

definition issued :: "pending_event list \<Rightarrow> u64 list" where
  "issued tr = concat (map (\<lambda>ev. case ev of EIssued i \<Rightarrow> [i] | _ \<Rightarrow> []) tr)"

definition resolved :: "pending_event list \<Rightarrow> u64 list" where
  "resolved tr = concat (map (\<lambda>ev. case ev of ECompleted i c \<Rightarrow> [i] | EExpired is \<Rightarrow> is | _ \<Rightarrow> []) tr)"

definition cancelled :: "pending_event list \<Rightarrow> u64 set" where
  "cancelled tr = {i. \<exists>c. ECancelled i c \<in> set tr}"

definition completions_ok :: "pending_event list \<Rightarrow> bool" where
  "completions_ok tr \<longleftrightarrow> (\<forall>k < length tr. \<forall>i c. tr ! k = ECompleted i c \<longrightarrow>
     (c = DiscardedAfterCancellation \<longleftrightarrow> i \<in> cancelled (take k tr)))"

lemma trace_snoc [simp]:
  "issued [] = []" "resolved [] = []" "cancelled [] = {}" "completions_ok []"
  "issued (tr @ [ev]) = issued tr @ (case ev of EIssued i \<Rightarrow> [i] | _ \<Rightarrow> [])"
  "resolved (tr @ [ev]) = resolved tr @ (case ev of ECompleted i c \<Rightarrow> [i] | EExpired is \<Rightarrow> is | _ \<Rightarrow> [])"
  "cancelled (tr @ [ev]) = cancelled tr \<union> (case ev of ECancelled i c \<Rightarrow> {i} | _ \<Rightarrow> {})"
  by (auto simp: issued_def resolved_def cancelled_def completions_ok_def split: pending_event.splits)

lemma completions_ok_snoc [simp]:
  "completions_ok (tr @ [ev]) \<longleftrightarrow> completions_ok tr \<and>
     (\<forall>i c. ev = ECompleted i c \<longrightarrow> (c = DiscardedAfterCancellation \<longleftrightarrow> i \<in> cancelled tr))"
  by (auto simp: completions_ok_def nth_append less_Suc_eq)

text \<open>What the state knows of the events so far.\<close>

definition history_ok :: "PendingRequests \<Rightarrow> pending_event list \<Rightarrow> bool" where
  "history_ok s tr \<longleftrightarrow> pending_inv s \<and>
     map unat (issued tr) = [1 ..< unat (pq_next_request_id s)] \<and>
     set (issued tr) = dom (bt_get (pq_requests s)) \<union> set (resolved tr) \<and>
     dom (bt_get (pq_requests s)) \<inter> set (resolved tr) = {} \<and> distinct (resolved tr) \<and>
     (\<forall>i q. bt_get (pq_requests s) i = Some q \<longrightarrow> (pq_cancelled q \<longleftrightarrow> i \<in> cancelled tr)) \<and>
     cancelled tr \<subseteq> set (issued tr) \<and> completions_ok tr"

lemma history_begin:
  assumes h: "history_ok s tr" and b: "pending_begin horizon s now timeout = (Inr i, s')"
    and inv: "pending_inv s'"
  shows "history_ok s' (tr @ [EIssued i])"
proof -
  note e = pending_begin_Inr [OF _ b]
  have wf: "bt_wf (pq_requests s)" and s: "pending_inv s"
    and iss: "map unat (issued tr) = [1 ..< unat (pq_next_request_id s)]"
    using h by (simp_all add: history_ok_def pending_inv_def)
  note e = e [OF s]
  have "0 < unat i"
    using e s by (simp add: pending_inv_def word_less_nat_alt)
  have fresh: "i \<notin> set (issued tr)"
  proof
    assume "i \<in> set (issued tr)"
    then have "unat i \<in> set (map unat (issued tr))" by simp
    with iss e show False by simp
  qed
  have "map unat (issued (tr @ [EIssued i])) = [1 ..< unat (pq_next_request_id s')]"
    using iss e \<open>0 < unat i\<close> by simp
  moreover have "bt_get (pq_requests s') =
      (bt_get (pq_requests s))(i \<mapsto> \<lparr>pq_deadline = now + timeout, pq_cancelled = False\<rparr>)"
    using e wf by (simp add: bt_laws)
  ultimately show ?thesis
    using h fresh inv unfolding history_ok_def by (auto split: if_splits)
qed

lemma history_cancel:
  assumes "history_ok s tr" and "pending_cancel s i = (Inr c, s')" and "pending_inv s'"
  shows "history_ok s' (tr @ [ECancelled i c])"
proof -
  from assms(2) obtain q where q: "bt_get (pq_requests s) i = Some q"
    and s': "s' = s \<and> pq_cancelled q \<or>
      s' = s\<lparr>pq_requests := bt_insert i (q\<lparr>pq_cancelled := True\<rparr>) (pq_requests s)\<rparr>"
    by (auto simp: pending_cancel_def split: option.splits if_splits)
  have wf: "bt_wf (pq_requests s)"
    using assms(1) by (simp add: history_ok_def pending_inv_def)
  have "bt_get (pq_requests s') = (bt_get (pq_requests s))(i \<mapsto> q\<lparr>pq_cancelled := True\<rparr>)"
    using s' q by (cases q) (auto simp: bt_laws(5) [OF wf] fun_eq_iff)
  moreover have "pq_next_request_id s' = pq_next_request_id s" "i \<in> set (issued tr)"
    using s' q assms(1) by (auto simp: history_ok_def)
  ultimately show ?thesis
    using assms(1,3) q unfolding history_ok_def by (auto split: if_splits)
qed

lemma history_complete:
  assumes "history_ok s tr" and "pending_complete s i = (Inr c, s')" and "pending_inv s'"
  shows "history_ok s' (tr @ [ECompleted i c])"
proof -
  from assms(2) obtain q where q: "bt_get (pq_requests s) i = Some q"
    and c: "c = (if pq_cancelled q then DiscardedAfterCancellation else Delivered)"
    and s': "s' = s\<lparr>pq_requests := bt_remove i (pq_requests s)\<rparr>"
    by (auto simp: pending_complete_def split: option.splits)
  have wf: "bt_wf (pq_requests s)"
    using assms(1) by (simp add: history_ok_def pending_inv_def)
  have g: "bt_get (pq_requests s') = (bt_get (pq_requests s))(i := None)"
    using s' by (simp add: bt_laws(6) [OF wf])
  have "i \<in> dom (bt_get (pq_requests s))"
    using q by auto
  with assms(1,3) q c s' show ?thesis
    unfolding history_ok_def g by auto
qed

lemma history_expire:
  assumes "history_ok s tr" and "pending_expire s now = (ids, s')" and "pending_inv s'"
  shows "history_ok s' (tr @ [EExpired ids])"
proof -
  have wf: "bt_wf (pq_requests s)"
    using assms(1) by (simp add: history_ok_def pending_inv_def)
  note e = pending_expire_ids [OF wf assms(2)]
  have g: "bt_get (pq_requests s') = (\<lambda>k. if k \<in> set ids then None else bt_get (pq_requests s) k)"
    using e(3) fold_bt_remove [OF wf] by simp
  have sub: "set ids \<subseteq> dom (bt_get (pq_requests s))"
    using e(1) by auto
  have "distinct ids"
    using e(2) strict_sorted_iff by blast
  moreover have "dom (bt_get (pq_requests s')) = dom (bt_get (pq_requests s)) - set ids"
    unfolding g by (auto split: if_splits)
  moreover have "set ids \<inter> set (resolved tr) = {}"
    using sub assms(1) unfolding history_ok_def by blast
  ultimately show ?thesis
    using assms(1,3) sub e(5) unfolding history_ok_def by (auto simp: g split: if_splits)
qed

lemma history_step:
  assumes "history_ok s tr" and "pending_step horizon s x = (Inr ev, s')"
  shows "history_ok s' (tr @ [ev])"
proof -
  have "pending_inv s'"
    using pending.step_inv [of s horizon x] assms by (simp add: history_ok_def)
  with assms show ?thesis
    by (cases x) (auto split: prod.splits simp: rbind_Inr_iff
        intro: history_begin history_cancel history_complete history_expire)
qed

lemma history_run:
  "history_ok s tr \<Longrightarrow> history_ok (run_ops (pending_step horizon) s xs) (tr @ pending_trace horizon s xs)"
proof (induction xs arbitrary: s tr)
  case Nil
  then show ?case by simp
next
  case (Cons x xs)
  obtain res s' where st: "pending_step horizon s x = (res, s')"
    by (cases "pending_step horizon s x")
  show ?case
  proof (cases res)
    case (Inl e)
    with st have "s' = s"
      using pending.step_err [of horizon s x e] by simp
    with Cons Inl st show ?thesis by simp
  next
    case (Inr ev)
    with Cons.IH [OF history_step [OF Cons.prems, of horizon x ev s']] st show ?thesis
      by simp
  qed
qed

text \<open>
  C23: the life of a request, over any sequence of calls to a fresh tracker. Identifiers are
  issued as 1, 2, 3, \<dots>; every issued request is at every moment either still pending or
  resolved (completed or expired), never both, and is resolved at most once; no more
  requests are pending than configured; and a completion is discarded exactly when the
  request had been cancelled before.
\<close>

theorem pending_requests_life:
  assumes "pending_requests_new maximum = Inr s"
  shows "let tr = pending_trace horizon s ops; s' = run_ops (pending_step horizon) s ops in
    map unat (issued tr) = [1 ..< Suc (length (issued tr))] \<and>
    set (issued tr) = dom (bt_get (pq_requests s')) \<union> set (resolved tr) \<and>
    dom (bt_get (pq_requests s')) \<inter> set (resolved tr) = {} \<and> distinct (resolved tr) \<and>
    pending_len s' \<le> unat maximum \<and> completions_ok tr"
proof -
  have s: "s = \<lparr>pq_maximum = maximum, pq_next_request_id = 1, pq_requests = []\<rparr>"
    using assms by (auto simp: pending_requests_new_def split: if_splits)
  have "history_ok s []"
    by (simp add: s history_ok_def pending_inv_def bt_laws)
  note h = history_run [OF this, of horizon ops]
  let ?s' = "run_ops (pending_step horizon) s ops" and ?tr = "pending_trace horizon s ops"
  have m: "pq_maximum ?s' = maximum"
    using run_maximum [of horizon s ops] by (simp add: s)
  have iss: "map unat (issued ?tr) = [1 ..< unat (pq_next_request_id ?s')]"
    and "0 < unat (pq_next_request_id ?s')"
    using h by (simp_all add: history_ok_def pending_inv_def word_less_nat_alt)
  then have "unat (pq_next_request_id ?s') = Suc (length (issued ?tr))"
    using length_map [of unat "issued ?tr"] unfolding iss by simp
  with h m show ?thesis
    by (simp add: history_ok_def pending_inv_def pending_len_def Let_def)
qed

theorem pending_requests_life_witness:
  "let s = \<lparr>pq_maximum = 2, pq_next_request_id = 1, pq_requests = []\<rparr>;
       tr = pending_trace 1000 s [PBegin 0 10, PBegin 0 20, PCancel 1, PBegin 0 5, PComplete 1, PExpire 50]
   in tr = [EIssued 1, EIssued 2, ECancelled 1 NewlyCancelled,
       ECompleted 1 DiscardedAfterCancellation, EExpired [2]] \<and> completions_ok tr \<and> distinct (resolved tr)"
proof -
  let ?s = "\<lparr>pq_maximum = 2, pq_next_request_id = 1, pq_requests = []\<rparr>"
    and ?ops = "[PBegin 0 10, PBegin 0 20, PCancel 1, PBegin 0 5, PComplete 1, PExpire 50]"
  have "pending_requests_new 2 = Inr ?s"
    by (simp add: pending_requests_new_def)
  then have "completions_ok (pending_trace 1000 ?s ?ops) \<and> distinct (resolved (pending_trace 1000 ?s ?ops))"
    using pending_requests_life [of 2 ?s 1000 ?ops] by (simp add: Let_def del: pending_trace.simps)
  moreover have "pending_trace 1000 ?s ?ops = [EIssued 1, EIssued 2, ECancelled 1 NewlyCancelled,
       ECompleted 1 DiscardedAfterCancellation, EExpired [2]]"
    by (simp add: pending_begin_def pending_cancel_def pending_complete_def pending_expire_def
        instant_checked_add_def checked_add_def bt_get_def bt_remove_def Let_def)
  ultimately show ?thesis
    by (simp only: Let_def simp_thms)
qed

subsection \<open>Stream credit\<close>

datatype StreamCreditError =
    ScZeroCredit
  | ScEmptyData
  | ScUnexpectedSequence u64 u64
  | ScCreditExceeded u64 u64
  | ScCreditOverflow
  | ScSequenceExhausted

record StreamCredit =
  sc_available :: u64
  sc_next_sequence :: u64

definition stream_credit_new :: "u64 \<Rightarrow> StreamCreditError + StreamCredit" where
  "stream_credit_new initial_credit =
     (if initial_credit = 0 then Inl ScZeroCredit
      else Inr \<lparr>sc_available = initial_credit, sc_next_sequence = 1\<rparr>)"

definition stream_grant :: "StreamCredit \<Rightarrow> u64 \<Rightarrow> (StreamCreditError + unit) \<times> StreamCredit" where
  "stream_grant s additional =
     (if additional = 0 then (Inl ScZeroCredit, s)
      else case checked_add (sc_available s) additional of
        None \<Rightarrow> (Inl ScCreditOverflow, s)
      | Some available \<Rightarrow> (Inr (), s\<lparr>sc_available := available\<rparr>))"

definition stream_consume :: "StreamCredit \<Rightarrow> u64 \<Rightarrow> u64 \<Rightarrow> (StreamCreditError + unit) \<times> StreamCredit" where
  "stream_consume s sequence bs =
     (if sequence \<noteq> sc_next_sequence s
      then (Inl (ScUnexpectedSequence (sc_next_sequence s) sequence), s)
      else if bs = 0 then (Inl ScEmptyData, s)
      else if bs > sc_available s then (Inl (ScCreditExceeded (sc_available s) bs), s)
      else case checked_add (sc_next_sequence s) 1 of
        None \<Rightarrow> (Inl ScSequenceExhausted, s)
      | Some next_sequence \<Rightarrow>
          (Inr (), s\<lparr>sc_available := sc_available s - bs, sc_next_sequence := next_sequence\<rparr>))"

datatype stream_op = SGrant u64 | SConsume u64 u64

fun stream_step :: "StreamCredit \<Rightarrow> stream_op \<Rightarrow> (StreamCreditError + unit) \<times> StreamCredit" where
  "stream_step s (SGrant n) = stream_grant s n"
| "stream_step s (SConsume q n) = stream_consume s q n"

definition credit_inv :: "StreamCredit \<Rightarrow> bool" where
  "credit_inv s \<longleftrightarrow> 0 < sc_next_sequence s"

interpretation credit: transactional_machine stream_step credit_inv
proof unfold_locales
  fix s x
  assume "credit_inv s"
  then show "credit_inv (snd (stream_step s x))"
    by (cases x)
      (auto simp: stream_grant_def stream_consume_def credit_inv_def word_less_nat_alt
        split: option.splits dest: checked_add_unat)
next
  fix s x e
  show "fst (stream_step s x) = Inl e \<Longrightarrow> snd (stream_step s x) = s"
    by (cases x) (auto simp: stream_grant_def stream_consume_def split: option.splits if_splits)
qed

fun op_grant :: "stream_op \<Rightarrow> nat" where
  "op_grant (SGrant n) = unat n"
| "op_grant (SConsume q n) = 0"

fun op_data :: "stream_op \<Rightarrow> (nat \<times> nat) list" where
  "op_data (SGrant n) = []"
| "op_data (SConsume q n) = [(unat q, unat n)]"

definition granted :: "stream_op list \<Rightarrow> nat" where
  "granted xs = sum_list (map op_grant xs)"

definition consumed :: "stream_op list \<Rightarrow> (nat \<times> nat) list" where
  "consumed xs = concat (map op_data xs)"

lemma credit_lists [simp]:
  "granted [] = 0" "consumed [] = []"
  "granted (x # xs) = op_grant x + granted xs" "consumed (x # xs) = op_data x @ consumed xs"
  by (simp_all add: granted_def consumed_def)

lemma stream_step_credit:
  assumes "stream_step s x = (Inr u, s')"
  shows "unat (sc_available s) + op_grant x =
      unat (sc_available s') + sum_list (map snd (op_data x)) \<and>
    map fst (op_data x) = [unat (sc_next_sequence s) ..< unat (sc_next_sequence s')] \<and>
    unat (sc_next_sequence s') = unat (sc_next_sequence s) + length (op_data x)"
proof (cases x)
  case (SGrant n)
  with assms show ?thesis
    by (auto simp: stream_grant_def dest: checked_add_unat
        split: if_splits option.splits)
next
  case (SConsume q n)
  with assms have s': "checked_add (sc_next_sequence s) 1 = Some (sc_next_sequence s')"
    "n \<le> sc_available s" "sc_available s' = sc_available s - n" "q = sc_next_sequence s"
    by (auto simp: stream_consume_def split: if_splits option.splits)
  have "unat n \<le> unat (sc_available s)"
    using s'(2) by (simp add: word_le_nat_alt)
  then have "unat (sc_available s') + unat n = unat (sc_available s)"
    using s'(2,3) by (simp add: unat_sub)
  with SConsume s' checked_add_unat [OF s'(1)] show ?thesis
    by (simp add: upt_rec)
qed

lemma stream_credit_run:
  "unat (sc_available s) + granted (accepted_ops stream_step s xs) =
     unat (sc_available (run_ops stream_step s xs)) +
       sum_list (map snd (consumed (accepted_ops stream_step s xs))) \<and>
   map fst (consumed (accepted_ops stream_step s xs)) =
     [unat (sc_next_sequence s) ..< unat (sc_next_sequence s) + length (consumed (accepted_ops stream_step s xs))] \<and>
   unat (sc_next_sequence (run_ops stream_step s xs)) =
     unat (sc_next_sequence s) + length (consumed (accepted_ops stream_step s xs))"
proof (induction xs arbitrary: s)
  case Nil
  then show ?case by simp
next
  case (Cons x xs)
  obtain res s' where st: "stream_step s x = (res, s')"
    by (cases "stream_step s x")
  show ?case
  proof (cases res)
    case (Inl e)
    then have "s' = s"
      using credit.step_err [of s x e] st by simp
    with Inl st Cons.IH [of s] show ?thesis by simp
  next
    case (Inr u)
    note e = stream_step_credit [OF st [unfolded Inr]]
    let ?n = "unat (sc_next_sequence s)" and ?k = "length (op_data x)"
      and ?m = "length (consumed (accepted_ops stream_step s' xs))"
    have "[?n ..< ?n + (?k + ?m)] = [?n ..< ?n + ?k] @ [?n + ?k ..< ?n + ?k + ?m]"
      using upt_add_eq_append [of ?n "?n + ?k" ?m] by (simp add: add.assoc)
    with e Inr st Cons.IH [of s'] show ?thesis
      by simp
  qed
qed

text \<open>
  C36: byte credit is conserved and order is exact. Over any sequence of grants and data
  messages on a new stream, rejected ones included, the initial credit plus the accepted
  grants equals what is still available plus the accepted bytes, so a sender can never get
  more bytes accepted than were granted; and the accepted data messages carry the sequence
  numbers 1, 2, 3, \<dots> without a gap or a repetition.
\<close>

theorem stream_credit_conserved:
  assumes "stream_credit_new initial = Inr s"
  shows "let acc = accepted_ops stream_step s ops; s' = run_ops stream_step s ops in
    unat initial + granted acc = unat (sc_available s') + sum_list (map snd (consumed acc)) \<and>
    map fst (consumed acc) = [1 ..< Suc (length (consumed acc))]"
proof -
  have "s = \<lparr>sc_available = initial, sc_next_sequence = 1\<rparr>"
    using assms by (auto simp: stream_credit_new_def split: if_splits)
  then show ?thesis
    using stream_credit_run [of s ops] by (simp add: Let_def)
qed

theorem stream_credit_conserved_witness:
  "let s = \<lparr>sc_available = 10, sc_next_sequence = 1\<rparr>;
       acc = accepted_ops stream_step s [SConsume 1 4, SConsume 1 4, SConsume 2 7, SGrant 1, SConsume 2 7]
   in acc = [SConsume 1 4, SGrant 1, SConsume 2 7] \<and>
      map fst (consumed acc) = [1 ..< Suc (length (consumed acc))]"
proof -
  let ?s = "\<lparr>sc_available = 10, sc_next_sequence = 1\<rparr>"
    and ?ops = "[SConsume 1 4, SConsume 1 4, SConsume 2 7, SGrant 1, SConsume 2 7]"
  have "stream_credit_new 10 = Inr ?s"
    by (simp add: stream_credit_new_def)
  then have "map fst (consumed (accepted_ops stream_step ?s ?ops)) =
      [1 ..< Suc (length (consumed (accepted_ops stream_step ?s ?ops)))]"
    using stream_credit_conserved [of 10 ?s ?ops] by (simp only: Let_def simp_thms)
  moreover have "accepted_ops stream_step ?s ?ops = [SConsume 1 4, SGrant 1, SConsume 2 7]"
    by (simp add: stream_consume_def stream_grant_def checked_add_def)
  ultimately show ?thesis
    by (simp only: Let_def simp_thms)
qed

end
