(* ===== verification/Renderer_Lifecycle.thy ===== *)
theory Renderer_Lifecycle
  imports Wire_Values
begin

section \<open>Renderer lifecycle\<close>

text \<open>
  The state machine of \<open>weregopher-renderer/src/lifecycle.rs\<close>: creation, navigations with
  fresh generations, load events that must carry the active generation, crash and close.
  \<open>lifecycle_step\<close> is one call; \<open>lifecycle_run\<close> relates a renderer to the states and
  event sequences it can reach by successful calls. The theory's theorem describes those
  event sequences completely.
\<close>

datatype RendererLifecycleState =
    LcCreating | LcInitialized | LcNavigating | LcDomContentLoaded | LcLoaded | LcClosing
  | LcClosed | LcCrashed

datatype RendererLifecycleError =
    LcInvalidTransition RendererLifecycleState string
  | LcStaleNavigation u32 u32
  | LcNavigationGenerationExhausted

record RendererLifecycle =
  lc_renderer :: RendererId
  lc_state :: RendererLifecycleState
  lc_generation :: u32

definition lifecycle_new :: "RendererId \<Rightarrow> RendererLifecycle" where
  "lifecycle_new renderer = \<lparr>lc_renderer = renderer, lc_state = LcCreating, lc_generation = 0\<rparr>"

fun transition_operation :: "RendererLifecycleState \<Rightarrow> string" where
  "transition_operation LcInitialized = ''mark initialized''"
| "transition_operation LcDomContentLoaded = ''mark DOM content loaded''"
| "transition_operation LcLoaded = ''mark loaded''"
| "transition_operation LcClosed = ''mark closed''"
| "transition_operation _ = ''transition''"

definition lifecycle_transition ::
    "RendererLifecycle \<Rightarrow> RendererLifecycleState \<Rightarrow> RendererLifecycleState \<Rightarrow>
     (RendererLifecycleError + unit) \<times> RendererLifecycle" where
  "lifecycle_transition s expected next_state =
     (if lc_state s \<noteq> expected
      then (Inl (LcInvalidTransition (lc_state s) (transition_operation next_state)), s)
      else (Inr (), s\<lparr>lc_state := next_state\<rparr>))"

definition require_generation :: "RendererLifecycle \<Rightarrow> u32 \<Rightarrow> RendererLifecycleError + unit" where
  "require_generation s generation =
     (if generation = lc_generation s then Inr ()
      else Inl (LcStaleNavigation (lc_generation s) generation))"

definition mark_initialized :: "RendererLifecycle \<Rightarrow> (RendererLifecycleError + unit) \<times> RendererLifecycle" where
  "mark_initialized s = lifecycle_transition s LcCreating LcInitialized"

definition begin_navigation :: "RendererLifecycle \<Rightarrow> (RendererLifecycleError + u32) \<times> RendererLifecycle" where
  "begin_navigation s =
     (if lc_state s \<notin> {LcInitialized, LcLoaded}
      then (Inl (LcInvalidTransition (lc_state s) ''begin navigation''), s)
      else case checked_add (lc_generation s) 1 of
        None \<Rightarrow> (Inl LcNavigationGenerationExhausted, s)
      | Some g \<Rightarrow> (Inr g, s\<lparr>lc_generation := g, lc_state := LcNavigating\<rparr>))"

definition mark_dom_content_loaded ::
    "RendererLifecycle \<Rightarrow> u32 \<Rightarrow> (RendererLifecycleError + unit) \<times> RendererLifecycle" where
  "mark_dom_content_loaded s generation =
     (case require_generation s generation of
        Inl e \<Rightarrow> (Inl e, s)
      | Inr _ \<Rightarrow> lifecycle_transition s LcNavigating LcDomContentLoaded)"

definition mark_loaded ::
    "RendererLifecycle \<Rightarrow> u32 \<Rightarrow> (RendererLifecycleError + unit) \<times> RendererLifecycle" where
  "mark_loaded s generation =
     (case require_generation s generation of
        Inl e \<Rightarrow> (Inl e, s)
      | Inr _ \<Rightarrow> lifecycle_transition s LcDomContentLoaded LcLoaded)"

definition mark_crashed :: "RendererLifecycle \<Rightarrow> (RendererLifecycleError + unit) \<times> RendererLifecycle" where
  "mark_crashed s =
     (if lc_state s \<in> {LcClosing, LcClosed}
      then (Inl (LcInvalidTransition (lc_state s) ''mark crashed''), s)
      else (Inr (), s\<lparr>lc_state := LcCrashed\<rparr>))"

definition begin_close :: "RendererLifecycle \<Rightarrow> (RendererLifecycleError + unit) \<times> RendererLifecycle" where
  "begin_close s =
     (if lc_state s \<in> {LcClosing, LcClosed}
      then (Inl (LcInvalidTransition (lc_state s) ''begin close''), s)
      else (Inr (), s\<lparr>lc_state := LcClosing\<rparr>))"

definition mark_closed :: "RendererLifecycle \<Rightarrow> (RendererLifecycleError + unit) \<times> RendererLifecycle" where
  "mark_closed s = lifecycle_transition s LcClosing LcClosed"

subsection \<open>Calls and events\<close>

datatype lifecycle_op =
    OpInitialized | OpBeginNavigation | OpDom u32 | OpLoaded u32 | OpCrashed | OpBeginClose | OpClosed

datatype lifecycle_event =
    EvInitialized | EvNavigation u32 | EvDom u32 | EvLoaded u32 | EvCrashed | EvClosing | EvClosed

definition tag_event ::
    "('a \<Rightarrow> lifecycle_event) \<Rightarrow> (RendererLifecycleError + 'a) \<times> RendererLifecycle \<Rightarrow>
     (RendererLifecycleError + lifecycle_event) \<times> RendererLifecycle" where
  "tag_event f r = (case r of (Inl e, s) \<Rightarrow> (Inl e, s) | (Inr x, s) \<Rightarrow> (Inr (f x), s))"

fun lifecycle_step ::
    "RendererLifecycle \<Rightarrow> lifecycle_op \<Rightarrow> (RendererLifecycleError + lifecycle_event) \<times> RendererLifecycle" where
  "lifecycle_step s OpInitialized = tag_event (\<lambda>_. EvInitialized) (mark_initialized s)"
| "lifecycle_step s OpBeginNavigation = tag_event EvNavigation (begin_navigation s)"
| "lifecycle_step s (OpDom g) = tag_event (\<lambda>_. EvDom g) (mark_dom_content_loaded s g)"
| "lifecycle_step s (OpLoaded g) = tag_event (\<lambda>_. EvLoaded g) (mark_loaded s g)"
| "lifecycle_step s OpCrashed = tag_event (\<lambda>_. EvCrashed) (mark_crashed s)"
| "lifecycle_step s OpBeginClose = tag_event (\<lambda>_. EvClosing) (begin_close s)"
| "lifecycle_step s OpClosed = tag_event (\<lambda>_. EvClosed) (mark_closed s)"

inductive lifecycle_run :: "RendererId \<Rightarrow> RendererLifecycle \<Rightarrow> lifecycle_event list \<Rightarrow> bool"
  for renderer :: RendererId where
  start: "lifecycle_run renderer (lifecycle_new renderer) []"
| step: "lifecycle_run renderer s tr \<Longrightarrow> lifecycle_step s op = (Inr ev, s') \<Longrightarrow>
    lifecycle_run renderer s' (tr @ [ev])"

text \<open>The specification: which event may directly follow which.\<close>

fun may_follow :: "lifecycle_event option \<Rightarrow> lifecycle_event \<Rightarrow> bool" where
  "may_follow prev EvInitialized \<longleftrightarrow> prev = None"
| "may_follow prev (EvNavigation g) \<longleftrightarrow> prev = Some EvInitialized \<and> g = 1 \<or>
     (\<exists>g'. prev = Some (EvLoaded g') \<and> unat g = Suc (unat g'))"
| "may_follow prev (EvDom g) \<longleftrightarrow> prev = Some (EvNavigation g)"
| "may_follow prev (EvLoaded g) \<longleftrightarrow> prev = Some (EvDom g)"
| "may_follow prev EvCrashed \<longleftrightarrow> prev \<notin> {Some EvClosing, Some EvClosed}"
| "may_follow prev EvClosing \<longleftrightarrow> prev \<notin> {Some EvClosing, Some EvClosed}"
| "may_follow prev EvClosed \<longleftrightarrow> prev = Some EvClosing"

definition last_event :: "lifecycle_event list \<Rightarrow> lifecycle_event option" where
  "last_event tr = (if tr = [] then None else Some (last tr))"

definition lifecycle_ordered :: "lifecycle_event list \<Rightarrow> bool" where
  "lifecycle_ordered tr \<longleftrightarrow> (\<forall>k < length tr. may_follow (last_event (take k tr)) (tr ! k))"

lemma lifecycle_ordered_snoc [simp]:
  "lifecycle_ordered []"
  "lifecycle_ordered (tr @ [ev]) \<longleftrightarrow> lifecycle_ordered tr \<and> may_follow (last_event tr) ev"
  by (auto simp: lifecycle_ordered_def nth_append less_Suc_eq)

lemma last_event_simps [simp]: "last_event [] = None" "last_event (tr @ [ev]) = Some ev"
  by (simp_all add: last_event_def)

text \<open>What the last event says about the state.\<close>

fun state_matches :: "lifecycle_event option \<Rightarrow> RendererLifecycle \<Rightarrow> bool" where
  "state_matches None s \<longleftrightarrow> lc_state s = LcCreating \<and> lc_generation s = 0"
| "state_matches (Some EvInitialized) s \<longleftrightarrow> lc_state s = LcInitialized \<and> lc_generation s = 0"
| "state_matches (Some (EvNavigation g)) s \<longleftrightarrow> lc_state s = LcNavigating \<and> lc_generation s = g"
| "state_matches (Some (EvDom g)) s \<longleftrightarrow> lc_state s = LcDomContentLoaded \<and> lc_generation s = g"
| "state_matches (Some (EvLoaded g)) s \<longleftrightarrow> lc_state s = LcLoaded \<and> lc_generation s = g"
| "state_matches (Some EvCrashed) s \<longleftrightarrow> lc_state s = LcCrashed"
| "state_matches (Some EvClosing) s \<longleftrightarrow> lc_state s = LcClosing"
| "state_matches (Some EvClosed) s \<longleftrightarrow> lc_state s = LcClosed"

lemmas lifecycle_defs = tag_event_def mark_initialized_def begin_navigation_def
  mark_dom_content_loaded_def mark_loaded_def mark_crashed_def begin_close_def mark_closed_def
  lifecycle_transition_def require_generation_def

lemma state_matches_state:
  "state_matches prev s \<Longrightarrow>
     lc_state s = (case prev of
       None \<Rightarrow> LcCreating | Some EvInitialized \<Rightarrow> LcInitialized | Some (EvNavigation g) \<Rightarrow> LcNavigating
     | Some (EvDom g) \<Rightarrow> LcDomContentLoaded | Some (EvLoaded g) \<Rightarrow> LcLoaded
     | Some EvCrashed \<Rightarrow> LcCrashed | Some EvClosing \<Rightarrow> LcClosing | Some EvClosed \<Rightarrow> LcClosed)"
  by (cases "(prev, s)" rule: state_matches.cases) auto

lemma step_sound:
  assumes m: "state_matches prev s" and st: "lifecycle_step s op = (Inr ev, s')"
  shows "may_follow prev ev \<and> state_matches (Some ev) s'"
proof (cases op)
  case OpBeginNavigation
  with st obtain g where g: "checked_add (lc_generation s) 1 = Some g" "ev = EvNavigation g"
    "s' = s\<lparr>lc_generation := g, lc_state := LcNavigating\<rparr>" "lc_state s \<in> {LcInitialized, LcLoaded}"
    by (auto simp: lifecycle_defs split: if_splits option.splits)
  have "unat g = Suc (unat (lc_generation s))"
    using checked_add_unat [OF g(1)] by simp
  with m g show ?thesis
    by (cases "(prev, s)" rule: state_matches.cases) (auto simp: word_unat_eq_iff)
qed (use m st in \<open>cases "(prev, s)" rule: state_matches.cases;
    auto simp: lifecycle_defs split: if_splits sum.splits\<close>)+

lemma step_complete:
  assumes m: "state_matches prev s" and f: "may_follow prev ev"
  shows "\<exists>op s'. lifecycle_step s op = (Inr ev, s')"
proof (cases ev)
  case (EvNavigation g)
  have u: "unat g = Suc (unat (lc_generation s))" and st: "lc_state s \<in> {LcInitialized, LcLoaded}"
    using m f EvNavigation by auto
  have "Suc (unat (lc_generation s)) < 2 ^ LENGTH(32)"
    using u unsigned_less [of g, where ?'a = nat] by simp
  then have "checked_add (lc_generation s) 1 = Some (lc_generation s + 1)"
    by (simp add: checked_add_def)
  moreover from this have "lc_generation s + 1 = g"
    using checked_add_unat u by (fastforce simp: word_unat_eq_iff)
  ultimately have "lifecycle_step s OpBeginNavigation = (Inr ev, s\<lparr>lc_generation := g, lc_state := LcNavigating\<rparr>)"
    using st EvNavigation by (simp add: lifecycle_defs)
  then show ?thesis by blast
next
  case EvInitialized
  then have "lifecycle_step s OpInitialized = (Inr ev, s\<lparr>lc_state := LcInitialized\<rparr>)"
    using m f by (auto simp: lifecycle_defs)
  then show ?thesis by blast
next
  case (EvDom g)
  then have "lifecycle_step s (OpDom g) = (Inr ev, s\<lparr>lc_state := LcDomContentLoaded\<rparr>)"
    using m f by (auto simp: lifecycle_defs)
  then show ?thesis by blast
next
  case (EvLoaded g)
  then have "lifecycle_step s (OpLoaded g) = (Inr ev, s\<lparr>lc_state := LcLoaded\<rparr>)"
    using m f by (auto simp: lifecycle_defs)
  then show ?thesis by blast
next
  case EvCrashed
  then have "lifecycle_step s OpCrashed = (Inr ev, s\<lparr>lc_state := LcCrashed\<rparr>)"
    using state_matches_state [OF m] f by (auto simp: lifecycle_defs split: option.splits lifecycle_event.splits)
  then show ?thesis by blast
next
  case EvClosing
  then have "lifecycle_step s OpBeginClose = (Inr ev, s\<lparr>lc_state := LcClosing\<rparr>)"
    using state_matches_state [OF m] f by (auto simp: lifecycle_defs split: option.splits lifecycle_event.splits)
  then show ?thesis by blast
next
  case EvClosed
  then have "lifecycle_step s OpClosed = (Inr ev, s\<lparr>lc_state := LcClosed\<rparr>)"
    using m f by (auto simp: lifecycle_defs)
  then show ?thesis by blast
qed

lemma lifecycle_run_ordered:
  "lifecycle_run renderer s tr \<Longrightarrow> lifecycle_ordered tr \<and> state_matches (last_event tr) s"
proof (induction rule: lifecycle_run.induct)
  case start
  then show ?case by (simp add: lifecycle_new_def)
next
  case (step s tr op ev s')
  with step_sound [of "last_event tr" s op ev s'] show ?case by simp
qed

lemma lifecycle_ordered_run: "lifecycle_ordered tr \<Longrightarrow> \<exists>s. lifecycle_run renderer s tr"
proof (induction tr rule: rev_induct)
  case Nil
  then show ?case using lifecycle_run.start by blast
next
  case (snoc ev tr)
  then obtain s where s: "lifecycle_run renderer s tr" by auto
  moreover obtain op s' where "lifecycle_step s op = (Inr ev, s')"
    using lifecycle_run_ordered [OF s] snoc.prems step_complete [of "last_event tr" s ev] by auto
  ultimately show ?case
    using lifecycle_run.step by blast
qed

lemma lifecycle_step_err:
  "fst (lifecycle_step s op) = Inl e \<Longrightarrow> snd (lifecycle_step s op) = s"
  by (cases op) (auto simp: lifecycle_defs split: if_splits sum.splits option.splits prod.splits)

definition lifecycle_inv :: "RendererLifecycle \<Rightarrow> bool" where
  "lifecycle_inv s \<longleftrightarrow>
     (lc_state s \<in> {LcCreating, LcInitialized} \<longrightarrow> lc_generation s = 0) \<and>
     (lc_state s \<in> {LcNavigating, LcDomContentLoaded, LcLoaded} \<longrightarrow> lc_generation s \<noteq> 0)"

lemma checked_succ_nonzero: "checked_add g 1 = Some g' \<Longrightarrow> g' \<noteq> 0"
  using checked_add_unat [of g 1 g'] by auto

interpretation lifecycle: transactional_machine lifecycle_step lifecycle_inv
proof unfold_locales
  fix s x
  assume "lifecycle_inv s"
  then show "lifecycle_inv (snd (lifecycle_step s x))"
    by (cases x)
      (auto simp: lifecycle_inv_def lifecycle_defs
        split: if_splits sum.splits option.splits prod.splits dest: checked_succ_nonzero)
qed (rule lifecycle_step_err)

text \<open>
  C37: the lifecycle of a renderer, exactly. The event sequences its successful calls can produce are
  those in which initialization can only be the first event; a navigation starts only directly after
  initialization, with generation 1, or directly after the load of the previous document, with the
  next generation; DOM-ready directly follows the start of the navigation of the same generation and
  load directly follows DOM-ready of the same generation (so a stale event of an earlier navigation
  is never accepted). Crash and the start of closing are possible at any time until closing has
  begun, before initialization and after a crash included, so after a crash only further crashes and
  closing follow; closed directly follows closing, and nothing follows it. A rejected call leaves
  the renderer as it was.
\<close>

theorem lifecycle_exact:
  "((\<exists>s. lifecycle_run renderer s tr) \<longleftrightarrow> lifecycle_ordered tr) \<and>
   (fst (lifecycle_step s op) = Inl e \<longrightarrow> snd (lifecycle_step s op) = s)"
  using lifecycle_run_ordered lifecycle_ordered_run lifecycle_step_err by blast

theorem lifecycle_exact_witness:
  "(\<exists>s. lifecycle_run 3 s [EvInitialized, EvNavigation 1, EvDom 1, EvLoaded 1, EvNavigation 2, EvCrashed,
     EvClosing, EvClosed]) \<and>
   snd (lifecycle_step (lifecycle_new 3) (OpDom 1)) = lifecycle_new 3"
proof -
  let ?tr = "[EvInitialized, EvNavigation 1, EvDom 1, EvLoaded 1, EvNavigation 2, EvCrashed, EvClosing, EvClosed]"
  have "lifecycle_ordered ?tr"
    by (simp add: lifecycle_ordered_def last_event_def All_less_Suc)
  moreover have "fst (lifecycle_step (lifecycle_new 3) (OpDom 1)) = Inl (LcStaleNavigation 0 1)"
    by (simp add: lifecycle_defs lifecycle_new_def)
  ultimately show ?thesis
    using lifecycle_exact [of 3 ?tr "lifecycle_new 3" "OpDom 1" "LcStaleNavigation 0 1"] by blast
qed

end
