(* ===== verification/Renderer_Contracts.thy ===== *)
theory Renderer_Contracts
  imports Runtime_Messages
begin

section \<open>Renderer bridge contracts\<close>

text \<open>
  The messages of \<open>weregopher-domain/src/renderer.rs\<close> that cross the boundary between a
  page and the host: the per-navigation nonce, the envelope the backend attaches, the page's
  invocation and the host's reply. Each constructor validates; each \<open>Deserialize\<close>
  implementation goes through the constructor with the default limits. As in
  \<open>Runtime_Messages\<close>, \<open>raw\<close> is the derived deserializer of the shadow struct and \<open>custom\<close> is
  serde's wrapping of a contract error.
\<close>

definition RENDERER_BRIDGE_NONCE_BYTES :: usize where "RENDERER_BRIDGE_NONCE_BYTES = 16"
definition MAX_RENDERER_BRIDGE_NAME_BYTES :: usize where "MAX_RENDERER_BRIDGE_NAME_BYTES = 255"
definition MAX_RENDERER_BRIDGE_ERROR_BYTES :: usize where "MAX_RENDERER_BRIDGE_ERROR_BYTES = 512"

datatype RendererContractError =
    ReZeroBridgeNonce
  | ReZeroNavigationGeneration
  | ReFrameRendererMismatch
  | ReFrameNavigationMismatch
  | ReWorldFrameMismatch
  | ReWorldNavigationMismatch
  | ReZeroBridgeRequestId
  | ReEmptyText string
  | ReTextExceeded string usize usize
  | ReInvalidBridgeReplyShape
  | ReWire RuntimeProtocolContractError

type_synonym 'a re_result = "RendererContractError + 'a"
type_synonym RendererBridgeNonce = bytes

definition renderer_validate_text :: "string \<Rightarrow> string \<Rightarrow> usize \<Rightarrow> unit re_result" where
  "renderer_validate_text field v maximum =
     (if v = [] then Inl (ReEmptyText field)
      else if length v > maximum then Inl (ReTextExceeded field maximum (length v))
      else Inr ())"

subsection \<open>The navigation nonce\<close>

text \<open>The scan of the constructor: the first byte that is not zero makes the nonce acceptable.\<close>

fun bridge_nonce_scan :: "bytes \<Rightarrow> bool" where
  "bridge_nonce_scan [] = False"
| "bridge_nonce_scan (b # bs) = (if b \<noteq> 0 then True else bridge_nonce_scan bs)"

definition bridge_nonce_new :: "bytes \<Rightarrow> RendererBridgeNonce re_result" where
  "bridge_nonce_new bs = (if bridge_nonce_scan bs then Inr bs else Inl ReZeroBridgeNonce)"

definition bridge_nonce_deserialize ::
    "('d \<Rightarrow> 'de + bytes) \<Rightarrow> (RendererContractError \<Rightarrow> 'de) \<Rightarrow> 'd \<Rightarrow> 'de + RendererBridgeNonce" where
  "bridge_nonce_deserialize raw custom d = rbind (raw d) (\<lambda>bs. map_err custom (bridge_nonce_new bs))"

subsection \<open>The envelope\<close>

record RendererEnvelope =
  en_app :: AppInstanceId
  en_renderer :: RendererId
  en_frame :: FrameIdentity
  en_world :: WorldIdentity
  en_navigation_generation :: u32
  en_nonce :: RendererBridgeNonce
  en_payload :: WireValue

definition validate_renderer_authority ::
    "RendererId \<Rightarrow> FrameIdentity \<Rightarrow> WorldIdentity \<Rightarrow> u32 \<Rightarrow> ProtocolLimits \<Rightarrow> unit re_result" where
  "validate_renderer_authority renderer frame world generation limits =
     (if generation = 0 then Inl ReZeroNavigationGeneration
      else if fi_renderer frame \<noteq> renderer then Inl ReFrameRendererMismatch
      else if fi_generation frame \<noteq> generation then Inl ReFrameNavigationMismatch
      else if wi_frame world \<noteq> frame then Inl ReWorldFrameMismatch
      else if wi_generation world \<noteq> generation then Inl ReWorldNavigationMismatch
      else renderer_validate_text ''renderer origin'' (oi_serialized (fi_origin frame))
        (unat (max_string_bytes limits)))"

definition renderer_envelope_new ::
    "allocator \<Rightarrow> AppInstanceId \<Rightarrow> RendererId \<Rightarrow> FrameIdentity \<Rightarrow> WorldIdentity \<Rightarrow> u32 \<Rightarrow>
     RendererBridgeNonce \<Rightarrow> WireValue \<Rightarrow> ProtocolLimits \<Rightarrow> RendererEnvelope re_result" where
  "renderer_envelope_new alloc app renderer frame world generation nonce payload limits =
     rbind (validate_renderer_authority renderer frame world generation limits) (\<lambda>_.
     rbind (map_err ReWire (validate_wire_value_graph_for_app alloc [payload] limits app)) (\<lambda>_.
     Inr \<lparr>en_app = app, en_renderer = renderer, en_frame = frame, en_world = world,
       en_navigation_generation = generation, en_nonce = nonce, en_payload = payload\<rparr>))"

definition renderer_envelope_deserialize ::
    "allocator \<Rightarrow> ('d \<Rightarrow> 'de + AppInstanceId \<times> RendererId \<times> FrameIdentity \<times> WorldIdentity \<times> u32 \<times> bytes \<times>
       WireValue) \<Rightarrow> (RendererContractError \<Rightarrow> 'de) \<Rightarrow> 'd \<Rightarrow> 'de + RendererEnvelope" where
  "renderer_envelope_deserialize alloc raw custom d =
     rbind (raw d) (\<lambda>(app, renderer, frame, world, generation, raw_nonce, payload).
     rbind (bridge_nonce_deserialize Inr custom raw_nonce) (\<lambda>nonce.
     map_err custom
       (renderer_envelope_new alloc app renderer frame world generation nonce payload secure_default)))"

subsection \<open>The invocation\<close>

record RendererBridgeInvocation =
  iv_nonce :: RendererBridgeNonce
  iv_request_id :: u64
  iv_method :: string
  iv_args :: "WireValue list"

definition bridge_invocation_new ::
    "allocator \<Rightarrow> RendererBridgeNonce \<Rightarrow> u64 \<Rightarrow> string \<Rightarrow> WireValue list \<Rightarrow> ProtocolLimits \<Rightarrow>
     RendererBridgeInvocation re_result" where
  "bridge_invocation_new alloc nonce request_id method args limits =
     (if request_id = 0 then Inl ReZeroBridgeRequestId
      else rbind (renderer_validate_text ''renderer bridge method'' method MAX_RENDERER_BRIDGE_NAME_BYTES) (\<lambda>_.
      rbind (map_err ReWire (validate_wire_value_graph alloc args limits)) (\<lambda>_.
      Inr \<lparr>iv_nonce = nonce, iv_request_id = request_id, iv_method = method, iv_args = args\<rparr>)))"

definition bridge_invocation_deserialize ::
    "allocator \<Rightarrow> ('d \<Rightarrow> 'de + bytes \<times> u64 \<times> string \<times> WireValue list) \<Rightarrow>
     (RendererContractError \<Rightarrow> 'de) \<Rightarrow> 'd \<Rightarrow> 'de + RendererBridgeInvocation" where
  "bridge_invocation_deserialize alloc raw custom d =
     rbind (raw d) (\<lambda>(raw_nonce, request_id, method, args).
     rbind (bridge_nonce_deserialize Inr custom raw_nonce) (\<lambda>nonce.
     map_err custom (bridge_invocation_new alloc nonce request_id method args secure_default)))"

subsection \<open>The reply\<close>

record RendererBridgeFailure =
  bf_code :: string
  bf_message :: string

definition bridge_failure_new :: "string \<Rightarrow> string \<Rightarrow> RendererBridgeFailure re_result" where
  "bridge_failure_new code message =
     rbind (renderer_validate_text ''renderer bridge error code'' code MAX_RENDERER_BRIDGE_NAME_BYTES) (\<lambda>_.
     rbind (renderer_validate_text ''renderer bridge error message'' message
       MAX_RENDERER_BRIDGE_ERROR_BYTES) (\<lambda>_.
     Inr \<lparr>bf_code = code, bf_message = message\<rparr>))"

definition bridge_failure_deserialize ::
    "('d \<Rightarrow> 'de + string \<times> string) \<Rightarrow> (RendererContractError \<Rightarrow> 'de) \<Rightarrow> 'd \<Rightarrow>
     'de + RendererBridgeFailure" where
  "bridge_failure_deserialize raw custom d =
     rbind (raw d) (\<lambda>(code, message). map_err custom (bridge_failure_new code message))"

record RendererBridgeReply =
  br_request_id :: u64
  br_result :: "WireValue option"
  br_error :: "RendererBridgeFailure option"

definition bridge_reply_success ::
    "allocator \<Rightarrow> u64 \<Rightarrow> WireValue \<Rightarrow> ProtocolLimits \<Rightarrow> RendererBridgeReply re_result" where
  "bridge_reply_success alloc request_id v limits =
     (if request_id = 0 then Inl ReZeroBridgeRequestId
      else rbind (map_err ReWire (validate_wire_value_graph alloc [v] limits)) (\<lambda>_.
        Inr \<lparr>br_request_id = request_id, br_result = Some v, br_error = None\<rparr>))"

definition bridge_reply_failure :: "u64 \<Rightarrow> string \<Rightarrow> string \<Rightarrow> RendererBridgeReply re_result" where
  "bridge_reply_failure request_id code message =
     (if request_id = 0 then Inl ReZeroBridgeRequestId
      else rbind (bridge_failure_new code message) (\<lambda>e.
        Inr \<lparr>br_request_id = request_id, br_result = None, br_error = Some e\<rparr>))"

text \<open>The shadow struct's \<open>error\<close> field is deserialized by the failure's own \<open>Deserialize\<close>.\<close>

definition bridge_reply_deserialize ::
    "allocator \<Rightarrow> ('d \<Rightarrow> 'de + u64 \<times> WireValue option \<times> (string \<times> string) option) \<Rightarrow>
     (RendererContractError \<Rightarrow> 'de) \<Rightarrow> 'd \<Rightarrow> 'de + RendererBridgeReply" where
  "bridge_reply_deserialize alloc raw custom d =
     rbind (raw d) (\<lambda>(request_id, result, raw_error).
     rbind (case raw_error of
         None \<Rightarrow> Inr None
       | Some e \<Rightarrow> rbind (bridge_failure_deserialize Inr custom e) (\<lambda>f. Inr (Some f))) (\<lambda>err.
     case (result, err) of
       (Some v, None) \<Rightarrow> map_err custom (bridge_reply_success alloc request_id v secure_default)
     | (None, Some f) \<Rightarrow> map_err custom (bridge_reply_failure request_id (bf_code f) (bf_message f))
     | _ \<Rightarrow> Inl (custom ReInvalidBridgeReplyShape)))"

subsection \<open>What an accepted message guarantees\<close>

lemma renderer_validate_text_Inr [simp]:
  "renderer_validate_text field v n = Inr u \<longleftrightarrow> v \<noteq> [] \<and> length v \<le> n"
  by (simp add: renderer_validate_text_def)

lemma bridge_nonce_scan_iff: "bridge_nonce_scan bs \<longleftrightarrow> (\<exists>b \<in> set bs. b \<noteq> 0)"
  by (induction bs) auto

lemma bridge_nonce_new_Inr [simp]: "bridge_nonce_new bs = Inr n \<longleftrightarrow> n = bs \<and> (\<exists>b \<in> set bs. b \<noteq> 0)"
  by (auto simp: bridge_nonce_new_def bridge_nonce_scan_iff)

definition authority_ok :: "RendererEnvelope \<Rightarrow> bool" where
  "authority_ok e \<longleftrightarrow> en_navigation_generation e \<noteq> 0 \<and> fi_renderer (en_frame e) = en_renderer e \<and>
     fi_generation (en_frame e) = en_navigation_generation e \<and> wi_frame (en_world e) = en_frame e \<and>
     wi_generation (en_world e) = en_navigation_generation e"

definition envelope_ok :: "ProtocolLimits \<Rightarrow> RendererEnvelope \<Rightarrow> bool" where
  "envelope_ok l e \<longleftrightarrow> authority_ok e \<and>
     oi_serialized (fi_origin (en_frame e)) \<noteq> [] \<and> text_ok l (oi_serialized (fi_origin (en_frame e))) \<and>
     graph_ok l (Some (en_app e)) [en_payload e]"

definition invocation_ok :: "ProtocolLimits \<Rightarrow> RendererBridgeInvocation \<Rightarrow> bool" where
  "invocation_ok l i \<longleftrightarrow> iv_request_id i \<noteq> 0 \<and> iv_method i \<noteq> [] \<and>
     length (iv_method i) \<le> MAX_RENDERER_BRIDGE_NAME_BYTES \<and> graph_ok l None (iv_args i)"

definition failure_ok :: "RendererBridgeFailure \<Rightarrow> bool" where
  "failure_ok f \<longleftrightarrow> bf_code f \<noteq> [] \<and> length (bf_code f) \<le> MAX_RENDERER_BRIDGE_NAME_BYTES \<and>
     bf_message f \<noteq> [] \<and> length (bf_message f) \<le> MAX_RENDERER_BRIDGE_ERROR_BYTES"

fun reply_shape_ok :: "ProtocolLimits \<Rightarrow> WireValue option \<Rightarrow> RendererBridgeFailure option \<Rightarrow> bool" where
  "reply_shape_ok l (Some v) None \<longleftrightarrow> graph_ok l None [v]"
| "reply_shape_ok l None (Some f) \<longleftrightarrow> failure_ok f"
| "reply_shape_ok l _ _ \<longleftrightarrow> False"

definition reply_ok :: "ProtocolLimits \<Rightarrow> RendererBridgeReply \<Rightarrow> bool" where
  "reply_ok l r \<longleftrightarrow> br_request_id r \<noteq> 0 \<and> reply_shape_ok l (br_result r) (br_error r)"

text \<open>
  With an allocator that never refuses, the graph validator decides \<open>graph_ok\<close>; these
  equivalences carry every constructor below.
\<close>

lemma validate_graph_iff:
  "(\<And>a n. alloc a n) \<Longrightarrow>
     (\<exists>b. validate_wire_value_graph_with_app alloc roots l app = Inr b) \<longleftrightarrow> graph_ok l app roots"
  using graph_validated graph_accepts by blast

lemma renderer_envelope_new_sound:
  "renderer_envelope_new alloc app renderer frame world generation nonce payload l = Inr e \<Longrightarrow>
     e = \<lparr>en_app = app, en_renderer = renderer, en_frame = frame, en_world = world,
       en_navigation_generation = generation, en_nonce = nonce, en_payload = payload\<rparr> \<and> envelope_ok l e"
  by (auto simp: renderer_envelope_new_def validate_renderer_authority_def rbind_Inr_iff envelope_ok_def
      authority_ok_def text_ok_def validate_wire_value_graph_for_app_def split: if_splits
      dest: graph_validated)

lemma renderer_envelope_new_iff:
  assumes "\<And>a n. alloc a n"
  shows "renderer_envelope_new alloc (en_app e) (en_renderer e) (en_frame e) (en_world e)
     (en_navigation_generation e) (en_nonce e) (en_payload e) l = Inr e \<longleftrightarrow> envelope_ok l e"
  using validate_graph_iff [of alloc, OF assms, of "[en_payload e]" l "Some (en_app e)"]
  by (auto simp: renderer_envelope_new_def validate_renderer_authority_def rbind_Inr_iff envelope_ok_def
      authority_ok_def text_ok_def validate_wire_value_graph_for_app_def)

lemma bridge_invocation_new_sound:
  "bridge_invocation_new alloc nonce request_id method args l = Inr i \<Longrightarrow>
     i = \<lparr>iv_nonce = nonce, iv_request_id = request_id, iv_method = method, iv_args = args\<rparr> \<and> invocation_ok l i"
  by (auto simp: bridge_invocation_new_def rbind_Inr_iff invocation_ok_def validate_wire_value_graph_def
      split: if_splits dest: graph_validated)

lemma bridge_invocation_new_iff:
  assumes "\<And>a n. alloc a n"
  shows "bridge_invocation_new alloc (iv_nonce i) (iv_request_id i) (iv_method i) (iv_args i) l = Inr i \<longleftrightarrow>
     invocation_ok l i"
  using validate_graph_iff [of alloc, OF assms, of "iv_args i" l None]
  by (auto simp: bridge_invocation_new_def rbind_Inr_iff invocation_ok_def validate_wire_value_graph_def)

lemma bridge_failure_new_Inr:
  "bridge_failure_new code message = Inr f \<longleftrightarrow> f = \<lparr>bf_code = code, bf_message = message\<rparr> \<and> failure_ok f"
  by (auto simp: bridge_failure_new_def rbind_Inr_iff failure_ok_def)

lemma bridge_reply_failure_Inr:
  "bridge_reply_failure q code message = Inr r \<longleftrightarrow>
     r = \<lparr>br_request_id = q, br_result = None, br_error = Some \<lparr>bf_code = code, bf_message = message\<rparr>\<rparr> \<and>
     reply_ok l r"
  by (auto simp: bridge_reply_failure_def rbind_Inr_iff bridge_failure_new_Inr reply_ok_def)

lemma bridge_reply_success_iff:
  assumes "\<And>a n. alloc a n"
  shows "bridge_reply_success alloc q v l = Inr r \<longleftrightarrow>
     r = \<lparr>br_request_id = q, br_result = Some v, br_error = None\<rparr> \<and> reply_ok l r"
  using validate_graph_iff [of alloc, OF assms, of "[v]" l None]
  by (auto simp: bridge_reply_success_def rbind_Inr_iff reply_ok_def validate_wire_value_graph_def)

text \<open>
  The raw form of a failure and of a reply: what the derived deserializer of the shadow
  struct reads from the bytes the derived serializer writes for the value.
\<close>

definition raw_reply :: "RendererBridgeReply \<Rightarrow> u64 \<times> WireValue option \<times> (string \<times> string) option" where
  "raw_reply r = (br_request_id r, br_result r, map_option (\<lambda>f. (bf_code f, bf_message f)) (br_error r))"

text \<open>
  A reply read from the wire is accepted exactly when it names a nonzero request and
  carries exactly one of a value and a failure, within its budget (the value's graph within
  the default limits, code and message nonempty and within their ceilings); an accepted
  reply is the one that was written. In particular everything the two constructors build
  under limits no wider than the default crosses the boundary unchanged, and a reply with
  both fields, with neither, or with request zero never does.
\<close>

theorem bridge_reply_wire_exact:
  assumes "\<And>a n. alloc a n" and "\<And>r. raw (ser r) = Inr (raw_reply r)"
  shows "bridge_reply_deserialize alloc raw custom (ser r) = Inr r' \<longleftrightarrow> r' = r \<and> reply_ok secure_default r"
proof -
  obtain q v f where r: "r = \<lparr>br_request_id = q, br_result = v, br_error = f\<rparr>"
    by (cases r)
  have id: "\<lparr>bf_code = bf_code e, bf_message = bf_message e\<rparr> = e" for e :: RendererBridgeFailure
    by simp
  note simps = bridge_reply_deserialize_def bridge_failure_deserialize_def raw_reply_def assms(2) r
    bridge_failure_new_Inr rbind_Inr_iff id
  show ?thesis
  proof (cases f)
    case None
    then show ?thesis
      by (cases v) (auto simp: simps bridge_reply_success_iff [OF assms(1)] reply_ok_def)
  next
    case (Some e)
    then show ?thesis
      by (cases v) (auto simp: simps bridge_reply_failure_Inr [where l = secure_default] reply_ok_def)
  qed
qed

theorem bridge_reply_wire_exact_witness:
  "let r = \<lparr>br_request_id = 7, br_result = None,
         br_error = Some \<lparr>bf_code = ''denied'', bf_message = ''no''\<rparr>\<rparr>
   in bridge_reply_deserialize (\<lambda>_ _. True) (\<lambda>d. Inr d :: string + _) (\<lambda>_. ''err'') (raw_reply r) = Inr r \<and>
      bridge_reply_deserialize (\<lambda>_ _. True) (\<lambda>d. Inr d :: string + _) (\<lambda>_. ''err'')
        (raw_reply (r\<lparr>br_result := Some WvNull\<rparr>)) \<noteq> Inr r"
proof -
  let ?r = "\<lparr>br_request_id = 7, br_result = None,
         br_error = Some \<lparr>bf_code = ''denied'', bf_message = ''no''\<rparr>\<rparr> :: RendererBridgeReply"
  have "reply_ok secure_default ?r" "\<not> reply_ok secure_default (?r\<lparr>br_result := Some WvNull\<rparr>)"
    by (simp_all add: reply_ok_def failure_ok_def MAX_RENDERER_BRIDGE_NAME_BYTES_def
        MAX_RENDERER_BRIDGE_ERROR_BYTES_def)
  then show ?thesis
    using bridge_reply_wire_exact [of "\<lambda>_ _. True" "\<lambda>d. Inr d :: string + _" raw_reply "\<lambda>_. ''err''"]
    unfolding Let_def by blast
qed

end
