(* ===== verification/Text_Paths.thy ===== *)
theory Text_Paths
  imports Runtime_Prelude "HOL-Library.List_Lexorder" "HOL-Library.Char_ord"
begin

section \<open>Texts and slash-separated paths\<close>

text \<open>
  Shared by the package origin and the archive reader. A \<open>str\<close> is the \<open>string\<close> of its UTF-8
  bytes, so \<open>length\<close> is \<open>str::len\<close> and the order of strings is the bytewise order of
  \<open>BTreeMap<String, _>\<close> keys. \<open>split_on\<close> is \<open>str::split\<close> at one character; \<open>join_path\<close> is
  its inverse on slash-free segments.
\<close>

definition char_byte :: "char \<Rightarrow> u8" where
  "char_byte c = of_nat (of_char c)"

definition byte_char :: "u8 \<Rightarrow> char" where
  "byte_char b = char_of (unat b)"

lemma byte_char_byte [simp]: "byte_char (char_byte c) = c"
  by (simp add: byte_char_def char_byte_def unat_of_nat)

lemma char_byte_char [simp]: "char_byte (byte_char b) = b"
proof -
  have "unat b mod 256 = unat b"
    using unat_u8_less [of b] by simp
  then show ?thesis
    by (simp add: byte_char_def char_byte_def)
qed

lemma char_byte_eq_iff: "char_byte c = b \<longleftrightarrow> c = byte_char b"
  by auto

fun split_on :: "char \<Rightarrow> string \<Rightarrow> string list" where
  "split_on d [] = [[]]"
| "split_on d (c # s) =
     (if c = d then [] # split_on d s
      else case split_on d s of seg # segs \<Rightarrow> (c # seg) # segs | [] \<Rightarrow> [[c]])"

fun join_path :: "string list \<Rightarrow> string" where
  "join_path [] = []"
| "join_path [seg] = seg"
| "join_path (seg # segs) = seg @ CHR ''/'' # join_path segs"

lemma split_on_ne: "split_on d s \<noteq> []"
  by (induction s) (auto split: list.splits)

lemma split_on_notin: "seg \<in> set (split_on d s) \<Longrightarrow> d \<notin> set seg"
proof (induction s arbitrary: seg)
  case Nil
  then show ?case by simp
next
  case (Cons c s)
  obtain x xs where "split_on d s = x # xs"
    using split_on_ne [of d s] by (cases "split_on d s") auto
  with Cons show ?case by (auto split: if_splits)
qed

lemma join_split: "join_path (split_on (CHR ''/'') s) = s"
proof (induction s)
  case Nil
  then show ?case by simp
next
  case (Cons c s)
  obtain x xs where x: "split_on (CHR ''/'') s = x # xs"
    using split_on_ne [of "CHR ''/''" s] by (cases "split_on (CHR ''/'') s") auto
  with Cons.IH show ?case
    by (cases xs) auto
qed

lemma split_on_clean: "d \<notin> set s \<Longrightarrow> split_on d s = [s]"
  by (induction s) auto

lemma split_on_append: "d \<notin> set s \<Longrightarrow> split_on d (s @ d # t) = s # split_on d t"
  by (induction s) auto

lemma split_join:
  "segs \<noteq> [] \<Longrightarrow> list_all (\<lambda>seg. CHR ''/'' \<notin> set seg) segs \<Longrightarrow>
     split_on (CHR ''/'') (join_path segs) = segs"
  by (induction segs rule: join_path.induct) (auto simp: split_on_clean split_on_append)

lemma set_join: "set (join_path segs) \<subseteq> insert (CHR ''/'') (\<Union> (set ` set segs))"
  by (induction segs rule: join_path.induct) auto

lemma set_split: "seg \<in> set (split_on d s) \<Longrightarrow> set seg \<subseteq> set s"
proof (induction s arbitrary: seg)
  case Nil
  then show ?case by simp
next
  case (Cons c s)
  obtain x xs where "split_on d s = x # xs"
    using split_on_ne [of d s] by (cases "split_on d s") auto
  with Cons show ?case by (fastforce split: if_splits)
qed

end
