(* ===== verification/Package_Origin.thy ===== *)
theory Package_Origin
  imports Identifiers Wire_Values Text_Paths
begin

section \<open>The private package origin\<close>

text \<open>
  \<open>weregopher-renderer/src/origin.rs\<close>: asset paths, the immutable package, the private
  origin of an application and the request handler. Texts are \<open>string\<close>s; \<open>char_byte\<close> and
  \<open>byte_char\<close> go between a character and its byte where the code works on bytes. Parameters:
  \<open>sha256\<close>, the \<open>hex\<close> crate's \<open>hex_encode\<close>, the \<open>uuid\<close> crate's \<open>uuid_simple\<close>, and
  \<open>alloc\<close> for \<open>try_reserve\<close>. An \<open>Arc<[u8]>\<close> is its bytes.
\<close>

record PackageOriginLimits =
  po_assets :: usize
  po_path_bytes :: usize
  po_asset_bytes :: usize
  po_total_bytes :: usize
  po_url_bytes :: usize

datatype PackageOriginError =
    PoInvalidLimits
  | PoInvalidAssetPath
  | PoAssetTooLarge usize usize
  | PoEmptyPackage
  | PoTooManyAssets usize usize
  | PoDuplicateAsset string
  | PoAggregateBytesOverflow
  | PoPackageTooLarge usize usize
  | PoUnsupportedMethod
  | PoUrlTooLong usize usize
  | PoOriginMismatch
  | PoFragmentNotAllowed
  | PoInvalidPercentEncoding
  | PoInvalidUtf8Path
  | PoAllocationFailed

definition origin_limits_new ::
    "usize \<Rightarrow> usize \<Rightarrow> usize \<Rightarrow> usize \<Rightarrow> usize \<Rightarrow> PackageOriginError + PackageOriginLimits" where
  "origin_limits_new max_assets max_path_bytes max_asset_bytes max_total_bytes max_url_bytes =
     (if max_assets = 0 \<or> max_path_bytes = 0 \<or> max_asset_bytes = 0 \<or> max_total_bytes = 0 \<or>
         max_url_bytes = 0 \<or> max_asset_bytes > max_total_bytes \<or> max_path_bytes > max_url_bytes
      then Inl PoInvalidLimits
      else Inr \<lparr>po_assets = max_assets, po_path_bytes = max_path_bytes,
                po_asset_bytes = max_asset_bytes, po_total_bytes = max_total_bytes,
                po_url_bytes = max_url_bytes\<rparr>)"

definition origin_limits_g1_fixture :: PackageOriginLimits where
  "origin_limits_g1_fixture = \<lparr>po_assets = 128, po_path_bytes = 1024, po_asset_bytes = 4 * 1024 * 1024,
     po_total_bytes = 16 * 1024 * 1024, po_url_bytes = 4096\<rparr>"

subsection \<open>Asset paths\<close>

definition segment_invalid :: "string \<Rightarrow> bool" where
  "segment_invalid segment \<longleftrightarrow> segment = [] \<or> segment = ''.'' \<or> segment = ''..'' \<or>
     list_ex (\<lambda>c. char_byte c < 0x20 \<or> char_byte c = 0x7f) segment"

definition validate_asset_path :: "string \<Rightarrow> usize \<Rightarrow> PackageOriginError + unit" where
  "validate_asset_path path maximum =
     (if path = [] \<or> length path > maximum then Inl PoInvalidAssetPath
      else if hd path = CHR ''/'' \<or> last path = CHR ''/'' \<or>
        list_ex (\<lambda>c. c \<in> {CHR 0x5C, CHR ''%'', CHR ''?'', CHR ''#'', CHR '':''}) path
      then Inl PoInvalidAssetPath
      else if list_ex segment_invalid (split_on (CHR ''/'') path) then Inl PoInvalidAssetPath
      else Inr ())"

definition decode_hex :: "u8 \<Rightarrow> PackageOriginError + u8" where
  "decode_hex b =
     (if 0x30 \<le> b \<and> b \<le> 0x39 then Inr (b - 0x30)
      else if 0x61 \<le> b \<and> b \<le> 0x66 then Inr (b - 0x61 + 10)
      else if 0x41 \<le> b \<and> b \<le> 0x46 then Inr (b - 0x41 + 10)
      else Inl PoInvalidPercentEncoding)"

definition decode_escape :: "u8 \<Rightarrow> u8 \<Rightarrow> PackageOriginError + u8" where
  "decode_escape high low =
     rbind (decode_hex high) (\<lambda>h.
     ok_or PoInvalidPercentEncoding
       (Option.bind (checked_mul h 16) (\<lambda>v.
         case decode_hex low of Inl _ \<Rightarrow> None | Inr l \<Rightarrow> checked_add v l)))"

definition byte_forbidden :: "bool \<Rightarrow> u8 \<Rightarrow> bool" where
  "byte_forbidden encoded b \<longleftrightarrow> (encoded \<and> b = 0x2f) \<or>
     b \<in> {0x5c, 0x3f, 0x23, 0x3a, 0x7f} \<or> b \<le> 0x1f"

fun decode_loop :: "usize \<Rightarrow> bytes \<Rightarrow> bytes \<Rightarrow> PackageOriginError + bytes" where
  "decode_loop maximum decoded [] = Inr decoded"
| "decode_loop maximum decoded (b # bs) =
     (if b = 0x25 then
        (case bs of
           high # low # rest \<Rightarrow>
             rbind (decode_escape high low) (\<lambda>x.
             if byte_forbidden True x then Inl PoInvalidAssetPath
             else if length decoded \<ge> maximum then Inl PoInvalidAssetPath
             else decode_loop maximum (decoded @ [x]) rest)
         | _ \<Rightarrow> Inl PoInvalidPercentEncoding)
      else if byte_forbidden False b then Inl PoInvalidAssetPath
      else if length decoded \<ge> maximum then Inl PoInvalidAssetPath
      else decode_loop maximum (decoded @ [b]) bs)"

definition decode_request_path ::
    "(usize \<Rightarrow> bool) \<Rightarrow> string \<Rightarrow> usize \<Rightarrow> PackageOriginError + string" where
  "decode_request_path alloc encoded maximum =
     (if encoded = [] then Inr ''index.html''
      else rbind (ensure (alloc (min (length encoded) maximum)) PoAllocationFailed) (\<lambda>_.
      rbind (decode_loop maximum [] (map char_byte encoded)) (\<lambda>decoded.
      rbind (ensure (utf8_valid decoded) PoInvalidUtf8Path) (\<lambda>_.
      let path = map byte_char decoded in
      rbind (validate_asset_path path maximum) (\<lambda>_. Inr path)))))"

subsection \<open>Assets and packages\<close>

definition rsplit_extension :: "string \<Rightarrow> string" where
  "rsplit_extension path =
     (if CHR ''.'' \<in> set path then rev (takeWhile (\<lambda>c. c \<noteq> CHR ''.'') (rev path)) else [])"

definition media_type_for :: "string \<Rightarrow> string" where
  "media_type_for path =
     (let extension = rsplit_extension path in
      if extension \<in> {''html'', ''htm''} then ''text/html; charset=utf-8''
      else if extension \<in> {''js'', ''mjs''} then ''text/javascript; charset=utf-8''
      else if extension = ''css'' then ''text/css; charset=utf-8''
      else if extension \<in> {''json'', ''map''} then ''application/json; charset=utf-8''
      else if extension = ''txt'' then ''text/plain; charset=utf-8''
      else if extension = ''svg'' then ''image/svg+xml''
      else if extension = ''png'' then ''image/png''
      else if extension \<in> {''jpg'', ''jpeg''} then ''image/jpeg''
      else if extension = ''gif'' then ''image/gif''
      else if extension = ''webp'' then ''image/webp''
      else if extension = ''ico'' then ''image/x-icon''
      else if extension = ''wasm'' then ''application/wasm''
      else if extension = ''woff2'' then ''font/woff2''
      else ''application/octet-stream'')"

record PackageAsset =
  pa_path :: string
  pa_media_type :: string
  pa_bytes :: bytes
  pa_digest :: Sha256Digest

definition package_asset_new ::
    "(bytes \<Rightarrow> Sha256Digest) \<Rightarrow> string \<Rightarrow> bytes \<Rightarrow> PackageOriginLimits \<Rightarrow>
     PackageOriginError + PackageAsset" where
  "package_asset_new sha256 path bs limits =
     rbind (validate_asset_path path (po_path_bytes limits)) (\<lambda>_.
     if length bs > po_asset_bytes limits
     then Inl (PoAssetTooLarge (po_asset_bytes limits) (length bs))
     else Inr \<lparr>pa_path = path, pa_media_type = media_type_for path, pa_bytes = bs,
               pa_digest = sha256 bs\<rparr>)"

record ImmutablePackage =
  ip_assets :: "(string \<times> PackageAsset) list"
  ip_limits :: PackageOriginLimits

fun index_assets ::
    "PackageOriginLimits \<Rightarrow> usize \<Rightarrow> (string \<times> PackageAsset) list \<Rightarrow> PackageAsset list \<Rightarrow>
     PackageOriginError + (string \<times> PackageAsset) list" where
  "index_assets limits byte_total indexed [] = Inr indexed"
| "index_assets limits byte_total indexed (a # rest) =
     rbind (ok_or PoAggregateBytesOverflow (checked_add_usize byte_total (length (pa_bytes a)))) (\<lambda>byte_total'.
     if byte_total' > po_total_bytes limits then Inl (PoPackageTooLarge (po_total_bytes limits) byte_total')
     else if bt_get indexed (pa_path a) \<noteq> None then Inl (PoDuplicateAsset (pa_path a))
     else index_assets limits byte_total' (bt_insert (pa_path a) a indexed) rest)"

definition immutable_package_new ::
    "PackageAsset list \<Rightarrow> PackageOriginLimits \<Rightarrow> PackageOriginError + ImmutablePackage" where
  "immutable_package_new package_assets limits =
     (if package_assets = [] then Inl PoEmptyPackage
      else if length package_assets > po_assets limits
      then Inl (PoTooManyAssets (po_assets limits) (length package_assets))
      else rbind (index_assets limits 0 [] package_assets) (\<lambda>indexed.
        Inr \<lparr>ip_assets = indexed, ip_limits = limits\<rparr>))"

subsection \<open>The origin and its requests\<close>

record PrivateOrigin =
  or_host :: string
  or_base_url :: string

definition private_origin_for_app :: "(uuid \<Rightarrow> string) \<Rightarrow> AppInstanceId \<Rightarrow> PrivateOrigin" where
  "private_origin_for_app uuid_simple app =
     (let host = ''app-'' @ uuid_simple app @ ''.weregopher.invalid'' in
      \<lparr>or_host = host, or_base_url = ''https://'' @ host @ ''/''\<rparr>)"

definition origin_entry_url :: "PrivateOrigin \<Rightarrow> string \<Rightarrow> PackageOriginError + string" where
  "origin_entry_url origin path =
     rbind (validate_asset_path path 4096) (\<lambda>_. Inr (or_base_url origin @ path))"

definition origin_identity :: "PrivateOrigin \<Rightarrow> OriginIdentity" where
  "origin_identity origin =
     \<lparr>oi_serialized = rev (dropWhile (\<lambda>c. c = CHR ''/'') (rev (or_base_url origin))), oi_opaque = False\<rparr>"

definition strip_prefix :: "string \<Rightarrow> string \<Rightarrow> string option" where
  "strip_prefix pre s = (if take (length pre) s = pre then Some (drop (length pre) s) else None)"

definition origin_request_path ::
    "(usize \<Rightarrow> bool) \<Rightarrow> PrivateOrigin \<Rightarrow> string \<Rightarrow> PackageOriginLimits \<Rightarrow> PackageOriginError + string" where
  "origin_request_path alloc origin uri limits =
     (if length uri > po_url_bytes limits then Inl (PoUrlTooLong (po_url_bytes limits) (length uri))
      else if CHR ''#'' \<in> set uri then Inl PoFragmentNotAllowed
      else rbind (ok_or PoOriginMismatch (strip_prefix (or_base_url origin) uri)) (\<lambda>remainder.
        decode_request_path alloc (takeWhile (\<lambda>c. c \<noteq> CHR ''?'') remainder) (po_path_bytes limits)))"

record PackageOriginResponse =
  rs_status_code :: u16
  rs_reason :: string
  rs_media_type :: string
  rs_etag :: string
  rs_content_length :: usize
  rs_body :: bytes

record PackageOrigin =
  pg_origin :: PrivateOrigin
  pg_package :: ImmutablePackage

fun str_replace :: "string \<Rightarrow> string \<Rightarrow> string \<Rightarrow> string" where
  "str_replace pat new [] = []"
| "str_replace pat new (c # s) =
     (if pat \<noteq> [] \<and> take (length pat) (c # s) = pat
      then new @ str_replace pat new (drop (length pat - 1) s)
      else c # str_replace pat new s)"

definition digest_display :: "(bytes \<Rightarrow> string) \<Rightarrow> Sha256Digest \<Rightarrow> string" where
  "digest_display hex_encode d = ''sha256:'' @ hex_encode d"

definition package_origin_serve ::
    "(usize \<Rightarrow> bool) \<Rightarrow> (bytes \<Rightarrow> string) \<Rightarrow> PackageOrigin \<Rightarrow> string \<Rightarrow> string \<Rightarrow>
     PackageOriginError + PackageOriginResponse" where
  "package_origin_serve alloc hex_encode self method uri =
     rbind (if method = ''GET'' then Inr False else if method = ''HEAD'' then Inr True
            else Inl PoUnsupportedMethod) (\<lambda>head.
     rbind (origin_request_path alloc (pg_origin self) uri (ip_limits (pg_package self))) (\<lambda>path.
     case bt_get (ip_assets (pg_package self)) path of
       None \<Rightarrow> Inr \<lparr>rs_status_code = 404, rs_reason = ''Not Found'',
         rs_media_type = ''application/octet-stream'', rs_etag = [], rs_content_length = 0, rs_body = []\<rparr>
     | Some asset \<Rightarrow> Inr \<lparr>rs_status_code = 200, rs_reason = ''OK'',
         rs_media_type = pa_media_type asset,
         rs_etag = str_replace ''sha256:'' ''sha256-'' (CHR 0x22 # digest_display hex_encode (pa_digest asset) @ [CHR 0x22]),
         rs_content_length = length (pa_bytes asset),
         rs_body = (if head then [] else pa_bytes asset)\<rparr>))"

subsection \<open>Canonical paths\<close>

text \<open>
  The specification of an asset path, without the code's splitting: slash-separated
  segments, none of them empty, a dot or two dots, and no character that could change the
  meaning of a path or a URL.
\<close>

definition segment_ok :: "string \<Rightarrow> bool" where
  "segment_ok seg \<longleftrightarrow> seg \<noteq> [] \<and> seg \<noteq> ''.'' \<and> seg \<noteq> ''..'' \<and>
     list_all (\<lambda>c. c \<notin> {CHR ''/'', CHR 0x5C, CHR ''%'', CHR ''?'', CHR ''#'', CHR '':''} \<and>
       0x20 \<le> char_byte c \<and> char_byte c \<noteq> 0x7f) seg"

definition canonical_path :: "usize \<Rightarrow> string \<Rightarrow> bool" where
  "canonical_path maximum path \<longleftrightarrow> length path \<le> maximum \<and>
     (\<exists>segs. segs \<noteq> [] \<and> list_all segment_ok segs \<and> path = join_path segs)"

lemma join_path_ends:
  "segs \<noteq> [] \<Longrightarrow> list_all segment_ok segs \<Longrightarrow>
     join_path segs \<noteq> [] \<and> hd (join_path segs) \<noteq> CHR ''/'' \<and> last (join_path segs) \<noteq> CHR ''/''"
proof (induction segs rule: join_path.induct)
  case (2 seg)
  then have "seg \<noteq> []" "hd seg \<in> set seg" "last seg \<in> set seg" "CHR ''/'' \<notin> set seg"
    by (auto simp: segment_ok_def list_all_iff)
  then show ?case
    unfolding join_path.simps by metis
next
  case (3 seg seg' segs)
  then have "seg \<noteq> []" "CHR ''/'' \<notin> set seg"
    by (auto simp: segment_ok_def list_all_iff)
  with 3 show ?case by (cases seg) auto
qed simp

lemma segment_okD:
  assumes "segment_ok seg"
  shows "CHR ''/'' \<notin> set seg" and "\<not> segment_invalid seg"
    and "c \<in> set seg \<Longrightarrow> c \<notin> {CHR 0x5C, CHR ''%'', CHR ''?'', CHR ''#'', CHR '':''}"
  using assms unfolding segment_ok_def segment_invalid_def list_all_iff list_ex_iff
  by (blast, meson linorder_not_less, blast)

lemma validate_asset_path_iff:
  "validate_asset_path path maximum = Inr u \<longleftrightarrow> canonical_path maximum path"
proof
  assume v: "validate_asset_path path maximum = Inr u"
  let ?segs = "split_on (CHR ''/'') path"
  have l: "length path \<le> maximum" and segs: "\<And>seg. seg \<in> set ?segs \<Longrightarrow> \<not> segment_invalid seg"
    and bad: "\<And>c. c \<in> set path \<Longrightarrow> c \<notin> {CHR 0x5C, CHR ''%'', CHR ''?'', CHR ''#'', CHR '':''}"
    using v by (auto simp: validate_asset_path_def list_ex_iff split: if_splits)
  have "segment_ok seg" if "seg \<in> set ?segs" for seg
    using segs [OF that] split_on_notin [OF that] set_split [OF that] bad
    by (fastforce simp: segment_ok_def segment_invalid_def list_all_iff list_ex_iff not_less)
  then have "list_all segment_ok ?segs"
    by (simp add: list_all_iff)
  with l join_split [of path] split_on_ne [of "CHR ''/''" path] show "canonical_path maximum path"
    unfolding canonical_path_def by (metis)
next
  assume "canonical_path maximum path"
  then obtain segs where s: "length path \<le> maximum" "segs \<noteq> []" "list_all segment_ok segs" "path = join_path segs"
    by (auto simp: canonical_path_def)
  have ok: "segment_ok seg" if "seg \<in> set segs" for seg
    using s(3) that by (simp add: list_all_iff)
  have sp: "split_on (CHR ''/'') path = segs"
    unfolding s(4) by (rule split_join [OF s(2)]) (use segment_okD(1) [OF ok] in \<open>simp add: list_all_iff\<close>)
  have "\<not> list_ex segment_invalid segs"
    using segment_okD(2) [OF ok] by (auto simp: list_ex_iff)
  moreover have "\<not> list_ex (\<lambda>c. c \<in> {CHR 0x5C, CHR ''%'', CHR ''?'', CHR ''#'', CHR '':''}) path"
  proof
    assume "list_ex (\<lambda>c. c \<in> {CHR 0x5C, CHR ''%'', CHR ''?'', CHR ''#'', CHR '':''}) path"
    then obtain c where c: "c \<in> set path" "c \<in> {CHR 0x5C, CHR ''%'', CHR ''?'', CHR ''#'', CHR '':''}"
      unfolding list_ex_iff by blast
    then have "c \<noteq> CHR ''/''"
      by auto
    with c(1) set_join [of segs] obtain seg where "seg \<in> set segs" "c \<in> set seg"
      unfolding s(4) by blast
    with segment_okD(3) [OF ok] c(2) show False
      by blast
  qed
  ultimately show "validate_asset_path path maximum = Inr u"
    using s join_path_ends [OF s(2,3)] by (simp add: validate_asset_path_def sp [unfolded s(4)])
qed

subsection \<open>Decoding\<close>

lemma special_chars:
  "byte_char 0x25 = CHR ''%''" "byte_char 0x5c = CHR 0x5C" "byte_char 0x3f = CHR ''?''"
  "byte_char 0x23 = CHR ''#''" "byte_char 0x3a = CHR '':''" "byte_char 0x2f = CHR ''/''"
  by (simp_all add: char_byte_eq_iff [symmetric] eq_commute [of "byte_char _"]) (simp_all add: char_byte_def)

lemma canonical_char:
  assumes "canonical_path maximum path" and "c \<in> set path"
  shows "c \<notin> {CHR 0x5C, CHR ''%'', CHR ''?'', CHR ''#'', CHR '':''}"
    and "0x20 \<le> char_byte c \<and> char_byte c \<noteq> 0x7f"
proof -
  obtain segs where s: "list_all segment_ok segs" "path = join_path segs"
    using assms(1) by (auto simp: canonical_path_def)
  with assms(2) set_join [of segs] consider "c = CHR ''/''" | seg where "seg \<in> set segs" "c \<in> set seg"
    by blast
  then show "c \<notin> {CHR 0x5C, CHR ''%'', CHR ''?'', CHR ''#'', CHR '':''}"
  proof cases
    case 2
    with s(1) show ?thesis
      unfolding list_all_iff segment_ok_def by blast
  qed simp
  from s assms(2) set_join [of segs] consider "c = CHR ''/''" | seg where "seg \<in> set segs" "c \<in> set seg"
    by blast
  then show "0x20 \<le> char_byte c \<and> char_byte c \<noteq> 0x7f"
  proof cases
    case 1
    then show ?thesis by (simp add: char_byte_def)
  next
    case 2
    with s(1) show ?thesis
      unfolding list_all_iff segment_ok_def by blast
  qed
qed

lemma canonical_byte:
  assumes "canonical_path maximum path" and "c \<in> set path"
  shows "char_byte c \<noteq> 0x25 \<and> \<not> byte_forbidden False (char_byte c)"
proof -
  note a = canonical_char [OF assms]
  have "\<not> char_byte c \<le> 0x1f"
    using a(2) by (simp add: word_le_nat_alt)
  with a show ?thesis
    unfolding byte_forbidden_def char_byte_eq_iff by (simp add: special_chars char_byte_eq_iff)
qed

lemma decode_loop_plain:
  "list_all (\<lambda>b. b \<noteq> 0x25 \<and> \<not> byte_forbidden False b) bs \<Longrightarrow> length decoded + length bs \<le> maximum \<Longrightarrow>
     decode_loop maximum decoded bs = Inr (decoded @ bs)"
  by (induction bs arbitrary: decoded) auto

lemma decode_request_canonical:
  assumes "canonical_path maximum path" and "\<And>n. alloc n" and "utf8_valid (map char_byte path)"
  shows "decode_request_path alloc path maximum = Inr path"
proof -
  have ne: "path \<noteq> []"
    using assms(1) join_path_ends by (auto simp: canonical_path_def)
  have "decode_loop maximum [] (map char_byte path) = Inr (map char_byte path)"
    using decode_loop_plain [of "map char_byte path" "[]" maximum] canonical_byte [OF assms(1)] assms(1)
    by (simp add: list_all_iff canonical_path_def)
  moreover have "validate_asset_path path maximum = Inr ()"
    using assms(1) by (simp add: validate_asset_path_iff)
  ultimately show ?thesis
    using ne assms by (simp add: decode_request_path_def comp_def)
qed

lemma decode_request_sound:
  "decode_request_path alloc encoded maximum = Inr path \<Longrightarrow>
     path = ''index.html'' \<and> encoded = [] \<or> canonical_path maximum path"
  by (auto simp: decode_request_path_def rbind_Inr_iff Let_def validate_asset_path_iff split: if_splits)

lemma strip_prefix_Some: "strip_prefix pre s = Some t \<longleftrightarrow> s = pre @ t"
  unfolding strip_prefix_def by (auto, metis append_take_drop_id)

lemma origin_request_sound:
  "origin_request_path alloc origin uri limits = Inr path \<Longrightarrow>
     (\<exists>rest. uri = or_base_url origin @ rest) \<and> length uri \<le> po_url_bytes limits \<and>
     CHR ''#'' \<notin> set uri \<and> (path = ''index.html'' \<or> canonical_path (po_path_bytes limits) path)"
  by (auto simp: origin_request_path_def rbind_Inr_iff strip_prefix_Some split: if_splits
      dest: decode_request_sound)

lemma takeWhile_notin: "c \<notin> set s \<Longrightarrow> takeWhile (\<lambda>x. x \<noteq> c) s = s"
  by (induction s) auto

lemma origin_request_complete:
  assumes "canonical_path (po_path_bytes limits) path" and "\<And>n. alloc n"
    and "utf8_valid (map char_byte path)" and "CHR ''#'' \<notin> set (or_base_url origin)"
    and "length (or_base_url origin @ path) \<le> po_url_bytes limits"
  shows "origin_request_path alloc origin (or_base_url origin @ path) limits = Inr path"
proof -
  have "CHR ''#'' \<notin> set path" "CHR ''?'' \<notin> set path"
    using canonical_char(1) [OF assms(1)] by blast+
  moreover have "strip_prefix (or_base_url origin) (or_base_url origin @ path) = Some path"
    by (simp add: strip_prefix_Some)
  ultimately show ?thesis
    using assms decode_request_canonical [of "po_path_bytes limits" path alloc, OF assms(1,2,3)]
    by (simp add: origin_request_path_def takeWhile_notin)
qed

text \<open>
  The origin of an application is closed under its own addresses and under nothing
  else. A request is resolved only below the origin's base URL, without a fragment, within
  the length bound, and then to the index or to a canonical asset path: segments that are
  not empty, \<open>.\<close> or \<open>..\<close>, no separator, drive, escape or control character, however the
  request escaped it. Conversely the address the origin builds for a path resolves to that path.
\<close>

theorem origin_addresses:
  "(origin_request_path alloc origin uri limits = Inr path \<longrightarrow>
      (\<exists>rest. uri = or_base_url origin @ rest) \<and> length uri \<le> po_url_bytes limits \<and>
      CHR ''#'' \<notin> set uri \<and> (path = ''index.html'' \<or> canonical_path (po_path_bytes limits) path)) \<and>
   (origin_entry_url origin p = Inr url \<longrightarrow> (\<forall>n. alloc n) \<longrightarrow> utf8_valid (map char_byte p) \<longrightarrow>
      CHR ''#'' \<notin> set (or_base_url origin) \<longrightarrow> length p \<le> po_path_bytes limits \<longrightarrow>
      length url \<le> po_url_bytes limits \<longrightarrow> origin_request_path alloc origin url limits = Inr p)"
proof (intro conjI impI)
  assume "origin_entry_url origin p = Inr url" "\<forall>n. alloc n" "utf8_valid (map char_byte p)"
    "CHR ''#'' \<notin> set (or_base_url origin)" "length p \<le> po_path_bytes limits" "length url \<le> po_url_bytes limits"
  moreover from this have "canonical_path (po_path_bytes limits) p" "url = or_base_url origin @ p"
    by (auto simp: origin_entry_url_def rbind_Inr_iff validate_asset_path_iff canonical_path_def)
  ultimately show "origin_request_path alloc origin url limits = Inr p"
    using origin_request_complete by simp
qed (use origin_request_sound in blast)+

theorem origin_addresses_witness:
  "let origin = private_origin_for_app (\<lambda>_. ''7f'') 1 in
   origin_request_path (\<lambda>_. True) origin ''https://app-7f.weregopher.invalid/js/app.js'' origin_limits_g1_fixture =
     Inr ''js/app.js''"
proof -
  let ?o = "private_origin_for_app (\<lambda>_. ''7f'') 1"
  have "origin_entry_url ?o ''js/app.js'' = Inr ''https://app-7f.weregopher.invalid/js/app.js''"
    by (simp add: origin_entry_url_def private_origin_for_app_def validate_asset_path_def
        segment_invalid_def char_byte_def)
  moreover have "utf8_valid (map char_byte ''js/app.js'')"
    by (rule utf8_valid_ascii) (simp add: char_byte_def)
  moreover have "CHR ''#'' \<notin> set (or_base_url ?o)"
    by (simp add: private_origin_for_app_def)
  ultimately show ?thesis
    using origin_addresses [of "\<lambda>_. True" ?o undefined origin_limits_g1_fixture undefined "''js/app.js''"
        "''https://app-7f.weregopher.invalid/js/app.js''"]
    by (simp add: origin_limits_g1_fixture_def)
qed

subsection \<open>Serving\<close>

lemma index_assets_Inr:
  assumes "bt_wf idx" and "index_assets limits n idx as = Inr idx'"
  shows "bt_wf idx' \<and>
    (\<forall>p a. bt_get idx' p = Some a \<longleftrightarrow> bt_get idx p = Some a \<or> a \<in> set as \<and> p = pa_path a) \<and>
    distinct (map pa_path as) \<and> (\<forall>a \<in> set as. bt_get idx (pa_path a) = None) \<and>
    (as \<noteq> [] \<longrightarrow> n + sum_list (map (\<lambda>a. length (pa_bytes a)) as) \<le> po_total_bytes limits)"
  using assms
proof (induction as arbitrary: n idx)
  case Nil
  then show ?case by simp
next
  case (Cons a as)
  let ?idx = "bt_insert (pa_path a) a idx" and ?n = "n + length (pa_bytes a)"
  from Cons.prems(2) have fresh: "bt_get idx (pa_path a) = None" and n: "?n \<le> po_total_bytes limits"
    and rest: "index_assets limits ?n ?idx as = Inr idx'"
    by (auto simp: rbind_Inr_iff split: if_splits)
  have wf: "bt_wf ?idx" and g: "bt_get ?idx = (bt_get idx)(pa_path a \<mapsto> a)"
    using Cons.prems(1) by (simp_all add: bt_laws)
  note IH = Cons.IH [OF wf rest]
  have "pa_path a \<notin> pa_path ` set as" "\<forall>b \<in> set as. bt_get idx (pa_path b) = None"
    using IH g by (auto split: if_splits)
  moreover have "n + sum_list (map (\<lambda>a. length (pa_bytes a)) (a # as)) \<le> po_total_bytes limits"
    using IH n by (cases "as = []") auto
  moreover have "bt_get idx' p = Some b \<longleftrightarrow> bt_get idx p = Some b \<or> b \<in> set (a # as) \<and> p = pa_path b" for p b
    using IH g fresh by (auto split: if_splits)
  ultimately show ?case
    using IH fresh by auto
qed

definition serves_asset :: "string \<Rightarrow> PackageAsset \<Rightarrow> PackageOriginResponse \<Rightarrow> bool" where
  "serves_asset m a r \<longleftrightarrow> rs_status_code r = 200 \<and> rs_media_type r = pa_media_type a \<and>
     rs_content_length r = length (pa_bytes a) \<and> rs_body r = (if m = ''HEAD'' then [] else pa_bytes a)"

definition serves_nothing :: "PackageOriginResponse \<Rightarrow> bool" where
  "serves_nothing r \<longleftrightarrow> rs_status_code r = 404 \<and> rs_content_length r = 0 \<and> rs_body r = []"

definition serves :: "string \<Rightarrow> PackageAsset option \<Rightarrow> PackageOriginResponse \<Rightarrow> bool" where
  "serves m found r \<longleftrightarrow> (case found of None \<Rightarrow> serves_nothing r | Some a \<Rightarrow> serves_asset m a r)"

lemma serve_Inr:
  assumes "package_origin_serve alloc hex_encode self m uri = Inr r"
  obtains path where "m = ''GET'' \<or> m = ''HEAD''"
    and "origin_request_path alloc (pg_origin self) uri (ip_limits (pg_package self)) = Inr path"
    and "serves m (bt_get (ip_assets (pg_package self)) path) r"
proof -
  have m: "m = ''GET'' \<or> m = ''HEAD''"
    using assms by (rule contrapos_pp) (simp add: package_origin_serve_def)
  with assms obtain path where
    path: "origin_request_path alloc (pg_origin self) uri (ip_limits (pg_package self)) = Inr path"
    by (cases "origin_request_path alloc (pg_origin self) uri (ip_limits (pg_package self))")
      (auto simp: package_origin_serve_def)
  have "serves m (bt_get (ip_assets (pg_package self)) path) r"
  proof (cases "bt_get (ip_assets (pg_package self)) path")
    case None
    with assms m path show ?thesis
      by (elim disjE; simp add: package_origin_serve_def serves_def serves_nothing_def; clarsimp)
  next
    case (Some a)
    with assms m path show ?thesis
      by (elim disjE; simp add: package_origin_serve_def serves_def serves_asset_def; clarsimp)
  qed
  with m path show thesis
    by (rule that)
qed

text \<open>
  C39: the request handler serves the manifest and nothing else. Once a package is accepted
  (its paths are then distinct and its bytes within the aggregate bound), every request the
  handler answers is a \<open>GET\<close> or a \<open>HEAD\<close> whose path either is the path of exactly one asset of
  the manifest, and then the answer is that asset's bytes (none for \<open>HEAD\<close>), length and
  media type, or is no asset's path, and then the answer is an empty 404.
\<close>

theorem package_origin_serves_manifest:
  assumes "immutable_package_new manifest limits = Inr pkg"
    and "package_origin_serve alloc hex_encode \<lparr>pg_origin = origin, pg_package = pkg\<rparr> m uri = Inr r"
  shows "distinct (map pa_path manifest) \<and>
    sum_list (map (\<lambda>a. length (pa_bytes a)) manifest) \<le> po_total_bytes limits \<and>
    m \<in> {''GET'', ''HEAD''} \<and>
    (\<exists>path. origin_request_path alloc origin uri limits = Inr path \<and>
      (if path \<in> set (map pa_path manifest)
       then \<exists>a \<in> set manifest. pa_path a = path \<and> serves_asset m a r
       else serves_nothing r))"
proof -
  obtain idx where idx: "index_assets limits 0 [] manifest = Inr idx" "manifest \<noteq> []"
    and pkg: "pkg = \<lparr>ip_assets = idx, ip_limits = limits\<rparr>"
    using assms(1) by (auto simp: immutable_package_new_def rbind_Inr_iff split: if_splits)
  have "bt_wf ([] :: (string \<times> PackageAsset) list)"
    by (rule bt.wf_empty)
  note i = index_assets_Inr [OF this idx(1)]
  have g: "bt_get idx p = Some a \<longleftrightarrow> a \<in> set manifest \<and> p = pa_path a" for p a
    using i by (simp add: bt.get_empty)
  obtain path where m: "m = ''GET'' \<or> m = ''HEAD''"
    and path: "origin_request_path alloc origin uri limits = Inr path"
    and r: "serves m (bt_get idx path) r"
    using assms(2) pkg by (auto elim: serve_Inr)
  have "if path \<in> set (map pa_path manifest)
       then \<exists>a \<in> set manifest. pa_path a = path \<and> serves_asset m a r else serves_nothing r"
  proof (cases "bt_get idx path")
    case None
    then have "path \<noteq> pa_path a" if "a \<in> set manifest" for a
      using g [of path a] that by simp
    then have "path \<notin> set (map pa_path manifest)"
      by auto
    with None r show ?thesis
      by (simp add: serves_def)
  next
    case (Some a)
    then have "a \<in> set manifest" "path = pa_path a"
      using g [of path a] by simp_all
    with Some r show ?thesis
      by (auto simp: serves_def)
  qed
  moreover have "sum_list (map (\<lambda>a. length (pa_bytes a)) manifest) \<le> po_total_bytes limits"
    using i idx(2) by simp
  ultimately show ?thesis
    using i m path by simp
qed

theorem package_origin_serves_manifest_witness:
  "let asset = \<lparr>pa_path = ''a.txt'', pa_media_type = ''text/plain; charset=utf-8'', pa_bytes = [104, 105],
         pa_digest = []\<rparr>;
       pkg = \<lparr>ip_assets = [(''a.txt'', asset)], ip_limits = origin_limits_g1_fixture\<rparr>;
       origin = private_origin_for_app (\<lambda>_. ''7f'') 1
   in \<exists>r. package_origin_serve (\<lambda>_. True) (\<lambda>_. ''00'') \<lparr>pg_origin = origin, pg_package = pkg\<rparr> ''GET''
        ''https://app-7f.weregopher.invalid/a.txt'' = Inr r \<and> serves_asset ''GET'' asset r"
proof -
  let ?asset = "\<lparr>pa_path = ''a.txt'', pa_media_type = ''text/plain; charset=utf-8'', pa_bytes = [104, 105],
         pa_digest = []\<rparr> :: PackageAsset"
  let ?pkg = "\<lparr>ip_assets = [(''a.txt'', ?asset)], ip_limits = origin_limits_g1_fixture\<rparr>"
  let ?o = "private_origin_for_app (\<lambda>_. ''7f'') 1" and ?uri = "''https://app-7f.weregopher.invalid/a.txt''"
  let ?self = "\<lparr>pg_origin = ?o, pg_package = ?pkg\<rparr>"
  have pkg: "immutable_package_new [?asset] origin_limits_g1_fixture = Inr ?pkg"
    by (simp add: immutable_package_new_def origin_limits_g1_fixture_def checked_add_usize_def bt_get_def)
  have "canonical_path 1024 ''a.txt''"
    unfolding validate_asset_path_iff [symmetric, where u = "()"]
    by (simp add: validate_asset_path_def segment_invalid_def char_byte_def)
  moreover have "utf8_valid (map char_byte ''a.txt'')"
    by (rule utf8_valid_ascii) (simp add: char_byte_def)
  ultimately have path: "origin_request_path (\<lambda>_. True) ?o ?uri origin_limits_g1_fixture = Inr ''a.txt''"
    using origin_request_complete [of origin_limits_g1_fixture "''a.txt''" "\<lambda>_. True" ?o]
    by (simp add: origin_limits_g1_fixture_def private_origin_for_app_def)
  then obtain r where r: "package_origin_serve (\<lambda>_. True) (\<lambda>_. ''00'') ?self ''GET'' ?uri = Inr r"
    by (simp add: package_origin_serve_def bt_get_def)
  from package_origin_serves_manifest [OF pkg r] path have "serves_asset ''GET'' ?asset r"
    by simp
  with r show ?thesis
    by (auto simp: Let_def)
qed

end
