(* ===== verification/Renderer_Bridge.thy ===== *)
theory Renderer_Bridge
  imports Renderer_Contracts Package_Origin
begin

section \<open>Renderer bridge authority\<close>

text \<open>
  \<open>weregopher-renderer/src/bridge.rs\<close>: the per-navigation authority that turns an untrusted
  page message into a runtime call. The message supplies a nonce, a request number, a method
  and arguments; everything else of the call is derived from the backend's own state. The
  authority records the accepted request numbers (a \<open>BTreeSet\<close>, here the prelude's ordered
  map with unit values) and refuses replays. One theorem gives the exact condition and
  outcome of one call, the other the guarantee over every sequence of messages.
\<close>

definition G1_RENDERER_CALL_DEADLINE_MILLIS :: u32 where "G1_RENDERER_CALL_DEADLINE_MILLIS = 5000"
definition G1_MAIN_FRAME_ID :: u64 where "G1_MAIN_FRAME_ID = 1"
definition G1_MAIN_WORLD_ID :: u64 where "G1_MAIN_WORLD_ID = 1"

record AuthorizedRendererCall =
  ac_page_request_id :: u64
  ac_envelope :: RendererEnvelope
  ac_call :: RuntimeCall

datatype RendererBridgeError =
    RbZeroNavigationGeneration
  | RbSourceMismatch
  | RbNonceMismatch
  | RbRequestReplay u64
  | RbRequestBudgetExceeded u32
  | RbOrigin PackageOriginError
  | RbRenderer RendererContractError
  | RbRuntime RuntimeProtocolContractError
  | RbLimits ProtocolLimitError

record RendererBridgeAuthority =
  ba_app :: AppInstanceId
  ba_renderer :: RendererId
  ba_origin :: PrivateOrigin
  ba_navigation_generation :: u32
  ba_nonce :: RendererBridgeNonce
  ba_service :: string
  ba_limits :: ProtocolLimits
  ba_accepted_requests :: "(u64 \<times> unit) list"

definition bridge_authority_new ::
    "AppInstanceId \<Rightarrow> RendererId \<Rightarrow> PrivateOrigin \<Rightarrow> u32 \<Rightarrow> RendererBridgeNonce \<Rightarrow> string \<Rightarrow>
     ProtocolLimits \<Rightarrow> RendererBridgeError + RendererBridgeAuthority" where
  "bridge_authority_new app renderer origin generation nonce service limits =
     (if generation = 0 then Inl RbZeroNavigationGeneration
      else rbind (map_err RbLimits (limits_validate limits)) (\<lambda>_.
      rbind (map_err RbRuntime (call_target_service service)) (\<lambda>_.
      Inr \<lparr>ba_app = app, ba_renderer = renderer, ba_origin = origin,
        ba_navigation_generation = generation, ba_nonce = nonce, ba_service = service,
        ba_limits = limits, ba_accepted_requests = []\<rparr>)))"

text \<open>The identities the handler builds from the authority's own state.\<close>

definition authority_frame :: "RendererBridgeAuthority \<Rightarrow> FrameIdentity" where
  "authority_frame self =
     \<lparr>fi_renderer = ba_renderer self, fi_frame_id = G1_MAIN_FRAME_ID,
      fi_generation = ba_navigation_generation self, fi_parent_frame_id = None,
      fi_origin = origin_identity (ba_origin self), fi_is_main_frame = True\<rparr>"

definition authority_world :: "RendererBridgeAuthority \<Rightarrow> WorldIdentity" where
  "authority_world self =
     \<lparr>wi_frame = authority_frame self, wi_world_id = G1_MAIN_WORLD_ID,
      wi_generation = ba_navigation_generation self, wi_kind = WorldMain\<rparr>"

definition authority_context :: "RendererBridgeAuthority \<Rightarrow> CallContext" where
  "authority_context self =
     \<lparr>cc_app = ba_app self, cc_renderer = Some (ba_renderer self), cc_frame = Some (authority_frame self),
      cc_world = Some (authority_world self),
      cc_authority = \<lparr>ca_capability = None, ca_user_activation = None\<rparr>,
      cc_deadline_ms = Some G1_RENDERER_CALL_DEADLINE_MILLIS, cc_trace_parent = None\<rparr>"

text \<open>
  \<open>authorize\<close>. The parameters \<open>oalloc\<close> and \<open>alloc\<close> say which reservations the allocator
  grants to the path decoder and to the graph validator. \<open>authorize_checks\<close> is the body up
  to the last fallible call, in the source's order; the accepted request number is recorded
  after every check has passed.
\<close>

definition requests_contain :: "(u64 \<times> unit) list \<Rightarrow> u64 \<Rightarrow> bool" where
  "requests_contain m q \<longleftrightarrow> bt_get m q \<noteq> None"

definition authorize_checks ::
    "(usize \<Rightarrow> bool) \<Rightarrow> allocator \<Rightarrow> RendererBridgeAuthority \<Rightarrow> string \<Rightarrow> RendererBridgeInvocation \<Rightarrow>
     RendererBridgeError + RendererEnvelope \<times> RuntimeCall" where
  "authorize_checks oalloc alloc self observed_source invocation =
     rbind (map_err (\<lambda>_. RbSourceMismatch)
       (origin_request_path oalloc (ba_origin self) observed_source origin_limits_g1_fixture)) (\<lambda>_.
     if iv_nonce invocation \<noteq> ba_nonce self then Inl RbNonceMismatch
     else if requests_contain (ba_accepted_requests self) (iv_request_id invocation)
     then Inl (RbRequestReplay (iv_request_id invocation))
     else if length (ba_accepted_requests self) \<ge> unat (max_pending_requests (ba_limits self))
     then Inl (RbRequestBudgetExceeded (max_pending_requests (ba_limits self)))
     else rbind (map_err RbRenderer (renderer_envelope_new alloc (ba_app self) (ba_renderer self)
            (authority_frame self) (authority_world self) (ba_navigation_generation self)
            (ba_nonce self) (WvArray (iv_args invocation)) (ba_limits self))) (\<lambda>envelope.
          rbind (map_err RbRuntime (call_target_service (ba_service self))) (\<lambda>target.
          rbind (map_err RbRuntime (runtime_call_new alloc target (iv_method invocation)
            (iv_args invocation) (authority_context self) (ba_limits self))) (\<lambda>call.
          Inr (envelope, call)))))"

definition bridge_authorize ::
    "(usize \<Rightarrow> bool) \<Rightarrow> allocator \<Rightarrow> RendererBridgeAuthority \<Rightarrow> string \<Rightarrow> RendererBridgeInvocation \<Rightarrow>
     (RendererBridgeError + AuthorizedRendererCall) \<times> RendererBridgeAuthority" where
  "bridge_authorize oalloc alloc self observed_source invocation =
     (case authorize_checks oalloc alloc self observed_source invocation of
        Inl e \<Rightarrow> (Inl e, self)
      | Inr (envelope, call) \<Rightarrow>
          (Inr \<lparr>ac_page_request_id = iv_request_id invocation, ac_envelope = envelope, ac_call = call\<rparr>,
           self\<lparr>ba_accepted_requests :=
             bt_insert (iv_request_id invocation) () (ba_accepted_requests self)\<rparr>))"

subsection \<open>One message\<close>

text \<open>
  The specification: what the host derives, and when a message is admissible. The envelope
  carries the arguments as one array, so its graph condition is the strongest.
\<close>

definition derived_call :: "RendererBridgeAuthority \<Rightarrow> RendererBridgeInvocation \<Rightarrow> AuthorizedRendererCall" where
  "derived_call self i =
     \<lparr>ac_page_request_id = iv_request_id i,
      ac_envelope = \<lparr>en_app = ba_app self, en_renderer = ba_renderer self, en_frame = authority_frame self,
        en_world = authority_world self, en_navigation_generation = ba_navigation_generation self,
        en_nonce = ba_nonce self, en_payload = WvArray (iv_args i)\<rparr>,
      ac_call = \<lparr>rc_target = CtService (ba_service self), rc_method = iv_method i, rc_args = iv_args i,
        rc_context = authority_context self\<rparr>\<rparr>"

definition source_ok :: "(usize \<Rightarrow> bool) \<Rightarrow> RendererBridgeAuthority \<Rightarrow> string \<Rightarrow> bool" where
  "source_ok oalloc self src \<longleftrightarrow>
     is_ok (origin_request_path oalloc (ba_origin self) src origin_limits_g1_fixture)"

definition message_ok :: "RendererBridgeAuthority \<Rightarrow> RendererBridgeInvocation \<Rightarrow> bool" where
  "message_ok self i \<longleftrightarrow> (let l = ba_limits self; origin = oi_serialized (origin_identity (ba_origin self)) in
     iv_method i \<noteq> [] \<and> text_ok l (iv_method i) \<and> origin \<noteq> [] \<and> text_ok l origin \<and>
     text_ok l (ba_service self) \<and> graph_ok l (Some (ba_app self)) [WvArray (iv_args i)])"

definition admissible ::
    "(usize \<Rightarrow> bool) \<Rightarrow> RendererBridgeAuthority \<Rightarrow> string \<Rightarrow> RendererBridgeInvocation \<Rightarrow> bool" where
  "admissible oalloc self src i \<longleftrightarrow> source_ok oalloc self src \<and> iv_nonce i = ba_nonce self \<and>
     \<not> requests_contain (ba_accepted_requests self) (iv_request_id i) \<and>
     length (ba_accepted_requests self) < unat (max_pending_requests (ba_limits self)) \<and> message_ok self i"

definition bridge_inv :: "RendererBridgeAuthority \<Rightarrow> bool" where
  "bridge_inv self \<longleftrightarrow> ba_navigation_generation self \<noteq> 0 \<and> limits_positive (ba_limits self) \<and>
     ba_service self \<noteq> [] \<and> length (ba_service self) \<le> MAX_PROTOCOL_SERVICE_NAME_BYTES \<and>
     bt_wf (ba_accepted_requests self) \<and>
     length (ba_accepted_requests self) \<le> unat (max_pending_requests (ba_limits self))"

definition remember :: "u64 \<Rightarrow> RendererBridgeAuthority \<Rightarrow> RendererBridgeAuthority" where
  "remember q self = self\<lparr>ba_accepted_requests := bt_insert q () (ba_accepted_requests self)\<rparr>"

lemma not_contained: "\<not> requests_contain m q \<Longrightarrow> bt_get m q = None"
  by (simp only: requests_contain_def not_not)

lemma graph_ok_array: "graph_ok l app [WvArray vs] \<Longrightarrow> graph_ok l app vs"
  by (simp add: graph_ok_def)

lemma call_target_service_Inr:
  "call_target_service name = Inr t \<longleftrightarrow>
     t = CtService name \<and> name \<noteq> [] \<and> length name \<le> MAX_PROTOCOL_SERVICE_NAME_BYTES"
  by (auto simp: call_target_service_def rbind_Inr_iff)

lemma derived_ok:
  assumes "bridge_inv self"
  shows "message_ok self i \<longleftrightarrow> envelope_ok (ba_limits self) (ac_envelope (derived_call self i)) \<and>
    call_ok (ba_limits self) (ac_call (derived_call self i))"
  using assms graph_ok_array [of "ba_limits self" "Some (ba_app self)" "iv_args i"]
  by (auto simp: message_ok_def Let_def derived_call_def envelope_ok_def authority_ok_def call_ok_def
      context_ok_def authority_context_def authority_frame_def authority_world_def bridge_inv_def
      G1_RENDERER_CALL_DEADLINE_MILLIS_def MAX_PROTOCOL_CALL_DEADLINE_MILLIS_def)

lemma runtime_call_new_sound:
  "runtime_call_new alloc t m args ctx l = Inr call \<Longrightarrow>
     call = \<lparr>rc_target = t, rc_method = m, rc_args = args, rc_context = ctx\<rparr> \<and> call_ok l call"
  by (auto simp: runtime_call_new_def rbind_Inr_iff Let_def dest: runtime_call_validate_sound)

lemma runtime_call_new_accepts:
  "(\<And>a n. alloc a n) \<Longrightarrow> call_ok l call \<Longrightarrow>
     runtime_call_new alloc (rc_target call) (rc_method call) (rc_args call) (rc_context call) l = Inr call"
  using runtime_call_validate_complete [of alloc l call] by (cases call) (simp add: runtime_call_new_def)

lemma authorize_sound:
  assumes "bridge_inv self" and "bridge_authorize oalloc alloc self src i = (Inr c, self')"
  shows "admissible oalloc self src i \<and> c = derived_call self i \<and> self' = remember (iv_request_id i) self"
proof -
  from assms(2) obtain p e t call where
    p: "origin_request_path oalloc (ba_origin self) src origin_limits_g1_fixture = Inr p"
    and g: "iv_nonce i = ba_nonce self" "\<not> requests_contain (ba_accepted_requests self) (iv_request_id i)"
      "length (ba_accepted_requests self) < unat (max_pending_requests (ba_limits self))"
    and e: "renderer_envelope_new alloc (ba_app self) (ba_renderer self) (authority_frame self)
      (authority_world self) (ba_navigation_generation self) (ba_nonce self)
      (WvArray (iv_args i)) (ba_limits self) = Inr e"
    and t: "call_target_service (ba_service self) = Inr t"
    and call: "runtime_call_new alloc t (iv_method i) (iv_args i) (authority_context self)
      (ba_limits self) = Inr call"
    and c: "c = \<lparr>ac_page_request_id = iv_request_id i, ac_envelope = e, ac_call = call\<rparr>"
      "self' = remember (iv_request_id i) self"
    unfolding bridge_authorize_def remember_def authorize_checks_def
    by (auto simp: rbind_Inr_iff not_le split: sum.splits if_splits)
  have "c = derived_call self i"
    using renderer_envelope_new_sound [OF e] runtime_call_new_sound [OF call] t c(1)
    by (simp add: derived_call_def call_target_service_Inr)
  moreover have "envelope_ok (ba_limits self) e \<and> call_ok (ba_limits self) call"
    using renderer_envelope_new_sound [OF e] runtime_call_new_sound [OF call] by blast
  moreover from calculation have "message_ok self i"
    using derived_ok [OF assms(1), of i] c(1) by (metis AuthorizedRendererCall.select_convs(2,3))
  ultimately show ?thesis
    using p g c(2) by (simp add: admissible_def source_ok_def)
qed

lemma authorize_complete:
  assumes "bridge_inv self" and "\<And>a n. alloc a n" and "admissible oalloc self src i"
  shows "bridge_authorize oalloc alloc self src i = (Inr (derived_call self i), remember (iv_request_id i) self)"
proof -
  let ?c = "derived_call self i" and ?l = "ba_limits self"
  have ok: "envelope_ok ?l (ac_envelope ?c)" "call_ok ?l (ac_call ?c)"
    using assms(3) derived_ok [OF assms(1), of i] by (simp_all add: admissible_def)
  have "renderer_envelope_new alloc (ba_app self) (ba_renderer self) (authority_frame self)
      (authority_world self) (ba_navigation_generation self) (ba_nonce self)
      (WvArray (iv_args i)) ?l = Inr (ac_envelope ?c)"
    using renderer_envelope_new_iff [of alloc "ac_envelope ?c" ?l, OF assms(2)] ok(1)
    by (simp add: derived_call_def)
  moreover have "runtime_call_new alloc (CtService (ba_service self)) (iv_method i) (iv_args i)
      (authority_context self) ?l = Inr (ac_call ?c)"
    using runtime_call_new_accepts [of alloc ?l "ac_call ?c", OF assms(2) ok(2)]
    by (simp add: derived_call_def)
  moreover have "call_target_service (ba_service self) = Inr (CtService (ba_service self))"
    using assms(1) by (simp add: bridge_inv_def call_target_service_Inr)
  moreover obtain p where "origin_request_path oalloc (ba_origin self) src origin_limits_g1_fixture = Inr p"
    using assms(3) by (auto simp: admissible_def source_ok_def is_ok_iff)
  ultimately show ?thesis
    using assms(3) by (simp add: bridge_authorize_def authorize_checks_def admissible_def remember_def derived_call_def)
qed

lemma authorize_err: "fst (bridge_authorize oalloc alloc self src i) = Inl e \<Longrightarrow>
    snd (bridge_authorize oalloc alloc self src i) = self"
  by (auto simp: bridge_authorize_def split: sum.splits prod.splits)

lemma authorize_rejects:
  assumes "bridge_inv self" and "\<not> admissible oalloc self src i"
  shows "\<exists>e. bridge_authorize oalloc alloc self src i = (Inl e, self)"
proof -
  obtain r s where rs: "bridge_authorize oalloc alloc self src i = (r, s)"
    by (cases "bridge_authorize oalloc alloc self src i")
  with assms obtain e where "r = Inl e"
    using authorize_sound [OF assms(1)] by (cases r) blast+
  with rs authorize_err [of oalloc alloc self src i e] show ?thesis
    by simp
qed

text \<open>
  The refusal of a message that passed the first four checks: the envelope's contract error when the
  derived envelope breaks its contract, and otherwise the runtime call's.
\<close>

definition contract_refusal :: "allocator \<Rightarrow> RendererBridgeAuthority \<Rightarrow> RendererBridgeInvocation \<Rightarrow> RendererBridgeError \<Rightarrow> bool" where
  "contract_refusal alloc self i e \<longleftrightarrow>
     (if \<not> envelope_ok (ba_limits self) (ac_envelope (derived_call self i))
      then \<exists>x. renderer_envelope_new alloc (ba_app self) (ba_renderer self) (authority_frame self) (authority_world self)
          (ba_navigation_generation self) (ba_nonce self) (WvArray (iv_args i)) (ba_limits self) = Inl x \<and> e = RbRenderer x
      else \<not> call_ok (ba_limits self) (ac_call (derived_call self i)) \<and>
        (\<exists>x. runtime_call_new alloc (CtService (ba_service self)) (iv_method i) (iv_args i) (authority_context self)
          (ba_limits self) = Inl x \<and> e = RbRuntime x))"

lemma map_err_Inl_iff: "map_err f m = Inl e \<longleftrightarrow> (\<exists>x. m = Inl x \<and> e = f x)"
  by (cases m) auto

lemma derived_envelope_new:
  assumes "\<And>a n. alloc a n"
  shows "renderer_envelope_new alloc (ba_app self) (ba_renderer self) (authority_frame self) (authority_world self)
      (ba_navigation_generation self) (ba_nonce self) (WvArray (iv_args i)) (ba_limits self) = Inr x \<longleftrightarrow>
    x = ac_envelope (derived_call self i) \<and> envelope_ok (ba_limits self) (ac_envelope (derived_call self i))"
  using renderer_envelope_new_iff [of alloc "ac_envelope (derived_call self i)" "ba_limits self", OF assms]
    renderer_envelope_new_sound [of alloc "ba_app self" "ba_renderer self" "authority_frame self" "authority_world self"
      "ba_navigation_generation self" "ba_nonce self" "WvArray (iv_args i)" "ba_limits self" x]
  by (auto simp: derived_call_def)

lemma authorize_reason:
  assumes inv: "bridge_inv self" and all: "\<And>a n. alloc a n" and no: "\<not> admissible oalloc self src i"
  shows "\<exists>e. bridge_authorize oalloc alloc self src i = (Inl e, self) \<and>
    (if \<not> source_ok oalloc self src then e = RbSourceMismatch
     else if iv_nonce i \<noteq> ba_nonce self then e = RbNonceMismatch
     else if requests_contain (ba_accepted_requests self) (iv_request_id i)
     then e = RbRequestReplay (iv_request_id i)
     else if length (ba_accepted_requests self) = unat (max_pending_requests (ba_limits self))
     then e = RbRequestBudgetExceeded (max_pending_requests (ba_limits self))
     else contract_refusal alloc self i e)"
proof -
  let ?c = "derived_call self i" and ?l = "ba_limits self"
  obtain e where e: "bridge_authorize oalloc alloc self src i = (Inl e, self)"
    using authorize_rejects [OF inv no] by blast
  then have checks: "authorize_checks oalloc alloc self src i = Inl e"
    by (auto simp: bridge_authorize_def split: sum.splits)
  have service: "call_target_service (ba_service self) = Inr (CtService (ba_service self))"
    using inv by (simp add: bridge_inv_def call_target_service_Inr)
  show ?thesis
  proof (cases "source_ok oalloc self src \<and> iv_nonce i = ba_nonce self \<and>
      \<not> requests_contain (ba_accepted_requests self) (iv_request_id i) \<and>
      length (ba_accepted_requests self) < unat (max_pending_requests ?l)")
    case True
    then obtain p where p: "origin_request_path oalloc (ba_origin self) src origin_limits_g1_fixture = Inr p"
      by (auto simp: source_ok_def is_ok_iff)
    have bad: "\<not> (envelope_ok ?l (ac_envelope ?c) \<and> call_ok ?l (ac_call ?c))"
      using True no derived_ok [OF inv, of i] by (simp add: admissible_def)
    have "contract_refusal alloc self i e"
    proof (cases "envelope_ok ?l (ac_envelope ?c)")
      case ok: True
      then show ?thesis
        using checks True p bad derived_envelope_new [of alloc self i "ac_envelope ?c", OF all]
        by (auto simp: authorize_checks_def contract_refusal_def service rbind_Inl_iff map_err_Inl_iff)
    next
      case False
      then show ?thesis
        using checks True p derived_envelope_new [of alloc self i, OF all]
        by (auto simp: authorize_checks_def contract_refusal_def rbind_Inl_iff map_err_Inl_iff)
    qed
    with True e show ?thesis
      by auto
  next
    case False
    with checks inv have "if \<not> source_ok oalloc self src then e = RbSourceMismatch
     else if iv_nonce i \<noteq> ba_nonce self then e = RbNonceMismatch
     else if requests_contain (ba_accepted_requests self) (iv_request_id i)
     then e = RbRequestReplay (iv_request_id i)
     else length (ba_accepted_requests self) = unat (max_pending_requests ?l) \<and>
       e = RbRequestBudgetExceeded (max_pending_requests ?l)"
      by (cases "origin_request_path oalloc (ba_origin self) src origin_limits_g1_fixture")
        (auto simp: authorize_checks_def source_ok_def bridge_inv_def)
    with e show ?thesis
      by (auto split: if_splits)
  qed
qed

lemma bridge_new_inv:
  "bridge_authority_new app renderer origin gen nonce service l = Inr self \<Longrightarrow>
     bridge_inv self \<and> ba_accepted_requests self = [] \<and> ba_nonce self = nonce \<and> ba_limits self = l \<and>
     ba_origin self = origin \<and> ba_app self = app \<and> ba_renderer self = renderer \<and> ba_service self = service"
  by (auto simp: bridge_authority_new_def bridge_inv_def rbind_Inr_iff call_target_service_Inr bt.wf_empty
      split: if_splits)

text \<open>
  C17: as long as the graph validator's reservations succeed, one message is authorized exactly when
  it comes from inside the bound origin, carries this navigation's nonce, reuses no accepted request
  number, fits the request budget and has a valid method and argument graph. The call it yields is
  the one the host derives: target, application, renderer, frame, world, deadline and authority come
  from the backend alone. A refused message changes nothing, and the refusal is that of the first
  check it fails, in this order; for the contract it is the envelope's error when the derived
  envelope breaks its contract, and else the runtime call's.
\<close>

theorem bridge_authorize_exact:
  assumes "bridge_authority_new app renderer origin gen nonce service l = Inr s0"
    and "self = s0\<lparr>ba_accepted_requests := reqs\<rparr>" and "bt_wf reqs"
    and "length reqs \<le> unat (max_pending_requests l)" and "\<And>a n. alloc a n"
  shows "(admissible oalloc self src i \<longrightarrow> bridge_authorize oalloc alloc self src i =
       (Inr (derived_call self i), self\<lparr>ba_accepted_requests := bt_insert (iv_request_id i) () reqs\<rparr>)) \<and>
    (\<not> admissible oalloc self src i \<longrightarrow> (\<exists>e. bridge_authorize oalloc alloc self src i = (Inl e, self) \<and>
       (if \<not> source_ok oalloc self src then e = RbSourceMismatch
        else if iv_nonce i \<noteq> nonce then e = RbNonceMismatch
        else if requests_contain reqs (iv_request_id i) then e = RbRequestReplay (iv_request_id i)
        else if length reqs = unat (max_pending_requests l) then e = RbRequestBudgetExceeded (max_pending_requests l)
        else contract_refusal alloc self i e)))"
proof -
  have inv: "bridge_inv self" and l: "ba_limits self = l" and nonce: "ba_nonce self = nonce"
    and reqs: "ba_accepted_requests self = reqs"
    using bridge_new_inv [OF assms(1)] assms(2-4) by (auto simp: bridge_inv_def)
  show ?thesis
    using authorize_complete [of self alloc oalloc src i, OF inv assms(5)]
      authorize_reason [of self alloc oalloc src i, OF inv assms(5)]
    unfolding l nonce reqs remember_def by blast
qed

text \<open>The witnesses' page: one application, its origin, and a first request.\<close>

definition example_nonce :: bytes where "example_nonce = replicate 15 0 @ [9]"

definition example_authority :: RendererBridgeAuthority where
  "example_authority = \<lparr>ba_app = 1, ba_renderer = 2, ba_origin = private_origin_for_app (\<lambda>_. ''7f'') 1,
     ba_navigation_generation = 1, ba_nonce = example_nonce, ba_service = ''host'',
     ba_limits = secure_default, ba_accepted_requests = []\<rparr>"

definition example_invocation :: RendererBridgeInvocation where
  "example_invocation = \<lparr>iv_nonce = example_nonce, iv_request_id = 1, iv_method = ''ping'', iv_args = []\<rparr>"

definition example_source :: string where
  "example_source = ''https://app-7f.weregopher.invalid/a.txt''"

lemma example_new:
  "bridge_authority_new 1 2 (private_origin_for_app (\<lambda>_. ''7f'') 1) 1 example_nonce ''host'' secure_default =
     Inr example_authority"
proof -
  have "limits_validate secure_default = Inr ()"
    by simp
  then show ?thesis
    unfolding bridge_authority_new_def
    by (simp add: call_target_service_def MAX_PROTOCOL_SERVICE_NAME_BYTES_def validate_text_def
        validate_bounded_text_def example_authority_def del: limits_validate_iff)
qed

lemma example_admissible: "admissible (\<lambda>_. True) example_authority example_source example_invocation"
proof -
  have "canonical_path 1024 ''a.txt''"
    unfolding validate_asset_path_iff [symmetric, where u = "()"]
    by (simp add: validate_asset_path_def segment_invalid_def char_byte_def)
  moreover have "utf8_valid (map char_byte ''a.txt'')"
    by (rule utf8_valid_ascii) (simp add: char_byte_def)
  ultimately have "source_ok (\<lambda>_. True) example_authority example_source"
    using origin_request_complete [of origin_limits_g1_fixture "''a.txt''" "\<lambda>_. True"
        "private_origin_for_app (\<lambda>_. ''7f'') 1"]
    by (simp add: source_ok_def example_authority_def example_source_def origin_limits_g1_fixture_def
        private_origin_for_app_def)
  then show ?thesis
    by (simp add: admissible_def message_ok_def example_authority_def example_invocation_def Let_def
        requests_contain_def bt.get_empty text_ok_def graph_ok_def wv_node_ok_def secure_default_def
        limits_positive_def origin_identity_def private_origin_for_app_def)
qed

theorem bridge_authorize_exact_witness:
  "bridge_authorize (\<lambda>_. True) (\<lambda>_ _. True) example_authority example_source example_invocation =
     (Inr (derived_call example_authority example_invocation),
      example_authority\<lparr>ba_accepted_requests := [(1, ())]\<rparr>)"
proof -
  have "example_authority = example_authority\<lparr>ba_accepted_requests := []\<rparr>"
    by (simp add: example_authority_def)
  from bridge_authorize_exact [OF example_new this bt.wf_empty, of "\<lambda>_ _. True"] example_admissible
  show ?thesis
    by (simp add: example_invocation_def)
qed

subsection \<open>Sequences of messages\<close>

type_synonym bridge_message = "string \<times> RendererBridgeInvocation"

fun bridge_step ::
    "(usize \<Rightarrow> bool) \<Rightarrow> allocator \<Rightarrow> RendererBridgeAuthority \<Rightarrow> bridge_message \<Rightarrow>
     (RendererBridgeError + AuthorizedRendererCall) \<times> RendererBridgeAuthority" where
  "bridge_step oalloc alloc self (src, i) = bridge_authorize oalloc alloc self src i"

lemma remember_inv: "admissible oalloc self src i \<Longrightarrow> bridge_inv self \<Longrightarrow> bridge_inv (remember (iv_request_id i) self)"
  by (auto simp: bridge_inv_def remember_def admissible_def bt_laws bt_sizes dest!: not_contained)

interpretation bridge: transactional_machine "bridge_step oalloc alloc" bridge_inv for oalloc alloc
proof unfold_locales
  fix s x
  assume inv: "bridge_inv s"
  obtain src i r s' where x: "x = (src, i)" and r: "bridge_authorize oalloc alloc s src i = (r, s')"
    by (cases x) fastforce
  show "bridge_inv (snd (bridge_step oalloc alloc s x))"
  proof (cases r)
    case (Inl e)
    with r x inv show ?thesis
      using authorize_err [of oalloc alloc s src i e] by simp
  next
    case (Inr c)
    with authorize_sound [OF inv, of oalloc alloc src i c s'] r x show ?thesis
      using remember_inv [OF _ inv] by simp blast
  qed
next
  fix s x e
  show "fst (bridge_step oalloc alloc s x) = Inl e \<Longrightarrow> snd (bridge_step oalloc alloc s x) = s"
    by (cases x) (simp add: authorize_err)
qed

abbreviation accepted_messages ::
    "(usize \<Rightarrow> bool) \<Rightarrow> allocator \<Rightarrow> RendererBridgeAuthority \<Rightarrow> bridge_message list \<Rightarrow> bridge_message list" where
  "accepted_messages oalloc alloc \<equiv> accepted_ops (bridge_step oalloc alloc)"

definition request_ids :: "bridge_message list \<Rightarrow> u64 list" where
  "request_ids ms = map (\<lambda>m. iv_request_id (snd m)) ms"

lemma step_accepted:
  assumes "bridge_inv self" and "is_ok (fst (bridge_step oalloc alloc self (src, i)))"
  shows "admissible oalloc self src i" "snd (bridge_step oalloc alloc self (src, i)) = remember (iv_request_id i) self"
proof -
  obtain c where "bridge_authorize oalloc alloc self src i = (Inr c, snd (bridge_step oalloc alloc self (src, i)))"
    using assms(2) by (cases "bridge_authorize oalloc alloc self src i") (auto simp: is_ok_iff)
  from authorize_sound [OF assms(1) this]
  show "admissible oalloc self src i" "snd (bridge_step oalloc alloc self (src, i)) = remember (iv_request_id i) self"
    by simp_all
qed

definition run_record ::
    "(usize \<Rightarrow> bool) \<Rightarrow> RendererBridgeAuthority \<Rightarrow> bridge_message list \<Rightarrow> bool" where
  "run_record oalloc self ms \<longleftrightarrow> distinct (request_ids ms) \<and>
     (\<forall>q \<in> set (request_ids ms). \<not> requests_contain (ba_accepted_requests self) q) \<and>
     length (ba_accepted_requests self) + length ms \<le> unat (max_pending_requests (ba_limits self)) \<and>
     (\<forall>(src, i) \<in> set ms. iv_nonce i = ba_nonce self \<and> source_ok oalloc self src \<and> message_ok self i)"

lemma run_record_remember:
  assumes "bridge_inv self" and "admissible oalloc self src i"
    and "run_record oalloc (remember (iv_request_id i) self) ms"
  shows "run_record oalloc self ((src, i) # ms)"
proof -
  have wf: "bt_wf (ba_accepted_requests self)" and fresh: "bt_get (ba_accepted_requests self) (iv_request_id i) = None"
    using assms(1,2) by (simp_all add: bridge_inv_def admissible_def not_contained)
  then have "length (ba_accepted_requests (remember (iv_request_id i) self)) =
      Suc (length (ba_accepted_requests self))"
    by (simp add: remember_def bt_sizes)
  moreover have "requests_contain (ba_accepted_requests (remember (iv_request_id i) self)) q \<longleftrightarrow>
      q = iv_request_id i \<or> requests_contain (ba_accepted_requests self) q" for q
    using wf by (simp add: remember_def requests_contain_def bt_laws)
  moreover have "source_ok oalloc (remember q self) = source_ok oalloc self"
    "message_ok (remember q self) = message_ok self" "ba_nonce (remember q self) = ba_nonce self"
    "ba_limits (remember q self) = ba_limits self" for q
    by (simp_all add: fun_eq_iff source_ok_def message_ok_def remember_def)
  ultimately show ?thesis
    using assms(2,3) unfolding run_record_def admissible_def request_ids_def by auto
qed

lemma accepted_record:
  "bridge_inv self \<Longrightarrow> run_record oalloc self (accepted_messages oalloc alloc self ms)"
proof (induction ms arbitrary: self)
  case Nil
  then show ?case by (simp add: run_record_def request_ids_def bridge_inv_def)
next
  case (Cons m ms)
  obtain src i where m: "m = (src, i)" by (cases m)
  let ?next = "snd (bridge_step oalloc alloc self (src, i))"
  have IH: "run_record oalloc ?next (accepted_messages oalloc alloc ?next ms)"
    using Cons.IH bridge.step_inv [OF Cons.prems] by blast
  show ?case
  proof (cases "is_ok (fst (bridge_step oalloc alloc self (src, i)))")
    case True
    note acc = step_accepted [OF Cons.prems True]
    have "run_record oalloc self ((src, i) # accepted_messages oalloc alloc ?next ms)"
      by (rule run_record_remember [OF Cons.prems acc(1)]) (use IH acc(2) in simp)
    with True m show ?thesis by simp
  next
    case False
    then obtain e where "fst (bridge_step oalloc alloc self (src, i)) = Inl e"
      by (cases "fst (bridge_step oalloc alloc self (src, i))") auto
    from bridge.step_err [OF this] IH False m show ?thesis by simp
  qed
qed

text \<open>
  C27: over any sequence of messages a navigation receives, however they interleave with
  refused ones, no request number is accepted twice, at most the negotiated number of
  requests is accepted, and every accepted message carried the navigation's nonce, came from
  below the application's own origin and passed the message contract. The refused messages
  leave no trace: running the accepted ones alone reaches the same state.
\<close>

theorem bridge_run_guarantee:
  assumes "bridge_authority_new app renderer origin gen nonce service l = Inr self"
  shows "distinct (request_ids (accepted_messages oalloc alloc self ms)) \<and>
    length (accepted_messages oalloc alloc self ms) \<le> unat (max_pending_requests l) \<and>
    (\<forall>(src, i) \<in> set (accepted_messages oalloc alloc self ms).
       iv_nonce i = nonce \<and> (\<exists>rest. src = or_base_url origin @ rest) \<and> message_ok self i) \<and>
    run_ops (bridge_step oalloc alloc) self (accepted_messages oalloc alloc self ms) =
      run_ops (bridge_step oalloc alloc) self ms"
proof -
  note new = bridge_new_inv [OF assms]
  have src: "\<exists>rest. src = or_base_url origin @ rest" if "source_ok oalloc self src" for src
    using that new origin_request_sound by (auto simp: source_ok_def is_ok_iff)
  have "run_record oalloc self (accepted_messages oalloc alloc self ms)"
    using new accepted_record by blast
  then show ?thesis
    using src new bridge.run_accepted [of oalloc alloc self ms] unfolding run_record_def by fastforce
qed

theorem bridge_run_guarantee_witness:
  "accepted_messages (\<lambda>_. True) (\<lambda>_ _. True) example_authority
     [(example_source, example_invocation), (example_source, example_invocation)] =
     [(example_source, example_invocation)]"
proof -
  let ?m = "(example_source, example_invocation)"
  let ?step = "bridge_step (\<lambda>_. True) (\<lambda>_ _. True)"
  have inv: "bridge_inv example_authority"
    using bridge_new_inv [OF example_new] by blast
  have "is_ok (fst (?step example_authority ?m))"
    using authorize_complete [OF inv, of "\<lambda>_ _. True", OF _ example_admissible] by simp
  moreover have "distinct (request_ids (accepted_messages (\<lambda>_. True) (\<lambda>_ _. True) example_authority [?m, ?m]))"
    using bridge_run_guarantee [OF example_new, of "\<lambda>_. True" "\<lambda>_ _. True" "[?m, ?m]"] by blast
  ultimately show ?thesis
    by (simp add: request_ids_def split: if_splits)
qed

end
