(* ===== verification/Asar.thy ===== *)
theory Asar
  imports Protocol_Frame Text_Paths "HOL-Library.Product_Lexorder"
begin

section \<open>ASAR archives\<close>

text \<open>
  \<open>weregopher-asar/src/lib.rs\<close>: reading and deterministic rewriting of Electron archives.
  An archive is a pickle header (four little-endian words), a JSON directory tree, padding
  and a body that holds the packed files. Parameters: \<open>from_slice\<close> and \<open>to_vec\<close> are
  \<open>serde_json\<close>'s decoder and encoder for the derived shapes, \<open>custom\<close> its report of a
  visitor's refusal inside an untagged enum, and \<open>hex_digest\<close> the hexadecimal SHA-256. \<open>BTreeMap\<close>s are the
  prelude's sorted association lists; a \<open>BTreeSet\<close> has unit values.
\<close>

subsection \<open>Limits, errors and shapes\<close>

definition ASAR_MAGIC :: u32 where "ASAR_MAGIC = 4"
definition INTEGRITY_BLOCK_SIZE :: usize where "INTEGRITY_BLOCK_SIZE = 4 * 1024 * 1024"

record AsarLimits =
  max_archive_bytes :: usize
  max_header_bytes :: usize
  max_entries :: usize
  max_file_bytes :: usize
  max_total_file_bytes :: usize
  max_path_bytes :: usize
  max_depth :: usize

definition asar_limits_initial :: AsarLimits where
  "asar_limits_initial = \<lparr>max_archive_bytes = 1024 * 1024 * 1024, max_header_bytes = 16 * 1024 * 1024,
     max_entries = 100000, max_file_bytes = 512 * 1024 * 1024, max_total_file_bytes = 1024 * 1024 * 1024,
     max_path_bytes = 4096, max_depth = 128\<rparr>"

datatype 'je AsarError =
    ArchiveTooLarge
  | HeaderTooLarge
  | InvalidHeader
  | InvalidHeaderJson 'je
  | InvalidMemberName
  | TooManyEntries
  | TooDeep
  | PathBudgetExceeded
  | UnsupportedEntry
  | InvalidLayout
  | FileTooLarge
  | AggregateTooLarge
  | IntegrityMismatch
  | MemberNotFound
  | SerializeHeader 'je

record InputIntegrity =
  ii_algorithm :: string
  ii_hash :: string
  ii_block_size :: usize
  ii_blocks :: "string list"

record InputFile =
  if_size :: u64
  if_offset :: "string option"
  if_executable :: bool
  if_unpacked :: bool
  if_integrity :: "InputIntegrity option"

datatype InputEntry =
    InDirectory "(string \<times> InputEntry) list"
  | InFile InputFile
  | InLink string

record OutputFile =
  of_size :: u64
  of_offset :: string
  of_executable :: bool
  of_integrity :: InputIntegrity

datatype OutputEntry =
    OutDirectory "(string \<times> OutputEntry) list"
  | OutFile OutputFile

record PackedFile =
  pk_bytes :: bytes
  pk_executable :: bool

record IndexedFile =
  ix_offset :: usize
  ix_size :: usize

record PendingFile =
  pf_offset :: usize
  pf_size :: usize
  pf_executable :: bool
  pf_integrity :: InputIntegrity

record AsarArchive =
  ar_files :: "(string \<times> PackedFile) list"
  ar_limits :: AsarLimits

record AsarReadOnlyIndex =
  ri_archive :: bytes
  ri_data_start :: usize
  ri_packed_files :: "(string \<times> IndexedFile) list"
  ri_unpacked_file_count :: usize
  ri_limits :: AsarLimits

subsection \<open>Member names and paths\<close>

definition ascii_lower :: "char \<Rightarrow> char" where
  "ascii_lower c = (if CHR ''A'' \<le> c \<and> c \<le> CHR ''Z'' then char_of (of_char c + 32 :: nat) else c)"

definition to_ascii_lowercase :: "string \<Rightarrow> string" where
  "to_ascii_lowercase s = map ascii_lower s"

definition reserved_stems :: "string list" where
  "reserved_stems = [''con'', ''prn'', ''aux'', ''nul'',
     ''com1'', ''com2'', ''com3'', ''com4'', ''com5'', ''com6'', ''com7'', ''com8'', ''com9'',
     ''lpt1'', ''lpt2'', ''lpt3'', ''lpt4'', ''lpt5'', ''lpt6'', ''lpt7'', ''lpt8'', ''lpt9'']"

definition member_char_forbidden :: "char \<Rightarrow> bool" where
  "member_char_forbidden c \<longleftrightarrow> of_char c \<le> (0x1f :: nat) \<or>
     c \<in> {CHR ''/'', CHR 0x5C, CHR '':'', CHR ''<'', CHR ''>'', CHR 0x22, CHR ''|'', CHR ''?'', CHR ''*''}"

definition validate_member_name :: "string \<Rightarrow> 'je AsarError + unit" where
  "validate_member_name name =
     (if name = [] \<or> name = ''.'' \<or> name = ''..'' \<or> last name \<in> {CHR ''.'', CHR '' ''} \<or>
         list_ex member_char_forbidden name
      then Inl InvalidMemberName
      else if to_ascii_lowercase (hd (split_on (CHR ''.'') name)) \<in> set reserved_stems
      then Inl InvalidMemberName
      else Inr ())"

fun canonical_components :: "AsarLimits \<Rightarrow> string list \<Rightarrow> usize \<Rightarrow> 'je AsarError + unit" where
  "canonical_components limits [] count = Inr ()"
| "canonical_components limits (component # components) count =
     rbind (validate_member_name component) (\<lambda>_.
     rbind (ok_or TooDeep (checked_add_usize count 1)) (\<lambda>count'.
     if count' > max_depth limits then Inl TooDeep
     else canonical_components limits components count'))"

definition canonical_archive_path :: "string \<Rightarrow> AsarLimits \<Rightarrow> 'je AsarError + string" where
  "canonical_archive_path path limits =
     (if path = [] \<or> length path > max_path_bytes limits \<or> hd path = CHR ''/'' then Inl InvalidMemberName
      else rbind (canonical_components limits (split_on (CHR ''/'') path) 0) (\<lambda>_. Inr path))"

subsection \<open>Numbers as text\<close>

text \<open>\<open>str::parse::<usize>\<close> and \<open>usize::to_string\<close>: decimal, an optional leading plus, 64 bits.\<close>

definition is_digit :: "char \<Rightarrow> bool" where
  "is_digit c \<longleftrightarrow> CHR ''0'' \<le> c \<and> c \<le> CHR ''9''"

fun parse_digits :: "nat \<Rightarrow> string \<Rightarrow> usize option" where
  "parse_digits n [] = Some n"
| "parse_digits n (c # s) =
     (if is_digit c \<and> 10 * n + (of_char c - 48) < 2 ^ 64
      then parse_digits (10 * n + (of_char c - 48)) s else None)"

definition parse_usize :: "string \<Rightarrow> usize option" where
  "parse_usize s =
     (let digits = (case s of c # s' \<Rightarrow> if c = CHR ''+'' then s' else s | [] \<Rightarrow> []) in
      if digits = [] then None else parse_digits 0 digits)"

fun nat_to_string :: "nat \<Rightarrow> string" where
  "nat_to_string n = (if n < 10 then [] else nat_to_string (n div 10)) @ [char_of (48 + n mod 10)]"

declare nat_to_string.simps [simp del]

subsection \<open>Header\<close>

definition get_range :: "nat \<Rightarrow> nat \<Rightarrow> 'a list \<Rightarrow> 'a list option" where
  "get_range i j xs = (if i \<le> j \<and> j \<le> length xs then Some (slice i j xs) else None)"

definition read_u32 :: "bytes \<Rightarrow> usize \<Rightarrow> 'je AsarError + u32" where
  "read_u32 bs off =
     rbind (ok_or InvalidHeader (checked_add_usize off 4)) (\<lambda>e.
     rbind (ok_or InvalidHeader (get_range off e bs)) (\<lambda>raw. Inr (of_nat (le_nat raw))))"

definition saturating_add :: "'a::len word \<Rightarrow> 'a word \<Rightarrow> 'a word" where
  "saturating_add a b = (case checked_add a b of Some c \<Rightarrow> c | None \<Rightarrow> - 1)"

text \<open>
  The \<open>files\<close> visitor: entries are inserted in document order, a repeated name is refused.
  \<open>resolve_entry\<close> applies it at every directory of the decoded document.
\<close>

fun unique_files ::
    "(string \<Rightarrow> 'je) \<Rightarrow> (string \<times> InputEntry) list \<Rightarrow> (string \<times> InputEntry) list \<Rightarrow>
     'je + (string \<times> InputEntry) list" where
  "unique_files custom files [] = Inr files"
| "unique_files custom files ((name, entry) # es) =
     (if bt_get files name \<noteq> None then Inl (custom ''duplicate ASAR member name'')
      else unique_files custom (bt_insert name entry files) es)"

fun resolve_entry :: "(string \<Rightarrow> 'je) \<Rightarrow> InputEntry \<Rightarrow> 'je + InputEntry"
  and resolve_entries :: "(string \<Rightarrow> 'je) \<Rightarrow> (string \<times> InputEntry) list \<Rightarrow> 'je + (string \<times> InputEntry) list" where
  "resolve_entry custom (InDirectory es) =
     rbind (resolve_entries custom es) (\<lambda>es'. rbind (unique_files custom [] es') (\<lambda>files. Inr (InDirectory files)))"
| "resolve_entry custom (InFile f) = Inr (InFile f)"
| "resolve_entry custom (InLink l) = Inr (InLink l)"
| "resolve_entries custom [] = Inr []"
| "resolve_entries custom ((name, e) # es) =
     rbind (resolve_entry custom e) (\<lambda>e'. rbind (resolve_entries custom es) (\<lambda>es'. Inr ((name, e') # es')))"

record ParsedHeader =
  ph_root :: "(string \<times> InputEntry) list"
  ph_data_start :: usize

definition decode_root ::
    "(bytes \<Rightarrow> 'je + InputEntry) \<Rightarrow> (string \<Rightarrow> 'je) \<Rightarrow> bytes \<Rightarrow> 'je AsarError + (string \<times> InputEntry) list" where
  "decode_root from_slice custom json =
     rbind (map_err InvalidHeaderJson (rbind (from_slice json) (resolve_entry custom))) (\<lambda>root_entry.
     case root_entry of InDirectory root \<Rightarrow> Inr root | _ \<Rightarrow> Inl InvalidHeader)"

definition parse_header ::
    "(bytes \<Rightarrow> 'je + InputEntry) \<Rightarrow> (string \<Rightarrow> 'je) \<Rightarrow> bytes \<Rightarrow> AsarLimits \<Rightarrow> 'je AsarError + ParsedHeader" where
  "parse_header from_slice custom bs limits =
     (if length bs < 16 then Inl InvalidHeader
      else rbind (read_u32 bs 0) (\<lambda>magic.
      rbind (read_u32 bs 4) (\<lambda>outer_size.
      rbind (read_u32 bs 8) (\<lambda>inner_size.
      rbind (read_u32 bs 12) (\<lambda>json_size.
      if magic \<noteq> ASAR_MAGIC \<or> outer_size \<noteq> saturating_add inner_size 4 then Inl InvalidHeader
      else rbind (ok_or InvalidHeader (checked_sub inner_size 4)) (\<lambda>padded_size.
      if padded_size mod 4 \<noteq> 0 \<or> json_size > padded_size then Inl InvalidHeader
      else rbind (ok_or InvalidHeader (checked_add_usize 16 (unat padded_size))) (\<lambda>data_start.
      if data_start > length bs \<or> data_start > max_header_bytes limits then Inl HeaderTooLarge
      else rbind (ok_or InvalidHeader (checked_add_usize 16 (unat json_size))) (\<lambda>json_end.
      rbind (ok_or InvalidHeader (get_range 16 json_end bs)) (\<lambda>json.
      rbind (ok_or InvalidHeader (get_range json_end data_start bs)) (\<lambda>padding.
      if list_ex (\<lambda>b. b \<noteq> 0) padding then Inl InvalidHeader
      else rbind (decode_root from_slice custom json) (\<lambda>root.
      Inr \<lparr>ph_root = root, ph_data_start = data_start\<rparr>)))))))))))"

subsection \<open>Collecting the tree\<close>

text \<open>
  The two collection states have the same fields but for the unpacked counter, so the
  read-only one extends the other and the shared methods are polymorphic in the extension.
\<close>

record CollectionState =
  cs_files :: "(string \<times> PendingFile) list"
  cs_case_keys :: "(string \<times> unit) list"
  cs_entries :: usize
  cs_path_bytes :: usize
  cs_total_file_bytes :: usize

record ReadOnlyCollectionState = CollectionState +
  cs_unpacked_file_count :: usize

definition collection_new :: CollectionState where
  "collection_new = \<lparr>cs_files = [], cs_case_keys = [], cs_entries = 0, cs_path_bytes = 0,
     cs_total_file_bytes = 0\<rparr>"

definition ro_collection_new :: ReadOnlyCollectionState where
  "ro_collection_new = \<lparr>cs_files = [], cs_case_keys = [], cs_entries = 0, cs_path_bytes = 0,
     cs_total_file_bytes = 0, cs_unpacked_file_count = 0\<rparr>"

definition register_entry ::
    "AsarLimits \<Rightarrow> string \<Rightarrow> 'x CollectionState_scheme \<Rightarrow> 'je AsarError + 'x CollectionState_scheme" where
  "register_entry limits path st =
     rbind (ok_or TooManyEntries (checked_add_usize (cs_entries st) 1)) (\<lambda>entries.
     if entries > max_entries limits then Inl TooManyEntries
     else rbind (ok_or PathBudgetExceeded (checked_add_usize (cs_path_bytes st) (length path))) (\<lambda>path_bytes.
     rbind (ok_or PathBudgetExceeded (checked_mul_usize (max_entries limits) (max_path_bytes limits)))
       (\<lambda>aggregate_path_limit.
     if path_bytes > aggregate_path_limit then Inl PathBudgetExceeded
     else if bs_contains (cs_case_keys st) (to_ascii_lowercase path) then Inl InvalidMemberName
     else Inr (st\<lparr>cs_entries := entries, cs_path_bytes := path_bytes,
       cs_case_keys := bt_insert (to_ascii_lowercase path) () (cs_case_keys st)\<rparr>))))"

definition ro_register_entry ::
    "AsarLimits \<Rightarrow> string \<Rightarrow> ReadOnlyCollectionState \<Rightarrow> 'je AsarError + ReadOnlyCollectionState" where
  "ro_register_entry = register_entry"

text \<open>\<open>usize::try_from(u64)\<close> cannot fail on the 64-bit target.\<close>

definition register_file_size ::
    "AsarLimits \<Rightarrow> u64 \<Rightarrow> 'x CollectionState_scheme \<Rightarrow> 'je AsarError + usize \<times> 'x CollectionState_scheme" where
  "register_file_size limits sz st =
     (let size = unat sz in
      if size > max_file_bytes limits then Inl FileTooLarge
      else rbind (ok_or AggregateTooLarge (checked_add_usize (cs_total_file_bytes st) size)) (\<lambda>total_bytes.
      if total_bytes > max_total_file_bytes limits then Inl AggregateTooLarge
      else Inr (size, st\<lparr>cs_total_file_bytes := total_bytes\<rparr>)))"

definition child_path :: "string \<Rightarrow> string \<Rightarrow> string" where
  "child_path parent name = (if parent = [] then name else parent @ CHR ''/'' # name)"

definition parse_offset :: "InputFile \<Rightarrow> 'je AsarError + usize" where
  "parse_offset file =
     rbind (ok_or InvalidLayout (if_offset file)) (\<lambda>text. ok_or InvalidLayout (parse_usize text))"

definition collect_file ::
    "AsarLimits \<Rightarrow> string \<Rightarrow> InputFile \<Rightarrow> CollectionState \<Rightarrow> 'je AsarError + CollectionState" where
  "collect_file limits path file st =
     (if if_unpacked file then Inl UnsupportedEntry
      else rbind (parse_offset file) (\<lambda>off.
      rbind (register_file_size limits (if_size file) st) (\<lambda>(size, st').
      rbind (ok_or IntegrityMismatch (if_integrity file)) (\<lambda>integrity.
      Inr (st'\<lparr>cs_files := bt_insert path \<lparr>pf_offset = off, pf_size = size,
        pf_executable = if_executable file, pf_integrity = integrity\<rparr> (cs_files st')\<rparr>)))))"

definition ro_collect_file ::
    "AsarLimits \<Rightarrow> string \<Rightarrow> InputFile \<Rightarrow> ReadOnlyCollectionState \<Rightarrow> 'je AsarError + ReadOnlyCollectionState" where
  "ro_collect_file limits path file st =
     rbind (register_file_size limits (if_size file) st) (\<lambda>(size, st').
     if if_unpacked file then
       (if if_offset file \<noteq> None then Inl InvalidLayout
        else rbind (ok_or TooManyEntries (checked_add_usize (cs_unpacked_file_count st') 1)) (\<lambda>n.
          Inr (st'\<lparr>cs_unpacked_file_count := n\<rparr>)))
     else rbind (parse_offset file) (\<lambda>off.
       rbind (ok_or IntegrityMismatch (if_integrity file)) (\<lambda>integrity.
       Inr (st'\<lparr>cs_files := bt_insert path \<lparr>pf_offset = off, pf_size = size,
         pf_executable = if_executable file, pf_integrity = integrity\<rparr> (cs_files st')\<rparr>))))"

text \<open>The checks on entering a directory, then the loop over its entries.\<close>

definition enter_directory :: "AsarLimits \<Rightarrow> usize \<Rightarrow> (string \<times> InputEntry) list \<Rightarrow> 'je AsarError + unit" where
  "enter_directory limits depth files =
     (if depth > max_depth limits then Inl TooDeep
      else if depth > 0 \<and> files = [] then Inl UnsupportedEntry else Inr ())"

definition collect_path :: "AsarLimits \<Rightarrow> string \<Rightarrow> string \<Rightarrow> 'je AsarError + string" where
  "collect_path limits parent name =
     rbind (validate_member_name name) (\<lambda>_.
     if length (child_path parent name) > max_path_bytes limits then Inl InvalidMemberName
     else Inr (child_path parent name))"

fun collect_list ::
    "AsarLimits \<Rightarrow> string \<Rightarrow> usize \<Rightarrow> (string \<times> InputEntry) list \<Rightarrow> CollectionState \<Rightarrow>
     'je AsarError + CollectionState" where
  "collect_list limits parent depth [] st = Inr st"
| "collect_list limits parent depth ((name, InDirectory child) # es) st =
     rbind (collect_path limits parent name) (\<lambda>path.
     rbind (register_entry limits path st) (\<lambda>st1.
     rbind (enter_directory limits (depth + 1) child) (\<lambda>_.
     rbind (collect_list limits path (depth + 1) child st1) (\<lambda>st2.
     collect_list limits parent depth es st2))))"
| "collect_list limits parent depth ((name, InFile file) # es) st =
     rbind (collect_path limits parent name) (\<lambda>path.
     rbind (register_entry limits path st) (\<lambda>st1.
     rbind (collect_file limits path file st1) (\<lambda>st2.
     collect_list limits parent depth es st2)))"
| "collect_list limits parent depth ((name, InLink link) # es) st =
     rbind (collect_path limits parent name) (\<lambda>path.
     rbind (register_entry limits path st) (\<lambda>st1.
     if link = [] then Inl InvalidMemberName else Inl UnsupportedEntry))"

definition collect_entries ::
    "AsarLimits \<Rightarrow> (string \<times> InputEntry) list \<Rightarrow> string \<Rightarrow> usize \<Rightarrow> CollectionState \<Rightarrow>
     'je AsarError + CollectionState" where
  "collect_entries limits files parent depth st =
     rbind (enter_directory limits depth files) (\<lambda>_. collect_list limits parent depth files st)"

fun collect_ro_list ::
    "AsarLimits \<Rightarrow> string \<Rightarrow> usize \<Rightarrow> (string \<times> InputEntry) list \<Rightarrow> ReadOnlyCollectionState \<Rightarrow>
     'je AsarError + ReadOnlyCollectionState" where
  "collect_ro_list limits parent depth [] st = Inr st"
| "collect_ro_list limits parent depth ((name, InDirectory child) # es) st =
     rbind (collect_path limits parent name) (\<lambda>path.
     rbind (ro_register_entry limits path st) (\<lambda>st1.
     if depth + 1 > max_depth limits then Inl TooDeep
     else rbind (collect_ro_list limits path (depth + 1) child st1) (\<lambda>st2.
     collect_ro_list limits parent depth es st2)))"
| "collect_ro_list limits parent depth ((name, InFile file) # es) st =
     rbind (collect_path limits parent name) (\<lambda>path.
     rbind (ro_register_entry limits path st) (\<lambda>st1.
     rbind (ro_collect_file limits path file st1) (\<lambda>st2.
     collect_ro_list limits parent depth es st2)))"
| "collect_ro_list limits parent depth ((name, InLink link) # es) st =
     rbind (collect_path limits parent name) (\<lambda>path.
     rbind (ro_register_entry limits path st) (\<lambda>st1.
     rbind (canonical_archive_path link limits) (\<lambda>_.
     collect_ro_list limits parent depth es st1)))"

definition collect_read_only_entries ::
    "AsarLimits \<Rightarrow> (string \<times> InputEntry) list \<Rightarrow> string \<Rightarrow> usize \<Rightarrow> ReadOnlyCollectionState \<Rightarrow>
     'je AsarError + ReadOnlyCollectionState" where
  "collect_read_only_entries limits files parent depth st =
     (if depth > max_depth limits then Inl TooDeep else collect_ro_list limits parent depth files st)"

subsection \<open>Layout and integrity\<close>

fun chunks :: "nat \<Rightarrow> 'a list \<Rightarrow> 'a list list" where
  "chunks n xs = (if n = 0 \<or> xs = [] then [] else take n xs # chunks n (drop n xs))"

declare chunks.simps [simp del]

definition verify_integrity :: "(bytes \<Rightarrow> string) \<Rightarrow> bytes \<Rightarrow> InputIntegrity \<Rightarrow> 'je AsarError + unit" where
  "verify_integrity hex_digest bs integrity =
     (if ii_algorithm integrity \<noteq> ''SHA256'' \<or> ii_block_size integrity \<noteq> INTEGRITY_BLOCK_SIZE \<or>
         ii_hash integrity \<noteq> hex_digest bs
      then Inl IntegrityMismatch
      else if ii_blocks integrity \<noteq> map hex_digest (chunks INTEGRITY_BLOCK_SIZE bs) then Inl IntegrityMismatch
      else Inr ())"

fun layout_cursor :: "(string \<times> PendingFile) list \<Rightarrow> usize \<Rightarrow> 'je AsarError + usize" where
  "layout_cursor [] cursor = Inr cursor"
| "layout_cursor ((path, file) # fs) cursor =
     (if pf_offset file \<noteq> cursor then Inl InvalidLayout
      else rbind (ok_or InvalidLayout (checked_add_usize cursor (pf_size file))) (layout_cursor fs))"

definition by_offset :: "(string \<times> PendingFile) list \<Rightarrow> (string \<times> PendingFile) list" where
  "by_offset files = sort_key (\<lambda>(path, file). (pf_offset file, path)) files"

definition check_layout :: "(string \<times> PendingFile) list \<Rightarrow> bytes \<Rightarrow> 'je AsarError + unit" where
  "check_layout files body =
     rbind (layout_cursor (by_offset files) 0) (\<lambda>cursor.
     if cursor \<noteq> length body then Inl InvalidLayout else Inr ())"

definition pending_bytes :: "(bytes \<Rightarrow> string) \<Rightarrow> bytes \<Rightarrow> PendingFile \<Rightarrow> 'je AsarError + bytes" where
  "pending_bytes hex_digest body file =
     rbind (ok_or InvalidLayout (checked_add_usize (pf_offset file) (pf_size file))) (\<lambda>e.
     rbind (ok_or InvalidLayout (get_range (pf_offset file) e body)) (\<lambda>bs.
     rbind (verify_integrity hex_digest bs (pf_integrity file)) (\<lambda>_. Inr bs)))"

fun extract_files ::
    "(bytes \<Rightarrow> string) \<Rightarrow> bytes \<Rightarrow> (string \<times> PackedFile) list \<Rightarrow> (string \<times> PendingFile) list \<Rightarrow>
     'je AsarError + (string \<times> PackedFile) list" where
  "extract_files hex_digest body files [] = Inr files"
| "extract_files hex_digest body files ((path, file) # fs) =
     rbind (pending_bytes hex_digest body file) (\<lambda>bs.
     extract_files hex_digest body
       (bt_insert path \<lparr>pk_bytes = bs, pk_executable = pf_executable file\<rparr> files) fs)"

definition collection_finish ::
    "(bytes \<Rightarrow> string) \<Rightarrow> bytes \<Rightarrow> usize \<Rightarrow> AsarLimits \<Rightarrow> CollectionState \<Rightarrow> 'je AsarError + AsarArchive" where
  "collection_finish hex_digest archive data_start limits st =
     rbind (ok_or InvalidLayout (get_range data_start (length archive) archive)) (\<lambda>body.
     rbind (check_layout (cs_files st) body) (\<lambda>_.
     rbind (extract_files hex_digest body [] (cs_files st)) (\<lambda>files.
     Inr \<lparr>ar_files = files, ar_limits = limits\<rparr>)))"

fun index_files ::
    "(bytes \<Rightarrow> string) \<Rightarrow> bytes \<Rightarrow> (string \<times> IndexedFile) list \<Rightarrow> (string \<times> PendingFile) list \<Rightarrow>
     'je AsarError + (string \<times> IndexedFile) list" where
  "index_files hex_digest body files [] = Inr files"
| "index_files hex_digest body files ((path, file) # fs) =
     rbind (pending_bytes hex_digest body file) (\<lambda>_.
     index_files hex_digest body
       (bt_insert path \<lparr>ix_offset = pf_offset file, ix_size = pf_size file\<rparr> files) fs)"

definition ro_collection_finish ::
    "(bytes \<Rightarrow> string) \<Rightarrow> bytes \<Rightarrow> usize \<Rightarrow> AsarLimits \<Rightarrow> ReadOnlyCollectionState \<Rightarrow>
     'je AsarError + AsarReadOnlyIndex" where
  "ro_collection_finish hex_digest archive data_start limits st =
     rbind (ok_or InvalidLayout (get_range data_start (length archive) archive)) (\<lambda>body.
     rbind (check_layout (cs_files st) body) (\<lambda>_.
     rbind (index_files hex_digest body [] (cs_files st)) (\<lambda>files.
     Inr \<lparr>ri_archive = archive, ri_data_start = data_start, ri_packed_files = files,
       ri_unpacked_file_count = cs_unpacked_file_count st, ri_limits = limits\<rparr>)))"

subsection \<open>The archive\<close>

definition asar_parse ::
    "(bytes \<Rightarrow> 'je + InputEntry) \<Rightarrow> (string \<Rightarrow> 'je) \<Rightarrow> (bytes \<Rightarrow> string) \<Rightarrow> bytes \<Rightarrow> AsarLimits \<Rightarrow>
     'je AsarError + AsarArchive" where
  "asar_parse from_slice custom hex_digest bs limits =
     (if length bs > max_archive_bytes limits then Inl ArchiveTooLarge
      else rbind (parse_header from_slice custom bs limits) (\<lambda>header.
      rbind (collect_entries limits (ph_root header) [] 0 collection_new) (\<lambda>st.
      collection_finish hex_digest bs (ph_data_start header) limits st)))"

definition asar_index_parse ::
    "(bytes \<Rightarrow> 'je + InputEntry) \<Rightarrow> (string \<Rightarrow> 'je) \<Rightarrow> (bytes \<Rightarrow> string) \<Rightarrow> bytes \<Rightarrow> AsarLimits \<Rightarrow>
     'je AsarError + AsarReadOnlyIndex" where
  "asar_index_parse from_slice custom hex_digest bs limits =
     (if length bs > max_archive_bytes limits then Inl ArchiveTooLarge
      else rbind (parse_header from_slice custom bs limits) (\<lambda>header.
      rbind (collect_read_only_entries limits (ph_root header) [] 0 ro_collection_new) (\<lambda>st.
      ro_collection_finish hex_digest bs (ph_data_start header) limits st)))"

definition canonical_or_none :: "string \<Rightarrow> AsarLimits \<Rightarrow> string option" where
  "canonical_or_none path limits =
     (case canonical_archive_path path limits :: unit AsarError + string of Inl _ \<Rightarrow> None | Inr p \<Rightarrow> Some p)"

definition asar_file :: "AsarArchive \<Rightarrow> string \<Rightarrow> bytes option" where
  "asar_file ar path =
     (case canonical_or_none path (ar_limits ar) of None \<Rightarrow> None
      | Some canonical \<Rightarrow> map_option pk_bytes (bt_get (ar_files ar) canonical))"

definition asar_file_paths :: "AsarArchive \<Rightarrow> string list" where
  "asar_file_paths ar = bt_keys (ar_files ar)"

definition asar_packed_file :: "AsarReadOnlyIndex \<Rightarrow> string \<Rightarrow> bytes option" where
  "asar_packed_file ix path =
     (case canonical_or_none path (ri_limits ix) of None \<Rightarrow> None
      | Some canonical \<Rightarrow> (case bt_get (ri_packed_files ix) canonical of None \<Rightarrow> None
      | Some file \<Rightarrow> (case checked_add_usize (ri_data_start ix) (ix_offset file) of None \<Rightarrow> None
      | Some start \<Rightarrow> (case checked_add_usize start (ix_size file) of None \<Rightarrow> None
      | Some e \<Rightarrow> get_range start e (ri_archive ix)))))"

fun total_bytes :: "usize \<Rightarrow> (string \<times> PackedFile) list \<Rightarrow> usize option" where
  "total_bytes n [] = Some n"
| "total_bytes n ((path, file) # fs) =
     (case checked_add_usize n (length (pk_bytes file)) of None \<Rightarrow> None | Some n' \<Rightarrow> total_bytes n' fs)"

definition replace_checks :: "AsarArchive \<Rightarrow> string \<Rightarrow> bytes \<Rightarrow> 'je AsarError + string \<times> PackedFile" where
  "replace_checks ar path replacement =
     rbind (canonical_archive_path path (ar_limits ar)) (\<lambda>canonical.
     if length replacement > max_file_bytes (ar_limits ar) then Inl FileTooLarge
     else rbind (ok_or MemberNotFound (bt_get (ar_files ar) canonical)) (\<lambda>file.
     rbind (ok_or AggregateTooLarge (total_bytes 0 (ar_files ar))) (\<lambda>current_total.
     rbind (ok_or AggregateTooLarge
       (case checked_sub_usize current_total (length (pk_bytes file)) of None \<Rightarrow> None
        | Some n \<Rightarrow> checked_add_usize n (length replacement))) (\<lambda>replacement_total.
     if replacement_total > max_total_file_bytes (ar_limits ar) then Inl AggregateTooLarge
     else Inr (canonical, file)))))"

definition asar_replace_file :: "AsarArchive \<Rightarrow> string \<Rightarrow> bytes \<Rightarrow> ('je AsarError + unit) \<times> AsarArchive" where
  "asar_replace_file ar path replacement =
     (case replace_checks ar path replacement of
        Inl e \<Rightarrow> (Inl e, ar)
      | Inr (canonical, file) \<Rightarrow>
          (Inr (), ar\<lparr>ar_files := bt_insert canonical (file\<lparr>pk_bytes := replacement\<rparr>) (ar_files ar)\<rparr>))"

subsection \<open>Writing\<close>

fun insert_output_components ::
    "(string \<times> OutputEntry) list \<Rightarrow> string list \<Rightarrow> OutputEntry \<Rightarrow> 'je AsarError + (string \<times> OutputEntry) list" where
  "insert_output_components current [] entry = Inl InvalidMemberName"
| "insert_output_components current [component] entry =
     (if bt_get current component \<noteq> None then Inl InvalidLayout
      else Inr (bt_insert component entry current))"
| "insert_output_components current (component # remaining) entry =
     (case bt_get current component of
        None \<Rightarrow> rbind (insert_output_components [] remaining entry) (\<lambda>d.
          Inr (bt_insert component (OutDirectory d) current))
      | Some (OutDirectory d) \<Rightarrow> rbind (insert_output_components d remaining entry) (\<lambda>d'.
          Inr (bt_insert component (OutDirectory d') current))
      | Some (OutFile f) \<Rightarrow> Inl InvalidLayout)"

definition insert_output_entry ::
    "(string \<times> OutputEntry) list \<Rightarrow> string \<Rightarrow> OutputEntry \<Rightarrow> 'je AsarError + (string \<times> OutputEntry) list" where
  "insert_output_entry root path entry = insert_output_components root (split_on (CHR ''/'') path) entry"

definition integrity_for_bytes :: "(bytes \<Rightarrow> string) \<Rightarrow> bytes \<Rightarrow> InputIntegrity" where
  "integrity_for_bytes hex_digest bs = \<lparr>ii_algorithm = ''SHA256'', ii_hash = hex_digest bs,
     ii_block_size = INTEGRITY_BLOCK_SIZE, ii_blocks = map hex_digest (chunks INTEGRITY_BLOCK_SIZE bs)\<rparr>"

fun emit_files ::
    "(bytes \<Rightarrow> string) \<Rightarrow> (string \<times> PackedFile) list \<Rightarrow> (string \<times> OutputEntry) list \<Rightarrow> bytes \<Rightarrow>
     'je AsarError + (string \<times> OutputEntry) list \<times> bytes" where
  "emit_files hex_digest [] root body = Inr (root, body)"
| "emit_files hex_digest ((path, file) # fs) root body =
     rbind (ensure (length (pk_bytes file) < 2 ^ 64) FileTooLarge) (\<lambda>_.
     rbind (insert_output_entry root path (OutFile \<lparr>of_size = of_nat (length (pk_bytes file)),
       of_offset = nat_to_string (length body), of_executable = pk_executable file,
       of_integrity = integrity_for_bytes hex_digest (pk_bytes file)\<rparr>)) (\<lambda>root'.
     emit_files hex_digest fs root' (body @ pk_bytes file)))"

function pad4 :: "bytes \<Rightarrow> bytes" where
  "pad4 json = (if length json mod 4 \<noteq> 0 then pad4 (json @ [0]) else json)"
  by pat_completeness auto
termination
proof (relation "measure (\<lambda>json. (4 - length json mod 4) mod 4)")
  fix json :: bytes
  assume ne: "length json mod 4 \<noteq> 0"
  have "length json mod 4 < 4"
    by simp
  with ne consider "length json mod 4 = 1" | "length json mod 4 = 2" | "length json mod 4 = 3"
    by linarith
  then show "(json @ [0], json) \<in> measure (\<lambda>json. (4 - length json mod 4) mod 4)"
    by cases (simp_all add: mod_Suc)
qed simp

declare pad4.simps [simp del]

definition u32_try_from :: "usize \<Rightarrow> u32 option" where
  "u32_try_from n = (if n < 2 ^ 32 then Some (of_nat n) else None)"

definition asar_to_bytes ::
    "(OutputEntry \<Rightarrow> 'je + bytes) \<Rightarrow> (bytes \<Rightarrow> string) \<Rightarrow> AsarArchive \<Rightarrow> 'je AsarError + bytes" where
  "asar_to_bytes to_vec hex_digest ar =
     rbind (emit_files hex_digest (ar_files ar) [] []) (\<lambda>(root, body).
     if length body > max_total_file_bytes (ar_limits ar) then Inl AggregateTooLarge
     else rbind (map_err SerializeHeader (to_vec (OutDirectory root))) (\<lambda>json.
     if length json > max_header_bytes (ar_limits ar) then Inl HeaderTooLarge
     else rbind (ok_or HeaderTooLarge (u32_try_from (length json))) (\<lambda>json_size.
     let padded = pad4 json in
     rbind (ok_or HeaderTooLarge (u32_try_from (length padded))) (\<lambda>padded_size.
     rbind (ok_or HeaderTooLarge (checked_add padded_size 8)) (\<lambda>outer_size.
     rbind (ok_or HeaderTooLarge (checked_add padded_size 4)) (\<lambda>inner_size.
     rbind (ok_or ArchiveTooLarge (case checked_add_usize 16 (length padded) of None \<Rightarrow> None
         | Some n \<Rightarrow> checked_add_usize n (length body))) (\<lambda>output_size.
     if output_size > max_archive_bytes (ar_limits ar) then Inl ArchiveTooLarge
     else Inr (to_le 4 (unat ASAR_MAGIC) @ to_le 4 (unat outer_size) @ to_le 4 (unat inner_size) @
       to_le 4 (unat json_size) @ padded @ body))))))))"

end
