(* ===== verification/Asar_Tree.thy ===== *)
theory Asar_Tree
  imports Asar "HOL-Library.Sublist"
begin

section \<open>Archive trees\<close>

text \<open>
  The recursive collection of \<open>Asar\<close> is split here into a stateless condition on the tree
  (\<open>tree_ok\<close>) and a run over the flat list of the paths it visits (\<open>events\<close>, \<open>run_events\<close>).
  \<open>nodes\<close> names the visited entries by their components; in a tree without links and
  without empty directories they are exactly the prefixes of its files, which is what makes
  a tree rebuilt from the files pass the checks the original passed.
\<close>

subsection \<open>Collection as a flat run\<close>

definition name_ok :: "string \<Rightarrow> bool" where
  "name_ok name \<longleftrightarrow> is_ok (validate_member_name name :: unit AsarError + unit)"

fun events :: "string \<Rightarrow> (string \<times> InputEntry) list \<Rightarrow> (string \<times> InputFile option) list" where
  "events parent [] = []"
| "events parent ((name, InDirectory child) # es) =
     (child_path parent name, None) # events (child_path parent name) child @ events parent es"
| "events parent ((name, InFile f) # es) = (child_path parent name, Some f) # events parent es"
| "events parent ((name, InLink l) # es) = (child_path parent name, None) # events parent es"

fun tree_ok :: "AsarLimits \<Rightarrow> string \<Rightarrow> usize \<Rightarrow> (string \<times> InputEntry) list \<Rightarrow> bool" where
  "tree_ok l parent depth [] \<longleftrightarrow> True"
| "tree_ok l parent depth ((name, InDirectory child) # es) \<longleftrightarrow>
     name_ok name \<and> length (child_path parent name) \<le> max_path_bytes l \<and> depth + 1 \<le> max_depth l \<and>
     child \<noteq> [] \<and> tree_ok l (child_path parent name) (depth + 1) child \<and> tree_ok l parent depth es"
| "tree_ok l parent depth ((name, InFile f) # es) \<longleftrightarrow>
     name_ok name \<and> length (child_path parent name) \<le> max_path_bytes l \<and> tree_ok l parent depth es"
| "tree_ok l parent depth ((name, InLink k) # es) \<longleftrightarrow> False"

definition collect_event ::
    "AsarLimits \<Rightarrow> string \<times> InputFile option \<Rightarrow> CollectionState \<Rightarrow> 'je AsarError + CollectionState" where
  "collect_event l ev st =
     rbind (register_entry l (fst ev) st) (\<lambda>st1.
     case snd ev of None \<Rightarrow> Inr st1 | Some f \<Rightarrow> collect_file l (fst ev) f st1)"

fun run_events ::
    "AsarLimits \<Rightarrow> (string \<times> InputFile option) list \<Rightarrow> CollectionState \<Rightarrow> 'je AsarError + CollectionState" where
  "run_events l [] st = Inr st"
| "run_events l (ev # evs) st = rbind (collect_event l ev st) (run_events l evs)"

lemma rbind_assoc: "rbind (rbind m f) g = rbind m (\<lambda>x. rbind (f x) g)"
  by (cases m) auto

lemma run_events_append: "run_events l (xs @ ys) st = rbind (run_events l xs st) (run_events l ys)"
  by (induction xs arbitrary: st) (simp_all add: rbind_assoc cong: rbind_cong)

lemma validate_member_name_Inr: "validate_member_name n = Inr u \<longleftrightarrow> name_ok n"
  by (auto simp: validate_member_name_def name_ok_def)

lemma collect_path_Inr:
  "collect_path l parent n = Inr p \<longleftrightarrow>
     p = child_path parent n \<and> name_ok n \<and> length (child_path parent n) \<le> max_path_bytes l"
  by (auto simp: collect_path_def rbind_Inr_iff validate_member_name_Inr)

lemma enter_directory_Inr:
  "enter_directory l d files = Inr u \<longleftrightarrow> d \<le> max_depth l \<and> (0 < d \<longrightarrow> files \<noteq> [])"
  by (auto simp: enter_directory_def)

lemma collect_list_iff:
  "(collect_list l parent depth es st :: 'je AsarError + _) = Inr st' \<longleftrightarrow>
     tree_ok l parent depth es \<and> (run_events l (events parent es) st :: 'je AsarError + _) = Inr st'"
proof (induction parent es arbitrary: depth st st' rule: events.induct)
  case (2 parent name child es)
  then show ?case
    by (auto simp: rbind_Inr_iff collect_path_Inr enter_directory_Inr run_events_append collect_event_def)
next
  case (3 parent name f es)
  then show ?case
    by (auto simp: rbind_Inr_iff collect_path_Inr collect_event_def)
qed (auto simp: rbind_Inr_iff)

subsection \<open>The run\<close>

definition file_ok :: "AsarLimits \<Rightarrow> InputFile \<Rightarrow> bool" where
  "file_ok l f \<longleftrightarrow> \<not> if_unpacked f \<and> Option.bind (if_offset f) parse_usize \<noteq> None \<and>
     if_integrity f \<noteq> None \<and> unat (if_size f) \<le> max_file_bytes l"

definition pending_of :: "InputFile \<Rightarrow> PendingFile" where
  "pending_of f = \<lparr>pf_offset = the (Option.bind (if_offset f) parse_usize), pf_size = unat (if_size f),
     pf_executable = if_executable f, pf_integrity = the (if_integrity f)\<rparr>"

definition event_files :: "(string \<times> InputFile option) list \<Rightarrow> (string \<times> InputFile) list" where
  "event_files evs = List.map_filter (\<lambda>(p, fo). map_option (Pair p) fo) evs"

definition event_bytes :: "(string \<times> InputFile option) list \<Rightarrow> nat" where
  "event_bytes evs = sum_list (map (\<lambda>(p, f). unat (if_size f)) (event_files evs))"

definition path_total :: "(string \<times> InputFile option) list \<Rightarrow> nat" where
  "path_total evs = sum_list (map (\<lambda>(p, fo). length p) evs)"

lemma event_simps [simp]:
  "event_files [] = []" "event_bytes [] = 0" "path_total [] = 0"
  "event_files ((p, None) # evs) = event_files evs"
  "event_files ((p, Some f) # evs) = (p, f) # event_files evs"
  "event_bytes ((p, None) # evs) = event_bytes evs"
  "event_bytes ((p, Some f) # evs) = unat (if_size f) + event_bytes evs"
  "path_total ((p, fo) # evs) = length p + path_total evs"
  by (simp_all add: event_files_def event_bytes_def path_total_def map_filter_simps)

text \<open>What one event adds to the state.\<close>

definition note_entry :: "string \<Rightarrow> CollectionState \<Rightarrow> CollectionState" where
  "note_entry p st = st\<lparr>cs_entries := cs_entries st + 1, cs_path_bytes := cs_path_bytes st + length p,
     cs_case_keys := bt_insert (to_ascii_lowercase p) () (cs_case_keys st)\<rparr>"

definition note_file :: "string \<Rightarrow> InputFile \<Rightarrow> CollectionState \<Rightarrow> CollectionState" where
  "note_file p f st = st\<lparr>cs_total_file_bytes := cs_total_file_bytes st + unat (if_size f),
     cs_files := bt_insert p (pending_of f) (cs_files st)\<rparr>"

fun note_event :: "string \<times> InputFile option \<Rightarrow> CollectionState \<Rightarrow> CollectionState" where
  "note_event (p, None) st = note_entry p st"
| "note_event (p, Some f) st = note_file p f (note_entry p st)"

lemma register_entry_Inr:
  "register_entry l p st = Inr st' \<longleftrightarrow> cs_entries st + 1 \<le> max_entries l \<and> cs_entries st + 1 < 2 ^ 64 \<and>
     cs_path_bytes st + length p \<le> max_entries l * max_path_bytes l \<and>
     max_entries l * max_path_bytes l < 2 ^ 64 \<and>
     \<not> bs_contains (cs_case_keys st) (to_ascii_lowercase p) \<and> st' = note_entry p st"
  unfolding register_entry_def note_entry_def checked_mul_usize_def
  by (auto simp: rbind_Inr_iff not_less split: if_splits)

lemma parse_offset_Inr: "parse_offset f = Inr n \<longleftrightarrow> Option.bind (if_offset f) parse_usize = Some n"
  by (cases "if_offset f") (auto simp: parse_offset_def)

lemma collect_file_Inr:
  "collect_file l p f st = Inr st' \<longleftrightarrow> file_ok l f \<and>
     cs_total_file_bytes st + unat (if_size f) \<le> max_total_file_bytes l \<and>
     cs_total_file_bytes st + unat (if_size f) < 2 ^ 64 \<and> st' = note_file p f st"
  unfolding collect_file_def register_file_size_def file_ok_def note_file_def pending_of_def Let_def
  by (auto simp: rbind_Inr_iff parse_offset_Inr not_less split: if_splits)

lemma collect_event_Inr:
  "collect_event l (p, fo) st = Inr st' \<longleftrightarrow> cs_entries st + 1 \<le> max_entries l \<and> cs_entries st + 1 < 2 ^ 64 \<and>
     cs_path_bytes st + length p \<le> max_entries l * max_path_bytes l \<and>
     max_entries l * max_path_bytes l < 2 ^ 64 \<and>
     \<not> bs_contains (cs_case_keys st) (to_ascii_lowercase p) \<and>
     pred_option (\<lambda>f. file_ok l f \<and> cs_total_file_bytes st + unat (if_size f) \<le> max_total_file_bytes l \<and>
       cs_total_file_bytes st + unat (if_size f) < 2 ^ 64) fo \<and> st' = note_event (p, fo) st"
  by (cases fo) (auto simp: collect_event_def rbind_Inr_iff register_entry_Inr collect_file_Inr note_entry_def)

text \<open>
  A run succeeds exactly when its totals fit; the state it ends in depends on the events alone.
\<close>

definition keys_fit :: "(string \<times> InputFile option) list \<Rightarrow> (string \<times> unit) list \<Rightarrow> bool" where
  "keys_fit evs keys \<longleftrightarrow> distinct (map (to_ascii_lowercase \<circ> fst) evs) \<and>
     (\<forall>ev \<in> set evs. \<not> bs_contains keys (to_ascii_lowercase (fst ev)))"

definition counts_fit :: "AsarLimits \<Rightarrow> (string \<times> InputFile option) list \<Rightarrow> usize \<Rightarrow> usize \<Rightarrow> bool" where
  "counts_fit l evs entries path_bytes \<longleftrightarrow> evs = [] \<or>
     entries + length evs \<le> max_entries l \<and> entries + length evs < 2 ^ 64 \<and>
     path_bytes + path_total evs \<le> max_entries l * max_path_bytes l \<and>
     max_entries l * max_path_bytes l < 2 ^ 64"

definition sizes_fit :: "AsarLimits \<Rightarrow> (string \<times> InputFile option) list \<Rightarrow> usize \<Rightarrow> bool" where
  "sizes_fit l evs t \<longleftrightarrow> (\<forall>(p, f) \<in> set (event_files evs). file_ok l f) \<and>
     (event_files evs = [] \<or> t + event_bytes evs \<le> max_total_file_bytes l \<and> t + event_bytes evs < 2 ^ 64)"

definition run_fits :: "AsarLimits \<Rightarrow> (string \<times> InputFile option) list \<Rightarrow> CollectionState \<Rightarrow> bool" where
  "run_fits l evs st \<longleftrightarrow> keys_fit evs (cs_case_keys st) \<and>
     counts_fit l evs (cs_entries st) (cs_path_bytes st) \<and> sizes_fit l evs (cs_total_file_bytes st)"

lemma keys_fit_Cons:
  "keys_fit (ev # evs) keys \<longleftrightarrow> \<not> bs_contains keys (to_ascii_lowercase (fst ev)) \<and>
     keys_fit evs (bt_insert (to_ascii_lowercase (fst ev)) () keys)"
  by (auto simp: keys_fit_def image_iff)

lemma counts_fit_Cons:
  "counts_fit l (ev # evs) e b \<longleftrightarrow> (e + 1 \<le> max_entries l \<and> e + 1 < 2 ^ 64 \<and>
     b + length (fst ev) \<le> max_entries l * max_path_bytes l \<and> max_entries l * max_path_bytes l < 2 ^ 64) \<and>
     counts_fit l evs (e + 1) (b + length (fst ev))"
proof -
  obtain p fo where "ev = (p, fo)" by (cases ev)
  then show ?thesis
    by (cases evs) (auto simp: counts_fit_def)
qed

lemma sizes_fit_None: "sizes_fit l ((p, None) # evs) t \<longleftrightarrow> sizes_fit l evs t"
  by (simp add: sizes_fit_def)

lemma sizes_fit_Some:
  "sizes_fit l ((p, Some f) # evs) t \<longleftrightarrow> (file_ok l f \<and> t + unat (if_size f) \<le> max_total_file_bytes l \<and>
     t + unat (if_size f) < 2 ^ 64) \<and> sizes_fit l evs (t + unat (if_size f))"
proof (cases "event_files evs = []")
  case True
  then have "event_bytes evs = 0" by (simp add: event_bytes_def)
  with True show ?thesis by (auto simp: sizes_fit_def)
next
  case False
  then show ?thesis by (simp add: sizes_fit_def add.assoc) (auto simp: add.assoc)
qed

lemma run_fits_Cons:
  "run_fits l ((p, fo) # evs) st \<longleftrightarrow>
     is_ok (collect_event l (p, fo) st :: 'je AsarError + _) \<and> run_fits l evs (note_event (p, fo) st)"
proof -
  have ok: "is_ok (collect_event l (p, fo) st :: 'je AsarError + _) \<longleftrightarrow>
      (\<exists>s. (collect_event l (p, fo) st :: 'je AsarError + _) = Inr s)"
    by (simp add: is_ok_iff)
  show ?thesis
    unfolding ok collect_event_Inr run_fits_def keys_fit_Cons counts_fit_Cons
    by (cases fo) (simp_all add: sizes_fit_None sizes_fit_Some note_entry_def note_file_def conj_ac)
qed

lemma run_events_iff:
  "(run_events l evs st :: 'je AsarError + _) = Inr st' \<longleftrightarrow> run_fits l evs st \<and> st' = fold note_event evs st"
proof (induction evs arbitrary: st)
  case Nil
  then show ?case by (auto simp: run_fits_def keys_fit_def counts_fit_def sizes_fit_def)
next
  case (Cons ev evs)
  obtain p fo where ev: "ev = (p, fo)" by (cases ev)
  have noted: "(collect_event l ev st :: 'je AsarError + _) = Inr st1 \<Longrightarrow> st1 = note_event ev st" for st1
    by (simp add: ev collect_event_Inr)
  show ?case
    using Cons.IH noted run_fits_Cons [where ?'je = 'je, of l p fo evs st]
    by (auto simp: rbind_Inr_iff is_ok_iff ev)
qed

lemma fold_note_files:
  "cs_files (fold note_event evs st) = fold (\<lambda>(p, f). bt_insert p (pending_of f)) (event_files evs) (cs_files st)"
proof (induction evs arbitrary: st)
  case (Cons ev evs)
  then show ?case
    by (cases "(ev, st)" rule: note_event.cases) (auto simp: note_entry_def note_file_def)
qed simp

lemma fold_bt_insert_wf: "bt_wf m \<Longrightarrow> bt_wf (fold (\<lambda>(p, f). bt_insert p (g f)) xs m)"
  by (induction xs arbitrary: m) (auto simp: bt_laws)

lemma fold_bt_insert_get:
  "bt_wf m \<Longrightarrow> distinct (map fst xs) \<Longrightarrow>
     bt_get (fold (\<lambda>(p, f). bt_insert p (g f)) xs m) k =
       (case map_of xs k of Some f \<Rightarrow> Some (g f) | None \<Rightarrow> bt_get m k)"
proof (induction xs arbitrary: m)
  case (Cons x xs)
  obtain p f where x: "x = (p, f)" by (cases x)
  have "map_of xs p = None"
    using Cons.prems(2) x by (simp add: map_of_eq_None_iff)
  then show ?case
    using Cons.IH [of "bt_insert p (g f) m"] Cons.prems x by (auto simp: bt_laws split: option.splits)
qed simp

subsection \<open>Nodes by components\<close>

fun nodes :: "(string \<times> InputEntry) list \<Rightarrow> (string list \<times> InputFile option) list" where
  "nodes [] = []"
| "nodes ((name, InDirectory child) # es) = ([name], None) # map (apfst (Cons name)) (nodes child) @ nodes es"
| "nodes ((name, InFile f) # es) = ([name], Some f) # nodes es"
| "nodes ((name, InLink l) # es) = ([name], None) # nodes es"

lemma events_nodes: "events parent es = map (apfst (foldl child_path parent)) (nodes es)"
  by (induction parent es rule: events.induct) (auto simp: comp_def apfst_def map_prod_def split_def)

lemma nodes_ne: "(cs, fo) \<in> set (nodes es) \<Longrightarrow> cs \<noteq> []"
  by (induction es arbitrary: cs rule: nodes.induct) auto

fun shape_ok :: "(string \<times> InputEntry) list \<Rightarrow> bool" where
  "shape_ok [] \<longleftrightarrow> True"
| "shape_ok ((name, InDirectory child) # es) \<longleftrightarrow> child \<noteq> [] \<and> shape_ok child \<and> shape_ok es"
| "shape_ok ((name, InFile f) # es) \<longleftrightarrow> shape_ok es"
| "shape_ok ((name, InLink l) # es) \<longleftrightarrow> False"

definition node_ok :: "AsarLimits \<Rightarrow> string \<Rightarrow> usize \<Rightarrow> string list \<times> InputFile option \<Rightarrow> bool" where
  "node_ok l parent depth n \<longleftrightarrow> name_ok (last (fst n)) \<and>
     length (foldl child_path parent (fst n)) \<le> max_path_bytes l \<and>
     (snd n = None \<longrightarrow> depth + length (fst n) \<le> max_depth l)"

lemma node_ok_down:
  "cs \<noteq> [] \<Longrightarrow> node_ok l parent depth (name # cs, fo) \<longleftrightarrow>
     node_ok l (child_path parent name) (depth + 1) (cs, fo)"
  by (simp add: node_ok_def)

lemma apfst_Cons_mem [simp]:
  "(cs, x) \<in> apfst (Cons n) ` S \<longleftrightarrow> (\<exists>ds. cs = n # ds \<and> (ds, x) \<in> S)"
  by (force simp: image_iff)

lemma tree_ok_nodes:
  "tree_ok l parent depth es \<longleftrightarrow> shape_ok es \<and> (\<forall>n \<in> set (nodes es). node_ok l parent depth n)"
proof (induction parent es arbitrary: depth rule: events.induct)
  case (2 parent name child es)
  have down: "(\<forall>n \<in> set (nodes child). node_ok l (child_path parent name) (depth + 1) n) \<longleftrightarrow>
      (\<forall>n \<in> apfst (Cons name) ` set (nodes child). node_ok l parent depth n)"
  proof -
    have "node_ok l (child_path parent name) (depth + 1) n \<longleftrightarrow> node_ok l parent depth (apfst (Cons name) n)"
      if "n \<in> set (nodes child)" for n
      using that nodes_ne [of "fst n" "snd n" child] node_ok_down [of "fst n" l parent depth name "snd n"]
      by (simp add: apfst_def map_prod_def split_def)
    then show ?thesis by simp
  qed
  have head: "node_ok l parent depth ([name], None) \<longleftrightarrow> name_ok name \<and>
      length (child_path parent name) \<le> max_path_bytes l \<and> depth + 1 \<le> max_depth l"
    by (simp add: node_ok_def)
  show ?case
    unfolding tree_ok.simps shape_ok.simps nodes.simps "2.IH" list.set set_append set_map
      ball_simps ball_Un down head
    by blast
next
  case (3 parent name f es)
  then show ?case by (auto simp: node_ok_def)
qed simp_all

fun names_distinct :: "(string \<times> InputEntry) list \<Rightarrow> bool" where
  "names_distinct [] \<longleftrightarrow> True"
| "names_distinct ((name, InDirectory child) # es) \<longleftrightarrow>
     name \<notin> fst ` set es \<and> names_distinct child \<and> names_distinct es"
| "names_distinct ((name, e) # es) \<longleftrightarrow> name \<notin> fst ` set es \<and> names_distinct es"

lemma nodes_hd: "(cs, fo) \<in> set (nodes es) \<Longrightarrow> hd cs \<in> fst ` set es"
  by (induction es arbitrary: cs rule: nodes.induct) (auto simp: image_iff)

lemma nodes_fresh: "name \<notin> fst ` set es \<Longrightarrow> (name # cs, fo) \<notin> set (nodes es)"
  using nodes_hd [of "name # cs" fo es] by auto

lemma nodes_distinct: "names_distinct es \<Longrightarrow> distinct (map fst (nodes es))"
proof (induction es rule: nodes.induct)
  case (2 name child es)
  have "map fst (map (apfst (Cons name)) (nodes child)) = map (Cons name) (map fst (nodes child))"
    by simp
  then show ?case
    using 2 by (auto simp: distinct_map inj_on_def nodes_fresh dest: nodes_ne)
qed (auto simp: nodes_fresh)

subsection \<open>Files determine the nodes\<close>

definition leaf_paths :: "(string \<times> InputEntry) list \<Rightarrow> string list set" where
  "leaf_paths es = {cs. \<exists>f. (cs, Some f) \<in> set (nodes es)}"

lemma leaf_paths_Cons:
  "leaf_paths ((name, InDirectory child) # es) = Cons name ` leaf_paths child \<union> leaf_paths es"
  "leaf_paths ((name, InFile f) # es) = insert [name] (leaf_paths es)"
  by (auto simp: leaf_paths_def)

lemma shape_ok_leaf: "shape_ok es \<Longrightarrow> es \<noteq> [] \<Longrightarrow> leaf_paths es \<noteq> {}"
  by (induction es rule: nodes.induct) (auto simp: leaf_paths_Cons)

lemma node_has_leaf:
  "shape_ok es \<Longrightarrow> (cs, fo) \<in> set (nodes es) \<Longrightarrow>
     \<exists>ls \<in> leaf_paths es. prefix cs ls \<and> (fo = None \<longrightarrow> strict_prefix cs ls)"
proof (induction es arbitrary: cs rule: nodes.induct)
  case (2 name child es)
  from "2.prems"(2) consider "cs = [name]" "fo = None"
    | ds where "cs = name # ds" "(ds, fo) \<in> set (nodes child)" | "(cs, fo) \<in> set (nodes es)"
    by auto
  then show ?case
  proof cases
    case 1
    from shape_ok_leaf [of child] "2.prems"(1) obtain ls f where ls: "(ls, Some f) \<in> set (nodes child)"
      by (auto simp: leaf_paths_def)
    then have "strict_prefix cs (name # ls)"
      using 1 nodes_ne [OF ls] by (auto simp: strict_prefix_def)
    moreover from ls have "name # ls \<in> leaf_paths ((name, InDirectory child) # es)"
      by (auto simp: leaf_paths_def)
    ultimately show ?thesis
      by (auto simp: strict_prefix_def)
  next
    case 2
    from "2.prems"(1) have "shape_ok child" by simp
    from "2.IH"(1) [OF this 2(2)] obtain ls where "ls \<in> leaf_paths child"
      "prefix ds ls \<and> (fo = None \<longrightarrow> strict_prefix ds ls)" ..
    with 2(1) show ?thesis
      by (intro bexI [of _ "name # ls"]) (auto simp: leaf_paths_Cons)
  next
    case 3
    with "2.IH"(2) "2.prems"(1) show ?thesis
      by (auto simp: leaf_paths_Cons)
  qed
next
  case (3 name f es)
  then show ?case by (fastforce simp: leaf_paths_Cons)
qed auto

lemma leaf_prefix_node:
  "(ls, Some f) \<in> set (nodes es) \<Longrightarrow> strict_prefix cs ls \<Longrightarrow> cs \<noteq> [] \<Longrightarrow> (cs, None) \<in> set (nodes es)"
proof (induction es arbitrary: ls cs rule: nodes.induct)
  case (2 name child es)
  from "2.prems"(1) consider ms where "ls = name # ms" "(ms, Some f) \<in> set (nodes child)"
    | "(ls, Some f) \<in> set (nodes es)"
    by auto
  then show ?case
  proof cases
    case 1
    with "2.prems"(2,3) obtain ds where ds: "cs = name # ds" "strict_prefix ds ms"
      by (cases cs) auto
    show ?thesis
    proof (cases "ds = []")
      case False
      with "2.IH"(1) [OF 1(2) ds(2)] ds(1) show ?thesis by force
    qed (simp add: ds)
  next
    case 2
    with "2.IH"(2) "2.prems" show ?thesis by auto
  qed
next
  case (3 name g es)
  then show ?case
    by (cases cs) (auto simp: strict_prefix_def)
qed auto

lemma nodes_closure:
  assumes "shape_ok es"
  shows "fst ` set (nodes es) = {cs. cs \<noteq> [] \<and> (\<exists>ls \<in> leaf_paths es. prefix cs ls)}"
proof (intro set_eqI iffI)
  fix cs
  assume "cs \<in> fst ` set (nodes es)"
  then obtain fo where "(cs, fo) \<in> set (nodes es)"
    by auto
  then show "cs \<in> {cs. cs \<noteq> [] \<and> (\<exists>ls \<in> leaf_paths es. prefix cs ls)}"
    using node_has_leaf [OF assms] nodes_ne by blast
next
  fix cs
  assume "cs \<in> {cs. cs \<noteq> [] \<and> (\<exists>ls \<in> leaf_paths es. prefix cs ls)}"
  then obtain ls f where "cs \<noteq> []" "(ls, Some f) \<in> set (nodes es)" "prefix cs ls"
    by (auto simp: leaf_paths_def)
  then show "cs \<in> fst ` set (nodes es)"
    using leaf_prefix_node [of ls f es cs] by (cases "cs = ls") (force simp: strict_prefix_def)+
qed

end
