(* ===== verification/Asar_Layout.thy ===== *)
theory Asar_Layout
  imports Asar_Tree "HOL-Library.Multiset"
begin

section \<open>Packed bodies\<close>

text \<open>
  The layout check of \<open>finish\<close>: sorted by offset, the files must follow each other without
  gap or overlap and end with the body. Consequences: the body is the concatenation of the
  files in that order, every file lies inside it, and the extracted map is the pending map
  with each range replaced by its bytes. The section on decimal offsets shows that the text
  \<open>to_bytes\<close> writes is read back as the same number.
\<close>

subsection \<open>Layout\<close>

definition pf_range :: "bytes \<Rightarrow> PendingFile \<Rightarrow> bytes" where
  "pf_range body f = slice (pf_offset f) (pf_offset f + pf_size f) body"

lemma layout_cursor_Inr:
  "layout_cursor fs c = (Inr n :: 'je AsarError + nat) \<Longrightarrow> n \<le> length body \<Longrightarrow>
     c \<le> n \<and> take c body @ concat (map (pf_range body \<circ> snd) fs) = take n body \<and>
     (\<forall>(p, f) \<in> set fs. pf_offset f + pf_size f \<le> n)"
proof (induction fs arbitrary: c)
  case (Cons pf fs)
  obtain p f where pf: "pf = (p, f)" by (cases pf)
  with Cons.prems have off: "pf_offset f = c" and tail: "layout_cursor fs (c + pf_size f) = (Inr n :: 'je AsarError + nat)"
    by (auto simp: rbind_Inr_iff split: if_splits)
  note IH = Cons.IH [OF tail Cons.prems(2)]
  have "take c body @ pf_range body f = take (c + pf_size f) body"
    by (simp add: pf_range_def slice_def off take_add)
  with IH pf off show ?case
    by (auto simp flip: append_assoc)
qed simp

lemma by_offset_mset: "mset (by_offset files) = mset files"
  by (simp add: by_offset_def)

lemma check_layout_Inr:
  assumes "check_layout files body = Inr u"
  shows "concat (map (pf_range body \<circ> snd) (by_offset files)) = body"
    and "(p, f) \<in> set files \<Longrightarrow> pf_offset f + pf_size f \<le> length body"
proof -
  have "layout_cursor (by_offset files) 0 = (Inr (length body) :: 'a AsarError + nat)"
    using assms by (auto simp: check_layout_def rbind_Inr_iff split: if_splits)
  from layout_cursor_Inr [OF this] have l: "concat (map (pf_range body \<circ> snd) (by_offset files)) = body"
    and b: "\<forall>(p, f) \<in> set (by_offset files). pf_offset f + pf_size f \<le> length body"
    by auto
  from l show "concat (map (pf_range body \<circ> snd) (by_offset files)) = body" .
  assume "(p, f) \<in> set files"
  with b mset_eq_setD [OF by_offset_mset [of files]] show "pf_offset f + pf_size f \<le> length body"
    by auto
qed

definition integrity_matches :: "(bytes \<Rightarrow> string) \<Rightarrow> bytes \<Rightarrow> InputIntegrity \<Rightarrow> bool" where
  "integrity_matches hex_digest bs i \<longleftrightarrow> i = integrity_for_bytes hex_digest bs"

lemma verify_integrity_Inr:
  "verify_integrity hex_digest bs i = Inr u \<longleftrightarrow> integrity_matches hex_digest bs i"
  by (cases i) (auto simp: verify_integrity_def integrity_matches_def integrity_for_bytes_def)

lemma pending_bytes_Inr:
  "pending_bytes hex_digest body f = Inr bs \<longleftrightarrow> bs = pf_range body f \<and>
     pf_offset f + pf_size f \<le> length body \<and> pf_offset f + pf_size f < 2 ^ 64 \<and>
     integrity_matches hex_digest bs (pf_integrity f)"
  by (auto simp: pending_bytes_def rbind_Inr_iff get_range_def verify_integrity_Inr pf_range_def)

definition packed_of :: "bytes \<Rightarrow> PendingFile \<Rightarrow> PackedFile" where
  "packed_of body f = \<lparr>pk_bytes = pf_range body f, pk_executable = pf_executable f\<rparr>"

lemma extract_files_Inr:
  "bt_wf (acc @ map (apsnd (packed_of body)) fs) \<Longrightarrow>
     (extract_files hex_digest body acc fs :: 'je AsarError + _) = Inr files \<longleftrightarrow>
       files = acc @ map (apsnd (packed_of body)) fs \<and>
       (\<forall>(p, f) \<in> set fs. pf_offset f + pf_size f \<le> length body \<and> pf_offset f + pf_size f < 2 ^ 64 \<and>
          integrity_matches hex_digest (pf_range body f) (pf_integrity f))"
proof (induction fs arbitrary: acc)
  case (Cons pf fs)
  obtain p f where pf: "pf = (p, f)" by (cases pf)
  have "bt_insert p (packed_of body f) acc = acc @ [(p, packed_of body f)]"
    using Cons.prems pf by (intro bt_insert_last) (auto dest: bt_wf_append_less)
  then show ?case
    using Cons.IH [of "acc @ [(p, packed_of body f)]"] Cons.prems pf
    by (auto simp: rbind_Inr_iff pending_bytes_Inr packed_of_def)
qed auto

definition indexed_of :: "PendingFile \<Rightarrow> IndexedFile" where
  "indexed_of f = \<lparr>ix_offset = pf_offset f, ix_size = pf_size f\<rparr>"

lemma index_files_Inr:
  "bt_wf (acc @ map (apsnd indexed_of) fs) \<Longrightarrow>
     (index_files hex_digest body acc fs :: 'je AsarError + _) = Inr files \<longleftrightarrow>
       files = acc @ map (apsnd indexed_of) fs \<and>
       (\<forall>(p, f) \<in> set fs. pf_offset f + pf_size f \<le> length body \<and> pf_offset f + pf_size f < 2 ^ 64 \<and>
          integrity_matches hex_digest (pf_range body f) (pf_integrity f))"
proof (induction fs arbitrary: acc)
  case (Cons pf fs)
  obtain p f where pf: "pf = (p, f)" by (cases pf)
  have "bt_insert p (indexed_of f) acc = acc @ [(p, indexed_of f)]"
    using Cons.prems pf by (intro bt_insert_last) (auto dest: bt_wf_append_less)
  then show ?case
    using Cons.IH [of "acc @ [(p, indexed_of f)]"] Cons.prems pf
    by (auto simp: rbind_Inr_iff pending_bytes_Inr indexed_of_def)
qed auto

lemma bt_wf_apsnd: "bt_wf (map (apsnd g) m) \<longleftrightarrow> bt_wf m"
  by (simp add: bt_wf_def)

subsection \<open>Decimal offsets\<close>

lemma parse_digits_append:
  "parse_digits n (s @ t) = Option.bind (parse_digits n s) (\<lambda>m. parse_digits m t)"
  by (induction s arbitrary: n) auto

lemma digit_char: "k < 10 \<Longrightarrow> is_digit (char_of (48 + k :: nat)) \<and> of_char (char_of (48 + k :: nat)) = 48 + k"
  by (simp add: is_digit_def less_eq_char_def)

lemma parse_digits_nat:
  "n < 2 ^ 64 \<Longrightarrow> parse_digits 0 (nat_to_string n) = Some n"
proof (induction n rule: nat_to_string.induct)
  case (1 n)
  have last: "parse_digits (n div 10) [char_of (48 + n mod 10)] = Some n"
    using digit_char [of "n mod 10"] 1(2) by simp
  show ?case
  proof (cases "n < 10")
    case True
    with last show ?thesis by (simp add: nat_to_string.simps [of n])
  next
    case False
    with 1 have "parse_digits 0 (nat_to_string (n div 10)) = Some (n div 10)"
      by simp
    with False last show ?thesis
      by (simp add: nat_to_string.simps [of n] parse_digits_append del: parse_digits.simps)
  qed
qed

lemma nat_to_string_digits: "\<forall>c \<in> set (nat_to_string n). is_digit c"
proof (induction n rule: nat_to_string.induct)
  case (1 n)
  then show ?case
    using digit_char [of "n mod 10"] by (auto simp: nat_to_string.simps [of n])
qed

lemma nat_to_string_ne: "nat_to_string n \<noteq> []"
  by (simp add: nat_to_string.simps [of n])

lemma parse_nat_to_string:
  assumes "n < 2 ^ 64"
  shows "parse_usize (nat_to_string n) = Some n"
proof -
  obtain c s where cs: "nat_to_string n = c # s"
    using nat_to_string_ne by (cases "nat_to_string n") auto
  then have "is_digit c"
    using nat_to_string_digits [of n] by simp
  then have "c \<noteq> CHR ''+''"
    by (auto simp: is_digit_def less_eq_char_def)
  with cs parse_digits_nat [OF assms] show ?thesis
    by (simp add: parse_usize_def)
qed

end
