(* ===== verification/Asar_Archive.thy ===== *)
theory Asar_Archive
  imports Asar_Layout
begin

section \<open>Parsed archives\<close>

text \<open>
  What \<open>AsarArchive::parse\<close> guarantees, what \<open>replace_file\<close> does, and how the read-only
  index relates to the rewritable archive. \<open>asar_inv\<close> is the invariant of the archive
  value: some directory tree with exactly its files passes every check of the collection,
  and the byte budgets hold.
\<close>

subsection \<open>Paths of a tree\<close>

lemma name_okD: "name_ok n \<Longrightarrow> n \<noteq> [] \<and> CHR ''/'' \<notin> set n"
  by (auto simp: name_ok_def validate_member_name_def member_char_forbidden_def list_ex_iff split: if_splits)

lemma foldl_child_path: "list_all name_ok cs \<Longrightarrow> cs \<noteq> [] \<Longrightarrow> foldl child_path [] cs = join_path cs"
proof (induction cs rule: rev_induct)
  case (snoc c cs)
  have join: "join_path (cs @ [c]) = join_path cs @ CHR ''/'' # c" if "cs \<noteq> []"
    using that by (induction cs rule: join_path.induct) auto
  show ?case
  proof (cases "cs = []")
    case False
    then have "join_path cs \<noteq> []"
      using snoc.prems by (cases cs rule: join_path.cases) (auto dest: name_okD)
    with False snoc join show ?thesis
      by (simp add: child_path_def)
  qed (simp add: child_path_def)
qed simp

lemma node_names:
  "\<forall>n \<in> set (nodes es). name_ok (last (fst n)) \<Longrightarrow> (cs, fo) \<in> set (nodes es) \<Longrightarrow> list_all name_ok cs"
proof (induction es arbitrary: cs rule: nodes.induct)
  case (2 name child es)
  have "name_ok (last (fst n))" if "n \<in> set (nodes child)" for n
  proof -
    have "apfst (Cons name) n \<in> set (nodes ((name, InDirectory child) # es))"
      using that by simp
    with "2.prems"(1) have "name_ok (last (fst (apfst (Cons name) n)))"
      by blast
    with that nodes_ne [of "fst n" "snd n" child] show ?thesis
      by (simp add: apfst_def map_prod_def split_def)
  qed
  with 2 show ?case by auto
qed auto

lemma tree_node_names:
  "tree_ok l parent depth es \<Longrightarrow> (cs, fo) \<in> set (nodes es) \<Longrightarrow> list_all name_ok cs"
  by (rule node_names [of es]) (auto simp: tree_ok_nodes node_ok_def)

lemma tree_events:
  assumes "tree_ok l [] 0 t"
  shows "events [] t = map (apfst join_path) (nodes t)"
  unfolding events_nodes
proof (rule map_cong [OF refl])
  fix n
  assume n: "n \<in> set (nodes t)"
  obtain cs fo where "n = (cs, fo)" by (cases n)
  with n tree_node_names [OF assms, of cs fo] nodes_ne [of cs fo t]
  show "apfst (foldl child_path []) n = apfst join_path n"
    by (simp add: foldl_child_path)
qed

lemma split_join_names:
  "list_all name_ok cs \<Longrightarrow> cs \<noteq> [] \<Longrightarrow> split_on (CHR ''/'') (join_path cs) = cs"
  by (rule split_join) (auto simp: list_all_iff dest: name_okD)

subsection \<open>Parsing\<close>

definition pend_of :: "(string \<times> InputEntry) list \<Rightarrow> (string \<times> PendingFile) list" where
  "pend_of t = fold (\<lambda>(p, f). bt_insert p (pending_of f)) (event_files (events [] t)) []"

definition tree_fits :: "AsarLimits \<Rightarrow> (string \<times> InputEntry) list \<Rightarrow> bool" where
  "tree_fits l t \<longleftrightarrow> tree_ok l [] 0 t \<and> keys_fit (events [] t) [] \<and> counts_fit l (events [] t) 0 0 \<and>
     sizes_fit l (events [] t) 0"

lemma collect_entries_Inr:
  "(collect_entries l t [] 0 collection_new :: 'je AsarError + _) = Inr st \<longleftrightarrow>
     tree_fits l t \<and> st = fold note_event (events [] t) collection_new"
  by (auto simp: collect_entries_def rbind_Inr_iff enter_directory_Inr collect_list_iff run_events_iff
      tree_fits_def run_fits_def collection_new_def)

lemma event_files_mem: "(p, f) \<in> set (event_files evs) \<longleftrightarrow> (p, Some f) \<in> set evs"
  by (force simp: event_files_def List.map_filter_def)

lemma event_files_distinct: "distinct (map fst evs) \<Longrightarrow> distinct (map fst (event_files evs))"
proof (induction evs)
  case (Cons ev evs)
  then show ?case
    by (cases ev; cases "snd ev") (force simp: event_files_mem image_iff)+
qed simp

lemma keys_fit_distinct: "keys_fit evs keys \<Longrightarrow> distinct (map fst evs)"
  by (auto simp: keys_fit_def distinct_map dest: inj_on_imageI2)

lemma pend_of_wf: "bt_wf (pend_of t)"
  unfolding pend_of_def by (rule fold_bt_insert_wf) (rule bt.wf_empty)

lemma pend_of_get:
  assumes "keys_fit (events [] t) []"
  shows "bt_get (pend_of t) p = Some pf \<longleftrightarrow> (\<exists>f. (p, Some f) \<in> set (events [] t) \<and> pf = pending_of f)"
proof -
  have d: "distinct (map fst (event_files (events [] t)))"
    by (rule event_files_distinct [OF keys_fit_distinct [OF assms]])
  have m: "map_of (event_files (events [] t)) p = Some f \<longleftrightarrow> (p, Some f) \<in> set (events [] t)" for f
    using d by (simp add: event_files_mem)
  note get = fold_bt_insert_get [OF bt.wf_empty d] bt.get_empty
  show ?thesis
  proof (cases "map_of (event_files (events [] t)) p")
    case None
    then have "(p, Some f) \<notin> set (events [] t)" for f
      using m by simp
    with None show ?thesis by (simp add: pend_of_def get)
  next
    case (Some a)
    then have "(p, Some f) \<in> set (events [] t) \<longleftrightarrow> f = a" for f
      unfolding m [symmetric] by auto
    with Some show ?thesis by (auto simp: pend_of_def get)
  qed
qed

lemma pend_of_mset:
  assumes "keys_fit (events [] t) []"
  shows "mset (pend_of t) = mset (map (apsnd pending_of) (event_files (events [] t)))"
proof -
  have "distinct (map fst (map (apsnd pending_of) (event_files (events [] t))))"
    using event_files_distinct [OF keys_fit_distinct [OF assms]] by simp
  then have "distinct (map (apsnd pending_of) (event_files (events [] t)))"
    by (rule distinct_map [THEN iffD1, THEN conjunct1])
  moreover have "distinct (pend_of t)"
    using bt_wf_distinct [OF pend_of_wf] distinct_map by blast
  moreover have "set (pend_of t) = set (map (apsnd pending_of) (event_files (events [] t)))"
  proof (rule set_eqI)
    fix x :: "string \<times> PendingFile"
    obtain p pf where x: "x = (p, pf)" by (cases x)
    show "x \<in> set (pend_of t) \<longleftrightarrow> x \<in> set (map (apsnd pending_of) (event_files (events [] t)))"
      using pend_of_get [OF assms, of p pf] bt_get_mem [OF pend_of_wf, of t p pf] x
      by (auto simp: event_files_mem image_iff) (metis apsnd_conv event_files_mem)
  qed
  ultimately show ?thesis
    by (metis set_eq_iff_mset_eq_distinct)
qed

definition body_ok :: "(bytes \<Rightarrow> string) \<Rightarrow> (string \<times> PendingFile) list \<Rightarrow> bytes \<Rightarrow> bool" where
  "body_ok hex_digest pend body \<longleftrightarrow> is_ok (check_layout pend body :: unit AsarError + unit) \<and>
     (\<forall>(p, f) \<in> set pend. pf_offset f + pf_size f \<le> length body \<and> pf_offset f + pf_size f < 2 ^ 64 \<and>
        integrity_matches hex_digest (pf_range body f) (pf_integrity f))"

lemma layout_cursor_retype:
  "layout_cursor fs c = (Inr n :: 'a AsarError + nat) \<longleftrightarrow> layout_cursor fs c = (Inr n :: 'b AsarError + nat)"
  by (induction fs arbitrary: c) (auto simp: rbind_Inr_iff split: if_splits)

lemma check_layout_ok:
  "(check_layout pend body :: 'je AsarError + unit) = Inr u \<longleftrightarrow>
     is_ok (check_layout pend body :: unit AsarError + unit)"
  using layout_cursor_retype [where ?'a = 'je and ?'b = unit, of "by_offset pend" 0]
  by (auto simp: check_layout_def rbind_Inr_iff is_ok_iff split: if_splits)

lemma get_range_end: "get_range i (length xs) xs = Some ys \<longleftrightarrow> i \<le> length xs \<and> ys = drop i xs"
  by (auto simp: get_range_def slice_def)

lemma collection_finish_Inr:
  assumes "bt_wf (cs_files st)"
  shows "(collection_finish hex_digest archive start l st :: 'je AsarError + _) = Inr ar \<longleftrightarrow>
    start \<le> length archive \<and> body_ok hex_digest (cs_files st) (drop start archive) \<and>
    ar = \<lparr>ar_files = map (apsnd (packed_of (drop start archive))) (cs_files st), ar_limits = l\<rparr>"
  using extract_files_Inr [of "[]" "drop start archive" "cs_files st" hex_digest] assms
  by (auto simp: collection_finish_def rbind_Inr_iff get_range_end body_ok_def check_layout_ok bt_wf_apsnd)

lemma asar_parse_Inr:
  "asar_parse from_slice custom hex_digest bs l = Inr ar \<longleftrightarrow>
     length bs \<le> max_archive_bytes l \<and>
     (\<exists>h. parse_header from_slice custom bs l = Inr h \<and> tree_fits l (ph_root h) \<and>
        ph_data_start h \<le> length bs \<and>
        body_ok hex_digest (pend_of (ph_root h)) (drop (ph_data_start h) bs) \<and>
        ar = \<lparr>ar_files = map (apsnd (packed_of (drop (ph_data_start h) bs))) (pend_of (ph_root h)),
          ar_limits = l\<rparr>)"
proof -
  have files: "cs_files (fold note_event (events [] t) collection_new) = pend_of t" for t
    by (simp add: fold_note_files pend_of_def collection_new_def)
  show ?thesis
    by (auto simp: asar_parse_def rbind_Inr_iff collect_entries_Inr collection_finish_Inr files pend_of_wf)
qed

definition leaf_entry :: "AsarLimits \<Rightarrow> (bytes \<Rightarrow> string) \<Rightarrow> (string \<times> InputEntry) list \<Rightarrow> string \<Rightarrow> PackedFile \<Rightarrow> bool" where
  "leaf_entry l hex_digest t p f \<longleftrightarrow> (\<exists>cs leaf. (cs, Some leaf) \<in> set (nodes t) \<and> p = join_path cs \<and>
     list_all name_ok cs \<and> length p \<le> max_path_bytes l \<and> length (pk_bytes f) \<le> max_file_bytes l \<and>
     unat (if_size leaf) = length (pk_bytes f) \<and> pk_executable f = if_executable leaf \<and>
     if_integrity leaf = Some (integrity_for_bytes hex_digest (pk_bytes f)))"

lemma pf_range_length: "pf_offset f + pf_size f \<le> length body \<Longrightarrow> length (pf_range body f) = pf_size f"
  by (simp add: pf_range_def slice_def)

lemma pend_leaf:
  assumes "tree_fits l t" and "(p, pf) \<in> set (pend_of t)"
  obtains cs leaf where "(cs, Some leaf) \<in> set (nodes t)" and "p = join_path cs" and "pf = pending_of leaf"
    and "list_all name_ok cs" and "length p \<le> max_path_bytes l" and "file_ok l leaf"
proof -
  have ok: "tree_ok l [] 0 t" and keys: "keys_fit (events [] t) []"
    using assms(1) by (simp_all add: tree_fits_def)
  obtain leaf where leaf: "(p, Some leaf) \<in> set (events [] t)" "pf = pending_of leaf"
    using assms(2) pend_of_get [OF keys, of p pf] bt_get_mem [OF pend_of_wf, of t p pf] by auto
  then obtain cs where cs: "(cs, Some leaf) \<in> set (nodes t)" "p = join_path cs"
    by (auto simp: tree_events [OF ok])
  have "node_ok l [] 0 (cs, Some leaf)"
    using ok cs(1) by (auto simp: tree_ok_nodes)
  moreover have names: "list_all name_ok cs"
    by (rule tree_node_names [OF ok cs(1)])
  ultimately have "length p \<le> max_path_bytes l"
    using cs(2) foldl_child_path nodes_ne [OF cs(1)] by (simp add: node_ok_def)
  moreover have "(p, leaf) \<in> set (event_files (events [] t))"
    using leaf(1) by (simp add: event_files_mem)
  then have "file_ok l leaf"
    using assms(1) by (auto simp: tree_fits_def sizes_fit_def)
  ultimately show thesis
    using that [of cs leaf] cs leaf(2) names by blast
qed

lemma events_leaf:
  assumes "tree_ok l [] 0 t"
  shows "(\<exists>f. (p, Some f) \<in> set (events [] t)) \<longleftrightarrow> p \<in> join_path ` leaf_paths t"
proof -
  have "(p, x) \<in> apfst join_path ` S \<longleftrightarrow> (\<exists>cs. p = join_path cs \<and> (cs, x) \<in> S)" for x :: "InputFile option" and S
    by (force simp: image_iff)
  then show ?thesis
    unfolding tree_events [OF assms] set_map leaf_paths_def by blast
qed

lemma pend_leaf_paths:
  assumes "tree_fits l t"
  shows "fst ` set (pend_of t) = join_path ` leaf_paths t"
proof -
  have ok: "tree_ok l [] 0 t" and keys: "keys_fit (events [] t) []"
    using assms by (simp_all add: tree_fits_def)
  have "p \<in> fst ` set (pend_of t) \<longleftrightarrow> (\<exists>leaf. (p, Some leaf) \<in> set (events [] t))" for p
  proof -
    have "p \<in> fst ` set (pend_of t) \<longleftrightarrow> (\<exists>pf. bt_get (pend_of t) p = Some pf)"
      using bt_get_None [of "pend_of t" p] by auto
    then show ?thesis
      by (simp add: pend_of_get [OF keys])
  qed
  then show ?thesis
    unfolding events_leaf [OF ok] by blast
qed

lemma keys_fit_lower:
  assumes "keys_fit evs keys" and "fst ` set fs \<subseteq> fst ` set evs" and "distinct (map fst fs)"
  shows "distinct (map to_ascii_lowercase (map fst fs))"
proof -
  have "inj_on to_ascii_lowercase (fst ` set evs)"
    using assms(1) by (auto simp: keys_fit_def distinct_map intro: inj_on_imageI)
  then have "inj_on to_ascii_lowercase (set (map fst fs))"
    using assms(2) by (simp add: inj_on_subset)
  with assms(3) show ?thesis
    by (simp add: distinct_map comp_inj_on)
qed

subsection \<open>An example archive\<close>

text \<open>Two members of one byte each, one of them in a directory, under small limits.\<close>

definition asar_ex_leaf :: "string \<Rightarrow> InputFile" where
  "asar_ex_leaf off = \<lparr>if_size = 1, if_offset = Some off, if_executable = False, if_unpacked = False,
     if_integrity = Some \<lparr>ii_algorithm = ''SHA256'', ii_hash = ''00'', ii_block_size = INTEGRITY_BLOCK_SIZE,
       ii_blocks = [''00'']\<rparr>\<rparr>"

definition asar_ex_tree :: "(string \<times> InputEntry) list" where
  "asar_ex_tree = [(''b'', InFile (asar_ex_leaf ''0'')), (''d'', InDirectory [(''a'', InFile (asar_ex_leaf ''1''))])]"

definition asar_ex_archive :: bytes where
  "asar_ex_archive = [4, 0, 0, 0, 12, 0, 0, 0, 8, 0, 0, 0, 4, 0, 0, 0, 1, 2, 3, 4, 104, 105]"

definition asar_ex_decode :: "bytes \<Rightarrow> unit + InputEntry" where
  "asar_ex_decode js = (if js = [1, 2, 3, 4] then Inr (InDirectory asar_ex_tree) else Inl ())"

definition asar_ex_limits :: AsarLimits where
  "asar_ex_limits = \<lparr>max_archive_bytes = 64, max_header_bytes = 32, max_entries = 8, max_file_bytes = 4,
     max_total_file_bytes = 8, max_path_bytes = 8, max_depth = 1\<rparr>"

definition asar_ex_files :: "bytes \<Rightarrow> (string \<times> PackedFile) list" where
  "asar_ex_files b = [(''b'', \<lparr>pk_bytes = b, pk_executable = False\<rparr>),
     (''d/a'', \<lparr>pk_bytes = [105], pk_executable = False\<rparr>)]"

lemma asar_ex_header: "parse_header asar_ex_decode (\<lambda>_. ()) asar_ex_archive asar_ex_limits = Inr \<lparr>ph_root = asar_ex_tree, ph_data_start = 20\<rparr>"
  by (simp add: parse_header_def asar_ex_archive_def asar_ex_limits_def read_u32_def checked_add_usize_def
      get_range_def slice_def saturating_add_def checked_add_def checked_sub_def ASAR_MAGIC_def decode_root_def
      asar_ex_decode_def asar_ex_tree_def bt_get_def)

lemma asar_ex_pend: "pend_of asar_ex_tree = map (apsnd pending_of) [(''b'', asar_ex_leaf ''0''), (''d/a'', asar_ex_leaf ''1'')]"
  by (simp add: pend_of_def asar_ex_tree_def child_path_def)

lemma asar_ex_fits: "tree_fits asar_ex_limits asar_ex_tree"
  by (simp add: tree_fits_def asar_ex_tree_def asar_ex_limits_def child_path_def keys_fit_def counts_fit_def sizes_fit_def
     asar_ex_leaf_def name_ok_def validate_member_name_def member_char_forbidden_def file_ok_def event_bytes_def path_total_def
     to_ascii_lowercase_def ascii_lower_def reserved_stems_def parse_usize_def is_digit_def bs_contains_def bt_get_def)

lemma asar_ex_body: "body_ok (\<lambda>_. ''00'') (pend_of asar_ex_tree) [104, 105]"
  by (simp add: asar_ex_pend body_ok_def check_layout_def by_offset_def asar_ex_leaf_def pending_of_def parse_usize_def is_digit_def
    checked_add_usize_def integrity_matches_def integrity_for_bytes_def chunks.simps INTEGRITY_BLOCK_SIZE_def pf_range_def slice_def)

lemma asar_ex_parse: "asar_parse asar_ex_decode (\<lambda>_. ()) (\<lambda>_. ''00'') asar_ex_archive asar_ex_limits =
  Inr \<lparr>ar_files = asar_ex_files [104], ar_limits = asar_ex_limits\<rparr>"
  using asar_ex_header asar_ex_fits asar_ex_body
  by (simp add: asar_parse_Inr asar_ex_files_def asar_ex_pend packed_of_def pf_range_def slice_def asar_ex_leaf_def pending_of_def parse_usize_def is_digit_def)
 (simp add: asar_ex_archive_def asar_ex_limits_def)

subsection \<open>Coverage\<close>

text \<open>
  C16: a parsed archive is what its header declares and its body holds. In some order the
  packed files, one after the other, are exactly the bytes after the header: none is
  missing, shared or left over. The paths are those of the header's files, different even
  when letter case is ignored; every component is a portable file name; every file has the
  declared size, its bytes match the declared digest and block digests, and its path and
  size respect the limits.
\<close>

theorem asar_parse_covers:
  assumes "asar_parse from_slice custom hex_digest bs l = Inr ar"
  shows "\<exists>h order. parse_header from_slice custom bs l = Inr h \<and> mset order = mset (ar_files ar) \<and>
    drop (ph_data_start h) bs = concat (map (pk_bytes \<circ> snd) order) \<and>
    set (asar_file_paths ar) = join_path ` leaf_paths (ph_root h) \<and>
    distinct (map to_ascii_lowercase (asar_file_paths ar)) \<and>
    (\<forall>(p, f) \<in> set (ar_files ar). leaf_entry l hex_digest (ph_root h) p f)"
proof -
  obtain h where h: "parse_header from_slice custom bs l = Inr h" and fits: "tree_fits l (ph_root h)"
    and ok: "body_ok hex_digest (pend_of (ph_root h)) (drop (ph_data_start h) bs)"
    and ar: "ar_files ar = map (apsnd (packed_of (drop (ph_data_start h) bs))) (pend_of (ph_root h))"
    using assms by (auto simp: asar_parse_Inr)
  let ?t = "ph_root h" and ?body = "drop (ph_data_start h) bs"
  let ?pend = "pend_of ?t" and ?pack = "apsnd (packed_of ?body)"
  have "(check_layout ?pend ?body :: unit AsarError + unit) = Inr ()"
    using ok by (simp add: body_ok_def check_layout_ok)
  from check_layout_Inr(1) [OF this]
  have "?body = concat (map (pk_bytes \<circ> snd) (map ?pack (by_offset ?pend)))"
    by (simp add: comp_def packed_of_def split_def)
  moreover have "mset (map ?pack (by_offset ?pend)) = mset (ar_files ar)"
    by (simp add: ar by_offset_mset)
  moreover have paths: "asar_file_paths ar = map fst ?pend"
    by (simp add: asar_file_paths_def bt_keys_def ar)
  moreover have keys: "set (map fst ?pend) = join_path ` leaf_paths ?t"
    using pend_leaf_paths [OF fits] by simp
  moreover have "distinct (map to_ascii_lowercase (map fst ?pend))"
  proof (rule keys_fit_lower [OF _ _ bt_wf_distinct [OF pend_of_wf]])
    show "keys_fit (events [] ?t) []" using fits by (simp add: tree_fits_def)
    have "tree_ok l [] 0 ?t" using fits by (simp add: tree_fits_def)
    from events_leaf [OF this] show "fst ` set ?pend \<subseteq> fst ` set (events [] ?t)"
      unfolding pend_leaf_paths [OF fits] by (intro subsetI) (metis fst_conv image_eqI)
  qed
  moreover have "\<forall>(p, f) \<in> set (ar_files ar). leaf_entry l hex_digest ?t p f"
  proof safe
    fix p f
    assume "(p, f) \<in> set (ar_files ar)"
    then obtain pf where pf: "(p, pf) \<in> set ?pend" "f = packed_of ?body pf"
      by (auto simp: ar)
    with ok have b: "pf_offset pf + pf_size pf \<le> length ?body"
      and i: "pf_integrity pf = integrity_for_bytes hex_digest (pf_range ?body pf)"
      by (auto simp: body_ok_def integrity_matches_def)
    from pend_leaf [OF fits pf(1)] obtain cs leaf where "(cs, Some leaf) \<in> set (nodes ?t)" "p = join_path cs"
      "pf = pending_of leaf" "list_all name_ok cs" "length p \<le> max_path_bytes l" "file_ok l leaf" .
    then show "leaf_entry l hex_digest ?t p f"
      using b i pf(2) pf_range_length [OF b] unfolding leaf_entry_def
      by (intro exI [of _ cs] exI [of _ leaf]) (auto simp: packed_of_def pending_of_def file_ok_def)
  qed
  ultimately show ?thesis
    using h by (intro exI [of _ h] exI [of _ "map ?pack (by_offset ?pend)"]) simp
qed

theorem asar_parse_covers_witness:
  "\<exists>h order. parse_header asar_ex_decode (\<lambda>_. ()) asar_ex_archive asar_ex_limits = Inr h \<and>
    mset order = mset (asar_ex_files [104]) \<and>
    drop (ph_data_start h) asar_ex_archive = concat (map (pk_bytes \<circ> snd) order)"
  using asar_parse_covers [OF asar_ex_parse] by auto

subsection \<open>The invariant and replacement\<close>

definition archive_bytes :: "AsarArchive \<Rightarrow> nat" where
  "archive_bytes ar = sum_list (map (\<lambda>(p, f). length (pk_bytes f)) (ar_files ar))"

definition archive_tree :: "AsarArchive \<Rightarrow> (string \<times> InputEntry) list \<Rightarrow> bool" where
  "archive_tree ar t \<longleftrightarrow> tree_ok (ar_limits ar) [] 0 t \<and> keys_fit (events [] t) [] \<and>
     counts_fit (ar_limits ar) (events [] t) 0 0 \<and> fst ` set (ar_files ar) = join_path ` leaf_paths t"

definition asar_inv :: "AsarArchive \<Rightarrow> bool" where
  "asar_inv ar \<longleftrightarrow> bt_wf (ar_files ar) \<and> (\<exists>t. archive_tree ar t) \<and>
     (\<forall>(p, f) \<in> set (ar_files ar). length (pk_bytes f) \<le> max_file_bytes (ar_limits ar)) \<and>
     archive_bytes ar \<le> max_total_file_bytes (ar_limits ar) \<and> archive_bytes ar < 2 ^ 64"

lemma sum_list_mset_map: "mset xs = mset ys \<Longrightarrow> sum_list (map g xs) = sum_list (map g ys)"
  for g :: "'a \<Rightarrow> nat"
  by (metis mset_map sum_mset_sum_list)

lemma asar_parse_bytes:
  assumes "tree_fits l t" and "body_ok hex_digest (pend_of t) body"
  shows "sum_list (map (\<lambda>(p, f). length (pk_bytes f)) (map (apsnd (packed_of body)) (pend_of t))) =
    event_bytes (events [] t)"
proof -
  have keys: "keys_fit (events [] t) []"
    using assms(1) by (simp add: tree_fits_def)
  have "sum_list (map (\<lambda>(p, f). length (pk_bytes f)) (map (apsnd (packed_of body)) (pend_of t))) =
      sum_list (map (\<lambda>(p, f). pf_size f) (pend_of t))"
    using assms(2) by (intro arg_cong [where f = sum_list])
      (auto simp: body_ok_def packed_of_def pf_range_length)
  also have "\<dots> = sum_list (map (\<lambda>(p, f). pf_size f) (map (apsnd pending_of) (event_files (events [] t))))"
    by (rule sum_list_mset_map [OF pend_of_mset [OF keys]])
  also have "\<dots> = event_bytes (events [] t)"
    by (simp add: event_bytes_def comp_def split_def pending_of_def)
  finally show ?thesis .
qed

lemma asar_parse_inv:
  assumes "asar_parse from_slice custom hex_digest bs l = Inr ar"
  shows "asar_inv ar" and "ar_limits ar = l"
proof -
  obtain h :: ParsedHeader where fits: "tree_fits l (ph_root h)"
    and ok: "body_ok hex_digest (pend_of (ph_root h)) (drop (ph_data_start h) bs)"
    and ar: "ar = \<lparr>ar_files = map (apsnd (packed_of (drop (ph_data_start h) bs))) (pend_of (ph_root h)),
          ar_limits = l\<rparr>"
    using assms unfolding asar_parse_Inr by blast
  let ?t = "ph_root h" and ?body = "drop (ph_data_start h) bs"
  show "ar_limits ar = l" by (simp add: ar)
  have "archive_tree ar ?t"
    using fits pend_leaf_paths [OF fits] by (simp add: archive_tree_def tree_fits_def ar image_image)
  moreover have "length (pk_bytes f) \<le> max_file_bytes l" if mem: "(p, f) \<in> set (ar_files ar)" for p f
  proof -
    from mem obtain pf where pf: "(p, pf) \<in> set (pend_of ?t)" "f = packed_of ?body pf"
      by (auto simp: ar)
    from pend_leaf [OF fits pf(1)] obtain leaf where "pf = pending_of leaf" "file_ok l leaf" .
    moreover have "length (pf_range ?body pf) = pf_size pf"
      using ok pf(1) by (auto simp: body_ok_def pf_range_length)
    ultimately show ?thesis
      using pf(2) by (simp add: packed_of_def pending_of_def file_ok_def)
  qed
  moreover have "archive_bytes ar \<le> max_total_file_bytes l \<and> archive_bytes ar < 2 ^ 64"
    using asar_parse_bytes [OF fits ok] fits
    by (auto simp: archive_bytes_def ar tree_fits_def sizes_fit_def event_bytes_def)
  moreover have "bt_wf (ar_files ar)"
    by (simp add: ar bt_wf_apsnd pend_of_wf)
  ultimately show "asar_inv ar"
    using \<open>ar_limits ar = l\<close> unfolding asar_inv_def by auto
qed

lemma total_bytes_iff:
  "n < 2 ^ 64 \<Longrightarrow> total_bytes n fs = Some m \<longleftrightarrow>
     m = n + sum_list (map (\<lambda>(p, f). length (pk_bytes f)) fs) \<and> m < 2 ^ 64"
proof (induction fs arbitrary: n)
  case (Cons x fs)
  obtain p f where x: "x = (p, f)" by (cases x)
  show ?case
  proof (cases "n + length (pk_bytes f) < 2 ^ 64")
    case True
    with Cons.IH [of "n + length (pk_bytes f)"] x show ?thesis
      by (auto simp: checked_add_usize_def)
  next
    case False
    then have "\<not> (m = n + sum_list (map (\<lambda>(p, f). length (pk_bytes f)) (x # fs)) \<and> m < 2 ^ 64)"
      using x by auto
    moreover have "total_bytes n (x # fs) = None"
      using False x by (simp add: checked_add_usize_def)
    ultimately show ?thesis by simp
  qed
qed auto

lemma sum_bt_insert:
  "bt_wf m \<Longrightarrow> bt_get m k = Some v \<Longrightarrow>
     sum_list (map (\<lambda>(p, f). g f) (bt_insert k w m)) + g v = sum_list (map (\<lambda>(p, f). g f) m) + (g w :: nat)"
proof (induction k w m rule: bt_insert.induct)
  case (2 k w a b m)
  have "\<not> k < a"
    using "2.prems" by (auto simp: bt_get_def bt_wf_Cons split: if_splits dest!: map_of_SomeD)
  with 2 show ?case
    by (auto simp: bt_get_def bt_wf_Cons split: if_splits)
qed (simp add: bt_get_def)

definition replace_ok :: "AsarArchive \<Rightarrow> string \<Rightarrow> bytes \<Rightarrow> bool" where
  "replace_ok ar p new \<longleftrightarrow> (case asar_file ar p of None \<Rightarrow> False
     | Some old \<Rightarrow> length new \<le> max_file_bytes (ar_limits ar) \<and>
         archive_bytes ar - length old + length new \<le> max_total_file_bytes (ar_limits ar) \<and>
         archive_bytes ar - length old + length new < 2 ^ 64)"

definition replaced :: "AsarArchive \<Rightarrow> string \<Rightarrow> bytes \<Rightarrow> AsarArchive" where
  "replaced ar p new = ar\<lparr>ar_files := bt_insert p ((the (bt_get (ar_files ar) p))\<lparr>pk_bytes := new\<rparr>) (ar_files ar)\<rparr>"

lemma canonical_components_retype:
  "(canonical_components l cs n :: 'a AsarError + unit) = Inr u \<longleftrightarrow>
     (canonical_components l cs n :: 'b AsarError + unit) = Inr u"
  by (induction l cs n rule: canonical_components.induct [where ?'je = unit])
    (auto simp: rbind_Inr_iff validate_member_name_Inr split: if_splits)

definition canonical_ok :: "AsarLimits \<Rightarrow> string \<Rightarrow> bool" where
  "canonical_ok l p \<longleftrightarrow> is_ok (canonical_archive_path p l :: unit AsarError + string)"

lemma canonical_Inr: "(canonical_archive_path p l :: 'je AsarError + _) = Inr q \<longleftrightarrow> q = p \<and> canonical_ok l p"
  using canonical_components_retype [where ?'a = 'je and ?'b = unit, of l "split_on (CHR ''/'') p" 0]
  by (auto simp: canonical_ok_def is_ok_iff canonical_archive_path_def rbind_Inr_iff split: if_splits)

lemma canonical_or_none_eq: "canonical_or_none p l = (if canonical_ok l p then Some p else None)"
  using canonical_Inr [where ?'je = unit, of p l]
  by (cases "canonical_archive_path p l :: unit AsarError + string")
    (auto simp: canonical_or_none_def canonical_ok_def)

lemma asar_file_eq:
  "asar_file ar p = (if canonical_ok (ar_limits ar) p then map_option pk_bytes (bt_get (ar_files ar) p) else None)"
  by (simp add: asar_file_def canonical_or_none_eq)

lemma file_bytes_le: "bt_wf (ar_files ar) \<Longrightarrow> bt_get (ar_files ar) p = Some f \<Longrightarrow> length (pk_bytes f) \<le> archive_bytes ar"
  unfolding archive_bytes_def by (rule member_le_sum_list) (auto simp: bt_get_mem image_iff intro!: bexI [of _ "(p, f)"])

lemma replace_checks_Inr:
  assumes "asar_inv ar"
  shows "(replace_checks ar p new :: 'je AsarError + _) = Inr (q, f) \<longleftrightarrow>
    q = p \<and> bt_get (ar_files ar) p = Some f \<and> replace_ok ar p new"
proof (cases "bt_get (ar_files ar) p")
  case None
  then show ?thesis
    by (auto simp: replace_checks_def rbind_Inr_iff canonical_Inr)
next
  case (Some g)
  have wf: "bt_wf (ar_files ar)" and small: "archive_bytes ar < 2 ^ 64"
    using assms by (simp_all add: asar_inv_def)
  have tot: "total_bytes 0 (ar_files ar) = Some (archive_bytes ar)"
    using small total_bytes_iff [of 0 "ar_files ar" "archive_bytes ar"] by (simp add: archive_bytes_def)
  have le: "length (pk_bytes g) \<le> archive_bytes ar"
    by (rule file_bytes_le [OF wf Some])
  show ?thesis
    by (auto simp: replace_checks_def rbind_Inr_iff canonical_Inr Some tot le checked_sub_usize_def
        checked_add_usize_def replace_ok_def asar_file_eq split: if_splits)
qed

lemma replace_file_exact:
  assumes "asar_inv ar"
  shows "replace_ok ar p new \<Longrightarrow> asar_replace_file ar p new = (Inr () :: 'je AsarError + unit, replaced ar p new)"
    and "\<not> replace_ok ar p new \<Longrightarrow> \<exists>e :: 'je AsarError. asar_replace_file ar p new = (Inl e, ar)"
proof -
  assume ok: "replace_ok ar p new"
  then obtain f where f: "bt_get (ar_files ar) p = Some f"
    by (auto simp: replace_ok_def asar_file_eq split: option.splits if_splits)
  with ok replace_checks_Inr [OF assms, where ?'je = 'je, of p new p f]
  show "asar_replace_file ar p new = (Inr () :: 'je AsarError + unit, replaced ar p new)"
    by (simp add: asar_replace_file_def replaced_def)
next
  assume no: "\<not> replace_ok ar p new"
  then show "\<exists>e :: 'je AsarError. asar_replace_file ar p new = (Inl e, ar)"
    using replace_checks_Inr [OF assms, where ?'je = 'je, of p new]
    by (cases "replace_checks ar p new :: 'je AsarError + _") (auto simp: asar_replace_file_def)
qed

lemma replace_file_snd:
  assumes "asar_inv ar"
  shows "snd (asar_replace_file ar p new :: ('je AsarError + unit) \<times> _) =
    (if replace_ok ar p new then replaced ar p new else ar)"
  using replace_file_exact [OF assms, where ?'je = 'je, of p new] by auto

lemma replaced_inv:
  assumes "asar_inv ar" and "replace_ok ar p new"
  shows "asar_inv (replaced ar p new)" and "asar_file_paths (replaced ar p new) = asar_file_paths ar"
    and "ar_limits (replaced ar p new) = ar_limits ar"
proof -
  obtain f where f: "bt_get (ar_files ar) p = Some f" "length new \<le> max_file_bytes (ar_limits ar)"
    "archive_bytes ar - length (pk_bytes f) + length new \<le> max_total_file_bytes (ar_limits ar)"
    "archive_bytes ar - length (pk_bytes f) + length new < 2 ^ 64"
    using assms(2) by (auto simp: replace_ok_def asar_file_eq split: option.splits if_splits)
  let ?fs = "ar_files ar" and ?new = "f\<lparr>pk_bytes := new\<rparr>"
  have wf: "bt_wf ?fs" using assms(1) by (simp add: asar_inv_def)
  have files: "ar_files (replaced ar p new) = bt_insert p ?new ?fs"
    by (simp add: replaced_def f)
  show lim: "ar_limits (replaced ar p new) = ar_limits ar"
    by (simp add: replaced_def)
  have "p \<in> fst ` set ?fs"
    using f(1) bt_get_None [of ?fs p] by auto
  then have keys: "fst ` set (bt_insert p ?new ?fs) = fst ` set ?fs"
    by (auto simp: set_bt_insert_keys)
  have wf': "bt_wf (bt_insert p ?new ?fs)" using wf by (rule bt.wf_insert)
  show "asar_file_paths (replaced ar p new) = asar_file_paths ar"
    using keys wf wf' unfolding asar_file_paths_def bt_keys_def files
    by (intro strict_sorted_equal) (auto simp: bt_wf_def)
  have "archive_bytes (replaced ar p new) + length (pk_bytes f) = archive_bytes ar + length new"
    using sum_bt_insert [OF wf f(1), of "\<lambda>f. length (pk_bytes f)" ?new] by (simp add: archive_bytes_def files)
  moreover have "length (pk_bytes f) \<le> archive_bytes ar"
    by (rule file_bytes_le [OF wf f(1)])
  ultimately have "archive_bytes (replaced ar p new) = archive_bytes ar - length (pk_bytes f) + length new"
    by simp
  moreover have "archive_tree ar t \<Longrightarrow> archive_tree (replaced ar p new) t" for t
    by (simp add: archive_tree_def lim files keys)
  moreover have "length (pk_bytes g) \<le> max_file_bytes (ar_limits ar)"
    if "(q, g) \<in> set (bt_insert p ?new ?fs)" for q g
  proof -
    have "(if q = p then Some ?new else bt_get ?fs q) = Some g"
      using that bt_get_mem [OF wf', of q g] wf by (simp add: bt_laws split: if_splits)
    then show ?thesis
      using assms(1) f(2) bt_get_mem [OF wf, of q g] by (auto simp: asar_inv_def split: if_splits)
  qed
  ultimately show "asar_inv (replaced ar p new)"
    using assms(1) f(3,4) wf' unfolding asar_inv_def files lim by auto
qed

type_synonym replacement = "string \<times> bytes"

fun asar_replace_step :: "AsarArchive \<Rightarrow> replacement \<Rightarrow> ('je AsarError + unit) \<times> AsarArchive" where
  "asar_replace_step ar (p, new) = asar_replace_file ar p new"

text \<open>The executable flag of every member.\<close>

definition executables :: "AsarArchive \<Rightarrow> string \<Rightarrow> bool option" where
  "executables ar q = map_option pk_executable (bt_get (ar_files ar) q)"

definition replace_inv :: "AsarLimits \<Rightarrow> string list \<Rightarrow> (string \<Rightarrow> bool option) \<Rightarrow> AsarArchive \<Rightarrow> bool" where
  "replace_inv l paths flags ar \<longleftrightarrow> asar_inv ar \<and> ar_limits ar = l \<and> asar_file_paths ar = paths \<and> executables ar = flags"

lemma replaced_get:
  assumes "asar_inv ar" and "bt_get (ar_files ar) p = Some f"
  shows "bt_get (ar_files (replaced ar p new)) q = (if q = p then Some (f\<lparr>pk_bytes := new\<rparr>) else bt_get (ar_files ar) q)"
  using assms by (simp add: replaced_def asar_inv_def bt_laws)

lemma replaced_executables:
  assumes "asar_inv ar" and "replace_ok ar p new"
  shows "executables (replaced ar p new) = executables ar"
proof -
  obtain f where f: "bt_get (ar_files ar) p = Some f"
    using assms(2) by (auto simp: replace_ok_def asar_file_eq split: option.splits if_splits)
  show ?thesis
    by (rule ext) (simp add: executables_def replaced_get [OF assms(1) f] f)
qed

lemma replace_answer:
  assumes "asar_inv ar"
  shows "case (canonical_archive_path p (ar_limits ar) :: 'je AsarError + string) of
       Inl e \<Rightarrow> asar_replace_file ar p new = (Inl e, ar)
     | Inr _ \<Rightarrow>
         if max_file_bytes (ar_limits ar) < length new then asar_replace_file ar p new = (Inl FileTooLarge :: 'je AsarError + unit, ar)
         else (case bt_get (ar_files ar) p of
             None \<Rightarrow> asar_replace_file ar p new = (Inl MemberNotFound :: 'je AsarError + unit, ar)
           | Some f \<Rightarrow>
               if min (max_total_file_bytes (ar_limits ar)) (2 ^ 64 - 1) < archive_bytes ar - length (pk_bytes f) + length new
               then asar_replace_file ar p new = (Inl AggregateTooLarge :: 'je AsarError + unit, ar)
               else asar_replace_file ar p new = (Inr () :: 'je AsarError + unit, replaced ar p new) \<and>
                 (\<forall>q. bt_get (ar_files (replaced ar p new)) q =
                   (if q = p then Some (f\<lparr>pk_bytes := new\<rparr>) else bt_get (ar_files ar) q)))"
proof -
  have wf: "bt_wf (ar_files ar)" and small: "archive_bytes ar < 2 ^ 64"
    using assms by (simp_all add: asar_inv_def)
  have tot: "total_bytes 0 (ar_files ar) = Some (archive_bytes ar)"
    using small total_bytes_iff [of 0 "ar_files ar" "archive_bytes ar"] by (simp add: archive_bytes_def)
  have sub: "checked_sub_usize (archive_bytes ar) (length (pk_bytes f)) = Some (archive_bytes ar - length (pk_bytes f))"
    if "bt_get (ar_files ar) p = Some f" for f
    using file_bytes_le [OF wf that] by (simp add: checked_sub_usize_def)
  show ?thesis
  proof (cases "canonical_archive_path p (ar_limits ar) :: 'je AsarError + string")
    case (Inl e)
    then show ?thesis
      by (simp add: asar_replace_file_def replace_checks_def)
  next
    case (Inr q)
    then have path: "(canonical_archive_path p (ar_limits ar) :: 'je AsarError + string) = Inr p"
      using canonical_Inr [where ?'je = 'je, of p "ar_limits ar" q] by simp
    show ?thesis
    proof (cases "bt_get (ar_files ar) p")
      case None
      then show ?thesis
        by (simp add: path asar_replace_file_def replace_checks_def)
    next
      case (Some f)
      then show ?thesis
        using sub [OF Some] replaced_get [OF assms Some, of new]
        by (auto simp: path asar_replace_file_def replace_checks_def tot checked_add_usize_def replaced_def min_def)
    qed
  qed
qed

interpretation rewriting: transactional_machine
  "asar_replace_step :: AsarArchive \<Rightarrow> replacement \<Rightarrow> ('je AsarError + unit) \<times> AsarArchive"
  "replace_inv l paths flags" for l paths flags
proof unfold_locales
  fix s :: AsarArchive and x :: replacement
  assume inv: "replace_inv l paths flags s"
  obtain p new where x: "x = (p, new)" by (cases x)
  show "replace_inv l paths flags (snd (asar_replace_step s x :: ('je AsarError + unit) \<times> _))"
    using inv replaced_inv [of s p new] replaced_executables [of s p new]
    by (cases "replace_ok s p new") (simp_all add: x replace_inv_def replace_file_snd)
next
  fix s :: AsarArchive and x :: replacement and e
  show "fst (asar_replace_step s x :: ('je AsarError + unit) \<times> _) = Inl e \<Longrightarrow>
      snd (asar_replace_step s x :: ('je AsarError + unit) \<times> _) = s"
    by (cases x) (auto simp: asar_replace_file_def split: sum.splits)
qed

text \<open>
  C38: rewriting stays inside the archive. Whatever replacements are tried on a parsed archive, in
  whatever order, its member list, every member's executable flag and its limits never change, and
  the file and aggregate ceilings keep holding. The answer to one more replacement is exact: the
  error of the path check when the path is not a canonical path within the limits (a listed member
  one level deeper than a lookup allows is refused here); else \<open>FileTooLarge\<close>, \<open>MemberNotFound\<close> or
  \<open>AggregateTooLarge\<close>, in this order, when the new bytes exceed the file ceiling, no member has the
  path, or the new total exceeds the aggregate ceiling; and a refused replacement changes nothing.
  Else it is accepted, and the record of this member has the new bytes and of every other member,
  readable or not, is what it was.
\<close>

theorem asar_rewriting:
  assumes "asar_parse from_slice custom hex_digest bs l = Inr ar0"
    and "ar = run_ops (asar_replace_step :: _ \<Rightarrow> _ \<Rightarrow> ('je AsarError + unit) \<times> _) ar0 ops"
  shows "asar_file_paths ar = asar_file_paths ar0 \<and> ar_limits ar = l \<and>
    (\<forall>q. map_option pk_executable (bt_get (ar_files ar) q) = map_option pk_executable (bt_get (ar_files ar0) q)) \<and>
    archive_bytes ar \<le> max_total_file_bytes l \<and>
    (\<forall>(p, f) \<in> set (ar_files ar). length (pk_bytes f) \<le> max_file_bytes l) \<and>
    (case (canonical_archive_path p l :: 'je AsarError + string) of
       Inl e \<Rightarrow> asar_replace_file ar p new = (Inl e, ar)
     | Inr _ \<Rightarrow>
         if max_file_bytes l < length new then asar_replace_file ar p new = (Inl FileTooLarge :: 'je AsarError + unit, ar)
         else (case bt_get (ar_files ar) p of
             None \<Rightarrow> asar_replace_file ar p new = (Inl MemberNotFound :: 'je AsarError + unit, ar)
           | Some f \<Rightarrow>
               if min (max_total_file_bytes l) (2 ^ 64 - 1) < archive_bytes ar - length (pk_bytes f) + length new
               then asar_replace_file ar p new = (Inl AggregateTooLarge :: 'je AsarError + unit, ar)
               else \<exists>ar'. asar_replace_file ar p new = (Inr () :: 'je AsarError + unit, ar') \<and> ar_limits ar' = l \<and>
                 (\<forall>q. bt_get (ar_files ar') q = (if q = p then Some (f\<lparr>pk_bytes := new\<rparr>) else bt_get (ar_files ar) q))))"
proof -
  have "replace_inv l (asar_file_paths ar0) (executables ar0) ar0"
    using asar_parse_inv [OF assms(1)] by (simp add: replace_inv_def)
  then have inv: "replace_inv l (asar_file_paths ar0) (executables ar0) ar"
    unfolding assms(2) by (rule rewriting.run_inv)
  then have ar: "asar_inv ar" "ar_limits ar = l" "executables ar = executables ar0"
    by (simp_all add: replace_inv_def)
  have lim: "ar_limits (replaced ar p new) = l"
    by (simp add: replaced_def ar(2))
  show ?thesis
  proof (intro conjI)
    show "\<forall>q. map_option pk_executable (bt_get (ar_files ar) q) = map_option pk_executable (bt_get (ar_files ar0) q)"
      using fun_cong [OF ar(3)] by (simp add: executables_def)
  qed (use inv lim replace_answer [where ?'je = 'je, OF ar(1), of p new, unfolded ar(2)] in
      \<open>auto simp: replace_inv_def asar_inv_def split: sum.splits option.splits if_splits\<close>)
qed

lemma asar_ex_rewritten:
  "\<lparr>ar_files = asar_ex_files [7], ar_limits = asar_ex_limits\<rparr> =
    run_ops (asar_replace_step :: _ \<Rightarrow> _ \<Rightarrow> (unit AsarError + unit) \<times> _)
      \<lparr>ar_files = asar_ex_files [104], ar_limits = asar_ex_limits\<rparr> [(''b'', [7])]"
    by (simp add: asar_replace_file_def replace_checks_def canonical_archive_path_def asar_ex_files_def
        asar_ex_limits_def validate_member_name_def member_char_forbidden_def to_ascii_lowercase_def
        ascii_lower_def reserved_stems_def checked_add_usize_def checked_sub_usize_def bt_get_def)

theorem asar_rewriting_witness:
  "\<exists>ar'. asar_replace_file \<lparr>ar_files = asar_ex_files [7], ar_limits = asar_ex_limits\<rparr> ''b'' [8, 9] =
      (Inr () :: unit AsarError + unit, ar') \<and> map_option pk_bytes (bt_get (ar_files ar') ''b'') = Some [8, 9]"
proof -
  have "(canonical_archive_path ''b'' asar_ex_limits :: unit AsarError + string) = Inr ''b''"
    by (simp add: canonical_archive_path_def asar_ex_limits_def validate_member_name_def member_char_forbidden_def
        to_ascii_lowercase_def ascii_lower_def reserved_stems_def checked_add_usize_def)
  with asar_rewriting [OF asar_ex_parse asar_ex_rewritten, of "''b''" "[8, 9]"] show ?thesis
    by (auto simp: asar_ex_files_def asar_ex_limits_def bt_get_def archive_bytes_def)
qed

subsection \<open>The read-only index\<close>

definition ro_state :: "CollectionState \<Rightarrow> ReadOnlyCollectionState" where
  "ro_state st = \<lparr>cs_files = cs_files st, cs_case_keys = cs_case_keys st, cs_entries = cs_entries st,
     cs_path_bytes = cs_path_bytes st, cs_total_file_bytes = cs_total_file_bytes st,
     cs_unpacked_file_count = 0\<rparr>"

lemma ro_register_entry_sim:
  assumes "register_entry l p st = (Inr st' :: 'je AsarError + _)"
  shows "ro_register_entry l p (ro_state st) = (Inr (ro_state st') :: 'je AsarError + _)"
proof -
  from assms have "cs_entries st + 1 \<le> max_entries l" "cs_entries st + 1 < 2 ^ 64"
    "cs_path_bytes st + length p \<le> max_entries l * max_path_bytes l"
    "max_entries l * max_path_bytes l < 2 ^ 64" "\<not> bs_contains (cs_case_keys st) (to_ascii_lowercase p)"
    and st': "st' = note_entry p st"
    by (simp_all add: register_entry_Inr)
  then show ?thesis
    by (simp add: ro_register_entry_def register_entry_def ro_state_def note_entry_def
        checked_add_usize_def checked_mul_usize_def)
qed

lemma ro_collect_file_sim:
  assumes "collect_file l p f st = (Inr st' :: 'je AsarError + _)"
  shows "ro_collect_file l p f (ro_state st) = (Inr (ro_state st') :: 'je AsarError + _)"
proof -
  from assms have ok: "file_ok l f" "cs_total_file_bytes st + unat (if_size f) \<le> max_total_file_bytes l"
    "cs_total_file_bytes st + unat (if_size f) < 2 ^ 64" and st': "st' = note_file p f st"
    by (simp_all add: collect_file_Inr)
  then obtain off i where "Option.bind (if_offset f) parse_usize = Some off" "if_integrity f = Some i"
    by (auto simp: file_ok_def)
  moreover from this have "(parse_offset f :: 'je AsarError + _) = Inr off"
    by (simp add: parse_offset_Inr)
  ultimately show ?thesis
    using ok by (simp add: ro_collect_file_def register_file_size_def ro_state_def st' note_file_def
        pending_of_def file_ok_def checked_add_usize_def Let_def)
qed

lemma collect_ro_list_sim:
  "collect_list l parent d es st = (Inr st' :: 'je AsarError + _) \<Longrightarrow>
     collect_ro_list l parent d es (ro_state st) = (Inr (ro_state st') :: 'je AsarError + _)"
proof (induction parent es arbitrary: d st st' rule: events.induct)
  case (2 parent name child es)
  then obtain st1 st2 where p: "(collect_path l parent name :: 'je AsarError + _) = Inr (child_path parent name)"
    and "register_entry l (child_path parent name) st = (Inr st1 :: 'je AsarError + _)"
    and d: "d + 1 \<le> max_depth l"
    and "collect_list l (child_path parent name) (d + 1) child st1 = (Inr st2 :: 'je AsarError + _)"
    and "collect_list l parent d es st2 = (Inr st' :: 'je AsarError + _)"
    by (auto simp: rbind_Inr_iff enter_directory_Inr collect_path_Inr)
  from p ro_register_entry_sim [OF this(2)] d "2.IH"(1) [OF this(4)] "2.IH"(2) [OF this(5)]
  show ?case by simp
next
  case (3 parent name f es)
  then obtain st1 st2 where p: "(collect_path l parent name :: 'je AsarError + _) = Inr (child_path parent name)"
    and "register_entry l (child_path parent name) st = (Inr st1 :: 'je AsarError + _)"
    and "collect_file l (child_path parent name) f st1 = (Inr st2 :: 'je AsarError + _)"
    and "collect_list l parent d es st2 = (Inr st' :: 'je AsarError + _)"
    by (auto simp: rbind_Inr_iff collect_path_Inr)
  from p ro_register_entry_sim [OF this(2)] ro_collect_file_sim [OF this(3)] "3.IH" [OF this(4)]
  show ?case by simp
qed (auto simp: rbind_Inr_iff split: if_splits)

lemma ro_collection_finish_Inr:
  assumes "bt_wf (cs_files st)" and "start \<le> length archive"
    and "body_ok hex_digest (cs_files st) (drop start archive)"
  shows "ro_collection_finish hex_digest archive start l st = (Inr \<lparr>ri_archive = archive, ri_data_start = start,
    ri_packed_files = map (apsnd indexed_of) (cs_files st),
    ri_unpacked_file_count = cs_unpacked_file_count st, ri_limits = l\<rparr> :: 'je AsarError + _)"
proof -
  have "(check_layout (cs_files st) (drop start archive) :: 'je AsarError + unit) = Inr ()"
    using assms(3) by (simp add: body_ok_def check_layout_ok)
  moreover have "index_files hex_digest (drop start archive) [] (cs_files st) =
      (Inr (map (apsnd indexed_of) (cs_files st)) :: 'je AsarError + _)"
    using index_files_Inr [where ?'je = 'je, of "[]" "cs_files st" hex_digest "drop start archive"] assms
    by (simp add: bt_wf_apsnd body_ok_def)
  moreover have "get_range start (length archive) archive = Some (drop start archive)"
    using assms(2) by (simp add: get_range_end)
  ultimately show ?thesis
    by (simp add: ro_collection_finish_def)
qed

lemma asar_index_parse_of_parse:
  assumes "asar_parse from_slice custom hex_digest bs l = Inr ar"
  obtains h where "parse_header from_slice custom bs l = Inr h" and "tree_fits l (ph_root h)"
    and "ph_data_start h \<le> length bs"
    and "body_ok hex_digest (pend_of (ph_root h)) (drop (ph_data_start h) bs)"
    and "ar = \<lparr>ar_files = map (apsnd (packed_of (drop (ph_data_start h) bs))) (pend_of (ph_root h)), ar_limits = l\<rparr>"
    and "asar_index_parse from_slice custom hex_digest bs l =
      Inr \<lparr>ri_archive = bs, ri_data_start = ph_data_start h,
        ri_packed_files = map (apsnd indexed_of) (pend_of (ph_root h)), ri_unpacked_file_count = 0, ri_limits = l\<rparr>"
proof -
  obtain h where h: "parse_header from_slice custom bs l = Inr h" "tree_fits l (ph_root h)"
      "ph_data_start h \<le> length bs" "body_ok hex_digest (pend_of (ph_root h)) (drop (ph_data_start h) bs)"
      "ar = \<lparr>ar_files = map (apsnd (packed_of (drop (ph_data_start h) bs))) (pend_of (ph_root h)), ar_limits = l\<rparr>"
    and len: "length bs \<le> max_archive_bytes l"
    using assms unfolding asar_parse_Inr by blast
  let ?st = "fold note_event (events [] (ph_root h)) collection_new"
  have files: "cs_files ?st = pend_of (ph_root h)"
    by (simp add: fold_note_files pend_of_def collection_new_def)
  have "collect_entries l (ph_root h) [] 0 collection_new = (Inr ?st :: 'a AsarError + _)"
    using h(2) by (simp add: collect_entries_Inr)
  then have "collect_list l [] 0 (ph_root h) collection_new = (Inr ?st :: 'a AsarError + _)"
    by (simp add: collect_entries_def rbind_Inr_iff)
  from collect_ro_list_sim [OF this]
  have "collect_read_only_entries l (ph_root h) [] 0 ro_collection_new = (Inr (ro_state ?st) :: 'a AsarError + _)"
    by (simp add: collect_read_only_entries_def ro_collection_new_def ro_state_def collection_new_def)
  moreover have "ro_collection_finish hex_digest bs (ph_data_start h) l (ro_state ?st) =
      (Inr \<lparr>ri_archive = bs, ri_data_start = ph_data_start h,
        ri_packed_files = map (apsnd indexed_of) (pend_of (ph_root h)), ri_unpacked_file_count = 0,
        ri_limits = l\<rparr> :: 'a AsarError + _)"
    using ro_collection_finish_Inr [of "ro_state ?st" "ph_data_start h" bs hex_digest l] h(3,4) files
    by (simp add: ro_state_def pend_of_wf)
  ultimately have "asar_index_parse from_slice custom hex_digest bs l =
      Inr \<lparr>ri_archive = bs, ri_data_start = ph_data_start h,
        ri_packed_files = map (apsnd indexed_of) (pend_of (ph_root h)), ri_unpacked_file_count = 0, ri_limits = l\<rparr>"
    using h(1) len by (simp add: asar_index_parse_def)
  with h show thesis by (rule that)
qed

lemma bt_get_apsnd: "bt_get (map (apsnd g) m) k = map_option g (bt_get m k)"
  by (induction m) (auto simp: bt_get_def)

text \<open>
  The two readers agree. An archive the rewriter accepts is accepted by the read-only
  index, which then counts no unpacked file, lists the same paths and returns for every
  path the same answer, although it keeps ranges into the archive instead of copies.
\<close>

theorem asar_index_agrees:
  assumes "asar_parse from_slice custom hex_digest bs l = Inr ar" and "length bs < 2 ^ 64"
  shows "\<exists>ix. asar_index_parse from_slice custom hex_digest bs l = Inr ix \<and> ri_unpacked_file_count ix = 0 \<and>
    bt_keys (ri_packed_files ix) = asar_file_paths ar \<and> (\<forall>p. asar_packed_file ix p = asar_file ar p)"
proof -
  obtain h :: ParsedHeader where h: "tree_fits l (ph_root h)" "ph_data_start h \<le> length bs"
    "body_ok hex_digest (pend_of (ph_root h)) (drop (ph_data_start h) bs)"
    "ar = \<lparr>ar_files = map (apsnd (packed_of (drop (ph_data_start h) bs))) (pend_of (ph_root h)), ar_limits = l\<rparr>"
    and ix: "asar_index_parse from_slice custom hex_digest bs l =
      Inr \<lparr>ri_archive = bs, ri_data_start = ph_data_start h,
        ri_packed_files = map (apsnd indexed_of) (pend_of (ph_root h)), ri_unpacked_file_count = 0, ri_limits = l\<rparr>"
    by (rule asar_index_parse_of_parse [OF assms(1)])
  let ?ix = "\<lparr>ri_archive = bs, ri_data_start = ph_data_start h,
        ri_packed_files = map (apsnd indexed_of) (pend_of (ph_root h)), ri_unpacked_file_count = 0, ri_limits = l\<rparr>"
  have "asar_packed_file ?ix p = asar_file ar p" for p
  proof (cases "bt_get (pend_of (ph_root h)) p")
    case None
    then show ?thesis
      by (simp add: asar_packed_file_def asar_file_eq canonical_or_none_eq h(4) bt_get_apsnd)
  next
    case (Some pf)
    then have "(p, pf) \<in> set (pend_of (ph_root h))"
      by (simp add: bt_get_mem [OF pend_of_wf, symmetric])
    then have fit: "pf_offset pf + pf_size pf \<le> length bs - ph_data_start h"
      using h(3) by (auto simp: body_ok_def)
    then have "get_range (ph_data_start h + pf_offset pf) (ph_data_start h + pf_offset pf + pf_size pf) bs =
        Some (pf_range (drop (ph_data_start h) bs) pf)"
      using h(2) by (simp add: get_range_def pf_range_def slice_def add.commute)
    moreover have "ph_data_start h + pf_offset pf + pf_size pf < 2 ^ 64"
      using fit h(2) assms(2) by linarith
    ultimately show ?thesis
      using Some by (simp add: asar_packed_file_def asar_file_eq canonical_or_none_eq h(4) bt_get_apsnd
          indexed_of_def packed_of_def checked_add_usize_def)
  qed
  moreover have "bt_keys (ri_packed_files ?ix) = asar_file_paths ar"
    by (simp add: asar_file_paths_def bt_keys_def h(4))
  ultimately show ?thesis
    using ix by (intro exI [of _ ?ix]) simp
qed

theorem asar_index_agrees_witness:
  "\<exists>ix. asar_index_parse asar_ex_decode (\<lambda>_. ()) (\<lambda>_. ''00'') asar_ex_archive asar_ex_limits = Inr ix \<and>
    bt_keys (ri_packed_files ix) = [''b'', ''d/a'']"
proof -
  have "length asar_ex_archive < 2 ^ 64"
    by (simp add: asar_ex_archive_def)
  from asar_index_agrees [OF asar_ex_parse this] show ?thesis
    by (auto simp: asar_file_paths_def bt_keys_def asar_ex_files_def)
qed

end
