(* ===== verification/Asar_Roundtrip.thy ===== *)
theory Asar_Roundtrip
  imports Asar_Archive
begin

section \<open>Writing an archive and reading it back\<close>

text \<open>
  \<open>AsarArchive::to_bytes\<close> followed by \<open>parse\<close>. The directory tree is rebuilt by inserting
  one path after the other; \<open>graft\<close> is that insertion on the reader's tree type. The tree
  so built has exactly the archive's files as leaves, hence (theory \<open>Asar_Tree\<close>) the same
  nodes as the tree the archive was parsed from, hence it passes the same checks.
\<close>

subsection \<open>The tree the writer builds\<close>

definition input_file :: "OutputFile \<Rightarrow> InputFile" where
  "input_file f = \<lparr>if_size = of_size f, if_offset = Some (of_offset f), if_executable = of_executable f,
     if_unpacked = False, if_integrity = Some (of_integrity f)\<rparr>"

fun input_of :: "OutputEntry \<Rightarrow> InputEntry"
  and input_of_list :: "(string \<times> OutputEntry) list \<Rightarrow> (string \<times> InputEntry) list" where
  "input_of (OutDirectory m) = InDirectory (input_of_list m)"
| "input_of (OutFile f) = InFile (input_file f)"
| "input_of_list [] = []"
| "input_of_list ((n, e) # m) = (n, input_of e) # input_of_list m"

lemma input_of_list_insert: "input_of_list (bt_insert k e m) = bt_insert k (input_of e) (input_of_list m)"
  by (induction k e m rule: bt_insert.induct) auto

lemma input_of_list_get: "bt_get (input_of_list m) k = map_option input_of (bt_get m k)"
  by (induction m) (auto simp: bt_get_def)

fun graft :: "(string \<times> InputEntry) list \<Rightarrow> string list \<Rightarrow> InputFile \<Rightarrow> (string \<times> InputEntry) list option" where
  "graft m [] f = None"
| "graft m [c] f = (if bt_get m c \<noteq> None then None else Some (bt_insert c (InFile f) m))"
| "graft m (c # cs) f =
     (case bt_get m c of
        None \<Rightarrow> map_option (\<lambda>d. bt_insert c (InDirectory d) m) (graft [] cs f)
      | Some (InDirectory d) \<Rightarrow> map_option (\<lambda>d'. bt_insert c (InDirectory d') m) (graft d cs f)
      | Some _ \<Rightarrow> None)"

lemma insert_graft:
  "(case insert_output_components m cs (OutFile f) :: 'je AsarError + _ of Inl _ \<Rightarrow> None
    | Inr m' \<Rightarrow> Some (input_of_list m')) = graft (input_of_list m) cs (input_file f)"
proof (induction "input_of_list m" cs "input_file f" arbitrary: m rule: graft.induct)
  case (2 c)
  then show ?case by (simp add: input_of_list_get input_of_list_insert)
next
  case (3 c v va)
  show ?case
  proof (cases "bt_get m c")
    case None
    then have g: "bt_get (input_of_list m) c = None" by (simp add: input_of_list_get)
    with None 3(1) [OF g, of "[]", symmetric] show ?thesis
      by (cases "insert_output_components [] (v # va) (OutFile f) :: 'je AsarError + _")
        (simp_all add: input_of_list_insert del: graft.simps(2) insert_output_components.simps(2))
  next
    case (Some e)
    show ?thesis
    proof (cases e)
      case (OutDirectory d)
      then have g: "bt_get (input_of_list m) c = Some (InDirectory (input_of_list d))"
        using Some by (simp add: input_of_list_get)
      with Some OutDirectory 3(2) [OF g, of d, symmetric] show ?thesis
        by (cases "insert_output_components d (v # va) (OutFile f) :: 'je AsarError + _")
          (simp_all add: input_of_list_insert)
    next
      case (OutFile k)
      with Some show ?thesis by (simp add: input_of_list_get)
    qed
  qed
qed simp

fun sub_ok :: "(string \<times> InputEntry) list \<Rightarrow> bool" where
  "sub_ok [] \<longleftrightarrow> True"
| "sub_ok ((n, InDirectory ch) # es) \<longleftrightarrow> ch \<noteq> [] \<and> bt_wf ch \<and> sub_ok ch \<and> sub_ok es"
| "sub_ok ((n, InFile f) # es) \<longleftrightarrow> sub_ok es"
| "sub_ok ((n, InLink k) # es) \<longleftrightarrow> False"

lemma sub_ok_shape: "sub_ok es \<Longrightarrow> shape_ok es"
  by (induction es rule: sub_ok.induct) auto

fun entry_ok :: "InputEntry \<Rightarrow> bool" where
  "entry_ok (InDirectory ch) \<longleftrightarrow> ch \<noteq> [] \<and> bt_wf ch \<and> sub_ok ch"
| "entry_ok (InFile f) \<longleftrightarrow> True"
| "entry_ok (InLink k) \<longleftrightarrow> False"

lemma sub_ok_iff: "sub_ok es \<longleftrightarrow> (\<forall>(n, e) \<in> set es. entry_ok e)"
  by (induction es rule: sub_ok.induct) auto

definition tree_wf :: "(string \<times> InputEntry) list \<Rightarrow> bool" where
  "tree_wf es \<longleftrightarrow> bt_wf es \<and> sub_ok es"

fun at_node :: "InputEntry \<Rightarrow> string list \<Rightarrow> InputFile option \<Rightarrow> bool" where
  "at_node e [] fo \<longleftrightarrow> (case e of InFile f \<Rightarrow> fo = Some f | _ \<Rightarrow> fo = None)"
| "at_node e (c # cs) fo \<longleftrightarrow> (case e of InDirectory ch \<Rightarrow> (c # cs, fo) \<in> set (nodes ch) | _ \<Rightarrow> False)"

lemma nodes_mem: "(n # ds, fo) \<in> set (nodes es) \<longleftrightarrow> (\<exists>e. (n, e) \<in> set es \<and> at_node e ds fo)"
proof (induction es rule: nodes.induct)
  case (2 name child es)
  then show ?case by (cases ds) (auto dest: nodes_ne)
next
  case (3 name f es)
  then show ?case by (cases ds) auto
next
  case (4 name l es)
  then show ?case by (cases ds) auto
qed simp

lemma nodes_get: "bt_wf es \<Longrightarrow> (n # ds, fo) \<in> set (nodes es) \<longleftrightarrow> (\<exists>e. bt_get es n = Some e \<and> at_node e ds fo)"
  by (simp add: nodes_mem bt_get_mem)

lemma tree_wf_insert:
  assumes "tree_wf m" and "entry_ok e"
  shows "tree_wf (bt_insert c e m)" and "bt_insert c e m \<noteq> []"
proof -
  have wf: "bt_wf m" "bt_wf (bt_insert c e m)"
    using assms(1) bt.wf_insert by (auto simp: tree_wf_def)
  have "entry_ok e'" if "(n, e') \<in> set (bt_insert c e m)" for n e'
  proof -
    have "(if n = c then Some e else bt_get m n) = Some e'"
      using that bt_get_mem [OF wf(2), of n e'] wf(1) by (simp add: bt_laws split: if_splits)
    then show ?thesis
      using assms bt_get_mem [OF wf(1), of n e'] by (auto simp: tree_wf_def sub_ok_iff split: if_splits)
  qed
  with wf(2) show "tree_wf (bt_insert c e m)"
    by (auto simp: tree_wf_def sub_ok_iff)
  show "bt_insert c e m \<noteq> []"
    by (cases m) (auto split: if_splits)
qed

lemma tree_wf_get_directory: "tree_wf m \<Longrightarrow> bt_get m c = Some (InDirectory d) \<Longrightarrow> tree_wf d \<and> d \<noteq> []"
  using bt_get_mem [of m c "InDirectory d"] unfolding tree_wf_def sub_ok_iff [of m] by fastforce

lemma tree_wf_Nil: "tree_wf []"
  by (simp add: tree_wf_def bt.wf_empty)

text \<open>Grafting adds one leaf and keeps the others.\<close>

definition grafted :: "(string \<times> InputEntry) list \<Rightarrow> string list \<Rightarrow> InputFile \<Rightarrow> (string \<times> InputEntry) list \<Rightarrow> bool" where
  "grafted m cs f m' \<longleftrightarrow> tree_wf m' \<and> m' \<noteq> [] \<and>
     (\<forall>ds g. (ds, Some g) \<in> set (nodes m') \<longleftrightarrow> (ds, Some g) \<in> set (nodes m) \<or> ds = cs \<and> g = f)"

lemma leaf_insert:
  assumes "bt_wf m" and "\<And>ds g. at_node e ds (Some g) \<longleftrightarrow>
      (case bt_get m c of None \<Rightarrow> False | Some e0 \<Rightarrow> at_node e0 ds (Some g)) \<or> ds = cs \<and> g = f"
  shows "(ds, Some g) \<in> set (nodes (bt_insert c e m)) \<longleftrightarrow> (ds, Some g) \<in> set (nodes m) \<or> ds = c # cs \<and> g = f"
proof (cases ds)
  case Nil
  then show ?thesis by (auto dest: nodes_ne)
next
  case (Cons n rs)
  then show ?thesis
    using assms(1) assms(2) [of rs g] by (auto simp: nodes_get bt_laws split: option.splits)
qed

lemma graft_grafted:
  "tree_wf m \<Longrightarrow> graft m cs f = Some m' \<Longrightarrow> grafted m cs f m'"
proof (induction m cs f arbitrary: m' rule: graft.induct)
  case (2 m c f)
  then have free: "bt_get m c = None" and m': "m' = bt_insert c (InFile f) m"
    by (auto split: if_splits)
  have "at_node (InFile f) ds (Some g) \<longleftrightarrow> ds = [] \<and> g = f" for ds g
    by (cases ds) auto
  then show ?case
    using leaf_insert [of m "InFile f" c "[]" f] tree_wf_insert [OF 2(1), of "InFile f" c] 2(1) free
    by (auto simp: grafted_def m' tree_wf_def)
next
  case (3 m c v va f)
  have wf: "bt_wf m" using "3.prems"(1) by (simp add: tree_wf_def)
  obtain d d' where d: "bt_get m c = None \<and> d = [] \<or> bt_get m c = Some (InDirectory d)"
    and g: "grafted d (v # va) f d'" and m': "m' = bt_insert c (InDirectory d') m"
  proof (cases "bt_get m c")
    case None
    with "3.prems"(2) obtain d' where "graft [] (v # va) f = Some d'" "m' = bt_insert c (InDirectory d') m"
      by auto
    with "3.IH"(1) [OF None tree_wf_Nil] None that [of "[]" d'] show thesis by blast
  next
    case (Some e)
    with "3.prems"(2) obtain d d' where e: "e = InDirectory d" "graft d (v # va) f = Some d'"
      "m' = bt_insert c (InDirectory d') m"
      by (auto split: InputEntry.splits)
    with "3.IH"(2) [OF Some [unfolded e(1)]] tree_wf_get_directory [OF "3.prems"(1)] Some that [of d d'] show thesis
      by blast
  qed
  have "entry_ok (InDirectory d')"
    using g by (simp add: grafted_def tree_wf_def)
  moreover have "at_node (InDirectory d') ds (Some h) \<longleftrightarrow>
      (case bt_get m c of None \<Rightarrow> False | Some e0 \<Rightarrow> at_node e0 ds (Some h)) \<or> ds = v # va \<and> h = f" for ds h
    using d g by (cases ds) (auto simp: grafted_def)
  ultimately show ?case
    using leaf_insert [OF wf, of "InDirectory d'" c "v # va" f] tree_wf_insert [OF "3.prems"(1), of "InDirectory d'" c]
    by (simp add: grafted_def m')
qed simp

lemma graft_succeeds:
  "tree_wf m \<Longrightarrow> cs \<noteq> [] \<Longrightarrow> (\<And>ls g. (ls, Some g) \<in> set (nodes m) \<Longrightarrow> \<not> prefix ls cs \<and> \<not> prefix cs ls) \<Longrightarrow>
     graft m cs f \<noteq> None"
proof (induction m cs f rule: graft.induct)
  case (2 m c f)
  have "bt_get m c = None"
  proof (rule ccontr)
    assume "bt_get m c \<noteq> None"
    then obtain e where e: "bt_get m c = Some e" by auto
    have wf: "bt_wf m" and "entry_ok e"
      using "2.prems"(1) bt_get_mem [of m c e] e by (auto simp: tree_wf_def sub_ok_iff)
    then obtain ls g where "(c # ls, Some g) \<in> set (nodes m)"
    proof (cases e)
      case (InDirectory ch)
      with \<open>entry_ok e\<close> have "shape_ok ch \<and> ch \<noteq> []"
        using sub_ok_shape by simp
      then obtain ls g where "(ls, Some g) \<in> set (nodes ch)"
        using shape_ok_leaf [of ch] by (auto simp: leaf_paths_def)
      with e InDirectory nodes_ne [of ls "Some g" ch] that [of ls g] show thesis
        by (cases ls) (auto simp: nodes_get [OF wf])
    next
      case (InFile k)
      with e that [of "[]" k] show thesis by (simp add: nodes_get [OF wf])
    qed simp
    with "2.prems"(3) show False by fastforce
  qed
  then show ?case by simp
next
  case (3 m c v va f)
  have wf: "bt_wf m" using "3.prems"(1) by (simp add: tree_wf_def)
  show ?case
  proof (cases "bt_get m c")
    case None
    with "3.IH"(1) [OF None tree_wf_Nil] show ?thesis by simp
  next
    case (Some e)
    show ?thesis
    proof (cases e)
      case (InDirectory d)
      have "\<not> prefix ls (v # va) \<and> \<not> prefix (v # va) ls" if "(ls, Some g) \<in> set (nodes d)" for ls g
      proof -
        have "(c # ls, Some g) \<in> set (nodes m)"
          using that Some InDirectory nodes_ne [OF that] by (cases ls) (auto simp: nodes_get [OF wf])
        from "3.prems"(3) [OF this] show ?thesis by simp
      qed
      with "3.IH"(2) [OF Some [unfolded InDirectory]] tree_wf_get_directory [OF "3.prems"(1)] Some InDirectory
      show ?thesis by auto
    next
      case (InFile k)
      then have "([c], Some k) \<in> set (nodes m)"
        using Some by (simp add: nodes_get [OF wf])
      from "3.prems"(3) [OF this] show ?thesis by simp
    next
      case (InLink k)
      with "3.prems"(1) Some bt_get_mem [OF wf, of c e] show ?thesis
        by (auto simp: tree_wf_def sub_ok_iff)
    qed
  qed
qed simp

subsection \<open>Emission\<close>

definition out_file :: "(bytes \<Rightarrow> string) \<Rightarrow> nat \<Rightarrow> PackedFile \<Rightarrow> OutputFile" where
  "out_file hex_digest off f = \<lparr>of_size = of_nat (length (pk_bytes f)), of_offset = nat_to_string off,
     of_executable = pk_executable f, of_integrity = integrity_for_bytes hex_digest (pk_bytes f)\<rparr>"

fun bytes_of :: "(string \<times> PackedFile) list \<Rightarrow> bytes" where
  "bytes_of [] = []"
| "bytes_of ((p, f) # fs) = pk_bytes f @ bytes_of fs"

fun emitted :: "(bytes \<Rightarrow> string) \<Rightarrow> nat \<Rightarrow> (string \<times> PackedFile) list \<Rightarrow> (string \<times> InputFile) list" where
  "emitted hex_digest off [] = []"
| "emitted hex_digest off ((p, f) # fs) =
     (p, input_file (out_file hex_digest off f)) # emitted hex_digest (off + length (pk_bytes f)) fs"

definition fold_graft ::
    "(string \<times> InputFile) list \<Rightarrow> (string \<times> InputEntry) list option \<Rightarrow> (string \<times> InputEntry) list option" where
  "fold_graft es m = fold (\<lambda>(p, f) m. Option.bind m (\<lambda>t. graft t (split_on (CHR ''/'') p) f)) es m"

lemma fold_graft_simps [simp]:
  "fold_graft [] m = m" "fold_graft ((p, f) # es) (Some t) = fold_graft es (graft t (split_on (CHR ''/'') p) f)"
  "fold_graft es None = None"
proof -
  show "fold_graft es None = None"
    by (induction es) (auto simp: fold_graft_def)
qed (simp_all add: fold_graft_def)

lemma emit_files_graft:
  assumes "\<forall>(p, f) \<in> set fs. length (pk_bytes f) < 2 ^ 64"
  shows "(case emit_files hex_digest fs root body :: 'je AsarError + _ of Inl _ \<Rightarrow> None
      | Inr (root', body') \<Rightarrow> Some (input_of_list root', body')) =
    map_option (\<lambda>t. (t, body @ bytes_of fs))
      (fold_graft (emitted hex_digest (length body) fs) (Some (input_of_list root)))"
  using assms
proof (induction fs arbitrary: root body)
  case (Cons x fs)
  obtain p f where x: "x = (p, f)" by (cases x)
  let ?cs = "split_on (CHR ''/'') p" and ?o = "out_file hex_digest (length body) f"
  have IH: "(case emit_files hex_digest fs root' (body @ pk_bytes f) :: 'je AsarError + _ of Inl _ \<Rightarrow> None
      | Inr (root', body') \<Rightarrow> Some (input_of_list root', body')) =
    map_option (\<lambda>t. (t, (body @ pk_bytes f) @ bytes_of fs))
      (fold_graft (emitted hex_digest (length (body @ pk_bytes f)) fs) (Some (input_of_list root')))" for root'
    by (rule Cons.IH) (use Cons.prems in simp)
  have ins: "(case insert_output_components root ?cs (OutFile ?o) :: 'je AsarError + _ of Inl _ \<Rightarrow> None
    | Inr m' \<Rightarrow> Some (input_of_list m')) = graft (input_of_list root) ?cs (input_file ?o)"
    by (rule insert_graft)
  have small: "length (pk_bytes f) < 2 ^ 64"
    using Cons.prems x by simp
  show ?case
  proof (cases "insert_output_components root ?cs (OutFile ?o) :: 'je AsarError + _")
    case (Inl e)
    then show ?thesis
      using ins small by (simp add: x insert_output_entry_def out_file_def [symmetric])
  next
    case (Inr root')
    then have "graft (input_of_list root) ?cs (input_file ?o) = Some (input_of_list root')"
      using ins by simp
    then show ?thesis
      using Inr IH [of root'] small by (simp add: x insert_output_entry_def out_file_def [symmetric])
  qed
qed simp

lemma fold_graft_Some:
  "tree_wf t \<Longrightarrow> fold_graft es (Some t) = Some t' \<Longrightarrow>
     tree_wf t' \<and> (\<forall>ds g. (ds, Some g) \<in> set (nodes t') \<longleftrightarrow>
       (ds, Some g) \<in> set (nodes t) \<or> (\<exists>p. (p, g) \<in> set es \<and> ds = split_on (CHR ''/'') p))"
proof (induction es arbitrary: t)
  case (Cons x es)
  obtain p f where x: "x = (p, f)" by (cases x)
  with Cons.prems(2) obtain t1 where t1: "graft t (split_on (CHR ''/'') p) f = Some t1"
    "fold_graft es (Some t1) = Some t'"
    by (cases "graft t (split_on (CHR ''/'') p) f") auto
  have g: "grafted t (split_on (CHR ''/'') p) f t1"
    by (rule graft_grafted [OF Cons.prems(1) t1(1)])
  with Cons.IH [OF _ t1(2)] show ?case
    by (auto simp: grafted_def x)
qed simp

lemma fold_graft_succeeds:
  assumes "tree_wf t"
    and "\<forall>ls g p f. (ls, Some g) \<in> set (nodes t) \<and> (p, f) \<in> set es \<longrightarrow>
      \<not> prefix ls (split_on (CHR ''/'') p) \<and> \<not> prefix (split_on (CHR ''/'') p) ls"
    and "distinct (map fst es)"
    and "\<forall>p \<in> fst ` set es. \<forall>q \<in> fst ` set es. p \<noteq> q \<longrightarrow>
      \<not> prefix (split_on (CHR ''/'') p) (split_on (CHR ''/'') q)"
  shows "fold_graft es (Some t) \<noteq> None"
  using assms
proof (induction es arbitrary: t)
  case (Cons x es)
  obtain p f where x: "x = (p, f)" by (cases x)
  let ?cs = "split_on (CHR ''/'') p"
  have "graft t ?cs f \<noteq> None"
    using Cons.prems(2) x by (intro graft_succeeds [OF Cons.prems(1) split_on_ne]) auto
  then obtain t1 where t1: "graft t ?cs f = Some t1" by auto
  have g: "grafted t ?cs f t1"
    by (rule graft_grafted [OF Cons.prems(1) t1])
  have "fold_graft es (Some t1) \<noteq> None"
  proof (rule Cons.IH)
    show "tree_wf t1" using g by (simp add: grafted_def)
    show "distinct (map fst es)" using Cons.prems(3) by simp
    show "\<forall>ls g p f. (ls, Some g) \<in> set (nodes t1) \<and> (p, f) \<in> set es \<longrightarrow>
      \<not> prefix ls (split_on (CHR ''/'') p) \<and> \<not> prefix (split_on (CHR ''/'') p) ls"
    proof (intro allI impI)
      fix ls h q k
      assume a: "(ls, Some h) \<in> set (nodes t1) \<and> (q, k) \<in> set es"
      then have "(ls, Some h) \<in> set (nodes t) \<or> ls = ?cs"
        using g by (auto simp: grafted_def)
      moreover have "q \<noteq> p" "p \<in> fst ` set (x # es)" "q \<in> fst ` set (x # es)"
        using a Cons.prems(3) x by force+
      then have "\<not> prefix ?cs (split_on (CHR ''/'') q) \<and> \<not> prefix (split_on (CHR ''/'') q) ?cs"
        using Cons.prems(4) by metis
      moreover have "(q, k) \<in> set (x # es)" using a by simp
      ultimately show "\<not> prefix ls (split_on (CHR ''/'') q) \<and> \<not> prefix (split_on (CHR ''/'') q) ls"
        using Cons.prems(2) by blast
    qed
    show "\<forall>p \<in> fst ` set es. \<forall>q \<in> fst ` set es. p \<noteq> q \<longrightarrow>
      \<not> prefix (split_on (CHR ''/'') p) (split_on (CHR ''/'') q)"
      using Cons.prems(4) by simp
  qed
  then show ?case by (simp add: x t1)
qed simp

subsection \<open>The rebuilt tree passes the checks\<close>

lemma sub_ok_names: "bt_wf es \<Longrightarrow> sub_ok es \<Longrightarrow> names_distinct es"
  by (induction es rule: sub_ok.induct) (force simp: bt_wf_Cons)+

lemma tree_wf_nodes: "tree_wf o' \<Longrightarrow> shape_ok o' \<and> distinct (map fst (nodes o'))"
  by (simp add: tree_wf_def sub_ok_shape sub_ok_names nodes_distinct)

text \<open>Two trees with the same files, one of which passes the checks.\<close>

lemma same_leaves_nodes:
  assumes "shape_ok t" and "shape_ok o'" and "leaf_paths o' = leaf_paths t"
    and "distinct (map fst (nodes t))" and "distinct (map fst (nodes o'))"
  shows "fst ` set (nodes o') = fst ` set (nodes t)" and "length (nodes o') = length (nodes t)"
proof -
  show eq: "fst ` set (nodes o') = fst ` set (nodes t)"
    using nodes_closure [OF assms(1)] nodes_closure [OF assms(2)] assms(3) by simp
  have "length (map fst (nodes o')) = length (map fst (nodes t))"
    using assms(4,5) eq by (metis distinct_card set_map)
  then show "length (nodes o') = length (nodes t)" by simp
qed

lemma tree_keys_distinct:
  assumes "tree_ok l [] 0 t" and "keys_fit (events [] t) []"
  shows "distinct (map fst (nodes t))" and "inj_on (to_ascii_lowercase \<circ> join_path) (fst ` set (nodes t))"
proof -
  have d: "distinct (map ((to_ascii_lowercase \<circ> join_path) \<circ> fst) (nodes t))"
    using assms(2) by (simp add: keys_fit_def tree_events [OF assms(1)] comp_def)
  then show "distinct (map fst (nodes t))"
    by (auto simp: distinct_map dest: inj_on_imageI2)
  show "inj_on (to_ascii_lowercase \<circ> join_path) (fst ` set (nodes t))"
    using d by (auto simp: distinct_map intro: inj_on_imageI)
qed

lemma same_leaves_tree_ok:
  assumes "tree_ok l [] 0 t" and "distinct (map fst (nodes t))"
    and "shape_ok o'" and "leaf_paths o' = leaf_paths t"
  shows "tree_ok l [] 0 o'"
  unfolding tree_ok_nodes
proof (intro conjI ballI)
  show "shape_ok o'" by (rule assms(3))
  fix n
  assume n: "n \<in> set (nodes o')"
  obtain cs fo where cs: "n = (cs, fo)" by (cases n)
  have shape: "shape_ok t" and ok: "\<And>m. m \<in> set (nodes t) \<Longrightarrow> node_ok l [] 0 m"
    using assms(1) by (simp_all add: tree_ok_nodes)
  have "cs \<in> fst ` set (nodes t)"
  proof -
    have "cs \<in> fst ` set (nodes o')"
      using n cs by (metis fst_conv image_eqI)
    then show ?thesis
      unfolding nodes_closure [OF shape] nodes_closure [OF assms(3)] assms(4) .
  qed
  then obtain fo' where fo': "(cs, fo') \<in> set (nodes t)" by auto
  have "0 + length cs \<le> max_depth l" if "fo = None"
  proof -
    from n cs that node_has_leaf [OF assms(3), of cs None] obtain ls where
      "ls \<in> leaf_paths t" "strict_prefix cs ls"
      unfolding assms(4) by blast
    then obtain f where "(ls, Some f) \<in> set (nodes t)" "strict_prefix cs ls"
      by (auto simp: leaf_paths_def)
    then have "(cs, None) \<in> set (nodes t)"
      using leaf_prefix_node [of ls f t cs] nodes_ne [OF fo'] by blast
    from ok [OF this] show ?thesis by (simp add: node_ok_def)
  qed
  with ok [OF fo'] show "node_ok l [] 0 n"
    by (simp add: node_ok_def cs)
qed

lemma path_total_le:
  "(\<And>p fo. (p, fo) \<in> set evs \<Longrightarrow> length p \<le> k) \<Longrightarrow> path_total evs \<le> length evs * k"
proof (induction evs)
  case (Cons ev evs)
  obtain p fo where "ev = (p, fo)" by (cases ev)
  with Cons show ?case by fastforce
qed simp

lemma same_leaves_fits:
  assumes "tree_ok l [] 0 t" and "keys_fit (events [] t) []" and "counts_fit l (events [] t) 0 0"
    and "tree_wf o'" and "leaf_paths o' = leaf_paths t"
  shows "tree_ok l [] 0 o'" and "keys_fit (events [] o') []" and "counts_fit l (events [] o') 0 0"
proof -
  have shape: "shape_ok t" using assms(1) by (simp add: tree_ok_nodes)
  note d = tree_keys_distinct [OF assms(1,2)]
  have o: "shape_ok o'" "distinct (map fst (nodes o'))"
    using tree_wf_nodes [OF assms(4)] by simp_all
  note same = same_leaves_nodes [OF shape o(1) assms(5) d(1) o(2)]
  show ok: "tree_ok l [] 0 o'"
    by (rule same_leaves_tree_ok [OF assms(1) d(1) o(1) assms(5)])
  have "distinct (map (to_ascii_lowercase \<circ> join_path) (map fst (nodes o')))"
    using d(2) same(1) o(2) by (subst distinct_map) simp
  then show "keys_fit (events [] o') []"
    by (simp add: keys_fit_def tree_events [OF ok] comp_def)
  have "length p \<le> max_path_bytes l" if ev: "(p, fo) \<in> set (events [] o')" for p fo
  proof -
    from ev obtain cs where cs: "(cs, fo) \<in> set (nodes o')" "p = foldl child_path [] cs"
      by (auto simp: events_nodes)
    with ok show ?thesis by (force simp: tree_ok_nodes node_ok_def)
  qed
  then have "path_total (events [] o') \<le> length (events [] o') * max_path_bytes l"
    by (rule path_total_le)
  moreover have len: "length (events [] o') = length (events [] t)"
    using same(2) by (simp add: events_nodes)
  moreover from assms(3) have "events [] t = [] \<or> length (events [] t) \<le> max_entries l \<and>
      length (events [] t) < 2 ^ 64 \<and> max_entries l * max_path_bytes l < 2 ^ 64"
    by (auto simp: counts_fit_def)
  moreover have "length (events [] o') * max_path_bytes l \<le> max_entries l * max_path_bytes l"
    if "length (events [] o') \<le> max_entries l"
    using that by (rule mult_le_mono1)
  ultimately show "counts_fit l (events [] o') 0 0"
    unfolding counts_fit_def by (cases "events [] t = []") (auto intro: le_trans)
qed

subsection \<open>The emitted layout\<close>

definition emit_pend :: "(bytes \<Rightarrow> string) \<Rightarrow> nat \<Rightarrow> (string \<times> PackedFile) list \<Rightarrow> (string \<times> PendingFile) list" where
  "emit_pend hex_digest off fs = map (apsnd pending_of) (emitted hex_digest off fs)"

lemma emitted_fst: "map fst (emitted hex_digest off fs) = map fst fs"
  by (induction fs arbitrary: off) auto

lemma emit_pend_fst: "map fst (emit_pend hex_digest off fs) = map fst fs"
  by (simp add: emit_pend_def emitted_fst)

lemma emit_pend_simps:
  "emit_pend hex_digest off [] = []"
  "off < 2 ^ 64 \<Longrightarrow> length (pk_bytes f) < 2 ^ 64 \<Longrightarrow>
     emit_pend hex_digest off ((p, f) # fs) =
       (p, \<lparr>pf_offset = off, pf_size = length (pk_bytes f), pf_executable = pk_executable f,
          pf_integrity = integrity_for_bytes hex_digest (pk_bytes f)\<rparr>) #
       emit_pend hex_digest (off + length (pk_bytes f)) fs"
  by (simp_all add: emit_pend_def pending_of_def input_file_def out_file_def parse_nat_to_string unat_of_nat)

lemma emit_file_ok:
  "off + length (bytes_of fs) < 2 ^ 64 \<Longrightarrow> (p, g) \<in> set (emitted hex_digest off fs) \<Longrightarrow>
     \<forall>(q, f) \<in> set fs. length (pk_bytes f) \<le> max_file_bytes l \<Longrightarrow> file_ok l g"
proof (induction fs arbitrary: off)
  case (Cons x fs)
  obtain q f where x: "x = (q, f)" by (cases x)
  have "off < 2 ^ 64" "length (pk_bytes f) < 2 ^ 64"
    using Cons.prems(1) x by simp_all
  then have "file_ok l (input_file (out_file hex_digest off f))"
    using Cons.prems(3) x by (simp add: file_ok_def input_file_def out_file_def parse_nat_to_string unat_of_nat)
  moreover have "off + length (pk_bytes f) + length (bytes_of fs) < 2 ^ 64"
    using Cons.prems(1) x by simp
  ultimately show ?case
    using Cons x by auto
qed simp

lemma emit_sizes:
  "length (bytes_of fs) < 2 ^ 64 \<Longrightarrow>
     sum_list (map (\<lambda>(p, f). unat (if_size f)) (emitted hex_digest off fs)) = length (bytes_of fs)"
proof (induction fs arbitrary: off)
  case (Cons x fs)
  then show ?case
    by (cases x) (auto simp: input_file_def out_file_def unat_of_nat)
qed simp

lemma emit_layout:
  "off + length (bytes_of fs) < 2 ^ 64 \<Longrightarrow>
     layout_cursor (emit_pend hex_digest off fs) off = (Inr (off + length (bytes_of fs)) :: 'je AsarError + nat)"
proof (induction fs arbitrary: off)
  case (Cons x fs)
  then show ?case
    by (cases x) (auto simp: emit_pend_simps rbind_Inr_iff add.assoc)
qed (simp add: emit_pend_simps)

lemma emit_offset_ge:
  "off + length (bytes_of fs) < 2 ^ 64 \<Longrightarrow> (p, f) \<in> set (emit_pend hex_digest off fs) \<Longrightarrow> off \<le> pf_offset f"
proof (induction fs arbitrary: off)
  case (Cons x fs)
  obtain q g where x: "x = (q, g)" by (cases x)
  have "off < 2 ^ 64" "length (pk_bytes g) < 2 ^ 64"
    using Cons.prems(1) x by simp_all
  moreover have "off + length (pk_bytes g) + length (bytes_of fs) < 2 ^ 64"
    using Cons.prems(1) x by simp
  ultimately show ?case
    using Cons.IH [of "off + length (pk_bytes g)"] Cons.prems(2) x by (auto simp: emit_pend_simps)
qed (simp add: emit_pend_simps)

lemma emit_sorted:
  "off + length (bytes_of fs) < 2 ^ 64 \<Longrightarrow> bt_wf fs \<Longrightarrow>
     sorted (map (\<lambda>(p, f). (pf_offset f, p)) (emit_pend hex_digest off fs))"
proof (induction fs arbitrary: off)
  case (Cons x fs)
  obtain q g where x: "x = (q, g)" by (cases x)
  let ?tl = "emit_pend hex_digest (off + length (pk_bytes g)) fs"
  have b: "off < 2 ^ 64" "length (pk_bytes g) < 2 ^ 64" "off + length (pk_bytes g) + length (bytes_of fs) < 2 ^ 64"
    using Cons.prems(1) x by simp_all
  have "(off, q) \<le> (pf_offset f, p)" if m: "(p, f) \<in> set ?tl" for p f
  proof -
    have "p \<in> set (map fst ?tl)"
      using m by force
    then have "q < p"
      using Cons.prems(2) x by (auto simp: emit_pend_fst bt_wf_Cons)
    with emit_offset_ge [OF b(3) m] show ?thesis by (simp add: less_imp_le)
  qed
  with Cons.IH [OF b(3)] Cons.prems(2) b x show ?case
    by (auto simp: emit_pend_simps bt_wf_Cons)
qed (simp add: emit_pend_simps)

lemma emit_ranges:
  "length pre + length (bytes_of fs) < 2 ^ 64 \<Longrightarrow> body = pre @ bytes_of fs @ suf \<Longrightarrow>
     map (apsnd (packed_of body)) (emit_pend hex_digest (length pre) fs) = fs \<and>
     (\<forall>(p, f) \<in> set (emit_pend hex_digest (length pre) fs).
        pf_offset f + pf_size f \<le> length body \<and> pf_offset f + pf_size f < 2 ^ 64 \<and>
        integrity_matches hex_digest (pf_range body f) (pf_integrity f))"
proof (induction fs arbitrary: pre)
  case (Cons x fs)
  obtain q g where x: "x = (q, g)" by (cases x)
  have b: "length pre < 2 ^ 64" "length (pk_bytes g) < 2 ^ 64"
    "length (pre @ pk_bytes g) + length (bytes_of fs) < 2 ^ 64"
    using Cons.prems(1) x by simp_all
  have body: "body = (pre @ pk_bytes g) @ bytes_of fs @ suf"
    using Cons.prems(2) x by simp
  have "slice (length pre) (length pre + length (pk_bytes g)) body = pk_bytes g"
    by (simp add: body slice_def)
  with Cons.IH [OF b(3) body] b x body show ?case
    by (auto simp: emit_pend_simps packed_of_def pf_range_def integrity_matches_def)
qed (simp add: emit_pend_simps)

lemma emit_body_ok:
  assumes "bt_wf fs" and "length (bytes_of fs) < 2 ^ 64"
  shows "body_ok hex_digest (emit_pend hex_digest 0 fs) (bytes_of fs)"
    and "map (apsnd (packed_of (bytes_of fs))) (emit_pend hex_digest 0 fs) = fs"
proof -
  have "by_offset (emit_pend hex_digest 0 fs) = emit_pend hex_digest 0 fs"
    unfolding by_offset_def by (rule sort_key_id_if_sorted) (rule emit_sorted, use assms in simp_all)
  then have "is_ok (check_layout (emit_pend hex_digest 0 fs) (bytes_of fs) :: unit AsarError + unit)"
    using emit_layout [where ?'je = unit, of 0 fs hex_digest] assms(2) by (simp add: check_layout_def)
  with emit_ranges [of "[]" fs "bytes_of fs" "[]" hex_digest] assms(2)
  show "body_ok hex_digest (emit_pend hex_digest 0 fs) (bytes_of fs)"
    and "map (apsnd (packed_of (bytes_of fs))) (emit_pend hex_digest 0 fs) = fs"
    by (simp_all add: body_ok_def)
qed

subsection \<open>The header\<close>

lemma unique_files_sorted: "bt_wf (acc @ es) \<Longrightarrow> unique_files custom acc es = Inr (acc @ es)"
proof (induction custom acc es rule: unique_files.induct)
  case (2 custom files name entry es)
  have less: "\<forall>x \<in> fst ` set files. x < name"
    using 2(2) by (rule bt_wf_append_less)
  then have "bt_get files name = None" "bt_insert name entry files = files @ [(name, entry)]"
    by (auto simp: bt_get_None bt_insert_last)
  with 2 show ?case by simp
qed simp

lemma resolve_sorted:
  "entry_ok e \<Longrightarrow> resolve_entry custom e = Inr e"
  "sub_ok es \<Longrightarrow> resolve_entries custom es = Inr es"
proof (induction custom e and custom es rule: resolve_entry_resolve_entries.induct)
  case (1 custom es)
  then show ?case using unique_files_sorted [of "[]" es custom] by simp
next
  case (5 custom name e es)
  then show ?case by (cases e) auto
qed simp_all

lemma pad4_eq: "\<exists>k < 4. pad4 json = json @ replicate k 0 \<and> length (pad4 json) mod 4 = 0"
proof (induction json rule: pad4.induct)
  case (1 json)
  show ?case
  proof (cases "length json mod 4 = 0")
    case True
    then show ?thesis by (intro exI [of _ 0]) (simp add: pad4.simps [of json])
  next
    case False
    with 1 obtain k where k: "k < 4" "pad4 (json @ [0]) = (json @ [0]) @ replicate k 0"
      "length (pad4 (json @ [0])) mod 4 = 0"
      by auto
    have "k \<noteq> 3"
    proof
      assume "k = 3"
      with k(2,3) have "(length json + 4) mod 4 = 0" by simp
      with False show False by simp
    qed
    with k False show ?thesis
      by (intro exI [of _ "Suc k"]) (simp add: pad4.simps [of json] replicate_app_Cons_same)
  qed
qed

lemma read_u32_at:
  "length pre < 2 ^ 32 \<Longrightarrow> read_u32 (pre @ to_le 4 (unat w) @ suf) (length pre) = Inr (w :: u32)"
  using to_le_word_inverse [of 4 w]
  by (simp add: read_u32_def checked_add_usize_def get_range_def slice_def)

lemma parse_header_written:
  assumes "json_size = of_nat (length json)" and "length json < 2 ^ 32"
    and "padded_size = (of_nat (length (pad4 json)) :: u32)" and "length (pad4 json) < 2 ^ 32"
    and "checked_add padded_size 8 = Some outer" and "checked_add padded_size 4 = Some inner"
    and "decode_root from_slice custom json = Inr root"
    and out: "out = to_le 4 (unat ASAR_MAGIC) @ to_le 4 (unat outer) @ to_le 4 (unat inner) @
      to_le 4 (unat (json_size :: u32)) @ pad4 json @ body"
  shows "parse_header from_slice custom out l =
    (if 16 + length (pad4 json) \<le> max_header_bytes l
     then Inr \<lparr>ph_root = root, ph_data_start = 16 + length (pad4 json)\<rparr> else Inl HeaderTooLarge)"
proof -
  obtain k where k: "pad4 json = json @ replicate k 0" "length (pad4 json) mod 4 = 0"
    using pad4_eq [of json] by auto
  have r: "read_u32 out 0 = (Inr ASAR_MAGIC :: 'a AsarError + _)" "read_u32 out 4 = (Inr outer :: 'a AsarError + _)"
    "read_u32 out 8 = (Inr inner :: 'a AsarError + _)" "read_u32 out 12 = (Inr json_size :: 'a AsarError + _)"
    using read_u32_at [where ?'a = 'a, of "[]" ASAR_MAGIC
        "to_le 4 (unat outer) @ to_le 4 (unat inner) @ to_le 4 (unat json_size) @ pad4 json @ body"]
      read_u32_at [where ?'a = 'a, of "to_le 4 (unat ASAR_MAGIC)" outer
        "to_le 4 (unat inner) @ to_le 4 (unat json_size) @ pad4 json @ body"]
      read_u32_at [where ?'a = 'a, of "to_le 4 (unat ASAR_MAGIC) @ to_le 4 (unat outer)" inner
        "to_le 4 (unat json_size) @ pad4 json @ body"]
      read_u32_at [where ?'a = 'a, of "to_le 4 (unat ASAR_MAGIC) @ to_le 4 (unat outer) @ to_le 4 (unat inner)"
        json_size "pad4 json @ body"]
    by (simp_all add: out)
  have u: "unat padded_size = length (pad4 json)" "unat json_size = length json"
    using assms(1-4) by (simp_all add: unat_of_nat)
  have inner: "unat inner = length (pad4 json) + 4" "inner = padded_size + 4" "outer = padded_size + 8"
    using checked_add_unat [OF assms(6)] assms(5,6) u by (simp_all add: checked_add_Some_iff)
  have "checked_add inner 4 = Some outer"
    using checked_add_unat [OF assms(5)] inner u assms(5) by (simp add: checked_add_Some_iff)
  then have sat: "saturating_add inner 4 = outer"
    by (simp add: saturating_add_def)
  have sub: "checked_sub inner 4 = Some padded_size"
    using inner by (simp add: checked_sub_def word_le_nat_alt)
  have "unat (padded_size mod 4) = 0"
    using k(2) u by (simp add: unat_mod)
  then have mod: "padded_size mod 4 = 0"
    by (simp add: unat_eq_zero)
  have le: "\<not> padded_size < json_size"
    using u k(1) by (simp add: word_less_nat_alt)
  have json: "get_range 16 (16 + length json) out = Some json"
    "get_range (16 + length json) (16 + length (pad4 json)) out = Some (replicate k 0)"
    unfolding k(1) out by (simp_all add: get_range_def slice_def)
  have len: "16 + length (pad4 json) \<le> length out" "16 \<le> length out"
    by (simp_all add: out)
  have ends: "checked_add_usize 16 (unat padded_size) = Some (16 + length (pad4 json))"
    "checked_add_usize 16 (unat json_size) = Some (16 + length json)"
    using u assms(2,4) by (simp_all add: checked_add_usize_def)
  show ?thesis
    unfolding parse_header_def
    using assms(7) mod le len by (simp add: r sat sub ends json list_ex_iff)
qed

end
