(* ===== verification/Asar_Rewrite.thy ===== *)
theory Asar_Rewrite
  imports Asar_Roundtrip
begin

section \<open>The round trip of a rewritten archive\<close>

text \<open>
  The conclusion of the previous theory: what \<open>to_bytes\<close> returns for an archive that was
  parsed and then rewritten, that \<open>parse\<close> reads it back, and the two places where the
  reader's and the writer's limits disagree.
\<close>

subsection \<open>The paths of an archive\<close>

lemma archive_tree_leaves:
  assumes "archive_tree ar t"
  shows "leaf_paths t = split_on (CHR ''/'') ` fst ` set (ar_files ar)"
    and "p \<in> fst ` set (ar_files ar) \<Longrightarrow> join_path (split_on (CHR ''/'') p) = p"
proof -
  have split: "split_on (CHR ''/'') (join_path cs) = cs" if "cs \<in> leaf_paths t" for cs
  proof -
    from that obtain f where f: "(cs, Some f) \<in> set (nodes t)"
      by (auto simp: leaf_paths_def)
    have "tree_ok (ar_limits ar) [] 0 t" using assms by (simp add: archive_tree_def)
    from tree_node_names [OF this f] nodes_ne [OF f] show ?thesis
      by (rule split_join_names)
  qed
  have keys: "fst ` set (ar_files ar) = join_path ` leaf_paths t"
    using assms by (simp add: archive_tree_def)
  show "leaf_paths t = split_on (CHR ''/'') ` fst ` set (ar_files ar)"
    unfolding keys image_image using split by force
  show "p \<in> fst ` set (ar_files ar) \<Longrightarrow> join_path (split_on (CHR ''/'') p) = p"
    unfolding keys using split by auto
qed

lemma archive_prefix_free:
  assumes "archive_tree ar t" and "p \<in> fst ` set (ar_files ar)" and "q \<in> fst ` set (ar_files ar)" and "p \<noteq> q"
  shows "\<not> prefix (split_on (CHR ''/'') p) (split_on (CHR ''/'') q)"
proof
  let ?p = "split_on (CHR ''/'') p" and ?q = "split_on (CHR ''/'') q"
  assume "prefix ?p ?q"
  moreover have "?p \<noteq> ?q"
    using archive_tree_leaves(2) [OF assms(1)] assms(2-4) by metis
  ultimately have strict: "strict_prefix ?p ?q" by simp
  obtain f g where leaves: "(?p, Some f) \<in> set (nodes t)" "(?q, Some g) \<in> set (nodes t)"
    using archive_tree_leaves(1) [OF assms(1)] assms(2,3) unfolding leaf_paths_def by blast
  from leaf_prefix_node [OF leaves(2) strict split_on_ne] have "(?p, None) \<in> set (nodes t)" .
  moreover have "distinct (map fst (nodes t))"
    using assms(1) by (auto simp: archive_tree_def intro: tree_keys_distinct(1))
  ultimately show False
    using leaves(1) eq_key_imp_eq_value by fastforce
qed

lemma bytes_of_length: "length (bytes_of (ar_files ar)) = archive_bytes ar"
proof -
  have "length (bytes_of fs) = sum_list (map (\<lambda>(p, f). length (pk_bytes f)) fs)" for fs
    by (induction fs) auto
  then show ?thesis by (simp add: archive_bytes_def)
qed

lemma emitted_mem: "(p, g) \<in> set (emitted hex_digest off fs) \<Longrightarrow> p \<in> fst ` set fs"
  using emitted_fst [of hex_digest off fs] by (metis fst_conv image_eqI list.set_map)

lemma emitted_total: "p \<in> fst ` set fs \<Longrightarrow> \<exists>g. (p, g) \<in> set (emitted hex_digest off fs)"
  using emitted_fst [of hex_digest off fs] by (metis imageE list.set_map prod.collapse)

subsection \<open>The emitted tree\<close>

lemma emitted_grafts:
  assumes "asar_inv ar"
  obtains t' where "fold_graft (emitted hex_digest 0 (ar_files ar)) (Some []) = Some t'"
proof -
  obtain t where t: "archive_tree ar t" using assms by (auto simp: asar_inv_def)
  have wf: "distinct (map fst (ar_files ar))"
    using assms by (simp add: asar_inv_def bt_wf_distinct)
  have "fold_graft (emitted hex_digest 0 (ar_files ar)) (Some []) \<noteq> None"
  proof (rule fold_graft_succeeds [OF tree_wf_Nil])
    show "distinct (map fst (emitted hex_digest 0 (ar_files ar)))"
      by (simp add: emitted_fst wf)
    have "fst ` set (emitted hex_digest 0 (ar_files ar)) = fst ` set (ar_files ar)"
      using emitted_fst [of hex_digest 0 "ar_files ar"] by (metis list.set_map)
    then show "\<forall>p \<in> fst ` set (emitted hex_digest 0 (ar_files ar)).
        \<forall>q \<in> fst ` set (emitted hex_digest 0 (ar_files ar)). p \<noteq> q \<longrightarrow>
        \<not> prefix (split_on (CHR ''/'') p) (split_on (CHR ''/'') q)"
      using archive_prefix_free [OF t] by simp
  qed simp
  then show thesis using that by auto
qed

lemma emitted_leaf_paths:
  assumes "archive_tree ar t" and "fold_graft (emitted hex_digest 0 (ar_files ar)) (Some []) = Some t'"
  shows "leaf_paths t' = leaf_paths t" and "tree_wf t'"
    and "(ds, Some g) \<in> set (nodes t') \<longleftrightarrow>
      (\<exists>p. (p, g) \<in> set (emitted hex_digest 0 (ar_files ar)) \<and> ds = split_on (CHR ''/'') p)"
proof -
  note built = fold_graft_Some [OF tree_wf_Nil assms(2)]
  show "tree_wf t'" using built by simp
  show leaf: "(ds, Some g) \<in> set (nodes t') \<longleftrightarrow>
      (\<exists>p. (p, g) \<in> set (emitted hex_digest 0 (ar_files ar)) \<and> ds = split_on (CHR ''/'') p)" for ds g
    using built by simp
  show "leaf_paths t' = leaf_paths t"
    unfolding archive_tree_leaves(1) [OF assms(1)]
    unfolding leaf_paths_def leaf
    using emitted_mem [of _ _ hex_digest 0 "ar_files ar"] emitted_total [of _ "ar_files ar" hex_digest 0] by blast
qed

lemma emitted_events:
  assumes "archive_tree ar t" and "fold_graft (emitted hex_digest 0 (ar_files ar)) (Some []) = Some t'"
    and "tree_ok (ar_limits ar) [] 0 t'"
  shows "(p, Some g) \<in> set (events [] t') \<longleftrightarrow> (p, g) \<in> set (emitted hex_digest 0 (ar_files ar))"
proof -
  have "(p, Some g) \<in> set (events [] t') \<longleftrightarrow> (\<exists>cs. (cs, Some g) \<in> set (nodes t') \<and> p = join_path cs)"
    unfolding tree_events [OF assms(3)] by (force simp: image_iff)
  also have "\<dots> \<longleftrightarrow> (p, g) \<in> set (emitted hex_digest 0 (ar_files ar))"
    unfolding emitted_leaf_paths(3) [OF assms(1,2)]
    using archive_tree_leaves(2) [OF assms(1)] emitted_mem by metis
  finally show ?thesis .
qed

lemma emitted_fits:
  assumes "asar_inv ar" and "fold_graft (emitted hex_digest 0 (ar_files ar)) (Some []) = Some t'"
  shows "tree_fits (ar_limits ar) t'" and "pend_of t' = emit_pend hex_digest 0 (ar_files ar)"
proof -
  let ?l = "ar_limits ar" and ?es = "emitted hex_digest 0 (ar_files ar)"
  obtain t where t: "archive_tree ar t" using assms(1) by (auto simp: asar_inv_def)
  note leaves = emitted_leaf_paths [OF t assms(2)]
  from t have old: "tree_ok ?l [] 0 t" "keys_fit (events [] t) []" "counts_fit ?l (events [] t) 0 0"
    by (simp_all add: archive_tree_def)
  note fits = same_leaves_fits [OF old leaves(2,1)]
  note ev = emitted_events [OF t assms(2) fits(1)]
  have wf: "bt_wf (ar_files ar)" and small: "length (bytes_of (ar_files ar)) < 2 ^ 64"
    and sizes: "\<forall>(q, f) \<in> set (ar_files ar). length (pk_bytes f) \<le> max_file_bytes ?l"
    using assms(1) by (simp_all add: asar_inv_def bytes_of_length)
  have d: "distinct (map fst (event_files (events [] t')))" "distinct (map fst ?es)"
    using event_files_distinct [OF keys_fit_distinct [OF fits(2)]] bt_wf_distinct [OF wf]
    by (simp_all add: emitted_fst)
  have "set (event_files (events [] t')) = set ?es"
    by (auto simp: event_files_mem ev)
  then have "mset (event_files (events [] t')) = mset ?es"
    using d by (metis distinct_map set_eq_iff_mset_eq_distinct)
  then have "event_bytes (events [] t') = archive_bytes ar"
    using emit_sizes [OF small, of hex_digest 0] unfolding event_bytes_def
    by (metis sum_list_mset_map bytes_of_length)
  moreover have "\<forall>(p, f) \<in> set (event_files (events [] t')). file_ok ?l f"
    using emit_file_ok [of 0 "ar_files ar" _ _ hex_digest ?l] small sizes by (auto simp: event_files_mem ev)
  ultimately show "tree_fits ?l t'"
    using fits assms(1) by (simp add: tree_fits_def sizes_fit_def asar_inv_def)
  show "pend_of t' = emit_pend hex_digest 0 (ar_files ar)"
  proof (rule bt_eqI [OF pend_of_wf])
    show wf': "bt_wf (emit_pend hex_digest 0 (ar_files ar))"
      using wf by (simp add: bt_wf_def emit_pend_fst)
    have "bt_get (pend_of t') p = Some pf \<longleftrightarrow> bt_get (emit_pend hex_digest 0 (ar_files ar)) p = Some pf" for p pf
      unfolding pend_of_get [OF fits(2)] bt_get_mem [OF wf'] ev
      by (force simp: emit_pend_def image_iff)
    then show "bt_get (pend_of t') = bt_get (emit_pend hex_digest 0 (ar_files ar))"
      by (intro ext option.expand) (metis option.exhaust option.sel option.simps(3))+
  qed
qed

lemma emit_files_total:
  assumes "asar_inv ar"
  obtains root where "emit_files hex_digest (ar_files ar) [] [] = (Inr (root, bytes_of (ar_files ar)) :: 'je AsarError + _)"
    and "fold_graft (emitted hex_digest 0 (ar_files ar)) (Some []) = Some (input_of_list root)"
proof -
  obtain t' where t': "fold_graft (emitted hex_digest 0 (ar_files ar)) (Some []) = Some t'"
    by (rule emitted_grafts [OF assms])
  have "\<forall>(p, f) \<in> set (ar_files ar). length (pk_bytes f) < 2 ^ 64"
  proof safe
    fix p f
    assume "(p, f) \<in> set (ar_files ar)"
    with assms have "length (pk_bytes f) \<le> archive_bytes ar"
      by (intro file_bytes_le [of ar p]) (simp_all add: asar_inv_def bt_get_mem)
    with assms show "length (pk_bytes f) < 2 ^ 64" by (simp add: asar_inv_def)
  qed
  from emit_files_graft [OF this, where ?'je = 'je, of hex_digest "[]" "[]"] t'
  obtain root where "emit_files hex_digest (ar_files ar) [] [] = (Inr (root, bytes_of (ar_files ar)) :: 'je AsarError + _)"
    "t' = input_of_list root"
    by (auto split: sum.splits)
  with t' that show thesis by blast
qed

subsection \<open>The round trip\<close>

lemma asar_to_bytes_cases:
  assumes "asar_inv ar"
  obtains (refused) e where "asar_to_bytes to_vec hex_digest ar = Inl e"
      and "e = HeaderTooLarge \<or> e = ArchiveTooLarge \<or> (\<exists>je. e = SerializeHeader je)"
  | (written) out json_size padded_size outer inner json root where "asar_to_bytes to_vec hex_digest ar = Inr out"
      and "fold_graft (emitted hex_digest 0 (ar_files ar)) (Some []) = Some (input_of_list root)"
      and "to_vec (OutDirectory root) = Inr json"
      and "json_size = of_nat (length json)" and "length json < 2 ^ 32"
      and "padded_size = (of_nat (length (pad4 json)) :: u32)" and "length (pad4 json) < 2 ^ 32"
      and "checked_add padded_size 8 = Some outer" and "checked_add padded_size 4 = Some inner"
      and "out = to_le 4 (unat ASAR_MAGIC) @ to_le 4 (unat outer) @ to_le 4 (unat inner) @
        to_le 4 (unat (json_size :: u32)) @ pad4 json @ bytes_of (ar_files ar)"
      and "length out \<le> max_archive_bytes (ar_limits ar)"
proof (cases "asar_to_bytes to_vec hex_digest ar")
  case (Inl e)
  obtain root where "emit_files hex_digest (ar_files ar) [] [] = (Inr (root, bytes_of (ar_files ar)) :: 'a AsarError + _)"
    by (rule emit_files_total [OF assms])
  with Inl assms have "e = HeaderTooLarge \<or> e = ArchiveTooLarge \<or> (\<exists>je. e = SerializeHeader je)"
    by (auto simp: asar_to_bytes_def bytes_of_length asar_inv_def rbind_Inl_iff ok_or_def map_err_def Let_def
        split: if_splits option.splits sum.splits)
  with Inl refused show thesis by blast
next
  case (Inr out)
  obtain root where e: "emit_files hex_digest (ar_files ar) [] [] = (Inr (root, bytes_of (ar_files ar)) :: 'a AsarError + _)"
    and g: "fold_graft (emitted hex_digest 0 (ar_files ar)) (Some []) = Some (input_of_list root)"
    by (rule emit_files_total [OF assms])
  from Inr e assms obtain json outer inner where w: "to_vec (OutDirectory root) = Inr json"
      "length json < 2 ^ 32" "length (pad4 json) < 2 ^ 32"
      "checked_add (of_nat (length (pad4 json)) :: u32) 8 = Some outer"
      "checked_add (of_nat (length (pad4 json)) :: u32) 4 = Some inner"
      "16 + length (pad4 json) + archive_bytes ar \<le> max_archive_bytes (ar_limits ar)"
      "out = to_le 4 (unat ASAR_MAGIC) @ to_le 4 (unat outer) @ to_le 4 (unat inner) @
        to_le 4 (unat (of_nat (length json) :: u32)) @ pad4 json @ bytes_of (ar_files ar)"
    by (auto simp: asar_to_bytes_def bytes_of_length asar_inv_def rbind_Inr_iff Let_def
        checked_add_usize_def u32_try_from_def split: if_splits option.splits)
  have "length out \<le> max_archive_bytes (ar_limits ar)"
    using w(6,7) by (simp add: bytes_of_length)
  from written [OF Inr g w(1) refl w(2) refl w(3,4,5,7) this] show thesis .
qed

lemma written_parse:
  assumes "asar_inv ar" and "fold_graft (emitted hex_digest 0 (ar_files ar)) (Some []) = Some t'"
    and "length out \<le> max_archive_bytes (ar_limits ar)" and "drop start out = bytes_of (ar_files ar)"
    and "start \<le> length out"
    and "parse_header from_slice custom out (ar_limits ar) = Inr \<lparr>ph_root = t', ph_data_start = start\<rparr>"
  shows "asar_parse from_slice custom hex_digest out (ar_limits ar) = Inr ar"
proof -
  have wf: "bt_wf (ar_files ar)" "length (bytes_of (ar_files ar)) < 2 ^ 64"
    using assms(1) by (simp_all add: asar_inv_def bytes_of_length)
  note emit_body_ok [OF wf, of hex_digest] emitted_fits [OF assms(1,2)]
  with assms(3-6) show ?thesis
    by (simp add: asar_parse_Inr)
qed

text \<open>
  C7: rewriting round-trips. Take any parsed archive, apply any sequence of replacements and
  write it. The only refusals are that the JSON encoder fails or that the header or the whole
  file exceeds its ceiling: an archive whose members fit always can be laid out. What is
  written fits the archive ceiling, and reading it back gives the archive with exactly the
  same members, bytes and flags whenever the header, its sixteen-byte prefix and padding
  included, fits the reader's header ceiling; otherwise the reader answers that the header
  is too large. Hypothesis: decoding what the JSON encoder wrote gives the encoded tree.
\<close>

theorem asar_round_trip:
  assumes "asar_parse from_slice custom hex_digest bs l = Inr ar0"
    and "ar = run_ops (asar_replace_step :: _ \<Rightarrow> _ \<Rightarrow> ('je AsarError + unit) \<times> _) ar0 ops"
    and "\<And>e js. to_vec e = Inr js \<Longrightarrow> from_slice js = Inr (input_of e)"
  shows "case asar_to_bytes to_vec hex_digest ar of
      Inl e \<Rightarrow> e = HeaderTooLarge \<or> e = ArchiveTooLarge \<or> (\<exists>je. e = SerializeHeader je)
    | Inr out \<Rightarrow> length out \<le> max_archive_bytes l \<and>
        asar_parse from_slice custom hex_digest out l =
          (if length out - archive_bytes ar \<le> max_header_bytes l then Inr ar else Inl HeaderTooLarge)"
proof -
  have "replace_inv l (asar_file_paths ar0) (executables ar0) ar0"
    using asar_parse_inv [OF assms(1)] by (simp add: replace_inv_def)
  then have "replace_inv l (asar_file_paths ar0) (executables ar0) ar"
    unfolding assms(2) by (rule rewriting.run_inv)
  then have inv: "asar_inv ar" and l: "ar_limits ar = l"
    by (simp_all add: replace_inv_def)
  show ?thesis
  proof (cases rule: asar_to_bytes_cases [OF inv, of to_vec hex_digest, case_names refused written])
    case (refused e)
    then show ?thesis by simp
  next
    case (written out json_size padded_size outer inner json root)
    let ?t = "input_of_list root" and ?start = "16 + length (pad4 json)"
    have "tree_wf ?t"
      using fold_graft_Some [OF tree_wf_Nil written(2)] by simp
    then have "resolve_entry custom (InDirectory ?t) = Inr (InDirectory ?t)"
      using resolve_sorted(2) [of ?t custom] unique_files_sorted [of "[]" ?t custom] by (simp add: tree_wf_def)
    then have root: "decode_root from_slice custom json = Inr ?t"
      using assms(3) [OF written(3)] by (simp add: decode_root_def)
    have start: "?start = length out - archive_bytes ar" "?start \<le> length out"
        "drop ?start out = bytes_of (ar_files ar)"
      by (simp_all add: written(10) bytes_of_length)
    note header = parse_header_written [OF written(4-9) root written(10), of l]
    show ?thesis
    proof (cases "?start \<le> max_header_bytes l")
      case True
      with header have "parse_header from_slice custom out l = Inr \<lparr>ph_root = ?t, ph_data_start = ?start\<rparr>"
        by simp
      from written_parse [OF inv written(2,11) start(3,2), unfolded l, OF this]
      have "asar_parse from_slice custom hex_digest out l = Inr ar" .
      with True written(1,11) start(1) l show ?thesis by simp
    next
      case False
      with header have "parse_header from_slice custom out l = Inl HeaderTooLarge"
        by simp
      with False written(1,11) start(1) l show ?thesis
        by (simp add: asar_parse_def)
    qed
  qed
qed

definition asar_ex_encode :: "OutputEntry \<Rightarrow> unit + bytes" where
  "asar_ex_encode e = (if input_of e = InDirectory asar_ex_tree then Inr [1, 2, 3, 4] else Inl ())"

theorem asar_round_trip_witness:
  "\<exists>out. asar_to_bytes asar_ex_encode (\<lambda>_. ''00'') \<lparr>ar_files = asar_ex_files [7], ar_limits = asar_ex_limits\<rparr> = Inr out \<and>
    asar_parse asar_ex_decode (\<lambda>_. ()) (\<lambda>_. ''00'') out asar_ex_limits =
      Inr \<lparr>ar_files = asar_ex_files [7], ar_limits = asar_ex_limits\<rparr>"
proof -
  let ?ar = "\<lparr>ar_files = asar_ex_files [7], ar_limits = asar_ex_limits\<rparr>"
  have codec: "asar_ex_encode e = Inr js \<Longrightarrow> asar_ex_decode js = Inr (input_of e)" for e js
    by (auto simp: asar_ex_encode_def asar_ex_decode_def split: if_splits)
  have digits: "char_of (48 :: nat) = CHR ''0''" "char_of (49 :: nat) = CHR ''1''"
    by code_simp+
  have "\<exists>out. asar_to_bytes asar_ex_encode (\<lambda>_. ''00'') ?ar = Inr out \<and> length out = 22"
    by (simp add: asar_to_bytes_def asar_ex_files_def asar_ex_limits_def asar_ex_encode_def asar_ex_tree_def
        asar_ex_leaf_def insert_output_entry_def input_file_def integrity_for_bytes_def chunks.simps
        INTEGRITY_BLOCK_SIZE_def nat_to_string.simps u32_try_from_def pad4.simps checked_add_def checked_add_usize_def
        ensure_def bt_get_def digits)
  then obtain out where out: "asar_to_bytes asar_ex_encode (\<lambda>_. ''00'') ?ar = Inr out" "length out = 22"
    by blast
  have "length out - archive_bytes ?ar \<le> max_header_bytes asar_ex_limits"
    using out(2) by (simp add: archive_bytes_def asar_ex_files_def asar_ex_limits_def)
  with out(1) asar_round_trip [OF asar_ex_parse asar_ex_rewritten, where to_vec = asar_ex_encode, OF codec]
  show ?thesis by simp
qed

subsection \<open>Depth\<close>

lemma canonical_components_Inr:
  "(canonical_components l cs n :: 'je AsarError + unit) = Inr () \<longleftrightarrow>
     list_all name_ok cs \<and> (cs = [] \<or> n + length cs \<le> max_depth l \<and> n + length cs < 2 ^ 64)"
proof (induction cs arbitrary: n)
  case (Cons c cs)
  have "n + 1 + length cs = n + length (c # cs)" by simp
  with Cons.IH [of "n + 1"] show ?case
    by (auto simp: rbind_Inr_iff validate_member_name_Inr checked_add_usize_def)
qed simp

lemma listed_leaf:
  assumes "asar_parse from_slice custom hex_digest bs l = Inr ar" and "p \<in> set (asar_file_paths ar)"
  obtains t cs leaf where "tree_ok l [] 0 t" and "(cs, Some leaf) \<in> set (nodes t)" and "p = join_path cs"
    and "list_all name_ok cs" and "length p \<le> max_path_bytes l" and "split_on (CHR ''/'') p = cs"
proof -
  obtain h :: ParsedHeader where fits: "tree_fits l (ph_root h)"
    and ar: "ar = \<lparr>ar_files = map (apsnd (packed_of (drop (ph_data_start h) bs))) (pend_of (ph_root h)),
          ar_limits = l\<rparr>"
    using assms(1) unfolding asar_parse_Inr by blast
  obtain pf where "(p, pf) \<in> set (pend_of (ph_root h))"
    using assms(2) by (auto simp: asar_file_paths_def bt_keys_def ar)
  from pend_leaf [OF fits this] obtain cs leaf where "(cs, Some leaf) \<in> set (nodes (ph_root h))" "p = join_path cs"
    "list_all name_ok cs" "length p \<le> max_path_bytes l" .
  with that [of "ph_root h" cs leaf] fits nodes_ne [of cs "Some leaf" "ph_root h"] show thesis
    by (auto simp: tree_fits_def split_join_names)
qed

lemma leaf_depth:
  assumes "tree_ok l [] 0 t" and "(cs, Some leaf) \<in> set (nodes t)"
  shows "length cs \<le> max_depth l + 1"
proof (cases "length cs \<le> 1")
  case False
  then obtain ds d where cs: "cs = ds @ [d]" "ds \<noteq> []"
    by (cases cs rule: rev_cases) auto
  then have "strict_prefix ds cs" by (simp add: strict_prefix_def)
  from leaf_prefix_node [OF assms(2) this cs(2)] have "node_ok l [] 0 (ds, None)"
    using assms(1) by (auto simp: tree_ok_nodes)
  then show ?thesis by (simp add: cs node_ok_def)
qed simp

text \<open>
  C40: the reader's depth limit and the path limit of \<open>file\<close> and \<open>replace_file\<close> differ by
  one. Parsing bounds the directories, so a listed path can have one component more than
  \<open>max_depth\<close>; a listed member can be read, and is considered for replacement, exactly when
  its path has at most \<open>max_depth\<close> components, and at the extra level it is listed and
  written but reported as absent.
\<close>

theorem asar_listed_readable:
  assumes "asar_parse from_slice custom hex_digest bs l = Inr ar" and "p \<in> set (asar_file_paths ar)"
    and "max_depth l < 2 ^ 64"
  shows "length (split_on (CHR ''/'') p) \<le> max_depth l + 1 \<and>
    (asar_file ar p \<noteq> None \<longleftrightarrow> length (split_on (CHR ''/'') p) \<le> max_depth l)"
proof -
  obtain t cs leaf where t: "tree_ok l [] 0 t" "(cs, Some leaf) \<in> set (nodes t)"
    and cs: "p = join_path cs" "list_all name_ok cs" "length p \<le> max_path_bytes l" "split_on (CHR ''/'') p = cs"
    by (rule listed_leaf [OF assms(1,2)])
  obtain c cs' where c: "cs = c # cs'" "c \<noteq> []" "CHR ''/'' \<notin> set c"
    using nodes_ne [OF t(2)] cs(2) name_okD by (cases cs) auto
  then have "hd p \<noteq> CHR ''/''" "p \<noteq> []"
    unfolding cs(1) by (cases c; cases cs'; force)+
  then have "canonical_ok l p \<longleftrightarrow> length cs \<le> max_depth l"
    using cs assms(3) c(1) canonical_components_Inr [where ?'je = unit, of l cs 0]
    by (auto simp: canonical_ok_def is_ok_iff canonical_archive_path_def rbind_Inr_iff)
  moreover have "bt_get (ar_files ar) p \<noteq> None"
    using assms(2) by (simp add: asar_file_paths_def bt_keys_def bt_get_None)
  ultimately show ?thesis
    using leaf_depth [OF t] asar_parse_inv(2) [OF assms(1)] cs(4) by (simp add: asar_file_eq)
qed

theorem asar_listed_readable_witness:
  "''d/a'' \<in> set (asar_file_paths \<lparr>ar_files = asar_ex_files [104], ar_limits = asar_ex_limits\<rparr>) \<and>
    asar_file \<lparr>ar_files = asar_ex_files [104], ar_limits = asar_ex_limits\<rparr> ''d/a'' = None"
proof -
  have listed: "''d/a'' \<in> set (asar_file_paths \<lparr>ar_files = asar_ex_files [104], ar_limits = asar_ex_limits\<rparr>)"
    by (simp add: asar_file_paths_def bt_keys_def asar_ex_files_def)
  have "max_depth asar_ex_limits < 2 ^ 64" "\<not> length (split_on (CHR ''/'') ''d/a'') \<le> max_depth asar_ex_limits"
    by (simp_all add: asar_ex_limits_def)
  with asar_listed_readable [OF asar_ex_parse listed] listed show ?thesis
    by simp
qed

end
