(* ===== verification/App_Server_Json.thy ===== *)
theory App_Server_Json
  imports Text_Paths
begin

section \<open>Bounded JSON and message classification of the app-server proxy\<close>

text \<open>
  The pure half of \<open>weregopher-adapter-openai/src/app_server_proxy.rs\<close>: limits, the JSON
  visitor that enforces depth, node and duplicate-key rules while the document is read, and
  the classification of one line into request, notification or response. The tokenizer of
  \<open>serde_json\<close> is a parameter \<open>tokens\<close>: for a byte string it gives what the deserializer
  would offer to a visitor (\<open>RawJson\<close>, with the places where it reports a syntax error) and
  the answer of \<open>Deserializer::end\<close>. \<open>custom\<close> is \<open>serde::de::Error::custom\<close>. A
  \<open>serde_json::Number\<close> is an unsigned, a negative or a floating-point number, the last by
  its bit pattern. Text is UTF-8, one \<open>char\<close> per byte.
\<close>

subsection \<open>Limits\<close>

definition ABSOLUTE_MAX_LINE_BYTES :: usize where "ABSOLUTE_MAX_LINE_BYTES = 16 * 1024 * 1024"
definition ABSOLUTE_MAX_QUEUE_MESSAGES :: usize where "ABSOLUTE_MAX_QUEUE_MESSAGES = 4096"
definition ABSOLUTE_MAX_QUEUE_BYTES :: usize where "ABSOLUTE_MAX_QUEUE_BYTES = 64 * 1024 * 1024"
definition ABSOLUTE_MAX_JSON_DEPTH :: usize where "ABSOLUTE_MAX_JSON_DEPTH = 128"
definition ABSOLUTE_MAX_JSON_NODES :: usize where "ABSOLUTE_MAX_JSON_NODES = 1048576"
definition ABSOLUTE_MAX_ACTIVE_REQUESTS :: usize where "ABSOLUTE_MAX_ACTIVE_REQUESTS = 4096"
definition ABSOLUTE_MAX_REQUEST_HISTORY :: usize where "ABSOLUTE_MAX_REQUEST_HISTORY = 1048576"

text \<open>Durations and instants are counted in nanoseconds.\<close>

type_synonym duration = nat
type_synonym instant = nat

definition seconds :: "nat \<Rightarrow> duration" where
  "seconds n = n * 1000000000"

definition ABSOLUTE_MAX_REQUEST_TIMEOUT :: duration where "ABSOLUTE_MAX_REQUEST_TIMEOUT = seconds (24 * 3600)"
definition MAX_METHOD_BYTES :: usize where "MAX_METHOD_BYTES = 1024"
definition MAX_REQUEST_ID_BYTES :: usize where "MAX_REQUEST_ID_BYTES = 256"

datatype AppServerProxyDirection = ClientToServer | ServerToClient

fun opposite :: "AppServerProxyDirection \<Rightarrow> AppServerProxyDirection" where
  "opposite ClientToServer = ServerToClient"
| "opposite ServerToClient = ClientToServer"

datatype AppServerProxyMessageKind = Request | Notification | SuccessResponse | ErrorResponse

datatype AppServerRequestId = Unsigned u64 | Signed u64 | Text string

datatype 'je AppServerProxyError =
    InvalidQueueLimits | InvalidLineLimit | InvalidJsonLimits | InvalidActiveRequestLimit
  | InvalidRequestHistoryLimit | InvalidRequestTimeout | Closed | CandidateLimitsMismatch
  | EmptyLine | EmbeddedLineBreak | LineTooLarge | InvalidJson 'je | TopLevelNotObject
  | DuplicateObjectKey | JsonDepthLimitExceeded | JsonNodeLimitExceeded | InvalidMethod
  | InvalidRequestId | AmbiguousMessageShape
  | QueueMessageLimitExceeded AppServerProxyDirection
  | QueueByteLimitExceeded AppServerProxyDirection
  | DuplicateRequestId AppServerProxyDirection
  | ReusedRequestId AppServerProxyDirection
  | ActiveRequestLimitExceeded | RequestHistoryLimitExceeded | ResponseBeforeRequestForwarded
  | DeadlineOverflow | NonMonotonicClock | InconsistentCorrelationState | DiagnosticCounterOverflow

record AppServerQueueLimits =
  ql_messages :: usize
  ql_bytes :: usize

definition queue_limits_new :: "usize \<Rightarrow> usize \<Rightarrow> 'je AppServerProxyError + AppServerQueueLimits" where
  "queue_limits_new messages bs =
     (if messages = 0 \<or> messages > ABSOLUTE_MAX_QUEUE_MESSAGES \<or> bs = 0 \<or> bs > ABSOLUTE_MAX_QUEUE_BYTES
      then Inl InvalidQueueLimits else Inr \<lparr>ql_messages = messages, ql_bytes = bs\<rparr>)"

record AppServerJsonLimits =
  jl_depth :: usize
  jl_nodes :: usize

definition json_limits_new :: "usize \<Rightarrow> usize \<Rightarrow> 'je AppServerProxyError + AppServerJsonLimits" where
  "json_limits_new depth nodes =
     (if depth = 0 \<or> depth > ABSOLUTE_MAX_JSON_DEPTH \<or> nodes = 0 \<or> nodes > ABSOLUTE_MAX_JSON_NODES
      then Inl InvalidJsonLimits else Inr \<lparr>jl_depth = depth, jl_nodes = nodes\<rparr>)"

record AppServerProxyLimits =
  pl_line_bytes :: usize
  pl_to_server :: AppServerQueueLimits
  pl_to_client :: AppServerQueueLimits
  pl_json :: AppServerJsonLimits
  pl_active_requests :: usize
  pl_request_history :: usize
  pl_request_timeout :: duration

definition proxy_limits_new ::
    "usize \<Rightarrow> AppServerQueueLimits \<Rightarrow> AppServerQueueLimits \<Rightarrow> AppServerJsonLimits \<Rightarrow> usize \<Rightarrow> usize \<Rightarrow> duration \<Rightarrow>
     'je AppServerProxyError + AppServerProxyLimits" where
  "proxy_limits_new line_bytes to_server to_client json active_requests request_history request_timeout =
     (if line_bytes = 0 \<or> line_bytes > ABSOLUTE_MAX_LINE_BYTES then Inl InvalidLineLimit
      else if active_requests = 0 \<or> active_requests > ABSOLUTE_MAX_ACTIVE_REQUESTS
      then Inl InvalidActiveRequestLimit
      else if request_history < active_requests \<or> request_history > ABSOLUTE_MAX_REQUEST_HISTORY
      then Inl InvalidRequestHistoryLimit
      else if request_timeout = 0 \<or> request_timeout > ABSOLUTE_MAX_REQUEST_TIMEOUT
      then Inl InvalidRequestTimeout
      else Inr \<lparr>pl_line_bytes = line_bytes, pl_to_server = to_server, pl_to_client = to_client, pl_json = json,
        pl_active_requests = active_requests, pl_request_history = request_history,
        pl_request_timeout = request_timeout\<rparr>)"

definition proxy_limits_initial :: AppServerProxyLimits where
  "proxy_limits_initial = \<lparr>pl_line_bytes = 1024 * 1024,
     pl_to_server = \<lparr>ql_messages = 256, ql_bytes = 8 * 1024 * 1024\<rparr>,
     pl_to_client = \<lparr>ql_messages = 256, ql_bytes = 8 * 1024 * 1024\<rparr>,
     pl_json = \<lparr>jl_depth = 64, jl_nodes = 65536\<rparr>,
     pl_active_requests = 1024, pl_request_history = 65536, pl_request_timeout = seconds (5 * 60)\<rparr>"

subsection \<open>The bounded visitor\<close>

datatype JsonNumber = PosInt u64 | NegInt u64 | Float u64

datatype JsonValue =
    JNull | JBool bool | JNumber JsonNumber | JString string
  | JArray "JsonValue list" | JObject "(string \<times> JsonValue) list"

datatype 'je RawJson =
    RawUnit | RawBool bool | RawI64 u64 | RawU64 u64 | RawF64 u64 | RawStr string
  | RawSeq "'je RawJson list" "'je option" | RawMap "(string \<times> 'je RawJson) list" "'je option"
  | RawError 'je

definition number_from_i64 :: "u64 \<Rightarrow> JsonNumber" where
  "number_from_i64 w = (if sint w < 0 then NegInt w else PosInt w)"

text \<open>\<open>Number::from_f64\<close> refuses NaN and the infinities: an exponent field of ones.\<close>

definition number_from_f64 :: "u64 \<Rightarrow> JsonNumber option" where
  "number_from_f64 bits = (if (unat bits div 2 ^ 52) mod 2 ^ 11 = 2047 then None else Some (Float bits))"

datatype JsonViolation = DuplicateKey | DepthViolation | NodesViolation

record JsonBudget =
  jb_limits :: AppServerJsonLimits
  jb_nodes :: usize
  jb_violation :: "JsonViolation option"

definition budget_claim :: "(string \<Rightarrow> 'je) \<Rightarrow> usize \<Rightarrow> JsonBudget \<Rightarrow> ('je + unit) \<times> JsonBudget" where
  "budget_claim custom depth b =
     (if depth > jl_depth (jb_limits b)
      then (Inl (custom ''JSON depth limit exceeded''), b\<lparr>jb_violation := Some DepthViolation\<rparr>)
      else if jb_nodes b \<ge> jl_nodes (jb_limits b)
      then (Inl (custom ''JSON node limit exceeded''), b\<lparr>jb_violation := Some NodesViolation\<rparr>)
      else (Inr (), b\<lparr>jb_nodes := jb_nodes b + 1\<rparr>))"

text \<open>
  \<open>BoundedValueSeed::deserialize\<close>, which claims the node and dispatches to the visitor, whose
  scalar methods are written out; then the loops of \<open>visit_seq\<close> and \<open>visit_map\<close> with the values and keys read so far.
\<close>

function seed_deserialize ::
    "(string \<Rightarrow> 'je) \<Rightarrow> usize \<Rightarrow> 'je RawJson \<Rightarrow> JsonBudget \<Rightarrow> ('je + JsonValue) \<times> JsonBudget"
  and visit_seq ::
    "(string \<Rightarrow> 'je) \<Rightarrow> usize \<Rightarrow> 'je RawJson list \<Rightarrow> 'je option \<Rightarrow> JsonValue list \<Rightarrow> JsonBudget \<Rightarrow>
     ('je + JsonValue) \<times> JsonBudget"
  and visit_map ::
    "(string \<Rightarrow> 'je) \<Rightarrow> usize \<Rightarrow> (string \<times> 'je RawJson) list \<Rightarrow> 'je option \<Rightarrow> (string \<times> JsonValue) list \<Rightarrow>
     (string \<times> unit) list \<Rightarrow> JsonBudget \<Rightarrow> ('je + JsonValue) \<times> JsonBudget" where
  "seed_deserialize custom depth raw b =
     (case budget_claim custom depth b of
        (Inl e, b') \<Rightarrow> (Inl e, b')
      | (Inr _, b') \<Rightarrow>
          (case raw of
             RawUnit \<Rightarrow> (Inr JNull, b')
           | RawBool v \<Rightarrow> (Inr (JBool v), b')
           | RawI64 v \<Rightarrow> (Inr (JNumber (number_from_i64 v)), b')
           | RawU64 v \<Rightarrow> (Inr (JNumber (PosInt v)), b')
           | RawF64 v \<Rightarrow> (ok_or (custom ''non-finite JSON number'') (map_option JNumber (number_from_f64 v)), b')
           | RawStr v \<Rightarrow> (Inr (JString v), b')
           | RawSeq es tail \<Rightarrow> visit_seq custom depth es tail [] b'
           | RawMap es tail \<Rightarrow> visit_map custom depth es tail [] [] b'
           | RawError e \<Rightarrow> (Inl e, b')))"
| "visit_seq custom depth [] tail vs b = (case tail of None \<Rightarrow> (Inr (JArray vs), b) | Some e \<Rightarrow> (Inl e, b))"
| "visit_seq custom depth (raw # es) tail vs b =
     (case seed_deserialize custom (depth + 1) raw b of
        (Inl e, b') \<Rightarrow> (Inl e, b') | (Inr v, b') \<Rightarrow> visit_seq custom depth es tail (vs @ [v]) b')"
| "visit_map custom depth [] tail vs ks b = (case tail of None \<Rightarrow> (Inr (JObject vs), b) | Some e \<Rightarrow> (Inl e, b))"
| "visit_map custom depth ((key, raw) # es) tail vs ks b =
     (if bs_contains ks key
      then (Inl (custom ''duplicate JSON object key''), b\<lparr>jb_violation := Some DuplicateKey\<rparr>)
      else (case seed_deserialize custom (depth + 1) raw b of
        (Inl e, b') \<Rightarrow> (Inl e, b')
      | (Inr v, b') \<Rightarrow> visit_map custom depth es tail (bt_insert key v vs) (bt_insert key () ks) b'))"
  by pat_completeness auto
termination
  by (relation "measure (case_sum (\<lambda>(custom, depth, raw, b). size raw)
      (case_sum (\<lambda>(custom, depth, es, tail, vs, b). size_list size es)
        (\<lambda>(custom, depth, es, tail, vs, ks, b). size_list (size_prod (\<lambda>_. 0) size) es)))") auto

declare seed_deserialize.simps [simp del]

definition parse_bounded_json ::
    "(bytes \<Rightarrow> 'je RawJson \<times> 'je option) \<Rightarrow> (string \<Rightarrow> 'je) \<Rightarrow> bytes \<Rightarrow> AppServerJsonLimits \<Rightarrow>
     'je AppServerProxyError + JsonValue" where
  "parse_bounded_json tokens custom bs limits =
     (case seed_deserialize custom 1 (fst (tokens bs)) \<lparr>jb_limits = limits, jb_nodes = 0, jb_violation = None\<rparr> of
        (Inl source, b) \<Rightarrow> Inl (case jb_violation b of
            Some DuplicateKey \<Rightarrow> DuplicateObjectKey
          | Some DepthViolation \<Rightarrow> JsonDepthLimitExceeded
          | Some NodesViolation \<Rightarrow> JsonNodeLimitExceeded
          | None \<Rightarrow> InvalidJson source)
      | (Inr value, b) \<Rightarrow> (case snd (tokens bs) of Some e \<Rightarrow> Inl (InvalidJson e) | None \<Rightarrow> Inr value))"

subsection \<open>Classification\<close>

text \<open>
  \<open>char::is_control\<close> on UTF-8 text: the C0 range, \<open>DEL\<close>, and the C1 range, whose
  code points are encoded as the byte \<open>C2\<close> followed by \<open>80\<close> to \<open>9F\<close>.
\<close>

fun has_control :: "string \<Rightarrow> bool" where
  "has_control [] \<longleftrightarrow> False"
| "has_control (c # s) \<longleftrightarrow> of_char c < (0x20 :: nat) \<or> of_char c = (0x7f :: nat) \<or>
     of_char c = (0xc2 :: nat) \<and> (case s of [] \<Rightarrow> False | d # _ \<Rightarrow> 0x80 \<le> (of_char d :: nat) \<and> of_char d < (0xa0 :: nat)) \<or>
     has_control s"

definition identity_text :: "usize \<Rightarrow> string \<Rightarrow> bool" where
  "identity_text bound s \<longleftrightarrow> s \<noteq> [] \<and> length s \<le> bound \<and> \<not> has_control s"

fun number_as_u64 :: "JsonNumber \<Rightarrow> u64 option" where
  "number_as_u64 (PosInt n) = Some n"
| "number_as_u64 (NegInt n) = None"
| "number_as_u64 (Float f) = None"

fun number_as_i64 :: "JsonNumber \<Rightarrow> u64 option" where
  "number_as_i64 (PosInt n) = (if unat n < 2 ^ 63 then Some n else None)"
| "number_as_i64 (NegInt n) = Some n"
| "number_as_i64 (Float f) = None"

fun parse_request_id :: "JsonValue \<Rightarrow> 'je AppServerProxyError + AppServerRequestId" where
  "parse_request_id (JNumber number) =
     (case number_as_u64 number of Some value \<Rightarrow> Inr (Unsigned value)
      | None \<Rightarrow> (case number_as_i64 number of Some value \<Rightarrow> Inr (Signed value)
      | None \<Rightarrow> Inl InvalidRequestId))"
| "parse_request_id (JString value) =
     (if identity_text MAX_REQUEST_ID_BYTES value then Inr (Text value) else Inl InvalidRequestId)"
| "parse_request_id v = Inl InvalidRequestId"

record ClassifiedMessage =
  cm_kind :: AppServerProxyMessageKind
  cm_method :: "string option"
  cm_request_id :: "AppServerRequestId option"

definition as_method :: "JsonValue \<Rightarrow> string option" where
  "as_method v = (case v of JString s \<Rightarrow> if identity_text MAX_METHOD_BYTES s then Some s else None | _ \<Rightarrow> None)"

definition classify_object :: "(string \<times> JsonValue) list \<Rightarrow> 'je AppServerProxyError + ClassifiedMessage" where
  "classify_object object =
     (let has_result = bt_get object ''result'' \<noteq> None; has_error = bt_get object ''error'' \<noteq> None;
          has_id = bt_get object ''id'' \<noteq> None in
      case bt_get object ''method'' of
        Some m \<Rightarrow>
          if has_result \<or> has_error then Inl AmbiguousMessageShape
          else rbind (ok_or InvalidMethod (as_method m)) (\<lambda>name.
          rbind (if has_id
                 then rbind (ok_or InvalidRequestId (bt_get object ''id'')) (\<lambda>v.
                   rbind (parse_request_id v) (\<lambda>i. Inr (Some i)))
                 else Inr None) (\<lambda>request_id.
          Inr \<lparr>cm_kind = (if request_id \<noteq> None then Request else Notification), cm_method = Some name,
            cm_request_id = request_id\<rparr>))
      | None \<Rightarrow>
          if \<not> has_id \<or> has_result = has_error then Inl AmbiguousMessageShape
          else rbind (ok_or InvalidRequestId (bt_get object ''id'')) (\<lambda>v.
          rbind (case v of JNull \<Rightarrow> Inr None | _ \<Rightarrow> rbind (parse_request_id v) (\<lambda>i. Inr (Some i))) (\<lambda>request_id.
          Inr \<lparr>cm_kind = (if has_result then SuccessResponse else ErrorResponse), cm_method = None,
            cm_request_id = request_id\<rparr>)))"

definition is_ascii_whitespace :: "u8 \<Rightarrow> bool" where
  "is_ascii_whitespace b \<longleftrightarrow> b \<in> {0x20, 0x09, 0x0A, 0x0C, 0x0D}"

definition parse_and_classify ::
    "(bytes \<Rightarrow> 'je RawJson \<times> 'je option) \<Rightarrow> (string \<Rightarrow> 'je) \<Rightarrow> bytes \<Rightarrow> AppServerProxyLimits \<Rightarrow>
     'je AppServerProxyError + ClassifiedMessage" where
  "parse_and_classify tokens custom json_line limits =
     (if json_line = [] \<or> list_all is_ascii_whitespace json_line then Inl EmptyLine
      else if list_ex (\<lambda>b. b \<in> {0x0D, 0x0A}) json_line then Inl EmbeddedLineBreak
      else if length json_line > pl_line_bytes limits then Inl LineTooLarge
      else rbind (parse_bounded_json tokens custom json_line (pl_json limits)) (\<lambda>v.
      case v of JObject object \<Rightarrow> classify_object object | _ \<Rightarrow> Inl TopLevelNotObject))"

subsection \<open>What the visitor accepts\<close>

fun raw_value :: "'je RawJson \<Rightarrow> JsonValue option"
  and raw_elements :: "'je RawJson list \<Rightarrow> JsonValue list option"
  and raw_entries :: "(string \<times> 'je RawJson) list \<Rightarrow> (string \<times> JsonValue) list option" where
  "raw_value RawUnit = Some JNull"
| "raw_value (RawBool v) = Some (JBool v)"
| "raw_value (RawI64 v) = Some (JNumber (number_from_i64 v))"
| "raw_value (RawU64 v) = Some (JNumber (PosInt v))"
| "raw_value (RawF64 v) = map_option JNumber (number_from_f64 v)"
| "raw_value (RawStr v) = Some (JString v)"
| "raw_value (RawSeq es tail) = (if tail = None then map_option JArray (raw_elements es) else None)"
| "raw_value (RawMap es tail) = (if tail = None \<and> distinct (map fst es)
     then map_option (\<lambda>vs. JObject (fold (\<lambda>(k, v). bt_insert k v) vs [])) (raw_entries es) else None)"
| "raw_value (RawError e) = None"
| "raw_elements [] = Some []"
| "raw_elements (raw # es) =
     (case raw_value raw of None \<Rightarrow> None | Some v \<Rightarrow> map_option (Cons v) (raw_elements es))"
| "raw_entries [] = Some []"
| "raw_entries ((k, raw) # es) =
     (case raw_value raw of None \<Rightarrow> None | Some v \<Rightarrow> map_option (Cons (k, v)) (raw_entries es))"

fun raw_nodes :: "'je RawJson \<Rightarrow> nat"
  and raw_nodes_seq :: "'je RawJson list \<Rightarrow> nat"
  and raw_nodes_map :: "(string \<times> 'je RawJson) list \<Rightarrow> nat" where
  "raw_nodes (RawSeq es tail) = 1 + raw_nodes_seq es"
| "raw_nodes (RawMap es tail) = 1 + raw_nodes_map es"
| "raw_nodes _ = 1"
| "raw_nodes_seq [] = 0"
| "raw_nodes_seq (raw # es) = raw_nodes raw + raw_nodes_seq es"
| "raw_nodes_map [] = 0"
| "raw_nodes_map ((k, raw) # es) = raw_nodes raw + raw_nodes_map es"

fun raw_depth :: "'je RawJson \<Rightarrow> nat"
  and raw_depth_seq :: "'je RawJson list \<Rightarrow> nat"
  and raw_depth_map :: "(string \<times> 'je RawJson) list \<Rightarrow> nat" where
  "raw_depth (RawSeq es tail) = 1 + raw_depth_seq es"
| "raw_depth (RawMap es tail) = 1 + raw_depth_map es"
| "raw_depth _ = 1"
| "raw_depth_seq [] = 0"
| "raw_depth_seq (raw # es) = max (raw_depth raw) (raw_depth_seq es)"
| "raw_depth_map [] = 0"
| "raw_depth_map ((k, raw) # es) = max (raw_depth raw) (raw_depth_map es)"

definition json_within_budget :: "JsonBudget \<Rightarrow> nat \<Rightarrow> nat \<Rightarrow> bool" where
  "json_within_budget b depth nodes \<longleftrightarrow> depth \<le> jl_depth (jb_limits b) \<and> jb_nodes b + nodes \<le> jl_nodes (jb_limits b)"

definition spend :: "JsonBudget \<Rightarrow> nat \<Rightarrow> JsonBudget" where
  "spend b n = b\<lparr>jb_nodes := jb_nodes b + n\<rparr>"

lemma spend_simps [simp]:
  "spend (spend b m) n = spend b (m + n)" "jb_limits (spend b n) = jb_limits b" "jb_nodes (spend b n) = jb_nodes b + n"
  "spend b 0 = b"
  by (simp_all add: spend_def)

lemma budget_claim_Inr:
  "budget_claim custom depth b = (Inr u, b') \<longleftrightarrow> json_within_budget b depth 1 \<and> b' = spend b 1"
  by (auto simp: budget_claim_def json_within_budget_def spend_def)

lemma raw_nodes_pos: "raw_nodes raw \<ge> 1" "raw_depth raw \<ge> 1"
  by (cases raw; simp)+

text \<open>
  The iterative budget checks accept exactly the documents whose whole depth and node count
  fit: a depth or count that is exceeded anywhere is found, and none is reported wrongly.
\<close>

lemma visitor_exact:
  fixes custom :: "string \<Rightarrow> 'je"
  shows "seed_deserialize custom depth raw b = (Inr v, b') \<longleftrightarrow>
      raw_value raw = Some v \<and> json_within_budget b (depth + raw_depth raw - 1) (raw_nodes raw) \<and>
      b' = spend b (raw_nodes raw)"
    and "json_within_budget b depth 0 \<Longrightarrow> visit_seq custom depth es tail vs b = (Inr v, b') \<longleftrightarrow>
      tail = None \<and> (\<exists>us. raw_elements es = Some us \<and> v = JArray (vs @ us)) \<and>
      json_within_budget b (depth + raw_depth_seq es) (raw_nodes_seq es) \<and> b' = spend b (raw_nodes_seq es)"
    and "json_within_budget b depth 0 \<Longrightarrow> visit_map custom depth ms tail ws ks b = (Inr v, b') \<longleftrightarrow>
      tail = None \<and> distinct (map fst ms) \<and> (\<forall>k \<in> fst ` set ms. \<not> bs_contains ks k) \<and>
      (\<exists>us. raw_entries ms = Some us \<and> v = JObject (fold (\<lambda>(k, v). bt_insert k v) us ws)) \<and>
      json_within_budget b (depth + raw_depth_map ms) (raw_nodes_map ms) \<and> b' = spend b (raw_nodes_map ms)"
proof (induction custom depth raw b and custom depth es tail vs b and custom depth ms tail ws ks b
    arbitrary: v b' and v b' and v b' rule: seed_deserialize_visit_seq_visit_map.induct)
  case (1 custom depth raw b)
  show ?case
  proof (cases "json_within_budget b depth 1")
    case False
    then have "\<not> json_within_budget b (depth + raw_depth raw - 1) (raw_nodes raw)"
      using raw_nodes_pos [of raw] by (auto simp: json_within_budget_def)
    moreover obtain e b1 where "budget_claim custom depth b = (Inl e, b1)"
      using False budget_claim_Inr [of custom depth b "()"]
      by (cases "budget_claim custom depth b") (auto split: sum.splits, metis obj_sumE old.unit.exhaust)
    ultimately show ?thesis by (simp add: seed_deserialize.simps)
  next
    case True
    then have claim: "budget_claim custom depth b = (Inr (), spend b 1)"
      by (simp add: budget_claim_Inr)
    have room: "json_within_budget (spend b 1) depth 0"
      using True by (simp add: json_within_budget_def)
    note IH = "1.IH" [OF claim [symmetric] refl]
    show ?thesis
    proof (cases raw)
      case (RawSeq es tail)
      with IH(1) [OF RawSeq room] claim show ?thesis
        by (auto simp: seed_deserialize.simps json_within_budget_def)
    next
      case (RawMap es tail)
      with IH(2) [OF RawMap room] claim show ?thesis
        by (auto simp: seed_deserialize.simps json_within_budget_def)
    qed (use True claim in \<open>auto simp: seed_deserialize.simps json_within_budget_def ok_or_def split: option.splits\<close>)
  qed
next
  case (3 custom depth raw es tail vs b)
  note step = "3.IH"(1)
  show ?case
  proof (cases "seed_deserialize custom (depth + 1) raw b")
    case (Pair r b1)
    show ?thesis
    proof (cases r)
      case (Inl e)
      with Pair step have "raw_value raw = None \<or> \<not> json_within_budget b (depth + raw_depth raw) (raw_nodes raw)"
        by fastforce
      with Pair Inl show ?thesis
        by (auto simp: json_within_budget_def split: option.splits)
    next
      case (Inr u)
      with Pair step [of u b1] have u: "raw_value raw = Some u" "json_within_budget b (depth + raw_depth raw) (raw_nodes raw)"
        "b1 = spend b (raw_nodes raw)"
        by simp_all
      then have "json_within_budget b1 depth 0"
        by (simp add: json_within_budget_def)
      from "3.IH"(2) [OF Pair [unfolded Inr, symmetric] refl this] Pair Inr u show ?thesis
        by (auto simp: json_within_budget_def)
    qed
  qed
next
  case (5 custom depth key raw es tail vs ks b)
  show ?case
  proof (cases "bs_contains ks key")
    case False
    note step = "5.IH"(1) [OF False]
    show ?thesis
    proof (cases "seed_deserialize custom (depth + 1) raw b")
      case (Pair r b1)
      show ?thesis
      proof (cases r)
        case (Inl e)
        with Pair step have "raw_value raw = None \<or> \<not> json_within_budget b (depth + raw_depth raw) (raw_nodes raw)"
          by fastforce
        with Pair Inl False show ?thesis
          by (auto simp: json_within_budget_def split: option.splits)
      next
        case (Inr u)
        with Pair step [of u b1] have u: "raw_value raw = Some u" "json_within_budget b (depth + raw_depth raw) (raw_nodes raw)"
          "b1 = spend b (raw_nodes raw)"
          by simp_all
        then have "json_within_budget b1 depth 0"
          by (simp add: json_within_budget_def)
        from "5.IH"(2) [OF False Pair [unfolded Inr, symmetric] refl this] Pair Inr u False show ?thesis
          by (auto simp: json_within_budget_def)
      qed
    qed
  qed auto
qed (auto simp: json_within_budget_def split: option.splits)

lemma seed_Inr:
  "fst (seed_deserialize custom depth raw b) = Inr v \<longleftrightarrow>
     raw_value raw = Some v \<and> json_within_budget b (depth + raw_depth raw - 1) (raw_nodes raw)"
  by (metis fst_conv prod.collapse visitor_exact(1))

lemma parse_bounded_json_Inr:
  "parse_bounded_json tokens custom bs limits = Inr v \<longleftrightarrow>
     raw_value (fst (tokens bs)) = Some v \<and> snd (tokens bs) = None \<and>
     raw_depth (fst (tokens bs)) \<le> jl_depth limits \<and> raw_nodes (fst (tokens bs)) \<le> jl_nodes limits"
proof -
  let ?b = "\<lparr>jb_limits = limits, jb_nodes = 0, jb_violation = None\<rparr>"
  let ?r = "seed_deserialize custom 1 (fst (tokens bs)) ?b"
  have "parse_bounded_json tokens custom bs limits = Inr v \<longleftrightarrow> fst ?r = Inr v \<and> snd (tokens bs) = None"
    unfolding parse_bounded_json_def by (cases ?r; cases "fst ?r"; cases "snd (tokens bs)") simp_all
  then show ?thesis
    unfolding seed_Inr by (simp add: json_within_budget_def) blast
qed

text \<open>The shapes of a message: what each kind of message has and has not.\<close>

fun request_id_of :: "JsonValue \<Rightarrow> AppServerRequestId option" where
  "request_id_of (JNumber (PosInt n)) = Some (Unsigned n)"
| "request_id_of (JNumber (NegInt n)) = Some (Signed n)"
| "request_id_of (JString s) = (if identity_text MAX_REQUEST_ID_BYTES s then Some (Text s) else None)"
| "request_id_of _ = None"

lemma parse_request_id_Inr: "parse_request_id v = Inr i \<longleftrightarrow> request_id_of v = Some i"
  by (cases v rule: request_id_of.cases) auto

declare parse_request_id.simps [simp del]

inductive message_shape :: "(string \<rightharpoonup> JsonValue) \<Rightarrow> ClassifiedMessage \<Rightarrow> bool" where
  notification: "object ''method'' = Some (JString name) \<Longrightarrow> identity_text MAX_METHOD_BYTES name \<Longrightarrow>
    object ''id'' = None \<Longrightarrow> object ''result'' = None \<Longrightarrow> object ''error'' = None \<Longrightarrow>
    message_shape object \<lparr>cm_kind = Notification, cm_method = Some name, cm_request_id = None\<rparr>"
| request: "object ''method'' = Some (JString name) \<Longrightarrow> identity_text MAX_METHOD_BYTES name \<Longrightarrow>
    object ''id'' = Some v \<Longrightarrow> request_id_of v = Some i \<Longrightarrow> object ''result'' = None \<Longrightarrow> object ''error'' = None \<Longrightarrow>
    message_shape object \<lparr>cm_kind = Request, cm_method = Some name, cm_request_id = Some i\<rparr>"
| success: "object ''method'' = None \<Longrightarrow> object ''id'' = Some v \<Longrightarrow> v = JNull \<or> request_id_of v \<noteq> None \<Longrightarrow>
    object ''result'' = Some r \<Longrightarrow> object ''error'' = None \<Longrightarrow>
    message_shape object \<lparr>cm_kind = SuccessResponse, cm_method = None, cm_request_id = request_id_of v\<rparr>"
| failure: "object ''method'' = None \<Longrightarrow> object ''id'' = Some v \<Longrightarrow> v = JNull \<or> request_id_of v \<noteq> None \<Longrightarrow>
    object ''result'' = None \<Longrightarrow> object ''error'' = Some r \<Longrightarrow>
    message_shape object \<lparr>cm_kind = ErrorResponse, cm_method = None, cm_request_id = request_id_of v\<rparr>"

lemma as_method_Some: "as_method v = Some name \<longleftrightarrow> v = JString name \<and> identity_text MAX_METHOD_BYTES name"
  by (auto simp: as_method_def split: JsonValue.splits if_splits)

lemma response_id_Inr:
  "(case v of JNull \<Rightarrow> Inr None | _ \<Rightarrow> rbind (parse_request_id v) (\<lambda>i. Inr (Some i))) = Inr r \<longleftrightarrow>
     (v = JNull \<or> request_id_of v \<noteq> None) \<and> r = request_id_of v"
  by (cases "v = JNull") (auto simp: rbind_Inr_iff parse_request_id_Inr split: JsonValue.splits)

lemma classify_with_method:
  assumes "bt_get object ''method'' = Some w"
  shows "classify_object object = Inr m \<longleftrightarrow>
     bt_get object ''result'' = None \<and> bt_get object ''error'' = None \<and>
     (\<exists>name. as_method w = Some name \<and>
       (case bt_get object ''id'' of
          None \<Rightarrow> m = \<lparr>cm_kind = Notification, cm_method = Some name, cm_request_id = None\<rparr>
        | Some v \<Rightarrow> \<exists>i. request_id_of v = Some i \<and>
            m = \<lparr>cm_kind = Request, cm_method = Some name, cm_request_id = Some i\<rparr>))"
  using assms
  by (cases "bt_get object ''id''"; cases "bt_get object ''result''"; cases "bt_get object ''error''"; cases "as_method w")
    (simp_all add: classify_object_def rbind_Inr_iff parse_request_id_Inr, auto)

lemma classify_without_method:
  assumes "bt_get object ''method'' = None"
  shows "classify_object object = Inr m \<longleftrightarrow>
     (\<exists>v. bt_get object ''id'' = Some v \<and> (v = JNull \<or> request_id_of v \<noteq> None) \<and>
       (bt_get object ''result'' = None) \<noteq> (bt_get object ''error'' = None) \<and>
       m = \<lparr>cm_kind = (if bt_get object ''result'' = None then ErrorResponse else SuccessResponse),
         cm_method = None, cm_request_id = request_id_of v\<rparr>)"
  using assms
  by (cases "bt_get object ''id''"; cases "bt_get object ''result''"; cases "bt_get object ''error''")
    (simp_all add: classify_object_def rbind_Inr_iff response_id_Inr, auto)

lemma classify_object_Inr: "classify_object object = Inr m \<longleftrightarrow> message_shape (bt_get object) m"
proof (cases "bt_get object ''method''")
  case None
  show ?thesis
    unfolding classify_without_method [OF None]
    by (auto simp: message_shape.simps None)
next
  case (Some w)
  show ?thesis
    unfolding classify_with_method [OF Some]
    by (auto simp: message_shape.simps Some as_method_Some split: option.splits)
qed

text \<open>
  C28: a line is classified exactly when it is a delimiter-free, not blank line within the
  byte limit whose document is complete, within the depth and node limits, without a
  duplicate key at any level, and one of the four protocol shapes; the classification is
  then the one of that shape. In particular the visitor, which checks while it reads,
  accepts the same documents as a check of the whole tree.
\<close>

theorem parse_and_classify_exact:
  "parse_and_classify tokens custom line limits = Inr m \<longleftrightarrow>
     \<not> list_all is_ascii_whitespace line \<and> 0x0D \<notin> set line \<and> 0x0A \<notin> set line \<and>
     length line \<le> pl_line_bytes limits \<and> snd (tokens line) = None \<and>
     raw_depth (fst (tokens line)) \<le> jl_depth (pl_json limits) \<and>
     raw_nodes (fst (tokens line)) \<le> jl_nodes (pl_json limits) \<and>
     (\<exists>object. raw_value (fst (tokens line)) = Some (JObject object) \<and> message_shape (bt_get object) m)"
proof -
  have "(case v of JObject object \<Rightarrow> classify_object object | _ \<Rightarrow> Inl TopLevelNotObject) = Inr m \<longleftrightarrow>
      (\<exists>object. v = JObject object \<and> message_shape (bt_get object) m)" for v
    by (cases v) (auto simp: classify_object_Inr)
  moreover have "list_ex (\<lambda>b. b \<in> {0x0D, 0x0A}) line \<longleftrightarrow> 0x0D \<in> set line \<or> 0x0A \<in> set line"
    by (auto simp: list_ex_iff)
  ultimately show ?thesis
    unfolding parse_and_classify_def by (auto simp: rbind_Inr_iff parse_bounded_json_Inr if_Inl_Inr)
qed

end
