(* ===== verification/App_Server_Proxy.thy ===== *)
theory App_Server_Proxy
  imports App_Server_Json "HOL-Library.Product_Lexorder"
begin

section \<open>The app-server proxy\<close>

text \<open>
  The stateful half of \<open>weregopher-adapter-openai/src/app_server_proxy.rs\<close>: two bounded
  queues, the active requests of each origin, the digests of retired request identities,
  the last observed time and the counters. Parameters: \<open>sha256\<close>, and \<open>add_instant\<close> for
  \<open>Instant::checked_add\<close>, whose range depends on the platform. A \<open>&mut self\<close> method
  returns its result and the new state; the places where a method changes the state before
  it can still fail are kept.
\<close>

subsection \<open>Request identities\<close>

text \<open>The derived order: by constructor, then by the numeric or textual value.\<close>

fun request_id_key :: "AppServerRequestId \<Rightarrow> nat \<times> int \<times> string" where
  "request_id_key (Unsigned n) = (0, uint n, [])"
| "request_id_key (Signed n) = (1, sint n, [])"
| "request_id_key (Text t) = (2, 0, t)"

lemma request_id_key_inject: "request_id_key a = request_id_key b \<longleftrightarrow> a = b"
  by (cases a; cases b) (auto dest: signed_word_eqI unsigned_word_eqI)

instantiation AppServerRequestId :: linorder
begin

definition less_eq_AppServerRequestId :: "AppServerRequestId \<Rightarrow> AppServerRequestId \<Rightarrow> bool" where
  "less_eq_AppServerRequestId a b \<longleftrightarrow> request_id_key a \<le> request_id_key b"

definition less_AppServerRequestId :: "AppServerRequestId \<Rightarrow> AppServerRequestId \<Rightarrow> bool" where
  "less_AppServerRequestId a b \<longleftrightarrow> request_id_key a < request_id_key b"

instance
  by standard
    (auto simp: less_eq_AppServerRequestId_def less_AppServerRequestId_def request_id_key_inject [symmetric]
      not_le)

end

text \<open>\<open>b"weregopher.app-server-request-id.v1\0"\<close>.\<close>

definition REQUEST_ID_DIGEST_DOMAIN :: bytes where
  "REQUEST_ID_DIGEST_DOMAIN = map char_byte ''weregopher.app-server-request-id.v1'' @ [0]"

fun request_id_preimage :: "AppServerRequestId \<Rightarrow> bytes" where
  "request_id_preimage (Unsigned n) = REQUEST_ID_DIGEST_DOMAIN @ [0] @ to_be 8 (unat n)"
| "request_id_preimage (Signed n) = REQUEST_ID_DIGEST_DOMAIN @ [1] @ to_be 8 (unat n)"
| "request_id_preimage (Text t) = REQUEST_ID_DIGEST_DOMAIN @ [2] @
     to_be 8 (if length t < 2 ^ 64 then length t else 2 ^ 64 - 1) @ map char_byte t"

definition request_id_digest :: "(bytes \<Rightarrow> bytes) \<Rightarrow> AppServerRequestId \<Rightarrow> bytes" where
  "request_id_digest sha256 i = sha256 (request_id_preimage i)"

subsection \<open>State\<close>

record AppServerMessageObservation =
  mo_direction :: AppServerProxyDirection
  mo_kind :: AppServerProxyMessageKind
  mo_method :: "string option"
  mo_request_id :: "AppServerRequestId option"
  mo_byte_length :: usize

record AppServerProxyFrame =
  fr_observation :: AppServerMessageObservation
  fr_json_bytes :: bytes

record AppServerProxyCandidate =
  cd_prepared_limits :: AppServerProxyLimits
  cd_observation :: AppServerMessageObservation
  cd_json_bytes :: bytes

record AppServerExpiredRequest =
  ex_origin :: AppServerProxyDirection
  ex_request_id :: AppServerRequestId

datatype AppServerProxyState = ProxyOpen | ProxyClosed

datatype ActiveRequestState = Queued | Pending instant

datatype ResponseAction = NoAction | Complete | Late | Unmatched

record ProxyCounters =
  pc_accepted_client_messages :: u64
  pc_accepted_server_messages :: u64
  pc_accepted_client_bytes :: u64
  pc_accepted_server_bytes :: u64
  pc_forwarded_to_server_messages :: u64
  pc_forwarded_to_client_messages :: u64
  pc_late_responses :: u64
  pc_unmatched_responses :: u64
  pc_expired_requests :: u64

record ProxyQueue =
  pq_direction :: AppServerProxyDirection
  pq_limits :: AppServerQueueLimits
  pq_frames :: "AppServerProxyFrame list"
  pq_bytes :: usize
  pq_peak_messages :: usize
  pq_peak_bytes :: usize

record TransparentAppServerProxy =
  px_limits :: AppServerProxyLimits
  px_state :: AppServerProxyState
  px_to_server :: ProxyQueue
  px_to_client :: ProxyQueue
  px_client_requests :: "(AppServerRequestId \<times> ActiveRequestState) list"
  px_server_requests :: "(AppServerRequestId \<times> ActiveRequestState) list"
  px_client_request_history :: "(bytes \<times> unit) list"
  px_server_request_history :: "(bytes \<times> unit) list"
  px_last_observed_time :: "instant option"
  px_counters :: ProxyCounters

subsection \<open>Queues\<close>

definition queue_new :: "AppServerProxyDirection \<Rightarrow> AppServerQueueLimits \<Rightarrow> ProxyQueue" where
  "queue_new direction limits = \<lparr>pq_direction = direction, pq_limits = limits, pq_frames = [], pq_bytes = 0,
     pq_peak_messages = 0, pq_peak_bytes = 0\<rparr>"

definition ensure_capacity :: "ProxyQueue \<Rightarrow> usize \<Rightarrow> 'je AppServerProxyError + unit" where
  "ensure_capacity q bs =
     (if length (pq_frames q) \<ge> ql_messages (pq_limits q) then Inl (QueueMessageLimitExceeded (pq_direction q))
      else rbind (ok_or (QueueByteLimitExceeded (pq_direction q)) (checked_add_usize (pq_bytes q) bs)) (\<lambda>next_bytes.
      if next_bytes > ql_bytes (pq_limits q) then Inl (QueueByteLimitExceeded (pq_direction q)) else Inr ()))"

definition push_after_capacity_check :: "ProxyQueue \<Rightarrow> AppServerProxyFrame \<Rightarrow> ProxyQueue" where
  "push_after_capacity_check q frame =
     (let bs = pq_bytes q + length (fr_json_bytes frame); frames = pq_frames q @ [frame] in
      q\<lparr>pq_bytes := bs, pq_frames := frames, pq_peak_messages := max (pq_peak_messages q) (length frames),
        pq_peak_bytes := max (pq_peak_bytes q) bs\<rparr>)"

definition queue_pop :: "ProxyQueue \<Rightarrow> ('je AppServerProxyError + AppServerProxyFrame option) \<times> ProxyQueue" where
  "queue_pop q =
     (case pq_frames q of
        [] \<Rightarrow> (Inr None, q)
      | front # frames \<Rightarrow>
          if length (fr_json_bytes front) \<le> pq_bytes q
          then (Inr (Some front), q\<lparr>pq_frames := frames, pq_bytes := pq_bytes q - length (fr_json_bytes front)\<rparr>)
          else (Inl InconsistentCorrelationState, q))"

definition queue_front :: "ProxyQueue \<Rightarrow> AppServerProxyFrame option" where
  "queue_front q = (case pq_frames q of [] \<Rightarrow> None | front # _ \<Rightarrow> Some front)"

definition queue_clear :: "ProxyQueue \<Rightarrow> (usize \<times> usize) \<times> ProxyQueue" where
  "queue_clear q = ((length (pq_frames q), pq_bytes q), q\<lparr>pq_frames := [], pq_bytes := 0\<rparr>)"

subsection \<open>Accessors by direction\<close>

fun px_queue :: "AppServerProxyDirection \<Rightarrow> TransparentAppServerProxy \<Rightarrow> ProxyQueue" where
  "px_queue ClientToServer s = px_to_server s"
| "px_queue ServerToClient s = px_to_client s"

fun px_set_queue :: "AppServerProxyDirection \<Rightarrow> ProxyQueue \<Rightarrow> TransparentAppServerProxy \<Rightarrow> TransparentAppServerProxy" where
  "px_set_queue ClientToServer q s = s\<lparr>px_to_server := q\<rparr>"
| "px_set_queue ServerToClient q s = s\<lparr>px_to_client := q\<rparr>"

fun px_requests ::
    "AppServerProxyDirection \<Rightarrow> TransparentAppServerProxy \<Rightarrow> (AppServerRequestId \<times> ActiveRequestState) list" where
  "px_requests ClientToServer s = px_client_requests s"
| "px_requests ServerToClient s = px_server_requests s"

fun px_set_requests ::
    "AppServerProxyDirection \<Rightarrow> (AppServerRequestId \<times> ActiveRequestState) list \<Rightarrow> TransparentAppServerProxy \<Rightarrow>
     TransparentAppServerProxy" where
  "px_set_requests ClientToServer m s = s\<lparr>px_client_requests := m\<rparr>"
| "px_set_requests ServerToClient m s = s\<lparr>px_server_requests := m\<rparr>"

fun px_history :: "AppServerProxyDirection \<Rightarrow> TransparentAppServerProxy \<Rightarrow> (bytes \<times> unit) list" where
  "px_history ClientToServer s = px_client_request_history s"
| "px_history ServerToClient s = px_server_request_history s"

fun px_set_history ::
    "AppServerProxyDirection \<Rightarrow> (bytes \<times> unit) list \<Rightarrow> TransparentAppServerProxy \<Rightarrow> TransparentAppServerProxy" where
  "px_set_history ClientToServer m s = s\<lparr>px_client_request_history := m\<rparr>"
| "px_set_history ServerToClient m s = s\<lparr>px_server_request_history := m\<rparr>"

definition ensure_monotonic_time :: "TransparentAppServerProxy \<Rightarrow> instant \<Rightarrow> 'je AppServerProxyError + unit" where
  "ensure_monotonic_time s now =
     (case px_last_observed_time s of Some previous \<Rightarrow> ensure (\<not> now < previous) NonMonotonicClock | None \<Rightarrow> Inr ())"

definition u64_try_from :: "usize \<Rightarrow> u64 option" where
  "u64_try_from n = (if n < 2 ^ 64 then Some (of_nat n) else None)"

definition increment :: "u64 \<Rightarrow> 'je AppServerProxyError + u64" where
  "increment v = ok_or DiagnosticCounterOverflow (checked_add v 1)"

definition add_counter :: "u64 \<Rightarrow> u64 \<Rightarrow> 'je AppServerProxyError + u64" where
  "add_counter v n = ok_or DiagnosticCounterOverflow (checked_add v n)"

subsection \<open>Admission\<close>

definition proxy_new :: "AppServerProxyLimits \<Rightarrow> TransparentAppServerProxy" where
  "proxy_new limits = \<lparr>px_limits = limits, px_state = ProxyOpen,
     px_to_server = queue_new ClientToServer (pl_to_server limits),
     px_to_client = queue_new ServerToClient (pl_to_client limits),
     px_client_requests = [], px_server_requests = [], px_client_request_history = [],
     px_server_request_history = [], px_last_observed_time = None,
     px_counters = \<lparr>pc_accepted_client_messages = 0, pc_accepted_server_messages = 0, pc_accepted_client_bytes = 0,
       pc_accepted_server_bytes = 0, pc_forwarded_to_server_messages = 0, pc_forwarded_to_client_messages = 0,
       pc_late_responses = 0, pc_unmatched_responses = 0, pc_expired_requests = 0\<rparr>\<rparr>"

definition proxy_prepare ::
    "(bytes \<Rightarrow> 'je RawJson \<times> 'je option) \<Rightarrow> (string \<Rightarrow> 'je) \<Rightarrow> TransparentAppServerProxy \<Rightarrow> AppServerProxyDirection \<Rightarrow>
     bytes \<Rightarrow> 'je AppServerProxyError + AppServerProxyCandidate" where
  "proxy_prepare tokens custom s direction json_line =
     (if px_state s = ProxyClosed then Inl Closed
      else rbind (parse_and_classify tokens custom json_line (px_limits s)) (\<lambda>classified.
      Inr \<lparr>cd_prepared_limits = px_limits s,
        cd_observation = \<lparr>mo_direction = direction, mo_kind = cm_kind classified, mo_method = cm_method classified,
          mo_request_id = cm_request_id classified, mo_byte_length = length json_line\<rparr>,
        cd_json_bytes = json_line\<rparr>))"

definition preflight_request ::
    "(bytes \<Rightarrow> bytes) \<Rightarrow> TransparentAppServerProxy \<Rightarrow> AppServerMessageObservation \<Rightarrow> 'je AppServerProxyError + ResponseAction" where
  "preflight_request sha256 s obs =
     rbind (ok_or InconsistentCorrelationState (mo_request_id obs)) (\<lambda>request_id.
     if bt_get (px_requests (mo_direction obs) s) request_id \<noteq> None then Inl (DuplicateRequestId (mo_direction obs))
     else if bs_contains (px_history (mo_direction obs) s) (request_id_digest sha256 request_id)
     then Inl (ReusedRequestId (mo_direction obs))
     else rbind (ok_or ActiveRequestLimitExceeded
       (checked_add_usize (length (px_client_requests s)) (length (px_server_requests s)))) (\<lambda>active.
     if active \<ge> pl_active_requests (px_limits s) then Inl ActiveRequestLimitExceeded
     else rbind (ok_or RequestHistoryLimitExceeded
       (Option.bind (checked_add_usize active (length (px_client_request_history s)))
          (\<lambda>n. checked_add_usize n (length (px_server_request_history s))))) (\<lambda>tracked.
     if tracked \<ge> pl_request_history (px_limits s) then Inl RequestHistoryLimitExceeded
     else Inr NoAction)))"

definition preflight_response ::
    "(bytes \<Rightarrow> bytes) \<Rightarrow> TransparentAppServerProxy \<Rightarrow> AppServerMessageObservation \<Rightarrow> 'je AppServerProxyError + ResponseAction" where
  "preflight_response sha256 s obs =
     (case mo_request_id obs of
        None \<Rightarrow> Inr Unmatched
      | Some request_id \<Rightarrow>
          (let origin = opposite (mo_direction obs);
               retired = bs_contains (px_history origin s) (request_id_digest sha256 request_id) in
           case bt_get (px_requests origin s) request_id of
             Some (Pending _) \<Rightarrow> if \<not> retired then Inr Complete else Inl InconsistentCorrelationState
           | Some Queued \<Rightarrow> Inl ResponseBeforeRequestForwarded
           | None \<Rightarrow> if retired then Inr Late else Inr Unmatched))"

definition preflight_correlation ::
    "(bytes \<Rightarrow> bytes) \<Rightarrow> TransparentAppServerProxy \<Rightarrow> AppServerMessageObservation \<Rightarrow> 'je AppServerProxyError + ResponseAction" where
  "preflight_correlation sha256 s obs =
     (case mo_kind obs of
        Request \<Rightarrow> preflight_request sha256 s obs
      | SuccessResponse \<Rightarrow> preflight_response sha256 s obs
      | ErrorResponse \<Rightarrow> preflight_response sha256 s obs
      | Notification \<Rightarrow> Inr NoAction)"

definition retire_request ::
    "(bytes \<Rightarrow> bytes) \<Rightarrow> AppServerProxyDirection \<Rightarrow> AppServerRequestId \<Rightarrow> TransparentAppServerProxy \<Rightarrow>
     ('je AppServerProxyError + unit) \<times> TransparentAppServerProxy" where
  "retire_request sha256 origin request_id s =
     (let removed = bt_get (px_requests origin s) request_id;
          s1 = px_set_requests origin (bt_remove request_id (px_requests origin s)) s;
          digest = request_id_digest sha256 request_id in
      if removed = None then (Inl InconsistentCorrelationState, s1)
      else if bs_contains (px_history origin s1) digest then (Inl InconsistentCorrelationState, s1)
      else (Inr (), px_set_history origin (bt_insert digest () (px_history origin s1)) s1))"

definition apply_correlation ::
    "(bytes \<Rightarrow> bytes) \<Rightarrow> AppServerMessageObservation \<Rightarrow> ResponseAction \<Rightarrow> TransparentAppServerProxy \<Rightarrow>
     ('je AppServerProxyError + unit) \<times> TransparentAppServerProxy" where
  "apply_correlation sha256 obs action s =
     (if mo_kind obs = Request then
        (case mo_request_id obs of
           None \<Rightarrow> (Inl InconsistentCorrelationState, s)
         | Some request_id \<Rightarrow>
             (let previous = bt_get (px_requests (mo_direction obs) s) request_id;
                  s' = px_set_requests (mo_direction obs)
                    (bt_insert request_id Queued (px_requests (mo_direction obs) s)) s in
              if previous \<noteq> None then (Inl InconsistentCorrelationState, s') else (Inr (), s')))
      else if mo_kind obs \<in> {SuccessResponse, ErrorResponse} \<and> action = Complete then
        (case mo_request_id obs of
           None \<Rightarrow> (Inl InconsistentCorrelationState, s)
         | Some request_id \<Rightarrow> retire_request sha256 (opposite (mo_direction obs)) request_id s)
      else (Inr (), s))"

text \<open>The counters a message would advance to, in the order in which they are computed.\<close>

definition admit_counters ::
    "AppServerProxyDirection \<Rightarrow> usize \<Rightarrow> ResponseAction \<Rightarrow> ProxyCounters \<Rightarrow> 'je AppServerProxyError + ProxyCounters" where
  "admit_counters direction len action c =
     rbind (ok_or DiagnosticCounterOverflow (u64_try_from len)) (\<lambda>byte_length.
     rbind (case direction of
         ClientToServer \<Rightarrow>
           rbind (increment (pc_accepted_client_messages c)) (\<lambda>m.
           rbind (add_counter (pc_accepted_client_bytes c) byte_length) (\<lambda>b.
           Inr (c\<lparr>pc_accepted_client_messages := m, pc_accepted_client_bytes := b\<rparr>)))
       | ServerToClient \<Rightarrow>
           rbind (increment (pc_accepted_server_messages c)) (\<lambda>m.
           rbind (add_counter (pc_accepted_server_bytes c) byte_length) (\<lambda>b.
           Inr (c\<lparr>pc_accepted_server_messages := m, pc_accepted_server_bytes := b\<rparr>)))) (\<lambda>c1.
     rbind (if action = Unmatched then increment (pc_unmatched_responses c) else Inr (pc_unmatched_responses c))
       (\<lambda>next_unmatched.
     rbind (if action = Late then increment (pc_late_responses c) else Inr (pc_late_responses c)) (\<lambda>next_late.
     Inr (c1\<lparr>pc_late_responses := next_late, pc_unmatched_responses := next_unmatched\<rparr>)))))"

definition admit_checks ::
    "(bytes \<Rightarrow> bytes) \<Rightarrow> TransparentAppServerProxy \<Rightarrow> AppServerProxyCandidate \<Rightarrow>
     'je AppServerProxyError + ResponseAction \<times> ProxyCounters" where
  "admit_checks sha256 s candidate =
     (if px_state s = ProxyClosed then Inl Closed
      else rbind (ensure_capacity (px_queue (mo_direction (cd_observation candidate)) s) (length (cd_json_bytes candidate)))
        (\<lambda>_.
      rbind (preflight_correlation sha256 s (cd_observation candidate)) (\<lambda>action.
      rbind (admit_counters (mo_direction (cd_observation candidate)) (length (cd_json_bytes candidate)) action
        (px_counters s)) (\<lambda>c. Inr (action, c)))))"

definition admit_candidate ::
    "(bytes \<Rightarrow> bytes) \<Rightarrow> TransparentAppServerProxy \<Rightarrow> AppServerProxyCandidate \<Rightarrow>
     ('je AppServerProxyError + AppServerMessageObservation) \<times> TransparentAppServerProxy" where
  "admit_candidate sha256 s candidate =
     (let obs = cd_observation candidate; direction = mo_direction obs in
      case admit_checks sha256 s candidate of
        Inl e \<Rightarrow> (Inl e, s)
      | Inr (action, c) \<Rightarrow>
          (case apply_correlation sha256 obs action s of
             (Inl e, s1) \<Rightarrow> (Inl e, s1)
           | (Inr _, s1) \<Rightarrow>
               (Inr obs, (px_set_queue direction (push_after_capacity_check (px_queue direction s1)
                  \<lparr>fr_observation = obs, fr_json_bytes = cd_json_bytes candidate\<rparr>) s1)\<lparr>px_counters := c\<rparr>)))"

definition proxy_admit ::
    "(bytes \<Rightarrow> bytes) \<Rightarrow> TransparentAppServerProxy \<Rightarrow> AppServerProxyCandidate \<Rightarrow>
     ('je AppServerProxyError + AppServerMessageObservation) \<times> TransparentAppServerProxy" where
  "proxy_admit sha256 s candidate =
     (if px_state s = ProxyClosed then (Inl Closed, s)
      else if cd_prepared_limits candidate \<noteq> px_limits s then (Inl CandidateLimitsMismatch, s)
      else admit_candidate sha256 s candidate)"

definition proxy_ingest ::
    "(bytes \<Rightarrow> 'je RawJson \<times> 'je option) \<Rightarrow> (string \<Rightarrow> 'je) \<Rightarrow> (bytes \<Rightarrow> bytes) \<Rightarrow> TransparentAppServerProxy \<Rightarrow>
     AppServerProxyDirection \<Rightarrow> bytes \<Rightarrow>
     ('je AppServerProxyError + AppServerMessageObservation) \<times> TransparentAppServerProxy" where
  "proxy_ingest tokens custom sha256 s direction json_line =
     (case proxy_prepare tokens custom s direction json_line of
        Inl e \<Rightarrow> (Inl e, s)
      | Inr candidate \<Rightarrow> admit_candidate sha256 s candidate)"

subsection \<open>Release, expiry, closing\<close>

definition release_counter ::
    "AppServerProxyDirection \<Rightarrow> ProxyCounters \<Rightarrow> 'je AppServerProxyError + ProxyCounters" where
  "release_counter direction c =
     (case direction of
        ClientToServer \<Rightarrow> rbind (increment (pc_forwarded_to_server_messages c)) (\<lambda>n.
          Inr (c\<lparr>pc_forwarded_to_server_messages := n\<rparr>))
      | ServerToClient \<Rightarrow> rbind (increment (pc_forwarded_to_client_messages c)) (\<lambda>n.
          Inr (c\<lparr>pc_forwarded_to_client_messages := n\<rparr>)))"

definition release_deadline ::
    "(instant \<Rightarrow> duration \<Rightarrow> instant option) \<Rightarrow> TransparentAppServerProxy \<Rightarrow> AppServerProxyFrame \<Rightarrow> instant \<Rightarrow>
     'je AppServerProxyError + (AppServerRequestId \<times> instant) option" where
  "release_deadline add_instant s front now =
     (case (if mo_kind (fr_observation front) = Request then mo_request_id (fr_observation front) else None) of
        None \<Rightarrow> Inr None
      | Some request_id \<Rightarrow>
          rbind (ok_or DeadlineOverflow (add_instant now (pl_request_timeout (px_limits s)))) (\<lambda>deadline.
          Inr (Some (request_id, deadline))))"

definition start_deadline ::
    "AppServerProxyDirection \<Rightarrow> (AppServerRequestId \<times> instant) option \<Rightarrow> TransparentAppServerProxy \<Rightarrow>
     'je AppServerProxyError + TransparentAppServerProxy" where
  "start_deadline direction r s =
     (case r of
        None \<Rightarrow> Inr s
      | Some (request_id, deadline) \<Rightarrow>
          (case bt_get (px_requests direction s) request_id of
             Some Queued \<Rightarrow> Inr (px_set_requests direction
               (bt_insert request_id (Pending deadline) (px_requests direction s)) s)
           | _ \<Rightarrow> Inl InconsistentCorrelationState))"

definition proxy_release ::
    "(instant \<Rightarrow> duration \<Rightarrow> instant option) \<Rightarrow> TransparentAppServerProxy \<Rightarrow> AppServerProxyDirection \<Rightarrow> instant \<Rightarrow>
     ('je AppServerProxyError + AppServerProxyFrame option) \<times> TransparentAppServerProxy" where
  "proxy_release add_instant s direction now =
     (case ensure_monotonic_time s now of
        Inl e \<Rightarrow> (Inl e, s)
      | Inr _ \<Rightarrow>
      (case queue_front (px_queue direction s) of
        None \<Rightarrow> (Inr None, s\<lparr>px_last_observed_time := Some now\<rparr>)
      | Some front \<Rightarrow>
      (case rbind (release_deadline add_instant s front now) (\<lambda>r.
          rbind (release_counter direction (px_counters s)) (\<lambda>c.
          rbind (start_deadline direction r s) (\<lambda>s1. Inr (c, s1)))) of
        Inl e \<Rightarrow> (Inl e, s)
      | Inr (c, s1) \<Rightarrow>
      (case queue_pop (px_queue direction s1) of
        (Inl e, q) \<Rightarrow> (Inl e, px_set_queue direction q s1)
      | (Inr None, q) \<Rightarrow> (Inl InconsistentCorrelationState, px_set_queue direction q s1)
      | (Inr (Some frame), q) \<Rightarrow>
          (Inr (Some frame), (px_set_queue direction q s1)\<lparr>px_counters := c, px_last_observed_time := Some now\<rparr>)))))"

definition pending_count :: "(AppServerRequestId \<times> ActiveRequestState) list \<Rightarrow> usize" where
  "pending_count requests = length (filter (\<lambda>(_, st). st \<noteq> Queued) requests)"

definition expired_direction ::
    "(AppServerRequestId \<times> ActiveRequestState) list \<Rightarrow> AppServerProxyDirection \<Rightarrow> instant \<Rightarrow> AppServerExpiredRequest list" where
  "expired_direction requests origin now =
     map (\<lambda>(i, _). \<lparr>ex_origin = origin, ex_request_id = i\<rparr>)
       (filter (\<lambda>(_, st). case st of Pending deadline \<Rightarrow> deadline \<le> now | Queued \<Rightarrow> False) requests)"

fun expire_check ::
    "(bytes \<Rightarrow> bytes) \<Rightarrow> AppServerExpiredRequest list \<Rightarrow> TransparentAppServerProxy \<Rightarrow> 'je AppServerProxyError + unit" where
  "expire_check sha256 [] s = Inr ()"
| "expire_check sha256 (r # rs) s =
     (if bs_contains (px_history (ex_origin r) s) (request_id_digest sha256 (ex_request_id r))
      then Inl InconsistentCorrelationState else expire_check sha256 rs s)"

fun expire_apply ::
    "(bytes \<Rightarrow> bytes) \<Rightarrow> AppServerExpiredRequest list \<Rightarrow> TransparentAppServerProxy \<Rightarrow>
     ('je AppServerProxyError + unit) \<times> TransparentAppServerProxy" where
  "expire_apply sha256 [] s = (Inr (), s)"
| "expire_apply sha256 (r # rs) s =
     (case retire_request sha256 (ex_origin r) (ex_request_id r) s of
        (Inl e, s') \<Rightarrow> (Inl e, s')
      | (Inr _, s') \<Rightarrow> expire_apply sha256 rs s')"

definition proxy_expire ::
    "(bytes \<Rightarrow> bytes) \<Rightarrow> TransparentAppServerProxy \<Rightarrow> instant \<Rightarrow>
     ('je AppServerProxyError + AppServerExpiredRequest list) \<times> TransparentAppServerProxy" where
  "proxy_expire sha256 s now =
     (let expired = expired_direction (px_client_requests s) ClientToServer now @
                    expired_direction (px_server_requests s) ServerToClient now in
      case rbind (ensure_monotonic_time s now) (\<lambda>_.
          rbind (ok_or DiagnosticCounterOverflow (u64_try_from (length expired))) (\<lambda>count.
          rbind (add_counter (pc_expired_requests (px_counters s)) count) (\<lambda>next_expired.
          rbind (expire_check sha256 expired s) (\<lambda>_. Inr next_expired)))) of
        Inl e \<Rightarrow> (Inl e, s)
      | Inr next_expired \<Rightarrow>
      (case expire_apply sha256 expired s of
        (Inl e, s') \<Rightarrow> (Inl e, s')
      | (Inr _, s') \<Rightarrow>
          (Inr expired, s'\<lparr>px_counters := (px_counters s')\<lparr>pc_expired_requests := next_expired\<rparr>,
            px_last_observed_time := Some now\<rparr>)))"

record AppServerProxyCloseReport =
  cr_messages :: usize
  cr_bytes :: usize
  cr_requests :: usize
  cr_request_history :: usize

definition saturating_add_usize :: "usize \<Rightarrow> usize \<Rightarrow> usize" where
  "saturating_add_usize a b = min (a + b) (2 ^ 64 - 1)"

definition proxy_close :: "TransparentAppServerProxy \<Rightarrow> AppServerProxyCloseReport \<times> TransparentAppServerProxy" where
  "proxy_close s =
     (let ((to_server_messages, to_server_bytes), to_server) = queue_clear (px_to_server s);
          ((to_client_messages, to_client_bytes), to_client) = queue_clear (px_to_client s) in
      (\<lparr>cr_messages = saturating_add_usize to_server_messages to_client_messages,
         cr_bytes = saturating_add_usize to_server_bytes to_client_bytes,
         cr_requests = saturating_add_usize (length (px_client_requests s)) (length (px_server_requests s)),
         cr_request_history = saturating_add_usize (length (px_client_request_history s))
           (length (px_server_request_history s))\<rparr>,
       s\<lparr>px_to_server := to_server, px_to_client := to_client, px_client_requests := [], px_server_requests := [],
         px_client_request_history := [], px_server_request_history := [], px_state := ProxyClosed\<rparr>))"

record AppServerProxyDiagnostics =
  dg_state :: AppServerProxyState
  dg_counters :: ProxyCounters
  dg_queued_to_server_messages :: usize
  dg_queued_to_client_messages :: usize
  dg_queued_to_server_bytes :: usize
  dg_queued_to_client_bytes :: usize
  dg_peak_to_server_messages :: usize
  dg_peak_to_client_messages :: usize
  dg_peak_to_server_bytes :: usize
  dg_peak_to_client_bytes :: usize
  dg_pending_client_requests :: usize
  dg_pending_server_requests :: usize
  dg_client_request_history :: usize
  dg_server_request_history :: usize

definition proxy_diagnostics :: "TransparentAppServerProxy \<Rightarrow> AppServerProxyDiagnostics" where
  "proxy_diagnostics s = \<lparr>dg_state = px_state s, dg_counters = px_counters s,
     dg_queued_to_server_messages = length (pq_frames (px_to_server s)),
     dg_queued_to_client_messages = length (pq_frames (px_to_client s)),
     dg_queued_to_server_bytes = pq_bytes (px_to_server s), dg_queued_to_client_bytes = pq_bytes (px_to_client s),
     dg_peak_to_server_messages = pq_peak_messages (px_to_server s),
     dg_peak_to_client_messages = pq_peak_messages (px_to_client s),
     dg_peak_to_server_bytes = pq_peak_bytes (px_to_server s), dg_peak_to_client_bytes = pq_peak_bytes (px_to_client s),
     dg_pending_client_requests = pending_count (px_client_requests s),
     dg_pending_server_requests = pending_count (px_server_requests s),
     dg_client_request_history = length (px_client_request_history s),
     dg_server_request_history = length (px_server_request_history s)\<rparr>"

subsection \<open>Calls\<close>

datatype ProxyCall =
    Ingest AppServerProxyDirection bytes
  | Admit AppServerProxyCandidate
  | Release AppServerProxyDirection instant
  | Expire instant
  | Close

datatype ProxyAnswer =
    Observed AppServerMessageObservation
  | Released "AppServerProxyFrame option"
  | Expired "AppServerExpiredRequest list"
  | CloseReport AppServerProxyCloseReport

definition answer :: "('a \<Rightarrow> ProxyAnswer) \<Rightarrow> ('e + 'a) \<times> 's \<Rightarrow> ('e + ProxyAnswer) \<times> 's" where
  "answer f r = (rbind (fst r) (\<lambda>x. Inr (f x)), snd r)"

fun proxy_step ::
    "(bytes \<Rightarrow> 'je RawJson \<times> 'je option) \<Rightarrow> (string \<Rightarrow> 'je) \<Rightarrow> (bytes \<Rightarrow> bytes) \<Rightarrow>
     (instant \<Rightarrow> duration \<Rightarrow> instant option) \<Rightarrow> TransparentAppServerProxy \<Rightarrow> ProxyCall \<Rightarrow>
     ('je AppServerProxyError + ProxyAnswer) \<times> TransparentAppServerProxy" where
  "proxy_step tokens custom sha256 add_instant s (Ingest d line) = answer Observed (proxy_ingest tokens custom sha256 s d line)"
| "proxy_step tokens custom sha256 add_instant s (Admit c) = answer Observed (proxy_admit sha256 s c)"
| "proxy_step tokens custom sha256 add_instant s (Release d now) = answer Released (proxy_release add_instant s d now)"
| "proxy_step tokens custom sha256 add_instant s (Expire now) = answer Expired (proxy_expire sha256 s now)"
| "proxy_step tokens custom sha256 add_instant s Close =
     (Inr (CloseReport (fst (proxy_close s))), snd (proxy_close s))"

end
