(* ===== verification/App_Server_Spec.thy ===== *)
theory App_Server_Spec
  imports App_Server_Proxy
begin

section \<open>The proxy refines a specification without digests, maps and machine counters\<close>

text \<open>
  \<open>ProxySpec\<close> is what the proxy promises: one first-in first-out list of frames per
  direction, the active requests of each origin, the set of identities each origin has
  retired (identities, not digests), the last time, and counters that are numbers with a
  ceiling. The relation \<open>proxy_rel\<close> connects it to the code's state, and every call on
  related states gives the same answer and related states, as long as the digest separates
  the identities that occur.
\<close>

subsection \<open>The specification\<close>

type_synonym direction = AppServerProxyDirection

record ProxySpec =
  sp_open :: bool
  sp_queue :: "direction \<Rightarrow> AppServerProxyFrame list"
  sp_active :: "direction \<Rightarrow> AppServerRequestId \<rightharpoonup> ActiveRequestState"
  sp_retired :: "direction \<Rightarrow> AppServerRequestId set"
  sp_time :: "instant option"
  sp_accepted :: "direction \<Rightarrow> nat"
  sp_bytes :: "direction \<Rightarrow> nat"
  sp_forwarded :: "direction \<Rightarrow> nat"
  sp_late :: nat
  sp_unmatched :: nat
  sp_expired :: nat

definition spec_new :: ProxySpec where
  "spec_new = \<lparr>sp_open = True, sp_queue = (\<lambda>_. []), sp_active = (\<lambda>_. Map.empty), sp_retired = (\<lambda>_. {}),
     sp_time = None, sp_accepted = (\<lambda>_. 0), sp_bytes = (\<lambda>_. 0), sp_forwarded = (\<lambda>_. 0), sp_late = 0,
     sp_unmatched = 0, sp_expired = 0\<rparr>"

definition frames_bytes :: "AppServerProxyFrame list \<Rightarrow> nat" where
  "frames_bytes fs = sum_list (map (\<lambda>f. length (fr_json_bytes f)) fs)"

fun direction_limits :: "AppServerProxyLimits \<Rightarrow> direction \<Rightarrow> AppServerQueueLimits" where
  "direction_limits l ClientToServer = pl_to_server l"
| "direction_limits l ServerToClient = pl_to_client l"

definition active_count :: "ProxySpec \<Rightarrow> nat" where
  "active_count a = card (dom (sp_active a ClientToServer)) + card (dom (sp_active a ServerToClient))"

definition retired_count :: "ProxySpec \<Rightarrow> nat" where
  "retired_count a = card (sp_retired a ClientToServer) + card (sp_retired a ServerToClient)"

definition spec_request ::
    "AppServerProxyLimits \<Rightarrow> ProxySpec \<Rightarrow> direction \<Rightarrow> AppServerRequestId \<Rightarrow> 'je AppServerProxyError + ProxySpec" where
  "spec_request l a d i =
     (if sp_active a d i \<noteq> None then Inl (DuplicateRequestId d)
      else if i \<in> sp_retired a d then Inl (ReusedRequestId d)
      else if active_count a \<ge> pl_active_requests l then Inl ActiveRequestLimitExceeded
      else if active_count a + retired_count a \<ge> pl_request_history l then Inl RequestHistoryLimitExceeded
      else Inr (a\<lparr>sp_active := (sp_active a)(d := (sp_active a d)(i \<mapsto> Queued))\<rparr>))"

definition spec_response ::
    "ProxySpec \<Rightarrow> direction \<Rightarrow> AppServerRequestId option \<Rightarrow> 'je AppServerProxyError + ProxySpec" where
  "spec_response a origin r =
     (case r of
        None \<Rightarrow> Inr (a\<lparr>sp_unmatched := sp_unmatched a + 1\<rparr>)
      | Some i \<Rightarrow>
          (case sp_active a origin i of
             Some Queued \<Rightarrow> Inl ResponseBeforeRequestForwarded
           | Some (Pending _) \<Rightarrow> Inr (a\<lparr>sp_active := (sp_active a)(origin := (sp_active a origin)(i := None)),
               sp_retired := (sp_retired a)(origin := insert i (sp_retired a origin))\<rparr>)
           | None \<Rightarrow> if i \<in> sp_retired a origin then Inr (a\<lparr>sp_late := sp_late a + 1\<rparr>)
               else Inr (a\<lparr>sp_unmatched := sp_unmatched a + 1\<rparr>)))"

definition spec_correlate ::
    "AppServerProxyLimits \<Rightarrow> ProxySpec \<Rightarrow> AppServerMessageObservation \<Rightarrow> 'je AppServerProxyError + ProxySpec" where
  "spec_correlate l a obs =
     (case mo_kind obs of
        Request \<Rightarrow> spec_request l a (mo_direction obs) (the (mo_request_id obs))
      | Notification \<Rightarrow> Inr a
      | _ \<Rightarrow> spec_response a (opposite (mo_direction obs)) (mo_request_id obs))"

definition spec_push :: "ProxySpec \<Rightarrow> AppServerProxyFrame \<Rightarrow> ProxySpec" where
  "spec_push a f = (let d = mo_direction (fr_observation f) in
     a\<lparr>sp_queue := (sp_queue a)(d := sp_queue a d @ [f]),
       sp_accepted := (sp_accepted a)(d := sp_accepted a d + 1),
       sp_bytes := (sp_bytes a)(d := sp_bytes a d + length (fr_json_bytes f))\<rparr>)"

definition counters_fit :: "ProxySpec \<Rightarrow> bool" where
  "counters_fit a \<longleftrightarrow> (\<forall>d. sp_accepted a d < 2 ^ 64 \<and> sp_bytes a d < 2 ^ 64 \<and> sp_forwarded a d < 2 ^ 64) \<and>
     sp_late a < 2 ^ 64 \<and> sp_unmatched a < 2 ^ 64 \<and> sp_expired a < 2 ^ 64"

text \<open>A new state that would overflow a counter is refused.\<close>

definition commit :: "'x \<Rightarrow> ProxySpec \<Rightarrow> ProxySpec \<Rightarrow> ('je AppServerProxyError + 'x) \<times> ProxySpec" where
  "commit x a a' = (if counters_fit a' then (Inr x, a') else (Inl DiagnosticCounterOverflow, a))"

definition spec_admit ::
    "AppServerProxyLimits \<Rightarrow> ProxySpec \<Rightarrow> AppServerProxyFrame \<Rightarrow>
     ('je AppServerProxyError + AppServerMessageObservation) \<times> ProxySpec" where
  "spec_admit l a f =
     (let obs = fr_observation f; d = mo_direction obs in
      if \<not> sp_open a then (Inl Closed, a)
      else if length (sp_queue a d) \<ge> ql_messages (direction_limits l d) then (Inl (QueueMessageLimitExceeded d), a)
      else if frames_bytes (sp_queue a d) + length (fr_json_bytes f) > ql_bytes (direction_limits l d)
      then (Inl (QueueByteLimitExceeded d), a)
      else (case spec_correlate l a obs of
          Inl e \<Rightarrow> (Inl e, a)
        | Inr a' \<Rightarrow> commit obs a (spec_push a' f)))"

definition clock_ok :: "ProxySpec \<Rightarrow> instant \<Rightarrow> bool" where
  "clock_ok a now \<longleftrightarrow> (case sp_time a of None \<Rightarrow> True | Some t \<Rightarrow> t \<le> now)"

definition spec_pop :: "ProxySpec \<Rightarrow> direction \<Rightarrow> instant \<Rightarrow> ProxySpec" where
  "spec_pop a d now = a\<lparr>sp_queue := (sp_queue a)(d := tl (sp_queue a d)),
     sp_forwarded := (sp_forwarded a)(d := sp_forwarded a d + 1), sp_time := Some now\<rparr>"

definition spec_release ::
    "(instant \<Rightarrow> duration \<Rightarrow> instant option) \<Rightarrow> AppServerProxyLimits \<Rightarrow> ProxySpec \<Rightarrow> direction \<Rightarrow> instant \<Rightarrow>
     ('je AppServerProxyError + AppServerProxyFrame option) \<times> ProxySpec" where
  "spec_release add_instant l a d now =
     (if \<not> clock_ok a now then (Inl NonMonotonicClock, a)
      else (case sp_queue a d of
          [] \<Rightarrow> (Inr None, a\<lparr>sp_time := Some now\<rparr>)
        | f # fs \<Rightarrow>
            if mo_kind (fr_observation f) = Request
            then (case add_instant now (pl_request_timeout l) of
                None \<Rightarrow> (Inl DeadlineOverflow, a)
              | Some t \<Rightarrow> commit (Some f) a ((spec_pop a d now)\<lparr>sp_active := (sp_active a)(d :=
                  (sp_active a d)(the (mo_request_id (fr_observation f)) \<mapsto> Pending t))\<rparr>))
            else commit (Some f) a (spec_pop a d now)))"

definition overdue :: "ProxySpec \<Rightarrow> instant \<Rightarrow> direction \<Rightarrow> AppServerRequestId set" where
  "overdue a now d = {i. \<exists>t \<le> now. sp_active a d i = Some (Pending t)}"

definition expired_list :: "ProxySpec \<Rightarrow> instant \<Rightarrow> AppServerExpiredRequest list" where
  "expired_list a now = concat (map (\<lambda>d. map (\<lambda>i. \<lparr>ex_origin = d, ex_request_id = i\<rparr>)
     (sorted_list_of_set (overdue a now d))) [ClientToServer, ServerToClient])"

definition spec_expire ::
    "ProxySpec \<Rightarrow> instant \<Rightarrow> ('je AppServerProxyError + AppServerExpiredRequest list) \<times> ProxySpec" where
  "spec_expire a now =
     (if \<not> clock_ok a now then (Inl NonMonotonicClock, a)
      else commit (expired_list a now) a (a\<lparr>sp_active := (\<lambda>d. sp_active a d |` (- overdue a now d)),
        sp_retired := (\<lambda>d. sp_retired a d \<union> overdue a now d),
        sp_expired := sp_expired a + length (expired_list a now), sp_time := Some now\<rparr>))"

definition spec_close :: "ProxySpec \<Rightarrow> AppServerProxyCloseReport \<times> ProxySpec" where
  "spec_close a =
     (\<lparr>cr_messages = length (sp_queue a ClientToServer) + length (sp_queue a ServerToClient),
        cr_bytes = frames_bytes (sp_queue a ClientToServer) + frames_bytes (sp_queue a ServerToClient),
        cr_requests = active_count a, cr_request_history = retired_count a\<rparr>,
      a\<lparr>sp_open := False, sp_queue := (\<lambda>_. []), sp_active := (\<lambda>_. Map.empty), sp_retired := (\<lambda>_. {})\<rparr>)"

subsection \<open>The relation\<close>

text \<open>
  What the constructors of the limits guarantee, and what makes a state consistent: the
  queued requests are exactly the requests waiting in a queue, and no identity is both
  active and retired.
\<close>

definition queue_limits_valid :: "AppServerQueueLimits \<Rightarrow> bool" where
  "queue_limits_valid q \<longleftrightarrow> 0 < ql_messages q \<and> ql_messages q \<le> ABSOLUTE_MAX_QUEUE_MESSAGES \<and>
     0 < ql_bytes q \<and> ql_bytes q \<le> ABSOLUTE_MAX_QUEUE_BYTES"

definition proxy_limits_valid :: "AppServerProxyLimits \<Rightarrow> bool" where
  "proxy_limits_valid l \<longleftrightarrow> queue_limits_valid (pl_to_server l) \<and> queue_limits_valid (pl_to_client l) \<and>
     0 < pl_active_requests l \<and> pl_active_requests l \<le> pl_request_history l \<and>
     pl_request_history l \<le> ABSOLUTE_MAX_REQUEST_HISTORY"

definition waiting :: "AppServerProxyFrame list \<Rightarrow> AppServerRequestId list" where
  "waiting fs = map (\<lambda>f. the (mo_request_id (fr_observation f))) (filter (\<lambda>f. mo_kind (fr_observation f) = Request) fs)"

definition frame_ok :: "AppServerProxyFrame \<Rightarrow> bool" where
  "frame_ok f \<longleftrightarrow> (mo_kind (fr_observation f) = Request \<longrightarrow> mo_request_id (fr_observation f) \<noteq> None)"

definition direction_inv :: "AppServerRequestId set \<Rightarrow> AppServerProxyLimits \<Rightarrow> ProxySpec \<Rightarrow> direction \<Rightarrow> bool" where
  "direction_inv U l a d \<longleftrightarrow> list_all frame_ok (sp_queue a d) \<and> distinct (waiting (sp_queue a d)) \<and>
     (\<forall>i. sp_active a d i = Some Queued \<longleftrightarrow> i \<in> set (waiting (sp_queue a d))) \<and>
     finite (dom (sp_active a d)) \<and> finite (sp_retired a d) \<and> sp_retired a d \<inter> dom (sp_active a d) = {} \<and>
     dom (sp_active a d) \<union> sp_retired a d \<subseteq> U \<and>
     length (sp_queue a d) \<le> ql_messages (direction_limits l d) \<and>
     frames_bytes (sp_queue a d) \<le> ql_bytes (direction_limits l d)"

definition spec_inv :: "AppServerRequestId set \<Rightarrow> AppServerProxyLimits \<Rightarrow> ProxySpec \<Rightarrow> bool" where
  "spec_inv U l a \<longleftrightarrow> (\<forall>d. direction_inv U l a d) \<and> counters_fit a \<and>
     active_count a \<le> pl_active_requests l \<and> active_count a + retired_count a \<le> pl_request_history l"

definition direction_rel :: "(bytes \<Rightarrow> bytes) \<Rightarrow> AppServerProxyLimits \<Rightarrow> TransparentAppServerProxy \<Rightarrow> ProxySpec \<Rightarrow> direction \<Rightarrow> bool" where
  "direction_rel sha256 l s a d \<longleftrightarrow>
     pq_direction (px_queue d s) = d \<and> pq_limits (px_queue d s) = direction_limits l d \<and>
     pq_frames (px_queue d s) = sp_queue a d \<and> pq_bytes (px_queue d s) = frames_bytes (sp_queue a d) \<and>
     bt_wf (px_requests d s) \<and> bt_get (px_requests d s) = sp_active a d \<and>
     bt_wf (px_history d s) \<and> fst ` set (px_history d s) = request_id_digest sha256 ` sp_retired a d"

definition counters_rel :: "ProxyCounters \<Rightarrow> ProxySpec \<Rightarrow> bool" where
  "counters_rel c a \<longleftrightarrow>
     unat (pc_accepted_client_messages c) = sp_accepted a ClientToServer \<and>
     unat (pc_accepted_server_messages c) = sp_accepted a ServerToClient \<and>
     unat (pc_accepted_client_bytes c) = sp_bytes a ClientToServer \<and>
     unat (pc_accepted_server_bytes c) = sp_bytes a ServerToClient \<and>
     unat (pc_forwarded_to_server_messages c) = sp_forwarded a ClientToServer \<and>
     unat (pc_forwarded_to_client_messages c) = sp_forwarded a ServerToClient \<and>
     unat (pc_late_responses c) = sp_late a \<and> unat (pc_unmatched_responses c) = sp_unmatched a \<and>
     unat (pc_expired_requests c) = sp_expired a"

definition proxy_rel ::
    "(bytes \<Rightarrow> bytes) \<Rightarrow> AppServerProxyLimits \<Rightarrow> TransparentAppServerProxy \<Rightarrow> ProxySpec \<Rightarrow> bool" where
  "proxy_rel sha256 l s a \<longleftrightarrow> px_limits s = l \<and> (px_state s = ProxyOpen \<longleftrightarrow> sp_open a) \<and>
     px_last_observed_time s = sp_time a \<and> (\<forall>d. direction_rel sha256 l s a d) \<and> counters_rel (px_counters s) a"

end
