(* ===== verification/App_Server_Refinement.thy ===== *)
theory App_Server_Refinement
  imports App_Server_Spec
begin

section \<open>The refinement proof\<close>

text \<open>
  Call by call, the code's state and the specification's state stay related and give the
  same answers; a refused call leaves the code's state as it was.
\<close>

subsection \<open>Accessors\<close>

lemma px_set_queue_simps [simp]:
  "px_queue d (px_set_queue d' q s) = (if d = d' then q else px_queue d s)"
  "px_requests d (px_set_queue d' q s) = px_requests d s" "px_history d (px_set_queue d' q s) = px_history d s"
  "px_limits (px_set_queue d' q s) = px_limits s" "px_state (px_set_queue d' q s) = px_state s"
  "px_last_observed_time (px_set_queue d' q s) = px_last_observed_time s"
  "px_counters (px_set_queue d' q s) = px_counters s"
  by (cases d; cases d'; simp)+

lemma px_set_requests_simps [simp]:
  "px_requests d (px_set_requests d' m s) = (if d = d' then m else px_requests d s)"
  "px_queue d (px_set_requests d' m s) = px_queue d s" "px_history d (px_set_requests d' m s) = px_history d s"
  "px_limits (px_set_requests d' m s) = px_limits s" "px_state (px_set_requests d' m s) = px_state s"
  "px_last_observed_time (px_set_requests d' m s) = px_last_observed_time s"
  "px_counters (px_set_requests d' m s) = px_counters s"
  by (cases d; cases d'; simp)+

lemma px_set_history_simps [simp]:
  "px_history d (px_set_history d' m s) = (if d = d' then m else px_history d s)"
  "px_queue d (px_set_history d' m s) = px_queue d s" "px_requests d (px_set_history d' m s) = px_requests d s"
  "px_limits (px_set_history d' m s) = px_limits s" "px_state (px_set_history d' m s) = px_state s"
  "px_last_observed_time (px_set_history d' m s) = px_last_observed_time s"
  "px_counters (px_set_history d' m s) = px_counters s"
  by (cases d; cases d'; simp)+

lemma px_update_simps [simp]:
  "px_queue d (s\<lparr>px_counters := c\<rparr>) = px_queue d s" "px_requests d (s\<lparr>px_counters := c\<rparr>) = px_requests d s"
  "px_history d (s\<lparr>px_counters := c\<rparr>) = px_history d s"
  "px_queue d (s\<lparr>px_last_observed_time := t\<rparr>) = px_queue d s"
  "px_requests d (s\<lparr>px_last_observed_time := t\<rparr>) = px_requests d s"
  "px_history d (s\<lparr>px_last_observed_time := t\<rparr>) = px_history d s"
  by (cases d; simp)+

lemma opposite_neq [simp]: "opposite d \<noteq> d" "d \<noteq> opposite d" "opposite (opposite d) = d"
  by (cases d; simp)+

lemma all_directions: "(\<forall>d. P d) \<longleftrightarrow> P ClientToServer \<and> P ServerToClient"
  by (metis AppServerProxyDirection.exhaust)

subsection \<open>Sizes and digests\<close>

lemma digest_mem:
  assumes "direction_rel sha256 l s a d" and "inj_on (request_id_digest sha256) U" and "sp_retired a d \<subseteq> U" and "i \<in> U"
  shows "bs_contains (px_history d s) (request_id_digest sha256 i) \<longleftrightarrow> i \<in> sp_retired a d"
proof -
  have "bs_contains (px_history d s) (request_id_digest sha256 i) \<longleftrightarrow>
      request_id_digest sha256 i \<in> request_id_digest sha256 ` sp_retired a d"
    using assms(1) by (simp add: direction_rel_def bs_contains_def)
  also have "\<dots> \<longleftrightarrow> i \<in> sp_retired a d"
    using assms(2-4) by (meson inj_on_image_mem_iff)
  finally show ?thesis .
qed

lemma requests_length:
  "direction_rel sha256 l s a d \<Longrightarrow> length (px_requests d s) = card (dom (sp_active a d))"
  using bt.size_card [of "px_requests d s"] by (simp add: direction_rel_def bt_size)

lemma history_length:
  assumes "direction_rel sha256 l s a d" and "inj_on (request_id_digest sha256) U" and "sp_retired a d \<subseteq> U"
  shows "length (px_history d s) = card (sp_retired a d)"
proof -
  have "distinct (map fst (px_history d s))"
    using assms(1) by (simp add: direction_rel_def bt_wf_def strict_sorted_iff)
  then have "length (px_history d s) = card (fst ` set (px_history d s))"
    by (metis distinct_card length_map set_map)
  also have "\<dots> = card (sp_retired a d)"
    using assms by (simp add: direction_rel_def card_image inj_on_subset)
  finally show ?thesis .
qed

lemma spec_inv_retired:
  assumes "spec_inv U l a"
  shows "sp_retired a d \<subseteq> U" and "sp_active a d i = Some st \<Longrightarrow> i \<notin> sp_retired a d"
    and "sp_active a d i = Some st \<Longrightarrow> i \<in> U"
proof -
  have "direction_inv U l a d" using assms by (simp add: spec_inv_def)
  then show "sp_retired a d \<subseteq> U" and "sp_active a d i = Some st \<Longrightarrow> i \<notin> sp_retired a d"
    and "sp_active a d i = Some st \<Longrightarrow> i \<in> U"
    by (auto simp: direction_inv_def)
qed

lemma rel_counts:
  assumes "proxy_rel sha256 l s a" and "spec_inv U l a" and "inj_on (request_id_digest sha256) U"
  shows "length (px_client_requests s) + length (px_server_requests s) = active_count a"
    and "length (px_client_request_history s) + length (px_server_request_history s) = retired_count a"
proof -
  have rel: "direction_rel sha256 l s a d" and sub: "sp_retired a d \<subseteq> U" for d
    using assms(1,2) by (simp_all add: proxy_rel_def spec_inv_def direction_inv_def)
  show "length (px_client_requests s) + length (px_server_requests s) = active_count a"
    using requests_length [OF rel [of ClientToServer]] requests_length [OF rel [of ServerToClient]]
    by (simp add: active_count_def)
  show "length (px_client_request_history s) + length (px_server_request_history s) = retired_count a"
    using history_length [OF rel [of ClientToServer] assms(3) sub] history_length [OF rel [of ServerToClient] assms(3) sub]
    by (simp add: retired_count_def)
qed

subsection \<open>Counters\<close>

lemma checked_add_unat_Some:
  "unat v + unat w < 2 ^ LENGTH('a) \<Longrightarrow> checked_add v w = Some (v + w) \<and> unat (v + w) = unat v + unat w"
  for v w :: "'a::len word"
  by (simp add: checked_add_Some_iff unat_add_lem [THEN iffD1])

lemma add_counter_cases:
  "add_counter v w = (if unat v + unat w < 2 ^ 64 then Inr (v + w) else Inl DiagnosticCounterOverflow)"
  using checked_add_unat_Some [of v w] checked_add_None_iff [of v w] by (auto simp: add_counter_def)

lemma increment_cases:
  "increment v = (if unat v + 1 < 2 ^ 64 then Inr (v + 1) else Inl DiagnosticCounterOverflow)"
  using add_counter_cases [of v 1] by (simp add: increment_def add_counter_def)

lemma unat_add_fits: "unat v + unat w < 2 ^ 64 \<Longrightarrow> unat (v + w :: u64) = unat v + unat w"
  using checked_add_unat_Some [of v w] by simp

lemma unat_succ_fits: "unat v + 1 < 2 ^ 64 \<Longrightarrow> unat (v + 1 :: u64) = unat v + 1"
  using unat_add_fits [of v 1] by simp

definition tally :: "ProxySpec \<Rightarrow> direction \<Rightarrow> nat \<Rightarrow> ResponseAction \<Rightarrow> ProxySpec" where
  "tally a d len action = a\<lparr>sp_accepted := (sp_accepted a)(d := sp_accepted a d + 1),
     sp_bytes := (sp_bytes a)(d := sp_bytes a d + len),
     sp_unmatched := sp_unmatched a + (if action = Unmatched then 1 else 0),
     sp_late := sp_late a + (if action = Late then 1 else 0)\<rparr>"

lemma tally_fit:
  assumes "counters_fit a"
  shows "counters_fit (tally a d len action) \<longleftrightarrow> sp_accepted a d + 1 < 2 ^ 64 \<and> sp_bytes a d + len < 2 ^ 64 \<and>
    (action = Unmatched \<longrightarrow> sp_unmatched a + 1 < 2 ^ 64) \<and> (action = Late \<longrightarrow> sp_late a + 1 < 2 ^ 64)"
  using assms by (auto simp: counters_fit_def tally_def)

lemma admit_counters_sim:
  assumes "counters_rel c a" and "counters_fit a"
  shows "case admit_counters d len action c of
      Inl e \<Rightarrow> e = DiagnosticCounterOverflow \<and> \<not> counters_fit (tally a d len action)
    | Inr c' \<Rightarrow> counters_fit (tally a d len action) \<and> counters_rel c' (tally a d len action)"
proof (cases "len < 2 ^ 64")
  case True
  then have len: "u64_try_from len = Some (of_nat len)" "unat (of_nat len :: u64) = len"
    by (simp_all add: u64_try_from_def unat_of_nat)
  show ?thesis
    unfolding tally_fit [OF assms(2)]
    using assms(1) len
    by (cases d; cases action)
      (auto simp: admit_counters_def increment_cases add_counter_cases counters_rel_def tally_def
        unat_add_fits unat_succ_fits)
next
  case False
  then show ?thesis
    unfolding tally_fit [OF assms(2)] by (simp add: admit_counters_def u64_try_from_def)
qed

subsection \<open>Correlation\<close>

definition rel_core :: "(bytes \<Rightarrow> bytes) \<Rightarrow> AppServerProxyLimits \<Rightarrow> TransparentAppServerProxy \<Rightarrow> ProxySpec \<Rightarrow> bool" where
  "rel_core sha256 l s a \<longleftrightarrow> px_limits s = l \<and> (px_state s = ProxyOpen \<longleftrightarrow> sp_open a) \<and>
     px_last_observed_time s = sp_time a \<and> (\<forall>d. direction_rel sha256 l s a d)"

lemma proxy_rel_core: "proxy_rel sha256 l s a \<longleftrightarrow> rel_core sha256 l s a \<and> counters_rel (px_counters s) a"
  by (auto simp: proxy_rel_def rel_core_def)

text \<open>The three effects on the request maps.\<close>

lemma rel_activate:
  assumes "rel_core sha256 l s a"
  shows "rel_core sha256 l (px_set_requests d (bt_insert i st (px_requests d s)) s)
    (a\<lparr>sp_active := (sp_active a)(d := (sp_active a d)(i \<mapsto> st))\<rparr>)"
  using assms by (auto simp: rel_core_def direction_rel_def bt_laws)

lemma rel_retire:
  assumes "rel_core sha256 l s a"
  shows "rel_core sha256 l
    (px_set_history d (bt_insert (request_id_digest sha256 i) () (px_history d s))
      (px_set_requests d (bt_remove i (px_requests d s)) s))
    (a\<lparr>sp_active := (sp_active a)(d := (sp_active a d)(i := None)),
      sp_retired := (sp_retired a)(d := insert i (sp_retired a d))\<rparr>)"
  using assms by (auto simp: rel_core_def direction_rel_def bt_laws set_bt_insert_keys)

lemma retire_request_ok:
  assumes "rel_core sha256 l s a" and "inj_on (request_id_digest sha256) U" and "sp_retired a d \<subseteq> U"
    and "i \<in> U" and "i \<notin> sp_retired a d" and "sp_active a d i \<noteq> None"
  shows "retire_request sha256 d i s = (Inr (),
    px_set_history d (bt_insert (request_id_digest sha256 i) () (px_history d s))
      (px_set_requests d (bt_remove i (px_requests d s)) s))"
proof -
  have "direction_rel sha256 l s a d"
    using assms(1) by (simp add: rel_core_def)
  with digest_mem [OF this assms(2-4)] assms(5,6) show ?thesis
    by (auto simp: retire_request_def Let_def direction_rel_def)
qed

text \<open>The answer a correlation gives, and the action it announces.\<close>

definition spec_action :: "ProxySpec \<Rightarrow> AppServerMessageObservation \<Rightarrow> ResponseAction" where
  "spec_action a obs =
     (if mo_kind obs \<in> {Request, Notification} then NoAction
      else (let origin = opposite (mo_direction obs) in
        case mo_request_id obs of
          None \<Rightarrow> Unmatched
        | Some i \<Rightarrow> if sp_active a origin i \<noteq> None then Complete
            else if i \<in> sp_retired a origin then Late else Unmatched))"

definition ids_in :: "AppServerRequestId set \<Rightarrow> AppServerMessageObservation \<Rightarrow> bool" where
  "ids_in U obs \<longleftrightarrow> (case mo_request_id obs of None \<Rightarrow> True | Some i \<Rightarrow> i \<in> U)"

lemma preflight_request_sim:
  assumes "proxy_rel sha256 l s a" and "spec_inv U l a" and "inj_on (request_id_digest sha256) U"
    and "proxy_limits_valid l" and "mo_request_id obs = Some i" and "i \<in> U"
  shows "preflight_request sha256 s obs = rbind (spec_request l a (mo_direction obs) i) (\<lambda>_. Inr NoAction)"
proof -
  let ?d = "mo_direction obs"
  have rel: "direction_rel sha256 l s a ?d" and l: "px_limits s = l"
    using assms(1) by (simp_all add: proxy_rel_def)
  have "sp_retired a ?d \<subseteq> U"
    using assms(2) by (simp add: spec_inv_def direction_inv_def)
  note mem = digest_mem [OF rel assms(3) this assms(6)]
  have small: "active_count a + retired_count a < 2 ^ 64"
    using assms(2,4) by (simp add: spec_inv_def proxy_limits_valid_def ABSOLUTE_MAX_REQUEST_HISTORY_def)
  note n = rel_counts [OF assms(1-3)]
  have act: "checked_add_usize (length (px_client_requests s)) (length (px_server_requests s)) = Some (active_count a)"
    using small n by (simp add: checked_add_usize_def)
  have tracked: "Option.bind (checked_add_usize (active_count a) (length (px_client_request_history s)))
      (\<lambda>n. checked_add_usize n (length (px_server_request_history s))) = Some (active_count a + retired_count a)"
    using small n(2) by (simp add: checked_add_usize_def)
  have get: "bt_get (px_requests ?d s) i = sp_active a ?d i"
    using rel by (simp add: direction_rel_def)
  show ?thesis
    unfolding preflight_request_def spec_request_def by (simp add: assms(5) act tracked get mem l)
qed

lemma preflight_response_sim:
  assumes "proxy_rel sha256 l s a" and "spec_inv U l a" and "inj_on (request_id_digest sha256) U"
    and "ids_in U obs" and "mo_kind obs \<notin> {Request, Notification}"
  shows "preflight_response sha256 s obs =
    rbind (spec_response a (opposite (mo_direction obs)) (mo_request_id obs)) (\<lambda>_. Inr (spec_action a obs))"
proof (cases "mo_request_id obs")
  case None
  with assms(5) show ?thesis
    by (simp add: preflight_response_def spec_response_def spec_action_def)
next
  case (Some i)
  let ?d = "opposite (mo_direction obs)"
  have rel: "direction_rel sha256 l s a ?d" and i: "i \<in> U"
    using assms(1,4) Some by (simp_all add: proxy_rel_def ids_in_def)
  have inv: "sp_retired a ?d \<subseteq> U" "sp_retired a ?d \<inter> dom (sp_active a ?d) = {}"
    using assms(2) by (simp_all add: spec_inv_def direction_inv_def)
  note mem = digest_mem [OF rel assms(3) inv(1) i]
  have get: "bt_get (px_requests ?d s) i = sp_active a ?d i"
    using rel by (simp add: direction_rel_def)
  from inv(2) have "sp_active a ?d i = Some x \<Longrightarrow> i \<notin> sp_retired a ?d" for x
    by auto
  with Some mem get assms(5) show ?thesis
    by (auto simp: preflight_response_def spec_response_def spec_action_def Let_def
        split: option.splits ActiveRequestState.splits)
qed

lemma spec_correlate_frame:
  assumes "spec_correlate l a obs = Inr a'"
  shows "sp_queue a' = sp_queue a" "sp_open a' = sp_open a" "sp_time a' = sp_time a" "sp_accepted a' = sp_accepted a"
    "sp_bytes a' = sp_bytes a" "sp_forwarded a' = sp_forwarded a" "sp_expired a' = sp_expired a"
    "sp_unmatched a' = sp_unmatched a + (if spec_action a obs = Unmatched then 1 else 0)"
    "sp_late a' = sp_late a + (if spec_action a obs = Late then 1 else 0)"
  using assms
  by (auto simp: spec_correlate_def spec_request_def spec_response_def spec_action_def Let_def
      split: AppServerProxyMessageKind.splits option.splits ActiveRequestState.splits if_splits)

lemma pushed_counters:
  assumes "spec_correlate l a (fr_observation f) = Inr a'"
  shows "counters_fit (spec_push a' f) \<longleftrightarrow>
      counters_fit (tally a (mo_direction (fr_observation f)) (length (fr_json_bytes f)) (spec_action a (fr_observation f)))"
    and "counters_rel c (spec_push a' f) \<longleftrightarrow>
      counters_rel c (tally a (mo_direction (fr_observation f)) (length (fr_json_bytes f)) (spec_action a (fr_observation f)))"
  using spec_correlate_frame [OF assms]
  by (simp_all add: counters_fit_def counters_rel_def spec_push_def tally_def Let_def)

lemma correlate_sim:
  assumes "proxy_rel sha256 l s a" and "spec_inv U l a" and "inj_on (request_id_digest sha256) U"
    and "proxy_limits_valid l" and "ids_in U obs" and "mo_kind obs = Request \<Longrightarrow> mo_request_id obs \<noteq> None"
  shows "preflight_correlation sha256 s obs = rbind (spec_correlate l a obs) (\<lambda>_. Inr (spec_action a obs))"
proof (cases "mo_kind obs")
  case Request
  with assms(6) obtain i where "mo_request_id obs = Some i" by blast
  with preflight_request_sim [OF assms(1-4) this] assms(5) Request show ?thesis
    by (simp add: preflight_correlation_def spec_correlate_def spec_action_def ids_in_def)
next
  case Notification
  then show ?thesis
    by (simp add: preflight_correlation_def spec_correlate_def spec_action_def)
qed (use preflight_response_sim [OF assms(1-3,5)] in
  \<open>simp_all add: preflight_correlation_def spec_correlate_def\<close>)

lemma spec_action_Complete:
  "spec_action a obs = Complete \<Longrightarrow> mo_kind obs \<in> {SuccessResponse, ErrorResponse} \<and>
     (\<exists>i st. mo_request_id obs = Some i \<and> sp_active a (opposite (mo_direction obs)) i = Some st)"
  by (cases "mo_kind obs") (auto simp: spec_action_def Let_def split: option.splits if_splits)

lemma apply_correlation_sim:
  assumes "rel_core sha256 l s a" and "spec_inv U l a" and "inj_on (request_id_digest sha256) U"
    and "ids_in U obs" and "mo_kind obs = Request \<Longrightarrow> mo_request_id obs \<noteq> None"
    and "spec_correlate l a obs = (Inr a' :: 'je AppServerProxyError + _)"
  shows "\<exists>s'. apply_correlation sha256 obs (spec_action a obs) s = (Inr () :: 'je AppServerProxyError + _, s') \<and>
    rel_core sha256 l s' a' \<and> px_counters s' = px_counters s"
proof -
  have get: "bt_get (px_requests d s) = sp_active a d" for d
    using assms(1) by (simp add: rel_core_def direction_rel_def)
  have same: "rel_core sha256 l s (a\<lparr>sp_unmatched := m\<rparr>)" "rel_core sha256 l s (a\<lparr>sp_late := m\<rparr>)" for m
    using assms(1) by (simp_all add: rel_core_def direction_rel_def)
  consider (request) i where "mo_kind obs = Request" "mo_request_id obs = Some i"
    | (complete) i st where "mo_kind obs \<in> {SuccessResponse, ErrorResponse}" "mo_request_id obs = Some i"
      "sp_active a (opposite (mo_direction obs)) i = Some st"
    | (other) "mo_kind obs \<noteq> Request" "spec_action a obs \<noteq> Complete"
    using assms(5) spec_action_Complete by blast
  then show ?thesis
  proof cases
    case (request i)
    then show ?thesis
      using assms(6) get rel_activate [OF assms(1), of "mo_direction obs" i Queued]
      by (auto simp: apply_correlation_def spec_correlate_def spec_request_def Let_def split: if_splits)
  next
    case (complete i st)
    let ?d = "opposite (mo_direction obs)"
    note inv = spec_inv_retired(2,3) [OF assms(2) complete(3)]
    have "spec_action a obs = Complete"
      using complete by (auto simp: spec_action_def)
    moreover have "a' = a\<lparr>sp_active := (sp_active a)(?d := (sp_active a ?d)(i := None)),
        sp_retired := (sp_retired a)(?d := insert i (sp_retired a ?d))\<rparr>"
      using assms(6) complete
      by (auto simp: spec_correlate_def spec_response_def split: ActiveRequestState.splits)
    ultimately show ?thesis
      using complete retire_request_ok [OF assms(1,3) spec_inv_retired(1) [OF assms(2)] inv(2,1)] rel_retire [OF assms(1), of ?d i]
      by (auto simp: apply_correlation_def)
  next
    case other
    then have "apply_correlation sha256 obs (spec_action a obs) s = (Inr () :: 'je AppServerProxyError + _, s)"
      by (simp add: apply_correlation_def)
    moreover have "rel_core sha256 l s a'"
      using assms(1,6) same other
      by (auto simp: spec_correlate_def spec_response_def spec_action_def Let_def
          split: AppServerProxyMessageKind.splits option.splits ActiveRequestState.splits if_splits)
    ultimately show ?thesis by auto
  qed
qed

subsection \<open>Admission\<close>

definition frame_of :: "AppServerProxyCandidate \<Rightarrow> AppServerProxyFrame" where
  "frame_of c = \<lparr>fr_observation = cd_observation c, fr_json_bytes = cd_json_bytes c\<rparr>"

lemma ensure_capacity_sim:
  assumes "direction_rel sha256 l s a d" and "proxy_limits_valid l"
  shows "ensure_capacity (px_queue d s) n =
    (if length (sp_queue a d) \<ge> ql_messages (direction_limits l d) then Inl (QueueMessageLimitExceeded d)
     else if frames_bytes (sp_queue a d) + n > ql_bytes (direction_limits l d) then Inl (QueueByteLimitExceeded d)
     else Inr ())"
proof -
  have "ql_bytes (direction_limits l d) < 2 ^ 64"
    using assms(2) by (cases d) (simp_all add: proxy_limits_valid_def queue_limits_valid_def ABSOLUTE_MAX_QUEUE_BYTES_def)
  with assms(1) show ?thesis
    by (auto simp: ensure_capacity_def direction_rel_def checked_add_usize_def)
qed

lemma rel_push:
  assumes "rel_core sha256 l s a" and "d = mo_direction (fr_observation f)"
  shows "rel_core sha256 l ((px_set_queue d (push_after_capacity_check (px_queue d s) f) s)\<lparr>px_counters := c\<rparr>) (spec_push a f)"
  using assms
  by (auto simp: rel_core_def direction_rel_def push_after_capacity_check_def spec_push_def Let_def frames_bytes_def)

lemma admit_sim:
  assumes rel: "proxy_rel sha256 l s a" and inv: "spec_inv U l a" and inj: "inj_on (request_id_digest sha256) U"
    and l: "proxy_limits_valid l" and ids: "ids_in U (cd_observation c)" and ok: "frame_ok (frame_of c)"
  shows "fst (admit_candidate sha256 s c :: ('je AppServerProxyError + _) \<times> _) = fst (spec_admit l a (frame_of c))"
    and "proxy_rel sha256 l (snd (admit_candidate sha256 s c :: ('je AppServerProxyError + _) \<times> _))
      (snd (spec_admit l a (frame_of c) :: ('je AppServerProxyError + _) \<times> _))"
    and "fst (admit_candidate sha256 s c) = (Inl e :: 'je AppServerProxyError + _) \<Longrightarrow>
      snd (admit_candidate sha256 s c :: ('je AppServerProxyError + _) \<times> _) = s"
proof -
  let ?obs = "cd_observation c" and ?d = "mo_direction (cd_observation c)"
  have core: "rel_core sha256 l s a" and cnt: "counters_rel (px_counters s) a" and fit: "counters_fit a"
    and drel: "direction_rel sha256 l s a ?d" and op: "px_state s = ProxyClosed \<longleftrightarrow> \<not> sp_open a"
    using rel inv by (auto simp: proxy_rel_core rel_core_def spec_inv_def intro: AppServerProxyState.exhaust)
  have ok': "mo_kind ?obs = Request \<Longrightarrow> mo_request_id ?obs \<noteq> None"
    using ok by (simp add: frame_ok_def frame_of_def)
  note cap = ensure_capacity_sim [where ?'a = 'je, OF drel l, of "length (cd_json_bytes c)"]
  note cor = correlate_sim [where ?'a = 'je, OF rel inv inj l ids ok']
  note num = admit_counters_sim [where ?'a = 'je, OF cnt fit, of ?d "length (cd_json_bytes c)" "spec_action a ?obs"]
  have "fst (admit_candidate sha256 s c :: ('je AppServerProxyError + _) \<times> _) = fst (spec_admit l a (frame_of c)) \<and>
    proxy_rel sha256 l (snd (admit_candidate sha256 s c :: ('je AppServerProxyError + _) \<times> _))
      (snd (spec_admit l a (frame_of c) :: ('je AppServerProxyError + _) \<times> _)) \<and>
    (\<forall>e. fst (admit_candidate sha256 s c) = (Inl e :: 'je AppServerProxyError + _) \<longrightarrow>
      snd (admit_candidate sha256 s c :: ('je AppServerProxyError + _) \<times> _) = s)"
  proof (cases "sp_open a \<and> length (sp_queue a ?d) < ql_messages (direction_limits l ?d) \<and>
      frames_bytes (sp_queue a ?d) + length (cd_json_bytes c) \<le> ql_bytes (direction_limits l ?d)")
    case False
    then show ?thesis
      using rel op by (auto simp: admit_candidate_def admit_checks_def spec_admit_def frame_of_def Let_def cap)
  next
    case room: True
    show ?thesis
    proof (cases "spec_correlate l a ?obs :: 'je AppServerProxyError + _")
      case (Inl e)
      then show ?thesis
        using rel op room cor by (auto simp: admit_candidate_def admit_checks_def spec_admit_def frame_of_def Let_def cap)
    next
      case (Inr a')
      obtain s' where s': "apply_correlation sha256 ?obs (spec_action a ?obs) s = (Inr () :: 'je AppServerProxyError + _, s')"
        "rel_core sha256 l s' a'" "px_counters s' = px_counters s"
        using apply_correlation_sim [OF core inv inj ids ok' Inr] by blast
      note pushed = pushed_counters [of l a "frame_of c" a', unfolded frame_of_def, simplified, OF Inr]
      show ?thesis
        using rel op room cor Inr s' num pushed rel_push [OF s'(2), of ?d "frame_of c"]
        by (auto simp: admit_candidate_def admit_checks_def spec_admit_def frame_of_def Let_def cap commit_def
            proxy_rel_core split: sum.splits)
    qed
  qed
  then show "fst (admit_candidate sha256 s c :: ('je AppServerProxyError + _) \<times> _) = fst (spec_admit l a (frame_of c))"
    and "proxy_rel sha256 l (snd (admit_candidate sha256 s c :: ('je AppServerProxyError + _) \<times> _))
      (snd (spec_admit l a (frame_of c) :: ('je AppServerProxyError + _) \<times> _))"
    and "fst (admit_candidate sha256 s c) = (Inl e :: 'je AppServerProxyError + _) \<Longrightarrow>
      snd (admit_candidate sha256 s c :: ('je AppServerProxyError + _) \<times> _) = s"
    by blast+
qed

end
