(* ===== verification/App_Server_Invariant.thy ===== *)
theory App_Server_Invariant
  imports App_Server_Refinement
begin

section \<open>Invariant and simulation of the proxy's calls\<close>

text \<open>
  The specification keeps its invariant under every call, and the remaining calls (release,
  expiry, closing) simulate theirs.
\<close>

subsection \<open>Admission keeps the invariant\<close>

lemma waiting_snoc:
  "waiting (fs @ [f]) = waiting fs @
     (if mo_kind (fr_observation f) = Request then [the (mo_request_id (fr_observation f))] else [])"
  by (simp add: waiting_def)

lemma waiting_Cons:
  "waiting (f # fs) = (if mo_kind (fr_observation f) = Request then [the (mo_request_id (fr_observation f))] else []) @
     waiting fs"
  by (simp add: waiting_def)

lemma frames_bytes_simps [simp]:
  "frames_bytes [] = 0" "frames_bytes (f # fs) = length (fr_json_bytes f) + frames_bytes fs"
  "frames_bytes (fs @ gs) = frames_bytes fs + frames_bytes gs"
  by (simp_all add: frames_bytes_def)

lemma direction_inv_cong:
  "sp_queue a d = sp_queue b d \<Longrightarrow> sp_active a d = sp_active b d \<Longrightarrow> sp_retired a d = sp_retired b d \<Longrightarrow>
     direction_inv U l a d \<longleftrightarrow> direction_inv U l b d"
  by (simp add: direction_inv_def)

lemma count_cong:
  "sp_active a = sp_active b \<Longrightarrow> active_count a = active_count b"
  "sp_retired a = sp_retired b \<Longrightarrow> retired_count a = retired_count b"
  by (simp_all add: active_count_def retired_count_def)

lemma count_activate:
  assumes "finite (dom (sp_active a d))" and "sp_active a d i = None"
  shows "active_count (a\<lparr>sp_active := (sp_active a)(d := (sp_active a d)(i \<mapsto> st))\<rparr>) = active_count a + 1"
  using assms by (cases d) (simp_all add: active_count_def card_insert_if domIff)

lemma count_retire:
  assumes "finite (dom (sp_active a d))" and "sp_active a d i \<noteq> None" and "finite (sp_retired a d)" and "i \<notin> sp_retired a d"
  shows "active_count (a\<lparr>sp_active := (sp_active a)(d := (sp_active a d)(i := None)), sp_retired := R\<rparr>) + 1 = active_count a"
    and "retired_count (a\<lparr>sp_active := A, sp_retired := (sp_retired a)(d := insert i (sp_retired a d))\<rparr>) = retired_count a + 1"
proof -
  have "card (dom (sp_active a d)) = card (dom (sp_active a d) - {i}) + 1"
    using assms(1,2) by (metis Suc_eq_plus1 card_Suc_Diff1 domIff)
  then show "active_count (a\<lparr>sp_active := (sp_active a)(d := (sp_active a d)(i := None)), sp_retired := R\<rparr>) + 1 = active_count a"
    by (cases d) (simp_all add: active_count_def)
  show "retired_count (a\<lparr>sp_active := A, sp_retired := (sp_retired a)(d := insert i (sp_retired a d))\<rparr>) = retired_count a + 1"
    using assms(3,4) by (cases d) (simp_all add: retired_count_def)
qed

text \<open>The states a correlation can lead to.\<close>

lemma spec_correlate_cases:
  assumes "spec_correlate l a obs = (Inr a' :: 'je AppServerProxyError + _)" and "mo_kind obs = Request \<Longrightarrow> mo_request_id obs \<noteq> None"
  obtains (request) i where "mo_kind obs = Request" "mo_request_id obs = Some i" "sp_active a (mo_direction obs) i = None"
      "i \<notin> sp_retired a (mo_direction obs)" "active_count a < pl_active_requests l"
      "active_count a + retired_count a < pl_request_history l"
      "a' = a\<lparr>sp_active := (sp_active a)(mo_direction obs := (sp_active a (mo_direction obs))(i \<mapsto> Queued))\<rparr>"
  | (complete) i t where "mo_kind obs \<noteq> Request" "mo_request_id obs = Some i"
      "sp_active a (opposite (mo_direction obs)) i = Some (Pending t)"
      "a' = a\<lparr>sp_active := (sp_active a)(opposite (mo_direction obs) := (sp_active a (opposite (mo_direction obs)))(i := None)),
         sp_retired := (sp_retired a)(opposite (mo_direction obs) := insert i (sp_retired a (opposite (mo_direction obs))))\<rparr>"
  | (other) "mo_kind obs \<noteq> Request" "sp_active a' = sp_active a" "sp_retired a' = sp_retired a"
proof (cases "mo_kind obs = Request")
  case True
  with assms(2) obtain i where i: "mo_request_id obs = Some i" by auto
  with True assms(1) have "spec_request l a (mo_direction obs) i = (Inr a' :: 'je AppServerProxyError + _)"
    by (simp add: spec_correlate_def)
  then show thesis
    by (intro request [OF True i]) (auto simp: spec_request_def split: if_splits)
next
  case False
  then have "spec_response a (opposite (mo_direction obs)) (mo_request_id obs) = (Inr a' :: 'je AppServerProxyError + _) \<or> a' = a"
    using assms(1) by (cases "mo_kind obs") (auto simp: spec_correlate_def)
  then consider "sp_active a' = sp_active a \<and> sp_retired a' = sp_retired a"
    | i t where "mo_request_id obs = Some i" "sp_active a (opposite (mo_direction obs)) i = Some (Pending t)"
      "a' = a\<lparr>sp_active := (sp_active a)(opposite (mo_direction obs) := (sp_active a (opposite (mo_direction obs)))(i := None)),
         sp_retired := (sp_retired a)(opposite (mo_direction obs) := insert i (sp_retired a (opposite (mo_direction obs))))\<rparr>"
    by (fastforce simp: spec_response_def split: option.splits ActiveRequestState.splits if_splits)
  then show thesis
    using False complete other by cases blast+
qed

lemma waiting_queued: "spec_inv U l a \<Longrightarrow> i \<in> set (waiting (sp_queue a d)) \<longleftrightarrow> sp_active a d i = Some Queued"
  by (simp add: spec_inv_def direction_inv_def)

lemma push_direction_inv:
  assumes "spec_inv U l a" and c: "spec_correlate l a (fr_observation f) = Inr a'"
    and "ids_in U (fr_observation f)" and "frame_ok f"
    and room: "length (sp_queue a (mo_direction (fr_observation f))) < ql_messages (direction_limits l (mo_direction (fr_observation f)))"
      "frames_bytes (sp_queue a (mo_direction (fr_observation f))) + length (fr_json_bytes f)
         \<le> ql_bytes (direction_limits l (mo_direction (fr_observation f)))"
  shows "direction_inv U l (spec_push a' f) e"
proof -
  let ?obs = "fr_observation f"
  have inv: "direction_inv U l a e" using assms(1) by (simp add: spec_inv_def)
  have q: "sp_queue a' = sp_queue a" by (rule spec_correlate_frame [OF c])
  have ok: "mo_kind ?obs = Request \<Longrightarrow> mo_request_id ?obs \<noteq> None" using assms(4) by (simp add: frame_ok_def)
  have push: "sp_queue (spec_push a' f) e = (if e = mo_direction ?obs then sp_queue a e @ [f] else sp_queue a e)"
    "sp_active (spec_push a' f) = sp_active a'" "sp_retired (spec_push a' f) = sp_retired a'"
    by (simp_all add: spec_push_def Let_def q)
  show ?thesis
  proof (rule spec_correlate_cases [OF c ok])
    fix i
    assume request: "mo_kind ?obs = Request" "mo_request_id ?obs = Some i" "sp_active a (mo_direction ?obs) i = None"
      "i \<notin> sp_retired a (mo_direction ?obs)"
      "a' = a\<lparr>sp_active := (sp_active a)(mo_direction ?obs := (sp_active a (mo_direction ?obs))(i \<mapsto> Queued))\<rparr>"
    then have "i \<in> U" using assms(3) by (simp add: ids_in_def)
    moreover have act: "sp_active a' = (sp_active a)(mo_direction ?obs := (sp_active a (mo_direction ?obs))(i \<mapsto> Queued))"
      "sp_retired a' = sp_retired a"
      using request(5) by simp_all
    moreover have "i \<notin> set (waiting (sp_queue a (mo_direction ?obs)))"
      using request(3) by (simp add: waiting_queued [OF assms(1)])
    ultimately show ?thesis
      unfolding direction_inv_def push act
      using inv request(1-4) room assms(4) by (auto simp: direction_inv_def waiting_snoc)
  next
    fix i t
    assume complete: "mo_kind ?obs \<noteq> Request" "mo_request_id ?obs = Some i"
      "sp_active a (opposite (mo_direction ?obs)) i = Some (Pending t)"
      "a' = a\<lparr>sp_active := (sp_active a)(opposite (mo_direction ?obs) := (sp_active a (opposite (mo_direction ?obs)))(i := None)),
         sp_retired := (sp_retired a)(opposite (mo_direction ?obs) := insert i (sp_retired a (opposite (mo_direction ?obs))))\<rparr>"
    then have "i \<in> U" using assms(3) by (simp add: ids_in_def)
    moreover have act: "sp_active a' = (sp_active a)(opposite (mo_direction ?obs) := (sp_active a (opposite (mo_direction ?obs)))(i := None))"
      "sp_retired a' = (sp_retired a)(opposite (mo_direction ?obs) := insert i (sp_retired a (opposite (mo_direction ?obs))))"
      using complete(4) by simp_all
    moreover have "i \<notin> set (waiting (sp_queue a (opposite (mo_direction ?obs))))"
      using complete(3) by (simp add: waiting_queued [OF assms(1)])
    ultimately show ?thesis
      unfolding direction_inv_def push act
      using inv complete(1-3) room assms(4) by (auto simp: direction_inv_def waiting_snoc)
  next
    assume "mo_kind ?obs \<noteq> Request" "sp_active a' = sp_active a" "sp_retired a' = sp_retired a"
    then show ?thesis
      using inv room assms(4) by (auto simp: direction_inv_def push waiting_snoc)
  qed
qed

lemma spec_push_counts [simp]:
  "active_count (spec_push a f) = active_count a" "retired_count (spec_push a f) = retired_count a"
  by (simp_all add: active_count_def retired_count_def spec_push_def Let_def)

lemma correlate_counts:
  assumes "spec_inv U l a" and c: "spec_correlate l a obs = Inr a'"
    and ok: "mo_kind obs = Request \<Longrightarrow> mo_request_id obs \<noteq> None"
  shows "active_count a' \<le> pl_active_requests l \<and> active_count a' + retired_count a' \<le> pl_request_history l"
proof (rule spec_correlate_cases [OF c ok])
  have inv: "direction_inv U l a d" for d
    using assms(1) by (simp add: spec_inv_def)
  have le: "active_count a \<le> pl_active_requests l" "active_count a + retired_count a \<le> pl_request_history l"
    using assms(1) by (simp_all add: spec_inv_def)
  {
    fix i
    assume "sp_active a (mo_direction obs) i = None" "active_count a < pl_active_requests l"
      "active_count a + retired_count a < pl_request_history l"
      and a': "a' = a\<lparr>sp_active := (sp_active a)(mo_direction obs := (sp_active a (mo_direction obs))(i \<mapsto> Queued))\<rparr>"
    moreover have "finite (dom (sp_active a (mo_direction obs)))"
      using inv by (simp add: direction_inv_def)
    moreover have "retired_count a' = retired_count a"
      unfolding a' by (simp add: retired_count_def)
    ultimately show ?thesis
      using count_activate [of a "mo_direction obs" i Queued] by simp
  next
    fix i t
    assume p: "sp_active a (opposite (mo_direction obs)) i = Some (Pending t)"
      and a': "a' = a\<lparr>sp_active := (sp_active a)(opposite (mo_direction obs) := (sp_active a (opposite (mo_direction obs)))(i := None)),
         sp_retired := (sp_retired a)(opposite (mo_direction obs) := insert i (sp_retired a (opposite (mo_direction obs))))\<rparr>"
    let ?o = "opposite (mo_direction obs)"
    have fin: "finite (dom (sp_active a ?o))" "sp_active a ?o i \<noteq> None" "finite (sp_retired a ?o)"
      using inv p by (simp_all add: direction_inv_def)
    have "active_count a' + 1 = active_count a" "retired_count a' = retired_count a + 1"
      unfolding a' by (rule count_retire [OF fin spec_inv_retired(2) [OF assms(1) p]])+
    with le show ?thesis by linarith
  next
    assume "sp_active a' = sp_active a" "sp_retired a' = sp_retired a"
    with le count_cong show ?thesis by metis
  }
qed

lemma spec_admit_inv:
  assumes "spec_inv U l a" and "ids_in U (fr_observation f)" and ok: "frame_ok f"
  shows "spec_inv U l (snd (spec_admit l a f :: ('je AppServerProxyError + _) \<times> _))"
proof (cases "\<exists>x. fst (spec_admit l a f :: ('je AppServerProxyError + _) \<times> _) = Inr x")
  case False
  then have "snd (spec_admit l a f :: ('je AppServerProxyError + _) \<times> _) = a"
    by (auto simp: spec_admit_def commit_def Let_def split: if_splits sum.splits)
  with assms(1) show ?thesis by simp
next
  case True
  let ?d = "mo_direction (fr_observation f)"
  from True obtain a' where c: "spec_correlate l a (fr_observation f) = (Inr a' :: 'je AppServerProxyError + _)"
    and room: "length (sp_queue a ?d) < ql_messages (direction_limits l ?d)"
      "frames_bytes (sp_queue a ?d) + length (fr_json_bytes f) \<le> ql_bytes (direction_limits l ?d)"
    and fit: "counters_fit (spec_push a' f)"
    and r: "snd (spec_admit l a f :: ('je AppServerProxyError + _) \<times> _) = spec_push a' f"
    by (auto simp: spec_admit_def commit_def Let_def split: if_splits sum.splits)
  have "direction_inv U l (spec_push a' f) e" for e
    by (rule push_direction_inv [OF assms(1) c assms(2) ok room])
  moreover have "active_count a' \<le> pl_active_requests l \<and> active_count a' + retired_count a' \<le> pl_request_history l"
    using ok by (intro correlate_counts [OF assms(1) c]) (simp add: frame_ok_def)
  ultimately show ?thesis
    using fit by (simp add: r spec_inv_def)
qed

subsection \<open>Release\<close>

lemma clock_sim:
  "proxy_rel sha256 l s a \<Longrightarrow> ensure_monotonic_time s now = (if clock_ok a now then Inr () else Inl NonMonotonicClock)"
  by (auto simp: ensure_monotonic_time_def clock_ok_def proxy_rel_def split: option.splits)

definition advance :: "ProxySpec \<Rightarrow> direction \<Rightarrow> ProxySpec" where
  "advance a d = a\<lparr>sp_forwarded := (sp_forwarded a)(d := sp_forwarded a d + 1)\<rparr>"

lemma release_counter_sim:
  assumes "counters_rel c a" and "counters_fit a"
  shows "case release_counter d c of
      Inl e \<Rightarrow> e = DiagnosticCounterOverflow \<and> \<not> counters_fit (advance a d)
    | Inr c' \<Rightarrow> counters_fit (advance a d) \<and> counters_rel c' (advance a d)"
proof -
  have "counters_fit (advance a d) \<longleftrightarrow> sp_forwarded a d + 1 < 2 ^ 64"
    using assms(2) by (auto simp: counters_fit_def advance_def)
  with assms(1) show ?thesis
    by (cases d) (auto simp: release_counter_def increment_cases counters_rel_def advance_def unat_succ_fits)
qed

lemma rel_pop:
  assumes "rel_core sha256 l s a" and "sp_queue a d = f # fs"
  shows "queue_pop (px_queue d s) = (Inr (Some f), (px_queue d s)\<lparr>pq_frames := fs, pq_bytes := frames_bytes fs\<rparr>)"
    and "rel_core sha256 l ((px_set_queue d ((px_queue d s)\<lparr>pq_frames := fs, pq_bytes := frames_bytes fs\<rparr>) s)
        \<lparr>px_counters := c, px_last_observed_time := Some now\<rparr>) (spec_pop a d now)"
  using assms by (auto simp: rel_core_def direction_rel_def queue_pop_def spec_pop_def)

lemma spec_pop_counters:
  "counters_fit ((spec_pop a d now)\<lparr>sp_active := A\<rparr>) = counters_fit (advance a d)"
  "counters_rel c ((spec_pop a d now)\<lparr>sp_active := A\<rparr>) = counters_rel c (advance a d)"
  "counters_fit (spec_pop a d now) = counters_fit (advance a d)"
  "counters_rel c (spec_pop a d now) = counters_rel c (advance a d)"
  by (simp_all add: counters_fit_def counters_rel_def spec_pop_def advance_def)

lemma front_queued:
  assumes "spec_inv U l a" and "sp_queue a d = f # fs" and "mo_kind (fr_observation f) = Request"
  obtains i where "mo_request_id (fr_observation f) = Some i" and "sp_active a d i = Some Queued"
proof -
  have "direction_inv U l a d"
    using assms(1) by (simp add: spec_inv_def)
  then have "frame_ok f"
    by (simp add: direction_inv_def assms(2))
  with assms(3) obtain i where i: "mo_request_id (fr_observation f) = Some i"
    by (auto simp: frame_ok_def)
  then have "i \<in> set (waiting (sp_queue a d))"
    by (simp add: assms(2,3) waiting_Cons)
  with i that show thesis by (simp add: waiting_queued [OF assms(1)])
qed

lemma release_sim:
  assumes rel: "proxy_rel sha256 l s a" and inv: "spec_inv U l a"
  shows "fst (proxy_release add_instant s d now :: ('je AppServerProxyError + _) \<times> _) = fst (spec_release add_instant l a d now)
    \<and> proxy_rel sha256 l (snd (proxy_release add_instant s d now :: ('je AppServerProxyError + _) \<times> _))
      (snd (spec_release add_instant l a d now :: ('je AppServerProxyError + _) \<times> _))
    \<and> (\<forall>e. fst (proxy_release add_instant s d now) = (Inl e :: 'je AppServerProxyError + _) \<longrightarrow>
      snd (proxy_release add_instant s d now :: ('je AppServerProxyError + _) \<times> _) = s)"
proof (cases "clock_ok a now")
  case False
  with rel clock_sim [where ?'a = 'je, OF rel, of now] show ?thesis
    by (simp add: proxy_release_def spec_release_def)
next
  case clock: True
  note mono = clock_sim [where ?'a = 'je, OF rel, of now]
  have core: "rel_core sha256 l s a" and cnt: "counters_rel (px_counters s) a" and l: "px_limits s = l"
    using rel by (simp_all add: proxy_rel_core rel_core_def)
  have fit: "counters_fit a" using inv by (simp add: spec_inv_def)
  note num = release_counter_sim [where ?'a = 'je, OF cnt fit, of d]
  have frames: "pq_frames (px_queue d s) = sp_queue a d" and get: "bt_get (px_requests d s) = sp_active a d"
    using core by (simp_all add: rel_core_def direction_rel_def)
  show ?thesis
  proof (cases "sp_queue a d")
    case Nil
    then show ?thesis
      using rel clock mono frames
      by (auto simp: proxy_release_def spec_release_def queue_front_def proxy_rel_def direction_rel_def counters_rel_def)
  next
    case (Cons f fs)
    have front: "queue_front (px_queue d s) = Some f"
      by (simp add: queue_front_def frames Cons)
    show ?thesis
    proof (cases "mo_kind (fr_observation f) = Request")
      case False
      note pop = rel_pop(1) [where ?'a = 'je, OF core Cons] rel_pop(2) [OF core Cons]
      from False clock mono front num pop rel show ?thesis
        by (auto simp: proxy_release_def spec_release_def Cons release_deadline_def start_deadline_def commit_def
            spec_pop_counters proxy_rel_core split: sum.splits)
    next
      case True
      then obtain i where i: "mo_request_id (fr_observation f) = Some i" "sp_active a d i = Some Queued"
        using front_queued [OF inv Cons] by blast
      show ?thesis
      proof (cases "add_instant now (pl_request_timeout l)")
        case None
        with True clock mono front rel i l show ?thesis
          by (simp add: proxy_release_def spec_release_def Cons release_deadline_def)
      next
        case (Some t)
        let ?a = "a\<lparr>sp_active := (sp_active a)(d := (sp_active a d)(i \<mapsto> Pending t))\<rparr>"
        let ?s = "px_set_requests d (bt_insert i (Pending t) (px_requests d s)) s"
        have core': "rel_core sha256 l ?s ?a"
          by (rule rel_activate [OF core])
        have eq: "spec_pop ?a d now = (spec_pop a d now)\<lparr>sp_active := (sp_active a)(d := (sp_active a d)(i \<mapsto> Pending t))\<rparr>"
          by (simp add: spec_pop_def)
        have cons': "sp_queue ?a d = f # fs" by (simp add: Cons)
        note pop = rel_pop(1) [where ?'a = 'je, OF core' cons'] rel_pop(2) [OF core' cons', where now = now, unfolded eq]
        from Some True clock mono front num pop rel i l get show ?thesis
          by (auto simp: proxy_release_def spec_release_def Cons release_deadline_def start_deadline_def commit_def
              spec_pop_counters proxy_rel_core split: sum.splits)
      qed
    qed
  qed
qed

lemma spec_release_inv:
  assumes "spec_inv U l a"
  shows "spec_inv U l (snd (spec_release add_instant l a d now :: ('je AppServerProxyError + _) \<times> _))"
proof -
  have keep: "spec_inv U l (a\<lparr>sp_time := t\<rparr>)" for t
    using assms by (simp add: spec_inv_def direction_inv_def counters_fit_def active_count_def retired_count_def)
  have pop: "spec_inv U l a'" if q: "sp_queue a d = f # fs" and fit: "counters_fit a'"
    and a': "a' = (if mo_kind (fr_observation f) = Request
      then (spec_pop a d now)\<lparr>sp_active := (sp_active a)(d := (sp_active a d)(the (mo_request_id (fr_observation f)) \<mapsto> Pending t))\<rparr>
      else spec_pop a d now)" for f fs a' t
  proof -
    have inv: "direction_inv U l a e" for e
      using assms by (simp add: spec_inv_def)
    have "direction_inv U l a' e" for e
    proof (cases "mo_kind (fr_observation f) = Request")
      case True
      then obtain i where i: "mo_request_id (fr_observation f) = Some i" "sp_active a d i = Some Queued"
        using front_queued [OF assms q] by blast
      with True inv [of e] q show ?thesis
        by (auto simp: a' direction_inv_def spec_pop_def waiting_Cons)
    next
      case False
      with inv [of e] q show ?thesis
        by (auto simp: a' direction_inv_def spec_pop_def waiting_Cons)
    qed
    moreover have "active_count a' = active_count a \<and> retired_count a' = retired_count a"
    proof (cases "mo_kind (fr_observation f) = Request")
      case True
      then obtain i where "mo_request_id (fr_observation f) = Some i" "sp_active a d i = Some Queued"
        using front_queued [OF assms q] by blast
      with True have "dom (sp_active a' e) = dom (sp_active a e)" for e
        by (auto simp: a' spec_pop_def)
      with True show ?thesis
        by (simp add: active_count_def retired_count_def) (simp add: a' spec_pop_def)
    qed (simp add: a' spec_pop_def active_count_def retired_count_def)
    ultimately show ?thesis
      using assms fit by (simp add: spec_inv_def)
  qed
  show ?thesis
  proof (cases "sp_queue a d")
    case Nil
    with assms keep show ?thesis by (simp add: spec_release_def)
  next
    case (Cons f fs)
    with assms pop [OF Cons] show ?thesis
      by (auto simp: spec_release_def commit_def split: option.splits)
  qed
qed

subsection \<open>Expiry\<close>

definition retire_one :: "AppServerExpiredRequest \<Rightarrow> ProxySpec \<Rightarrow> ProxySpec" where
  "retire_one r a = a\<lparr>sp_active := (sp_active a)(ex_origin r := (sp_active a (ex_origin r))(ex_request_id r := None)),
     sp_retired := (sp_retired a)(ex_origin r := insert (ex_request_id r) (sp_retired a (ex_origin r)))\<rparr>"

lemma expire_apply_sim:
  assumes "rel_core sha256 l s a" and "inj_on (request_id_digest sha256) U" and "\<forall>d. sp_retired a d \<subseteq> U"
    and "distinct rs" and "\<forall>r \<in> set rs. ex_request_id r \<in> U \<and> ex_request_id r \<notin> sp_retired a (ex_origin r) \<and>
      sp_active a (ex_origin r) (ex_request_id r) \<noteq> None"
  shows "\<exists>s'. expire_apply sha256 rs s = (Inr () :: 'je AppServerProxyError + _, s') \<and>
    rel_core sha256 l s' (fold retire_one rs a) \<and> px_counters s' = px_counters s"
  using assms(1,3-5)
proof (induction rs arbitrary: s a)
  case (Cons r rs)
  let ?d = "ex_origin r" and ?i = "ex_request_id r"
  let ?s = "px_set_history ?d (bt_insert (request_id_digest sha256 ?i) () (px_history ?d s))
      (px_set_requests ?d (bt_remove ?i (px_requests ?d s)) s)"
  have r: "?i \<in> U" "?i \<notin> sp_retired a ?d" "sp_active a ?d ?i \<noteq> None" "sp_retired a ?d \<subseteq> U"
    using Cons.prems(2,4) by simp_all
  have step: "retire_request sha256 ?d ?i s = (Inr () :: 'je AppServerProxyError + _, ?s)"
    by (rule retire_request_ok [OF Cons.prems(1) assms(2) r(4,1,2,3)])
  have "rel_core sha256 l ?s (retire_one r a)"
    unfolding retire_one_def by (rule rel_retire [OF Cons.prems(1)])
  moreover have "\<forall>d. sp_retired (retire_one r a) d \<subseteq> U"
    using Cons.prems(2) r(1) by (simp add: retire_one_def)
  moreover have "\<forall>q \<in> set rs. ex_request_id q \<in> U \<and> ex_request_id q \<notin> sp_retired (retire_one r a) (ex_origin q) \<and>
      sp_active (retire_one r a) (ex_origin q) (ex_request_id q) \<noteq> None"
  proof
    fix q
    assume q: "q \<in> set rs"
    then have "\<not> (ex_origin q = ?d \<and> ex_request_id q = ?i)"
      using Cons.prems(3) by (metis AppServerExpiredRequest.equality distinct.simps(2) old.unit.exhaust)
    then show "ex_request_id q \<in> U \<and> ex_request_id q \<notin> sp_retired (retire_one r a) (ex_origin q) \<and>
      sp_active (retire_one r a) (ex_origin q) (ex_request_id q) \<noteq> None"
      using Cons.prems(4) q by (auto simp: retire_one_def)
  qed
  moreover have "distinct rs" using Cons.prems(3) by simp
  ultimately obtain s' where "expire_apply sha256 rs ?s = (Inr () :: 'je AppServerProxyError + _, s')"
    "rel_core sha256 l s' (fold retire_one rs (retire_one r a))" "px_counters s' = px_counters ?s"
    using Cons.IH by blast
  with step show ?case by simp
qed auto

lemma fold_retire:
  "sp_active (fold retire_one rs a) d i =
     (if \<lparr>ex_origin = d, ex_request_id = i\<rparr> \<in> set rs then None else sp_active a d i)"
  "sp_retired (fold retire_one rs a) d = sp_retired a d \<union> {i. \<lparr>ex_origin = d, ex_request_id = i\<rparr> \<in> set rs}"
  by (induction rs arbitrary: a)
    (auto simp: retire_one_def, (metis AppServerExpiredRequest.select_convs)+)

lemma expired_direction_eq:
  assumes "direction_rel sha256 l s a d" and "finite (dom (sp_active a d))"
  shows "expired_direction (px_requests d s) d now =
    map (\<lambda>i. \<lparr>ex_origin = d, ex_request_id = i\<rparr>) (sorted_list_of_set (overdue a now d))"
proof -
  let ?P = "\<lambda>(i :: AppServerRequestId, st). case st of Pending deadline \<Rightarrow> deadline \<le> now | Queued \<Rightarrow> False"
  let ?ids = "map fst (filter ?P (px_requests d s))"
  have wf: "bt_wf (px_requests d s)" and get: "bt_get (px_requests d s) = sp_active a d"
    using assms(1) by (simp_all add: direction_rel_def)
  have fin: "finite (overdue a now d)"
    by (rule finite_subset [OF _ assms(2)]) (auto simp: overdue_def)
  have "sorted_wrt (<) (map fst (px_requests d s))"
    using wf by (simp add: bt_wf_def)
  then have "sorted_wrt (<) ?ids"
    by (simp add: sorted_wrt_map sorted_wrt_filter)
  moreover have "set ?ids = overdue a now d"
    using bt_get_mem [OF wf] unfolding get overdue_def
    by (force split: ActiveRequestState.splits)
  ultimately have "?ids = sorted_list_of_set (overdue a now d)"
    using fin by (intro strict_sorted_equal) simp_all
  moreover have "expired_direction (px_requests d s) d now = map (\<lambda>i. \<lparr>ex_origin = d, ex_request_id = i\<rparr>) ?ids"
    by (simp add: expired_direction_def split_def comp_def)
  ultimately show ?thesis by simp
qed

lemma expired_list_mem:
  assumes "spec_inv U l a"
  shows "\<lparr>ex_origin = d, ex_request_id = i\<rparr> \<in> set (expired_list a now) \<longleftrightarrow> i \<in> overdue a now d"
    and "r \<in> set (expired_list a now) \<Longrightarrow> ex_request_id r \<in> overdue a now (ex_origin r)"
    and "distinct (expired_list a now)"
    and "length (expired_list a now) = card (overdue a now ClientToServer) + card (overdue a now ServerToClient)"
proof -
  have fin: "finite (overdue a now e)" for e
    using assms by (intro finite_subset [of "overdue a now e" "dom (sp_active a e)"])
      (auto simp: overdue_def spec_inv_def direction_inv_def)
  show "\<lparr>ex_origin = d, ex_request_id = i\<rparr> \<in> set (expired_list a now) \<longleftrightarrow> i \<in> overdue a now d"
    using fin by (cases d) (auto simp: expired_list_def)
  show "r \<in> set (expired_list a now) \<Longrightarrow> ex_request_id r \<in> overdue a now (ex_origin r)"
    using fin by (auto simp: expired_list_def)
  show "distinct (expired_list a now)"
    by (auto simp: expired_list_def distinct_map inj_on_def)
  show "length (expired_list a now) = card (overdue a now ClientToServer) + card (overdue a now ServerToClient)"
    using fin by (simp add: expired_list_def)
qed

definition expired_spec :: "ProxySpec \<Rightarrow> instant \<Rightarrow> ProxySpec" where
  "expired_spec a now = a\<lparr>sp_active := (\<lambda>d. sp_active a d |` (- overdue a now d)),
     sp_retired := (\<lambda>d. sp_retired a d \<union> overdue a now d),
     sp_expired := sp_expired a + length (expired_list a now), sp_time := Some now\<rparr>"

lemma overdue_active: "i \<in> overdue a now d \<Longrightarrow> \<exists>t. sp_active a d i = Some (Pending t)"
  by (auto simp: overdue_def)

lemma fold_retire_expired:
  assumes "spec_inv U l a"
  shows "sp_active (fold retire_one (expired_list a now) a) = sp_active (expired_spec a now)"
    and "sp_retired (fold retire_one (expired_list a now) a) = sp_retired (expired_spec a now)"
  using expired_list_mem(1) [OF assms]
  by (auto simp: fold_retire expired_spec_def restrict_map_def fun_eq_iff)

lemma fold_retire_other:
  "sp_queue (fold retire_one rs a) = sp_queue a" "sp_open (fold retire_one rs a) = sp_open a"
  "sp_time (fold retire_one rs a) = sp_time a"
  by (induction rs arbitrary: a) (auto simp: retire_one_def)

lemma expire_check_ok:
  assumes "rel_core sha256 l s a" and "inj_on (request_id_digest sha256) U" and "\<forall>d. sp_retired a d \<subseteq> U"
    and "\<forall>r \<in> set rs. ex_request_id r \<in> U \<and> ex_request_id r \<notin> sp_retired a (ex_origin r)"
  shows "expire_check sha256 rs s = Inr ()"
  using assms(4)
proof (induction rs)
  case (Cons r rs)
  have "direction_rel sha256 l s a (ex_origin r)"
    using assms(1) by (simp add: rel_core_def)
  from digest_mem [OF this assms(2)] assms(3) Cons show ?case by simp
qed simp

lemma rel_expired:
  assumes "rel_core sha256 l s' (fold retire_one (expired_list a now) a)" and "spec_inv U l a"
  shows "rel_core sha256 l (s'\<lparr>px_counters := c, px_last_observed_time := Some now\<rparr>) (expired_spec a now)"
proof -
  have "sp_queue (expired_spec a now) = sp_queue a" "sp_open (expired_spec a now) = sp_open a"
      "sp_time (expired_spec a now) = Some now"
    by (simp_all add: expired_spec_def)
  with assms(1) show ?thesis
    unfolding rel_core_def direction_rel_def fold_retire_expired [OF assms(2)] fold_retire_other by simp
qed

lemma expire_sim:
  assumes rel: "proxy_rel sha256 l s a" and inv: "spec_inv U l a" and inj: "inj_on (request_id_digest sha256) U"
  shows "fst (proxy_expire sha256 s now :: ('je AppServerProxyError + _) \<times> _) = fst (spec_expire a now)
    \<and> proxy_rel sha256 l (snd (proxy_expire sha256 s now :: ('je AppServerProxyError + _) \<times> _))
      (snd (spec_expire a now :: ('je AppServerProxyError + _) \<times> _))
    \<and> (\<forall>e. fst (proxy_expire sha256 s now) = (Inl e :: 'je AppServerProxyError + _) \<longrightarrow>
      snd (proxy_expire sha256 s now :: ('je AppServerProxyError + _) \<times> _) = s)"
proof -
  have core: "rel_core sha256 l s a" and cnt: "counters_rel (px_counters s) a"
    using rel by (simp_all add: proxy_rel_core)
  have sub: "\<forall>d. sp_retired a d \<subseteq> U" using spec_inv_retired(1) [OF inv] by blast
  have drel: "direction_rel sha256 l s a d" and fin: "finite (dom (sp_active a d))" for d
    using core inv by (simp_all add: rel_core_def spec_inv_def direction_inv_def)
  have list: "expired_direction (px_client_requests s) ClientToServer now @
      expired_direction (px_server_requests s) ServerToClient now = expired_list a now"
    using expired_direction_eq [OF drel fin, of ClientToServer now] expired_direction_eq [OF drel fin, of ServerToClient now]
    by (simp add: expired_list_def)
  have rs: "\<forall>r \<in> set (expired_list a now). ex_request_id r \<in> U \<and> ex_request_id r \<notin> sp_retired a (ex_origin r) \<and>
      sp_active a (ex_origin r) (ex_request_id r) \<noteq> None"
    using expired_list_mem(2) [OF inv] overdue_active spec_inv_retired(2,3) [OF inv] by (metis option.distinct(1))
  obtain s' where s': "expire_apply sha256 (expired_list a now) s = (Inr () :: 'je AppServerProxyError + _, s')"
    "rel_core sha256 l s' (fold retire_one (expired_list a now) a)" "px_counters s' = px_counters s"
    using expire_apply_sim [where ?'je = 'je, OF core inj sub expired_list_mem(3) [OF inv] rs] by blast
  have check: "expire_check sha256 (expired_list a now) s = (Inr () :: 'je AppServerProxyError + unit)"
    using rs by (intro expire_check_ok [OF core inj sub]) blast
  note mono = clock_sim [where ?'a = 'je, OF rel, of now]
  have fit: "counters_fit (expired_spec a now) \<longleftrightarrow> sp_expired a + length (expired_list a now) < 2 ^ 64"
    using inv by (auto simp: expired_spec_def counters_fit_def spec_inv_def)
  have len: "length (expired_list a now) < 2 ^ 64 \<Longrightarrow> unat (of_nat (length (expired_list a now)) :: u64) = length (expired_list a now)"
    by (simp add: unat_of_nat)
  have new: "unat (pc_expired_requests (px_counters s)) = sp_expired a"
    using cnt by (simp add: counters_rel_def)
  have cnt': "counters_rel ((px_counters s)\<lparr>pc_expired_requests := pc_expired_requests (px_counters s) +
      of_nat (length (expired_list a now))\<rparr>) (expired_spec a now)" if "counters_fit (expired_spec a now)"
    using that cnt len unfolding fit
    by (auto simp: counters_rel_def expired_spec_def unat_add_fits)
  show ?thesis
    using rel mono check s' cnt' rel_expired [OF s'(2) inv] fit len new
    by (auto simp: proxy_expire_def list spec_expire_def expired_spec_def [symmetric] commit_def u64_try_from_def
        add_counter_cases proxy_rel_core Let_def)
qed

lemma expired_spec_inv:
  assumes "spec_inv U l a" and "counters_fit (expired_spec a now)"
  shows "spec_inv U l (expired_spec a now)"
proof -
  have inv: "direction_inv U l a d" for d
    using assms(1) by (simp add: spec_inv_def)
  have card: "card (dom (sp_active (expired_spec a now) d)) + card (overdue a now d) = card (dom (sp_active a d))"
    "card (sp_retired (expired_spec a now) d) = card (sp_retired a d) + card (overdue a now d)" for d
  proof -
    have sub: "overdue a now d \<subseteq> dom (sp_active a d)" and fin: "finite (dom (sp_active a d))" "finite (sp_retired a d)"
      and dis: "sp_retired a d \<inter> dom (sp_active a d) = {}"
      using inv [of d] by (auto simp: overdue_def direction_inv_def)
    have dom: "dom (sp_active (expired_spec a now) d) = dom (sp_active a d) - overdue a now d"
      by (auto simp: expired_spec_def)
    have le: "card (overdue a now d) \<le> card (dom (sp_active a d))"
      by (rule card_mono [OF fin(1) sub])
    then show "card (dom (sp_active (expired_spec a now) d)) + card (overdue a now d) = card (dom (sp_active a d))"
      unfolding dom using card_Diff_subset [OF finite_subset [OF sub fin(1)] sub] by simp
    have "sp_retired a d \<inter> overdue a now d = {}" using sub dis by blast
    with fin finite_subset [OF sub fin(1)]
    show "card (sp_retired (expired_spec a now) d) = card (sp_retired a d) + card (overdue a now d)"
      by (simp add: expired_spec_def card_Un_disjoint)
  qed
  have "direction_inv U l (expired_spec a now) d" for d
  proof -
    have "sp_active (expired_spec a now) d i = Some Queued \<longleftrightarrow> sp_active a d i = Some Queued" for i
      by (auto simp: expired_spec_def restrict_map_def overdue_def)
    moreover have "overdue a now d \<subseteq> dom (sp_active a d)"
      by (auto simp: overdue_def)
    ultimately show ?thesis
      using inv [of d] finite_subset [of "overdue a now d" "dom (sp_active a d)"]
      unfolding direction_inv_def by (auto simp: expired_spec_def)
  qed
  moreover have "active_count (expired_spec a now) \<le> active_count a"
    "active_count (expired_spec a now) + retired_count (expired_spec a now) = active_count a + retired_count a"
    using card [of ClientToServer] card [of ServerToClient] unfolding active_count_def retired_count_def by linarith+
  ultimately show ?thesis
    using assms by (simp add: spec_inv_def)
qed

lemma spec_expire_inv:
  "spec_inv U l a \<Longrightarrow> spec_inv U l (snd (spec_expire a now :: ('je AppServerProxyError + _) \<times> _))"
  using expired_spec_inv [of U l a now] by (simp add: spec_expire_def commit_def expired_spec_def [symmetric])

subsection \<open>Closing\<close>

lemma spec_close_inv: "spec_inv U l a \<Longrightarrow> spec_inv U l (snd (spec_close a))"
  by (simp add: spec_close_def spec_inv_def direction_inv_def counters_fit_def active_count_def retired_count_def waiting_def)

lemma close_sim:
  assumes rel: "proxy_rel sha256 l s a" and inv: "spec_inv U l a" and inj: "inj_on (request_id_digest sha256) U"
    and l: "proxy_limits_valid l"
  shows "fst (proxy_close s) = fst (spec_close a)" and "proxy_rel sha256 l (snd (proxy_close s)) (snd (spec_close a))"
proof -
  have drel: "direction_rel sha256 l s a d" and dinv: "direction_inv U l a d" for d
    using rel inv by (simp_all add: proxy_rel_def spec_inv_def)
  note q = drel [of ClientToServer] drel [of ServerToClient]
  have small: "length (sp_queue a d) \<le> 4096" "frames_bytes (sp_queue a d) \<le> 64 * 1024 * 1024" for d
    using dinv [of d] l by (cases d; simp add: direction_inv_def proxy_limits_valid_def queue_limits_valid_def
        ABSOLUTE_MAX_QUEUE_MESSAGES_def ABSOLUTE_MAX_QUEUE_BYTES_def)+
  have cnt: "active_count a + retired_count a \<le> 1048576"
    using inv l by (simp add: spec_inv_def proxy_limits_valid_def ABSOLUTE_MAX_REQUEST_HISTORY_def)
  have m: "pq_frames (px_to_server s) = sp_queue a ClientToServer" "pq_frames (px_to_client s) = sp_queue a ServerToClient"
    "pq_bytes (px_to_server s) = frames_bytes (sp_queue a ClientToServer)"
    "pq_bytes (px_to_client s) = frames_bytes (sp_queue a ServerToClient)"
    using q by (simp_all add: direction_rel_def)
  show "fst (proxy_close s) = fst (spec_close a)"
    using small [of ClientToServer] small [of ServerToClient] cnt rel_counts [OF rel inv inj]
    by (simp add: proxy_close_def spec_close_def queue_clear_def m saturating_add_usize_def)
  show "proxy_rel sha256 l (snd (proxy_close s)) (snd (spec_close a))"
    using rel q unfolding proxy_rel_def all_directions
    by (simp add: proxy_close_def spec_close_def queue_clear_def direction_rel_def counters_rel_def bt.wf_empty
        bt_get_def [abs_def])
qed

end
