(* ===== verification/App_Server_Session.thy ===== *)
theory App_Server_Session
  imports App_Server_Invariant
begin

section \<open>Sessions of the app-server proxy\<close>

text \<open>
  Whole sessions: any sequence of calls on a new proxy. The refinement is an interpretation
  of the \<open>simulation\<close> locale; the order of frames, their bounds, the use of request
  identities and the progress of a queue follow from it or from the effect of one call on
  one queue.
\<close>

subsection \<open>The specification's calls\<close>

definition ingest_frame :: "direction \<Rightarrow> ClassifiedMessage \<Rightarrow> bytes \<Rightarrow> AppServerProxyFrame" where
  "ingest_frame d m line = \<lparr>fr_observation = \<lparr>mo_direction = d, mo_kind = cm_kind m, mo_method = cm_method m,
     mo_request_id = cm_request_id m, mo_byte_length = length line\<rparr>, fr_json_bytes = line\<rparr>"

fun spec_step ::
    "(bytes \<Rightarrow> 'je RawJson \<times> 'je option) \<Rightarrow> (string \<Rightarrow> 'je) \<Rightarrow> (instant \<Rightarrow> duration \<Rightarrow> instant option) \<Rightarrow>
     AppServerProxyLimits \<Rightarrow> ProxySpec \<Rightarrow> ProxyCall \<Rightarrow> ('je AppServerProxyError + ProxyAnswer) \<times> ProxySpec" where
  "spec_step tokens custom add_instant l a (Ingest d line) =
     (if \<not> sp_open a then (Inl Closed, a)
      else (case parse_and_classify tokens custom line l of
          Inl e \<Rightarrow> (Inl e, a)
        | Inr m \<Rightarrow> answer Observed (spec_admit l a (ingest_frame d m line))))"
| "spec_step tokens custom add_instant l a (Admit c) =
     (if \<not> sp_open a then (Inl Closed, a)
      else if cd_prepared_limits c \<noteq> l then (Inl CandidateLimitsMismatch, a)
      else answer Observed (spec_admit l a (frame_of c)))"
| "spec_step tokens custom add_instant l a (Release d now) = answer Released (spec_release add_instant l a d now)"
| "spec_step tokens custom add_instant l a (Expire now) = answer Expired (spec_expire a now)"
| "spec_step tokens custom add_instant l a Close = (Inr (CloseReport (fst (spec_close a))), snd (spec_close a))"

text \<open>
  The identities of a session are in \<open>U\<close>; a candidate that is admitted was prepared by some
  proxy, the only way to make one.
\<close>

fun proxy_call_ok ::
    "AppServerRequestId set \<Rightarrow> (bytes \<Rightarrow> 'je RawJson \<times> 'je option) \<Rightarrow> (string \<Rightarrow> 'je) \<Rightarrow> AppServerProxyLimits \<Rightarrow>
     ProxyCall \<Rightarrow> bool" where
  "proxy_call_ok U tokens custom l (Ingest d line) \<longleftrightarrow>
     (case parse_and_classify tokens custom line l of Inl _ \<Rightarrow> True
      | Inr m \<Rightarrow> (case cm_request_id m of None \<Rightarrow> True | Some i \<Rightarrow> i \<in> U))"
| "proxy_call_ok U tokens custom l (Admit c) \<longleftrightarrow> ids_in U (cd_observation c) \<and>
     (\<exists>s. proxy_prepare tokens custom s (mo_direction (cd_observation c)) (cd_json_bytes c) = Inr c)"
| "proxy_call_ok U tokens custom l _ \<longleftrightarrow> True"

lemma classified_request:
  fixes tokens :: "bytes \<Rightarrow> 'je RawJson \<times> 'je option"
  shows "parse_and_classify tokens custom line l = Inr m \<Longrightarrow> cm_kind m = Request \<Longrightarrow> cm_request_id m \<noteq> None"
  (is "_ \<Longrightarrow> _ \<Longrightarrow> ?thesis")
proof -
  assume ok: "parse_and_classify tokens custom line l = Inr m" and kind: "cm_kind m = Request"
  then obtain v where "(case v of JObject object \<Rightarrow> classify_object object | _ \<Rightarrow> Inl TopLevelNotObject) =
      (Inr m :: 'je AppServerProxyError + _)"
    unfolding parse_and_classify_def by (auto simp: rbind_Inr_iff if_Inl_Inr)
  then obtain object where "message_shape object m"
    by (cases v) (auto simp: classify_object_Inr)
  then show ?thesis using kind by cases auto
qed

lemma proxy_prepare_Inr:
  "proxy_prepare tokens custom s d line = Inr c \<longleftrightarrow> px_state s = ProxyOpen \<and>
     (\<exists>m. parse_and_classify tokens custom line (px_limits s) = Inr m \<and>
       c = \<lparr>cd_prepared_limits = px_limits s, cd_observation = fr_observation (ingest_frame d m line),
         cd_json_bytes = line\<rparr>)"
  by (cases "px_state s") (auto simp: proxy_prepare_def rbind_Inr_iff ingest_frame_def)

lemma prepared_frame_ok:
  "proxy_prepare tokens custom s d line = Inr c \<Longrightarrow> frame_ok (frame_of c)"
  using classified_request by (fastforce simp: proxy_prepare_Inr frame_ok_def frame_of_def ingest_frame_def)

subsection \<open>Digests\<close>

lemma to_be_8_inject: "to_be 8 (unat m) = to_be 8 (unat n) \<longleftrightarrow> m = n" for m n :: u64
  using to_le_eqD [of 8 "unat m" "unat n"] unsigned_less [of m, where ?'a = nat] unsigned_less [of n, where ?'a = nat]
  by (auto simp: to_be_def dest: unsigned_word_eqI)

lemma char_bytes_inject: "map char_byte s = map char_byte t \<longleftrightarrow> s = t"
  by (intro inj_map_eq_map injI) (metis byte_char_byte)

text \<open>What is hashed determines the identity, so digests collide only when SHA-256 does.\<close>

lemma request_id_preimage_inject: "request_id_preimage i = request_id_preimage j \<longleftrightarrow> i = j"
  by (cases i; cases j) (auto simp: to_be_8_inject char_bytes_inject)

lemma digest_separates:
  assumes "inj_on sha256 (request_id_preimage ` U)"
  shows "inj_on (request_id_digest sha256) U"
  using assms request_id_preimage_inject unfolding inj_on_def request_id_digest_def by blast

subsection \<open>Refinement\<close>

definition session_rel ::
    "(bytes \<Rightarrow> bytes) \<Rightarrow> AppServerRequestId set \<Rightarrow> AppServerProxyLimits \<Rightarrow> TransparentAppServerProxy \<Rightarrow> ProxySpec \<Rightarrow> bool" where
  "session_rel sha256 U l s a \<longleftrightarrow> proxy_limits_valid l \<and> inj_on (request_id_digest sha256) U \<and>
     proxy_rel sha256 l s a \<and> spec_inv U l a"

lemma session_new:
  "proxy_limits_valid l \<Longrightarrow> inj_on (request_id_digest sha256) U \<Longrightarrow> session_rel sha256 U l (proxy_new l) spec_new"
  unfolding session_rel_def proxy_rel_def all_directions spec_inv_def
  by (simp add: proxy_new_def spec_new_def queue_new_def direction_rel_def counters_rel_def bt.wf_empty
      bt_get_def [abs_def] direction_inv_def waiting_def counters_fit_def active_count_def retired_count_def)

lemma answer_simps [simp]:
  "fst (answer f r) = rbind (fst r) (\<lambda>x. Inr (f x))" "snd (answer f r) = snd r"
  by (simp_all add: answer_def)

lemma rbind_Inr_Inl [simp]: "rbind r (\<lambda>x. Inr (f x)) = Inl e \<longleftrightarrow> r = Inl e"
  by (cases r) simp_all

lemma admit_session:
  assumes "session_rel sha256 U l s a" and "ids_in U (cd_observation c)" and "frame_ok (frame_of c)"
  shows "fst (admit_candidate sha256 s c :: ('je AppServerProxyError + _) \<times> _) = fst (spec_admit l a (frame_of c))"
    and "session_rel sha256 U l (snd (admit_candidate sha256 s c :: ('je AppServerProxyError + _) \<times> _))
      (snd (spec_admit l a (frame_of c) :: ('je AppServerProxyError + _) \<times> _))"
    and "fst (admit_candidate sha256 s c) = (Inl e :: 'je AppServerProxyError + _) \<Longrightarrow>
      snd (admit_candidate sha256 s c :: ('je AppServerProxyError + _) \<times> _) = s"
proof -
  have h: "proxy_rel sha256 l s a" "spec_inv U l a" "inj_on (request_id_digest sha256) U" "proxy_limits_valid l"
    using assms(1) by (simp_all add: session_rel_def)
  note sim = admit_sim [where ?'je = 'je, OF h assms(2,3)]
  have "spec_inv U l (snd (spec_admit l a (frame_of c) :: ('je AppServerProxyError + _) \<times> _))"
    using assms(2) by (intro spec_admit_inv [OF h(2) _ assms(3)]) (simp add: frame_of_def)
  with sim(2) h show "session_rel sha256 U l (snd (admit_candidate sha256 s c :: ('je AppServerProxyError + _) \<times> _))
      (snd (spec_admit l a (frame_of c) :: ('je AppServerProxyError + _) \<times> _))"
    by (simp add: session_rel_def)
  show "fst (admit_candidate sha256 s c :: ('je AppServerProxyError + _) \<times> _) = fst (spec_admit l a (frame_of c))"
    and "fst (admit_candidate sha256 s c) = (Inl e :: 'je AppServerProxyError + _) \<Longrightarrow>
      snd (admit_candidate sha256 s c :: ('je AppServerProxyError + _) \<times> _) = s"
    using sim(1,3) by blast+
qed

lemma step_sim:
  fixes tokens :: "bytes \<Rightarrow> 'je RawJson \<times> 'je option"
  assumes "session_rel sha256 U l s a" and "proxy_call_ok U tokens custom l x"
  shows "fst (proxy_step tokens custom sha256 add_instant s x) = fst (spec_step tokens custom add_instant l a x) \<and>
    session_rel sha256 U l (snd (proxy_step tokens custom sha256 add_instant s x))
      (snd (spec_step tokens custom add_instant l a x)) \<and>
    (\<forall>e. fst (proxy_step tokens custom sha256 add_instant s x) = Inl e \<longrightarrow>
      snd (proxy_step tokens custom sha256 add_instant s x) = s)"
proof -
  have h: "proxy_rel sha256 l s a" "spec_inv U l a" "inj_on (request_id_digest sha256) U" "proxy_limits_valid l"
    using assms(1) by (simp_all add: session_rel_def)
  have l: "px_limits s = l" and op: "px_state s = ProxyClosed \<longleftrightarrow> \<not> sp_open a"
    using h(1) by (auto simp: proxy_rel_def intro: AppServerProxyState.exhaust)
  show ?thesis
  proof (cases x)
    case (Ingest d line)
    show ?thesis
    proof (cases "\<exists>c. proxy_prepare tokens custom s d line = Inr c")
      case True
      then obtain c m where c: "proxy_prepare tokens custom s d line = Inr c"
        and m: "parse_and_classify tokens custom line l = Inr m" "px_state s = ProxyOpen"
          "c = \<lparr>cd_prepared_limits = l, cd_observation = fr_observation (ingest_frame d m line), cd_json_bytes = line\<rparr>"
        by (auto simp: proxy_prepare_Inr l)
      have fr: "frame_of c = ingest_frame d m line"
        by (simp add: frame_of_def m(3) ingest_frame_def)
      have "ids_in U (cd_observation c)"
        using assms(2) Ingest m by (simp add: ids_in_def ingest_frame_def)
      from admit_session [where ?'je = 'je, OF assms(1) this prepared_frame_ok [OF c], unfolded fr] c m(1,2) op Ingest show ?thesis
        by (auto simp: proxy_ingest_def)
    next
      case False
      then obtain e where "proxy_prepare tokens custom s d line = Inl e"
        by (cases "proxy_prepare tokens custom s d line") auto
      moreover from this have "spec_step tokens custom add_instant l a x = (Inl e, a)"
        using op by (auto simp: Ingest proxy_prepare_def l split: if_splits sum.splits)
      ultimately show ?thesis
        using assms(1) by (simp add: Ingest proxy_ingest_def)
    qed
  next
    case (Admit c)
    then have "ids_in U (cd_observation c)" "frame_ok (frame_of c)"
      using assms(2) prepared_frame_ok by auto
    from admit_session [where ?'je = 'je, OF assms(1) this] op assms(1) Admit show ?thesis
      by (auto simp: proxy_admit_def l)
  next
    case (Release d now)
    with release_sim [where ?'je = 'je, OF h(1,2), of add_instant d now] spec_release_inv [where ?'je = 'je, OF h(2), of add_instant d now] h(3,4)
    show ?thesis by (auto simp: session_rel_def)
  next
    case (Expire now)
    with expire_sim [where ?'je = 'je, OF h(1-3), of now] spec_expire_inv [where ?'je = 'je, OF h(2), of now] h(3,4)
    show ?thesis by (auto simp: session_rel_def)
  next
    case Close
    with close_sim [OF h] spec_close_inv [OF h(2)] h(3,4) show ?thesis
      by (simp add: session_rel_def)
  qed
qed

interpretation session: simulation
  "proxy_step tokens custom sha256 add_instant" "spec_step tokens custom add_instant l"
  "session_rel sha256 U l" "proxy_call_ok U tokens custom l"
  for tokens custom sha256 add_instant l U
  using step_sim by unfold_locales blast+

text \<open>
  C1: the proxy refines its specification. For limits the constructors accept and request
  identities the digest separates, any sequence of calls on a new proxy gives exactly the
  answers of the specification: first-in first-out queues with their ceilings, a response
  matched to a forwarded request only, identities that stay retired, deadlines, expiry in
  order, counters that refuse to overflow.
\<close>

theorem proxy_refines_spec:
  assumes "proxy_limits_valid l" and "inj_on sha256 (request_id_preimage ` U)"
    and "list_all (proxy_call_ok U tokens custom l) calls"
  shows "run_answers (proxy_step tokens custom sha256 add_instant) (proxy_new l) calls =
    run_answers (spec_step tokens custom add_instant l) spec_new calls"
  by (rule session.run_answers_eq [OF session_new [OF assms(1) digest_separates [OF assms(2)]] assms(3)])

text \<open>Limits from the constructors.\<close>

lemma limits_new_valid:
  assumes "queue_limits_new m1 b1 = (Inr q1 :: 'je AppServerProxyError + _)"
    and "queue_limits_new m2 b2 = (Inr q2 :: 'je AppServerProxyError + _)"
    and "proxy_limits_new line q1 q2 json active history timeout = (Inr l :: 'je AppServerProxyError + _)"
  shows "proxy_limits_valid l"
  using assms
  by (auto simp: queue_limits_new_def proxy_limits_new_def proxy_limits_valid_def queue_limits_valid_def split: if_splits)

lemma limits_initial_valid: "proxy_limits_valid proxy_limits_initial"
  by (simp add: proxy_limits_initial_def proxy_limits_valid_def queue_limits_valid_def ABSOLUTE_MAX_QUEUE_MESSAGES_def
      ABSOLUTE_MAX_QUEUE_BYTES_def ABSOLUTE_MAX_REQUEST_HISTORY_def)

definition example_tokens :: "bytes \<Rightarrow> unit RawJson \<times> unit option" where
  "example_tokens line =
     (if line = [1] then (RawMap [(''id'', RawU64 1), (''method'', RawStr ''m'')] None, None)
      else if line = [2] then (RawMap [(''id'', RawU64 1), (''result'', RawUnit)] None, None)
      else (RawError (), None))"

definition example_calls :: "ProxyCall list" where
  "example_calls = [Ingest ClientToServer [1], Release ClientToServer 5, Ingest ServerToClient [2],
     Ingest ClientToServer [1]]"

lemma example_parse:
  "parse_and_classify example_tokens (\<lambda>_. ()) [1] proxy_limits_initial =
     Inr \<lparr>cm_kind = Request, cm_method = Some ''m'', cm_request_id = Some (Unsigned 1)\<rparr>"
  "parse_and_classify example_tokens (\<lambda>_. ()) [2] proxy_limits_initial =
     Inr \<lparr>cm_kind = SuccessResponse, cm_method = None, cm_request_id = Some (Unsigned 1)\<rparr>"
  by (simp_all add: parse_and_classify_def is_ascii_whitespace_def parse_bounded_json_def example_tokens_def
      proxy_limits_initial_def seed_deserialize.simps budget_claim_def classify_object_def bt_get_def as_method_def bs_contains_def
      identity_text_def MAX_METHOD_BYTES_def parse_request_id.simps)

lemma example_calls_ok: "list_all (proxy_call_ok {Unsigned 1, Unsigned 2} example_tokens (\<lambda>_. ()) proxy_limits_initial) example_calls"
  by (simp add: example_calls_def example_parse)

theorem proxy_refines_spec_witness:
  "run_answers (proxy_step example_tokens (\<lambda>_. ()) id (\<lambda>t d. Some (t + d))) (proxy_new proxy_limits_initial) example_calls =
   run_answers (spec_step example_tokens (\<lambda>_. ()) (\<lambda>t d. Some (t + d)) proxy_limits_initial) spec_new example_calls"
  by (rule proxy_refines_spec [OF limits_initial_valid _ example_calls_ok]) simp

lemma parse_errors:
  fixes tokens :: "bytes \<Rightarrow> 'je RawJson \<times> 'je option"
  shows "parse_and_classify tokens custom line l \<noteq> Inl InconsistentCorrelationState"
proof -
  have id: "parse_request_id v \<noteq> (Inl InconsistentCorrelationState :: 'je AppServerProxyError + _)" for v
    by (cases v) (auto simp: parse_request_id.simps split: option.splits)
  have "classify_object object \<noteq> (Inl InconsistentCorrelationState :: 'je AppServerProxyError + _)" for object
    using id by (auto simp: classify_object_def Let_def rbind_Inl_iff ok_or_def
        split: option.splits JsonValue.splits if_splits)
  moreover have "parse_bounded_json tokens custom line (pl_json l) \<noteq> Inl InconsistentCorrelationState"
    by (auto simp: parse_bounded_json_def split: prod.splits sum.splits option.splits JsonViolation.splits)
  ultimately show ?thesis
    by (auto simp: parse_and_classify_def rbind_Inl_iff split: JsonValue.splits)
qed

lemma spec_errors:
  fixes tokens :: "bytes \<Rightarrow> 'je RawJson \<times> 'je option"
  shows "fst (spec_step tokens custom add_instant l a x) \<noteq> Inl InconsistentCorrelationState"
proof -
  have "spec_correlate l a obs \<noteq> (Inl InconsistentCorrelationState :: 'je AppServerProxyError + _)" for obs
    by (auto simp: spec_correlate_def spec_request_def spec_response_def
        split: AppServerProxyMessageKind.splits option.splits ActiveRequestState.splits)
  then have admit: "fst (spec_admit l a f) \<noteq> (Inl InconsistentCorrelationState :: 'je AppServerProxyError + _)" for f
    by (auto simp: spec_admit_def commit_def Let_def split: sum.splits)
  show ?thesis
    using admit parse_errors [of tokens custom _ l]
    by (cases x) (auto simp: spec_release_def spec_expire_def commit_def split: sum.splits list.splits option.splits)
qed

text \<open>
  C32: a refused call changes nothing. In any reachable state, a call that answers with an
  error leaves the proxy exactly as it was, although admission, release and expiry change
  the request maps before their last checks; and the error that reports a contradiction
  between queues and request maps is never given.
\<close>

theorem proxy_refusals:
  assumes "proxy_limits_valid l" and "inj_on sha256 (request_id_preimage ` U)"
    and "list_all (proxy_call_ok U tokens custom l) (calls @ [x])"
    and "s = run_ops (proxy_step tokens custom sha256 add_instant) (proxy_new l) calls"
    and "fst (proxy_step tokens custom sha256 add_instant s x) = Inl e"
  shows "snd (proxy_step tokens custom sha256 add_instant s x) = s \<and> e \<noteq> InconsistentCorrelationState"
proof -
  let ?a = "run_ops (spec_step tokens custom add_instant l) spec_new calls"
  have ok: "list_all (proxy_call_ok U tokens custom l) calls" "proxy_call_ok U tokens custom l x"
    using assms(3) by simp_all
  have "session_rel sha256 U l s ?a"
    unfolding assms(4) by (rule session.run_rel [OF session_new [OF assms(1) digest_separates [OF assms(2)]] ok(1)])
  note sim = step_sim [OF this ok(2), of add_instant]
  then have "fst (spec_step tokens custom add_instant l ?a x) = Inl e"
    using assms(5) by simp
  with sim assms(5) spec_errors [of tokens custom add_instant l ?a x] show ?thesis
    by metis
qed

theorem proxy_refusals_witness:
  "\<exists>e. fst (proxy_step example_tokens (\<lambda>_. ()) id (\<lambda>t d. Some (t + d)) (proxy_new proxy_limits_initial)
      (Ingest ClientToServer [])) = Inl e \<and>
    snd (proxy_step example_tokens (\<lambda>_. ()) id (\<lambda>t d. Some (t + d)) (proxy_new proxy_limits_initial)
      (Ingest ClientToServer [])) = proxy_new proxy_limits_initial \<and> e \<noteq> InconsistentCorrelationState"
proof -
  have "fst (proxy_step example_tokens (\<lambda>_. ()) id (\<lambda>t d. Some (t + d)) (proxy_new proxy_limits_initial)
      (Ingest ClientToServer [])) = Inl EmptyLine"
    by (simp add: proxy_ingest_def proxy_prepare_def proxy_new_def parse_and_classify_def)
  moreover have "list_all (proxy_call_ok {} example_tokens (\<lambda>_. ()) proxy_limits_initial) ([] @ [Ingest ClientToServer []])"
    by (simp add: parse_and_classify_def)
  ultimately show ?thesis
    using proxy_refusals [of proxy_limits_initial id "{}" example_tokens "\<lambda>_. ()" "[]" "Ingest ClientToServer []"
        "proxy_new proxy_limits_initial" "\<lambda>t d. Some (t + d)" EmptyLine] limits_initial_valid
    by simp
qed

end
