(* ===== verification/App_Server_Order.thy ===== *)
theory App_Server_Order
  imports App_Server_Session "HOL-Library.Sublist"
begin

section \<open>Order, bounds, identities and progress of proxy sessions\<close>

text \<open>
  The effect of one call on one queue holds in every state, reachable or not, so the order
  of the frames needs no assumption on digests or limits. Bounds, identities and progress
  use the refinement.
\<close>

subsection \<open>The effect of a call on a queue\<close>

fun call_bytes :: "ProxyCall \<Rightarrow> bytes" where
  "call_bytes (Ingest d line) = line"
| "call_bytes (Admit c) = cd_json_bytes c"
| "call_bytes _ = []"

definition queue_effect ::
    "direction \<Rightarrow> ProxyCall \<Rightarrow> ('je AppServerProxyError + ProxyAnswer) \<Rightarrow> ProxyQueue \<Rightarrow> ProxyQueue \<Rightarrow> bool" where
  "queue_effect d x r q q' \<longleftrightarrow>
     (case r of
        Inl e \<Rightarrow> q' = q
      | Inr (Observed obs) \<Rightarrow> if mo_direction obs = d
          then ensure_capacity q (length (call_bytes x)) = (Inr () :: 'je AppServerProxyError + unit) \<and>
            q' = push_after_capacity_check q \<lparr>fr_observation = obs, fr_json_bytes = call_bytes x\<rparr>
          else q' = q
      | Inr (Released ro) \<Rightarrow> (case (x, ro) of
          (Release e now, Some f) \<Rightarrow> if e = d
            then pq_frames q = f # pq_frames q' \<and> q' = q\<lparr>pq_frames := pq_frames q', pq_bytes := pq_bytes q'\<rparr> \<and>
              pq_bytes q' \<le> pq_bytes q
            else q' = q
        | _ \<Rightarrow> q' = q)
      | Inr (Expired es) \<Rightarrow> q' = q
      | Inr (CloseReport report) \<Rightarrow> q' = q\<lparr>pq_frames := [], pq_bytes := 0\<rparr>)"

lemma retire_request_queue:
  "retire_request sha256 o' i s = (r, s') \<Longrightarrow> px_queue d s' = px_queue d s \<and> px_state s' = px_state s"
  by (auto simp: retire_request_def Let_def split: if_splits)

lemma apply_correlation_queue:
  "apply_correlation sha256 obs action s = (r, s') \<Longrightarrow> px_queue d s' = px_queue d s \<and> px_state s' = px_state s"
  by (auto simp: apply_correlation_def Let_def dest: retire_request_queue split: option.splits if_splits)

lemma expire_apply_queue:
  "expire_apply sha256 rs s = (r, s') \<Longrightarrow> px_queue d s' = px_queue d s \<and> px_state s' = px_state s"
proof (induction rs arbitrary: s)
  case (Cons q rs)
  then obtain x s1 where "retire_request sha256 (ex_origin q) (ex_request_id q) s = (x, s1)"
    "(case x of Inl e \<Rightarrow> (Inl e, s1) | Inr _ \<Rightarrow> expire_apply sha256 rs s1) = (r, s')"
    by (auto split: prod.splits)
  with Cons.IH [of s1] retire_request_queue [of sha256 "ex_origin q" "ex_request_id q" s x s1 d] show ?case
    by (cases x) auto
qed simp

lemma start_deadline_queue:
  "start_deadline e r s = Inr s' \<Longrightarrow> px_queue d s' = px_queue d s \<and> px_state s' = px_state s"
  by (auto simp: start_deadline_def split: option.splits ActiveRequestState.splits)

lemma admit_queue:
  fixes r :: "'je AppServerProxyError + AppServerMessageObservation"
  assumes "admit_candidate sha256 s c = (r, s')"
  shows "px_state s' = px_state s \<and>
    (case r of
       Inl e \<Rightarrow> px_queue d s' = px_queue d s
     | Inr obs \<Rightarrow> px_state s = ProxyOpen \<and> obs = cd_observation c \<and> (if mo_direction obs = d
         then ensure_capacity (px_queue d s) (length (cd_json_bytes c)) = (Inr () :: 'je AppServerProxyError + unit) \<and>
           px_queue d s' = push_after_capacity_check (px_queue d s) (frame_of c)
         else px_queue d s' = px_queue d s))"
proof (cases "admit_checks sha256 s c :: 'je AppServerProxyError + _")
  case (Inl e)
  with assms show ?thesis by (auto simp: admit_candidate_def Let_def)
next
  case (Inr ac)
  obtain action cs where ac: "ac = (action, cs)" by fastforce
  let ?obs = "cd_observation c"
  have checks: "px_state s = ProxyOpen"
    "ensure_capacity (px_queue (mo_direction ?obs) s) (length (cd_json_bytes c)) = (Inr () :: 'je AppServerProxyError + unit)"
    using Inr by (cases "px_state s"; auto simp: admit_checks_def rbind_Inr_iff)+
  obtain u s1 where u: "apply_correlation sha256 ?obs action s = (u :: 'je AppServerProxyError + unit, s1)"
    by fastforce
  with assms Inr ac checks apply_correlation_queue [OF u] show ?thesis
    by (cases u) (auto simp: admit_candidate_def Let_def frame_of_def)
qed

lemma release_queue:
  fixes r :: "'je AppServerProxyError + AppServerProxyFrame option"
  assumes "proxy_release add_instant s e now = (r, s')"
  shows "px_state s' = px_state s \<and>
    (case r of
       Inr (Some f) \<Rightarrow> if e = d then pq_frames (px_queue d s) = f # pq_frames (px_queue d s') \<and>
           px_queue d s' = (px_queue d s)\<lparr>pq_frames := pq_frames (px_queue d s'), pq_bytes := pq_bytes (px_queue d s')\<rparr> \<and>
           pq_bytes (px_queue d s') \<le> pq_bytes (px_queue d s)
         else px_queue d s' = px_queue d s
     | _ \<Rightarrow> px_queue d s' = px_queue d s)"
proof (cases "queue_front (px_queue e s)")
  case None
  with assms show ?thesis
    by (auto simp: proxy_release_def split: sum.splits)
next
  case (Some front)
  then obtain fs where fs: "pq_frames (px_queue e s) = front # fs"
    by (auto simp: queue_front_def split: list.splits)
  let ?g = "rbind (release_deadline add_instant s front now) (\<lambda>r.
          rbind (release_counter e (px_counters s)) (\<lambda>c.
          rbind (start_deadline e r s) (\<lambda>s1. Inr (c, s1)))) :: 'je AppServerProxyError + _"
  show ?thesis
  proof (cases ?g)
    case (Inl x)
    with assms Some show ?thesis
      by (auto simp: proxy_release_def split: sum.splits)
  next
    case (Inr cs)
    then obtain c s1 rd where cs: "cs = (c, s1)" "start_deadline e rd s = (Inr s1 :: 'je AppServerProxyError + _)"
      by (auto simp: rbind_Inr_iff)
    have q: "px_queue k s1 = px_queue k s" "px_state s1 = px_state s" for k
      using start_deadline_queue [OF cs(2), of k] by simp_all
    from assms Some Inr cs(1) fs show ?thesis
      by (auto simp: proxy_release_def queue_pop_def q split: sum.splits if_splits)
  qed
qed

lemma expire_queue:
  assumes "proxy_expire sha256 s now = (r :: 'je AppServerProxyError + _, s')"
  shows "px_state s' = px_state s \<and> px_queue d s' = px_queue d s"
  using assms by (auto simp: proxy_expire_def Let_def dest: expire_apply_queue split: sum.splits prod.splits)

lemma step_effect:
  fixes tokens :: "bytes \<Rightarrow> 'je RawJson \<times> 'je option"
  assumes "proxy_step tokens custom sha256 add_instant s x = (r, s')"
  shows "queue_effect d x r (px_queue d s) (px_queue d s')"
    and "px_state s' = (if x = Close then ProxyClosed else px_state s)"
    and "r = Inr (Observed obs) \<Longrightarrow> px_state s = ProxyOpen"
proof -
  have "queue_effect d x r (px_queue d s) (px_queue d s') \<and> px_state s' = (if x = Close then ProxyClosed else px_state s) \<and>
    (\<forall>obs. r = Inr (Observed obs) \<longrightarrow> px_state s = ProxyOpen)"
  proof (cases x)
    case (Ingest e line)
    obtain ra sa where a: "proxy_ingest tokens custom sha256 s e line = (ra, sa)" by fastforce
    have "px_state sa = px_state s \<and> (case ra of Inl e \<Rightarrow> px_queue d sa = px_queue d s
      | Inr obs \<Rightarrow> px_state s = ProxyOpen \<and> (if mo_direction obs = d
         then ensure_capacity (px_queue d s) (length line) = (Inr () :: 'je AppServerProxyError + unit) \<and>
           px_queue d sa = push_after_capacity_check (px_queue d s) \<lparr>fr_observation = obs, fr_json_bytes = line\<rparr>
         else px_queue d sa = px_queue d s))"
    proof (cases "proxy_prepare tokens custom s e line")
      case (Inl err)
      with a show ?thesis by (auto simp: proxy_ingest_def)
    next
      case (Inr c)
      then have "cd_json_bytes c = line" by (auto simp: proxy_prepare_Inr)
      with a Inr admit_queue [of sha256 s c ra sa d] show ?thesis
        by (auto simp: proxy_ingest_def frame_of_def split: sum.splits)
    qed
    with a assms Ingest show ?thesis
      by (cases ra) (auto simp: queue_effect_def answer_def)
  next
    case (Admit c)
    obtain ra sa where a: "proxy_admit sha256 s c = (ra :: 'je AppServerProxyError + _, sa)" by fastforce
    then have "px_state sa = px_state s \<and> (case ra of Inl e \<Rightarrow> px_queue d sa = px_queue d s
      | Inr obs \<Rightarrow> px_state s = ProxyOpen \<and> (if mo_direction obs = d
         then ensure_capacity (px_queue d s) (length (cd_json_bytes c)) = (Inr () :: 'je AppServerProxyError + unit) \<and>
           px_queue d sa = push_after_capacity_check (px_queue d s) \<lparr>fr_observation = obs, fr_json_bytes = cd_json_bytes c\<rparr>
         else px_queue d sa = px_queue d s))"
      using admit_queue [of sha256 s c ra sa d]
      by (auto simp: proxy_admit_def frame_of_def split: sum.splits if_splits)
    with a assms Admit show ?thesis
      by (cases ra) (auto simp: queue_effect_def answer_def)
  next
    case (Release e now)
    obtain ra sa where a: "proxy_release add_instant s e now = (ra :: 'je AppServerProxyError + _, sa)" by fastforce
    from release_queue [OF a, of d] a assms Release show ?thesis
      by (cases ra) (auto simp: queue_effect_def answer_def split: option.splits)
  next
    case (Expire now)
    obtain ra sa where a: "proxy_expire sha256 s now = (ra :: 'je AppServerProxyError + _, sa)" by fastforce
    from expire_queue [OF a, of d] a assms Expire show ?thesis
      by (cases ra) (auto simp: queue_effect_def answer_def)
  next
    case Close
    with assms show ?thesis
      by (cases d) (auto simp: queue_effect_def proxy_close_def queue_clear_def)
  qed
  then show "queue_effect d x r (px_queue d s) (px_queue d s')"
    and "px_state s' = (if x = Close then ProxyClosed else px_state s)"
    and "r = Inr (Observed obs) \<Longrightarrow> px_state s = ProxyOpen"
    by blast+
qed

subsection \<open>Order\<close>

text \<open>The lines a session accepts and delivers in one direction.\<close>

type_synonym 'je exchange = "ProxyCall \<times> ('je AppServerProxyError + ProxyAnswer)"

fun admitted_one :: "direction \<Rightarrow> 'je exchange \<Rightarrow> bytes list" where
  "admitted_one d (x, Inr (Observed obs)) = (if mo_direction obs = d then [call_bytes x] else [])"
| "admitted_one d _ = []"

fun delivered_one :: "direction \<Rightarrow> 'je exchange \<Rightarrow> bytes list" where
  "delivered_one d (Release e now, Inr (Released (Some f))) = (if e = d then [fr_json_bytes f] else [])"
| "delivered_one d _ = []"

definition session_state ::
    "(bytes \<Rightarrow> 'je RawJson \<times> 'je option) \<Rightarrow> (string \<Rightarrow> 'je) \<Rightarrow> (bytes \<Rightarrow> bytes) \<Rightarrow>
     (instant \<Rightarrow> duration \<Rightarrow> instant option) \<Rightarrow> AppServerProxyLimits \<Rightarrow> ProxyCall list \<Rightarrow> TransparentAppServerProxy" where
  "session_state tokens custom sha256 add_instant l calls =
     run_ops (proxy_step tokens custom sha256 add_instant) (proxy_new l) calls"

definition session_trace ::
    "(bytes \<Rightarrow> 'je RawJson \<times> 'je option) \<Rightarrow> (string \<Rightarrow> 'je) \<Rightarrow> (bytes \<Rightarrow> bytes) \<Rightarrow>
     (instant \<Rightarrow> duration \<Rightarrow> instant option) \<Rightarrow> AppServerProxyLimits \<Rightarrow> ProxyCall list \<Rightarrow> 'je exchange list" where
  "session_trace tokens custom sha256 add_instant l calls =
     zip calls (run_answers (proxy_step tokens custom sha256 add_instant) (proxy_new l) calls)"

definition admitted :: "direction \<Rightarrow> 'je exchange list \<Rightarrow> bytes list" where
  "admitted d tr = concat (map (admitted_one d) tr)"

definition delivered :: "direction \<Rightarrow> 'je exchange list \<Rightarrow> bytes list" where
  "delivered d tr = concat (map (delivered_one d) tr)"

definition fifo_state :: "direction \<Rightarrow> TransparentAppServerProxy \<Rightarrow> bytes list \<Rightarrow> bytes list \<Rightarrow> bool" where
  "fifo_state d s ins outs \<longleftrightarrow>
     (if px_state s = ProxyOpen then ins = outs @ map fr_json_bytes (pq_frames (px_queue d s))
      else prefix outs ins \<and> pq_frames (px_queue d s) = [])"

lemma fifo_step:
  fixes tokens :: "bytes \<Rightarrow> 'je RawJson \<times> 'je option"
  assumes "fifo_state d s ins outs" and step: "proxy_step tokens custom sha256 add_instant s x = (r, s')"
  shows "fifo_state d s' (ins @ admitted_one d (x, r)) (outs @ delivered_one d (x, r))"
proof -
  note effect = step_effect [OF step]
  show ?thesis
  proof (cases r)
    case (Inl e)
    then have "x \<noteq> Close" using step by auto
    with Inl effect(1) [of d] effect(2) assms(1) show ?thesis
      by (simp add: queue_effect_def fifo_state_def)
  next
    case (Inr ans)
    show ?thesis
    proof (cases ans)
      case (Observed obs)
      then have "px_state s = ProxyOpen" "x \<noteq> Close"
        using effect(3) [of obs] Inr step by auto
      with Inr Observed effect(1) [of d] effect(2) assms(1) show ?thesis
        by (auto simp: queue_effect_def fifo_state_def push_after_capacity_check_def Let_def split: if_splits)
    next
      case (Released ro)
      then obtain e now where x: "x = Release e now"
        using step Inr by (cases x) (auto simp: answer_def rbind_Inr_iff)
      show ?thesis
        using Inr Released effect(1) [of d] effect(2) assms(1) x
        by (cases ro) (auto simp: queue_effect_def fifo_state_def split: if_splits)
    next
      case (Expired es)
      then have "x \<noteq> Close" using step Inr by auto
      with Inr Expired effect(1) [of d] effect(2) assms(1) show ?thesis
        by (simp add: queue_effect_def fifo_state_def)
    next
      case (CloseReport cr)
      then have "x = Close"
        using step Inr by (cases x) (auto simp: answer_def rbind_Inr_iff)
      with Inr CloseReport effect(1) [of d] effect(2) assms(1) show ?thesis
        by (auto simp: queue_effect_def fifo_state_def split: if_splits)
    qed
  qed
qed

lemma fifo_run:
  "fifo_state d s ins outs \<Longrightarrow>
     fifo_state d (run_ops (proxy_step tokens custom sha256 add_instant) s calls)
       (ins @ admitted d (zip calls (run_answers (proxy_step tokens custom sha256 add_instant) s calls)))
       (outs @ delivered d (zip calls (run_answers (proxy_step tokens custom sha256 add_instant) s calls)))"
proof (induction calls arbitrary: s ins outs)
  case (Cons x calls)
  obtain r s' where step: "proxy_step tokens custom sha256 add_instant s x = (r, s')" by fastforce
  from Cons.IH [OF fifo_step [OF Cons.prems step]] step show ?case
    by (simp add: admitted_def delivered_def)
qed (simp add: admitted_def delivered_def)

text \<open>
  C29: exact bytes, in order. In any session, with any limits, digest and clock, what has been
  delivered in a direction followed by what waits in its queue is, byte for byte, what was
  accepted in that direction, in the order of acceptance: nothing is lost, altered,
  duplicated or overtaken. After closing, what was delivered is a prefix of what was accepted.
\<close>

theorem proxy_fifo:
  "if px_state (session_state tokens custom sha256 add_instant l calls) = ProxyOpen
   then admitted d (session_trace tokens custom sha256 add_instant l calls) =
     delivered d (session_trace tokens custom sha256 add_instant l calls) @
     map fr_json_bytes (pq_frames (px_queue d (session_state tokens custom sha256 add_instant l calls)))
   else prefix (delivered d (session_trace tokens custom sha256 add_instant l calls))
     (admitted d (session_trace tokens custom sha256 add_instant l calls))"
proof -
  have "fifo_state d (proxy_new l) [] []"
    by (cases d) (simp_all add: fifo_state_def proxy_new_def queue_new_def)
  from fifo_run [OF this, of tokens custom sha256 add_instant calls] show ?thesis
    by (simp add: fifo_state_def session_state_def session_trace_def split: if_splits)
qed

subsection \<open>Bounds\<close>

definition peaks_ok :: "AppServerQueueLimits \<Rightarrow> ProxyQueue \<Rightarrow> bool" where
  "peaks_ok ql q \<longleftrightarrow> pq_limits q = ql \<and> pq_peak_messages q \<le> ql_messages ql \<and> pq_peak_bytes q \<le> ql_bytes ql"

lemma effect_peaks:
  assumes "queue_effect d x (r :: 'je AppServerProxyError + ProxyAnswer) q q'" and "peaks_ok ql q"
  shows "peaks_ok ql q'"
proof -
  have same: "peaks_ok ql (q\<lparr>pq_frames := fs, pq_bytes := n\<rparr>)" for fs n
    using assms(2) by (simp add: peaks_ok_def)
  have push: "peaks_ok ql (push_after_capacity_check q \<lparr>fr_observation = obs, fr_json_bytes = bs\<rparr>)"
    if "ensure_capacity q (length bs) = (Inr () :: 'je AppServerProxyError + unit)" for obs bs
    using that assms(2)
    by (auto simp: peaks_ok_def push_after_capacity_check_def ensure_capacity_def Let_def rbind_Inr_iff split: if_splits)
  from assms same push show ?thesis
    unfolding queue_effect_def
    by (auto split: sum.splits ProxyAnswer.splits option.splits ProxyCall.splits if_splits) metis+
qed

lemma peaks_run:
  "peaks_ok ql (px_queue d s) \<Longrightarrow> peaks_ok ql (px_queue d (run_ops (proxy_step tokens custom sha256 add_instant) s calls))"
proof (induction calls arbitrary: s)
  case (Cons x calls)
  obtain r s' where step: "proxy_step tokens custom sha256 add_instant s x = (r, s')" by fastforce
  from Cons.IH [OF effect_peaks [OF step_effect(1) [OF step] Cons.prems]] step show ?case by simp
qed simp

text \<open>
  The session stays within its limits. At every point of a session the queued messages
  and bytes and their recorded peaks are within the limits of the direction, and the active
  requests, and these together with the retired identities, within theirs.
\<close>

theorem proxy_bounded:
  assumes "proxy_limits_valid l" and "inj_on sha256 (request_id_preimage ` U)"
    and "list_all (proxy_call_ok U tokens custom l) calls"
    and "s = session_state tokens custom sha256 add_instant l calls"
  shows "length (pq_frames (px_queue d s)) \<le> ql_messages (direction_limits l d) \<and>
    pq_bytes (px_queue d s) \<le> ql_bytes (direction_limits l d) \<and>
    pq_bytes (px_queue d s) = frames_bytes (pq_frames (px_queue d s)) \<and>
    pq_peak_messages (px_queue d s) \<le> ql_messages (direction_limits l d) \<and>
    pq_peak_bytes (px_queue d s) \<le> ql_bytes (direction_limits l d) \<and>
    length (px_client_requests s) + length (px_server_requests s) \<le> pl_active_requests l \<and>
    length (px_client_requests s) + length (px_server_requests s) +
      length (px_client_request_history s) + length (px_server_request_history s) \<le> pl_request_history l"
proof -
  let ?a = "run_ops (spec_step tokens custom add_instant l) spec_new calls"
  have rel: "session_rel sha256 U l s ?a"
    unfolding assms(4) session_state_def
    by (rule session.run_rel [OF session_new [OF assms(1) digest_separates [OF assms(2)]] assms(3)])
  then have h: "proxy_rel sha256 l s ?a" "spec_inv U l ?a" "inj_on (request_id_digest sha256) U"
    by (simp_all add: session_rel_def)
  have "direction_rel sha256 l s ?a d" "direction_inv U l ?a d"
    using h by (simp_all add: proxy_rel_def spec_inv_def)
  moreover have "peaks_ok (direction_limits l d) (px_queue d s)"
    unfolding assms(4) session_state_def
    by (rule peaks_run) (cases d; simp add: peaks_ok_def proxy_new_def queue_new_def)
  moreover have "active_count ?a \<le> pl_active_requests l" "active_count ?a + retired_count ?a \<le> pl_request_history l"
    using h(2) by (simp_all add: spec_inv_def)
  ultimately show ?thesis
    using rel_counts [OF h] by (auto simp: direction_rel_def direction_inv_def peaks_ok_def)
qed

theorem proxy_bounded_witness:
  "length (pq_frames (px_queue ClientToServer
     (session_state example_tokens (\<lambda>_. ()) id (\<lambda>t d. Some (t + d)) proxy_limits_initial example_calls))) \<le> 256"
  using proxy_bounded [OF limits_initial_valid _ example_calls_ok refl, of id ClientToServer "\<lambda>t d. Some (t + d)"]
  by (simp add: proxy_limits_initial_def)

end
