(* ===== verification/App_Server_Progress.thy ===== *)
theory App_Server_Progress
  imports App_Server_Order
begin

section \<open>Request identities and progress of proxy sessions\<close>

text \<open>
  An identity is used once per origin and is then active or retired, never both and never
  again free; and a queue that is polled with a clock that does not go back is delivered
  completely.
\<close>

subsection \<open>Identities\<close>

fun requested_one :: "direction \<Rightarrow> 'je exchange \<Rightarrow> AppServerRequestId list" where
  "requested_one d (x, Inr (Observed obs)) =
     (if mo_direction obs = d \<and> mo_kind obs = Request then [the (mo_request_id obs)] else [])"
| "requested_one d _ = []"

definition requested :: "direction \<Rightarrow> 'je exchange list \<Rightarrow> AppServerRequestId list" where
  "requested d tr = concat (map (requested_one d) tr)"

definition ids_state :: "direction \<Rightarrow> ProxySpec \<Rightarrow> AppServerRequestId list \<Rightarrow> bool" where
  "ids_state d a ids \<longleftrightarrow> distinct ids \<and> (sp_open a \<longrightarrow> set ids = dom (sp_active a d) \<union> sp_retired a d)"

lemma ids_admit:
  assumes "ids_state d a ids" and "frame_ok f"
    and r: "(spec_admit l a f :: ('je AppServerProxyError + _) \<times> _) = (r, a')"
  shows "ids_state d a' (ids @ requested_one d (x, rbind r (\<lambda>obs. Inr (Observed obs))))"
proof (cases r)
  case (Inl e)
  then have "a' = a" using r by (auto simp: spec_admit_def commit_def Let_def split: if_splits sum.splits)
  with assms(1) Inl show ?thesis by simp
next
  case (Inr obs)
  then obtain a1 where a1: "spec_correlate l a (fr_observation f) = (Inr a1 :: 'je AppServerProxyError + _)"
    and a': "a' = spec_push a1 f" and obs: "obs = fr_observation f" and op: "sp_open a"
    using r by (auto simp: spec_admit_def commit_def Let_def split: if_splits sum.splits)
  have ok: "mo_kind obs = Request \<Longrightarrow> mo_request_id obs \<noteq> None"
    using assms(2) by (simp add: frame_ok_def obs)
  have push: "sp_active a' = sp_active a1" "sp_retired a' = sp_retired a1" "sp_open a' = sp_open a"
    using spec_correlate_frame(2) [OF a1] by (simp_all add: a' spec_push_def Let_def)
  have ids: "distinct ids" "set ids = dom (sp_active a d) \<union> sp_retired a d"
    using assms(1) op by (simp_all add: ids_state_def)
  show ?thesis
  proof (rule spec_correlate_cases [OF a1 [folded obs] ok])
    fix i
    assume q: "mo_kind obs = Request" "mo_request_id obs = Some i" "sp_active a (mo_direction obs) i = None"
      "i \<notin> sp_retired a (mo_direction obs)"
      "a1 = a\<lparr>sp_active := (sp_active a)(mo_direction obs := (sp_active a (mo_direction obs))(i \<mapsto> Queued))\<rparr>"
    have "sp_active a1 d = (if mo_direction obs = d then (sp_active a d)(i \<mapsto> Queued) else sp_active a d)"
      "sp_retired a1 d = sp_retired a d"
      by (auto simp: q(5))
    with ids q(1-4) op show ?thesis
      by (auto simp: Inr ids_state_def push)
  next
    fix i t
    let ?o = "opposite (mo_direction obs)"
    assume q: "mo_kind obs \<noteq> Request" "sp_active a ?o i = Some (Pending t)"
      "a1 = a\<lparr>sp_active := (sp_active a)(?o := (sp_active a ?o)(i := None)),
         sp_retired := (sp_retired a)(?o := insert i (sp_retired a ?o))\<rparr>"
    have "dom (sp_active a1 d) \<union> sp_retired a1 d = dom (sp_active a d) \<union> sp_retired a d"
      using q(2) by (auto simp: q(3))
    with ids q(1) op show ?thesis
      by (simp add: Inr ids_state_def push)
  next
    assume "mo_kind obs \<noteq> Request" "sp_active a1 = sp_active a" "sp_retired a1 = sp_retired a"
    with ids op show ?thesis
      by (simp add: Inr ids_state_def push)
  qed
qed

lemma requested_error: "requested_one d (x, Inl e) = []"
  by simp

lemma ids_step:
  fixes tokens :: "bytes \<Rightarrow> 'je RawJson \<times> 'je option"
  assumes "ids_state d a ids" and "spec_inv U l a" and "proxy_call_ok U tokens custom l x"
    and step: "spec_step tokens custom add_instant l a x = (r, a')"
  shows "ids_state d a' (ids @ requested_one d (x, r))"
proof (cases x)
  case (Ingest e line)
  show ?thesis
  proof (cases "\<exists>m. sp_open a \<and> parse_and_classify tokens custom line l = Inr m")
    case True
    then obtain m where m: "sp_open a" "parse_and_classify tokens custom line l = Inr m" by blast
    then have "frame_ok (ingest_frame e m line)"
      using classified_request [OF m(2)] by (simp add: frame_ok_def ingest_frame_def)
    moreover obtain ra aa where "spec_admit l a (ingest_frame e m line) = (ra :: 'je AppServerProxyError + _, aa)" by fastforce
    ultimately show ?thesis
      using ids_admit [OF assms(1), of "ingest_frame e m line" l ra aa x] step m Ingest by (auto simp: answer_def)
  next
    case False
    then have "\<exists>err. spec_step tokens custom add_instant l a x = (Inl err, a)"
      by (cases "parse_and_classify tokens custom line l") (auto simp: Ingest)
    with step assms(1) show ?thesis by (auto simp: requested_error)
  qed
next
  case (Admit c)
  then have "frame_ok (frame_of c)"
    using assms(3) prepared_frame_ok by auto
  moreover obtain ra aa where "spec_admit l a (frame_of c) = (ra :: 'je AppServerProxyError + _, aa)" by fastforce
  ultimately show ?thesis
    using ids_admit [OF assms(1), of "frame_of c" l ra aa x] step assms(1) Admit
    by (auto simp: answer_def requested_error split: if_splits)
next
  case (Release e now)
  have dom: "\<exists>y. sp_active a e (the (mo_request_id (fr_observation f))) = Some y"
    if "sp_queue a e = f # fs" "mo_kind (fr_observation f) = Request" for f fs
    by (rule front_queued [OF assms(2) that]) auto
  have "sp_open a' = sp_open a \<and> dom (sp_active a' d) = dom (sp_active a d) \<and> sp_retired a' d = sp_retired a d"
    using step Release dom
    by (auto simp: answer_def spec_release_def spec_pop_def commit_def split: if_splits list.splits option.splits)
  moreover have "requested_one d (x, r) = []"
    using step Release by (cases r) (auto simp: answer_def rbind_Inr_iff)
  ultimately show ?thesis
    using assms(1) by (simp add: ids_state_def)
next
  case (Expire now)
  have "sp_open a' = sp_open a \<and> dom (sp_active a' d) \<union> sp_retired a' d = dom (sp_active a d) \<union> sp_retired a d"
  proof -
    have "a' = a \<or> a' = expired_spec a now"
      using step Expire by (auto simp: answer_def spec_expire_def commit_def expired_spec_def split: if_splits)
    moreover have "dom (sp_active (expired_spec a now) d) \<union> sp_retired (expired_spec a now) d =
        dom (sp_active a d) \<union> sp_retired a d"
      using overdue_active [of _ a now d] by (auto simp: expired_spec_def restrict_map_def domIff split: if_splits)
    ultimately show ?thesis by (auto simp: expired_spec_def)
  qed
  moreover have "requested_one d (x, r) = []"
    using step Expire by (cases r) (auto simp: answer_def rbind_Inr_iff)
  ultimately show ?thesis
    using assms(1) by (simp add: ids_state_def)
next
  case Close
  with step assms(1) show ?thesis
    by (auto simp: spec_close_def ids_state_def)
qed

lemma ids_run:
  fixes tokens :: "bytes \<Rightarrow> 'je RawJson \<times> 'je option"
  assumes "session_rel sha256 U l s a" and "list_all (proxy_call_ok U tokens custom l) calls" and "ids_state d a ids"
  shows "ids_state d (run_ops (spec_step tokens custom add_instant l) a calls)
    (ids @ requested d (zip calls (run_answers (proxy_step tokens custom sha256 add_instant) s calls)))"
  using assms
proof (induction calls arbitrary: s a ids)
  case (Cons x calls)
  obtain r a' where step: "spec_step tokens custom add_instant l a x = (r, a')" by fastforce
  have ok: "proxy_call_ok U tokens custom l x" "list_all (proxy_call_ok U tokens custom l) calls"
    using Cons.prems(2) by simp_all
  have inv: "spec_inv U l a" using Cons.prems(1) by (simp add: session_rel_def)
  note sim = step_sim [OF Cons.prems(1) ok(1), of add_instant]
  have next_rel: "session_rel sha256 U l (snd (proxy_step tokens custom sha256 add_instant s x)) a'"
    using sim step by simp
  from Cons.IH [OF next_rel ok(2) ids_step [OF Cons.prems(3) inv ok(1) step]] sim step show ?case
    by (simp add: requested_def)
qed (simp add: requested_def)

text \<open>
  C31: request identities. In any session the identities of the requests accepted from one
  origin are all different, so no response can complete two requests; and while the session
  is open every accepted request is accounted for exactly once, as active (queued or
  forwarded) or as retired (answered or expired).
\<close>

theorem proxy_identities:
  assumes "proxy_limits_valid l" and "inj_on sha256 (request_id_preimage ` U)"
    and "list_all (proxy_call_ok U tokens custom l) calls"
    and "s = session_state tokens custom sha256 add_instant l calls"
    and "ids = requested d (session_trace tokens custom sha256 add_instant l calls)"
  shows "distinct ids \<and> (px_state s = ProxyOpen \<longrightarrow> set (bt_keys (px_requests d s)) \<subseteq> set ids \<and>
    length ids = length (px_requests d s) + length (px_history d s))"
proof -
  let ?a = "run_ops (spec_step tokens custom add_instant l) spec_new calls"
  note new = session_new [OF assms(1) digest_separates [OF assms(2)]]
  have rel: "session_rel sha256 U l s ?a"
    unfolding assms(4) session_state_def by (rule session.run_rel [OF new assms(3)])
  have "ids_state d spec_new []"
    by (simp add: ids_state_def spec_new_def)
  from ids_run [OF new assms(3) this] have ids: "ids_state d ?a ids"
    by (simp add: assms(5) session_trace_def)
  have h: "direction_rel sha256 l s ?a d" "inj_on (request_id_digest sha256) U"
    "px_state s = ProxyOpen \<longleftrightarrow> sp_open ?a" and inv: "spec_inv U l ?a"
    using rel by (simp_all add: session_rel_def proxy_rel_def)
  have fin: "finite (dom (sp_active ?a d))" "finite (sp_retired ?a d)" "sp_retired ?a d \<inter> dom (sp_active ?a d) = {}"
    using inv by (simp_all add: spec_inv_def direction_inv_def)
  have dom: "dom (sp_active ?a d) = fst ` set (px_requests d s)"
  proof -
    have "dom (bt_get (px_requests d s)) = fst ` set (px_requests d s)"
      by (simp add: bt_get_def [abs_def] dom_map_of_conv_image_fst)
    then show ?thesis using h(1) by (simp add: direction_rel_def)
  qed
  have len: "length ids = length (px_requests d s) + length (px_history d s)" if "sp_open ?a"
  proof -
    have "length ids = card (dom (sp_active ?a d) \<union> sp_retired ?a d)"
      using ids that by (metis distinct_card ids_state_def)
    also have "\<dots> = card (dom (sp_active ?a d)) + card (sp_retired ?a d)"
      using fin by (intro card_Un_disjoint) auto
    finally show ?thesis
      using requests_length [OF h(1)] history_length [OF h(1,2) spec_inv_retired(1) [OF inv]] by simp
  qed
  then show ?thesis
    using ids h(3) dom by (auto simp: ids_state_def bt_keys_def)
qed

theorem proxy_identities_witness:
  "distinct (requested ClientToServer
     (session_trace example_tokens (\<lambda>_. ()) id (\<lambda>t d. Some (t + d)) proxy_limits_initial example_calls))"
  using proxy_identities [OF limits_initial_valid _ example_calls_ok refl refl, of id ClientToServer "\<lambda>t d. Some (t + d)"]
  by simp

subsection \<open>Progress\<close>

fun forwarded_counter :: "direction \<Rightarrow> TransparentAppServerProxy \<Rightarrow> u64" where
  "forwarded_counter ClientToServer s = pc_forwarded_to_server_messages (px_counters s)"
| "forwarded_counter ServerToClient s = pc_forwarded_to_client_messages (px_counters s)"

lemma spec_drains:
  fixes tokens :: "bytes \<Rightarrow> 'je RawJson \<times> 'je option"
  assumes "spec_inv U l a" and "sorted ts" and "length ts = Suc (length (sp_queue a d))"
    and "clock_ok a (hd ts)" and "\<forall>t \<in> set ts. add_instant t (pl_request_timeout l) \<noteq> None"
    and "sp_forwarded a d + length (sp_queue a d) < 2 ^ 64"
  shows "run_answers (spec_step tokens custom add_instant l) a (map (Release d) ts) =
    map (\<lambda>f. Inr (Released (Some f))) (sp_queue a d) @ [Inr (Released None)]"
  using assms
proof (induction "sp_queue a d" arbitrary: a ts)
  case Nil
  then obtain t where "ts = [t]" by (cases ts) auto
  with Nil show ?case by (simp add: answer_def spec_release_def)
next
  case (Cons f fs)
  have "length ts = Suc (Suc (length fs))"
    using Cons.prems(3) Cons.hyps(2) [symmetric] by simp
  then obtain t ts' where ts: "ts = t # ts'" "length ts' = Suc (length fs)"
    by (cases ts) auto
  obtain r a' where step: "spec_release add_instant l a d t = (r :: 'je AppServerProxyError + _, a')" by fastforce
  have a': "r = Inr (Some f)" "sp_queue a' d = fs" "sp_time a' = Some t" "sp_forwarded a' d = sp_forwarded a d + 1"
  proof -
    have fit: "counters_fit a" using Cons.prems(1) by (simp add: spec_inv_def)
    have room: "sp_forwarded a d + 1 < 2 ^ 64"
      using Cons.prems(6) Cons.hyps(2) [symmetric] by simp
    have fits: "counters_fit (spec_pop a d t)" "counters_fit ((spec_pop a d t)\<lparr>sp_active := A\<rparr>)" for A
      using fit room by (auto simp: counters_fit_def spec_pop_def)
    have clock: "clock_ok a t" using Cons.prems(4) ts(1) by simp
    obtain t' where "add_instant t (pl_request_timeout l) = Some t'"
      using Cons.prems(5) ts(1) by auto
    then have "r = Inr (Some f) \<and> sp_queue a' d = fs \<and> sp_time a' = Some t \<and> sp_forwarded a' d = sp_forwarded a d + 1"
      using step Cons.hyps(2) [symmetric] clock fits
      by (cases "mo_kind (fr_observation f) = Request") (auto simp: spec_release_def commit_def, auto simp: spec_pop_def)
    then show "r = Inr (Some f)" "sp_queue a' d = fs" "sp_time a' = Some t" "sp_forwarded a' d = sp_forwarded a d + 1"
      by simp_all
  qed
  have "run_answers (spec_step tokens custom add_instant l) a' (map (Release d) ts') =
      map (\<lambda>f. Inr (Released (Some f))) (sp_queue a' d) @ [Inr (Released None)]"
  proof (rule Cons.hyps(1))
    show "spec_inv U l a'"
      using spec_release_inv [where ?'je = 'je, OF Cons.prems(1), of add_instant d t] by (simp add: step)
    show "clock_ok a' (hd ts')"
      using Cons.prems(2) ts by (cases ts') (auto simp: clock_ok_def a')
  qed (use Cons.prems Cons.hyps(2) [symmetric] ts a' in auto)
  with step ts(1) Cons.hyps(2) [symmetric] a'(1,2) show ?case
    by (simp add: answer_def)
qed

text \<open>
  C30: a polled queue is delivered. In any reachable state, polling one direction once more
  than it has frames, with a clock that does not go back and deadlines that can be
  represented, hands out every waiting frame, in order, and then reports the queue empty:
  no frame can block the ones behind it.
\<close>

theorem proxy_drains:
  assumes "proxy_limits_valid l" and "inj_on sha256 (request_id_preimage ` U)"
    and "list_all (proxy_call_ok U tokens custom l) calls"
    and "s = session_state tokens custom sha256 add_instant l calls"
    and "sorted ts" and "length ts = Suc (length (pq_frames (px_queue d s)))"
    and "\<forall>t. px_last_observed_time s = Some t \<longrightarrow> t \<le> hd ts"
    and "\<forall>t \<in> set ts. add_instant t (pl_request_timeout l) \<noteq> None"
    and "unat (forwarded_counter d s) + length (pq_frames (px_queue d s)) < 2 ^ 64"
  shows "run_answers (proxy_step tokens custom sha256 add_instant) s (map (Release d) ts) =
    map (\<lambda>f. Inr (Released (Some f))) (pq_frames (px_queue d s)) @ [Inr (Released None)]"
proof -
  let ?a = "run_ops (spec_step tokens custom add_instant l) spec_new calls"
  have rel: "session_rel sha256 U l s ?a"
    unfolding assms(4) session_state_def
    by (rule session.run_rel [OF session_new [OF assms(1) digest_separates [OF assms(2)]] assms(3)])
  then have h: "direction_rel sha256 l s ?a d" "counters_rel (px_counters s) ?a" and inv: "spec_inv U l ?a"
    and t: "px_last_observed_time s = sp_time ?a"
    by (simp_all add: session_rel_def proxy_rel_def)
  have q: "pq_frames (px_queue d s) = sp_queue ?a d"
    using h(1) by (simp add: direction_rel_def)
  have c: "unat (forwarded_counter d s) = sp_forwarded ?a d"
    using h(2) by (cases d) (simp_all add: counters_rel_def)
  have "list_all (proxy_call_ok U tokens custom l) (map (Release d) ts)"
    by (simp add: list_all_iff)
  then have "run_answers (proxy_step tokens custom sha256 add_instant) s (map (Release d) ts) =
      run_answers (spec_step tokens custom add_instant l) ?a (map (Release d) ts)"
    by (rule session.run_answers_eq [OF rel])
  also have "\<dots> = map (\<lambda>f. Inr (Released (Some f))) (sp_queue ?a d) @ [Inr (Released None)]"
    using assms(5-9) unfolding q t c
    by (intro spec_drains [OF inv]) (auto simp: clock_ok_def split: option.splits)
  finally show ?thesis unfolding q .
qed

definition example_state :: TransparentAppServerProxy where
  "example_state = session_state example_tokens (\<lambda>_. ()) id (\<lambda>t d. Some (t + d)) proxy_limits_initial
     [Ingest ClientToServer [1]]"

definition example_frame :: AppServerProxyFrame where
  "example_frame = \<lparr>fr_observation = \<lparr>mo_direction = ClientToServer, mo_kind = Request, mo_method = Some ''m'',
     mo_request_id = Some (Unsigned 1), mo_byte_length = 1\<rparr>, fr_json_bytes = [1]\<rparr>"

lemma example_state_eq:
  "pq_frames (px_queue ClientToServer example_state) = [example_frame]" "px_last_observed_time example_state = None"
  "unat (forwarded_counter ClientToServer example_state) = 0"
proof -
  have step: "\<exists>s1. proxy_ingest example_tokens (\<lambda>_. ()) id (proxy_new proxy_limits_initial) ClientToServer [1] =
      (Inr (fr_observation example_frame), s1) \<and> pq_frames (px_queue ClientToServer s1) = [example_frame] \<and>
      px_last_observed_time s1 = None \<and> unat (forwarded_counter ClientToServer s1) = 0"
    by (simp add: proxy_ingest_def proxy_prepare_def example_parse proxy_new_def admit_candidate_def admit_checks_def
        queue_new_def ensure_capacity_def checked_add_usize_def preflight_correlation_def preflight_request_def
        bt_get_def apply_correlation_def admit_counters_def u64_try_from_def increment_cases add_counter_cases
        push_after_capacity_check_def example_frame_def, simp add: proxy_limits_initial_def Let_def)
  then show "pq_frames (px_queue ClientToServer example_state) = [example_frame]" "px_last_observed_time example_state = None"
    "unat (forwarded_counter ClientToServer example_state) = 0"
    by (auto simp: example_state_def session_state_def answer_def)
qed

theorem proxy_drains_witness:
  "run_answers (proxy_step example_tokens (\<lambda>_. ()) id (\<lambda>t d. Some (t + d))) example_state
     [Release ClientToServer 7, Release ClientToServer 9] = [Inr (Released (Some example_frame)), Inr (Released None)]"
proof -
  have "list_all (proxy_call_ok {Unsigned 1} example_tokens (\<lambda>_. ()) proxy_limits_initial) [Ingest ClientToServer [1]]"
    by (simp add: example_parse)
  then show ?thesis
    using proxy_drains [of proxy_limits_initial id "{Unsigned 1}" example_tokens "\<lambda>_. ()"
        "[Ingest ClientToServer [1]]" example_state "\<lambda>t d. Some (t + d)" "[7, 9]" ClientToServer] limits_initial_valid
    by (simp add: example_state_eq [simplified] example_state_def [symmetric])
qed

end
