(* ===== verification/Bounded_Documents.thy ===== *)
theory Bounded_Documents
  imports Text_Paths Identifiers
begin

section \<open>Bounded maps and sequences of serialized documents\<close>

text \<open>
  The visitors with which \<open>weregopher-domain\<close> reads maps and sequences of untrusted documents
  (\<open>deserialize_authorized_execution_targets\<close>, \<open>deserialize_execution_bindings\<close>,
  \<open>deserialize_workflow_assessments\<close>, \<open>deserialize_execution_arguments\<close>,
  \<open>deserialize_evidence_references\<close>): the same two loops over serde's access interfaces, with
  their own ceilings and messages. What a deserializer yields is a parameter: for every entry
  its key and its value as decoded, or the error of decoding it, also when it is skipped
  (\<open>IgnoredAny\<close>), and after the last entry the end or a syntax error.
\<close>

record ('e, 'k, 'v) RawEntry =
  rw_key :: "'e + 'k"
  rw_value :: "'e + 'v"
  rw_ignored_key :: "'e + unit"
  rw_ignored_value :: "'e + unit"

record ('e, 'k, 'v) MapAccess =
  ma_size_hint :: "usize option"
  ma_entries :: "('e, 'k, 'v) RawEntry list"
  ma_finish :: "'e + unit"

record ('e, 'v) RawElement =
  rl_element :: "'e + 'v"
  rl_ignored :: "'e + unit"

record ('e, 'v) SeqAccess =
  sa_size_hint :: "usize option"
  sa_elements :: "('e, 'v) RawElement list"
  sa_finish :: "'e + unit"

fun visit_entries ::
    "usize \<Rightarrow> 'e \<Rightarrow> 'e \<Rightarrow> ('e, 'k::linorder, 'v) RawEntry list \<Rightarrow> 'e + unit \<Rightarrow> ('k \<times> 'v) list \<Rightarrow>
     'e + ('k \<times> 'v) list" where
  "visit_entries maximum too_many duplicate [] fin acc = rbind fin (\<lambda>_. Inr acc)"
| "visit_entries maximum too_many duplicate (entry # entries) fin acc =
     (if length acc < maximum then
        rbind (rw_key entry) (\<lambda>key.
        if bt_get acc key \<noteq> None
        then rbind (rw_ignored_value entry) (\<lambda>_. Inl duplicate)
        else rbind (rw_value entry) (\<lambda>v.
          visit_entries maximum too_many duplicate entries fin (bt_insert key v acc)))
      else rbind (rw_ignored_key entry) (\<lambda>_. rbind (rw_ignored_value entry) (\<lambda>_. Inl too_many)))"

definition visit_bounded_map ::
    "usize \<Rightarrow> 'e \<Rightarrow> 'e \<Rightarrow> ('e, 'k::linorder, 'v) MapAccess \<Rightarrow> 'e + ('k \<times> 'v) list" where
  "visit_bounded_map maximum too_many duplicate access =
     (if (case ma_size_hint access of Some n \<Rightarrow> maximum < n | None \<Rightarrow> False) then Inl too_many
      else visit_entries maximum too_many duplicate (ma_entries access) (ma_finish access) [])"

fun visit_elements ::
    "usize \<Rightarrow> 'e \<Rightarrow> ('e, 'v) RawElement list \<Rightarrow> 'e + unit \<Rightarrow> 'v list \<Rightarrow> 'e + 'v list" where
  "visit_elements maximum too_many [] fin acc = rbind fin (\<lambda>_. Inr acc)"
| "visit_elements maximum too_many (element # elements) fin acc =
     (if length acc < maximum
      then rbind (rl_element element) (\<lambda>v. visit_elements maximum too_many elements fin (acc @ [v]))
      else rbind (rl_ignored element) (\<lambda>_. Inl too_many))"

definition visit_bounded_seq :: "usize \<Rightarrow> 'e \<Rightarrow> ('e, 'v) SeqAccess \<Rightarrow> 'e + 'v list" where
  "visit_bounded_seq maximum too_many access =
     (if (case sa_size_hint access of Some n \<Rightarrow> maximum < n | None \<Rightarrow> False) then Inl too_many
      else visit_elements maximum too_many (sa_elements access) (sa_finish access) [])"

subsection \<open>What the visitors accept\<close>

definition entries_decode :: "('e, 'k, 'v) RawEntry list \<Rightarrow> ('k \<times> 'v) list \<Rightarrow> bool" where
  "entries_decode entries pairs \<longleftrightarrow>
     map rw_key entries = map (\<lambda>p. Inr (fst p)) pairs \<and> map rw_value entries = map (\<lambda>p. Inr (snd p)) pairs"

lemma entries_decode_Cons:
  "entries_decode (entry # entries) pairs \<longleftrightarrow>
     (\<exists>k v ps. pairs = (k, v) # ps \<and> rw_key entry = Inr k \<and> rw_value entry = Inr v \<and> entries_decode entries ps)"
  by (cases pairs) (auto simp: entries_decode_def)

lemma bt_insert_fresh_set:
  "bt_wf m \<Longrightarrow> bt_get m k = None \<Longrightarrow> set (bt_insert k v m) = insert (k, v) (set m)"
  by (auto simp: bt_get_mem [symmetric] bt_laws bt_wf_insert split: if_splits)

lemma visit_entries_Inr:
  assumes "bt_wf acc"
  shows "visit_entries maximum too_many duplicate entries fin acc = Inr m \<longleftrightarrow>
    fin = Inr () \<and> (\<exists>pairs. entries_decode entries pairs \<and> distinct (map fst pairs) \<and>
      fst ` set pairs \<inter> fst ` set acc = {} \<and> (pairs \<noteq> [] \<longrightarrow> length acc + length pairs \<le> maximum) \<and>
      bt_wf m \<and> set m = set acc \<union> set pairs)"
  using assms
proof (induction entries arbitrary: acc)
  case Nil
  have "acc = m" if "bt_wf m" "set m = set acc"
    using that Nil.prems bt_get_mem [OF that(1)] bt_get_mem [OF Nil.prems]
    by (intro bt_eqI [OF Nil.prems that(1)] ext) (metis option.exhaust)
  with Nil show ?case
    by (auto simp: rbind_Inr_iff entries_decode_def)
next
  case (Cons entry entries)
  have step: "visit_entries maximum too_many duplicate (entry # entries) fin acc = Inr m \<longleftrightarrow>
      length acc < maximum \<and> (\<exists>k v. rw_key entry = Inr k \<and> rw_value entry = Inr v \<and> bt_get acc k = None \<and>
        visit_entries maximum too_many duplicate entries fin (bt_insert k v acc) = Inr m)"
    by (auto simp: rbind_Inr_iff)
  have IH: "visit_entries maximum too_many duplicate entries fin (bt_insert k v acc) = Inr m \<longleftrightarrow>
      fin = Inr () \<and> (\<exists>pairs. entries_decode entries pairs \<and> distinct (map fst pairs) \<and>
        fst ` set pairs \<inter> insert k (fst ` set acc) = {} \<and> (pairs \<noteq> [] \<longrightarrow> Suc (length acc) + length pairs \<le> maximum) \<and>
        bt_wf m \<and> set m = insert (k, v) (set acc \<union> set pairs))"
    if "bt_get acc k = None" for k v
    using Cons.IH [OF bt_wf_insert [OF Cons.prems]] that Cons.prems
    by (simp add: bt_insert_fresh_set bt_sizes set_bt_insert_keys)
  show ?case (is "_ \<longleftrightarrow> ?R")
  proof
    assume "visit_entries maximum too_many duplicate (entry # entries) fin acc = Inr m"
    then obtain k v where kv: "length acc < maximum" "rw_key entry = Inr k" "rw_value entry = Inr v"
        "bt_get acc k = None" "visit_entries maximum too_many duplicate entries fin (bt_insert k v acc) = Inr m"
      using step by blast
    then obtain ps where "fin = Inr ()" "entries_decode entries ps" "distinct (map fst ps)"
        "fst ` set ps \<inter> insert k (fst ` set acc) = {}" "ps \<noteq> [] \<longrightarrow> Suc (length acc) + length ps \<le> maximum"
        "bt_wf m" "set m = insert (k, v) (set acc \<union> set ps)"
      using IH by blast
    with kv show ?R
      by (intro conjI exI [of _ "(k, v) # ps"]) (auto simp: entries_decode_Cons bt_get_None Suc_le_eq)
  next
    assume ?R
    then obtain k v ps where "fin = Inr ()" "rw_key entry = Inr k" "rw_value entry = Inr v" "entries_decode entries ps"
        "distinct (k # map fst ps)" "insert k (fst ` set ps) \<inter> fst ` set acc = {}"
        "length acc + Suc (length ps) \<le> maximum" "bt_wf m" "set m = insert (k, v) (set acc \<union> set ps)"
      by (auto simp: entries_decode_Cons)
    moreover from this have "bt_get acc k = None"
      by (auto simp: bt_get_None)
    ultimately show "visit_entries maximum too_many duplicate (entry # entries) fin acc = Inr m"
      unfolding step using IH [of k v] by (intro conjI exI [of _ k] exI [of _ v]) auto
  qed
qed

lemma visit_bounded_map_Inr:
  "visit_bounded_map maximum too_many duplicate access = Inr m \<longleftrightarrow>
     (\<forall>n. ma_size_hint access = Some n \<longrightarrow> n \<le> maximum) \<and> ma_finish access = Inr () \<and>
     (\<exists>pairs. entries_decode (ma_entries access) pairs \<and> distinct (map fst pairs) \<and> length pairs \<le> maximum \<and>
        bt_wf m \<and> set m = set pairs)"
  unfolding visit_bounded_map_def
  by (auto simp: visit_entries_Inr bt_laws split: option.splits)

lemma visit_elements_Inr:
  "visit_elements maximum too_many elements fin acc = Inr m \<longleftrightarrow>
     fin = Inr () \<and> (elements \<noteq> [] \<longrightarrow> length acc + length elements \<le> maximum) \<and>
     (\<exists>vs. map rl_element elements = map Inr vs \<and> m = acc @ vs)"
proof (induction elements arbitrary: acc)
  case (Cons element elements)
  show ?case
  proof (cases "length acc < maximum")
    case True
    show ?thesis
    proof (cases "rl_element element")
      case (Inl e)
      with True show ?thesis by (auto simp: Cons_eq_map_conv)
    next
      case (Inr b)
      have "(\<exists>vs. map rl_element (element # elements) = map Inr vs \<and> m = acc @ vs) \<longleftrightarrow>
          (\<exists>vs. map rl_element elements = map Inr vs \<and> m = (acc @ [b]) @ vs)"
        by (auto simp: Inr Cons_eq_map_conv)
      with True Inr Cons.IH [of "acc @ [b]"] show ?thesis
        by auto
    qed
  next
    case False
    then show ?thesis
      by (auto simp: rbind_Inr_iff)
  qed
qed (auto simp: rbind_Inr_iff)

lemma visit_bounded_seq_Inr:
  "visit_bounded_seq maximum too_many access = Inr m \<longleftrightarrow>
     (\<forall>n. sa_size_hint access = Some n \<longrightarrow> n \<le> maximum) \<and> sa_finish access = Inr () \<and>
     map rl_element (sa_elements access) = map Inr m \<and> length m \<le> maximum"
  unfolding visit_bounded_seq_def
  by (auto simp: visit_elements_Inr dest: map_eq_imp_length_eq split: option.splits)

lemma decoded_map_size:
  assumes "bt_wf m" and "set m = set pairs" and "distinct (map fst pairs)"
  shows "length m = length pairs"
proof -
  have "length m = card (set m)"
    using bt_wf_distinct [OF assms(1)] by (simp add: distinct_card distinct_map)
  also have "\<dots> = length pairs"
    using assms(2,3) by (simp add: distinct_card distinct_map)
  finally show ?thesis .
qed

lemma visit_map_wf:
  assumes "visit_bounded_map maximum too_many duplicate access = Inr m"
  shows "bt_wf m" and "length m \<le> maximum"
    and "\<And>k v. (k, v) \<in> set m \<Longrightarrow> \<exists>entry \<in> set (ma_entries access). rw_key entry = Inr k \<and> rw_value entry = Inr v"
proof -
  obtain pairs where p: "entries_decode (ma_entries access) pairs" "distinct (map fst pairs)" "length pairs \<le> maximum"
      "bt_wf m" "set m = set pairs"
    using assms by (auto simp: visit_bounded_map_Inr)
  then show "bt_wf m" "length m \<le> maximum"
    using decoded_map_size [OF p(4,5,2)] by auto
  fix k v
  assume "(k, v) \<in> set m"
  then obtain i where i: "i < length pairs" "pairs ! i = (k, v)"
    using p(5) by (auto simp: in_set_conv_nth)
  then have "i < length (ma_entries access)"
    using p(1) by (auto simp: entries_decode_def dest: map_eq_imp_length_eq)
  moreover from this i p(1) have "rw_key (ma_entries access ! i) = Inr k \<and> rw_value (ma_entries access ! i) = Inr v"
    unfolding entries_decode_def by (metis fst_conv nth_map snd_conv)
  ultimately show "\<exists>entry \<in> set (ma_entries access). rw_key entry = Inr k \<and> rw_value entry = Inr v"
    by (meson nth_mem)
qed

lemma visit_map_of:
  assumes "bt_wf m" and "length m \<le> maximum" and "ma_size_hint access = None" and "ma_finish access = Inr ()"
    and "entries_decode (ma_entries access) m"
  shows "visit_bounded_map maximum too_many duplicate access = Inr m"
  using assms bt_wf_distinct [OF assms(1)] by (auto simp: visit_bounded_map_Inr)

lemmas bounded_visitors = visit_bounded_map_Inr visit_bounded_seq_Inr

end
