(* ===== verification/Unicode_Text.thy ===== *)
theory Unicode_Text
  imports Text_Paths
begin

section \<open>Scalar values, UTF-8 and UTF-16\<close>

text \<open>
  What the launch encoder and the source maps use of Rust's text types. A \<open>str\<close> is the
  string of its UTF-8 bytes; \<open>chars\<close> is \<open>str::chars\<close>, the scalar values it encodes.
  \<open>utf8_encode\<close>, \<open>utf16_encode\<close> are \<open>char::encode_utf8\<close> and \<open>char::encode_utf16\<close>; an
  \<open>OsStr\<close> is the list of its UTF-16 units, so \<open>encode_wide\<close> of a converted \<open>str\<close> is
  \<open>wide_of_str\<close> and \<open>OsStr::to_str\<close> is \<open>os_to_str\<close>.
\<close>

type_synonym wide = "u16 list"

fun decode_utf8 :: "bytes \<Rightarrow> nat list" where
  "decode_utf8 [] = []"
| "decode_utf8 (a # bs) =
     (if a < 0x80 then unat a # decode_utf8 bs
      else if a < 0xE0 then
        (case bs of b # bs' \<Rightarrow> ((unat a mod 32) * 64 + unat b mod 64) # decode_utf8 bs' | _ \<Rightarrow> [])
      else if a < 0xF0 then
        (case bs of b # c # bs' \<Rightarrow>
           ((unat a mod 16) * 4096 + (unat b mod 64) * 64 + unat c mod 64) # decode_utf8 bs'
         | _ \<Rightarrow> [])
      else
        (case bs of b # c # d # bs' \<Rightarrow>
           ((unat a mod 8) * 262144 + (unat b mod 64) * 4096 + (unat c mod 64) * 64 + unat d mod 64)
             # decode_utf8 bs'
         | _ \<Rightarrow> []))"

definition chars :: "string \<Rightarrow> nat list" where
  "chars s = decode_utf8 (str_bytes s)"

definition utf8_encode :: "nat \<Rightarrow> bytes" where
  "utf8_encode c =
     (if c < 0x80 then [of_nat c]
      else if c < 0x800 then [of_nat (0xC0 + c div 64), of_nat (0x80 + c mod 64)]
      else if c < 0x10000 then
        [of_nat (0xE0 + c div 4096), of_nat (0x80 + c div 64 mod 64), of_nat (0x80 + c mod 64)]
      else [of_nat (0xF0 + c div 262144), of_nat (0x80 + c div 4096 mod 64),
            of_nat (0x80 + c div 64 mod 64), of_nat (0x80 + c mod 64)])"

definition len_utf8 :: "nat \<Rightarrow> usize" where
  "len_utf8 c = (if c < 0x80 then 1 else if c < 0x800 then 2 else if c < 0x10000 then 3 else 4)"

definition utf16_encode :: "nat \<Rightarrow> wide" where
  "utf16_encode c =
     (if c < 0x10000 then [of_nat c]
      else [of_nat (0xD800 + (c - 0x10000) div 0x400), of_nat (0xDC00 + (c - 0x10000) mod 0x400)])"

definition len_utf16 :: "nat \<Rightarrow> usize" where
  "len_utf16 c = (if c < 0x10000 then 1 else 2)"

definition wide_of_str :: "string \<Rightarrow> wide" where
  "wide_of_str s = concat (map utf16_encode (chars s))"

fun utf16_decode :: "wide \<Rightarrow> nat list option" where
  "utf16_decode [] = Some []"
| "utf16_decode (u # us) =
     (if 0xD800 \<le> u \<and> u \<le> 0xDBFF then
        (case us of
           v # vs \<Rightarrow>
             (if 0xDC00 \<le> v \<and> v \<le> 0xDFFF
              then map_option (Cons (0x10000 + (unat u - 0xD800) * 0x400 + (unat v - 0xDC00))) (utf16_decode vs)
              else None)
         | [] \<Rightarrow> None)
      else if 0xDC00 \<le> u \<and> u \<le> 0xDFFF then None
      else map_option (Cons (unat u)) (utf16_decode us))"

definition os_to_str :: "wide \<Rightarrow> string option" where
  "os_to_str w = map_option (\<lambda>cs. map byte_char (concat (map utf8_encode cs))) (utf16_decode w)"

lemma length_utf8_encode [simp]: "length (utf8_encode c) = len_utf8 c"
  by (simp add: utf8_encode_def len_utf8_def)

lemma length_utf16_encode [simp]: "length (utf16_encode c) = len_utf16 c"
  by (simp add: utf16_encode_def len_utf16_def)

lemma len_utf8_pos [simp]: "0 < len_utf8 c"
  by (simp add: len_utf8_def)

lemma str_bytes_char: "str_bytes s = map char_byte s"
  by (simp add: str_bytes_def char_byte_def)

lemma inj_char_byte: "inj char_byte"
  by (rule inj_on_inverseI [of _ byte_char]) simp

lemma str_bytes_inject [simp]: "str_bytes s = str_bytes t \<longleftrightarrow> s = t"
  by (simp add: str_bytes_char inj_map_eq_map [OF inj_char_byte])

end
