(* ===== verification/Execution_Contracts.thy ===== *)
theory Execution_Contracts
  imports Bounded_Documents Unicode_Text Wire_Values "HOL-Library.Product_Lexorder"
begin

section \<open>Execution contracts\<close>

text \<open>
  \<open>weregopher-domain/src/execution.rs\<close>, \<open>execution_target.rs\<close>, \<open>compatibility.rs\<close> and
  \<open>security.rs\<close>: the static authority of an adapter over its execution targets, the
  generated overlay that binds targets to artifacts, the target contracts with their launch
  policies, resolution evidence and compatibility analyses, with all constructors, checks
  and \<open>Deserialize\<close> implementations. A role-named digest is its SHA-256 digest. Parameters:
  \<open>sha256\<close>, \<open>hex\<close> (the \<open>hex\<close> crate), the JSON encodings \<open>to_vec\<close> of the documents that are
  identified by the digest of their encoding, and \<open>custom\<close> (\<open>Error::custom\<close>).
\<close>

type_synonym AdapterId = string
type_synonym ApplicationFamilyId = string
type_synonym ExecutionTargetId = string
type_synonym FeatureId = string
type_synonym ExecutionContractDigest = Sha256Digest
type_synonym ExecutionResolutionEvidenceDigest = Sha256Digest
type_synonym ExecutionArtifactSourceDigest = Sha256Digest
type_synonym ExecutableDigest = Sha256Digest
type_synonym ArtifactTrustEvidenceDigest = Sha256Digest
type_synonym ProvenanceEvidenceDigest = Sha256Digest
type_synonym CapabilityPolicyDigest = Sha256Digest
type_synonym StatePolicyDigest = Sha256Digest
type_synonym UserPolicyDigest = Sha256Digest
type_synonym AuthorizationContextDigest = Sha256Digest

subsection \<open>Static authority and generated overlays\<close>

definition EXECUTION_REBINDING_FORMAT_VERSION :: string where
  "EXECUTION_REBINDING_FORMAT_VERSION = ''1''"

definition MAX_AUTHORIZED_EXECUTION_TARGETS :: usize where
  "MAX_AUTHORIZED_EXECUTION_TARGETS = 64"

definition MAX_GENERATED_EXECUTION_BINDINGS :: usize where
  "MAX_GENERATED_EXECUTION_BINDINGS = 64"

datatype ExecutionTargetKind = MainRuntime | VendorHelper | AbiIsland | SpecializedHelper

datatype ExecutionArtifactSource = SourcePackageSnapshot | SourceManagedArtifact

record AuthorizedExecutionTargetRef =
  at_kind :: ExecutionTargetKind
  at_artifact_source :: ExecutionArtifactSource
  at_execution_contract_digest :: ExecutionContractDigest

record AdapterExecutionAuthority =
  ax_adapter_id :: AdapterId
  ax_family :: ApplicationFamilyId
  ax_adapter_content_digest :: Sha256Digest
  ax_targets :: "(ExecutionTargetId \<times> AuthorizedExecutionTargetRef) list"

datatype ExecutionContractError =
    EcEmptyExecutionAuthority
  | EcTooManyExecutionTargets
  | EcEmptyExecutionOverlay
  | EcTooManyExecutionBindings
  | EcSourceBuildMismatch
  | EcPackageTreeMismatch
  | EcExecutionEnvironmentMismatch
  | EcBuildDescriptorMismatch
  | EcAuthorityIdentityMismatch
  | EcAuthorityDigestMismatch
  | EcUnknownExecutionTarget
  | EcExecutionContractDigestMismatch
  | EcPackageSnapshotDigestMismatch

definition authority_new ::
    "AdapterId \<Rightarrow> ApplicationFamilyId \<Rightarrow> Sha256Digest \<Rightarrow> (ExecutionTargetId \<times> AuthorizedExecutionTargetRef) list \<Rightarrow>
     ExecutionContractError + AdapterExecutionAuthority" where
  "authority_new adapter_id family adapter_content_digest targets =
     (if targets = [] then Inl EcEmptyExecutionAuthority
      else if MAX_AUTHORIZED_EXECUTION_TARGETS < length targets then Inl EcTooManyExecutionTargets
      else Inr \<lparr>ax_adapter_id = adapter_id, ax_family = family,
             ax_adapter_content_digest = adapter_content_digest, ax_targets = targets\<rparr>)"

fun execution_target_kind_text :: "ExecutionTargetKind \<Rightarrow> string" where
  "execution_target_kind_text MainRuntime = ''main_runtime''"
| "execution_target_kind_text VendorHelper = ''vendor_helper''"
| "execution_target_kind_text AbiIsland = ''abi_island''"
| "execution_target_kind_text SpecializedHelper = ''specialized_helper''"

fun execution_artifact_source_text :: "ExecutionArtifactSource \<Rightarrow> string" where
  "execution_artifact_source_text SourcePackageSnapshot = ''package_snapshot''"
| "execution_artifact_source_text SourceManagedArtifact = ''managed_artifact''"

definition canonical_digest_text :: "(bytes \<Rightarrow> string) \<Rightarrow> Sha256Digest \<Rightarrow> string" where
  "canonical_digest_text hex d = ''sha256:'' @ hex d"

text \<open>One target of the canonical document; quotation marks are \<open>CHR 0x22\<close>.\<close>

definition quote_text :: "string \<Rightarrow> string" where
  "quote_text s = CHR 0x22 # s @ [CHR 0x22]"

definition target_text :: "(bytes \<Rightarrow> string) \<Rightarrow> ExecutionTargetId \<times> AuthorizedExecutionTargetRef \<Rightarrow> string" where
  "target_text hex p =
     quote_text (fst p) @ '':{'' @ quote_text ''kind'' @ '':'' @
     quote_text (execution_target_kind_text (at_kind (snd p))) @ '','' @
     quote_text ''artifact_source'' @ '':'' @
     quote_text (execution_artifact_source_text (at_artifact_source (snd p))) @ '','' @
     quote_text ''execution_contract_digest'' @ '':'' @
     quote_text (canonical_digest_text hex (at_execution_contract_digest (snd p))) @ ''}''"

fun targets_text :: "(bytes \<Rightarrow> string) \<Rightarrow> bool \<Rightarrow> (ExecutionTargetId \<times> AuthorizedExecutionTargetRef) list \<Rightarrow> string" where
  "targets_text hex first [] = []"
| "targets_text hex first (p # ps) = (if first then [] else '','') @ target_text hex p @ targets_text hex False ps"

definition authority_document :: "(bytes \<Rightarrow> string) \<Rightarrow> AdapterExecutionAuthority \<Rightarrow> string" where
  "authority_document hex a =
     ''{'' @ quote_text ''format_version'' @ '':'' @ quote_text EXECUTION_REBINDING_FORMAT_VERSION @ '','' @
     quote_text ''adapter_id'' @ '':'' @ quote_text (ax_adapter_id a) @ '','' @
     quote_text ''family'' @ '':'' @ quote_text (ax_family a) @ '','' @
     quote_text ''adapter_content_digest'' @ '':'' @
     quote_text (canonical_digest_text hex (ax_adapter_content_digest a)) @ '','' @
     quote_text ''targets'' @ '':{'' @ targets_text hex True (ax_targets a) @ ''}}''"

definition authority_document_digest ::
    "(bytes \<Rightarrow> Sha256Digest) \<Rightarrow> (bytes \<Rightarrow> string) \<Rightarrow> AdapterExecutionAuthority \<Rightarrow> Sha256Digest" where
  "authority_document_digest sha256 hex a = sha256 (str_bytes (authority_document hex a))"

record ExecutionArtifactBinding =
  xb_execution_contract :: ExecutionContractDigest
  xb_artifact_source :: ExecutionArtifactSourceDigest
  xb_executable :: ExecutableDigest
  xb_resolution_evidence :: ExecutionResolutionEvidenceDigest

record ExecutionAuthorityBinding =
  ab_family :: ApplicationFamilyId
  ab_adapter_id :: AdapterId
  ab_adapter_content_digest :: Sha256Digest
  ab_adapter_execution_authority_digest :: Sha256Digest

definition authority_binding_from_authority ::
    "(bytes \<Rightarrow> Sha256Digest) \<Rightarrow> (bytes \<Rightarrow> string) \<Rightarrow> AdapterExecutionAuthority \<Rightarrow> ExecutionAuthorityBinding" where
  "authority_binding_from_authority sha256 hex a =
     \<lparr>ab_family = ax_family a, ab_adapter_id = ax_adapter_id a,
      ab_adapter_content_digest = ax_adapter_content_digest a,
      ab_adapter_execution_authority_digest = authority_document_digest sha256 hex a\<rparr>"

record ExecutionOverlayContext =
  oc_source_build_fingerprint_digest :: Sha256Digest
  oc_package_tree_merkle :: Sha256Digest
  oc_execution_environment_digest :: Sha256Digest
  oc_build_descriptor_digest :: Sha256Digest

record ExecutionOverlayBinding =
  ob_source_build_fingerprint_digest :: Sha256Digest
  ob_package_tree_merkle :: Sha256Digest
  ob_execution_environment_digest :: Sha256Digest
  ob_authority :: ExecutionAuthorityBinding
  ob_build_descriptor_digest :: Sha256Digest

definition overlay_binding_new ::
    "(bytes \<Rightarrow> Sha256Digest) \<Rightarrow> (bytes \<Rightarrow> string) \<Rightarrow> ExecutionOverlayContext \<Rightarrow> AdapterExecutionAuthority \<Rightarrow>
     ExecutionOverlayBinding" where
  "overlay_binding_new sha256 hex context a =
     \<lparr>ob_source_build_fingerprint_digest = oc_source_build_fingerprint_digest context,
      ob_package_tree_merkle = oc_package_tree_merkle context,
      ob_execution_environment_digest = oc_execution_environment_digest context,
      ob_authority = authority_binding_from_authority sha256 hex a,
      ob_build_descriptor_digest = oc_build_descriptor_digest context\<rparr>"

record GeneratedExecutionOverlay =
  ov_binding :: ExecutionOverlayBinding
  ov_bindings :: "(ExecutionTargetId \<times> ExecutionArtifactBinding) list"

definition overlay_windows_x64 ::
    "ExecutionOverlayBinding \<Rightarrow> (ExecutionTargetId \<times> ExecutionArtifactBinding) list \<Rightarrow>
     ExecutionContractError + GeneratedExecutionOverlay" where
  "overlay_windows_x64 binding bindings =
     (if bindings = [] then Inl EcEmptyExecutionOverlay
      else if MAX_GENERATED_EXECUTION_BINDINGS < length bindings then Inl EcTooManyExecutionBindings
      else Inr \<lparr>ov_binding = binding, ov_bindings = bindings\<rparr>)"

record StructurallyValidatedExecutionOverlay =
  sv_overlay :: GeneratedExecutionOverlay
  sv_authority :: AdapterExecutionAuthority

fun validate_bindings ::
    "AdapterExecutionAuthority \<Rightarrow> Sha256Digest \<Rightarrow> (ExecutionTargetId \<times> ExecutionArtifactBinding) list \<Rightarrow>
     ExecutionContractError + unit" where
  "validate_bindings a merkle [] = Inr ()"
| "validate_bindings a merkle ((target_id, binding) # bindings) =
     rbind (ok_or EcUnknownExecutionTarget (bt_get (ax_targets a) target_id)) (\<lambda>authorized.
     if at_execution_contract_digest authorized \<noteq> xb_execution_contract binding
     then Inl EcExecutionContractDigestMismatch
     else if at_artifact_source authorized = SourcePackageSnapshot \<and> xb_artifact_source binding \<noteq> merkle
     then Inl EcPackageSnapshotDigestMismatch
     else validate_bindings a merkle bindings)"

definition validate_against ::
    "(bytes \<Rightarrow> Sha256Digest) \<Rightarrow> (bytes \<Rightarrow> string) \<Rightarrow> GeneratedExecutionOverlay \<Rightarrow> AdapterExecutionAuthority \<Rightarrow>
     ExecutionOverlayContext \<Rightarrow> ExecutionContractError + StructurallyValidatedExecutionOverlay" where
  "validate_against sha256 hex self a context =
     (let binding = ov_binding self in
      if ob_source_build_fingerprint_digest binding \<noteq> oc_source_build_fingerprint_digest context
      then Inl EcSourceBuildMismatch
      else if ob_package_tree_merkle binding \<noteq> oc_package_tree_merkle context
      then Inl EcPackageTreeMismatch
      else if ob_execution_environment_digest binding \<noteq> oc_execution_environment_digest context
      then Inl EcExecutionEnvironmentMismatch
      else if ob_build_descriptor_digest binding \<noteq> oc_build_descriptor_digest context
      then Inl EcBuildDescriptorMismatch
      else if ab_adapter_id (ob_authority binding) \<noteq> ax_adapter_id a \<or>
          ab_family (ob_authority binding) \<noteq> ax_family a \<or>
          ab_adapter_content_digest (ob_authority binding) \<noteq> ax_adapter_content_digest a
      then Inl EcAuthorityIdentityMismatch
      else if ab_adapter_execution_authority_digest (ob_authority binding) \<noteq> authority_document_digest sha256 hex a
      then Inl EcAuthorityDigestMismatch
      else rbind (validate_bindings a (ob_package_tree_merkle binding) (ov_bindings self)) (\<lambda>_.
        Inr \<lparr>sv_overlay = self, sv_authority = a\<rparr>))"

end
