(* ===== verification/Execution_Targets.thy ===== *)
theory Execution_Targets
  imports Execution_Contracts
begin

section \<open>Execution targets, resolution evidence and compatibility analyses\<close>

text \<open>
  \<open>execution_target.rs\<close> (arguments, package paths, locators, resource limits, launch
  policies, target contracts, resolution evidence), \<open>security.rs\<close> and \<open>compatibility.rs\<close>.
\<close>

definition MAX_EXECUTION_ARGUMENTS :: usize where "MAX_EXECUTION_ARGUMENTS = 64"
definition MAX_EXECUTION_ARGUMENT_BYTES :: usize where "MAX_EXECUTION_ARGUMENT_BYTES = 8 * 1024"
definition MAX_EXECUTION_ARGUMENT_AGGREGATE_BYTES :: usize where
  "MAX_EXECUTION_ARGUMENT_AGGREGATE_BYTES = 16 * 1024"
definition MAX_EXECUTION_PACKAGE_PATH_BYTES :: usize where "MAX_EXECUTION_PACKAGE_PATH_BYTES = 4 * 1024"
definition MAX_EXECUTION_PACKAGE_PATH_COMPONENTS :: usize where
  "MAX_EXECUTION_PACKAGE_PATH_COMPONENTS = 256"
definition MAX_EXECUTION_TARGET_DOCUMENT_BYTES :: usize where
  "MAX_EXECUTION_TARGET_DOCUMENT_BYTES = 256 * 1024"
definition MAX_EXECUTION_RESOLUTION_DOCUMENT_BYTES :: usize where
  "MAX_EXECUTION_RESOLUTION_DOCUMENT_BYTES = 64 * 1024"

datatype ExecutionTargetContractError =
    EtArgumentTooLong
  | EtArgumentContainsNul
  | EtTooManyArguments
  | EtTooManyArgumentBytes
  | EtInvalidPackagePath
  | EtManagedExecutableDigestMismatch
  | EtZeroResourceLimit
  | EtIncoherentMemoryLimits

type_synonym ExecutionArgument = string

definition execution_argument_new :: "string \<Rightarrow> ExecutionTargetContractError + ExecutionArgument" where
  "execution_argument_new v =
     (if MAX_EXECUTION_ARGUMENT_BYTES < length v then Inl EtArgumentTooLong
      else if CHR 0x00 \<in> set v then Inl EtArgumentContainsNul
      else Inr v)"

subsection \<open>Package paths\<close>

definition is_invalid_windows_path_character :: "nat \<Rightarrow> bool" where
  "is_invalid_windows_path_character c \<longleftrightarrow>
     c \<le> 0x1F \<or> c \<in> {0x3C, 0x3E, 0x3A, 0x22, 0x5C, 0x7C, 0x3F, 0x2A}"

definition ascii_upper :: "char \<Rightarrow> char" where
  "ascii_upper c = (if CHR ''a'' \<le> c \<and> c \<le> CHR ''z'' then char_of (of_char c - 32 :: nat) else c)"

definition to_ascii_uppercase :: "string \<Rightarrow> string" where
  "to_ascii_uppercase s = map ascii_upper s"

definition trim_end_matches :: "char list \<Rightarrow> string \<Rightarrow> string" where
  "trim_end_matches cs s = rev (dropWhile (\<lambda>c. c \<in> set cs) (rev s))"

definition device_suffixes :: "string list" where
  "device_suffixes = [''1'', ''2'', ''3'', ''4'', ''5'', ''6'', ''7'', ''8'', ''9'',
     [CHR 0xC2, CHR 0xB9], [CHR 0xC2, CHR 0xB2], [CHR 0xC2, CHR 0xB3]]"

definition is_reserved_windows_component :: "string \<Rightarrow> bool" where
  "is_reserved_windows_component component =
     (let uppercase = to_ascii_uppercase (trim_end_matches '' .'' (hd (split_on (CHR ''.'') component))) in
      uppercase \<in> set [''CON'', ''PRN'', ''AUX'', ''NUL'', ''CONIN$'', ''CONOUT$'', ''CLOCK$''] \<or>
      list_ex (\<lambda>prefix. take 3 uppercase = prefix \<and> drop 3 uppercase \<in> set device_suffixes) [''COM'', ''LPT''])"

definition component_ok :: "string \<Rightarrow> bool" where
  "component_ok component \<longleftrightarrow>
     \<not> (component = [] \<or> component = ''.'' \<or> component = ''..'' \<or> ends_with_any component ''. '' \<or>
        list_ex is_invalid_windows_path_character (chars component) \<or> is_reserved_windows_component component)"

fun validate_components :: "string list \<Rightarrow> usize \<Rightarrow> ExecutionTargetContractError + usize" where
  "validate_components [] component_count = Inr component_count"
| "validate_components (component # components) component_count =
     rbind (ok_or EtInvalidPackagePath (checked_add_usize component_count 1)) (\<lambda>component_count.
     if \<not> component_ok component then Inl EtInvalidPackagePath
     else validate_components components component_count)"

definition validate_package_path :: "string \<Rightarrow> ExecutionTargetContractError + unit" where
  "validate_package_path path =
     (if path = [] \<or> MAX_EXECUTION_PACKAGE_PATH_BYTES < length path then Inl EtInvalidPackagePath
      else if starts_with_any path ''/'' \<or> ends_with_any path ''/'' then Inl EtInvalidPackagePath
      else rbind (validate_components (split_on (CHR ''/'') path) 0) (\<lambda>component_count.
        if MAX_EXECUTION_PACKAGE_PATH_COMPONENTS < component_count then Inl EtInvalidPackagePath
        else Inr ()))"

type_synonym ExecutionPackagePath = string

definition package_path_new :: "string \<Rightarrow> ExecutionTargetContractError + ExecutionPackagePath" where
  "package_path_new v = rbind (validate_package_path v) (\<lambda>_. Inr v)"

subsection \<open>Locators\<close>

datatype ExecutionArtifactLocator =
    PackageSnapshotLocator ExecutionPackagePath
  | ManagedArtifactLocator ExecutableDigest

fun locator_artifact_source :: "ExecutionArtifactLocator \<Rightarrow> ExecutionArtifactSource" where
  "locator_artifact_source (PackageSnapshotLocator p) = SourcePackageSnapshot"
| "locator_artifact_source (ManagedArtifactLocator d) = SourceManagedArtifact"

fun locator_package_path :: "ExecutionArtifactLocator \<Rightarrow> string option" where
  "locator_package_path (PackageSnapshotLocator p) = Some p"
| "locator_package_path (ManagedArtifactLocator d) = None"

fun locator_managed_digest :: "ExecutionArtifactLocator \<Rightarrow> ExecutableDigest option" where
  "locator_managed_digest (PackageSnapshotLocator p) = None"
| "locator_managed_digest (ManagedArtifactLocator d) = Some d"

subsection \<open>Launch policies\<close>

datatype ExecutionStateMode = Disposable | Production | VendorDefault

datatype EffectiveSecurityPosture =
  EffectiveBrokerMediated | EffectiveOsContained | EffectiveVendorEquivalentFullTrust

datatype RequiredSecurityPosture =
  RequiredVendorEquivalentFullTrust | RequiredBrokerMediated | RequiredOsContained

fun is_satisfied_by :: "RequiredSecurityPosture \<Rightarrow> EffectiveSecurityPosture \<Rightarrow> bool" where
  "is_satisfied_by RequiredVendorEquivalentFullTrust EffectiveVendorEquivalentFullTrust = True"
| "is_satisfied_by RequiredBrokerMediated EffectiveBrokerMediated = True"
| "is_satisfied_by RequiredOsContained EffectiveOsContained = True"
| "is_satisfied_by _ _ = False"

datatype ExecutionEnvironmentPolicy = EmptyEnvironment
datatype ExecutionInheritedHandlePolicy = NoInheritedHandles
datatype ExecutionConsolePolicy = NoConsole
datatype ExecutionWorkingDirectoryPolicy = ExecutableParent
datatype ExecutionDependencyPolicy = VendorDefaultAmbient | ManifestClosed

record ExecutionResourceLimits =
  rl_active_process_limit :: u32
  rl_process_memory_limit_bytes :: u64
  rl_job_memory_limit_bytes :: u64

definition resource_limits_new :: "u32 \<Rightarrow> u64 \<Rightarrow> u64 \<Rightarrow> ExecutionTargetContractError + ExecutionResourceLimits" where
  "resource_limits_new active_process_limit process_memory_limit_bytes job_memory_limit_bytes =
     (if active_process_limit = 0 \<or> process_memory_limit_bytes = 0 \<or> job_memory_limit_bytes = 0
      then Inl EtZeroResourceLimit
      else if job_memory_limit_bytes < process_memory_limit_bytes then Inl EtIncoherentMemoryLimits
      else Inr \<lparr>rl_active_process_limit = active_process_limit,
             rl_process_memory_limit_bytes = process_memory_limit_bytes,
             rl_job_memory_limit_bytes = job_memory_limit_bytes\<rparr>)"

record ExecutionPolicyRequirements =
  pr_capability_policy_digest :: CapabilityPolicyDigest
  pr_state_policy_digest :: StatePolicyDigest

record ExecutionLaunchPolicy =
  lp_arguments :: "ExecutionArgument list"
  lp_environment :: ExecutionEnvironmentPolicy
  lp_inherited_handles :: ExecutionInheritedHandlePolicy
  lp_console :: ExecutionConsolePolicy
  lp_working_directory :: ExecutionWorkingDirectoryPolicy
  lp_dependency_policy :: ExecutionDependencyPolicy
  lp_required_security_posture :: RequiredSecurityPosture
  lp_state_mode :: ExecutionStateMode
  lp_resource_limits :: ExecutionResourceLimits
  lp_policy_requirements :: ExecutionPolicyRequirements

fun aggregate_arguments :: "ExecutionArgument list \<Rightarrow> usize \<Rightarrow> ExecutionTargetContractError + usize" where
  "aggregate_arguments [] aggregate = Inr aggregate"
| "aggregate_arguments (argument # arguments) aggregate =
     rbind (ok_or EtTooManyArgumentBytes (checked_add_usize aggregate (length argument))) (\<lambda>aggregate.
     if MAX_EXECUTION_ARGUMENT_AGGREGATE_BYTES < aggregate then Inl EtTooManyArgumentBytes
     else aggregate_arguments arguments aggregate)"

definition launch_policy_new ::
    "ExecutionArgument list \<Rightarrow> ExecutionDependencyPolicy \<Rightarrow> RequiredSecurityPosture \<Rightarrow> ExecutionStateMode \<Rightarrow>
     ExecutionResourceLimits \<Rightarrow> ExecutionPolicyRequirements \<Rightarrow>
     ExecutionTargetContractError + ExecutionLaunchPolicy" where
  "launch_policy_new arguments dependency_policy required_security_posture state_mode resource_limits
     policy_requirements =
     (if MAX_EXECUTION_ARGUMENTS < length arguments then Inl EtTooManyArguments
      else rbind (aggregate_arguments arguments 0) (\<lambda>_.
        Inr \<lparr>lp_arguments = arguments, lp_environment = EmptyEnvironment,
             lp_inherited_handles = NoInheritedHandles, lp_console = NoConsole,
             lp_working_directory = ExecutableParent, lp_dependency_policy = dependency_policy,
             lp_required_security_posture = required_security_posture, lp_state_mode = state_mode,
             lp_resource_limits = resource_limits, lp_policy_requirements = policy_requirements\<rparr>))"

subsection \<open>Target contracts and resolution evidence\<close>

record ExecutionTargetContract =
  tc_target_id :: ExecutionTargetId
  tc_kind :: ExecutionTargetKind
  tc_artifact_locator :: ExecutionArtifactLocator
  tc_launch_policy :: ExecutionLaunchPolicy

record ExecutionResolutionDigests =
  rd_execution_contract_digest :: ExecutionContractDigest
  rd_artifact_source_digest :: ExecutionArtifactSourceDigest
  rd_executable_digest :: ExecutableDigest
  rd_artifact_trust_evidence_digest :: ArtifactTrustEvidenceDigest
  rd_provenance_evidence_digest :: ProvenanceEvidenceDigest

record ExecutionResolutionEvidence =
  re_target_id :: ExecutionTargetId
  re_artifact_locator :: ExecutionArtifactLocator
  re_digests :: ExecutionResolutionDigests

definition resolution_evidence_new ::
    "ExecutionTargetId \<Rightarrow> ExecutionArtifactLocator \<Rightarrow> ExecutionResolutionDigests \<Rightarrow>
     ExecutionTargetContractError + ExecutionResolutionEvidence" where
  "resolution_evidence_new target_id locator digests =
     (if (case locator_managed_digest locator of Some d \<Rightarrow> d \<noteq> rd_executable_digest digests | None \<Rightarrow> False)
      then Inl EtManagedExecutableDigestMismatch
      else Inr \<lparr>re_target_id = target_id, re_artifact_locator = locator, re_digests = digests\<rparr>)"

text \<open>
  Bounded document parsing. \<open>from_slice\<close> is \<open>serde_json::from_slice\<close> with the document's
  \<open>Deserialize\<close>; a reader is the list of bytes it yields up to its end or its error.
\<close>

datatype 'je ExecutionContractParseError =
    ParseDocumentTooLarge usize
  | ParseRead
  | ParseJson 'je

definition parse_bounded_slice ::
    "(bytes \<Rightarrow> 'je + 'a) \<Rightarrow> bytes \<Rightarrow> usize \<Rightarrow> 'je ExecutionContractParseError + 'a" where
  "parse_bounded_slice from_slice bs maximum =
     (if maximum < length bs then Inl (ParseDocumentTooLarge maximum)
      else map_err ParseJson (from_slice bs))"

definition parse_bounded_reader ::
    "(bytes \<Rightarrow> 'je + 'a) \<Rightarrow> bytes \<times> bool \<Rightarrow> usize \<Rightarrow> 'je ExecutionContractParseError + 'a" where
  "parse_bounded_reader from_slice reader maximum =
     (case checked_add_usize maximum 1 of
        None \<Rightarrow> Inl (ParseDocumentTooLarge maximum)
      | Some sentinel_limit \<Rightarrow>
          if snd reader \<and> length (fst reader) < sentinel_limit then Inl ParseRead
          else parse_bounded_slice from_slice (take sentinel_limit (fst reader)) maximum)"

definition document_digest ::
    "(bytes \<Rightarrow> Sha256Digest) \<Rightarrow> ('a \<Rightarrow> 'je + bytes) \<Rightarrow> 'a \<Rightarrow> 'je + Sha256Digest" where
  "document_digest sha256 to_vec document = rbind (to_vec document) (\<lambda>bs. Inr (sha256 bs))"

subsection \<open>Compatibility analyses\<close>

definition MAX_COMPATIBILITY_EVIDENCE_REFS :: usize where "MAX_COMPATIBILITY_EVIDENCE_REFS = 64"
definition MAX_COMPATIBILITY_WORKFLOWS :: usize where "MAX_COMPATIBILITY_WORKFLOWS = 128"

record CompatibilityTarget =
  ct_adapter_contract_digest :: Sha256Digest
  ct_main_runtime_contract_digest :: Sha256Digest
  ct_renderer_backend_contract_digest :: Sha256Digest
  ct_execution_environment_digest :: Sha256Digest

datatype AnalysisDisposition = Incomplete | Blocked | Complete

datatype DimensionStatus = Unknown | Satisfied | Unsatisfied | NotApplicable

datatype CompatibilityEvidenceKind =
    EvPackageManifest
  | EvStaticAnalysis
  | EvRuntimeProbe
  | EvRendererProbe
  | EvStateProbe
  | EvSecurityProbe
  | EvWorkflowProbe
  | EvAdapterContract

fun evidence_kind_rank :: "CompatibilityEvidenceKind \<Rightarrow> nat" where
  "evidence_kind_rank EvPackageManifest = 0"
| "evidence_kind_rank EvStaticAnalysis = 1"
| "evidence_kind_rank EvRuntimeProbe = 2"
| "evidence_kind_rank EvRendererProbe = 3"
| "evidence_kind_rank EvStateProbe = 4"
| "evidence_kind_rank EvSecurityProbe = 5"
| "evidence_kind_rank EvWorkflowProbe = 6"
| "evidence_kind_rank EvAdapterContract = 7"

lemma evidence_kind_rank_inject: "evidence_kind_rank a = evidence_kind_rank b \<longleftrightarrow> a = b"
  by (cases a; cases b) simp_all

instantiation CompatibilityEvidenceKind :: linorder
begin

definition less_eq_CompatibilityEvidenceKind :: "CompatibilityEvidenceKind \<Rightarrow> CompatibilityEvidenceKind \<Rightarrow> bool" where
  "less_eq_CompatibilityEvidenceKind a b \<longleftrightarrow> evidence_kind_rank a \<le> evidence_kind_rank b"

definition less_CompatibilityEvidenceKind :: "CompatibilityEvidenceKind \<Rightarrow> CompatibilityEvidenceKind \<Rightarrow> bool" where
  "less_CompatibilityEvidenceKind a b \<longleftrightarrow> evidence_kind_rank a < evidence_kind_rank b"

instance
  by standard
    (auto simp: less_eq_CompatibilityEvidenceKind_def less_CompatibilityEvidenceKind_def
      evidence_kind_rank_inject [symmetric])

end

text \<open>References are ordered by kind, then digest, as the derived \<open>Ord\<close>.\<close>

type_synonym CompatibilityEvidenceRef = "CompatibilityEvidenceKind \<times> Sha256Digest"

datatype CompatibilityContractError =
    CcMissingEvidence
  | CcTooManyEvidenceReferences
  | CcDuplicateEvidenceReference
  | CcTooManyWorkflowAssessments

record DimensionAssessment =
  da_status :: DimensionStatus
  da_evidence :: "(CompatibilityEvidenceRef \<times> unit) list"

fun collect_references ::
    "CompatibilityEvidenceRef list \<Rightarrow> CompatibilityEvidenceRef list \<Rightarrow>
     CompatibilityContractError + CompatibilityEvidenceRef list" where
  "collect_references [] vs = Inr vs"
| "collect_references (r # rs) vs =
     (if length vs = MAX_COMPATIBILITY_EVIDENCE_REFS then Inl CcTooManyEvidenceReferences
      else collect_references rs (vs @ [r]))"

definition dimension_assessment_new ::
    "DimensionStatus \<Rightarrow> CompatibilityEvidenceRef list \<Rightarrow> CompatibilityContractError + DimensionAssessment" where
  "dimension_assessment_new status references =
     rbind (collect_references references []) (\<lambda>vs.
     let evidence = fold (\<lambda>r. bt_insert r ()) vs [] in
     if length evidence \<noteq> length vs then Inl CcDuplicateEvidenceReference
     else if status \<noteq> Unknown \<and> evidence = [] then Inl CcMissingEvidence
     else Inr \<lparr>da_status = status, da_evidence = evidence\<rparr>)"

definition dimension_assessment_unknown :: DimensionAssessment where
  "dimension_assessment_unknown = \<lparr>da_status = Unknown, da_evidence = []\<rparr>"

text \<open>The ten dimensions, as decoded fields and as assessments.\<close>

record 'a DimensionFields =
  cd_package :: 'a
  cd_main_runtime :: 'a
  cd_renderer :: 'a
  cd_preload :: 'a
  cd_electron_api :: 'a
  cd_node_api :: 'a
  cd_native_modules :: 'a
  cd_helpers :: 'a
  cd_state :: 'a
  cd_security :: 'a

type_synonym CompatibilityDimensions = "DimensionAssessment DimensionFields"

definition assessments :: "'a DimensionFields \<Rightarrow> 'a list" where
  "assessments d = [cd_package d, cd_main_runtime d, cd_renderer d, cd_preload d, cd_electron_api d,
     cd_node_api d, cd_native_modules d, cd_helpers d, cd_state d, cd_security d]"

record CompatibilityAnalysis =
  ca_source_build_fingerprint_digest :: Sha256Digest
  ca_target :: CompatibilityTarget
  ca_dimensions :: CompatibilityDimensions
  ca_workflows :: "(FeatureId \<times> DimensionAssessment) list"

definition compatibility_analysis_new ::
    "Sha256Digest \<Rightarrow> CompatibilityTarget \<Rightarrow> CompatibilityDimensions \<Rightarrow> (FeatureId \<times> DimensionAssessment) list \<Rightarrow>
     CompatibilityContractError + CompatibilityAnalysis" where
  "compatibility_analysis_new source_build target dimensions workflows =
     (if MAX_COMPATIBILITY_WORKFLOWS < length workflows then Inl CcTooManyWorkflowAssessments
      else Inr \<lparr>ca_source_build_fingerprint_digest = source_build, ca_target = target,
             ca_dimensions = dimensions, ca_workflows = workflows\<rparr>)"

fun aggregate_statuses :: "DimensionStatus list \<Rightarrow> bool \<Rightarrow> AnalysisDisposition" where
  "aggregate_statuses [] incomplete = (if incomplete then Incomplete else Complete)"
| "aggregate_statuses (status # statuses) incomplete =
     (case status of
        Unsatisfied \<Rightarrow> Blocked
      | Unknown \<Rightarrow> aggregate_statuses statuses True
      | Satisfied \<Rightarrow> aggregate_statuses statuses incomplete
      | NotApplicable \<Rightarrow> aggregate_statuses statuses incomplete)"

definition disposition :: "CompatibilityAnalysis \<Rightarrow> AnalysisDisposition" where
  "disposition self =
     aggregate_statuses (map da_status (assessments (ca_dimensions self) @ map snd (ca_workflows self))) False"

end
