(* ===== verification/Windows_Launch.thy ===== *)
theory Windows_Launch
  imports Unicode_Text
begin

section \<open>Windows launch encoding\<close>

text \<open>
  The pure part of \<open>weregopher-windows/src/process.rs\<close> and the limits of \<open>job.rs\<close>: launch
  limits, the environment block, the quoted command line, and the binding of a prepared
  launch to the executable it was prepared for. Creating the process is the parameter
  \<open>create_process\<close> of \<open>launch_prepared\<close>. A path is its UTF-16 text together with the text of
  its parent (\<open>Path::parent\<close>). Allocation is assumed to succeed.
\<close>

text \<open>One constructor per message of \<open>invalid_input\<close> and \<open>io::Error::other\<close>.\<close>

datatype LaunchProblem =
    LaunchLimitsZero
  | ArgumentLimitTooHigh
  | CommandLineLimitTooHigh
  | JobLimitsZero
  | ProcessMemoryAboveJob
  | ArgumentUnitsExceeded
  | ContainsNul
  | QuotedLengthOverflow
  | CommandLineLengthOverflow
  | CommandLineTooLong
  | TooManyProcessArguments
  | ArgumentCountOverflow
  | CommandLineSizingDisagreed
  | TooManyVariables
  | NameNotUnicode
  | NameNotCanonical
  | ValueControlCharacter
  | DuplicateVariable
  | EnvironmentLengthOverflow
  | EnvironmentTooLong
  | EnvironmentSizingDisagreed
  | NoAbsoluteParent
  | PreparedLaunchMismatch

datatype IoError = InvalidInput LaunchProblem | IoOther LaunchProblem | OsError nat

definition WINDOWS_COMMAND_LINE_MAX_UNITS :: usize where
  "WINDOWS_COMMAND_LINE_MAX_UNITS = 32767"

definition WINDOWS_ENVIRONMENT_MAX_UNITS :: usize where
  "WINDOWS_ENVIRONMENT_MAX_UNITS = 32767"

definition MAX_ENVIRONMENT_VARIABLES :: usize where
  "MAX_ENVIRONMENT_VARIABLES = 64"

definition MAX_ENVIRONMENT_NAME_BYTES :: usize where
  "MAX_ENVIRONMENT_NAME_BYTES = 128"

definition MAX_ENVIRONMENT_VALUE_UNITS :: usize where
  "MAX_ENVIRONMENT_VALUE_UNITS = 4096"

lemmas windows_limits = WINDOWS_COMMAND_LINE_MAX_UNITS_def WINDOWS_ENVIRONMENT_MAX_UNITS_def
  MAX_ENVIRONMENT_VARIABLES_def MAX_ENVIRONMENT_NAME_BYTES_def MAX_ENVIRONMENT_VALUE_UNITS_def

subsection \<open>Limits\<close>

record ProcessLaunchLimits =
  pll_arguments :: usize
  pll_argument_units :: usize
  pll_command_line_units :: usize

definition process_launch_limits_new :: "usize \<Rightarrow> usize \<Rightarrow> usize \<Rightarrow> IoError + ProcessLaunchLimits" where
  "process_launch_limits_new max_arguments max_argument_units max_command_line_units =
     (if max_arguments = 0 \<or> max_argument_units = 0 \<or> max_command_line_units = 0
      then Inl (InvalidInput LaunchLimitsZero)
      else if max_command_line_units \<le> max_argument_units
      then Inl (InvalidInput ArgumentLimitTooHigh)
      else if WINDOWS_COMMAND_LINE_MAX_UNITS < max_command_line_units
      then Inl (InvalidInput CommandLineLimitTooHigh)
      else Inr \<lparr>pll_arguments = max_arguments, pll_argument_units = max_argument_units,
             pll_command_line_units = max_command_line_units\<rparr>)"

record JobLimits =
  jl_active_processes :: u32
  jl_process_memory_bytes :: usize
  jl_job_memory_bytes :: usize

definition job_limits_new :: "u32 \<Rightarrow> u64 \<Rightarrow> u64 \<Rightarrow> IoError + JobLimits" where
  "job_limits_new active_processes process_memory_bytes job_memory_bytes =
     (if active_processes = 0 \<or> process_memory_bytes = 0 \<or> job_memory_bytes = 0
      then Inl (InvalidInput JobLimitsZero)
      else if job_memory_bytes < process_memory_bytes
      then Inl (InvalidInput ProcessMemoryAboveJob)
      else Inr \<lparr>jl_active_processes = active_processes,
             jl_process_memory_bytes = unat process_memory_bytes,
             jl_job_memory_bytes = unat job_memory_bytes\<rparr>)"

subsection \<open>Encoding of one value\<close>

definition encode_units :: "wide \<Rightarrow> usize \<Rightarrow> IoError + wide" where
  "encode_units v max_units =
     (if max_units < length v then Inl (InvalidInput ArgumentUnitsExceeded)
      else if 0 \<in> set v then Inl (InvalidInput ContainsNul)
      else Inr v)"

definition encode_nul_terminated :: "wide \<Rightarrow> usize \<Rightarrow> IoError + wide" where
  "encode_nul_terminated v max_units = rbind (encode_units v max_units) (\<lambda>encoded. Inr (encoded @ [0]))"

abbreviation BACKSLASH :: u16 where "BACKSLASH \<equiv> 0x5C"
abbreviation QUOTE :: u16 where "QUOTE \<equiv> 0x22"
abbreviation SPACE :: u16 where "SPACE \<equiv> 0x20"
abbreviation TAB :: u16 where "TAB \<equiv> 0x09"

definition needs_quotes :: "wide \<Rightarrow> bool" where
  "needs_quotes units \<longleftrightarrow> units = [] \<or> list_ex (\<lambda>u. u = SPACE \<or> u = TAB \<or> u = QUOTE) units"

abbreviation length_overflow :: "usize option \<Rightarrow> IoError + usize" where
  "length_overflow \<equiv> ok_or (InvalidInput QuotedLengthOverflow)"

fun quoted_units_loop :: "wide \<Rightarrow> usize \<Rightarrow> usize \<Rightarrow> IoError + usize" where
  "quoted_units_loop [] total_units backslashes =
     rbind (length_overflow (Option.bind (checked_mul_usize backslashes 2) (\<lambda>v. checked_add_usize v 1))) (\<lambda>n.
     length_overflow (checked_add_usize total_units n))"
| "quoted_units_loop (u # us) total_units backslashes =
     (if u = BACKSLASH then
        rbind (length_overflow (checked_add_usize backslashes 1)) (\<lambda>b. quoted_units_loop us total_units b)
      else if u = QUOTE then
        rbind (length_overflow (Option.bind (checked_mul_usize backslashes 2) (\<lambda>v. checked_add_usize v 2))) (\<lambda>n.
        rbind (length_overflow (checked_add_usize total_units n)) (\<lambda>t. quoted_units_loop us t 0))
      else
        rbind (length_overflow (Option.bind (checked_add_usize total_units backslashes)
          (\<lambda>v. checked_add_usize v 1))) (\<lambda>t. quoted_units_loop us t 0))"

definition quoted_units :: "wide \<Rightarrow> IoError + usize" where
  "quoted_units units = (if \<not> needs_quotes units then Inr (length units) else quoted_units_loop units 1 0)"

fun append_quoted_loop :: "wide \<Rightarrow> usize \<Rightarrow> wide \<Rightarrow> wide" where
  "append_quoted_loop [] backslashes output = output @ replicate (backslashes * 2) BACKSLASH @ [QUOTE]"
| "append_quoted_loop (u # us) backslashes output =
     (if u = BACKSLASH then append_quoted_loop us (backslashes + 1) output
      else if u = QUOTE
      then append_quoted_loop us 0 (output @ replicate (backslashes * 2 + 1) BACKSLASH @ [u])
      else append_quoted_loop us 0 (output @ replicate backslashes BACKSLASH @ [u]))"

definition append_quoted :: "wide \<Rightarrow> wide \<Rightarrow> wide" where
  "append_quoted output units =
     (if \<not> needs_quotes units then output @ units else append_quoted_loop units 0 (output @ [QUOTE]))"

subsection \<open>The command line\<close>

fun encode_all :: "wide list \<Rightarrow> usize \<Rightarrow> IoError + wide list" where
  "encode_all [] max_units = Inr []"
| "encode_all (v # vs) max_units =
     rbind (encode_units v max_units) (\<lambda>e. rbind (encode_all vs max_units) (\<lambda>es. Inr (e # es)))"

fun command_line_units :: "wide list \<Rightarrow> bool \<Rightarrow> usize \<Rightarrow> usize \<Rightarrow> IoError + usize" where
  "command_line_units [] first max_units total_units = Inr total_units"
| "command_line_units (item # items) first max_units total_units =
     rbind (if first then Inr total_units
            else ok_or (InvalidInput CommandLineLengthOverflow) (checked_add_usize total_units 1)) (\<lambda>t.
     rbind (quoted_units item) (\<lambda>n.
     rbind (ok_or (InvalidInput CommandLineLengthOverflow) (checked_add_usize t n)) (\<lambda>t'.
     if max_units < t' then Inl (InvalidInput CommandLineTooLong)
     else command_line_units items False max_units t')))"

fun emit_items :: "wide list \<Rightarrow> bool \<Rightarrow> wide \<Rightarrow> wide" where
  "emit_items [] first output = output"
| "emit_items (item # items) first output =
     emit_items items False (append_quoted (if first then output else output @ [SPACE]) item)"

definition build_command_line :: "wide \<Rightarrow> wide list \<Rightarrow> ProcessLaunchLimits \<Rightarrow> IoError + wide" where
  "build_command_line executable arguments limits =
     (if pll_arguments limits < length arguments
      then Inl (InvalidInput TooManyProcessArguments)
      else
        rbind (ok_or (InvalidInput ArgumentCountOverflow)
          (checked_add_usize (length arguments) 1)) (\<lambda>item_count.
        rbind (encode_all (executable # arguments) (pll_argument_units limits)) (\<lambda>encoded.
        rbind (command_line_units encoded True (pll_command_line_units limits) 1) (\<lambda>total_units.
        let command_line = emit_items encoded True [] @ [0] in
        if length command_line \<noteq> total_units
        then Inl (IoOther CommandLineSizingDisagreed)
        else Inr command_line))))"

subsection \<open>The environment block\<close>

record ProcessEnvironment =
  pe_block :: wide
  pe_variable_count :: usize

definition process_environment_empty :: ProcessEnvironment where
  "process_environment_empty = \<lparr>pe_block = [0, 0], pe_variable_count = 0\<rparr>"

definition is_ascii_uppercase_byte :: "char \<Rightarrow> bool" where
  "is_ascii_uppercase_byte c \<longleftrightarrow> of_char c \<ge> (65 :: nat) \<and> of_char c \<le> (90 :: nat)"

definition is_ascii_digit_byte :: "char \<Rightarrow> bool" where
  "is_ascii_digit_byte c \<longleftrightarrow> of_char c \<ge> (48 :: nat) \<and> of_char c \<le> (57 :: nat)"

definition environment_name_ok :: "string \<Rightarrow> bool" where
  "environment_name_ok name \<longleftrightarrow> name \<noteq> [] \<and> length name \<le> MAX_ENVIRONMENT_NAME_BYTES \<and>
     list_all (\<lambda>(index, b). is_ascii_uppercase_byte b \<or> b = CHR ''_'' \<or> index \<noteq> 0 \<and> is_ascii_digit_byte b)
       (enumerate 0 name)"

fun environment_collect ::
    "(wide \<times> wide) list \<Rightarrow> (string \<times> wide) list \<Rightarrow> IoError + (string \<times> wide) list" where
  "environment_collect [] canonical = Inr canonical"
| "environment_collect ((name, v) # variables) canonical =
     (if length canonical = MAX_ENVIRONMENT_VARIABLES
      then Inl (InvalidInput TooManyVariables)
      else
        rbind (ok_or (InvalidInput NameNotUnicode) (os_to_str name)) (\<lambda>name.
        if \<not> environment_name_ok name
        then Inl (InvalidInput NameNotCanonical)
        else
          rbind (encode_units v MAX_ENVIRONMENT_VALUE_UNITS) (\<lambda>units.
          if list_ex (\<lambda>u. u < SPACE \<or> u = 0x7F) units
          then Inl (InvalidInput ValueControlCharacter)
          else if bt_get canonical name \<noteq> None
          then Inl (InvalidInput DuplicateVariable)
          else environment_collect variables (bt_insert name units canonical))))"

fun environment_required :: "(string \<times> wide) list \<Rightarrow> usize \<Rightarrow> IoError + usize" where
  "environment_required [] required = Inr required"
| "environment_required ((name, v) # variables) required =
     rbind (ok_or (InvalidInput EnvironmentLengthOverflow)
       (Option.bind (checked_add_usize required (length name)) (\<lambda>u.
        Option.bind (checked_add_usize u 1) (\<lambda>u.
        Option.bind (checked_add_usize u (length v)) (\<lambda>u. checked_add_usize u 1))))) (\<lambda>r.
     environment_required variables r)"

definition environment_entry :: "string \<times> wide \<Rightarrow> wide" where
  "environment_entry p = map (ucast \<circ> char_byte) (fst p) @ [0x3D] @ snd p @ [0]"

definition encode_environment_block :: "(string \<times> wide) list \<Rightarrow> IoError + ProcessEnvironment" where
  "encode_environment_block variables =
     (if variables = [] then Inr process_environment_empty
      else
        rbind (environment_required variables 1) (\<lambda>required.
        if WINDOWS_ENVIRONMENT_MAX_UNITS < required
        then Inl (InvalidInput EnvironmentTooLong)
        else
          let block = concat (map environment_entry variables) @ [0] in
          if length block \<noteq> required
          then Inl (IoOther EnvironmentSizingDisagreed)
          else Inr \<lparr>pe_block = block, pe_variable_count = length variables\<rparr>))"

definition process_environment_new :: "(wide \<times> wide) list \<Rightarrow> IoError + ProcessEnvironment" where
  "process_environment_new variables = rbind (environment_collect variables []) encode_environment_block"

subsection \<open>Prepared launches\<close>

record WinPath =
  wp_text :: wide
  wp_parent :: "wide option"

record 'id LockedExecutable =
  le_path :: WinPath
  le_identity :: 'id
  le_lock_instance_id :: u64

record 'id PreparedProcessLaunch =
  pp_executable_path :: WinPath
  pp_executable_identity :: 'id
  pp_lock_instance_id :: u64
  pp_application :: wide
  pp_current_directory :: wide
  pp_command_line :: wide
  pp_environment :: wide

definition prepare_launch_with_environment ::
    "'id LockedExecutable \<Rightarrow> wide list \<Rightarrow> ProcessLaunchLimits \<Rightarrow> ProcessEnvironment \<Rightarrow>
     IoError + 'id PreparedProcessLaunch" where
  "prepare_launch_with_environment self arguments limits environment =
     rbind (encode_nul_terminated (wp_text (le_path self)) (pll_argument_units limits)) (\<lambda>application.
     rbind (ok_or (InvalidInput NoAbsoluteParent) (wp_parent (le_path self)))
       (\<lambda>current_directory_path.
     rbind (encode_nul_terminated current_directory_path (pll_argument_units limits)) (\<lambda>current_directory.
     rbind (build_command_line (wp_text (le_path self)) arguments limits) (\<lambda>command_line.
     Inr \<lparr>pp_executable_path = le_path self, pp_executable_identity = le_identity self,
          pp_lock_instance_id = le_lock_instance_id self, pp_application = application,
          pp_current_directory = current_directory, pp_command_line = command_line,
          pp_environment = pe_block environment\<rparr>))))"

definition prepare_launch ::
    "'id LockedExecutable \<Rightarrow> wide list \<Rightarrow> ProcessLaunchLimits \<Rightarrow> IoError + 'id PreparedProcessLaunch" where
  "prepare_launch self arguments limits =
     prepare_launch_with_environment self arguments limits process_environment_empty"

definition launch_prepared ::
    "('id LockedExecutable \<Rightarrow> 'id PreparedProcessLaunch \<Rightarrow> IoError + 'p) \<Rightarrow>
     'id LockedExecutable \<Rightarrow> 'id PreparedProcessLaunch \<Rightarrow> IoError + 'p" where
  "launch_prepared create_process executable prepared =
     (if le_path executable \<noteq> pp_executable_path prepared \<or>
         le_identity executable \<noteq> pp_executable_identity prepared \<or>
         le_lock_instance_id executable \<noteq> pp_lock_instance_id prepared
      then Inl (InvalidInput PreparedLaunchMismatch)
      else create_process executable prepared)"

end
