(* ===== verification/Execution_Authorization.thy ===== *)
theory Execution_Authorization
  imports Execution_Targets Windows_Launch
begin

section \<open>Live execution authorization\<close>

text \<open>
  \<open>weregopher-transform/src/execution_authorization.rs\<close>: local policies with their pinned
  identities, the policy store with its generations, the authorization decision, and the
  launch boundary that consumes an authorization.

  The store is shared between threads. \<open>authorize_execution\<close> reads it twice, so it takes the
  store at its snapshot and the store at its re-check; \<open>launch_authorized_execution\<close> takes the
  store at the launch, or \<open>None\<close> when the issuing store was dropped. A poisoned lock is the
  flag \<open>st_poisoned\<close>. Whether a retained view is still current is what the file system says at
  that moment: the parameter \<open>verify_current\<close>. The codecs collect the other parameters:
  SHA-256, hexadecimal text, and the JSON encodings of the three hashed documents.
\<close>

record 'je ExecutionCodecs =
  ec_sha256 :: "bytes \<Rightarrow> Sha256Digest"
  ec_hex :: "bytes \<Rightarrow> string"
  ec_contract :: "ExecutionTargetContract \<Rightarrow> 'je + bytes"
  ec_resolution :: "ExecutionResolutionEvidence \<Rightarrow> 'je + bytes"
  ec_analysis :: "CompatibilityAnalysis \<Rightarrow> 'je + bytes"

definition WINDOWS_MAX_COMMAND_LINE_UNITS :: usize where "WINDOWS_MAX_COMMAND_LINE_UNITS = 32767"
definition WINDOWS_MAX_SINGLE_VALUE_UNITS :: usize where "WINDOWS_MAX_SINGLE_VALUE_UNITS = 32766"
definition MAX_EXECUTION_POLICY_EVIDENCE_BYTES :: usize where
  "MAX_EXECUTION_POLICY_EVIDENCE_BYTES = 1024 * 1024"
definition MAX_TOTAL_EXECUTION_POLICY_EVIDENCE_BYTES :: usize where
  "MAX_TOTAL_EXECUTION_POLICY_EVIDENCE_BYTES = 4 * 1024 * 1024"

datatype ExecutionAuthorizationError =
    EaInvalidLimits
  | EaEvidenceLimitsExceedImplementationMaximum
  | EaEvidenceByteLimitExceeded
  | EaEvidenceByteCountOverflow
  | EaAggregateEvidenceByteLimitExceeded
  | EaUnsupportedTrustMode
  | EaUnsupportedSecurityPosture
  | EaUnsupportedLaunchSemantics
  | EaUnsupportedStateMode
  | EaUnsupportedDependencyPolicy
  | EaUnrepresentableLaunch
  | EaUnrepresentableResourceLimits
  | EaDeveloperModeRequiresDisposableState
  | EaPolicyStorePoisoned
  | EaPolicyGenerationExhausted
  | EaPolicyStoreUnavailable
  | EaPolicyRevoked
  | EaPolicyChanged
  | EaAuthorityIdentityMismatch
  | EaAuthorityDigestMismatch
  | EaSourceBuildContextMismatch
  | EaPackageTreeContextMismatch
  | EaExecutionEnvironmentContextMismatch
  | EaBuildDescriptorContextMismatch
  | EaTargetPolicyMismatch
  | EaUnknownTarget
  | EaTargetContractDigestMismatch
  | EaTargetKindMismatch
  | EaArtifactSourceMismatch
  | EaResolutionEvidenceDigestMismatch
  | EaResolutionTargetMismatch
  | EaResolutionLocatorMismatch
  | EaResolutionContractMismatch
  | EaResolutionArtifactSourceMismatch
  | EaResolutionExecutableMismatch
  | EaArtifactTrustEvidenceMismatch
  | EaProvenanceEvidenceMismatch
  | EaCompatibilityDigestMismatch
  | EaCompatibilityDenied
  | EaCompatibilitySourceMismatch
  | EaCompatibilityEnvironmentMismatch
  | EaCapabilityPolicyMismatch
  | EaStatePolicyMismatch
  | EaUserPolicyMismatch
  | EaSecurityPostureMismatch
  | EaStateModeMismatch
  | EaRetainedArtifactSourceMismatch
  | EaRetainedArtifactLocatorMismatch
  | EaRetainedArtifactSourceDigestMismatch
  | EaRetainedExecutableDigestMismatch
  | EaRetainedArtifactCurrentViewInvalid
  | EaCanonicalSerializationFailed
  | EaAuthorizationContextEncodingFailed

subsection \<open>Policies\<close>

datatype TrustMode = RegistryTrusted | LocallyTrusted | Developer | ForensicOverride

record ExecutionAuthorityPins =
  ap_adapter_id :: AdapterId
  ap_family :: ApplicationFamilyId
  ap_adapter_content_digest :: Sha256Digest
  ap_authority_document_digest :: Sha256Digest

record ExecutionContextPins =
  cp_source_build_fingerprint_digest :: Sha256Digest
  cp_package_tree_merkle :: Sha256Digest
  cp_execution_environment_digest :: Sha256Digest
  cp_build_descriptor_digest :: Sha256Digest

record ExecutionTargetPins =
  tp_target_id :: ExecutionTargetId
  tp_target_contract_digest :: ExecutionContractDigest
  tp_resolution_evidence_digest :: ExecutionResolutionEvidenceDigest
  tp_artifact_trust_evidence_digest :: ArtifactTrustEvidenceDigest
  tp_provenance_evidence_digest :: ProvenanceEvidenceDigest
  tp_compatibility_analysis_digest :: Sha256Digest
  tp_capability_policy_digest :: CapabilityPolicyDigest
  tp_state_policy_digest :: StatePolicyDigest
  tp_user_policy_digest :: UserPolicyDigest
  tp_security_posture :: EffectiveSecurityPosture
  tp_state_mode :: ExecutionStateMode

record LocalExecutionPolicy =
  lx_trust_mode :: TrustMode
  lx_authority :: ExecutionAuthorityPins
  lx_context :: ExecutionContextPins
  lx_target :: ExecutionTargetPins
  lx_revision_digest :: Sha256Digest

definition local_execution_policy_new ::
    "TrustMode \<Rightarrow> ExecutionAuthorityPins \<Rightarrow> ExecutionContextPins \<Rightarrow> ExecutionTargetPins \<Rightarrow> Sha256Digest \<Rightarrow>
     ExecutionAuthorizationError + LocalExecutionPolicy" where
  "local_execution_policy_new trust_mode authority context target revision_digest =
     (if tp_security_posture target \<noteq> EffectiveVendorEquivalentFullTrust
      then Inl EaUnsupportedSecurityPosture
      else
        rbind (case trust_mode of
            LocallyTrusted \<Rightarrow> Inr ()
          | Developer \<Rightarrow> if tp_state_mode target = Disposable then Inr ()
              else Inl EaDeveloperModeRequiresDisposableState
          | RegistryTrusted \<Rightarrow> Inl EaUnsupportedTrustMode
          | ForensicOverride \<Rightarrow> Inl EaUnsupportedTrustMode) (\<lambda>_.
        Inr \<lparr>lx_trust_mode = trust_mode, lx_authority = authority, lx_context = context,
             lx_target = target, lx_revision_digest = revision_digest\<rparr>))"

subsection \<open>The policy store\<close>

record ExecutionPolicyState =
  ps_generation :: u64
  ps_policy :: LocalExecutionPolicy
  ps_revocation_evidence_digest :: "Sha256Digest option"

record LocalExecutionPolicyStore =
  st_state :: ExecutionPolicyState
  st_poisoned :: bool

definition policy_store_new :: "LocalExecutionPolicy \<Rightarrow> LocalExecutionPolicyStore" where
  "policy_store_new policy =
     \<lparr>st_state = \<lparr>ps_generation = 1, ps_policy = policy, ps_revocation_evidence_digest = None\<rparr>,
      st_poisoned = False\<rparr>"

definition store_replace_policy ::
    "LocalExecutionPolicyStore \<Rightarrow> LocalExecutionPolicy \<Rightarrow>
     (ExecutionAuthorizationError + unit) \<times> LocalExecutionPolicyStore" where
  "store_replace_policy self policy =
     (if st_poisoned self then (Inl EaPolicyStorePoisoned, self)
      else case checked_add (ps_generation (st_state self)) 1 of
          None \<Rightarrow> (Inl EaPolicyGenerationExhausted, self)
        | Some generation \<Rightarrow>
            (Inr (), self\<lparr>st_state := \<lparr>ps_generation = generation, ps_policy = policy,
               ps_revocation_evidence_digest = None\<rparr>\<rparr>))"

definition store_revoke ::
    "LocalExecutionPolicyStore \<Rightarrow> Sha256Digest \<Rightarrow>
     (ExecutionAuthorizationError + unit) \<times> LocalExecutionPolicyStore" where
  "store_revoke self evidence =
     (if st_poisoned self then (Inl EaPolicyStorePoisoned, self)
      else case checked_add (ps_generation (st_state self)) 1 of
          None \<Rightarrow> (Inl EaPolicyGenerationExhausted, self)
        | Some generation \<Rightarrow>
            (Inr (), self\<lparr>st_state := (st_state self)\<lparr>ps_generation := generation,
               ps_revocation_evidence_digest := Some evidence\<rparr>\<rparr>))"

definition store_snapshot :: "LocalExecutionPolicyStore \<Rightarrow> ExecutionAuthorizationError + ExecutionPolicyState" where
  "store_snapshot self = (if st_poisoned self then Inl EaPolicyStorePoisoned else Inr (st_state self))"

definition verify_policy_state :: "ExecutionPolicyState \<Rightarrow> u64 \<Rightarrow> ExecutionAuthorizationError + unit" where
  "verify_policy_state state expected_generation =
     (if ps_revocation_evidence_digest state \<noteq> None then Inl EaPolicyRevoked
      else if ps_generation state \<noteq> expected_generation then Inl EaPolicyChanged
      else Inr ())"

definition verify_policy_generation ::
    "LocalExecutionPolicyStore \<Rightarrow> u64 \<Rightarrow> ExecutionAuthorizationError + unit" where
  "verify_policy_generation store generation =
     (if st_poisoned store then Inl EaPolicyStorePoisoned
      else if ps_revocation_evidence_digest (st_state store) \<noteq> None then Inl EaPolicyRevoked
      else if ps_generation (st_state store) \<noteq> generation then Inl EaPolicyChanged
      else Inr ())"

subsection \<open>Evidence\<close>

record ExecutionAuthorizationLimits =
  al_max_evidence_bytes :: usize
  al_max_total_evidence_bytes :: usize

definition authorization_limits_new ::
    "usize \<Rightarrow> usize \<Rightarrow> ExecutionAuthorizationError + ExecutionAuthorizationLimits" where
  "authorization_limits_new max_evidence_bytes max_total_evidence_bytes =
     (if max_evidence_bytes = 0 \<or> max_total_evidence_bytes = 0 then Inl EaInvalidLimits
      else if MAX_EXECUTION_POLICY_EVIDENCE_BYTES < max_evidence_bytes \<or>
        MAX_TOTAL_EXECUTION_POLICY_EVIDENCE_BYTES < max_total_evidence_bytes
      then Inl EaEvidenceLimitsExceedImplementationMaximum
      else Inr \<lparr>al_max_evidence_bytes = max_evidence_bytes, al_max_total_evidence_bytes = max_total_evidence_bytes\<rparr>)"

record ExecutionPolicyEvidence =
  pe_artifact_trust :: bytes
  pe_provenance :: bytes
  pe_capability_policy :: bytes
  pe_state_policy :: bytes
  pe_user_policy :: bytes

record PolicyEvidenceDigests =
  pd_artifact_trust :: ArtifactTrustEvidenceDigest
  pd_provenance :: ProvenanceEvidenceDigest
  pd_capability_policy :: CapabilityPolicyDigest
  pd_state_policy :: StatePolicyDigest
  pd_user_policy :: UserPolicyDigest

fun evidence_total :: "ExecutionAuthorizationLimits \<Rightarrow> bytes list \<Rightarrow> usize \<Rightarrow> ExecutionAuthorizationError + usize" where
  "evidence_total limits [] total_bytes = Inr total_bytes"
| "evidence_total limits (v # vs) total_bytes =
     (if al_max_evidence_bytes limits < length v then Inl EaEvidenceByteLimitExceeded
      else rbind (ok_or EaEvidenceByteCountOverflow (checked_add_usize total_bytes (length v))) (\<lambda>total_bytes.
        if al_max_total_evidence_bytes limits < total_bytes then Inl EaAggregateEvidenceByteLimitExceeded
        else evidence_total limits vs total_bytes))"

definition hash_policy_evidence ::
    "(bytes \<Rightarrow> Sha256Digest) \<Rightarrow> ExecutionPolicyEvidence \<Rightarrow> ExecutionAuthorizationLimits \<Rightarrow>
     ExecutionAuthorizationError + PolicyEvidenceDigests" where
  "hash_policy_evidence sha256 evidence limits =
     rbind (evidence_total limits [pe_artifact_trust evidence, pe_provenance evidence,
       pe_capability_policy evidence, pe_state_policy evidence, pe_user_policy evidence] 0) (\<lambda>_.
     Inr \<lparr>pd_artifact_trust = sha256 (pe_artifact_trust evidence), pd_provenance = sha256 (pe_provenance evidence),
          pd_capability_policy = sha256 (pe_capability_policy evidence),
          pd_state_policy = sha256 (pe_state_policy evidence), pd_user_policy = sha256 (pe_user_policy evidence)\<rparr>)"

subsection \<open>Retained artifacts\<close>

record 'id PackageSnapshotExecutable =
  px_normalized_path :: string
  px_digest :: Sha256Digest
  px_package_tree_merkle :: Sha256Digest
  px_locked :: "'id LockedExecutable"

record 'id ManagedArtifactExecutable =
  mx_digest :: Sha256Digest
  mx_manifest_digest :: Sha256Digest
  mx_locked :: "'id LockedExecutable"

datatype 'id RetainedExecutionArtifact =
    RetainedPackageSnapshot "'id PackageSnapshotExecutable"
  | RetainedManagedArtifact "'id ManagedArtifactExecutable"

fun artifact_source :: "'id RetainedExecutionArtifact \<Rightarrow> ExecutionArtifactSource" where
  "artifact_source (RetainedPackageSnapshot e) = SourcePackageSnapshot"
| "artifact_source (RetainedManagedArtifact e) = SourceManagedArtifact"

fun artifact_source_digest :: "'id RetainedExecutionArtifact \<Rightarrow> Sha256Digest" where
  "artifact_source_digest (RetainedPackageSnapshot e) = px_package_tree_merkle e"
| "artifact_source_digest (RetainedManagedArtifact e) = mx_manifest_digest e"

fun artifact_executable_digest :: "'id RetainedExecutionArtifact \<Rightarrow> Sha256Digest" where
  "artifact_executable_digest (RetainedPackageSnapshot e) = px_digest e"
| "artifact_executable_digest (RetainedManagedArtifact e) = mx_digest e"

fun matches_locator :: "'id RetainedExecutionArtifact \<Rightarrow> ExecutionArtifactLocator \<Rightarrow> bool" where
  "matches_locator (RetainedPackageSnapshot e) (PackageSnapshotLocator p) =
     (case locator_package_path (PackageSnapshotLocator p) of Some path \<Rightarrow> path = px_normalized_path e | None \<Rightarrow> False)"
| "matches_locator (RetainedManagedArtifact e) (ManagedArtifactLocator d) =
     (case locator_managed_digest (ManagedArtifactLocator d) of Some m \<Rightarrow> m = mx_digest e | None \<Rightarrow> False)"
| "matches_locator _ _ = False"

fun artifact_locked :: "'id RetainedExecutionArtifact \<Rightarrow> 'id LockedExecutable" where
  "artifact_locked (RetainedPackageSnapshot e) = px_locked e"
| "artifact_locked (RetainedManagedArtifact e) = mx_locked e"

definition artifact_verify_current ::
    "('id RetainedExecutionArtifact \<Rightarrow> bool) \<Rightarrow> 'id RetainedExecutionArtifact \<Rightarrow> ExecutionAuthorizationError + unit" where
  "artifact_verify_current verify_current artifact =
     (if verify_current artifact then Inr () else Inl EaRetainedArtifactCurrentViewInvalid)"

definition artifact_prepare_launch ::
    "'id RetainedExecutionArtifact \<Rightarrow> wide list \<Rightarrow> ProcessLaunchLimits \<Rightarrow> IoError + 'id PreparedProcessLaunch" where
  "artifact_prepare_launch artifact arguments limits = prepare_launch (artifact_locked artifact) arguments limits"

record 'id PreparedAuthorizedLaunch =
  al_job_limits :: JobLimits
  al_process :: "'id PreparedProcessLaunch"

definition prepare_authorized_launch ::
    "'id RetainedExecutionArtifact \<Rightarrow> ExecutionLaunchPolicy \<Rightarrow>
     ExecutionAuthorizationError + 'id PreparedAuthorizedLaunch" where
  "prepare_authorized_launch artifact launch_policy =
     (if lp_dependency_policy launch_policy \<noteq> VendorDefaultAmbient then Inl EaUnsupportedDependencyPolicy
      else if lp_state_mode launch_policy \<noteq> VendorDefault then Inl EaUnsupportedStateMode
      else if lp_environment launch_policy \<noteq> EmptyEnvironment \<or>
        lp_inherited_handles launch_policy \<noteq> NoInheritedHandles \<or> lp_console launch_policy \<noteq> NoConsole \<or>
        lp_working_directory launch_policy \<noteq> ExecutableParent
      then Inl EaUnsupportedLaunchSemantics
      else
        rbind (map_err (\<lambda>_. EaUnrepresentableLaunch)
          (process_launch_limits_new MAX_EXECUTION_ARGUMENTS WINDOWS_MAX_SINGLE_VALUE_UNITS
            WINDOWS_MAX_COMMAND_LINE_UNITS)) (\<lambda>process_limits.
        rbind (map_err (\<lambda>_. EaUnrepresentableLaunch)
          (artifact_prepare_launch artifact (map wide_of_str (lp_arguments launch_policy)) process_limits)) (\<lambda>process.
        rbind (map_err (\<lambda>_. EaUnrepresentableResourceLimits)
          (job_limits_new (rl_active_process_limit (lp_resource_limits launch_policy))
            (rl_process_memory_limit_bytes (lp_resource_limits launch_policy))
            (rl_job_memory_limit_bytes (lp_resource_limits launch_policy)))) (\<lambda>job_limits.
        Inr \<lparr>al_job_limits = job_limits, al_process = process\<rparr>))))"

subsection \<open>The decision\<close>

record ValidatedExecutionBindings =
  vb_authority_digest :: Sha256Digest
  vb_target_id :: ExecutionTargetId
  vb_contract_digest :: ExecutionContractDigest
  vb_resolution_digest :: ExecutionResolutionEvidenceDigest
  vb_artifact_source :: ExecutionArtifactSource
  vb_artifact_source_digest :: ExecutionArtifactSourceDigest
  vb_executable_digest :: ExecutableDigest

definition validate_execution_bindings ::
    "'je ExecutionCodecs \<Rightarrow> LocalExecutionPolicy \<Rightarrow> StructurallyValidatedExecutionOverlay \<Rightarrow>
     ExecutionTargetContract \<Rightarrow> ExecutionResolutionEvidence \<Rightarrow>
     ExecutionAuthorizationError + ValidatedExecutionBindings" where
  "validate_execution_bindings codecs policy proof target_contract resolution =
     (let authority = sv_authority proof; overlay_context = ov_binding (sv_overlay proof);
          authority_pins = lx_authority policy; context = lx_context policy; target = lx_target policy in
      if ax_adapter_id authority \<noteq> ap_adapter_id authority_pins \<or> ax_family authority \<noteq> ap_family authority_pins \<or>
        ax_adapter_content_digest authority \<noteq> ap_adapter_content_digest authority_pins
      then Inl EaAuthorityIdentityMismatch
      else
        let authority_digest = authority_document_digest (ec_sha256 codecs) (ec_hex codecs) authority in
        if authority_digest \<noteq> ap_authority_document_digest authority_pins then Inl EaAuthorityDigestMismatch
        else if ob_source_build_fingerprint_digest overlay_context \<noteq> cp_source_build_fingerprint_digest context
        then Inl EaSourceBuildContextMismatch
        else if ob_package_tree_merkle overlay_context \<noteq> cp_package_tree_merkle context
        then Inl EaPackageTreeContextMismatch
        else if ob_execution_environment_digest overlay_context \<noteq> cp_execution_environment_digest context
        then Inl EaExecutionEnvironmentContextMismatch
        else if ob_build_descriptor_digest overlay_context \<noteq> cp_build_descriptor_digest context
        then Inl EaBuildDescriptorContextMismatch
        else if tc_target_id target_contract \<noteq> tp_target_id target then Inl EaTargetPolicyMismatch
        else
          rbind (ok_or EaUnknownTarget (bt_get (ax_targets authority) (tc_target_id target_contract))) (\<lambda>static_target.
          rbind (ok_or EaUnknownTarget (bt_get (ov_bindings (sv_overlay proof)) (tc_target_id target_contract)))
            (\<lambda>generated_binding.
          rbind (map_err (\<lambda>_. EaCanonicalSerializationFailed)
            (document_digest (ec_sha256 codecs) (ec_contract codecs) target_contract)) (\<lambda>contract_digest.
          if contract_digest \<noteq> tp_target_contract_digest target \<or>
            at_execution_contract_digest static_target \<noteq> contract_digest \<or>
            xb_execution_contract generated_binding \<noteq> contract_digest
          then Inl EaTargetContractDigestMismatch
          else if tc_kind target_contract \<noteq> at_kind static_target then Inl EaTargetKindMismatch
          else if locator_artifact_source (tc_artifact_locator target_contract) \<noteq> at_artifact_source static_target
          then Inl EaArtifactSourceMismatch
          else
            rbind (map_err (\<lambda>_. EaCanonicalSerializationFailed)
              (document_digest (ec_sha256 codecs) (ec_resolution codecs) resolution)) (\<lambda>resolution_digest.
            if resolution_digest \<noteq> tp_resolution_evidence_digest target \<or>
              xb_resolution_evidence generated_binding \<noteq> resolution_digest
            then Inl EaResolutionEvidenceDigestMismatch
            else if re_target_id resolution \<noteq> tc_target_id target_contract then Inl EaResolutionTargetMismatch
            else if re_artifact_locator resolution \<noteq> tc_artifact_locator target_contract
            then Inl EaResolutionLocatorMismatch
            else if rd_execution_contract_digest (re_digests resolution) \<noteq> contract_digest
            then Inl EaResolutionContractMismatch
            else if xb_artifact_source generated_binding \<noteq> rd_artifact_source_digest (re_digests resolution)
            then Inl EaResolutionArtifactSourceMismatch
            else if xb_executable generated_binding \<noteq> rd_executable_digest (re_digests resolution)
            then Inl EaResolutionExecutableMismatch
            else Inr \<lparr>vb_authority_digest = authority_digest, vb_target_id = tc_target_id target_contract,
                   vb_contract_digest = contract_digest, vb_resolution_digest = resolution_digest,
                   vb_artifact_source = at_artifact_source static_target,
                   vb_artifact_source_digest = rd_artifact_source_digest (re_digests resolution),
                   vb_executable_digest = rd_executable_digest (re_digests resolution)\<rparr>)))))"

definition validate_policy_evidence ::
    "'je ExecutionCodecs \<Rightarrow> LocalExecutionPolicy \<Rightarrow> GeneratedExecutionOverlay \<Rightarrow> ExecutionResolutionEvidence \<Rightarrow>
     CompatibilityAnalysis \<Rightarrow> ExecutionLaunchPolicy \<Rightarrow> ExecutionPolicyEvidence \<Rightarrow> ExecutionAuthorizationLimits \<Rightarrow>
     ExecutionAuthorizationError + PolicyEvidenceDigests \<times> Sha256Digest" where
  "validate_policy_evidence codecs policy overlay resolution compatibility launch_policy evidence limits =
     rbind (hash_policy_evidence (ec_sha256 codecs) evidence limits) (\<lambda>evidence_digests.
     let target = lx_target policy; resolution_digests = re_digests resolution;
         required = lp_policy_requirements launch_policy in
     if pd_artifact_trust evidence_digests \<noteq> rd_artifact_trust_evidence_digest resolution_digests \<or>
       pd_artifact_trust evidence_digests \<noteq> tp_artifact_trust_evidence_digest target
     then Inl EaArtifactTrustEvidenceMismatch
     else if pd_provenance evidence_digests \<noteq> rd_provenance_evidence_digest resolution_digests \<or>
       pd_provenance evidence_digests \<noteq> tp_provenance_evidence_digest target
     then Inl EaProvenanceEvidenceMismatch
     else
       rbind (map_err (\<lambda>_. EaCanonicalSerializationFailed)
         (document_digest (ec_sha256 codecs) (ec_analysis codecs) compatibility)) (\<lambda>compatibility_digest.
       if compatibility_digest \<noteq> tp_compatibility_analysis_digest target then Inl EaCompatibilityDigestMismatch
       else if disposition compatibility \<noteq> Complete then Inl EaCompatibilityDenied
       else if ca_source_build_fingerprint_digest compatibility \<noteq>
         ob_source_build_fingerprint_digest (ov_binding overlay)
       then Inl EaCompatibilitySourceMismatch
       else if ct_execution_environment_digest (ca_target compatibility) \<noteq>
         ob_execution_environment_digest (ov_binding overlay)
       then Inl EaCompatibilityEnvironmentMismatch
       else if pd_capability_policy evidence_digests \<noteq> pr_capability_policy_digest required \<or>
         pd_capability_policy evidence_digests \<noteq> tp_capability_policy_digest target
       then Inl EaCapabilityPolicyMismatch
       else if pd_state_policy evidence_digests \<noteq> pr_state_policy_digest required \<or>
         pd_state_policy evidence_digests \<noteq> tp_state_policy_digest target
       then Inl EaStatePolicyMismatch
       else if pd_user_policy evidence_digests \<noteq> tp_user_policy_digest target then Inl EaUserPolicyMismatch
       else if \<not> is_satisfied_by (lp_required_security_posture launch_policy) (tp_security_posture target)
       then Inl EaSecurityPostureMismatch
       else if lp_state_mode launch_policy \<noteq> tp_state_mode target then Inl EaStateModeMismatch
       else Inr (evidence_digests, compatibility_digest)))"

record AuthorizationContextDigests =
  cx_authority_document :: Sha256Digest
  cx_target_contract :: ExecutionContractDigest
  cx_resolution_evidence :: ExecutionResolutionEvidenceDigest
  cx_artifact_source :: ExecutionArtifactSourceDigest
  cx_executable :: ExecutableDigest
  cx_compatibility_analysis :: Sha256Digest
  cx_policy_evidence :: PolicyEvidenceDigests

fun trust_mode_byte :: "TrustMode \<Rightarrow> u8" where
  "trust_mode_byte RegistryTrusted = 0"
| "trust_mode_byte LocallyTrusted = 1"
| "trust_mode_byte Developer = 2"
| "trust_mode_byte ForensicOverride = 3"

definition authorization_context_preimage ::
    "ExecutionTargetId \<Rightarrow> AuthorizationContextDigests \<Rightarrow> LocalExecutionPolicy \<Rightarrow> u64 \<Rightarrow> bytes" where
  "authorization_context_preimage target_id digests policy generation =
     str_bytes ''weregopher-live-execution-authorization-v1'' @ [0] @
     to_le 8 (length target_id) @ str_bytes target_id @
     cx_authority_document digests @ cp_source_build_fingerprint_digest (lx_context policy) @
     cp_package_tree_merkle (lx_context policy) @ cp_execution_environment_digest (lx_context policy) @
     cp_build_descriptor_digest (lx_context policy) @
     cx_target_contract digests @ cx_resolution_evidence digests @ cx_artifact_source digests @
     cx_executable digests @ cx_compatibility_analysis digests @
     pd_artifact_trust (cx_policy_evidence digests) @ pd_provenance (cx_policy_evidence digests) @
     pd_capability_policy (cx_policy_evidence digests) @ pd_state_policy (cx_policy_evidence digests) @
     pd_user_policy (cx_policy_evidence digests) @
     lx_revision_digest policy @ to_le 8 (unat generation) @ [trust_mode_byte (lx_trust_mode policy)]"

definition authorization_context_digest ::
    "(bytes \<Rightarrow> Sha256Digest) \<Rightarrow> ExecutionTargetId \<Rightarrow> AuthorizationContextDigests \<Rightarrow> LocalExecutionPolicy \<Rightarrow> u64 \<Rightarrow>
     ExecutionAuthorizationError + AuthorizationContextDigest" where
  "authorization_context_digest sha256 target_id digests policy generation =
     (if 2 ^ 64 \<le> length target_id then Inl EaAuthorizationContextEncodingFailed
      else Inr (sha256 (authorization_context_preimage target_id digests policy generation)))"

record 'id ExecutionAuthorizationRequest =
  rq_structural_overlay :: StructurallyValidatedExecutionOverlay
  rq_target_contract :: ExecutionTargetContract
  rq_resolution_evidence :: ExecutionResolutionEvidence
  rq_compatibility_analysis :: CompatibilityAnalysis
  rq_policy_evidence :: ExecutionPolicyEvidence
  rq_retained_artifact :: "'id RetainedExecutionArtifact"
  rq_limits :: ExecutionAuthorizationLimits

record 'id AuthorizedExecution =
  ae_target_id :: ExecutionTargetId
  ae_trust_mode :: TrustMode
  ae_effective_security_posture :: EffectiveSecurityPosture
  ae_launch_policy :: ExecutionLaunchPolicy
  ae_authorization_context_digest :: AuthorizationContextDigest
  ae_policy_generation :: u64
  ae_prepared_launch :: "'id PreparedAuthorizedLaunch"
  ae_retained_artifact :: "'id RetainedExecutionArtifact"

definition check_retained_artifact ::
    "ValidatedExecutionBindings \<Rightarrow> ExecutionTargetContract \<Rightarrow> 'id RetainedExecutionArtifact \<Rightarrow>
     ExecutionAuthorizationError + unit" where
  "check_retained_artifact bindings target_contract artifact =
     (if artifact_source artifact \<noteq> vb_artifact_source bindings then Inl EaRetainedArtifactSourceMismatch
      else if \<not> matches_locator artifact (tc_artifact_locator target_contract)
      then Inl EaRetainedArtifactLocatorMismatch
      else if artifact_source_digest artifact \<noteq> vb_artifact_source_digest bindings
      then Inl EaRetainedArtifactSourceDigestMismatch
      else if artifact_executable_digest artifact \<noteq> vb_executable_digest bindings
      then Inl EaRetainedExecutableDigestMismatch
      else Inr ())"

definition authorize_execution ::
    "'je ExecutionCodecs \<Rightarrow> ('id RetainedExecutionArtifact \<Rightarrow> bool) \<Rightarrow> LocalExecutionPolicyStore \<Rightarrow>
     LocalExecutionPolicyStore \<Rightarrow> 'id ExecutionAuthorizationRequest \<Rightarrow>
     ExecutionAuthorizationError + 'id AuthorizedExecution" where
  "authorize_execution codecs verify_current store store_at_recheck request =
     rbind (store_snapshot store) (\<lambda>snapshot.
     if ps_revocation_evidence_digest snapshot \<noteq> None then Inl EaPolicyRevoked
     else
       let policy = ps_policy snapshot; proof = rq_structural_overlay request;
           launch_policy = tc_launch_policy (rq_target_contract request);
           artifact = rq_retained_artifact request in
       rbind (validate_execution_bindings codecs policy proof (rq_target_contract request)
         (rq_resolution_evidence request)) (\<lambda>bindings.
       rbind (validate_policy_evidence codecs policy (sv_overlay proof) (rq_resolution_evidence request)
         (rq_compatibility_analysis request) launch_policy (rq_policy_evidence request) (rq_limits request))
         (\<lambda>(evidence_digests, compatibility_digest).
       rbind (check_retained_artifact bindings (rq_target_contract request) artifact) (\<lambda>_.
       rbind (prepare_authorized_launch artifact launch_policy) (\<lambda>prepared_launch.
       rbind (artifact_verify_current verify_current artifact) (\<lambda>_.
       rbind (verify_policy_generation store_at_recheck (ps_generation snapshot)) (\<lambda>_.
       rbind (authorization_context_digest (ec_sha256 codecs) (vb_target_id bindings)
         \<lparr>cx_authority_document = vb_authority_digest bindings,
          cx_target_contract = vb_contract_digest bindings,
          cx_resolution_evidence = vb_resolution_digest bindings,
          cx_artifact_source = artifact_source_digest artifact,
          cx_executable = artifact_executable_digest artifact,
          cx_compatibility_analysis = compatibility_digest,
          cx_policy_evidence = evidence_digests\<rparr> policy (ps_generation snapshot)) (\<lambda>context_digest.
       Inr \<lparr>ae_target_id = vb_target_id bindings, ae_trust_mode = lx_trust_mode policy,
            ae_effective_security_posture = tp_security_posture (lx_target policy),
            ae_launch_policy = launch_policy, ae_authorization_context_digest = context_digest,
            ae_policy_generation = ps_generation snapshot, ae_prepared_launch = prepared_launch,
            ae_retained_artifact = artifact\<rparr>))))))))"

subsection \<open>The launch boundary\<close>

definition verify_current_policy ::
    "LocalExecutionPolicyStore option \<Rightarrow> u64 \<Rightarrow> ExecutionAuthorizationError + unit" where
  "verify_current_policy policy_store policy_generation =
     rbind (ok_or EaPolicyStoreUnavailable policy_store) (\<lambda>store.
     rbind (store_snapshot store) (\<lambda>state.
     verify_policy_state state policy_generation))"

datatype SupervisedExecutionError =
    SupervisedAuthorization ExecutionAuthorizationError
  | SupervisedJobCreation IoError
  | SupervisedProcessLaunch IoError

record 'p SupervisedExecution =
  se_process :: 'p
  se_target_id :: ExecutionTargetId
  se_trust_mode :: TrustMode
  se_effective_security_posture :: EffectiveSecurityPosture
  se_launch_policy :: ExecutionLaunchPolicy
  se_authorization_context_digest :: AuthorizationContextDigest
  se_retained_source :: ExecutionArtifactSource
  se_policy_generation :: u64

definition launch_authorized_execution ::
    "(JobLimits \<Rightarrow> IoError + 'j) \<Rightarrow>
     ('j \<Rightarrow> 'id LockedExecutable \<Rightarrow> 'id PreparedProcessLaunch \<Rightarrow> IoError + 'p) \<Rightarrow>
     ('id RetainedExecutionArtifact \<Rightarrow> bool) \<Rightarrow> LocalExecutionPolicyStore option \<Rightarrow> 'id AuthorizedExecution \<Rightarrow>
     SupervisedExecutionError + 'p SupervisedExecution" where
  "launch_authorized_execution create_job create_process verify_current policy_store authorization =
     rbind (map_err SupervisedAuthorization
       (verify_current_policy policy_store (ae_policy_generation authorization))) (\<lambda>_.
     rbind (map_err SupervisedAuthorization
       (artifact_verify_current verify_current (ae_retained_artifact authorization))) (\<lambda>_.
     rbind (map_err SupervisedJobCreation (create_job (al_job_limits (ae_prepared_launch authorization)))) (\<lambda>job.
     rbind (map_err SupervisedProcessLaunch
       (launch_prepared (create_process job) (artifact_locked (ae_retained_artifact authorization))
         (al_process (ae_prepared_launch authorization)))) (\<lambda>process.
     Inr \<lparr>se_process = process, se_target_id = ae_target_id authorization,
          se_trust_mode = ae_trust_mode authorization,
          se_effective_security_posture = ae_effective_security_posture authorization,
          se_launch_policy = ae_launch_policy authorization,
          se_authorization_context_digest = ae_authorization_context_digest authorization,
          se_retained_source = artifact_source (ae_retained_artifact authorization),
          se_policy_generation = ae_policy_generation authorization\<rparr>))))"

end
