(* ===== verification/Execution_Documents.thy ===== *)
theory Execution_Documents
  imports Execution_Targets
begin

section \<open>Reading execution documents\<close>

text \<open>
  The \<open>Deserialize\<close> implementations of the execution documents and of \<open>Sha256Digest\<close>
  (\<open>weregopher-domain/src/digest.rs\<close>). A derived \<open>\<dots>Transport\<close> decoder is a parameter: its
  result \<open>raw\<close> holds the decoded fields, with identifiers and paths still as strings (their
  types convert with \<open>try_from\<close>) and maps and sequences still to be visited. \<open>custom\<close> turns a
  message into a deserializer error.
\<close>

subsection \<open>Digests\<close>

datatype Sha256DigestError =
    DigestMissingPrefix
  | DigestInvalidLength usize
  | DigestUppercaseHex
  | DigestInvalidHex

definition sha256_digest_from_str ::
    "(string \<Rightarrow> bytes option) \<Rightarrow> string \<Rightarrow> Sha256DigestError + Sha256Digest" where
  "sha256_digest_from_str hex_decode v =
     (if take 7 v \<noteq> ''sha256:'' then Inl DigestMissingPrefix
      else
        let hex_value = drop 7 v in
        if length hex_value \<noteq> 64 then Inl (DigestInvalidLength (length hex_value))
        else if list_ex (\<lambda>c. CHR ''A'' \<le> c \<and> c \<le> CHR ''Z'') hex_value then Inl DigestUppercaseHex
        else ok_or DigestInvalidHex (hex_decode hex_value))"

subsection \<open>Documents\<close>

datatype DocumentMessage =
    MsgIdentifier IdentifierError
  | MsgContract ExecutionContractError
  | MsgTarget ExecutionTargetContractError
  | MsgCompatibility CompatibilityContractError
  | MsgDuplicateTargets
  | MsgDuplicateBindings
  | MsgDuplicateWorkflows
  | MsgLaunchSemantics

type_synonym 'e message = "DocumentMessage \<Rightarrow> 'e"

definition decode_id :: "'e message \<Rightarrow> string \<Rightarrow> string \<Rightarrow> 'e + string" where
  "decode_id custom kind v = map_err (\<lambda>e. custom (MsgIdentifier e)) (validate_stable_name kind v)"

definition keyed_by_id :: "'e message \<Rightarrow> string \<Rightarrow> ('e, string, 'v) MapAccess \<Rightarrow> ('e, string, 'v) MapAccess" where
  "keyed_by_id custom kind access =
     access\<lparr>ma_entries := map (\<lambda>entry. entry\<lparr>rw_key := rbind (rw_key entry) (decode_id custom kind)\<rparr>)
       (ma_entries access)\<rparr>"

definition decode_elements :: "('a \<Rightarrow> 'e + 'b) \<Rightarrow> ('e, 'a) SeqAccess \<Rightarrow> ('e, 'b) SeqAccess" where
  "decode_elements decode access =
     \<lparr>sa_size_hint = sa_size_hint access,
      sa_elements = map (\<lambda>element. \<lparr>rl_element = rbind (rl_element element) decode, rl_ignored = rl_ignored element\<rparr>)
        (sa_elements access),
      sa_finish = sa_finish access\<rparr>"

definition deserialize_authorized_execution_targets ::
    "'e message \<Rightarrow> ('e, string, AuthorizedExecutionTargetRef) MapAccess \<Rightarrow>
     'e + (ExecutionTargetId \<times> AuthorizedExecutionTargetRef) list" where
  "deserialize_authorized_execution_targets custom access =
     visit_bounded_map MAX_AUTHORIZED_EXECUTION_TARGETS (custom (MsgContract EcTooManyExecutionTargets))
       (custom MsgDuplicateTargets) (keyed_by_id custom ''execution target'' access)"

record 'e RawAuthority =
  ra_adapter_id :: string
  ra_family :: string
  ra_adapter_content_digest :: Sha256Digest
  ra_targets :: "('e, string, AuthorizedExecutionTargetRef) MapAccess"

definition authority_deserialize :: "'e message \<Rightarrow> 'e + 'e RawAuthority \<Rightarrow> 'e + AdapterExecutionAuthority" where
  "authority_deserialize custom raw =
     rbind raw (\<lambda>t.
     rbind (decode_id custom ''adapter'' (ra_adapter_id t)) (\<lambda>adapter_id.
     rbind (decode_id custom ''application family'' (ra_family t)) (\<lambda>family.
     rbind (deserialize_authorized_execution_targets custom (ra_targets t)) (\<lambda>targets.
     map_err (\<lambda>e. custom (MsgContract e))
       (authority_new adapter_id family (ra_adapter_content_digest t) targets)))))"

definition deserialize_execution_bindings ::
    "'e message \<Rightarrow> ('e, string, ExecutionArtifactBinding) MapAccess \<Rightarrow>
     'e + (ExecutionTargetId \<times> ExecutionArtifactBinding) list" where
  "deserialize_execution_bindings custom access =
     visit_bounded_map MAX_GENERATED_EXECUTION_BINDINGS (custom (MsgContract EcTooManyExecutionBindings))
       (custom MsgDuplicateBindings) (keyed_by_id custom ''execution target'' access)"

record 'e RawOverlay =
  ro_binding :: ExecutionOverlayBinding
  ro_bindings :: "('e, string, ExecutionArtifactBinding) MapAccess"

definition overlay_deserialize :: "'e message \<Rightarrow> 'e + 'e RawOverlay \<Rightarrow> 'e + GeneratedExecutionOverlay" where
  "overlay_deserialize custom raw =
     rbind raw (\<lambda>t.
     rbind (decode_id custom ''application family'' (ab_family (ob_authority (ro_binding t)))) (\<lambda>_.
     rbind (decode_id custom ''adapter'' (ab_adapter_id (ob_authority (ro_binding t)))) (\<lambda>_.
     rbind (deserialize_execution_bindings custom (ro_bindings t)) (\<lambda>bindings.
     map_err (\<lambda>e. custom (MsgContract e)) (overlay_windows_x64 (ro_binding t) bindings)))))"

definition locator_deserialize ::
    "'e message \<Rightarrow> 'e + ExecutionArtifactLocator \<Rightarrow> 'e + ExecutionArtifactLocator" where
  "locator_deserialize custom raw =
     rbind raw (\<lambda>t. case t of
       PackageSnapshotLocator p \<Rightarrow> rbind (map_err (\<lambda>e. custom (MsgTarget e)) (package_path_new p))
         (\<lambda>path. Inr (PackageSnapshotLocator path))
     | ManagedArtifactLocator d \<Rightarrow> Inr (ManagedArtifactLocator d))"

definition resource_limits_deserialize ::
    "'e message \<Rightarrow> 'e + ExecutionResourceLimits \<Rightarrow> 'e + ExecutionResourceLimits" where
  "resource_limits_deserialize custom raw =
     rbind raw (\<lambda>t. map_err (\<lambda>e. custom (MsgTarget e))
       (resource_limits_new (rl_active_process_limit t) (rl_process_memory_limit_bytes t)
         (rl_job_memory_limit_bytes t)))"

definition deserialize_execution_arguments :: "'e message \<Rightarrow> ('e, string) SeqAccess \<Rightarrow> 'e + ExecutionArgument list" where
  "deserialize_execution_arguments custom access =
     visit_bounded_seq MAX_EXECUTION_ARGUMENTS (custom (MsgTarget EtTooManyArguments))
       (decode_elements (\<lambda>v. map_err (\<lambda>e. custom (MsgTarget e)) (execution_argument_new v)) access)"

record 'e RawLaunchPolicy =
  rp_arguments :: "('e, string) SeqAccess"
  rp_environment :: ExecutionEnvironmentPolicy
  rp_inherited_handles :: ExecutionInheritedHandlePolicy
  rp_console :: ExecutionConsolePolicy
  rp_working_directory :: ExecutionWorkingDirectoryPolicy
  rp_dependency_policy :: ExecutionDependencyPolicy
  rp_required_security_posture :: RequiredSecurityPosture
  rp_state_mode :: ExecutionStateMode
  rp_resource_limits :: "'e + ExecutionResourceLimits"
  rp_policy_requirements :: ExecutionPolicyRequirements

definition launch_policy_deserialize :: "'e message \<Rightarrow> 'e + 'e RawLaunchPolicy \<Rightarrow> 'e + ExecutionLaunchPolicy" where
  "launch_policy_deserialize custom raw =
     rbind raw (\<lambda>t.
     rbind (deserialize_execution_arguments custom (rp_arguments t)) (\<lambda>arguments.
     rbind (resource_limits_deserialize custom (rp_resource_limits t)) (\<lambda>limits.
     rbind (map_err (\<lambda>e. custom (MsgTarget e))
       (launch_policy_new arguments (rp_dependency_policy t) (rp_required_security_posture t) (rp_state_mode t)
         limits (rp_policy_requirements t))) (\<lambda>policy.
     if lp_environment policy \<noteq> rp_environment t \<or> lp_inherited_handles policy \<noteq> rp_inherited_handles t \<or>
        lp_console policy \<noteq> rp_console t \<or> lp_working_directory policy \<noteq> rp_working_directory t
     then Inl (custom MsgLaunchSemantics) else Inr policy))))"

record 'e RawTargetContract =
  rt_target_id :: string
  rt_kind :: ExecutionTargetKind
  rt_artifact_locator :: "'e + ExecutionArtifactLocator"
  rt_launch_policy :: "'e + 'e RawLaunchPolicy"

definition target_contract_deserialize ::
    "'e message \<Rightarrow> 'e + 'e RawTargetContract \<Rightarrow> 'e + ExecutionTargetContract" where
  "target_contract_deserialize custom raw =
     rbind raw (\<lambda>t.
     rbind (decode_id custom ''execution target'' (rt_target_id t)) (\<lambda>target_id.
     rbind (locator_deserialize custom (rt_artifact_locator t)) (\<lambda>locator.
     rbind (launch_policy_deserialize custom (rt_launch_policy t)) (\<lambda>policy.
     Inr \<lparr>tc_target_id = target_id, tc_kind = rt_kind t, tc_artifact_locator = locator,
          tc_launch_policy = policy\<rparr>))))"

record 'e RawResolution =
  rr_target_id :: string
  rr_artifact_locator :: "'e + ExecutionArtifactLocator"
  rr_digests :: ExecutionResolutionDigests

definition resolution_evidence_deserialize ::
    "'e message \<Rightarrow> 'e + 'e RawResolution \<Rightarrow> 'e + ExecutionResolutionEvidence" where
  "resolution_evidence_deserialize custom raw =
     rbind raw (\<lambda>t.
     rbind (decode_id custom ''execution target'' (rr_target_id t)) (\<lambda>target_id.
     rbind (locator_deserialize custom (rr_artifact_locator t)) (\<lambda>locator.
     map_err (\<lambda>e. custom (MsgTarget e)) (resolution_evidence_new target_id locator (rr_digests t)))))"

definition deserialize_evidence_references ::
    "'e message \<Rightarrow> ('e, CompatibilityEvidenceRef) SeqAccess \<Rightarrow> 'e + CompatibilityEvidenceRef list" where
  "deserialize_evidence_references custom access =
     visit_bounded_seq MAX_COMPATIBILITY_EVIDENCE_REFS (custom (MsgCompatibility CcTooManyEvidenceReferences)) access"

record 'e RawAssessment =
  rs_status :: DimensionStatus
  rs_evidence :: "('e, CompatibilityEvidenceRef) SeqAccess"

definition dimension_assessment_deserialize :: "'e message \<Rightarrow> 'e + 'e RawAssessment \<Rightarrow> 'e + DimensionAssessment" where
  "dimension_assessment_deserialize custom raw =
     rbind raw (\<lambda>t.
     rbind (deserialize_evidence_references custom (rs_evidence t)) (\<lambda>references.
     map_err (\<lambda>e. custom (MsgCompatibility e)) (dimension_assessment_new (rs_status t) references)))"

definition dimensions_deserialize ::
    "'e message \<Rightarrow> ('e + 'e RawAssessment) DimensionFields \<Rightarrow> 'e + CompatibilityDimensions" where
  "dimensions_deserialize custom raw =
     rbind (dimension_assessment_deserialize custom (cd_package raw)) (\<lambda>a.
     rbind (dimension_assessment_deserialize custom (cd_main_runtime raw)) (\<lambda>b.
     rbind (dimension_assessment_deserialize custom (cd_renderer raw)) (\<lambda>c.
     rbind (dimension_assessment_deserialize custom (cd_preload raw)) (\<lambda>d.
     rbind (dimension_assessment_deserialize custom (cd_electron_api raw)) (\<lambda>e.
     rbind (dimension_assessment_deserialize custom (cd_node_api raw)) (\<lambda>f.
     rbind (dimension_assessment_deserialize custom (cd_native_modules raw)) (\<lambda>g.
     rbind (dimension_assessment_deserialize custom (cd_helpers raw)) (\<lambda>h.
     rbind (dimension_assessment_deserialize custom (cd_state raw)) (\<lambda>i.
     rbind (dimension_assessment_deserialize custom (cd_security raw)) (\<lambda>j.
     Inr \<lparr>cd_package = a, cd_main_runtime = b, cd_renderer = c, cd_preload = d, cd_electron_api = e, cd_node_api = f, cd_native_modules = g, cd_helpers = h, cd_state = i, cd_security = j\<rparr>))))))))))"

definition keyed_assessments ::
    "'e message \<Rightarrow> ('e, string, 'e RawAssessment) MapAccess \<Rightarrow> ('e, string, DimensionAssessment) MapAccess" where
  "keyed_assessments custom access =
     \<lparr>ma_size_hint = ma_size_hint access,
      ma_entries = map (\<lambda>entry.
        \<lparr>rw_key = rbind (rw_key entry) (decode_id custom ''feature''),
         rw_value = dimension_assessment_deserialize custom (rw_value entry),
         rw_ignored_key = rw_ignored_key entry, rw_ignored_value = rw_ignored_value entry\<rparr>) (ma_entries access),
      ma_finish = ma_finish access\<rparr>"

definition deserialize_workflow_assessments ::
    "'e message \<Rightarrow> ('e, string, 'e RawAssessment) MapAccess \<Rightarrow> 'e + (FeatureId \<times> DimensionAssessment) list" where
  "deserialize_workflow_assessments custom access =
     visit_bounded_map MAX_COMPATIBILITY_WORKFLOWS (custom (MsgCompatibility CcTooManyWorkflowAssessments))
       (custom MsgDuplicateWorkflows) (keyed_assessments custom access)"

record 'e RawAnalysis =
  rn_source_build_fingerprint_digest :: Sha256Digest
  rn_target :: CompatibilityTarget
  rn_dimensions :: "('e + 'e RawAssessment) DimensionFields"
  rn_workflows :: "('e, string, 'e RawAssessment) MapAccess"

definition compatibility_analysis_deserialize ::
    "'e message \<Rightarrow> 'e + 'e RawAnalysis \<Rightarrow> 'e + CompatibilityAnalysis" where
  "compatibility_analysis_deserialize custom raw =
     rbind raw (\<lambda>t.
     rbind (dimensions_deserialize custom (rn_dimensions t)) (\<lambda>dimensions.
     rbind (deserialize_workflow_assessments custom (rn_workflows t)) (\<lambda>workflows.
     map_err (\<lambda>e. custom (MsgCompatibility e))
       (compatibility_analysis_new (rn_source_build_fingerprint_digest t) (rn_target t) dimensions
         workflows))))"

end
