(* ===== verification/Execution_Wellformed.thy ===== *)
theory Execution_Wellformed
  imports Execution_Documents
begin

section \<open>Exactly the well-formed documents can be read\<close>

text \<open>
  What every reader of an execution document may rely on, as predicates on the decoded
  values, and the theorem that the \<open>Deserialize\<close> implementations produce these documents and
  no others.
\<close>

definition authority_wf :: "AdapterExecutionAuthority \<Rightarrow> bool" where
  "authority_wf a \<longleftrightarrow> schema_pattern (ax_adapter_id a) \<and> schema_pattern (ax_family a) \<and>
     ax_targets a \<noteq> [] \<and> length (ax_targets a) \<le> 64 \<and> bt_wf (ax_targets a) \<and>
     (\<forall>k \<in> fst ` set (ax_targets a). schema_pattern k)"

definition overlay_wf :: "GeneratedExecutionOverlay \<Rightarrow> bool" where
  "overlay_wf ov \<longleftrightarrow> schema_pattern (ab_adapter_id (ob_authority (ov_binding ov))) \<and>
     schema_pattern (ab_family (ob_authority (ov_binding ov))) \<and>
     ov_bindings ov \<noteq> [] \<and> length (ov_bindings ov) \<le> 64 \<and> bt_wf (ov_bindings ov) \<and>
     (\<forall>k \<in> fst ` set (ov_bindings ov). schema_pattern k)"

definition package_path_wf :: "string \<Rightarrow> bool" where
  "package_path_wf path \<longleftrightarrow> length path \<le> 4096 \<and> length (split_on (CHR ''/'') path) \<le> 256 \<and>
     list_all component_ok (split_on (CHR ''/'') path)"

fun locator_wf :: "ExecutionArtifactLocator \<Rightarrow> bool" where
  "locator_wf (PackageSnapshotLocator p) \<longleftrightarrow> package_path_wf p"
| "locator_wf (ManagedArtifactLocator d) \<longleftrightarrow> True"

definition resource_limits_wf :: "ExecutionResourceLimits \<Rightarrow> bool" where
  "resource_limits_wf r \<longleftrightarrow> 0 < rl_active_process_limit r \<and> 0 < rl_process_memory_limit_bytes r \<and>
     rl_process_memory_limit_bytes r \<le> rl_job_memory_limit_bytes r"

definition launch_policy_wf :: "ExecutionLaunchPolicy \<Rightarrow> bool" where
  "launch_policy_wf p \<longleftrightarrow> length (lp_arguments p) \<le> 64 \<and>
     list_all (\<lambda>a. length a \<le> 8192 \<and> CHR 0x00 \<notin> set a) (lp_arguments p) \<and>
     sum_list (map length (lp_arguments p)) \<le> 16384 \<and> resource_limits_wf (lp_resource_limits p)"

definition target_contract_wf :: "ExecutionTargetContract \<Rightarrow> bool" where
  "target_contract_wf c \<longleftrightarrow> schema_pattern (tc_target_id c) \<and> locator_wf (tc_artifact_locator c) \<and>
     launch_policy_wf (tc_launch_policy c)"

definition resolution_evidence_wf :: "ExecutionResolutionEvidence \<Rightarrow> bool" where
  "resolution_evidence_wf r \<longleftrightarrow> schema_pattern (re_target_id r) \<and> locator_wf (re_artifact_locator r) \<and>
     (\<forall>d. re_artifact_locator r = ManagedArtifactLocator d \<longrightarrow> rd_executable_digest (re_digests r) = d)"

definition assessment_wf :: "DimensionAssessment \<Rightarrow> bool" where
  "assessment_wf d \<longleftrightarrow> bt_wf (da_evidence d) \<and> length (da_evidence d) \<le> 64 \<and>
     (da_status d \<noteq> Unknown \<longrightarrow> da_evidence d \<noteq> [])"

definition analysis_wf :: "CompatibilityAnalysis \<Rightarrow> bool" where
  "analysis_wf a \<longleftrightarrow> list_all assessment_wf (assessments (ca_dimensions a)) \<and> bt_wf (ca_workflows a) \<and>
     length (ca_workflows a) \<le> 128 \<and>
     (\<forall>(k, d) \<in> set (ca_workflows a). schema_pattern k \<and> assessment_wf d)"

subsection \<open>Identifiers and keyed maps\<close>

lemma decode_id_Inr: "decode_id custom kind v = Inr w \<longleftrightarrow> w = v \<and> schema_pattern v"
  by (simp add: decode_id_def stable_name_iff)

lemma keyed_map_range:
  "(\<exists>access. visit_bounded_map maximum too_many duplicate (keyed_by_id custom kind access) = Inr m) \<longleftrightarrow>
     bt_wf m \<and> length m \<le> maximum \<and> (\<forall>k \<in> fst ` set m. schema_pattern k)" (is "?L \<longleftrightarrow> ?R")
proof
  assume ?L
  then obtain access where a: "visit_bounded_map maximum too_many duplicate (keyed_by_id custom kind access) = Inr m"
    by blast
  have "schema_pattern k" if "(k, v) \<in> set m" for k v
    using visit_map_wf(3) [OF a that] by (auto simp: keyed_by_id_def rbind_Inr_iff decode_id_Inr)
  with visit_map_wf(1,2) [OF a] show ?R
    by auto
next
  assume r: ?R
  let ?entries = "map (\<lambda>(k, v). \<lparr>rw_key = Inr k, rw_value = Inr v, rw_ignored_key = Inr (), rw_ignored_value = Inr ()\<rparr>) m"
  let ?access = "\<lparr>ma_size_hint = None, ma_entries = ?entries, ma_finish = Inr ()\<rparr>"
  have "entries_decode (ma_entries (keyed_by_id custom kind ?access)) m"
    using r by (auto simp: entries_decode_def keyed_by_id_def decode_id_Inr)
  then show ?L
    using r by (intro exI [of _ ?access] visit_map_of) (auto simp: keyed_by_id_def)
qed

lemma targets_range:
  "(\<exists>access. deserialize_authorized_execution_targets custom access = Inr m) \<longleftrightarrow>
     bt_wf m \<and> length m \<le> 64 \<and> (\<forall>k \<in> fst ` set m. schema_pattern k)"
  unfolding deserialize_authorized_execution_targets_def keyed_map_range MAX_AUTHORIZED_EXECUTION_TARGETS_def ..

lemma bindings_range:
  "(\<exists>access. deserialize_execution_bindings custom access = Inr m) \<longleftrightarrow>
     bt_wf m \<and> length m \<le> 64 \<and> (\<forall>k \<in> fst ` set m. schema_pattern k)"
  unfolding deserialize_execution_bindings_def keyed_map_range MAX_GENERATED_EXECUTION_BINDINGS_def ..

lemma authority_new_Inr:
  "authority_new i f d ts = Inr a \<longleftrightarrow> ts \<noteq> [] \<and> length ts \<le> 64 \<and> ax_adapter_id a = i \<and> ax_family a = f \<and>
     ax_adapter_content_digest a = d \<and> ax_targets a = ts"
  by (cases a) (auto simp: authority_new_def MAX_AUTHORIZED_EXECUTION_TARGETS_def)

lemma overlay_windows_x64_Inr:
  "overlay_windows_x64 b bs = Inr a \<longleftrightarrow> bs \<noteq> [] \<and> length bs \<le> 64 \<and> ov_binding a = b \<and> ov_bindings a = bs"
  by (cases a) (auto simp: overlay_windows_x64_def MAX_GENERATED_EXECUTION_BINDINGS_def)

lemma authority_deserialize_Inr:
  "authority_deserialize custom raw = Inr a \<longleftrightarrow>
     (\<exists>t. raw = Inr t \<and> ra_adapter_id t = ax_adapter_id a \<and> ra_family t = ax_family a \<and>
        ra_adapter_content_digest t = ax_adapter_content_digest a \<and>
        deserialize_authorized_execution_targets custom (ra_targets t) = Inr (ax_targets a) \<and>
        schema_pattern (ax_adapter_id a) \<and> schema_pattern (ax_family a) \<and>
        ax_targets a \<noteq> [] \<and> length (ax_targets a) \<le> 64)"
  by (auto simp: authority_deserialize_def rbind_Inr_iff decode_id_Inr authority_new_Inr)

lemma authority_range: "(\<exists>raw. authority_deserialize custom raw = Inr a) \<longleftrightarrow> authority_wf a" (is "?L \<longleftrightarrow> ?R")
proof
  assume ?L
  then show ?R
    using targets_range [of custom "ax_targets a"] by (auto simp: authority_deserialize_Inr authority_wf_def)
next
  assume r: ?R
  then obtain access where "deserialize_authorized_execution_targets custom access = Inr (ax_targets a)"
    using targets_range [of custom "ax_targets a"] unfolding authority_wf_def by blast
  with r show ?L
    by (intro exI [of _ "Inr \<lparr>ra_adapter_id = ax_adapter_id a, ra_family = ax_family a,
        ra_adapter_content_digest = ax_adapter_content_digest a, ra_targets = access\<rparr>"])
      (simp add: authority_deserialize_Inr authority_wf_def)
qed

lemma overlay_deserialize_Inr:
  "overlay_deserialize custom raw = Inr a \<longleftrightarrow>
     (\<exists>t. raw = Inr t \<and> ro_binding t = ov_binding a \<and>
        deserialize_execution_bindings custom (ro_bindings t) = Inr (ov_bindings a) \<and>
        schema_pattern (ab_adapter_id (ob_authority (ov_binding a))) \<and>
        schema_pattern (ab_family (ob_authority (ov_binding a))) \<and>
        ov_bindings a \<noteq> [] \<and> length (ov_bindings a) \<le> 64)"
  by (auto simp: overlay_deserialize_def rbind_Inr_iff decode_id_Inr overlay_windows_x64_Inr)

lemma overlay_range: "(\<exists>raw. overlay_deserialize custom raw = Inr a) \<longleftrightarrow> overlay_wf a" (is "?L \<longleftrightarrow> ?R")
proof
  assume ?L
  then show ?R
    using bindings_range [of custom "ov_bindings a"] by (auto simp: overlay_deserialize_Inr overlay_wf_def)
next
  assume r: ?R
  then obtain access where "deserialize_execution_bindings custom access = Inr (ov_bindings a)"
    using bindings_range [of custom "ov_bindings a"] unfolding overlay_wf_def by blast
  with r show ?L
    by (intro exI [of _ "Inr \<lparr>ro_binding = ov_binding a, ro_bindings = access\<rparr>"])
      (simp add: overlay_deserialize_Inr overlay_wf_def)
qed

subsection \<open>Targets and resolution evidence\<close>

lemma validate_components_Inr:
  "validate_components cs n = Inr k \<Longrightarrow> list_all component_ok cs \<and> k = n + length cs"
  by (induction cs n rule: validate_components.induct) (auto simp: rbind_Inr_iff split: if_splits)

lemma validate_components_ok:
  "list_all component_ok cs \<Longrightarrow> n + length cs < 2 ^ 64 \<Longrightarrow> validate_components cs n = Inr (n + length cs)"
  by (induction cs arbitrary: n) (auto simp: checked_add_usize_def)

lemma component_ok_ne: "component_ok c \<Longrightarrow> c \<noteq> []"
  by (simp add: component_ok_def)

lemma split_on_snoc: "split_on d (xs @ [d]) = split_on d xs @ [[]]"
proof (induction xs)
  case (Cons x xs)
  then show ?case
    using split_on_ne [of d xs] by (cases "split_on d xs") auto
qed simp

lemma split_on_edges:
  assumes "list_all component_ok (split_on (CHR ''/'') path)"
  shows "path \<noteq> []" and "\<not> starts_with_any path ''/''" and "\<not> ends_with_any path ''/''"
proof -
  have ne: "[] \<notin> set (split_on (CHR ''/'') path)"
    using assms component_ok_ne by (auto simp: list_all_iff)
  then show "path \<noteq> []" and "\<not> starts_with_any path ''/''"
    by (cases path; auto simp: starts_with_any_def)+
  show "\<not> ends_with_any path ''/''"
  proof
    assume "ends_with_any path ''/''"
    then obtain xs where "path = xs @ [CHR ''/'']"
      by (cases path rule: rev_cases) (auto simp: ends_with_any_def)
    with ne show False
      by (simp add: split_on_snoc)
  qed
qed

lemma validate_package_path_Inr: "validate_package_path path = Inr u \<longleftrightarrow> package_path_wf path"
proof
  assume "validate_package_path path = Inr u"
  then show "package_path_wf path"
    by (auto simp: validate_package_path_def package_path_wf_def rbind_Inr_iff MAX_EXECUTION_PACKAGE_PATH_BYTES_def
        MAX_EXECUTION_PACKAGE_PATH_COMPONENTS_def split: if_splits dest!: validate_components_Inr)
next
  assume wf: "package_path_wf path"
  then have "validate_components (split_on (CHR ''/'') path) 0 = Inr (length (split_on (CHR ''/'') path))"
    using validate_components_ok [of "split_on (CHR ''/'') path" 0] by (simp add: package_path_wf_def)
  with wf split_on_edges [of path] show "validate_package_path path = Inr u"
    by (simp add: validate_package_path_def package_path_wf_def MAX_EXECUTION_PACKAGE_PATH_BYTES_def
        MAX_EXECUTION_PACKAGE_PATH_COMPONENTS_def)
qed

lemma locator_deserialize_Inr: "locator_deserialize custom raw = Inr l \<longleftrightarrow> raw = Inr l \<and> locator_wf l"
proof (cases raw)
  case (Inr t)
  then show ?thesis
    by (cases t) (auto simp: locator_deserialize_def rbind_Inr_iff package_path_new_def validate_package_path_Inr)
qed (simp add: locator_deserialize_def)

lemma resource_limits_deserialize_Inr:
  "resource_limits_deserialize custom raw = Inr r \<longleftrightarrow> raw = Inr r \<and> resource_limits_wf r"
proof -
  have "resource_limits_new a p j = Inr r \<longleftrightarrow> rl_active_process_limit r = a \<and> rl_process_memory_limit_bytes r = p \<and>
      rl_job_memory_limit_bytes r = j \<and> resource_limits_wf r" for a p j
    by (cases r) (auto simp: resource_limits_new_def resource_limits_wf_def word_gt_0 not_less)
  then show ?thesis
    by (auto simp: resource_limits_deserialize_def rbind_Inr_iff)
qed

lemma aggregate_arguments_Inr:
  "a \<le> 16384 \<Longrightarrow> aggregate_arguments args a = Inr n \<longleftrightarrow> n = a + sum_list (map length args) \<and> n \<le> 16384"
proof (induction args arbitrary: a)
  case (Cons v args)
  have "aggregate_arguments (v # args) a = Inr n \<longleftrightarrow>
      a + length v \<le> 16384 \<and> aggregate_arguments args (a + length v) = Inr n"
    by (auto simp: rbind_Inr_iff MAX_EXECUTION_ARGUMENT_AGGREGATE_BYTES_def)
  with Cons.IH [of "a + length v"] show ?case
    by auto
qed auto

definition argument_wf :: "string \<Rightarrow> bool" where
  "argument_wf v \<longleftrightarrow> length v \<le> 8192 \<and> CHR 0x00 \<notin> set v"

lemma argument_new_Inr: "execution_argument_new v = Inr w \<longleftrightarrow> w = v \<and> argument_wf v"
  by (auto simp: execution_argument_new_def argument_wf_def MAX_EXECUTION_ARGUMENT_BYTES_def)

lemma arguments_range:
  fixes custom :: "'e message"
  shows "(\<exists>access. deserialize_execution_arguments custom access = Inr vs) \<longleftrightarrow> length vs \<le> 64 \<and> list_all argument_wf vs"
proof
  assume "\<exists>access. deserialize_execution_arguments custom access = Inr vs"
  then obtain access :: "('e, string) SeqAccess" where len: "length vs \<le> 64"
      and el: "map (\<lambda>e. rbind (rl_element e) (\<lambda>v. map_err (\<lambda>e. custom (MsgTarget e)) (execution_argument_new v)))
        (sa_elements access) = map Inr vs"
    by (auto simp: deserialize_execution_arguments_def visit_bounded_seq_Inr decode_elements_def
        MAX_EXECUTION_ARGUMENTS_def comp_def)
  have "argument_wf v" if "v \<in> set vs" for v
  proof -
    have "Inr v \<in> set (map (\<lambda>e. rbind (rl_element e) (\<lambda>v. map_err (\<lambda>e. custom (MsgTarget e)) (execution_argument_new v)))
        (sa_elements access))"
      unfolding el using that by simp
    then show ?thesis
      by (auto simp: rbind_Inr_iff argument_new_Inr eq_commute [of "Inr _"])
  qed
  with len show "length vs \<le> 64 \<and> list_all argument_wf vs"
    by (simp add: list_all_iff)
next
  assume vs: "length vs \<le> 64 \<and> list_all argument_wf vs"
  let ?access = "\<lparr>sa_size_hint = None, sa_elements = map (\<lambda>v. \<lparr>rl_element = Inr v, rl_ignored = Inr ()\<rparr>) vs,
      sa_finish = Inr ()\<rparr>"
  from vs have "deserialize_execution_arguments custom ?access = Inr vs"
    by (auto simp: deserialize_execution_arguments_def visit_bounded_seq_Inr decode_elements_def
        MAX_EXECUTION_ARGUMENTS_def argument_new_Inr list_all_iff)
  then show "\<exists>access. deserialize_execution_arguments custom access = Inr vs" ..
qed

lemma single_constructors:
  "(x :: ExecutionEnvironmentPolicy) = y" "(a :: ExecutionInheritedHandlePolicy) = b"
  "(c :: ExecutionConsolePolicy) = d" "(w :: ExecutionWorkingDirectoryPolicy) = v"
  by (metis ExecutionEnvironmentPolicy.exhaust, metis ExecutionInheritedHandlePolicy.exhaust,
      metis ExecutionConsolePolicy.exhaust, metis ExecutionWorkingDirectoryPolicy.exhaust)

lemma launch_policy_new_Inr:
  "launch_policy_new args d q m r req = Inr p \<longleftrightarrow> length args \<le> 64 \<and> sum_list (map length args) \<le> 16384 \<and>
     lp_arguments p = args \<and> lp_dependency_policy p = d \<and> lp_required_security_posture p = q \<and>
     lp_state_mode p = m \<and> lp_resource_limits p = r \<and> lp_policy_requirements p = req"
proof -
  obtain args' en ih co wd d' q' m' r' req' where p: "p = \<lparr>lp_arguments = args', lp_environment = en,
      lp_inherited_handles = ih, lp_console = co, lp_working_directory = wd, lp_dependency_policy = d',
      lp_required_security_posture = q', lp_state_mode = m', lp_resource_limits = r', lp_policy_requirements = req'\<rparr>"
    by (cases p)
  have "en = EmptyEnvironment" "ih = NoInheritedHandles" "co = NoConsole" "wd = ExecutableParent"
    by (rule single_constructors)+
  with p show ?thesis
    using aggregate_arguments_Inr [of 0 args]
    by (auto simp: launch_policy_new_def rbind_Inr_iff MAX_EXECUTION_ARGUMENTS_def)
qed

lemma launch_policy_range: "(\<exists>raw. launch_policy_deserialize custom raw = Inr p) \<longleftrightarrow> launch_policy_wf p" (is "?L \<longleftrightarrow> ?R")
proof
  assume ?L
  then show ?R
    using arguments_range [of custom "lp_arguments p"]
    by (auto simp: launch_policy_deserialize_def rbind_Inr_iff launch_policy_new_Inr resource_limits_deserialize_Inr
        launch_policy_wf_def argument_wf_def [abs_def] single_constructors)
next
  assume r: ?R
  then obtain access where "deserialize_execution_arguments custom access = Inr (lp_arguments p)"
    using arguments_range [of custom "lp_arguments p"] unfolding launch_policy_wf_def argument_wf_def [abs_def] by blast
  with r show ?L
    by (intro exI [of _ "Inr \<lparr>rp_arguments = access, rp_environment = lp_environment p,
        rp_inherited_handles = lp_inherited_handles p, rp_console = lp_console p,
        rp_working_directory = lp_working_directory p, rp_dependency_policy = lp_dependency_policy p,
        rp_required_security_posture = lp_required_security_posture p, rp_state_mode = lp_state_mode p,
        rp_resource_limits = Inr (lp_resource_limits p), rp_policy_requirements = lp_policy_requirements p\<rparr>"])
      (auto simp: launch_policy_deserialize_def rbind_Inr_iff launch_policy_new_Inr resource_limits_deserialize_Inr
        launch_policy_wf_def single_constructors)
qed

lemma target_contract_range:
  "(\<exists>raw. target_contract_deserialize custom raw = Inr c) \<longleftrightarrow> target_contract_wf c" (is "?L \<longleftrightarrow> ?R")
proof
  assume ?L
  then show ?R
    using launch_policy_range [of custom "tc_launch_policy c"]
    by (auto simp: target_contract_deserialize_def rbind_Inr_iff decode_id_Inr locator_deserialize_Inr target_contract_wf_def)
next
  assume r: ?R
  then obtain raw where "launch_policy_deserialize custom raw = Inr (tc_launch_policy c)"
    using launch_policy_range [of custom "tc_launch_policy c"] unfolding target_contract_wf_def by blast
  with r show ?L
    by (intro exI [of _ "Inr \<lparr>rt_target_id = tc_target_id c, rt_kind = tc_kind c,
        rt_artifact_locator = Inr (tc_artifact_locator c), rt_launch_policy = raw\<rparr>"])
      (simp add: target_contract_deserialize_def rbind_Inr_iff decode_id_Inr locator_deserialize_Inr target_contract_wf_def)
qed

lemma resolution_evidence_range:
  "(\<exists>raw. resolution_evidence_deserialize custom raw = Inr r) \<longleftrightarrow> resolution_evidence_wf r" (is "?L \<longleftrightarrow> ?R")
proof -
  have new: "resolution_evidence_new i l d = Inr r \<longleftrightarrow> re_target_id r = i \<and> re_artifact_locator r = l \<and> re_digests r = d \<and>
      (\<forall>m. l = ManagedArtifactLocator m \<longrightarrow> rd_executable_digest d = m)" for i l d
    by (cases r; cases l) (auto simp: resolution_evidence_new_def)
  show ?thesis
  proof
    assume ?L
    then show ?R
      by (auto simp: resolution_evidence_deserialize_def rbind_Inr_iff decode_id_Inr locator_deserialize_Inr new
          resolution_evidence_wf_def)
  next
    assume ?R
    then show ?L
      by (intro exI [of _ "Inr \<lparr>rr_target_id = re_target_id r, rr_artifact_locator = Inr (re_artifact_locator r),
          rr_digests = re_digests r\<rparr>"])
        (auto simp: resolution_evidence_deserialize_def rbind_Inr_iff decode_id_Inr locator_deserialize_Inr new
          resolution_evidence_wf_def)
  qed
qed

subsection \<open>Compatibility analyses\<close>

lemma collect_references_Inr:
  "length vs \<le> 64 \<Longrightarrow> collect_references rs vs = Inr ws \<longleftrightarrow> ws = vs @ rs \<and> length ws \<le> 64"
proof (induction rs arbitrary: vs)
  case (Cons r rs)
  then show ?case
    by (cases "length vs = 64") (auto simp: MAX_COMPATIBILITY_EVIDENCE_REFS_def)
qed auto

lemma fold_insert_wf: "bt_wf m \<Longrightarrow> bt_wf (fold (\<lambda>r. bt_insert r ()) vs m)"
  by (induction vs arbitrary: m) (simp_all add: bt_wf_insert)

lemma fold_insert_sorted: "bt_wf (m @ m') \<Longrightarrow> fold (\<lambda>r. bt_insert r ()) (map fst m') m = m @ m'"
proof (induction m' arbitrary: m)
  case (Cons p m')
  obtain k where p: "p = (k, ())"
    by (cases p) simp
  have "bt_insert k () m = m @ [(k, ())]"
    using Cons.prems bt_wf_append_less [of m k "()" m'] by (simp add: p bt_insert_last)
  with Cons.IH [of "m @ [p]"] Cons.prems show ?case
    by (simp add: p)
qed simp

lemma assessment_new_range: "(\<exists>refs. length refs \<le> 64 \<and> dimension_assessment_new (da_status d) refs = Inr d) \<longleftrightarrow> assessment_wf d"
proof
  assume "\<exists>refs. length refs \<le> 64 \<and> dimension_assessment_new (da_status d) refs = Inr d"
  then show "assessment_wf d"
    by (cases d) (auto simp: dimension_assessment_new_def rbind_Inr_iff collect_references_Inr Let_def assessment_wf_def
        fold_insert_wf bt_laws split: if_splits)
next
  assume wf: "assessment_wf d"
  then have "fold (\<lambda>r. bt_insert r ()) (map fst (da_evidence d)) [] = da_evidence d"
    using fold_insert_sorted [of "[]" "da_evidence d"] by (simp add: assessment_wf_def)
  with wf show "\<exists>refs. length refs \<le> 64 \<and> dimension_assessment_new (da_status d) refs = Inr d"
    by (intro exI [of _ "map fst (da_evidence d)"])
      (auto simp: dimension_assessment_new_def rbind_Inr_iff collect_references_Inr Let_def assessment_wf_def)
qed

lemma assessment_new_status: "dimension_assessment_new st refs = Inr d \<Longrightarrow> da_status d = st"
  by (auto simp: dimension_assessment_new_def rbind_Inr_iff Let_def split: if_splits)

lemma assessment_range:
  fixes custom :: "'e message"
  shows "(\<exists>raw. dimension_assessment_deserialize custom raw = Inr d) \<longleftrightarrow> assessment_wf d" (is "?L \<longleftrightarrow> ?R")
proof
  assume ?L
  then obtain t :: "'e RawAssessment" and refs where "length refs \<le> 64" "dimension_assessment_new (rs_status t) refs = Inr d"
    by (auto simp: dimension_assessment_deserialize_def rbind_Inr_iff deserialize_evidence_references_def
        visit_bounded_seq_Inr MAX_COMPATIBILITY_EVIDENCE_REFS_def)
  moreover from this have "da_status d = rs_status t"
    by (auto dest: assessment_new_status)
  ultimately show ?R
    using assessment_new_range [of d] by auto
next
  assume ?R
  then obtain refs where refs: "length refs \<le> 64" "dimension_assessment_new (da_status d) refs = Inr d"
    using assessment_new_range [of d] by auto
  let ?access = "\<lparr>sa_size_hint = None, sa_elements = map (\<lambda>v. \<lparr>rl_element = Inr v, rl_ignored = Inr ()\<rparr>) refs,
      sa_finish = Inr ()\<rparr> :: ('e, CompatibilityEvidenceRef) SeqAccess"
  have "deserialize_evidence_references custom ?access = Inr refs"
    using refs(1) by (simp add: deserialize_evidence_references_def visit_bounded_seq_Inr
        MAX_COMPATIBILITY_EVIDENCE_REFS_def)
  with refs(2) have "dimension_assessment_deserialize custom (Inr \<lparr>rs_status = da_status d, rs_evidence = ?access\<rparr>) = Inr d"
    by (simp add: dimension_assessment_deserialize_def)
  then show ?L ..
qed

lemma assessment_deserialize_wf: "dimension_assessment_deserialize custom raw = Inr d \<Longrightarrow> assessment_wf d"
  using assessment_range [of custom d] by blast

lemma workflows_range:
  fixes custom :: "'e message"
  shows "(\<exists>access. deserialize_workflow_assessments custom access = Inr m) \<longleftrightarrow>
    bt_wf m \<and> length m \<le> 128 \<and> (\<forall>(k, d) \<in> set m. schema_pattern k \<and> assessment_wf d)" (is "?L \<longleftrightarrow> ?R")
proof
  assume ?L
  then obtain access where "deserialize_workflow_assessments custom access = Inr m"
    by blast
  note a = this [unfolded deserialize_workflow_assessments_def]
  have "schema_pattern k \<and> assessment_wf d" if "(k, d) \<in> set m" for k d
    using visit_map_wf(3) [OF a that] assessment_range [of custom d]
    by (auto simp: keyed_assessments_def rbind_Inr_iff decode_id_Inr)
  with visit_map_wf(1,2) [OF a] show ?R
    by (auto simp: MAX_COMPATIBILITY_WORKFLOWS_def)
next
  assume r: ?R
  define raw where "raw d = (SOME w. dimension_assessment_deserialize custom w = Inr d)" for d
  have raw: "dimension_assessment_deserialize custom (raw d) = Inr d" if "assessment_wf d" for d
    unfolding raw_def by (rule someI_ex) (use assessment_range [of custom d] that in simp)
  let ?access = "\<lparr>ma_size_hint = None, ma_entries = map (\<lambda>(k, d). \<lparr>rw_key = Inr k, rw_value = raw d,
      rw_ignored_key = Inr (), rw_ignored_value = Inr ()\<rparr>) m, ma_finish = Inr ()\<rparr> :: ('e, string, 'e RawAssessment) MapAccess"
  have "entries_decode (ma_entries (keyed_assessments custom ?access)) m"
    using r raw by (auto simp: entries_decode_def keyed_assessments_def decode_id_Inr)
  with r have "deserialize_workflow_assessments custom ?access = Inr m"
    unfolding deserialize_workflow_assessments_def
    by (intro visit_map_of) (auto simp: keyed_assessments_def MAX_COMPATIBILITY_WORKFLOWS_def)
  then show ?L ..
qed

lemma dimensions_range:
  fixes custom :: "'e message"
  shows "(\<exists>raw. dimensions_deserialize custom raw = Inr ds) \<longleftrightarrow> list_all assessment_wf (assessments ds)" (is "?L \<longleftrightarrow> ?R")
proof
  assume ?L
  then show ?R
    by (auto simp: dimensions_deserialize_def rbind_Inr_iff assessments_def dest: assessment_deserialize_wf)
next
  assume r: ?R
  define raw where "raw d = (SOME w. dimension_assessment_deserialize custom w = Inr d)" for d
  have raw: "dimension_assessment_deserialize custom (raw d) = Inr d" if "assessment_wf d" for d
    unfolding raw_def by (rule someI_ex) (use assessment_range [of custom d] that in simp)
  have "dimensions_deserialize custom \<lparr>cd_package = raw (cd_package ds), cd_main_runtime = raw (cd_main_runtime ds),
      cd_renderer = raw (cd_renderer ds), cd_preload = raw (cd_preload ds), cd_electron_api = raw (cd_electron_api ds),
      cd_node_api = raw (cd_node_api ds), cd_native_modules = raw (cd_native_modules ds), cd_helpers = raw (cd_helpers ds),
      cd_state = raw (cd_state ds), cd_security = raw (cd_security ds)\<rparr> = Inr ds"
    using r by (simp add: dimensions_deserialize_def assessments_def raw)
  then show ?L ..
qed

lemma analysis_range:
  fixes custom :: "'e message"
  shows "(\<exists>raw. compatibility_analysis_deserialize custom raw = Inr a) \<longleftrightarrow> analysis_wf a" (is "?L \<longleftrightarrow> ?R")
proof -
  have new: "compatibility_analysis_new b t d w = Inr a \<longleftrightarrow> length w \<le> 128 \<and> ca_source_build_fingerprint_digest a = b \<and>
      ca_target a = t \<and> ca_dimensions a = d \<and> ca_workflows a = w" for b t d w
    by (cases a) (auto simp: compatibility_analysis_new_def MAX_COMPATIBILITY_WORKFLOWS_def)
  show ?thesis
  proof
    assume ?L
    then obtain t :: "'e RawAnalysis" where "dimensions_deserialize custom (rn_dimensions t) = Inr (ca_dimensions a)"
        "deserialize_workflow_assessments custom (rn_workflows t) = Inr (ca_workflows a)"
      by (auto simp: compatibility_analysis_deserialize_def rbind_Inr_iff new)
    then show ?R
      using dimensions_range [of custom "ca_dimensions a"] workflows_range [of custom "ca_workflows a"]
      unfolding analysis_wf_def by blast
  next
    assume r: ?R
    then obtain dims access where "dimensions_deserialize custom dims = Inr (ca_dimensions a)"
        "deserialize_workflow_assessments custom access = Inr (ca_workflows a)"
      using dimensions_range [of custom "ca_dimensions a"] workflows_range [of custom "ca_workflows a"]
      unfolding analysis_wf_def by blast
    with r show ?L
      by (intro exI [of _ "Inr \<lparr>rn_source_build_fingerprint_digest = ca_source_build_fingerprint_digest a,
          rn_target = ca_target a, rn_dimensions = dims, rn_workflows = access\<rparr>"])
        (simp add: compatibility_analysis_deserialize_def rbind_Inr_iff new analysis_wf_def)
  qed
qed

text \<open>
  C33: the execution documents are typed by their readers. Whatever a deserializer yields,
  exactly the well-formed documents come out: authorities and overlays with 1 to 64 targets,
  contracts with portable relative paths, bounded arguments and coherent resource limits,
  resolution evidence whose managed digest is its executable's, and analyses in which every
  decided dimension has evidence; every identifier matches the published pattern and every
  map is free of duplicates. Each well-formed document is read from some input.
\<close>

theorem execution_documents_typed:
  "((\<exists>raw. authority_deserialize custom raw = Inr authority) \<longleftrightarrow> authority_wf authority) \<and>
   ((\<exists>raw. overlay_deserialize custom raw = Inr overlay) \<longleftrightarrow> overlay_wf overlay) \<and>
   ((\<exists>raw. target_contract_deserialize custom raw = Inr contract) \<longleftrightarrow> target_contract_wf contract) \<and>
   ((\<exists>raw. resolution_evidence_deserialize custom raw = Inr resolution) \<longleftrightarrow> resolution_evidence_wf resolution) \<and>
   ((\<exists>raw. compatibility_analysis_deserialize custom raw = Inr analysis) \<longleftrightarrow> analysis_wf analysis)"
  by (intro conjI authority_range overlay_range target_contract_range resolution_evidence_range analysis_range)

end
