(* ===== verification/Windows_Argv.thy ===== *)
theory Windows_Argv
  imports Windows_Launch
begin

section \<open>What the launched process reads back\<close>

text \<open>
  The C runtime's rules for splitting a command line into \<open>argv\<close> (backslashes are literal
  unless they precede a quotation mark; a pair of them is then one; a doubled quotation mark
  inside quotes is one) and the layout of a Windows environment block, as specifications for
  the encoders of \<open>Windows_Launch\<close>. The program name is read without backslash escapes.
\<close>

subsection \<open>Splitting a command line\<close>

abbreviation is_blank :: "u16 \<Rightarrow> bool" where
  "is_blank u \<equiv> u = SPACE \<or> u = TAB"

fun crt_arg :: "bool \<Rightarrow> nat \<Rightarrow> wide \<Rightarrow> wide \<times> wide" where
  "crt_arg quoted n [] = (replicate n BACKSLASH, [])"
| "crt_arg quoted n (c # cs) =
     (if c = BACKSLASH then crt_arg quoted (Suc n) cs
      else if c = QUOTE then
        (if odd n then map_prod (append (replicate (n div 2) BACKSLASH @ [QUOTE])) id (crt_arg quoted 0 cs)
         else case cs of
             d # ds \<Rightarrow>
               (if quoted \<and> d = QUOTE
                then map_prod (append (replicate (n div 2) BACKSLASH @ [QUOTE])) id (crt_arg quoted 0 ds)
                else map_prod (append (replicate (n div 2) BACKSLASH)) id (crt_arg (\<not> quoted) 0 cs))
           | [] \<Rightarrow> map_prod (append (replicate (n div 2) BACKSLASH)) id (crt_arg (\<not> quoted) 0 cs))
      else if \<not> quoted \<and> is_blank c then (replicate n BACKSLASH, c # cs)
      else map_prod (append (replicate n BACKSLASH @ [c])) id (crt_arg quoted 0 cs))"

fun crt_program :: "bool \<Rightarrow> wide \<Rightarrow> wide \<times> wide" where
  "crt_program quoted [] = ([], [])"
| "crt_program quoted (c # cs) =
     (if c = QUOTE then crt_program (\<not> quoted) cs
      else if \<not> quoted \<and> is_blank c then ([], c # cs)
      else map_prod (Cons c) id (crt_program quoted cs))"

lemma crt_arg_shorter: "length (snd (crt_arg quoted n cs)) \<le> length cs"
proof (induction quoted n cs rule: crt_arg.induct)
  case (2 quoted n c cs)
  then show ?case
    by (subst crt_arg.simps) (auto simp del: crt_arg.simps intro: le_SucI split: list.split)
qed simp

lemma crt_arg_start:
  "crt_arg False 0 (c # cs) =
     (if c = BACKSLASH then crt_arg False 1 cs
      else if c = QUOTE then crt_arg True 0 cs
      else if is_blank c then ([], c # cs)
      else map_prod (Cons c) id (crt_arg False 0 cs))"
  by (subst crt_arg.simps) (auto simp: map_prod_def append_Nil [abs_def] simp del: crt_arg.simps split: list.split)

lemma crt_arg_consumes:
  "cs \<noteq> [] \<Longrightarrow> \<not> is_blank (hd cs) \<Longrightarrow> length (snd (crt_arg False 0 cs)) < length cs"
  using crt_arg_shorter [of False 1 "tl cs"] crt_arg_shorter [of True 0 "tl cs"] crt_arg_shorter [of False 0 "tl cs"]
  by (cases cs) (auto simp: crt_arg_start simp del: crt_arg.simps)

function crt_args :: "wide \<Rightarrow> wide list" where
  "crt_args cs =
     (case dropWhile is_blank cs of
        [] \<Rightarrow> []
      | d # ds \<Rightarrow> (case crt_arg False 0 (d # ds) of (arg, tail) \<Rightarrow> arg # crt_args tail))"
  by pat_completeness auto
termination
proof (relation "measure length", goal_cases)
  case (2 cs d ds arg tail)
  moreover from this have "\<not> is_blank d"
    using hd_dropWhile [of is_blank cs] by auto
  ultimately have "length tail < length (d # ds)"
    using crt_arg_consumes [of "d # ds"] by (metis list.distinct(1) list.sel(1) snd_conv)
  moreover have "length (d # ds) \<le> length cs"
    using length_dropWhile_le [of is_blank cs] 2 by simp
  ultimately show ?case
    by simp
qed simp

declare crt_args.simps [simp del]

text \<open>The process sees the units before the terminating NUL.\<close>

definition crt_argv :: "wide \<Rightarrow> wide list" where
  "crt_argv command_line =
     (case crt_program False (takeWhile (\<lambda>u. u \<noteq> 0) command_line) of (program, tail) \<Rightarrow>
        program # crt_args tail)"

subsection \<open>Quoting\<close>

text \<open>The emitted text, without the accumulator of the loop.\<close>

fun quoted_body :: "wide \<Rightarrow> nat \<Rightarrow> wide" where
  "quoted_body [] n = replicate (n * 2) BACKSLASH @ [QUOTE]"
| "quoted_body (u # us) n =
     (if u = BACKSLASH then quoted_body us (Suc n)
      else if u = QUOTE then replicate (n * 2 + 1) BACKSLASH @ u # quoted_body us 0
      else replicate n BACKSLASH @ u # quoted_body us 0)"

definition quoted :: "wide \<Rightarrow> wide" where
  "quoted units = (if needs_quotes units then QUOTE # quoted_body units 0 else units)"

lemma append_quoted_loop_eq: "append_quoted_loop us n out = out @ quoted_body us n"
  by (induction us n arbitrary: out rule: quoted_body.induct) auto

lemma append_quoted_eq: "append_quoted out units = out @ quoted units"
  by (simp add: append_quoted_def quoted_def append_quoted_loop_eq)

lemma quoted_units_loop_eq:
  "quoted_units_loop us t n =
     (if t + length (quoted_body us n) < 2 ^ 64 then Inr (t + length (quoted_body us n))
      else Inl (InvalidInput QuotedLengthOverflow))"
proof (induction us n arbitrary: t rule: quoted_body.induct)
  case (1 n)
  then show ?case
    by (simp add: checked_mul_usize_def checked_add_usize_def)
next
  case (2 u us n)
  have pos: "n < length (quoted_body us (Suc n))"
    by (induction us "Suc n" arbitrary: n rule: quoted_body.induct) force+
  show ?case
    using 2 pos by (simp add: checked_mul_usize_def checked_add_usize_def)
qed

lemma quoted_units_eq:
  "length units < 2 ^ 64 \<Longrightarrow> quoted_units units =
     (if length (quoted units) < 2 ^ 64 then Inr (length (quoted units))
      else Inl (InvalidInput QuotedLengthOverflow))"
  by (simp add: quoted_units_def quoted_def quoted_units_loop_eq)

lemma quoted_units_Inr:
  "length units < 2 ^ 64 \<Longrightarrow> quoted_units units = Inr n \<longleftrightarrow> length (quoted units) < 2 ^ 64 \<and> n = length (quoted units)"
  by (auto simp: quoted_units_eq)

lemma crt_arg_backslashes:
  "crt_arg q m (replicate k BACKSLASH @ cs) = crt_arg q (m + k) cs"
  by (induction k arbitrary: m) auto

lemma crt_arg_quoted_body:
  "tail = [] \<or> hd tail = SPACE \<Longrightarrow>
     crt_arg True 0 (quoted_body us n @ tail) = (replicate n BACKSLASH @ us, tail)"
proof (induction us n rule: quoted_body.induct)
  case (1 n)
  then show ?case
    by (cases tail) (auto simp: crt_arg_backslashes)
next
  case (2 u us n)
  then show ?case
    by (auto simp: crt_arg_backslashes replicate_app_Cons_same)
qed

lemma crt_arg_plain:
  "list_all (\<lambda>u. u \<noteq> SPACE \<and> u \<noteq> TAB \<and> u \<noteq> QUOTE) us \<Longrightarrow> tail = [] \<or> hd tail = SPACE \<Longrightarrow>
     crt_arg False n (us @ tail) = (replicate n BACKSLASH @ us, tail)"
proof (induction us arbitrary: n)
  case Nil
  then show ?case by (cases tail) auto
next
  case (Cons u us)
  then show ?case
    by (auto simp: replicate_app_Cons_same)
qed

lemma crt_arg_quoted:
  assumes "tail = [] \<or> hd tail = SPACE"
  shows "crt_arg False 0 (quoted us @ tail) = (us, tail)"
proof (cases "needs_quotes us")
  case True
  with crt_arg_quoted_body [OF assms, of us 0] show ?thesis
    by (simp add: quoted_def crt_arg_start del: crt_arg.simps)
next
  case False
  then have "list_all (\<lambda>u. u \<noteq> SPACE \<and> u \<noteq> TAB \<and> u \<noteq> QUOTE) us"
    by (auto simp: needs_quotes_def list_ex_iff list_all_iff)
  from crt_arg_plain [OF this assms, of 0] False show ?thesis
    by (simp add: quoted_def)
qed

subsection \<open>The command line\<close>

definition command_line_text :: "wide \<Rightarrow> wide list \<Rightarrow> wide" where
  "command_line_text executable arguments =
     quoted executable @ concat (map (\<lambda>a. SPACE # quoted a) arguments)"

lemma emit_items_rest: "emit_items items False out = out @ concat (map (\<lambda>a. SPACE # quoted a) items)"
  by (induction items arbitrary: out) (simp_all add: append_quoted_eq)

lemma emit_items_eq: "emit_items (e # args) True [] = command_line_text e args"
  by (simp add: append_quoted_eq emit_items_rest command_line_text_def)

lemma encode_units_Inr: "encode_units v m = Inr e \<longleftrightarrow> length v \<le> m \<and> 0 \<notin> set v \<and> e = v"
  by (auto simp: encode_units_def)

lemma encode_all_Inr:
  "encode_all vs m = Inr es \<longleftrightarrow> list_all (\<lambda>v. length v \<le> m \<and> 0 \<notin> set v) vs \<and> es = vs"
  by (induction vs arbitrary: es) (auto simp: rbind_Inr_iff encode_units_Inr)

lemma command_line_units_step:
  assumes "m < 2 ^ 64" and "length item < 2 ^ 64" and "t' = (if first then t else t + 1) + length (quoted item)"
  shows "command_line_units (item # items) first m t = Inr n \<longleftrightarrow>
    t' \<le> m \<and> command_line_units items False m t' = Inr n"
proof (cases "t' \<le> m")
  case True
  with assms(1,3) have small: "t + 1 < 2 ^ 64 \<or> first" "length (quoted item) < 2 ^ 64" "t' < 2 ^ 64"
    by (auto split: if_splits)
  then have "quoted_units item = Inr (length (quoted item))"
    by (simp only: quoted_units_Inr [OF assms(2)])
  with small True assms(3) show ?thesis
    by (cases first) (simp_all add: checked_add_usize_def)
next
  case False
  then show ?thesis
    unfolding command_line_units.simps rbind_Inr_iff if_Inl_Inr quoted_units_Inr [OF assms(2)] ok_or_Inr_iff
    by (auto simp: assms(3) split: if_splits)
qed

lemma command_line_units_rest:
  assumes "m < 2 ^ 64" and "list_all (\<lambda>v. length v < 2 ^ 64) items" and "t \<le> m"
  shows "command_line_units items False m t = Inr n \<longleftrightarrow>
    n = t + length (concat (map (\<lambda>a. SPACE # quoted a) items)) \<and> n \<le> m"
  using assms(2,3)
proof (induction items arbitrary: t)
  case (Cons item items)
  then have "length item < 2 ^ 64" by simp
  with Cons.IH [of "t + 1 + length (quoted item)"] Cons.prems show ?case
    by (subst command_line_units_step [OF assms(1) _ refl]) (auto simp del: command_line_units.simps)
qed auto

lemma command_line_units_eq:
  assumes "m < 2 ^ 64" and "list_all (\<lambda>v. length v < 2 ^ 64) (e # args)"
  shows "command_line_units (e # args) True m 1 = Inr n \<longleftrightarrow>
    n = Suc (length (command_line_text e args)) \<and> n \<le> m"
  using command_line_units_rest [of m args "1 + length (quoted e)" n] assms
  by (subst command_line_units_step [OF assms(1) _ refl]) (auto simp: command_line_text_def simp del: command_line_units.simps)

definition line_fits :: "ProcessLaunchLimits \<Rightarrow> wide \<Rightarrow> wide list \<Rightarrow> bool" where
  "line_fits limits executable arguments \<longleftrightarrow>
     length arguments \<le> pll_arguments limits \<and>
     list_all (\<lambda>v. length v \<le> pll_argument_units limits \<and> 0 \<notin> set v) (executable # arguments) \<and>
     length (command_line_text executable arguments) < pll_command_line_units limits"

lemma line_fits_arguments:
  assumes "line_fits limits e args" and "pll_command_line_units limits \<le> 32767"
  shows "length args < 32767"
proof -
  have "length args \<le> length (concat (map (\<lambda>a. SPACE # quoted a) args))"
    by (induction args) auto
  with assms show ?thesis
    by (simp add: line_fits_def command_line_text_def)
qed

lemma build_command_line_exact:
  assumes "process_launch_limits_new na nu nc = Inr limits"
  shows "build_command_line e args limits = Inr out \<longleftrightarrow>
    line_fits limits e args \<and> out = command_line_text e args @ [0]"
proof -
  have lim: "pll_argument_units limits < pll_command_line_units limits" "pll_command_line_units limits \<le> 32767"
    using assms by (auto simp: process_launch_limits_new_def windows_limits split: if_splits)
  define fit where "fit \<longleftrightarrow> list_all (\<lambda>v. length v \<le> pll_argument_units limits \<and> 0 \<notin> set v) (e # args)"
  show ?thesis
  proof (cases "length args \<le> pll_arguments limits \<and> fit")
    case False
    then have "\<not> line_fits limits e args"
      by (auto simp: line_fits_def fit_def)
    moreover have "encode_all (e # args) (pll_argument_units limits) \<noteq> Inr es" if "\<not> fit" for es
      using that encode_all_Inr [of "e # args" "pll_argument_units limits" es] unfolding fit_def by blast
    ultimately show ?thesis
      using False unfolding build_command_line_def by (auto simp: rbind_Inr_iff simp del: encode_all.simps)
  next
    case True
    then have "list_all (\<lambda>v. length v < 2 ^ 64) (e # args)"
      using lim by (auto simp: fit_def list_all_iff)
    then have units: "command_line_units (e # args) True (pll_command_line_units limits) (Suc 0) = Inr n \<longleftrightarrow>
        n = Suc (length (command_line_text e args)) \<and> n \<le> pll_command_line_units limits" for n
      using command_line_units_eq [of "pll_command_line_units limits" e args n] lim by simp
    have enc: "encode_all (e # args) (pll_argument_units limits) = Inr (e # args)"
      using True encode_all_Inr [of "e # args"] unfolding fit_def by blast
    have "build_command_line e args limits = Inr out \<longleftrightarrow>
        Suc (length args) < 2 ^ 64 \<and> length (command_line_text e args) < pll_command_line_units limits \<and>
        out = command_line_text e args @ [0]"
      using True lim unfolding build_command_line_def enc
      by (auto simp: rbind_Inr_iff units emit_items_eq Let_def
          simp del: command_line_units.simps encode_all.simps emit_items.simps split: if_splits)
    then show ?thesis
      using line_fits_arguments [of limits e args] lim True by (auto simp: line_fits_def fit_def)
  qed
qed

subsection \<open>Reading back\<close>

lemma quoted_body_clean:
  "QUOTE \<notin> set us \<Longrightarrow> us = [] \<and> n = 0 \<or> us \<noteq> [] \<and> last us \<noteq> BACKSLASH \<Longrightarrow>
     quoted_body us n = replicate n BACKSLASH @ us @ [QUOTE]"
proof (induction us n rule: quoted_body.induct)
  case (2 u us n)
  then show ?case
    by (cases "us = []") (auto simp: replicate_app_Cons_same)
qed simp

lemma crt_program_clean:
  "QUOTE \<notin> set us \<Longrightarrow> (\<not> q \<Longrightarrow> \<not> list_ex is_blank us) \<Longrightarrow> crt_program q (us @ cs) =
     map_prod (append us) id (crt_program q cs)"
  by (induction us) (auto simp: map_prod_def split: prod.splits)

definition program_name_ok :: "wide \<Rightarrow> bool" where
  "program_name_ok us \<longleftrightarrow> QUOTE \<notin> set us \<and> (needs_quotes us \<and> us \<noteq> [] \<longrightarrow> last us \<noteq> BACKSLASH)"

lemma crt_program_quoted:
  assumes "program_name_ok us" and "tail = [] \<or> hd tail = SPACE"
  shows "crt_program False (quoted us @ tail) = (us, tail)"
proof (cases "needs_quotes us")
  case True
  then have "quoted us = QUOTE # us @ [QUOTE]"
    using assms(1) quoted_body_clean [of us 0] by (auto simp: quoted_def program_name_ok_def)
  with assms show ?thesis
    using crt_program_clean [of us True "QUOTE # tail"]
    by (cases tail) (auto simp: program_name_ok_def)
next
  case False
  then have "\<not> list_ex is_blank us"
    by (auto simp: needs_quotes_def list_ex_iff)
  with False assms crt_program_clean [of us False tail] show ?thesis
    by (cases tail) (auto simp: program_name_ok_def quoted_def)
qed

lemma quoted_ne: "quoted us \<noteq> []" and quoted_hd: "\<not> is_blank (hd (quoted us))"
  by (auto simp: quoted_def needs_quotes_def list_ex_iff)

lemma crt_args_text: "crt_args (concat (map (\<lambda>a. SPACE # quoted a) args)) = args"
proof (induction args)
  case Nil
  then show ?case by (simp add: crt_args.simps)
next
  case (Cons a args)
  let ?tail = "concat (map (\<lambda>a. SPACE # quoted a) args)"
  obtain d ds where q: "quoted a = d # ds"
    using quoted_ne [of a] by (cases "quoted a") auto
  have "dropWhile is_blank (SPACE # quoted a @ ?tail) = quoted a @ ?tail"
    using quoted_hd [of a] by (simp add: q)
  moreover have "crt_arg False 0 (quoted a @ ?tail) = (a, ?tail)"
    by (rule crt_arg_quoted) (cases args; simp)
  ultimately have "crt_args (SPACE # quoted a @ ?tail) = a # crt_args ?tail"
    by (subst crt_args.simps) (simp add: q del: crt_arg.simps)
  with Cons show ?case by simp
qed

lemma set_quoted: "set (quoted us) \<subseteq> insert BACKSLASH (insert QUOTE (set us))"
proof -
  have "set (quoted_body us n) \<subseteq> insert BACKSLASH (insert QUOTE (set us))" for n
    by (induction us n rule: quoted_body.induct) auto
  then show ?thesis
    by (auto simp: quoted_def)
qed

lemma crt_argv_text:
  assumes "program_name_ok e" and "list_all (\<lambda>v. 0 \<notin> set v) (e # args)"
  shows "crt_argv (command_line_text e args @ [0]) = e # args"
proof -
  have "0 \<notin> set (quoted v)" if "v \<in> set (e # args)" for v
    using set_quoted [of v] that assms(2) by (auto simp: list_all_iff)
  then have "0 \<notin> set (command_line_text e args)"
    by (auto simp: command_line_text_def)
  then have "takeWhile (\<lambda>u. u \<noteq> 0) (command_line_text e args @ [0]) = command_line_text e args"
    by (subst takeWhile_append2) auto
  moreover have "crt_program False (command_line_text e args) = (e, concat (map (\<lambda>a. SPACE # quoted a) args))"
    unfolding command_line_text_def by (rule crt_program_quoted [OF assms(1)]) (cases args; simp)
  ultimately show ?thesis
    by (simp add: crt_argv_def crt_args_text)
qed

end
