(* ===== verification/Windows_Readback.thy ===== *)
theory Windows_Readback
  imports Windows_Argv
begin

section \<open>The environment a launched process reads, and whole prepared launches\<close>

text \<open>
  Environment blocks are read back as the variables they were built from, and a prepared launch as
  the executable, the arguments and the environment that were asked for.
\<close>

subsection \<open>ASCII names through UTF-16 and back\<close>

lemma unat_wide_char [simp]: "unat (ucast (char_byte c) :: u16) = of_char c"
  by (simp add: unat_ucast_up char_byte_def unat_of_nat)

lemma utf8_lead:
  assumes "c < 0x110000" and "\<not> c < 0x80"
  shows "\<not> hd (utf8_encode c) < 0x80"
proof -
  have high: "\<not> (of_nat k :: u8) < 0x80" if "0x80 \<le> k" "k < 0x100" for k
    using that by (simp add: word_less_nat_alt unat_of_nat)
  have "c < 0x800 \<Longrightarrow> 0xC0 + c div 64 < 0x100" "c < 0x10000 \<Longrightarrow> 0xE0 + c div 4096 < 0x100"
    "0xF0 + c div 262144 < 0x100"
    using assms(1) by auto
  with assms(2) show ?thesis
    by (auto simp: utf8_encode_def high simp del: of_nat_add)
qed

lemma utf8_ascii_bytes:
  assumes "list_all (\<lambda>c. c < 0x110000) cs" and "list_all (\<lambda>b. b < 0x80) (concat (map utf8_encode cs))"
  shows "list_all (\<lambda>c. c < 0x80) cs \<and> concat (map utf8_encode cs) = map of_nat cs"
  using assms
proof (induction cs)
  case (Cons c cs)
  have "utf8_encode c \<noteq> []"
    using len_utf8_pos [of c] by (metis length_utf8_encode length_greater_0_conv)
  then have "c < 0x80"
    using Cons.prems utf8_lead [of c] by (cases "utf8_encode c") auto
  with Cons show ?case
    by (simp add: utf8_encode_def)
qed simp

lemma utf16_decode_range: "utf16_decode w = Some cs \<Longrightarrow> list_all (\<lambda>c. c < 0x110000) cs"
proof (induction w arbitrary: cs rule: utf16_decode.induct)
  case (2 u us)
  have "unat u < 0x10000"
    using unsigned_less [of u] by simp
  moreover have "0x10000 + (unat u - 0xD800) * 0x400 + (unat v - 0xDC00) < 0x110000"
    if "u \<le> 0xDBFF" "v \<le> 0xDFFF" for v :: u16
    using that by (simp add: word_le_nat_alt)
  ultimately show ?case
    using 2 by (fastforce split: if_splits list.splits)
qed simp

lemma utf16_ascii: "utf16_decode w = Some cs \<Longrightarrow> list_all (\<lambda>c. c < 0x80) cs \<Longrightarrow> w = map of_nat cs"
proof (induction w arbitrary: cs rule: utf16_decode.induct)
  case (2 u us)
  then show ?case
    by (fastforce split: if_splits list.splits)
qed simp

lemma os_to_str_ascii:
  assumes "os_to_str w = Some s" and "list_all (\<lambda>c. (of_char c :: nat) < 0x80) s"
  shows "map (ucast \<circ> char_byte) s = w"
proof -
  obtain cs where cs: "utf16_decode w = Some cs" "s = map byte_char (concat (map utf8_encode cs))"
    using assms(1) by (auto simp: os_to_str_def)
  have "b < 0x80" if "(of_char (byte_char b) :: nat) < 0x80" for b :: u8
    using that unat_u8_less [of b] by (simp add: byte_char_def word_less_nat_alt)
  then have "list_all (\<lambda>b. b < 0x80) (concat (map utf8_encode cs))"
    using assms(2) unfolding cs(2) by (auto simp: list_all_iff)
  from utf8_ascii_bytes [OF utf16_decode_range [OF cs(1)] this]
  have ascii: "list_all (\<lambda>c. c < 0x80) cs" "concat (map utf8_encode cs) = map of_nat cs"
    by blast+
  have "(ucast (of_nat c :: u8) :: u16) = of_nat c" if "c < 0x80" for c
  proof (rule unsigned_word_eqI)
    show "unat (ucast (of_nat c :: u8) :: u16) = unat (of_nat c :: u16)"
      using that by (simp add: unat_ucast_up unat_of_nat)
  qed
  with ascii(1) have "map ucast (map of_nat cs :: u8 list) = (map of_nat cs :: wide)"
    by (auto simp: list_all_iff)
  then show ?thesis
    using utf16_ascii [OF cs(1) ascii(1)] by (simp add: cs(2) ascii(2) comp_def)
qed

subsection \<open>The environment block\<close>

function read_environment :: "wide \<Rightarrow> (wide \<times> wide) list" where
  "read_environment block =
     (let entry = takeWhile (\<lambda>u. u \<noteq> 0) block in
      if entry = [] then []
      else (takeWhile (\<lambda>u. u \<noteq> 0x3D) entry, tl (dropWhile (\<lambda>u. u \<noteq> 0x3D) entry)) #
        read_environment (drop (Suc (length entry)) block))"
  by pat_completeness auto
termination
  by (relation "measure length") (auto simp: neq_Nil_conv takeWhile_eq_Nil_iff)

declare read_environment.simps [simp del]

abbreviation wide_ascii :: "string \<Rightarrow> wide" where
  "wide_ascii \<equiv> map (ucast \<circ> char_byte)"

definition variable_ok :: "string \<times> wide \<Rightarrow> bool" where
  "variable_ok p \<longleftrightarrow> environment_name_ok (fst p) \<and> 0 \<notin> set (snd p)"

lemma environment_name_chars:
  "environment_name_ok name \<Longrightarrow> c \<in> set name \<Longrightarrow> of_char c \<in> {48 ..< (128 :: nat)} - {61}"
proof -
  assume ok: "environment_name_ok name" and "c \<in> set name"
  then obtain i where "i < length name" "c = name ! i"
    by (auto simp: in_set_conv_nth)
  then have "(i, c) \<in> set (enumerate 0 name)"
    by (simp add: in_set_enumerate_eq)
  with ok show ?thesis
    by (fastforce simp: environment_name_ok_def list_all_iff is_ascii_uppercase_byte_def is_ascii_digit_byte_def)
qed

lemma wide_name_free:
  assumes "environment_name_ok name" and "u \<in> set (wide_ascii name)"
  shows "u \<noteq> 0 \<and> u \<noteq> 0x3D"
proof -
  obtain c where "c \<in> set name" "u = ucast (char_byte c)"
    using assms(2) by auto
  with environment_name_chars [OF assms(1)] have "unat u \<in> {48 ..< 128} - {61}"
    by simp
  then show ?thesis by auto
qed

lemma read_environment_entry:
  assumes "variable_ok p"
  shows "read_environment (environment_entry p @ tail) = (wide_ascii (fst p), snd p) # read_environment tail"
proof -
  have name: "\<forall>u \<in> set (wide_ascii (fst p)). u \<noteq> 0 \<and> u \<noteq> 0x3D"
    using assms wide_name_free by (auto simp: variable_ok_def simp del: set_map)
  let ?entry = "wide_ascii (fst p) @ 0x3D # snd p"
  have split: "environment_entry p @ tail = ?entry @ 0 # tail"
    by (simp add: environment_entry_def)
  have entry: "takeWhile (\<lambda>u. u \<noteq> 0) (?entry @ 0 # tail) = ?entry"
    using name assms by (subst takeWhile_append2) (auto simp: variable_ok_def)
  have "takeWhile (\<lambda>u. u \<noteq> 0x3D) ?entry = wide_ascii (fst p)"
    and "dropWhile (\<lambda>u. u \<noteq> 0x3D) ?entry = 0x3D # snd p"
    using name by (subst takeWhile_append2 dropWhile_append2; auto)+
  then show ?thesis
    unfolding split by (subst read_environment.simps) (simp add: entry Let_def del: append_assoc append_Cons)
qed

lemma read_environment_block:
  "list_all variable_ok variables \<Longrightarrow> read_environment (concat (map environment_entry variables) @ [0]) =
     map (\<lambda>p. (wide_ascii (fst p), snd p)) variables"
  by (induction variables) (simp_all add: read_environment_entry read_environment.simps [of "[0]"])

lemma environment_required_Inr:
  "environment_required variables r = Inr n \<Longrightarrow> n = r + length (concat (map environment_entry variables))"
  by (induction variables r rule: environment_required.induct)
     (auto simp: rbind_Inr_iff environment_entry_def bind_eq_Some_conv)

lemma environment_collect_Inr:
  "environment_collect variables canonical = Inr c \<Longrightarrow> bt_wf canonical \<Longrightarrow> list_all variable_ok canonical \<Longrightarrow>
     bt_wf c \<and> list_all variable_ok c \<and>
     set (map (\<lambda>p. (wide_ascii (fst p), snd p)) c) =
       set (map (\<lambda>p. (wide_ascii (fst p), snd p)) canonical) \<union> set variables"
proof (induction variables canonical rule: environment_collect.induct)
  case (2 name v variables canonical)
  then obtain s where s: "os_to_str name = Some s" "environment_name_ok s" "0 \<notin> set v" "bt_get canonical s = None"
    and v: "length v \<le> MAX_ENVIRONMENT_VALUE_UNITS" "\<not> list_ex (\<lambda>u. u < SPACE \<or> u = 0x7F) v"
      "length canonical \<noteq> MAX_ENVIRONMENT_VARIABLES"
    and run: "environment_collect variables (bt_insert s v canonical) = Inr c"
    by (auto simp: rbind_Inr_iff encode_units_Inr split: if_splits)
  have "wide_ascii s = name"
    using environment_name_chars [OF s(2)] by (intro os_to_str_ascii [OF s(1)]) (auto simp: list_all_iff)
  then have "map (\<lambda>a. ucast (char_byte a)) s = name"
    by (simp add: comp_def)
  moreover have "set (bt_insert s v canonical) = insert (s, v) (set canonical)"
    using s(4) "2.prems"(2) by (auto simp: bt_get_mem [symmetric] bt_laws bt_wf_insert split: if_splits)
  moreover have "list_all variable_ok (bt_insert s v canonical)"
    using calculation(2) "2.prems"(3) s by (auto simp: list_all_iff variable_ok_def)
  ultimately show ?case
    using "2.IH" [of s v] run s v "2.prems"(2,3) by (simp add: encode_units_Inr bt_wf_insert)
qed simp

lemma inj_wide_ascii: "inj (wide_ascii :: string \<Rightarrow> wide)"
proof (rule inj_mapI, rule injI)
  fix c d :: char
  assume "(ucast \<circ> char_byte) c = ((ucast \<circ> char_byte) d :: u16)"
  then have "unat (ucast (char_byte c) :: u16) = unat (ucast (char_byte d) :: u16)"
    by simp
  then show "c = d" by simp
qed

lemma process_environment_read:
  assumes "process_environment_new variables = Inr env"
  shows "distinct (map fst (read_environment (pe_block env)))"
    and "set (read_environment (pe_block env)) = set variables"
proof -
  obtain c where c: "environment_collect variables [] = Inr c" "encode_environment_block c = Inr env"
    using assms by (auto simp: process_environment_new_def rbind_Inr_iff)
  have ok: "bt_wf c" "list_all variable_ok c" "set (map (\<lambda>p. (wide_ascii (fst p), snd p)) c) = set variables"
    using environment_collect_Inr [OF c(1)] by (auto simp: bt_laws)
  have read: "read_environment (pe_block env) = map (\<lambda>p. (wide_ascii (fst p), snd p)) c"
  proof (cases "c = []")
    case True
    with c(2) show ?thesis
      by (auto simp: encode_environment_block_def process_environment_empty_def read_environment.simps [of "[0, 0]"])
  next
    case False
    with c(2) have "pe_block env = concat (map environment_entry c) @ [0]"
      by (auto simp: encode_environment_block_def rbind_Inr_iff Let_def split: if_splits)
    with ok(2) show ?thesis
      by (simp add: read_environment_block)
  qed
  show "set (read_environment (pe_block env)) = set variables"
    using ok(3) by (simp add: read)
  have "map fst (map (\<lambda>p. (wide_ascii (fst p), snd p)) c) = map wide_ascii (map fst c)"
    by (simp add: comp_def)
  then show "distinct (map fst (read_environment (pe_block env)))"
    unfolding read using bt_wf_distinct [OF ok(1)] inj_on_subset [OF inj_wide_ascii subset_UNIV]
    by (simp only: distinct_map [of wide_ascii] simp_thms)
qed

subsection \<open>Prepared launches\<close>

definition launch_fits :: "ProcessLaunchLimits \<Rightarrow> WinPath \<Rightarrow> wide list \<Rightarrow> bool" where
  "launch_fits limits path arguments \<longleftrightarrow> line_fits limits (wp_text path) arguments \<and>
     (case wp_parent path of
        Some parent \<Rightarrow> length parent \<le> pll_argument_units limits \<and> 0 \<notin> set parent
      | None \<Rightarrow> False)"

lemma encode_nul_terminated_Inr:
  "encode_nul_terminated v m = Inr e \<longleftrightarrow> length v \<le> m \<and> 0 \<notin> set v \<and> e = v @ [0]"
  by (auto simp: encode_nul_terminated_def rbind_Inr_iff encode_units_Inr)

lemma prepare_launch_Inr:
  assumes "process_launch_limits_new na nu nc = Inr limits"
  shows "prepare_launch_with_environment self args limits env = Inr p \<longleftrightarrow>
    launch_fits limits (le_path self) args \<and>
    p = \<lparr>pp_executable_path = le_path self, pp_executable_identity = le_identity self,
         pp_lock_instance_id = le_lock_instance_id self, pp_application = wp_text (le_path self) @ [0],
         pp_current_directory = the (wp_parent (le_path self)) @ [0],
         pp_command_line = command_line_text (wp_text (le_path self)) args @ [0],
         pp_environment = pe_block env\<rparr>"
  unfolding prepare_launch_with_environment_def rbind_Inr_iff ok_or_Inr_iff encode_nul_terminated_Inr
    build_command_line_exact [OF assms]
  by (auto simp: launch_fits_def line_fits_def split: option.splits)

text \<open>
  C21: what is prepared is what the process reads. Within limits the constructor accepts, a
  launch is prepared exactly when path, parent directory and arguments fit (no other error,
  and never the one that sizing and emission disagree); the C runtime then splits its
  command line into the executable path and exactly the given arguments, however they mix
  blanks, quotation marks and backslashes, and its environment block holds exactly the given
  variables, each once.
\<close>

theorem prepared_launch_read_back:
  assumes "process_launch_limits_new na nu nc = Inr limits"
    and "process_environment_new variables = Inr env"
    and "program_name_ok (wp_text (le_path self))"
  shows "is_ok (prepare_launch_with_environment self args limits env) = launch_fits limits (le_path self) args \<and>
    (\<forall>p. prepare_launch_with_environment self args limits env = Inr p \<longrightarrow>
       crt_argv (pp_command_line p) = wp_text (le_path self) # args \<and>
       takeWhile (\<lambda>u. u \<noteq> 0) (pp_application p) = wp_text (le_path self) \<and>
       set (read_environment (pp_environment p)) = set variables \<and>
       distinct (map fst (read_environment (pp_environment p))))"
proof -
  have "crt_argv (command_line_text (wp_text (le_path self)) args @ [0]) = wp_text (le_path self) # args \<and>
      takeWhile (\<lambda>u. u \<noteq> 0) (wp_text (le_path self) @ [0]) = wp_text (le_path self)"
    if "launch_fits limits (le_path self) args"
    using that crt_argv_text [OF assms(3), of args]
    by (subst takeWhile_append2) (auto simp: launch_fits_def line_fits_def list_all_iff)
  then show ?thesis
    using process_environment_read [OF assms(2)]
    unfolding is_ok_iff prepare_launch_Inr [OF assms(1)] by auto
qed

definition example_path :: WinPath where
  "example_path = \<lparr>wp_text = [0x43, 0x3A, 0x5C, 0x61, 0x20, 0x62], wp_parent = Some [0x43, 0x3A, 0x5C]\<rparr>"

theorem prepared_launch_read_back_witness:
  "crt_argv (pp_command_line (case prepare_launch_with_environment
       \<lparr>le_path = example_path, le_identity = (), le_lock_instance_id = 1\<rparr> [[], [0x61, 0x5C, 0x22], [0x20, 0x5C]]
       \<lparr>pll_arguments = 3, pll_argument_units = 64, pll_command_line_units = 128\<rparr>
       \<lparr>pe_block = [0x41, 0x3D, 0x31, 0, 0], pe_variable_count = 1\<rparr> of Inr p \<Rightarrow> p)) =
     wp_text example_path # [[], [0x61, 0x5C, 0x22], [0x20, 0x5C]]"
proof -
  let ?limits = "\<lparr>pll_arguments = 3, pll_argument_units = 64, pll_command_line_units = 128\<rparr>"
  let ?env = "\<lparr>pe_block = [0x41, 0x3D, 0x31, 0, 0], pe_variable_count = 1\<rparr>"
  let ?self = "\<lparr>le_path = example_path, le_identity = (), le_lock_instance_id = 1\<rparr>"
  let ?args = "[[], [0x61, 0x5C, 0x22], [0x20, 0x5C]] :: wide list"
  have 1: "process_launch_limits_new 3 64 128 = Inr ?limits"
    by (simp add: process_launch_limits_new_def windows_limits)
  have 2: "process_environment_new [([0x41], [0x31])] = Inr ?env"
    by (simp add: process_environment_new_def os_to_str_def utf8_encode_def byte_char_def char_byte_def
        environment_name_ok_def is_ascii_uppercase_byte_def encode_units_def bt_get_def checked_add_usize_def
        encode_environment_block_def environment_entry_def windows_limits)
  have 3: "program_name_ok (wp_text (le_path ?self))"
    by (simp add: program_name_ok_def example_path_def)
  have 4: "launch_fits ?limits (le_path ?self) ?args"
    by (simp add: launch_fits_def line_fits_def command_line_text_def quoted_def needs_quotes_def example_path_def)
  note claim = prepared_launch_read_back [OF 1 2 3, of ?args]
  with 4 obtain p where "prepare_launch_with_environment ?self ?args ?limits ?env = Inr p"
    by (auto simp: is_ok_iff)
  with claim show ?thesis
    by simp
qed

end
