(* ===== verification/Authorization_Exact.thy ===== *)
theory Authorization_Exact
  imports Execution_Authorization Execution_Wellformed Windows_Readback
begin

section \<open>What an execution authorization establishes\<close>

text \<open>
  The decision of \<open>authorize_execution\<close> stated over whole identities: the pins of the policy
  are the identities of what is presented, and the presented documents agree with each other
  and with the retained executable.
\<close>

subsection \<open>Identities of what is presented\<close>

definition authority_identity :: "'je ExecutionCodecs \<Rightarrow> AdapterExecutionAuthority \<Rightarrow> ExecutionAuthorityPins" where
  "authority_identity codecs a =
     \<lparr>ap_adapter_id = ax_adapter_id a, ap_family = ax_family a,
      ap_adapter_content_digest = ax_adapter_content_digest a,
      ap_authority_document_digest = authority_document_digest (ec_sha256 codecs) (ec_hex codecs) a\<rparr>"

definition context_identity :: "ExecutionOverlayBinding \<Rightarrow> ExecutionContextPins" where
  "context_identity b =
     \<lparr>cp_source_build_fingerprint_digest = ob_source_build_fingerprint_digest b,
      cp_package_tree_merkle = ob_package_tree_merkle b,
      cp_execution_environment_digest = ob_execution_environment_digest b,
      cp_build_descriptor_digest = ob_build_descriptor_digest b\<rparr>"

fun effective_of :: "RequiredSecurityPosture \<Rightarrow> EffectiveSecurityPosture" where
  "effective_of RequiredVendorEquivalentFullTrust = EffectiveVendorEquivalentFullTrust"
| "effective_of RequiredBrokerMediated = EffectiveBrokerMediated"
| "effective_of RequiredOsContained = EffectiveOsContained"

definition evidence_identity :: "'je ExecutionCodecs \<Rightarrow> ExecutionPolicyEvidence \<Rightarrow> PolicyEvidenceDigests" where
  "evidence_identity codecs e =
     \<lparr>pd_artifact_trust = ec_sha256 codecs (pe_artifact_trust e), pd_provenance = ec_sha256 codecs (pe_provenance e),
      pd_capability_policy = ec_sha256 codecs (pe_capability_policy e),
      pd_state_policy = ec_sha256 codecs (pe_state_policy e), pd_user_policy = ec_sha256 codecs (pe_user_policy e)\<rparr>"

definition target_identity ::
    "ExecutionTargetContract \<Rightarrow> Sha256Digest \<Rightarrow> Sha256Digest \<Rightarrow> Sha256Digest \<Rightarrow> PolicyEvidenceDigests \<Rightarrow>
     ExecutionTargetPins" where
  "target_identity c contract_digest resolution_digest analysis_digest ev =
     \<lparr>tp_target_id = tc_target_id c, tp_target_contract_digest = contract_digest,
      tp_resolution_evidence_digest = resolution_digest,
      tp_artifact_trust_evidence_digest = pd_artifact_trust ev,
      tp_provenance_evidence_digest = pd_provenance ev,
      tp_compatibility_analysis_digest = analysis_digest,
      tp_capability_policy_digest = pd_capability_policy ev, tp_state_policy_digest = pd_state_policy ev,
      tp_user_policy_digest = pd_user_policy ev,
      tp_security_posture = effective_of (lp_required_security_posture (tc_launch_policy c)),
      tp_state_mode = lp_state_mode (tc_launch_policy c)\<rparr>"

text \<open>The presented documents agree: static target, generated binding, contract and resolution.\<close>

definition documents_agree ::
    "StructurallyValidatedExecutionOverlay \<Rightarrow> ExecutionTargetContract \<Rightarrow> ExecutionResolutionEvidence \<Rightarrow>
     Sha256Digest \<Rightarrow> Sha256Digest \<Rightarrow> bool" where
  "documents_agree proof c r contract_digest resolution_digest \<longleftrightarrow>
     bt_get (ax_targets (sv_authority proof)) (tc_target_id c) =
       Some \<lparr>at_kind = tc_kind c, at_artifact_source = locator_artifact_source (tc_artifact_locator c),
             at_execution_contract_digest = contract_digest\<rparr> \<and>
     bt_get (ov_bindings (sv_overlay proof)) (tc_target_id c) =
       Some \<lparr>xb_execution_contract = contract_digest,
             xb_artifact_source = rd_artifact_source_digest (re_digests r),
             xb_executable = rd_executable_digest (re_digests r), xb_resolution_evidence = resolution_digest\<rparr> \<and>
     re_target_id r = tc_target_id c \<and> re_artifact_locator r = tc_artifact_locator c \<and>
     rd_execution_contract_digest (re_digests r) = contract_digest"

definition analysis_agrees :: "GeneratedExecutionOverlay \<Rightarrow> CompatibilityAnalysis \<Rightarrow> bool" where
  "analysis_agrees ov a \<longleftrightarrow>
     list_all (\<lambda>d. da_status d \<in> {Satisfied, NotApplicable})
       (assessments (ca_dimensions a) @ map snd (ca_workflows a)) \<and>
     ca_source_build_fingerprint_digest a = ob_source_build_fingerprint_digest (ov_binding ov) \<and>
     ct_execution_environment_digest (ca_target a) = ob_execution_environment_digest (ov_binding ov)"

definition evidence_agrees ::
    "ExecutionResolutionEvidence \<Rightarrow> ExecutionLaunchPolicy \<Rightarrow> PolicyEvidenceDigests \<Rightarrow> bool" where
  "evidence_agrees r lp ev \<longleftrightarrow>
     rd_artifact_trust_evidence_digest (re_digests r) = pd_artifact_trust ev \<and>
     rd_provenance_evidence_digest (re_digests r) = pd_provenance ev \<and>
     pr_capability_policy_digest (lp_policy_requirements lp) = pd_capability_policy ev \<and>
     pr_state_policy_digest (lp_policy_requirements lp) = pd_state_policy ev"

definition evidence_fits :: "ExecutionAuthorizationLimits \<Rightarrow> ExecutionPolicyEvidence \<Rightarrow> bool" where
  "evidence_fits limits e \<longleftrightarrow>
     (let vs = [pe_artifact_trust e, pe_provenance e, pe_capability_policy e, pe_state_policy e, pe_user_policy e] in
      list_all (\<lambda>v. length v \<le> al_max_evidence_bytes limits) vs \<and>
      length (concat vs) \<le> al_max_total_evidence_bytes limits \<and> length (concat vs) < 2 ^ 64)"

definition artifact_agrees ::
    "'id RetainedExecutionArtifact \<Rightarrow> ExecutionTargetContract \<Rightarrow> ExecutionResolutionEvidence \<Rightarrow> bool" where
  "artifact_agrees artifact c r \<longleftrightarrow> matches_locator artifact (tc_artifact_locator c) \<and>
     artifact_source_digest artifact = rd_artifact_source_digest (re_digests r) \<and>
     artifact_executable_digest artifact = rd_executable_digest (re_digests r)"

subsection \<open>Reading the checks\<close>

lemma is_satisfied_by_iff: "is_satisfied_by r e \<longleftrightarrow> e = effective_of r"
  by (cases r; cases e) simp_all

lemma aggregate_Complete: "aggregate_statuses ss i = Complete \<longleftrightarrow> \<not> i \<and> list_all (\<lambda>s. s \<in> {Satisfied, NotApplicable}) ss"
  by (induction ss i rule: aggregate_statuses.induct) (auto split: DimensionStatus.split)

lemma disposition_Complete:
  "disposition a = Complete \<longleftrightarrow> list_all (\<lambda>d. da_status d \<in> {Satisfied, NotApplicable})
     (assessments (ca_dimensions a) @ map snd (ca_workflows a))"
  unfolding disposition_def aggregate_Complete by (auto simp: list_all_iff)

lemma evidence_total_Inr:
  "evidence_total limits vs t = Inr n \<longleftrightarrow> list_all (\<lambda>v. length v \<le> al_max_evidence_bytes limits) vs \<and>
     n = t + length (concat vs) \<and> (vs \<noteq> [] \<longrightarrow> n \<le> al_max_total_evidence_bytes limits \<and> n < 2 ^ 64)"
proof (induction vs arbitrary: t)
  case (Cons v vs)
  have "evidence_total limits (v # vs) t = Inr n \<longleftrightarrow> length v \<le> al_max_evidence_bytes limits \<and>
      t + length v < 2 ^ 64 \<and> t + length v \<le> al_max_total_evidence_bytes limits \<and>
      evidence_total limits vs (t + length v) = Inr n"
    by (auto simp: rbind_Inr_iff)
  with Cons.IH [of "t + length v"] show ?case
    by (cases "vs = []") auto
qed auto

lemma hash_policy_evidence_Inr:
  "hash_policy_evidence (ec_sha256 codecs) e limits = Inr ev \<longleftrightarrow>
     evidence_fits limits e \<and> ev = evidence_identity codecs e"
  by (auto simp: hash_policy_evidence_def rbind_Inr_iff evidence_total_Inr evidence_fits_def evidence_identity_def
      Let_def simp del: evidence_total.simps)

lemma check_retained_artifact_Inr:
  "check_retained_artifact b c artifact = Inr u \<longleftrightarrow> artifact_source artifact = vb_artifact_source b \<and>
     matches_locator artifact (tc_artifact_locator c) \<and>
     artifact_source_digest artifact = vb_artifact_source_digest b \<and>
     artifact_executable_digest artifact = vb_executable_digest b"
  by (simp add: check_retained_artifact_def)

lemma matches_locator_source: "matches_locator artifact l \<Longrightarrow> artifact_source artifact = locator_artifact_source l"
  by (cases artifact; cases l) simp_all

lemma verify_policy_generation_Inr:
  "verify_policy_generation store g = Inr u \<longleftrightarrow> \<not> st_poisoned store \<and>
     ps_revocation_evidence_digest (st_state store) = None \<and> ps_generation (st_state store) = g"
  by (simp add: verify_policy_generation_def)

lemma authority_pins_eq:
  "lx_authority policy = authority_identity codecs a \<longleftrightarrow>
     ax_adapter_id a = ap_adapter_id (lx_authority policy) \<and> ax_family a = ap_family (lx_authority policy) \<and>
     ax_adapter_content_digest a = ap_adapter_content_digest (lx_authority policy) \<and>
     authority_document_digest (ec_sha256 codecs) (ec_hex codecs) a = ap_authority_document_digest (lx_authority policy)"
  by (cases "lx_authority policy") (auto simp: authority_identity_def)

lemma context_pins_eq:
  "lx_context policy = context_identity b \<longleftrightarrow>
     ob_source_build_fingerprint_digest b = cp_source_build_fingerprint_digest (lx_context policy) \<and>
     ob_package_tree_merkle b = cp_package_tree_merkle (lx_context policy) \<and>
     ob_execution_environment_digest b = cp_execution_environment_digest (lx_context policy) \<and>
     ob_build_descriptor_digest b = cp_build_descriptor_digest (lx_context policy)"
  by (cases "lx_context policy") (auto simp: context_identity_def)

lemma target_pins_eq:
  "lx_target policy = target_identity c dc dr da ev \<longleftrightarrow>
     tc_target_id c = tp_target_id (lx_target policy) \<and> dc = tp_target_contract_digest (lx_target policy) \<and>
     dr = tp_resolution_evidence_digest (lx_target policy) \<and>
     pd_artifact_trust ev = tp_artifact_trust_evidence_digest (lx_target policy) \<and>
     pd_provenance ev = tp_provenance_evidence_digest (lx_target policy) \<and>
     da = tp_compatibility_analysis_digest (lx_target policy) \<and>
     pd_capability_policy ev = tp_capability_policy_digest (lx_target policy) \<and>
     pd_state_policy ev = tp_state_policy_digest (lx_target policy) \<and>
     pd_user_policy ev = tp_user_policy_digest (lx_target policy) \<and>
     tp_security_posture (lx_target policy) = effective_of (lp_required_security_posture (tc_launch_policy c)) \<and>
     lp_state_mode (tc_launch_policy c) = tp_state_mode (lx_target policy)"
  by (cases "lx_target policy") (auto simp: target_identity_def)

lemma static_target_eq:
  "static = \<lparr>at_kind = k, at_artifact_source = s, at_execution_contract_digest = d\<rparr> \<longleftrightarrow>
     at_kind static = k \<and> at_artifact_source static = s \<and> at_execution_contract_digest static = d"
  by (cases static) auto

lemma binding_eq:
  "b = \<lparr>xb_execution_contract = c, xb_artifact_source = s, xb_executable = e, xb_resolution_evidence = r\<rparr> \<longleftrightarrow>
     xb_execution_contract b = c \<and> xb_artifact_source b = s \<and> xb_executable b = e \<and> xb_resolution_evidence b = r"
  by (cases b) auto

lemma validate_execution_bindings_Inr:
  "validate_execution_bindings codecs policy proof c r = Inr b \<longleftrightarrow>
     (\<exists>cd rd. document_digest (ec_sha256 codecs) (ec_contract codecs) c = Inr cd \<and>
        document_digest (ec_sha256 codecs) (ec_resolution codecs) r = Inr rd \<and>
        lx_authority policy = authority_identity codecs (sv_authority proof) \<and>
        lx_context policy = context_identity (ov_binding (sv_overlay proof)) \<and>
        tc_target_id c = tp_target_id (lx_target policy) \<and>
        cd = tp_target_contract_digest (lx_target policy) \<and>
        rd = tp_resolution_evidence_digest (lx_target policy) \<and> documents_agree proof c r cd rd \<and>
        b = \<lparr>vb_authority_digest = authority_document_digest (ec_sha256 codecs) (ec_hex codecs) (sv_authority proof),
             vb_target_id = tc_target_id c, vb_contract_digest = cd, vb_resolution_digest = rd,
             vb_artifact_source = locator_artifact_source (tc_artifact_locator c),
             vb_artifact_source_digest = rd_artifact_source_digest (re_digests r),
             vb_executable_digest = rd_executable_digest (re_digests r)\<rparr>)"
  unfolding validate_execution_bindings_def Let_def rbind_Inr_iff ok_or_Inr_iff map_err_Inr_iff if_Inl_Inr
    documents_agree_def authority_pins_eq context_pins_eq static_target_eq binding_eq
  by (auto simp: static_target_eq binding_eq)

lemma validate_policy_evidence_Inr:
  "validate_policy_evidence codecs policy ov r a lp e limits = Inr (ev, ad) \<longleftrightarrow>
     evidence_fits limits e \<and> ev = evidence_identity codecs e \<and>
     document_digest (ec_sha256 codecs) (ec_analysis codecs) a = Inr ad \<and>
     evidence_agrees r lp ev \<and> analysis_agrees ov a \<and>
     pd_artifact_trust ev = tp_artifact_trust_evidence_digest (lx_target policy) \<and>
     pd_provenance ev = tp_provenance_evidence_digest (lx_target policy) \<and>
     ad = tp_compatibility_analysis_digest (lx_target policy) \<and>
     pd_capability_policy ev = tp_capability_policy_digest (lx_target policy) \<and>
     pd_state_policy ev = tp_state_policy_digest (lx_target policy) \<and>
     pd_user_policy ev = tp_user_policy_digest (lx_target policy) \<and>
     tp_security_posture (lx_target policy) = effective_of (lp_required_security_posture lp) \<and>
     lp_state_mode lp = tp_state_mode (lx_target policy)"
  unfolding validate_policy_evidence_def Let_def rbind_Inr_iff map_err_Inr_iff if_Inl_Inr hash_policy_evidence_Inr
    evidence_agrees_def analysis_agrees_def is_satisfied_by_iff disposition_Complete [symmetric]
  by auto

definition authorized_launch_limits :: ProcessLaunchLimits where
  "authorized_launch_limits =
     \<lparr>pll_arguments = 64, pll_argument_units = 32766, pll_command_line_units = 32767\<rparr>"

lemma authorized_launch_limits_new:
  "process_launch_limits_new MAX_EXECUTION_ARGUMENTS WINDOWS_MAX_SINGLE_VALUE_UNITS WINDOWS_MAX_COMMAND_LINE_UNITS =
     Inr authorized_launch_limits"
  by (simp add: process_launch_limits_new_def authorized_launch_limits_def windows_limits
      MAX_EXECUTION_ARGUMENTS_def WINDOWS_MAX_SINGLE_VALUE_UNITS_def WINDOWS_MAX_COMMAND_LINE_UNITS_def)

text \<open>The process a launch policy asks for, on a locked executable.\<close>

definition contract_process :: "'id LockedExecutable \<Rightarrow> ExecutionLaunchPolicy \<Rightarrow> 'id PreparedProcessLaunch" where
  "contract_process locked lp =
     \<lparr>pp_executable_path = le_path locked, pp_executable_identity = le_identity locked,
      pp_lock_instance_id = le_lock_instance_id locked, pp_application = wp_text (le_path locked) @ [0],
      pp_current_directory = the (wp_parent (le_path locked)) @ [0],
      pp_command_line = command_line_text (wp_text (le_path locked)) (map wide_of_str (lp_arguments lp)) @ [0],
      pp_environment = pe_block process_environment_empty\<rparr>"

definition launchable :: "'id LockedExecutable \<Rightarrow> ExecutionLaunchPolicy \<Rightarrow> JobLimits \<Rightarrow> bool" where
  "launchable locked lp job \<longleftrightarrow>
     lp_dependency_policy lp = VendorDefaultAmbient \<and> lp_state_mode lp = VendorDefault \<and>
     lp_environment lp = EmptyEnvironment \<and> lp_inherited_handles lp = NoInheritedHandles \<and>
     lp_console lp = NoConsole \<and> lp_working_directory lp = ExecutableParent \<and>
     launch_fits authorized_launch_limits (le_path locked) (map wide_of_str (lp_arguments lp)) \<and>
     job_limits_new (rl_active_process_limit (lp_resource_limits lp))
       (rl_process_memory_limit_bytes (lp_resource_limits lp))
       (rl_job_memory_limit_bytes (lp_resource_limits lp)) = Inr job"

lemma prepare_authorized_launch_Inr:
  "prepare_authorized_launch artifact lp = Inr p \<longleftrightarrow>
     (\<exists>job. launchable (artifact_locked artifact) lp job \<and>
        p = \<lparr>al_job_limits = job, al_process = contract_process (artifact_locked artifact) lp\<rparr>)"
  unfolding prepare_authorized_launch_def rbind_Inr_iff map_err_Inr_iff if_Inl_Inr authorized_launch_limits_new
    artifact_prepare_launch_def prepare_launch_def launchable_def contract_process_def
  by (auto simp: prepare_launch_Inr [OF authorized_launch_limits_new])

subsection \<open>The decision\<close>

definition request_granted ::
    "'je ExecutionCodecs \<Rightarrow> LocalExecutionPolicy \<Rightarrow> 'id ExecutionAuthorizationRequest \<Rightarrow>
     Sha256Digest \<Rightarrow> Sha256Digest \<Rightarrow> Sha256Digest \<Rightarrow> bool" where
  "request_granted codecs policy rq cd rd ad \<longleftrightarrow>
     document_digest (ec_sha256 codecs) (ec_contract codecs) (rq_target_contract rq) = Inr cd \<and>
     document_digest (ec_sha256 codecs) (ec_resolution codecs) (rq_resolution_evidence rq) = Inr rd \<and>
     document_digest (ec_sha256 codecs) (ec_analysis codecs) (rq_compatibility_analysis rq) = Inr ad \<and>
     lx_authority policy = authority_identity codecs (sv_authority (rq_structural_overlay rq)) \<and>
     lx_context policy = context_identity (ov_binding (sv_overlay (rq_structural_overlay rq))) \<and>
     lx_target policy =
       target_identity (rq_target_contract rq) cd rd ad (evidence_identity codecs (rq_policy_evidence rq)) \<and>
     documents_agree (rq_structural_overlay rq) (rq_target_contract rq) (rq_resolution_evidence rq) cd rd \<and>
     analysis_agrees (sv_overlay (rq_structural_overlay rq)) (rq_compatibility_analysis rq) \<and>
     evidence_agrees (rq_resolution_evidence rq) (tc_launch_policy (rq_target_contract rq))
       (evidence_identity codecs (rq_policy_evidence rq)) \<and>
     evidence_fits (rq_limits rq) (rq_policy_evidence rq) \<and>
     artifact_agrees (rq_retained_artifact rq) (rq_target_contract rq) (rq_resolution_evidence rq)"

definition granted_execution ::
    "'je ExecutionCodecs \<Rightarrow> ExecutionPolicyState \<Rightarrow> 'id ExecutionAuthorizationRequest \<Rightarrow>
     Sha256Digest \<Rightarrow> Sha256Digest \<Rightarrow> Sha256Digest \<Rightarrow> JobLimits \<Rightarrow> 'id AuthorizedExecution" where
  "granted_execution codecs state rq cd rd ad job =
     \<lparr>ae_target_id = tc_target_id (rq_target_contract rq), ae_trust_mode = lx_trust_mode (ps_policy state),
      ae_effective_security_posture = tp_security_posture (lx_target (ps_policy state)),
      ae_launch_policy = tc_launch_policy (rq_target_contract rq),
      ae_authorization_context_digest =
        ec_sha256 codecs (authorization_context_preimage (tc_target_id (rq_target_contract rq))
          \<lparr>cx_authority_document = authority_document_digest (ec_sha256 codecs) (ec_hex codecs)
             (sv_authority (rq_structural_overlay rq)),
           cx_target_contract = cd, cx_resolution_evidence = rd,
           cx_artifact_source = artifact_source_digest (rq_retained_artifact rq),
           cx_executable = artifact_executable_digest (rq_retained_artifact rq),
           cx_compatibility_analysis = ad,
           cx_policy_evidence = evidence_identity codecs (rq_policy_evidence rq)\<rparr>
          (ps_policy state) (ps_generation state)),
      ae_policy_generation = ps_generation state,
      ae_prepared_launch = \<lparr>al_job_limits = job,
        al_process = contract_process (artifact_locked (rq_retained_artifact rq))
          (tc_launch_policy (rq_target_contract rq))\<rparr>,
      ae_retained_artifact = rq_retained_artifact rq\<rparr>"

definition store_live :: "LocalExecutionPolicyStore \<Rightarrow> bool" where
  "store_live s \<longleftrightarrow> \<not> st_poisoned s \<and> ps_revocation_evidence_digest (st_state s) = None"

lemma authorize_execution_Inr:
  "authorize_execution codecs verify_current s0 s1 rq = Inr a \<longleftrightarrow>
     store_live s0 \<and> store_live s1 \<and> ps_generation (st_state s1) = ps_generation (st_state s0) \<and>
     verify_current (rq_retained_artifact rq) \<and> length (tc_target_id (rq_target_contract rq)) < 2 ^ 64 \<and>
     (\<exists>cd rd ad job. request_granted codecs (ps_policy (st_state s0)) rq cd rd ad \<and>
        launchable (artifact_locked (rq_retained_artifact rq)) (tc_launch_policy (rq_target_contract rq)) job \<and>
        a = granted_execution codecs (st_state s0) rq cd rd ad job)"
  (is "?l \<longleftrightarrow> ?r")
proof
  assume ?l
  then show ?r
    unfolding authorize_execution_def Let_def rbind_Inr_iff if_Inl_Inr store_snapshot_def
      check_retained_artifact_Inr prepare_authorized_launch_Inr verify_policy_generation_Inr
      artifact_verify_current_def authorization_context_digest_def
    by (fastforce simp: validate_execution_bindings_Inr validate_policy_evidence_Inr store_live_def
        rbind_Inr_iff if_Inl_Inr check_retained_artifact_Inr prepare_authorized_launch_Inr
        verify_policy_generation_Inr request_granted_def granted_execution_def target_pins_eq artifact_agrees_def
        split: if_splits)
next
  assume ?r
  then show ?l
    unfolding authorize_execution_def Let_def
    by (fastforce simp: validate_execution_bindings_Inr validate_policy_evidence_Inr store_live_def store_snapshot_def
        rbind_Inr_iff if_Inl_Inr check_retained_artifact_Inr prepare_authorized_launch_Inr
        verify_policy_generation_Inr request_granted_def granted_execution_def target_pins_eq artifact_agrees_def
        artifact_verify_current_def authorization_context_digest_def matches_locator_source)
qed

text \<open>
  C2: authorization is exact. An execution is authorized exactly when the store is live at the
  snapshot and still live at the same generation at the re-check, the policy pins are the
  identities of the presented authority, overlay context, contract, resolution, analysis and
  evidence, those documents agree with each other, the compatibility analysis is complete, the
  evidence is within its limits, the retained executable is the one the contract locates with
  the resolved digests and is current, and the launch policy is one that can be prepared. The
  authorization then carries exactly that contract, generation and prepared launch, and the
  digest of all the identities.
\<close>

theorem authorize_execution_exact:
  "authorize_execution codecs verify_current s0 s1 rq = Inr a \<longleftrightarrow>
     store_live s0 \<and> store_live s1 \<and> ps_generation (st_state s1) = ps_generation (st_state s0) \<and>
     verify_current (rq_retained_artifact rq) \<and> length (tc_target_id (rq_target_contract rq)) < 2 ^ 64 \<and>
     evidence_fits (rq_limits rq) (rq_policy_evidence rq) \<and>
     artifact_agrees (rq_retained_artifact rq) (rq_target_contract rq) (rq_resolution_evidence rq) \<and>
     analysis_agrees (sv_overlay (rq_structural_overlay rq)) (rq_compatibility_analysis rq) \<and>
     evidence_agrees (rq_resolution_evidence rq) (tc_launch_policy (rq_target_contract rq))
       (evidence_identity codecs (rq_policy_evidence rq)) \<and>
     (\<exists>cd rd ad job trust revision.
        document_digest (ec_sha256 codecs) (ec_contract codecs) (rq_target_contract rq) = Inr cd \<and>
        document_digest (ec_sha256 codecs) (ec_resolution codecs) (rq_resolution_evidence rq) = Inr rd \<and>
        document_digest (ec_sha256 codecs) (ec_analysis codecs) (rq_compatibility_analysis rq) = Inr ad \<and>
        documents_agree (rq_structural_overlay rq) (rq_target_contract rq) (rq_resolution_evidence rq) cd rd \<and>
        launchable (artifact_locked (rq_retained_artifact rq)) (tc_launch_policy (rq_target_contract rq)) job \<and>
        ps_policy (st_state s0) =
          \<lparr>lx_trust_mode = trust, lx_authority = authority_identity codecs (sv_authority (rq_structural_overlay rq)),
           lx_context = context_identity (ov_binding (sv_overlay (rq_structural_overlay rq))),
           lx_target =
             target_identity (rq_target_contract rq) cd rd ad (evidence_identity codecs (rq_policy_evidence rq)),
           lx_revision_digest = revision\<rparr> \<and>
        a = granted_execution codecs (st_state s0) rq cd rd ad job)"
proof -
  have policy: "(\<exists>trust revision. P = \<lparr>lx_trust_mode = trust, lx_authority = x, lx_context = y, lx_target = z,
      lx_revision_digest = revision\<rparr>) \<longleftrightarrow> lx_authority P = x \<and> lx_context P = y \<and> lx_target P = z" for P x y z
    by (cases P) auto
  show ?thesis
    unfolding authorize_execution_Inr request_granted_def by (simp add: policy) blast
qed

end
