(* ===== verification/Authorization_Lifetime.thy ===== *)
theory Authorization_Lifetime
  imports Authorization_Exact
begin

section \<open>How long an authorization is good for\<close>

text \<open>
  The policy store as a machine whose operations interleave with an authorization and with
  the launch that consumes it: the store of the snapshot, the store of the re-check and the
  store of the launch are three states of one run.
\<close>

datatype StoreOp = ReplacePolicy LocalExecutionPolicy | RevokePolicy Sha256Digest

fun store_step :: "LocalExecutionPolicyStore \<Rightarrow> StoreOp \<Rightarrow> (ExecutionAuthorizationError + unit) \<times> LocalExecutionPolicyStore" where
  "store_step s (ReplacePolicy p) = store_replace_policy s p"
| "store_step s (RevokePolicy d) = store_revoke s d"

lemma store_step_err: "fst (store_step s x) = Inl e \<Longrightarrow> snd (store_step s x) = s"
  by (cases x) (auto simp: store_replace_policy_def store_revoke_def split: if_splits option.splits)

lemma store_step_poisoned: "st_poisoned (snd (store_step s x)) = st_poisoned s"
  by (cases x) (auto simp: store_replace_policy_def store_revoke_def split: option.splits)

lemma store_step_generation:
  "fst (store_step s x) = Inr u \<Longrightarrow>
     unat (ps_generation (st_state (snd (store_step s x)))) = Suc (unat (ps_generation (st_state s)))"
  by (cases x) (auto simp: store_replace_policy_def store_revoke_def dest!: checked_add_unat split: if_splits option.splits)

interpretation policy_store: transactional_machine store_step "\<lambda>s. st_poisoned s = b" for b
  by unfold_locales (auto simp: store_step_poisoned store_step_err)

lemma run_generation:
  "unat (ps_generation (st_state (run_ops store_step s xs))) =
     unat (ps_generation (st_state s)) + length (accepted_ops store_step s xs)"
proof (induction xs arbitrary: s)
  case (Cons x xs)
  show ?case
    using Cons.IH [of "snd (store_step s x)"] store_step_generation [of s x] store_step_err [of s x]
    by (cases "fst (store_step s x)") auto
qed simp

lemma same_generation_iff:
  "ps_generation (st_state (run_ops store_step s xs)) = ps_generation (st_state s) \<longleftrightarrow>
     accepted_ops store_step s xs = []"
  using run_generation [of s xs] by (metis add.right_neutral add_left_cancel length_0_conv word_unat_eq_iff)

lemma unchanged_iff:
  "accepted_ops store_step s xs = [] \<Longrightarrow> run_ops store_step s xs = s"
  using policy_store.run_accepted [of s xs] by simp

text \<open>What a launch does with an authorization, once the store and the view were checked.\<close>

definition start_process ::
    "(JobLimits \<Rightarrow> IoError + 'j) \<Rightarrow>
     ('j \<Rightarrow> 'id LockedExecutable \<Rightarrow> 'id PreparedProcessLaunch \<Rightarrow> IoError + 'p) \<Rightarrow> JobLimits \<Rightarrow>
     'id LockedExecutable \<Rightarrow> ExecutionLaunchPolicy \<Rightarrow> SupervisedExecutionError + 'p" where
  "start_process create_job create_process job locked lp =
     (case create_job job of
        Inl e \<Rightarrow> Inl (SupervisedJobCreation e)
      | Inr j \<Rightarrow> (case create_process j locked (contract_process locked lp) of
          Inl e \<Rightarrow> Inl (SupervisedProcessLaunch e)
        | Inr p \<Rightarrow> Inr p))"

lemma launch_prepared_contract [simp]:
  "launch_prepared create_process locked (contract_process locked lp) = create_process locked (contract_process locked lp)"
  by (simp add: launch_prepared_def contract_process_def)

lemma contract_process_argv:
  assumes "launchable locked lp job" "program_name_ok (wp_text (le_path locked))"
  shows "crt_argv (pp_command_line (contract_process locked lp)) =
    wp_text (le_path locked) # map wide_of_str (lp_arguments lp)"
  using assms crt_argv_text [OF assms(2), of "map wide_of_str (lp_arguments lp)"]
  by (auto simp: launchable_def launch_fits_def line_fits_def contract_process_def list_all_iff)

lemma local_policy_trust:
  "local_execution_policy_new trust au cx tg revision = Inr p \<Longrightarrow> tp_state_mode (lx_target p) = VendorDefault \<Longrightarrow>
     trust = LocallyTrusted \<and> lx_trust_mode p = LocallyTrusted \<and>
     tp_security_posture (lx_target p) = EffectiveVendorEquivalentFullTrust"
  by (auto simp: local_execution_policy_new_def rbind_Inr_iff split: TrustMode.splits if_splits)

lemma launch_granted:
  assumes live: "store_live s" and policy: "lx_trust_mode (ps_policy (st_state s)) = LocallyTrusted"
      "tp_security_posture (lx_target (ps_policy (st_state s))) = EffectiveVendorEquivalentFullTrust"
    and a: "a = granted_execution codecs (st_state s) rq cd rd ad job"
  shows "launch_authorized_execution create_job create_process current (Some (run_ops store_step s later)) a =
    (if accepted_ops store_step s later \<noteq> []
     then Inl (SupervisedAuthorization
       (if ps_revocation_evidence_digest (st_state (run_ops store_step s later)) \<noteq> None
        then EaPolicyRevoked else EaPolicyChanged))
     else if \<not> current (rq_retained_artifact rq)
     then Inl (SupervisedAuthorization EaRetainedArtifactCurrentViewInvalid)
     else rbind (start_process create_job create_process job (artifact_locked (rq_retained_artifact rq))
         (tc_launch_policy (rq_target_contract rq))) (\<lambda>p.
       Inr \<lparr>se_process = p, se_target_id = ae_target_id a, se_trust_mode = LocallyTrusted,
            se_effective_security_posture = EffectiveVendorEquivalentFullTrust,
            se_launch_policy = tc_launch_policy (rq_target_contract rq),
            se_authorization_context_digest = ae_authorization_context_digest a,
            se_retained_source = artifact_source (rq_retained_artifact rq),
            se_policy_generation = ps_generation (st_state s)\<rparr>))"
proof (cases "accepted_ops store_step s later = []")
  case True
  then show ?thesis
    using live policy unfolding unchanged_iff [OF True] a
    by (auto simp: launch_authorized_execution_def verify_current_policy_def store_snapshot_def store_live_def
        verify_policy_state_def granted_execution_def artifact_verify_current_def start_process_def
        split: sum.splits)
next
  case False
  have "\<not> st_poisoned (run_ops store_step s later)"
    using live policy_store.run_inv [of s False later] by (simp add: store_live_def)
  moreover have "ps_generation (st_state (run_ops store_step s later)) \<noteq> ps_generation (st_state s)"
    using False by (simp add: same_generation_iff)
  ultimately show ?thesis
    using False unfolding a
    by (simp add: launch_authorized_execution_def verify_current_policy_def store_snapshot_def
        verify_policy_state_def granted_execution_def)
qed

text \<open>
  C11: an authorization lives exactly as long as the store state it was decided on. Let any
  calls run on the store between the snapshot and the re-check of an authorization, and any
  more before its launch. If it was authorized, none of the first was accepted. The launch
  is refused if any of the later ones was (as revoked or as changed, by the state then), or
  if the store is gone; otherwise, with the file still current, it creates the job with the
  contract's resource limits and starts in it the retained executable with exactly the
  contract's arguments and an empty environment, and reports the authorized target,
  generation and digest. Only a locally trusted, full-trust policy gets that far.
\<close>

theorem authorization_lifetime:
  assumes authorized: "authorize_execution codecs current s0 (run_ops store_step s0 during) rq = Inr a"
    and "program_name_ok (wp_text (le_path (artifact_locked (rq_retained_artifact rq))))"
    and "local_execution_policy_new trust au cx tg revision = Inr (ps_policy (st_state s0))"
  shows "accepted_ops store_step s0 during = [] \<and> trust = LocallyTrusted \<and>
    launch_authorized_execution create_job create_process current' None a =
      Inl (SupervisedAuthorization EaPolicyStoreUnavailable) \<and>
    (\<exists>job. let locked = artifact_locked (rq_retained_artifact rq); lp = tc_launch_policy (rq_target_contract rq);
         s2 = run_ops store_step (run_ops store_step s0 during) later in
       launchable locked lp job \<and>
       crt_argv (pp_command_line (contract_process locked lp)) =
         wp_text (le_path locked) # map wide_of_str (lp_arguments lp) \<and>
       read_environment (pp_environment (contract_process locked lp)) = [] \<and>
       launch_authorized_execution create_job create_process current' (Some s2) a =
         (if accepted_ops store_step s0 later \<noteq> []
          then Inl (SupervisedAuthorization
            (if ps_revocation_evidence_digest (st_state s2) \<noteq> None then EaPolicyRevoked else EaPolicyChanged))
          else if \<not> current' (rq_retained_artifact rq)
          then Inl (SupervisedAuthorization EaRetainedArtifactCurrentViewInvalid)
          else rbind (start_process create_job create_process job locked lp) (\<lambda>p.
            Inr \<lparr>se_process = p, se_target_id = ae_target_id a, se_trust_mode = LocallyTrusted,
                 se_effective_security_posture = EffectiveVendorEquivalentFullTrust, se_launch_policy = lp,
                 se_authorization_context_digest = ae_authorization_context_digest a,
                 se_retained_source = artifact_source (rq_retained_artifact rq),
                 se_policy_generation = ps_generation (st_state s0)\<rparr>)))"
proof -
  let ?locked = "artifact_locked (rq_retained_artifact rq)"
  let ?lp = "tc_launch_policy (rq_target_contract rq)"
  obtain cd rd ad job where live: "store_live s0"
      and same: "ps_generation (st_state (run_ops store_step s0 during)) = ps_generation (st_state s0)"
      and granted: "request_granted codecs (ps_policy (st_state s0)) rq cd rd ad"
      and job: "launchable ?locked ?lp job" and a: "a = granted_execution codecs (st_state s0) rq cd rd ad job"
    using authorized unfolding authorize_execution_Inr by blast
  have during: "accepted_ops store_step s0 during = []" "run_ops store_step s0 during = s0"
    using same by (simp_all add: same_generation_iff unchanged_iff)
  have "tp_state_mode (lx_target (ps_policy (st_state s0))) = VendorDefault"
    using granted job by (simp add: request_granted_def target_identity_def launchable_def)
  then have trust: "lx_trust_mode (ps_policy (st_state s0)) = LocallyTrusted"
      "tp_security_posture (lx_target (ps_policy (st_state s0))) = EffectiveVendorEquivalentFullTrust"
    and "trust = LocallyTrusted"
    using local_policy_trust [OF assms(3)] by blast+
  have "read_environment (pp_environment (contract_process ?locked ?lp)) = []"
    by (simp add: contract_process_def process_environment_empty_def read_environment.simps [of "[0, 0]"])
  moreover have "launch_authorized_execution create_job create_process current' None a =
      Inl (SupervisedAuthorization EaPolicyStoreUnavailable)"
    by (simp add: launch_authorized_execution_def verify_current_policy_def)
  ultimately show ?thesis
    unfolding Let_def during(2)
    by (intro conjI exI [of _ job] during(1) job \<open>trust = LocallyTrusted\<close>
        contract_process_argv [OF job assms(2)] launch_granted [OF live trust a])
qed

text \<open>A request that is authorized: one managed target, with one argument that needs quotes.\<close>

definition example_codecs :: "unit ExecutionCodecs" where
  "example_codecs = \<lparr>ec_sha256 = \<lambda>_. [9], ec_hex = \<lambda>_. [], ec_contract = \<lambda>_. Inr [1], ec_resolution = \<lambda>_. Inr [2],
     ec_analysis = \<lambda>_. Inr [3]\<rparr>"

definition example_execution_authority :: AdapterExecutionAuthority where
  "example_execution_authority = \<lparr>ax_adapter_id = ''a'', ax_family = ''f'', ax_adapter_content_digest = [1],
     ax_targets = [(''t'', \<lparr>at_kind = MainRuntime, at_artifact_source = SourceManagedArtifact,
       at_execution_contract_digest = [9]\<rparr>)]\<rparr>"

definition example_overlay :: GeneratedExecutionOverlay where
  "example_overlay = \<lparr>ov_binding = \<lparr>ob_source_build_fingerprint_digest = [2], ob_package_tree_merkle = [3],
       ob_execution_environment_digest = [4],
       ob_authority = authority_binding_from_authority (\<lambda>_. [9]) (\<lambda>_. []) example_execution_authority,
       ob_build_descriptor_digest = [5]\<rparr>,
     ov_bindings = [(''t'', \<lparr>xb_execution_contract = [9], xb_artifact_source = [6], xb_executable = [7],
       xb_resolution_evidence = [9]\<rparr>)]\<rparr>"

definition example_contract :: ExecutionTargetContract where
  "example_contract = \<lparr>tc_target_id = ''t'', tc_kind = MainRuntime, tc_artifact_locator = ManagedArtifactLocator [7],
     tc_launch_policy = \<lparr>lp_arguments = [''x y''], lp_environment = EmptyEnvironment,
       lp_inherited_handles = NoInheritedHandles, lp_console = NoConsole, lp_working_directory = ExecutableParent,
       lp_dependency_policy = VendorDefaultAmbient,
       lp_required_security_posture = RequiredVendorEquivalentFullTrust, lp_state_mode = VendorDefault,
       lp_resource_limits = \<lparr>rl_active_process_limit = 1, rl_process_memory_limit_bytes = 1,
         rl_job_memory_limit_bytes = 1\<rparr>,
       lp_policy_requirements = \<lparr>pr_capability_policy_digest = [9], pr_state_policy_digest = [9]\<rparr>\<rparr>\<rparr>"

definition example_resolution :: ExecutionResolutionEvidence where
  "example_resolution = \<lparr>re_target_id = ''t'', re_artifact_locator = ManagedArtifactLocator [7],
     re_digests = \<lparr>rd_execution_contract_digest = [9], rd_artifact_source_digest = [6], rd_executable_digest = [7],
       rd_artifact_trust_evidence_digest = [9], rd_provenance_evidence_digest = [9]\<rparr>\<rparr>"

definition example_analysis :: CompatibilityAnalysis where
  "example_analysis =
     (let ok = \<lparr>da_status = Satisfied, da_evidence = []\<rparr> in
      \<lparr>ca_source_build_fingerprint_digest = [2],
       ca_target = \<lparr>ct_adapter_contract_digest = [1], ct_main_runtime_contract_digest = [1],
         ct_renderer_backend_contract_digest = [1], ct_execution_environment_digest = [4]\<rparr>,
       ca_dimensions = \<lparr>cd_package = ok, cd_main_runtime = ok, cd_renderer = ok, cd_preload = ok,
         cd_electron_api = ok, cd_node_api = ok, cd_native_modules = ok, cd_helpers = ok, cd_state = ok,
         cd_security = ok\<rparr>,
       ca_workflows = []\<rparr>)"

definition example_request :: "unit ExecutionAuthorizationRequest" where
  "example_request =
     \<lparr>rq_structural_overlay = \<lparr>sv_overlay = example_overlay, sv_authority = example_execution_authority\<rparr>,
      rq_target_contract = example_contract, rq_resolution_evidence = example_resolution,
      rq_compatibility_analysis = example_analysis,
      rq_policy_evidence = \<lparr>pe_artifact_trust = [], pe_provenance = [], pe_capability_policy = [],
        pe_state_policy = [], pe_user_policy = []\<rparr>,
      rq_retained_artifact = RetainedManagedArtifact
        \<lparr>mx_digest = [7], mx_manifest_digest = [6],
         mx_locked = \<lparr>le_path = example_path, le_identity = (), le_lock_instance_id = 1\<rparr>\<rparr>,
      rq_limits = \<lparr>al_max_evidence_bytes = 8, al_max_total_evidence_bytes = 16\<rparr>\<rparr>"

definition example_store :: LocalExecutionPolicyStore where
  "example_store = policy_store_new
     \<lparr>lx_trust_mode = LocallyTrusted, lx_authority = authority_identity example_codecs example_execution_authority,
      lx_context = context_identity (ov_binding example_overlay),
      lx_target = target_identity example_contract [9] [9] [9]
        (evidence_identity example_codecs (rq_policy_evidence example_request)),
      lx_revision_digest = [8]\<rparr>"

lemmas example_defs = example_codecs_def example_execution_authority_def example_overlay_def example_contract_def
  example_resolution_def example_analysis_def example_request_def example_store_def example_path_def

lemma example_argument: "wide_of_str ''x y'' = [0x78, 0x20, 0x79]"
  by (simp add: wide_of_str_def chars_def str_bytes_def char_byte_def utf16_encode_def)

lemma example_authorized:
  "authorize_execution example_codecs (\<lambda>_. True) example_store example_store example_request =
     Inr (granted_execution example_codecs (st_state example_store) example_request [9] [9] [9]
       \<lparr>jl_active_processes = 1, jl_process_memory_bytes = 1, jl_job_memory_bytes = 1\<rparr>)"
proof -
  have "request_granted example_codecs (ps_policy (st_state example_store)) example_request [9] [9] [9]"
    by (simp add: request_granted_def example_defs policy_store_new_def document_digest_def documents_agree_def
        analysis_agrees_def evidence_agrees_def evidence_fits_def artifact_agrees_def evidence_identity_def
        bt_get_def assessments_def Let_def)
  moreover have "launchable (artifact_locked (rq_retained_artifact example_request))
      (tc_launch_policy (rq_target_contract example_request))
      \<lparr>jl_active_processes = 1, jl_process_memory_bytes = 1, jl_job_memory_bytes = 1\<rparr>"
    by (simp add: launchable_def example_defs launch_fits_def line_fits_def command_line_text_def quoted_def
        needs_quotes_def authorized_launch_limits_def job_limits_new_def example_argument)
  moreover have "store_live example_store" "length (tc_target_id (rq_target_contract example_request)) < 2 ^ 64"
    by (simp_all add: store_live_def example_defs policy_store_new_def)
  ultimately show ?thesis
    unfolding authorize_execution_Inr by blast
qed

theorem authorization_lifetime_witness:
  "\<exists>a p. authorize_execution example_codecs (\<lambda>_. True) example_store example_store example_request = Inr a \<and>
     launch_authorized_execution (\<lambda>j. Inr ()) (\<lambda>j l p. Inr (pp_command_line p)) (\<lambda>_. True)
       (Some (run_ops store_step example_store [RevokePolicy [7]])) a =
       Inl (SupervisedAuthorization EaPolicyRevoked) \<and>
     launch_authorized_execution (\<lambda>j. Inr ()) (\<lambda>j l p. Inr (pp_command_line p)) (\<lambda>_. True)
       (Some example_store) a = Inr p \<and>
     crt_argv (se_process p) = wp_text example_path # [wide_of_str ''x y'']"
proof -
  let ?policy = "ps_policy (st_state example_store)"
  have 1: "authorize_execution example_codecs (\<lambda>_. True) example_store (run_ops store_step example_store [])
      example_request = Inr (granted_execution example_codecs (st_state example_store) example_request [9] [9] [9]
       \<lparr>jl_active_processes = 1, jl_process_memory_bytes = 1, jl_job_memory_bytes = 1\<rparr>)"
    using example_authorized by simp
  have 2: "program_name_ok (wp_text (le_path (artifact_locked (rq_retained_artifact example_request))))"
    by (simp add: program_name_ok_def example_defs)
  have 3: "local_execution_policy_new LocallyTrusted (lx_authority ?policy) (lx_context ?policy) (lx_target ?policy)
      [8] = Inr ?policy"
    by (simp add: local_execution_policy_new_def example_store_def policy_store_new_def target_identity_def
        example_contract_def)
  have revoked: "accepted_ops store_step example_store [RevokePolicy [7]] \<noteq> []"
      "ps_revocation_evidence_digest (st_state (run_ops store_step example_store [RevokePolicy [7]])) \<noteq> None"
    by (simp_all add: example_store_def policy_store_new_def store_revoke_def checked_add_def)
  have args: "lp_arguments (tc_launch_policy (rq_target_contract example_request)) = [''x y'']"
      "artifact_locked (rq_retained_artifact example_request) =
        \<lparr>le_path = example_path, le_identity = (), le_lock_instance_id = 1\<rparr>"
    by (simp_all add: example_request_def example_contract_def)
  show ?thesis
    using authorization_lifetime [OF 1 2 3, of "\<lambda>j. Inr ()" "\<lambda>j l p. Inr (pp_command_line p)" "\<lambda>_. True"
        "[RevokePolicy [7]]"]
      authorization_lifetime [OF 1 2 3, of "\<lambda>j. Inr ()" "\<lambda>j l p. Inr (pp_command_line p)" "\<lambda>_. True" "[]"]
      revoked 1
    by (simp add: Let_def start_process_def args)
qed

end
