(* ===== verification/Authorization_Binding.thy ===== *)
theory Authorization_Binding
  imports Authorization_Exact
begin

section \<open>What the hashed documents determine\<close>

text \<open>
  Digests are only as good as the bytes they are taken of. The canonical authority document
  and the preimage of the authorization context are injective: two authorities, or two
  authorization contexts, with the same bytes are the same.
\<close>

definition digest_ok :: "Sha256Digest \<Rightarrow> bool" where
  "digest_ok d \<longleftrightarrow> length d = 32"

definition hex_text :: "(bytes \<Rightarrow> string) \<Rightarrow> bool" where
  "hex_text hex \<longleftrightarrow> inj_on hex {d. digest_ok d} \<and> (\<forall>d. digest_ok d \<longrightarrow> CHR 0x22 \<notin> set (hex d))"

definition authority_digests_ok :: "AdapterExecutionAuthority \<Rightarrow> bool" where
  "authority_digests_ok a \<longleftrightarrow> digest_ok (ax_adapter_content_digest a) \<and>
     list_all (\<lambda>(k, t). digest_ok (at_execution_contract_digest t)) (ax_targets a)"

subsection \<open>Quoted text\<close>

lemma quote_text_append_eq:
  assumes "CHR 0x22 \<notin> set s" "CHR 0x22 \<notin> set t"
  shows "quote_text s @ x = quote_text t @ y \<longleftrightarrow> s = t \<and> x = y"
proof -
  have "s @ CHR 0x22 # x = t @ CHR 0x22 # y \<longleftrightarrow> s = t \<and> x = y"
    using assms
  proof (induction s arbitrary: t)
    case Nil
    then show ?case by (cases t) auto
  next
    case (Cons c s)
    then show ?case by (cases t) auto
  qed
  then show ?thesis
    by (simp add: quote_text_def)
qed

lemma schema_pattern_unquoted: "schema_pattern s \<Longrightarrow> CHR 0x22 \<notin> set s"
proof -
  have q: "\<not> name_inner CHR 0x22" "\<not> name_edge CHR 0x22"
    by (simp_all add: name_edge_def name_inner_def is_ascii_lowercase_def is_ascii_digit_def)
  show "schema_pattern s \<Longrightarrow> CHR 0x22 \<notin> set s"
    using q by (auto simp: schema_pattern_def list_all_iff)
qed

lemma kind_text_unquoted: "CHR 0x22 \<notin> set (execution_target_kind_text k)"
  by (cases k) simp_all

lemma kind_text_inj: "execution_target_kind_text k = execution_target_kind_text k' \<longleftrightarrow> k = k'"
  by (cases k; cases k') simp_all

lemma source_text_unquoted: "CHR 0x22 \<notin> set (execution_artifact_source_text k)"
  by (cases k) simp_all

lemma source_text_inj: "execution_artifact_source_text k = execution_artifact_source_text k' \<longleftrightarrow> k = k'"
  by (cases k; cases k') simp_all

lemma digest_text:
  assumes "hex_text hex" "digest_ok d"
  shows "CHR 0x22 \<notin> set (canonical_digest_text hex d)"
    and "digest_ok e \<Longrightarrow> canonical_digest_text hex d = canonical_digest_text hex e \<longleftrightarrow> d = e"
  using assms by (auto simp: hex_text_def canonical_digest_text_def inj_on_def)

lemmas unquoted = schema_pattern_unquoted kind_text_unquoted source_text_unquoted digest_text(1)

lemma target_text_append_eq:
  assumes "hex_text hex" "schema_pattern (fst p)" "schema_pattern (fst q)"
    "digest_ok (at_execution_contract_digest (snd p))" "digest_ok (at_execution_contract_digest (snd q))"
  shows "target_text hex p @ x = target_text hex q @ y \<longleftrightarrow> p = q \<and> x = y"
proof -
  have "target_text hex p @ x = target_text hex q @ y \<longleftrightarrow>
      fst p = fst q \<and> at_kind (snd p) = at_kind (snd q) \<and> at_artifact_source (snd p) = at_artifact_source (snd q) \<and>
      at_execution_contract_digest (snd p) = at_execution_contract_digest (snd q) \<and> x = y"
    using assms unfolding target_text_def append_assoc
    by (simp add: quote_text_append_eq unquoted kind_text_inj source_text_inj digest_text(2))
  then show ?thesis
    by (cases p; cases q; cases "snd p"; cases "snd q") auto
qed

definition targets_ok :: "(ExecutionTargetId \<times> AuthorizedExecutionTargetRef) list \<Rightarrow> bool" where
  "targets_ok ts \<longleftrightarrow> list_all (\<lambda>p. schema_pattern (fst p) \<and> digest_ok (at_execution_contract_digest (snd p))) ts"

lemma targets_text_eq:
  assumes "hex_text hex" "targets_ok ts" "targets_ok us"
  shows "targets_text hex f ts @ ''}}'' = targets_text hex f us @ ''}}'' \<longleftrightarrow> ts = us"
  using assms(2,3)
proof (induction ts arbitrary: us f)
  case Nil
  then show ?case
    by (cases us) (auto simp: target_text_def quote_text_def)
next
  case (Cons p ts)
  show ?case
  proof (cases us)
    case Nil
    then show ?thesis by (auto simp: target_text_def quote_text_def)
  next
    case (Cons q us')
    then have "targets_text hex f (p # ts) @ ''}}'' = targets_text hex f us @ ''}}'' \<longleftrightarrow>
        target_text hex p @ targets_text hex False ts @ ''}}'' = target_text hex q @ targets_text hex False us' @ ''}}''"
      by auto
    also have "\<dots> \<longleftrightarrow> p = q \<and> ts = us'"
      using Cons.IH [of us' False] Cons.prems assms(1) Cons
      by (subst target_text_append_eq) (auto simp: targets_ok_def)
    finally show ?thesis
      using Cons by simp
  qed
qed

lemma authority_document_inj:
  assumes "hex_text hex" "authority_wf a" "authority_wf b" "authority_digests_ok a" "authority_digests_ok b"
  shows "authority_document hex a = authority_document hex b \<longleftrightarrow> a = b"
proof -
  have ts: "targets_ok (ax_targets a)" "targets_ok (ax_targets b)"
    using assms(2-5) by (auto simp: targets_ok_def authority_wf_def authority_digests_ok_def list_all_iff)
  have "authority_document hex a = authority_document hex b \<longleftrightarrow>
      ax_adapter_id a = ax_adapter_id b \<and> ax_family a = ax_family b \<and>
      ax_adapter_content_digest a = ax_adapter_content_digest b \<and> ax_targets a = ax_targets b"
    using assms targets_text_eq [OF assms(1) ts, of True]
    unfolding authority_document_def append_assoc authority_wf_def authority_digests_ok_def
    by (simp add: quote_text_append_eq unquoted digest_text(2))
  then show ?thesis
    by (cases a; cases b) auto
qed

subsection \<open>The authorization context\<close>

lemma to_le_8_eq:
  assumes "m < 2 ^ 64" "n < 2 ^ 64"
  shows "to_le 8 m = to_le 8 n \<longleftrightarrow> m = n"
proof
  have "le_nat (to_le 8 k) = k" if "k < 2 ^ 64" for k
    using that by (simp add: le_nat_to_le)
  then show "to_le 8 m = to_le 8 n \<Longrightarrow> m = n"
    using assms by metis
qed simp

lemma trust_mode_byte_inj: "trust_mode_byte t = trust_mode_byte u \<longleftrightarrow> t = u"
  by (cases t; cases u) simp_all

definition context_ok :: "ExecutionTargetId \<Rightarrow> AuthorizationContextDigests \<Rightarrow> LocalExecutionPolicy \<Rightarrow> bool" where
  "context_ok t d p \<longleftrightarrow> length t < 2 ^ 64 \<and>
     list_all digest_ok [cx_authority_document d, cp_source_build_fingerprint_digest (lx_context p),
       cp_package_tree_merkle (lx_context p), cp_execution_environment_digest (lx_context p),
       cp_build_descriptor_digest (lx_context p), cx_target_contract d, cx_resolution_evidence d,
       cx_artifact_source d, cx_executable d, cx_compatibility_analysis d,
       pd_artifact_trust (cx_policy_evidence d), pd_provenance (cx_policy_evidence d),
       pd_capability_policy (cx_policy_evidence d), pd_state_policy (cx_policy_evidence d),
       pd_user_policy (cx_policy_evidence d), lx_revision_digest p]"

lemma evidence_digests_eq:
  "e = f \<longleftrightarrow> pd_artifact_trust e = pd_artifact_trust f \<and> pd_provenance e = pd_provenance f \<and>
     pd_capability_policy e = pd_capability_policy f \<and> pd_state_policy e = pd_state_policy f \<and>
     pd_user_policy e = pd_user_policy f"
  for e f :: PolicyEvidenceDigests
  by (cases e; cases f) auto

lemma context_digests_eq:
  "d = e \<longleftrightarrow> cx_authority_document d = cx_authority_document e \<and> cx_target_contract d = cx_target_contract e \<and>
     cx_resolution_evidence d = cx_resolution_evidence e \<and> cx_artifact_source d = cx_artifact_source e \<and>
     cx_executable d = cx_executable e \<and> cx_compatibility_analysis d = cx_compatibility_analysis e \<and>
     cx_policy_evidence d = cx_policy_evidence e"
  for d e :: AuthorizationContextDigests
  by (cases d; cases e) auto

lemma context_pins_eq_iff:
  "c = e \<longleftrightarrow> cp_source_build_fingerprint_digest c = cp_source_build_fingerprint_digest e \<and>
     cp_package_tree_merkle c = cp_package_tree_merkle e \<and>
     cp_execution_environment_digest c = cp_execution_environment_digest e \<and>
     cp_build_descriptor_digest c = cp_build_descriptor_digest e"
  for c e :: ExecutionContextPins
  by (cases c; cases e) auto

lemma target_prefix_eq:
  assumes "length t < 2 ^ 64" "length u < 2 ^ 64"
  shows "to_le 8 (length t) @ str_bytes t @ x = to_le 8 (length u) @ str_bytes u @ y \<longleftrightarrow> t = u \<and> x = y"
  using assms by (auto simp: to_le_8_eq append_eq_append_conv)

lemma context_preimage_inj:
  assumes "context_ok t d p" "context_ok u e q"
  shows "authorization_context_preimage t d p g = authorization_context_preimage u e q h \<longleftrightarrow>
     t = u \<and> d = e \<and> lx_context p = lx_context q \<and> lx_revision_digest p = lx_revision_digest q \<and> g = h \<and>
     lx_trust_mode p = lx_trust_mode q"
proof -
  have g: "to_le 8 (unat g) = to_le 8 (unat h) \<longleftrightarrow> g = h"
    using unsigned_less [of g, where ?'a = nat] unsigned_less [of h, where ?'a = nat]
    by (simp add: to_le_8_eq word_unat_eq_iff)
  show ?thesis
    using assms unfolding authorization_context_preimage_def context_ok_def context_digests_eq [of d e]
      evidence_digests_eq [of "cx_policy_evidence d"] context_pins_eq_iff [of "lx_context p"]
    by (simp add: target_prefix_eq append_eq_append_conv digest_ok_def g trust_mode_byte_inj) blast
qed

text \<open>
  C34: the authorization digest binds everything it is decided on. The bytes hashed for an
  adapter authority determine the authority, whatever its identifiers and targets, and the
  bytes hashed for an authorization determine its target, the pinned context, every document
  and evidence digest, the policy revision, the generation and the trust mode: no two
  different authorizations share a preimage, so they share a digest only on a collision of
  the hash. The hypothesis on the hexadecimal encoder is that it is injective and writes no
  quotation mark.
\<close>

theorem authorization_digest_binds:
  assumes "hex_text hex"
    and "authority_wf a" "authority_wf b" "authority_digests_ok a" "authority_digests_ok b"
    and "context_ok t d p" "context_ok u e q"
  shows "(str_bytes (authority_document hex a) = str_bytes (authority_document hex b) \<longleftrightarrow> a = b) \<and>
    (authorization_context_preimage t d p g = authorization_context_preimage u e q h \<longleftrightarrow>
       t = u \<and> d = e \<and> lx_context p = lx_context q \<and> lx_revision_digest p = lx_revision_digest q \<and> g = h \<and>
       lx_trust_mode p = lx_trust_mode q)"
  using authority_document_inj [OF assms(1-5)] context_preimage_inj [OF assms(6,7), of g h] by simp

definition nibble_char :: "nat \<Rightarrow> char" where
  "nibble_char n = char_of (if n < 10 then 48 + n else 87 + n)"

definition hex_encode :: "bytes \<Rightarrow> string" where
  "hex_encode bs = concat (map (\<lambda>b. [nibble_char (unat b div 16), nibble_char (unat b mod 16)]) bs)"

lemma of_nibble_char: "n < 16 \<Longrightarrow> of_char (nibble_char n) = (if n < 10 then 48 + n else 87 + n)"
  by (simp add: nibble_char_def)

lemma nibble_char_eq:
  assumes "m < 16" "n < 16"
  shows "nibble_char m = nibble_char n \<longleftrightarrow> m = n"
proof
  assume "nibble_char m = nibble_char n"
  then have "of_char (nibble_char m) = (of_char (nibble_char n) :: nat)"
    by (rule arg_cong)
  then show "m = n"
    using assms by (simp only: of_nibble_char split: if_splits)
qed (rule arg_cong)

lemma hex_encode_text: "hex_text hex_encode"
proof -
  have byte: "b = c" if "unat b div 16 = unat c div 16" "unat b mod 16 = unat c mod 16" for b c :: u8
    using that by (metis div_mult_mod_eq word_unat_eq_iff)
  have small: "unat b div 16 < 16" for b :: u8
    using unsigned_less [of b, where ?'a = nat] by (simp add: less_mult_imp_div_less)
  have inj: "hex_encode x = hex_encode y \<longleftrightarrow> x = y" for x y
  proof (induction x arbitrary: y)
    case Nil
    then show ?case by (cases y) (simp_all add: hex_encode_def)
  next
    case (Cons b x)
    then show ?case
      using small by (cases y) (auto simp: hex_encode_def nibble_char_eq intro: byte)
  qed
  have "CHR 0x22 \<noteq> nibble_char n" if "n < 16" for n
  proof -
    have "of_char (nibble_char n) \<noteq> (of_char CHR 0x22 :: nat)"
      using that by (simp add: of_nibble_char)
    then show ?thesis by metis
  qed
  then have "CHR 0x22 \<notin> set (hex_encode d)" for d
    using small by (auto simp: hex_encode_def)
  then show ?thesis
    using inj by (auto simp: hex_text_def inj_on_def)
qed

definition example_signed_authority :: "string \<Rightarrow> AdapterExecutionAuthority" where
  "example_signed_authority adapter = \<lparr>ax_adapter_id = adapter, ax_family = ''f'',
     ax_adapter_content_digest = replicate 32 1,
     ax_targets = [(''t'', \<lparr>at_kind = MainRuntime, at_artifact_source = SourceManagedArtifact,
       at_execution_contract_digest = replicate 32 2\<rparr>)]\<rparr>"

definition example_digests :: AuthorizationContextDigests where
  "example_digests = (let z = replicate 32 0 in
     \<lparr>cx_authority_document = z, cx_target_contract = z, cx_resolution_evidence = z, cx_artifact_source = z,
      cx_executable = z, cx_compatibility_analysis = z,
      cx_policy_evidence = \<lparr>pd_artifact_trust = z, pd_provenance = z, pd_capability_policy = z,
        pd_state_policy = z, pd_user_policy = z\<rparr>\<rparr>)"

definition example_policy :: LocalExecutionPolicy where
  "example_policy = (let z = replicate 32 0 in
     \<lparr>lx_trust_mode = LocallyTrusted,
      lx_authority = \<lparr>ap_adapter_id = ''a'', ap_family = ''f'', ap_adapter_content_digest = z,
        ap_authority_document_digest = z\<rparr>,
      lx_context = \<lparr>cp_source_build_fingerprint_digest = z, cp_package_tree_merkle = z,
        cp_execution_environment_digest = z, cp_build_descriptor_digest = z\<rparr>,
      lx_target = \<lparr>tp_target_id = ''t'', tp_target_contract_digest = z, tp_resolution_evidence_digest = z,
        tp_artifact_trust_evidence_digest = z, tp_provenance_evidence_digest = z,
        tp_compatibility_analysis_digest = z, tp_capability_policy_digest = z, tp_state_policy_digest = z,
        tp_user_policy_digest = z, tp_security_posture = EffectiveVendorEquivalentFullTrust,
        tp_state_mode = VendorDefault\<rparr>,
      lx_revision_digest = z\<rparr>)"

theorem authorization_digest_binds_witness:
  "str_bytes (authority_document hex_encode (example_signed_authority ''a'')) \<noteq>
     str_bytes (authority_document hex_encode (example_signed_authority ''b'')) \<and>
   authorization_context_preimage ''t'' example_digests example_policy 1 \<noteq>
     authorization_context_preimage ''t'' example_digests example_policy 2"
proof -
  have wf: "authority_wf (example_signed_authority ''a'')" "authority_wf (example_signed_authority ''b'')"
    by (simp_all add: authority_wf_def example_signed_authority_def schema_pattern_def name_edge_def
        is_ascii_lowercase_def bt_wf_def)
  have ok: "authority_digests_ok (example_signed_authority s)" for s
    by (simp add: authority_digests_ok_def example_signed_authority_def digest_ok_def)
  have cx: "context_ok ''t'' example_digests example_policy"
    by (simp add: context_ok_def example_digests_def example_policy_def digest_ok_def Let_def)
  have "example_signed_authority ''a'' \<noteq> example_signed_authority ''b''"
    by (simp add: example_signed_authority_def)
  with authorization_digest_binds [OF hex_encode_text wf ok ok cx cx, of 1 2] show ?thesis
    by simp
qed

end
