(* ===== verification/Transform_Plan.thy ===== *)
theory Transform_Plan
  imports Unicode_Text Execution_Contracts
begin

section \<open>Planning of static import rewrites\<close>

text \<open>
  \<open>weregopher-transform/src/planning.rs\<close>: rewrite rules and their identity, planner limits,
  the scan for lone surrogate escapes, the canonical replacement literal and the planner.

  The ECMAScript parser is the parameter \<open>parse\<close>: for a source text it gives the number of
  diagnostics and the statements of the module, of which only the module specifiers of import
  and export declarations matter. SHA-256 is the parameter \<open>sha256\<close>. Source texts and
  replacement literals are their UTF-8 bytes.
\<close>

type_synonym TransformRuleId = string
type_synonym SourceUnitId = string

datatype StaticImportSpecifier = FromSpecifier | ToSpecifier

datatype TransformPlanError =
    TpEmptySpecifier StaticImportSpecifier
  | TpEquivalentSpecifiers
  | TpControlCharacterInSpecifier StaticImportSpecifier
  | TpSpecifierTooLong StaticImportSpecifier usize
  | TpExpectedMatchCountExceedsLimit u16 usize
  | TpMatchSpecifierTooLarge usize usize
  | TpReplacementLengthOverflow
  | TpReplacementTooLarge usize usize
  | TpSourceByteLimitExceedsParserCapacity usize usize
  | TpInvalidLimits
  | TpSourceTooLarge usize usize
  | TpUnknownRule TransformRuleId
  | TpRuleDigestMismatch TransformRuleId
  | TpSourceDigestMismatch
  | TpInvalidUtf8
  | TpParseFailed usize
  | TpInvalidParserSpan u32 u32
  | TpLoneSurrogateEscape u32
  | TpMatchCountMismatch u16 usize

record StaticImportRewrite =
  sr_from :: string
  sr_from_byte_length :: u32
  sr_to :: string
  sr_to_byte_length :: u32
  sr_exact_match_count :: u16

text \<open>\<open>char::is_control\<close>: the general category Cc.\<close>

definition is_control :: "nat \<Rightarrow> bool" where
  "is_control c \<longleftrightarrow> c < 0x20 \<or> 0x7F \<le> c \<and> c \<le> 0x9F"

definition validate_specifier :: "string \<Rightarrow> StaticImportSpecifier \<Rightarrow> TransformPlanError + u32" where
  "validate_specifier specifier side =
     (if specifier = [] then Inl (TpEmptySpecifier side)
      else if 2 ^ 32 \<le> length specifier then Inl (TpSpecifierTooLong side (length specifier))
      else if list_ex is_control (chars specifier) then Inl (TpControlCharacterInSpecifier side)
      else Inr (of_nat (length specifier)))"

definition static_import_rewrite_new ::
    "string \<Rightarrow> string \<Rightarrow> u16 \<Rightarrow> TransformPlanError + StaticImportRewrite" where
  "static_import_rewrite_new from to exact_match_count =
     rbind (validate_specifier from FromSpecifier) (\<lambda>from_byte_length.
     rbind (validate_specifier to ToSpecifier) (\<lambda>to_byte_length.
     if from = to then Inl TpEquivalentSpecifiers
     else Inr \<lparr>sr_from = from, sr_from_byte_length = from_byte_length, sr_to = to,
            sr_to_byte_length = to_byte_length, sr_exact_match_count = exact_match_count\<rparr>))"

definition rewrite_preimage :: "StaticImportRewrite \<Rightarrow> bytes" where
  "rewrite_preimage r =
     str_bytes ''weregopher.static-import-rewrite.v1'' @ [0] @
     to_be 4 (unat (sr_from_byte_length r)) @ str_bytes (sr_from r) @
     to_be 4 (unat (sr_to_byte_length r)) @ str_bytes (sr_to r) @
     to_be 2 (unat (sr_exact_match_count r))"

definition rewrite_canonical_digest :: "(bytes \<Rightarrow> Sha256Digest) \<Rightarrow> StaticImportRewrite \<Rightarrow> Sha256Digest" where
  "rewrite_canonical_digest sha256 r = sha256 (rewrite_preimage r)"

definition MAX_AUTHORIZED_TRANSFORM_RULES :: usize where "MAX_AUTHORIZED_TRANSFORM_RULES = 128"

datatype TransformContractError = TcEmptyTransformAuthority | TcTooManyTransformRules

record AuthorizedTransformRuleRef =
  ar_rule_digest :: Sha256Digest

record AdapterTransformAuthority =
  ta_adapter_id :: AdapterId
  ta_family :: ApplicationFamilyId
  ta_adapter_content_digest :: Sha256Digest
  ta_rules :: "(TransformRuleId \<times> AuthorizedTransformRuleRef) list"

definition transform_authority_new ::
    "AdapterId \<Rightarrow> ApplicationFamilyId \<Rightarrow> Sha256Digest \<Rightarrow> (TransformRuleId \<times> AuthorizedTransformRuleRef) list \<Rightarrow>
     TransformContractError + AdapterTransformAuthority" where
  "transform_authority_new adapter_id family adapter_content_digest rules =
     (if rules = [] then Inl TcEmptyTransformAuthority
      else if MAX_AUTHORIZED_TRANSFORM_RULES < length rules then Inl TcTooManyTransformRules
      else Inr \<lparr>ta_adapter_id = adapter_id, ta_family = family,
             ta_adapter_content_digest = adapter_content_digest, ta_rules = rules\<rparr>)"

record SourceUnitRef =
  su_unit_id :: SourceUnitId
  su_source_digest :: Sha256Digest

record SourceUnitInput =
  si_source :: SourceUnitRef
  si_bytes :: bytes

record PlannerLimits =
  pn_source_bytes :: usize
  pn_edits :: usize
  pn_replacement_bytes :: usize

definition planner_limits_new :: "usize \<Rightarrow> usize \<Rightarrow> usize \<Rightarrow> TransformPlanError + PlannerLimits" where
  "planner_limits_new max_source_bytes max_edits max_replacement_bytes =
     (if max_source_bytes = 0 \<or> max_edits = 0 \<or> max_replacement_bytes = 0 then Inl TpInvalidLimits
      else let parser_capacity = 2 ^ 32 - 1 in
        if parser_capacity < max_source_bytes
        then Inl (TpSourceByteLimitExceedsParserCapacity max_source_bytes parser_capacity)
        else Inr \<lparr>pn_source_bytes = max_source_bytes, pn_edits = max_edits,
               pn_replacement_bytes = max_replacement_bytes\<rparr>)"

record TextEdit =
  te_start_byte :: u32
  te_end_byte :: u32
  te_replacement :: bytes

record TransformPlan =
  tn_rule_id :: TransformRuleId
  tn_rule_digest :: Sha256Digest
  tn_source :: SourceUnitRef
  tn_edits :: "TextEdit list"

subsection \<open>Statements and their specifiers\<close>

record StringLiteral =
  lit_start :: u32
  lit_end :: u32
  lit_value :: string

datatype Statement =
    ImportDeclaration StringLiteral
  | ExportNamedDeclaration "StringLiteral option"
  | ExportAllDeclaration StringLiteral
  | OtherStatement

fun static_module_specifier :: "Statement \<Rightarrow> StringLiteral option" where
  "static_module_specifier (ImportDeclaration l) = Some l"
| "static_module_specifier (ExportNamedDeclaration l) = l"
| "static_module_specifier (ExportAllDeclaration l) = Some l"
| "static_module_specifier OtherStatement = None"

text \<open>\<open>slice::get\<close> on a range, \<open>str::is_char_boundary\<close> and \<open>str::get\<close> on a range.\<close>

definition get_range :: "bytes \<Rightarrow> usize \<Rightarrow> usize \<Rightarrow> bytes option" where
  "get_range bs a b = (if a \<le> b \<and> b \<le> length bs then Some (take (b - a) (drop a bs)) else None)"

definition is_char_boundary :: "bytes \<Rightarrow> usize \<Rightarrow> bool" where
  "is_char_boundary bs i \<longleftrightarrow> i = 0 \<or> i = length bs \<or> i < length bs \<and> \<not> utf8_cont (bs ! i)"

definition str_get_range :: "bytes \<Rightarrow> usize \<Rightarrow> usize \<Rightarrow> bytes option" where
  "str_get_range bs a b =
     (if is_char_boundary bs a \<and> is_char_boundary bs b then get_range bs a b else None)"

subsection \<open>Lone surrogate escapes\<close>

definition hex_digit :: "u8 \<Rightarrow> nat option" where
  "hex_digit d =
     (if 0x30 \<le> d \<and> d \<le> 0x39 then Some (unat d - 0x30)
      else if 0x61 \<le> d \<and> d \<le> 0x66 then Some (unat d - 0x61 + 10)
      else if 0x41 \<le> d \<and> d \<le> 0x46 then Some (unat d - 0x41 + 10)
      else None)"

fun hex_fold :: "nat \<Rightarrow> bytes \<Rightarrow> nat option" where
  "hex_fold v [] = Some v"
| "hex_fold v (d # ds) =
     (if v * 16 < 2 ^ 32 then
        (case hex_digit d of
           Some x \<Rightarrow> if v * 16 + x < 2 ^ 32 then hex_fold (v * 16 + x) ds else None
         | None \<Rightarrow> None)
      else None)"

definition parse_hex_digits :: "bytes \<Rightarrow> nat option" where
  "parse_hex_digits digits = (if digits = [] then None else hex_fold 0 digits)"

definition get_byte :: "bytes \<Rightarrow> usize \<Rightarrow> u8 option" where
  "get_byte bs i = (if i < length bs then Some (bs ! i) else None)"

fun position_of :: "u8 \<Rightarrow> bytes \<Rightarrow> usize option" where
  "position_of x [] = None"
| "position_of x (b # bs) = (if b = x then Some 0 else map_option Suc (position_of x bs))"

definition unicode_escape_at :: "bytes \<Rightarrow> usize \<Rightarrow> usize \<Rightarrow> (nat \<times> usize) option" where
  "unicode_escape_at bs slash literal_end =
     (if get_byte bs slash \<noteq> Some 0x5C then None
      else Option.bind (checked_add_usize slash 1) (\<lambda>u.
        if get_byte bs u \<noteq> Some 0x75 then None
        else Option.bind (checked_add_usize slash 2) (\<lambda>digits_start.
          if get_byte bs digits_start = Some 0x7B then
            Option.bind (checked_add_usize digits_start 1) (\<lambda>value_start.
            Option.bind (get_range bs value_start literal_end) (\<lambda>body.
            Option.bind (position_of 0x7D body) (\<lambda>close_offset.
            Option.bind (checked_add_usize value_start close_offset) (\<lambda>close.
            Option.bind (get_range bs value_start close) (\<lambda>digits.
            Option.bind (parse_hex_digits digits) (\<lambda>v.
            Option.bind (checked_add_usize close 1) (\<lambda>next. Some (v, next))))))))
          else
            Option.bind (checked_add_usize digits_start 4) (\<lambda>digits_end.
            if literal_end < digits_end then None
            else
              Option.bind (get_range bs digits_start digits_end) (\<lambda>digits.
              Option.bind (parse_hex_digits digits) (\<lambda>v. Some (v, digits_end)))))))"

lemma unicode_escape_at_next: "unicode_escape_at bs slash e = Some (v, n) \<Longrightarrow> slash < n"
  by (auto simp: unicode_escape_at_def bind_eq_Some_conv split: if_splits)

text \<open>
  The scan of a literal for lone surrogates. A slice has at most \<open>isize::MAX\<close> bytes, so the
  saturating additions on offsets within it are additions.
\<close>

function surrogate_scan :: "bytes \<Rightarrow> usize \<Rightarrow> usize \<Rightarrow> bool" where
  "surrogate_scan bs literal_end cursor =
     (if literal_end \<le> cursor then False
      else if get_byte bs cursor \<noteq> Some 0x5C then surrogate_scan bs literal_end (cursor + 1)
      else
        (case unicode_escape_at bs cursor literal_end of
           None \<Rightarrow> surrogate_scan bs literal_end (cursor + 2)
         | Some (v, next_cursor) \<Rightarrow>
             (if 0xD800 \<le> v \<and> v \<le> 0xDBFF then
                (case unicode_escape_at bs next_cursor literal_end of
                   None \<Rightarrow> True
                 | Some (low_surrogate, after_pair) \<Rightarrow>
                     (if \<not> (0xDC00 \<le> low_surrogate \<and> low_surrogate \<le> 0xDFFF) then True
                      else surrogate_scan bs literal_end after_pair))
              else if 0xDC00 \<le> v \<and> v \<le> 0xDFFF then True
              else surrogate_scan bs literal_end next_cursor)))"
  by pat_completeness auto
termination
  by (relation "measure (\<lambda>(bs, literal_end, cursor). literal_end - cursor)")
    (auto dest!: unicode_escape_at_next)

definition contains_lone_surrogate_escape :: "bytes \<Rightarrow> bool" where
  "contains_lone_surrogate_escape literal = surrogate_scan literal (length literal - 1) 1"

subsection \<open>The replacement literal\<close>

definition replacement_char_length :: "nat \<Rightarrow> usize" where
  "replacement_char_length c =
     (if c = 0x22 \<or> c = 0x5C then 2 else if c = 0x2028 \<or> c = 0x2029 then 6 else len_utf8 c)"

fun replacement_length_fold :: "usize \<Rightarrow> nat list \<Rightarrow> usize option" where
  "replacement_length_fold n [] = Some n"
| "replacement_length_fold n (c # cs) =
     Option.bind (checked_add_usize n (replacement_char_length c)) (\<lambda>n. replacement_length_fold n cs)"

definition canonical_replacement_byte_length :: "string \<Rightarrow> usize option" where
  "canonical_replacement_byte_length specifier = replacement_length_fold 2 (chars specifier)"

definition quote_char :: "nat \<Rightarrow> bytes" where
  "quote_char c =
     (if c = 0x22 then [0x5C, 0x22]
      else if c = 0x5C then [0x5C, 0x5C]
      else if c = 0x2028 then [0x5C, 0x75, 0x32, 0x30, 0x32, 0x38]
      else if c = 0x2029 then [0x5C, 0x75, 0x32, 0x30, 0x32, 0x39]
      else utf8_encode c)"

definition quote_specifier :: "string \<Rightarrow> bytes" where
  "quote_specifier specifier = [0x22] @ concat (map quote_char (chars specifier)) @ [0x22]"

subsection \<open>The planner\<close>

fun collect_edits ::
    "bytes \<Rightarrow> StaticImportRewrite \<Rightarrow> usize \<Rightarrow> bytes \<Rightarrow> Statement list \<Rightarrow> TextEdit list \<Rightarrow>
     TransformPlanError + TextEdit list" where
  "collect_edits source_text rule expected_edits replacement [] edits = Inr edits"
| "collect_edits source_text rule expected_edits replacement (statement # statements) edits =
     (case static_module_specifier statement of
        None \<Rightarrow> collect_edits source_text rule expected_edits replacement statements edits
      | Some literal \<Rightarrow>
          rbind (ok_or (TpInvalidParserSpan (lit_start literal) (lit_end literal))
            (str_get_range source_text (unat (lit_start literal)) (unat (lit_end literal)))) (\<lambda>raw_literal.
          if contains_lone_surrogate_escape raw_literal then Inl (TpLoneSurrogateEscape (lit_start literal))
          else if lit_value literal \<noteq> sr_from rule
          then collect_edits source_text rule expected_edits replacement statements edits
          else if length edits = expected_edits
          then Inl (TpMatchCountMismatch (sr_exact_match_count rule) (expected_edits + 1))
          else collect_edits source_text rule expected_edits replacement statements
            (edits @ [\<lparr>te_start_byte = lit_start literal, te_end_byte = lit_end literal,
                       te_replacement = replacement\<rparr>])))"

definition plan_static_import_rewrite ::
    "(bytes \<Rightarrow> Sha256Digest) \<Rightarrow> (bytes \<Rightarrow> usize \<times> Statement list) \<Rightarrow>
     AdapterTransformAuthority \<Rightarrow> TransformRuleId \<Rightarrow> StaticImportRewrite \<Rightarrow> SourceUnitInput \<Rightarrow>
     PlannerLimits \<Rightarrow> TransformPlanError + TransformPlan" where
  "plan_static_import_rewrite sha256 parse authority rule_id rule source limits =
     (let expected_edits = unat (sr_exact_match_count rule) in
      if pn_edits limits < expected_edits
      then Inl (TpExpectedMatchCountExceedsLimit (sr_exact_match_count rule) (pn_edits limits))
      else if pn_source_bytes limits < length (sr_from rule)
      then Inl (TpMatchSpecifierTooLarge (length (sr_from rule)) (pn_source_bytes limits))
      else
        rbind (ok_or TpReplacementLengthOverflow (canonical_replacement_byte_length (sr_to rule)))
          (\<lambda>replacement_byte_length.
        if pn_replacement_bytes limits < replacement_byte_length
        then Inl (TpReplacementTooLarge replacement_byte_length (pn_replacement_bytes limits))
        else if pn_source_bytes limits < length (si_bytes source)
        then Inl (TpSourceTooLarge (length (si_bytes source)) (pn_source_bytes limits))
        else
          let rule_digest = rewrite_canonical_digest sha256 rule in
          rbind (ok_or (TpUnknownRule rule_id) (bt_get (ta_rules authority) rule_id)) (\<lambda>authorized_rule.
          if ar_rule_digest authorized_rule \<noteq> rule_digest then Inl (TpRuleDigestMismatch rule_id)
          else if sha256 (si_bytes source) \<noteq> su_source_digest (si_source source) then Inl TpSourceDigestMismatch
          else if \<not> utf8_valid (si_bytes source) then Inl TpInvalidUtf8
          else
            let (diagnostic_count, statements) = parse (si_bytes source) in
            if diagnostic_count \<noteq> 0 then Inl (TpParseFailed diagnostic_count)
            else
              rbind (collect_edits (si_bytes source) rule expected_edits (quote_specifier (sr_to rule)) statements [])
                (\<lambda>edits.
              if length edits \<noteq> expected_edits
              then Inl (TpMatchCountMismatch (sr_exact_match_count rule) (length edits))
              else Inr \<lparr>tn_rule_id = rule_id, tn_rule_digest = rule_digest, tn_source = si_source source,
                     tn_edits = edits\<rparr>))))"

end
