(* ===== verification/Transform_Emission.thy ===== *)
theory Transform_Emission
  imports Transform_Plan
begin

section \<open>Emission of transformed source and match evidence\<close>

text \<open>
  \<open>weregopher-transform/src/emission.rs\<close>: applying a plan to its source bytes, and the
  canonical record of the matched ranges. Allocation failures are not modelled.
\<close>

datatype TransformEmissionError =
    TeInvalidLimits
  | TeSourceTooLarge usize usize
  | TeSourceDigestMismatch
  | TeInvalidEditRange u32 u32 usize usize
  | TeInvalidTailOffset usize usize
  | TeTransformedSourceLengthOverflow
  | TeTransformedSourceTooLarge usize usize
  | TeEmittedLengthMismatch usize usize

record TransformEmissionLimits =
  el_source_bytes :: usize
  el_transformed_source_bytes :: usize

definition emission_limits_new :: "usize \<Rightarrow> usize \<Rightarrow> TransformEmissionError + TransformEmissionLimits" where
  "emission_limits_new max_source_bytes max_transformed_source_bytes =
     (if max_source_bytes = 0 \<or> max_transformed_source_bytes = 0 then Inl TeInvalidLimits
      else Inr \<lparr>el_source_bytes = max_source_bytes, el_transformed_source_bytes = max_transformed_source_bytes\<rparr>)"

record EmittedTransformedSource =
  ets_plan :: TransformPlan
  ets_transformed_source :: bytes
  ets_transformed_source_digest :: Sha256Digest

fun size_edits :: "bytes \<Rightarrow> TextEdit list \<Rightarrow> usize \<Rightarrow> usize \<Rightarrow> TransformEmissionError + usize" where
  "size_edits source [] previous_end transformed_length = Inr transformed_length"
| "size_edits source (edit # edits) previous_end transformed_length =
     (let start = unat (te_start_byte edit); stop = unat (te_end_byte edit) in
      if start < previous_end \<or> stop < start \<or> length source < stop
      then Inl (TeInvalidEditRange (te_start_byte edit) (te_end_byte edit) previous_end (length source))
      else
        rbind (ok_or TeTransformedSourceLengthOverflow
          (Option.bind (checked_sub_usize transformed_length (stop - start)) (\<lambda>n.
             checked_add_usize n (length (te_replacement edit))))) (\<lambda>transformed_length.
        size_edits source edits stop transformed_length))"

fun apply_edits :: "bytes \<Rightarrow> TextEdit list \<Rightarrow> usize \<Rightarrow> bytes \<Rightarrow> TransformEmissionError + bytes \<times> usize" where
  "apply_edits source [] source_cursor output = Inr (output, source_cursor)"
| "apply_edits source (edit # edits) source_cursor output =
     rbind (ok_or (TeInvalidEditRange (te_start_byte edit) (te_end_byte edit) source_cursor (length source))
       (get_range source source_cursor (unat (te_start_byte edit)))) (\<lambda>unchanged.
     apply_edits source edits (unat (te_end_byte edit)) (output @ unchanged @ te_replacement edit))"

definition emit_transformed_source ::
    "(bytes \<Rightarrow> Sha256Digest) \<Rightarrow> TransformPlan \<Rightarrow> bytes \<Rightarrow> TransformEmissionLimits \<Rightarrow>
     TransformEmissionError + EmittedTransformedSource" where
  "emit_transformed_source sha256 plan source limits =
     (if el_source_bytes limits < length source
      then Inl (TeSourceTooLarge (length source) (el_source_bytes limits))
      else if sha256 source \<noteq> su_source_digest (tn_source plan) then Inl TeSourceDigestMismatch
      else
        rbind (size_edits source (tn_edits plan) 0 (length source)) (\<lambda>transformed_length.
        if el_transformed_source_bytes limits < transformed_length
        then Inl (TeTransformedSourceTooLarge transformed_length (el_transformed_source_bytes limits))
        else
          rbind (apply_edits source (tn_edits plan) 0 []) (\<lambda>(output, source_cursor).
          rbind (ok_or (TeInvalidTailOffset source_cursor (length source))
            (get_range source source_cursor (length source))) (\<lambda>tail.
          let transformed_source = output @ tail in
          if length transformed_source \<noteq> transformed_length
          then Inl (TeEmittedLengthMismatch transformed_length (length transformed_source))
          else Inr \<lparr>ets_plan = plan, ets_transformed_source = transformed_source,
                 ets_transformed_source_digest = sha256 transformed_source\<rparr>))))"

subsection \<open>Canonical text\<close>

definition DIGEST_TEXT_LENGTH :: usize where "DIGEST_TEXT_LENGTH = 71"

definition lower_hex :: "nat \<Rightarrow> u8" where
  "lower_hex n = str_bytes ''0123456789abcdef'' ! n"

definition append_digest :: "bytes \<Rightarrow> Sha256Digest \<Rightarrow> bytes" where
  "append_digest output v =
     output @ str_bytes ''sha256:'' @
     concat (map (\<lambda>b. [lower_hex (unat (drop_bit 4 b)), lower_hex (unat (b AND 0x0F))]) v)"

function decimal_length :: "nat \<Rightarrow> usize" where
  "decimal_length v = (if 10 \<le> v then Suc (decimal_length (v div 10)) else 1)"
  by pat_completeness auto
termination
  by (relation "measure id") auto

function decimal_digits :: "nat \<Rightarrow> bytes \<Rightarrow> bytes" where
  "decimal_digits v encoded =
     (let encoded = of_nat (0x30 + v mod 10) # encoded in
      if v div 10 = 0 then encoded else decimal_digits (v div 10) encoded)"
  by pat_completeness auto
termination
  by (relation "measure fst") auto

declare decimal_length.simps [simp del] decimal_digits.simps [simp del]

text \<open>A \<open>u32\<close> has at most ten decimal digits, so the ten-byte buffer is never exhausted.\<close>

definition append_u32 :: "bytes \<Rightarrow> u32 \<Rightarrow> bytes" where
  "append_u32 output v = output @ decimal_digits (unat v) []"

subsection \<open>Match evidence\<close>

datatype MatchEvidenceError =
    MeInvalidLimit
  | MeEvidenceLengthOverflow
  | MeEvidenceTooLarge usize usize
  | MeEmittedLengthMismatch usize usize

definition match_evidence_limits_new :: "usize \<Rightarrow> MatchEvidenceError + usize" where
  "match_evidence_limits_new max_evidence_bytes =
     (if max_evidence_bytes = 0 then Inl MeInvalidLimit else Inr max_evidence_bytes)"

definition json_field :: "string \<Rightarrow> string" where
  "json_field name = quote_text name @ '':''"

definition EVIDENCE_PREFIX :: bytes where
  "EVIDENCE_PREFIX = str_bytes (''{'' @ json_field ''format_version'' @ quote_text ''1'' @ '','' @ json_field ''kind'' @
     quote_text ''static_module_specifier_matches'' @ '','' @ json_field ''rule_id'' @ [CHR 0x22])"
definition EVIDENCE_RULE_DIGEST :: bytes where
  "EVIDENCE_RULE_DIGEST = str_bytes ([CHR 0x22] @ '','' @ json_field ''rule_digest'' @ [CHR 0x22])"
definition EVIDENCE_SOURCE_UNIT :: bytes where
  "EVIDENCE_SOURCE_UNIT = str_bytes ([CHR 0x22] @ '','' @ json_field ''source'' @ ''{'' @ json_field ''unit_id'' @ [CHR 0x22])"
definition EVIDENCE_SOURCE_DIGEST :: bytes where
  "EVIDENCE_SOURCE_DIGEST = str_bytes ([CHR 0x22] @ '','' @ json_field ''source_digest'' @ [CHR 0x22])"
definition EVIDENCE_MATCHES :: bytes where
  "EVIDENCE_MATCHES = str_bytes ([CHR 0x22] @ ''},'' @ json_field ''matches'' @ ''['')"
definition MATCH_START :: bytes where "MATCH_START = str_bytes (''{'' @ json_field ''start_byte'')"
definition MATCH_END :: bytes where "MATCH_END = str_bytes ('','' @ json_field ''end_byte'')"
definition EVIDENCE_SUFFIX :: bytes where "EVIDENCE_SUFFIX = str_bytes '']}''"

fun evidence_add_all :: "usize list \<Rightarrow> usize \<Rightarrow> MatchEvidenceError + usize" where
  "evidence_add_all [] current = Inr current"
| "evidence_add_all (n # ns) current =
     rbind (ok_or MeEvidenceLengthOverflow (checked_add_usize current n)) (\<lambda>current. evidence_add_all ns current)"

fun match_lengths :: "bool \<Rightarrow> TextEdit list \<Rightarrow> usize list" where
  "match_lengths first [] = []"
| "match_lengths first (edit # edits) =
     (if first then [] else [1]) @
     [length MATCH_START, decimal_length (unat (te_start_byte edit)), length MATCH_END,
      decimal_length (unat (te_end_byte edit)), 1] @ match_lengths False edits"

definition match_evidence_length :: "TransformPlan \<Rightarrow> MatchEvidenceError + usize" where
  "match_evidence_length plan =
     evidence_add_all
       ([length EVIDENCE_PREFIX, length EVIDENCE_RULE_DIGEST, length EVIDENCE_SOURCE_UNIT,
         length EVIDENCE_SOURCE_DIGEST, length EVIDENCE_MATCHES, length EVIDENCE_SUFFIX,
         length (tn_rule_id plan), DIGEST_TEXT_LENGTH, length (su_unit_id (tn_source plan)), DIGEST_TEXT_LENGTH] @
        match_lengths True (tn_edits plan)) 0"

fun emit_matches :: "bool \<Rightarrow> TextEdit list \<Rightarrow> bytes \<Rightarrow> bytes" where
  "emit_matches first [] output = output"
| "emit_matches first (edit # edits) output =
     emit_matches False edits
       (append_u32 (append_u32 ((if first then output else output @ [0x2C]) @ MATCH_START) (te_start_byte edit) @
          MATCH_END) (te_end_byte edit) @ [0x7D])"

record EmittedMatchEvidence =
  eme_plan :: TransformPlan
  eme_bytes :: bytes
  eme_digest :: Sha256Digest

definition emit_match_evidence ::
    "(bytes \<Rightarrow> Sha256Digest) \<Rightarrow> TransformPlan \<Rightarrow> usize \<Rightarrow> MatchEvidenceError + EmittedMatchEvidence" where
  "emit_match_evidence sha256 plan max_evidence_bytes =
     rbind (match_evidence_length plan) (\<lambda>evidence_length.
     if max_evidence_bytes < evidence_length then Inl (MeEvidenceTooLarge evidence_length max_evidence_bytes)
     else
       let output = append_digest (EVIDENCE_PREFIX @ str_bytes (tn_rule_id plan) @ EVIDENCE_RULE_DIGEST)
             (tn_rule_digest plan);
           output = append_digest (output @ EVIDENCE_SOURCE_UNIT @ str_bytes (su_unit_id (tn_source plan)) @
             EVIDENCE_SOURCE_DIGEST) (su_source_digest (tn_source plan));
           output = emit_matches True (tn_edits plan) (output @ EVIDENCE_MATCHES) @ EVIDENCE_SUFFIX in
       if length output \<noteq> evidence_length then Inl (MeEmittedLengthMismatch evidence_length (length output))
       else Inr \<lparr>eme_plan = plan, eme_bytes = output, eme_digest = sha256 output\<rparr>)"

end
