(* ===== verification/Source_Map.thy ===== *)
theory Source_Map
  imports Transform_Emission "HOL-Library.Product_Lexorder"
begin

section \<open>Source Map v3 emission\<close>

text \<open>
  \<open>weregopher-transform/src/source_map.rs\<close>: line starts, anchors, positions in lines and UTF-16
  columns, the Base64 VLQ mappings and the canonical document. Allocation failures are not
  modelled. A \<open>str\<close> is its UTF-8 bytes, \<open>char_indices\<close> its characters with their offsets.
\<close>

datatype SourceMapError =
    SmInvalidLimits
  | SmSourceTooLarge usize usize
  | SmTransformedSourceTooLarge usize usize
  | SmSourceDigestMismatch
  | SmSourceNotUtf8
  | SmTransformedSourceNotUtf8
  | SmSegmentCountOverflow
  | SmSegmentLimitExceeded usize usize
  | SmOffsetOverflow
  | SmPositionOverflow
  | SmInvalidEditRange
  | SmLineStartCountMismatch usize usize
  | SmLineStartCollectionFailed
  | SmAmbiguousGeneratedAnchor usize
  | SmInvalidAnchorOffset usize
  | SmPositionResolutionFailed
  | SmPositionCountMismatch
  | SmMappingOrderInvalid
  | SmPositionDeltaOutOfRange
  | SmSourceMapLengthOverflow
  | SmSourceMapTooLarge usize usize
  | SmEmittedLengthMismatch usize usize

record SourceMapLimits =
  sl_source_bytes :: usize
  sl_transformed_source_bytes :: usize
  sl_segments :: usize
  sl_source_map_bytes :: usize

definition source_map_limits_new :: "usize \<Rightarrow> usize \<Rightarrow> usize \<Rightarrow> usize \<Rightarrow> SourceMapError + SourceMapLimits" where
  "source_map_limits_new max_source_bytes max_transformed_source_bytes max_segments max_source_map_bytes =
     (if max_source_bytes = 0 \<or> max_transformed_source_bytes = 0 \<or> max_segments = 0 \<or> max_source_map_bytes = 0
      then Inl SmInvalidLimits
      else Inr \<lparr>sl_source_bytes = max_source_bytes, sl_transformed_source_bytes = max_transformed_source_bytes,
             sl_segments = max_segments, sl_source_map_bytes = max_source_map_bytes\<rparr>)"

record EmittedSourceMap =
  esm_transformed_source :: EmittedTransformedSource
  esm_bytes :: bytes
  esm_digest :: Sha256Digest
  esm_segment_count :: usize

type_synonym ByteAnchor = "usize \<times> usize"

record LineColumn =
  lc_line :: usize
  lc_column :: usize

fun indices_from :: "usize \<Rightarrow> nat list \<Rightarrow> (usize \<times> nat) list" where
  "indices_from i [] = []"
| "indices_from i (c # cs) = (i, c) # indices_from (i + len_utf8 c) cs"

definition char_indices :: "bytes \<Rightarrow> (usize \<times> nat) list" where
  "char_indices text = indices_from 0 (decode_utf8 text)"

definition CR :: nat where "CR = 0x0D"
definition LF :: nat where "LF = 0x0A"

definition line_separator :: "nat \<Rightarrow> bool" where
  "line_separator c \<longleftrightarrow> c = LF \<or> c = 0x2028 \<or> c = 0x2029"

subsection \<open>Line starts\<close>

fun count_lines :: "nat list \<Rightarrow> bool \<Rightarrow> usize \<Rightarrow> SourceMapError + usize" where
  "count_lines [] previous_was_cr count = Inr count"
| "count_lines (c # cs) previous_was_cr count =
     (if c = CR then
        rbind (ok_or SmSegmentCountOverflow (checked_add_usize count 1)) (\<lambda>count. count_lines cs True count)
      else if c = LF \<and> previous_was_cr then count_lines cs False count
      else if line_separator c then
        rbind (ok_or SmSegmentCountOverflow (checked_add_usize count 1)) (\<lambda>count. count_lines cs False count)
      else count_lines cs False count)"

definition count_line_starts :: "bytes \<Rightarrow> SourceMapError + usize" where
  "count_line_starts text = count_lines (decode_utf8 text) False 1"

fun collect_lines :: "(usize \<times> nat) list \<Rightarrow> bool \<Rightarrow> usize list \<Rightarrow> SourceMapError + usize list" where
  "collect_lines [] previous_was_cr starts = Inr starts"
| "collect_lines ((i, c) # ics) previous_was_cr starts =
     (if c = CR then
        rbind (ok_or SmOffsetOverflow (checked_add_usize i (len_utf8 c))) (\<lambda>n. collect_lines ics True (starts @ [n]))
      else if c = LF \<and> previous_was_cr then
        (if starts = [] then Inl SmLineStartCollectionFailed
         else rbind (ok_or SmOffsetOverflow (checked_add_usize i (len_utf8 c))) (\<lambda>n.
           collect_lines ics False (butlast starts @ [n])))
      else if line_separator c then
        rbind (ok_or SmOffsetOverflow (checked_add_usize i (len_utf8 c))) (\<lambda>n. collect_lines ics False (starts @ [n]))
      else collect_lines ics False starts)"

definition collect_line_starts :: "bytes \<Rightarrow> usize \<Rightarrow> SourceMapError + usize list" where
  "collect_line_starts text count =
     rbind (collect_lines (char_indices text) False [0]) (\<lambda>starts.
     if length starts \<noteq> count then Inl (SmLineStartCountMismatch count (length starts)) else Inr starts)"

subsection \<open>Anchors\<close>

text \<open>
  The loop of one generated line start: the edits from \<open>edit_index\<close> on, both cursors, and the
  original offset it breaks with. It advances over the edits that end before the line start.
\<close>

fun find_original ::
    "usize \<Rightarrow> usize \<Rightarrow> TextEdit list \<Rightarrow> usize \<Rightarrow> usize \<Rightarrow>
     SourceMapError + usize \<times> TextEdit list \<times> usize \<times> usize" where
  "find_original source_bytes generated [] source_cursor generated_cursor =
     rbind (ok_or SmInvalidEditRange (checked_sub_usize generated generated_cursor)) (\<lambda>unchanged.
     rbind (ok_or SmOffsetOverflow (checked_add_usize source_cursor unchanged)) (\<lambda>original.
     if source_bytes < original then Inl (SmInvalidAnchorOffset original)
     else Inr (original, [], source_cursor, generated_cursor)))"
| "find_original source_bytes generated (edit # edits) source_cursor generated_cursor =
     (let start = unat (te_start_byte edit); stop = unat (te_end_byte edit) in
      if start < source_cursor \<or> stop < start \<or> source_bytes < stop then Inl SmInvalidEditRange
      else
        rbind (ok_or SmOffsetOverflow (checked_add_usize generated_cursor (start - source_cursor))) (\<lambda>generated_start.
        rbind (ok_or SmOffsetOverflow (checked_add_usize generated_start (length (te_replacement edit)))) (\<lambda>generated_end.
        if generated < generated_start then
          rbind (ok_or SmInvalidEditRange (checked_sub_usize generated generated_cursor)) (\<lambda>unchanged.
          rbind (ok_or SmOffsetOverflow (checked_add_usize source_cursor unchanged)) (\<lambda>original.
          Inr (original, edit # edits, source_cursor, generated_cursor)))
        else if generated < generated_end then Inr (start, edit # edits, source_cursor, generated_cursor)
        else find_original source_bytes generated edits stop generated_end)))"

fun line_anchors ::
    "usize \<Rightarrow> usize list \<Rightarrow> TextEdit list \<Rightarrow> usize \<Rightarrow> usize \<Rightarrow> ByteAnchor list \<Rightarrow>
     SourceMapError + ByteAnchor list" where
  "line_anchors source_bytes [] edits source_cursor generated_cursor anchors = Inr anchors"
| "line_anchors source_bytes (generated # line_starts) edits source_cursor generated_cursor anchors =
     rbind (find_original source_bytes generated edits source_cursor generated_cursor)
       (\<lambda>(original, edits, source_cursor, generated_cursor).
     line_anchors source_bytes line_starts edits source_cursor generated_cursor (anchors @ [(generated, original)]))"

definition append_generated_line_anchors ::
    "ByteAnchor list \<Rightarrow> usize list \<Rightarrow> TransformPlan \<Rightarrow> usize \<Rightarrow> SourceMapError + ByteAnchor list" where
  "append_generated_line_anchors anchors line_starts plan source_bytes =
     line_anchors source_bytes line_starts (tn_edits plan) 0 0 anchors"

fun edit_anchors ::
    "usize \<Rightarrow> TextEdit list \<Rightarrow> usize \<Rightarrow> usize \<Rightarrow> ByteAnchor list \<Rightarrow> SourceMapError + ByteAnchor list" where
  "edit_anchors source_bytes [] source_cursor generated_cursor anchors = Inr anchors"
| "edit_anchors source_bytes (edit # edits) source_cursor generated_cursor anchors =
     (let start = unat (te_start_byte edit); stop = unat (te_end_byte edit) in
      if start < source_cursor \<or> stop < start \<or> source_bytes < stop then Inl SmInvalidEditRange
      else
        rbind (ok_or SmOffsetOverflow (checked_add_usize generated_cursor (start - source_cursor))) (\<lambda>generated_start.
        rbind (ok_or SmOffsetOverflow (checked_add_usize generated_start (length (te_replacement edit)))) (\<lambda>generated_end.
        edit_anchors source_bytes edits stop generated_end
          (anchors @ [(generated_start, start), (generated_end, stop)]))))"

definition append_edit_anchors ::
    "ByteAnchor list \<Rightarrow> TransformPlan \<Rightarrow> usize \<Rightarrow> SourceMapError + ByteAnchor list" where
  "append_edit_anchors anchors plan source_bytes = edit_anchors source_bytes (tn_edits plan) 0 0 anchors"

text \<open>\<open>Vec::dedup\<close> removes consecutive repetitions; sorting puts equal anchors together.\<close>

fun check_windows :: "ByteAnchor list \<Rightarrow> SourceMapError + unit" where
  "check_windows (first # second # anchors) =
     (if fst first = fst second \<and> snd first \<noteq> snd second then Inl (SmAmbiguousGeneratedAnchor (fst first))
      else check_windows (second # anchors))"
| "check_windows anchors = Inr ()"

subsection \<open>Positions\<close>

record PositionCursor =
  pc_characters :: "(usize \<times> nat) list"
  pc_byte_cursor :: usize
  pc_line :: usize
  pc_column :: usize
  pc_previous_was_cr :: bool

definition advance_position :: "PositionCursor \<Rightarrow> nat \<Rightarrow> SourceMapError + PositionCursor" where
  "advance_position p c =
     (if c = CR then
        rbind (ok_or SmPositionOverflow (checked_add_usize (pc_line p) 1)) (\<lambda>line.
        Inr (p\<lparr>pc_line := line, pc_column := 0, pc_previous_was_cr := True\<rparr>))
      else if c = LF \<and> pc_previous_was_cr p then Inr (p\<lparr>pc_column := 0, pc_previous_was_cr := False\<rparr>)
      else if line_separator c then
        rbind (ok_or SmPositionOverflow (checked_add_usize (pc_line p) 1)) (\<lambda>line.
        Inr (p\<lparr>pc_line := line, pc_column := 0, pc_previous_was_cr := False\<rparr>))
      else
        rbind (ok_or SmPositionOverflow (checked_add_usize (pc_column p) (len_utf16 c))) (\<lambda>column.
        Inr (p\<lparr>pc_column := column, pc_previous_was_cr := False\<rparr>)))"

text \<open>The inner loop, by the characters that are left.\<close>

fun advance_to :: "usize \<Rightarrow> (usize \<times> nat) list \<Rightarrow> PositionCursor \<Rightarrow> SourceMapError + PositionCursor" where
  "advance_to target [] p =
     (if pc_byte_cursor p < target then Inl SmPositionResolutionFailed else Inr (p\<lparr>pc_characters := []\<rparr>))"
| "advance_to target ((i, c) # ics) p =
     (if pc_byte_cursor p < target then
        (if i \<noteq> pc_byte_cursor p then Inl SmPositionResolutionFailed
         else
           rbind (ok_or SmOffsetOverflow (checked_add_usize i (len_utf8 c))) (\<lambda>next_cursor.
           if target < next_cursor then Inl (SmInvalidAnchorOffset target)
           else rbind (advance_position p c) (\<lambda>p. advance_to target ics (p\<lparr>pc_byte_cursor := next_cursor\<rparr>))))
      else Inr (p\<lparr>pc_characters := (i, c) # ics\<rparr>))"

fun resolve_loop :: "bytes \<Rightarrow> usize list \<Rightarrow> usize \<Rightarrow> PositionCursor \<Rightarrow> SourceMapError + LineColumn list" where
  "resolve_loop text [] previous_target p = Inr []"
| "resolve_loop text (target # targets) previous_target p =
     (if target < previous_target \<or> length text < target \<or> \<not> is_char_boundary text target
      then Inl (SmInvalidAnchorOffset target)
      else
        rbind (advance_to target (pc_characters p) p) (\<lambda>p.
        rbind (resolve_loop text targets target p) (\<lambda>positions.
        Inr (\<lparr>lc_line = pc_line p, lc_column = pc_column p\<rparr> # positions))))"

definition resolve_positions :: "bytes \<Rightarrow> usize list \<Rightarrow> SourceMapError + LineColumn list" where
  "resolve_positions text offsets =
     resolve_loop text offsets 0
       \<lparr>pc_characters = char_indices text, pc_byte_cursor = 0, pc_line = 0, pc_column = 0, pc_previous_was_cr = False\<rparr>"

subsection \<open>Mappings\<close>

record MappingCursor =
  mc_generated_line :: usize
  mc_generated_column :: usize
  mc_original_line :: usize
  mc_original_column :: usize
  mc_has_segment :: bool

definition mapping_cursor_new :: MappingCursor where
  "mapping_cursor_new = \<lparr>mc_generated_line = 0, mc_generated_column = 0, mc_original_line = 0,
     mc_original_column = 0, mc_has_segment = False\<rparr>"

record MappingStep =
  ms_new_lines :: usize
  ms_comma :: bool
  ms_deltas :: "int list"

definition signed_delta :: "usize \<Rightarrow> usize \<Rightarrow> SourceMapError + int" where
  "signed_delta current previous =
     (if previous \<le> current then
        (if current - previous < 2 ^ 63 then Inr (int (current - previous)) else Inl SmPositionDeltaOutOfRange)
      else if previous - current < 2 ^ 63 then Inr (- int (previous - current)) else Inl SmPositionDeltaOutOfRange)"

definition mapping_step ::
    "MappingCursor \<Rightarrow> LineColumn \<Rightarrow> LineColumn \<Rightarrow> SourceMapError + MappingStep \<times> MappingCursor" where
  "mapping_step self generated original =
     (if lc_line generated < mc_generated_line self then Inl SmMappingOrderInvalid
      else
        let new_lines = lc_line generated - mc_generated_line self;
            self = (if 0 < new_lines
              then self\<lparr>mc_generated_line := lc_line generated, mc_generated_column := 0, mc_has_segment := False\<rparr>
              else self) in
        if lc_column generated < mc_generated_column self then Inl SmMappingOrderInvalid
        else
          rbind (signed_delta (lc_column generated) (mc_generated_column self)) (\<lambda>d0.
          rbind (signed_delta (lc_line original) (mc_original_line self)) (\<lambda>d2.
          rbind (signed_delta (lc_column original) (mc_original_column self)) (\<lambda>d3.
          Inr (\<lparr>ms_new_lines = new_lines, ms_comma = mc_has_segment self, ms_deltas = [d0, 0, d2, d3]\<rparr>,
            self\<lparr>mc_generated_column := lc_column generated, mc_original_line := lc_line original,
              mc_original_column := lc_column original, mc_has_segment := True\<rparr>)))))"

definition vlq_value :: "int \<Rightarrow> nat" where
  "vlq_value v = (min (nat \<bar>v\<bar> * 2) (2 ^ 64 - 1)) OR (if v < 0 then 1 else 0)"

function vlq_digits :: "nat \<Rightarrow> usize" where
  "vlq_digits remaining = (if 32 \<le> remaining then Suc (vlq_digits (drop_bit 5 remaining)) else 1)"
  by pat_completeness auto
termination
  by (relation "measure id") (auto simp: drop_bit_eq_div)

definition vlq_length :: "int \<Rightarrow> usize" where
  "vlq_length v = vlq_digits (vlq_value v)"

definition BASE64 :: bytes where
  "BASE64 = str_bytes ''ABCDEFGHIJKLMNOPQRSTUVWXYZabcdefghijklmnopqrstuvwxyz0123456789+/''"

function vlq_loop :: "nat \<Rightarrow> bytes" where
  "vlq_loop remaining =
     (let digit = remaining AND 31; remaining = drop_bit 5 remaining in
      if 0 < remaining then BASE64 ! (digit OR 32) # vlq_loop remaining else [BASE64 ! digit])"
  by pat_completeness auto
termination
  by (relation "measure id") (auto simp: drop_bit_eq_div)

declare vlq_digits.simps [simp del] vlq_loop.simps [simp del]

definition append_vlq :: "bytes \<Rightarrow> int \<Rightarrow> bytes" where
  "append_vlq output v = output @ vlq_loop (vlq_value v)"

fun add_lengths :: "usize list \<Rightarrow> usize \<Rightarrow> SourceMapError + usize" where
  "add_lengths [] n = Inr n"
| "add_lengths (m # ms) n =
     rbind (ok_or SmSourceMapLengthOverflow (checked_add_usize n m)) (\<lambda>n. add_lengths ms n)"

fun mappings_length_loop :: "(LineColumn \<times> LineColumn) list \<Rightarrow> MappingCursor \<Rightarrow> usize \<Rightarrow> SourceMapError + usize" where
  "mappings_length_loop [] cursor n = Inr n"
| "mappings_length_loop ((generated, original) # pairs) cursor n =
     rbind (mapping_step cursor generated original) (\<lambda>(step, cursor).
     rbind (add_lengths ([ms_new_lines step] @ (if ms_comma step then [1] else []) @ map vlq_length (ms_deltas step)) n)
       (\<lambda>n. mappings_length_loop pairs cursor n))"

definition mappings_length :: "LineColumn list \<Rightarrow> LineColumn list \<Rightarrow> SourceMapError + usize" where
  "mappings_length generated original =
     (if length generated \<noteq> length original then Inl SmPositionCountMismatch
      else mappings_length_loop (zip generated original) mapping_cursor_new 0)"

fun append_mappings_loop :: "(LineColumn \<times> LineColumn) list \<Rightarrow> MappingCursor \<Rightarrow> bytes \<Rightarrow> SourceMapError + bytes" where
  "append_mappings_loop [] cursor output = Inr output"
| "append_mappings_loop ((generated, original) # pairs) cursor output =
     rbind (mapping_step cursor generated original) (\<lambda>(step, cursor).
     append_mappings_loop pairs cursor
       (fold (\<lambda>delta out. append_vlq out delta) (ms_deltas step)
         (output @ replicate (ms_new_lines step) 0x3B @ (if ms_comma step then [0x2C] else []))))"

definition append_mappings :: "bytes \<Rightarrow> LineColumn list \<Rightarrow> LineColumn list \<Rightarrow> SourceMapError + bytes" where
  "append_mappings output generated original =
     (if length generated \<noteq> length original then Inl SmPositionCountMismatch
      else append_mappings_loop (zip generated original) mapping_cursor_new output)"

subsection \<open>The document\<close>

definition MAP_PREFIX :: bytes where
  "MAP_PREFIX = str_bytes (''{'' @ json_field ''version'' @ ''3,'' @ json_field ''sources'' @ ''['' @ [CHR 0x22])"
definition MAP_MAPPINGS :: bytes where
  "MAP_MAPPINGS = str_bytes ([CHR 0x22] @ ''],'' @ json_field ''names'' @ ''[],'' @ json_field ''mappings'' @ [CHR 0x22])"
definition MAP_EXTENSION :: bytes where
  "MAP_EXTENSION = str_bytes ([CHR 0x22] @ '','' @ json_field ''x_weregopher'' @ ''{'' @ json_field ''format_version'' @
     quote_text ''1'' @ '','' @ json_field ''rule_id'' @ [CHR 0x22])"
definition MAP_RULE_DIGEST :: bytes where
  "MAP_RULE_DIGEST = str_bytes ([CHR 0x22] @ '','' @ json_field ''rule_digest'' @ [CHR 0x22])"
definition MAP_SOURCE_DIGEST :: bytes where
  "MAP_SOURCE_DIGEST = str_bytes ([CHR 0x22] @ '','' @ json_field ''source_digest'' @ [CHR 0x22])"
definition MAP_TRANSFORMED_DIGEST :: bytes where
  "MAP_TRANSFORMED_DIGEST = str_bytes ([CHR 0x22] @ '','' @ json_field ''transformed_source_digest'' @ [CHR 0x22])"
definition MAP_SUFFIX :: bytes where
  "MAP_SUFFIX = str_bytes ([CHR 0x22] @ ''}}'')"

definition source_map_length :: "usize \<Rightarrow> usize \<Rightarrow> usize \<Rightarrow> SourceMapError + usize" where
  "source_map_length mappings_bytes source_id_length rule_id_length =
     add_lengths
       [length MAP_PREFIX, length MAP_MAPPINGS, length MAP_EXTENSION, length MAP_RULE_DIGEST,
        length MAP_SOURCE_DIGEST, length MAP_TRANSFORMED_DIGEST, length MAP_SUFFIX,
        source_id_length, mappings_bytes, rule_id_length, DIGEST_TEXT_LENGTH, DIGEST_TEXT_LENGTH, DIGEST_TEXT_LENGTH] 0"

definition emit_source_map ::
    "(bytes \<Rightarrow> Sha256Digest) \<Rightarrow> EmittedTransformedSource \<Rightarrow> bytes \<Rightarrow> SourceMapLimits \<Rightarrow>
     SourceMapError + EmittedSourceMap" where
  "emit_source_map sha256 transformed source limits =
     (let text = ets_transformed_source transformed; plan = ets_plan transformed in
      if sl_source_bytes limits < length source then Inl (SmSourceTooLarge (length source) (sl_source_bytes limits))
      else if sl_transformed_source_bytes limits < length text
      then Inl (SmTransformedSourceTooLarge (length text) (sl_transformed_source_bytes limits))
      else if sha256 source \<noteq> su_source_digest (tn_source plan) then Inl SmSourceDigestMismatch
      else if \<not> utf8_valid source then Inl SmSourceNotUtf8
      else if \<not> utf8_valid text then Inl SmTransformedSourceNotUtf8
      else
        rbind (count_line_starts text) (\<lambda>line_count.
        rbind (ok_or SmSegmentCountOverflow (checked_mul_usize (length (tn_edits plan)) 2)) (\<lambda>edit_segments.
        rbind (ok_or SmSegmentCountOverflow (checked_add_usize line_count edit_segments)) (\<lambda>required_segments.
        if sl_segments limits < required_segments
        then Inl (SmSegmentLimitExceeded required_segments (sl_segments limits))
        else
          rbind (collect_line_starts text line_count) (\<lambda>line_starts.
          rbind (append_generated_line_anchors [] line_starts plan (length source)) (\<lambda>anchors.
          rbind (append_edit_anchors anchors plan (length source)) (\<lambda>anchors.
          let anchors = remdups_adj (sort anchors) in
          rbind (check_windows anchors) (\<lambda>_.
          rbind (resolve_positions text (map fst anchors)) (\<lambda>generated_positions.
          rbind (resolve_positions source (map snd anchors)) (\<lambda>original_positions.
          rbind (mappings_length generated_positions original_positions) (\<lambda>mappings_length.
          rbind (source_map_length mappings_length (length (su_unit_id (tn_source plan))) (length (tn_rule_id plan)))
            (\<lambda>map_length.
          if sl_source_map_bytes limits < map_length
          then Inl (SmSourceMapTooLarge map_length (sl_source_map_bytes limits))
          else
            rbind (append_mappings (MAP_PREFIX @ str_bytes (su_unit_id (tn_source plan)) @ MAP_MAPPINGS)
              generated_positions original_positions) (\<lambda>out.
            let out = append_digest (out @ MAP_EXTENSION @ str_bytes (tn_rule_id plan) @ MAP_RULE_DIGEST)
                  (tn_rule_digest plan);
                out = append_digest (out @ MAP_SOURCE_DIGEST) (su_source_digest (tn_source plan));
                out = append_digest (out @ MAP_TRANSFORMED_DIGEST) (ets_transformed_source_digest transformed) @
                  MAP_SUFFIX in
            if length out \<noteq> map_length then Inl (SmEmittedLengthMismatch map_length (length out))
            else Inr \<lparr>esm_transformed_source = transformed, esm_bytes = out, esm_digest = sha256 out,
                   esm_segment_count = length anchors\<rparr>)))))))))))))"

end
