(* ===== verification/Source_Map_Codec.thy ===== *)
theory Source_Map_Codec
  imports Source_Map
begin

section \<open>Reading mappings back\<close>

text \<open>
  A reader of the Source Map v3 \<open>mappings\<close> field, written from the format: lines separated by
  semicolons, segments by commas, four Base64 VLQ fields per segment, each relative to the one
  before, the generated column to zero at every line. The emitted text is read back as exactly
  the positions it was emitted for.
\<close>

fun read_vlq_digits :: "bytes \<Rightarrow> (nat \<times> bytes) option" where
  "read_vlq_digits [] = None"
| "read_vlq_digits (b # bs) =
     (case position_of b BASE64 of
        None \<Rightarrow> None
      | Some d \<Rightarrow>
          (if d < 32 then Some (d, bs)
           else case read_vlq_digits bs of
               None \<Rightarrow> None
             | Some (n, bs') \<Rightarrow> Some (d - 32 + 32 * n, bs')))"

definition read_vlq :: "bytes \<Rightarrow> (int \<times> bytes) option" where
  "read_vlq bs =
     map_option (\<lambda>(n, bs'). (if even n then int (n div 2) else - int (n div 2), bs')) (read_vlq_digits bs)"

fun read_fields :: "nat \<Rightarrow> bytes \<Rightarrow> (int list \<times> bytes) option" where
  "read_fields 0 bs = Some ([], bs)"
| "read_fields (Suc k) bs =
     (case read_vlq bs of
        None \<Rightarrow> None
      | Some (v, bs') \<Rightarrow> map_option (\<lambda>(vs, bs''). (v # vs, bs'')) (read_fields k bs'))"

type_synonym segment = "nat \<times> int \<times> int \<times> int"

lemma read_vlq_digits_shorter: "read_vlq_digits bs = Some (n, bs') \<Longrightarrow> length bs' < length bs"
  by (induction bs arbitrary: n bs') (fastforce split: option.splits if_splits)+

lemma read_fields_shorter: "read_fields (Suc k) bs = Some (vs, bs') \<Longrightarrow> length bs' < length bs"
proof (induction k arbitrary: bs vs)
  case 0
  then show ?case
    by (auto simp: read_vlq_def dest: read_vlq_digits_shorter split: option.splits)
next
  case (Suc k)
  then show ?case
    by (fastforce simp: read_vlq_def dest: read_vlq_digits_shorter split: option.splits)
qed

lemma read_four_shorter: "read_fields 4 bs = Some (vs, bs') \<Longrightarrow> length bs' < length bs"
  using read_fields_shorter [of 3 bs vs bs'] by simp

function read_mappings :: "bytes \<Rightarrow> bool \<Rightarrow> segment \<Rightarrow> segment list option" where
  "read_mappings bs has_segment (line, column, original_line, original_column) =
     (case bs of
        [] \<Rightarrow> Some []
      | b # cs \<Rightarrow>
          (if b = 0x3B then read_mappings cs False (Suc line, 0, original_line, original_column)
           else if has_segment \<and> b \<noteq> 0x2C then None
           else
             (case read_fields 4 (if has_segment then cs else bs) of
                Some ([d0, d1, d2, d3], rest_bytes) \<Rightarrow>
                  (if d1 \<noteq> 0 then None
                   else
                     let s = (line, column + d0, original_line + d2, original_column + d3) in
                     map_option (Cons s) (read_mappings rest_bytes True s))
              | _ \<Rightarrow> None)))"
  by pat_completeness auto
termination
  by (relation "measure (\<lambda>(bs, _). length bs)")
    (auto dest!: read_four_shorter split: if_splits)

declare read_mappings.simps [simp del]

subsection \<open>Variable-length quantities\<close>

lemma position_of_nth: "distinct xs \<Longrightarrow> i < length xs \<Longrightarrow> position_of (xs ! i) xs = Some i"
proof (induction xs arbitrary: i)
  case (Cons x xs)
  then show ?case by (cases i) auto
qed simp

lemma BASE64_length: "length BASE64 = 64"
  by (simp add: BASE64_def)

lemma BASE64_distinct: "distinct BASE64"
proof -
  have "distinct ''ABCDEFGHIJKLMNOPQRSTUVWXYZabcdefghijklmnopqrstuvwxyz0123456789+/''"
    by simp
  then show ?thesis
    unfolding BASE64_def str_bytes_char distinct_map
    using inj_on_subset [OF inj_char_byte subset_UNIV] by blast
qed

lemma BASE64_position: "d < 64 \<Longrightarrow> position_of (BASE64 ! d) BASE64 = Some d"
  by (simp add: position_of_nth BASE64_distinct BASE64_length)

lemma BASE64_not: "d < 64 \<Longrightarrow> BASE64 ! d \<noteq> 0x3B \<and> BASE64 ! d \<noteq> 0x2C"
proof -
  have "0x3B \<notin> set BASE64" "0x2C \<notin> set BASE64"
    by (simp_all add: BASE64_def str_bytes_def)
  then show "d < 64 \<Longrightarrow> BASE64 ! d \<noteq> 0x3B \<and> BASE64 ! d \<noteq> 0x2C"
    using nth_mem [of d BASE64] unfolding BASE64_length by metis
qed

lemma or_32: "m < 32 \<Longrightarrow> m OR 32 = m + (32 :: nat)"
proof -
  have "list_all (\<lambda>m. m OR 32 = m + (32 :: nat)) [0..<32]"
    by code_simp
  then show "m < 32 \<Longrightarrow> m OR 32 = m + (32 :: nat)"
    by (auto simp: list_all_iff)
qed

lemma read_vlq_loop: "read_vlq_digits (vlq_loop n @ bs) = Some (n, bs)"
proof (induction n rule: vlq_loop.induct)
  case (1 n)
  have lo: "n AND 31 = n mod 32" "n mod 32 < 32"
    using take_bit_eq_mask [of 5 n] by (simp_all add: mask_eq_exp_minus_1 take_bit_eq_mod)
  have hi: "n mod 32 OR 32 = n mod 32 + 32"
    using lo by (simp add: or_32)
  show ?case
  proof (cases "0 < drop_bit 5 n")
    case True
    then show ?thesis
      using 1 [OF refl refl True] lo(2)
      by (subst vlq_loop.simps) (simp add: lo(1) hi BASE64_position Let_def drop_bit_eq_div)
  next
    case False
    then have "n < 32" by (simp add: drop_bit_eq_div)
    then show ?thesis
      using False by (subst vlq_loop.simps) (simp add: lo(1) BASE64_position Let_def)
  qed
qed

lemma vlq_value_eq: "\<bar>v\<bar> < 2 ^ 63 \<Longrightarrow> vlq_value v = 2 * nat \<bar>v\<bar> + (if v < 0 then 1 else 0)"
  using or_one_eq [of "nat \<bar>v\<bar> * 2"] by (auto simp: vlq_value_def min_def)

lemma read_vlq_value: "\<bar>v\<bar> < 2 ^ 63 \<Longrightarrow> read_vlq (vlq_loop (vlq_value v) @ bs) = Some (v, bs)"
  by (simp add: read_vlq_def read_vlq_loop vlq_value_eq)

lemma length_vlq_loop: "length (vlq_loop n) = vlq_digits n"
proof (induction n rule: vlq_loop.induct)
  case (1 n)
  then show ?case
    by (subst vlq_loop.simps, subst vlq_digits.simps) (auto simp: Let_def drop_bit_eq_div)
qed

subsection \<open>Mappings\<close>

definition step_text :: "MappingStep \<Rightarrow> bytes" where
  "step_text st = replicate (ms_new_lines st) 0x3B @ (if ms_comma st then [0x2C] else []) @
     concat (map (\<lambda>d. vlq_loop (vlq_value d)) (ms_deltas st))"

fun mapping_steps :: "(LineColumn \<times> LineColumn) list \<Rightarrow> MappingCursor \<Rightarrow> SourceMapError + MappingStep list" where
  "mapping_steps [] cursor = Inr []"
| "mapping_steps ((g, r) # pairs) cursor =
     rbind (mapping_step cursor g r) (\<lambda>(st, cursor). rbind (mapping_steps pairs cursor) (\<lambda>sts. Inr (st # sts)))"

definition mapping_text :: "MappingStep list \<Rightarrow> bytes" where
  "mapping_text sts = concat (map step_text sts)"

lemma fold_append_vlq: "fold (\<lambda>d out. append_vlq out d) ds out = out @ concat (map (\<lambda>d. vlq_loop (vlq_value d)) ds)"
  by (induction ds arbitrary: out) (simp_all add: append_vlq_def)

lemma append_mappings_steps:
  "mapping_steps pairs cursor = Inr sts \<Longrightarrow> append_mappings_loop pairs cursor out = Inr (out @ mapping_text sts)"
proof (induction pairs cursor arbitrary: out sts rule: mapping_steps.induct)
  case (2 g r pairs cursor)
  then show ?case
    by (auto simp: rbind_Inr_iff fold_append_vlq step_text_def mapping_text_def)
qed (simp add: mapping_text_def)

lemma add_lengths_eq:
  "add_lengths ms n = (if ms \<noteq> [] \<and> 2 ^ 64 \<le> n + sum_list ms then Inl SmSourceMapLengthOverflow else Inr (n + sum_list ms))"
  by (induction ms arbitrary: n) (auto simp: checked_add_usize_def)

lemma length_step_text:
  "length (step_text st) = sum_list ([ms_new_lines st] @ (if ms_comma st then [1] else []) @ map vlq_length (ms_deltas st))"
  by (simp add: step_text_def length_concat comp_def vlq_length_def [abs_def] length_vlq_loop)

lemma mappings_length_steps:
  "mapping_steps pairs cursor = Inr sts \<Longrightarrow>
   mappings_length_loop pairs cursor n =
    (if sts \<noteq> [] \<and> 2 ^ 64 \<le> n + length (mapping_text sts) then Inl SmSourceMapLengthOverflow
     else Inr (n + length (mapping_text sts)))"
proof (induction pairs cursor arbitrary: n sts rule: mapping_steps.induct)
  case (2 g r pairs cursor)
  from "2.prems" obtain st cur sts' where st: "mapping_step cursor g r = Inr (st, cur)" "sts = st # sts'"
      and rec: "mapping_steps pairs cur = Inr sts'"
    by (auto simp: rbind_Inr_iff)
  have add: "add_lengths ([ms_new_lines st] @ (if ms_comma st then [1] else []) @ map vlq_length (ms_deltas st)) n =
      (if 2 ^ 64 \<le> n + length (step_text st) then Inl SmSourceMapLengthOverflow else Inr (n + length (step_text st)))"
    unfolding add_lengths_eq length_step_text by simp
  have "mappings_length_loop ((g, r) # pairs) cursor n =
      (if 2 ^ 64 \<le> n + length (step_text st) then Inl SmSourceMapLengthOverflow
       else mappings_length_loop pairs cur (n + length (step_text st)))"
    unfolding mappings_length_loop.simps st(1) rbind_simps prod.case add by simp
  then show ?case
    using "2.IH" [OF st(1) refl rec, of "n + length (step_text st)"]
    by (auto simp: st(2) mapping_text_def)
qed (simp add: mapping_text_def)

text \<open>What the reader's state is for a cursor of the writer.\<close>

definition cursor_segment :: "MappingCursor \<Rightarrow> segment" where
  "cursor_segment c = (mc_generated_line c, int (mc_generated_column c), int (mc_original_line c), int (mc_original_column c))"

definition position_segment :: "LineColumn \<times> LineColumn \<Rightarrow> segment" where
  "position_segment p = (lc_line (fst p), int (lc_column (fst p)), int (lc_line (snd p)), int (lc_column (snd p)))"

lemma read_new_lines:
  "read_mappings (replicate n 0x3B @ bs) h (l, c, a, b) =
     (if n = 0 then read_mappings bs h (l, c, a, b) else read_mappings bs False (l + n, 0, a, b))"
proof (induction n arbitrary: h l c)
  case (Suc n)
  then show ?case
    by (subst read_mappings.simps) auto
qed simp

lemma vlq_loop_first: "\<exists>d ds. d < 64 \<and> vlq_loop n = BASE64 ! d # ds"
proof -
  have "n AND 31 < 32"
    using take_bit_eq_mask [of 5 n] by (simp add: mask_eq_exp_minus_1 take_bit_eq_mod flip: take_bit_eq_mask)
  then show ?thesis
    by (cases "drop_bit 5 n = 0"; subst vlq_loop.simps)
      (auto simp: Let_def or_32 intro: exI [of _ "n AND 31"] exI [of _ "(n AND 31) + 32"])
qed

lemma read_segment_fields:
  assumes "\<bar>d0\<bar> < 2 ^ 63" "\<bar>d2\<bar> < 2 ^ 63" "\<bar>d3\<bar> < 2 ^ 63"
  shows "read_fields 4 (concat (map (\<lambda>d. vlq_loop (vlq_value d)) [d0, 0, d2, d3]) @ bs) = Some ([d0, 0, d2, d3], bs)"
  using assms by (simp add: numeral_eq_Suc read_vlq_value)

lemma read_one_segment:
  assumes d: "\<bar>d0\<bar> < 2 ^ 63" "\<bar>d2\<bar> < 2 ^ 63" "\<bar>d3\<bar> < 2 ^ 63"
  shows "read_mappings ((if h then [0x2C] else []) @ concat (map (\<lambda>d. vlq_loop (vlq_value d)) [d0, 0, d2, d3]) @ bs) h
      (l, c, a, b) =
    map_option (Cons (l, c + d0, a + d2, b + d3)) (read_mappings bs True (l, c + d0, a + d2, b + d3))"
proof (cases h)
  case True
  then show ?thesis
    using read_segment_fields [OF d, of bs] by (subst read_mappings.simps) (simp add: Let_def)
next
  case False
  obtain d ds where first: "d < 64" "vlq_loop (vlq_value d0) = BASE64 ! d # ds"
    using vlq_loop_first by blast
  then show ?thesis
    using False read_segment_fields [OF d, of bs] BASE64_not [OF first(1)]
    by (subst read_mappings.simps) (simp add: Let_def)
qed

lemma signed_delta_Inr: "signed_delta m n = Inr d \<longleftrightarrow> d = int m - int n \<and> \<bar>int m - int n\<bar> < 2 ^ 63"
  by (auto simp: signed_delta_def)

lemma read_step:
  assumes "mapping_step cursor g r = Inr (st, cur)"
  shows "read_mappings (step_text st @ bs) (mc_has_segment cursor) (cursor_segment cursor) =
    map_option (Cons (position_segment (g, r))) (read_mappings bs True (position_segment (g, r)))"
    and "cursor_segment cur = position_segment (g, r)" "mc_has_segment cur"
proof -
  let ?n = "lc_line g - mc_generated_line cursor"
  let ?c = "if 0 < ?n then 0 else mc_generated_column cursor" and ?h = "?n = 0 \<and> mc_has_segment cursor"
  let ?d0 = "int (lc_column g) - int ?c" and ?d2 = "int (lc_line r) - int (mc_original_line cursor)"
  let ?d3 = "int (lc_column r) - int (mc_original_column cursor)"
  have ok: "mc_generated_line cursor \<le> lc_line g" "\<bar>?d0\<bar> < 2 ^ 63" "\<bar>?d2\<bar> < 2 ^ 63" "\<bar>?d3\<bar> < 2 ^ 63"
      and st: "st = \<lparr>ms_new_lines = ?n, ms_comma = ?h, ms_deltas = [?d0, 0, ?d2, ?d3]\<rparr>"
    using assms by (auto simp: mapping_step_def Let_def rbind_Inr_iff signed_delta_Inr split: if_splits)
  show "cursor_segment cur = position_segment (g, r)" "mc_has_segment cur"
    using assms by (auto simp: mapping_step_def Let_def rbind_Inr_iff cursor_segment_def position_segment_def
        split: if_splits)
  have "step_text st @ bs = replicate ?n 0x3B @ (if ?h then [0x2C] else []) @
      concat (map (\<lambda>d. vlq_loop (vlq_value d)) [?d0, 0, ?d2, ?d3]) @ bs"
    by (simp add: step_text_def st)
  then have "read_mappings (step_text st @ bs) (mc_has_segment cursor) (cursor_segment cursor) =
      read_mappings ((if ?h then [0x2C] else []) @ concat (map (\<lambda>d. vlq_loop (vlq_value d)) [?d0, 0, ?d2, ?d3]) @ bs) ?h
        (lc_line g, int ?c, int (mc_original_line cursor), int (mc_original_column cursor))"
    unfolding cursor_segment_def using ok(1) by (simp only: read_new_lines) (auto simp: le_antisym)
  then show "read_mappings (step_text st @ bs) (mc_has_segment cursor) (cursor_segment cursor) =
    map_option (Cons (position_segment (g, r))) (read_mappings bs True (position_segment (g, r)))"
    unfolding read_one_segment [OF ok(2-4)] by (simp add: position_segment_def)
qed

lemma mappings_read_back:
  "mapping_steps pairs cursor = Inr sts \<Longrightarrow>
     read_mappings (mapping_text sts) (mc_has_segment cursor) (cursor_segment cursor) = Some (map position_segment pairs)"
proof (induction pairs cursor arbitrary: sts rule: mapping_steps.induct)
  case (1 cursor)
  then show ?case
    by (cases "cursor_segment cursor") (simp add: mapping_text_def read_mappings.simps)
next
  case (2 g r pairs cursor)
  from "2.prems" obtain st cur sts' where st: "mapping_step cursor g r = Inr (st, cur)" "sts = st # sts'"
      and rec: "mapping_steps pairs cur = Inr sts'"
    by (auto simp: rbind_Inr_iff)
  show ?case
    using "2.IH" [OF st(1) refl rec] read_step [OF st(1)] by (simp add: mapping_text_def st(2))
qed

definition position_le :: "LineColumn \<Rightarrow> LineColumn \<Rightarrow> bool" where
  "position_le p q \<longleftrightarrow> lc_line p < lc_line q \<or> lc_line p = lc_line q \<and> lc_column p \<le> lc_column q"

definition position_small :: "LineColumn \<Rightarrow> bool" where
  "position_small p \<longleftrightarrow> lc_line p < 2 ^ 63 \<and> lc_column p < 2 ^ 63"

lemma mapping_steps_succeed:
  assumes "list_all (\<lambda>(g, r). position_small g \<and> position_small r) pairs" "sorted_wrt position_le (map fst pairs)"
    and "list_all (\<lambda>(g, r). position_le \<lparr>lc_line = mc_generated_line cursor, lc_column = mc_generated_column cursor\<rparr> g) pairs"
    and "mc_generated_column cursor < 2 ^ 63" "mc_original_line cursor < 2 ^ 63" "mc_original_column cursor < 2 ^ 63"
  shows "\<exists>sts. mapping_steps pairs cursor = Inr sts"
  using assms
proof (induction pairs arbitrary: cursor)
  case (Cons p pairs)
  obtain g r where p: "p = (g, r)" by (cases p)
  have le: "mc_generated_line cursor < lc_line g \<or>
      mc_generated_line cursor = lc_line g \<and> mc_generated_column cursor \<le> lc_column g"
      and small: "position_small g" "position_small r"
    using Cons.prems by (auto simp: p position_le_def)
  have delta: "\<exists>d. signed_delta m n = Inr d" if "m < 2 ^ 63" "n < 2 ^ 63" for m n
    using that by (auto simp: signed_delta_def)
  obtain st cur where st: "mapping_step cursor g r = Inr (st, cur)"
    using le small delta [of "lc_column g" 0] delta [of "lc_column g" "mc_generated_column cursor"]
      delta [of "lc_line r" "mc_original_line cursor"] delta [of "lc_column r" "mc_original_column cursor"] Cons.prems(4-6)
    by (auto simp: mapping_step_def position_small_def Let_def)
  have cur: "mc_generated_line cur = lc_line g" "mc_generated_column cur = lc_column g"
      "mc_original_line cur = lc_line r" "mc_original_column cur = lc_column r"
    using st le by (auto simp: mapping_step_def Let_def rbind_Inr_iff split: if_splits)
  have "\<exists>sts. mapping_steps pairs cur = Inr sts"
    using Cons.prems small by (intro Cons.IH) (auto simp: cur p position_small_def position_le_def list_all_iff)
  with st show ?case
    by (auto simp: p)
qed simp

end
