(* ===== verification/Utf8_Text.thy ===== *)
theory Utf8_Text
  imports Transform_Plan
begin

section \<open>Characters and byte offsets of UTF-8 text\<close>

text \<open>
  Valid UTF-8 is the encoding of its decoded characters, and the character boundaries of a
  text are exactly the offsets at which its characters start, and its end.
\<close>

definition is_scalar :: "nat \<Rightarrow> bool" where
  "is_scalar c \<longleftrightarrow> c < 0x110000 \<and> \<not> (0xD800 \<le> c \<and> c \<le> 0xDFFF)"

lemma horner: "n < 64 \<Longrightarrow> (m * 64 + n) div 64 = m" "n < 64 \<Longrightarrow> (m * 64 + n) mod 64 = n" for m n :: nat
  by simp_all

lemma byte_split:
  assumes "unat (a :: u8) = p + x"
  shows "of_nat (p + x) = a"
  using assms by (metis of_nat_unat ucast_id)

lemma cont_unat: "utf8_cont b \<longleftrightarrow> 128 \<le> unat b \<and> unat b \<le> 191"
  by (simp add: utf8_cont_def word_le_nat_alt)

lemma encode_two:
  assumes "0xC2 \<le> a" "a \<le> 0xDF" "utf8_cont b"
  shows "utf8_encode ((unat a mod 32) * 64 + unat b mod 64) = [a, b]"
    and "is_scalar ((unat a mod 32) * 64 + unat b mod 64)"
proof -
  obtain x where x: "unat a = 192 + x" "2 \<le> x" "x < 32"
    using assms(1,2) by (intro that [of "unat a - 192"]) (auto simp: word_le_nat_alt)
  obtain y where y: "unat b = 128 + y" "y < 64"
    using assms(3) by (intro that [of "unat b - 128"]) (auto simp: cont_unat)
  have v: "(unat a mod 32) * 64 + unat b mod 64 = x * 64 + y"
    using x y by (simp add: mod_if)
  have "(x * 64 + y) div 64 = x" "(x * 64 + y) mod 64 = y"
    using y by simp_all
  then show "utf8_encode ((unat a mod 32) * 64 + unat b mod 64) = [a, b]"
    unfolding v using x y byte_split [OF x(1)] byte_split [OF y(1)] by (simp add: utf8_encode_def)
  show "is_scalar ((unat a mod 32) * 64 + unat b mod 64)"
    unfolding v using x y by (simp add: is_scalar_def)
qed

lemma encode_three:
  assumes "0xE0 \<le> a" "a \<le> 0xEF" "utf8_cont b" "utf8_cont c"
    and "a = 0xE0 \<longrightarrow> 0xA0 \<le> b" "a = 0xED \<longrightarrow> b \<le> 0x9F"
  shows "utf8_encode ((unat a mod 16) * 4096 + (unat b mod 64) * 64 + unat c mod 64) = [a, b, c]"
    and "is_scalar ((unat a mod 16) * 4096 + (unat b mod 64) * 64 + unat c mod 64)"
proof -
  obtain x where x: "unat a = 224 + x" "x < 16"
    using assms(1,2) by (intro that [of "unat a - 224"]) (auto simp: word_le_nat_alt)
  obtain y where y: "unat b = 128 + y" "y < 64"
    using assms(3) by (intro that [of "unat b - 128"]) (auto simp: cont_unat)
  obtain z where z: "unat c = 128 + z" "z < 64"
    using assms(4) by (intro that [of "unat c - 128"]) (auto simp: cont_unat)
  have v: "(unat a mod 16) * 4096 + (unat b mod 64) * 64 + unat c mod 64 = x * 4096 + y * 64 + z"
    using x y z by (simp add: mod_if)
  have lo: "x = 0 \<longrightarrow> 32 \<le> y" and sur: "x = 13 \<longrightarrow> y < 32"
    using assms(5,6) x y by (auto simp: word_le_nat_alt word_unat_eq_iff)
  have ge: "\<not> x * 4096 + y * 64 + z < 2048"
    using lo by (cases x) auto
  have "x * 4096 + y * 64 + z = (x * 64 + y) * 64 + z" "\<And>n. n div 4096 = n div 64 div (64 :: nat)"
    by (simp_all add: div_mult2_eq [symmetric])
  then have "(x * 4096 + y * 64 + z) div 4096 = x" "(x * 4096 + y * 64 + z) div 64 mod 64 = y"
      "(x * 4096 + y * 64 + z) mod 64 = z"
    using y z by (simp_all only: horner)
  then show "utf8_encode ((unat a mod 16) * 4096 + (unat b mod 64) * 64 + unat c mod 64) = [a, b, c]"
    unfolding v using x y z ge byte_split [OF x(1)] byte_split [OF y(1)] byte_split [OF z(1)]
    by (simp add: utf8_encode_def)
  show "is_scalar ((unat a mod 16) * 4096 + (unat b mod 64) * 64 + unat c mod 64)"
    unfolding v using x y z sur by (cases "x \<le> 12"; cases "x = 13") (auto simp: is_scalar_def)
qed

lemma encode_four:
  assumes "0xF0 \<le> a" "a \<le> 0xF4" "utf8_cont b" "utf8_cont c" "utf8_cont d"
    and "a = 0xF0 \<longrightarrow> 0x90 \<le> b" "a = 0xF4 \<longrightarrow> b \<le> 0x8F"
  shows "utf8_encode ((unat a mod 8) * 262144 + (unat b mod 64) * 4096 + (unat c mod 64) * 64 + unat d mod 64) =
      [a, b, c, d]"
    and "is_scalar ((unat a mod 8) * 262144 + (unat b mod 64) * 4096 + (unat c mod 64) * 64 + unat d mod 64)"
proof -
  obtain x where x: "unat a = 240 + x" "x < 5"
    using assms(1,2) by (intro that [of "unat a - 240"]) (auto simp: word_le_nat_alt)
  obtain y where y: "unat b = 128 + y" "y < 64"
    using assms(3) by (intro that [of "unat b - 128"]) (auto simp: cont_unat)
  obtain z where z: "unat c = 128 + z" "z < 64"
    using assms(4) by (intro that [of "unat c - 128"]) (auto simp: cont_unat)
  obtain w where w: "unat d = 128 + w" "w < 64"
    using assms(5) by (intro that [of "unat d - 128"]) (auto simp: cont_unat)
  have v: "(unat a mod 8) * 262144 + (unat b mod 64) * 4096 + (unat c mod 64) * 64 + unat d mod 64 =
      x * 262144 + y * 4096 + z * 64 + w"
    using x y z w by (simp add: mod_if)
  have lo: "x = 0 \<longrightarrow> 16 \<le> y" and hi: "x = 4 \<longrightarrow> y < 16"
    using assms(6,7) x y by (auto simp: word_le_nat_alt word_unat_eq_iff)
  have ge: "\<not> x * 262144 + y * 4096 + z * 64 + w < 65536"
    using lo by (cases x) auto
  have "x * 262144 + y * 4096 + z * 64 + w = ((x * 64 + y) * 64 + z) * 64 + w"
      "\<And>n. n div 4096 = n div 64 div (64 :: nat)" "\<And>n. n div 262144 = n div 64 div 64 div (64 :: nat)"
    by (simp_all add: div_mult2_eq [symmetric])
  then have "(x * 262144 + y * 4096 + z * 64 + w) div 262144 = x"
      "(x * 262144 + y * 4096 + z * 64 + w) div 4096 mod 64 = y"
      "(x * 262144 + y * 4096 + z * 64 + w) div 64 mod 64 = z" "(x * 262144 + y * 4096 + z * 64 + w) mod 64 = w"
    using y z w by (simp_all only: horner)
  then show "utf8_encode ((unat a mod 8) * 262144 + (unat b mod 64) * 4096 + (unat c mod 64) * 64 + unat d mod 64) =
      [a, b, c, d]"
    unfolding v using x y z w ge byte_split [OF x(1)] byte_split [OF y(1)] byte_split [OF z(1)] byte_split [OF w(1)]
    by (simp add: utf8_encode_def)
  show "is_scalar ((unat a mod 8) * 262144 + (unat b mod 64) * 4096 + (unat c mod 64) * 64 + unat d mod 64)"
    unfolding v using x y z w ge hi by (auto simp: is_scalar_def)
qed

definition utf8_text :: "nat list \<Rightarrow> bytes" where
  "utf8_text cs = concat (map utf8_encode cs)"

definition text_length :: "nat list \<Rightarrow> usize" where
  "text_length cs = sum_list (map len_utf8 cs)"

lemma utf8_text_simps [simp]:
  "utf8_text [] = []"
  "utf8_text (c # cs) = utf8_encode c @ utf8_text cs"
  "utf8_text (cs @ ds) = utf8_text cs @ utf8_text ds"
  by (simp_all add: utf8_text_def)

lemma text_length_simps [simp]:
  "text_length [] = 0"
  "text_length (c # cs) = len_utf8 c + text_length cs"
  "text_length (cs @ ds) = text_length cs + text_length ds"
  by (simp_all add: text_length_def)

lemma length_utf8_text [simp]: "length (utf8_text cs) = text_length cs"
  by (induction cs) auto

lemma encode_one: "a < 0x80 \<Longrightarrow> utf8_encode (unat a) = [a] \<and> is_scalar (unat a)" for a :: u8
  by (auto simp: utf8_encode_def is_scalar_def word_less_nat_alt)

lemma utf8_decoded:
  "utf8_valid bs \<Longrightarrow> utf8_text (decode_utf8 bs) = bs \<and> list_all is_scalar (decode_utf8 bs)"
proof (induction bs rule: utf8_valid.induct)
  case (2 a bs)
  consider "a < 0x80" | "0xC2 \<le> a" "a \<le> 0xDF" | "0xE0 \<le> a" "a \<le> 0xEF" | "0xF0 \<le> a" "a \<le> 0xF4"
    using "2.prems" by (auto split: if_splits)
  then show ?case
  proof cases
    case 1
    then show ?thesis using 2 encode_one [OF 1] by simp
  next
    case two: 2
    have n: "\<not> a < 0x80" "a < 0xE0"
      using two by (auto simp: word_le_nat_alt word_less_nat_alt)
    show ?thesis
      using "2.prems" "2.IH"(2) n two encode_two by (cases bs) auto
  next
    case 3
    have n: "\<not> a < 0x80" "\<not> a \<le> 0xDF" "\<not> a < 0xE0" "a < 0xF0"
      using 3 by (auto simp: word_le_nat_alt word_less_nat_alt)
    obtain b c bs' where bs: "bs = b # c # bs'" and v: "utf8_cont b" "utf8_cont c" "utf8_valid bs'"
        "a = 0xE0 \<longrightarrow> 0xA0 \<le> b" "a = 0xED \<longrightarrow> b \<le> 0x9F"
      using "2.prems" n 3 by (auto simp: cont_unat word_le_nat_alt split: list.splits if_splits)
    show ?thesis
      using "2.IH"(3) [OF n(1) _ _ bs refl] n 3 v(3) encode_three [OF 3 v(1,2,4,5)] by (simp add: bs)
  next
    case 4
    have n: "\<not> a < 0x80" "\<not> a \<le> 0xDF" "\<not> a < 0xE0" "\<not> a < 0xF0" "\<not> a \<le> 0xEF"
      using 4 by (auto simp: word_le_nat_alt word_less_nat_alt)
    obtain b c d bs' where bs: "bs = b # c # d # bs'" and v: "utf8_cont b" "utf8_cont c" "utf8_cont d"
        "utf8_valid bs'" "a = 0xF0 \<longrightarrow> 0x90 \<le> b" "a = 0xF4 \<longrightarrow> b \<le> 0x8F"
      using "2.prems" n 4 by (auto simp: cont_unat word_le_nat_alt split: list.splits if_splits)
    show ?thesis
      using "2.IH"(4) [OF n(1) _ _ _ bs refl refl] n 4 v(4) encode_four [OF 4 v(1-3,5,6)] by (simp add: bs)
  qed
qed simp

subsection \<open>Encoded characters\<close>

lemma unat_byte: "n < 256 \<Longrightarrow> unat (of_nat n :: u8) = n"
  by (simp add: unat_of_nat)

lemma byte_le: "n < 256 \<Longrightarrow> m < 256 \<Longrightarrow> (of_nat m :: u8) \<le> of_nat n \<longleftrightarrow> m \<le> n"
  by (simp add: word_le_nat_alt unat_byte)

lemma byte_less: "n < 256 \<Longrightarrow> m < 256 \<Longrightarrow> (of_nat m :: u8) < of_nat n \<longleftrightarrow> m < n"
  by (simp add: word_less_nat_alt unat_byte)

lemma byte_eq: "n < 256 \<Longrightarrow> m < 256 \<Longrightarrow> (of_nat m :: u8) = of_nat n \<longleftrightarrow> m = n"
  by (metis unat_byte)

lemma cont_byte: "y < 64 \<Longrightarrow> utf8_cont (of_nat (0x80 + y))"
  using unat_byte [of "0x80 + y"] by (simp only: cont_unat) simp

definition encoded_ok :: "nat \<Rightarrow> bool" where
  "encoded_ok c \<longleftrightarrow>
     (\<forall>bs. utf8_valid (utf8_encode c @ bs) = utf8_valid bs \<and> decode_utf8 (utf8_encode c @ bs) = c # decode_utf8 bs) \<and>
     \<not> utf8_cont (hd (utf8_encode c)) \<and> list_all utf8_cont (tl (utf8_encode c))"

lemma encoded_one: "c < 0x80 \<Longrightarrow> encoded_ok c"
  by (simp add: encoded_ok_def utf8_encode_def cont_unat word_less_nat_alt unat_of_nat)

lemma encoded_two:
  assumes "0x80 \<le> c" "c < 0x800"
  shows "encoded_ok c"
proof -
  obtain x y where c: "c = x * 64 + y" "y < 64" "2 \<le> x" "x < 32"
    using assms by (intro that [of "c div 64" "c mod 64"]) auto
  let ?a = "of_nat (0xC0 + x) :: u8"
  have e: "utf8_encode c = [?a, of_nat (0x80 + y)]"
    using assms c by (simp add: utf8_encode_def horner)
  have a: "unat ?a = 0xC0 + x" "unat (of_nat (0x80 + y) :: u8) = 0x80 + y"
    using c by (intro unat_byte; simp)+
  have "\<not> ?a < 0x80" "0xC2 \<le> ?a" "?a \<le> 0xDF" "?a < 0xE0" "\<not> utf8_cont ?a"
    using c by (simp_all only: word_le_nat_alt word_less_nat_alt a cont_unat) simp_all
  moreover have "(unat ?a mod 32) * 64 + unat (of_nat (0x80 + y) :: u8) mod 64 = c"
    unfolding a using c by (simp add: mod_if)
  ultimately show ?thesis
    unfolding encoded_ok_def e using cont_byte [OF c(2)] by simp
qed

lemma encoded_three:
  assumes "0x800 \<le> c" "c < 0x10000" "is_scalar c"
  shows "encoded_ok c"
proof -
  obtain x y z where c: "c = (x * 64 + y) * 64 + z" "y < 64" "z < 64" "x < 16"
    using assms by (intro that [of "c div 4096" "c div 64 mod 64" "c mod 64"]) (auto simp: div_mult2_eq [of _ 64 64, simplified])
  have xy: "x = 0 \<longrightarrow> 32 \<le> y" "x = 13 \<longrightarrow> y < 32"
    using assms c by (auto simp: is_scalar_def)
  define a b d :: u8 where abd: "a = of_nat (0xE0 + x)" "b = of_nat (0x80 + y)" "d = of_nat (0x80 + z)"
  have "c div 4096 = x" "c div 64 mod 64 = y" "c mod 64 = z"
    unfolding c(1) using c by (simp_all only: div_mult2_eq [of _ 64 64, simplified] horner)
  then have e: "utf8_encode c = [a, b, d]"
    using assms by (simp add: utf8_encode_def abd)
  have a: "unat a = 0xE0 + x" "unat b = 0x80 + y" "unat d = 0x80 + z"
    unfolding abd using c by (intro unat_byte; simp)+
  have "\<not> a < 0x80" "\<not> a \<le> 0xDF" "0xE0 \<le> a" "a \<le> 0xEF" "\<not> a < 0xE0" "a < 0xF0" "\<not> utf8_cont a"
    using c by (simp_all only: word_le_nat_alt word_less_nat_alt a cont_unat) simp_all
  moreover have "if a = 0xE0 then 0xA0 \<le> b \<and> b \<le> 0xBF
      else if a = 0xED then 0x80 \<le> b \<and> b \<le> 0x9F else utf8_cont b"
    using c xy by (simp only: word_unat_eq_iff word_le_nat_alt a cont_unat) auto
  moreover have "(unat a mod 16) * 4096 + (unat b mod 64) * 64 + unat d mod 64 = c"
    unfolding a using c by (simp add: mod_if)
  ultimately show ?thesis
    unfolding encoded_ok_def e using cont_byte [OF c(2), folded abd] cont_byte [OF c(3), folded abd] by simp
qed

lemma encoded_four:
  assumes "0x10000 \<le> c" "is_scalar c"
  shows "encoded_ok c"
proof -
  have c4: "\<And>n. n div 4096 = n div 64 div (64 :: nat)" "\<And>n. n div 262144 = n div 64 div 64 div (64 :: nat)"
    by (simp_all add: div_mult2_eq [symmetric])
  obtain x y z w where c: "c = ((x * 64 + y) * 64 + z) * 64 + w" "y < 64" "z < 64" "w < 64"
    by (rule that [of "c div 64 div 64 div 64" "c div 64 div 64 mod 64" "c div 64 mod 64" "c mod 64"])
      (simp_all only: div_mult_mod_eq mod_less_divisor zero_less_numeral)
  have xy: "x = 0 \<longrightarrow> 16 \<le> y" "x = 4 \<longrightarrow> y < 16" "x < 5"
    using assms c by (auto simp: is_scalar_def)
  define a b d f :: u8 where abd: "a = of_nat (0xF0 + x)" "b = of_nat (0x80 + y)" "d = of_nat (0x80 + z)"
    "f = of_nat (0x80 + w)"
  have "c div 262144 = x" "c div 4096 mod 64 = y" "c div 64 mod 64 = z" "c mod 64 = w"
    unfolding c(1) c4 using c by (simp_all only: horner)
  then have e: "utf8_encode c = [a, b, d, f]"
    using assms by (simp add: utf8_encode_def abd)
  have a: "unat a = 0xF0 + x" "unat b = 0x80 + y" "unat d = 0x80 + z"
      "unat f = 0x80 + w"
    unfolding abd using c xy by (intro unat_byte; simp)+
  have "\<not> a < 0x80" "\<not> a \<le> 0xDF" "\<not> a \<le> 0xEF" "0xF0 \<le> a" "a \<le> 0xF4" "\<not> a < 0xE0" "\<not> a < 0xF0"
      "\<not> utf8_cont a"
    using c xy by (simp_all only: word_le_nat_alt word_less_nat_alt a cont_unat) simp_all
  moreover have "if a = 0xF0 then 0x90 \<le> b \<and> b \<le> 0xBF
      else if a = 0xF4 then 0x80 \<le> b \<and> b \<le> 0x8F else utf8_cont b"
    using c xy by (simp only: word_unat_eq_iff word_le_nat_alt a cont_unat) auto
  moreover have "(unat a mod 8) * 262144 + (unat b mod 64) * 4096 + (unat d mod 64) * 64 +
      unat f mod 64 = c"
    unfolding a using c xy by (simp add: mod_if)
  ultimately show ?thesis
    unfolding encoded_ok_def e using cont_byte [OF c(2), folded abd] cont_byte [OF c(3), folded abd] cont_byte [OF c(4), folded abd] by simp
qed

lemma encoded: "is_scalar c \<Longrightarrow> encoded_ok c"
  using encoded_one encoded_two encoded_three encoded_four by (metis linorder_not_less)

lemma utf8_text_decode: "list_all is_scalar cs \<Longrightarrow> utf8_valid (utf8_text cs) \<and> decode_utf8 (utf8_text cs) = cs"
  using encoded by (induction cs) (auto simp: encoded_ok_def)

lemma utf8_encode_ne [simp]: "utf8_encode c \<noteq> []"
  by (simp add: utf8_encode_def)

subsection \<open>Boundaries\<close>

lemma boundary_Cons:
  assumes "is_scalar c" "list_all is_scalar cs"
  shows "is_char_boundary (utf8_text (c # cs)) i \<longleftrightarrow>
    i = 0 \<or> len_utf8 c \<le> i \<and> is_char_boundary (utf8_text cs) (i - len_utf8 c)"
proof -
  obtain h t where ht: "utf8_encode c = h # t"
    by (meson neq_Nil_conv utf8_encode_ne)
  have len: "len_utf8 c = Suc (length t)"
    by (metis ht length_Cons length_utf8_encode)
  have cont: "utf8_cont (t ! k)" if "k < length t" for k
    using encoded [OF assms(1)] that by (auto simp: encoded_ok_def ht list_all_length)
  have hd: "\<not> utf8_cont (utf8_text cs ! 0)" if "cs \<noteq> []"
  proof -
    from that obtain d ds where cs: "cs = d # ds"
      by (auto simp: neq_Nil_conv)
    then have "encoded_ok d" using assms encoded by simp
    then show ?thesis by (cases "utf8_encode d") (auto simp: cs encoded_ok_def)
  qed
  consider "i = 0" | "0 < i" "i < len_utf8 c" | "len_utf8 c \<le> i" by linarith
  then show ?thesis
  proof cases
    case 2
    then show ?thesis
      using cont [of "i - 1"] len by (auto simp: is_char_boundary_def ht nth_append nth_Cons')
  next
    case 3
    then have "utf8_text (c # cs) ! i = utf8_text cs ! (i - len_utf8 c)"
      by (simp add: nth_append)
    then show ?thesis
      using 3 hd len by (cases "cs = []") (auto simp: is_char_boundary_def)
  qed (simp add: is_char_boundary_def)
qed

lemma boundary_iff:
  "list_all is_scalar cs \<Longrightarrow>
     is_char_boundary (utf8_text cs) i \<longleftrightarrow> (\<exists>pre post. cs = pre @ post \<and> i = text_length pre)"
proof (induction cs arbitrary: i)
  case Nil
  then show ?case by (simp add: is_char_boundary_def)
next
  case (Cons c cs)
  then have "is_char_boundary (utf8_text (c # cs)) i \<longleftrightarrow>
      i = 0 \<or> len_utf8 c \<le> i \<and> (\<exists>pre post. cs = pre @ post \<and> i - len_utf8 c = text_length pre)"
    by (subst boundary_Cons) auto
  also have "\<dots> \<longleftrightarrow> (\<exists>pre post. c # cs = pre @ post \<and> i = text_length pre)" (is "?l \<longleftrightarrow> ?r")
  proof
    assume ?l
    then show ?r
    proof (elim disjE conjE exE)
      fix pre post
      assume "len_utf8 c \<le> i" "cs = pre @ post" "i - len_utf8 c = text_length pre"
      then show ?r by (intro exI [of _ "c # pre"] exI [of _ post]) auto
    qed (rule exI [of _ "[]"], simp)
  next
    assume ?r
    then obtain pre post where "c # cs = pre @ post" "i = text_length pre" by blast
    then show ?l by (cases pre) auto
  qed
  finally show ?case .
qed

end
