(* ===== verification/Source_Map_Positions.thy ===== *)
theory Source_Map_Positions
  imports Source_Map_Codec Utf8_Text
begin

section \<open>Lines, columns and line starts\<close>

text \<open>
  A reference for positions: the line of an offset is the number of line terminators before
  it, its column the UTF-16 length of what follows the last one; CRLF is one terminator, and a
  line starts after each. The scanners of the emitter compute exactly these.
\<close>

definition terminator :: "nat \<Rightarrow> bool" where
  "terminator c \<longleftrightarrow> c = CR \<or> line_separator c"

fun newlines :: "nat list \<Rightarrow> nat" where
  "newlines [] = 0"
| "newlines [c] = (if terminator c then 1 else 0)"
| "newlines (c # d # cs) =
     (if c = CR \<and> d = LF then Suc (newlines cs)
      else (if terminator c then 1 else 0) + newlines (d # cs))"

definition column :: "nat list \<Rightarrow> nat" where
  "column pre = sum_list (map len_utf16 (takeWhile (\<lambda>c. \<not> terminator c) (rev pre)))"

definition position_after :: "nat list \<Rightarrow> LineColumn" where
  "position_after pre = \<lparr>lc_line = newlines pre, lc_column = column pre\<rparr>"

definition ends_cr :: "nat list \<Rightarrow> bool" where
  "ends_cr pre \<longleftrightarrow> pre \<noteq> [] \<and> last pre = CR"

lemma terminator_simps [simp]: "terminator CR" "terminator LF" "CR \<noteq> LF" "LF \<noteq> CR" "\<not> line_separator CR" "line_separator LF"
  by (auto simp: terminator_def line_separator_def CR_def LF_def)

lemma newlines_snoc:
  "newlines (pre @ [c]) = newlines pre + (if terminator c \<and> \<not> (c = LF \<and> ends_cr pre) then 1 else 0)"
proof (induction pre rule: newlines.induct)
  case (3 a b cs)
  then show ?case
    by (cases cs) (auto simp: ends_cr_def)
qed (auto simp: ends_cr_def)

lemma column_snoc: "column (pre @ [c]) = (if terminator c then 0 else column pre + len_utf16 c)"
  by (simp add: column_def)

lemma ends_cr_snoc: "ends_cr (pre @ [c]) \<longleftrightarrow> c = CR"
  by (simp add: ends_cr_def)

lemma len_utf16_le: "len_utf16 c \<le> len_utf8 c"
  by (simp add: len_utf16_def len_utf8_def)

lemma len_utf8_ge: "Suc 0 \<le> len_utf8 c"
  by (simp add: len_utf8_def)

lemma newlines_le: "newlines pre \<le> text_length pre"
proof (induction pre rule: rev_induct)
  case (snoc c pre)
  then show ?case
    using len_utf8_ge [of c] unfolding newlines_snoc text_length_simps by (auto simp del: len_utf8_pos)
qed simp

lemma column_le: "column pre \<le> text_length pre"
proof (induction pre rule: rev_induct)
  case (snoc c pre)
  then show ?case
    using len_utf16_le [of c] by (auto simp: column_snoc)
qed (simp add: column_def)

lemma column_cr: "ends_cr pre \<Longrightarrow> column pre = 0"
  by (cases pre rule: rev_cases) (auto simp: ends_cr_def column_snoc)

lemma position_le_trans: "position_le p q \<Longrightarrow> position_le q r \<Longrightarrow> position_le p r"
  by (auto simp: position_le_def)

lemma position_mono: "position_le (position_after pre) (position_after (pre @ post))"
proof (induction post rule: rev_induct)
  case (snoc c post)
  have "position_le (position_after xs) (position_after (xs @ [c]))" for xs
    by (auto simp: position_le_def position_after_def newlines_snoc column_snoc terminator_def column_cr)
  from position_le_trans [OF snoc this [of "pre @ post"]] show ?case
    by simp
qed (simp add: position_le_def)

subsection \<open>Resolving offsets\<close>

fun chars_before :: "nat \<Rightarrow> nat list \<Rightarrow> nat list" where
  "chars_before t [] = []"
| "chars_before t (c # cs) = (if t < len_utf8 c then [] else c # chars_before (t - len_utf8 c) cs)"

definition position_at :: "bytes \<Rightarrow> nat \<Rightarrow> LineColumn" where
  "position_at text t = position_after (chars_before t (decode_utf8 text))"

lemma chars_before_prefix: "chars_before (text_length pre) (pre @ post) = pre"
proof (induction pre)
  case Nil
  then show ?case by (cases post) auto
qed auto

lemma indices_from_append:
  "indices_from i (cs @ ds) = indices_from i cs @ indices_from (i + text_length cs) ds"
  by (induction cs arbitrary: i) (auto simp: add.assoc)

definition cursor_at :: "nat list \<Rightarrow> PositionCursor \<Rightarrow> bool" where
  "cursor_at pre p \<longleftrightarrow> pc_byte_cursor p = text_length pre \<and> pc_line p = newlines pre \<and>
     pc_column p = column pre \<and> pc_previous_was_cr p = ends_cr pre"

lemma advance_position_at:
  assumes "cursor_at pre p" "text_length (pre @ [c]) < 2 ^ 64"
  shows "\<exists>q. advance_position p c = Inr q \<and>
    cursor_at (pre @ [c]) (q\<lparr>pc_byte_cursor := text_length pre + len_utf8 c\<rparr>)"
proof -
  have small: "newlines (pre @ [c]) < 2 ^ 64" "column (pre @ [c]) < 2 ^ 64"
    using assms(2) newlines_le [of "pre @ [c]"] column_le [of "pre @ [c]"] by linarith+
  show ?thesis
    using assms(1) small
    by (auto simp: advance_position_def cursor_at_def newlines_snoc column_snoc ends_cr_snoc checked_add_usize_def
        terminator_def split: if_splits)
qed

lemma advance_to_at:
  assumes "cursor_at pre p" "text_length (pre @ mid) < 2 ^ 64"
  shows "\<exists>q. advance_to (text_length (pre @ mid)) (indices_from (text_length pre) (mid @ post)) p = Inr q \<and>
    cursor_at (pre @ mid) q \<and> pc_characters q = indices_from (text_length (pre @ mid)) post"
  using assms
proof (induction mid arbitrary: pre p)
  case Nil
  have "\<not> pc_byte_cursor p < text_length pre"
    using Nil by (simp add: cursor_at_def)
  then show ?case
    using Nil by (cases post) (auto simp: cursor_at_def)
next
  case (Cons c mid)
  have small: "text_length (pre @ [c]) < 2 ^ 64"
    using Cons.prems(2) by simp
  obtain q where q: "advance_position p c = Inr q" "cursor_at (pre @ [c]) (q\<lparr>pc_byte_cursor := text_length pre + len_utf8 c\<rparr>)"
    using advance_position_at [OF Cons.prems(1) small] by blast
  have "text_length pre < text_length (pre @ c # mid)"
    using len_utf8_ge [of c] by (simp del: len_utf8_pos)
  then show ?case
    using Cons.IH [OF q(2)] Cons.prems small q(1)
    by (auto simp: cursor_at_def checked_add_usize_def add.assoc)
qed

lemma boundary_prefixes:
  assumes "list_all is_scalar cs" "is_char_boundary (utf8_text cs) a" "is_char_boundary (utf8_text cs) b" "a \<le> b"
  obtains pre mid post where "cs = pre @ mid @ post" "a = text_length pre" "b = text_length (pre @ mid)"
proof -
  obtain p1 q1 p2 q2 where 1: "cs = p1 @ q1" "a = text_length p1" and 2: "cs = p2 @ q2" "b = text_length p2"
    using assms boundary_iff by metis
  from 1 2 consider mid where "p2 = p1 @ mid" "q1 = mid @ q2" | mid where "p1 = p2 @ mid" "q2 = mid @ q1"
    by (metis append_eq_append_conv2)
  then show ?thesis
  proof cases
    case 1
    then show ?thesis using that [of p1 mid q2] \<open>cs = p2 @ q2\<close> \<open>a = _\<close> \<open>b = _\<close> by simp
  next
    case (2 mid)
    then have "text_length mid = 0" using \<open>a = _\<close> \<open>b = _\<close> assms(4) by simp
    then have "mid = []" by (cases mid) (auto simp: len_utf8_def split: if_splits)
    then show ?thesis using that [of p1 "[]" q1] 2 \<open>cs = p1 @ q1\<close> \<open>a = _\<close> \<open>b = _\<close> by simp
  qed
qed

lemma resolve_loop_at:
  assumes cs: "cs = pre @ post" "list_all is_scalar cs" "text_length cs < 2 ^ 64"
    and p: "cursor_at pre p" "pc_characters p = indices_from (text_length pre) post"
    and ts: "sorted (text_length pre # ts)" "list_all (is_char_boundary (utf8_text cs)) ts"
  shows "resolve_loop (utf8_text cs) ts (text_length pre) p = Inr (map (\<lambda>t. position_after (chars_before t cs)) ts)"
  using cs(1) p ts
proof (induction ts arbitrary: pre post p)
  case (Cons t ts)
  have "is_char_boundary (utf8_text cs) (text_length pre)"
    using Cons.prems(1) boundary_iff [OF cs(2)] by blast
  moreover have "is_char_boundary (utf8_text cs) t" "text_length pre \<le> t"
    using Cons.prems(4,5) by simp_all
  ultimately have b: "is_char_boundary (utf8_text cs) (text_length pre)" "is_char_boundary (utf8_text cs) t"
      "text_length pre \<le> t" .
  obtain pre' mid post' where m: "cs = pre' @ mid @ post'" "text_length pre = text_length pre'" "t = text_length (pre' @ mid)"
    by (rule boundary_prefixes [OF cs(2) b])
  have "pre = pre'"
    using chars_before_prefix [of pre post] chars_before_prefix [of pre' "mid @ post'"] m(1,2) Cons.prems(1) by metis
  then have m: "post = mid @ post'" "t = text_length (pre @ mid)" "cs = (pre @ mid) @ post'"
    using m Cons.prems(1) by simp_all
  have small: "text_length (pre @ mid) < 2 ^ 64"
    using cs(3) m(3) by simp
  obtain q where q: "advance_to t (pc_characters p) p = Inr q" "cursor_at (pre @ mid) q"
      "pc_characters q = indices_from (text_length (pre @ mid)) post'"
    using advance_to_at [OF Cons.prems(2) small, of post'] Cons.prems(3) m(1,2) by auto
  have "resolve_loop (utf8_text cs) ts t q = Inr (map (\<lambda>t. position_after (chars_before t cs)) ts)"
    using Cons.IH [OF m(3) q(2,3)] Cons.prems(4,5) m(2) by simp
  moreover have "chars_before t cs = pre @ mid"
    unfolding m(2,3) by (rule chars_before_prefix)
  moreover have "t \<le> text_length cs"
    unfolding m(2,3) by simp
  ultimately show ?case
    using b q by (simp add: cursor_at_def position_after_def)
qed simp

lemma resolve_positions_eq:
  assumes "utf8_valid text" "length text < 2 ^ 64" "sorted ts" "list_all (is_char_boundary text) ts"
  shows "resolve_positions text ts = Inr (map (position_at text) ts)"
proof -
  let ?cs = "decode_utf8 text"
  have cs: "utf8_text ?cs = text" "list_all is_scalar ?cs"
    using utf8_decoded [OF assms(1)] by simp_all
  then have len: "text_length ?cs < 2 ^ 64"
    using assms(2) by (metis length_utf8_text)
  have start: "cursor_at [] \<lparr>pc_characters = char_indices text, pc_byte_cursor = 0, pc_line = 0, pc_column = 0,
      pc_previous_was_cr = False\<rparr>"
    by (simp add: cursor_at_def column_def ends_cr_def)
  show ?thesis
    using resolve_loop_at [OF _ cs(2) len start, of "decode_utf8 text" ts] assms(3,4)
    by (simp add: resolve_positions_def cs(1) char_indices_def position_at_def)
qed

subsection \<open>Line starts\<close>

fun starts_from :: "nat \<Rightarrow> nat list \<Rightarrow> nat list" where
  "starts_from i [] = []"
| "starts_from i [c] = (if terminator c then [i + len_utf8 c] else [])"
| "starts_from i (c # d # cs) =
     (if c = CR \<and> d = LF then (i + 2) # starts_from (i + 2) cs
      else (if terminator c then [i + len_utf8 c] else []) @ starts_from (i + len_utf8 c) (d # cs))"

definition line_starts :: "bytes \<Rightarrow> nat list" where
  "line_starts text = 0 # starts_from 0 (decode_utf8 text)"

lemma len_utf8_crlf [simp]: "len_utf8 CR = 1" "len_utf8 LF = 1"
  by (simp_all add: len_utf8_def CR_def LF_def)

lemma starts_from_Cons:
  "starts_from i (c # cs) =
     (if c = CR \<and> cs \<noteq> [] \<and> hd cs = LF then (i + 2) # starts_from (i + 2) (tl cs)
      else (if terminator c then [i + len_utf8 c] else []) @ starts_from (i + len_utf8 c) cs)"
  by (cases cs) auto

lemma collect_lines_eq:
  "i + text_length cs < 2 ^ 64 \<Longrightarrow>
   collect_lines (indices_from i cs) False starts = Inr (starts @ starts_from i cs) \<and>
   (starts \<noteq> [] \<longrightarrow> collect_lines (indices_from i cs) True starts =
      Inr (if cs \<noteq> [] \<and> hd cs = LF then butlast starts @ (i + 1) # starts_from (i + 1) (tl cs)
           else starts @ starts_from i cs))"
proof (induction cs arbitrary: i starts)
  case (Cons c cs)
  have small: "i + len_utf8 c < 2 ^ 64" "i + len_utf8 c + text_length cs < 2 ^ 64"
    using Cons.prems by auto
  then show ?case
    using Cons.IH [of "i + len_utf8 c"]
    by (auto simp: starts_from_Cons checked_add_usize_def terminator_def)
qed auto

lemma count_lines_eq:
  "n + text_length cs < 2 ^ 64 \<Longrightarrow>
   count_lines cs False n = Inr (n + length (starts_from i cs)) \<and>
   count_lines cs True n = Inr (if cs \<noteq> [] \<and> hd cs = LF then n + length (starts_from (i + 1) (tl cs))
      else n + length (starts_from i cs))"
proof (induction cs arbitrary: i n)
  case (Cons c cs)
  have small: "n + text_length cs < 2 ^ 64" "Suc n + text_length cs < 2 ^ 64"
    using Cons.prems len_utf8_ge [of c] by (auto simp del: len_utf8_pos)
  then show ?case
    using Cons.IH [of n "i + len_utf8 c"] Cons.IH [of "Suc n" "i + len_utf8 c"]
    by (auto simp: starts_from_Cons checked_add_usize_def terminator_def)
qed auto

lemma line_starts_collected:
  assumes "utf8_valid text" "length text < 2 ^ 63"
  shows "count_line_starts text = Inr (length (line_starts text))"
    and "collect_line_starts text (length (line_starts text)) = Inr (line_starts text)"
proof -
  have len: "text_length (decode_utf8 text) = length text"
    using utf8_decoded [OF assms(1)] by (metis length_utf8_text)
  show "count_line_starts text = Inr (length (line_starts text))"
    using assms(2) count_lines_eq [of 1 "decode_utf8 text" 0] by (simp add: count_line_starts_def line_starts_def len)
  show "collect_line_starts text (length (line_starts text)) = Inr (line_starts text)"
    using assms(2) collect_lines_eq [of 0 "decode_utf8 text" "[0]"]
    by (simp add: collect_line_starts_def line_starts_def char_indices_def len)
qed

lemma starts_from_prefix:
  "t \<in> set (starts_from i cs) \<Longrightarrow> \<exists>pre post. cs = pre @ post \<and> t = i + text_length pre"
proof (induction i cs rule: starts_from.induct)
  case (2 i c)
  then show ?case by (intro exI [of _ "[c]"] exI [of _ "[]"]) (auto split: if_splits)
next
  case (3 i c d cs)
  have "\<exists>pre post. c # d # cs = pre @ post \<and> t = i + text_length pre"
    if "t = i + text_length p" "c # d # cs = p @ q" for p q
    using that by blast
  note ex = this
  show ?case
  proof (cases "c = CR \<and> d = LF")
    case True
    then consider "t = i + 2" | "t \<in> set (starts_from (i + 2) cs)"
      using "3.prems" by auto
    then show ?thesis
    proof cases
      case 1
      then show ?thesis using True ex [of "[c, d]" cs] by simp
    next
      case 2
      then obtain p q where "cs = p @ q" "t = i + 2 + text_length p"
        using "3.IH"(1) True by blast
      then show ?thesis using True ex [of "c # d # p" q] by simp
    qed
  next
    case False
    then consider "t = i + len_utf8 c" | "t \<in> set (starts_from (i + len_utf8 c) (d # cs))"
      using "3.prems" by (auto split: if_splits)
    then show ?thesis
    proof cases
      case 1
      then show ?thesis using ex [of "[c]" "d # cs"] by simp
    next
      case 2
      then obtain p q where "d # cs = p @ q" "t = i + len_utf8 c + text_length p"
        using "3.IH"(2) False by blast
      then show ?thesis using ex [of "c # p" q] by simp
    qed
  qed
qed simp

lemma starts_from_sorted: "sorted (starts_from i cs) \<and> list_all (\<lambda>t. i \<le> t) (starts_from i cs)"
proof (induction i cs rule: starts_from.induct)
  case (3 i c d cs)
  then show ?case
    by (auto simp: list_all_iff) fastforce+
qed auto

lemma line_starts_ok:
  assumes "utf8_valid text"
  shows "sorted (line_starts text)" "list_all (is_char_boundary text) (line_starts text)"
proof -
  have cs: "utf8_text (decode_utf8 text) = text" "list_all is_scalar (decode_utf8 text)"
    using utf8_decoded [OF assms] by simp_all
  show "sorted (line_starts text)"
    using starts_from_sorted [of 0 "decode_utf8 text"] by (simp add: line_starts_def)
  have "is_char_boundary text t" if "t \<in> set (line_starts text)" for t
    using that starts_from_prefix [of t 0 "decode_utf8 text"] boundary_iff [OF cs(2), of t]
    by (auto simp: line_starts_def cs(1) is_char_boundary_def)
  then show "list_all (is_char_boundary text) (line_starts text)"
    by (simp add: list_all_iff)
qed

end
