(* ===== verification/Source_Map_Anchors.thy ===== *)
theory Source_Map_Anchors
  imports Source_Map_Positions
begin

section \<open>Where transformed text comes from\<close>

text \<open>
  A reference for the transformation: the text with the edited ranges replaced, and the
  original offset of every generated one. The emitter writes exactly that text, and every
  anchor of the source map pairs a generated offset with its original.
\<close>

abbreviation "start e \<equiv> unat (te_start_byte e)"
abbreviation "stop e \<equiv> unat (te_end_byte e)"

fun spliced :: "bytes \<Rightarrow> TextEdit list \<Rightarrow> nat \<Rightarrow> bytes" where
  "spliced source [] sc = drop sc source"
| "spliced source (e # es) sc = take (start e - sc) (drop sc source) @ te_replacement e @ spliced source es (stop e)"

fun edits_ordered :: "nat \<Rightarrow> TextEdit list \<Rightarrow> nat \<Rightarrow> bool" where
  "edits_ordered n [] sc \<longleftrightarrow> sc \<le> n"
| "edits_ordered n (e # es) sc \<longleftrightarrow> sc \<le> start e \<and> start e \<le> stop e \<and> stop e \<le> n \<and> edits_ordered n es (stop e)"

fun origin :: "TextEdit list \<Rightarrow> nat \<Rightarrow> nat \<Rightarrow> nat \<Rightarrow> nat" where
  "origin [] sc gc g = sc + (g - gc)"
| "origin (e # es) sc gc g =
     (if g < gc + (start e - sc) then sc + (g - gc)
      else if g < gc + (start e - sc) + length (te_replacement e) then start e
      else origin es (stop e) (gc + (start e - sc) + length (te_replacement e)) g)"

fun edit_offsets :: "TextEdit list \<Rightarrow> nat \<Rightarrow> nat \<Rightarrow> nat list" where
  "edit_offsets [] sc gc = []"
| "edit_offsets (e # es) sc gc =
     (let gs = gc + (start e - sc); ge = gs + length (te_replacement e) in
      gs # ge # edit_offsets es (stop e) ge)"

lemma ordered_le: "edits_ordered n es sc \<Longrightarrow> sc \<le> n"
  by (cases es) auto

subsection \<open>Emission\<close>

definition replacement_bytes :: "TextEdit list \<Rightarrow> nat" where
  "replacement_bytes es = sum_list (map (\<lambda>e. length (te_replacement e)) es)"

lemma replacement_bytes_simps [simp]:
  "replacement_bytes [] = 0" "replacement_bytes (e # es) = length (te_replacement e) + replacement_bytes es"
  by (simp_all add: replacement_bytes_def)

lemma splice_length_le: "edits_ordered (length source) es sc \<Longrightarrow>
    length (spliced source es sc) \<le> length source - sc + replacement_bytes es"
proof (induction es arbitrary: sc)
  case (Cons e es)
  then show ?case
    using Cons.IH [of "stop e"] by auto
qed simp

lemma size_edits_sound:
  assumes "size_edits source es pe (gc + (length source - pe)) = Inr n" "pe \<le> length source"
  shows "edits_ordered (length source) es pe \<and> n = gc + length (spliced source es pe)"
  using assms
proof (induction es arbitrary: pe gc)
  case (Cons e es)
  have ord: "pe \<le> start e" "start e \<le> stop e" "stop e \<le> length source"
    using Cons.prems(1) by (auto simp: Let_def split: if_splits)
  then have "gc + (length source - pe) - (stop e - start e) + length (te_replacement e) =
      (gc + (start e - pe) + length (te_replacement e)) + (length source - stop e)"
    by simp
  then have "size_edits source es (stop e) ((gc + (start e - pe) + length (te_replacement e)) + (length source - stop e)) = Inr n"
    using Cons.prems(1) ord
    by (auto simp: Let_def rbind_Inr_iff bind_eq_Some_conv checked_sub_usize_def checked_add_usize_def split: if_splits)
  from Cons.IH [OF this ord(3)] show ?case
    using ord by simp
qed simp

lemma size_edits_complete:
  assumes "edits_ordered (length source) es pe" "gc + (length source - pe) + replacement_bytes es < 2 ^ 64"
  shows "size_edits source es pe (gc + (length source - pe)) = Inr (gc + length (spliced source es pe))"
  using assms
proof (induction es arbitrary: pe gc)
  case (Cons e es)
  have ord: "pe \<le> start e" "start e \<le> stop e" "stop e \<le> length source"
    using Cons.prems(1) by auto
  then have eq: "gc + (length source - pe) - (stop e - start e) + length (te_replacement e) =
      (gc + (start e - pe) + length (te_replacement e)) + (length source - stop e)"
    by simp
  show ?case
    using Cons.IH [of "stop e" "gc + (start e - pe) + length (te_replacement e)"] Cons.prems ord eq
    by (auto simp: Let_def checked_sub_usize_def checked_add_usize_def)
qed (simp add: ordered_le)

lemma apply_edits_eq:
  "edits_ordered (length source) es sc \<Longrightarrow> \<exists>o' c. apply_edits source es sc out = Inr (o', c) \<and>
     c \<le> length source \<and> o' @ drop c source = out @ spliced source es sc"
proof (induction es arbitrary: sc out)
  case (Cons e es)
  then show ?case
    using Cons.IH [of "stop e" "out @ take (start e - sc) (drop sc source) @ te_replacement e"]
    by (auto simp: get_range_def)
qed simp

lemma emit_transformed_source_Inr:
  assumes "length source + replacement_bytes (tn_edits plan) < 2 ^ 64"
  shows "emit_transformed_source sha256 plan source limits = Inr t \<longleftrightarrow>
    length source \<le> el_source_bytes limits \<and> sha256 source = su_source_digest (tn_source plan) \<and>
    edits_ordered (length source) (tn_edits plan) 0 \<and>
    length (spliced source (tn_edits plan) 0) \<le> el_transformed_source_bytes limits \<and>
    t = \<lparr>ets_plan = plan, ets_transformed_source = spliced source (tn_edits plan) 0,
         ets_transformed_source_digest = sha256 (spliced source (tn_edits plan) 0)\<rparr>" (is "?l \<longleftrightarrow> ?r")
proof -
  let ?es = "tn_edits plan"
  have size: "size_edits source ?es 0 (length source) = Inr n \<longleftrightarrow>
      edits_ordered (length source) ?es 0 \<and> n = length (spliced source ?es 0)" for n
    using size_edits_sound [of source ?es 0 0 n] size_edits_complete [of source ?es 0 0] assms by auto
  have tail: "apply_edits source ?es 0 [] = Inr (o', c) \<Longrightarrow> c \<le> length source \<and> o' @ drop c source = spliced source ?es 0"
    if "edits_ordered (length source) ?es 0" for o' c
    using apply_edits_eq [OF that, of "[]"] by auto
  have some: "\<exists>o' c. apply_edits source ?es 0 [] = Inr (o', c)" if "edits_ordered (length source) ?es 0"
    using apply_edits_eq [OF that, of "[]"] by auto
  show ?thesis
  proof
    assume ?l
    then show ?r
      by (auto simp: emit_transformed_source_def rbind_Inr_iff size get_range_def Let_def dest!: tail split: if_splits)
  next
    assume r: ?r
    then obtain o' c where out: "apply_edits source ?es 0 [] = Inr (o', c)" "c \<le> length source"
        "o' @ drop c source = spliced source ?es 0"
      using some tail by blast
    moreover have "length o' + length source - c = length (spliced source ?es 0)"
      using out(2) arg_cong [OF out(3), of length] by simp
    ultimately show ?l
      using r size [of "length (spliced source ?es 0)"]
      by (auto simp: emit_transformed_source_def get_range_def Let_def)
  qed
qed

subsection \<open>Origins\<close>

lemma origin_at_cursor:
  "edits_ordered n es sc \<Longrightarrow> list_all (\<lambda>e. te_replacement e \<noteq> []) es \<Longrightarrow> origin es sc gc gc = sc"
proof (induction es)
  case (Cons e es)
  then show ?case by (cases "start e = sc") auto
qed simp

lemma origin_ge: "edits_ordered n es sc \<Longrightarrow> sc \<le> origin es sc gc g"
proof (induction es arbitrary: sc gc)
  case (Cons e es)
  define gs ge where g: "gs = gc + (start e - sc)" "ge = gs + length (te_replacement e)"
  have "stop e \<le> origin es (stop e) ge g" "sc \<le> start e" "start e \<le> stop e"
    using Cons by simp_all
  then show ?case
    unfolding origin.simps g [symmetric] by auto
qed simp

lemma origin_mono: "edits_ordered n es sc \<Longrightarrow> g \<le> g' \<Longrightarrow> origin es sc gc g \<le> origin es sc gc g'"
proof (induction es arbitrary: sc gc)
  case (Cons e es)
  define gs ge where g: "gs = gc + (start e - sc)" "ge = gs + length (te_replacement e)"
  have ord: "sc \<le> start e" "start e \<le> stop e" "edits_ordered n es (stop e)"
    using Cons.prems by simp_all
  have "origin es (stop e) ge g \<le> origin es (stop e) ge g'" "stop e \<le> origin es (stop e) ge g'"
    using Cons.IH [OF ord(3) Cons.prems(2)] origin_ge [OF ord(3)] by blast+
  moreover have "sc + (g - gc) \<le> start e" if "g < gs"
    using that ord(1) by (simp add: g(1))
  ultimately show ?case
    using ord(2) Cons.prems(2) unfolding origin.simps g [symmetric] by auto
qed simp

lemma find_original_step:
  assumes "sc \<le> start e" "start e \<le> stop e" "stop e \<le> n"
    and "gs = gc + (start e - sc)" "ge = gs + length (te_replacement e)" "ge < 2 ^ 64"
    and "gc \<le> g" "sc + (g - gc) < 2 ^ 64 \<or> gs \<le> g"
  shows "find_original n g (e # es) sc gc =
    (if g < gs then Inr (sc + (g - gc), e # es, sc, gc)
     else if g < ge then Inr (start e, e # es, sc, gc)
     else find_original n g es (stop e) ge)"
proof -
  have "checked_add_usize gc (start e - sc) = Some gs" "checked_add_usize gs (length (te_replacement e)) = Some ge"
    using assms(4-6) by (auto simp: checked_add_usize_def)
  then show ?thesis
    using assms(1-3,7,8) by (auto simp: Let_def checked_sub_usize_def checked_add_usize_def)
qed

lemma find_original_eq:
  assumes "edits_ordered (length source) es sc" "gc \<le> g" "g \<le> gc + length (spliced source es sc)"
    and "gc + (length source - sc) + replacement_bytes es < 2 ^ 64" "length source < 2 ^ 64"
  shows "\<exists>es' sc' gc'. find_original (length source) g es sc gc = Inr (origin es sc gc g, es', sc', gc') \<and>
    edits_ordered (length source) es' sc' \<and> gc' \<le> g \<and>
    gc' + length (spliced source es' sc') = gc + length (spliced source es sc) \<and>
    gc' + (length source - sc') + replacement_bytes es' < 2 ^ 64 \<and>
    (\<forall>g' \<ge> g. origin es' sc' gc' g' = origin es sc gc g')"
  using assms
proof (induction es arbitrary: sc gc)
  case Nil
  then show ?case
    by (auto simp: checked_sub_usize_def checked_add_usize_def)
next
  case (Cons e es)
  define gs ge where g: "gs = gc + (start e - sc)" "ge = gs + length (te_replacement e)"
  have ord: "sc \<le> start e" "start e \<le> stop e" "stop e \<le> length source" "edits_ordered (length source) es (stop e)"
    using Cons.prems(1) by auto
  have small: "ge < 2 ^ 64" "ge + (length source - stop e) + replacement_bytes es < 2 ^ 64"
      "sc + (g - gc) < 2 ^ 64 \<or> gs \<le> g"
    using ord Cons.prems(2,4,5) by (auto simp: g)
  have len: "gc + length (spliced source (e # es) sc) = ge + length (spliced source es (stop e))"
    using ord by (simp add: g)
  note step = find_original_step [OF ord(1-3) g small(1) Cons.prems(2) small(3), of es]
  show ?case
  proof (cases "ge \<le> g")
    case False
    then have "find_original (length source) g (e # es) sc gc = Inr (origin (e # es) sc gc g, e # es, sc, gc)"
      unfolding step origin.simps g [symmetric] by simp
    then show ?thesis
      using Cons.prems(1,2,4) by blast
  next
    case True
    have "g \<le> ge + length (spliced source es (stop e))"
      using Cons.prems(3) len by simp
    from Cons.IH [OF ord(4) True this small(2) Cons.prems(5)] obtain es' sc' gc' where
        f: "find_original (length source) g es (stop e) ge = Inr (origin es (stop e) ge g, es', sc', gc')"
        "edits_ordered (length source) es' sc'" "gc' \<le> g"
        "gc' + length (spliced source es' sc') = ge + length (spliced source es (stop e))"
        "gc' + (length source - sc') + replacement_bytes es' < 2 ^ 64"
        "\<forall>g' \<ge> g. origin es' sc' gc' g' = origin es (stop e) ge g'"
      by blast
    have tail: "origin (e # es) sc gc g' = origin es (stop e) ge g'" if "g \<le> g'" for g'
      using that True unfolding origin.simps g [symmetric] by (simp add: g)
    have "find_original (length source) g (e # es) sc gc = Inr (origin (e # es) sc gc g, es', sc', gc')"
      using True f(1) unfolding step tail [OF order_refl] by (simp add: g(2))
    then show ?thesis
      unfolding len using f(2-6) tail by auto
  qed
qed

lemma line_anchors_eq:
  assumes "edits_ordered (length source) es sc" "sorted (gc # gs)"
    and "list_all (\<lambda>g. g \<le> gc + length (spliced source es sc)) gs"
    and "gc + (length source - sc) + replacement_bytes es < 2 ^ 64" "length source < 2 ^ 64"
  shows "line_anchors (length source) gs es sc gc acc = Inr (acc @ map (\<lambda>g. (g, origin es sc gc g)) gs)"
  using assms
proof (induction gs arbitrary: es sc gc acc)
  case (Cons g gs)
  have g: "gc \<le> g" "g \<le> gc + length (spliced source es sc)"
    using Cons.prems(2,3) by auto
  from find_original_eq [OF Cons.prems(1) g Cons.prems(4,5)] obtain es' sc' gc' where
      f: "find_original (length source) g es sc gc = Inr (origin es sc gc g, es', sc', gc')"
      "edits_ordered (length source) es' sc'" "gc' \<le> g"
      "gc' + length (spliced source es' sc') = gc + length (spliced source es sc)"
      "gc' + (length source - sc') + replacement_bytes es' < 2 ^ 64"
      "\<forall>g' \<ge> g. origin es' sc' gc' g' = origin es sc gc g'"
    by blast
  have "line_anchors (length source) gs es' sc' gc' (acc @ [(g, origin es sc gc g)]) =
      Inr ((acc @ [(g, origin es sc gc g)]) @ map (\<lambda>g. (g, origin es' sc' gc' g)) gs)"
    using Cons.prems(2,3,5) f by (intro Cons.IH) auto
  moreover have "map (\<lambda>g. (g, origin es' sc' gc' g)) gs = map (\<lambda>g. (g, origin es sc gc g)) gs"
    using f(6) Cons.prems(2) by auto
  ultimately show ?case
    by (simp add: f(1))
qed simp

lemma edit_offsets_ge: "g \<in> set (edit_offsets es sc gc) \<Longrightarrow> gc \<le> g"
  by (induction es arbitrary: sc gc) (fastforce simp: Let_def)+

lemma edit_anchors_eq:
  assumes "edits_ordered n es sc" "list_all (\<lambda>e. te_replacement e \<noteq> []) es" "gc + (n - sc) + replacement_bytes es < 2 ^ 64"
  shows "edit_anchors n es sc gc acc = Inr (acc @ map (\<lambda>g. (g, origin es sc gc g)) (edit_offsets es sc gc))"
  using assms
proof (induction es arbitrary: sc gc acc)
  case (Cons e es)
  define gs ge where g: "gs = gc + (start e - sc)" "ge = gs + length (te_replacement e)"
  have ord: "sc \<le> start e" "start e \<le> stop e" "stop e \<le> n" "edits_ordered n es (stop e)"
    using Cons.prems(1) by auto
  have ne: "gs < ge" "list_all (\<lambda>e. te_replacement e \<noteq> []) es"
    using Cons.prems(2) by (simp_all add: g(2))
  have small: "gs < 2 ^ 64" "ge < 2 ^ 64" "ge + (n - stop e) + replacement_bytes es < 2 ^ 64"
    using ord Cons.prems(3) by (auto simp: g)
  have offsets: "edit_offsets (e # es) sc gc = gs # ge # edit_offsets es (stop e) ge"
    by (simp add: Let_def g)
  have tail: "origin (e # es) sc gc g' = origin es (stop e) ge g'" if "ge \<le> g'" for g'
    using that ne(1) unfolding origin.simps g [symmetric] by simp
  have "origin (e # es) sc gc gs = start e" "origin (e # es) sc gc ge = stop e"
    using ne(1) origin_at_cursor [OF ord(4) ne(2)] unfolding tail [OF order_refl]
    unfolding origin.simps g [symmetric] by simp_all
  moreover have "map (\<lambda>g. (g, origin (e # es) sc gc g)) (edit_offsets es (stop e) ge) =
      map (\<lambda>g. (g, origin es (stop e) ge g)) (edit_offsets es (stop e) ge)"
    using tail by (auto dest: edit_offsets_ge simp del: origin.simps)
  moreover have "edit_anchors n (e # es) sc gc acc =
      edit_anchors n es (stop e) ge (acc @ [(gs, start e), (ge, stop e)])"
    using ord small by (simp add: Let_def checked_add_usize_def g)
  ultimately show ?case
    unfolding offsets Cons.IH [OF ord(4) ne(2) small(3)] by simp
qed simp

subsection \<open>All anchors\<close>

definition anchor_offsets :: "bytes \<Rightarrow> TextEdit list \<Rightarrow> nat list" where
  "anchor_offsets text es = remdups_adj (sort (line_starts text @ edit_offsets es 0 0))"

lemma sorted_remdups_adj: "sorted xs \<Longrightarrow> sorted_wrt (<) (remdups_adj xs)" for xs :: "'a::linorder list"
  by (induction xs rule: remdups_adj.induct) (auto simp: order_le_less)

lemma remdups_sort_map:
  "remdups_adj (sort (map (\<lambda>g. (g, f g)) gs)) = map (\<lambda>g. (g, f g)) (remdups_adj (sort gs))"
  for f :: "'a::linorder \<Rightarrow> 'b::linorder"
proof -
  have lt: "sorted_wrt (<) (remdups_adj (sort gs))"
    by (simp add: sorted_remdups_adj)
  then have "sorted_wrt (<) (map (\<lambda>g. (g, f g)) (remdups_adj (sort gs)))"
    by (simp add: sorted_wrt_map less_prod_def') (auto intro: sorted_wrt_mono_rel)
  moreover have "sorted_wrt (<) (remdups_adj (sort (map (\<lambda>g. (g, f g)) gs)))"
    by (simp add: sorted_remdups_adj)
  moreover have "set (remdups_adj (sort (map (\<lambda>g. (g, f g)) gs))) = set (map (\<lambda>g. (g, f g)) (remdups_adj (sort gs)))"
    by simp
  ultimately show ?thesis
    using strict_sorted_equal by blast
qed

lemma check_windows_ok: "distinct (map fst anchors) \<Longrightarrow> check_windows anchors = Inr ()"
  by (induction anchors rule: check_windows.induct) auto

subsection \<open>Character boundaries\<close>

definition edit_ok :: "bytes \<Rightarrow> TextEdit \<Rightarrow> bool" where
  "edit_ok source e \<longleftrightarrow> is_char_boundary source (start e) \<and> is_char_boundary source (stop e) \<and>
     te_replacement e \<noteq> [] \<and> utf8_valid (te_replacement e)"

lemma piece_text:
  assumes "list_all is_scalar cs" "is_char_boundary (utf8_text cs) a" "is_char_boundary (utf8_text cs) b" "a \<le> b"
  shows "\<exists>mid. list_all is_scalar mid \<and> take (b - a) (drop a (utf8_text cs)) = utf8_text mid"
proof -
  obtain pre mid post where "cs = pre @ mid @ post" "a = text_length pre" "b = text_length (pre @ mid)"
    by (rule boundary_prefixes [OF assms])
  then show ?thesis
    using assms(1) by (intro exI [of _ mid]) simp
qed

lemma spliced_text:
  assumes "utf8_valid source" "edits_ordered (length source) es sc" "list_all (edit_ok source) es"
    "is_char_boundary source sc" "list_all is_scalar ps" "gc = text_length ps"
  shows "\<exists>ds. spliced source es sc = utf8_text ds \<and> list_all is_scalar ds \<and>
    list_all (is_char_boundary (utf8_text (ps @ ds))) (edit_offsets es sc gc)"
  using assms(2-6)
proof (induction es arbitrary: sc gc ps)
  case Nil
  have "is_char_boundary source (length source)"
    by (simp add: is_char_boundary_def)
  with Nil obtain mid where "list_all is_scalar mid" "take (length source - sc) (drop sc source) = utf8_text mid"
    using piece_text [of "decode_utf8 source" sc "length source"] utf8_decoded [OF assms(1)] by auto
  then show ?case
    by auto
next
  case (Cons e es)
  have ok: "is_char_boundary source (start e)" "is_char_boundary source (stop e)" "utf8_valid (te_replacement e)"
      "list_all (edit_ok source) es" and ord: "sc \<le> start e" "start e \<le> stop e" "stop e \<le> length source"
      "edits_ordered (length source) es (stop e)"
    using Cons.prems(1,2) by (auto simp: edit_ok_def list_all_iff)
  obtain mid where mid: "list_all is_scalar mid" "take (start e - sc) (drop sc source) = utf8_text mid"
    using piece_text [of "decode_utf8 source" sc "start e"] utf8_decoded [OF assms(1)] Cons.prems(3) ok(1) ord(1) by auto
  define rs where "rs = decode_utf8 (te_replacement e)"
  then have rs: "list_all is_scalar rs" "te_replacement e = utf8_text rs"
    using utf8_decoded [OF ok(3)] by auto
  define gs ge where g: "gs = gc + (start e - sc)" "ge = gs + length (te_replacement e)"
  have "length (take (start e - sc) (drop sc source)) = start e - sc"
    using ord by simp
  then have len: "gs = text_length (ps @ mid)" "ge = text_length (ps @ mid @ rs)"
    using Cons.prems(5) mid(2) rs(2) by (simp_all add: g)
  have "list_all is_scalar (ps @ mid @ rs)"
    using Cons.prems(4) mid(1) rs(1) by simp
  from Cons.IH [OF ord(4) ok(4,2) this len(2)] obtain ds where ds: "spliced source es (stop e) = utf8_text ds"
      "list_all is_scalar ds" "list_all (is_char_boundary (utf8_text ((ps @ mid @ rs) @ ds))) (edit_offsets es (stop e) ge)"
    by blast
  have all: "list_all is_scalar (ps @ mid @ rs @ ds)"
    using Cons.prems(4) mid(1) rs(1) ds(2) by simp
  have "is_char_boundary (utf8_text (ps @ mid @ rs @ ds)) gs" "is_char_boundary (utf8_text (ps @ mid @ rs @ ds)) ge"
    unfolding boundary_iff [OF all] len
    by (rule exI [of _ "ps @ mid"], simp) (rule exI [of _ "ps @ mid @ rs"], simp)
  moreover have "edit_offsets (e # es) sc gc = gs # ge # edit_offsets es (stop e) ge"
    by (simp add: Let_def g)
  ultimately show ?case
    using ds mid rs by (intro exI [of _ "mid @ rs @ ds"]) simp
qed

lemma origin_boundary:
  assumes "edits_ordered (length source) es sc" "list_all (edit_ok source) es"
    and "gc \<le> g" "g - gc \<le> length (spliced source es sc)"
    and "g - gc = length (spliced source es sc) \<or> \<not> utf8_cont (spliced source es sc ! (g - gc))"
  shows "is_char_boundary source (origin es sc gc g) \<and> origin es sc gc g \<le> length source"
  using assms
proof (induction es arbitrary: sc gc)
  case Nil
  then show ?case
    by (auto simp: is_char_boundary_def)
next
  case (Cons e es)
  define gs ge where g: "gs = gc + (start e - sc)" "ge = gs + length (te_replacement e)"
  have ok: "is_char_boundary source (start e)" "list_all (edit_ok source) es"
      and ord: "sc \<le> start e" "start e \<le> stop e" "stop e \<le> length source" "edits_ordered (length source) es (stop e)"
    using Cons.prems(1,2) by (auto simp: edit_ok_def list_all_iff)
  have len: "length (take (start e - sc) (drop sc source)) = start e - sc"
    using ord by simp
  consider "g < gs" | "gs \<le> g" "g < ge" | "ge \<le> g" "\<not> g < gs" "\<not> g < ge" by linarith
  then show ?case
  proof cases
    case 1
    then have lt: "g - gc < start e - sc" using Cons.prems(3) by (simp add: g(1))
    then have "spliced source (e # es) sc ! (g - gc) = source ! (sc + (g - gc))"
      using len ord by (simp add: nth_append)
    moreover have "g - gc < length (spliced source (e # es) sc)" "sc + (g - gc) < length source"
      using lt len ord by simp_all
    ultimately show ?thesis
      using 1 Cons.prems(5) unfolding origin.simps g [symmetric] by (auto simp: is_char_boundary_def)
  next
    case 2
    then show ?thesis
      using ok(1) ord unfolding origin.simps g [symmetric] by simp
  next
    case 3
    have "g - gc = length (take (start e - sc) (drop sc source)) + (length (te_replacement e) + (g - ge))"
      using 3 len by (simp add: g)
    then have "spliced source (e # es) sc ! (g - gc) = spliced source es (stop e) ! (g - ge)"
      unfolding spliced.simps by (simp only: nth_append_length_plus)
    moreover have "length (spliced source (e # es) sc) = ge - gc + length (spliced source es (stop e))" "gc \<le> ge"
      using len by (simp_all add: g)
    ultimately have "is_char_boundary source (origin es (stop e) ge g) \<and> origin es (stop e) ge g \<le> length source"
      using 3 Cons.prems(3-5) by (intro Cons.IH ord(4) ok(2)) auto
    then show ?thesis
      using 3 unfolding origin.simps g [symmetric] by simp
  qed
qed

end
