(* ===== verification/Source_Map_Roundtrip.thy ===== *)
theory Source_Map_Roundtrip
  imports Source_Map_Anchors
begin

section \<open>Emitted source maps read back\<close>

text \<open>
  The document the emitter writes around the mappings, its length, and that a plan whose edits are
  ordered gives a document exactly when no limit forbids it.
\<close>

definition map_document :: "TransformPlan \<Rightarrow> Sha256Digest \<Rightarrow> bytes \<Rightarrow> bytes" where
  "map_document plan transformed_digest mappings =
     MAP_PREFIX @ str_bytes (su_unit_id (tn_source plan)) @ MAP_MAPPINGS @ mappings @ MAP_EXTENSION @
     str_bytes (tn_rule_id plan) @ MAP_RULE_DIGEST @ append_digest [] (tn_rule_digest plan) @ MAP_SOURCE_DIGEST @
     append_digest [] (su_source_digest (tn_source plan)) @ MAP_TRANSFORMED_DIGEST @
     append_digest [] transformed_digest @ MAP_SUFFIX"

lemma length_append_digest: "length d = 32 \<Longrightarrow> length (append_digest out d) = length out + DIGEST_TEXT_LENGTH"
  by (simp add: append_digest_def DIGEST_TEXT_LENGTH_def length_concat comp_def sum_list_triv)

lemma append_digest_eq: "append_digest out d = out @ append_digest [] d"
  by (simp add: append_digest_def)

lemma source_map_length_eq:
  assumes "length (tn_rule_digest plan) = 32" "length (su_source_digest (tn_source plan)) = 32" "length td = 32"
  shows "source_map_length (length m) (length (su_unit_id (tn_source plan))) (length (tn_rule_id plan)) =
    (if 2 ^ 64 \<le> length (map_document plan td m) then Inl SmSourceMapLengthOverflow
     else Inr (length (map_document plan td m)))"
proof -
  have "length (map_document plan td m) = sum_list
      [length MAP_PREFIX, length MAP_MAPPINGS, length MAP_EXTENSION, length MAP_RULE_DIGEST,
        length MAP_SOURCE_DIGEST, length MAP_TRANSFORMED_DIGEST, length MAP_SUFFIX, length (su_unit_id (tn_source plan)),
        length m, length (tn_rule_id plan), DIGEST_TEXT_LENGTH, DIGEST_TEXT_LENGTH, DIGEST_TEXT_LENGTH]"
    using assms by (simp add: map_document_def length_append_digest)
  then show ?thesis
    unfolding source_map_length_def add_lengths_eq by simp
qed

subsection \<open>The anchors of a plan\<close>

definition plan_applies :: "bytes \<Rightarrow> TransformPlan \<Rightarrow> bool" where
  "plan_applies source plan \<longleftrightarrow> utf8_valid source \<and> edits_ordered (length source) (tn_edits plan) 0 \<and>
     list_all (edit_ok source) (tn_edits plan) \<and> length (tn_edits plan) < 2 ^ 16 \<and>
     length source + replacement_bytes (tn_edits plan) < 2 ^ 63"

abbreviation "plan_text source plan \<equiv> spliced source (tn_edits plan) 0"
abbreviation "plan_origin plan \<equiv> origin (tn_edits plan) 0 0"
abbreviation "plan_offsets source plan \<equiv> anchor_offsets (plan_text source plan) (tn_edits plan)"

lemma plan_appliesD:
  assumes "plan_applies source plan"
  shows "utf8_valid source" "edits_ordered (length source) (tn_edits plan) 0" "list_all (edit_ok source) (tn_edits plan)"
    "length (tn_edits plan) < 2 ^ 16" "length source + replacement_bytes (tn_edits plan) < 2 ^ 63"
    "list_all (\<lambda>e. te_replacement e \<noteq> []) (tn_edits plan)" "length (plan_text source plan) < 2 ^ 63"
proof -
  show *: "utf8_valid source" "edits_ordered (length source) (tn_edits plan) 0" "list_all (edit_ok source) (tn_edits plan)"
    "length (tn_edits plan) < 2 ^ 16" "length source + replacement_bytes (tn_edits plan) < 2 ^ 63"
    using assms by (simp_all add: plan_applies_def)
  show "list_all (\<lambda>e. te_replacement e \<noteq> []) (tn_edits plan)"
    using *(3) by (auto simp: edit_ok_def list_all_iff)
  show "length (plan_text source plan) < 2 ^ 63"
    using splice_length_le [OF *(2)] *(5) by simp
qed

lemma text_ok:
  assumes "plan_applies source plan"
  shows "utf8_valid (plan_text source plan)"
    and "list_all (is_char_boundary (plan_text source plan)) (edit_offsets (tn_edits plan) 0 0)"
proof -
  note plan = plan_appliesD [OF assms]
  have "is_char_boundary source 0"
    by (simp add: is_char_boundary_def)
  with spliced_text [OF plan(1-3), of "[]" 0] obtain ds where "plan_text source plan = utf8_text ds"
      "list_all is_scalar ds" "list_all (is_char_boundary (utf8_text ds)) (edit_offsets (tn_edits plan) 0 0)"
    by auto
  then show "utf8_valid (plan_text source plan)"
      "list_all (is_char_boundary (plan_text source plan)) (edit_offsets (tn_edits plan) 0 0)"
    using utf8_text_decode by auto
qed

lemma offsets_ok:
  assumes "plan_applies source plan"
  shows "sorted (plan_offsets source plan)" "distinct (plan_offsets source plan)"
    and "list_all (is_char_boundary (plan_text source plan)) (plan_offsets source plan)"
    and "list_all (\<lambda>g. g \<le> length (plan_text source plan)) (plan_offsets source plan)"
proof -
  have "sorted_wrt (<) (plan_offsets source plan)"
    by (simp add: anchor_offsets_def sorted_remdups_adj)
  then show "sorted (plan_offsets source plan)" "distinct (plan_offsets source plan)"
    by (simp_all add: strict_sorted_iff)
  show b: "list_all (is_char_boundary (plan_text source plan)) (plan_offsets source plan)"
    using line_starts_ok(2) [OF text_ok(1) [OF assms]] text_ok(2) [OF assms]
    by (auto simp: anchor_offsets_def list_all_iff)
  then show "list_all (\<lambda>g. g \<le> length (plan_text source plan)) (plan_offsets source plan)"
    by (auto simp: is_char_boundary_def list_all_iff)
qed

lemma anchors_collected:
  assumes "plan_applies source plan"
  shows "append_generated_line_anchors [] (line_starts (plan_text source plan)) plan (length source) =
      Inr (map (\<lambda>g. (g, plan_origin plan g)) (line_starts (plan_text source plan)))"
    and "append_edit_anchors anchors plan (length source) =
      Inr (anchors @ map (\<lambda>g. (g, plan_origin plan g)) (edit_offsets (tn_edits plan) 0 0))"
proof -
  note plan = plan_appliesD [OF assms]
  have "sorted (0 # line_starts (plan_text source plan))"
      "list_all (\<lambda>g. g \<le> length (plan_text source plan)) (line_starts (plan_text source plan))"
    using line_starts_ok [OF text_ok(1) [OF assms]] by (auto simp: is_char_boundary_def list_all_iff)
  then show "append_generated_line_anchors [] (line_starts (plan_text source plan)) plan (length source) =
      Inr (map (\<lambda>g. (g, plan_origin plan g)) (line_starts (plan_text source plan)))"
    unfolding append_generated_line_anchors_def using plan(5)
    by (subst line_anchors_eq [OF plan(2)]) simp_all
  show "append_edit_anchors anchors plan (length source) =
      Inr (anchors @ map (\<lambda>g. (g, plan_origin plan g)) (edit_offsets (tn_edits plan) 0 0))"
    unfolding append_edit_anchors_def using plan(5) by (subst edit_anchors_eq [OF plan(2,6)]) simp_all
qed

lemma anchors_sorted:
  "remdups_adj (sort (map (\<lambda>g. (g, f g)) (line_starts text) @ map (\<lambda>g. (g, f g)) (edit_offsets es 0 0))) =
     map (\<lambda>g. (g, f g)) (anchor_offsets text es)"
  unfolding map_append [symmetric] anchor_offsets_def by (rule remdups_sort_map)

lemma originals_ok:
  assumes "plan_applies source plan"
  shows "sorted (map (plan_origin plan) (plan_offsets source plan))"
    and "list_all (is_char_boundary source) (map (plan_origin plan) (plan_offsets source plan))"
proof -
  note plan = plan_appliesD [OF assms]
  show "sorted (map (plan_origin plan) (plan_offsets source plan))"
    using offsets_ok(1) [OF assms] origin_mono [OF plan(2)] by (auto simp: sorted_map intro: sorted_wrt_mono_rel)
  have "is_char_boundary source (plan_origin plan g)" if "g \<in> set (plan_offsets source plan)" for g
  proof (cases "g = 0")
    case True
    then show ?thesis
      using origin_at_cursor [OF plan(2,6)] by (simp add: is_char_boundary_def)
  next
    case False
    then have "is_char_boundary (plan_text source plan) g" "g \<le> length (plan_text source plan)"
      using offsets_ok(3,4) [OF assms] that by (auto simp: list_all_iff)
    then show ?thesis
      using origin_boundary [OF plan(2,3), of 0 g] False by (auto simp: is_char_boundary_def [of "plan_text source plan"])
  qed
  then show "list_all (is_char_boundary source) (map (plan_origin plan) (plan_offsets source plan))"
    by (simp add: list_all_iff)
qed

lemma starts_from_length: "length (starts_from i cs) \<le> text_length cs"
proof (induction i cs rule: starts_from.induct)
  case (3 i c d cs)
  then show ?case
    using len_utf8_ge [of c] by (auto simp del: len_utf8_pos)
next
  case (2 i c)
  then show ?case
    using len_utf8_ge [of c] by simp
qed simp

lemma segment_count:
  assumes "plan_applies source plan"
  shows "length (line_starts (plan_text source plan)) + length (tn_edits plan) * 2 < 2 ^ 64"
proof -
  note plan = plan_appliesD [OF assms]
  have "text_length (decode_utf8 (plan_text source plan)) = length (plan_text source plan)"
    using utf8_decoded [OF text_ok(1) [OF assms]] by (metis length_utf8_text)
  then have "length (line_starts (plan_text source plan)) \<le> Suc (length (plan_text source plan))"
    using starts_from_length [of 0 "decode_utf8 (plan_text source plan)"] by (simp add: line_starts_def)
  then show ?thesis
    using plan(4,7) by simp
qed

subsection \<open>The emitted map\<close>

definition plan_positions :: "bytes \<Rightarrow> TransformPlan \<Rightarrow> (LineColumn \<times> LineColumn) list" where
  "plan_positions source plan =
     map (\<lambda>g. (position_at (plan_text source plan) g, position_at source (plan_origin plan g))) (plan_offsets source plan)"

lemma position_at_small: "utf8_valid text \<Longrightarrow> length text < 2 ^ 63 \<Longrightarrow> position_small (position_at text t)"
proof -
  have le: "text_length (chars_before t cs) \<le> text_length cs" for t cs
    by (induction t cs rule: chars_before.induct) auto
  assume "utf8_valid text" "length text < 2 ^ 63"
  then have "text_length (decode_utf8 text) < 2 ^ 63"
    using utf8_decoded by (metis length_utf8_text)
  then show "position_small (position_at text t)"
    using le [of t "decode_utf8 text"] newlines_le [of "chars_before t (decode_utf8 text)"]
      column_le [of "chars_before t (decode_utf8 text)"]
    by (simp add: position_small_def position_at_def position_after_def)
qed

lemma position_at_mono: "g \<le> g' \<Longrightarrow> position_le (position_at text g) (position_at text g')"
proof -
  assume "g \<le> g'"
  have "\<exists>post. chars_before g' cs = chars_before g cs @ post" for cs
    using \<open>g \<le> g'\<close> by (induction g cs arbitrary: g' rule: chars_before.induct) auto
  then show ?thesis
    unfolding position_at_def using position_mono by metis
qed

lemma positions_encoded:
  assumes "plan_applies source plan"
  obtains sts where "mapping_steps (plan_positions source plan) mapping_cursor_new = Inr sts"
    "read_mappings (mapping_text sts) False (0, 0, 0, 0) = Some (map position_segment (plan_positions source plan))"
proof -
  note plan = plan_appliesD [OF assms]
  have "list_all (\<lambda>(g, r). position_small g \<and> position_small r) (plan_positions source plan)"
    using position_at_small [OF text_ok(1) [OF assms] plan(7)] position_at_small [OF plan(1)] plan(5)
    by (simp add: plan_positions_def list_all_iff)
  moreover have "sorted_wrt position_le (map fst (plan_positions source plan))"
    unfolding plan_positions_def map_map comp_def fst_conv sorted_wrt_map
    using offsets_ok(1) [OF assms] position_at_mono by (rule sorted_wrt_mono_rel [rotated]) blast
  ultimately have "\<exists>sts. mapping_steps (plan_positions source plan) mapping_cursor_new = Inr sts"
    by (rule mapping_steps_succeed) (auto simp: mapping_cursor_new_def position_le_def list_all_iff)
  then show thesis
    using that mappings_read_back [of "plan_positions source plan" mapping_cursor_new]
    by (auto simp: mapping_cursor_new_def cursor_segment_def)
qed

lemma emit_source_map_eq:
  assumes applies: "plan_applies source plan" and digest: "sha256 source = su_source_digest (tn_source plan)"
    and widths: "length (tn_rule_digest plan) = 32" "length (su_source_digest (tn_source plan)) = 32"
      "length (sha256 (plan_text source plan)) = 32"
    and sts: "mapping_steps (plan_positions source plan) mapping_cursor_new = Inr sts"
    and t: "t = \<lparr>ets_plan = plan, ets_transformed_source = plan_text source plan,
      ets_transformed_source_digest = sha256 (plan_text source plan)\<rparr>"
    and doc: "doc = map_document plan (sha256 (plan_text source plan)) (mapping_text sts)"
    and segments: "segments = length (line_starts (plan_text source plan)) + length (tn_edits plan) * 2"
  shows "emit_source_map sha256 t source limits =
    (if sl_source_bytes limits < length source then Inl (SmSourceTooLarge (length source) (sl_source_bytes limits))
     else if sl_transformed_source_bytes limits < length (plan_text source plan)
     then Inl (SmTransformedSourceTooLarge (length (plan_text source plan)) (sl_transformed_source_bytes limits))
     else if sl_segments limits < segments then Inl (SmSegmentLimitExceeded segments (sl_segments limits))
     else if 2 ^ 64 \<le> length doc then Inl SmSourceMapLengthOverflow
     else if sl_source_map_bytes limits < length doc
     then Inl (SmSourceMapTooLarge (length doc) (sl_source_map_bytes limits))
     else Inr \<lparr>esm_transformed_source = t, esm_bytes = doc, esm_digest = sha256 doc,
            esm_segment_count = length (plan_offsets source plan)\<rparr>)"
proof -
  note plan = plan_appliesD [OF applies] and valid = text_ok(1) [OF applies]
  let ?text = "plan_text source plan" and ?gs = "plan_offsets source plan"
  have starts: "count_line_starts ?text = Inr (length (line_starts ?text))"
      "collect_line_starts ?text (length (line_starts ?text)) = Inr (line_starts ?text)"
    using line_starts_collected [OF valid plan(7)] by blast+
  have seg: "checked_mul_usize (length (tn_edits plan)) 2 = Some (length (tn_edits plan) * 2)"
      "checked_add_usize (length (line_starts ?text)) (length (tn_edits plan) * 2) = Some segments"
    using segment_count [OF applies] segments by (simp_all add: checked_mul_usize_def checked_add_usize_def)
  have windows: "check_windows (map (\<lambda>g. (g, plan_origin plan g)) ?gs) = Inr ()"
    using offsets_ok(2) [OF applies] by (intro check_windows_ok) (simp add: comp_def)
  have resolve: "resolve_positions ?text ?gs = Inr (map fst (plan_positions source plan))"
      "resolve_positions source (map (plan_origin plan) ?gs) = Inr (map snd (plan_positions source plan))"
    using resolve_positions_eq [OF valid _ offsets_ok(1,3) [OF applies]] plan(7)
      resolve_positions_eq [OF plan(1) _ originals_ok [OF applies]] plan(5)
    by (simp_all add: plan_positions_def comp_def)
  have len: "length (mapping_text sts) \<le> length doc"
    by (simp add: doc map_document_def)
  have mlen: "mappings_length (map fst (plan_positions source plan)) (map snd (plan_positions source plan)) =
      (if 2 ^ 64 \<le> length (mapping_text sts) then Inl SmSourceMapLengthOverflow else Inr (length (mapping_text sts)))"
    using mappings_length_steps [OF sts, of 0] by (simp add: mappings_length_def zip_map_fst_snd mapping_text_def)
  have mapp: "append_mappings out (map fst (plan_positions source plan)) (map snd (plan_positions source plan)) =
      Inr (out @ mapping_text sts)" for out
    using append_mappings_steps [OF sts, of out] by (simp add: append_mappings_def zip_map_fst_snd)
  have dlen: "source_map_length (length (mapping_text sts)) (length (su_unit_id (tn_source plan))) (length (tn_rule_id plan)) =
      (if 2 ^ 64 \<le> length doc then Inl SmSourceMapLengthOverflow else Inr (length doc))"
    unfolding doc by (rule source_map_length_eq [OF widths])
  have out: "append_digest (append_digest (append_digest
        ((MAP_PREFIX @ str_bytes (su_unit_id (tn_source plan)) @ MAP_MAPPINGS) @ mapping_text sts @ MAP_EXTENSION @
          str_bytes (tn_rule_id plan) @ MAP_RULE_DIGEST) (tn_rule_digest plan) @ MAP_SOURCE_DIGEST)
        (su_source_digest (tn_source plan)) @ MAP_TRANSFORMED_DIGEST) (sha256 ?text) @ MAP_SUFFIX = doc"
    unfolding doc map_document_def append_digest_def by simp
  show ?thesis
    unfolding emit_source_map_def Let_def t EmittedTransformedSource.simps
    using plan(1) valid digest len out
    by (simp add: starts seg anchors_collected [OF applies] anchors_sorted windows resolve mlen mapp dlen comp_def
        rbind_simps ok_or_simps del: length_append)
qed

end
