(* ===== verification/Transform_Planned.thy ===== *)
theory Transform_Planned
  imports Source_Map_Roundtrip
begin

section \<open>Planned rewrites\<close>

text \<open>
  What the planner accepts and plans, that its replacement literal denotes the new specifier,
  and the two properties of the pipeline: the transformed source and its source map.
\<close>

definition specifiers :: "Statement list \<Rightarrow> StringLiteral list" where
  "specifiers sts = List.map_filter static_module_specifier sts"

definition specifier_ok :: "bytes \<Rightarrow> StringLiteral \<Rightarrow> bool" where
  "specifier_ok source l \<longleftrightarrow>
     (case str_get_range source (unat (lit_start l)) (unat (lit_end l)) of
        Some raw \<Rightarrow> \<not> contains_lone_surrogate_escape raw
      | None \<Rightarrow> False)"

definition literal_edit :: "bytes \<Rightarrow> StringLiteral \<Rightarrow> TextEdit" where
  "literal_edit replacement l = \<lparr>te_start_byte = lit_start l, te_end_byte = lit_end l, te_replacement = replacement\<rparr>"

definition matching :: "StaticImportRewrite \<Rightarrow> Statement list \<Rightarrow> StringLiteral list" where
  "matching rule sts = filter (\<lambda>l. lit_value l = sr_from rule) (specifiers sts)"

lemma specifiers_simps [simp]:
  "specifiers [] = []"
  "specifiers (s # sts) = (case static_module_specifier s of None \<Rightarrow> specifiers sts | Some l \<Rightarrow> l # specifiers sts)"
  by (simp_all add: specifiers_def List.map_filter_simps split: option.splits)

lemma collect_edits_Inr:
  assumes "length acc \<le> n"
  shows "collect_edits source rule n replacement sts acc = Inr es \<longleftrightarrow>
    list_all (specifier_ok source) (specifiers sts) \<and> length acc + length (matching rule sts) \<le> n \<and>
    es = acc @ map (literal_edit replacement) (matching rule sts)"
  using assms
proof (induction sts arbitrary: acc)
  case Nil
  then show ?case by (auto simp: matching_def)
next
  case (Cons s sts)
  show ?case
  proof (cases "static_module_specifier s")
    case None
    then show ?thesis using Cons by (simp add: matching_def)
  next
    case (Some l)
    note ih = Cons.IH [unfolded matching_def]
    show ?thesis
    proof (cases "specifier_ok source l")
      case False
      then show ?thesis
        using Some by (simp add: specifier_ok_def rbind_Inr_iff ok_or_Inr_iff split: option.splits)
    next
      case True
      have step: "collect_edits source rule n replacement (s # sts) acc =
          (if lit_value l \<noteq> sr_from rule then collect_edits source rule n replacement sts acc
           else if length acc = n then Inl (TpMatchCountMismatch (sr_exact_match_count rule) (n + 1))
           else collect_edits source rule n replacement sts (acc @ [literal_edit replacement l]))"
        using True Some by (auto simp: specifier_ok_def literal_edit_def split: option.splits)
      show ?thesis
      proof (cases "lit_value l = sr_from rule \<and> length acc \<noteq> n")
        case fits: True
        then have "length (acc @ [literal_edit replacement l]) \<le> n"
          using Cons.prems by simp
        then show ?thesis
          using fits True Some unfolding step by (simp add: ih matching_def)
      next
        case False
        then show ?thesis
          using Cons.prems True Some unfolding step by (auto simp: ih matching_def)
      qed
    qed
  qed
qed

subsection \<open>The replacement literal\<close>

lemma length_quote_char: "length (quote_char c) = replacement_char_length c"
  by (simp add: quote_char_def replacement_char_length_def)

lemma replacement_length_fold_eq:
  "n < 2 ^ 64 \<Longrightarrow> replacement_length_fold n cs =
     (if n + length (concat (map quote_char cs)) < 2 ^ 64 then Some (n + length (concat (map quote_char cs))) else None)"
  by (induction cs arbitrary: n) (auto simp: checked_add_usize_def length_quote_char)

lemma canonical_length: "canonical_replacement_byte_length s =
    (if length (quote_specifier s) < 2 ^ 64 then Some (length (quote_specifier s)) else None)"
  by (simp add: canonical_replacement_byte_length_def replacement_length_fold_eq quote_specifier_def)

definition hex4 :: "nat list \<Rightarrow> nat option" where
  "hex4 ds = (if list_all (\<lambda>d. d < 256) ds then hex_fold 0 (map of_nat ds) else None)"

fun unescape :: "nat list \<Rightarrow> nat list option" where
  "unescape [] = None"
| "unescape (c # cs) =
     (if c = 0x22 then (if cs = [] then Some [] else None)
      else if terminator c then None
      else if c = 0x5C then
        (case cs of
           d # ds \<Rightarrow>
             (if d = 0x22 \<or> d = 0x5C then map_option (Cons d) (unescape ds)
              else if d = 0x75 then
                (case ds of
                   h1 # h2 # h3 # h4 # ds' \<Rightarrow>
                     Option.bind (hex4 [h1, h2, h3, h4]) (\<lambda>v. map_option (Cons v) (unescape ds'))
                 | _ \<Rightarrow> None)
              else None)
         | [] \<Rightarrow> None)
      else map_option (Cons c) (unescape cs))"

text \<open>The value of a double-quoted ECMAScript literal with the escapes the planner writes.\<close>

definition read_js_literal :: "bytes \<Rightarrow> nat list option" where
  "read_js_literal literal = (case decode_utf8 literal of c # cs \<Rightarrow> if c = 0x22 then unescape cs else None | [] \<Rightarrow> None)"

definition quoted_chars :: "nat \<Rightarrow> nat list" where
  "quoted_chars c =
     (if c = 0x22 then [0x5C, 0x22] else if c = 0x5C then [0x5C, 0x5C]
      else if c = 0x2028 then [0x5C, 0x75, 0x32, 0x30, 0x32, 0x38]
      else if c = 0x2029 then [0x5C, 0x75, 0x32, 0x30, 0x32, 0x39] else [c])"

lemma quote_char_text: "quote_char c = utf8_text (quoted_chars c)"
  by (simp add: quote_char_def quoted_chars_def utf8_encode_def)

lemma quoted_chars_scalar: "is_scalar c \<Longrightarrow> list_all is_scalar (quoted_chars c)"
  by (simp add: quoted_chars_def is_scalar_def)

lemma quoted_text_scalar: "list_all is_scalar cs \<Longrightarrow> list_all is_scalar (concat (map quoted_chars cs))"
  by (induction cs) (simp_all add: quoted_chars_scalar)

lemma quote_text_chars: "quote_specifier s = utf8_text (0x22 # concat (map quoted_chars (chars s)) @ [0x22])"
proof -
  have "concat (map quote_char cs) = utf8_text (concat (map quoted_chars cs))" for cs
    by (induction cs) (simp_all add: quote_char_text)
  moreover have "utf8_encode 0x22 = [0x22]"
    by (simp add: utf8_encode_def)
  ultimately show ?thesis
    by (simp add: quote_specifier_def)
qed

lemma hex4_separators: "hex4 [0x32, 0x30, 0x32, 0x38] = Some 0x2028" "hex4 [0x32, 0x30, 0x32, 0x39] = Some 0x2029"
  by (simp_all add: hex4_def hex_digit_def)

lemma unescape_quoted:
  "list_all (\<lambda>c. \<not> is_control c) cs \<Longrightarrow> unescape (concat (map quoted_chars cs) @ [0x22]) = Some cs"
proof (induction cs)
  case (Cons c cs)
  have "\<not> terminator c \<or> c = 0x2028 \<or> c = 0x2029"
    using Cons.prems by (auto simp: terminator_def line_separator_def is_control_def CR_def LF_def)
  moreover have "\<not> terminator 0x5C"
    by (simp add: terminator_def line_separator_def CR_def LF_def)
  ultimately show ?case
    using Cons by (auto simp: quoted_chars_def hex4_separators)
qed simp

lemma quote_specifier_ok:
  assumes "utf8_valid (str_bytes s)" "list_all (\<lambda>c. \<not> is_control c) (chars s)"
  shows "read_js_literal (quote_specifier s) = Some (chars s)" "utf8_valid (quote_specifier s)"
    and "quote_specifier s \<noteq> []" "length (quote_specifier s) \<le> 2 * length s + 2"
proof -
  have cs: "list_all is_scalar (chars s)" "text_length (chars s) = length s"
    using utf8_decoded [OF assms(1)] length_utf8_text [of "decode_utf8 (str_bytes s)"]
    unfolding chars_def by (simp_all add: str_bytes_def)
  let ?q = "0x22 # concat (map quoted_chars (chars s)) @ [0x22]"
  have "list_all is_scalar ?q"
    using quoted_text_scalar [OF cs(1)] by (simp add: is_scalar_def [of "0x22"])
  then have q: "utf8_valid (quote_specifier s)" "decode_utf8 (quote_specifier s) = ?q"
    unfolding quote_text_chars using utf8_text_decode by blast+
  then show "read_js_literal (quote_specifier s) = Some (chars s)"
    using unescape_quoted [OF assms(2)] by (simp add: read_js_literal_def)
  show "utf8_valid (quote_specifier s)" "quote_specifier s \<noteq> []"
    using q by (simp_all add: quote_specifier_def)
  have "length (concat (map quote_char ds)) \<le> 2 * text_length ds" for ds
  proof (induction ds)
    case (Cons c ds)
    have "replacement_char_length c \<le> 2 * len_utf8 c"
      by (simp add: replacement_char_length_def len_utf8_def)
    then show ?case using Cons by (simp add: length_quote_char)
  qed simp
  then show "length (quote_specifier s) \<le> 2 * length s + 2"
    using cs(2) by (simp add: quote_specifier_def flip: cs(2))
qed

subsection \<open>Accepted plans\<close>

lemma static_import_rewrite_new_Inr:
  "static_import_rewrite_new from to n = Inr rule \<Longrightarrow>
     sr_from rule = from \<and> sr_to rule = to \<and> sr_exact_match_count rule = n \<and> from \<noteq> to \<and>
     length to < 2 ^ 32 \<and> list_all (\<lambda>c. \<not> is_control c) (chars to)"
  by (auto simp: static_import_rewrite_new_def validate_specifier_def rbind_Inr_iff list_all_iff list_ex_iff not_le
      split: if_splits)

lemma planner_limits_new_Inr: "planner_limits_new a b c = Inr limits \<Longrightarrow> pn_source_bytes limits < 2 ^ 32"
  by (auto simp: planner_limits_new_def Let_def split: if_splits)

definition rewrite_accepted ::
    "(bytes \<Rightarrow> Sha256Digest) \<Rightarrow> (bytes \<Rightarrow> usize \<times> Statement list) \<Rightarrow> AdapterTransformAuthority \<Rightarrow>
     TransformRuleId \<Rightarrow> StaticImportRewrite \<Rightarrow> SourceUnitInput \<Rightarrow> PlannerLimits \<Rightarrow> bool" where
  "rewrite_accepted sha256 parse authority rule_id rule input limits \<longleftrightarrow>
     unat (sr_exact_match_count rule) \<le> pn_edits limits \<and> length (sr_from rule) \<le> pn_source_bytes limits \<and>
     length (quote_specifier (sr_to rule)) < 2 ^ 64 \<and>
     length (quote_specifier (sr_to rule)) \<le> pn_replacement_bytes limits \<and>
     length (si_bytes input) \<le> pn_source_bytes limits \<and>
     bt_get (ta_rules authority) rule_id = Some \<lparr>ar_rule_digest = rewrite_canonical_digest sha256 rule\<rparr> \<and>
     sha256 (si_bytes input) = su_source_digest (si_source input) \<and> utf8_valid (si_bytes input) \<and>
     fst (parse (si_bytes input)) = 0 \<and>
     list_all (specifier_ok (si_bytes input)) (specifiers (snd (parse (si_bytes input)))) \<and>
     length (matching rule (snd (parse (si_bytes input)))) = unat (sr_exact_match_count rule)"

definition rewrite_plan ::
    "(bytes \<Rightarrow> Sha256Digest) \<Rightarrow> (bytes \<Rightarrow> usize \<times> Statement list) \<Rightarrow> TransformRuleId \<Rightarrow> StaticImportRewrite \<Rightarrow>
     SourceUnitInput \<Rightarrow> TransformPlan" where
  "rewrite_plan sha256 parse rule_id rule input =
     \<lparr>tn_rule_id = rule_id, tn_rule_digest = rewrite_canonical_digest sha256 rule, tn_source = si_source input,
      tn_edits = map (literal_edit (quote_specifier (sr_to rule))) (matching rule (snd (parse (si_bytes input))))\<rparr>"

lemma plan_static_import_rewrite_Inr:
  "plan_static_import_rewrite sha256 parse authority rule_id rule input limits = Inr plan \<longleftrightarrow>
     rewrite_accepted sha256 parse authority rule_id rule input limits \<and>
     plan = rewrite_plan sha256 parse rule_id rule input"
proof -
  have digest: "(\<exists>a. bt_get rs k = Some a \<and> ar_rule_digest a = d \<and> P) \<longleftrightarrow> bt_get rs k = Some \<lparr>ar_rule_digest = d\<rparr> \<and> P"
    for rs :: "(TransformRuleId \<times> AuthorizedTransformRuleRef) list" and k d P
    by (metis (full_types) AuthorizedTransformRuleRef.equality AuthorizedTransformRuleRef.select_convs(1) old.unit.exhaust)
  have len: "(\<exists>n. canonical_replacement_byte_length s = Some n \<and> Q n) \<longleftrightarrow>
      length (quote_specifier s) < 2 ^ 64 \<and> Q (length (quote_specifier s))" for s Q
    by (auto simp: canonical_length)
  obtain ds sts where parse: "parse (si_bytes input) = (ds, sts)"
    by fastforce
  show ?thesis
    unfolding plan_static_import_rewrite_def Let_def rbind_Inr_iff ok_or_Inr_iff if_Inl_Inr parse prod.case
      collect_edits_Inr [of "[]", simplified] rewrite_accepted_def rewrite_plan_def fst_conv snd_conv len
    using digest by auto
qed

text \<open>The parser reports the statements of a module in the order of the text.\<close>

definition in_order :: "StringLiteral list \<Rightarrow> bool" where
  "in_order ls \<longleftrightarrow> sorted_wrt (\<lambda>l m. lit_end l \<le> lit_start m) ls"

lemma specifier_okD:
  "specifier_ok source l \<Longrightarrow> is_char_boundary source (unat (lit_start l)) \<and>
     is_char_boundary source (unat (lit_end l)) \<and> lit_start l \<le> lit_end l \<and> unat (lit_end l) \<le> length source"
  by (auto simp: specifier_ok_def str_get_range_def get_range_def word_le_nat_alt split: option.splits if_splits)

lemma edits_ordered_literals:
  assumes "in_order ls" "list_all (specifier_ok source) ls" "sc \<le> length source"
    and "list_all (\<lambda>l. sc \<le> unat (lit_start l)) ls"
  shows "edits_ordered (length source) (map (literal_edit r) ls) sc"
  using assms
proof (induction ls arbitrary: sc)
  case (Cons l ls)
  have "list_all (\<lambda>m. unat (lit_end l) \<le> unat (lit_start m)) ls"
    using Cons.prems(1) by (simp add: in_order_def list_all_iff word_le_nat_alt)
  then show ?case
    using Cons specifier_okD [of source l]
    by (simp add: literal_edit_def in_order_def word_le_nat_alt)
qed (simp add: literal_edit_def)

lemma in_order_matching: "in_order (specifiers sts) \<Longrightarrow> in_order (matching rule sts)"
  by (simp add: in_order_def matching_def sorted_wrt_filter)

lemma replacement_bytes_literals: "replacement_bytes (map (literal_edit r) ls) = length ls * length r"
  by (induction ls) (simp_all add: literal_edit_def)

lemma accepted_plan_applies:
  assumes rule: "static_import_rewrite_new from to n = Inr rule" and limits: "planner_limits_new a b c = Inr limits"
    and valid: "utf8_valid (str_bytes to)"
    and order: "in_order (specifiers (snd (parse (si_bytes input))))"
    and accepted: "rewrite_accepted sha256 parse authority rule_id rule input limits"
  shows "plan_applies (si_bytes input) (rewrite_plan sha256 parse rule_id rule input)"
proof -
  let ?ls = "matching rule (snd (parse (si_bytes input)))" and ?q = "quote_specifier to"
  have r: "sr_to rule = to" "length to < 2 ^ 32" "list_all (\<lambda>c. \<not> is_control c) (chars to)"
    using static_import_rewrite_new_Inr [OF rule] by simp_all
  note q = quote_specifier_ok [OF valid r(3)]
  have ls: "list_all (specifier_ok (si_bytes input)) ?ls" "length ?ls < 2 ^ 16" "length (si_bytes input) < 2 ^ 32"
    using accepted planner_limits_new_Inr [OF limits] unsigned_less [of "sr_exact_match_count rule"]
    by (auto simp: rewrite_accepted_def matching_def list_all_iff)
  have "length ?ls * length ?q \<le> 2 ^ 16 * (2 * 2 ^ 32 + 2)"
    using ls(2) q(4) r(2) by (intro mult_le_mono) linarith+
  then have "length (si_bytes input) + length ?ls * length ?q < 2 ^ 63"
    using ls(3) by simp
  moreover have "list_all (edit_ok (si_bytes input)) (map (literal_edit ?q) ?ls)"
    using ls(1) q(2,3) by (auto simp: list_all_iff edit_ok_def literal_edit_def dest!: specifier_okD)
  ultimately show ?thesis
    using accepted ls edits_ordered_literals [OF in_order_matching [OF order] ls(1)]
    by (simp add: plan_applies_def rewrite_plan_def r(1) replacement_bytes_literals rewrite_accepted_def list_all_iff)
qed

subsection \<open>A module with one import\<close>

definition example_source :: bytes where
  "example_source = str_bytes ''import'' @ [0x22, 0x61, 0x22]"

definition example_digest :: "bytes \<Rightarrow> Sha256Digest" where
  "example_digest bs = replicate 32 0"

definition example_parse :: "bytes \<Rightarrow> usize \<times> Statement list" where
  "example_parse bs = (0, [ImportDeclaration \<lparr>lit_start = 6, lit_end = 9, lit_value = ''a''\<rparr>])"

definition example_rule :: StaticImportRewrite where
  "example_rule = \<lparr>sr_from = ''a'', sr_from_byte_length = 1, sr_to = ''b'', sr_to_byte_length = 1,
     sr_exact_match_count = 1\<rparr>"

definition example_limits :: PlannerLimits where
  "example_limits = \<lparr>pn_source_bytes = 100, pn_edits = 10, pn_replacement_bytes = 100\<rparr>"

definition example_authority :: AdapterTransformAuthority where
  "example_authority = \<lparr>ta_adapter_id = ''adapter'', ta_family = ''family'', ta_adapter_content_digest = [],
     ta_rules = [(''rule'', \<lparr>ar_rule_digest = replicate 32 0\<rparr>)]\<rparr>"

definition example_input :: SourceUnitInput where
  "example_input = \<lparr>si_source = \<lparr>su_unit_id = ''unit'', su_source_digest = replicate 32 0\<rparr>,
     si_bytes = example_source\<rparr>"

lemma example_hypotheses:
  "static_import_rewrite_new ''a'' ''b'' 1 = Inr example_rule" "planner_limits_new 100 10 100 = Inr example_limits"
  "utf8_valid (str_bytes ''b'')" "in_order (specifiers (snd (example_parse (si_bytes example_input))))"
  by (simp_all add: static_import_rewrite_new_def validate_specifier_def example_rule_def planner_limits_new_def
      example_limits_def chars_def str_bytes_def is_control_def in_order_def example_parse_def)

lemma example_text:
  "example_source = [0x69, 0x6D, 0x70, 0x6F, 0x72, 0x74, 0x22, 0x61, 0x22]" "utf8_valid example_source"
  "quote_specifier ''b'' = [0x22, 0x62, 0x22]"
  by (simp_all add: example_source_def str_bytes_def quote_specifier_def chars_def quote_char_def utf8_encode_def)

lemma example_length: "length example_source = 9"
  by (simp add: example_text)

lemma example_specifier: "specifier_ok example_source \<lparr>lit_start = 6, lit_end = 9, lit_value = ''a''\<rparr>"
  by (simp add: example_text specifier_ok_def str_get_range_def is_char_boundary_def get_range_def utf8_cont_def
      contains_lone_surrogate_escape_def surrogate_scan.simps get_byte_def)

lemma example_accepted:
  "rewrite_accepted example_digest example_parse example_authority ''rule'' example_rule example_input example_limits"
  using example_text(2,3) example_specifier example_length
  by (simp add: rewrite_accepted_def example_rule_def example_limits_def example_input_def example_authority_def
      example_digest_def example_parse_def rewrite_canonical_digest_def matching_def bt_get_def)

definition example_plan :: TransformPlan where
  "example_plan = \<lparr>tn_rule_id = ''rule'', tn_rule_digest = replicate 32 0,
     tn_source = \<lparr>su_unit_id = ''unit'', su_source_digest = replicate 32 0\<rparr>,
     tn_edits = [\<lparr>te_start_byte = 6, te_end_byte = 9, te_replacement = [0x22, 0x62, 0x22]\<rparr>]\<rparr>"

lemma example_rewrite_plan:
  "rewrite_plan example_digest example_parse ''rule'' example_rule example_input = example_plan"
  by (simp add: rewrite_plan_def example_plan_def example_digest_def example_parse_def example_rule_def
      example_input_def rewrite_canonical_digest_def matching_def literal_edit_def example_text)

subsection \<open>The pipeline\<close>

text \<open>
  C8: The planner accepts a rewrite exactly when its limits hold, the adapter's authority names the
  rule with the digest of its content, the source has the digest of its reference, is UTF-8 and
  parses without diagnostics, no specifier is misplaced or holds a lone surrogate escape, and the
  number of matching specifiers is exactly the declared one. The plan then has one edit per
  matching specifier, in source order, whose replacement is a literal that denotes the new
  specifier; and emission, whenever the source and the result fit its limits, returns the source
  with exactly those literals replaced.
\<close>

theorem rewrite_applied:
  assumes "static_import_rewrite_new from to n = Inr rule" "planner_limits_new a b c = Inr limits"
    and "utf8_valid (str_bytes to)" "in_order (specifiers (snd (parse (si_bytes input))))"
  shows "(plan_static_import_rewrite sha256 parse authority rule_id rule input limits = Inr plan \<longleftrightarrow>
      rewrite_accepted sha256 parse authority rule_id rule input limits \<and>
      plan = rewrite_plan sha256 parse rule_id rule input) \<and>
    (plan_static_import_rewrite sha256 parse authority rule_id rule input limits = Inr plan \<longrightarrow>
      list_all (\<lambda>e. read_js_literal (te_replacement e) = Some (chars to)) (tn_edits plan) \<and>
      (emit_transformed_source sha256 plan (si_bytes input) emission_limits = Inr t \<longleftrightarrow>
        length (si_bytes input) \<le> el_source_bytes emission_limits \<and>
        length (spliced (si_bytes input) (tn_edits plan) 0) \<le> el_transformed_source_bytes emission_limits \<and>
        t = \<lparr>ets_plan = plan, ets_transformed_source = spliced (si_bytes input) (tn_edits plan) 0,
             ets_transformed_source_digest = sha256 (spliced (si_bytes input) (tn_edits plan) 0)\<rparr>))"
proof -
  let ?plan = "rewrite_plan sha256 parse rule_id rule input"
  have r: "sr_to rule = to" "list_all (\<lambda>c. \<not> is_control c) (chars to)"
    using static_import_rewrite_new_Inr [OF assms(1)] by simp_all
  have read: "list_all (\<lambda>e. read_js_literal (te_replacement e) = Some (chars to)) (tn_edits ?plan)"
    using quote_specifier_ok(1) [OF assms(3) r(2)]
    by (simp add: rewrite_plan_def list_all_iff literal_edit_def r(1))
  have emit: "emit_transformed_source sha256 ?plan (si_bytes input) emission_limits = Inr t \<longleftrightarrow>
      length (si_bytes input) \<le> el_source_bytes emission_limits \<and>
      length (plan_text (si_bytes input) ?plan) \<le> el_transformed_source_bytes emission_limits \<and>
      t = \<lparr>ets_plan = ?plan, ets_transformed_source = plan_text (si_bytes input) ?plan,
           ets_transformed_source_digest = sha256 (plan_text (si_bytes input) ?plan)\<rparr>"
    if accepted: "rewrite_accepted sha256 parse authority rule_id rule input limits"
  proof -
    note plan = plan_appliesD [OF accepted_plan_applies [OF assms accepted]]
    have "length (si_bytes input) + replacement_bytes (tn_edits ?plan) < 2 ^ 64"
      using plan(5) by simp
    moreover have "sha256 (si_bytes input) = su_source_digest (tn_source ?plan)"
      using accepted by (simp add: rewrite_accepted_def rewrite_plan_def)
    ultimately show ?thesis
      using emit_transformed_source_Inr [of "si_bytes input" ?plan sha256 emission_limits t] plan(2) by simp
  qed
  show ?thesis
    unfolding plan_static_import_rewrite_Inr using read emit by auto
qed

theorem rewrite_applied_witness:
  "plan_static_import_rewrite example_digest example_parse example_authority ''rule'' example_rule example_input
      example_limits = Inr example_plan \<and>
   emit_transformed_source example_digest example_plan example_source
      \<lparr>el_source_bytes = 100, el_transformed_source_bytes = 100\<rparr> =
     Inr \<lparr>ets_plan = example_plan, ets_transformed_source = str_bytes ''import'' @ [0x22, 0x62, 0x22],
          ets_transformed_source_digest = replicate 32 0\<rparr>"
proof -
  have sp: "spliced example_source (tn_edits example_plan) 0 = str_bytes ''import'' @ [0x22, 0x62, 0x22]"
    by (simp add: example_text example_plan_def str_bytes_def)
  have src: "si_bytes example_input = example_source"
    by (simp add: example_input_def)
  show ?thesis
    using rewrite_applied [where parse = example_parse and input = example_input and ?sha256.0 = example_digest
        and authority = example_authority and rule_id = "''rule''" and plan = example_plan
        and emission_limits = "\<lparr>el_source_bytes = 100, el_transformed_source_bytes = 100\<rparr>", OF example_hypotheses]
      example_accepted example_rewrite_plan
    by (simp add: src sp example_length example_digest_def)
qed

text \<open>
  C9: For every accepted plan and the transformed source emitted for it, the source map emitter
  returns a canonical Source Map v3 document, unless a limit forbids it, in which case it returns
  that limit's error and no other. The mappings in the document, read back by a reader of the
  format, are exactly the anchors of the plan: every line start of the transformed text and both
  ends of every replacement, each with its UTF-16 position and the position of the original text
  it comes from.
\<close>

theorem source_map_round_trip:
  assumes "static_import_rewrite_new from to n = Inr rule" "planner_limits_new a b c = Inr limits"
    and "utf8_valid (str_bytes to)" "in_order (specifiers (snd (parse (si_bytes input))))"
    and "\<And>bs. length (sha256 bs) = 32"
    and plan: "plan_static_import_rewrite sha256 parse authority rule_id rule input limits = Inr plan"
    and t: "emit_transformed_source sha256 plan (si_bytes input) emission_limits = Inr t"
  shows "\<exists>mappings.
    read_mappings mappings False (0, 0, 0, 0) = Some (map position_segment (plan_positions (si_bytes input) plan)) \<and>
    (let source = si_bytes input; transformed = ets_transformed_source t;
         doc = map_document plan (sha256 transformed) mappings;
         segments = length (line_starts transformed) + length (tn_edits plan) * 2
     in emit_source_map sha256 t source map_limits =
      (if sl_source_bytes map_limits < length source
       then Inl (SmSourceTooLarge (length source) (sl_source_bytes map_limits))
       else if sl_transformed_source_bytes map_limits < length transformed
       then Inl (SmTransformedSourceTooLarge (length transformed) (sl_transformed_source_bytes map_limits))
       else if sl_segments map_limits < segments then Inl (SmSegmentLimitExceeded segments (sl_segments map_limits))
       else if 2 ^ 64 \<le> length doc then Inl SmSourceMapLengthOverflow
       else if sl_source_map_bytes map_limits < length doc
       then Inl (SmSourceMapTooLarge (length doc) (sl_source_map_bytes map_limits))
       else Inr \<lparr>esm_transformed_source = t, esm_bytes = doc, esm_digest = sha256 doc,
              esm_segment_count = length (plan_positions source plan)\<rparr>))"
proof -
  let ?source = "si_bytes input"
  have accepted: "rewrite_accepted sha256 parse authority rule_id rule input limits"
    and p: "plan = rewrite_plan sha256 parse rule_id rule input"
    using plan by (simp_all add: plan_static_import_rewrite_Inr)
  have applies: "plan_applies ?source plan"
    unfolding p by (rule accepted_plan_applies [OF assms(1-4) accepted])
  have digest: "sha256 ?source = su_source_digest (tn_source plan)" "length (tn_rule_digest plan) = 32"
    using accepted assms(5) by (simp_all add: p rewrite_accepted_def rewrite_plan_def rewrite_canonical_digest_def)
  then have width: "length (su_source_digest (tn_source plan)) = 32"
    using assms(5) by metis
  have t': "t = \<lparr>ets_plan = plan, ets_transformed_source = plan_text ?source plan,
      ets_transformed_source_digest = sha256 (plan_text ?source plan)\<rparr>"
    using t emit_transformed_source_Inr plan_appliesD(5) [OF applies] by (simp add: emit_transformed_source_Inr)
  obtain sts where sts: "mapping_steps (plan_positions ?source plan) mapping_cursor_new = Inr sts"
    "read_mappings (mapping_text sts) False (0, 0, 0, 0) = Some (map position_segment (plan_positions ?source plan))"
    using positions_encoded [OF applies] .
  show ?thesis
    using emit_source_map_eq [OF applies digest width assms(5) sts(1) t' refl refl, of map_limits] sts(2)
    by (intro exI [of _ "mapping_text sts"]) (simp add: t' Let_def plan_positions_def)
qed

theorem source_map_round_trip_witness:
  "\<exists>mappings.
     read_mappings mappings False (0, 0, 0, 0) = Some [(0, 0, 0, 0), (0, 6, 0, 6), (0, 9, 0, 9)] \<and>
     (let transformed = str_bytes ''import'' @ [0x22, 0x62, 0x22];
          t = \<lparr>ets_plan = example_plan, ets_transformed_source = transformed,
               ets_transformed_source_digest = replicate 32 0\<rparr>;
          doc = map_document example_plan (replicate 32 0) mappings
      in emit_source_map example_digest t example_source
           \<lparr>sl_source_bytes = 100, sl_transformed_source_bytes = 100, sl_segments = 3, sl_source_map_bytes = 1000\<rparr> =
        (if 1000 < length doc then Inl (if 2 ^ 64 \<le> length doc then SmSourceMapLengthOverflow
            else SmSourceMapTooLarge (length doc) 1000)
         else Inr \<lparr>esm_transformed_source = t, esm_bytes = doc, esm_digest = replicate 32 0, esm_segment_count = 3\<rparr>))"
proof -
  let ?text = "[0x69, 0x6D, 0x70, 0x6F, 0x72, 0x74, 0x22, 0x62, 0x22] :: bytes"
  let ?t = "\<lparr>ets_plan = example_plan, ets_transformed_source = ?text, ets_transformed_source_digest = replicate 32 0\<rparr>"
  have result: "str_bytes ''import'' @ [0x22, 0x62, 0x22] = ?text" "plan_text example_source example_plan = ?text"
    by (simp_all add: str_bytes_def example_text example_plan_def)
  have starts: "line_starts ?text = [0]"
    by (simp add: line_starts_def terminator_def line_separator_def CR_def LF_def)
  have offsets: "plan_offsets example_source example_plan = [0, 6, 9]"
    by (simp add: anchor_offsets_def result starts) (simp add: example_plan_def)
  have positions: "map position_segment (plan_positions example_source example_plan) =
      [(0, 0, 0, 0), (0, 6, 0, 6), (0, 9, 0, 9)]"
    unfolding plan_positions_def offsets
    unfolding result example_text(1)
    by (simp add: len_utf8_def position_segment_def position_at_def position_after_def column_def terminator_def line_separator_def CR_def LF_def
        len_utf16_def example_plan_def)
  have len: "length (plan_positions example_source example_plan) = 3"
    using arg_cong [OF positions, of length] by simp
  have src: "si_bytes example_input = example_source"
    by (simp add: example_input_def)
  have p: "plan_static_import_rewrite example_digest example_parse example_authority ''rule'' example_rule
      example_input example_limits = Inr example_plan"
    using example_accepted example_rewrite_plan by (simp add: plan_static_import_rewrite_Inr)
  have t: "emit_transformed_source example_digest example_plan (si_bytes example_input)
      \<lparr>el_source_bytes = 100, el_transformed_source_bytes = 100\<rparr> = Inr ?t"
    by (subst emit_transformed_source_Inr)
      (simp_all add: src example_length example_digest_def example_plan_def example_text replacement_bytes_def)
  have width: "length (example_digest bs) = 32" for bs
    by (simp add: example_digest_def)
  have edits: "length (tn_edits example_plan) = 1"
    by (simp add: example_plan_def)
  show ?thesis
    using source_map_round_trip [where parse = example_parse and input = example_input and map_limits = "\<lparr>sl_source_bytes = 100,
        sl_transformed_source_bytes = 100, sl_segments = 3, sl_source_map_bytes = 1000\<rparr>", OF example_hypotheses width p t]
    unfolding src positions len Let_def result(1)
    by (elim ex_forward) (simp add: example_length starts edits example_digest_def)
qed

end
