(* ===== verification/Certification_Contracts.thy ===== *)
theory Certification_Contracts
  imports Transform_Plan
begin

section \<open>Certification control-plane contracts\<close>

text \<open>
  \<open>weregopher-domain/src/certification_control_plane.rs\<close>: runner-component descriptors, local
  run attestations, control policies and hash-chained ledger records, with their constructors,
  bounded parsers and validators; \<open>CertificationArtifactRef\<close> and \<open>CertificationTarget\<close> of
  \<open>certification_evidence.rs\<close>, \<open>CertificationClass\<close> and \<open>PublicationStatus\<close> of
  \<open>certification.rs\<close>.

  A role-named digest is its SHA-256 digest. The single-valued format versions are left out: a
  document with another one does not decode. Parameters: \<open>sha256\<close>, the canonical encodings
  (\<open>serde_json::to_vec\<close>), the structural decoding of \<open>serde_json::from_slice\<close>, which yields the
  unchecked fields, and \<open>custom\<close> (\<open>Error::custom\<close>). An unchecked document has the fields of
  the checked one, so it has the same type; which of several faults serde reports first is the
  parameter's.
\<close>

definition MAX_CERTIFICATION_RUNNER_COMPONENT_DESCRIPTOR_BYTES :: usize where
  "MAX_CERTIFICATION_RUNNER_COMPONENT_DESCRIPTOR_BYTES = 256 * 1024"
definition MAX_CERTIFICATION_RUNNER_COMPONENT_ARTIFACTS :: usize where
  "MAX_CERTIFICATION_RUNNER_COMPONENT_ARTIFACTS = 64"
definition MAX_CERTIFICATION_RUNNER_COMPONENT_TEXT_BYTES :: usize where
  "MAX_CERTIFICATION_RUNNER_COMPONENT_TEXT_BYTES = 256"
definition MAX_CERTIFICATION_RUNNER_COMPONENT_ARTIFACT_NAME_BYTES :: usize where
  "MAX_CERTIFICATION_RUNNER_COMPONENT_ARTIFACT_NAME_BYTES = 16 * 1024"
definition MAX_CERTIFICATION_RUNNER_COMPONENT_ARTIFACT_BYTES :: u64 where
  "MAX_CERTIFICATION_RUNNER_COMPONENT_ARTIFACT_BYTES = 512 * 1024 * 1024"
definition MAX_LOCAL_CERTIFICATION_RUN_ATTESTATION_BYTES :: usize where
  "MAX_LOCAL_CERTIFICATION_RUN_ATTESTATION_BYTES = 128 * 1024"
definition MAX_LOCAL_CERTIFICATION_RUN_FRESHNESS_MILLIS :: u64 where
  "MAX_LOCAL_CERTIFICATION_RUN_FRESHNESS_MILLIS = 10 * 60 * 1000"
definition MAX_LOCAL_CERTIFICATION_LEDGER_RECORD_BYTES :: usize where
  "MAX_LOCAL_CERTIFICATION_LEDGER_RECORD_BYTES = 256 * 1024"
definition MAX_LOCAL_CERTIFICATION_LEDGER_RECORDS :: usize where
  "MAX_LOCAL_CERTIFICATION_LEDGER_RECORDS = 4096"
definition MAX_LOCAL_CERTIFICATION_LEDGER_BYTES :: usize where
  "MAX_LOCAL_CERTIFICATION_LEDGER_BYTES = 256 * 1024 * 1024"

subsection \<open>Runner components\<close>

datatype CertificationRunnerComponentRole =
    RunnerImage | HostImage | HostPatchSet | ElectronRuntime | LanguageRuntimeSet | ToolchainSet
  | HostAgent | RoleVerifier | ProbeAssetSet | SourceRevision | ExceptionProvenance

datatype ComponentTextKind = ComponentIdentifierText | ComponentVersionText | ArtifactNameText

datatype CertificationRunnerComponentTextError =
    CtEmpty ComponentTextKind
  | CtTooLong ComponentTextKind
  | CtNonCanonical ComponentTextKind
  | CtUnsafeCharacter ComponentTextKind

definition component_segment_bad :: "string \<Rightarrow> bool" where
  "component_segment_bad seg \<longleftrightarrow>
     seg = [] \<or> seg = ''.'' \<or> seg = ''..'' \<or> last seg = CHR ''.'' \<or> last seg = CHR '' ''"

definition validate_component_text ::
    "string \<Rightarrow> ComponentTextKind \<Rightarrow> CertificationRunnerComponentTextError + unit" where
  "validate_component_text v kind =
     (if v = [] then Inl (CtEmpty kind)
      else if MAX_CERTIFICATION_RUNNER_COMPONENT_TEXT_BYTES < length v then Inl (CtTooLong kind)
      else if hd v = CHR ''/'' \<or> last v = CHR ''/'' \<or> CHR 0x5C \<in> set v then Inl (CtNonCanonical kind)
      else if list_ex component_segment_bad (split_on (CHR ''/'') v) then Inl (CtNonCanonical kind)
      else if list_ex (\<lambda>c. is_control c \<or> c = 0x7F) (chars v) then Inl (CtUnsafeCharacter kind)
      else Inr ())"

definition component_text_new :: "string \<Rightarrow> ComponentTextKind \<Rightarrow> CertificationRunnerComponentTextError + string" where
  "component_text_new v kind = rbind (validate_component_text v kind) (\<lambda>_. Inr v)"

datatype CertificationRunnerComponentDescriptorError =
    CdInvalidText CertificationRunnerComponentTextError
  | CdMissingArtifacts
  | CdTooManyArtifacts
  | CdDuplicateArtifactName
  | CdInvalidArtifactSize
  | CdArtifactNameBytesExceeded

text \<open>
  An artifact is its name, digest and size: the derived order compares them in this order, and a
  \<open>BTreeSet\<close> of artifacts is its ascending list.
\<close>

type_synonym CertificationRunnerComponentArtifact = "string \<times> Sha256Digest \<times> u64"
type_synonym ArtifactSet = "(CertificationRunnerComponentArtifact \<times> unit) list"

abbreviation "artifact_name a \<equiv> fst a"
abbreviation "artifact_size a \<equiv> snd (snd a)"

definition component_artifact_new ::
    "string \<Rightarrow> Sha256Digest \<Rightarrow> u64 \<Rightarrow> CertificationRunnerComponentDescriptorError + CertificationRunnerComponentArtifact" where
  "component_artifact_new name digest size_bytes =
     (if size_bytes = 0 \<or> MAX_CERTIFICATION_RUNNER_COMPONENT_ARTIFACT_BYTES < size_bytes then Inl CdInvalidArtifactSize
      else Inr (name, digest, size_bytes))"

fun component_artifacts_loop ::
    "CertificationRunnerComponentArtifact list \<Rightarrow> string option \<Rightarrow> usize \<Rightarrow>
     CertificationRunnerComponentDescriptorError + unit" where
  "component_artifacts_loop [] previous_name aggregate_name_bytes = Inr ()"
| "component_artifacts_loop (artifact # artifacts) previous_name aggregate_name_bytes =
     rbind (map_err CdInvalidText (validate_component_text (artifact_name artifact) ArtifactNameText)) (\<lambda>_.
     if artifact_size artifact = 0 \<or> MAX_CERTIFICATION_RUNNER_COMPONENT_ARTIFACT_BYTES < artifact_size artifact
     then Inl CdInvalidArtifactSize
     else if previous_name = Some (artifact_name artifact) then Inl CdDuplicateArtifactName
     else
       rbind (ok_or CdArtifactNameBytesExceeded
         (checked_add_usize aggregate_name_bytes (length (artifact_name artifact)))) (\<lambda>aggregate_name_bytes.
       if MAX_CERTIFICATION_RUNNER_COMPONENT_ARTIFACT_NAME_BYTES < aggregate_name_bytes
       then Inl CdArtifactNameBytesExceeded
       else component_artifacts_loop artifacts (Some (artifact_name artifact)) aggregate_name_bytes))"

definition validate_component_artifacts :: "ArtifactSet \<Rightarrow> CertificationRunnerComponentDescriptorError + unit" where
  "validate_component_artifacts artifacts =
     (if artifacts = [] then Inl CdMissingArtifacts
      else if MAX_CERTIFICATION_RUNNER_COMPONENT_ARTIFACTS < length artifacts then Inl CdTooManyArtifacts
      else component_artifacts_loop (map fst artifacts) None 0)"

record CertificationRunnerComponentDescriptor =
  cd_role :: CertificationRunnerComponentRole
  cd_component_id :: string
  cd_version :: string
  cd_provenance_digest :: Sha256Digest
  cd_artifacts :: ArtifactSet

definition component_descriptor_new ::
    "CertificationRunnerComponentRole \<Rightarrow> string \<Rightarrow> string \<Rightarrow> Sha256Digest \<Rightarrow> ArtifactSet \<Rightarrow>
     CertificationRunnerComponentDescriptorError + CertificationRunnerComponentDescriptor" where
  "component_descriptor_new role component_id version provenance_digest artifacts =
     rbind (map_err CdInvalidText (validate_component_text component_id ComponentIdentifierText)) (\<lambda>_.
     rbind (map_err CdInvalidText (validate_component_text version ComponentVersionText)) (\<lambda>_.
     rbind (validate_component_artifacts artifacts) (\<lambda>_.
     Inr \<lparr>cd_role = role, cd_component_id = component_id, cd_version = version,
          cd_provenance_digest = provenance_digest, cd_artifacts = artifacts\<rparr>)))"

subsection \<open>Bounded documents\<close>

datatype 'io BoundedDocumentReadError = BrDocumentTooLarge | BrBufferAllocationFailed | BrRead 'io

text \<open>
  \<open>read_bounded\<close>: the reader yields at most one byte more than the ceiling and may fail; what it
  yields within that many bytes is the parameter.
\<close>

definition read_bounded :: "(usize \<Rightarrow> 'io + bytes) \<Rightarrow> usize \<Rightarrow> 'io BoundedDocumentReadError + bytes" where
  "read_bounded reader maximum_bytes =
     rbind (ok_or BrDocumentTooLarge (checked_add_usize maximum_bytes 1)) (\<lambda>read_limit.
     rbind (map_err BrRead (map_sum id (take read_limit) (reader read_limit))) (\<lambda>bs.
     if maximum_bytes < length bs then Inl BrDocumentTooLarge else Inr bs))"

datatype ('io, 'je) CertificationRunnerComponentDocumentError =
    CcDocumentTooLarge
  | CcBoundedRead "'io BoundedDocumentReadError"
  | CcInvalidDocument 'je
  | CcInvalidContract CertificationRunnerComponentDescriptorError

text \<open>The decoded fields of a descriptor, its artifacts in document order.\<close>

record RawComponentDescriptor =
  rd_role :: CertificationRunnerComponentRole
  rd_component_id :: string
  rd_version :: string
  rd_provenance_digest :: Sha256Digest
  rd_artifacts :: "CertificationRunnerComponentArtifact list"

datatype DocumentProblem =
    TextProblem CertificationRunnerComponentTextError
  | DescriptorProblem CertificationRunnerComponentDescriptorError

definition component_text_deserialize ::
    "(DocumentProblem \<Rightarrow> 'je) \<Rightarrow> ComponentTextKind \<Rightarrow> string \<Rightarrow> 'je + string" where
  "component_text_deserialize custom kind raw = map_err (\<lambda>e. custom (TextProblem e)) (component_text_new raw kind)"

definition component_artifact_deserialize ::
    "(DocumentProblem \<Rightarrow> 'je) \<Rightarrow> CertificationRunnerComponentArtifact \<Rightarrow> 'je + CertificationRunnerComponentArtifact" where
  "component_artifact_deserialize custom raw =
     rbind (component_text_deserialize custom ArtifactNameText (artifact_name raw)) (\<lambda>name.
     map_err (\<lambda>e. custom (DescriptorProblem e)) (component_artifact_new name (fst (snd raw)) (artifact_size raw)))"

fun deserialize_all :: "('a \<Rightarrow> 'e + 'b) \<Rightarrow> 'a list \<Rightarrow> 'e + 'b list" where
  "deserialize_all f [] = Inr []"
| "deserialize_all f (x # xs) = rbind (f x) (\<lambda>y. rbind (deserialize_all f xs) (\<lambda>ys. Inr (y # ys)))"

fun collect_artifacts ::
    "CertificationRunnerComponentArtifact list \<Rightarrow> ArtifactSet \<Rightarrow>
     CertificationRunnerComponentDescriptorError + ArtifactSet" where
  "collect_artifacts [] artifacts = Inr artifacts"
| "collect_artifacts (artifact # rs) artifacts =
     (if list_ex (\<lambda>existing. artifact_name (fst existing) = artifact_name artifact) artifacts
      then Inl CdDuplicateArtifactName
      else collect_artifacts rs (bt_insert artifact () artifacts))"

definition component_descriptor_from_json_slice ::
    "(bytes \<Rightarrow> 'je + RawComponentDescriptor) \<Rightarrow> (DocumentProblem \<Rightarrow> 'je) \<Rightarrow> bytes \<Rightarrow>
     ('io, 'je) CertificationRunnerComponentDocumentError + CertificationRunnerComponentDescriptor" where
  "component_descriptor_from_json_slice from_slice custom bs =
     (if MAX_CERTIFICATION_RUNNER_COMPONENT_DESCRIPTOR_BYTES < length bs then Inl CcDocumentTooLarge
      else
        rbind (map_err CcInvalidDocument (from_slice bs)) (\<lambda>raw.
        rbind (map_err CcInvalidDocument
          (component_text_deserialize custom ComponentIdentifierText (rd_component_id raw))) (\<lambda>component_id.
        rbind (map_err CcInvalidDocument
          (component_text_deserialize custom ComponentVersionText (rd_version raw))) (\<lambda>version.
        rbind (map_err CcInvalidDocument
          (deserialize_all (component_artifact_deserialize custom) (rd_artifacts raw))) (\<lambda>unchecked.
        rbind (map_err CcInvalidContract (collect_artifacts unchecked [])) (\<lambda>artifacts.
        map_err CcInvalidContract
          (component_descriptor_new (rd_role raw) component_id version (rd_provenance_digest raw) artifacts)))))))"

definition component_descriptor_from_json_reader ::
    "(bytes \<Rightarrow> 'je + RawComponentDescriptor) \<Rightarrow> (DocumentProblem \<Rightarrow> 'je) \<Rightarrow> (usize \<Rightarrow> 'io + bytes) \<Rightarrow>
     ('io, 'je) CertificationRunnerComponentDocumentError + CertificationRunnerComponentDescriptor" where
  "component_descriptor_from_json_reader from_slice custom reader =
     rbind (map_err CcBoundedRead (read_bounded reader MAX_CERTIFICATION_RUNNER_COMPONENT_DESCRIPTOR_BYTES)) (\<lambda>bs.
     component_descriptor_from_json_slice from_slice custom bs)"

definition hash_canonical :: "(bytes \<Rightarrow> Sha256Digest) \<Rightarrow> 'je + bytes \<Rightarrow> 'je + Sha256Digest" where
  "hash_canonical sha256 encoded = rbind encoded (\<lambda>bs. Inr (sha256 bs))"

end
