(* ===== verification/Certification_Records.thy ===== *)
theory Certification_Records
  imports Certification_Contracts
begin

section \<open>Run attestations, control policies and ledger records\<close>

text \<open>
  The second half of \<open>certification_control_plane.rs\<close>: freshness, runner and result identities,
  attestations, control policies, receipts, ledger events and hash-chained records. The
  canonical encodings are the parameters \<open>attestation_json\<close> and \<open>record_json\<close>.
\<close>

datatype CertificationClass =
    Blocked | Provisional | StructuralVerified | SmokeVerified | ContractVerified | ExactCertified

datatype PublicationStatus = LocalOnly | Draft | Published | Withdrawn

datatype CertificationArtifactKind =
    PackageIdentity | StaticAnalysis | RuntimeProbe | RendererProbe | StateProbe | SecurityProbe
  | WorkflowProbe | ResourceProbe | HelperProbe | ExceptionVerification

record CertificationArtifactRef =
  car_kind :: CertificationArtifactKind
  car_digest :: Sha256Digest

record CertificationTarget =
  ctg_compatibility_analysis_digest :: Sha256Digest
  ctg_execution_contract_digest :: Sha256Digest
  ctg_execution_resolution_evidence_digest :: Sha256Digest
  ctg_artifact_source_digest :: Sha256Digest
  ctg_executable_digest :: Sha256Digest

datatype CertificationRunAttestationError =
    RaInvalidFreshnessLimit
  | RaFreshnessExpired
  | RaInvalidPolicyGeneration
  | RaUnassignableClass
  | RaMissingArtifacts
  | RaMissingArtifactBytes

record CertificationRunFreshness =
  fr_challenge :: uuid
  fr_maximum_elapsed_millis :: u64
  fr_elapsed_millis :: u64

definition run_freshness_new :: "uuid \<Rightarrow> u64 \<Rightarrow> u64 \<Rightarrow> CertificationRunAttestationError + CertificationRunFreshness" where
  "run_freshness_new challenge maximum_elapsed_millis elapsed_millis =
     (if maximum_elapsed_millis = 0 \<or> MAX_LOCAL_CERTIFICATION_RUN_FRESHNESS_MILLIS < maximum_elapsed_millis
      then Inl RaInvalidFreshnessLimit
      else if maximum_elapsed_millis < elapsed_millis then Inl RaFreshnessExpired
      else Inr \<lparr>fr_challenge = challenge, fr_maximum_elapsed_millis = maximum_elapsed_millis,
             fr_elapsed_millis = elapsed_millis\<rparr>)"

definition run_freshness_validate :: "CertificationRunFreshness \<Rightarrow> CertificationRunAttestationError + unit" where
  "run_freshness_validate f =
     rbind (run_freshness_new (fr_challenge f) (fr_maximum_elapsed_millis f) (fr_elapsed_millis f)) (\<lambda>_. Inr ())"

record CertificationRunRunnerIdentity =
  rr_runner_identity_digest :: Sha256Digest
  rr_descriptor_set_digest :: Sha256Digest
  rr_policy_revision_digest :: Sha256Digest
  rr_policy_generation :: u64

definition run_runner_identity_new ::
    "Sha256Digest \<Rightarrow> Sha256Digest \<Rightarrow> Sha256Digest \<Rightarrow> u64 \<Rightarrow>
     CertificationRunAttestationError + CertificationRunRunnerIdentity" where
  "run_runner_identity_new runner_identity_digest descriptor_set_digest policy_revision_digest policy_generation =
     (if policy_generation = 0 then Inl RaInvalidPolicyGeneration
      else Inr \<lparr>rr_runner_identity_digest = runner_identity_digest, rr_descriptor_set_digest = descriptor_set_digest,
             rr_policy_revision_digest = policy_revision_digest, rr_policy_generation = policy_generation\<rparr>)"

definition run_runner_identity_validate ::
    "CertificationRunRunnerIdentity \<Rightarrow> CertificationRunAttestationError + unit" where
  "run_runner_identity_validate r =
     rbind (run_runner_identity_new (rr_runner_identity_digest r) (rr_descriptor_set_digest r)
       (rr_policy_revision_digest r) (rr_policy_generation r)) (\<lambda>_. Inr ())"

record CertificationRunResultIdentity =
  rt_semantic_report :: CertificationArtifactRef
  rt_target :: CertificationTarget
  rt_profile_digest :: Sha256Digest
  rt_evidence_digest :: Sha256Digest
  rt_artifact_set_digest :: Sha256Digest
  rt_class :: CertificationClass
  rt_policy_revision_digest :: Sha256Digest
  rt_policy_generation :: u64
  rt_artifact_count :: u32
  rt_total_artifact_bytes :: u64

definition run_result_identity_new ::
    "CertificationArtifactRef \<Rightarrow> CertificationTarget \<Rightarrow> Sha256Digest \<Rightarrow> Sha256Digest \<Rightarrow> Sha256Digest \<Rightarrow>
     CertificationClass \<Rightarrow> Sha256Digest \<Rightarrow> u64 \<Rightarrow> u32 \<Rightarrow> u64 \<Rightarrow>
     CertificationRunAttestationError + CertificationRunResultIdentity" where
  "run_result_identity_new semantic_report target profile_digest evidence_digest artifact_set_digest class
     policy_revision_digest policy_generation artifact_count total_artifact_bytes =
     (if class = Blocked \<or> class = Provisional then Inl RaUnassignableClass
      else if policy_generation = 0 then Inl RaInvalidPolicyGeneration
      else if artifact_count = 0 then Inl RaMissingArtifacts
      else if total_artifact_bytes = 0 then Inl RaMissingArtifactBytes
      else Inr \<lparr>rt_semantic_report = semantic_report, rt_target = target, rt_profile_digest = profile_digest,
             rt_evidence_digest = evidence_digest, rt_artifact_set_digest = artifact_set_digest, rt_class = class,
             rt_policy_revision_digest = policy_revision_digest, rt_policy_generation = policy_generation,
             rt_artifact_count = artifact_count, rt_total_artifact_bytes = total_artifact_bytes\<rparr>)"

definition run_result_identity_validate ::
    "CertificationRunResultIdentity \<Rightarrow> CertificationRunAttestationError + unit" where
  "run_result_identity_validate r =
     rbind (run_result_identity_new (rt_semantic_report r) (rt_target r) (rt_profile_digest r) (rt_evidence_digest r)
       (rt_artifact_set_digest r) (rt_class r) (rt_policy_revision_digest r) (rt_policy_generation r)
       (rt_artifact_count r) (rt_total_artifact_bytes r)) (\<lambda>_. Inr ())"

subsection \<open>Attestations\<close>

record LocalCertificationRunAttestation =
  la_freshness :: CertificationRunFreshness
  la_runner :: CertificationRunRunnerIdentity
  la_result :: CertificationRunResultIdentity

datatype ('io, 'je) CertificationRunAttestationDocumentError =
    AdDocumentTooLarge
  | AdBoundedRead "'io BoundedDocumentReadError"
  | AdInvalidDocument 'je
  | AdInvalidContract CertificationRunAttestationError

datatype RecordProblem = AttestationProblem CertificationRunAttestationError | ReceiptNotLocalOnly

definition run_freshness_deserialize ::
    "(RecordProblem \<Rightarrow> 'je) \<Rightarrow> CertificationRunFreshness \<Rightarrow> 'je + CertificationRunFreshness" where
  "run_freshness_deserialize custom f =
     map_err (\<lambda>e. custom (AttestationProblem e))
       (run_freshness_new (fr_challenge f) (fr_maximum_elapsed_millis f) (fr_elapsed_millis f))"

definition run_runner_identity_deserialize ::
    "(RecordProblem \<Rightarrow> 'je) \<Rightarrow> CertificationRunRunnerIdentity \<Rightarrow> 'je + CertificationRunRunnerIdentity" where
  "run_runner_identity_deserialize custom r =
     map_err (\<lambda>e. custom (AttestationProblem e))
       (run_runner_identity_new (rr_runner_identity_digest r) (rr_descriptor_set_digest r)
         (rr_policy_revision_digest r) (rr_policy_generation r))"

definition run_result_identity_deserialize ::
    "(RecordProblem \<Rightarrow> 'je) \<Rightarrow> CertificationRunResultIdentity \<Rightarrow> 'je + CertificationRunResultIdentity" where
  "run_result_identity_deserialize custom r =
     map_err (\<lambda>e. custom (AttestationProblem e))
       (run_result_identity_new (rt_semantic_report r) (rt_target r) (rt_profile_digest r) (rt_evidence_digest r)
         (rt_artifact_set_digest r) (rt_class r) (rt_policy_revision_digest r) (rt_policy_generation r)
         (rt_artifact_count r) (rt_total_artifact_bytes r))"

text \<open>The derived decoding of the unchecked attestation.\<close>

definition unchecked_attestation_deserialize ::
    "(RecordProblem \<Rightarrow> 'je) \<Rightarrow> LocalCertificationRunAttestation \<Rightarrow> 'je + LocalCertificationRunAttestation" where
  "unchecked_attestation_deserialize custom a =
     rbind (run_freshness_deserialize custom (la_freshness a)) (\<lambda>freshness.
     rbind (run_runner_identity_deserialize custom (la_runner a)) (\<lambda>runner.
     rbind (run_result_identity_deserialize custom (la_result a)) (\<lambda>result.
     Inr \<lparr>la_freshness = freshness, la_runner = runner, la_result = result\<rparr>)))"

definition attestation_into_checked ::
    "LocalCertificationRunAttestation \<Rightarrow> CertificationRunAttestationError + LocalCertificationRunAttestation" where
  "attestation_into_checked a =
     rbind (run_freshness_validate (la_freshness a)) (\<lambda>_.
     rbind (run_runner_identity_validate (la_runner a)) (\<lambda>_.
     rbind (run_result_identity_validate (la_result a)) (\<lambda>_. Inr a)))"

definition attestation_from_json_slice ::
    "(bytes \<Rightarrow> 'je + LocalCertificationRunAttestation) \<Rightarrow> (RecordProblem \<Rightarrow> 'je) \<Rightarrow> bytes \<Rightarrow>
     ('io, 'je) CertificationRunAttestationDocumentError + LocalCertificationRunAttestation" where
  "attestation_from_json_slice from_slice custom bs =
     (if MAX_LOCAL_CERTIFICATION_RUN_ATTESTATION_BYTES < length bs then Inl AdDocumentTooLarge
      else
        rbind (map_err AdInvalidDocument (rbind (from_slice bs) (unchecked_attestation_deserialize custom))) (\<lambda>unchecked.
        map_err AdInvalidContract (attestation_into_checked unchecked)))"

definition attestation_from_json_reader ::
    "(bytes \<Rightarrow> 'je + LocalCertificationRunAttestation) \<Rightarrow> (RecordProblem \<Rightarrow> 'je) \<Rightarrow> (usize \<Rightarrow> 'io + bytes) \<Rightarrow>
     ('io, 'je) CertificationRunAttestationDocumentError + LocalCertificationRunAttestation" where
  "attestation_from_json_reader from_slice custom reader =
     rbind (map_err AdBoundedRead (read_bounded reader MAX_LOCAL_CERTIFICATION_RUN_ATTESTATION_BYTES)) (\<lambda>bs.
     attestation_from_json_slice from_slice custom bs)"

subsection \<open>Control policies\<close>

record CertificationControlPolicy =
  cp_runner :: CertificationRunRunnerIdentity
  cp_semantic_report :: CertificationArtifactRef
  cp_target :: CertificationTarget
  cp_profile_digest :: Sha256Digest
  cp_evidence_digest :: Sha256Digest
  cp_artifact_set_digest :: Sha256Digest
  cp_class :: CertificationClass
  cp_policy_revision_digest :: Sha256Digest
  cp_policy_generation :: u64

definition control_policy_validate :: "CertificationControlPolicy \<Rightarrow> CertificationRunAttestationError + unit" where
  "control_policy_validate p =
     rbind (run_runner_identity_validate (cp_runner p)) (\<lambda>_.
     rbind (run_result_identity_new (cp_semantic_report p) (cp_target p) (cp_profile_digest p) (cp_evidence_digest p)
       (cp_artifact_set_digest p) (cp_class p) (cp_policy_revision_digest p) (cp_policy_generation p) 1 1) (\<lambda>_. Inr ()))"

definition control_policy_new ::
    "CertificationRunRunnerIdentity \<Rightarrow> CertificationArtifactRef \<Rightarrow> CertificationTarget \<Rightarrow> Sha256Digest \<Rightarrow> Sha256Digest \<Rightarrow>
     Sha256Digest \<Rightarrow> CertificationClass \<Rightarrow> Sha256Digest \<Rightarrow> u64 \<Rightarrow>
     CertificationRunAttestationError + CertificationControlPolicy" where
  "control_policy_new runner semantic_report target profile_digest evidence_digest artifact_set_digest class
     policy_revision_digest policy_generation =
     (let policy = \<lparr>cp_runner = runner, cp_semantic_report = semantic_report, cp_target = target,
        cp_profile_digest = profile_digest, cp_evidence_digest = evidence_digest,
        cp_artifact_set_digest = artifact_set_digest, cp_class = class,
        cp_policy_revision_digest = policy_revision_digest, cp_policy_generation = policy_generation\<rparr> in
      rbind (control_policy_validate policy) (\<lambda>_. Inr policy))"

definition control_policy_deserialize ::
    "(RecordProblem \<Rightarrow> 'je) \<Rightarrow> CertificationControlPolicy \<Rightarrow> 'je + CertificationControlPolicy" where
  "control_policy_deserialize custom p =
     rbind (run_runner_identity_deserialize custom (cp_runner p)) (\<lambda>runner.
     map_err (\<lambda>e. custom (AttestationProblem e))
       (control_policy_new runner (cp_semantic_report p) (cp_target p) (cp_profile_digest p) (cp_evidence_digest p)
         (cp_artifact_set_digest p) (cp_class p) (cp_policy_revision_digest p) (cp_policy_generation p)))"

definition accepts_attestation :: "CertificationControlPolicy \<Rightarrow> LocalCertificationRunAttestation \<Rightarrow> bool" where
  "accepts_attestation p a \<longleftrightarrow>
     (let result = la_result a in
      cp_runner p = la_runner a \<and> cp_semantic_report p = rt_semantic_report result \<and> cp_target p = rt_target result \<and>
      cp_profile_digest p = rt_profile_digest result \<and> cp_evidence_digest p = rt_evidence_digest result \<and>
      cp_artifact_set_digest p = rt_artifact_set_digest result \<and> cp_class p = rt_class result \<and>
      cp_policy_revision_digest p = rt_policy_revision_digest result \<and>
      cp_policy_generation p = rt_policy_generation result)"

subsection \<open>Receipts and events\<close>

record LocalCertificationLedgerReceipt =
  lrc_attestation_digest :: Sha256Digest
  lrc_publication_status :: PublicationStatus

datatype 'je LocalCertificationLedgerContractError =
    LcInvalidAttestation CertificationRunAttestationError
  | LcPolicyMismatch
  | LcReceiptMismatch
  | LcInvalidPublicationStatus
  | LcCanonicalDocumentUnavailable 'je
  | LcInvalidSequence
  | LcInvalidGenesis
  | LcUnexpectedGenesis
  | LcMissingPreviousLink
  | LcSequenceExhausted

definition receipt_deserialize ::
    "(RecordProblem \<Rightarrow> 'je) \<Rightarrow> LocalCertificationLedgerReceipt \<Rightarrow> 'je + LocalCertificationLedgerReceipt" where
  "receipt_deserialize custom r =
     (if lrc_publication_status r \<noteq> LocalOnly then Inl (custom ReceiptNotLocalOnly) else Inr r)"

definition receipt_from_attestation ::
    "(bytes \<Rightarrow> Sha256Digest) \<Rightarrow> (LocalCertificationRunAttestation \<Rightarrow> 'je + bytes) \<Rightarrow> LocalCertificationRunAttestation \<Rightarrow>
     'je LocalCertificationLedgerContractError + LocalCertificationLedgerReceipt" where
  "receipt_from_attestation sha256 attestation_json attestation =
     rbind (map_err LcCanonicalDocumentUnavailable (hash_canonical sha256 (attestation_json attestation))) (\<lambda>digest.
     Inr \<lparr>lrc_attestation_digest = digest, lrc_publication_status = LocalOnly\<rparr>)"

definition validate_receipt ::
    "(bytes \<Rightarrow> Sha256Digest) \<Rightarrow> (LocalCertificationRunAttestation \<Rightarrow> 'je + bytes) \<Rightarrow> LocalCertificationRunAttestation \<Rightarrow>
     LocalCertificationLedgerReceipt \<Rightarrow> 'je LocalCertificationLedgerContractError + unit" where
  "validate_receipt sha256 attestation_json attestation receipt =
     (if lrc_publication_status receipt \<noteq> LocalOnly then Inl LcInvalidPublicationStatus
      else
        rbind (map_err LcCanonicalDocumentUnavailable (hash_canonical sha256 (attestation_json attestation))) (\<lambda>expected.
        if lrc_attestation_digest receipt \<noteq> expected then Inl LcReceiptMismatch else Inr ()))"

record LocalCertificationLedgerGenesis =
  lg_policy :: CertificationControlPolicy
  lg_attestation :: LocalCertificationRunAttestation
  lg_receipt :: LocalCertificationLedgerReceipt

definition ledger_genesis_new ::
    "(bytes \<Rightarrow> Sha256Digest) \<Rightarrow> (LocalCertificationRunAttestation \<Rightarrow> 'je + bytes) \<Rightarrow> CertificationControlPolicy \<Rightarrow>
     LocalCertificationRunAttestation \<Rightarrow> 'je LocalCertificationLedgerContractError + LocalCertificationLedgerGenesis" where
  "ledger_genesis_new sha256 attestation_json policy attestation =
     (if \<not> accepts_attestation policy attestation then Inl LcPolicyMismatch
      else rbind (receipt_from_attestation sha256 attestation_json attestation) (\<lambda>receipt.
        Inr \<lparr>lg_policy = policy, lg_attestation = attestation, lg_receipt = receipt\<rparr>))"

definition ledger_genesis_validate ::
    "(bytes \<Rightarrow> Sha256Digest) \<Rightarrow> (LocalCertificationRunAttestation \<Rightarrow> 'je + bytes) \<Rightarrow> LocalCertificationLedgerGenesis \<Rightarrow>
     'je LocalCertificationLedgerContractError + unit" where
  "ledger_genesis_validate sha256 attestation_json g =
     (if \<not> accepts_attestation (lg_policy g) (lg_attestation g) then Inl LcPolicyMismatch
      else validate_receipt sha256 attestation_json (lg_attestation g) (lg_receipt g))"

record LocalCertificationLedgerPublication =
  lp_attestation :: LocalCertificationRunAttestation
  lp_receipt :: LocalCertificationLedgerReceipt

definition ledger_publication_new ::
    "(bytes \<Rightarrow> Sha256Digest) \<Rightarrow> (LocalCertificationRunAttestation \<Rightarrow> 'je + bytes) \<Rightarrow> LocalCertificationRunAttestation \<Rightarrow>
     'je LocalCertificationLedgerContractError + LocalCertificationLedgerPublication" where
  "ledger_publication_new sha256 attestation_json attestation =
     rbind (receipt_from_attestation sha256 attestation_json attestation) (\<lambda>receipt.
     Inr \<lparr>lp_attestation = attestation, lp_receipt = receipt\<rparr>)"

datatype LocalCertificationLedgerEvent =
    Genesis LocalCertificationLedgerGenesis
  | Publication LocalCertificationLedgerPublication
  | PolicyReplacement CertificationControlPolicy
  | CertificationRevocation Sha256Digest
  | RunnerRevocation Sha256Digest

definition is_genesis :: "LocalCertificationLedgerEvent \<Rightarrow> bool" where
  "is_genesis event \<longleftrightarrow> (case event of Genesis g \<Rightarrow> True | _ \<Rightarrow> False)"

fun event_validate ::
    "(bytes \<Rightarrow> Sha256Digest) \<Rightarrow> (LocalCertificationRunAttestation \<Rightarrow> 'je + bytes) \<Rightarrow> LocalCertificationLedgerEvent \<Rightarrow>
     'je LocalCertificationLedgerContractError + unit" where
  "event_validate sha256 attestation_json (Genesis g) = ledger_genesis_validate sha256 attestation_json g"
| "event_validate sha256 attestation_json (Publication p) =
     validate_receipt sha256 attestation_json (lp_attestation p) (lp_receipt p)"
| "event_validate sha256 attestation_json (PolicyReplacement policy) =
     map_err LcInvalidAttestation (control_policy_validate policy)"
| "event_validate sha256 attestation_json (CertificationRevocation d) = Inr ()"
| "event_validate sha256 attestation_json (RunnerRevocation d) = Inr ()"

text \<open>The derived decoding of an unchecked event, and \<open>into_checked\<close>.\<close>

fun unchecked_event_deserialize ::
    "(RecordProblem \<Rightarrow> 'je) \<Rightarrow> LocalCertificationLedgerEvent \<Rightarrow> 'je + LocalCertificationLedgerEvent" where
  "unchecked_event_deserialize custom (Genesis g) =
     rbind (control_policy_deserialize custom (lg_policy g)) (\<lambda>policy.
     rbind (unchecked_attestation_deserialize custom (lg_attestation g)) (\<lambda>attestation.
     rbind (receipt_deserialize custom (lg_receipt g)) (\<lambda>receipt.
     Inr (Genesis \<lparr>lg_policy = policy, lg_attestation = attestation, lg_receipt = receipt\<rparr>))))"
| "unchecked_event_deserialize custom (Publication p) =
     rbind (unchecked_attestation_deserialize custom (lp_attestation p)) (\<lambda>attestation.
     rbind (receipt_deserialize custom (lp_receipt p)) (\<lambda>receipt.
     Inr (Publication \<lparr>lp_attestation = attestation, lp_receipt = receipt\<rparr>)))"
| "unchecked_event_deserialize custom (PolicyReplacement policy) =
     rbind (control_policy_deserialize custom policy) (\<lambda>policy. Inr (PolicyReplacement policy))"
| "unchecked_event_deserialize custom (CertificationRevocation d) = Inr (CertificationRevocation d)"
| "unchecked_event_deserialize custom (RunnerRevocation d) = Inr (RunnerRevocation d)"

fun event_into_checked ::
    "(bytes \<Rightarrow> Sha256Digest) \<Rightarrow> (LocalCertificationRunAttestation \<Rightarrow> 'je + bytes) \<Rightarrow> LocalCertificationLedgerEvent \<Rightarrow>
     'je LocalCertificationLedgerContractError + LocalCertificationLedgerEvent" where
  "event_into_checked sha256 attestation_json (Genesis g) =
     rbind (map_err LcInvalidAttestation (attestation_into_checked (lg_attestation g))) (\<lambda>attestation.
     let genesis = \<lparr>lg_policy = lg_policy g, lg_attestation = attestation, lg_receipt = lg_receipt g\<rparr> in
     rbind (ledger_genesis_validate sha256 attestation_json genesis) (\<lambda>_. Inr (Genesis genesis)))"
| "event_into_checked sha256 attestation_json (Publication p) =
     rbind (map_err LcInvalidAttestation (attestation_into_checked (lp_attestation p))) (\<lambda>attestation.
     let publication = \<lparr>lp_attestation = attestation, lp_receipt = lp_receipt p\<rparr> in
     rbind (validate_receipt sha256 attestation_json (lp_attestation publication) (lp_receipt publication)) (\<lambda>_.
     Inr (Publication publication)))"
| "event_into_checked sha256 attestation_json (PolicyReplacement policy) = Inr (PolicyReplacement policy)"
| "event_into_checked sha256 attestation_json (CertificationRevocation d) = Inr (CertificationRevocation d)"
| "event_into_checked sha256 attestation_json (RunnerRevocation d) = Inr (RunnerRevocation d)"

subsection \<open>Records\<close>

record LocalCertificationLedgerRecord =
  lr_sequence :: u64
  lr_previous_record_digest :: "Sha256Digest option"
  lr_event :: LocalCertificationLedgerEvent

definition ledger_record_genesis ::
    "(bytes \<Rightarrow> Sha256Digest) \<Rightarrow> (LocalCertificationRunAttestation \<Rightarrow> 'je + bytes) \<Rightarrow> LocalCertificationLedgerGenesis \<Rightarrow>
     'je LocalCertificationLedgerContractError + LocalCertificationLedgerRecord" where
  "ledger_record_genesis sha256 attestation_json genesis =
     rbind (ledger_genesis_validate sha256 attestation_json genesis) (\<lambda>_.
     Inr \<lparr>lr_sequence = 1, lr_previous_record_digest = None, lr_event = Genesis genesis\<rparr>)"

definition ledger_record_next ::
    "(bytes \<Rightarrow> Sha256Digest) \<Rightarrow> (LocalCertificationRunAttestation \<Rightarrow> 'je + bytes) \<Rightarrow>
     (LocalCertificationLedgerRecord \<Rightarrow> 'je + bytes) \<Rightarrow> LocalCertificationLedgerRecord \<Rightarrow> LocalCertificationLedgerEvent \<Rightarrow>
     'je LocalCertificationLedgerContractError + LocalCertificationLedgerRecord" where
  "ledger_record_next sha256 attestation_json record_json previous event =
     (if is_genesis event then Inl LcUnexpectedGenesis
      else
        rbind (event_validate sha256 attestation_json event) (\<lambda>_.
        rbind (ok_or LcSequenceExhausted (checked_add (lr_sequence previous) 1)) (\<lambda>sequence.
        rbind (map_err LcCanonicalDocumentUnavailable (hash_canonical sha256 (record_json previous))) (\<lambda>digest.
        Inr \<lparr>lr_sequence = sequence, lr_previous_record_digest = Some digest, lr_event = event\<rparr>))))"

definition validate_shape ::
    "(bytes \<Rightarrow> Sha256Digest) \<Rightarrow> (LocalCertificationRunAttestation \<Rightarrow> 'je + bytes) \<Rightarrow> LocalCertificationLedgerRecord \<Rightarrow>
     'je LocalCertificationLedgerContractError + unit" where
  "validate_shape sha256 attestation_json r =
     (if lr_sequence r = 0 then Inl LcInvalidSequence
      else if lr_sequence r = 1 then
        (if lr_previous_record_digest r = None \<and> is_genesis (lr_event r)
         then event_validate sha256 attestation_json (lr_event r)
         else Inl LcInvalidGenesis)
      else
        (case lr_previous_record_digest r of
           Some _ \<Rightarrow> (if is_genesis (lr_event r) then Inl LcUnexpectedGenesis
                    else event_validate sha256 attestation_json (lr_event r))
         | None \<Rightarrow> Inl LcMissingPreviousLink))"

datatype ('io, 'je) LocalCertificationLedgerDocumentError =
    LdDocumentTooLarge
  | LdBoundedRead "'io BoundedDocumentReadError"
  | LdInvalidDocument 'je
  | LdInvalidContract "'je LocalCertificationLedgerContractError"

definition unchecked_record_deserialize ::
    "(RecordProblem \<Rightarrow> 'je) \<Rightarrow> LocalCertificationLedgerRecord \<Rightarrow> 'je + LocalCertificationLedgerRecord" where
  "unchecked_record_deserialize custom r =
     rbind (unchecked_event_deserialize custom (lr_event r)) (\<lambda>event. Inr (r\<lparr>lr_event := event\<rparr>))"

definition ledger_record_from_json_slice ::
    "(bytes \<Rightarrow> Sha256Digest) \<Rightarrow> (LocalCertificationRunAttestation \<Rightarrow> 'je + bytes) \<Rightarrow>
     (bytes \<Rightarrow> 'je + LocalCertificationLedgerRecord) \<Rightarrow> (RecordProblem \<Rightarrow> 'je) \<Rightarrow> bytes \<Rightarrow>
     ('io, 'je) LocalCertificationLedgerDocumentError + LocalCertificationLedgerRecord" where
  "ledger_record_from_json_slice sha256 attestation_json from_slice custom bs =
     (if MAX_LOCAL_CERTIFICATION_LEDGER_RECORD_BYTES < length bs then Inl LdDocumentTooLarge
      else
        rbind (map_err LdInvalidDocument (rbind (from_slice bs) (unchecked_record_deserialize custom))) (\<lambda>unchecked.
        rbind (map_err LdInvalidContract (event_into_checked sha256 attestation_json (lr_event unchecked))) (\<lambda>event.
        let r = unchecked\<lparr>lr_event := event\<rparr> in
        rbind (map_err LdInvalidContract (validate_shape sha256 attestation_json r)) (\<lambda>_. Inr r))))"

definition ledger_record_from_json_reader ::
    "(bytes \<Rightarrow> Sha256Digest) \<Rightarrow> (LocalCertificationRunAttestation \<Rightarrow> 'je + bytes) \<Rightarrow>
     (bytes \<Rightarrow> 'je + LocalCertificationLedgerRecord) \<Rightarrow> (RecordProblem \<Rightarrow> 'je) \<Rightarrow> (usize \<Rightarrow> 'io + bytes) \<Rightarrow>
     ('io, 'je) LocalCertificationLedgerDocumentError + LocalCertificationLedgerRecord" where
  "ledger_record_from_json_reader sha256 attestation_json from_slice custom reader =
     rbind (map_err LdBoundedRead (read_bounded reader MAX_LOCAL_CERTIFICATION_LEDGER_RECORD_BYTES)) (\<lambda>bs.
     ledger_record_from_json_slice sha256 attestation_json from_slice custom bs)"

end
