(* ===== verification/Certification_Ledger.thy ===== *)
theory Certification_Ledger
  imports Certification_Records
begin

section \<open>The local certification ledger\<close>

text \<open>
  \<open>weregopher-transform/src/certification_ledger.rs\<close>: the projection of the ledger's events, the
  replay of a ledger directory, creation, opening and appending.

  The file system is explicit: what is at the root path, a directory being the list of its
  entries in the order in which \<open>read_dir\<close> enumerates them. What an I/O call answers is the
  parameter \<open>io\<close>: for every call whether it fails, and for a write how many bytes got to the
  file before. Another process may change the directory between the replay and the write of an
  append: \<open>between\<close>. An operating-system file name is Unicode text or it is not. Allocation
  failures are left out.
\<close>

definition RECORD_FILE_DIGITS :: usize where "RECORD_FILE_DIGITS = 20"
definition RECORD_FILE_SUFFIX :: string where "RECORD_FILE_SUFFIX = ''.json''"

datatype OsName = UnicodeName string | OtherName nat

datatype LedgerNode = RegularFile bytes | OtherNode

type_synonym LedgerDirectory = "(OsName \<times> LedgerNode) list"

datatype LedgerRoot = RootMissing | RootUnsafe | RootDirectory LedgerDirectory

record 'io LedgerIo =
  io_create_dir :: "'io option"
  io_inspect_root :: "'io option"
  io_read_dir :: "'io option"
  io_read_entry :: "OsName \<Rightarrow> 'io option"
  io_inspect_entry :: "OsName \<Rightarrow> 'io option"
  io_open_record :: "u64 \<Rightarrow> 'io option"
  io_read_record :: "u64 \<Rightarrow> 'io option"
  io_create_record :: "u64 \<Rightarrow> 'io option"
  io_write_record :: "u64 \<Rightarrow> ('io \<times> usize) option"
  io_sync_record :: "u64 \<Rightarrow> 'io option"

definition no_faults :: "'io LedgerIo" where
  "no_faults = \<lparr>io_create_dir = None, io_inspect_root = None, io_read_dir = None, io_read_entry = (\<lambda>_. None),
     io_inspect_entry = (\<lambda>_. None), io_open_record = (\<lambda>_. None), io_read_record = (\<lambda>_. None),
     io_create_record = (\<lambda>_. None), io_write_record = (\<lambda>_. None), io_sync_record = (\<lambda>_. None)\<rparr>"

datatype ('io, 'je) LocalCertificationLedgerError =
    LeLedgerRootAlreadyExists
  | LeCreateLedgerRoot 'io
  | LeInspectLedgerRoot 'io
  | LeInspectMissingRoot
  | LeUnsafeLedgerRoot
  | LeReadLedgerDirectory 'io
  | LeReadLedgerEntry 'io
  | LeInspectLedgerEntry OsName 'io
  | LeUnsafeLedgerEntry OsName
  | LeUnknownLedgerEntry OsName
  | LeTooManyRecords
  | LeMissingGenesis
  | LeUnexpectedGenesis
  | LeSequenceGap u64 u64
  | LeRecordTooLarge u64
  | LeTotalRecordBytesExceeded
  | LeOpenRecord u64 'io
  | LeReadRecord u64 'io
  | LeInvalidRecord u64 "('io, 'je) LocalCertificationLedgerDocumentError"
  | LeNonCanonicalRecord u64
  | LeRecordSequenceMismatch u64 u64
  | LePreviousRecordMismatch u64
  | LeCanonicalRecordUnavailable 'je
  | LeHeadMismatch Sha256Digest Sha256Digest
  | LeStaleWriter Sha256Digest Sha256Digest
  | LeRecordAlreadyExists u64
  | LeCreateRecord u64 'io
  | LeWriteRecord u64 'io
  | LeSyncRecord u64 'io
  | LeContract "'je LocalCertificationLedgerContractError"
  | LeControlPolicyMismatch
  | LeRunnerPolicyRevoked
  | LeCertificationPolicyRevoked
  | LeFreshnessChallengeReplayed
  | LePolicyGenerationExhausted
  | LeNonMonotonicPolicyGeneration u64 u64 u64 u64
  | LeStatePoisoned

text \<open>The parameters of the ledger: SHA-256, the canonical encodings, decoding and \<open>Error::custom\<close>.\<close>

record 'je LedgerCodec =
  lc_sha256 :: "bytes \<Rightarrow> Sha256Digest"
  lc_attestation_json :: "LocalCertificationRunAttestation \<Rightarrow> 'je + bytes"
  lc_record_json :: "LocalCertificationLedgerRecord \<Rightarrow> 'je + bytes"
  lc_from_slice :: "bytes \<Rightarrow> 'je + LocalCertificationLedgerRecord"
  lc_custom :: "RecordProblem \<Rightarrow> 'je"

text \<open>\<open>LocalCertificationLedgerRecord::canonical_document_digest\<close>.\<close>

definition record_digest :: "'je LedgerCodec \<Rightarrow> LocalCertificationLedgerRecord \<Rightarrow> 'je + Sha256Digest" where
  "record_digest codec r = hash_canonical (lc_sha256 codec) (lc_record_json codec r)"

subsection \<open>The projection\<close>

record LedgerProjection =
  pj_policy :: CertificationControlPolicy
  pj_runner_generation :: u64
  pj_certification_generation :: u64
  pj_runner_revoked :: bool
  pj_certification_revoked :: bool
  pj_freshness_challenges :: "(uuid \<times> unit) list"

abbreviation "attestation_challenge a \<equiv> fr_challenge (la_freshness a)"

definition projection_from_genesis :: "LocalCertificationLedgerGenesis \<Rightarrow> LedgerProjection" where
  "projection_from_genesis g =
     \<lparr>pj_policy = lg_policy g, pj_runner_generation = rr_policy_generation (cp_runner (lg_policy g)),
      pj_certification_generation = cp_policy_generation (lg_policy g), pj_runner_revoked = False,
      pj_certification_revoked = False,
      pj_freshness_challenges = bt_insert (attestation_challenge (lg_attestation g)) () []\<rparr>"

definition apply_publication ::
    "LedgerProjection \<Rightarrow> LocalCertificationRunAttestation \<Rightarrow> ('io, 'je) LocalCertificationLedgerError + LedgerProjection" where
  "apply_publication p attestation =
     (if pj_runner_revoked p then Inl LeRunnerPolicyRevoked
      else if pj_certification_revoked p then Inl LeCertificationPolicyRevoked
      else if \<not> accepts_attestation (pj_policy p) attestation then Inl LeControlPolicyMismatch
      else
        let challenge = attestation_challenge attestation in
        if bs_contains (pj_freshness_challenges p) challenge then Inl LeFreshnessChallengeReplayed
        else Inr (p\<lparr>pj_freshness_challenges := bt_insert challenge () (pj_freshness_challenges p)\<rparr>))"

fun projection_apply ::
    "LedgerProjection \<Rightarrow> LocalCertificationLedgerEvent \<Rightarrow> ('io, 'je) LocalCertificationLedgerError + LedgerProjection" where
  "projection_apply p (Genesis g) = Inl LeUnexpectedGenesis"
| "projection_apply p (Publication publication) = apply_publication p (lp_attestation publication)"
| "projection_apply p (PolicyReplacement policy) =
     rbind (ok_or LePolicyGenerationExhausted (checked_add (pj_runner_generation p) 1)) (\<lambda>expected_runner.
     rbind (ok_or LePolicyGenerationExhausted (checked_add (pj_certification_generation p) 1)) (\<lambda>expected_certification.
     let actual_runner = rr_policy_generation (cp_runner policy); actual_certification = cp_policy_generation policy in
     if actual_runner \<noteq> expected_runner \<or> actual_certification \<noteq> expected_certification
     then Inl (LeNonMonotonicPolicyGeneration expected_runner actual_runner expected_certification actual_certification)
     else Inr (p\<lparr>pj_policy := policy, pj_runner_generation := actual_runner,
            pj_certification_generation := actual_certification, pj_runner_revoked := False,
            pj_certification_revoked := False\<rparr>)))"
| "projection_apply p (CertificationRevocation d) =
     rbind (ok_or LePolicyGenerationExhausted (checked_add (pj_certification_generation p) 1)) (\<lambda>g.
     Inr (p\<lparr>pj_certification_generation := g, pj_certification_revoked := True\<rparr>))"
| "projection_apply p (RunnerRevocation d) =
     rbind (ok_or LePolicyGenerationExhausted (checked_add (pj_runner_generation p) 1)) (\<lambda>g.
     Inr (p\<lparr>pj_runner_generation := g, pj_runner_revoked := True\<rparr>))"

subsection \<open>Record files\<close>

definition decimal_char :: "nat \<Rightarrow> char" where
  "decimal_char d = char_of (48 + d mod 10)"

text \<open>\<open>{sequence:020}\<close>: a \<open>u64\<close> has at most twenty digits.\<close>

definition padded_decimal :: "nat \<Rightarrow> nat \<Rightarrow> string" where
  "padded_decimal width n = map (\<lambda>i. decimal_char (n div 10 ^ (width - 1 - i))) [0..<width]"

definition record_filename :: "u64 \<Rightarrow> string" where
  "record_filename sequence = padded_decimal 20 (unat sequence) @ RECORD_FILE_SUFFIX"

definition is_ascii_digit :: "char \<Rightarrow> bool" where
  "is_ascii_digit c \<longleftrightarrow> 48 \<le> (of_char c :: nat) \<and> of_char c \<le> (57 :: nat)"

fun decimal_value :: "nat \<Rightarrow> string \<Rightarrow> nat" where
  "decimal_value v [] = v"
| "decimal_value v (c # cs) = decimal_value (10 * v + (of_char c - 48)) cs"

definition parse_u64 :: "string \<Rightarrow> u64 option" where
  "parse_u64 digits = (if decimal_value 0 digits < 2 ^ 64 then Some (of_nat (decimal_value 0 digits)) else None)"

definition strip_suffix :: "string \<Rightarrow> string \<Rightarrow> string option" where
  "strip_suffix ending s =
     (if length ending \<le> length s \<and> drop (length s - length ending) s = ending
      then Some (take (length s - length ending) s) else None)"

definition parse_record_filename :: "OsName \<Rightarrow> u64 option" where
  "parse_record_filename os_name =
     (case os_name of
        OtherName n \<Rightarrow> None
      | UnicodeName name \<Rightarrow>
          Option.bind (strip_suffix RECORD_FILE_SUFFIX name) (\<lambda>digits.
          if length digits \<noteq> RECORD_FILE_DIGITS \<or> \<not> list_all is_ascii_digit digits then None
          else Option.bind (parse_u64 digits) (\<lambda>sequence.
            if sequence = 0 \<or> record_filename sequence \<noteq> name then None else Some sequence)))"

definition validate_ledger_root :: "'io LedgerIo \<Rightarrow> LedgerRoot \<Rightarrow> ('io, 'je) LocalCertificationLedgerError + LedgerDirectory" where
  "validate_ledger_root io root =
     (case io_inspect_root io of
        Some e \<Rightarrow> Inl (LeInspectLedgerRoot e)
      | None \<Rightarrow>
          (case root of
             RootMissing \<Rightarrow> Inl LeInspectMissingRoot
           | RootUnsafe \<Rightarrow> Inl LeUnsafeLedgerRoot
           | RootDirectory dir \<Rightarrow> Inr dir))"

definition canonical_record_bytes ::
    "'je LedgerCodec \<Rightarrow> LocalCertificationLedgerRecord \<Rightarrow> ('io, 'je) LocalCertificationLedgerError + bytes" where
  "canonical_record_bytes codec r =
     rbind (map_err LeCanonicalRecordUnavailable (lc_record_json codec r)) (\<lambda>bs.
     if MAX_LOCAL_CERTIFICATION_LEDGER_RECORD_BYTES < length bs then Inl (LeRecordTooLarge (lr_sequence r)) else Inr bs)"

definition write_record_create_new ::
    "'io LedgerIo \<Rightarrow> LedgerRoot \<Rightarrow> u64 \<Rightarrow> bytes \<Rightarrow> (('io, 'je) LocalCertificationLedgerError + unit) \<times> LedgerRoot" where
  "write_record_create_new io root sequence bs =
     (case validate_ledger_root io root of
        Inl e \<Rightarrow> (Inl e, root)
      | Inr dir \<Rightarrow>
          (let name = UnicodeName (record_filename sequence) in
           if name \<in> fst ` set dir then (Inl (LeRecordAlreadyExists sequence), root)
           else case io_create_record io sequence of
             Some e \<Rightarrow> (Inl (LeCreateRecord sequence e), root)
           | None \<Rightarrow>
               (case io_write_record io sequence of
                  Some (e, n) \<Rightarrow> (Inl (LeWriteRecord sequence e), RootDirectory (dir @ [(name, RegularFile (take n bs))]))
                | None \<Rightarrow>
                    ((case io_sync_record io sequence of Some e \<Rightarrow> Inl (LeSyncRecord sequence e) | None \<Rightarrow> Inr ()),
                     RootDirectory (dir @ [(name, RegularFile bs)])))))"

definition read_record_bytes ::
    "'io LedgerIo \<Rightarrow> LedgerDirectory \<Rightarrow> OsName \<Rightarrow> u64 \<Rightarrow> ('io, 'je) LocalCertificationLedgerError + bytes" where
  "read_record_bytes io dir name sequence =
     (case io_inspect_entry io name of
        Some e \<Rightarrow> Inl (LeInspectLedgerEntry name e)
      | None \<Rightarrow>
          (case map_of dir name of
             Some (RegularFile bs) \<Rightarrow>
               (if MAX_LOCAL_CERTIFICATION_LEDGER_RECORD_BYTES < length bs then Inl (LeRecordTooLarge sequence)
                else case io_open_record io sequence of
                  Some e \<Rightarrow> Inl (LeOpenRecord sequence e)
                | None \<Rightarrow>
                    (case io_read_record io sequence of
                       Some e \<Rightarrow> Inl (LeReadRecord sequence e)
                     | None \<Rightarrow> Inr bs))
           | _ \<Rightarrow> Inl (LeUnsafeLedgerEntry name)))"

subsection \<open>Replay\<close>

fun list_entries ::
    "'io LedgerIo \<Rightarrow> LedgerDirectory \<Rightarrow> (u64 \<times> OsName) list \<Rightarrow>
     ('io, 'je) LocalCertificationLedgerError + (u64 \<times> OsName) list" where
  "list_entries io [] entries = Inr entries"
| "list_entries io ((name, node) # dir) entries =
     (case io_read_entry io name of
        Some e \<Rightarrow> Inl (LeReadLedgerEntry e)
      | None \<Rightarrow>
          (case io_inspect_entry io name of
             Some e \<Rightarrow> Inl (LeInspectLedgerEntry name e)
           | None \<Rightarrow>
               if node = OtherNode then Inl (LeUnsafeLedgerEntry name)
               else rbind (ok_or (LeUnknownLedgerEntry name) (parse_record_filename name)) (\<lambda>sequence.
                 if MAX_LOCAL_CERTIFICATION_LEDGER_RECORDS \<le> length entries then Inl LeTooManyRecords
                 else list_entries io dir (entries @ [(sequence, name)]))))"

record ReplayState =
  rs_total_record_bytes :: usize
  rs_previous_record :: "LocalCertificationLedgerRecord option"
  rs_previous_digest :: "Sha256Digest option"
  rs_projection :: "LedgerProjection option"

definition replay_start :: ReplayState where
  "replay_start = \<lparr>rs_total_record_bytes = 0, rs_previous_record = None, rs_previous_digest = None, rs_projection = None\<rparr>"

definition replay_event ::
    "LedgerProjection option \<Rightarrow> LocalCertificationLedgerEvent \<Rightarrow> ('io, 'je) LocalCertificationLedgerError + LedgerProjection" where
  "replay_event projection event =
     (case projection of
        None \<Rightarrow> (case event of Genesis g \<Rightarrow> Inr (projection_from_genesis g) | _ \<Rightarrow> Inl LeMissingGenesis)
      | Some existing \<Rightarrow> projection_apply existing event)"

text \<open>The checks on the bytes of one record, and the record's effect.\<close>

definition replay_record ::
    "'je LedgerCodec \<Rightarrow> u64 \<Rightarrow> bytes \<Rightarrow> ReplayState \<Rightarrow> ('io, 'je) LocalCertificationLedgerError + ReplayState" where
  "replay_record codec sequence bs s =
     rbind (ok_or LeTotalRecordBytesExceeded (checked_add_usize (rs_total_record_bytes s) (length bs)))
       (\<lambda>total_record_bytes.
     if MAX_LOCAL_CERTIFICATION_LEDGER_BYTES < total_record_bytes then Inl LeTotalRecordBytesExceeded
     else
       rbind (map_err (LeInvalidRecord sequence)
         (ledger_record_from_json_slice (lc_sha256 codec) (lc_attestation_json codec) (lc_from_slice codec) (lc_custom codec) bs)) (\<lambda>r.
       rbind (map_err LeCanonicalRecordUnavailable (lc_record_json codec r)) (\<lambda>canonical.
       if bs \<noteq> canonical then Inl (LeNonCanonicalRecord sequence)
       else if lr_sequence r \<noteq> sequence then Inl (LeRecordSequenceMismatch sequence (lr_sequence r))
       else if lr_previous_record_digest r \<noteq> rs_previous_digest s then Inl (LePreviousRecordMismatch sequence)
       else
         rbind (replay_event (rs_projection s) (lr_event r)) (\<lambda>projection.
         rbind (map_err LeCanonicalRecordUnavailable (record_digest codec r)) (\<lambda>digest.
         Inr \<lparr>rs_total_record_bytes = total_record_bytes, rs_previous_record = Some r, rs_previous_digest = Some digest,
              rs_projection = Some projection\<rparr>)))))"

fun replay_loop ::
    "'je LedgerCodec \<Rightarrow> 'io LedgerIo \<Rightarrow> LedgerDirectory \<Rightarrow> usize \<Rightarrow> (u64 \<times> OsName) list \<Rightarrow> ReplayState \<Rightarrow>
     ('io, 'je) LocalCertificationLedgerError + ReplayState" where
  "replay_loop codec io dir index [] s = Inr s"
| "replay_loop codec io dir index ((sequence, name) # entries) s =
     rbind (ok_or LeTooManyRecords (if index < 2 ^ 64 then checked_add (of_nat index) 1 else None)) (\<lambda>expected_sequence.
     if sequence \<noteq> expected_sequence then Inl (LeSequenceGap expected_sequence sequence)
     else
       rbind (read_record_bytes io dir name sequence) (\<lambda>bs.
       rbind (replay_record codec sequence bs s) (\<lambda>s.
       replay_loop codec io dir (index + 1) entries s)))"

record LedgerState =
  ls_last_record :: LocalCertificationLedgerRecord
  ls_head_digest :: Sha256Digest
  ls_record_count :: usize
  ls_total_record_bytes :: usize
  ls_projection :: LedgerProjection

definition replay_directory ::
    "'je LedgerCodec \<Rightarrow> 'io LedgerIo \<Rightarrow> LedgerRoot \<Rightarrow> Sha256Digest option \<Rightarrow>
     ('io, 'je) LocalCertificationLedgerError + LedgerState" where
  "replay_directory codec io root expected_head =
     rbind (validate_ledger_root io root) (\<lambda>dir.
     case io_read_dir io of
       Some e \<Rightarrow> Inl (LeReadLedgerDirectory e)
     | None \<Rightarrow>
         rbind (list_entries io dir []) (\<lambda>entries.
         let entries = sort_key fst entries in
         if entries = [] then Inl LeMissingGenesis
         else
           rbind (replay_loop codec io dir 0 entries replay_start) (\<lambda>s.
           rbind (ok_or LeMissingGenesis (rs_previous_digest s)) (\<lambda>head_digest.
           if (case expected_head of Some expected \<Rightarrow> expected \<noteq> head_digest | None \<Rightarrow> False)
           then Inl (LeHeadMismatch (the expected_head) head_digest)
           else
             rbind (ok_or LeMissingGenesis (rs_previous_record s)) (\<lambda>last_record.
             rbind (ok_or LeMissingGenesis (rs_projection s)) (\<lambda>projection.
             Inr \<lparr>ls_last_record = last_record, ls_head_digest = head_digest,
                  ls_record_count = unat (lr_sequence last_record),
                  ls_total_record_bytes = rs_total_record_bytes s, ls_projection = projection\<rparr>))))))"

subsection \<open>Creating, opening and appending\<close>

record LocalCertificationLedger =
  ll_poisoned :: bool
  ll_state :: LedgerState

record LocalCertificationLedgerAppendReceipt =
  ar_sequence :: u64
  ar_record_digest :: Sha256Digest
  ar_record_count :: usize
  ar_total_record_bytes :: usize

definition ledger_create ::
    "'je LedgerCodec \<Rightarrow> 'io LedgerIo \<Rightarrow> LedgerRoot \<Rightarrow> CertificationControlPolicy \<Rightarrow>
     LocalCertificationRunAttestation \<Rightarrow>
     (('io, 'je) LocalCertificationLedgerError + LocalCertificationLedger) \<times> LedgerRoot" where
  "ledger_create codec io root policy attestation =
     (case map_err LeContract (rbind (ledger_genesis_new (lc_sha256 codec) (lc_attestation_json codec) policy attestation)
         (ledger_record_genesis (lc_sha256 codec) (lc_attestation_json codec))) of
        Inl e \<Rightarrow> (Inl e, root)
      | Inr r \<Rightarrow>
          (if root \<noteq> RootMissing then (Inl LeLedgerRootAlreadyExists, root)
           else case io_create_dir io of
             Some e \<Rightarrow> (Inl (LeCreateLedgerRoot e), root)
           | None \<Rightarrow>
               (case rbind (validate_ledger_root io (RootDirectory [])) (\<lambda>_. canonical_record_bytes codec r) of
                  Inl e \<Rightarrow> (Inl e, RootDirectory [])
                | Inr bs \<Rightarrow>
                    (let (written, root) = write_record_create_new io (RootDirectory []) (lr_sequence r) bs in
                     (rbind written (\<lambda>_.
                      rbind (map_err LeCanonicalRecordUnavailable (record_digest codec r)) (\<lambda>head.
                      rbind (replay_directory codec io root (Some head))
                        (\<lambda>state. Inr \<lparr>ll_poisoned = False, ll_state = state\<rparr>))), root)))))"

definition ledger_open ::
    "'je LedgerCodec \<Rightarrow> 'io LedgerIo \<Rightarrow> LedgerRoot \<Rightarrow> Sha256Digest \<Rightarrow>
     ('io, 'je) LocalCertificationLedgerError + LocalCertificationLedger" where
  "ledger_open codec io root expected_head =
     rbind (replay_directory codec io root (Some expected_head)) (\<lambda>state.
     Inr \<lparr>ll_poisoned = False, ll_state = state\<rparr>)"

text \<open>The decisions of an append before its write: the record and its bytes, the new totals and projection.\<close>

definition append_prepare ::
    "'je LedgerCodec \<Rightarrow> 'io LedgerIo \<Rightarrow> LedgerRoot \<Rightarrow> LocalCertificationLedger \<Rightarrow> LocalCertificationLedgerEvent \<Rightarrow>
     ('io, 'je) LocalCertificationLedgerError + LocalCertificationLedgerRecord \<times> bytes \<times> usize \<times> LedgerProjection" where
  "append_prepare codec io root ledger event =
     (if ll_poisoned ledger then Inl LeStatePoisoned
      else
        let state = ll_state ledger in
        rbind (replay_directory codec io root None) (\<lambda>observed.
        if ls_head_digest observed \<noteq> ls_head_digest state \<or> ls_record_count observed \<noteq> ls_record_count state \<or>
           ls_total_record_bytes observed \<noteq> ls_total_record_bytes state
        then Inl (LeStaleWriter (ls_head_digest state) (ls_head_digest observed))
        else if MAX_LOCAL_CERTIFICATION_LEDGER_RECORDS \<le> ls_record_count state then Inl LeTooManyRecords
        else
          rbind (projection_apply (ls_projection state) event) (\<lambda>projection.
          rbind (map_err LeContract
            (ledger_record_next (lc_sha256 codec) (lc_attestation_json codec) (lc_record_json codec) (ls_last_record state) event)) (\<lambda>r.
          rbind (canonical_record_bytes codec r) (\<lambda>bs.
          rbind (ok_or LeTotalRecordBytesExceeded (checked_add_usize (ls_total_record_bytes state) (length bs)))
            (\<lambda>total_record_bytes.
          if MAX_LOCAL_CERTIFICATION_LEDGER_BYTES < total_record_bytes then Inl LeTotalRecordBytesExceeded
          else Inr (r, bs, total_record_bytes, projection)))))))"

text \<open>What an append does once its record is on disk.\<close>

definition append_commit ::
    "'je LedgerCodec \<Rightarrow> LocalCertificationLedger \<Rightarrow>
     LocalCertificationLedgerRecord \<Rightarrow> usize \<Rightarrow> LedgerProjection \<Rightarrow>
     ('io, 'je) LocalCertificationLedgerError + LocalCertificationLedgerAppendReceipt \<times> LocalCertificationLedger" where
  "append_commit codec ledger r total_record_bytes projection =
     rbind (map_err LeCanonicalRecordUnavailable (record_digest codec r)) (\<lambda>head_digest.
     rbind (ok_or LeTooManyRecords (checked_add_usize (ls_record_count (ll_state ledger)) 1)) (\<lambda>record_count.
     Inr (\<lparr>ar_sequence = lr_sequence r, ar_record_digest = head_digest, ar_record_count = record_count,
           ar_total_record_bytes = total_record_bytes\<rparr>,
          ledger\<lparr>ll_state := \<lparr>ls_last_record = r, ls_head_digest = head_digest, ls_record_count = record_count,
            ls_total_record_bytes = total_record_bytes, ls_projection = projection\<rparr>\<rparr>)))"

definition append_event ::
    "'je LedgerCodec \<Rightarrow> 'io LedgerIo \<Rightarrow> (LedgerRoot \<Rightarrow> LedgerRoot) \<Rightarrow> 'io LedgerIo \<Rightarrow> LedgerRoot \<Rightarrow>
     LocalCertificationLedger \<Rightarrow> LocalCertificationLedgerEvent \<Rightarrow>
     (('io, 'je) LocalCertificationLedgerError + LocalCertificationLedgerAppendReceipt) \<times>
       LocalCertificationLedger \<times> LedgerRoot" where
  "append_event codec io between io' root ledger event =
     (case append_prepare codec io root ledger event of
        Inl e \<Rightarrow> (Inl e, ledger, root)
      | Inr (r, bs, total_record_bytes, projection) \<Rightarrow>
          (let (written, root) = write_record_create_new io' (between root) (lr_sequence r) bs in
           case rbind written (\<lambda>_. append_commit codec ledger r total_record_bytes projection) of
             Inl e \<Rightarrow> (Inl e, ledger, root)
           | Inr (receipt, ledger) \<Rightarrow> (Inr receipt, ledger, root)))"

datatype LedgerOp =
    AppendPublication LocalCertificationRunAttestation
  | ReplaceControlPolicy CertificationControlPolicy
  | RevokeCertification Sha256Digest
  | RevokeRunner Sha256Digest

text \<open>\<open>append_publication\<close>, \<open>replace_policy\<close>, \<open>revoke_certification\<close>, \<open>revoke_runner\<close>.\<close>

fun ledger_op_event ::
    "'je LedgerCodec \<Rightarrow> LedgerOp \<Rightarrow>
     ('io, 'je) LocalCertificationLedgerError + LocalCertificationLedgerEvent" where
  "ledger_op_event codec (AppendPublication attestation) =
     rbind (map_err LeContract (ledger_publication_new (lc_sha256 codec) (lc_attestation_json codec) attestation)) (\<lambda>p. Inr (Publication p))"
| "ledger_op_event codec (ReplaceControlPolicy policy) = Inr (PolicyReplacement policy)"
| "ledger_op_event codec (RevokeCertification d) = Inr (CertificationRevocation d)"
| "ledger_op_event codec (RevokeRunner d) = Inr (RunnerRevocation d)"

definition ledger_operation ::
    "'je LedgerCodec \<Rightarrow> 'io LedgerIo \<Rightarrow> (LedgerRoot \<Rightarrow> LedgerRoot) \<Rightarrow> 'io LedgerIo \<Rightarrow> LedgerRoot \<Rightarrow>
     LocalCertificationLedger \<Rightarrow> LedgerOp \<Rightarrow>
     (('io, 'je) LocalCertificationLedgerError + LocalCertificationLedgerAppendReceipt) \<times>
       LocalCertificationLedger \<times> LedgerRoot" where
  "ledger_operation codec io between io' root ledger operation =
     (case ledger_op_event codec operation of
        Inl e \<Rightarrow> (Inl e, ledger, root)
      | Inr event \<Rightarrow>
          append_event codec io between io' root ledger event)"

text \<open>\<open>head_digest\<close>, \<open>record_count\<close>, \<open>total_record_bytes\<close> and \<open>control_policy\<close>.\<close>

definition ledger_read :: "(LedgerState \<Rightarrow> 'a) \<Rightarrow> LocalCertificationLedger \<Rightarrow> ('io, 'je) LocalCertificationLedgerError + 'a" where
  "ledger_read field ledger = (if ll_poisoned ledger then Inl LeStatePoisoned else Inr (field (ll_state ledger)))"

definition ledger_head_digest :: "LocalCertificationLedger \<Rightarrow> ('io, 'je) LocalCertificationLedgerError + Sha256Digest" where
  "ledger_head_digest = ledger_read ls_head_digest"
definition ledger_record_count :: "LocalCertificationLedger \<Rightarrow> ('io, 'je) LocalCertificationLedgerError + usize" where
  "ledger_record_count = ledger_read ls_record_count"
definition ledger_total_record_bytes :: "LocalCertificationLedger \<Rightarrow> ('io, 'je) LocalCertificationLedgerError + usize" where
  "ledger_total_record_bytes = ledger_read ls_total_record_bytes"
definition ledger_control_policy ::
    "LocalCertificationLedger \<Rightarrow> ('io, 'je) LocalCertificationLedgerError + CertificationControlPolicy" where
  "ledger_control_policy = ledger_read (\<lambda>s. pj_policy (ls_projection s))"

end
