(* ===== verification/Certification_Replay.thy ===== *)
theory Certification_Replay
  imports Certification_Ledger "HOL-Library.Multiset"
begin

section \<open>What a ledger directory replays to\<close>

text \<open>
  A directory replays exactly when it is, in whatever order it is enumerated, the record files
  \<open>1, 2, 3, \<dots>\<close> of a list of encodings that are accepted one after the other.
\<close>

type_synonym ('io, 'je, 'a) ledger_result = "('io, 'je) LocalCertificationLedgerError + 'a"

subsection \<open>File names\<close>

lemma decimal_char_value: "of_char (decimal_char d) = 48 + d mod (10 :: nat)"
proof -
  have "48 + d mod 10 < 256"
    using mod_less_divisor [of 10 d] by linarith
  then show ?thesis
    by (simp add: decimal_char_def)
qed

lemma padded_decimal_Suc: "padded_decimal (Suc w) n = decimal_char (n div 10 ^ w) # padded_decimal w n"
  unfolding padded_decimal_def upt_conv_Cons [OF zero_less_Suc] list.map
  by (simp add: map_Suc_upt [symmetric] comp_def del: upt_Suc)

lemma padded_decimal_value: "decimal_value v (padded_decimal w n) = v * 10 ^ w + n mod 10 ^ w"
proof (induction w arbitrary: v)
  case 0
  then show ?case by (simp add: padded_decimal_def)
next
  case (Suc w)
  have "n mod 10 ^ Suc w = 10 ^ w * (n div 10 ^ w mod 10) + n mod 10 ^ w"
    using mod_mult2_eq [of n "10 ^ w" 10] by (simp add: mult.commute)
  then show ?case
    by (simp add: padded_decimal_Suc Suc decimal_char_value algebra_simps)
qed

lemma padded_decimal_digits: "list_all is_ascii_digit (padded_decimal w n)"
proof -
  have "is_ascii_digit (decimal_char d)" for d
    unfolding is_ascii_digit_def decimal_char_value using mod_less_divisor [of 10 d] by linarith
  then show ?thesis
    by (simp add: padded_decimal_def list_all_iff)
qed

lemma u64_lt: "unat (k :: u64) < 2 ^ 64"
proof -
  have "unat k < 2 ^ LENGTH(64)"
    by (rule unsigned_less)
  then show ?thesis by simp
qed

lemma unat_u64: "k < 2 ^ 64 \<Longrightarrow> unat (of_nat k :: u64) = k"
  by (simp add: unat_of_nat)

lemma parse_record_filename_Some:
  "parse_record_filename name = Some k \<longleftrightarrow> k \<noteq> 0 \<and> name = UnicodeName (record_filename k)"
proof
  assume "parse_record_filename name = Some k"
  then show "k \<noteq> 0 \<and> name = UnicodeName (record_filename k)"
    by (auto simp: parse_record_filename_def bind_eq_Some_conv split: OsName.splits if_splits)
next
  assume k: "k \<noteq> 0 \<and> name = UnicodeName (record_filename k)"
  have "unat k < 10 ^ 20"
    using u64_lt [of k] by simp
  then have "decimal_value 0 (padded_decimal 20 (unat k)) = unat k"
    by (simp add: padded_decimal_value)
  then have p: "parse_u64 (padded_decimal 20 (unat k)) = Some k"
    using u64_lt [of k] by (simp add: parse_u64_def)
  have s: "strip_suffix RECORD_FILE_SUFFIX (record_filename k) = Some (padded_decimal 20 (unat k))"
    by (simp add: strip_suffix_def record_filename_def)
  have l: "length (padded_decimal 20 (unat k)) = RECORD_FILE_DIGITS"
    by (simp add: padded_decimal_def RECORD_FILE_DIGITS_def)
  from k show "parse_record_filename name = Some k"
    by (simp add: parse_record_filename_def s l padded_decimal_digits p)
qed

lemma record_filename_inj: "record_filename a = record_filename b \<longleftrightarrow> a = b"
proof
  assume "record_filename a = record_filename b"
  then have "padded_decimal 20 (unat a) = padded_decimal 20 (unat b)"
    by (simp add: record_filename_def)
  then have "unat a mod 10 ^ 20 = unat b mod 10 ^ 20"
    using padded_decimal_value [of 0 20 "unat a"] padded_decimal_value [of 0 20 "unat b"] by simp
  then show "a = b"
    using u64_lt [of a] u64_lt [of b] by (simp add: word_unat_eq_iff)
qed simp

subsection \<open>Enumeration\<close>

abbreviation "record_name k \<equiv> UnicodeName (record_filename (of_nat k))"

fun stored_from :: "nat \<Rightarrow> bytes list \<Rightarrow> LedgerDirectory" where
  "stored_from k [] = []"
| "stored_from k (bs # bss) = (record_name k, RegularFile bs) # stored_from (Suc k) bss"

definition entry_ok :: "OsName \<times> LedgerNode \<Rightarrow> bool" where
  "entry_ok e \<longleftrightarrow> snd e \<noteq> OtherNode \<and> parse_record_filename (fst e) \<noteq> None"

definition entry_key :: "OsName \<times> LedgerNode \<Rightarrow> u64" where
  "entry_key e = the (parse_record_filename (fst e))"

lemma list_entries_no_faults:
  fixes io :: "'io LedgerIo"
  shows "(list_entries io dir acc :: ('io, 'je, (u64 \<times> OsName) list) ledger_result) = Inr es \<Longrightarrow>
    (list_entries (no_faults :: 'io LedgerIo) dir acc :: ('io, 'je, (u64 \<times> OsName) list) ledger_result) = Inr es"
  by (induction io dir acc rule: list_entries.induct) (auto simp: no_faults_def rbind_Inr_iff split: option.splits if_splits)

lemma list_entries_Inr:
  "length acc \<le> MAX_LOCAL_CERTIFICATION_LEDGER_RECORDS \<Longrightarrow>
   list_entries no_faults dir acc = Inr es \<longleftrightarrow>
     list_all entry_ok dir \<and> length acc + length dir \<le> MAX_LOCAL_CERTIFICATION_LEDGER_RECORDS \<and>
     es = acc @ map (\<lambda>e. (entry_key e, fst e)) dir"
proof (induction dir arbitrary: acc)
  case (Cons e dir)
  obtain name node where e: "e = (name, node)" by (cases e)
  show ?case
  proof (cases "parse_record_filename name")
    case None
    then show ?thesis by (auto simp: e no_faults_def entry_ok_def)
  next
    case (Some k)
    show ?thesis
    proof (cases "length acc < MAX_LOCAL_CERTIFICATION_LEDGER_RECORDS")
      case True
      then show ?thesis
        using Some Cons.IH [of "acc @ [(k, name)]"]
        by (auto simp: e no_faults_def entry_ok_def entry_key_def)
    next
      case False
      then show ?thesis
        using Cons.prems Some by (auto simp: e no_faults_def entry_ok_def)
    qed
  qed
qed auto

lemma sort_key_map: "sort_key f (map g xs) = map g (sort_key (\<lambda>x. f (g x)) xs)"
proof (induction xs)
  case (Cons x xs)
  have "insort_key f (g x) (map g ys) = map g (insort_key (\<lambda>x. f (g x)) x ys)" for ys
    by (induction ys) auto
  then show ?case
    using Cons by simp
qed simp

subsection \<open>Replay of a list of encodings\<close>

fun replay_bytes ::
    "'je LedgerCodec \<Rightarrow> nat \<Rightarrow> bytes list \<Rightarrow> ReplayState \<Rightarrow> ('io, 'je) LocalCertificationLedgerError + ReplayState" where
  "replay_bytes codec k [] s = Inr s"
| "replay_bytes codec k (bs # bss) s =
     rbind (replay_record codec (of_nat k) bs s) (\<lambda>s. replay_bytes codec (Suc k) bss s)"

abbreviation "record_fits bs \<equiv> length bs \<le> MAX_LOCAL_CERTIFICATION_LEDGER_RECORD_BYTES"

definition state_of_replay :: "ReplayState \<Rightarrow> LedgerState" where
  "state_of_replay s =
     \<lparr>ls_last_record = the (rs_previous_record s), ls_head_digest = the (rs_previous_digest s),
      ls_record_count = unat (lr_sequence (the (rs_previous_record s))),
      ls_total_record_bytes = rs_total_record_bytes s, ls_projection = the (rs_projection s)\<rparr>"

lemma length_stored [simp]: "length (stored_from k bss) = length bss"
  by (induction k bss rule: stored_from.induct) auto

lemma stored_append: "stored_from k (bss @ bss') = stored_from k bss @ stored_from (k + length bss) bss'"
  by (induction k bss rule: stored_from.induct) auto

lemma of_nat_u64_eq: "a < 2 ^ 64 \<Longrightarrow> b < 2 ^ 64 \<Longrightarrow> (of_nat a :: u64) = of_nat b \<longleftrightarrow> a = b"
  using unat_u64 by metis

lemma read_record_bytes_no_faults:
  fixes io :: "'io LedgerIo"
  shows "(read_record_bytes io dir name k :: ('io, 'je, bytes) ledger_result) = Inr bs \<Longrightarrow>
    (read_record_bytes (no_faults :: 'io LedgerIo) dir name k :: ('io, 'je, bytes) ledger_result) = Inr bs"
  by (auto simp: read_record_bytes_def no_faults_def split: option.splits LedgerNode.splits if_splits)

lemma expected_sequence:
  "(if k < 2 ^ 64 then checked_add (of_nat k :: u64) 1 else None) =
     (if Suc k < 2 ^ 64 then Some (of_nat (Suc k)) else None)"
proof (cases "k < 2 ^ 64")
  case True
  then show ?thesis
    using unat_u64 [OF True] by (simp add: checked_add_def)
qed simp

lemma replay_loop_Cons:
  fixes io :: "'io LedgerIo" and codec :: "'je LedgerCodec"
  shows "replay_loop codec io dir k ((q, name) # es) s = Inr s' \<longleftrightarrow>
     Suc k < 2 ^ 64 \<and> q = of_nat (Suc k) \<and>
     (\<exists>bs t. (read_record_bytes io dir name q :: ('io, 'je, bytes) ledger_result) = Inr bs \<and>
       (replay_record codec q bs s :: ('io, 'je, ReplayState) ledger_result) = Inr t \<and>
       replay_loop codec io dir (Suc k) es t = Inr s')"
proof -
  have "replay_loop codec io dir k ((q, name) # es) s = Inr s' \<longleftrightarrow>
      (\<exists>e. (if Suc k < 2 ^ 64 then Some (of_nat (Suc k)) else None) = Some e \<and> q = e \<and>
        (\<exists>bs. (read_record_bytes io dir name q :: ('io, 'je, bytes) ledger_result) = Inr bs \<and>
          (\<exists>t. (replay_record codec q bs s :: ('io, 'je, ReplayState) ledger_result) = Inr t \<and>
            replay_loop codec io dir (Suc k) es t = Inr s')))"
    unfolding replay_loop.simps expected_sequence rbind_Inr_iff ok_or_Inr_iff if_Inl_Inr not_not Suc_eq_plus1 ..
  then show ?thesis
    by (simp only: split: if_split) blast
qed

lemma replay_loop_no_faults:
  fixes io :: "'io LedgerIo" and codec :: "'je LedgerCodec"
  shows "replay_loop codec io dir k es s = Inr s' \<Longrightarrow>
    replay_loop codec (no_faults :: 'io LedgerIo) dir k es s = Inr s'"
proof (induction es arbitrary: k s)
  case (Cons e es)
  obtain q name where e: "e = (q, name)" by (cases e)
  have "(read_record_bytes io dir name q :: ('io, 'je, bytes) ledger_result) = Inr bs \<Longrightarrow>
      (read_record_bytes (no_faults :: 'io LedgerIo) dir name q :: ('io, 'je, bytes) ledger_result) = Inr bs" for bs
    by (rule read_record_bytes_no_faults)
  then show ?case
    using Cons.prems Cons.IH unfolding e replay_loop_Cons by blast
qed simp

lemma read_record_bytes_Inr:
  assumes "distinct (map fst dir)" "(name, node) \<in> set dir"
  shows "read_record_bytes no_faults dir name k = Inr bs \<longleftrightarrow> node = RegularFile bs \<and> record_fits bs"
proof -
  have "map_of dir name = Some node"
    using assms by simp
  then show ?thesis
    by (cases node) (auto simp: read_record_bytes_def no_faults_def)
qed

lemma replay_loop_Inr:
  assumes "distinct (map fst dir)" "set ds \<subseteq> set dir" "list_all entry_ok ds" "k + length ds < 2 ^ 64"
  shows "replay_loop codec (no_faults :: 'io LedgerIo) dir k (map (\<lambda>e. (entry_key e, fst e)) ds) s = Inr s' \<longleftrightarrow>
    (\<exists>bss. ds = stored_from (Suc k) bss \<and> list_all record_fits bss \<and>
      (replay_bytes codec (Suc k) bss s :: ('io, 'je, ReplayState) ledger_result) = Inr s')"
  using assms(2-)
proof (induction ds arbitrary: k s)
  case Nil
  have "[] = stored_from (Suc k) bss \<longleftrightarrow> bss = []" for bss
    by (cases bss) auto
  then show ?case by simp
next
  case (Cons d ds)
  obtain name node where d: "d = (name, node)" by (cases d)
  have key: "entry_key d = of_nat (Suc k) \<longleftrightarrow> name = record_name (Suc k)"
  proof -
    have "parse_record_filename name = Some (entry_key d)"
      using Cons.prems(2) by (auto simp: d entry_ok_def entry_key_def)
    then have "name = UnicodeName (record_filename (entry_key d))"
      unfolding parse_record_filename_Some by blast
    then show ?thesis
      by (simp only: OsName.inject record_filename_inj)
  qed
  have read: "(read_record_bytes (no_faults :: 'io LedgerIo) dir name j ::
      ('io, 'je, bytes) ledger_result) = Inr bs \<longleftrightarrow> node = RegularFile bs \<and> record_fits bs" for bs j
    using read_record_bytes_Inr [OF assms(1), of name node] Cons.prems(1) by (simp add: d)
  have ih: "replay_loop codec (no_faults :: 'io LedgerIo) dir (Suc k) (map (\<lambda>e. (entry_key e, fst e)) ds) t = Inr s' \<longleftrightarrow>
      (\<exists>bss. ds = stored_from (Suc (Suc k)) bss \<and> list_all record_fits bss \<and>
        (replay_bytes codec (Suc (Suc k)) bss t :: ('io, 'je, ReplayState) ledger_result) = Inr s')" for t
    using Cons.IH [of "Suc k" t] Cons.prems by simp
  have cons: "(\<exists>bss. d # ds = stored_from (Suc k) bss \<and> P bss) \<longleftrightarrow>
      (\<exists>bs bss. name = record_name (Suc k) \<and> node = RegularFile bs \<and> ds = stored_from (Suc (Suc k)) bss \<and> P (bs # bss))" for P
  proof
    assume "\<exists>bss. d # ds = stored_from (Suc k) bss \<and> P bss"
    then obtain bss where "d # ds = stored_from (Suc k) bss" "P bss" by blast
    then show "\<exists>bs bss. name = record_name (Suc k) \<and> node = RegularFile bs \<and> ds = stored_from (Suc (Suc k)) bss \<and> P (bs # bss)"
      by (cases bss) (auto simp: d)
  next
    assume "\<exists>bs bss. name = record_name (Suc k) \<and> node = RegularFile bs \<and> ds = stored_from (Suc (Suc k)) bss \<and> P (bs # bss)"
    then obtain bs bss where "name = record_name (Suc k)" "node = RegularFile bs" "ds = stored_from (Suc (Suc k)) bss"
      "P (bs # bss)" by blast
    then show "\<exists>bss. d # ds = stored_from (Suc k) bss \<and> P bss"
      by (intro exI [of _ "bs # bss"]) (simp add: d)
  qed
  have step: "replay_loop codec (no_faults :: 'io LedgerIo) dir k (map (\<lambda>e. (entry_key e, fst e)) (d # ds)) s = Inr s' \<longleftrightarrow>
      entry_key d = of_nat (Suc k) \<and>
      (\<exists>bs. node = RegularFile bs \<and> record_fits bs \<and> (\<exists>t.
        (replay_record codec (of_nat (Suc k)) bs s :: ('io, 'je, ReplayState) ledger_result) = Inr t \<and>
        replay_loop codec (no_faults :: 'io LedgerIo) dir (Suc k) (map (\<lambda>e. (entry_key e, fst e)) ds) t = Inr s'))"
    using Cons.prems(3) unfolding list.map replay_loop_Cons d fst_conv read by auto
  show ?case
    unfolding step cons key ih by (auto simp: rbind_Inr_iff)
qed

subsection \<open>Replay of a directory\<close>

lemma stored_key:
  assumes "0 < k" "k < 2 ^ 64"
  shows "parse_record_filename (record_name k) = Some (of_nat k)"
proof -
  have "unat (of_nat k :: u64) = k"
    using assms(2) by (rule unat_u64)
  then have "(of_nat k :: u64) \<noteq> 0"
    using assms(1) by (metis less_irrefl unsigned_0)
  then show ?thesis
    by (simp add: parse_record_filename_Some)
qed

lemma stored_ok: "0 < k \<Longrightarrow> k + length bss \<le> 2 ^ 64 \<Longrightarrow> list_all entry_ok (stored_from k bss)"
  by (induction k bss rule: stored_from.induct) (simp_all add: entry_ok_def stored_key)

lemma stored_keys:
  "0 < k \<Longrightarrow> k + length bss \<le> 2 ^ 64 \<Longrightarrow> map entry_key (stored_from k bss) = map of_nat [k..<k + length bss]"
  by (induction k bss rule: stored_from.induct) (simp_all add: entry_key_def stored_key upt_conv_Cons del: upt_Suc)

lemma stored_names: "map fst (stored_from k bss) = map record_name [k..<k + length bss]"
  by (induction k bss rule: stored_from.induct) (simp_all add: upt_conv_Cons del: upt_Suc)

lemma stored_sorted:
  assumes "0 < k" "k + length bss \<le> 2 ^ 64"
  shows "sorted_wrt (<) (map entry_key (stored_from k bss))"
proof -
  have "sorted_wrt (<) (map (of_nat :: nat \<Rightarrow> u64) [k..<k + length bss])"
    unfolding sorted_wrt_map
  proof (rule sorted_wrt_mono_rel [OF _ sorted_wrt_upt])
    fix x y assume "x \<in> set [k..<k + length bss]" "y \<in> set [k..<k + length bss]" "x < y"
    then show "(of_nat x :: u64) < of_nat y"
      using assms(2) by (simp add: word_less_nat_alt unat_u64)
  qed
  then show ?thesis
    unfolding stored_keys [OF assms] .
qed

lemma stored_distinct:
  assumes "0 < k" "k + length bss \<le> 2 ^ 64"
  shows "distinct (map fst (stored_from k bss))"
proof -
  have "inj_on (of_nat :: nat \<Rightarrow> u64) {k..<k + length bss}"
    using assms(2) by (auto intro!: inj_onI simp: of_nat_u64_eq)
  then have "inj_on record_name (set [k..<k + length bss])"
    by (simp add: inj_on_def record_filename_inj)
  then show ?thesis
    unfolding stored_names distinct_map by simp
qed

lemma sort_stored:
  assumes "mset dir = mset (stored_from 1 bss)" "length bss < 2 ^ 64"
  shows "sort_key entry_key dir = stored_from 1 bss"
proof (rule map_sorted_distinct_set_unique [of entry_key])
  have s: "sorted_wrt (<) (map entry_key (stored_from 1 bss))"
    using stored_sorted [of 1 bss] assms(2) by simp
  then show sd: "sorted (map entry_key (stored_from 1 bss))" "distinct (map entry_key (stored_from 1 bss))"
    by (simp_all add: strict_sorted_iff)
  show set: "set (sort_key entry_key dir) = set (stored_from 1 bss)"
    using mset_eq_setD [OF assms(1)] by simp
  then show "inj_on entry_key (set (sort_key entry_key dir) \<union> set (stored_from 1 bss))"
    using sd(2) by (simp add: distinct_map)
  have "mset (map entry_key dir) = mset (map entry_key (stored_from 1 bss))"
    using assms(1) by simp
  then have "distinct (map entry_key dir)"
    using sd(2) mset_eq_imp_distinct_iff by blast
  then show "distinct (map entry_key (sort_key entry_key dir))"
    using mset_eq_imp_distinct_iff [of "map entry_key (sort_key entry_key dir)" "map entry_key dir"] by simp
qed simp

text \<open>A directory of ledger records has no two entries of one name.\<close>

lemma replay_directory_Inr:
  fixes codec :: "'je LedgerCodec"
  assumes "distinct (map fst dir)"
  shows "replay_directory codec (no_faults :: 'io LedgerIo) (RootDirectory dir) None = Inr st \<longleftrightarrow>
    (\<exists>bss s. mset dir = mset (stored_from 1 bss) \<and> bss \<noteq> [] \<and> length bss \<le> MAX_LOCAL_CERTIFICATION_LEDGER_RECORDS \<and>
      list_all record_fits bss \<and> (replay_bytes codec 1 bss replay_start :: ('io, 'je, ReplayState) ledger_result) = Inr s \<and>
      rs_previous_record s \<noteq> None \<and> rs_previous_digest s \<noteq> None \<and> rs_projection s \<noteq> None \<and> st = state_of_replay s)"
    (is "?l \<longleftrightarrow> ?r")
proof -
  let ?e = "\<lambda>e. (entry_key e, fst e)"
  have small: "MAX_LOCAL_CERTIFICATION_LEDGER_RECORDS < 2 ^ 64"
    by (simp add: MAX_LOCAL_CERTIFICATION_LEDGER_RECORDS_def)
  have entries: "(list_entries (no_faults :: 'io LedgerIo) dir [] :: ('io, 'je, (u64 \<times> OsName) list) ledger_result) = Inr es \<longleftrightarrow>
      list_all entry_ok dir \<and> length dir \<le> MAX_LOCAL_CERTIFICATION_LEDGER_RECORDS \<and> es = map ?e dir" for es
    using list_entries_Inr [of "[]" dir es] by simp
  have sorted: "sort_key fst (map ?e dir) = map ?e (sort_key entry_key dir)"
    by (simp add: sort_key_map)
  have loop: "replay_loop codec (no_faults :: 'io LedgerIo) dir 0 (map ?e (sort_key entry_key dir)) replay_start = Inr s \<longleftrightarrow>
      (\<exists>bss. sort_key entry_key dir = stored_from 1 bss \<and> list_all record_fits bss \<and>
        (replay_bytes codec 1 bss replay_start :: ('io, 'je, ReplayState) ledger_result) = Inr s)"
    if "list_all entry_ok dir" "length dir \<le> MAX_LOCAL_CERTIFICATION_LEDGER_RECORDS" for s
    using replay_loop_Inr [OF assms, of "sort_key entry_key dir" 0 codec replay_start s] that small
    by (simp add: list_all_iff)
  have empty: "sort_key entry_key dir = [] \<longleftrightarrow> dir = []"
    by (metis length_0_conv length_sort)
  have unfolded: "?l \<longleftrightarrow> list_all entry_ok dir \<and> length dir \<le> MAX_LOCAL_CERTIFICATION_LEDGER_RECORDS \<and> dir \<noteq> [] \<and>
      (\<exists>s. replay_loop codec (no_faults :: 'io LedgerIo) dir 0 (map ?e (sort_key entry_key dir)) replay_start = Inr s \<and>
        rs_previous_record s \<noteq> None \<and> rs_previous_digest s \<noteq> None \<and> rs_projection s \<noteq> None \<and> st = state_of_replay s)"
    unfolding replay_directory_def validate_ledger_root_def
    by (auto simp: no_faults_def [THEN arg_cong, of io_inspect_root] no_faults_def [THEN arg_cong, of io_read_dir]
        rbind_Inr_iff entries sorted empty state_of_replay_def)
  show ?thesis
  proof
    assume ?l
    then obtain s bss where "list_all entry_ok dir" "length dir \<le> MAX_LOCAL_CERTIFICATION_LEDGER_RECORDS" "dir \<noteq> []"
        "sort_key entry_key dir = stored_from 1 bss" "list_all record_fits bss"
        "(replay_bytes codec 1 bss replay_start :: ('io, 'je, ReplayState) ledger_result) = Inr s"
        "rs_previous_record s \<noteq> None \<and> rs_previous_digest s \<noteq> None \<and> rs_projection s \<noteq> None \<and> st = state_of_replay s"
      unfolding unfolded using loop by blast
    moreover from this(4) have "mset dir = mset (stored_from 1 bss)" "length dir = length bss"
      by (metis mset_sort, metis length_sort length_stored)
    ultimately show ?r
      by (intro exI [of _ bss] exI [of _ s]) auto
  next
    assume ?r
    then obtain bss s where r: "mset dir = mset (stored_from 1 bss)" "bss \<noteq> []"
        "length bss \<le> MAX_LOCAL_CERTIFICATION_LEDGER_RECORDS" "list_all record_fits bss"
        "(replay_bytes codec 1 bss replay_start :: ('io, 'je, ReplayState) ledger_result) = Inr s"
        "rs_previous_record s \<noteq> None \<and> rs_previous_digest s \<noteq> None \<and> rs_projection s \<noteq> None \<and> st = state_of_replay s"
      by blast
    have "sort_key entry_key dir = stored_from 1 bss"
      using sort_stored [OF r(1)] r(3) small by simp
    moreover have "length dir = length bss" "set dir = set (stored_from 1 bss)"
      using mset_eq_length [OF r(1)] mset_eq_setD [OF r(1)] by simp_all
    moreover have "list_all entry_ok (stored_from 1 bss)"
      using stored_ok [of 1 bss] r(3) small by simp
    ultimately show ?l
      unfolding unfolded using r(2-) loop [of s] by (auto simp: list_all_iff)
  qed
qed

end
