(* ===== verification/Certification_History.thy ===== *)
theory Certification_History
  imports Certification_Replay
begin

section \<open>What an accepted ledger says\<close>

text \<open>
  The history a replayed directory holds: which policy was in force at each publication, that no
  freshness challenge was used twice, and that the head identity determines the whole directory.
\<close>

subsection \<open>Histories\<close>

fun apply_all ::
    "LedgerProjection \<Rightarrow> LocalCertificationLedgerEvent list \<Rightarrow> ('io, 'je) LocalCertificationLedgerError + LedgerProjection" where
  "apply_all p [] = Inr p"
| "apply_all p (e # es) = rbind (projection_apply p e) (\<lambda>p. apply_all p es)"

fun policy_in_force :: "CertificationControlPolicy \<Rightarrow> LocalCertificationLedgerEvent list \<Rightarrow> CertificationControlPolicy" where
  "policy_in_force p [] = p"
| "policy_in_force p (PolicyReplacement q # es) = policy_in_force q es"
| "policy_in_force p (e # es) = policy_in_force p es"

fun runner_revoked :: "bool \<Rightarrow> LocalCertificationLedgerEvent list \<Rightarrow> bool" where
  "runner_revoked b [] = b"
| "runner_revoked b (PolicyReplacement q # es) = runner_revoked False es"
| "runner_revoked b (RunnerRevocation d # es) = runner_revoked True es"
| "runner_revoked b (e # es) = runner_revoked b es"

fun certification_revoked :: "bool \<Rightarrow> LocalCertificationLedgerEvent list \<Rightarrow> bool" where
  "certification_revoked b [] = b"
| "certification_revoked b (PolicyReplacement q # es) = certification_revoked False es"
| "certification_revoked b (CertificationRevocation d # es) = certification_revoked True es"
| "certification_revoked b (e # es) = certification_revoked b es"

fun published_challenges :: "LocalCertificationLedgerEvent list \<Rightarrow> uuid list" where
  "published_challenges [] = []"
| "published_challenges (Publication p # es) = attestation_challenge (lp_attestation p) # published_challenges es"
| "published_challenges (e # es) = published_challenges es"

fun runner_changes :: "LocalCertificationLedgerEvent list \<Rightarrow> nat" where
  "runner_changes [] = 0"
| "runner_changes (PolicyReplacement q # es) = Suc (runner_changes es)"
| "runner_changes (RunnerRevocation d # es) = Suc (runner_changes es)"
| "runner_changes (e # es) = runner_changes es"

fun certification_changes :: "LocalCertificationLedgerEvent list \<Rightarrow> nat" where
  "certification_changes [] = 0"
| "certification_changes (PolicyReplacement q # es) = Suc (certification_changes es)"
| "certification_changes (CertificationRevocation d # es) = Suc (certification_changes es)"
| "certification_changes (e # es) = certification_changes es"

lemma apply_all_append: "apply_all p (es @ es') = rbind (apply_all p es) (\<lambda>p. apply_all p es')"
proof (induction es arbitrary: p)
  case (Cons e es)
  then show ?case by (simp add: rbind_def split: sum.splits)
qed simp

lemma apply_publication_Inr:
  "(apply_publication p a :: ('io, 'je, LedgerProjection) ledger_result) = Inr q \<longleftrightarrow>
     \<not> pj_runner_revoked p \<and> \<not> pj_certification_revoked p \<and> accepts_attestation (pj_policy p) a \<and>
     \<not> bs_contains (pj_freshness_challenges p) (attestation_challenge a) \<and>
     q = p\<lparr>pj_freshness_challenges := bt_insert (attestation_challenge a) () (pj_freshness_challenges p)\<rparr>"
  by (auto simp: apply_publication_def Let_def)

text \<open>What one event does to a projection, and what a history does.\<close>

definition projection_after :: "LedgerProjection \<Rightarrow> LocalCertificationLedgerEvent list \<Rightarrow> LedgerProjection \<Rightarrow> bool" where
  "projection_after p es q \<longleftrightarrow>
     pj_policy q = policy_in_force (pj_policy p) es \<and>
     pj_runner_revoked q = runner_revoked (pj_runner_revoked p) es \<and>
     pj_certification_revoked q = certification_revoked (pj_certification_revoked p) es \<and>
     unat (pj_runner_generation q) = unat (pj_runner_generation p) + runner_changes es \<and>
     unat (pj_certification_generation q) = unat (pj_certification_generation p) + certification_changes es \<and>
     (\<forall>c. bs_contains (pj_freshness_challenges q) c \<longleftrightarrow>
        bs_contains (pj_freshness_challenges p) c \<or> c \<in> set (published_challenges es)) \<and>
     list_all (\<lambda>e. \<not> is_genesis e) es"

lemma history_Cons:
  "policy_in_force p (e # es) = policy_in_force (policy_in_force p [e]) es"
  "runner_revoked b (e # es) = runner_revoked (runner_revoked b [e]) es"
  "certification_revoked b (e # es) = certification_revoked (certification_revoked b [e]) es"
  "runner_changes (e # es) = runner_changes [e] + runner_changes es"
  "certification_changes (e # es) = certification_changes [e] + certification_changes es"
  "published_challenges (e # es) = published_challenges [e] @ published_challenges es"
  by (cases e; simp)+

lemma projection_after_one:
  assumes "(projection_apply p e :: ('io, 'je, LedgerProjection) ledger_result) = Inr q"
  shows "projection_after p [e] q"
proof (cases e)
  case (PolicyReplacement pol)
  then obtain a b where "checked_add (pj_runner_generation p) 1 = Some a" "checked_add (pj_certification_generation p) 1 = Some b"
      "rr_policy_generation (cp_runner pol) = a" "cp_policy_generation pol = b"
      "q = p\<lparr>pj_policy := pol, pj_runner_generation := a, pj_certification_generation := b, pj_runner_revoked := False,
        pj_certification_revoked := False\<rparr>"
    using assms by (auto simp: rbind_Inr_iff Let_def if_Inl_Inr)
  then show ?thesis
    using PolicyReplacement by (simp add: projection_after_def is_genesis_def checked_add_unat)
next
  case (Publication pb)
  then show ?thesis
    using assms by (auto simp: apply_publication_Inr projection_after_def is_genesis_def)
next
  case (CertificationRevocation d)
  then show ?thesis
    using assms by (auto simp: rbind_Inr_iff projection_after_def is_genesis_def dest!: checked_add_unat)
next
  case (RunnerRevocation d)
  then show ?thesis
    using assms by (auto simp: rbind_Inr_iff projection_after_def is_genesis_def dest!: checked_add_unat)
qed (use assms in simp)

lemma apply_all_projection:
  assumes "(apply_all p es :: ('io, 'je, LedgerProjection) ledger_result) = Inr q"
  shows "projection_after p es q"
  using assms
proof (induction es arbitrary: p)
  case (Cons e es)
  then obtain r where r: "(projection_apply p e :: ('io, 'je, LedgerProjection) ledger_result) = Inr r"
      "(apply_all r es :: ('io, 'je, LedgerProjection) ledger_result) = Inr q"
    by (auto simp: rbind_Inr_iff)
  show ?case
    using Cons.IH [OF r(2)] projection_after_one [OF r(1)]
    unfolding projection_after_def history_Cons(1,2,3) [of _ e es] history_Cons(4,5,6) [of e es] by simp
qed (simp add: projection_after_def)

text \<open>A publication in a history was accepted by the policy in force, which nothing had revoked.\<close>

definition publication_ok ::
    "LocalCertificationLedgerGenesis \<Rightarrow> LocalCertificationLedgerEvent list \<Rightarrow> LocalCertificationLedgerPublication \<Rightarrow> bool" where
  "publication_ok g es p \<longleftrightarrow>
     accepts_attestation (policy_in_force (lg_policy g) es) (lp_attestation p) \<and>
     \<not> runner_revoked False es \<and> \<not> certification_revoked False es \<and>
     attestation_challenge (lp_attestation p) \<notin>
       set (attestation_challenge (lg_attestation g) # published_challenges es)"

lemma history_publications:
  assumes "(apply_all (projection_from_genesis g) es :: ('io, 'je, LedgerProjection) ledger_result) = Inr q"
    and "es = pre @ Publication p # post"
  shows "publication_ok g pre p"
proof -
  obtain r where r: "(apply_all (projection_from_genesis g) pre :: ('io, 'je, LedgerProjection) ledger_result) = Inr r"
      "(apply_all r (Publication p # post) :: ('io, 'je, LedgerProjection) ledger_result) = Inr q"
    using assms by (auto simp: apply_all_append rbind_Inr_iff)
  then obtain t where "(apply_publication r (lp_attestation p) :: ('io, 'je, LedgerProjection) ledger_result) = Inr t"
    by (auto simp: rbind_Inr_iff)
  then show ?thesis
    using apply_all_projection [OF r(1)] unfolding projection_after_def
    by (simp add: apply_publication_Inr publication_ok_def projection_from_genesis_def bs_contains_def)
qed

lemma published_append: "published_challenges (es @ es') = published_challenges es @ published_challenges es'"
proof (induction es)
  case (Cons e es)
  then show ?case by (cases e) auto
qed simp

lemma history_challenges:
  assumes "(apply_all (projection_from_genesis g) es :: ('io, 'je, LedgerProjection) ledger_result) = Inr q"
  shows "distinct (attestation_challenge (lg_attestation g) # published_challenges es)"
  using assms
proof (induction es arbitrary: q rule: rev_induct)
  case (snoc e es)
  then obtain r where r: "(apply_all (projection_from_genesis g) es :: ('io, 'je, LedgerProjection) ledger_result) = Inr r"
    by (auto simp: apply_all_append rbind_Inr_iff)
  show ?case
  proof (cases e)
    case (Publication p)
    from history_publications [OF snoc.prems, of es p "[]"] Publication have "publication_ok g es p"
      by simp
    then show ?thesis
      using snoc.IH [OF r] Publication by (auto simp: published_append publication_ok_def)
  qed (use snoc.IH [OF r] in \<open>simp_all add: published_append\<close>)
qed (simp)

subsection \<open>Replayed records\<close>

definition decode_record ::
    "'je LedgerCodec \<Rightarrow> bytes \<Rightarrow> (unit, 'je) LocalCertificationLedgerDocumentError + LocalCertificationLedgerRecord" where
  "decode_record codec bs =
     ledger_record_from_json_slice (lc_sha256 codec) (lc_attestation_json codec) (lc_from_slice codec) (lc_custom codec) bs"

lemma decode_record_io:
  "(ledger_record_from_json_slice (lc_sha256 codec) (lc_attestation_json codec) (lc_from_slice codec) (lc_custom codec) bs
      :: ('io, 'je) LocalCertificationLedgerDocumentError + _) = Inr r \<longleftrightarrow> decode_record codec bs = Inr r"
  unfolding decode_record_def ledger_record_from_json_slice_def Let_def rbind_Inr_iff if_Inl_Inr map_err_Inr_iff
    sum.inject ..

lemma replay_record_Inr:
  "(replay_record codec k bs s :: ('io, 'je, ReplayState) ledger_result) = Inr s' \<longleftrightarrow>
     rs_total_record_bytes s + length bs \<le> MAX_LOCAL_CERTIFICATION_LEDGER_BYTES \<and>
     (\<exists>r p. decode_record codec bs = Inr r \<and> lc_record_json codec r = Inr bs \<and> lr_sequence r = k \<and>
       lr_previous_record_digest r = rs_previous_digest s \<and>
       (replay_event (rs_projection s) (lr_event r) :: ('io, 'je, LedgerProjection) ledger_result) = Inr p \<and>
       s' = \<lparr>rs_total_record_bytes = rs_total_record_bytes s + length bs, rs_previous_record = Some r,
             rs_previous_digest = Some (lc_sha256 codec bs), rs_projection = Some p\<rparr>)"
proof -
  have small: "n \<le> MAX_LOCAL_CERTIFICATION_LEDGER_BYTES \<Longrightarrow> n < 2 ^ 64" for n
    by (simp add: MAX_LOCAL_CERTIFICATION_LEDGER_BYTES_def)
  show ?thesis
    unfolding replay_record_def rbind_Inr_iff ok_or_Inr_iff if_Inl_Inr map_err_Inr_iff not_not not_less
      checked_add_usize_Some_iff record_digest_def hash_canonical_def decode_record_io
    using small by auto
qed

lemma replay_bytes_append:
  "replay_bytes codec k (bss @ bss') s = rbind (replay_bytes codec k bss s) (replay_bytes codec (k + length bss) bss')"
  by (induction bss arbitrary: k s) (simp_all add: rbind_def split: sum.splits)

lemma replay_bytes_snoc:
  "(replay_bytes codec k (bss @ [bs]) s :: ('io, 'je, ReplayState) ledger_result) = Inr s' \<longleftrightarrow>
     (\<exists>t. (replay_bytes codec k bss s :: ('io, 'je, ReplayState) ledger_result) = Inr t \<and>
       (replay_record codec (of_nat (k + length bss)) bs t :: ('io, 'je, ReplayState) ledger_result) = Inr s')"
  by (simp add: replay_bytes_append rbind_Inr_iff)

lemma head_determines:
  assumes "inj_on (lc_sha256 codec) (set bss \<union> set bss')"
    and "(replay_bytes codec 1 bss replay_start :: ('io, 'je, ReplayState) ledger_result) = Inr s"
    and "(replay_bytes codec 1 bss' replay_start :: ('io, 'je, ReplayState) ledger_result) = Inr s'"
    and "rs_previous_digest s = rs_previous_digest s'"
  shows "bss = bss'"
  using assms
proof (induction bss arbitrary: bss' s s' rule: rev_induct)
  case Nil
  then show ?case
    by (cases bss' rule: rev_cases) (auto simp: replay_start_def replay_bytes_snoc replay_record_Inr)
next
  case (snoc bs bss)
  note [simp] = replay_bytes_snoc replay_record_Inr
  from snoc.prems(2) obtain t r where t: "(replay_bytes codec 1 bss replay_start :: ('io, 'je, ReplayState) ledger_result) = Inr t"
      "decode_record codec bs = Inr r" "lr_previous_record_digest r = rs_previous_digest t"
      "rs_previous_digest s = Some (lc_sha256 codec bs)"
    by auto
  show ?case
  proof (cases bss' rule: rev_cases)
    case Nil
    then show ?thesis
      using snoc.prems(3,4) t(4) by (auto simp: replay_start_def)
  next
    case (snoc cs bs')
    with snoc.prems(3) obtain t' r' where t': "(replay_bytes codec 1 cs replay_start :: ('io, 'je, ReplayState) ledger_result) = Inr t'"
        "decode_record codec bs' = Inr r'" "lr_previous_record_digest r' = rs_previous_digest t'"
        "rs_previous_digest s' = Some (lc_sha256 codec bs')"
      by auto
    have "lc_sha256 codec bs = lc_sha256 codec bs'"
      using snoc.prems(4) t(4) t'(4) by simp
    then have "bs = bs'"
      by (rule inj_onD [OF snoc.prems(1)]) (simp_all add: snoc)
    moreover have "bss = cs"
    proof (rule snoc.IH [OF _ t(1) t'(1)])
      show "inj_on (lc_sha256 codec) (set bss \<union> set cs)"
        using snoc.prems(1) by (rule inj_on_subset) (auto simp: snoc)
      show "rs_previous_digest t = rs_previous_digest t'"
        using t(2,3) t'(2,3) \<open>bs = bs'\<close> by simp
    qed
    ultimately show ?thesis
      by (simp add: snoc)
  qed
qed

subsection \<open>The results do not depend on the error types\<close>

lemma projection_apply_io:
  "(projection_apply p e :: ('io, 'je, LedgerProjection) ledger_result) = Inr q \<longleftrightarrow>
   (projection_apply p e :: (unit, unit, LedgerProjection) ledger_result) = Inr q"
  by (cases e) (auto simp: apply_publication_Inr rbind_Inr_iff Let_def if_Inl_Inr)

lemma replay_event_io:
  "(replay_event p e :: ('io, 'je, LedgerProjection) ledger_result) = Inr q \<longleftrightarrow>
   (replay_event p e :: (unit, unit, LedgerProjection) ledger_result) = Inr q"
proof (cases p)
  case None
  then show ?thesis
    by (cases e) (simp_all add: replay_event_def)
next
  case (Some a)
  show ?thesis
    unfolding replay_event_def Some option.case by (rule projection_apply_io)
qed

definition replays :: "'je LedgerCodec \<Rightarrow> bytes list \<Rightarrow> ReplayState \<Rightarrow> bool" where
  "replays codec bss s \<longleftrightarrow> (replay_bytes codec 1 bss replay_start :: (unit, 'je, ReplayState) ledger_result) = Inr s"

lemma replay_record_io:
  "(replay_record codec k bs s :: ('io, 'je, ReplayState) ledger_result) = Inr s' \<longleftrightarrow>
   (replay_record codec k bs s :: (unit, 'je, ReplayState) ledger_result) = Inr s'"
  unfolding replay_record_Inr replay_event_io [where 'io = 'io and 'je = 'je] replay_event_io [where 'io = unit and 'je = 'je] ..

lemma replays_io: "(replay_bytes codec 1 bss replay_start :: ('io, 'je, ReplayState) ledger_result) = Inr s \<longleftrightarrow> replays codec bss s"
proof -
  have "(replay_bytes codec k bss s :: ('io, 'je, ReplayState) ledger_result) = Inr s' \<longleftrightarrow>
      (replay_bytes codec k bss s :: (unit, 'je, ReplayState) ledger_result) = Inr s'" for k s s'
    by (induction bss arbitrary: k s) (simp_all add: rbind_Inr_iff replay_record_io [where 'io = 'io])
  then show ?thesis
    by (simp add: replays_def)
qed

lemma replays_snoc:
  fixes codec :: "'je LedgerCodec"
  shows "replays codec (bss @ [bs]) s' \<longleftrightarrow>
     (\<exists>s r p. replays codec bss s \<and> rs_total_record_bytes s + length bs \<le> MAX_LOCAL_CERTIFICATION_LEDGER_BYTES \<and>
       decode_record codec bs = Inr r \<and> lc_record_json codec r = Inr bs \<and> lr_sequence r = of_nat (Suc (length bss)) \<and>
       lr_previous_record_digest r = rs_previous_digest s \<and>
       (replay_event (rs_projection s) (lr_event r) :: (unit, unit, LedgerProjection) ledger_result) = Inr p \<and>
       s' = \<lparr>rs_total_record_bytes = rs_total_record_bytes s + length bs, rs_previous_record = Some r,
             rs_previous_digest = Some (lc_sha256 codec bs), rs_projection = Some p\<rparr>)"
  unfolding replays_def replay_bytes_snoc replay_record_Inr replay_event_io [where 'io = unit and 'je = 'je] by auto

lemma replays_Nil: "replays codec [] s \<longleftrightarrow> s = replay_start"
  by (auto simp: replays_def)

definition ledger_events :: "'je LedgerCodec \<Rightarrow> bytes list \<Rightarrow> LocalCertificationLedgerEvent list" where
  "ledger_events codec bss = map (\<lambda>bs. lr_event (projr (decode_record codec bs))) bss"

text \<open>What the state of a replay says of the encodings that were replayed.\<close>

lemma replayed_state:
  assumes "replays codec bss s" "bss \<noteq> []"
  shows "\<exists>g es p. ledger_events codec bss = Genesis g # es \<and>
      (apply_all (projection_from_genesis g) es :: (unit, unit, LedgerProjection) ledger_result) = Inr p \<and>
      rs_projection s = Some p"
    and "\<exists>r. rs_previous_record s = Some r \<and> lr_sequence r = of_nat (length bss) \<and> lc_record_json codec r = Inr (last bss)"
    and "rs_previous_digest s = Some (lc_sha256 codec (last bss))"
    and "rs_total_record_bytes s = sum_list (map length bss)" "rs_total_record_bytes s \<le> MAX_LOCAL_CERTIFICATION_LEDGER_BYTES"
proof -
  have "(\<exists>g es p. ledger_events codec bss = Genesis g # es \<and>
        (apply_all (projection_from_genesis g) es :: (unit, unit, LedgerProjection) ledger_result) = Inr p \<and>
        rs_projection s = Some p) \<and>
      (\<exists>r. rs_previous_record s = Some r \<and> lr_sequence r = of_nat (length bss) \<and> lc_record_json codec r = Inr (last bss)) \<and>
      rs_previous_digest s = Some (lc_sha256 codec (last bss)) \<and>
      rs_total_record_bytes s = sum_list (map length bss) \<and> rs_total_record_bytes s \<le> MAX_LOCAL_CERTIFICATION_LEDGER_BYTES"
    using assms
  proof (induction bss arbitrary: s rule: rev_induct)
    case (snoc bs bss)
    then obtain t r p where t: "replays codec bss t" "rs_total_record_bytes t + length bs \<le> MAX_LOCAL_CERTIFICATION_LEDGER_BYTES"
        "decode_record codec bs = Inr r" "lc_record_json codec r = Inr bs" "lr_sequence r = of_nat (Suc (length bss))"
        "(replay_event (rs_projection t) (lr_event r) :: (unit, unit, LedgerProjection) ledger_result) = Inr p"
      and s: "s = \<lparr>rs_total_record_bytes = rs_total_record_bytes t + length bs, rs_previous_record = Some r,
             rs_previous_digest = Some (lc_sha256 codec bs), rs_projection = Some p\<rparr>"
      unfolding replays_snoc by blast
    have ev: "ledger_events codec (bss @ [bs]) = ledger_events codec bss @ [lr_event r]"
      by (simp add: ledger_events_def t(3))
    show ?case
    proof (cases "bss = []")
      case True
      then have "t = replay_start"
        using t(1) by (simp add: replays_Nil)
      then show ?thesis
        using t True ev by (auto simp: s replay_start_def replay_event_def ledger_events_def split: LocalCertificationLedgerEvent.splits)
    next
      case False
      then obtain g es q where h: "ledger_events codec bss = Genesis g # es" "rs_projection t = Some q"
          "(apply_all (projection_from_genesis g) es :: (unit, unit, LedgerProjection) ledger_result) = Inr q"
        and n: "rs_total_record_bytes t = sum_list (map length bss)"
        using snoc.IH [OF t(1)] by blast
      have "(apply_all (projection_from_genesis g) (es @ [lr_event r]) :: (unit, unit, LedgerProjection) ledger_result) = Inr p"
        using t(6) h by (simp add: apply_all_append replay_event_def)
      then show ?thesis
        using t n h(1) ev by (auto simp: s)
    qed
  qed simp
  then show "\<exists>g es p. ledger_events codec bss = Genesis g # es \<and>
      (apply_all (projection_from_genesis g) es :: (unit, unit, LedgerProjection) ledger_result) = Inr p \<and>
      rs_projection s = Some p"
    "\<exists>r. rs_previous_record s = Some r \<and> lr_sequence r = of_nat (length bss) \<and> lc_record_json codec r = Inr (last bss)"
    "rs_previous_digest s = Some (lc_sha256 codec (last bss))"
    "rs_total_record_bytes s = sum_list (map length bss)" "rs_total_record_bytes s \<le> MAX_LOCAL_CERTIFICATION_LEDGER_BYTES"
    by blast+
qed

end
