(* ===== verification/Certification_Durable.thy ===== *)
theory Certification_Durable
  imports Certification_History
begin

section \<open>The ledger on disk and the ledger in memory\<close>

text \<open>
  Opening, appending and failing: a directory opens under a head exactly when it holds the
  history that ends there; accepted appends are durable; a failed write stops the writer.
\<close>

definition contents_replay :: "'je LedgerCodec \<Rightarrow> LedgerDirectory \<Rightarrow> bytes list \<Rightarrow> LedgerState \<Rightarrow> bool" where
  "contents_replay codec dir bss st \<longleftrightarrow>
     mset dir = mset (stored_from 1 bss) \<and> bss \<noteq> [] \<and> length bss \<le> MAX_LOCAL_CERTIFICATION_LEDGER_RECORDS \<and>
     list_all record_fits bss \<and> (\<exists>s. replays codec bss s \<and> st = state_of_replay s)"

lemma replay_directory_parts:
  fixes io :: "'io LedgerIo" and codec :: "'je LedgerCodec"
  shows "replay_directory codec io root h = Inr st \<longleftrightarrow>
    (\<exists>dir es s. root = RootDirectory dir \<and> io_inspect_root io = None \<and> io_read_dir io = None \<and>
      (list_entries io dir [] :: ('io, 'je, (u64 \<times> OsName) list) ledger_result) = Inr es \<and> sort_key fst es \<noteq> [] \<and>
      replay_loop codec io dir 0 (sort_key fst es) replay_start = Inr s \<and> rs_previous_digest s \<noteq> None \<and>
      rs_previous_record s \<noteq> None \<and> rs_projection s \<noteq> None \<and> st = state_of_replay s \<and>
      (h = None \<or> h = Some (ls_head_digest st)))" (is "?l \<longleftrightarrow> ?r")
proof
  assume ?l
  then obtain dir es s d r p where "root = RootDirectory dir" "io_inspect_root io = None" "io_read_dir io = None"
      "(list_entries io dir [] :: ('io, 'je, (u64 \<times> OsName) list) ledger_result) = Inr es" "sort_key fst es \<noteq> []"
      "replay_loop codec io dir 0 (sort_key fst es) replay_start = Inr s" "rs_previous_digest s = Some d"
      "rs_previous_record s = Some r" "rs_projection s = Some p" "\<forall>x. h = Some x \<longrightarrow> x = d"
      "st = \<lparr>ls_last_record = r, ls_head_digest = d, ls_record_count = unat (lr_sequence r),
        ls_total_record_bytes = rs_total_record_bytes s, ls_projection = p\<rparr>"
    unfolding replay_directory_def validate_ledger_root_def Let_def
    by (auto simp: rbind_Inr_iff if_Inl_Inr split: option.splits LedgerRoot.splits)
  then show ?r
    by (intro exI [of _ dir] exI [of _ es] exI [of _ s]) (cases h; simp add: state_of_replay_def)
next
  assume ?r
  then show ?l
    unfolding replay_directory_def validate_ledger_root_def Let_def by (auto simp: state_of_replay_def)
qed

lemma replay_faultless:
  fixes io :: "'io LedgerIo" and codec :: "'je LedgerCodec"
  assumes "replay_directory codec io root h = Inr st"
  shows "\<exists>dir. root = RootDirectory dir \<and> replay_directory codec (no_faults :: 'io LedgerIo) root None = Inr st \<and>
    (h = None \<or> h = Some (ls_head_digest st))"
proof -
  obtain dir es s where r: "root = RootDirectory dir"
      "(list_entries io dir [] :: ('io, 'je, (u64 \<times> OsName) list) ledger_result) = Inr es" "sort_key fst es \<noteq> []"
      "replay_loop codec io dir 0 (sort_key fst es) replay_start = Inr s" "rs_previous_digest s \<noteq> None"
      "rs_previous_record s \<noteq> None" "rs_projection s \<noteq> None" "st = state_of_replay s"
      "h = None \<or> h = Some (ls_head_digest st)"
    using assms unfolding replay_directory_parts by blast
  moreover have "io_inspect_root (no_faults :: 'io LedgerIo) = None" "io_read_dir (no_faults :: 'io LedgerIo) = None"
    by (simp_all add: no_faults_def)
  ultimately show ?thesis
    unfolding replay_directory_parts using list_entries_no_faults [OF r(2)] replay_loop_no_faults [OF r(4)] by blast
qed

lemma replay_no_faults:
  fixes codec :: "'je LedgerCodec"
  assumes "distinct (map fst dir)"
  shows "replay_directory codec (no_faults :: 'io LedgerIo) (RootDirectory dir) None = Inr st \<longleftrightarrow>
    (\<exists>bss. contents_replay codec dir bss st)"
proof -
  have "rs_previous_record s \<noteq> None \<and> rs_previous_digest s \<noteq> None \<and> rs_projection s \<noteq> None"
    if "replays codec bss s" "bss \<noteq> []" for bss s
    using replayed_state [OF that] by auto
  then show ?thesis
    unfolding replay_directory_Inr [OF assms] replays_io contents_replay_def by blast
qed

lemma replay_head:
  fixes codec :: "'je LedgerCodec"
  shows "replay_directory codec (no_faults :: 'io LedgerIo) root (Some (ls_head_digest st)) = Inr st \<longleftrightarrow>
    replay_directory codec (no_faults :: 'io LedgerIo) root None = Inr st" (is "?l \<longleftrightarrow> ?r")
proof
  assume ?r
  then show ?l
    unfolding replay_directory_parts by blast
next
  assume ?l
  then show ?r
    using replay_faultless by blast
qed

lemma replay_contents:
  assumes "distinct (map fst dir)" "replay_directory codec io (RootDirectory dir) h = Inr st"
  shows "\<exists>bss. contents_replay codec dir bss st" "h = None \<or> h = Some (ls_head_digest st)"
  using replay_faultless [OF assms(2)] replay_no_faults [OF assms(1), of codec st] by blast+

lemma contents_state:
  assumes "contents_replay codec dir bss st"
  shows "length dir = length bss" "ls_record_count st = length bss" "lr_sequence (ls_last_record st) = of_nat (length bss)"
    and "ls_head_digest st = lc_sha256 codec (last bss)" "lc_record_json codec (ls_last_record st) = Inr (last bss)"
    and "ls_total_record_bytes st = sum_list (map length bss)"
proof -
  obtain s where s: "replays codec bss s" "st = state_of_replay s" "bss \<noteq> []" "length bss \<le> MAX_LOCAL_CERTIFICATION_LEDGER_RECORDS"
    using assms by (auto simp: contents_replay_def)
  note r = replayed_state [OF s(1,3)]
  have "length bss < 2 ^ 64"
    using s(4) by (simp add: MAX_LOCAL_CERTIFICATION_LEDGER_RECORDS_def)
  then show "ls_record_count st = length bss" "lr_sequence (ls_last_record st) = of_nat (length bss)"
      "ls_head_digest st = lc_sha256 codec (last bss)" "lc_record_json codec (ls_last_record st) = Inr (last bss)"
      "ls_total_record_bytes st = sum_list (map length bss)"
    using r(2,3,4) by (auto simp: s(2) state_of_replay_def unat_u64)
  show "length dir = length bss"
    using assms mset_eq_length by (fastforce simp: contents_replay_def)
qed

lemma contents_files:
  assumes "contents_replay codec dir bss st"
  shows "{bs. RegularFile bs \<in> snd ` set dir} = set bss"
proof -
  have "snd ` set (stored_from k bss) = RegularFile ` set bss" for k
    by (induction k bss rule: stored_from.induct) auto
  moreover have "set dir = set (stored_from 1 bss)"
    using assms mset_eq_setD by (auto simp: contents_replay_def)
  ultimately show ?thesis
    by auto
qed

subsection \<open>Encoded records decode\<close>

text \<open>
  What the types of attestations and policies guarantee (their fields are private and every
  constructor checks them), and what \<open>serde_json\<close> promises of a record it has encoded.
\<close>

definition attestation_typed :: "LocalCertificationRunAttestation \<Rightarrow> bool" where
  "attestation_typed a \<longleftrightarrow> attestation_into_checked a = Inr a"

fun event_typed :: "LocalCertificationLedgerEvent \<Rightarrow> bool" where
  "event_typed (Genesis g) \<longleftrightarrow> attestation_typed (lg_attestation g) \<and> control_policy_validate (lg_policy g) = Inr ()"
| "event_typed (Publication p) \<longleftrightarrow> attestation_typed (lp_attestation p)"
| "event_typed (PolicyReplacement q) \<longleftrightarrow> control_policy_validate q = Inr ()"
| "event_typed (CertificationRevocation d) \<longleftrightarrow> True"
| "event_typed (RunnerRevocation d) \<longleftrightarrow> True"

definition records_decode :: "'je LedgerCodec \<Rightarrow> bool" where
  "records_decode codec \<longleftrightarrow> (\<forall>r bs. lc_record_json codec r = Inr bs \<longrightarrow> lc_from_slice codec bs = Inr r)"

lemma freshness_deserialize_typed: "run_freshness_validate f = Inr u \<Longrightarrow> run_freshness_deserialize custom f = Inr f"
  by (auto simp: run_freshness_validate_def run_freshness_deserialize_def run_freshness_new_def rbind_Inr_iff split: if_splits)

lemma runner_deserialize_typed: "run_runner_identity_validate r = Inr u \<Longrightarrow> run_runner_identity_deserialize custom r = Inr r"
  by (auto simp: run_runner_identity_validate_def run_runner_identity_deserialize_def run_runner_identity_new_def
      rbind_Inr_iff split: if_splits)

lemma result_deserialize_typed: "run_result_identity_validate r = Inr u \<Longrightarrow> run_result_identity_deserialize custom r = Inr r"
  by (auto simp: run_result_identity_validate_def run_result_identity_deserialize_def run_result_identity_new_def
      rbind_Inr_iff split: if_splits)

lemma attestation_deserialize_typed: "attestation_typed a \<Longrightarrow> unchecked_attestation_deserialize custom a = Inr a"
  by (auto simp: attestation_typed_def attestation_into_checked_def unchecked_attestation_deserialize_def rbind_Inr_iff
      freshness_deserialize_typed runner_deserialize_typed result_deserialize_typed)

lemma policy_deserialize_typed: "control_policy_validate q = Inr () \<Longrightarrow> control_policy_deserialize custom q = Inr q"
proof -
  assume v: "control_policy_validate q = Inr ()"
  then obtain u where "run_runner_identity_validate (cp_runner q) = Inr u"
    by (auto simp: control_policy_validate_def rbind_Inr_iff)
  then show ?thesis
    using v by (cases q) (simp add: control_policy_deserialize_def runner_deserialize_typed control_policy_new_def Let_def)
qed

lemma validate_receipt_local: "validate_receipt h j a r = Inr u \<Longrightarrow> lrc_publication_status r = LocalOnly"
  by (auto simp: validate_receipt_def split: if_splits)

lemma event_deserialize_typed:
  assumes "event_typed e" "event_validate h j e = Inr u"
  shows "unchecked_event_deserialize custom e = Inr e" "event_into_checked h j e = Inr e"
proof -
  show "unchecked_event_deserialize custom e = Inr e"
    using assms by (cases e) (auto simp: attestation_deserialize_typed policy_deserialize_typed receipt_deserialize_def
        ledger_genesis_validate_def validate_receipt_local split: if_splits)
  show "event_into_checked h j e = Inr e"
  proof (cases e)
    case (Genesis g)
    then show ?thesis
      using assms by (cases g) (simp add: attestation_typed_def)
  next
    case (Publication p)
    then show ?thesis
      using assms by (cases p) (simp add: attestation_typed_def)
  qed simp_all
qed

lemma decode_encoded:
  assumes "records_decode codec" "lc_record_json codec r = Inr bs" "record_fits bs" "event_typed (lr_event r)"
    and "validate_shape (lc_sha256 codec) (lc_attestation_json codec) r = Inr u"
  shows "decode_record codec bs = Inr r"
proof -
  have "\<exists>v. event_validate (lc_sha256 codec) (lc_attestation_json codec) (lr_event r) = Inr v"
    using assms(5) by (auto simp: validate_shape_def split: if_splits option.splits)
  then obtain v where v: "event_validate (lc_sha256 codec) (lc_attestation_json codec) (lr_event r) = Inr v" ..
  have "lc_from_slice codec bs = Inr r"
    using assms(1,2) by (simp add: records_decode_def)
  then show ?thesis
    using assms(3,5) by (simp add: decode_record_def ledger_record_from_json_slice_def unchecked_record_deserialize_def
        Let_def event_deserialize_typed [OF assms(4) v])
qed

subsection \<open>Appending\<close>

definition in_sync :: "'je LedgerCodec \<Rightarrow> LedgerRoot \<Rightarrow> LocalCertificationLedger \<Rightarrow> bool" where
  "in_sync codec root ledger \<longleftrightarrow> \<not> ll_poisoned ledger \<and>
     (\<exists>dir bss. root = RootDirectory dir \<and> distinct (map fst dir) \<and> contents_replay codec dir bss (ll_state ledger))"

lemma ledger_record_next_Inr:
  "ledger_record_next h j rj prev e = Inr r \<longleftrightarrow>
     \<not> is_genesis e \<and> event_validate h j e = Inr () \<and> unat (lr_sequence prev) + 1 < 2 ^ 64 \<and>
     (\<exists>bs. rj prev = Inr bs \<and>
       r = \<lparr>lr_sequence = lr_sequence prev + 1, lr_previous_record_digest = Some (h bs), lr_event = e\<rparr>)"
  unfolding ledger_record_next_def if_Inl_Inr rbind_Inr_iff ok_or_Inr_iff map_err_Inr_iff hash_canonical_def
    checked_add_Some_iff by auto

lemma append_prepare_Inr:
  fixes io :: "'io LedgerIo" and codec :: "'je LedgerCodec"
  assumes "append_prepare codec io root ledger e = Inr (r, bs, n, p)"
  shows "(projection_apply (ls_projection (ll_state ledger)) e :: (unit, unit, LedgerProjection) ledger_result) = Inr p"
    and "ledger_record_next (lc_sha256 codec) (lc_attestation_json codec) (lc_record_json codec)
      (ls_last_record (ll_state ledger)) e = Inr r"
    and "lc_record_json codec r = Inr bs" "record_fits bs" "n = ls_total_record_bytes (ll_state ledger) + length bs"
    and "n \<le> MAX_LOCAL_CERTIFICATION_LEDGER_BYTES" "ls_record_count (ll_state ledger) < MAX_LOCAL_CERTIFICATION_LEDGER_RECORDS"
    and "\<not> ll_poisoned ledger"
    and "\<exists>st. replay_directory codec io root None = Inr st \<and> ls_head_digest st = ls_head_digest (ll_state ledger) \<and>
      ls_record_count st = ls_record_count (ll_state ledger) \<and>
      ls_total_record_bytes st = ls_total_record_bytes (ll_state ledger)"
proof -
  have *: "(projection_apply (ls_projection (ll_state ledger)) e :: ('io, 'je, LedgerProjection) ledger_result) = Inr p \<and>
      ledger_record_next (lc_sha256 codec) (lc_attestation_json codec) (lc_record_json codec)
        (ls_last_record (ll_state ledger)) e = Inr r \<and>
      lc_record_json codec r = Inr bs \<and> record_fits bs \<and> n = ls_total_record_bytes (ll_state ledger) + length bs \<and>
      n \<le> MAX_LOCAL_CERTIFICATION_LEDGER_BYTES \<and> ls_record_count (ll_state ledger) < MAX_LOCAL_CERTIFICATION_LEDGER_RECORDS \<and>
      \<not> ll_poisoned ledger \<and>
      (\<exists>st. replay_directory codec io root None = Inr st \<and> ls_head_digest st = ls_head_digest (ll_state ledger) \<and>
        ls_record_count st = ls_record_count (ll_state ledger) \<and>
        ls_total_record_bytes st = ls_total_record_bytes (ll_state ledger))"
    using assms unfolding append_prepare_def Let_def if_Inl_Inr rbind_Inr_iff ok_or_Inr_iff map_err_Inr_iff
      canonical_record_bytes_def checked_add_usize_Some_iff sum.inject prod.inject not_less not_le de_Morgan_disj not_not
    by blast
  then show "ledger_record_next (lc_sha256 codec) (lc_attestation_json codec) (lc_record_json codec)
        (ls_last_record (ll_state ledger)) e = Inr r"
      "lc_record_json codec r = Inr bs" "record_fits bs" "n = ls_total_record_bytes (ll_state ledger) + length bs"
      "n \<le> MAX_LOCAL_CERTIFICATION_LEDGER_BYTES" "ls_record_count (ll_state ledger) < MAX_LOCAL_CERTIFICATION_LEDGER_RECORDS"
      "\<not> ll_poisoned ledger"
      "\<exists>st. replay_directory codec io root None = Inr st \<and> ls_head_digest st = ls_head_digest (ll_state ledger) \<and>
        ls_record_count st = ls_record_count (ll_state ledger) \<and>
        ls_total_record_bytes st = ls_total_record_bytes (ll_state ledger)"
    by blast+
  show "(projection_apply (ls_projection (ll_state ledger)) e :: (unit, unit, LedgerProjection) ledger_result) = Inr p"
    using * projection_apply_io [where 'io = 'io and 'je = 'je, of "ls_projection (ll_state ledger)" e p] by blast
qed

lemma contents_names:
  assumes "contents_replay codec dir bss st"
  shows "fst ` set dir = record_name ` {1..length bss}"
proof -
  have "fst ` set dir = fst ` set (stored_from 1 bss)"
    using mset_eq_setD [of dir "stored_from 1 bss"] assms by (simp add: contents_replay_def)
  also have "\<dots> = set (map fst (stored_from 1 bss))"
    by simp
  also have "\<dots> = record_name ` {1..length bss}"
    unfolding stored_names by (auto simp: atLeastLessThanSuc_atLeastAtMost)
  finally show ?thesis .
qed

lemma appended_replays:
  assumes law: "records_decode codec" and old: "contents_replay codec dir bss (ll_state ledger)" and typed: "event_typed e"
    and prepared: "append_prepare codec io root ledger e = Inr (r, bs, n, p)"
  shows "lr_sequence r = of_nat (Suc (length bss))" "UnicodeName (record_filename (lr_sequence r)) \<notin> fst ` set dir"
    and "contents_replay codec (dir @ [(UnicodeName (record_filename (lr_sequence r)), RegularFile bs)]) (bss @ [bs])
      \<lparr>ls_last_record = r, ls_head_digest = lc_sha256 codec bs, ls_record_count = Suc (ls_record_count (ll_state ledger)),
        ls_total_record_bytes = n, ls_projection = p\<rparr>"
proof -
  note st = contents_state [OF old] and pr = append_prepare_Inr [OF prepared]
  obtain s where s: "replays codec bss s" "ll_state ledger = state_of_replay s" "bss \<noteq> []"
    using old by (auto simp: contents_replay_def)
  have len: "Suc (length bss) \<le> MAX_LOCAL_CERTIFICATION_LEDGER_RECORDS"
    using pr(7) st(2) by simp
  then have small: "Suc (length bss) < 2 ^ 64"
    by (simp add: MAX_LOCAL_CERTIFICATION_LEDGER_RECORDS_def)
  have r: "r = \<lparr>lr_sequence = of_nat (Suc (length bss)), lr_previous_record_digest = Some (lc_sha256 codec (last bss)), lr_event = e\<rparr>"
      "\<not> is_genesis e" "event_validate (lc_sha256 codec) (lc_attestation_json codec) e = Inr ()"
    using pr(2) st(3,5) by (auto simp: ledger_record_next_Inr add.commute)
  show seq: "lr_sequence r = of_nat (Suc (length bss))"
    by (simp add: r(1))
  show "UnicodeName (record_filename (lr_sequence r)) \<notin> fst ` set dir"
    unfolding contents_names [OF old] seq using small by (auto simp: record_filename_inj of_nat_u64_eq simp del: of_nat_Suc)
  have "(of_nat (Suc (length bss)) :: u64) \<noteq> 0" "(of_nat (Suc (length bss)) :: u64) \<noteq> 1"
    using small s(3) unat_u64 [of "Suc (length bss)"] by (metis nat.distinct(1) unsigned_0, metis One_nat_def length_0_conv nat.inject unsigned_1)
  then have "validate_shape (lc_sha256 codec) (lc_attestation_json codec) r = Inr ()"
    using r(2,3) by (simp add: validate_shape_def r(1) del: of_nat_Suc)
  then have dec: "decode_record codec bs = Inr r"
    using decode_encoded [OF law pr(3,4), of "()"] typed by (simp add: r(1))
  obtain q where q: "rs_projection s = Some q" "ls_projection (ll_state ledger) = q"
    using replayed_state(1) [OF s(1,3)] by (auto simp: s(2) state_of_replay_def)
  have "replays codec (bss @ [bs]) \<lparr>rs_total_record_bytes = n, rs_previous_record = Some r,
      rs_previous_digest = Some (lc_sha256 codec bs), rs_projection = Some p\<rparr>"
    unfolding replays_snoc using s(1) dec pr(1,3,5,6) q replayed_state(3) [OF s(1,3)]
    by (intro exI [of _ s] exI [of _ r] exI [of _ p]) (simp add: r(1) s(2) state_of_replay_def replay_event_def)
  moreover have "unat (lr_sequence r) = Suc (ls_record_count (ll_state ledger))"
    unfolding seq st(2) using small by (rule unat_u64)
  moreover have "mset (dir @ [(UnicodeName (record_filename (lr_sequence r)), RegularFile bs)]) = mset (stored_from 1 (bss @ [bs]))"
    using old by (simp add: contents_replay_def stored_append seq)
  ultimately show "contents_replay codec (dir @ [(UnicodeName (record_filename (lr_sequence r)), RegularFile bs)]) (bss @ [bs])
      \<lparr>ls_last_record = r, ls_head_digest = lc_sha256 codec bs, ls_record_count = Suc (ls_record_count (ll_state ledger)),
        ls_total_record_bytes = n, ls_projection = p\<rparr>"
    using old len pr(4) unfolding contents_replay_def by (force simp: state_of_replay_def)
qed

text \<open>A writer that another record has overtaken, its own failed write included, can append nothing.\<close>

definition overtaken :: "LedgerRoot \<Rightarrow> LocalCertificationLedger \<Rightarrow> bool" where
  "overtaken root ledger \<longleftrightarrow>
     (\<exists>dir. root = RootDirectory dir \<and> distinct (map fst dir) \<and> length dir \<noteq> ls_record_count (ll_state ledger))"

lemma overtaken_refuses:
  assumes "overtaken root ledger"
  shows "\<exists>err. append_event codec io between io' root ledger e = (Inl err, ledger, root)"
proof (cases "append_prepare codec io root ledger e")
  case (Inr x)
  obtain r bs n p where x: "x = (r, bs, n, p)" by (cases x)
  obtain dir where dir: "root = RootDirectory dir" "distinct (map fst dir)" "length dir \<noteq> ls_record_count (ll_state ledger)"
    using assms by (auto simp: overtaken_def)
  obtain st where "replay_directory codec io (RootDirectory dir) None = Inr st" "ls_record_count st = ls_record_count (ll_state ledger)"
    using append_prepare_Inr(9) [OF Inr [unfolded x]] dir(1) by auto
  then show ?thesis
    using replay_contents(1) [OF dir(2)] contents_state(1,2) dir(3) by metis
qed (simp add: append_event_def)

definition writes_fail :: "'io LedgerIo \<Rightarrow> bool" where
  "writes_fail io \<longleftrightarrow> (\<exists>k. io_write_record io k \<noteq> None \<or> io_sync_record io k \<noteq> None)"

lemma append_outcome:
  fixes io :: "'io LedgerIo" and codec :: "'je LedgerCodec"
  assumes law: "records_decode codec" and sync: "in_sync codec root ledger" and typed: "event_typed e"
    and run: "append_event codec io id io' root ledger e = (res, ledger', root')"
  shows "case res of
      Inr receipt \<Rightarrow> in_sync codec root' ledger' \<and>
        (projection_apply (ls_projection (ll_state ledger)) e :: (unit, unit, LedgerProjection) ledger_result) =
          Inr (ls_projection (ll_state ledger')) \<and>
        ls_record_count (ll_state ledger') = Suc (ls_record_count (ll_state ledger)) \<and>
        ar_record_digest receipt = ls_head_digest (ll_state ledger') \<and>
        ar_record_count receipt = ls_record_count (ll_state ledger')
    | Inl err \<Rightarrow> ledger' = ledger \<and> (root' = root \<or> overtaken root' ledger \<and> writes_fail io')"
proof (cases "append_prepare codec io root ledger e")
  case (Inl err)
  then show ?thesis
    using run by (auto simp: append_event_def)
next
  case (Inr y)
  obtain r bs n p where y: "append_prepare codec io root ledger e = Inr (r, bs, n, p)"
    using Inr by (cases y) auto
  obtain dir bss where dir: "root = RootDirectory dir" "distinct (map fst dir)" "contents_replay codec dir bss (ll_state ledger)"
    using sync by (auto simp: in_sync_def)
  note new = appended_replays [OF law dir(3) typed y] and pr = append_prepare_Inr [OF y] and old = contents_state [OF dir(3)]
  let ?name = "UnicodeName (record_filename (lr_sequence r))"
  have over: "overtaken (RootDirectory (dir @ [(?name, RegularFile cs)])) ledger" for cs
    using dir(2) new(2) old(1,2) by (auto simp: overtaken_def)
  have commit: "append_commit codec ledger r n p =
      (Inr (\<lparr>ar_sequence = lr_sequence r, ar_record_digest = lc_sha256 codec bs,
        ar_record_count = Suc (ls_record_count (ll_state ledger)), ar_total_record_bytes = n\<rparr>,
        ledger\<lparr>ll_state := \<lparr>ls_last_record = r, ls_head_digest = lc_sha256 codec bs,
          ls_record_count = Suc (ls_record_count (ll_state ledger)), ls_total_record_bytes = n, ls_projection = p\<rparr>\<rparr>)
        :: ('io, 'je, _) ledger_result)"
    using pr(3,7) by (simp add: append_commit_def record_digest_def hash_canonical_def checked_add_usize_def
        MAX_LOCAL_CERTIFICATION_LEDGER_RECORDS_def)
  have fails: "io_write_record io' k = Some x \<Longrightarrow> writes_fail io'" "io_sync_record io' k = Some z \<Longrightarrow> writes_fail io'" for k x z
    unfolding writes_fail_def by (metis option.distinct(1))+
  have d': "distinct (map fst (dir @ [(?name, RegularFile bs)]))"
    using dir(2) new(2) by simp
  show ?thesis
    using run new(2) over pr(1,8) new(3) d'
    unfolding append_event_def y
    unfolding write_record_create_new_def validate_ledger_root_def dir(1) id_apply
    by (auto simp: Let_def commit in_sync_def dest!: fails split: option.splits prod.splits)
qed

end
