(* ===== verification/Certification_Guarantees.thy ===== *)
theory Certification_Guarantees
  imports Certification_Durable
begin

section \<open>Guarantees of the certification ledger\<close>

text \<open>Sequences of calls on one ledger, with any I/O outcomes, and what they leave on disk.\<close>

fun op_typed :: "LedgerOp \<Rightarrow> bool" where
  "op_typed (AppendPublication a) \<longleftrightarrow> attestation_typed a"
| "op_typed (ReplaceControlPolicy q) \<longleftrightarrow> control_policy_validate q = Inr ()"
| "op_typed (RevokeCertification d) \<longleftrightarrow> True"
| "op_typed (RevokeRunner d) \<longleftrightarrow> True"

fun op_event :: "'je LedgerCodec \<Rightarrow> LedgerOp \<Rightarrow> LocalCertificationLedgerEvent" where
  "op_event codec (AppendPublication a) =
     Publication \<lparr>lp_attestation = a, lp_receipt = \<lparr>lrc_attestation_digest = lc_sha256 codec (projr (lc_attestation_json codec a)),
       lrc_publication_status = LocalOnly\<rparr>\<rparr>"
| "op_event codec (ReplaceControlPolicy q) = PolicyReplacement q"
| "op_event codec (RevokeCertification d) = CertificationRevocation d"
| "op_event codec (RevokeRunner d) = RunnerRevocation d"

type_synonym 'io ledger_step = "'io LedgerIo \<times> 'io LedgerIo \<times> LedgerOp"

fun ledger_run ::
    "'je LedgerCodec \<Rightarrow> LedgerRoot \<Rightarrow> LocalCertificationLedger \<Rightarrow> 'io ledger_step list \<Rightarrow>
     ('io, 'je, LocalCertificationLedgerAppendReceipt) ledger_result list \<times> LocalCertificationLedger \<times> LedgerRoot" where
  "ledger_run codec root ledger [] = ([], ledger, root)"
| "ledger_run codec root ledger ((io, io', operation) # steps) =
     (let (res, ledger, root) = ledger_operation codec io id io' root ledger operation;
          (results, ledger, root) = ledger_run codec root ledger steps
      in (res # results, ledger, root))"

fun accepted_events ::
    "'je LedgerCodec \<Rightarrow> 'io ledger_step list \<Rightarrow> ('io, 'je, LocalCertificationLedgerAppendReceipt) ledger_result list \<Rightarrow>
     LocalCertificationLedgerEvent list" where
  "accepted_events codec ((io, io', operation) # steps) (Inr receipt # results) =
     op_event codec operation # accepted_events codec steps results"
| "accepted_events codec (st # steps) (Inl err # results) = accepted_events codec steps results"
| "accepted_events codec steps results = []"

lemma ledger_op_event_Inr:
  "ledger_op_event codec operation = Inr e \<Longrightarrow> e = op_event codec operation"
  by (cases operation) (auto simp: ledger_publication_new_def receipt_from_attestation_def hash_canonical_def rbind_Inr_iff)

lemma typed_op_event:
  "op_typed operation \<Longrightarrow>
     (ledger_op_event codec operation :: ('io, 'je, LocalCertificationLedgerEvent) ledger_result) = Inr e \<Longrightarrow> event_typed e"
  by (cases operation) (auto simp: ledger_publication_new_def receipt_from_attestation_def rbind_Inr_iff)

lemma operation_outcome:
  fixes io :: "'io LedgerIo" and codec :: "'je LedgerCodec"
  assumes "records_decode codec" "in_sync codec root ledger" "op_typed operation"
    and run: "ledger_operation codec io id io' root ledger operation = (res, ledger', root')"
  shows "case res of
      Inr receipt \<Rightarrow> in_sync codec root' ledger' \<and>
        (projection_apply (ls_projection (ll_state ledger)) (op_event codec operation) :: (unit, unit, LedgerProjection) ledger_result) =
          Inr (ls_projection (ll_state ledger')) \<and>
        ls_record_count (ll_state ledger') = Suc (ls_record_count (ll_state ledger)) \<and>
        ar_record_digest receipt = ls_head_digest (ll_state ledger') \<and>
        ar_record_count receipt = ls_record_count (ll_state ledger')
    | Inl err \<Rightarrow> ledger' = ledger \<and> (root' = root \<or> overtaken root' ledger \<and> writes_fail io')"
proof (cases "ledger_op_event codec operation :: ('io, 'je, LocalCertificationLedgerEvent) ledger_result")
  case (Inl err)
  then show ?thesis
    using run by (auto simp: ledger_operation_def)
next
  case (Inr e)
  then have e: "op_event codec operation = e" "event_typed e"
    using assms(3) ledger_op_event_Inr [OF Inr] by (cases operation; simp)+
  have "append_event codec io id io' root ledger e = (res, ledger', root')"
    using run Inr by (simp add: ledger_operation_def)
  then show ?thesis
    unfolding e(1) by (rule append_outcome [OF assms(1,2) e(2)])
qed

lemma overtaken_operation:
  assumes "overtaken root ledger"
  shows "\<exists>err. ledger_operation codec io between io' root ledger operation = (Inl err, ledger, root)"
  using overtaken_refuses [OF assms] by (auto simp: ledger_operation_def split: sum.splits)

lemma overtaken_run:
  assumes "overtaken root ledger" "ledger_run codec root ledger steps = (results, ledger', root')"
  shows "list_all isl results \<and> ledger' = ledger \<and> root' = root"
  using assms(2)
proof (induction steps arbitrary: results)
  case (Cons st steps)
  obtain io io' operation where st: "st = (io, io', operation)" by (cases st)
  obtain err where "ledger_operation codec io id io' root ledger operation = (Inl err, ledger, root)"
    using overtaken_operation [OF assms(1)] by blast
  then show ?case
    using Cons by (auto simp: st split: prod.splits)
qed simp

lemma accepted_none: "list_all isl results \<Longrightarrow> accepted_events codec steps results = []"
  by (induction codec steps results rule: accepted_events.induct) auto

lemma run_outcome:
  fixes codec :: "'je LedgerCodec" and steps :: "'io ledger_step list"
  assumes "records_decode codec" "in_sync codec root ledger" "list_all (\<lambda>(io, io', operation). op_typed operation) steps"
    and "ledger_run codec root ledger steps = (results, ledger', root')"
  shows "(apply_all (ls_projection (ll_state ledger)) (accepted_events codec steps results) ::
      (unit, unit, LedgerProjection) ledger_result) = Inr (ls_projection (ll_state ledger'))"
    and "ls_record_count (ll_state ledger') = ls_record_count (ll_state ledger) + length (accepted_events codec steps results)"
    and "in_sync codec root' ledger' \<or> overtaken root' ledger' \<and> list_ex (\<lambda>(io, io', operation). writes_fail io') steps"
proof -
  have "(apply_all (ls_projection (ll_state ledger)) (accepted_events codec steps results) ::
        (unit, unit, LedgerProjection) ledger_result) = Inr (ls_projection (ll_state ledger')) \<and>
      ls_record_count (ll_state ledger') = ls_record_count (ll_state ledger) + length (accepted_events codec steps results) \<and>
      (in_sync codec root' ledger' \<or> overtaken root' ledger' \<and> list_ex (\<lambda>(io, io', operation). writes_fail io') steps)"
    using assms(2-)
  proof (induction steps arbitrary: root ledger results)
    case (Cons st steps)
    obtain io io' operation where st: "st = (io, io', operation)" by (cases st)
    obtain res l r where one: "ledger_operation codec io id io' root ledger operation = (res, l, r)"
      by (metis prod_cases3)
    obtain rs where more: "ledger_run codec r l steps = (rs, ledger', root')" "results = res # rs"
      using Cons.prems(3) by (auto simp: st one split: prod.splits)
    note out = operation_outcome [OF assms(1) Cons.prems(1) _ one]
    have typed: "op_typed operation" "list_all (\<lambda>(io, io', operation). op_typed operation) steps"
      using Cons.prems(2) by (simp_all add: st)
    show ?case
    proof (cases res)
      case (Inr receipt)
      then show ?thesis
        using out [OF typed(1)] Cons.IH [OF _ typed(2) more(1)] more(2) by (auto simp: st)
    next
      case (Inl err)
      show ?thesis
      proof (cases "r = root")
        case True
        then show ?thesis
          using Inl out [OF typed(1)] Cons.IH [OF _ typed(2), of r l rs] more Cons.prems(1) by (auto simp: st)
      next
        case False
        then have "l = ledger" "overtaken r l" "writes_fail io'"
          using Inl out [OF typed(1)] by auto
        then show ?thesis
          using overtaken_run [OF _ more(1)] accepted_none [of rs codec steps] Inl more(2) by (auto simp: st)
      qed
    qed
  qed simp
  then show "(apply_all (ls_projection (ll_state ledger)) (accepted_events codec steps results) ::
      (unit, unit, LedgerProjection) ledger_result) = Inr (ls_projection (ll_state ledger'))"
    "ls_record_count (ll_state ledger') = ls_record_count (ll_state ledger) + length (accepted_events codec steps results)"
    "in_sync codec root' ledger' \<or> overtaken root' ledger' \<and> list_ex (\<lambda>(io, io', operation). writes_fail io') steps"
    by blast+
qed

subsection \<open>Ledgers in use\<close>

lemma opened_in_sync:
  assumes "distinct (map fst dir)" "ledger_open codec io (RootDirectory dir) head = Inr l"
  shows "in_sync codec (RootDirectory dir) l" "head = ls_head_digest (ll_state l)"
proof -
  obtain st where st: "replay_directory codec io (RootDirectory dir) (Some head) = Inr st" "l = \<lparr>ll_poisoned = False, ll_state = st\<rparr>"
    using assms(2) by (auto simp: ledger_open_def rbind_Inr_iff)
  show "in_sync codec (RootDirectory dir) l" "head = ls_head_digest (ll_state l)"
    using replay_contents [OF assms(1) st(1)] assms(1) by (auto simp: in_sync_def st(2))
qed

lemma created_in_sync:
  fixes io :: "'io LedgerIo" and codec :: "'je LedgerCodec"
  assumes "ledger_create codec io RootMissing policy attestation = (Inr l, root)"
  shows "in_sync codec root l"
proof -
  obtain k bs h st where w: "(write_record_create_new io (RootDirectory []) k bs ::
        ('io, 'je, unit) ledger_result \<times> LedgerRoot) = (Inr (), root)"
    and rep: "replay_directory codec io root (Some h) = Inr st" "l = \<lparr>ll_poisoned = False, ll_state = st\<rparr>"
    using assms unfolding ledger_create_def
    by (auto simp: rbind_Inr_iff Let_def split: sum.splits option.splits prod.splits if_splits)
  from w have "root = RootDirectory [(UnicodeName (record_filename k), RegularFile bs)]"
    by (auto simp: write_record_create_new_def Let_def validate_ledger_root_def
        split: sum.splits option.splits prod.splits if_splits)
  then obtain dir where dir: "root = RootDirectory dir" "distinct (map fst dir)"
    by simp
  show ?thesis
    using replay_contents(1) [OF dir(2) rep(1) [unfolded dir(1)]] dir by (auto simp: in_sync_def rep(2))
qed

lemma in_sync_reopens:
  fixes codec :: "'je LedgerCodec"
  assumes "in_sync codec root l"
  shows "\<exists>dir. root = RootDirectory dir \<and> (\<forall>dir'. mset dir' = mset dir \<longrightarrow>
    ledger_open codec (no_faults :: 'io LedgerIo) (RootDirectory dir') (ls_head_digest (ll_state l)) = Inr l)"
proof -
  obtain dir bss where dir: "root = RootDirectory dir" "distinct (map fst dir)" "contents_replay codec dir bss (ll_state l)"
    "\<not> ll_poisoned l"
    using assms by (auto simp: in_sync_def)
  have "ledger_open codec (no_faults :: 'io LedgerIo) (RootDirectory dir') (ls_head_digest (ll_state l)) = Inr l"
    if "mset dir' = mset dir" for dir'
  proof -
    have "mset (map fst dir') = mset (map fst dir)"
      using that by simp
    then have "distinct (map fst dir')"
      using dir(2) mset_eq_imp_distinct_iff by blast
    moreover have "contents_replay codec dir' bss (ll_state l)"
      using dir(3) that by (simp add: contents_replay_def)
    ultimately have "replay_directory codec (no_faults :: 'io LedgerIo) (RootDirectory dir') None = Inr (ll_state l)"
      using replay_no_faults by blast
    then have "replay_directory codec (no_faults :: 'io LedgerIo) (RootDirectory dir') (Some (ls_head_digest (ll_state l))) =
        Inr (ll_state l)"
      by (simp add: replay_head)
    then show ?thesis
      using dir(4) by (cases l) (simp add: ledger_open_def)
  qed
  then show ?thesis
    using dir(1) by blast
qed

text \<open>A ledger that was just opened or created.\<close>

definition ledger_ready :: "'io itself \<Rightarrow> 'je LedgerCodec \<Rightarrow> LedgerRoot \<Rightarrow> LocalCertificationLedger \<Rightarrow> bool" where
  "ledger_ready t codec root l \<longleftrightarrow>
     (\<exists>dir head. \<exists>io :: 'io LedgerIo. root = RootDirectory dir \<and> distinct (map fst dir) \<and> ledger_open codec io root head = Inr l) \<or>
     (\<exists>policy attestation. \<exists>io :: 'io LedgerIo. ledger_create codec io RootMissing policy attestation = (Inr l, root))"

lemma ready_in_sync: "ledger_ready t codec root l \<Longrightarrow> in_sync codec root l"
  unfolding ledger_ready_def using opened_in_sync(1) created_in_sync by blast

subsection \<open>A small ledger\<close>

definition example_attestation :: LocalCertificationRunAttestation where
  "example_attestation =
     \<lparr>la_freshness = \<lparr>fr_challenge = 7, fr_maximum_elapsed_millis = 1000, fr_elapsed_millis = 1\<rparr>,
      la_runner = \<lparr>rr_runner_identity_digest = [], rr_descriptor_set_digest = [], rr_policy_revision_digest = [],
        rr_policy_generation = 1\<rparr>,
      la_result = \<lparr>rt_semantic_report = \<lparr>car_kind = RuntimeProbe, car_digest = []\<rparr>,
        rt_target = \<lparr>ctg_compatibility_analysis_digest = [], ctg_execution_contract_digest = [],
          ctg_execution_resolution_evidence_digest = [], ctg_artifact_source_digest = [], ctg_executable_digest = []\<rparr>,
        rt_profile_digest = [], rt_evidence_digest = [], rt_artifact_set_digest = [], rt_class = SmokeVerified,
        rt_policy_revision_digest = [], rt_policy_generation = 1, rt_artifact_count = 1, rt_total_artifact_bytes = 1\<rparr>\<rparr>"

definition example_policy :: CertificationControlPolicy where
  "example_policy =
     (let result = la_result example_attestation in
      \<lparr>cp_runner = la_runner example_attestation, cp_semantic_report = rt_semantic_report result,
       cp_target = rt_target result, cp_profile_digest = [], cp_evidence_digest = [], cp_artifact_set_digest = [],
       cp_class = SmokeVerified, cp_policy_revision_digest = [], cp_policy_generation = 1\<rparr>)"

definition example_genesis :: LocalCertificationLedgerGenesis where
  "example_genesis = \<lparr>lg_policy = example_policy, lg_attestation = example_attestation,
     lg_receipt = \<lparr>lrc_attestation_digest = [0], lrc_publication_status = LocalOnly\<rparr>\<rparr>"

definition example_record :: LocalCertificationLedgerRecord where
  "example_record = \<lparr>lr_sequence = 1, lr_previous_record_digest = None, lr_event = Genesis example_genesis\<rparr>"

definition example_revocation :: LocalCertificationLedgerRecord where
  "example_revocation = \<lparr>lr_sequence = 2, lr_previous_record_digest = Some [1], lr_event = RunnerRevocation [9]\<rparr>"

definition example_codec :: "unit LedgerCodec" where
  "example_codec =
     \<lparr>lc_sha256 = (\<lambda>bs. bs), lc_attestation_json = (\<lambda>a. Inr [0]),
      lc_record_json = (\<lambda>r. if r = example_record then Inr [1] else if r = example_revocation then Inr [2] else Inl ()),
      lc_from_slice = (\<lambda>bs. if bs = [1] then Inr example_record else if bs = [2] then Inr example_revocation else Inl ()),
      lc_custom = (\<lambda>e. ())\<rparr>"

definition example_directory :: LedgerDirectory where
  "example_directory = [(record_name 1, RegularFile [1])]"

definition example_ledger :: LocalCertificationLedger where
  "example_ledger = \<lparr>ll_poisoned = False, ll_state = \<lparr>ls_last_record = example_record, ls_head_digest = [1],
     ls_record_count = 1, ls_total_record_bytes = 1, ls_projection = projection_from_genesis example_genesis\<rparr>\<rparr>"

definition example_revoked :: LocalCertificationLedger where
  "example_revoked = \<lparr>ll_poisoned = False, ll_state = \<lparr>ls_last_record = example_revocation, ls_head_digest = [2],
     ls_record_count = 2, ls_total_record_bytes = 2,
     ls_projection = (projection_from_genesis example_genesis)\<lparr>pj_runner_generation := 2, pj_runner_revoked := True\<rparr>\<rparr>\<rparr>"

definition example_appended :: LedgerDirectory where
  "example_appended = example_directory @ [(UnicodeName (record_filename 2), RegularFile [2])]"

lemma example_distinct_records: "example_revocation \<noteq> example_record"
  by (simp add: example_revocation_def example_record_def)

lemma example_decode: "records_decode example_codec"
  using example_distinct_records by (auto simp: records_decode_def example_codec_def split: if_splits)

lemma example_json:
  "lc_record_json example_codec example_record = Inr [1]" "lc_record_json example_codec example_revocation = Inr [2]"
  using example_distinct_records by (simp_all add: example_codec_def)

lemma example_typed: "attestation_typed example_attestation" "control_policy_validate example_policy = Inr ()"
  by (simp_all add: attestation_typed_def attestation_into_checked_def example_attestation_def run_freshness_validate_def
      run_freshness_new_def run_runner_identity_validate_def run_runner_identity_new_def run_result_identity_validate_def
      run_result_identity_new_def control_policy_validate_def example_policy_def MAX_LOCAL_CERTIFICATION_RUN_FRESHNESS_MILLIS_def)

lemma example_decoded: "decode_record example_codec [1] = Inr example_record"
proof (rule decode_encoded [OF example_decode example_json(1)])
  show "validate_shape (lc_sha256 example_codec) (lc_attestation_json example_codec) example_record = Inr ()"
    by (simp add: validate_shape_def example_record_def is_genesis_def ledger_genesis_validate_def example_genesis_def
        accepts_attestation_def example_policy_def example_attestation_def validate_receipt_def example_codec_def
        hash_canonical_def)
qed (simp_all add: example_record_def example_genesis_def example_typed MAX_LOCAL_CERTIFICATION_LEDGER_RECORD_BYTES_def)

lemma example_contents: "contents_replay example_codec example_directory [[1]] (ll_state example_ledger)"
proof -
  have "replays example_codec ([] @ [[1]]) \<lparr>rs_total_record_bytes = 1, rs_previous_record = Some example_record,
      rs_previous_digest = Some [1], rs_projection = Some (projection_from_genesis example_genesis)\<rparr>"
    unfolding replays_snoc replays_Nil using example_decoded example_json
    by (simp add: replay_start_def example_record_def replay_event_def MAX_LOCAL_CERTIFICATION_LEDGER_BYTES_def example_codec_def)
  then show ?thesis
    unfolding contents_replay_def
    by (auto simp: example_directory_def example_ledger_def state_of_replay_def example_record_def
        MAX_LOCAL_CERTIFICATION_LEDGER_RECORDS_def MAX_LOCAL_CERTIFICATION_LEDGER_RECORD_BYTES_def)
qed

lemma example_replayed:
  "replay_directory example_codec (no_faults :: unit LedgerIo) (RootDirectory example_directory) None = Inr (ll_state example_ledger)"
  using replay_no_faults [of example_directory] example_contents by (simp add: example_directory_def) blast

lemma example_opened:
  "distinct (map fst example_directory)"
  "ledger_open example_codec (no_faults :: unit LedgerIo) (RootDirectory example_directory) [1] = Inr example_ledger"
proof -
  show "distinct (map fst example_directory)"
    by (simp add: example_directory_def)
  have "ls_head_digest (ll_state example_ledger) = [1]"
    by (simp add: example_ledger_def)
  then have "replay_directory example_codec (no_faults :: unit LedgerIo) (RootDirectory example_directory) (Some [1]) =
      Inr (ll_state example_ledger)"
    using replay_head [where 'io = unit, of example_codec "RootDirectory example_directory" "ll_state example_ledger"] example_replayed by simp
  then show "ledger_open example_codec (no_faults :: unit LedgerIo) (RootDirectory example_directory) [1] = Inr example_ledger"
    by (simp add: ledger_open_def) (simp add: example_ledger_def)
qed

lemma example_ready: "ledger_ready TYPE(unit) example_codec (RootDirectory example_directory) example_ledger"
  unfolding ledger_ready_def using example_opened by blast

lemma example_prepared:
  "append_prepare example_codec (no_faults :: unit LedgerIo) (RootDirectory example_directory) example_ledger (RunnerRevocation [9]) =
     Inr (example_revocation, [2], 2, (projection_from_genesis example_genesis)\<lparr>pj_runner_generation := 2, pj_runner_revoked := True\<rparr>)"
proof -
  have "ledger_record_next (lc_sha256 example_codec) (lc_attestation_json example_codec) (lc_record_json example_codec)
      example_record (RunnerRevocation [9]) = Inr example_revocation"
    unfolding ledger_record_next_Inr example_json
    by (simp add: is_genesis_def example_codec_def example_revocation_def) (simp add: example_record_def)
  moreover have "checked_add (1 :: u64) 1 = Some 2"
    by (simp add: checked_add_def)
  moreover have "pj_runner_generation (projection_from_genesis example_genesis) = 1"
    by (simp add: projection_from_genesis_def example_genesis_def example_policy_def example_attestation_def)
  ultimately show ?thesis
    unfolding append_prepare_def example_replayed
    by (simp add: example_ledger_def canonical_record_bytes_def example_json MAX_LOCAL_CERTIFICATION_LEDGER_RECORDS_def
        MAX_LOCAL_CERTIFICATION_LEDGER_RECORD_BYTES_def MAX_LOCAL_CERTIFICATION_LEDGER_BYTES_def checked_add_usize_def)
qed

lemma example_append:
  "ledger_operation example_codec (no_faults :: unit LedgerIo) id no_faults (RootDirectory example_directory) example_ledger
     (RevokeRunner [9]) =
   (Inr \<lparr>ar_sequence = 2, ar_record_digest = [2], ar_record_count = 2, ar_total_record_bytes = 2\<rparr>, example_revoked,
    RootDirectory (example_directory @ [(UnicodeName (record_filename 2), RegularFile [2])]))"
  "ledger_operation example_codec (no_faults :: unit LedgerIo) id (no_faults\<lparr>io_sync_record := (\<lambda>_. Some ())\<rparr>)
     (RootDirectory example_directory) example_ledger (RevokeRunner [9]) =
   (Inl (LeSyncRecord 2 ()), example_ledger,
    RootDirectory (example_directory @ [(UnicodeName (record_filename 2), RegularFile [2])]))"
proof -
  have "UnicodeName (record_filename 2) \<notin> fst ` set example_directory" "lr_sequence example_revocation = 2"
    by (simp_all add: example_directory_def record_filename_inj example_revocation_def)
  moreover have "lc_sha256 example_codec [2] = [2]"
    by (simp add: example_codec_def)
  ultimately show "ledger_operation example_codec (no_faults :: unit LedgerIo) id no_faults (RootDirectory example_directory) example_ledger
     (RevokeRunner [9]) =
   (Inr \<lparr>ar_sequence = 2, ar_record_digest = [2], ar_record_count = 2, ar_total_record_bytes = 2\<rparr>, example_revoked,
    RootDirectory (example_directory @ [(UnicodeName (record_filename 2), RegularFile [2])]))"
  "ledger_operation example_codec (no_faults :: unit LedgerIo) id (no_faults\<lparr>io_sync_record := (\<lambda>_. Some ())\<rparr>)
     (RootDirectory example_directory) example_ledger (RevokeRunner [9]) =
   (Inl (LeSyncRecord 2 ()), example_ledger,
    RootDirectory (example_directory @ [(UnicodeName (record_filename 2), RegularFile [2])]))"
    unfolding ledger_operation_def ledger_op_event.simps sum.case append_event_def example_prepared
    by (simp_all add: write_record_create_new_def validate_ledger_root_def no_faults_def append_commit_def record_digest_def
        hash_canonical_def example_json example_ledger_def example_revoked_def checked_add_usize_def Let_def)
qed

lemma example_reopened:
  "distinct (map fst example_appended)" "distinct (map fst (rev example_appended))"
  "ledger_open example_codec (no_faults :: unit LedgerIo) (RootDirectory example_appended) [2] = Inr example_revoked"
  "ledger_open example_codec (no_faults :: unit LedgerIo) (RootDirectory (rev example_appended)) [2] = Inr example_revoked"
proof -
  show "distinct (map fst example_appended)" "distinct (map fst (rev example_appended))"
    by (simp_all add: example_appended_def example_directory_def record_filename_inj)
  have "in_sync example_codec (RootDirectory example_appended) example_revoked"
    using operation_outcome [OF example_decode ready_in_sync [OF example_ready] _ example_append(1) [folded example_appended_def]] by simp
  from in_sync_reopens [OF this, where 'io = unit]
  show "ledger_open example_codec (no_faults :: unit LedgerIo) (RootDirectory example_appended) [2] = Inr example_revoked"
    "ledger_open example_codec (no_faults :: unit LedgerIo) (RootDirectory (rev example_appended)) [2] = Inr example_revoked"
    by (simp_all add: example_revoked_def)
qed

subsection \<open>Properties\<close>

text \<open>
  C3: Durability. Over any sequence of calls on a ledger that was just opened or created, whatever
  the I/O calls answer, the state in memory is the abstract history of exactly the accepted calls:
  the projection is the one their events give, and there is one record per accepted call. As long
  as no write or synchronization fails, opening the directory under the ledger's head digest, in
  whatever order it is enumerated, gives back exactly the ledger.
\<close>

theorem ledger_durable:
  fixes steps :: "'io ledger_step list"
  assumes "records_decode codec" "ledger_ready TYPE('io) codec root0 l0"
    and "list_all (\<lambda>(io, io', operation). op_typed operation) steps"
    and "ledger_run codec root0 l0 steps = (results, l, root)"
  shows "(apply_all (ls_projection (ll_state l0)) (accepted_events codec steps results) ::
      (unit, unit, LedgerProjection) ledger_result) = Inr (ls_projection (ll_state l)) \<and>
    ls_record_count (ll_state l) = ls_record_count (ll_state l0) + length (accepted_events codec steps results) \<and>
    (list_all (\<lambda>(io, io', operation). \<not> writes_fail io') steps \<longrightarrow>
      (\<exists>dir. root = RootDirectory dir \<and> (\<forall>dir'. mset dir' = mset dir \<longrightarrow>
        ledger_open codec (no_faults :: 'io LedgerIo) (RootDirectory dir') (ls_head_digest (ll_state l)) = Inr l)))"
proof -
  note out = run_outcome [OF assms(1) ready_in_sync [OF assms(2)] assms(3,4)]
  have "in_sync codec root l" if "list_all (\<lambda>(io, io', operation). \<not> writes_fail io') steps"
    using out(3) that by (auto simp: list_all_iff list_ex_iff)
  then show ?thesis
    using out(1,2) in_sync_reopens by blast
qed

theorem ledger_durable_witness:
  "\<exists>dir. snd (snd (ledger_run example_codec (RootDirectory example_directory) example_ledger
      [((no_faults :: unit LedgerIo), no_faults, RevokeRunner [9])])) = RootDirectory dir \<and>
    ledger_open example_codec (no_faults :: unit LedgerIo) (RootDirectory (rev dir)) [2] = Inr example_revoked"
proof -
  have "\<not> writes_fail (no_faults :: unit LedgerIo)" "ls_head_digest (ll_state example_revoked) = [2]"
    by (simp_all add: writes_fail_def no_faults_def example_revoked_def)
  then show ?thesis
    using ledger_durable [OF example_decode example_ready,
        of "[((no_faults :: unit LedgerIo), no_faults, RevokeRunner [9])]" _ example_revoked] example_append(1)
    by simp
qed

text \<open>
  C25: The ledger fails closed. After any calls on it, a call that answers with an error leaves the
  ledger in memory as it was and either leaves the directory as it was, or (its write failed with
  the new record on disk) every later call on the ledger is refused and changes nothing.
\<close>

theorem ledger_fails_closed:
  fixes steps :: "'io ledger_step list"
  assumes "records_decode codec" "ledger_ready TYPE('io) codec root0 l0"
    and "list_all (\<lambda>(io, io', operation). op_typed operation) steps" "op_typed operation"
    and "ledger_run codec root0 l0 steps = (results, l, root)"
    and "ledger_operation codec io id io' root l operation = (Inl err, l', root')"
  shows "l' = l \<and> (root' = root \<or>
    (\<forall>later :: 'io ledger_step list. \<exists>refusals. ledger_run codec root' l' later = (refusals, l, root') \<and> list_all isl refusals))"
proof -
  have refused: "\<exists>refusals. ledger_run codec r m later = (refusals, m, r) \<and> list_all isl refusals"
    if "overtaken r m" for r m and later :: "'io ledger_step list"
    using overtaken_run [OF that] by (metis prod_cases3)
  consider "in_sync codec root l" | "overtaken root l"
    using run_outcome(3) [OF assms(1) ready_in_sync [OF assms(2)] assms(3,5)] by blast
  then show ?thesis
  proof cases
    case 1
    then have "l' = l \<and> (root' = root \<or> overtaken root' l)"
      using operation_outcome [OF assms(1) 1 assms(4,6)] by auto
    then show ?thesis
      using refused by blast
  next
    case 2
    then show ?thesis
      using overtaken_operation [OF 2, of codec io id io' operation] assms(6) by auto
  qed
qed

theorem ledger_fails_closed_witness:
  "\<exists>refusals. ledger_run example_codec (RootDirectory example_appended) example_ledger
      [((no_faults :: unit LedgerIo), no_faults, RevokeRunner [9])] =
    (refusals, example_ledger, RootDirectory example_appended) \<and> list_all isl refusals"
proof -
  have "RootDirectory example_appended \<noteq> RootDirectory example_directory"
    by (simp add: example_appended_def)
  then show ?thesis
    using ledger_fails_closed [OF example_decode example_ready, of "[]" "RevokeRunner [9]" "[]",
        OF _ _ _ example_append(2) [folded example_appended_def]]
    by (simp del: ledger_run.simps(2))
qed

text \<open>
  C24: Two writers never both extend the same head. When two ledgers are ready on one directory and
  a call of the second is accepted between the replay and the write of a call of the first, the
  first is refused, keeps its state, and is refused from then on; the record the second has
  written stays.
\<close>

theorem ledger_single_winner:
  fixes codec :: "'je LedgerCodec" and io1 :: "'io LedgerIo"
  assumes "records_decode codec" "ledger_ready TYPE('io) codec root l1" "ledger_ready TYPE('io) codec root l2"
    and "op_typed operation1" "op_typed operation2"
    and "ledger_operation codec io2 id io2' root l2 operation2 = (Inr receipt, l2', root')"
  shows "(\<exists>err r. ledger_operation codec io1 (\<lambda>_. root') io1' root l1 operation1 = (Inl err, l1, r) \<and> r \<in> {root, root'}) \<and>
    (\<forall>later :: 'io ledger_step list. \<exists>refusals. ledger_run codec root' l1 later = (refusals, l1, root') \<and> list_all isl refusals) \<and>
    in_sync codec root' l2'"
proof -
  have sync: "in_sync codec root l1" "in_sync codec root l2"
    using assms(2,3) ready_in_sync by blast+
  then obtain dir bss bss2 where dir: "root = RootDirectory dir" "distinct (map fst dir)" "contents_replay codec dir bss (ll_state l1)"
    "contents_replay codec dir bss2 (ll_state l2)"
    by (auto simp: in_sync_def)
  have count: "ls_record_count (ll_state l1) = length dir" "ls_record_count (ll_state l2) = length dir"
    using contents_state(1,2) [OF dir(3)] contents_state(1,2) [OF dir(4)] by simp_all
  have won: "in_sync codec root' l2'" "ls_record_count (ll_state l2') = Suc (length dir)"
    using operation_outcome [OF assms(1) sync(2) assms(5,6)] count(2) by simp_all
  then obtain dir' bss' where dir': "root' = RootDirectory dir'" "distinct (map fst dir')" "contents_replay codec dir' bss' (ll_state l2')"
    by (auto simp: in_sync_def)
  have len: "length bss' = Suc (length dir)" "length dir' = Suc (length dir)"
    using contents_state(1,2) [OF dir'(3)] won(2) by simp_all
  then have over: "overtaken root' l1"
    using dir' count(1) by (auto simp: overtaken_def)
  have "\<exists>err r. append_event codec io1 (\<lambda>_. root') io1' root l1 e = (Inl err, l1, r) \<and> r \<in> {root, root'}"
    if "event_typed e" for e
  proof (cases "append_prepare codec io1 root l1 e")
    case (Inr y)
    obtain r bs n p where y: "append_prepare codec io1 root l1 e = Inr (r, bs, n, p)"
      using Inr by (cases y) auto
    have "lr_sequence r = of_nat (Suc (length dir))"
      using appended_replays(1) [OF assms(1) dir(3) that y] contents_state(1) [OF dir(3)] by simp
    then have "UnicodeName (record_filename (lr_sequence r)) \<in> fst ` set dir'"
      unfolding contents_names [OF dir'(3)] len(1)
      by (intro image_eqI [of _ _ "Suc (length dir)"]) (simp_all del: of_nat_Suc)
    then show ?thesis
      unfolding append_event_def y unfolding write_record_create_new_def validate_ledger_root_def dir'(1)
      by (auto simp: Let_def split: option.splits)
  qed (simp add: append_event_def)
  then have "\<exists>err r. ledger_operation codec io1 (\<lambda>_. root') io1' root l1 operation1 = (Inl err, l1, r) \<and> r \<in> {root, root'}"
    using assms(4) typed_op_event [of operation1 codec, where 'io = 'io]
    by (auto simp: ledger_operation_def split: sum.splits)
  then show ?thesis
    using overtaken_run [OF over] won(1) by (metis prod_cases3)
qed

theorem ledger_single_winner_witness:
  "\<exists>err r. ledger_operation example_codec (no_faults :: unit LedgerIo) (\<lambda>_. RootDirectory example_appended) no_faults
      (RootDirectory example_directory) example_ledger (RevokeRunner [9]) = (Inl err, example_ledger, r) \<and>
    r \<in> {RootDirectory example_directory, RootDirectory example_appended}"
  using ledger_single_winner [OF example_decode example_ready example_ready _ _ example_append(1) [folded example_appended_def],
      of "RevokeRunner [9]" "no_faults :: unit LedgerIo" no_faults]
  by simp

text \<open>
  C14: Tamper evidence. Two directories that open under the same head digest hold the same files
  with the same bytes and open as the same ledger, unless the digest collides on two of their
  files: a pinned head excludes every other, edited, reordered, truncated or extended history.
\<close>

theorem ledger_tamper_evident:
  assumes "distinct (map fst dir1)" "distinct (map fst dir2)"
    and "ledger_open codec io1 (RootDirectory dir1) head = Inr l1"
    and "ledger_open codec io2 (RootDirectory dir2) head = Inr l2"
    and "inj_on (lc_sha256 codec) {bs. RegularFile bs \<in> snd ` (set dir1 \<union> set dir2)}"
  shows "mset dir1 = mset dir2 \<and> l1 = l2"
proof -
  note o1 = opened_in_sync [OF assms(1,3)] and o2 = opened_in_sync [OF assms(2,4)]
  obtain bss1 bss2 where c: "contents_replay codec dir1 bss1 (ll_state l1)" "contents_replay codec dir2 bss2 (ll_state l2)"
    and p: "\<not> ll_poisoned l1" "\<not> ll_poisoned l2"
    using o1(1) o2(1) by (auto simp: in_sync_def)
  then obtain s1 s2 where s: "replays codec bss1 s1" "ll_state l1 = state_of_replay s1" "replays codec bss2 s2" "ll_state l2 = state_of_replay s2"
    "bss1 \<noteq> []" "bss2 \<noteq> []"
    by (auto simp: contents_replay_def)
  have "{bs. RegularFile bs \<in> snd ` (set dir1 \<union> set dir2)} = set bss1 \<union> set bss2"
    using contents_files [OF c(1)] contents_files [OF c(2)] by auto
  then have inj: "inj_on (lc_sha256 codec) (set bss1 \<union> set bss2)"
    using assms(5) by simp
  have "rs_previous_digest s1 = rs_previous_digest s2"
    using o1(2) o2(2) replayed_state(3) [OF s(1,5)] replayed_state(3) [OF s(3,6)]
    by (simp add: s(2,4) state_of_replay_def)
  then have "bss1 = bss2"
    by (rule head_determines [OF inj s(1,3) [unfolded replays_def]])
  then have "s1 = s2" "mset dir1 = mset dir2"
    using s(1,3) c by (auto simp: replays_def contents_replay_def)
  then show ?thesis
    using p s(2,4) by (cases l1; cases l2) simp
qed

theorem ledger_tamper_evident_witness:
  "\<exists>l1 l2. ledger_open example_codec (no_faults :: unit LedgerIo) (RootDirectory example_appended) [2] = Inr l1 \<and>
    ledger_open example_codec (no_faults :: unit LedgerIo) (RootDirectory (rev example_appended)) [2] = Inr l2 \<and>
    mset example_appended = mset (rev example_appended) \<and> l1 = l2"
  using ledger_tamper_evident [OF example_reopened(1,2) example_reopened(3,4)] example_reopened(3,4)
  by (simp add: example_codec_def)

text \<open>
  C15: What an accepted ledger proves. A directory that opens holds, in sequence, one genesis and then
  no other; every publication in it was accepted by the policy in force at that point, after no
  revocation since the last replacement, with a freshness challenge that appears nowhere before;
  all challenges are different; and the policy, the revocation flags and both generation counters
  of the ledger are the ones that history gives.
\<close>

theorem ledger_history:
  assumes "distinct (map fst dir)" "ledger_open codec io (RootDirectory dir) head = Inr l"
  shows "\<exists>bss g es. mset dir = mset (stored_from 1 bss) \<and> ledger_events codec bss = Genesis g # es \<and>
    list_all (\<lambda>e. \<not> is_genesis e) es \<and>
    (\<forall>pre p post. es = pre @ Publication p # post \<longrightarrow> publication_ok g pre p) \<and>
    distinct (attestation_challenge (lg_attestation g) # published_challenges es) \<and>
    pj_policy (ls_projection (ll_state l)) = policy_in_force (lg_policy g) es \<and>
    pj_runner_revoked (ls_projection (ll_state l)) = runner_revoked False es \<and>
    pj_certification_revoked (ls_projection (ll_state l)) = certification_revoked False es \<and>
    unat (pj_runner_generation (ls_projection (ll_state l))) =
      unat (rr_policy_generation (cp_runner (lg_policy g))) + runner_changes es \<and>
    unat (pj_certification_generation (ls_projection (ll_state l))) =
      unat (cp_policy_generation (lg_policy g)) + certification_changes es \<and>
    ls_record_count (ll_state l) = Suc (length es) \<and>
    ls_total_record_bytes (ll_state l) = sum_list (map length bss)"
proof -
  obtain bss where c: "contents_replay codec dir bss (ll_state l)"
    using opened_in_sync(1) [OF assms] by (auto simp: in_sync_def)
  then obtain s where s: "replays codec bss s" "ll_state l = state_of_replay s" "bss \<noteq> []"
    by (auto simp: contents_replay_def)
  obtain g es p where h: "ledger_events codec bss = Genesis g # es" "rs_projection s = Some p"
      "(apply_all (projection_from_genesis g) es :: (unit, unit, LedgerProjection) ledger_result) = Inr p"
    using replayed_state(1) [OF s(1,3)] by blast
  have p: "ls_projection (ll_state l) = p"
    by (simp add: s(2) state_of_replay_def h(2))
  have "length bss = Suc (length es)"
    using arg_cong [OF h(1), of length] by (simp add: ledger_events_def)
  then show ?thesis
    using c h(1) apply_all_projection [OF h(3)] history_challenges [OF h(3)] history_publications [OF h(3)] contents_state(2,6) [OF c]
    unfolding p projection_after_def
    by (intro exI [of _ bss] exI [of _ g] exI [of _ es]) (simp add: contents_replay_def projection_from_genesis_def)
qed

theorem ledger_history_witness:
  "\<exists>bss g es. mset example_directory = mset (stored_from 1 bss) \<and> ledger_events example_codec bss = Genesis g # es \<and>
     ls_record_count (ll_state example_ledger) = Suc (length es)"
  using ledger_history [OF example_opened] by blast

end
