(* ===== verification/Certification_Evidence.thy ===== *)
theory Certification_Evidence
  imports Certification_Records Bounded_Documents
begin

section \<open>Certification profiles and evidence\<close>

text \<open>
  \<open>weregopher-domain/src/certification_evidence.rs\<close>: check assessments, certification profiles and
  evidence documents, their bounded readers, the disposition of evidence and its validation
  against a profile. A role-named digest is its SHA-256 digest, the single-valued format versions
  are left out, and the canonical encodings are parameters. A \<open>BTreeSet\<close> of artifact references is
  the list of its elements in their derived order, kind first.
\<close>

definition MAX_CERTIFICATION_EVIDENCE_REFS :: usize where "MAX_CERTIFICATION_EVIDENCE_REFS = 64"
definition MAX_CERTIFICATION_WORKFLOWS :: usize where "MAX_CERTIFICATION_WORKFLOWS = 128"
definition CERTIFICATION_FIXED_CHECK_COUNT :: usize where "CERTIFICATION_FIXED_CHECK_COUNT = 13"
definition MAX_CERTIFICATION_DOCUMENT_BYTES :: usize where "MAX_CERTIFICATION_DOCUMENT_BYTES = 4 * 1024 * 1024"
definition MAX_CERTIFICATION_PROFILE_DOCUMENT_BYTES :: usize where "MAX_CERTIFICATION_PROFILE_DOCUMENT_BYTES = 128 * 1024"


datatype CertificationEvidenceDisposition = DispositionIncomplete | DispositionBlocked | DispositionComplete

datatype CertificationProfileClass =
    ProfileStructuralVerified | ProfileSmokeVerified | ProfileContractVerified | ProfileExactCertified

datatype CertificationExpectedStatus = ExpectPassed | ExpectNotApplicable

datatype CertificationCheckStatus = CheckNotRun | CheckPassed | CheckFailed | CheckNotApplicable

fun expected_matches :: "CertificationExpectedStatus \<Rightarrow> CertificationCheckStatus \<Rightarrow> bool" where
  "expected_matches ExpectPassed actual \<longleftrightarrow> actual = CheckPassed"
| "expected_matches ExpectNotApplicable actual \<longleftrightarrow> actual = CheckNotApplicable"

datatype CertificationCheckDimension =
    DimensionPackageIdentity
  | DimensionEntryPointResolution
  | DimensionTransformMatches
  | DimensionModuleGraph
  | DimensionNativeDependencies
  | DimensionRuntimeBootstrap
  | DimensionRendererBootstrap
  | DimensionPreloadHandshake
  | DimensionStateSafety
  | DimensionHelperLifecycle
  | DimensionSecurityContract
  | DimensionResourceScenario
  | DimensionDeclaredExceptions

subsection \<open>Artifact references\<close>

fun artifact_kind_tag :: "CertificationArtifactKind \<Rightarrow> u8" where
  "artifact_kind_tag PackageIdentity = 0"
| "artifact_kind_tag StaticAnalysis = 1"
| "artifact_kind_tag RuntimeProbe = 2"
| "artifact_kind_tag RendererProbe = 3"
| "artifact_kind_tag StateProbe = 4"
| "artifact_kind_tag SecurityProbe = 5"
| "artifact_kind_tag WorkflowProbe = 6"
| "artifact_kind_tag ResourceProbe = 7"
| "artifact_kind_tag HelperProbe = 8"
| "artifact_kind_tag ExceptionVerification = 9"

definition ref_key :: "CertificationArtifactRef \<Rightarrow> u8 \<times> bytes" where
  "ref_key r = (artifact_kind_tag (car_kind r), car_digest r)"

text \<open>Collecting references into a \<open>BTreeSet\<close>, and \<open>sort_unstable\<close> followed by \<open>dedup\<close>.\<close>

definition sorted_refs :: "CertificationArtifactRef list \<Rightarrow> CertificationArtifactRef list" where
  "sorted_refs rs = remdups_adj (sort_key ref_key rs)"

subsection \<open>Assessments\<close>

datatype CertificationContractError =
    CnMissingEvidence
  | CnUnexpectedEvidence
  | CnTooManyEvidenceReferences
  | CnDuplicateEvidenceReference
  | CnTooManyWorkflowAssessments
  | CnTooManyProfileWorkflows

record CertificationCheckAssessment =
  as_status :: CertificationCheckStatus
  as_evidence :: "CertificationArtifactRef list"

definition check_assessment_new ::
    "CertificationCheckStatus \<Rightarrow> CertificationArtifactRef list \<Rightarrow> CertificationContractError + CertificationCheckAssessment" where
  "check_assessment_new status values =
     (if MAX_CERTIFICATION_EVIDENCE_REFS < length values then Inl CnTooManyEvidenceReferences
      else
        let evidence = sorted_refs values in
        if length evidence \<noteq> length values then Inl CnDuplicateEvidenceReference
        else if status = CheckNotRun \<and> evidence \<noteq> [] then Inl CnUnexpectedEvidence
        else if status \<noteq> CheckNotRun \<and> evidence = [] then Inl CnMissingEvidence
        else Inr \<lparr>as_status = status, as_evidence = evidence\<rparr>)"

definition check_not_run :: CertificationCheckAssessment where
  "check_not_run = \<lparr>as_status = CheckNotRun, as_evidence = []\<rparr>"

datatype EvidenceProblem =
    ContractProblem CertificationContractError
  | DuplicateEvidenceWorkflow
  | DuplicateProfileWorkflow

record 'je RawCheckAssessment =
  ra_status :: "'je + CertificationCheckStatus"
  ra_evidence :: "('je, CertificationArtifactRef) SeqAccess"

definition deserialize_certification_artifacts ::
    "(EvidenceProblem \<Rightarrow> 'je) \<Rightarrow> ('je, CertificationArtifactRef) SeqAccess \<Rightarrow> 'je + CertificationArtifactRef list" where
  "deserialize_certification_artifacts custom access =
     visit_bounded_seq MAX_CERTIFICATION_EVIDENCE_REFS (custom (ContractProblem CnTooManyEvidenceReferences)) access"

definition check_assessment_deserialize ::
    "(EvidenceProblem \<Rightarrow> 'je) \<Rightarrow> 'je RawCheckAssessment \<Rightarrow> 'je + CertificationCheckAssessment" where
  "check_assessment_deserialize custom raw =
     rbind (ra_status raw) (\<lambda>status.
     rbind (deserialize_certification_artifacts custom (ra_evidence raw)) (\<lambda>evidence.
     map_err (\<lambda>e. custom (ContractProblem e)) (check_assessment_new status evidence)))"

subsection \<open>Profiles\<close>

record CertificationChecks =
  ck_package_identity :: CertificationCheckAssessment
  ck_entry_point_resolution :: CertificationCheckAssessment
  ck_transform_matches :: CertificationCheckAssessment
  ck_module_graph :: CertificationCheckAssessment
  ck_native_dependencies :: CertificationCheckAssessment
  ck_runtime_bootstrap :: CertificationCheckAssessment
  ck_renderer_bootstrap :: CertificationCheckAssessment
  ck_preload_handshake :: CertificationCheckAssessment
  ck_state_safety :: CertificationCheckAssessment
  ck_helper_lifecycle :: CertificationCheckAssessment
  ck_security_contract :: CertificationCheckAssessment
  ck_resource_scenario :: CertificationCheckAssessment
  ck_declared_exceptions :: CertificationCheckAssessment

definition certification_assessments :: "CertificationChecks \<Rightarrow> CertificationCheckAssessment list" where
  "certification_assessments c =
     [ck_package_identity c,
      ck_entry_point_resolution c,
      ck_transform_matches c,
      ck_module_graph c,
      ck_native_dependencies c,
      ck_runtime_bootstrap c,
      ck_renderer_bootstrap c,
      ck_preload_handshake c,
      ck_state_safety c,
      ck_helper_lifecycle c,
      ck_security_contract c,
      ck_resource_scenario c,
      ck_declared_exceptions c]"

record CertificationProfileChecks =
  px_package_identity :: CertificationExpectedStatus
  px_entry_point_resolution :: CertificationExpectedStatus
  px_transform_matches :: CertificationExpectedStatus
  px_module_graph :: CertificationExpectedStatus
  px_native_dependencies :: CertificationExpectedStatus
  px_runtime_bootstrap :: CertificationExpectedStatus
  px_renderer_bootstrap :: CertificationExpectedStatus
  px_preload_handshake :: CertificationExpectedStatus
  px_state_safety :: CertificationExpectedStatus
  px_helper_lifecycle :: CertificationExpectedStatus
  px_security_contract :: CertificationExpectedStatus
  px_resource_scenario :: CertificationExpectedStatus
  px_declared_exceptions :: CertificationExpectedStatus

definition expectations :: "CertificationProfileChecks \<Rightarrow> (CertificationCheckDimension \<times> CertificationExpectedStatus) list" where
  "expectations c =
     [(DimensionPackageIdentity, px_package_identity c),
      (DimensionEntryPointResolution, px_entry_point_resolution c),
      (DimensionTransformMatches, px_transform_matches c),
      (DimensionModuleGraph, px_module_graph c),
      (DimensionNativeDependencies, px_native_dependencies c),
      (DimensionRuntimeBootstrap, px_runtime_bootstrap c),
      (DimensionRendererBootstrap, px_renderer_bootstrap c),
      (DimensionPreloadHandshake, px_preload_handshake c),
      (DimensionStateSafety, px_state_safety c),
      (DimensionHelperLifecycle, px_helper_lifecycle c),
      (DimensionSecurityContract, px_security_contract c),
      (DimensionResourceScenario, px_resource_scenario c),
      (DimensionDeclaredExceptions, px_declared_exceptions c)]"

record CertificationProfile =
  cf_class :: CertificationProfileClass
  cf_checks :: CertificationProfileChecks
  cf_workflows :: "(string \<times> unit) list"

definition certification_profile_new ::
    "CertificationProfileClass \<Rightarrow> CertificationProfileChecks \<Rightarrow> (string \<times> unit) list \<Rightarrow>
     CertificationContractError + CertificationProfile" where
  "certification_profile_new class checks workflows =
     (if MAX_CERTIFICATION_WORKFLOWS < length workflows then Inl CnTooManyProfileWorkflows
      else Inr \<lparr>cf_class = class, cf_checks = checks, cf_workflows = workflows\<rparr>)"

fun visit_profile_workflows ::
    "(EvidenceProblem \<Rightarrow> 'je) \<Rightarrow> usize \<Rightarrow> ('je, string) RawElement list \<Rightarrow> 'je + unit \<Rightarrow> (string \<times> unit) list \<Rightarrow>
     'je + (string \<times> unit) list" where
  "visit_profile_workflows custom k [] fin workflows = rbind fin (\<lambda>_. Inr workflows)"
| "visit_profile_workflows custom 0 (element # elements) fin workflows =
     rbind (rl_ignored element) (\<lambda>_. Inl (custom (ContractProblem CnTooManyProfileWorkflows)))"
| "visit_profile_workflows custom (Suc k) (element # elements) fin workflows =
     rbind (rl_element element) (\<lambda>feature.
     if bs_contains workflows feature then Inl (custom DuplicateProfileWorkflow)
     else visit_profile_workflows custom k elements fin (bt_insert feature () workflows))"

definition deserialize_certification_profile_workflows ::
    "(EvidenceProblem \<Rightarrow> 'je) \<Rightarrow> ('je, string) SeqAccess \<Rightarrow> 'je + (string \<times> unit) list" where
  "deserialize_certification_profile_workflows custom access =
     (if (case sa_size_hint access of Some n \<Rightarrow> MAX_CERTIFICATION_WORKFLOWS < n | None \<Rightarrow> False)
      then Inl (custom (ContractProblem CnTooManyProfileWorkflows))
      else visit_profile_workflows custom MAX_CERTIFICATION_WORKFLOWS (sa_elements access) (sa_finish access) [])"

datatype 'je CertificationDocumentError = CdoDocumentTooLarge | CdoInvalidJson 'je

record 'je RawProfile =
  rf_class :: CertificationProfileClass
  rf_checks :: CertificationProfileChecks
  rf_workflows :: "('je, string) SeqAccess"

definition certification_profile_from_json_slice ::
    "(bytes \<Rightarrow> 'je + 'je RawProfile) \<Rightarrow> (EvidenceProblem \<Rightarrow> 'je) \<Rightarrow> bytes \<Rightarrow>
     'je CertificationDocumentError + CertificationProfile" where
  "certification_profile_from_json_slice from_slice custom bs =
     (if MAX_CERTIFICATION_PROFILE_DOCUMENT_BYTES < length bs then Inl CdoDocumentTooLarge
      else
        rbind (map_err CdoInvalidJson (from_slice bs)) (\<lambda>raw.
        rbind (map_err CdoInvalidJson (deserialize_certification_profile_workflows custom (rf_workflows raw))) (\<lambda>workflows.
        map_err (\<lambda>e. CdoInvalidJson (custom (ContractProblem e)))
          (certification_profile_new (rf_class raw) (rf_checks raw) workflows))))"

subsection \<open>Evidence\<close>

record CertificationEvidence =
  ev_target :: CertificationTarget
  ev_profile_digest :: Sha256Digest
  ev_checks :: CertificationChecks
  ev_workflows :: "(string \<times> CertificationCheckAssessment) list"

definition certification_evidence_new ::
    "CertificationTarget \<Rightarrow> Sha256Digest \<Rightarrow> CertificationChecks \<Rightarrow> (string \<times> CertificationCheckAssessment) list \<Rightarrow>
     CertificationContractError + CertificationEvidence" where
  "certification_evidence_new target profile_digest checks workflows =
     (if MAX_CERTIFICATION_WORKFLOWS < length workflows then Inl CnTooManyWorkflowAssessments
      else Inr \<lparr>ev_target = target, ev_profile_digest = profile_digest, ev_checks = checks, ev_workflows = workflows\<rparr>)"

definition deserialize_certification_workflows ::
    "(EvidenceProblem \<Rightarrow> 'je) \<Rightarrow> ('je, string, CertificationCheckAssessment) MapAccess \<Rightarrow>
     'je + (string \<times> CertificationCheckAssessment) list" where
  "deserialize_certification_workflows custom access =
     visit_bounded_map MAX_CERTIFICATION_WORKFLOWS (custom (ContractProblem CnTooManyWorkflowAssessments))
       (custom DuplicateEvidenceWorkflow) access"

text \<open>
  The decoded fields; the fixed checks and the workflow values were decoded with
  \<open>check_assessment_deserialize\<close>.
\<close>

record 'je RawEvidence =
  re_target :: CertificationTarget
  re_profile_digest :: Sha256Digest
  re_checks :: "'je + CertificationChecks"
  re_workflows :: "('je, string, CertificationCheckAssessment) MapAccess"

definition certification_evidence_from_json_slice ::
    "(bytes \<Rightarrow> 'je + 'je RawEvidence) \<Rightarrow> (EvidenceProblem \<Rightarrow> 'je) \<Rightarrow> bytes \<Rightarrow>
     'je CertificationDocumentError + CertificationEvidence" where
  "certification_evidence_from_json_slice from_slice custom bs =
     (if MAX_CERTIFICATION_DOCUMENT_BYTES < length bs then Inl CdoDocumentTooLarge
      else
        rbind (map_err CdoInvalidJson (from_slice bs)) (\<lambda>raw.
        rbind (map_err CdoInvalidJson (re_checks raw)) (\<lambda>checks.
        rbind (map_err CdoInvalidJson (deserialize_certification_workflows custom (re_workflows raw))) (\<lambda>workflows.
        map_err (\<lambda>e. CdoInvalidJson (custom (ContractProblem e)))
          (certification_evidence_new (re_target raw) (re_profile_digest raw) checks workflows)))))"

definition all_assessments :: "CertificationEvidence \<Rightarrow> CertificationCheckAssessment list" where
  "all_assessments e = certification_assessments (ev_checks e) @ map snd (ev_workflows e)"

definition artifact_references :: "CertificationEvidence \<Rightarrow> CertificationArtifactRef list" where
  "artifact_references e = concat (map as_evidence (all_assessments e))"

fun disposition_loop :: "CertificationCheckAssessment list \<Rightarrow> bool \<Rightarrow> bool \<Rightarrow> bool \<times> bool" where
  "disposition_loop [] has_failure has_gap = (has_failure, has_gap)"
| "disposition_loop (a # rest) has_failure has_gap =
     disposition_loop rest (has_failure \<or> as_status a = CheckFailed) (has_gap \<or> as_status a = CheckNotRun)"

definition evidence_disposition :: "CertificationEvidence \<Rightarrow> CertificationEvidenceDisposition" where
  "evidence_disposition e =
     (case disposition_loop (all_assessments e) False False of
        (has_failure, has_gap) \<Rightarrow>
          if has_failure then DispositionBlocked
          else if has_gap then DispositionIncomplete
          else DispositionComplete)"

datatype 'je CertificationProfileValidationError =
    PvProfileDigestUnavailable 'je
  | PvProfileDigestMismatch
  | PvCheckStatusMismatch CertificationCheckDimension CertificationExpectedStatus CertificationCheckStatus
  | PvWorkflowScopeMismatch
  | PvWorkflowStatusMismatch string CertificationCheckStatus

fun validate_checks ::
    "((CertificationCheckDimension \<times> CertificationExpectedStatus) \<times> CertificationCheckAssessment) list \<Rightarrow>
     'je CertificationProfileValidationError + unit" where
  "validate_checks [] = Inr ()"
| "validate_checks (((dimension, expected), actual) # rest) =
     (if \<not> expected_matches expected (as_status actual)
      then Inl (PvCheckStatusMismatch dimension expected (as_status actual))
      else validate_checks rest)"

fun validate_workflows ::
    "(string \<times> CertificationCheckAssessment) list \<Rightarrow> 'je CertificationProfileValidationError + unit" where
  "validate_workflows [] = Inr ()"
| "validate_workflows ((feature, assessment) # rest) =
     (if as_status assessment \<noteq> CheckPassed then Inl (PvWorkflowStatusMismatch feature (as_status assessment))
      else validate_workflows rest)"

record StructurallyValidatedCertificationEvidence =
  sv_profile :: CertificationProfile
  sv_evidence :: CertificationEvidence

definition validate_against_profile ::
    "(bytes \<Rightarrow> Sha256Digest) \<Rightarrow> (CertificationProfile \<Rightarrow> 'je + bytes) \<Rightarrow> CertificationEvidence \<Rightarrow> CertificationProfile \<Rightarrow>
     'je CertificationProfileValidationError + StructurallyValidatedCertificationEvidence" where
  "validate_against_profile sha256 profile_json self profile =
     rbind (map_err PvProfileDigestUnavailable (hash_canonical sha256 (profile_json profile))) (\<lambda>profile_digest.
     if ev_profile_digest self \<noteq> profile_digest then Inl PvProfileDigestMismatch
     else
       rbind (validate_checks (zip (expectations (cf_checks profile)) (certification_assessments (ev_checks self)))) (\<lambda>_.
       if length (ev_workflows self) \<noteq> length (cf_workflows profile) \<or>
          map fst (ev_workflows self) \<noteq> map fst (cf_workflows profile)
       then Inl PvWorkflowScopeMismatch
       else
         rbind (validate_workflows (ev_workflows self)) (\<lambda>_.
         Inr \<lparr>sv_profile = profile, sv_evidence = self\<rparr>)))"

subsection \<open>Valid evidence\<close>

lemma disposition_loop_eq:
  "disposition_loop as f g = (f \<or> (\<exists>a \<in> set as. as_status a = CheckFailed), g \<or> (\<exists>a \<in> set as. as_status a = CheckNotRun))"
  by (induction as arbitrary: f g) auto

lemma validate_checks_Inr:
  "validate_checks cs = Inr u \<longleftrightarrow> (\<forall>((d, x), a) \<in> set cs. expected_matches x (as_status a))"
  by (induction cs rule: validate_checks.induct) auto

lemma validate_workflows_Inr: "validate_workflows ws = Inr u \<longleftrightarrow> (\<forall>(f, a) \<in> set ws. as_status a = CheckPassed)"
  by (induction ws rule: validate_workflows.induct) auto

lemma expected_resolved: "expected_matches x s \<Longrightarrow> s \<noteq> CheckFailed \<and> s \<noteq> CheckNotRun"
  by (cases x) auto

lemma length_checks [simp]: "length (expectations p) = 13" "length (certification_assessments c) = 13"
  by (simp_all add: expectations_def certification_assessments_def)

text \<open>
  Evidence that is valid for a profile has run and passed every check, so its disposition is complete.
\<close>

lemma validated_complete:
  assumes "validate_against_profile sha256 profile_json e p = Inr v"
  shows "v = \<lparr>sv_profile = p, sv_evidence = e\<rparr>" "evidence_disposition e = DispositionComplete"
    "list_all2 (\<lambda>(d, x) a. expected_matches x (as_status a)) (expectations (cf_checks p)) (certification_assessments (ev_checks e))"
    "map fst (ev_workflows e) = map fst (cf_workflows p)" "list_all (\<lambda>(f, a). as_status a = CheckPassed) (ev_workflows e)"
proof -
  have parts: "v = \<lparr>sv_profile = p, sv_evidence = e\<rparr>"
    "\<forall>((d, x), a) \<in> set (zip (expectations (cf_checks p)) (certification_assessments (ev_checks e))). expected_matches x (as_status a)"
    "map fst (ev_workflows e) = map fst (cf_workflows p)" "\<forall>(f, a) \<in> set (ev_workflows e). as_status a = CheckPassed"
    using assms by (auto simp: validate_against_profile_def rbind_Inr_iff validate_checks_Inr validate_workflows_Inr split: if_splits)
  show "v = \<lparr>sv_profile = p, sv_evidence = e\<rparr>" "map fst (ev_workflows e) = map fst (cf_workflows p)"
    "list_all (\<lambda>(f, a). as_status a = CheckPassed) (ev_workflows e)"
    using parts by (auto simp: list_all_iff)
  show all: "list_all2 (\<lambda>(d, x) a. expected_matches x (as_status a)) (expectations (cf_checks p)) (certification_assessments (ev_checks e))"
    using parts(2) by (auto simp: list_all2_iff)
  have "as_status a \<noteq> CheckFailed \<and> as_status a \<noteq> CheckNotRun" if "a \<in> set (all_assessments e)" for a
  proof -
    consider "a \<in> set (certification_assessments (ev_checks e))" | f where "(f, a) \<in> set (ev_workflows e)"
      using \<open>a \<in> set (all_assessments e)\<close> by (auto simp: all_assessments_def)
    then show ?thesis
    proof cases
      case 1
      then obtain i where i: "i < length (certification_assessments (ev_checks e))" "a = certification_assessments (ev_checks e) ! i"
        by (auto simp: in_set_conv_nth)
      then show ?thesis
        using list_all2_nthD2 [OF all i(1)] expected_resolved by (auto split: prod.splits)
    next
      case 2
      then show ?thesis
        using parts(4) by auto
    qed
  qed
  then show "evidence_disposition e = DispositionComplete"
    by (auto simp: evidence_disposition_def disposition_loop_eq)
qed

end
