(* ===== verification/Certification_Decision.thy ===== *)
theory Certification_Decision
  imports Certification_Evidence
begin

section \<open>Certification decisions\<close>

text \<open>
  What leads from valid evidence to a local receipt: under \<open>weregopher-transform/src\<close>,
  \<open>certification_artifacts.rs\<close>, \<open>certification_policy.rs\<close> and \<open>certification_publication.rs\<close>, and
  the policy store they share with \<open>certification_runner_policy.rs\<close>.
  A policy store is shared between threads: a function that reads it takes the store at that
  moment, and one that reads it twice takes two. \<open>commit_while_policy_current\<close> holds the read guard
  while its commit runs, so one store is enough there; it is \<open>None\<close> when the store was dropped. The
  codec collects SHA-256 and the canonical encodings. A \<open>BTreeMap\<close> that is only read is its entries
  in key order. Allocation failures are left out.
\<close>

record 'je CertificationCodec =
  kc_sha256 :: "bytes \<Rightarrow> Sha256Digest"
  kc_profile_json :: "CertificationProfile \<Rightarrow> 'je + bytes"
  kc_evidence_json :: "CertificationEvidence \<Rightarrow> 'je + bytes"

subsection \<open>Verified artifacts\<close>

definition MAX_CERTIFICATION_ARTIFACT_REFERENCES :: usize where
  "MAX_CERTIFICATION_ARTIFACT_REFERENCES =
     (CERTIFICATION_FIXED_CHECK_COUNT + MAX_CERTIFICATION_WORKFLOWS) * MAX_CERTIFICATION_EVIDENCE_REFS"
definition MAX_CERTIFICATION_ARTIFACT_BYTES :: usize where "MAX_CERTIFICATION_ARTIFACT_BYTES = 16 * 1024 * 1024"
definition MAX_TOTAL_CERTIFICATION_ARTIFACT_BYTES :: usize where
  "MAX_TOTAL_CERTIFICATION_ARTIFACT_BYTES = 128 * 1024 * 1024"

datatype CertificationArtifactVerificationError =
    CvInvalidLimits
  | CvLimitsExceedImplementationMaximum
  | CvTooManyArtifacts
  | CvMissingArtifact CertificationArtifactRef
  | CvUnexpectedArtifact CertificationArtifactRef
  | CvArtifactTooLarge CertificationArtifactRef usize usize
  | CvTotalBytesExceeded usize usize
  | CvDigestMismatch CertificationArtifactRef

record CertificationArtifactVerificationLimits =
  vl_per_artifact :: usize
  vl_aggregate :: usize

definition artifact_limits_new ::
    "usize \<Rightarrow> usize \<Rightarrow> CertificationArtifactVerificationError + CertificationArtifactVerificationLimits" where
  "artifact_limits_new max_artifact_bytes max_total_bytes =
     (if max_artifact_bytes = 0 \<or> max_total_bytes = 0 then Inl CvInvalidLimits
      else if MAX_CERTIFICATION_ARTIFACT_BYTES < max_artifact_bytes \<or> MAX_TOTAL_CERTIFICATION_ARTIFACT_BYTES < max_total_bytes
      then Inl CvLimitsExceedImplementationMaximum
      else Inr \<lparr>vl_per_artifact = max_artifact_bytes, vl_aggregate = max_total_bytes\<rparr>)"

type_synonym ArtifactBytes = "(CertificationArtifactRef \<times> bytes) list"

record VerifiedCertificationArtifacts =
  va_structural_validation :: StructurallyValidatedCertificationEvidence
  va_artifacts :: ArtifactBytes
  va_total_bytes :: usize

fun missing_artifact ::
    "CertificationArtifactRef list \<Rightarrow> ArtifactBytes \<Rightarrow> CertificationArtifactVerificationError + unit" where
  "missing_artifact [] artifacts = Inr ()"
| "missing_artifact (r # rs) artifacts =
     (if r \<notin> fst ` set artifacts then Inl (CvMissingArtifact r) else missing_artifact rs artifacts)"

fun unexpected_artifact ::
    "CertificationArtifactRef list \<Rightarrow> ArtifactBytes \<Rightarrow> CertificationArtifactVerificationError + unit" where
  "unexpected_artifact expected [] = Inr ()"
| "unexpected_artifact expected ((r, bs) # artifacts) =
     (if r \<notin> set expected then Inl (CvUnexpectedArtifact r) else unexpected_artifact expected artifacts)"

fun size_artifacts ::
    "CertificationArtifactVerificationLimits \<Rightarrow> ArtifactBytes \<Rightarrow> usize \<Rightarrow> CertificationArtifactVerificationError + usize" where
  "size_artifacts limits [] total_bytes = Inr total_bytes"
| "size_artifacts limits ((r, bs) # artifacts) total_bytes =
     (if vl_per_artifact limits < length bs then Inl (CvArtifactTooLarge r (length bs) (vl_per_artifact limits))
      else
        rbind (ok_or (CvTotalBytesExceeded (2 ^ 64 - 1) (vl_aggregate limits)) (checked_add_usize total_bytes (length bs)))
          (\<lambda>total_bytes.
        if vl_aggregate limits < total_bytes then Inl (CvTotalBytesExceeded total_bytes (vl_aggregate limits))
        else size_artifacts limits artifacts total_bytes))"

fun digest_artifacts ::
    "(bytes \<Rightarrow> Sha256Digest) \<Rightarrow> ArtifactBytes \<Rightarrow> CertificationArtifactVerificationError + unit" where
  "digest_artifacts sha256 [] = Inr ()"
| "digest_artifacts sha256 ((r, bs) # artifacts) =
     (if sha256 bs \<noteq> car_digest r then Inl (CvDigestMismatch r) else digest_artifacts sha256 artifacts)"

definition verify_certification_artifacts ::
    "(bytes \<Rightarrow> Sha256Digest) \<Rightarrow> StructurallyValidatedCertificationEvidence \<Rightarrow> ArtifactBytes \<Rightarrow>
     CertificationArtifactVerificationLimits \<Rightarrow> CertificationArtifactVerificationError + VerifiedCertificationArtifacts" where
  "verify_certification_artifacts sha256 structural_validation artifacts limits =
     (if MAX_CERTIFICATION_ARTIFACT_REFERENCES < length artifacts then Inl CvTooManyArtifacts
      else
        let expected = sorted_refs (artifact_references (sv_evidence structural_validation)) in
        rbind (missing_artifact expected artifacts) (\<lambda>_.
        rbind (unexpected_artifact expected artifacts) (\<lambda>_.
        rbind (size_artifacts limits artifacts 0) (\<lambda>total_bytes.
        rbind (digest_artifacts sha256 artifacts) (\<lambda>_.
        Inr \<lparr>va_structural_validation = structural_validation, va_artifacts = artifacts, va_total_bytes = total_bytes\<rparr>)))))"

subsection \<open>Policy stores\<close>

text \<open>
  Both policy stores have the same state and operations, at different policy types. The errors of
  currentness that their error types share are one type here.
\<close>

record 'p PolicyState =
  gs_generation :: u64
  gs_policy :: 'p
  gs_revocation_evidence_digest :: "Sha256Digest option"

record 'p PolicyStore =
  gp_state :: "'p PolicyState"
  gp_poisoned :: bool

datatype PolicyCurrentness =
    PcPolicyStorePoisoned
  | PcPolicyGenerationExhausted
  | PcPolicyStoreUnavailable
  | PcPolicyRevoked
  | PcPolicyChanged

definition generation_store_new :: "'p \<Rightarrow> 'p PolicyStore" where
  "generation_store_new policy =
     \<lparr>gp_state = \<lparr>gs_generation = 1, gs_policy = policy, gs_revocation_evidence_digest = None\<rparr>, gp_poisoned = False\<rparr>"

definition generation_store_replace :: "'p PolicyStore \<Rightarrow> 'p \<Rightarrow> (PolicyCurrentness + unit) \<times> 'p PolicyStore" where
  "generation_store_replace self policy =
     (if gp_poisoned self then (Inl PcPolicyStorePoisoned, self)
      else case checked_add (gs_generation (gp_state self)) 1 of
          None \<Rightarrow> (Inl PcPolicyGenerationExhausted, self)
        | Some generation \<Rightarrow>
            (Inr (), self\<lparr>gp_state := \<lparr>gs_generation = generation, gs_policy = policy,
               gs_revocation_evidence_digest = None\<rparr>\<rparr>))"

definition generation_store_revoke :: "'p PolicyStore \<Rightarrow> Sha256Digest \<Rightarrow> (PolicyCurrentness + unit) \<times> 'p PolicyStore" where
  "generation_store_revoke self evidence =
     (if gp_poisoned self then (Inl PcPolicyStorePoisoned, self)
      else case checked_add (gs_generation (gp_state self)) 1 of
          None \<Rightarrow> (Inl PcPolicyGenerationExhausted, self)
        | Some generation \<Rightarrow>
            (Inr (), self\<lparr>gp_state := (gp_state self)\<lparr>gs_generation := generation,
               gs_revocation_evidence_digest := Some evidence\<rparr>\<rparr>))"

definition generation_store_snapshot :: "'p PolicyStore \<Rightarrow> PolicyCurrentness + 'p PolicyState" where
  "generation_store_snapshot self = (if gp_poisoned self then Inl PcPolicyStorePoisoned else Inr (gp_state self))"

definition commit_if_policy_current :: "'p PolicyStore option \<Rightarrow> 'p \<Rightarrow> u64 \<Rightarrow> PolicyCurrentness + unit" where
  "commit_if_policy_current store expected_policy expected_generation =
     (case store of
        None \<Rightarrow> Inl PcPolicyStoreUnavailable
      | Some s \<Rightarrow>
          if gp_poisoned s then Inl PcPolicyStorePoisoned
          else if gs_revocation_evidence_digest (gp_state s) \<noteq> None then Inl PcPolicyRevoked
          else if gs_generation (gp_state s) \<noteq> expected_generation \<or> gs_policy (gp_state s) \<noteq> expected_policy
          then Inl PcPolicyChanged
          else Inr ())"

subsection \<open>Certification policies\<close>

datatype 'je CertificationPolicyError =
    CpUnassignableClass
  | CpCurrentness PolicyCurrentness
  | CpEvidenceNotComplete
  | CpProfileDigestUnavailable 'je
  | CpEvidenceDigestUnavailable 'je
  | CpTargetMismatch
  | CpProfileDigestMismatch
  | CpEvidenceDigestMismatch
  | CpClassMismatch

record LocalCertificationPolicy =
  lcp_target :: CertificationTarget
  lcp_profile_digest :: Sha256Digest
  lcp_evidence_digest :: Sha256Digest
  lcp_approved_class :: CertificationClass
  lcp_revision_digest :: Sha256Digest

definition certification_policy_new ::
    "CertificationTarget \<Rightarrow> Sha256Digest \<Rightarrow> Sha256Digest \<Rightarrow> CertificationClass \<Rightarrow> Sha256Digest \<Rightarrow>
     'je CertificationPolicyError + LocalCertificationPolicy" where
  "certification_policy_new target profile_digest evidence_digest approved_class revision_digest =
     (if approved_class = Blocked \<or> approved_class = Provisional then Inl CpUnassignableClass
      else Inr \<lparr>lcp_target = target, lcp_profile_digest = profile_digest, lcp_evidence_digest = evidence_digest,
             lcp_approved_class = approved_class, lcp_revision_digest = revision_digest\<rparr>)"

fun trusted_class_for_profile :: "CertificationProfileClass \<Rightarrow> CertificationClass" where
  "trusted_class_for_profile ProfileStructuralVerified = StructuralVerified"
| "trusted_class_for_profile ProfileSmokeVerified = SmokeVerified"
| "trusted_class_for_profile ProfileContractVerified = ContractVerified"
| "trusted_class_for_profile ProfileExactCertified = ExactCertified"

record LocallyCertifiedArtifacts =
  lc_verified_artifacts :: VerifiedCertificationArtifacts
  lc_policy :: LocalCertificationPolicy
  lc_policy_generation :: u64

definition certified_current ::
    "LocallyCertifiedArtifacts \<Rightarrow> LocalCertificationPolicy PolicyStore option \<Rightarrow> 'je CertificationPolicyError + unit" where
  "certified_current self store =
     map_err CpCurrentness (commit_if_policy_current store (lc_policy self) (lc_policy_generation self))"

definition current_class ::
    "LocallyCertifiedArtifacts \<Rightarrow> LocalCertificationPolicy PolicyStore option \<Rightarrow>
     'je CertificationPolicyError + CertificationClass" where
  "current_class self store = rbind (certified_current self store) (\<lambda>_. Inr (lcp_approved_class (lc_policy self)))"

text \<open>The store at the snapshot, and the store at the final check.\<close>

definition assign_local_certification ::
    "'je CertificationCodec \<Rightarrow> VerifiedCertificationArtifacts \<Rightarrow> LocalCertificationPolicy PolicyStore \<Rightarrow>
     LocalCertificationPolicy PolicyStore \<Rightarrow> 'je CertificationPolicyError + LocallyCertifiedArtifacts" where
  "assign_local_certification codec verified_artifacts store store' =
     rbind (map_err CpCurrentness (generation_store_snapshot store)) (\<lambda>snapshot.
     if gs_revocation_evidence_digest snapshot \<noteq> None then Inl (CpCurrentness PcPolicyRevoked)
     else
       let profile = sv_profile (va_structural_validation verified_artifacts);
           evidence = sv_evidence (va_structural_validation verified_artifacts);
           policy = gs_policy snapshot in
       if evidence_disposition evidence \<noteq> DispositionComplete then Inl CpEvidenceNotComplete
       else
         rbind (map_err CpProfileDigestUnavailable (hash_canonical (kc_sha256 codec) (kc_profile_json codec profile))) (\<lambda>profile_digest.
         if profile_digest \<noteq> lcp_profile_digest policy then Inl CpProfileDigestMismatch
         else if ev_profile_digest evidence \<noteq> profile_digest then Inl CpProfileDigestMismatch
         else if ev_target evidence \<noteq> lcp_target policy then Inl CpTargetMismatch
         else
           rbind (map_err CpEvidenceDigestUnavailable (hash_canonical (kc_sha256 codec) (kc_evidence_json codec evidence))) (\<lambda>evidence_digest.
           if evidence_digest \<noteq> lcp_evidence_digest policy then Inl CpEvidenceDigestMismatch
           else if trusted_class_for_profile (cf_class profile) \<noteq> lcp_approved_class policy then Inl CpClassMismatch
           else
             let certified = \<lparr>lc_verified_artifacts = verified_artifacts, lc_policy = policy,
                   lc_policy_generation = gs_generation snapshot\<rparr> in
             rbind (certified_current certified (Some store')) (\<lambda>_. Inr certified))))"

subsection \<open>Receipts\<close>

definition MAX_LOCAL_CERTIFICATION_PUBLICATIONS :: usize where "MAX_LOCAL_CERTIFICATION_PUBLICATIONS = 4096"

definition ARTIFACT_SET_DIGEST_DOMAIN :: bytes where
  "ARTIFACT_SET_DIGEST_DOMAIN = str_bytes ''weregopher.certification.artifact-set.v1'' @ [0]"

record LocalCertificationPublicationReceipt =
  rc_target :: CertificationTarget
  rc_profile_digest :: Sha256Digest
  rc_evidence_digest :: Sha256Digest
  rc_artifact_set_digest :: Sha256Digest
  rc_class :: CertificationClass
  rc_policy_revision_digest :: Sha256Digest
  rc_policy_generation :: u64
  rc_artifact_count :: usize
  rc_total_artifact_bytes :: usize
  rc_publication_status :: PublicationStatus

datatype 'je CertificationPublicationError =
    PbInvalidLimits
  | PbLimitsExceedImplementationMaximum
  | PbArtifactCountUnrepresentable
  | PbPolicy "'je CertificationPolicyError"
  | PbStorePoisoned
  | PbStoreFull

definition artifact_set_preimage :: "ArtifactBytes \<Rightarrow> bytes" where
  "artifact_set_preimage artifacts =
     ARTIFACT_SET_DIGEST_DOMAIN @ to_le 8 (length artifacts) @
     concat (map (\<lambda>(r, bs). artifact_kind_tag (car_kind r) # car_digest r) artifacts)"

definition certification_artifact_set_digest ::
    "(bytes \<Rightarrow> Sha256Digest) \<Rightarrow> VerifiedCertificationArtifacts \<Rightarrow> 'je CertificationPublicationError + Sha256Digest" where
  "certification_artifact_set_digest sha256 verified =
     (if length (va_artifacts verified) < 2 ^ 64 then Inr (sha256 (artifact_set_preimage (va_artifacts verified)))
      else Inl PbArtifactCountUnrepresentable)"

definition local_certification_receipt ::
    "(bytes \<Rightarrow> Sha256Digest) \<Rightarrow> LocallyCertifiedArtifacts \<Rightarrow> LocalCertificationPolicy PolicyStore option \<Rightarrow>
     'je CertificationPublicationError + LocalCertificationPublicationReceipt" where
  "local_certification_receipt sha256 certified store =
     rbind (map_err PbPolicy (current_class certified store)) (\<lambda>class.
     rbind (certification_artifact_set_digest sha256 (lc_verified_artifacts certified)) (\<lambda>artifact_set_digest.
     let policy = lc_policy certified; verified = lc_verified_artifacts certified in
     Inr \<lparr>rc_target = lcp_target policy, rc_profile_digest = lcp_profile_digest policy,
          rc_evidence_digest = lcp_evidence_digest policy, rc_artifact_set_digest = artifact_set_digest, rc_class = class,
          rc_policy_revision_digest = lcp_revision_digest policy, rc_policy_generation = lc_policy_generation certified,
          rc_artifact_count = length (va_artifacts verified), rc_total_artifact_bytes = va_total_bytes verified,
          rc_publication_status = LocalOnly\<rparr>))"

record 'a PublicationStore =
  pu_max_publications :: usize
  pu_publications :: "'a list"
  pu_poisoned :: bool

definition publication_store_new :: "usize \<Rightarrow> 'je CertificationPublicationError + 'a PublicationStore" where
  "publication_store_new max_publications =
     (if max_publications = 0 then Inl PbInvalidLimits
      else if MAX_LOCAL_CERTIFICATION_PUBLICATIONS < max_publications then Inl PbLimitsExceedImplementationMaximum
      else Inr \<lparr>pu_max_publications = max_publications, pu_publications = [], pu_poisoned = False\<rparr>)"

definition publication_commit ::
    "'a PublicationStore \<Rightarrow> 'a \<Rightarrow> ('je CertificationPublicationError + 'a) \<times> 'a PublicationStore" where
  "publication_commit self publication =
     (if pu_poisoned self then (Inl PbStorePoisoned, self)
      else if publication \<in> set (pu_publications self) then (Inr publication, self)
      else if pu_max_publications self \<le> length (pu_publications self) then (Inl PbStoreFull, self)
      else (Inr publication, self\<lparr>pu_publications := pu_publications self @ [publication]\<rparr>))"

definition publication_count :: "'a PublicationStore \<Rightarrow> 'je CertificationPublicationError + usize" where
  "publication_count self = (if pu_poisoned self then Inl PbStorePoisoned else Inr (length (pu_publications self)))"

definition publication_contains :: "'a PublicationStore \<Rightarrow> 'a \<Rightarrow> 'je CertificationPublicationError + bool" where
  "publication_contains self publication =
     (if pu_poisoned self then Inl PbStorePoisoned else Inr (publication \<in> set (pu_publications self)))"

record PreparedLocalCertificationPublication =
  pp_certified :: LocallyCertifiedArtifacts
  pp_receipt :: LocalCertificationPublicationReceipt

definition prepare_local_certification_publication ::
    "(bytes \<Rightarrow> Sha256Digest) \<Rightarrow> LocallyCertifiedArtifacts \<Rightarrow> LocalCertificationPolicy PolicyStore option \<Rightarrow>
     'je CertificationPublicationError + PreparedLocalCertificationPublication" where
  "prepare_local_certification_publication sha256 certified store =
     rbind (local_certification_receipt sha256 certified store) (\<lambda>receipt.
     Inr \<lparr>pp_certified = certified, pp_receipt = receipt\<rparr>)"

definition publish_local_certification ::
    "PreparedLocalCertificationPublication \<Rightarrow> LocalCertificationPolicy PolicyStore option \<Rightarrow>
     LocalCertificationPublicationReceipt PublicationStore \<Rightarrow>
     ('je CertificationPublicationError + LocalCertificationPublicationReceipt) \<times>
       LocalCertificationPublicationReceipt PublicationStore" where
  "publish_local_certification prepared store publications =
     (case map_err PbPolicy (certified_current (pp_certified prepared) store) of
        Inl e \<Rightarrow> (Inl e, publications)
      | Inr _ \<Rightarrow> publication_commit publications (pp_receipt prepared))"

subsection \<open>Exact artifact verification\<close>

lemma set_sorted_refs [simp]: "set (sorted_refs rs) = set rs"
  by (simp add: sorted_refs_def)

lemma missing_artifact_Inr: "missing_artifact rs artifacts = Inr u \<longleftrightarrow> set rs \<subseteq> fst ` set artifacts"
  by (induction rs) auto

lemma unexpected_artifact_Inr: "unexpected_artifact expected artifacts = Inr u \<longleftrightarrow> fst ` set artifacts \<subseteq> set expected"
  by (induction expected artifacts rule: unexpected_artifact.induct) auto

lemma digest_artifacts_Inr:
  "digest_artifacts sha256 artifacts = Inr u \<longleftrightarrow> (\<forall>(r, bs) \<in> set artifacts. sha256 bs = car_digest r)"
  by (induction sha256 artifacts rule: digest_artifacts.induct) auto

lemma size_artifacts_Inr:
  assumes "vl_aggregate limits < 2 ^ 64" "n \<le> vl_aggregate limits"
  shows "size_artifacts limits artifacts n = Inr k \<longleftrightarrow>
    (\<forall>(r, bs) \<in> set artifacts. length bs \<le> vl_per_artifact limits) \<and>
    n + (\<Sum>(r, bs) \<leftarrow> artifacts. length bs) \<le> vl_aggregate limits \<and> k = n + (\<Sum>(r, bs) \<leftarrow> artifacts. length bs)"
  using assms(2)
proof (induction artifacts arbitrary: n)
  case Nil
  then show ?case
    by auto
next
  case (Cons a artifacts)
  obtain r bs where a: "a = (r, bs)"
    by (cases a)
  show ?case
  proof (cases "length bs \<le> vl_per_artifact limits \<and> n + length bs \<le> vl_aggregate limits")
    case True
    then show ?thesis
      using Cons.IH [of "n + length bs"] assms(1) by (auto simp: a checked_add_usize_def)
  next
    case False
    then show ?thesis
      by (auto simp: a checked_add_usize_def rbind_Inr_iff split: if_splits)
  qed
qed

lemma artifact_limits_new_Inr:
  assumes "artifact_limits_new a b = Inr limits"
  shows "vl_per_artifact limits = a" "vl_aggregate limits = b" "vl_aggregate limits < 2 ^ 64"
  using assms by (auto simp: artifact_limits_new_def MAX_TOTAL_CERTIFICATION_ARTIFACT_BYTES_def split: if_splits)

lemma verify_artifacts_Inr:
  assumes "artifact_limits_new a b = Inr limits"
  shows "verify_certification_artifacts sha256 v artifacts limits = Inr verified \<longleftrightarrow>
    length artifacts \<le> MAX_CERTIFICATION_ARTIFACT_REFERENCES \<and>
    (set (artifact_references (sv_evidence v)) \<subseteq> fst ` set artifacts \<and>
     fst ` set artifacts \<subseteq> set (artifact_references (sv_evidence v))) \<and>
    ((\<forall>(r, bs) \<in> set artifacts. length bs \<le> a) \<and> (\<Sum>(r, bs) \<leftarrow> artifacts. length bs) \<le> b) \<and>
    (\<forall>(r, bs) \<in> set artifacts. sha256 bs = car_digest r) \<and>
    verified = \<lparr>va_structural_validation = v, va_artifacts = artifacts,
      va_total_bytes = (\<Sum>(r, bs) \<leftarrow> artifacts. length bs)\<rparr>"
  using artifact_limits_new_Inr [OF assms]
  by (auto simp: verify_certification_artifacts_def Let_def rbind_Inr_iff missing_artifact_Inr
    unexpected_artifact_Inr digest_artifacts_Inr size_artifacts_Inr not_less)

text \<open>
  C18: the artifact bytes of structurally valid evidence are accepted exactly when the supplied map
  has the references of the evidence as its keys, no more than the ceiling of them, every supply is
  within the limit for one artifact and hashes to its reference, and the sum of the lengths is
  within the aggregate limit; the result keeps the validation, the bytes and that sum. Limits come
  from their constructor, so the running sum never overflows.
\<close>

theorem artifacts_verified_exact:
  assumes "artifact_limits_new max_artifact_bytes max_total_bytes = Inr limits"
  shows "verify_certification_artifacts sha256 v artifacts limits = Inr verified \<longleftrightarrow>
    length artifacts \<le> MAX_CERTIFICATION_ARTIFACT_REFERENCES \<and>
    fst ` set artifacts = set (artifact_references (sv_evidence v)) \<and>
    (\<forall>(r, bs) \<in> set artifacts. length bs \<le> max_artifact_bytes \<and> sha256 bs = car_digest r) \<and>
    (\<Sum>(r, bs) \<leftarrow> artifacts. length bs) \<le> max_total_bytes \<and>
    verified = \<lparr>va_structural_validation = v, va_artifacts = artifacts,
      va_total_bytes = (\<Sum>(r, bs) \<leftarrow> artifacts. length bs)\<rparr>"
  unfolding verify_artifacts_Inr [OF assms] by fast

definition cert_ex_ref :: CertificationArtifactRef where
  "cert_ex_ref = \<lparr>car_kind = RuntimeProbe, car_digest = [3, 3]\<rparr>"

definition cert_ex_passed :: CertificationCheckAssessment where
  "cert_ex_passed = \<lparr>as_status = CheckPassed, as_evidence = [cert_ex_ref]\<rparr>"

definition cert_ex_target :: CertificationTarget where
  "cert_ex_target = \<lparr>ctg_compatibility_analysis_digest = [1], ctg_execution_contract_digest = [2],
     ctg_execution_resolution_evidence_digest = [3], ctg_artifact_source_digest = [4], ctg_executable_digest = [5]\<rparr>"

definition cert_ex_profile :: CertificationProfile where
  "cert_ex_profile = \<lparr>cf_class = ProfileSmokeVerified,
     cf_checks = \<lparr>px_package_identity = ExpectPassed, px_entry_point_resolution = ExpectPassed,
       px_transform_matches = ExpectPassed, px_module_graph = ExpectPassed, px_native_dependencies = ExpectPassed,
       px_runtime_bootstrap = ExpectPassed, px_renderer_bootstrap = ExpectPassed, px_preload_handshake = ExpectPassed,
       px_state_safety = ExpectPassed, px_helper_lifecycle = ExpectPassed, px_security_contract = ExpectPassed,
       px_resource_scenario = ExpectPassed, px_declared_exceptions = ExpectPassed\<rparr>,
     cf_workflows = []\<rparr>"

definition cert_ex_evidence :: CertificationEvidence where
  "cert_ex_evidence = \<lparr>ev_target = cert_ex_target, ev_profile_digest = [2, 2],
     ev_checks = \<lparr>ck_package_identity = cert_ex_passed, ck_entry_point_resolution = cert_ex_passed,
       ck_transform_matches = cert_ex_passed, ck_module_graph = cert_ex_passed, ck_native_dependencies = cert_ex_passed,
       ck_runtime_bootstrap = cert_ex_passed, ck_renderer_bootstrap = cert_ex_passed, ck_preload_handshake = cert_ex_passed,
       ck_state_safety = cert_ex_passed, ck_helper_lifecycle = cert_ex_passed, ck_security_contract = cert_ex_passed,
       ck_resource_scenario = cert_ex_passed, ck_declared_exceptions = cert_ex_passed\<rparr>,
     ev_workflows = []\<rparr>"

definition cert_ex_sha :: "bytes \<Rightarrow> Sha256Digest" where
  "cert_ex_sha bs = [of_nat (length bs), of_nat (length bs)]"

definition cert_ex_validated :: StructurallyValidatedCertificationEvidence where
  "cert_ex_validated = \<lparr>sv_profile = cert_ex_profile, sv_evidence = cert_ex_evidence\<rparr>"

definition cert_ex_limits :: CertificationArtifactVerificationLimits where
  "cert_ex_limits = \<lparr>vl_per_artifact = 100, vl_aggregate = 1000\<rparr>"

definition cert_ex_artifacts :: ArtifactBytes where
  "cert_ex_artifacts = [(cert_ex_ref, [7, 8, 9])]"

definition cert_ex_verified :: VerifiedCertificationArtifacts where
  "cert_ex_verified = \<lparr>va_structural_validation = cert_ex_validated, va_artifacts = cert_ex_artifacts, va_total_bytes = 3\<rparr>"

lemma cert_ex_references: "set (artifact_references cert_ex_evidence) = {cert_ex_ref}"
  by (simp add: artifact_references_def all_assessments_def certification_assessments_def cert_ex_evidence_def cert_ex_passed_def)

theorem artifacts_verified_exact_witness:
  "artifact_limits_new 100 1000 = Inr cert_ex_limits \<and>
   verify_certification_artifacts cert_ex_sha cert_ex_validated cert_ex_artifacts cert_ex_limits = Inr cert_ex_verified"
proof -
  have limits: "artifact_limits_new 100 1000 = Inr cert_ex_limits"
    by (simp add: artifact_limits_new_def cert_ex_limits_def MAX_CERTIFICATION_ARTIFACT_BYTES_def
      MAX_TOTAL_CERTIFICATION_ARTIFACT_BYTES_def)
  show ?thesis
    using artifacts_verified_exact [OF limits, of cert_ex_sha cert_ex_validated cert_ex_artifacts cert_ex_verified] limits
    by (simp add: cert_ex_validated_def cert_ex_references cert_ex_artifacts_def cert_ex_verified_def cert_ex_sha_def
      cert_ex_ref_def MAX_CERTIFICATION_ARTIFACT_REFERENCES_def CERTIFICATION_FIXED_CHECK_COUNT_def
      MAX_CERTIFICATION_WORKFLOWS_def MAX_CERTIFICATION_EVIDENCE_REFS_def)
qed

subsection \<open>Policies in use\<close>

text \<open>What other threads may do to a policy store: replace or revoke the policy, or poison the lock.\<close>

inductive policy_change :: "'p PolicyStore \<Rightarrow> 'p PolicyStore \<Rightarrow> bool" where
  replaced: "policy_change s (snd (generation_store_replace s p))"
| revoked: "policy_change s (snd (generation_store_revoke s e))"
| poisoned: "policy_change s (s\<lparr>gp_poisoned := True\<rparr>)"

lemma generation_advances: "checked_add g 1 = Some g' \<Longrightarrow> g < g'" for g :: u64
  by (auto simp: checked_add_Some_iff word_less_nat_alt unat_add_lem [THEN iffD1])

lemma policy_change_generation:
  assumes "policy_change s s'"
  shows "gp_state s' = gp_state s \<or> gs_generation (gp_state s) < gs_generation (gp_state s')"
  using assms
  by cases (auto simp: generation_store_replace_def generation_store_revoke_def generation_advances split: option.splits)

lemma policy_changes_generation:
  assumes "policy_change\<^sup>*\<^sup>* s s'"
  shows "gp_state s' = gp_state s \<or> gs_generation (gp_state s) < gs_generation (gp_state s')"
  using assms
proof induction
  case (step s1 s2)
  then show ?case
    using policy_change_generation [of s1 s2] by auto
qed simp

lemma commit_current_Inr:
  "commit_if_policy_current store p g = Inr u \<longleftrightarrow>
     (\<exists>s. store = Some s \<and> \<not> gp_poisoned s \<and> gs_revocation_evidence_digest (gp_state s) = None \<and>
       gs_generation (gp_state s) = g \<and> gs_policy (gp_state s) = p)"
  by (auto simp: commit_if_policy_current_def split: option.splits if_splits)

text \<open>
  A decision that is still current was taken under the state the store has now: no replacement and
  no revocation was accepted in between, not even one with an equal policy.
\<close>

lemma current_unchanged:
  assumes "commit_if_policy_current (Some s') (gs_policy (gp_state s)) (gs_generation (gp_state s)) = Inr u"
    and "policy_change\<^sup>*\<^sup>* s s'"
  shows "gp_state s' = gp_state s" "gs_revocation_evidence_digest (gp_state s) = None"
  using assms policy_changes_generation [OF assms(2)] by (auto simp: commit_current_Inr)

lemma assign_Inr:
  assumes "assign_local_certification codec va s s' = Inr c"
  shows "lc_verified_artifacts c = va" "lc_policy c = gs_policy (gp_state s)"
    "lc_policy_generation c = gs_generation (gp_state s)"
    "hash_canonical (kc_sha256 codec) (kc_profile_json codec (sv_profile (va_structural_validation va))) = Inr (lcp_profile_digest (lc_policy c))"
    "hash_canonical (kc_sha256 codec) (kc_evidence_json codec (sv_evidence (va_structural_validation va))) = Inr (lcp_evidence_digest (lc_policy c))"
    "lcp_target (lc_policy c) = ev_target (sv_evidence (va_structural_validation va))"
    "lcp_approved_class (lc_policy c) = trusted_class_for_profile (cf_class (sv_profile (va_structural_validation va)))"
  using assms by (auto simp: assign_local_certification_def generation_store_snapshot_def Let_def rbind_Inr_iff
    split: if_splits)

definition certified_receipt :: "(bytes \<Rightarrow> Sha256Digest) \<Rightarrow> LocallyCertifiedArtifacts \<Rightarrow> LocalCertificationPublicationReceipt" where
  "certified_receipt sha256 c =
     \<lparr>rc_target = lcp_target (lc_policy c), rc_profile_digest = lcp_profile_digest (lc_policy c),
      rc_evidence_digest = lcp_evidence_digest (lc_policy c),
      rc_artifact_set_digest = sha256 (artifact_set_preimage (va_artifacts (lc_verified_artifacts c))),
      rc_class = lcp_approved_class (lc_policy c), rc_policy_revision_digest = lcp_revision_digest (lc_policy c),
      rc_policy_generation = lc_policy_generation c, rc_artifact_count = length (va_artifacts (lc_verified_artifacts c)),
      rc_total_artifact_bytes = va_total_bytes (lc_verified_artifacts c), rc_publication_status = LocalOnly\<rparr>"

lemma receipt_Inr:
  assumes "local_certification_receipt sha256 c store = Inr receipt"
  shows "receipt = certified_receipt sha256 c"
  using assms by (auto simp: local_certification_receipt_def current_class_def certified_current_def
    certification_artifact_set_digest_def certified_receipt_def Let_def rbind_Inr_iff split: if_splits)

end
