(* ===== verification/Certification_Runner.thy ===== *)
theory Certification_Runner
  imports Certification_Decision
begin

section \<open>Certification runners\<close>

text \<open>
  \<open>weregopher-domain/src/certification_runner.rs\<close> (the runner's identity document) and, under
  \<open>weregopher-transform/src\<close>, \<open>certification_runner_policy.rs\<close> (its approval) and
  \<open>certification_runner_components.rs\<close> (the check of every component's descriptor and bytes). The
  format version, platform and architecture have one value each and are left out. The approval's
  policy store has the state and operations of \<open>PolicyStore\<close>; the policy error keeps the errors of
  currentness as one constructor. On the 64-bit targets an artifact size always fits \<open>usize\<close>.
\<close>

subsection \<open>Runner identities\<close>

definition MAX_CERTIFICATION_RUNNER_IDENTITY_DOCUMENT_BYTES :: usize where
  "MAX_CERTIFICATION_RUNNER_IDENTITY_DOCUMENT_BYTES = 32 * 1024"

record CertificationRunnerEnvironmentIdentity =
  rv_runner_image_digest :: Sha256Digest
  rv_host_image_digest :: Sha256Digest
  rv_host_patch_set_digest :: Sha256Digest
  rv_electron_runtime_digest :: Sha256Digest
  rv_language_runtime_set_digest :: Sha256Digest

record CertificationRunnerToolingIdentity =
  ro_toolchain_set :: Sha256Digest
  ro_host_agent :: Sha256Digest
  ro_verifier :: Sha256Digest
  ro_probe_asset_set :: Sha256Digest

record CertificationRunnerProvenanceIdentity =
  rp_source_revision_digest :: Sha256Digest
  rp_exception_provenance_digest :: Sha256Digest

record CertificationRunnerIdentity =
  ri_environment :: CertificationRunnerEnvironmentIdentity
  ri_tooling :: CertificationRunnerToolingIdentity
  ri_provenance :: CertificationRunnerProvenanceIdentity

datatype ('io, 'je) CertificationRunnerDocumentError =
    RdDocumentTooLarge
  | RdRead 'io
  | RdInvalidDocument 'je

definition runner_identity_from_json_slice ::
    "(bytes \<Rightarrow> 'je + CertificationRunnerIdentity) \<Rightarrow> bytes \<Rightarrow>
     ('io, 'je) CertificationRunnerDocumentError + CertificationRunnerIdentity" where
  "runner_identity_from_json_slice from_slice bs =
     (if MAX_CERTIFICATION_RUNNER_IDENTITY_DOCUMENT_BYTES < length bs then Inl RdDocumentTooLarge
      else map_err RdInvalidDocument (from_slice bs))"

text \<open>The reader yields at most one byte more than the ceiling, as \<open>read_bounded\<close> has it.\<close>

definition runner_identity_from_json_reader ::
    "(bytes \<Rightarrow> 'je + CertificationRunnerIdentity) \<Rightarrow> (usize \<Rightarrow> 'io + bytes) \<Rightarrow>
     ('io, 'je) CertificationRunnerDocumentError + CertificationRunnerIdentity" where
  "runner_identity_from_json_reader from_slice reader =
     (let read_limit = MAX_CERTIFICATION_RUNNER_IDENTITY_DOCUMENT_BYTES + 1 in
      rbind (map_err RdRead (map_sum id (take read_limit) (reader read_limit)))
        (runner_identity_from_json_slice from_slice))"

definition runner_roles :: "CertificationRunnerComponentRole list" where
  "runner_roles =
     [RunnerImage, HostImage, HostPatchSet, ElectronRuntime, LanguageRuntimeSet, ToolchainSet,
      HostAgent, RoleVerifier, ProbeAssetSet, SourceRevision, ExceptionProvenance]"

definition RUNNER_COMPONENT_ROLE_COUNT :: usize where "RUNNER_COMPONENT_ROLE_COUNT = 11"

fun runner_role_tag :: "CertificationRunnerComponentRole \<Rightarrow> u8" where
  "runner_role_tag RunnerImage = 0"
| "runner_role_tag HostImage = 1"
| "runner_role_tag HostPatchSet = 2"
| "runner_role_tag ElectronRuntime = 3"
| "runner_role_tag LanguageRuntimeSet = 4"
| "runner_role_tag ToolchainSet = 5"
| "runner_role_tag HostAgent = 6"
| "runner_role_tag RoleVerifier = 7"
| "runner_role_tag ProbeAssetSet = 8"
| "runner_role_tag SourceRevision = 9"
| "runner_role_tag ExceptionProvenance = 10"

fun identity_descriptor_digest :: "CertificationRunnerIdentity \<Rightarrow> CertificationRunnerComponentRole \<Rightarrow> Sha256Digest" where
  "identity_descriptor_digest identity RunnerImage = rv_runner_image_digest (ri_environment identity)"
| "identity_descriptor_digest identity HostImage = rv_host_image_digest (ri_environment identity)"
| "identity_descriptor_digest identity HostPatchSet = rv_host_patch_set_digest (ri_environment identity)"
| "identity_descriptor_digest identity ElectronRuntime = rv_electron_runtime_digest (ri_environment identity)"
| "identity_descriptor_digest identity LanguageRuntimeSet = rv_language_runtime_set_digest (ri_environment identity)"
| "identity_descriptor_digest identity ToolchainSet = ro_toolchain_set (ri_tooling identity)"
| "identity_descriptor_digest identity HostAgent = ro_host_agent (ri_tooling identity)"
| "identity_descriptor_digest identity RoleVerifier = ro_verifier (ri_tooling identity)"
| "identity_descriptor_digest identity ProbeAssetSet = ro_probe_asset_set (ri_tooling identity)"
| "identity_descriptor_digest identity SourceRevision = rp_source_revision_digest (ri_provenance identity)"
| "identity_descriptor_digest identity ExceptionProvenance = rp_exception_provenance_digest (ri_provenance identity)"

subsection \<open>Approval\<close>

record LocalCertificationRunnerPolicy =
  lrp_identity_digest :: Sha256Digest
  lrp_revision_digest :: Sha256Digest

datatype 'je CertificationRunnerPolicyError =
    RpCurrentness PolicyCurrentness
  | RpIdentityDigestUnavailable 'je
  | RpIdentityDigestMismatch

record LocallyApprovedCertificationRunner =
  ap_identity :: CertificationRunnerIdentity
  ap_identity_digest :: Sha256Digest
  ap_policy :: LocalCertificationRunnerPolicy
  ap_policy_generation :: u64

definition runner_current ::
    "LocallyApprovedCertificationRunner \<Rightarrow> LocalCertificationRunnerPolicy PolicyStore option \<Rightarrow>
     'je CertificationRunnerPolicyError + unit" where
  "runner_current self store =
     map_err RpCurrentness (commit_if_policy_current store (ap_policy self) (ap_policy_generation self))"

text \<open>The store at the snapshot, and the store at the final check.\<close>

definition approve_local_certification_runner ::
    "(bytes \<Rightarrow> Sha256Digest) \<Rightarrow> (CertificationRunnerIdentity \<Rightarrow> 'je + bytes) \<Rightarrow> CertificationRunnerIdentity \<Rightarrow>
     LocalCertificationRunnerPolicy PolicyStore \<Rightarrow> LocalCertificationRunnerPolicy PolicyStore \<Rightarrow>
     'je CertificationRunnerPolicyError + LocallyApprovedCertificationRunner" where
  "approve_local_certification_runner sha256 identity_json identity store store' =
     rbind (map_err RpCurrentness (generation_store_snapshot store)) (\<lambda>snapshot.
     if gs_revocation_evidence_digest snapshot \<noteq> None then Inl (RpCurrentness PcPolicyRevoked)
     else
       rbind (map_err RpIdentityDigestUnavailable (hash_canonical sha256 (identity_json identity))) (\<lambda>identity_digest.
       if identity_digest \<noteq> lrp_identity_digest (gs_policy snapshot) then Inl RpIdentityDigestMismatch
       else
         let approved = \<lparr>ap_identity = identity, ap_identity_digest = identity_digest, ap_policy = gs_policy snapshot,
               ap_policy_generation = gs_generation snapshot\<rparr> in
         rbind (runner_current approved (Some store')) (\<lambda>_. Inr approved)))"

subsection \<open>Component verification\<close>

definition DESCRIPTOR_SET_DIGEST_DOMAIN :: bytes where
  "DESCRIPTOR_SET_DIGEST_DOMAIN = str_bytes ''weregopher.certification.runner-descriptor-set.v1'' @ [0]"
definition MAX_RUNNER_COMPONENT_ARTIFACT_BYTES :: usize where "MAX_RUNNER_COMPONENT_ARTIFACT_BYTES = 512 * 1024 * 1024"
definition MAX_TOTAL_CERTIFICATION_RUNNER_COMPONENT_ARTIFACT_BYTES :: usize where
  "MAX_TOTAL_CERTIFICATION_RUNNER_COMPONENT_ARTIFACT_BYTES = 2 * 1024 * 1024 * 1024"
definition MAX_CERTIFICATION_RUNNER_COMPONENT_ARTIFACT_COUNT :: usize where
  "MAX_CERTIFICATION_RUNNER_COMPONENT_ARTIFACT_COUNT =
     RUNNER_COMPONENT_ROLE_COUNT * MAX_CERTIFICATION_RUNNER_COMPONENT_ARTIFACTS"

datatype 'je CertificationRunnerComponentVerificationError =
    RcInvalidLimits
  | RcLimitsExceedImplementationMaximum
  | RcMissingDescriptor CertificationRunnerComponentRole
  | RcUnexpectedDescriptor CertificationRunnerComponentRole
  | RcUnexpectedDescriptorCount
  | RcMissingArtifactSet CertificationRunnerComponentRole
  | RcUnexpectedArtifactSet CertificationRunnerComponentRole
  | RcUnexpectedArtifactSetCount
  | RcDescriptorRoleMismatch CertificationRunnerComponentRole CertificationRunnerComponentRole
  | RcCanonicalDescriptorUnavailable 'je
  | RcDescriptorTooLarge CertificationRunnerComponentRole usize usize
  | RcDescriptorDigestMismatch CertificationRunnerComponentRole
  | RcMissingArtifact CertificationRunnerComponentRole string
  | RcUnexpectedArtifact CertificationRunnerComponentRole string
  | RcArtifactCountExceeded
  | RcArtifactTooLarge CertificationRunnerComponentRole string usize usize
  | RcArtifactLengthMismatch CertificationRunnerComponentRole string usize usize
  | RcTotalArtifactBytesExceeded usize usize
  | RcArtifactDigestMismatch CertificationRunnerComponentRole string
  | RcPolicy "'je CertificationRunnerPolicyError"

record CertificationRunnerComponentVerificationLimits =
  xl_descriptor :: usize
  xl_artifact :: usize
  xl_aggregate :: usize

definition component_limits_new ::
    "usize \<Rightarrow> usize \<Rightarrow> usize \<Rightarrow>
     'je CertificationRunnerComponentVerificationError + CertificationRunnerComponentVerificationLimits" where
  "component_limits_new max_descriptor_bytes max_artifact_bytes max_total_artifact_bytes =
     (if max_descriptor_bytes = 0 \<or> max_artifact_bytes = 0 \<or> max_total_artifact_bytes = 0 then Inl RcInvalidLimits
      else if MAX_CERTIFICATION_RUNNER_COMPONENT_DESCRIPTOR_BYTES < max_descriptor_bytes \<or>
              MAX_RUNNER_COMPONENT_ARTIFACT_BYTES < max_artifact_bytes \<or>
              MAX_TOTAL_CERTIFICATION_RUNNER_COMPONENT_ARTIFACT_BYTES < max_total_artifact_bytes
      then Inl RcLimitsExceedImplementationMaximum
      else Inr \<lparr>xl_descriptor = max_descriptor_bytes, xl_artifact = max_artifact_bytes,
             xl_aggregate = max_total_artifact_bytes\<rparr>)"

type_synonym Descriptors = "(CertificationRunnerComponentRole \<times> CertificationRunnerComponentDescriptor) list"
type_synonym SuppliedBytes = "(string \<times> bytes) list"
type_synonym Supplies = "(CertificationRunnerComponentRole \<times> SuppliedBytes) list"

fun covered_roles ::
    "CertificationRunnerComponentRole list \<Rightarrow> Descriptors \<Rightarrow> Supplies \<Rightarrow>
     'je CertificationRunnerComponentVerificationError + unit" where
  "covered_roles [] descriptors artifacts = Inr ()"
| "covered_roles (role # roles) descriptors artifacts =
     (if role \<notin> fst ` set descriptors then Inl (RcMissingDescriptor role)
      else if role \<notin> fst ` set artifacts then Inl (RcMissingArtifactSet role)
      else covered_roles roles descriptors artifacts)"

definition unexpected_role :: "(CertificationRunnerComponentRole \<times> 'a) list \<Rightarrow> CertificationRunnerComponentRole option" where
  "unexpected_role entries = find (\<lambda>role. role \<notin> set runner_roles) (map fst entries)"

definition closed_roles ::
    "Descriptors \<Rightarrow> Supplies \<Rightarrow> 'je CertificationRunnerComponentVerificationError + unit" where
  "closed_roles descriptors artifacts =
     (if length descriptors \<noteq> RUNNER_COMPONENT_ROLE_COUNT
      then rbind (ok_or RcUnexpectedDescriptorCount (unexpected_role descriptors)) (\<lambda>role. Inl (RcUnexpectedDescriptor role))
      else if length artifacts \<noteq> RUNNER_COMPONENT_ROLE_COUNT
      then rbind (ok_or RcUnexpectedArtifactSetCount (unexpected_role artifacts)) (\<lambda>role. Inl (RcUnexpectedArtifactSet role))
      else Inr ())"

fun supplied_missing ::
    "CertificationRunnerComponentRole \<Rightarrow> CertificationRunnerComponentArtifact list \<Rightarrow> SuppliedBytes \<Rightarrow>
     'je CertificationRunnerComponentVerificationError + unit" where
  "supplied_missing role [] supplied = Inr ()"
| "supplied_missing role (expected # es) supplied =
     (if artifact_name expected \<notin> fst ` set supplied then Inl (RcMissingArtifact role (artifact_name expected))
      else supplied_missing role es supplied)"

fun supplied_unexpected ::
    "CertificationRunnerComponentRole \<Rightarrow> CertificationRunnerComponentArtifact list \<Rightarrow> SuppliedBytes \<Rightarrow>
     'je CertificationRunnerComponentVerificationError + unit" where
  "supplied_unexpected role expected [] = Inr ()"
| "supplied_unexpected role expected ((name, bs) # supplied) =
     (if name \<notin> fst ` set expected then Inl (RcUnexpectedArtifact role name)
      else supplied_unexpected role expected supplied)"

fun size_components ::
    "CertificationRunnerComponentVerificationLimits \<Rightarrow> CertificationRunnerComponentRole \<Rightarrow> SuppliedBytes \<Rightarrow>
     CertificationRunnerComponentArtifact list \<Rightarrow> usize \<Rightarrow> 'je CertificationRunnerComponentVerificationError + usize" where
  "size_components limits role supplied [] total_artifact_bytes = Inr total_artifact_bytes"
| "size_components limits role supplied (expected # es) total_artifact_bytes =
     rbind (ok_or (RcMissingArtifact role (artifact_name expected)) (map_of supplied (artifact_name expected))) (\<lambda>bs.
     if xl_artifact limits < length bs
     then Inl (RcArtifactTooLarge role (artifact_name expected) (length bs) (xl_artifact limits))
     else if length bs \<noteq> unat (artifact_size expected)
     then Inl (RcArtifactLengthMismatch role (artifact_name expected) (unat (artifact_size expected)) (length bs))
     else
       rbind (ok_or (RcTotalArtifactBytesExceeded (2 ^ 64 - 1) (xl_aggregate limits))
         (checked_add_usize total_artifact_bytes (length bs))) (\<lambda>total_artifact_bytes.
       if xl_aggregate limits < total_artifact_bytes
       then Inl (RcTotalArtifactBytesExceeded total_artifact_bytes (xl_aggregate limits))
       else size_components limits role supplied es total_artifact_bytes))"

text \<open>What the descriptor hasher has absorbed, the artifact count and the total of bytes.\<close>

record ComponentProgress =
  cq_preimage :: bytes
  cq_artifact_count :: usize
  cq_total_artifact_bytes :: usize

definition check_role ::
    "(bytes \<Rightarrow> Sha256Digest) \<Rightarrow> (CertificationRunnerComponentDescriptor \<Rightarrow> 'je + bytes) \<Rightarrow> CertificationRunnerIdentity \<Rightarrow>
     Descriptors \<Rightarrow> Supplies \<Rightarrow> CertificationRunnerComponentVerificationLimits \<Rightarrow> CertificationRunnerComponentRole \<Rightarrow>
     ComponentProgress \<Rightarrow> 'je CertificationRunnerComponentVerificationError + ComponentProgress" where
  "check_role sha256 descriptor_json identity descriptors artifacts limits role progress =
     rbind (ok_or (RcMissingDescriptor role) (map_of descriptors role)) (\<lambda>descriptor.
     if cd_role descriptor \<noteq> role then Inl (RcDescriptorRoleMismatch role (cd_role descriptor))
     else
       rbind (map_err RcCanonicalDescriptorUnavailable (descriptor_json descriptor)) (\<lambda>descriptor_bytes.
       if xl_descriptor limits < length descriptor_bytes
       then Inl (RcDescriptorTooLarge role (length descriptor_bytes) (xl_descriptor limits))
       else
         rbind (map_err RcCanonicalDescriptorUnavailable (hash_canonical sha256 (descriptor_json descriptor))) (\<lambda>descriptor_digest.
         if descriptor_digest \<noteq> identity_descriptor_digest identity role then Inl (RcDescriptorDigestMismatch role)
         else
           let expected = map fst (cd_artifacts descriptor) in
           rbind (ok_or (RcMissingArtifactSet role) (map_of artifacts role)) (\<lambda>supplied.
           rbind (supplied_missing role expected supplied) (\<lambda>_.
           rbind (supplied_unexpected role expected supplied) (\<lambda>_.
           rbind (ok_or RcArtifactCountExceeded
             (checked_add_usize (cq_artifact_count progress) (length supplied))) (\<lambda>artifact_count.
           if MAX_CERTIFICATION_RUNNER_COMPONENT_ARTIFACT_COUNT < artifact_count then Inl RcArtifactCountExceeded
           else
             rbind (size_components limits role supplied expected (cq_total_artifact_bytes progress)) (\<lambda>total_artifact_bytes.
             Inr \<lparr>cq_preimage = cq_preimage progress @ runner_role_tag role # descriptor_digest,
                  cq_artifact_count = artifact_count, cq_total_artifact_bytes = total_artifact_bytes\<rparr>))))))))"

fun check_roles ::
    "(bytes \<Rightarrow> Sha256Digest) \<Rightarrow> (CertificationRunnerComponentDescriptor \<Rightarrow> 'je + bytes) \<Rightarrow> CertificationRunnerIdentity \<Rightarrow>
     Descriptors \<Rightarrow> Supplies \<Rightarrow> CertificationRunnerComponentVerificationLimits \<Rightarrow> CertificationRunnerComponentRole list \<Rightarrow>
     ComponentProgress \<Rightarrow> 'je CertificationRunnerComponentVerificationError + ComponentProgress" where
  "check_roles sha256 descriptor_json identity descriptors artifacts limits [] progress = Inr progress"
| "check_roles sha256 descriptor_json identity descriptors artifacts limits (role # roles) progress =
     rbind (check_role sha256 descriptor_json identity descriptors artifacts limits role progress)
       (check_roles sha256 descriptor_json identity descriptors artifacts limits roles)"

fun digest_components ::
    "(bytes \<Rightarrow> Sha256Digest) \<Rightarrow> CertificationRunnerComponentRole \<Rightarrow> SuppliedBytes \<Rightarrow>
     CertificationRunnerComponentArtifact list \<Rightarrow> 'je CertificationRunnerComponentVerificationError + unit" where
  "digest_components sha256 role supplied [] = Inr ()"
| "digest_components sha256 role supplied (expected # es) =
     rbind (ok_or (RcMissingArtifact role (artifact_name expected)) (map_of supplied (artifact_name expected))) (\<lambda>bs.
     if sha256 bs \<noteq> fst (snd expected) then Inl (RcArtifactDigestMismatch role (artifact_name expected))
     else digest_components sha256 role supplied es)"

fun digest_roles ::
    "(bytes \<Rightarrow> Sha256Digest) \<Rightarrow> Descriptors \<Rightarrow> Supplies \<Rightarrow> CertificationRunnerComponentRole list \<Rightarrow>
     'je CertificationRunnerComponentVerificationError + unit" where
  "digest_roles sha256 descriptors artifacts [] = Inr ()"
| "digest_roles sha256 descriptors artifacts (role # roles) =
     rbind (ok_or (RcMissingDescriptor role) (map_of descriptors role)) (\<lambda>descriptor.
     rbind (ok_or (RcMissingArtifactSet role) (map_of artifacts role)) (\<lambda>supplied.
     rbind (digest_components sha256 role supplied (map fst (cd_artifacts descriptor))) (\<lambda>_.
     digest_roles sha256 descriptors artifacts roles)))"

record VerificationSummary =
  vs_descriptor_set_digest :: Sha256Digest
  vs_artifact_count :: usize
  vs_total_artifact_bytes :: usize

definition verify_component_inputs ::
    "(bytes \<Rightarrow> Sha256Digest) \<Rightarrow> (CertificationRunnerComponentDescriptor \<Rightarrow> 'je + bytes) \<Rightarrow> CertificationRunnerIdentity \<Rightarrow>
     Descriptors \<Rightarrow> Supplies \<Rightarrow> CertificationRunnerComponentVerificationLimits \<Rightarrow>
     'je CertificationRunnerComponentVerificationError + VerificationSummary" where
  "verify_component_inputs sha256 descriptor_json identity descriptors artifacts limits =
     rbind (covered_roles runner_roles descriptors artifacts) (\<lambda>_.
     rbind (closed_roles descriptors artifacts) (\<lambda>_.
     rbind (check_roles sha256 descriptor_json identity descriptors artifacts limits runner_roles
       \<lparr>cq_preimage = DESCRIPTOR_SET_DIGEST_DOMAIN @ to_le 8 RUNNER_COMPONENT_ROLE_COUNT,
        cq_artifact_count = 0, cq_total_artifact_bytes = 0\<rparr>) (\<lambda>progress.
     rbind (digest_roles sha256 descriptors artifacts runner_roles) (\<lambda>_.
     Inr \<lparr>vs_descriptor_set_digest = sha256 (cq_preimage progress),
          vs_artifact_count = cq_artifact_count progress,
          vs_total_artifact_bytes = cq_total_artifact_bytes progress\<rparr>))))"

record VerifiedCertificationRunnerComponents =
  vr_approved :: LocallyApprovedCertificationRunner
  vr_descriptors :: Descriptors
  vr_artifacts :: Supplies
  vr_descriptor_set_digest :: Sha256Digest
  vr_artifact_count :: usize
  vr_total_artifact_bytes :: usize

definition verify_certification_runner_components ::
    "(bytes \<Rightarrow> Sha256Digest) \<Rightarrow> (CertificationRunnerComponentDescriptor \<Rightarrow> 'je + bytes) \<Rightarrow>
     LocallyApprovedCertificationRunner \<Rightarrow> LocalCertificationRunnerPolicy PolicyStore option \<Rightarrow> Descriptors \<Rightarrow> Supplies \<Rightarrow>
     CertificationRunnerComponentVerificationLimits \<Rightarrow>
     'je CertificationRunnerComponentVerificationError + VerifiedCertificationRunnerComponents" where
  "verify_certification_runner_components sha256 descriptor_json approved store descriptors artifacts limits =
     rbind (map_err RcPolicy (runner_current approved store)) (\<lambda>_.
     rbind (verify_component_inputs sha256 descriptor_json (ap_identity approved) descriptors artifacts limits) (\<lambda>summary.
     Inr \<lparr>vr_approved = approved, vr_descriptors = descriptors, vr_artifacts = artifacts,
          vr_descriptor_set_digest = vs_descriptor_set_digest summary,
          vr_artifact_count = vs_artifact_count summary,
          vr_total_artifact_bytes = vs_total_artifact_bytes summary\<rparr>))"

subsection \<open>Verified runners\<close>

text \<open>
  What verification establishes for a role: its descriptor is the preimage of the digest that the
  identity names, the supplied names are the descriptor's, and every artifact has the supplied bytes
  of its size and digest.
\<close>

definition role_verified ::
    "(bytes \<Rightarrow> Sha256Digest) \<Rightarrow> (CertificationRunnerComponentDescriptor \<Rightarrow> 'je + bytes) \<Rightarrow> CertificationRunnerIdentity \<Rightarrow>
     Descriptors \<Rightarrow> Supplies \<Rightarrow> CertificationRunnerComponentRole \<Rightarrow> bool" where
  "role_verified sha256 descriptor_json identity descriptors artifacts role \<longleftrightarrow>
     (\<exists>descriptor supplied. map_of descriptors role = Some descriptor \<and> map_of artifacts role = Some supplied \<and>
        cd_role descriptor = role \<and>
        hash_canonical sha256 (descriptor_json descriptor) = Inr (identity_descriptor_digest identity role) \<and>
        fst ` set supplied = fst ` fst ` set (cd_artifacts descriptor) \<and>
        (\<forall>(name, digest, size_bytes) \<in> fst ` set (cd_artifacts descriptor).
           \<exists>bs. map_of supplied name = Some bs \<and> length bs = unat size_bytes \<and> sha256 bs = digest))"

definition descriptor_set_preimage :: "CertificationRunnerIdentity \<Rightarrow> bytes" where
  "descriptor_set_preimage identity =
     DESCRIPTOR_SET_DIGEST_DOMAIN @ to_le 8 RUNNER_COMPONENT_ROLE_COUNT @
     concat (map (\<lambda>role. runner_role_tag role # identity_descriptor_digest identity role) runner_roles)"

lemma runner_roles_all: "role \<in> set runner_roles"
  by (cases role) (simp_all add: runner_roles_def)

lemma supplied_missing_Inr: "supplied_missing role es supplied = Inr u \<longleftrightarrow> fst ` set es \<subseteq> fst ` set supplied"
  by (induction es) auto

lemma supplied_unexpected_Inr:
  "supplied_unexpected role expected supplied = Inr u \<longleftrightarrow> fst ` set supplied \<subseteq> fst ` set expected"
  by (induction role expected supplied rule: supplied_unexpected.induct) auto

lemma size_components_Inr:
  assumes "size_components limits role supplied es n = Inr k" "e \<in> set es"
  shows "\<exists>bs. map_of supplied (artifact_name e) = Some bs \<and> length bs = unat (artifact_size e)"
  using assms by (induction es arbitrary: n) (auto simp: rbind_Inr_iff split: if_splits)

lemma digest_components_Inr:
  "digest_components sha256 role supplied es = Inr u \<longleftrightarrow>
     (\<forall>e \<in> set es. \<exists>bs. map_of supplied (artifact_name e) = Some bs \<and> sha256 bs = fst (snd e))"
  by (induction es) (auto simp: rbind_Inr_iff)

lemma digest_roles_Inr:
  assumes "digest_roles sha256 descriptors artifacts roles = Inr u" "role \<in> set roles"
    and "map_of descriptors role = Some descriptor" "map_of artifacts role = Some supplied" "(e, x) \<in> set (cd_artifacts descriptor)"
  shows "\<exists>bs. map_of supplied (artifact_name e) = Some bs \<and> sha256 bs = fst (snd e)"
  using assms by (induction roles) (force simp: rbind_Inr_iff digest_components_Inr)+

lemma check_role_Inr:
  assumes "check_role sha256 descriptor_json identity descriptors artifacts limits role progress = Inr progress'"
  obtains descriptor supplied where
    "map_of descriptors role = Some descriptor" "map_of artifacts role = Some supplied" "cd_role descriptor = role"
    "hash_canonical sha256 (descriptor_json descriptor) = Inr (identity_descriptor_digest identity role)"
    "fst ` set supplied = fst ` fst ` set (cd_artifacts descriptor)"
    "\<And>e x. (e, x) \<in> set (cd_artifacts descriptor) \<Longrightarrow>
       \<exists>bs. map_of supplied (artifact_name e) = Some bs \<and> length bs = unat (artifact_size e)"
    "cq_preimage progress' = cq_preimage progress @ runner_role_tag role # identity_descriptor_digest identity role"
proof -
  obtain descriptor supplied where maps: "map_of descriptors role = Some descriptor" "map_of artifacts role = Some supplied"
    using assms by (auto simp: check_role_def Let_def rbind_Inr_iff split: if_splits)
  show thesis
  proof (rule that [OF maps])
    show "\<exists>bs. map_of supplied (artifact_name e) = Some bs \<and> length bs = unat (artifact_size e)"
      if "(e, x) \<in> set (cd_artifacts descriptor)" for e x
      using assms maps that by (force simp: check_role_def Let_def rbind_Inr_iff split: if_splits dest: size_components_Inr)
  qed (use assms maps in \<open>auto simp: check_role_def Let_def rbind_Inr_iff supplied_missing_Inr
    supplied_unexpected_Inr split: if_splits\<close>)
qed

lemma check_roles_preimage:
  assumes "check_roles sha256 descriptor_json identity descriptors artifacts limits roles progress = Inr progress'"
  shows "cq_preimage progress' = cq_preimage progress @
    concat (map (\<lambda>role. runner_role_tag role # identity_descriptor_digest identity role) roles)"
  using assms
proof (induction roles arbitrary: progress)
  case (Cons role roles)
  then obtain p where p: "check_role sha256 descriptor_json identity descriptors artifacts limits role progress = Inr p"
    "check_roles sha256 descriptor_json identity descriptors artifacts limits roles p = Inr progress'"
    by (auto simp: rbind_Inr_iff)
  show ?case
    using check_role_Inr [OF p(1)] Cons.IH [OF p(2)] by simp
qed simp

lemma check_roles_each:
  assumes "check_roles sha256 descriptor_json identity descriptors artifacts limits roles progress = Inr progress'"
    and "role \<in> set roles"
  obtains p p' where "check_role sha256 descriptor_json identity descriptors artifacts limits role p = Inr p'"
  using assms
proof (induction roles arbitrary: progress)
  case (Cons r roles)
  then show ?case
    by (auto simp: rbind_Inr_iff)
qed simp

lemma verify_component_inputs_Inr:
  fixes descriptor_json :: "CertificationRunnerComponentDescriptor \<Rightarrow> 'je + bytes"
  assumes "verify_component_inputs sha256 descriptor_json identity descriptors artifacts limits = Inr summary"
  shows "role_verified sha256 descriptor_json identity descriptors artifacts role"
    "vs_descriptor_set_digest summary = sha256 (descriptor_set_preimage identity)"
proof -
  obtain progress where checked: "check_roles sha256 descriptor_json identity descriptors artifacts limits runner_roles
      \<lparr>cq_preimage = DESCRIPTOR_SET_DIGEST_DOMAIN @ to_le 8 RUNNER_COMPONENT_ROLE_COUNT,
       cq_artifact_count = 0, cq_total_artifact_bytes = 0\<rparr> = Inr progress"
    and digests: "digest_roles sha256 descriptors artifacts runner_roles = (Inr () :: 'je CertificationRunnerComponentVerificationError + unit)"
    and summary: "vs_descriptor_set_digest summary = sha256 (cq_preimage progress)"
    using assms unfolding verify_component_inputs_def rbind_Inr_iff by fastforce
  show "vs_descriptor_set_digest summary = sha256 (descriptor_set_preimage identity)"
    using check_roles_preimage [OF checked] by (simp add: summary descriptor_set_preimage_def)
  obtain p p' where "check_role sha256 descriptor_json identity descriptors artifacts limits role p = Inr p'"
    using check_roles_each [OF checked runner_roles_all] by metis
  then obtain descriptor supplied where d: "map_of descriptors role = Some descriptor"
      "map_of artifacts role = Some supplied" "cd_role descriptor = role"
      "hash_canonical sha256 (descriptor_json descriptor) = Inr (identity_descriptor_digest identity role)"
      "fst ` set supplied = fst ` fst ` set (cd_artifacts descriptor)"
    and sizes: "\<And>e x. (e, x) \<in> set (cd_artifacts descriptor) \<Longrightarrow>
      \<exists>bs. map_of supplied (artifact_name e) = Some bs \<and> length bs = unat (artifact_size e)"
    by (rule check_role_Inr) metis
  have "\<exists>bs. map_of supplied name = Some bs \<and> length bs = unat size_bytes \<and> sha256 bs = digest"
    if "(name, digest, size_bytes) \<in> fst ` set (cd_artifacts descriptor)" for name digest size_bytes
    using that sizes digest_roles_Inr [OF digests runner_roles_all d(1,2)] by fastforce
  then show "role_verified sha256 descriptor_json identity descriptors artifacts role"
    using d unfolding role_verified_def by blast
qed

lemma approve_Inr:
  assumes "approve_local_certification_runner sha256 identity_json identity s s' = Inr approved"
  shows "ap_identity approved = identity" "hash_canonical sha256 (identity_json identity) = Inr (ap_identity_digest approved)"
    "ap_policy approved = gs_policy (gp_state s)" "ap_policy_generation approved = gs_generation (gp_state s)"
    "lrp_identity_digest (ap_policy approved) = ap_identity_digest approved"
  using assms by (auto simp: approve_local_certification_runner_def generation_store_snapshot_def Let_def rbind_Inr_iff
    split: if_splits)

lemma verify_components_Inr:
  assumes "verify_certification_runner_components sha256 descriptor_json approved store descriptors artifacts limits = Inr runner"
  shows "vr_approved runner = approved"
    "vr_descriptor_set_digest runner = sha256 (descriptor_set_preimage (ap_identity approved))"
    "role_verified sha256 descriptor_json (ap_identity approved) descriptors artifacts role"
  using assms by (auto simp: verify_certification_runner_components_def rbind_Inr_iff dest: verify_component_inputs_Inr)

end
