(* ===== verification/Certification_Attested.thy ===== *)
theory Certification_Attested
  imports Certification_Runner
begin

section \<open>Attested publication\<close>

text \<open>
  \<open>weregopher-transform/src/certification_attestation.rs\<close>: a run begins under a verified runner, is
  joined to a certification decision and is published under both policies. The clock is an argument,
  in nanoseconds since its origin, and so is the random challenge; an earlier clock reading counts
  as no time elapsed, as \<open>Instant::elapsed\<close> has it. Both policy guards are held while the pair
  commits, so publication takes one state of each store.
\<close>

datatype 'je AttestedCertificationPublicationError =
    AtInvalidLimits
  | AtLimitsExceedImplementationMaximum
  | AtInvalidFreshnessLimit
  | AtFreshnessExpired
  | AtElapsedDurationUnrepresentable
  | AtSemanticReportMissing
  | AtArtifactCountUnrepresentable
  | AtArtifactBytesUnrepresentable
  | AtRunnerPolicy "'je CertificationRunnerPolicyError"
  | AtCertificationPolicy "'je CertificationPolicyError"
  | AtPublication "'je CertificationPublicationError"
  | AtAttestation CertificationRunAttestationError
  | AtStorePoisoned
  | AtStoreFull

record PendingLocalCertificationRun =
  pg_runner :: VerifiedCertificationRunnerComponents
  pg_semantic_report :: CertificationArtifactRef
  pg_challenge :: uuid
  pg_started_at :: nat
  pg_maximum_elapsed :: nat
  pg_maximum_elapsed_millis :: u64

definition as_millis :: "nat \<Rightarrow> nat" where "as_millis d = d div 1000000"
definition from_millis :: "u64 \<Rightarrow> nat" where "from_millis ms = unat ms * 1000000"

definition try_u64 :: "'e \<Rightarrow> nat \<Rightarrow> 'e + u64" where
  "try_u64 e n = (if n < 2 ^ 64 then Inr (of_nat n) else Inl e)"

definition try_u32 :: "'e \<Rightarrow> nat \<Rightarrow> 'e + u32" where
  "try_u32 e n = (if n < 2 ^ 32 then Inr (of_nat n) else Inl e)"

definition begin_local_certification_run ::
    "VerifiedCertificationRunnerComponents \<Rightarrow> CertificationArtifactRef \<Rightarrow> nat \<Rightarrow>
     LocalCertificationRunnerPolicy PolicyStore option \<Rightarrow> uuid \<Rightarrow> nat \<Rightarrow>
     'je AttestedCertificationPublicationError + PendingLocalCertificationRun" where
  "begin_local_certification_run runner semantic_report maximum_elapsed store challenge now =
     (let implementation_maximum = from_millis MAX_LOCAL_CERTIFICATION_RUN_FRESHNESS_MILLIS in
      rbind (try_u64 AtInvalidFreshnessLimit (as_millis maximum_elapsed)) (\<lambda>maximum_elapsed_millis.
      if maximum_elapsed = 0 \<or> maximum_elapsed_millis = 0 \<or> maximum_elapsed \<noteq> from_millis maximum_elapsed_millis \<or>
         implementation_maximum < maximum_elapsed
      then Inl AtInvalidFreshnessLimit
      else
        rbind (map_err AtRunnerPolicy (runner_current (vr_approved runner) store)) (\<lambda>_.
        Inr \<lparr>pg_runner = runner, pg_semantic_report = semantic_report, pg_challenge = challenge, pg_started_at = now,
             pg_maximum_elapsed = maximum_elapsed, pg_maximum_elapsed_millis = maximum_elapsed_millis\<rparr>)))"

record PreparedAttestedLocalCertificationPublication =
  pq_pending :: PendingLocalCertificationRun
  pq_certified :: LocallyCertifiedArtifacts
  pq_receipt :: LocalCertificationPublicationReceipt

record AttestedLocalCertificationPublication =
  aq_attestation :: LocalCertificationRunAttestation
  aq_receipt :: LocalCertificationPublicationReceipt

definition attested_store_new ::
    "usize \<Rightarrow> 'je AttestedCertificationPublicationError + AttestedLocalCertificationPublication PublicationStore" where
  "attested_store_new max_publications =
     (if max_publications = 0 then Inl AtInvalidLimits
      else if MAX_LOCAL_CERTIFICATION_PUBLICATIONS < max_publications then Inl AtLimitsExceedImplementationMaximum
      else Inr \<lparr>pu_max_publications = max_publications, pu_publications = [], pu_poisoned = False\<rparr>)"

definition attested_publication_count ::
    "AttestedLocalCertificationPublication PublicationStore \<Rightarrow> 'je AttestedCertificationPublicationError + usize" where
  "attested_publication_count self = (if pu_poisoned self then Inl AtStorePoisoned else Inr (length (pu_publications self)))"

definition attested_contains ::
    "AttestedLocalCertificationPublication PublicationStore \<Rightarrow> AttestedLocalCertificationPublication \<Rightarrow>
     'je AttestedCertificationPublicationError + bool" where
  "attested_contains self publication =
     (if pu_poisoned self then Inl AtStorePoisoned else Inr (publication \<in> set (pu_publications self)))"

definition attested_commit ::
    "AttestedLocalCertificationPublication PublicationStore \<Rightarrow> AttestedLocalCertificationPublication \<Rightarrow>
     ('je AttestedCertificationPublicationError + AttestedLocalCertificationPublication) \<times>
       AttestedLocalCertificationPublication PublicationStore" where
  "attested_commit self publication =
     (if pu_poisoned self then (Inl AtStorePoisoned, self)
      else if publication \<in> set (pu_publications self) then (Inr publication, self)
      else if pu_max_publications self \<le> length (pu_publications self) then (Inl AtStoreFull, self)
      else (Inr publication, self\<lparr>pu_publications := pu_publications self @ [publication]\<rparr>))"

definition prepare_attested_local_certification_publication ::
    "(bytes \<Rightarrow> Sha256Digest) \<Rightarrow> PendingLocalCertificationRun \<Rightarrow> LocallyCertifiedArtifacts \<Rightarrow>
     LocalCertificationRunnerPolicy PolicyStore option \<Rightarrow> LocalCertificationPolicy PolicyStore option \<Rightarrow>
     'je AttestedCertificationPublicationError + PreparedAttestedLocalCertificationPublication" where
  "prepare_attested_local_certification_publication sha256 pending certified runner_store store =
     rbind (map_err AtRunnerPolicy (runner_current (vr_approved (pg_runner pending)) runner_store)) (\<lambda>_.
     if pg_semantic_report pending \<notin> fst ` set (va_artifacts (lc_verified_artifacts certified))
     then Inl AtSemanticReportMissing
     else
       rbind (map_err AtPublication (local_certification_receipt sha256 certified store)) (\<lambda>receipt.
       Inr \<lparr>pq_pending = pending, pq_certified = certified, pq_receipt = receipt\<rparr>))"

text \<open>The attestation and receipt that are committed under the guards, from the elapsed time.\<close>

definition attested_pair ::
    "PreparedAttestedLocalCertificationPublication \<Rightarrow> nat \<Rightarrow>
     'je AttestedCertificationPublicationError + AttestedLocalCertificationPublication" where
  "attested_pair prepared elapsed =
     (let pending = pq_pending prepared; receipt = pq_receipt prepared;
          runner = pg_runner pending; approved = vr_approved runner in
      if pg_maximum_elapsed pending < elapsed then Inl AtFreshnessExpired
      else
        rbind (try_u64 AtElapsedDurationUnrepresentable (as_millis elapsed)) (\<lambda>elapsed_millis.
        rbind (map_err AtAttestation
          (run_freshness_new (pg_challenge pending) (pg_maximum_elapsed_millis pending) elapsed_millis)) (\<lambda>freshness.
        rbind (map_err AtAttestation
          (run_runner_identity_new (ap_identity_digest approved) (vr_descriptor_set_digest runner)
            (lrp_revision_digest (ap_policy approved)) (ap_policy_generation approved))) (\<lambda>runner_identity.
        rbind (try_u32 AtArtifactCountUnrepresentable (rc_artifact_count receipt)) (\<lambda>artifact_count.
        rbind (try_u64 AtArtifactBytesUnrepresentable (rc_total_artifact_bytes receipt)) (\<lambda>total_artifact_bytes.
        rbind (map_err AtAttestation
          (run_result_identity_new (pg_semantic_report pending) (rc_target receipt) (rc_profile_digest receipt)
            (rc_evidence_digest receipt) (rc_artifact_set_digest receipt) (rc_class receipt)
            (rc_policy_revision_digest receipt) (rc_policy_generation receipt) artifact_count total_artifact_bytes)) (\<lambda>result.
        Inr \<lparr>aq_attestation = \<lparr>la_freshness = freshness, la_runner = runner_identity, la_result = result\<rparr>,
             aq_receipt = receipt\<rparr>)))))))"

definition publish_attested_local_certification ::
    "PreparedAttestedLocalCertificationPublication \<Rightarrow> LocalCertificationRunnerPolicy PolicyStore option \<Rightarrow>
     LocalCertificationPolicy PolicyStore option \<Rightarrow> nat \<Rightarrow> AttestedLocalCertificationPublication PublicationStore \<Rightarrow>
     ('je AttestedCertificationPublicationError + AttestedLocalCertificationPublication) \<times>
       AttestedLocalCertificationPublication PublicationStore" where
  "publish_attested_local_certification prepared runner_store store now publications =
     (case map_err AtRunnerPolicy (runner_current (vr_approved (pg_runner (pq_pending prepared))) runner_store) of
        Inl e \<Rightarrow> (Inl e, publications)
      | Inr _ \<Rightarrow>
          (case map_err AtCertificationPolicy (certified_current (pq_certified prepared) store) of
             Inl e \<Rightarrow> (Inl e, publications)
           | Inr _ \<Rightarrow>
               (case attested_pair prepared (now - pg_started_at (pq_pending prepared)) of
                  Inl e \<Rightarrow> (Inl e, publications)
                | Inr pair \<Rightarrow> attested_commit publications pair)))"

subsection \<open>Sound publication\<close>

text \<open>
  One run through every stage: the runner is approved and its components verified, the run begins,
  its evidence is validated, its artifacts verified and a class assigned, and the pair is prepared.
  Every stage may meet another state of the policy stores.
\<close>

record RunSubject =
  su_identity :: CertificationRunnerIdentity
  su_descriptors :: Descriptors
  su_supplies :: Supplies
  su_evidence :: CertificationEvidence
  su_profile :: CertificationProfile
  su_artifacts :: ArtifactBytes
  su_report :: CertificationArtifactRef
  su_maximum_elapsed :: nat
  su_challenge :: uuid
  su_started_at :: nat

record 'je RunCodec =
  kr_codec :: "'je CertificationCodec"
  kr_identity_json :: "CertificationRunnerIdentity \<Rightarrow> 'je + bytes"
  kr_descriptor_json :: "CertificationRunnerComponentDescriptor \<Rightarrow> 'je + bytes"

abbreviation "kr_sha256 codec \<equiv> kc_sha256 (kr_codec codec)"

inductive prepared_run ::
    "'je RunCodec \<Rightarrow> RunSubject \<Rightarrow> LocalCertificationRunnerPolicy PolicyStore \<Rightarrow> LocalCertificationPolicy PolicyStore \<Rightarrow>
     PreparedAttestedLocalCertificationPublication \<Rightarrow> bool" for codec subject rs cs where
  staged: "prepared_run codec subject rs cs prepared" if
    "approve_local_certification_runner (kr_sha256 codec) (kr_identity_json codec) (su_identity subject) rs rs1 = Inr approved"
    "verify_certification_runner_components (kr_sha256 codec) (kr_descriptor_json codec) approved rs2
       (su_descriptors subject) (su_supplies subject) component_limits = Inr runner"
    "(begin_local_certification_run runner (su_report subject) (su_maximum_elapsed subject) rs3 (su_challenge subject)
       (su_started_at subject) :: 'je AttestedCertificationPublicationError + _) = Inr pending"
    "validate_against_profile (kr_sha256 codec) (kc_profile_json (kr_codec codec)) (su_evidence subject) (su_profile subject) = Inr v"
    "artifact_limits_new a b = Inr limits"
    "verify_certification_artifacts (kr_sha256 codec) v (su_artifacts subject) limits = Inr verified"
    "assign_local_certification (kr_codec codec) verified cs cs1 = Inr certified"
    "(prepare_attested_local_certification_publication (kr_sha256 codec) pending certified rs4 cs2 ::
       'je AttestedCertificationPublicationError + _) = Inr prepared"

lemma try_u64_Inr: "try_u64 e n = Inr w \<longleftrightarrow> n < 2 ^ 64 \<and> w = of_nat n"
  by (auto simp: try_u64_def)

lemma try_u32_Inr: "try_u32 e n = Inr w \<longleftrightarrow> n < 2 ^ 32 \<and> w = of_nat n"
  by (auto simp: try_u32_def)

lemmas attestation_fields = run_freshness_new_def run_runner_identity_new_def run_result_identity_new_def

lemma attested_pair_Inr:
  assumes "attested_pair prepared elapsed = Inr publication"
  shows "elapsed \<le> pg_maximum_elapsed (pq_pending prepared)"
    "attestation_into_checked (aq_attestation publication) = Inr (aq_attestation publication)"
    "la_freshness (aq_attestation publication) = \<lparr>fr_challenge = pg_challenge (pq_pending prepared),
       fr_maximum_elapsed_millis = pg_maximum_elapsed_millis (pq_pending prepared),
       fr_elapsed_millis = of_nat (as_millis elapsed)\<rparr>"
    "rr_runner_identity_digest (la_runner (aq_attestation publication)) = ap_identity_digest (vr_approved (pg_runner (pq_pending prepared)))"
    "rr_descriptor_set_digest (la_runner (aq_attestation publication)) = vr_descriptor_set_digest (pg_runner (pq_pending prepared))"
    "rt_semantic_report (la_result (aq_attestation publication)) = pg_semantic_report (pq_pending prepared)"
    "rt_target (la_result (aq_attestation publication)) = rc_target (pq_receipt prepared)"
    "rt_profile_digest (la_result (aq_attestation publication)) = rc_profile_digest (pq_receipt prepared)"
    "rt_evidence_digest (la_result (aq_attestation publication)) = rc_evidence_digest (pq_receipt prepared)"
    "rt_artifact_set_digest (la_result (aq_attestation publication)) = rc_artifact_set_digest (pq_receipt prepared)"
    "rt_class (la_result (aq_attestation publication)) = rc_class (pq_receipt prepared)"
    "unat (rt_artifact_count (la_result (aq_attestation publication))) = rc_artifact_count (pq_receipt prepared)"
    "aq_receipt publication = pq_receipt prepared"
  using assms
  by (auto simp: attested_pair_def Let_def rbind_Inr_iff try_u64_Inr try_u32_Inr attestation_fields
    attestation_into_checked_def run_freshness_validate_def run_runner_identity_validate_def
    run_result_identity_validate_def take_bit_nat_eq_self unat_of_nat split: if_splits)

lemma publish_Inr:
  assumes "(publish_attested_local_certification prepared rs cs now store ::
      ('je AttestedCertificationPublicationError + _) \<times> _) = (Inr publication, store')"
  shows "commit_if_policy_current rs (ap_policy (vr_approved (pg_runner (pq_pending prepared))))
      (ap_policy_generation (vr_approved (pg_runner (pq_pending prepared)))) = Inr ()"
    "commit_if_policy_current cs (lc_policy (pq_certified prepared)) (lc_policy_generation (pq_certified prepared)) = Inr ()"
    "attested_pair prepared (now - pg_started_at (pq_pending prepared)) =
      (Inr publication :: 'je AttestedCertificationPublicationError + _)"
    "publication \<in> set (pu_publications store')" "set (pu_publications store) \<subseteq> set (pu_publications store')"
  using assms
  by (auto simp: publish_attested_local_certification_def attested_commit_def runner_current_def certified_current_def
    split: sum.splits if_splits)

lemma begin_run_Inr:
  assumes "begin_local_certification_run runner report maximum_elapsed store challenge now = Inr pending"
  shows "pg_runner pending = runner" "pg_semantic_report pending = report" "pg_challenge pending = challenge"
    "pg_started_at pending = now" "pg_maximum_elapsed pending = maximum_elapsed"
    "maximum_elapsed = unat (pg_maximum_elapsed_millis pending) * 1000000" "maximum_elapsed \<le> 600000 * 1000000"
  using assms by (auto simp: begin_local_certification_run_def Let_def rbind_Inr_iff from_millis_def
    MAX_LOCAL_CERTIFICATION_RUN_FRESHNESS_MILLIS_def split: if_splits)

lemma prepare_attested_Inr:
  assumes "prepare_attested_local_certification_publication sha256 pending certified rs cs = Inr prepared"
  shows "pq_pending prepared = pending" "pq_certified prepared = certified"
    "pg_semantic_report pending \<in> fst ` set (va_artifacts (lc_verified_artifacts certified))"
    "pq_receipt prepared = certified_receipt sha256 certified"
  using assms by (auto simp: prepare_attested_local_certification_publication_def rbind_Inr_iff dest: receipt_Inr
    split: if_splits)

lemma prepared_run_parts:
  assumes "prepared_run codec subject rs cs prepared"
  obtains approved runner pending verified certified where
    "ap_identity approved = su_identity subject"
    "hash_canonical (kr_sha256 codec) (kr_identity_json codec (su_identity subject)) = Inr (ap_identity_digest approved)"
    "ap_policy approved = gs_policy (gp_state rs)" "ap_policy_generation approved = gs_generation (gp_state rs)"
    "vr_approved runner = approved"
    "vr_descriptor_set_digest runner = kr_sha256 codec (descriptor_set_preimage (su_identity subject))"
    "\<And>role. role_verified (kr_sha256 codec) (kr_descriptor_json codec) (su_identity subject) (su_descriptors subject)
       (su_supplies subject) role"
    "pg_runner pending = runner" "pg_semantic_report pending = su_report subject"
    "pg_challenge pending = su_challenge subject" "pg_started_at pending = su_started_at subject"
    "pg_maximum_elapsed pending = su_maximum_elapsed subject" "su_maximum_elapsed subject \<le> 600000 * 1000000"
    "su_maximum_elapsed subject = unat (pg_maximum_elapsed_millis pending) * 1000000"
    "pq_pending prepared = pending" "pq_certified prepared = certified"
    "pq_receipt prepared = certified_receipt (kr_sha256 codec) certified"
    "su_report subject \<in> fst ` set (su_artifacts subject)"
    "lc_verified_artifacts certified = verified" "va_artifacts verified = su_artifacts subject"
    "va_structural_validation verified = \<lparr>sv_profile = su_profile subject, sv_evidence = su_evidence subject\<rparr>"
    "fst ` set (su_artifacts subject) = set (artifact_references (su_evidence subject))"
    "\<forall>(r, bs) \<in> set (su_artifacts subject). kr_sha256 codec bs = car_digest r"
    "evidence_disposition (su_evidence subject) = DispositionComplete"
    "lc_policy certified = gs_policy (gp_state cs)" "lc_policy_generation certified = gs_generation (gp_state cs)"
    "hash_canonical (kr_sha256 codec) (kc_profile_json (kr_codec codec) (su_profile subject)) = Inr (lcp_profile_digest (lc_policy certified))"
    "hash_canonical (kr_sha256 codec) (kc_evidence_json (kr_codec codec) (su_evidence subject)) = Inr (lcp_evidence_digest (lc_policy certified))"
    "lcp_target (lc_policy certified) = ev_target (su_evidence subject)"
    "lcp_approved_class (lc_policy certified) = trusted_class_for_profile (cf_class (su_profile subject))"
  using assms
proof cases
  case (staged rs1 approved rs2 component_limits runner rs3 pending v a b limits verified cs1 certified rs4 cs2)
  note run = approve_Inr [OF staged(1)] verify_components_Inr [OF staged(2)] begin_run_Inr [OF staged(3)]
    prepare_attested_Inr [OF staged(8)]
  note evidence = validated_complete [OF staged(4)] staged(6) [unfolded verify_artifacts_Inr [OF staged(5)]]
    assign_Inr [OF staged(7)]
  show thesis
    by (rule that [of approved runner pending certified verified]) (use run evidence in auto)
qed

text \<open>
  C12: an attested publication succeeds only under the policies it was decided under. Whatever other
  threads did to the two policy stores since the runner was approved and the class assigned, if the
  publication is accepted then no replacement and no revocation was: both stores are in the state
  they had then, and neither is revoked. The time since the run began is within its limit, which is
  at most ten minutes; the pair is in the destination; and the attestation carries the run's
  challenge and times and passes the validation of the ledger.
\<close>

theorem attested_publication_current:
  assumes "prepared_run codec subject rs cs prepared" "policy_change\<^sup>*\<^sup>* rs rs'" "policy_change\<^sup>*\<^sup>* cs cs'"
    and "publish_attested_local_certification prepared (Some rs') (Some cs') now store = (Inr publication, store')"
  shows "gp_state rs' = gp_state rs \<and> gs_revocation_evidence_digest (gp_state rs') = None \<and>
    gp_state cs' = gp_state cs \<and> gs_revocation_evidence_digest (gp_state cs') = None \<and>
    now - su_started_at subject \<le> su_maximum_elapsed subject \<and> su_maximum_elapsed subject \<le> 10 * 60 * 1000 * 1000000 \<and>
    publication \<in> set (pu_publications store') \<and>
    la_freshness (aq_attestation publication) = \<lparr>fr_challenge = su_challenge subject,
      fr_maximum_elapsed_millis = of_nat (su_maximum_elapsed subject div 1000000),
      fr_elapsed_millis = of_nat ((now - su_started_at subject) div 1000000)\<rparr> \<and>
    attestation_into_checked (aq_attestation publication) = Inr (aq_attestation publication)"
  using assms(1)
proof (rule prepared_run_parts)
  fix approved runner pending verified certified
  assume run: "ap_policy approved = gs_policy (gp_state rs)" "ap_policy_generation approved = gs_generation (gp_state rs)"
    "vr_approved runner = approved" "pg_runner pending = runner" "pq_pending prepared = pending"
    "pg_challenge pending = su_challenge subject" "pg_started_at pending = su_started_at subject"
    "pg_maximum_elapsed pending = su_maximum_elapsed subject" "su_maximum_elapsed subject \<le> 600000 * 1000000"
    "su_maximum_elapsed subject = unat (pg_maximum_elapsed_millis pending) * 1000000"
    and certified: "pq_certified prepared = certified" "lc_policy certified = gs_policy (gp_state cs)"
    "lc_policy_generation certified = gs_generation (gp_state cs)"
  note published = publish_Inr [OF assms(4)]
  have runner_unchanged: "gp_state rs' = gp_state rs" "gs_revocation_evidence_digest (gp_state rs) = None"
    using current_unchanged [OF _ assms(2)] published(1) run(1-5) by auto
  have unchanged: "gp_state cs' = gp_state cs" "gs_revocation_evidence_digest (gp_state cs) = None"
    using current_unchanged [OF _ assms(3)] published(2) certified by auto
  have "of_nat (su_maximum_elapsed subject div 1000000) = pg_maximum_elapsed_millis pending"
    by (simp add: run(10))
  then show ?thesis
    using runner_unchanged unchanged run(6-9) published(4) attested_pair_Inr(1-3) [OF published(3)]
    by (simp add: run(5) as_millis_def)
qed

text \<open>
  C13: what an attested publication says is what was verified. The attestation's digests are those of
  the canonical runner identity, profile and evidence, of the fixed preimage of the identity's eleven
  component digests and of the artifact references; every component descriptor hashes to the digest
  in the identity and every component artifact has its size and digest; the supplied artifacts are
  those the evidence references, each with its digest, and one of them is the attested report; the
  evidence is complete, its target is the attested one, and the class is the profile's.
\<close>

theorem attested_publication_binds:
  assumes "prepared_run codec subject rs cs prepared"
    and "publish_attested_local_certification prepared rs' cs' now store = (Inr publication, store')"
  shows "hash_canonical (kr_sha256 codec) (kr_identity_json codec (su_identity subject)) =
      Inr (rr_runner_identity_digest (la_runner (aq_attestation publication))) \<and>
    rr_descriptor_set_digest (la_runner (aq_attestation publication)) =
      kr_sha256 codec (descriptor_set_preimage (su_identity subject)) \<and>
    (\<forall>role. role_verified (kr_sha256 codec) (kr_descriptor_json codec) (su_identity subject) (su_descriptors subject)
       (su_supplies subject) role) \<and>
    hash_canonical (kr_sha256 codec) (kc_profile_json (kr_codec codec) (su_profile subject)) =
      Inr (rt_profile_digest (la_result (aq_attestation publication))) \<and>
    hash_canonical (kr_sha256 codec) (kc_evidence_json (kr_codec codec) (su_evidence subject)) =
      Inr (rt_evidence_digest (la_result (aq_attestation publication))) \<and>
    rt_artifact_set_digest (la_result (aq_attestation publication)) =
      kr_sha256 codec (artifact_set_preimage (su_artifacts subject)) \<and>
    unat (rt_artifact_count (la_result (aq_attestation publication))) = length (su_artifacts subject) \<and>
    fst ` set (su_artifacts subject) = set (artifact_references (su_evidence subject)) \<and>
    (\<forall>(r, bs) \<in> set (su_artifacts subject). kr_sha256 codec bs = car_digest r) \<and>
    rt_semantic_report (la_result (aq_attestation publication)) = su_report subject \<and>
    su_report subject \<in> fst ` set (su_artifacts subject) \<and>
    evidence_disposition (su_evidence subject) = DispositionComplete \<and>
    rt_target (la_result (aq_attestation publication)) = ev_target (su_evidence subject) \<and>
    rt_class (la_result (aq_attestation publication)) = trusted_class_for_profile (cf_class (su_profile subject)) \<and>
    rc_publication_status (aq_receipt publication) = LocalOnly"
proof -
  note pair = attested_pair_Inr [OF publish_Inr(3) [OF assms(2)]]
  show ?thesis
    using assms(1) by (rule prepared_run_parts) (simp add: pair certified_receipt_def)
qed

subsection \<open>A published run\<close>

definition run_ex_codec :: "unit RunCodec" where
  "run_ex_codec = \<lparr>kr_codec = \<lparr>kc_sha256 = cert_ex_sha, kc_profile_json = \<lambda>_. Inr [0, 0],
       kc_evidence_json = \<lambda>_. Inr [0, 0, 0, 0, 0]\<rparr>,
     kr_identity_json = \<lambda>_. Inr [0, 0, 0, 0], kr_descriptor_json = \<lambda>_. Inr [0]\<rparr>"

definition run_ex_identity :: CertificationRunnerIdentity where
  "run_ex_identity = \<lparr>ri_environment = \<lparr>rv_runner_image_digest = [1, 1], rv_host_image_digest = [1, 1],
       rv_host_patch_set_digest = [1, 1], rv_electron_runtime_digest = [1, 1], rv_language_runtime_set_digest = [1, 1]\<rparr>,
     ri_tooling = \<lparr>ro_toolchain_set = [1, 1], ro_host_agent = [1, 1], ro_verifier = [1, 1], ro_probe_asset_set = [1, 1]\<rparr>,
     ri_provenance = \<lparr>rp_source_revision_digest = [1, 1], rp_exception_provenance_digest = [1, 1]\<rparr>\<rparr>"

definition run_ex_descriptor :: "CertificationRunnerComponentRole \<Rightarrow> CertificationRunnerComponentDescriptor" where
  "run_ex_descriptor role = \<lparr>cd_role = role, cd_component_id = ''runner'', cd_version = ''1'', cd_provenance_digest = [6],
     cd_artifacts = [((''image'', [3, 3], 3), ())]\<rparr>"

definition run_ex_subject :: RunSubject where
  "run_ex_subject = \<lparr>su_identity = run_ex_identity,
     su_descriptors = map (\<lambda>role. (role, run_ex_descriptor role)) runner_roles,
     su_supplies = map (\<lambda>role. (role, [(''image'', [7, 7, 7])])) runner_roles,
     su_evidence = cert_ex_evidence, su_profile = cert_ex_profile, su_artifacts = cert_ex_artifacts,
     su_report = cert_ex_ref, su_maximum_elapsed = 60000000000, su_challenge = 42, su_started_at = 1000\<rparr>"

definition run_ex_runner_store :: "LocalCertificationRunnerPolicy PolicyStore" where
  "run_ex_runner_store = generation_store_new \<lparr>lrp_identity_digest = [4, 4], lrp_revision_digest = [9]\<rparr>"

definition run_ex_store :: "LocalCertificationPolicy PolicyStore" where
  "run_ex_store = generation_store_new \<lparr>lcp_target = cert_ex_target, lcp_profile_digest = [2, 2],
     lcp_evidence_digest = [5, 5], lcp_approved_class = SmokeVerified, lcp_revision_digest = [8]\<rparr>"

definition run_ex_approved :: LocallyApprovedCertificationRunner where
  "run_ex_approved = \<lparr>ap_identity = run_ex_identity, ap_identity_digest = [4, 4],
     ap_policy = \<lparr>lrp_identity_digest = [4, 4], lrp_revision_digest = [9]\<rparr>, ap_policy_generation = 1\<rparr>"

definition run_ex_runner :: VerifiedCertificationRunnerComponents where
  "run_ex_runner = \<lparr>vr_approved = run_ex_approved, vr_descriptors = su_descriptors run_ex_subject,
     vr_artifacts = su_supplies run_ex_subject, vr_descriptor_set_digest = cert_ex_sha (descriptor_set_preimage run_ex_identity),
     vr_artifact_count = 11, vr_total_artifact_bytes = 33\<rparr>"

definition run_ex_pending :: PendingLocalCertificationRun where
  "run_ex_pending = \<lparr>pg_runner = run_ex_runner, pg_semantic_report = cert_ex_ref, pg_challenge = 42, pg_started_at = 1000,
     pg_maximum_elapsed = 60000000000, pg_maximum_elapsed_millis = 60000\<rparr>"

definition run_ex_certified :: LocallyCertifiedArtifacts where
  "run_ex_certified = \<lparr>lc_verified_artifacts = cert_ex_verified, lc_policy = gs_policy (gp_state run_ex_store),
     lc_policy_generation = 1\<rparr>"

definition run_ex_prepared :: PreparedAttestedLocalCertificationPublication where
  "run_ex_prepared = \<lparr>pq_pending = run_ex_pending, pq_certified = run_ex_certified,
     pq_receipt = certified_receipt cert_ex_sha run_ex_certified\<rparr>"

definition run_ex_publications :: "AttestedLocalCertificationPublication PublicationStore" where
  "run_ex_publications = \<lparr>pu_max_publications = 2, pu_publications = [], pu_poisoned = False\<rparr>"

lemmas run_ex_policies = run_ex_runner_store_def run_ex_store_def generation_store_new_def generation_store_snapshot_def
  commit_if_policy_current_def runner_current_def certified_current_def

lemma run_ex_approves:
  "approve_local_certification_runner cert_ex_sha (kr_identity_json run_ex_codec) run_ex_identity run_ex_runner_store
     run_ex_runner_store = Inr run_ex_approved"
  by (simp add: approve_local_certification_runner_def hash_canonical_def cert_ex_sha_def run_ex_codec_def
    run_ex_approved_def run_ex_policies)

lemma run_ex_verifies:
  "verify_certification_runner_components cert_ex_sha (kr_descriptor_json run_ex_codec) run_ex_approved
     (Some run_ex_runner_store) (su_descriptors run_ex_subject) (su_supplies run_ex_subject)
     \<lparr>xl_descriptor = 10, xl_artifact = 10, xl_aggregate = 100\<rparr> = Inr run_ex_runner"
  by (simp add: verify_certification_runner_components_def verify_component_inputs_def closed_roles_def check_role_def
    run_ex_subject_def runner_roles_def run_ex_runner_def run_ex_approved_def run_ex_descriptor_def run_ex_identity_def
    run_ex_codec_def hash_canonical_def cert_ex_sha_def RUNNER_COMPONENT_ROLE_COUNT_def checked_add_usize_def
    MAX_CERTIFICATION_RUNNER_COMPONENT_ARTIFACT_COUNT_def MAX_CERTIFICATION_RUNNER_COMPONENT_ARTIFACTS_def
    descriptor_set_preimage_def run_ex_policies)

lemma run_ex_begins:
  "begin_local_certification_run run_ex_runner cert_ex_ref 60000000000 (Some run_ex_runner_store) 42 1000 = Inr run_ex_pending"
  by (simp add: begin_local_certification_run_def as_millis_def from_millis_def try_u64_def run_ex_pending_def
    MAX_LOCAL_CERTIFICATION_RUN_FRESHNESS_MILLIS_def run_ex_runner_def run_ex_approved_def run_ex_policies)

lemma run_ex_validates:
  "validate_against_profile cert_ex_sha (kc_profile_json (kr_codec run_ex_codec)) cert_ex_evidence cert_ex_profile =
     Inr cert_ex_validated"
  by (simp add: validate_against_profile_def hash_canonical_def run_ex_codec_def cert_ex_sha_def cert_ex_evidence_def
    cert_ex_profile_def cert_ex_passed_def expectations_def certification_assessments_def cert_ex_validated_def)

lemma run_ex_artifacts:
  "artifact_limits_new 100 1000 = Inr cert_ex_limits"
  "verify_certification_artifacts cert_ex_sha cert_ex_validated cert_ex_artifacts cert_ex_limits = Inr cert_ex_verified"
proof -
  show limits: "artifact_limits_new 100 1000 = Inr cert_ex_limits"
    by (simp add: artifact_limits_new_def cert_ex_limits_def MAX_CERTIFICATION_ARTIFACT_BYTES_def
      MAX_TOTAL_CERTIFICATION_ARTIFACT_BYTES_def)
  show "verify_certification_artifacts cert_ex_sha cert_ex_validated cert_ex_artifacts cert_ex_limits = Inr cert_ex_verified"
    unfolding verify_artifacts_Inr [OF limits]
    by (simp add: cert_ex_validated_def cert_ex_references cert_ex_artifacts_def cert_ex_verified_def cert_ex_sha_def
      cert_ex_ref_def MAX_CERTIFICATION_ARTIFACT_REFERENCES_def CERTIFICATION_FIXED_CHECK_COUNT_def
      MAX_CERTIFICATION_WORKFLOWS_def MAX_CERTIFICATION_EVIDENCE_REFS_def)
qed

lemma cert_ex_fields:
  "ev_target cert_ex_evidence = cert_ex_target" "ev_profile_digest cert_ex_evidence = [2, 2]"
  "cf_class cert_ex_profile = ProfileSmokeVerified"
  by (simp_all add: cert_ex_evidence_def cert_ex_profile_def)

lemma run_ex_assigns:
  "assign_local_certification (kr_codec run_ex_codec) cert_ex_verified run_ex_store run_ex_store = Inr run_ex_certified"
  by (simp add: assign_local_certification_def Let_def run_ex_policies run_ex_certified_def cert_ex_verified_def cert_ex_fields
    validated_complete(2) [OF run_ex_validates] hash_canonical_def run_ex_codec_def cert_ex_sha_def cert_ex_validated_def)

lemma run_ex_prepares:
  "prepare_attested_local_certification_publication cert_ex_sha run_ex_pending run_ex_certified (Some run_ex_runner_store)
     (Some run_ex_store) = Inr run_ex_prepared"
  by (simp add: prepare_attested_local_certification_publication_def local_certification_receipt_def current_class_def
    certification_artifact_set_digest_def certified_receipt_def run_ex_prepared_def run_ex_pending_def run_ex_runner_def
    run_ex_approved_def run_ex_certified_def cert_ex_verified_def cert_ex_artifacts_def run_ex_policies)

lemma run_ex_subject_fields:
  "kr_sha256 run_ex_codec = cert_ex_sha" "su_identity run_ex_subject = run_ex_identity"
  "su_evidence run_ex_subject = cert_ex_evidence" "su_profile run_ex_subject = cert_ex_profile"
  "su_artifacts run_ex_subject = cert_ex_artifacts" "su_report run_ex_subject = cert_ex_ref"
  "su_maximum_elapsed run_ex_subject = 60000000000" "su_challenge run_ex_subject = 42" "su_started_at run_ex_subject = 1000"
  by (simp_all add: run_ex_codec_def run_ex_subject_def)

lemma run_ex_run: "prepared_run run_ex_codec run_ex_subject run_ex_runner_store run_ex_store run_ex_prepared"
  by (rule staged [where codec = run_ex_codec and subject = run_ex_subject, unfolded run_ex_subject_fields,
    OF run_ex_approves run_ex_verifies run_ex_begins run_ex_validates run_ex_artifacts run_ex_assigns run_ex_prepares])

lemma run_ex_publishes:
  obtains publication store where "publish_attested_local_certification run_ex_prepared (Some run_ex_runner_store)
      (Some run_ex_store) 2001000 run_ex_publications =
    (Inr publication :: unit AttestedCertificationPublicationError + _, store)"
proof -
  have "\<exists>publication. attested_pair run_ex_prepared 2000000 =
      (Inr publication :: unit AttestedCertificationPublicationError + _)"
    by (simp add: attested_pair_def Let_def run_ex_prepared_def run_ex_pending_def run_ex_runner_def run_ex_approved_def
      as_millis_def try_u64_def try_u32_def attestation_fields MAX_LOCAL_CERTIFICATION_RUN_FRESHNESS_MILLIS_def
      certified_receipt_def run_ex_certified_def cert_ex_verified_def cert_ex_artifacts_def run_ex_policies)
  then obtain publication where "attested_pair run_ex_prepared 2000000 =
      (Inr publication :: unit AttestedCertificationPublicationError + _)" ..
  then show thesis
    by (intro that) (simp add: publish_attested_local_certification_def attested_commit_def run_ex_publications_def
      run_ex_prepared_def run_ex_pending_def run_ex_runner_def run_ex_approved_def run_ex_certified_def run_ex_policies)
qed

text \<open>Two milliseconds into the run its publication is accepted.\<close>

theorem attested_publication_current_witness:
  "\<exists>publication store. publish_attested_local_certification run_ex_prepared (Some run_ex_runner_store) (Some run_ex_store)
     2001000 run_ex_publications = (Inr publication :: unit AttestedCertificationPublicationError + _, store) \<and>
   publication \<in> set (pu_publications store) \<and> fr_challenge (la_freshness (aq_attestation publication)) = 42 \<and>
   fr_elapsed_millis (la_freshness (aq_attestation publication)) = 2"
proof -
  obtain publication store where p: "publish_attested_local_certification run_ex_prepared (Some run_ex_runner_store)
      (Some run_ex_store) 2001000 run_ex_publications =
    (Inr publication :: unit AttestedCertificationPublicationError + _, store)"
    by (rule run_ex_publishes)
  then show ?thesis
    using attested_publication_current [OF run_ex_run _ _ p] by (auto simp: run_ex_subject_fields)
qed

theorem attested_publication_binds_witness:
  "\<exists>publication store. publish_attested_local_certification run_ex_prepared (Some run_ex_runner_store) (Some run_ex_store)
     2001000 run_ex_publications = (Inr publication :: unit AttestedCertificationPublicationError + _, store) \<and>
   rr_runner_identity_digest (la_runner (aq_attestation publication)) = [4, 4] \<and>
   rt_evidence_digest (la_result (aq_attestation publication)) = [5, 5] \<and>
   rt_class (la_result (aq_attestation publication)) = SmokeVerified"
proof -
  obtain publication store where p: "publish_attested_local_certification run_ex_prepared (Some run_ex_runner_store)
      (Some run_ex_store) 2001000 run_ex_publications =
    (Inr publication :: unit AttestedCertificationPublicationError + _, store)"
    by (rule run_ex_publishes)
  have "hash_canonical cert_ex_sha (kr_identity_json run_ex_codec run_ex_identity) = Inr [4, 4]"
    "hash_canonical cert_ex_sha (kc_evidence_json (kr_codec run_ex_codec) cert_ex_evidence) = Inr [5, 5]"
    by (simp_all add: hash_canonical_def run_ex_codec_def cert_ex_sha_def)
  then show ?thesis
    using p attested_publication_binds [OF run_ex_run p] by (auto simp: run_ex_subject_fields cert_ex_fields)
qed

end
