(* ===== verification/Package_Manifest.thy ===== *)
theory Package_Manifest
  imports Unicode_Text Wire_Values
begin

section \<open>Package manifests\<close>

text \<open>
  \<open>weregopher-fingerprint/src/builder.rs\<close> and \<open>model.rs\<close>: the canonical package manifest, its
  Merkle tree and its \<open>Deserialize\<close> implementation. Parameters: \<open>sha256\<close>; \<open>to_lowercase\<close>, whose
  mapping is Unicode's and about which nothing is assumed; \<open>custom\<close> (\<open>Error::custom\<close>); and the
  records as serde yields them. A path is the string of its UTF-8 bytes. Allocation failures are
  left out.
\<close>

definition PACKAGE_TREE_FORMAT_VERSION :: u16 where "PACKAGE_TREE_FORMAT_VERSION = 1"
definition MAX_NORMALIZED_PACKAGE_PATH_CHARS :: usize where "MAX_NORMALIZED_PACKAGE_PATH_CHARS = 32767"
definition MAX_NORMALIZED_PACKAGE_PATH_COMPONENTS :: usize where "MAX_NORMALIZED_PACKAGE_PATH_COMPONENTS = 256"
definition MAX_PACKAGE_FILE_RECORDS :: usize where "MAX_PACKAGE_FILE_RECORDS = 65536"
definition MAX_PACKAGE_RECORD_PATH_BYTES :: usize where "MAX_PACKAGE_RECORD_PATH_BYTES = 16 * 1024 * 1024"

definition FILE_HASH_DOMAIN :: bytes where
  "FILE_HASH_DOMAIN = str_bytes ''weregopher.package.file.v1'' @ [0]"
definition DIRECTORY_HASH_DOMAIN :: bytes where
  "DIRECTORY_HASH_DOMAIN = str_bytes ''weregopher.package.directory.v1'' @ [0]"

subsection \<open>Records\<close>

datatype PackageFileKind = PkRegular | PkAsar | PkNativeModule | PkExecutable | PkSymbolicLink

fun package_file_kind_tag :: "PackageFileKind \<Rightarrow> u8" where
  "package_file_kind_tag PkRegular = 1"
| "package_file_kind_tag PkAsar = 2"
| "package_file_kind_tag PkNativeModule = 3"
| "package_file_kind_tag PkExecutable = 4"
| "package_file_kind_tag PkSymbolicLink = 5"

record PackageFileRecord =
  fp_normalized_path :: string
  fp_size :: u64
  fp_sha256 :: Sha256Digest
  fp_executable :: bool
  fp_kind :: PackageFileKind
  fp_signer_thumbprint :: "Sha256Digest option"

record PackageTreeManifest =
  pm_format_version :: u16
  pm_package_tree_merkle :: Sha256Digest
  pm_files :: "PackageFileRecord list"

datatype ManifestError =
    FileLimitExceeded usize usize
  | PathBytesExceeded usize usize
  | InvalidPath string
  | CaseInsensitiveCollision string string
  | ExecutableKindMismatch string
  | PathConflict string

subsection \<open>Checks of one record\<close>

fun total_path_bytes :: "usize \<Rightarrow> PackageFileRecord list \<Rightarrow> usize option" where
  "total_path_bytes n [] = Some n"
| "total_path_bytes n (r # rs) =
     (case checked_add_usize n (length (fp_normalized_path r)) of None \<Rightarrow> None | Some n \<Rightarrow> total_path_bytes n rs)"

definition validate_resource_bounds :: "PackageFileRecord list \<Rightarrow> ManifestError + unit" where
  "validate_resource_bounds records =
     (if MAX_PACKAGE_FILE_RECORDS < length records
      then Inl (FileLimitExceeded (length records) MAX_PACKAGE_FILE_RECORDS)
      else case total_path_bytes 0 records of
          None \<Rightarrow> Inl (PathBytesExceeded (2 ^ 64 - 1) MAX_PACKAGE_RECORD_PATH_BYTES)
        | Some n \<Rightarrow>
            if MAX_PACKAGE_RECORD_PATH_BYTES < n then Inl (PathBytesExceeded n MAX_PACKAGE_RECORD_PATH_BYTES)
            else Inr ())"

definition validate_executable_kind :: "PackageFileRecord \<Rightarrow> ManifestError + unit" where
  "validate_executable_kind r =
     (let expected = fp_kind r \<in> {PkNativeModule, PkExecutable} in
      if fp_executable r = expected then Inr () else Inl (ExecutableKindMismatch (fp_normalized_path r)))"

definition scalar_is_control :: "nat \<Rightarrow> bool" where
  "scalar_is_control c \<longleftrightarrow> c < 0x20 \<or> 0x7F \<le> c \<and> c \<le> 0x9F"

definition validate_normalized_path :: "string \<Rightarrow> ManifestError + unit" where
  "validate_normalized_path path =
     (let invalid_length = MAX_NORMALIZED_PACKAGE_PATH_CHARS < length (chars path);
          invalid_depth = MAX_NORMALIZED_PACKAGE_PATH_COMPONENTS < length (split_on (CHR ''/'') path);
          invalid_character = list_ex (\<lambda>c. scalar_is_control c \<or> c = 0x5C \<or> c = 0x3A) (chars path);
          invalid_segment = list_ex (\<lambda>component. component = [] \<or> component = ''.'' \<or> component = ''..'') (split_on (CHR ''/'') path) in
      if invalid_length \<or> invalid_depth \<or> invalid_character \<or> invalid_segment then Inl (InvalidPath path) else Inr ())"

definition push_component :: "string \<Rightarrow> string \<Rightarrow> string" where
  "push_component before component = (if before = [] then component else before @ CHR ''/'' # component)"

fun case_collision_loop ::
    "(string \<Rightarrow> string) \<Rightarrow> string list \<Rightarrow> string \<Rightarrow> (string \<times> string) list \<Rightarrow> ManifestError + (string \<times> string) list" where
  "case_collision_loop to_lowercase [] before observed = Inr observed"
| "case_collision_loop to_lowercase (component # components) before observed =
     (let now = push_component before component; folded = to_lowercase now in
      case bt_get observed folded of
        Some first \<Rightarrow>
          if first \<noteq> now then Inl (CaseInsensitiveCollision first now)
          else case_collision_loop to_lowercase components now observed
      | None \<Rightarrow> case_collision_loop to_lowercase components now (bt_insert folded now observed))"

definition reject_case_collision ::
    "(string \<Rightarrow> string) \<Rightarrow> (string \<times> string) list \<Rightarrow> string \<Rightarrow> ManifestError + (string \<times> string) list" where
  "reject_case_collision to_lowercase observed normalized_path =
     case_collision_loop to_lowercase (split_on (CHR ''/'') normalized_path) [] observed"

subsection \<open>The Merkle tree\<close>

definition length_prefixed :: "bytes \<Rightarrow> bytes" where
  "length_prefixed bs = to_le 8 (length bs) @ bs"

definition file_record_preimage :: "PackageFileRecord \<Rightarrow> bytes" where
  "file_record_preimage r =
     FILE_HASH_DOMAIN @ length_prefixed (str_bytes (fp_normalized_path r)) @ to_le 8 (unat (fp_size r)) @ fp_sha256 r @
     [if fp_executable r then 1 else 0, package_file_kind_tag (fp_kind r)] @
     (case fp_signer_thumbprint r of Some signer \<Rightarrow> 1 # signer | None \<Rightarrow> [0])"

definition hash_file_record :: "(bytes \<Rightarrow> Sha256Digest) \<Rightarrow> PackageFileRecord \<Rightarrow> Sha256Digest" where
  "hash_file_record sha256 r = sha256 (file_record_preimage r)"

datatype TreeChild =
    TreeDirectory "(string \<times> TreeChild) list"
  | TreeLeaf Sha256Digest PackageFileKind

type_synonym DirectoryNode = "(string \<times> TreeChild) list"

fun insert_at :: "string \<Rightarrow> string list \<Rightarrow> string \<Rightarrow> TreeChild \<Rightarrow> DirectoryNode \<Rightarrow> ManifestError + DirectoryNode" where
  "insert_at full_path [] filename leaf node =
     (case bt_get node filename of
        None \<Rightarrow> Inr (bt_insert filename leaf node)
      | Some _ \<Rightarrow> Inl (PathConflict full_path))"
| "insert_at full_path (component # components) filename leaf node =
     (case (case bt_get node component of None \<Rightarrow> TreeDirectory [] | Some child \<Rightarrow> child) of
        TreeDirectory directory \<Rightarrow>
          rbind (insert_at full_path components filename leaf directory) (\<lambda>directory.
          Inr (bt_insert component (TreeDirectory directory) node))
      | TreeLeaf _ _ \<Rightarrow> Inl (PathConflict full_path))"

definition insert_leaf ::
    "DirectoryNode \<Rightarrow> string \<Rightarrow> Sha256Digest \<Rightarrow> PackageFileKind \<Rightarrow> ManifestError + DirectoryNode" where
  "insert_leaf node normalized_path hash kind =
     (let components = split_on (CHR ''/'') normalized_path in
      insert_at normalized_path (butlast components) (last components) (TreeLeaf hash kind) node)"

fun directory_preimage :: "(bytes \<Rightarrow> Sha256Digest) \<Rightarrow> string \<Rightarrow> DirectoryNode \<Rightarrow> bytes"
and child_bytes :: "(bytes \<Rightarrow> Sha256Digest) \<Rightarrow> string \<Rightarrow> TreeChild \<Rightarrow> bytes" where
  "directory_preimage sha256 normalized_path children =
     DIRECTORY_HASH_DOMAIN @ length_prefixed (str_bytes normalized_path) @ to_le 8 (length children) @
     concat (map (\<lambda>(name, child). length_prefixed (str_bytes name) @ child_bytes sha256 (push_component normalized_path name) child) children)"
| "child_bytes sha256 child_path (TreeDirectory directory) = 1 # sha256 (directory_preimage sha256 child_path directory)"
| "child_bytes sha256 child_path (TreeLeaf hash kind) = [2, package_file_kind_tag kind] @ hash"

definition directory_hash :: "(bytes \<Rightarrow> Sha256Digest) \<Rightarrow> string \<Rightarrow> DirectoryNode \<Rightarrow> Sha256Digest" where
  "directory_hash sha256 normalized_path node = sha256 (directory_preimage sha256 normalized_path node)"

subsection \<open>Building and reading manifests\<close>

fun build_loop ::
    "(bytes \<Rightarrow> Sha256Digest) \<Rightarrow> (string \<Rightarrow> string) \<Rightarrow> PackageFileRecord list \<Rightarrow> DirectoryNode \<Rightarrow> (string \<times> string) list \<Rightarrow>
     ManifestError + DirectoryNode" where
  "build_loop sha256 to_lowercase [] tree observed = Inr tree"
| "build_loop sha256 to_lowercase (r # records) tree observed =
     rbind (validate_normalized_path (fp_normalized_path r)) (\<lambda>_.
     rbind (validate_executable_kind r) (\<lambda>_.
     rbind (reject_case_collision to_lowercase observed (fp_normalized_path r)) (\<lambda>observed.
     rbind (insert_leaf tree (fp_normalized_path r) (hash_file_record sha256 r) (fp_kind r)) (\<lambda>tree.
     build_loop sha256 to_lowercase records tree observed))))"

definition build_package_manifest ::
    "(bytes \<Rightarrow> Sha256Digest) \<Rightarrow> (string \<Rightarrow> string) \<Rightarrow> PackageFileRecord list \<Rightarrow> ManifestError + PackageTreeManifest" where
  "build_package_manifest sha256 to_lowercase records =
     rbind (validate_resource_bounds records) (\<lambda>_.
     let records = sort_key fp_normalized_path records in
     rbind (build_loop sha256 to_lowercase records [] []) (\<lambda>tree.
     Inr \<lparr>pm_format_version = PACKAGE_TREE_FORMAT_VERSION, pm_package_tree_merkle = directory_hash sha256 [] tree,
          pm_files = records\<rparr>))"

datatype ManifestProblem =
    UnsupportedFormatVersion
  | NotCanonicalOrder
  | RecordsRejected ManifestError
  | MerkleRootMismatch
  | TooManyRecordsDisclosed usize
  | TooManyRecords
  | RecordPathBytesOverflow
  | RecordPathBytesExceeded usize

text \<open>
  The sequence of records as serde offers it: a size hint, for every element the record or the
  error of decoding it (also when it is skipped), and the end.
\<close>

record 'de RawRecords =
  rr_size_hint :: "usize option"
  rr_records :: "('de + PackageFileRecord) list"
  rr_ignored :: "'de + unit"
  rr_finish :: "'de + unit"

fun visit_records ::
    "(ManifestProblem \<Rightarrow> 'de) \<Rightarrow> ('de + PackageFileRecord) list \<Rightarrow> 'de + unit \<Rightarrow> 'de + unit \<Rightarrow> PackageFileRecord list \<Rightarrow> usize \<Rightarrow>
     'de + PackageFileRecord list" where
  "visit_records custom [] ignored fin records path_bytes = rbind fin (\<lambda>_. Inr records)"
| "visit_records custom (element # elements) ignored fin records path_bytes =
     (if length records < MAX_PACKAGE_FILE_RECORDS then
        rbind element (\<lambda>r.
        rbind (ok_or (custom RecordPathBytesOverflow) (checked_add_usize path_bytes (length (fp_normalized_path r)))) (\<lambda>path_bytes.
        if MAX_PACKAGE_RECORD_PATH_BYTES < path_bytes then Inl (custom (RecordPathBytesExceeded path_bytes))
        else visit_records custom elements ignored fin (records @ [r]) path_bytes))
      else rbind ignored (\<lambda>_. Inl (custom TooManyRecords)))"

definition deserialize_package_file_records ::
    "(ManifestProblem \<Rightarrow> 'de) \<Rightarrow> 'de RawRecords \<Rightarrow> 'de + PackageFileRecord list" where
  "deserialize_package_file_records custom raw =
     (let disclosed = (case rr_size_hint raw of Some n \<Rightarrow> n | None \<Rightarrow> 0) in
      if MAX_PACKAGE_FILE_RECORDS < disclosed then Inl (custom (TooManyRecordsDisclosed disclosed))
      else visit_records custom (rr_records raw) (rr_ignored raw) (rr_finish raw) [] 0)"

record 'de RawManifest =
  rm_format_version :: "'de + u16"
  rm_package_tree_merkle :: "'de + Sha256Digest"
  rm_files :: "'de RawRecords"

fun canonical_order :: "PackageFileRecord list \<Rightarrow> bool" where
  "canonical_order (a # b # records) \<longleftrightarrow> fp_normalized_path a < fp_normalized_path b \<and> canonical_order (b # records)"
| "canonical_order records \<longleftrightarrow> True"

definition manifest_deserialize ::
    "(bytes \<Rightarrow> Sha256Digest) \<Rightarrow> (string \<Rightarrow> string) \<Rightarrow> (ManifestProblem \<Rightarrow> 'de) \<Rightarrow> 'de RawManifest \<Rightarrow> 'de + PackageTreeManifest" where
  "manifest_deserialize sha256 to_lowercase custom raw =
     rbind (rm_format_version raw) (\<lambda>format_version.
     rbind (rm_package_tree_merkle raw) (\<lambda>expected_root.
     rbind (deserialize_package_file_records custom (rm_files raw)) (\<lambda>records.
     if format_version \<noteq> PACKAGE_TREE_FORMAT_VERSION then Inl (custom UnsupportedFormatVersion)
     else if \<not> canonical_order records then Inl (custom NotCanonicalOrder)
     else
       rbind (map_err (\<lambda>e. custom (RecordsRejected e)) (build_package_manifest sha256 to_lowercase records)) (\<lambda>manifest.
       if pm_package_tree_merkle manifest \<noteq> expected_root then Inl (custom MerkleRootMismatch)
       else Inr manifest))))"

end
