(* ===== verification/Package_Merkle.thy ===== *)
theory Package_Merkle
  imports Package_Manifest "HOL-Library.Sublist"
begin

section \<open>What the Merkle root binds\<close>

text \<open>
  The hashed encodings of records and directories are injective, so a root determines its tree
  and, through the leaves, the records; and a tree is determined by its leaves.
\<close>

subsection \<open>Encodings\<close>

lemma kind_tag_inj: "package_file_kind_tag a = package_file_kind_tag b \<longleftrightarrow> a = b"
  by (cases a; cases b) simp_all

lemma prefixed_inj:
  assumes "length_prefixed a @ x = length_prefixed b @ y" "length a < 2 ^ 64" "length b < 2 ^ 64"
  shows "a = b \<and> x = y"
proof -
  have le: "to_le 8 (length a) = to_le 8 (length b)" and app: "a @ x = b @ y"
    using assms(1) by (simp_all add: length_prefixed_def)
  have "length a = length b"
    using to_le_eqD [OF le] assms(2,3) by simp
  then show ?thesis
    using app by simp
qed

definition record_typed :: "PackageFileRecord \<Rightarrow> bool" where
  "record_typed r \<longleftrightarrow> length (fp_sha256 r) = 32 \<and> (\<forall>s. fp_signer_thumbprint r = Some s \<longrightarrow> length s = 32)"

lemma u64_le_inj: "to_le 8 (unat (a :: u64)) = to_le 8 (unat b) \<longleftrightarrow> a = b"
proof
  assume "to_le 8 (unat a) = to_le 8 (unat b)"
  moreover have "unat a < 256 ^ 8" "unat b < 256 ^ 8"
    using unsigned_less [of a] unsigned_less [of b] by simp_all
  ultimately show "a = b"
    using to_le_eqD [of 8 "unat a" "unat b"] by (simp add: word_unat_eq_iff)
qed simp

lemma file_record_preimage_inj:
  assumes "file_record_preimage r = file_record_preimage q" "record_typed r" "record_typed q"
    and "length (fp_normalized_path r) < 2 ^ 64" "length (fp_normalized_path q) < 2 ^ 64"
  shows "r = q"
proof -
  define flags where "flags = (\<lambda>r :: PackageFileRecord. [if fp_executable r then 1 else 0, package_file_kind_tag (fp_kind r)] @
     (case fp_signer_thumbprint r of Some signer \<Rightarrow> 1 # signer | None \<Rightarrow> [0]))"
  have "length_prefixed (str_bytes (fp_normalized_path r)) @ to_le 8 (unat (fp_size r)) @ fp_sha256 r @ flags r =
      length_prefixed (str_bytes (fp_normalized_path q)) @ to_le 8 (unat (fp_size q)) @ fp_sha256 q @ flags q"
    using assms(1) unfolding file_record_preimage_def flags_def by simp
  then have p: "fp_normalized_path r = fp_normalized_path q"
    "to_le 8 (unat (fp_size r)) @ fp_sha256 r @ flags r = to_le 8 (unat (fp_size q)) @ fp_sha256 q @ flags q"
    using prefixed_inj [of "str_bytes (fp_normalized_path r)" _ "str_bytes (fp_normalized_path q)"] assms(4,5) by auto
  then have size: "fp_size r = fp_size q" and "fp_sha256 r @ flags r = fp_sha256 q @ flags q"
    using append_eq_append_conv [of "to_le 8 (unat (fp_size r))" "to_le 8 (unat (fp_size q))"] u64_le_inj by auto
  then have "fp_sha256 r = fp_sha256 q" and f: "flags r = flags q"
    using append_eq_append_conv [of "fp_sha256 r" "fp_sha256 q"] assms(2,3) by (simp_all add: record_typed_def)
  moreover have "fp_executable r = fp_executable q" "fp_kind r = fp_kind q" "fp_signer_thumbprint r = fp_signer_thumbprint q"
    using f by (auto simp: flags_def kind_tag_inj split: if_splits option.splits)
  ultimately show ?thesis
    using p(1) size by simp
qed

subsection \<open>Trees\<close>

fun node_sized :: "nat \<Rightarrow> DirectoryNode \<Rightarrow> bool" and child_sized :: "nat \<Rightarrow> TreeChild \<Rightarrow> bool" where
  "node_sized k children \<longleftrightarrow> length children \<le> k \<and>
     list_all (\<lambda>(name, child). length name < 2 ^ 64 \<and> child_sized k child) children"
| "child_sized k (TreeDirectory directory) \<longleftrightarrow> node_sized k directory"
| "child_sized k (TreeLeaf hash kind) \<longleftrightarrow> length hash = 32"

fun node_preimages :: "(bytes \<Rightarrow> Sha256Digest) \<Rightarrow> string \<Rightarrow> DirectoryNode \<Rightarrow> bytes list"
and child_preimages :: "(bytes \<Rightarrow> Sha256Digest) \<Rightarrow> string \<Rightarrow> TreeChild \<Rightarrow> bytes list" where
  "node_preimages sha256 path children =
     directory_preimage sha256 path children #
     concat (map (\<lambda>(name, child). child_preimages sha256 (push_component path name) child) children)"
| "child_preimages sha256 path (TreeDirectory directory) = node_preimages sha256 path directory"
| "child_preimages sha256 path (TreeLeaf hash kind) = []"

declare directory_preimage.simps [simp del] node_preimages.simps [simp del] node_sized.simps [simp del]

lemma child_bytes_append:
  assumes "child_bytes sha256 p c @ x = child_bytes sha256 q d @ y" "\<And>bs. length (sha256 bs) = 32"
    and "child_sized k c" "child_sized k d"
  shows "child_bytes sha256 p c = child_bytes sha256 q d \<and> x = y"
proof -
  have "length (child_bytes sha256 p c) = length (child_bytes sha256 q d)"
    using assms by (cases c; cases d) auto
  then show ?thesis
    using assms(1) by simp
qed

lemma entries_inj:
  assumes sha: "\<And>bs. length (sha256 bs) = 32"
    and child: "\<And>name c c'. (name, c) \<in> set n1 \<Longrightarrow> (name, c') \<in> set n2 \<Longrightarrow>
      child_bytes sha256 (push_component p name) c = child_bytes sha256 (push_component p name) c' \<Longrightarrow> c = c'"
    and "list_all (\<lambda>(name, c). length name < 2 ^ 64 \<and> child_sized k c) n1"
    and "list_all (\<lambda>(name, c). length name < 2 ^ 64 \<and> child_sized k c) n2"
    and "length n1 = length n2"
    and "concat (map (\<lambda>(name, c). length_prefixed (str_bytes name) @ child_bytes sha256 (push_component p name) c) n1) =
      concat (map (\<lambda>(name, c). length_prefixed (str_bytes name) @ child_bytes sha256 (push_component p name) c) n2)"
  shows "n1 = n2"
  using assms(2-)
proof (induction n1 arbitrary: n2)
  case (Cons e n1)
  then obtain name c name' c' n2' where e: "e = (name, c)" "n2 = (name', c') # n2'"
    by (cases e; cases n2) auto
  have sized: "length name < 2 ^ 64" "length name' < 2 ^ 64" "child_sized k c" "child_sized k c'"
    using Cons.prems(2,3) by (simp_all add: e)
  define enc where "enc = (\<lambda>(name, c). length_prefixed (str_bytes name) @ child_bytes sha256 (push_component p name) c)"
  have "length_prefixed (str_bytes name) @ child_bytes sha256 (push_component p name) c @ concat (map enc n1) =
      length_prefixed (str_bytes name') @ child_bytes sha256 (push_component p name') c' @ concat (map enc n2')"
    using Cons.prems(5) by (simp add: e enc_def)
  then have n: "name = name'" and
    "child_bytes sha256 (push_component p name) c @ concat (map enc n1) = child_bytes sha256 (push_component p name') c' @ concat (map enc n2')"
    using prefixed_inj [of "str_bytes name" _ "str_bytes name'"] sized by auto
  then have b: "child_bytes sha256 (push_component p name) c = child_bytes sha256 (push_component p name) c'"
      "concat (map enc n1) = concat (map enc n2')"
    using child_bytes_append [OF _ sha sized(3,4)] by auto
  have "c = c'"
    using Cons.prems(1) [of name c c'] b(1) n by (simp add: e)
  moreover have "n1 = n2'"
    using Cons.prems b(2) by (intro Cons.IH) (auto simp: e enc_def)
  ultimately show ?case
    by (simp add: e n)
qed simp

lemma tree_inj:
  assumes k: "k < 2 ^ 64"
  shows "directory_preimage sha256 p n1 = directory_preimage sha256 p n2 \<Longrightarrow> node_sized k n1 \<Longrightarrow> node_sized k n2 \<Longrightarrow>
      inj_on sha256 (set (node_preimages sha256 p n1) \<union> set (node_preimages sha256 p n2)) \<Longrightarrow>
      (\<And>bs. length (sha256 bs) = 32) \<Longrightarrow> n1 = n2"
    and "child_bytes sha256 p c1 = child_bytes sha256 p c2 \<Longrightarrow> child_sized k c1 \<Longrightarrow> child_sized k c2 \<Longrightarrow>
      inj_on sha256 (set (child_preimages sha256 p c1) \<union> set (child_preimages sha256 p c2)) \<Longrightarrow>
      (\<And>bs. length (sha256 bs) = 32) \<Longrightarrow> c1 = c2"
proof (induction sha256 p n1 and sha256 p c1 arbitrary: n2 and c2 rule: directory_preimage_child_bytes.induct)
  case (1 sha256 p n1)
  have len: "length n1 = length n2"
    using to_le_eqD [of 8 "length n1" "length n2"] "1.prems"(1-3) k
    by (simp add: directory_preimage.simps node_sized.simps)
  show ?case
  proof (rule entries_inj [OF "1.prems"(5)])
    fix name c c'
    assume mem: "(name, c) \<in> set n1" "(name, c') \<in> set n2"
      and eq: "child_bytes sha256 (push_component p name) c = child_bytes sha256 (push_component p name) c'"
    have "set (child_preimages sha256 (push_component p name) c) \<subseteq> set (node_preimages sha256 p n1)"
      "set (child_preimages sha256 (push_component p name) c') \<subseteq> set (node_preimages sha256 p n2)"
      using mem by (force simp: node_preimages.simps)+
    then have "inj_on sha256 (set (child_preimages sha256 (push_component p name) c) \<union>
        set (child_preimages sha256 (push_component p name) c'))"
      using "1.prems"(4) by (meson Un_mono inj_on_subset)
    moreover have "child_sized k c" "child_sized k c'"
      using mem "1.prems"(2,3) by (auto simp: node_sized.simps list_all_iff)
    ultimately show "c = c'"
      using "1.IH" [OF mem(1) refl eq] "1.prems"(5) by simp
  qed (use "1.prems"(1-3) len in \<open>simp_all add: directory_preimage.simps node_sized.simps\<close>)
next
  case (2 sha256 p d)
  then obtain d2 where c2: "c2 = TreeDirectory d2"
    by (cases c2) auto
  have "directory_preimage sha256 p d = directory_preimage sha256 p d2"
    using inj_onD [OF "2.prems"(4), of "directory_preimage sha256 p d" "directory_preimage sha256 p d2"] "2.prems"(1)
    by (simp add: c2 node_preimages.simps)
  then show ?case
    using "2.IH" "2.prems" by (simp add: c2)
next
  case (3 sha256 p h kd)
  then show ?case
    by (cases c2) (auto simp: kind_tag_inj)
qed

subsection \<open>Leaves\<close>

fun node_leaves :: "DirectoryNode \<Rightarrow> (string list \<times> Sha256Digest \<times> PackageFileKind) list"
and child_leaves :: "TreeChild \<Rightarrow> (string list \<times> Sha256Digest \<times> PackageFileKind) list" where
  "node_leaves children = concat (map (\<lambda>(name, child). map (\<lambda>(path, leaf). (name # path, leaf)) (child_leaves child)) children)"
| "child_leaves (TreeDirectory directory) = node_leaves directory"
| "child_leaves (TreeLeaf hash kind) = [([], (hash, kind))]"

fun node_wf :: "DirectoryNode \<Rightarrow> bool" and child_wf :: "TreeChild \<Rightarrow> bool" where
  "node_wf children \<longleftrightarrow> bt_wf children \<and> list_all (\<lambda>(name, child). child_wf child) children"
| "child_wf (TreeDirectory directory) \<longleftrightarrow> directory \<noteq> [] \<and> node_wf directory"
| "child_wf (TreeLeaf hash kind) \<longleftrightarrow> True"

declare node_leaves.simps [simp del] node_wf.simps [simp del]

lemma node_leaves_mem:
  assumes "bt_wf node"
  shows "(path, leaf) \<in> set (node_leaves node) \<longleftrightarrow>
    (\<exists>name rest child. path = name # rest \<and> bt_get node name = Some child \<and> (rest, leaf) \<in> set (child_leaves child))"
  using bt_get_mem [OF assms] by (force simp: node_leaves.simps)

lemma wf_child: "node_wf node \<Longrightarrow> bt_get node name = Some child \<Longrightarrow> child_wf child"
  by (auto simp: node_wf.simps list_all_iff bt_get_mem)

lemma wf_bt: "node_wf node \<Longrightarrow> bt_wf node"
  by (simp add: node_wf.simps)

lemma leaves_nonempty:
  "node_wf node \<Longrightarrow> node \<noteq> [] \<Longrightarrow> node_leaves node \<noteq> []"
  "child_wf child \<Longrightarrow> child_leaves child \<noteq> []"
proof (induction node and child rule: node_leaves_child_leaves.induct)
  case (1 children)
  then obtain name child children' where c: "children = (name, child) # children'"
    by (cases children) auto
  then show ?case
    using "1.IH" [of "(name, child)" name child] "1.prems"(1) by (auto simp: node_leaves.simps node_wf.simps)
qed (auto)

lemma leaf_path_nonempty: "[] \<notin> fst ` set (node_leaves node)"
  by (auto simp: node_leaves.simps)

lemma tree_of_leaves:
  "node_wf n1 \<Longrightarrow> node_wf n2 \<Longrightarrow> set (node_leaves n1) = set (node_leaves n2) \<Longrightarrow> n1 = n2"
  "child_wf c1 \<Longrightarrow> child_wf c2 \<Longrightarrow> set (child_leaves c1) = set (child_leaves c2) \<Longrightarrow> c1 = c2"
proof (induction n1 and c1 arbitrary: n2 and c2 rule: node_leaves_child_leaves.induct)
  case (1 n1)
  note wf = wf_bt [OF "1.prems"(1)] wf_bt [OF "1.prems"(2)]
  have leaves: "(\<exists>child. bt_get n1 name = Some child \<and> (rest, leaf) \<in> set (child_leaves child)) \<longleftrightarrow>
      (\<exists>child. bt_get n2 name = Some child \<and> (rest, leaf) \<in> set (child_leaves child))" for name rest leaf
    using node_leaves_mem [OF wf(1), of "name # rest" leaf] node_leaves_mem [OF wf(2), of "name # rest" leaf] "1.prems"(3) by simp
  have same: "bt_get n2 name = Some c" if n1: "bt_get n1 name = Some c" for name c
  proof -
    have "child_wf c"
      using wf_child "1.prems"(1) n1 by blast
    then obtain rest leaf where "(rest, leaf) \<in> set (child_leaves c)"
      using leaves_nonempty(2) by (cases "child_leaves c") auto
    then obtain d where d: "bt_get n2 name = Some d"
      using leaves n1 by blast
    have "set (child_leaves c) = set (child_leaves d)"
      by (rule set_eqI) (use leaves [of name "fst x" "snd x" for x] n1 d in simp)
    then have "c = d"
      using "1.IH" [of "(name, c)" name c d] n1 bt_get_mem [OF wf(1)] wf_child [OF "1.prems"(2) d] \<open>child_wf c\<close> by simp
    then show ?thesis
      using d by simp
  qed
  have "bt_get n1 name = Some c" if n2:  "bt_get n2 name = Some c" for name c
  proof -
    have "child_wf c"
      using wf_child "1.prems"(2) n2 by blast
    then obtain rest leaf where "(rest, leaf) \<in> set (child_leaves c)"
      using leaves_nonempty(2) by (cases "child_leaves c") auto
    then obtain d where "bt_get n1 name = Some d"
      using leaves n2 by blast
    then show ?thesis
      using same n2 by fastforce
  qed
  then have "bt_get n1 = bt_get n2"
    using same by (intro ext) (metis not_None_eq)
  then show ?case
    by (rule bt_eqI [OF wf])
next
  case (2 d)
  have "[] \<notin> fst ` set (child_leaves (TreeDirectory d))"
    by (simp add: leaf_path_nonempty)
  then obtain d2 where "c2 = TreeDirectory d2"
    using "2.prems"(3) by (cases c2) auto
  then show ?case
    using 2 by simp
next
  case (3 h kd)
  then have "[] \<in> fst ` set (child_leaves c2)"
    by force
  then show ?case
    using 3 leaf_path_nonempty by (cases c2) auto
qed

subsection \<open>Inserting a leaf\<close>

definition comparable :: "string list \<Rightarrow> string list \<Rightarrow> bool" where
  "comparable p q \<longleftrightarrow> prefix p q \<or> prefix q p"

lemma comparable_Cons [simp]: "comparable (a # p) (b # q) \<longleftrightarrow> a = b \<and> comparable p q" "comparable [] q" "comparable p []"
  by (auto simp: comparable_def)

lemma insert_wf:
  "node_wf node \<Longrightarrow> child_wf child \<Longrightarrow> node_wf (bt_insert name child node)"
  by (auto simp: node_wf.simps list_all_iff bt_wf_insert bt_get_mem [symmetric] bt_wf_insert bt_get_insert split: if_splits)

lemma insert_leaves:
  assumes "node_wf node" "child_wf child"
  shows "(path, leaf) \<in> set (node_leaves (bt_insert name child node)) \<longleftrightarrow>
    (case path of [] \<Rightarrow> False | n # rest \<Rightarrow> if n = name then (rest, leaf) \<in> set (child_leaves child) else (path, leaf) \<in> set (node_leaves node))"
  unfolding node_leaves_mem [OF wf_bt [OF insert_wf [OF assms]]] node_leaves_mem [OF wf_bt [OF assms(1)]]
  by (auto simp: bt_get_insert wf_bt [OF assms(1)] split: list.splits)

lemma bt_insert_nonempty [simp]: "bt_insert k v m \<noteq> []"
  by (induction k v m rule: bt_insert.induct) auto

lemma empty_node [simp]: "node_wf []" "node_leaves [] = []"
  by (simp_all add: node_wf.simps node_leaves.simps bt_wf_def)

lemma entered_directory:
  assumes "node_wf node" "(case bt_get node c of None \<Rightarrow> TreeDirectory [] | Some child \<Rightarrow> child) = TreeDirectory d"
  shows "node_wf d" "(c # p, leaf) \<in> set (node_leaves node) \<longleftrightarrow> (p, leaf) \<in> set (node_leaves d)"
  using assms(2) wf_child [OF assms(1), of c] by (auto simp: node_leaves_mem [OF wf_bt [OF assms(1)]] split: option.splits)

lemma insert_at_result:
  "insert_at full comps filename (TreeLeaf h kd) node = Inr node' \<Longrightarrow> node_wf node \<Longrightarrow>
    node_wf node' \<and> node' \<noteq> [] \<and> set (node_leaves node') = insert (comps @ [filename], (h, kd)) (set (node_leaves node))"
proof (induction comps arbitrary: node node')
  case Nil
  have none: "bt_get node filename = None" and node': "node' = bt_insert filename (TreeLeaf h kd) node"
    using Nil.prems(1) by (auto split: option.splits)
  have "(p, leaf) \<in> set (node_leaves node') \<longleftrightarrow> (p, leaf) = ([filename], (h, kd)) \<or> (p, leaf) \<in> set (node_leaves node)" for p leaf
    unfolding node' insert_leaves [OF Nil.prems(2), of "TreeLeaf h kd", simplified]
    using node_leaves_mem [OF wf_bt [OF Nil.prems(2)], of p leaf] none by (auto split: list.splits)
  then show ?case
    using insert_wf [OF Nil.prems(2)] by (auto simp: node')
next
  case (Cons c comps)
  obtain d d' where d: "(case bt_get node c of None \<Rightarrow> TreeDirectory [] | Some child \<Rightarrow> child) = TreeDirectory d"
      "insert_at full comps filename (TreeLeaf h kd) d = Inr d'" and node': "node' = bt_insert c (TreeDirectory d') node"
    using Cons.prems(1) by (auto simp: rbind_Inr_iff split: TreeChild.splits)
  note dir = entered_directory [OF Cons.prems(2) d(1)]
  have d': "node_wf d'" "d' \<noteq> []" "set (node_leaves d') = insert (comps @ [filename], (h, kd)) (set (node_leaves d))"
    using Cons.IH [OF d(2) dir(1)] by simp_all
  then have child: "child_wf (TreeDirectory d')" by simp
  have "(p, leaf) \<in> set (node_leaves node') \<longleftrightarrow> (p, leaf) = (c # comps @ [filename], (h, kd)) \<or> (p, leaf) \<in> set (node_leaves node)"
    for p leaf
  proof (cases p)
    case Nil
    then show ?thesis
      using leaf_path_nonempty [of node] leaf_path_nonempty [of node'] by force
  next
    case p: (Cons n q)
    show ?thesis
      unfolding node' insert_leaves [OF Cons.prems(2) child] using d'(3) dir(2) [of q leaf] by (auto simp: p)
  qed
  then show ?case
    using insert_wf [OF Cons.prems(2) child] by (auto simp: node')
qed

lemma ball_pairs: "(\<forall>(p, leaf) \<in> S. Q p leaf) \<longleftrightarrow> (\<forall>p leaf. (p, leaf) \<in> S \<longrightarrow> Q p leaf)"
  by auto

lemma insert_at_accepts:
  "node_wf node \<Longrightarrow> (\<exists>node'. insert_at full comps filename (TreeLeaf h kd) node = Inr node') \<longleftrightarrow>
    (\<forall>(p, leaf) \<in> set (node_leaves node). \<not> comparable p (comps @ [filename]))"
proof (induction comps arbitrary: node)
  case Nil
  have "bt_get node filename = None \<longleftrightarrow> (\<forall>(p, leaf) \<in> set (node_leaves node). \<not> comparable p [filename])"
  proof (cases "bt_get node filename")
    case (Some child)
    then obtain p leaf where "(p, leaf) \<in> set (child_leaves child)"
      using leaves_nonempty(2) [OF wf_child [OF Nil Some]] by (cases "child_leaves child") auto
    then have "(filename # p, leaf) \<in> set (node_leaves node)"
      using node_leaves_mem [OF wf_bt [OF Nil]] Some by blast
    then have "\<not> (\<forall>(p, leaf) \<in> set (node_leaves node). \<not> comparable p [filename])"
      by (auto intro!: bexI [of _ "(filename # p, leaf)"])
    then show ?thesis
      using Some by simp
  next
    case None
    then show ?thesis
      using node_leaves_mem [OF wf_bt [OF Nil]] by fastforce
  qed
  then show ?case
    by (auto split: option.splits)
next
  case (Cons c comps)
  show ?case
  proof (cases "case bt_get node c of None \<Rightarrow> TreeDirectory [] | Some child \<Rightarrow> child")
    case (TreeDirectory d)
    note dir = entered_directory [OF Cons.prems TreeDirectory]
    have "(\<exists>node'. insert_at full (c # comps) filename (TreeLeaf h kd) node = Inr node') \<longleftrightarrow>
        (\<forall>(p, leaf) \<in> set (node_leaves d). \<not> comparable p (comps @ [filename]))"
      using Cons.IH [OF dir(1)] by (simp add: TreeDirectory rbind_Inr_iff)
    moreover have "(\<forall>(p, leaf) \<in> set (node_leaves d). \<not> comparable p (comps @ [filename])) \<longleftrightarrow>
        (\<forall>(p, leaf) \<in> set (node_leaves node). \<not> comparable p (c # comps @ [filename]))"
    proof -
      have "comparable p (c # comps @ [filename]) \<longleftrightarrow> (\<exists>q. p = c # q \<and> comparable q (comps @ [filename]))"
        if "(p, leaf) \<in> set (node_leaves node)" for p leaf
        using that leaf_path_nonempty [of node] by (cases p) force+
      then show ?thesis
        unfolding ball_pairs using dir(2) by blast
    qed
    ultimately show ?thesis by simp
  next
    case (TreeLeaf h' kd')
    then have "bt_get node c = Some (TreeLeaf h' kd')"
      by (simp split: option.splits)
    then have "([c], (h', kd')) \<in> set (node_leaves node)"
      using node_leaves_mem [OF wf_bt [OF Cons.prems]] by force
    then show ?thesis
      using TreeLeaf by force
  qed
qed

end
