(* ===== verification/Package_Exact.thy ===== *)
theory Package_Exact
  imports Package_Merkle
begin

section \<open>Which manifests are built and read\<close>

text \<open>
  The builder accepts exactly the record sets that describe one package tree on a file system that
  ignores case; its manifest lists them in path order under the root of the one tree that has them
  as leaves, and that root determines them. The reader accepts exactly such manifests.
\<close>

subsection \<open>Sizes\<close>

lemma length_bt_insert: "length (bt_insert k v m) \<le> Suc (length m)"
  by (induction k v m rule: bt_insert.induct) auto

lemma set_bt_insert: "set (bt_insert k v m) \<subseteq> insert (k, v) (set m)"
  by (induction k v m rule: bt_insert.induct) auto

lemma sized_mono:
  "node_sized k node \<Longrightarrow> k \<le> l \<Longrightarrow> node_sized l node" "child_sized k child \<Longrightarrow> k \<le> l \<Longrightarrow> child_sized l child"
  by (induction k node and k child rule: node_sized_child_sized.induct) (auto simp: node_sized.simps list_all_iff)

lemma insert_sized:
  "insert_at full comps filename (TreeLeaf h kd) node = Inr node' \<Longrightarrow> node_sized k node \<Longrightarrow> length h = 32 \<Longrightarrow>
    \<forall>n \<in> set (comps @ [filename]). length n < 2 ^ 64 \<Longrightarrow> node_sized (Suc k) node'"
proof (induction comps arbitrary: node node')
  case Nil
  then have "node' = bt_insert filename (TreeLeaf h kd) node"
    by (auto split: option.splits)
  then show ?case
    using Nil.prems length_bt_insert [of filename "TreeLeaf h kd" node] set_bt_insert [of filename "TreeLeaf h kd" node]
      sized_mono(2) [of k _ "Suc k"]
    by (force simp: node_sized.simps list_all_iff)
next
  case (Cons c comps)
  obtain d d' where d: "(case bt_get node c of None \<Rightarrow> TreeDirectory [] | Some child \<Rightarrow> child) = TreeDirectory d"
      "insert_at full comps filename (TreeLeaf h kd) d = Inr d'" and node': "node' = bt_insert c (TreeDirectory d') node"
    using Cons.prems(1) by (auto simp: rbind_Inr_iff split: TreeChild.splits)
  have "node_sized k d"
    using d(1) Cons.prems(2) map_of_SomeD [of node c]
    by (fastforce simp: bt_get_def node_sized.simps list_all_iff split: option.splits)
  then have "node_sized (Suc k) d'"
    using Cons.IH d(2) Cons.prems(3,4) by simp
  then show ?case
    using Cons.prems length_bt_insert [of c "TreeDirectory d'" node] set_bt_insert [of c "TreeDirectory d'" node]
      sized_mono(2) [of k _ "Suc k"]
    by (force simp: node' node_sized.simps list_all_iff)
qed

subsection \<open>Case collisions\<close>

fun growing :: "string \<Rightarrow> string list \<Rightarrow> string list" where
  "growing before [] = []"
| "growing before (c # cs) = push_component before c # growing (push_component before c) cs"

definition ancestors :: "string \<Rightarrow> string list" where
  "ancestors path = growing [] (split_on (CHR ''/'') path)"

definition observes :: "(string \<Rightarrow> string) \<Rightarrow> string set \<Rightarrow> (string \<times> string) list \<Rightarrow> bool" where
  "observes lower S observed \<longleftrightarrow> bt_wf observed \<and> (\<forall>k p. bt_get observed k = Some p \<longleftrightarrow> p \<in> S \<and> lower p = k)"

lemma observes_inj: "observes lower S observed \<Longrightarrow> inj_on lower S"
  by (rule inj_onI) (metis observes_def option.inject)

lemma observes_insert:
  assumes "observes lower S observed" "bt_get observed (lower p) = None"
  shows "observes lower (insert p S) (bt_insert (lower p) p observed)"
proof -
  have "q \<notin> S" if "lower q = lower p" for q
    using assms that by (metis observes_def option.discI)
  then show ?thesis
    using assms by (auto simp: observes_def bt_wf_insert bt_get_insert)
qed

lemma case_collision_exact:
  "observes lower S observed \<Longrightarrow>
    (\<exists>observed'. case_collision_loop lower cs before observed = Inr observed') \<longleftrightarrow> inj_on lower (S \<union> set (growing before cs))"
  "observes lower S observed \<Longrightarrow> case_collision_loop lower cs before observed = Inr observed' \<Longrightarrow>
    observes lower (S \<union> set (growing before cs)) observed'"
proof (induction cs arbitrary: S before observed)
  case (Cons c cs)
  { case 1
    define now where "now = push_component before c"
    show ?case
    proof (cases "bt_get observed (lower now)")
      case None
      then show ?thesis
        using Cons.IH(1) [OF observes_insert [OF 1 None]] by (simp add: now_def [symmetric] Let_def del: inj_on_insert)
    next
      case (Some p)
      then have p: "p \<in> S" "lower p = lower now"
        using 1 by (auto simp: observes_def)
      show ?thesis
      proof (cases "p = now")
        case True
        then have "insert now (S \<union> X) = S \<union> X" for X
          using p by auto
        then show ?thesis
          using Cons.IH(1) [OF 1] Some True by (simp add: now_def [symmetric] Let_def del: inj_on_insert)
      next
        case False
        then show ?thesis
          using Some p by (auto simp: now_def [symmetric] Let_def inj_on_def)
      qed
    qed
  next
    case 2
    define now where "now = push_component before c"
    show ?case
    proof (cases "bt_get observed (lower now)")
      case None
      then show ?thesis
        using Cons.IH(2) [OF observes_insert [OF 2(1) None]] 2(2) by (simp add: now_def [symmetric] Let_def del: inj_on_insert)
    next
      case (Some p)
      then have "p \<in> S" "p = now"
        using 2 by (auto simp: observes_def now_def [symmetric] Let_def split: if_splits)
      then have "insert now (S \<union> X) = S \<union> X" for X
        by auto
      then show ?thesis
        using Cons.IH(2) [OF 2(1)] 2(2) Some \<open>p = now\<close> by (simp add: now_def [symmetric] Let_def del: inj_on_insert)
    qed
  }
qed (auto dest: observes_inj)

subsection \<open>The builder\<close>

abbreviation "components r \<equiv> split_on (CHR ''/'') (fp_normalized_path r)"

definition path_canonical :: "string \<Rightarrow> bool" where
  "path_canonical p \<longleftrightarrow> length (chars p) \<le> 32767 \<and> length (split_on (CHR ''/'') p) \<le> 256 \<and>
     (\<forall>c \<in> set (chars p). 0x20 \<le> c \<and> \<not> (0x7F \<le> c \<and> c \<le> 0x9F) \<and> c \<noteq> 0x5C \<and> c \<noteq> 0x3A) \<and>
     (\<forall>s \<in> set (split_on (CHR ''/'') p). s \<noteq> [] \<and> s \<noteq> ''.'' \<and> s \<noteq> ''..'')"

lemma validate_normalized_path_Inr: "validate_normalized_path p = Inr u \<longleftrightarrow> path_canonical p"
  unfolding validate_normalized_path_def Let_def if_Inl_Inr path_canonical_def scalar_is_control_def list_ex_iff
    MAX_NORMALIZED_PACKAGE_PATH_CHARS_def MAX_NORMALIZED_PACKAGE_PATH_COMPONENTS_def
  by (simp add: not_less ball_conj_distrib conj_ac)

definition record_consistent :: "PackageFileRecord \<Rightarrow> bool" where
  "record_consistent r \<longleftrightarrow> path_canonical (fp_normalized_path r) \<and>
     (fp_executable r \<longleftrightarrow> fp_kind r = PkNativeModule \<or> fp_kind r = PkExecutable)"

lemma record_checks:
  "validate_normalized_path (fp_normalized_path r) = Inr u \<and> validate_executable_kind r = Inr v \<longleftrightarrow> record_consistent r"
  by (auto simp: validate_normalized_path_Inr record_consistent_def validate_executable_kind_def Let_def)

definition leaf_of :: "(bytes \<Rightarrow> Sha256Digest) \<Rightarrow> PackageFileRecord \<Rightarrow> string list \<times> Sha256Digest \<times> PackageFileKind" where
  "leaf_of sha256 r = (components r, (hash_file_record sha256 r, fp_kind r))"

lemma components_snoc: "butlast (components r) @ [last (components r)] = components r"
  using split_on_ne by simp

lemma insert_leaf_result:
  assumes "insert_leaf tree (fp_normalized_path r) (hash_file_record sha256 r) (fp_kind r) = Inr tree'" "node_wf tree"
  shows "node_wf tree'" "set (node_leaves tree') = insert (leaf_of sha256 r) (set (node_leaves tree))"
  using insert_at_result [OF assms(1) [unfolded insert_leaf_def Let_def] assms(2)] by (simp_all add: components_snoc leaf_of_def)

lemma insert_leaf_accepts:
  "node_wf tree \<Longrightarrow> (\<exists>tree'. insert_leaf tree (fp_normalized_path r) (hash_file_record sha256 r) (fp_kind r) = Inr tree') \<longleftrightarrow>
    (\<forall>(p, leaf) \<in> set (node_leaves tree). \<not> comparable p (components r))"
  unfolding insert_leaf_def Let_def insert_at_accepts components_snoc by simp

lemma build_loop_result:
  "build_loop sha256 lower records tree observed = Inr tree' \<Longrightarrow> node_wf tree \<Longrightarrow>
    node_wf tree' \<and> set (node_leaves tree') = set (node_leaves tree) \<union> leaf_of sha256 ` set records"
proof (induction records arbitrary: tree observed)
  case (Cons r records)
  then obtain observed' t where t: "insert_leaf tree (fp_normalized_path r) (hash_file_record sha256 r) (fp_kind r) = Inr t"
      "build_loop sha256 lower records t observed' = Inr tree'"
    by (auto simp: rbind_Inr_iff)
  show ?case
    using Cons.IH [OF t(2) insert_leaf_result(1) [OF t(1) Cons.prems(2)]] insert_leaf_result(2) [OF t(1) Cons.prems(2)] by simp
qed simp

definition separate :: "PackageFileRecord \<Rightarrow> PackageFileRecord \<Rightarrow> bool" where
  "separate r q \<longleftrightarrow> \<not> comparable (components r) (components q)"

lemma build_loop_accepts:
  "node_wf tree \<Longrightarrow> observes lower S observed \<Longrightarrow>
    (\<exists>tree'. build_loop sha256 lower records tree observed = Inr tree') \<longleftrightarrow>
    (\<forall>r \<in> set records. record_consistent r) \<and> inj_on lower (S \<union> (\<Union>r \<in> set records. set (ancestors (fp_normalized_path r)))) \<and>
    sorted_wrt separate records \<and> (\<forall>r \<in> set records. \<forall>(p, leaf) \<in> set (node_leaves tree). \<not> comparable p (components r))"
proof (induction records arbitrary: tree S observed)
  case Nil
  then show ?case
    by (simp add: observes_inj)
next
  case (Cons r records)
  define S' where "S' = S \<union> set (ancestors (fp_normalized_path r))"
  note case_exact = case_collision_exact [OF Cons.prems(2), of "components r" "[]", folded ancestors_def reject_case_collision_def S'_def]
  show ?case
  proof (cases "record_consistent r \<and> inj_on lower S' \<and> (\<forall>(p, leaf) \<in> set (node_leaves tree). \<not> comparable p (components r))")
    case True
    then obtain observed' t where o: "reject_case_collision lower observed (fp_normalized_path r) = Inr observed'"
        and t: "insert_leaf tree (fp_normalized_path r) (hash_file_record sha256 r) (fp_kind r) = Inr t"
      using case_exact(1) insert_leaf_accepts [OF Cons.prems(1)] by blast
    have "build_loop sha256 lower (r # records) tree observed = build_loop sha256 lower records t observed'"
      using True record_checks [of r "()" "()"] o t by simp
    moreover have "(\<forall>q \<in> set records. \<forall>(p, leaf) \<in> set (node_leaves t). \<not> comparable p (components q)) \<longleftrightarrow>
        (\<forall>q \<in> set records. separate r q \<and> (\<forall>(p, leaf) \<in> set (node_leaves tree). \<not> comparable p (components q)))"
      by (simp add: insert_leaf_result(2) [OF t Cons.prems(1)] leaf_of_def separate_def)
    ultimately show ?thesis
      using Cons.IH [OF insert_leaf_result(1) [OF t Cons.prems(1)] case_exact(2) [OF o]] True
      by (auto simp: S'_def Un_assoc)
  next
    case False
    have "inj_on lower S'" if "inj_on lower (S \<union> (\<Union>q \<in> set (r # records). set (ancestors (fp_normalized_path q))))"
      using that by (rule inj_on_subset) (auto simp: S'_def)
    moreover have "record_consistent r \<and> inj_on lower S' \<and> (\<forall>(p, leaf) \<in> set (node_leaves tree). \<not> comparable p (components r))"
      if "build_loop sha256 lower (r # records) tree observed = Inr tree'" for tree'
      using that record_checks [of r] case_exact(1) insert_leaf_accepts [OF Cons.prems(1), of r sha256]
      by (auto simp: rbind_Inr_iff)
    ultimately show ?thesis
      using False by auto
  qed
qed

end
