(* ===== verification/Package_Guarantees.thy ===== *)
theory Package_Guarantees
  imports Package_Exact "HOL-Library.Multiset"
begin

section \<open>Guarantees of package manifests\<close>

text \<open>
  Which records form a package, and the theorems on the builder and the reader.
\<close>

definition package_records :: "(string \<Rightarrow> string) \<Rightarrow> PackageFileRecord list \<Rightarrow> bool" where
  "package_records lower records \<longleftrightarrow>
     length records \<le> 65536 \<and> sum_list (map (length \<circ> fp_normalized_path) records) \<le> 16777216 \<and>
     (\<forall>r \<in> set records. record_consistent r) \<and> distinct (map fp_normalized_path records) \<and>
     (\<forall>r \<in> set records. \<forall>q \<in> set records. r \<noteq> q \<longrightarrow> \<not> prefix (components r) (components q)) \<and>
     inj_on lower (\<Union>r \<in> set records. set (ancestors (fp_normalized_path r)))"

lemma total_path_bytes_Some:
  "k < 2 ^ 64 \<Longrightarrow> total_path_bytes k records = Some n \<longleftrightarrow>
    k + sum_list (map (length \<circ> fp_normalized_path) records) < 2 ^ 64 \<and>
    n = k + sum_list (map (length \<circ> fp_normalized_path) records)"
  by (induction records arbitrary: k) (auto simp: checked_add_usize_def)

lemma validate_resource_bounds_Inr:
  "validate_resource_bounds records = Inr u \<longleftrightarrow>
    length records \<le> 65536 \<and> sum_list (map (length \<circ> fp_normalized_path) records) \<le> 16777216"
proof (cases "total_path_bytes 0 records")
  case None
  then have "\<not> sum_list (map (length \<circ> fp_normalized_path) records) \<le> 16777216"
    using total_path_bytes_Some [of 0 records "sum_list (map (length \<circ> fp_normalized_path) records)"] by auto
  then show ?thesis
    using None by (simp add: validate_resource_bounds_def)
next
  case (Some n)
  then show ?thesis
    using total_path_bytes_Some [of 0 records n]
    by (auto simp: validate_resource_bounds_def MAX_PACKAGE_FILE_RECORDS_def MAX_PACKAGE_RECORD_PATH_BYTES_def not_less)
qed

lemma separate_iff:
  "separate r q \<longleftrightarrow> fp_normalized_path r \<noteq> fp_normalized_path q \<and> \<not> prefix (components r) (components q) \<and>
    \<not> prefix (components q) (components r)"
  by (auto simp: separate_def comparable_def)

lemma sorted_separate:
  "sorted_wrt separate records \<longleftrightarrow> distinct (map fp_normalized_path records) \<and>
    (\<forall>r \<in> set records. \<forall>q \<in> set records. r \<noteq> q \<longrightarrow> \<not> prefix (components r) (components q))"
proof (induction records)
  case (Cons r records)
  show ?case
    using Cons by (auto simp: separate_iff)
qed simp

lemma distinct_sorted: "distinct (map fp_normalized_path (sort_key fp_normalized_path records)) \<longleftrightarrow> distinct (map fp_normalized_path records)"
  by (rule mset_eq_imp_distinct_iff) simp

lemma build_accepts:
  "(\<exists>m. build_package_manifest sha256 lower records = Inr m) \<longleftrightarrow> package_records lower records"
proof -
  have "observes lower {} []"
    by (simp add: observes_def bt_wf_def bt_get_def)
  from build_loop_accepts [OF empty_node(1) this, of sha256 "sort_key fp_normalized_path records"] show ?thesis
    unfolding build_package_manifest_def Let_def package_records_def sorted_separate distinct_sorted
    using validate_resource_bounds_Inr [of records] by (auto simp: rbind_Inr_iff)
qed

lemma build_tree:
  assumes "build_package_manifest sha256 lower records = Inr m"
  shows "\<exists>tree. build_loop sha256 lower (sort_key fp_normalized_path records) [] [] = Inr tree \<and> node_wf tree \<and>
    set (node_leaves tree) = leaf_of sha256 ` set records \<and>
    m = \<lparr>pm_format_version = 1, pm_package_tree_merkle = directory_hash sha256 [] tree,
         pm_files = sort_key fp_normalized_path records\<rparr>"
proof -
  obtain tree where tree: "build_loop sha256 lower (sort_key fp_normalized_path records) [] [] = Inr tree"
      "m = \<lparr>pm_format_version = 1, pm_package_tree_merkle = directory_hash sha256 [] tree, pm_files = sort_key fp_normalized_path records\<rparr>"
    using assms by (auto simp: build_package_manifest_def rbind_Inr_iff PACKAGE_TREE_FORMAT_VERSION_def Let_def)
  then show ?thesis
    using build_loop_result [OF tree(1) empty_node(1)] by (intro exI [of _ tree]) simp
qed

text \<open>
  C5: A manifest is built exactly for record sets that form a package: within the record and path
  limits, with canonical paths and executability that matches the kind, no path repeated or inside
  another, and no two files or directories that differ only in case. The manifest lists the records
  in path order, under the hash of the tree that has exactly them as leaves; there is one such tree.
\<close>

theorem manifest_exact:
  "build_package_manifest sha256 lower records = Inr m \<longleftrightarrow>
    package_records lower records \<and>
    (\<exists>!tree. node_wf tree \<and> set (node_leaves tree) = leaf_of sha256 ` set records) \<and>
    (\<exists>tree. node_wf tree \<and> set (node_leaves tree) = leaf_of sha256 ` set records \<and>
      m = \<lparr>pm_format_version = 1, pm_package_tree_merkle = directory_hash sha256 [] tree,
           pm_files = sort_key fp_normalized_path records\<rparr>)"
proof -
  have unique: "tree = tree'" if "node_wf tree" "node_wf tree'" "set (node_leaves tree) = leaf_of sha256 ` set records"
      "set (node_leaves tree') = leaf_of sha256 ` set records" for tree tree'
    using tree_of_leaves(1) that by simp
  show ?thesis
  proof (rule iffI)
    assume built: "build_package_manifest sha256 lower records = Inr m"
    then obtain tree where tree: "node_wf tree" "set (node_leaves tree) = leaf_of sha256 ` set records"
        "m = \<lparr>pm_format_version = 1, pm_package_tree_merkle = directory_hash sha256 [] tree, pm_files = sort_key fp_normalized_path records\<rparr>"
      using build_tree by blast
    have "\<exists>!tree. node_wf tree \<and> set (node_leaves tree) = leaf_of sha256 ` set records"
      using tree unique by (intro ex1I [of _ tree]) simp_all
    moreover have "package_records lower records"
      using built build_accepts by blast
    ultimately show "package_records lower records \<and> (\<exists>!tree. node_wf tree \<and> set (node_leaves tree) = leaf_of sha256 ` set records) \<and>
        (\<exists>tree. node_wf tree \<and> set (node_leaves tree) = leaf_of sha256 ` set records \<and>
          m = \<lparr>pm_format_version = 1, pm_package_tree_merkle = directory_hash sha256 [] tree, pm_files = sort_key fp_normalized_path records\<rparr>)"
      using tree by blast
  next
    assume r: "package_records lower records \<and> (\<exists>!tree. node_wf tree \<and> set (node_leaves tree) = leaf_of sha256 ` set records) \<and>
        (\<exists>tree. node_wf tree \<and> set (node_leaves tree) = leaf_of sha256 ` set records \<and>
          m = \<lparr>pm_format_version = 1, pm_package_tree_merkle = directory_hash sha256 [] tree, pm_files = sort_key fp_normalized_path records\<rparr>)"
    obtain m' where m': "build_package_manifest sha256 lower records = Inr m'"
      using conjunct1 [OF r] build_accepts [of sha256 lower records] by auto
    obtain tree where tree: "node_wf tree" "set (node_leaves tree) = leaf_of sha256 ` set records"
        "m = \<lparr>pm_format_version = 1, pm_package_tree_merkle = directory_hash sha256 [] tree, pm_files = sort_key fp_normalized_path records\<rparr>"
      using conjunct2 [OF conjunct2 [OF r]] by blast
    obtain tree' where tree': "node_wf tree'" "set (node_leaves tree') = leaf_of sha256 ` set records"
        "m' = \<lparr>pm_format_version = 1, pm_package_tree_merkle = directory_hash sha256 [] tree', pm_files = sort_key fp_normalized_path records\<rparr>"
      using build_tree [OF m'] by blast
    have "m = m'"
      using unique [OF tree(1) tree'(1) tree(2) tree'(2)] tree(3) tree'(3) by simp
    then show "build_package_manifest sha256 lower records = Inr m"
      using m' by simp
  qed
qed

text \<open>
  The bytes that are hashed while a manifest is built.
\<close>

definition hashed_bytes :: "(bytes \<Rightarrow> Sha256Digest) \<Rightarrow> (string \<Rightarrow> string) \<Rightarrow> PackageFileRecord list \<Rightarrow> bytes list" where
  "hashed_bytes sha256 lower records =
     map file_record_preimage records @
     (case build_loop sha256 lower (sort_key fp_normalized_path records) [] [] of
        Inr tree \<Rightarrow> node_preimages sha256 [] tree | Inl _ \<Rightarrow> [])"

lemma build_loop_sized:
  "build_loop sha256 lower records tree observed = Inr tree' \<Longrightarrow> node_sized k tree \<Longrightarrow> (\<And>bs. length (sha256 bs) = 32) \<Longrightarrow>
    \<forall>r \<in> set records. \<forall>n \<in> set (components r). length n < 2 ^ 64 \<Longrightarrow> node_sized (k + length records) tree'"
proof (induction records arbitrary: tree observed k)
  case (Cons r records)
  then obtain observed' t where t: "insert_leaf tree (fp_normalized_path r) (hash_file_record sha256 r) (fp_kind r) = Inr t"
      "build_loop sha256 lower records t observed' = Inr tree'"
    by (auto simp: rbind_Inr_iff)
  have "node_sized (Suc k) t"
    using insert_sized [OF t(1) [unfolded insert_leaf_def Let_def] Cons.prems(2)] Cons.prems(3,4)
    by (simp add: components_snoc hash_file_record_def del: set_append)
  then show ?case
    using Cons.IH [OF t(2), of "Suc k"] Cons.prems(3,4) by simp
qed simp

lemma image_same: "f ` A = f ` B \<Longrightarrow> (\<And>a b. a \<in> A \<Longrightarrow> b \<in> B \<Longrightarrow> f a = f b \<Longrightarrow> a = b) \<Longrightarrow> A = B"
proof -
  assume eq: "f ` A = f ` B" and same: "\<And>a b. a \<in> A \<Longrightarrow> b \<in> B \<Longrightarrow> f a = f b \<Longrightarrow> a = b"
  have "x \<in> B" if x: "x \<in> A" for x
  proof -
    obtain b where "b \<in> B" "f x = f b"
      using x eq by blast
    then show ?thesis
      using same [OF x] by simp
  qed
  moreover have "x \<in> A" if x: "x \<in> B" for x
  proof -
    obtain a where "a \<in> A" "f a = f x"
      using x eq by (metis imageE image_eqI)
    then show ?thesis
      using same [OF _ x] by blast
  qed
  ultimately show "A = B"
    by blast
qed

lemma sort_key_id: "sorted (map f xs) \<Longrightarrow> sort_key f xs = xs"
  by (rule properties_for_sort_key) simp_all

lemma segment_length: "seg \<in> set (split_on d s) \<Longrightarrow> length seg \<le> length s"
proof (induction s arbitrary: seg)
  case (Cons c s)
  obtain x xs where "split_on d s = x # xs"
    using split_on_ne [of d s] by (cases "split_on d s") auto
  then show ?case
    using Cons by (fastforce split: if_splits)
qed simp

lemma package_path_bound:
  assumes "package_records lower records" "r \<in> set records"
  shows "length (fp_normalized_path r) < 2 ^ 64" "n \<in> set (components r) \<Longrightarrow> length n < 2 ^ 64"
proof -
  have "length (fp_normalized_path r) \<le> sum_list (map (length \<circ> fp_normalized_path) records)"
    using assms(2) by (intro member_le_sum_list) (auto intro: rev_image_eqI)
  then show r: "length (fp_normalized_path r) < 2 ^ 64"
    using assms(1) by (simp add: package_records_def)
  show "length n < 2 ^ 64" if "n \<in> set (components r)"
    using segment_length [OF that] r by linarith
qed

lemma built_parts:
  assumes "build_package_manifest sha256 lower records = Inr m" "\<And>bs. length (sha256 bs) = 32"
  shows "\<exists>tree. set (hashed_bytes sha256 lower records) = file_record_preimage ` set records \<union> set (node_preimages sha256 [] tree) \<and>
    pm_package_tree_merkle m = sha256 (directory_preimage sha256 [] tree) \<and> node_sized 65536 tree \<and>
    set (node_leaves tree) = leaf_of sha256 ` set records"
proof -
  obtain tree where tree: "build_loop sha256 lower (sort_key fp_normalized_path records) [] [] = Inr tree"
      "set (node_leaves tree) = leaf_of sha256 ` set records"
      "m = \<lparr>pm_format_version = 1, pm_package_tree_merkle = directory_hash sha256 [] tree, pm_files = sort_key fp_normalized_path records\<rparr>"
    using build_tree [OF assms(1)] by blast
  have pkg: "package_records lower records"
    using build_accepts assms(1) by blast
  have "node_sized (0 + length (sort_key fp_normalized_path records)) tree"
    using package_path_bound(2) [OF pkg] by (intro build_loop_sized [OF tree(1) _ assms(2)]) (simp_all add: node_sized.simps)
  then have "node_sized 65536 tree"
    using pkg sized_mono(1) by (fastforce simp: package_records_def)
  then show ?thesis
    using tree by (intro exI [of _ tree]) (simp add: hashed_bytes_def directory_hash_def)
qed

text \<open>
  C4: The Merkle root identifies the package. Two packages have the same root exactly when they have
  the same records, in whatever order they were given, unless the digest collides on two of the
  byte strings that were hashed.
\<close>

theorem manifest_root_binds:
  assumes "build_package_manifest sha256 lower records1 = Inr m1" "build_package_manifest sha256 lower records2 = Inr m2"
    and "list_all record_typed (records1 @ records2)" "\<And>bs. length (sha256 bs) = 32"
    and "inj_on sha256 (set (hashed_bytes sha256 lower records1) \<union> set (hashed_bytes sha256 lower records2))"
  shows "pm_package_tree_merkle m1 = pm_package_tree_merkle m2 \<longleftrightarrow> mset records1 = mset records2"
proof -
  have pkg: "package_records lower records1" "package_records lower records2"
    using assms(1,2) build_accepts by blast+
  obtain t1 where t1: "set (hashed_bytes sha256 lower records1) = file_record_preimage ` set records1 \<union> set (node_preimages sha256 [] t1)"
      "pm_package_tree_merkle m1 = sha256 (directory_preimage sha256 [] t1)" "node_sized 65536 t1"
      "set (node_leaves t1) = leaf_of sha256 ` set records1"
    using built_parts [OF assms(1,4)] by blast
  obtain t2 where t2: "set (hashed_bytes sha256 lower records2) = file_record_preimage ` set records2 \<union> set (node_preimages sha256 [] t2)"
      "pm_package_tree_merkle m2 = sha256 (directory_preimage sha256 [] t2)" "node_sized 65536 t2"
      "set (node_leaves t2) = leaf_of sha256 ` set records2"
    using built_parts [OF assms(2,4)] by blast
  have distinct: "distinct records1" "distinct records2"
    using pkg by (simp_all add: package_records_def distinct_map)
  show ?thesis
  proof (rule iffI)
    assume "pm_package_tree_merkle m1 = pm_package_tree_merkle m2"
    then have "directory_preimage sha256 [] t1 = directory_preimage sha256 [] t2"
      using inj_onD [OF assms(5), of "directory_preimage sha256 [] t1" "directory_preimage sha256 [] t2"] t1(1,2) t2(1,2)
      by (simp add: node_preimages.simps)
    moreover have "inj_on sha256 (set (node_preimages sha256 [] t1) \<union> set (node_preimages sha256 [] t2))"
      by (rule inj_on_subset [OF assms(5)]) (auto simp: t1(1) t2(1))
    ultimately have "t1 = t2"
      using tree_inj(1) [of 65536 sha256 "[]" t1 t2] t1(3) t2(3) assms(4) by simp
    then have leaves: "leaf_of sha256 ` set records1 = leaf_of sha256 ` set records2"
      using t1(4) t2(4) by simp
    have same: "r = q" if "r \<in> set records1" "q \<in> set records2" "leaf_of sha256 r = leaf_of sha256 q" for r q
    proof (rule file_record_preimage_inj)
      show "file_record_preimage r = file_record_preimage q"
        using inj_onD [OF assms(5), of "file_record_preimage r" "file_record_preimage q"] that t1(1) t2(1)
        by (simp add: leaf_of_def hash_file_record_def)
    qed (use that assms(3) package_path_bound(1) [OF pkg(1)] package_path_bound(1) [OF pkg(2)] in \<open>simp_all add: list_all_iff\<close>)
    then have "set records1 = set records2"
      by (intro image_same [OF leaves]) blast
    then show "mset records1 = mset records2"
      using distinct set_eq_iff_mset_eq_distinct by blast
  next
    assume "mset records1 = mset records2"
    then have "sort_key fp_normalized_path records1 = sort_key fp_normalized_path records2"
      using pkg(1) by (intro sort_key_inj_key_eq) (simp_all add: package_records_def distinct_map)
    then show "pm_package_tree_merkle m1 = pm_package_tree_merkle m2"
      using build_tree [OF assms(1)] build_tree [OF assms(2)] by auto
  qed
qed

definition example_sha :: "bytes \<Rightarrow> Sha256Digest" where
  "example_sha bs = replicate 31 0 @ [of_nat (length bs)]"

definition example_file :: PackageFileRecord where
  "example_file = \<lparr>fp_normalized_path = ''a'', fp_size = 3, fp_sha256 = replicate 32 7, fp_executable = False,
     fp_kind = PkRegular, fp_signer_thumbprint = None\<rparr>"

lemma example_tree:
  "build_loop example_sha id [example_file] [] [] =
     Inr [(''a'', TreeLeaf (example_sha (file_record_preimage example_file)) PkRegular)]"
proof -
  have "validate_normalized_path ''a'' = Inr ()"
    by (simp add: validate_normalized_path_Inr path_canonical_def chars_def str_bytes_def)
  then show ?thesis
    by (simp add: example_file_def validate_executable_kind_def reject_case_collision_def push_component_def insert_leaf_def
        hash_file_record_def bt_get_def Let_def)
qed

lemma example_hashed:
  "hashed_bytes example_sha id [example_file] = [file_record_preimage example_file,
     directory_preimage example_sha [] [(''a'', TreeLeaf (example_sha (file_record_preimage example_file)) PkRegular)]]"
  "hashed_bytes example_sha id [] = [directory_preimage example_sha [] []]"
proof -
  have "sort_key fp_normalized_path [example_file] = [example_file]"
    by simp
  then show "hashed_bytes example_sha id [example_file] = [file_record_preimage example_file,
     directory_preimage example_sha [] [(''a'', TreeLeaf (example_sha (file_record_preimage example_file)) PkRegular)]]"
    unfolding hashed_bytes_def by (simp only: example_tree) (simp add: node_preimages.simps)
qed (simp add: hashed_bytes_def node_preimages.simps)

lemma example_lengths:
  "length (file_record_preimage example_file) = 79" "length (directory_preimage example_sha [] []) = 48"
  "length (directory_preimage example_sha [] [(''a'', TreeLeaf (example_sha (file_record_preimage example_file)) PkRegular)]) = 91"
  by (simp_all add: file_record_preimage_def example_file_def length_prefixed_def FILE_HASH_DOMAIN_def
      directory_preimage.simps DIRECTORY_HASH_DOMAIN_def example_sha_def)

theorem manifest_root_binds_witness:
  "\<exists>m1 m2. build_package_manifest example_sha id [example_file] = Inr m1 \<and> build_package_manifest example_sha id [] = Inr m2 \<and>
     (pm_package_tree_merkle m1 = pm_package_tree_merkle m2 \<longleftrightarrow> mset [example_file] = mset [])"
proof -
  obtain m1 m2 where m: "build_package_manifest example_sha id [example_file] = Inr m1" "build_package_manifest example_sha id [] = Inr m2"
    using example_tree by (simp add: build_package_manifest_def validate_resource_bounds_def MAX_PACKAGE_FILE_RECORDS_def
        MAX_PACKAGE_RECORD_PATH_BYTES_def example_file_def checked_add_usize_def)
  have "inj_on example_sha (set (hashed_bytes example_sha id [example_file]) \<union> set (hashed_bytes example_sha id []))"
  proof (rule inj_onI)
    fix x y
    assume "x \<in> set (hashed_bytes example_sha id [example_file]) \<union> set (hashed_bytes example_sha id [])"
      "y \<in> set (hashed_bytes example_sha id [example_file]) \<union> set (hashed_bytes example_sha id [])" "example_sha x = example_sha y"
    then show "x = y"
      using example_lengths unfolding example_hashed by (auto simp: example_sha_def [of x] example_sha_def [of y])
  qed
  then show ?thesis
    using m manifest_root_binds [OF m] by (simp add: record_typed_def example_file_def example_sha_def [abs_def])
qed

subsection \<open>Reading manifests\<close>

lemma visit_records_Inr:
  "length records \<le> 65536 \<Longrightarrow> n \<le> 16777216 \<Longrightarrow>
    visit_records custom elements ignored fin records n = Inr out \<longleftrightarrow>
    (\<exists>rs. elements = map Inr rs \<and> fin = Inr () \<and> out = records @ rs \<and> length out \<le> 65536 \<and>
      n + sum_list (map (length \<circ> fp_normalized_path) rs) \<le> 16777216)"
proof (induction elements arbitrary: records n)
  case Nil
  then show ?case
    by (auto simp: rbind_Inr_iff)
next
  case (Cons element elements)
  show ?case
  proof (cases "\<exists>r. element = Inr r \<and> length records < 65536 \<and> n + length (fp_normalized_path r) \<le> 16777216")
    case True
    then obtain r where r: "element = Inr r" "length records < 65536" "n + length (fp_normalized_path r) \<le> 16777216"
      by blast
    have "visit_records custom (element # elements) ignored fin records n =
        visit_records custom elements ignored fin (records @ [r]) (n + length (fp_normalized_path r))"
      using r by (simp add: MAX_PACKAGE_FILE_RECORDS_def MAX_PACKAGE_RECORD_PATH_BYTES_def checked_add_usize_def)
    then show ?thesis
      using Cons.IH [of "records @ [r]" "n + length (fp_normalized_path r)"] r by (auto simp: Cons_eq_map_conv)
  next
    case False
    then show ?thesis
      using Cons.prems
      by (auto simp: MAX_PACKAGE_FILE_RECORDS_def MAX_PACKAGE_RECORD_PATH_BYTES_def rbind_Inr_iff Cons_eq_map_conv split: if_splits)
  qed
qed

lemma canonical_order_iff: "canonical_order records \<longleftrightarrow> sorted_wrt (<) (map fp_normalized_path records)"
  by (induction records rule: canonical_order.induct) (auto intro: less_trans)

lemma package_records_mset:
  assumes "mset records = mset records'"
  shows "package_records lower records \<longleftrightarrow> package_records lower records'"
proof -
  have keys: "mset (map f records) = mset (map f records')" for f :: "PackageFileRecord \<Rightarrow> 'b"
    using assms by simp
  have "set records = set records'" "length records = length records'"
    "distinct (map fp_normalized_path records) = distinct (map fp_normalized_path records')"
    "sum_list (map (length \<circ> fp_normalized_path) records) = sum_list (map (length \<circ> fp_normalized_path) records')"
    using mset_eq_setD [OF assms] mset_eq_length [OF assms] mset_eq_imp_distinct_iff [OF keys]
      arg_cong [OF keys [of "length \<circ> fp_normalized_path"], of sum_mset] by (simp_all only: sum_mset_sum_list)
  then show ?thesis
    by (simp add: package_records_def)
qed

lemma manifest_files:
  assumes "build_package_manifest sha256 lower records = Inr m"
  shows "build_package_manifest sha256 lower (pm_files m) = Inr m" "canonical_order (pm_files m)"
proof -
  have pkg: "package_records lower records"
    using assms build_accepts by blast
  have m: "pm_files m = sort_key fp_normalized_path records"
    using build_tree [OF assms] by auto
  have resort: "sort_key fp_normalized_path (pm_files m) = pm_files m"
    unfolding m by (rule sort_key_id) simp
  have "package_records lower (pm_files m)"
    using pkg package_records_mset [of "pm_files m" records lower] by (simp add: m)
  then show "build_package_manifest sha256 lower (pm_files m) = Inr m"
    using assms resort m validate_resource_bounds_Inr
    by (auto simp: build_package_manifest_def package_records_def rbind_Inr_iff)
  show "canonical_order (pm_files m)"
    using pkg distinct_sorted [of records] by (simp add: canonical_order_iff m strict_sorted_iff package_records_def)
qed

text \<open>
  C26: A manifest is read exactly when it could have been written: the reader accepts a document,
  and returns the manifest with its fields, exactly when the fields are those of a manifest that
  the builder returns for some records, the sequence is complete and its size hint is within the
  limit. So every built manifest is read back, and nothing else is.
\<close>

theorem manifest_read_exact:
  "manifest_deserialize sha256 lower custom raw = Inr m \<longleftrightarrow>
    (\<exists>records. build_package_manifest sha256 lower records = Inr m) \<and>
    rm_format_version raw = Inr (pm_format_version m) \<and> rm_package_tree_merkle raw = Inr (pm_package_tree_merkle m) \<and>
    rr_records (rm_files raw) = map Inr (pm_files m) \<and> rr_finish (rm_files raw) = Inr () \<and>
    (case rr_size_hint (rm_files raw) of Some n \<Rightarrow> n \<le> 65536 | None \<Rightarrow> True)"
proof -
  have read: "deserialize_package_file_records custom (rm_files raw) = Inr records \<longleftrightarrow>
      rr_records (rm_files raw) = map Inr records \<and> rr_finish (rm_files raw) = Inr () \<and>
      (case rr_size_hint (rm_files raw) of Some n \<Rightarrow> n \<le> 65536 | None \<Rightarrow> True) \<and>
      length records \<le> 65536 \<and> sum_list (map (length \<circ> fp_normalized_path) records) \<le> 16777216" for records
    using visit_records_Inr [of "[]" 0 custom "rr_records (rm_files raw)"]
    by (auto simp: deserialize_package_file_records_def MAX_PACKAGE_FILE_RECORDS_def Let_def split: option.splits)
  have files: "pm_files m = records" if "build_package_manifest sha256 lower records = Inr m" "canonical_order records" for records
    using build_tree [OF that(1)] that(2) sort_key_id [of fp_normalized_path records]
    by (auto simp: canonical_order_iff strict_sorted_iff)
  have version: "pm_format_version m = 1" if "build_package_manifest sha256 lower records = Inr m" for records
    using build_tree [OF that] by auto
  have bounds: "length records \<le> 65536 \<and> sum_list (map (length \<circ> fp_normalized_path) records) \<le> 16777216"
    if "build_package_manifest sha256 lower records = Inr m" for records
    using that build_accepts by (auto simp: package_records_def)
  show ?thesis
  proof (rule iffI)
    assume "manifest_deserialize sha256 lower custom raw = Inr m"
    then obtain records where r: "rm_format_version raw = Inr 1" "rm_package_tree_merkle raw = Inr (pm_package_tree_merkle m)"
        "deserialize_package_file_records custom (rm_files raw) = Inr records" "canonical_order records"
        "build_package_manifest sha256 lower records = Inr m"
      by (auto simp: manifest_deserialize_def rbind_Inr_iff PACKAGE_TREE_FORMAT_VERSION_def split: if_splits)
    then show "(\<exists>records. build_package_manifest sha256 lower records = Inr m) \<and>
      rm_format_version raw = Inr (pm_format_version m) \<and> rm_package_tree_merkle raw = Inr (pm_package_tree_merkle m) \<and>
      rr_records (rm_files raw) = map Inr (pm_files m) \<and> rr_finish (rm_files raw) = Inr () \<and>
      (case rr_size_hint (rm_files raw) of Some n \<Rightarrow> n \<le> 65536 | None \<Rightarrow> True)"
      using read files [OF r(5,4)] version [OF r(5)] by auto
  next
    assume r: "(\<exists>records. build_package_manifest sha256 lower records = Inr m) \<and>
      rm_format_version raw = Inr (pm_format_version m) \<and> rm_package_tree_merkle raw = Inr (pm_package_tree_merkle m) \<and>
      rr_records (rm_files raw) = map Inr (pm_files m) \<and> rr_finish (rm_files raw) = Inr () \<and>
      (case rr_size_hint (rm_files raw) of Some n \<Rightarrow> n \<le> 65536 | None \<Rightarrow> True)"
    then have built: "build_package_manifest sha256 lower (pm_files m) = Inr m" "canonical_order (pm_files m)"
      using manifest_files by blast+
    have "deserialize_package_file_records custom (rm_files raw) = Inr (pm_files m)"
      unfolding read using r bounds [OF built(1)] by blast
    then show "manifest_deserialize sha256 lower custom raw = Inr m"
      using built r version [OF built(1)] by (simp add: manifest_deserialize_def PACKAGE_TREE_FORMAT_VERSION_def)
  qed
qed

end
