(* ===== verification/Spec2Isabelle.thy ===== *)
theory Spec2Isabelle
  imports Framing Handshake Session_State Renderer_Lifecycle Renderer_Bridge Asar_Rewrite App_Server_Progress
    Authorization_Lifetime Authorization_Binding Transform_Planned Certification_Guarantees
    Certification_Attested Package_Guarantees
begin

text \<open>
  \<^bold>\<open>Verification of weregopher.\<close>
  Weregopher runs packaged desktop applications outside their vendor shells: a host process
  finds and fingerprints an installed application, rewrites parts of its archive under reviewed
  rules, authorizes the resulting program, launches it in a bounded Windows job, talks to it over
  an authenticated framed protocol, serves its package to a renderer through a private origin, and
  records what it certified in a local ledger. This development models the decision-making code
  of that pipeline (the Rust crates under \<open>src/crates\<close>) and proves what it promises.

  \<^bold>\<open>Conventions\<close> (\<open>Runtime_Prelude\<close>, \<open>Text_Paths\<close>, \<open>Unicode_Text\<close>, \<open>Utf8_Text\<close>). A \<open>Result\<close> is a
  sum with the error on the left and \<open>?\<close> is \<open>rbind\<close>; fixed-width integers are words and checked
  arithmetic is written out; \<open>usize\<close> is a natural number with the 64-bit ceiling where the code
  checks it; a \<open>str\<close> is the string of its UTF-8 bytes; a \<open>BTreeMap\<close> is a sorted association list
  behind the locale \<open>ordered_map\<close>, a \<open>BTreeSet\<close> one with unit values. A \<open>&mut self\<close> method returns
  its result and the new state. \<open>transactional_machine\<close> is the contract of the state machines (an
  invariant, and calls that fail without effect); \<open>simulation\<close> that of a refinement. All loops are
  total functions, structural or with a measure: no fuel is used.

  \<^bold>\<open>Parameters.\<close> Code outside the repository is an argument of the definitions that use it: SHA-256
  and hexadecimal text, the derived decoders and encoders of serde, \<open>serde_json\<close> and \<open>rmp_serde\<close>,
  the ECMAScript parser, the transport, the Windows API and the answers of the file system. What a
  theorem needs of them (that decoding inverts encoding, that a digest separates the inputs at
  hand) is a hypothesis of that theorem, and its witness instantiates it.

  \<^bold>\<open>Runtime protocol\<close> (\<open>weregopher-domain/src/protocol.rs\<close>, \<open>runtime_protocol.rs\<close>, \<open>ids.rs\<close>;
  \<open>weregopher-runtime-protocol\<close>).
  \<^item> \<open>Protocol_Frame\<close>: message kinds, the frame header, limits; the header codec is exact.
  \<^item> \<open>MessagePack\<close>, \<open>MessagePack_Spec\<close>, \<open>MessagePack_Exact\<close>: the preflight of a payload accepts
    exactly the bounded encodings of the format.
  \<^item> \<open>Identifiers\<close>: stable names and their published pattern.
  \<^item> \<open>Wire_Values\<close>, \<open>Wire_Graph\<close>: values on the wire; the iterative validator equals a recursive
    specification.
  \<^item> \<open>Runtime_Messages\<close>, \<open>Protocol_Messages\<close>: all messages with their constructors and
    deserializers; exactly the messages of the contract are constructed.
  \<^item> \<open>Framing\<close>: writer and reader over abstract transports (locales \<open>byte_sink\<close>, \<open>byte_source\<close>,
    \<open>framed_link\<close>); of the messages sent the reader delivers, in order, exactly
    the longest prefix its own checks let through, and it refuses the next one; a message may be
    sent and still be refused, because values nest deeper in MessagePack than in their graph.
  \<^item> \<open>Handshake\<close>: nonce proof, host and worker verifiers and their agreement.
  \<^item> \<open>Session_State\<close>: pending requests and stream credit as state machines over all runs.

  \<^bold>\<open>Renderer\<close> (\<open>weregopher-domain/src/renderer.rs\<close>, \<open>weregopher-renderer\<close>).
  \<^item> \<open>Renderer_Lifecycle\<close>: the lifecycle machine and exactly its event sequences.
  \<^item> \<open>Package_Origin\<close>: asset paths, the package index, URLs and requests.
  \<^item> \<open>Renderer_Contracts\<close>, \<open>Renderer_Bridge\<close>: page messages, and the authority that turns them into
    runtime calls.

  \<^bold>\<open>Archives\<close> (\<open>weregopher-asar\<close>). \<open>Asar\<close> is the code; \<open>Asar_Tree\<close>, \<open>Asar_Layout\<close>,
  \<open>Asar_Archive\<close> show what a parsed archive guarantees and what replacement does, \<open>Asar_Roundtrip\<close>
  and \<open>Asar_Rewrite\<close> that a written archive is read back.

  \<^bold>\<open>Package fingerprints\<close> (\<open>weregopher-fingerprint/src/builder.rs\<close>, \<open>model.rs\<close>). \<open>Package_Manifest\<close>
  is the code: record checks, the Merkle tree, the builder and the reader. \<open>Package_Merkle\<close> shows
  that the hashed encodings are injective and that a tree is determined by its leaves,
  \<open>Package_Exact\<close> which records the loops accept, \<open>Package_Guarantees\<close> the theorems on manifests.

  \<^bold>\<open>App-server proxy\<close> (\<open>weregopher-adapter-openai/src/app_server_proxy.rs\<close>). \<open>App_Server_Json\<close> and
  \<open>App_Server_Proxy\<close> are the code; \<open>App_Server_Spec\<close> is an abstract proxy, \<open>App_Server_Refinement\<close>
  and \<open>App_Server_Invariant\<close> the simulation; \<open>App_Server_Session\<close>, \<open>App_Server_Order\<close> and
  \<open>App_Server_Progress\<close> the consequences for sessions: order, bounds, identities, delivery.

  \<^bold>\<open>Launching\<close> (\<open>weregopher-windows/src/process.rs\<close>, \<open>job.rs\<close>). \<open>Windows_Launch\<close> is the encoding of
  command lines and environment blocks, \<open>Windows_Argv\<close> what the C runtime reads,
  \<open>Windows_Readback\<close> their agreement.

  \<^bold>\<open>Execution authorization\<close> (\<open>weregopher-domain/src/execution.rs\<close>, \<open>execution_target.rs\<close>,
  \<open>compatibility.rs\<close>, \<open>digest.rs\<close>; \<open>weregopher-transform/src/execution_authorization.rs\<close>).
  \<^item> \<open>Bounded_Documents\<close>, \<open>Execution_Contracts\<close>, \<open>Execution_Targets\<close>, \<open>Execution_Documents\<close>,
    \<open>Execution_Wellformed\<close>: the documents and that exactly the well-formed ones are read.
  \<^item> \<open>Execution_Authorization\<close>: policies, the policy store, the decision and the launch;
    \<open>Authorization_Exact\<close> when it is granted, \<open>Authorization_Lifetime\<close> how long it is good for under
    interleaved policy changes, \<open>Authorization_Binding\<close> what its digests bind.

  \<^bold>\<open>Transformation\<close> (\<open>weregopher-domain/src/transformation.rs\<close>;
  \<open>weregopher-transform/src/planning.rs\<close>, \<open>emission.rs\<close>, \<open>source_map.rs\<close>). \<open>Transform_Plan\<close>,
  \<open>Transform_Emission\<close> and \<open>Source_Map\<close> are the code; \<open>Source_Map_Codec\<close> a reader of Source Map v3,
  \<open>Source_Map_Positions\<close> and \<open>Source_Map_Anchors\<close> reference positions and the origin of generated
  text, \<open>Source_Map_Roundtrip\<close> and \<open>Transform_Planned\<close> the theorems on the rewritten text and its map.

  \<^bold>\<open>Certification ledger\<close> (\<open>weregopher-domain/src/certification_control_plane.rs\<close>;
  \<open>weregopher-transform/src/certification_ledger.rs\<close>). \<open>Certification_Contracts\<close> and
  \<open>Certification_Records\<close> are the documents, \<open>Certification_Ledger\<close> the ledger over an explicit
  directory with the outcome of every I/O call as an input. \<open>Certification_Replay\<close>,
  \<open>Certification_History\<close> and \<open>Certification_Durable\<close> relate directories, histories and the state in
  memory; \<open>Certification_Guarantees\<close> concludes: durability, fail-closed writes, one winner among
  concurrent writers, tamper evidence and the meaning of an accepted history.

  \<^bold>\<open>Certification decisions\<close> (\<open>weregopher-domain/src/certification_evidence.rs\<close>,
  \<open>certification_runner.rs\<close>; \<open>weregopher-transform/src/certification_artifacts.rs\<close>,
  \<open>certification_policy.rs\<close>, \<open>certification_publication.rs\<close>, \<open>certification_runner_policy.rs\<close>,
  \<open>certification_runner_components.rs\<close>, \<open>certification_attestation.rs\<close>). \<open>Certification_Evidence\<close>
  validates evidence against a profile; \<open>Certification_Decision\<close> verifies the artifact bytes, assigns
  a class under a policy store with generations and prepares receipts; \<open>Certification_Runner\<close> approves
  a runner and verifies its components; \<open>Certification_Attested\<close> publishes an attestation under both
  policies. A shared store is passed in the state each read finds, and the relation \<open>policy_change\<close> says
  what other threads may do in between. The theorems show when artifacts are accepted, that no change
  of policy slips past a publication, and that an attestation states what was verified.

  \<^bold>\<open>How the parts meet.\<close> The reader of \<open>Framing\<close> runs the preflight, the deserializers and the graph
  validator in the order of the code, so \<open>framed_round_trip\<close> composes all of them and
  says which sent messages the reader's own checks let through. The bridge builds
  the runtime calls of \<open>Runtime_Messages\<close> for origins of \<open>Package_Origin\<close>. The authorization joins
  the execution documents with the launch encoder: what is authorized is what the launched process
  reads back. A plan is executed by the emitter and described by the source map, and the theorems
  hold for the same plan. The ledger reads back what it writes through the record contracts,
  and the attestations it records pass its validation when they come from an attested publication.

  \<^bold>\<open>Not modelled.\<close> Code that only performs Windows or file-system effects (pipes, path locks, job
  objects, process creation, package snapshots, the artifact store, tree acquisition, registry and
  package-catalog enumeration, WebView2), command-line entry points, test fixtures and repository
  automation: there is nothing to compute beyond the calls. The documents of certification
  scenarios and G2 evidence, scenario execution, and the probes and controls around the app-server proxy, are
  left out; they follow the patterns of the documents and of the proxy modelled here. Allocation
  failure is modelled where the code's answer depends on it in the protocol crates, and left out
  elsewhere, as the theories say. Generated JSON schemas are not modelled except for the pattern of
  stable names.
\<close>

end
